(* ===== verification/Prelude.thy ===== *)
theory Prelude
  imports Main "HOL-Library.Word"
begin

text \<open>
  Shared vocabulary of the development.

  \<^item> \<open>outcome\<close>: how a C function of libkc3 ends.  \<open>Ok x\<close> is a normal return, \<open>Null\<close>
    the NULL the library returns for every reported error (assertions are compiled out in the
    release build, so an \<open>assert(! "...")\<close> in front of a \<open>return NULL\<close> is that return),
    \<open>Abort\<close> a call of \<open>abort()\<close>, \<open>Undef\<close> a state the C standard leaves
    undefined (signed overflow, a value read after an unchecked error).
  \<^item> machine integers are words; \<open>sint\<close> reads the signed types s8 .. s64 and sw,
    \<open>uint\<close> the unsigned ones.  The collection \<open>word_val\<close> holds the facts that
    read a value through the casts of the C code.
  \<^item> \<open>cmp_int\<close>, \<open>lexi\<close>: the three-way result of the comparison functions.
\<close>

named_theorems word_val "value of a word after a cast of the C code"
named_theorems inv_intros "facts that establish an invariant"

datatype 'a outcome = Ok 'a | Null | Abort | Undef

primrec outcome_bind :: "'a outcome \<Rightarrow> ('a \<Rightarrow> 'b outcome) \<Rightarrow> 'b outcome" where
  "outcome_bind (Ok x) f = f x"
| "outcome_bind Null f = Null"
| "outcome_bind Abort f = Abort"
| "outcome_bind Undef f = Undef"

lemma outcome_bind_Ok_iff [simp]:
  "outcome_bind m f = Ok y \<longleftrightarrow> (\<exists>x. m = Ok x \<and> f x = Ok y)"
  by (cases m) auto

type_synonym s8 = "8 word"
type_synonym s16 = "16 word"
type_synonym s32 = "32 word"
type_synonym s64 = "64 word"
type_synonym sw = "64 word"
type_synonym u8 = "8 word"
type_synonym u16 = "16 word"
type_synonym u32 = "32 word"
type_synonym u64 = "64 word"
type_synonym uw = "64 word"

section \<open>Values of words under casts\<close>

lemma sint_scast_widen [word_val]:
  fixes x :: "'a::len word"
  assumes "LENGTH('a) \<le> LENGTH('b::len)"
  shows "sint (scast x :: 'b word) = sint x"
  by (rule sint_up_scast) (simp add: is_up assms)

lemma uint_ucast_widen [word_val]:
  fixes x :: "'a::len word"
  assumes "LENGTH('a) \<le> LENGTH('b::len)"
  shows "uint (ucast x :: 'b word) = uint x"
  by (rule uint_up_ucast) (simp add: is_up assms)

lemma sint_range_bits:
  fixes x :: "'a::len word"
  shows "- (2 ^ (LENGTH('a) - 1)) \<le> sint x" and "sint x < 2 ^ (LENGTH('a) - 1)"
  using sint_greater_eq [of x] sint_less [of x] by simp_all

lemma sint_of_int_in_range:
  assumes "- (2 ^ (LENGTH('a::len) - 1)) \<le> i" and "i < 2 ^ (LENGTH('a) - 1)"
  shows "sint (word_of_int i :: 'a word) = i"
  using assms by (simp add: sint_sbintrunc' signed_take_bit_int_eq_self)

lemma uint_of_int_in_range:
  assumes "0 \<le> i" and "i < 2 ^ LENGTH('a::len)"
  shows "uint (word_of_int i :: 'a word) = i"
  using assms by (simp add: unsigned_of_int take_bit_int_eq_self)

lemma sint_ucast_widen [word_val]:
  fixes x :: "'a::len word"
  assumes "LENGTH('a) < LENGTH('b::len)"
  shows "sint (ucast x :: 'b word) = uint x"
proof -
  have "uint x < 2 ^ LENGTH('a)"
    by (rule uint_bounded)
  also have "(2::int) ^ LENGTH('a) \<le> 2 ^ (LENGTH('b) - 1)"
    using assms by (intro power_increasing) auto
  finally have "uint x < 2 ^ (LENGTH('b) - 1)" .
  moreover have "- (2 ^ (LENGTH('b) - 1)) \<le> uint x"
    by (rule order_trans [OF _ uint_ge_0]) simp
  moreover have eq: "(ucast x :: 'b word) = word_of_int (uint x)"
    by simp
  ultimately show ?thesis
    unfolding eq by (intro sint_of_int_in_range)
qed

lemma sint_word_add:
  fixes a b :: "'a::len word"
  assumes "- (2 ^ (LENGTH('a) - 1)) \<le> sint a + sint b"
    and "sint a + sint b < 2 ^ (LENGTH('a) - 1)"
  shows "sint (a + b) = sint a + sint b"
  using assms by (simp add: sint_word_ariths signed_take_bit_int_eq_self)

lemma sint_word_sub:
  fixes a b :: "'a::len word"
  assumes "- (2 ^ (LENGTH('a) - 1)) \<le> sint a - sint b"
    and "sint a - sint b < 2 ^ (LENGTH('a) - 1)"
  shows "sint (a - b) = sint a - sint b"
  using assms by (simp add: sint_word_ariths signed_take_bit_int_eq_self)

lemma sint_word_mul:
  fixes a b :: "'a::len word"
  assumes "- (2 ^ (LENGTH('a) - 1)) \<le> sint a * sint b"
    and "sint a * sint b < 2 ^ (LENGTH('a) - 1)"
  shows "sint (a * b) = sint a * sint b"
  using assms by (simp add: sint_word_ariths signed_take_bit_int_eq_self)

section \<open>Three-way results\<close>

text \<open>The body of the macro COMPARE_DEF of compare.c, on the values of its operands.\<close>

definition cmp_int :: "int \<Rightarrow> int \<Rightarrow> int" where
  "cmp_int a b = (if a < b then -1 else if b < a then 1 else 0)"

lemma cmp_int_simps [simp]:
  "cmp_int a b = 0 \<longleftrightarrow> a = b"
  "cmp_int a b = -1 \<longleftrightarrow> a < b"
  "cmp_int a b = 1 \<longleftrightarrow> b < a"
  "cmp_int a b < 0 \<longleftrightarrow> a < b"
  "0 < cmp_int a b \<longleftrightarrow> b < a"
  "cmp_int a b \<le> 0 \<longleftrightarrow> a \<le> b"
  by (auto simp: cmp_int_def)

lemma cmp_int_anti: "cmp_int b a = - cmp_int a b"
  by (simp add: cmp_int_def)

lemma cmp_int_self [simp]: "cmp_int a a = 0"
  by simp

lemma cmp_int_diff: "cmp_int (c + a) (c + b) = cmp_int a b"
  by (simp add: cmp_int_def)

text \<open>\<open>if ((r = first)) return r; return second;\<close>\<close>

definition lexi :: "int \<Rightarrow> int \<Rightarrow> int" where
  "lexi r s = (if r \<noteq> 0 then r else s)"

lemma lexi_simps [simp]:
  "lexi 0 s = s"
  "r \<noteq> 0 \<Longrightarrow> lexi r s = r"
  "lexi r s = 0 \<longleftrightarrow> r = 0 \<and> s = 0"
  by (auto simp: lexi_def)

lemma lexi_minus: "lexi (- r) (- s) = - lexi r s"
  by (simp add: lexi_def)

lemma lexi_le: "lexi r s \<le> 0 \<longleftrightarrow> r < 0 \<or> r = 0 \<and> s \<le> 0"
  by (auto simp: lexi_def)

lemma lexi_assoc: "lexi (lexi r s) t = lexi r (lexi s t)"
  by (simp add: lexi_def)

section \<open>The contract of a comparison\<close>

text \<open>
  \<open>tri r s t\<close> relates the results \<open>r = cmp x y\<close>, \<open>s = cmp y z\<close>, \<open>t = cmp x z\<close> of a transitive
  comparison.  The locale \<open>comparison\<close> is what the sorted structures of the database rely on:
  on the values in \<open>ok\<close> the comparison is a total preorder; \<open>strict_comparison\<close> adds that equal
  values are identical.
\<close>

definition tri :: "int \<Rightarrow> int \<Rightarrow> int \<Rightarrow> bool" where
  "tri r s t \<longleftrightarrow>
    (r \<le> 0 \<longrightarrow> s \<le> 0 \<longrightarrow> t \<le> 0 \<and> (t = 0 \<longleftrightarrow> r = 0 \<and> s = 0))"

lemma tri_lexi: "tri r s t \<Longrightarrow> tri r' s' t' \<Longrightarrow> tri (lexi r r') (lexi s s') (lexi t t')"
  by (auto simp: tri_def lexi_def split: if_splits)

lemma tri_cmp_int: "tri (cmp_int x y) (cmp_int y z) (cmp_int x z)"
  by (auto simp: tri_def cmp_int_def)

locale comparison =
  fixes cmp :: "'a \<Rightarrow> 'a \<Rightarrow> int" and ok :: "'a \<Rightarrow> bool"
  assumes anti: "ok x \<Longrightarrow> ok y \<Longrightarrow> cmp y x = - cmp x y"
    and cmp_tri: "ok x \<Longrightarrow> ok y \<Longrightarrow> ok z \<Longrightarrow> tri (cmp x y) (cmp y z) (cmp x z)"
begin

lemma cmp_self: "ok x \<Longrightarrow> cmp x x = 0"
  using anti [of x x] by simp

lemma le_trans: "ok x \<Longrightarrow> ok y \<Longrightarrow> ok z \<Longrightarrow> cmp x y \<le> 0 \<Longrightarrow> cmp y z \<le> 0 \<Longrightarrow> cmp x z \<le> 0"
  using cmp_tri [of x y z] by (simp add: tri_def)

lemma less_le_trans:
  "ok x \<Longrightarrow> ok y \<Longrightarrow> ok z \<Longrightarrow> cmp x y < 0 \<Longrightarrow> cmp y z \<le> 0 \<Longrightarrow> cmp x z < 0"
  using cmp_tri [of x y z] by (auto simp: tri_def)

lemma le_less_trans:
  "ok x \<Longrightarrow> ok y \<Longrightarrow> ok z \<Longrightarrow> cmp x y \<le> 0 \<Longrightarrow> cmp y z < 0 \<Longrightarrow> cmp x z < 0"
  using cmp_tri [of x y z] by (auto simp: tri_def)

lemma less_trans:
  "ok x \<Longrightarrow> ok y \<Longrightarrow> ok z \<Longrightarrow> cmp x y < 0 \<Longrightarrow> cmp y z < 0 \<Longrightarrow> cmp x z < 0"
  using less_le_trans [of x y z] by simp

lemma flip: "ok x \<Longrightarrow> ok y \<Longrightarrow> cmp x y < 0 \<longleftrightarrow> 0 < cmp y x"
  "ok x \<Longrightarrow> ok y \<Longrightarrow> cmp x y \<le> 0 \<longleftrightarrow> 0 \<le> cmp y x"
  "ok x \<Longrightarrow> ok y \<Longrightarrow> cmp x y = 0 \<longleftrightarrow> cmp y x = 0"
  using anti [of x y] by auto

lemma zero_cong:
  assumes "ok x" "ok y" "ok z" "cmp x y = 0"
  shows "cmp x z < 0 \<longleftrightarrow> cmp y z < 0" "cmp x z \<le> 0 \<longleftrightarrow> cmp y z \<le> 0" "cmp x z = 0 \<longleftrightarrow> cmp y z = 0"
proof -
  have yx: "cmp y x = 0" using assms flip(3) by blast
  show "cmp x z < 0 \<longleftrightarrow> cmp y z < 0" and le: "cmp x z \<le> 0 \<longleftrightarrow> cmp y z \<le> 0"
    using assms yx le_less_trans [of x y z] le_less_trans [of y x z] le_trans [of x y z] le_trans [of y x z]
    by auto
  then show "cmp x z = 0 \<longleftrightarrow> cmp y z = 0" by linarith
qed

text \<open>Three components compared in turn, as the three fact comparisons do.\<close>

lemma lex3:
  "comparison (\<lambda>x y. lexi (cmp (p x) (p y)) (lexi (cmp (q x) (q y)) (cmp (r x) (r y))))
    (\<lambda>x. ok (p x) \<and> ok (q x) \<and> ok (r x))"
proof
  show "lexi (cmp (p y) (p x)) (lexi (cmp (q y) (q x)) (cmp (r y) (r x))) =
      - lexi (cmp (p x) (p y)) (lexi (cmp (q x) (q y)) (cmp (r x) (r y)))"
    if "ok (p x) \<and> ok (q x) \<and> ok (r x)" "ok (p y) \<and> ok (q y) \<and> ok (r y)" for x y
    using that by (simp add: anti [of "p x" "p y"] anti [of "q x" "q y"] anti [of "r x" "r y"] lexi_minus)
qed (auto intro!: tri_lexi cmp_tri)

end

locale strict_comparison = comparison +
  assumes zero_eq: "ok x \<Longrightarrow> ok y \<Longrightarrow> cmp x y = 0 \<Longrightarrow> x = y"
begin

lemma zero_iff: "ok x \<Longrightarrow> ok y \<Longrightarrow> cmp x y = 0 \<longleftrightarrow> x = y"
  using zero_eq cmp_self by blast

end

end
