(* ===== verification/Integers.thy ===== *)
theory Integers
  imports Prelude "HOL-Library.Signed_Division"
begin

unbundle bit_operations_syntax

text \<open>
  The integers of libkc3 (integer.c) and the tagged values (types.h, tag.c).

  An \<open>s_integer\<close> wraps an \<open>mp_int\<close> of libtommath.  That library is not part of the
  repository, so its calls are the fields of the record \<open>mplib\<close>, a parameter of every
  definition that uses it, and the predicate \<open>mp_ok\<close> states the documented behaviour
  the code relies on.  An \<open>s_integer\<close> itself is modelled by the mathematical integer it
  stores.  Running out of memory inside \<open>mp_init\<close> is not modelled; a failing
  arithmetic operation is (the value \<open>None\<close>).
\<close>

section \<open>libtommath, a parameter\<close>

datatype mp_ord = MP_LT | MP_EQ | MP_GT

record mplib =
  mp_add :: "int \<Rightarrow> int \<Rightarrow> int option"
  mp_sub :: "int \<Rightarrow> int \<Rightarrow> int option"
  mp_mul :: "int \<Rightarrow> int \<Rightarrow> int option"
  mp_div :: "int \<Rightarrow> int \<Rightarrow> int option"
  mp_mod :: "int \<Rightarrow> int \<Rightarrow> int option"
  mp_and :: "int \<Rightarrow> int \<Rightarrow> int option"
  mp_or :: "int \<Rightarrow> int \<Rightarrow> int option"
  mp_xor :: "int \<Rightarrow> int \<Rightarrow> int option"
  mp_complement :: "int \<Rightarrow> int option"
  mp_neg :: "int \<Rightarrow> int option"
  mp_cmp :: "int \<Rightarrow> int \<Rightarrow> mp_ord"
  mp_set_i32 :: "s32 \<Rightarrow> int"
  mp_set_i64 :: "s64 \<Rightarrow> int"
  mp_set_u32 :: "u32 \<Rightarrow> int"
  mp_set_u64 :: "u64 \<Rightarrow> int"
  mp_set_ul :: "uw \<Rightarrow> int"
  mp_get_i32 :: "int \<Rightarrow> s32"
  mp_get_i64 :: "int \<Rightarrow> s64"
  mp_get_u32 :: "int \<Rightarrow> u32"
  mp_get_u64 :: "int \<Rightarrow> u64"

text \<open>
  The documented behaviour.  Division truncates (\<open>mp_div\<close>), the remainder has the sign of the
  divisor (\<open>mp_mod\<close>), both report \<open>MP_VAL\<close> when the divisor is zero, and the bitwise operations
  act on the two's complement representation.
\<close>

definition mp_ok :: "mplib \<Rightarrow> bool" where
  "mp_ok mp \<longleftrightarrow>
    (\<forall>a b c. mp_add mp a b = Some c \<longrightarrow> c = a + b) \<and>
    (\<forall>a b c. mp_sub mp a b = Some c \<longrightarrow> c = a - b) \<and>
    (\<forall>a b c. mp_mul mp a b = Some c \<longrightarrow> c = a * b) \<and>
    (\<forall>a b c. mp_div mp a b = Some c \<longrightarrow> b \<noteq> 0 \<and> c = a sdiv b) \<and>
    (\<forall>a b c. mp_mod mp a b = Some c \<longrightarrow> b \<noteq> 0 \<and> c = a mod b) \<and>
    (\<forall>a b c. mp_and mp a b = Some c \<longrightarrow> c = a AND b) \<and>
    (\<forall>a b c. mp_or mp a b = Some c \<longrightarrow> c = a OR b) \<and>
    (\<forall>a b c. mp_xor mp a b = Some c \<longrightarrow> c = a XOR b) \<and>
    (\<forall>a c. mp_complement mp a = Some c \<longrightarrow> c = NOT a) \<and>
    (\<forall>a c. mp_neg mp a = Some c \<longrightarrow> c = - a) \<and>
    (\<forall>a b. mp_cmp mp a b = (if a < b then MP_LT else if a = b then MP_EQ else MP_GT)) \<and>
    (\<forall>x. mp_set_i32 mp x = sint x) \<and> (\<forall>x. mp_set_i64 mp x = sint x) \<and>
    (\<forall>x. mp_set_u32 mp x = uint x) \<and> (\<forall>x. mp_set_u64 mp x = uint x) \<and>
    (\<forall>x. mp_set_ul mp x = uint x) \<and>
    (\<forall>i. - (2 ^ 31) \<le> i \<and> i < 2 ^ 31 \<longrightarrow> mp_get_i32 mp i = word_of_int i) \<and>
    (\<forall>i. - (2 ^ 63) \<le> i \<and> i < 2 ^ 63 \<longrightarrow> mp_get_i64 mp i = word_of_int i) \<and>
    (\<forall>i. 0 \<le> i \<and> i < 2 ^ 32 \<longrightarrow> mp_get_u32 mp i = word_of_int i) \<and>
    (\<forall>i. 0 \<le> i \<and> i < 2 ^ 64 \<longrightarrow> mp_get_u64 mp i = word_of_int i)"

text \<open>The library whose arithmetic never runs out of memory.\<close>

definition mp_total :: "mplib \<Rightarrow> bool" where
  "mp_total mp \<longleftrightarrow> 
    (\<forall>a b. mp_add mp a b \<noteq> None \<and> mp_sub mp a b \<noteq> None \<and> mp_mul mp a b \<noteq> None) \<and>
    (\<forall>a b. b \<noteq> 0 \<longrightarrow> mp_div mp a b \<noteq> None \<and> mp_mod mp a b \<noteq> None) \<and>
    (\<forall>a b. mp_and mp a b \<noteq> None \<and> mp_or mp a b \<noteq> None \<and> mp_xor mp a b \<noteq> None) \<and>
    (\<forall>a. mp_complement mp a \<noteq> None \<and> mp_neg mp a \<noteq> None)"

text \<open>An instance: exact arithmetic.  The witnesses of the development use it.\<close>

definition mp_exact :: mplib where
  "mp_exact = \<lparr>mp_add = \<lambda>a b. Some (a + b), mp_sub = \<lambda>a b. Some (a - b),
    mp_mul = \<lambda>a b. Some (a * b),
    mp_div = \<lambda>a b. if b = 0 then None else Some (a sdiv b),
    mp_mod = \<lambda>a b. if b = 0 then None else Some (a mod b),
    mp_and = \<lambda>a b. Some (a AND b), mp_or = \<lambda>a b. Some (a OR b), mp_xor = \<lambda>a b. Some (a XOR b),
    mp_complement = \<lambda>a. Some (NOT a), mp_neg = \<lambda>a. Some (- a),
    mp_cmp = \<lambda>a b. if a < b then MP_LT else if a = b then MP_EQ else MP_GT,
    mp_set_i32 = sint, mp_set_i64 = sint, mp_set_u32 = uint, mp_set_u64 = uint,
    mp_set_ul = uint, mp_get_i32 = word_of_int, mp_get_i64 = word_of_int,
    mp_get_u32 = word_of_int, mp_get_u64 = word_of_int\<rparr>"

lemma mp_ok_exact [simp]: "mp_ok mp_exact"
  by (simp add: mp_ok_def mp_exact_def)

lemma mp_total_exact [simp]: "mp_total mp_exact"
  by (simp add: mp_total_def mp_exact_def)

section \<open>integer.c\<close>

definition integer_set_s32 :: "mplib \<Rightarrow> s32 \<Rightarrow> int" where
  "integer_set_s32 mp x = mp_set_i32 mp x"

definition integer_set_s64 :: "mplib \<Rightarrow> s64 \<Rightarrow> int" where
  "integer_set_s64 mp x = mp_set_i64 mp x"

definition integer_set_sw :: "mplib \<Rightarrow> sw \<Rightarrow> int" where
  "integer_set_sw mp x = mp_set_i64 mp x"

definition integer_set_u32 :: "mplib \<Rightarrow> u32 \<Rightarrow> int" where
  "integer_set_u32 mp x = mp_set_u32 mp x"

definition integer_set_u64 :: "mplib \<Rightarrow> u64 \<Rightarrow> int" where
  "integer_set_u64 mp x = mp_set_u64 mp x"

definition integer_set_uw :: "mplib \<Rightarrow> uw \<Rightarrow> int" where
  "integer_set_uw mp x = mp_set_ul mp x"

definition integer_init_s8 :: "mplib \<Rightarrow> s8 \<Rightarrow> int" where
  "integer_init_s8 mp x = integer_set_s32 mp (scast x)"

definition integer_init_s16 :: "mplib \<Rightarrow> s16 \<Rightarrow> int" where
  "integer_init_s16 mp x = integer_set_s32 mp (scast x)"

definition integer_init_s32 :: "mplib \<Rightarrow> s32 \<Rightarrow> int" where
  "integer_init_s32 mp x = integer_set_s32 mp x"

definition integer_init_s64 :: "mplib \<Rightarrow> s64 \<Rightarrow> int" where
  "integer_init_s64 mp x = integer_set_s64 mp x"

definition integer_init_sw :: "mplib \<Rightarrow> sw \<Rightarrow> int" where
  "integer_init_sw mp x = integer_set_sw mp x"

definition integer_init_u8 :: "mplib \<Rightarrow> u8 \<Rightarrow> int" where
  "integer_init_u8 mp x = integer_set_u32 mp (ucast x)"

definition integer_init_u16 :: "mplib \<Rightarrow> u16 \<Rightarrow> int" where
  "integer_init_u16 mp x = integer_set_u32 mp (ucast x)"

definition integer_init_u32 :: "mplib \<Rightarrow> u32 \<Rightarrow> int" where
  "integer_init_u32 mp x = integer_set_u32 mp x"

definition integer_init_u64 :: "mplib \<Rightarrow> u64 \<Rightarrow> int" where
  "integer_init_u64 mp x = integer_set_u64 mp x"

definition integer_init_uw :: "mplib \<Rightarrow> uw \<Rightarrow> int" where
  "integer_init_uw mp x = integer_set_uw mp x"

text \<open>The result \<open>None\<close> is the NULL returned when libtommath reports an error.\<close>

definition integer_add :: "mplib \<Rightarrow> int \<Rightarrow> int \<Rightarrow> int option" where
  "integer_add mp a b = mp_add mp a b"

definition integer_sub :: "mplib \<Rightarrow> int \<Rightarrow> int \<Rightarrow> int option" where
  "integer_sub mp a b = mp_sub mp a b"

definition integer_mul :: "mplib \<Rightarrow> int \<Rightarrow> int \<Rightarrow> int option" where
  "integer_mul mp a b = mp_mul mp a b"

definition integer_div :: "mplib \<Rightarrow> int \<Rightarrow> int \<Rightarrow> int option" where
  "integer_div mp a b = mp_div mp a b"

definition integer_mod :: "mplib \<Rightarrow> int \<Rightarrow> int \<Rightarrow> int option" where
  "integer_mod mp a b = mp_mod mp a b"

definition integer_band :: "mplib \<Rightarrow> int \<Rightarrow> int \<Rightarrow> int option" where
  "integer_band mp a b = mp_and mp a b"

definition integer_bor :: "mplib \<Rightarrow> int \<Rightarrow> int \<Rightarrow> int option" where
  "integer_bor mp a b = mp_or mp a b"

definition integer_bxor :: "mplib \<Rightarrow> int \<Rightarrow> int \<Rightarrow> int option" where
  "integer_bxor mp a b = mp_xor mp a b"

definition integer_bnot :: "mplib \<Rightarrow> int \<Rightarrow> int option" where
  "integer_bnot mp a = mp_complement mp a"

definition integer_neg :: "mplib \<Rightarrow> int \<Rightarrow> int option" where
  "integer_neg mp a = mp_neg mp a"

definition integer_to_s8 :: "mplib \<Rightarrow> int \<Rightarrow> s8" where
  "integer_to_s8 mp i = scast (mp_get_i32 mp i)"

definition integer_to_s16 :: "mplib \<Rightarrow> int \<Rightarrow> s16" where
  "integer_to_s16 mp i = scast (mp_get_i32 mp i)"

definition integer_to_s32 :: "mplib \<Rightarrow> int \<Rightarrow> s32" where
  "integer_to_s32 mp i = mp_get_i32 mp i"

definition integer_to_s64 :: "mplib \<Rightarrow> int \<Rightarrow> s64" where
  "integer_to_s64 mp i = mp_get_i64 mp i"

definition integer_to_sw :: "mplib \<Rightarrow> int \<Rightarrow> sw" where
  "integer_to_sw mp i = mp_get_i64 mp i"

definition integer_to_u8 :: "mplib \<Rightarrow> int \<Rightarrow> u8" where
  "integer_to_u8 mp i = ucast (mp_get_u32 mp i)"

definition integer_to_u16 :: "mplib \<Rightarrow> int \<Rightarrow> u16" where
  "integer_to_u16 mp i = ucast (mp_get_u32 mp i)"

definition integer_to_u32 :: "mplib \<Rightarrow> int \<Rightarrow> u32" where
  "integer_to_u32 mp i = mp_get_u32 mp i"

definition integer_to_u64 :: "mplib \<Rightarrow> int \<Rightarrow> u64" where
  "integer_to_u64 mp i = mp_get_u64 mp i"

definition integer_to_uw :: "mplib \<Rightarrow> int \<Rightarrow> uw" where
  "integer_to_uw mp i = mp_get_u64 mp i"

text \<open>compare.c\<close>

definition compare_integer :: "mplib \<Rightarrow> int \<Rightarrow> int \<Rightarrow> int" where
  "compare_integer mp a b = (case mp_cmp mp a b of MP_LT \<Rightarrow> -1 | MP_EQ \<Rightarrow> 0 | MP_GT \<Rightarrow> 1)"

text \<open>The global bounds that \<open>kc3_integer_init\<close> builds.\<close>

record g_integers =
  g_integer_s8_min :: int
  g_integer_s16_min :: int
  g_integer_s32_min :: int
  g_integer_s64_min :: int
  g_integer_u8_max :: int
  g_integer_u16_max :: int
  g_integer_u32_max :: int
  g_integer_u64_max :: int
  g_integer_zero :: int

definition kc3_integer_init :: "mplib \<Rightarrow> g_integers" where
  "kc3_integer_init mp = \<lparr>
    g_integer_s8_min = integer_init_s8 mp (- (2 ^ 7)),
    g_integer_s16_min = integer_init_s16 mp (- (2 ^ 15)),
    g_integer_s32_min = integer_init_s32 mp (- (2 ^ 31)),
    g_integer_s64_min = integer_init_s64 mp (- (2 ^ 63)),
    g_integer_u8_max = integer_init_u8 mp 255,
    g_integer_u16_max = integer_init_u16 mp 65535,
    g_integer_u32_max = integer_init_u32 mp 4294967295,
    g_integer_u64_max = integer_init_u64 mp 18446744073709551615,
    g_integer_zero = integer_init_u8 mp 0\<rparr>"

section \<open>What the integer operations compute\<close>

lemma scast_of_int:
  fixes i :: int
  assumes "LENGTH('b::len) \<le> LENGTH('a::len)"
  shows "(scast (word_of_int i :: 'a word) :: 'b word) = word_of_int i"
proof -
  have "(scast (word_of_int i :: 'a word) :: 'b word) = word_of_int (signed_take_bit (LENGTH('a) - Suc 0) i)"
    by (simp add: scast_eq signed_of_int)
  also have "\<dots> = word_of_int i"
    using assms by (intro bit_word_eqI) (auto simp: bit_simps)
  finally show ?thesis .
qed

lemma ucast_of_int:
  fixes i :: int
  assumes "LENGTH('b::len) \<le> LENGTH('a::len)"
  shows "(ucast (word_of_int i :: 'a word) :: 'b word) = word_of_int i"
  using assms by (intro bit_word_eqI) (auto simp: bit_simps)

lemma integer_init_val [word_val]:
  assumes "mp_ok mp"
  shows "integer_init_s8 mp x8 = sint x8" "integer_init_s16 mp x16 = sint x16"
    "integer_init_s32 mp x32 = sint x32" "integer_init_s64 mp x64 = sint x64"
    "integer_init_sw mp xw = sint xw"
    "integer_init_u8 mp x8 = uint x8" "integer_init_u16 mp x16 = uint x16"
    "integer_init_u32 mp x32 = uint x32" "integer_init_u64 mp x64 = uint x64"
    "integer_init_uw mp xw = uint xw"
  using assms
  by (simp_all add: mp_ok_def integer_init_s8_def integer_init_s16_def integer_init_s32_def
      integer_init_s64_def integer_init_sw_def integer_init_u8_def integer_init_u16_def
      integer_init_u32_def integer_init_u64_def integer_init_uw_def integer_set_s32_def
      integer_set_s64_def integer_set_sw_def integer_set_u32_def integer_set_u64_def
      integer_set_uw_def sint_scast_widen uint_ucast_widen)

lemma compare_integer_val [word_val]:
  "mp_ok mp \<Longrightarrow> compare_integer mp a b = cmp_int a b"
  by (simp add: mp_ok_def compare_integer_def cmp_int_def)

lemma integer_op_val:
  assumes "mp_ok mp"
  shows "integer_add mp a b = Some c \<Longrightarrow> c = a + b"
    "integer_sub mp a b = Some c \<Longrightarrow> c = a - b"
    "integer_mul mp a b = Some c \<Longrightarrow> c = a * b"
  using assms by (simp_all add: mp_ok_def integer_add_def integer_sub_def integer_mul_def)

lemma integer_op_total:
  assumes "mp_ok mp" "mp_total mp"
  shows "integer_add mp a b = Some (a + b)" "integer_sub mp a b = Some (a - b)"
    "integer_mul mp a b = Some (a * b)"
proof -
  obtain x y z where "integer_add mp a b = Some x" "integer_sub mp a b = Some y"
    "integer_mul mp a b = Some z"
    using assms(2)
    unfolding mp_total_def integer_add_def integer_sub_def integer_mul_def not_None_eq by blast
  with integer_op_val [OF assms(1)]
  show "integer_add mp a b = Some (a + b)" "integer_sub mp a b = Some (a - b)"
    "integer_mul mp a b = Some (a * b)"
    by auto
qed

lemma integer_div_mod_total:
  assumes "mp_ok mp" "mp_total mp"
  shows "integer_div mp a b = (if b = 0 then None else Some (a sdiv b))"
    "integer_mod mp a b = (if b = 0 then None else Some (a mod b))"
proof -
  have "b \<noteq> 0 \<longrightarrow> (\<exists>x. mp_div mp a b = Some x) \<and> (\<exists>x. mp_mod mp a b = Some x)"
    using assms(2) unfolding mp_total_def not_None_eq by blast
  moreover have "mp_div mp a b = Some c \<longrightarrow> b \<noteq> 0 \<and> c = a sdiv b"
    "mp_mod mp a b = Some c \<longrightarrow> b \<noteq> 0 \<and> c = a mod b" for c
    using assms(1) by (simp_all add: mp_ok_def)
  ultimately show "integer_div mp a b = (if b = 0 then None else Some (a sdiv b))"
    "integer_mod mp a b = (if b = 0 then None else Some (a mod b))"
    unfolding integer_div_def integer_mod_def by (cases "mp_div mp a b"; cases "mp_mod mp a b"; auto)+
qed

lemma integer_bit_total:
  assumes "mp_ok mp" "mp_total mp"
  shows "integer_band mp a b = Some (a AND b)" "integer_bor mp a b = Some (a OR b)"
    "integer_bxor mp a b = Some (a XOR b)" "integer_bnot mp a = Some (NOT a)"
    "integer_neg mp a = Some (- a)"
proof -
  obtain u v w x y where *: "mp_and mp a b = Some u" "mp_or mp a b = Some v" "mp_xor mp a b = Some w"
    "mp_complement mp a = Some x" "mp_neg mp a = Some y"
    using assms(2) unfolding mp_total_def not_None_eq by blast
  then have "u = a AND b" "v = a OR b" "w = a XOR b" "x = NOT a" "y = - a"
    using assms(1) by (simp_all add: mp_ok_def)
  with * show "integer_band mp a b = Some (a AND b)" "integer_bor mp a b = Some (a OR b)"
    "integer_bxor mp a b = Some (a XOR b)" "integer_bnot mp a = Some (NOT a)"
    "integer_neg mp a = Some (- a)"
    unfolding integer_band_def integer_bor_def integer_bxor_def integer_bnot_def integer_neg_def
    by simp_all
qed

text \<open>The conversions back to a machine integer.\<close>

lemma integer_to_val:
  assumes "mp_ok mp"
  shows "- (2 ^ 31) \<le> i \<Longrightarrow> i < 2 ^ 31 \<Longrightarrow> integer_to_s8 mp i = word_of_int i"
    "- (2 ^ 31) \<le> i \<Longrightarrow> i < 2 ^ 31 \<Longrightarrow> integer_to_s16 mp i = word_of_int i"
    "- (2 ^ 31) \<le> i \<Longrightarrow> i < 2 ^ 31 \<Longrightarrow> integer_to_s32 mp i = word_of_int i"
    "- (2 ^ 63) \<le> i \<Longrightarrow> i < 2 ^ 63 \<Longrightarrow> integer_to_s64 mp i = word_of_int i"
    "- (2 ^ 63) \<le> i \<Longrightarrow> i < 2 ^ 63 \<Longrightarrow> integer_to_sw mp i = word_of_int i"
    "0 \<le> i \<Longrightarrow> i < 2 ^ 32 \<Longrightarrow> integer_to_u8 mp i = word_of_int i"
    "0 \<le> i \<Longrightarrow> i < 2 ^ 32 \<Longrightarrow> integer_to_u16 mp i = word_of_int i"
    "0 \<le> i \<Longrightarrow> i < 2 ^ 32 \<Longrightarrow> integer_to_u32 mp i = word_of_int i"
    "0 \<le> i \<Longrightarrow> i < 2 ^ 64 \<Longrightarrow> integer_to_u64 mp i = word_of_int i"
    "0 \<le> i \<Longrightarrow> i < 2 ^ 64 \<Longrightarrow> integer_to_uw mp i = word_of_int i"
  using assms
  by (simp_all add: mp_ok_def integer_to_s8_def integer_to_s16_def integer_to_s32_def
      integer_to_s64_def integer_to_sw_def integer_to_u8_def integer_to_u16_def integer_to_u32_def
      integer_to_u64_def integer_to_uw_def scast_of_int ucast_of_int)

lemma kc3_integer_init_val:
  assumes "mp_ok mp"
  shows "g_integer_s8_min (kc3_integer_init mp) = -128"
    "g_integer_s16_min (kc3_integer_init mp) = -32768"
    "g_integer_s32_min (kc3_integer_init mp) = -2147483648"
    "g_integer_s64_min (kc3_integer_init mp) = -9223372036854775808"
    "g_integer_u8_max (kc3_integer_init mp) = 255"
    "g_integer_u16_max (kc3_integer_init mp) = 65535"
    "g_integer_u32_max (kc3_integer_init mp) = 4294967295"
    "g_integer_u64_max (kc3_integer_init mp) = 18446744073709551615"
    "g_integer_zero (kc3_integer_init mp) = 0"
  using assms by (simp_all add: kc3_integer_init_def integer_init_val)

end
