(* ===== verification/Tags.thy ===== *)
theory Tags
  imports Integers
begin

text \<open>
  Tagged values (types.h) and the operations that choose their integer type (integer.c, tag.c).

  The constructors are those of the union \<open>tag_data\<close>, in the order of \<open>e_tag_type\<close>.
  Not represented: arrays, floating point, complex numbers, callables, copy-on-write values,
  fact databases as values, pointers and structures.  A list is the sequence of its cells with
  the tag in the last \<open>next\<close> field when that is not a list (a dotted list); a variable is
  its \<open>id\<close>, the variable's binding being part of the state of the code that binds it.
\<close>

type_synonym str = "u8 list"
type_synonym sym = "u8 list"

datatype ident = Ident (ident_module: "sym option") (ident_sym: sym)

datatype 'a fact = Fact (fact_subject: 'a) (fact_predicate: 'a) (fact_object: 'a) (fact_id: uw)

datatype tag =
    TVoid
  | TDoBlock "tag list" bool
  | TBool bool
  | TCharacter u32
  | TFact "tag fact"
  | TInteger int
  | TRatio int int
  | TSW sw
  | TS64 s64
  | TS32 s32
  | TS16 s16
  | TS8 s8
  | TU8 u8
  | TU16 u16
  | TU32 u32
  | TU64 u64
  | TUW uw
  | TPlist "tag list" "tag option"
  | TMap "(tag \<times> tag) list"
  | TPcall ident "tag list"
  | TPsym sym
  | TPtr u64
  | TPtrFree u64
  | TPvar uw
  | TQuote tag
  | TStr str
  | TTime sw sw "(tag \<times> tag) option"
  | TPtuple "tag list"
  | TUnquote tag
  | TIdent ident

fun tag_type :: "tag \<Rightarrow> nat" where
  "tag_type TVoid = 0"
| "tag_type (TDoBlock _ _) = 2"
| "tag_type (TBool _) = 3"
| "tag_type (TCharacter _) = 4"
| "tag_type (TFact _) = 9"
| "tag_type (TInteger _) = 10"
| "tag_type (TRatio _ _) = 11"
| "tag_type (TSW _) = 12"
| "tag_type (TS64 _) = 13"
| "tag_type (TS32 _) = 14"
| "tag_type (TS16 _) = 15"
| "tag_type (TS8 _) = 16"
| "tag_type (TU8 _) = 17"
| "tag_type (TU16 _) = 18"
| "tag_type (TU32 _) = 19"
| "tag_type (TU64 _) = 20"
| "tag_type (TUW _) = 21"
| "tag_type (TPlist _ _) = 22"
| "tag_type (TMap _) = 23"
| "tag_type (TPcall _ _) = 24"
| "tag_type (TPsym _) = 32"
| "tag_type (TPtr _) = 34"
| "tag_type (TPtrFree _) = 35"
| "tag_type (TPvar _) = 36"
| "tag_type (TQuote _) = 37"
| "tag_type (TStr _) = 38"
| "tag_type (TTime _ _ _) = 39"
| "tag_type (TPtuple _) = 40"
| "tag_type (TUnquote _) = 41"
| "tag_type (TIdent _) = 42"

text \<open>The mathematical value of an integer tag, the specification of this theory.\<close>

fun tag_int :: "tag \<Rightarrow> int option" where
  "tag_int (TInteger i) = Some i"
| "tag_int (TSW x) = Some (sint x)"
| "tag_int (TS64 x) = Some (sint x)"
| "tag_int (TS32 x) = Some (sint x)"
| "tag_int (TS16 x) = Some (sint x)"
| "tag_int (TS8 x) = Some (sint x)"
| "tag_int (TU8 x) = Some (uint x)"
| "tag_int (TU16 x) = Some (uint x)"
| "tag_int (TU32 x) = Some (uint x)"
| "tag_int (TU64 x) = Some (uint x)"
| "tag_int (TUW x) = Some (uint x)"
| "tag_int _ = None"

section \<open>Reduction to the smallest type\<close>

definition integer_reduce :: "mplib \<Rightarrow> int \<Rightarrow> tag" where
  "integer_reduce mp i = (let g = kc3_integer_init mp in
    if compare_integer mp i (g_integer_u64_max g) > 0 then TInteger i
    else if compare_integer mp i (g_integer_u32_max g) > 0 then TU64 (integer_to_u64 mp i)
    else if compare_integer mp i (g_integer_u16_max g) > 0 then TU32 (integer_to_u32 mp i)
    else if compare_integer mp i (g_integer_u8_max g) > 0 then TU16 (integer_to_u16 mp i)
    else if compare_integer mp i (g_integer_zero g) \<ge> 0 then TU8 (integer_to_u8 mp i)
    else if compare_integer mp i (g_integer_s8_min g) \<ge> 0 then TS8 (integer_to_s8 mp i)
    else if compare_integer mp i (g_integer_s16_min g) \<ge> 0 then TS16 (integer_to_s16 mp i)
    else if compare_integer mp i (g_integer_s32_min g) \<ge> 0 then TS32 (integer_to_s32 mp i)
    else if compare_integer mp i (g_integer_s64_min g) \<ge> 0 then TS64 (integer_to_s64 mp i)
    else TInteger i)"

definition tag_integer_reduce :: "mplib \<Rightarrow> tag \<Rightarrow> tag outcome" where
  "tag_integer_reduce mp tag = (case tag of
      TInteger i \<Rightarrow> Ok (integer_reduce mp i)
    | TS8 x \<Rightarrow> Ok (integer_reduce mp (integer_init_s8 mp x))
    | TS16 x \<Rightarrow> Ok (integer_reduce mp (integer_init_s16 mp x))
    | TS32 x \<Rightarrow> Ok (integer_reduce mp (integer_init_s32 mp x))
    | TS64 x \<Rightarrow> Ok (integer_reduce mp (integer_init_s64 mp x))
    | TSW x \<Rightarrow> Ok (integer_reduce mp (integer_init_sw mp x))
    | TU8 x \<Rightarrow> Ok (TU8 x)
    | TU16 x \<Rightarrow> Ok (integer_reduce mp (integer_init_u16 mp x))
    | TU32 x \<Rightarrow> Ok (integer_reduce mp (integer_init_u32 mp x))
    | TU64 x \<Rightarrow> Ok (integer_reduce mp (integer_init_u64 mp x))
    | TUW x \<Rightarrow> Ok (integer_reduce mp (integer_init_uw mp x))
    | _ \<Rightarrow> Null)"

definition tag_init_uw_reduce :: "uw \<Rightarrow> tag" where
  "tag_init_uw_reduce src =
    (if uint src \<ge> 4294967295 then TUW src
     else if uint src \<ge> 65535 then TU32 (ucast src)
     else if uint src \<ge> 255 then TU16 (ucast src)
     else TU8 (ucast src))"

text \<open>The reference: the type an integer value is reduced to.\<close>

definition reduced :: "int \<Rightarrow> tag" where
  "reduced i =
    (if i > 18446744073709551615 then TInteger i
     else if i > 4294967295 then TU64 (word_of_int i)
     else if i > 65535 then TU32 (word_of_int i)
     else if i > 255 then TU16 (word_of_int i)
     else if i \<ge> 0 then TU8 (word_of_int i)
     else if i \<ge> -128 then TS8 (word_of_int i)
     else if i \<ge> -32768 then TS16 (word_of_int i)
     else if i \<ge> -2147483648 then TS32 (word_of_int i)
     else if i \<ge> -9223372036854775808 then TS64 (word_of_int i)
     else TInteger i)"

lemma integer_reduce_eq:
  assumes "mp_ok mp"
  shows "integer_reduce mp i = reduced i"
proof -
  note [simp] = kc3_integer_init_val [OF assms] compare_integer_val [OF assms] not_le not_less
  have get: "- (2 ^ 31) \<le> i \<and> i < 2 ^ 31 \<longrightarrow> mp_get_i32 mp i = word_of_int i"
    "- (2 ^ 63) \<le> i \<and> i < 2 ^ 63 \<longrightarrow> mp_get_i64 mp i = word_of_int i"
    "0 \<le> i \<and> i < 2 ^ 32 \<longrightarrow> mp_get_u32 mp i = word_of_int i"
    "0 \<le> i \<and> i < 2 ^ 64 \<longrightarrow> mp_get_u64 mp i = word_of_int i"
    using assms by (auto simp: mp_ok_def)
  have cmp: "0 < cmp_int a b \<longleftrightarrow> b < a" "0 \<le> cmp_int a b \<longleftrightarrow> b \<le> a" for a b
    by (auto simp: cmp_int_def)
  show ?thesis
    using get
    by (auto simp: integer_reduce_def reduced_def Let_def cmp integer_to_u64_def
        integer_to_u32_def integer_to_u16_def integer_to_u8_def integer_to_s8_def
        integer_to_s16_def integer_to_s32_def integer_to_s64_def ucast_of_int scast_of_int)
qed

lemma tag_int_reduced [simp]: "tag_int (reduced i) = Some i"
  by (auto simp: reduced_def sint_of_int_in_range uint_of_int_in_range simp del: of_int_numeral)

end
