(* ===== verification/Compare.thy ===== *)
theory Compare
  imports Tags
begin

text \<open>
  compare.c: the three-way comparisons of libkc3, the order every index of the database sorts by.

  A comparison returns -1, 0 or 1.  \<open>compare_abort\<close> stands for the call of \<open>abort()\<close> at the
  end of \<open>compare_tag\<close>, \<open>compare_undef\<close> for a comparison of values left undefined by a
  failed libtommath call; theory Compare\_Order shows that neither is reached from tags
  without ratios, and that a tag compares as equal with itself.  So the shortcuts
  \<open>if (a == b) return 0\<close> on pointers return what the comparison of the values returns, and
  the model compares values.  The numeric part is one
  definition per row of the switch of \<open>compare_tag\<close>, on the first operand's integer type; a row returns \<open>None\<close>
  where the C switch falls through to the comparison of the type numbers.
\<close>

definition compare_abort :: int where "compare_abort = 2"

definition compare_undef :: int where "compare_undef = 3"

section \<open>Instances of COMPARE_DEF and plain values\<close>

definition compare_s8 :: "s8 \<Rightarrow> s8 \<Rightarrow> int" where
  "compare_s8 a b = (if a <s b then -1 else if b <s a then 1 else 0)"

definition compare_s16 :: "s16 \<Rightarrow> s16 \<Rightarrow> int" where
  "compare_s16 a b = (if a <s b then -1 else if b <s a then 1 else 0)"

definition compare_s32 :: "s32 \<Rightarrow> s32 \<Rightarrow> int" where
  "compare_s32 a b = (if a <s b then -1 else if b <s a then 1 else 0)"

definition compare_s64 :: "s64 \<Rightarrow> s64 \<Rightarrow> int" where
  "compare_s64 a b = (if a <s b then -1 else if b <s a then 1 else 0)"

definition compare_sw :: "sw \<Rightarrow> sw \<Rightarrow> int" where
  "compare_sw a b = (if a <s b then -1 else if b <s a then 1 else 0)"

definition compare_u8 :: "u8 \<Rightarrow> u8 \<Rightarrow> int" where
  "compare_u8 a b = (if a < b then -1 else if b < a then 1 else 0)"

definition compare_u16 :: "u16 \<Rightarrow> u16 \<Rightarrow> int" where
  "compare_u16 a b = (if a < b then -1 else if b < a then 1 else 0)"

definition compare_u32 :: "u32 \<Rightarrow> u32 \<Rightarrow> int" where
  "compare_u32 a b = (if a < b then -1 else if b < a then 1 else 0)"

definition compare_u64 :: "u64 \<Rightarrow> u64 \<Rightarrow> int" where
  "compare_u64 a b = (if a < b then -1 else if b < a then 1 else 0)"

definition compare_uw :: "uw \<Rightarrow> uw \<Rightarrow> int" where
  "compare_uw a b = (if a < b then -1 else if b < a then 1 else 0)"

definition compare_character :: "u32 \<Rightarrow> u32 \<Rightarrow> int" where
  "compare_character a b = (if a < b then -1 else if b < a then 1 else 0)"

definition compare_bool :: "bool \<Rightarrow> bool \<Rightarrow> int" where
  "compare_bool a b =
    (if \<not> a \<and> b then -1 else if (\<not> a \<and> \<not> b) \<or> (a \<and> b) then 0 else 1)"

definition compare_ptr :: "u64 \<Rightarrow> u64 \<Rightarrow> int" where
  "compare_ptr a b = (if a < b then -1 else if a = b then 0 else 1)"

definition compare_var :: "uw \<Rightarrow> uw \<Rightarrow> int" where
  "compare_var a b = compare_uw a b"

text \<open>The C library's \<open>memcmp\<close> on the first \<open>n\<close> bytes.\<close>

fun memcmp :: "u8 list \<Rightarrow> u8 list \<Rightarrow> nat \<Rightarrow> int" where
  "memcmp (x # xs) (y # ys) (Suc n) = (if x < y then -1 else if y < x then 1 else memcmp xs ys n)"
| "memcmp _ _ _ = 0"

definition compare_str :: "str \<Rightarrow> str \<Rightarrow> int" where
  "compare_str a b =
    (let sz = (if length a < length b then length a else length b);
         r = memcmp a b sz
     in if r < 0 then -1
        else if r > 0 then 1
        else if length a < length b then -1
        else if length a > length b then 1
        else 0)"

definition compare_sym :: "sym option \<Rightarrow> sym option \<Rightarrow> int" where
  "compare_sym a b = (case a of
      None \<Rightarrow> (case b of None \<Rightarrow> 0 | Some _ \<Rightarrow> -1)
    | Some x \<Rightarrow> (case b of None \<Rightarrow> 1 | Some y \<Rightarrow> compare_str x y))"

definition compare_ident :: "ident \<Rightarrow> ident \<Rightarrow> int" where
  "compare_ident a b =
    lexi (compare_sym (ident_module a) (ident_module b))
      (compare_sym (Some (ident_sym a)) (Some (ident_sym b)))"

definition compare_ratio :: "mplib \<Rightarrow> int \<Rightarrow> int \<Rightarrow> int \<Rightarrow> int \<Rightarrow> int" where
  "compare_ratio mp a_num a_den b_num b_den =
    (case (integer_mul mp a_num b_den, integer_mul mp b_num a_den) of
      (Some a_cross_product, Some b_cross_product) \<Rightarrow>
        compare_integer mp a_cross_product b_cross_product
    | _ \<Rightarrow> compare_undef)"

section \<open>The integer rows of compare\_tag\<close>

definition compare_tag_integer :: "mplib \<Rightarrow> int \<Rightarrow> tag \<Rightarrow> int option" where
  "compare_tag_integer mp a b = (case b of
      TInteger b \<Rightarrow> Some (compare_integer mp a b)
    | TS8 b \<Rightarrow> Some (compare_integer mp a (integer_init_s8 mp b))
    | TS16 b \<Rightarrow> Some (compare_integer mp a (integer_init_s16 mp b))
    | TS32 b \<Rightarrow> Some (compare_integer mp a (integer_init_s32 mp b))
    | TS64 b \<Rightarrow> Some (compare_integer mp a (integer_init_s64 mp b))
    | TSW b \<Rightarrow> Some (compare_integer mp a (integer_init_sw mp b))
    | TU8 b \<Rightarrow> Some (compare_integer mp a (integer_init_u8 mp b))
    | TU16 b \<Rightarrow> Some (compare_integer mp a (integer_init_u16 mp b))
    | TU32 b \<Rightarrow> Some (compare_integer mp a (integer_init_u32 mp b))
    | TU64 b \<Rightarrow> Some (compare_integer mp a (integer_init_u64 mp b))
    | TUW b \<Rightarrow> Some (compare_integer mp a (integer_init_uw mp b))
    | _ \<Rightarrow> None)"

definition compare_tag_s8 :: "mplib \<Rightarrow> s8 \<Rightarrow> tag \<Rightarrow> int option" where
  "compare_tag_s8 mp a b = (case b of
      TInteger b \<Rightarrow> Some (compare_integer mp (integer_init_s8 mp a) b)
    | TS8 b \<Rightarrow> Some (compare_s8 a b)
    | TS16 b \<Rightarrow> Some (compare_s16 (scast a :: s16) b)
    | TS32 b \<Rightarrow> Some (compare_s32 (scast a :: s32) b)
    | TS64 b \<Rightarrow> Some (compare_s64 (scast a :: s64) b)
    | TSW b \<Rightarrow> Some (compare_s64 (scast a :: s64) (scast b :: s64))
    | TU8 b \<Rightarrow> Some (compare_s16 (scast a :: s16) (ucast b :: s16))
    | TU16 b \<Rightarrow> Some (compare_s32 (scast a :: s32) (ucast b :: s32))
    | TU32 b \<Rightarrow> Some (compare_s64 (scast a :: s64) (ucast b :: s64))
    | TU64 b \<Rightarrow> Some (compare_integer mp (integer_init_s8 mp a) (integer_init_u64 mp b))
    | TUW b \<Rightarrow> Some (compare_integer mp (integer_init_s8 mp a) (integer_init_u64 mp (ucast b :: u64)))
    | _ \<Rightarrow> None)"

definition compare_tag_s16 :: "mplib \<Rightarrow> s16 \<Rightarrow> tag \<Rightarrow> int option" where
  "compare_tag_s16 mp a b = (case b of
      TInteger b \<Rightarrow> Some (compare_integer mp (integer_init_s16 mp a) b)
    | TS8 b \<Rightarrow> Some (compare_s16 a (scast b :: s16))
    | TS16 b \<Rightarrow> Some (compare_s16 a b)
    | TS32 b \<Rightarrow> Some (compare_s32 (scast a :: s32) b)
    | TS64 b \<Rightarrow> Some (compare_s64 (scast a :: s64) b)
    | TSW b \<Rightarrow> Some (compare_s64 (scast a :: s64) (scast b :: s64))
    | TU8 b \<Rightarrow> Some (compare_s16 a (ucast b :: s16))
    | TU16 b \<Rightarrow> Some (compare_s32 (scast a :: s32) (ucast b :: s32))
    | TU32 b \<Rightarrow> Some (compare_s64 (scast a :: s64) (ucast b :: s64))
    | TU64 b \<Rightarrow> Some (compare_integer mp (integer_init_s16 mp a) (integer_init_u64 mp b))
    | TUW b \<Rightarrow> Some (compare_integer mp (integer_init_s16 mp a) (integer_init_u64 mp (ucast b :: u64)))
    | _ \<Rightarrow> None)"

definition compare_tag_s32 :: "mplib \<Rightarrow> s32 \<Rightarrow> tag \<Rightarrow> int option" where
  "compare_tag_s32 mp a b = (case b of
      TInteger b \<Rightarrow> Some (compare_integer mp (integer_init_s32 mp a) b)
    | TS8 b \<Rightarrow> Some (compare_s32 a (scast b :: s32))
    | TS16 b \<Rightarrow> Some (compare_s32 a (scast b :: s32))
    | TS32 b \<Rightarrow> Some (compare_s32 a b)
    | TS64 b \<Rightarrow> Some (compare_s64 (scast a :: s64) b)
    | TSW b \<Rightarrow> Some (compare_s64 (scast a :: s64) (scast b :: s64))
    | TU8 b \<Rightarrow> Some (compare_s32 a (ucast b :: s32))
    | TU16 b \<Rightarrow> Some (compare_s32 a (ucast b :: s32))
    | TU32 b \<Rightarrow> Some (compare_s64 (scast a :: s64) (ucast b :: s64))
    | TU64 b \<Rightarrow> Some (compare_integer mp (integer_init_s32 mp a) (integer_init_u64 mp b))
    | TUW b \<Rightarrow> Some (compare_integer mp (integer_init_s32 mp a) (integer_init_u64 mp (ucast b :: u64)))
    | _ \<Rightarrow> None)"

definition compare_tag_s64 :: "mplib \<Rightarrow> s64 \<Rightarrow> tag \<Rightarrow> int option" where
  "compare_tag_s64 mp a b = (case b of
      TInteger b \<Rightarrow> Some (compare_integer mp (integer_init_s64 mp a) b)
    | TS8 b \<Rightarrow> Some (compare_s64 a (scast b :: s64))
    | TS16 b \<Rightarrow> Some (compare_s64 a (scast b :: s64))
    | TS32 b \<Rightarrow> Some (compare_s64 a (scast b :: s64))
    | TS64 b \<Rightarrow> Some (compare_s64 a b)
    | TSW b \<Rightarrow> Some (compare_s64 a (scast b :: s64))
    | TU8 b \<Rightarrow> Some (compare_s64 a (ucast b :: s64))
    | TU16 b \<Rightarrow> Some (compare_s64 a (ucast b :: s64))
    | TU32 b \<Rightarrow> Some (compare_s64 a (ucast b :: s64))
    | TU64 b \<Rightarrow> Some (compare_integer mp (integer_init_s64 mp a) (integer_init_u64 mp b))
    | TUW b \<Rightarrow> Some (compare_integer mp (integer_init_s64 mp a) (integer_init_u64 mp (ucast b :: u64)))
    | _ \<Rightarrow> None)"

definition compare_tag_sw :: "mplib \<Rightarrow> sw \<Rightarrow> tag \<Rightarrow> int option" where
  "compare_tag_sw mp a b = (case b of
      TInteger b \<Rightarrow> Some (compare_integer mp (integer_init_s64 mp (scast a :: s64)) b)
    | TS8 b \<Rightarrow> Some (compare_sw a (scast b :: sw))
    | TS16 b \<Rightarrow> Some (compare_sw a (scast b :: sw))
    | TS32 b \<Rightarrow> Some (compare_sw a (scast b :: sw))
    | TS64 b \<Rightarrow> Some (compare_sw a (scast b :: sw))
    | TSW b \<Rightarrow> Some (compare_sw a b)
    | TU8 b \<Rightarrow> Some (compare_sw a (ucast b :: sw))
    | TU16 b \<Rightarrow> Some (compare_sw a (ucast b :: sw))
    | TU32 b \<Rightarrow> Some (compare_sw a (ucast b :: sw))
    | TU64 b \<Rightarrow> Some (compare_integer mp (integer_init_sw mp a) (integer_init_u64 mp b))
    | TUW b \<Rightarrow> Some (compare_integer mp (integer_init_sw mp a) (integer_init_uw mp b))
    | _ \<Rightarrow> None)"

definition compare_tag_u8 :: "mplib \<Rightarrow> u8 \<Rightarrow> tag \<Rightarrow> int option" where
  "compare_tag_u8 mp a b = (case b of
      TInteger b \<Rightarrow> Some (compare_integer mp (integer_init_u8 mp a) b)
    | TS8 b \<Rightarrow> Some (compare_s16 (ucast a :: s16) (scast b :: s16))
    | TS16 b \<Rightarrow> Some (compare_s16 (ucast a :: s16) b)
    | TS32 b \<Rightarrow> Some (compare_s32 (ucast a :: s32) b)
    | TS64 b \<Rightarrow> Some (compare_s64 (ucast a :: s64) b)
    | TSW b \<Rightarrow> Some (compare_sw (ucast a :: sw) b)
    | TU8 b \<Rightarrow> Some (compare_u8 a b)
    | TU16 b \<Rightarrow> Some (compare_u16 (ucast a :: u16) b)
    | TU32 b \<Rightarrow> Some (compare_u32 (ucast a :: u32) b)
    | TU64 b \<Rightarrow> Some (compare_u64 (ucast a :: u64) b)
    | TUW b \<Rightarrow> Some (compare_u64 (ucast a :: u64) (ucast b :: u64))
    | _ \<Rightarrow> None)"

definition compare_tag_u16 :: "mplib \<Rightarrow> u16 \<Rightarrow> tag \<Rightarrow> int option" where
  "compare_tag_u16 mp a b = (case b of
      TInteger b \<Rightarrow> Some (compare_integer mp (integer_init_u16 mp a) b)
    | TS8 b \<Rightarrow> Some (compare_s16 (ucast a :: s16) (scast b :: s16))
    | TS16 b \<Rightarrow> Some (compare_s16 (ucast a :: s16) b)
    | TS32 b \<Rightarrow> Some (compare_s32 (ucast a :: s32) b)
    | TS64 b \<Rightarrow> Some (compare_s64 (ucast a :: s64) b)
    | TSW b \<Rightarrow> Some (compare_sw (ucast a :: sw) b)
    | TU8 b \<Rightarrow> Some (compare_u16 a (ucast b :: u16))
    | TU16 b \<Rightarrow> Some (compare_u16 a b)
    | TU32 b \<Rightarrow> Some (compare_u32 (ucast a :: u32) b)
    | TU64 b \<Rightarrow> Some (compare_u64 (ucast a :: u64) b)
    | TUW b \<Rightarrow> Some (compare_uw (ucast a :: uw) b)
    | _ \<Rightarrow> None)"

definition compare_tag_u32 :: "mplib \<Rightarrow> u32 \<Rightarrow> tag \<Rightarrow> int option" where
  "compare_tag_u32 mp a b = (case b of
      TInteger b \<Rightarrow> Some (compare_integer mp (integer_init_u32 mp a) b)
    | TS8 b \<Rightarrow> Some (compare_s64 (ucast a :: s64) (scast b :: s64))
    | TS16 b \<Rightarrow> Some (compare_s64 (ucast a :: s64) (scast b :: s64))
    | TS32 b \<Rightarrow> Some (compare_s64 (ucast a :: s64) (scast b :: s64))
    | TS64 b \<Rightarrow> Some (compare_s64 (ucast a :: s64) b)
    | TSW b \<Rightarrow> Some (compare_sw (ucast a :: sw) b)
    | TU8 b \<Rightarrow> Some (compare_u32 a (ucast b :: u32))
    | TU16 b \<Rightarrow> Some (compare_u32 a (ucast b :: u32))
    | TU32 b \<Rightarrow> Some (compare_u32 a b)
    | TU64 b \<Rightarrow> Some (compare_u64 (ucast a :: u64) b)
    | TUW b \<Rightarrow> Some (compare_u64 (ucast a :: u64) (ucast b :: u64))
    | _ \<Rightarrow> None)"

definition compare_tag_u64 :: "mplib \<Rightarrow> u64 \<Rightarrow> tag \<Rightarrow> int option" where
  "compare_tag_u64 mp a b = (case b of
      TInteger b \<Rightarrow> Some (compare_integer mp (integer_init_u64 mp a) b)
    | TS8 b \<Rightarrow> Some (compare_integer mp (integer_init_u64 mp a) (integer_init_s8 mp b))
    | TS16 b \<Rightarrow> Some (compare_integer mp (integer_init_u64 mp a) (integer_init_s16 mp b))
    | TS32 b \<Rightarrow> Some (compare_integer mp (integer_init_u64 mp a) (integer_init_s32 mp b))
    | TS64 b \<Rightarrow> Some (compare_integer mp (integer_init_u64 mp a) (integer_init_s64 mp b))
    | TSW b \<Rightarrow> Some (compare_integer mp (integer_init_u64 mp a) (integer_init_sw mp b))
    | TU8 b \<Rightarrow> Some (compare_u64 a (ucast b :: u64))
    | TU16 b \<Rightarrow> Some (compare_u64 a (ucast b :: u64))
    | TU32 b \<Rightarrow> Some (compare_u64 a (ucast b :: u64))
    | TU64 b \<Rightarrow> Some (compare_u64 a b)
    | TUW b \<Rightarrow> Some (compare_u64 a (ucast b :: u64))
    | _ \<Rightarrow> None)"

definition compare_tag_uw :: "mplib \<Rightarrow> uw \<Rightarrow> tag \<Rightarrow> int option" where
  "compare_tag_uw mp a b = (case b of
      TInteger b \<Rightarrow> Some (compare_integer mp (integer_init_uw mp a) b)
    | TS8 b \<Rightarrow> Some (compare_integer mp (integer_init_uw mp a) (integer_init_s8 mp b))
    | TS16 b \<Rightarrow> Some (compare_integer mp (integer_init_uw mp a) (integer_init_s16 mp b))
    | TS32 b \<Rightarrow> Some (compare_integer mp (integer_init_uw mp a) (integer_init_s32 mp b))
    | TS64 b \<Rightarrow> Some (compare_integer mp (integer_init_uw mp a) (integer_init_s64 mp b))
    | TSW b \<Rightarrow> Some (compare_integer mp (integer_init_uw mp a) (integer_init_sw mp b))
    | TU8 b \<Rightarrow> Some (compare_uw a (ucast b :: uw))
    | TU16 b \<Rightarrow> Some (compare_uw a (ucast b :: uw))
    | TU32 b \<Rightarrow> Some (compare_uw a (ucast b :: uw))
    | TU64 b \<Rightarrow> Some (compare_uw a (ucast b :: uw))
    | TUW b \<Rightarrow> Some (compare_uw a b)
    | _ \<Rightarrow> None)"

definition compare_tag_ratio :: "mplib \<Rightarrow> int \<Rightarrow> int \<Rightarrow> tag \<Rightarrow> int option" where
  "compare_tag_ratio mp n d b = (case b of
      TRatio n' d' \<Rightarrow> Some (compare_ratio mp n d n' d')
    | _ \<Rightarrow> None)"

definition compare_tag_pvar :: "uw \<Rightarrow> tag \<Rightarrow> int option" where
  "compare_tag_pvar a b = (case b of TPvar b \<Rightarrow> Some (compare_var a b) | _ \<Rightarrow> None)"

definition compare_tag_rows :: "mplib \<Rightarrow> tag \<Rightarrow> tag \<Rightarrow> int option" where
  "compare_tag_rows mp a b = (case a of
      TInteger i \<Rightarrow> compare_tag_integer mp i b
    | TPvar v \<Rightarrow> compare_tag_pvar v b
    | TRatio n d \<Rightarrow> compare_tag_ratio mp n d b
    | TS8 x \<Rightarrow> compare_tag_s8 mp x b
    | TS16 x \<Rightarrow> compare_tag_s16 mp x b
    | TS32 x \<Rightarrow> compare_tag_s32 mp x b
    | TS64 x \<Rightarrow> compare_tag_s64 mp x b
    | TSW x \<Rightarrow> compare_tag_sw mp x b
    | TU8 x \<Rightarrow> compare_tag_u8 mp x b
    | TU16 x \<Rightarrow> compare_tag_u16 mp x b
    | TU32 x \<Rightarrow> compare_tag_u32 mp x b
    | TU64 x \<Rightarrow> compare_tag_u64 mp x b
    | TUW x \<Rightarrow> compare_tag_uw mp x b
    | _ \<Rightarrow> None)"

section \<open>Comparisons of compound values\<close>

text \<open>The argument \<open>f\<close> is the comparison of the elements, \<open>compare_tag\<close> in the code.\<close>

fun compare_list :: "('a \<Rightarrow> 'a \<Rightarrow> int) \<Rightarrow> 'a list \<Rightarrow> 'a list \<Rightarrow> int" where
  "compare_list f [] [] = 0"
| "compare_list f [] (y # ys) = -1"
| "compare_list f (x # xs) [] = 1"
| "compare_list f (x # xs) (y # ys) = lexi (f x y) (compare_list f xs ys)"

text \<open>The loop \<open>while (i < a->count)\<close> over two arrays of the same count.\<close>

fun compare_array_loop :: "('a \<Rightarrow> 'a \<Rightarrow> int) \<Rightarrow> 'a list \<Rightarrow> 'a list \<Rightarrow> int" where
  "compare_array_loop f (x # xs) (y # ys) = lexi (f x y) (compare_array_loop f xs ys)"
| "compare_array_loop f _ _ = 0"

definition compare_tuple :: "('a \<Rightarrow> 'a \<Rightarrow> int) \<Rightarrow> 'a list \<Rightarrow> 'a list \<Rightarrow> int" where
  "compare_tuple f a b =
    (if length a < length b then -1
     else if length a > length b then 1
     else compare_array_loop f a b)"

definition compare_do_block ::
  "('a \<Rightarrow> 'a \<Rightarrow> int) \<Rightarrow> 'a list \<Rightarrow> bool \<Rightarrow> 'a list \<Rightarrow> bool \<Rightarrow> int" where
  "compare_do_block f a a_short b b_short =
    (if length a < length b then -1
     else if length a > length b then 1
     else lexi (compare_array_loop f a b)
       (if a_short \<and> \<not> b_short then -1 else if \<not> a_short \<and> b_short then 1 else 0))"

definition compare_map :: "('a \<Rightarrow> 'a \<Rightarrow> int) \<Rightarrow> ('a \<times> 'a) list \<Rightarrow> ('a \<times> 'a) list \<Rightarrow> int" where
  "compare_map f a b =
    (if length a < length b then -1
     else if length a > length b then 1
     else compare_array_loop (\<lambda>x y. lexi (f (fst x) (fst y)) (f (snd x) (snd y))) a b)"

definition compare_call ::
  "('a \<Rightarrow> 'a \<Rightarrow> int) \<Rightarrow> ident \<Rightarrow> 'a list \<Rightarrow> ident \<Rightarrow> 'a list \<Rightarrow> int" where
  "compare_call f a_ident a_arguments b_ident b_arguments =
    lexi (compare_ident a_ident b_ident) (compare_list f a_arguments b_arguments)"

definition compare_quote :: "('a \<Rightarrow> 'a \<Rightarrow> int) \<Rightarrow> 'a \<Rightarrow> 'a \<Rightarrow> int" where
  "compare_quote f a b = f a b"

definition compare_unquote :: "('a \<Rightarrow> 'a \<Rightarrow> int) \<Rightarrow> 'a \<Rightarrow> 'a \<Rightarrow> int" where
  "compare_unquote f a b = f a b"

definition compare_fact :: "('a \<Rightarrow> 'a \<Rightarrow> int) \<Rightarrow> 'a fact \<Rightarrow> 'a fact \<Rightarrow> int" where
  "compare_fact f a b =
    lexi (f (fact_subject a) (fact_subject b))
      (lexi (f (fact_predicate a) (fact_predicate b)) (f (fact_object a) (fact_object b)))"

definition compare_fact_id :: "('a \<Rightarrow> 'a \<Rightarrow> int) \<Rightarrow> 'a fact \<Rightarrow> 'a fact \<Rightarrow> int" where
  "compare_fact_id f a b =
    (if fact_id a < fact_id b then -1
     else if fact_id a > fact_id b then 1
     else lexi (f (fact_subject a) (fact_subject b))
       (lexi (f (fact_predicate a) (fact_predicate b)) (f (fact_object a) (fact_object b))))"

definition compare_fact_spo :: "('a \<Rightarrow> 'a \<Rightarrow> int) \<Rightarrow> 'a fact \<Rightarrow> 'a fact \<Rightarrow> int" where
  "compare_fact_spo f a b =
    lexi (f (fact_subject a) (fact_subject b))
      (lexi (f (fact_predicate a) (fact_predicate b)) (f (fact_object a) (fact_object b)))"

definition compare_fact_pos :: "('a \<Rightarrow> 'a \<Rightarrow> int) \<Rightarrow> 'a fact \<Rightarrow> 'a fact \<Rightarrow> int" where
  "compare_fact_pos f a b =
    lexi (f (fact_predicate a) (fact_predicate b))
      (lexi (f (fact_object a) (fact_object b)) (f (fact_subject a) (fact_subject b)))"

definition compare_fact_osp :: "('a \<Rightarrow> 'a \<Rightarrow> int) \<Rightarrow> 'a fact \<Rightarrow> 'a fact \<Rightarrow> int" where
  "compare_fact_osp f a b =
    lexi (f (fact_object a) (fact_object b))
      (lexi (f (fact_subject a) (fact_subject b)) (f (fact_predicate a) (fact_predicate b)))"

text \<open>A time without tags counts as the pair of its \<open>sw\<close> fields when the other has tags.\<close>

definition compare_time ::
  "(tag \<Rightarrow> tag \<Rightarrow> int) \<Rightarrow> sw \<Rightarrow> sw \<Rightarrow> (tag \<times> tag) option \<Rightarrow>
    sw \<Rightarrow> sw \<Rightarrow> (tag \<times> tag) option \<Rightarrow> int" where
  "compare_time f a_sec a_nsec a_tag b_sec b_nsec b_tag =
    (if a_tag = None \<and> b_tag = None then
       (if a_sec <s b_sec then -1
        else if b_sec <s a_sec then 1
        else if a_nsec <s b_nsec then -1
        else if b_nsec <s a_nsec then 1
        else 0)
     else
       (let a2 = (case a_tag of None \<Rightarrow> (TSW a_sec, TSW a_nsec) | Some p \<Rightarrow> p);
            b2 = (case b_tag of None \<Rightarrow> (TSW b_sec, TSW b_nsec) | Some p \<Rightarrow> p)
        in lexi (f (fst a2) (fst b2)) (f (snd a2) (snd b2))))"

text \<open>The last switch of \<open>compare_tag\<close>, reached with two tags of the same type.\<close>

definition compare_tag_same :: "(tag \<Rightarrow> tag \<Rightarrow> int) \<Rightarrow> tag \<Rightarrow> tag \<Rightarrow> int" where
  "compare_tag_same f a b = (case a of
      TVoid \<Rightarrow> 0
    | TBool x \<Rightarrow> (case b of TBool y \<Rightarrow> compare_bool x y | _ \<Rightarrow> compare_abort)
    | TCharacter x \<Rightarrow> (case b of TCharacter y \<Rightarrow> compare_character x y | _ \<Rightarrow> compare_abort)
    | TDoBlock x x' \<Rightarrow> (case b of TDoBlock y y' \<Rightarrow> compare_do_block f x x' y y' | _ \<Rightarrow> compare_abort)
    | TFact x \<Rightarrow> (case b of TFact y \<Rightarrow> compare_fact f x y | _ \<Rightarrow> compare_abort)
    | TIdent x \<Rightarrow> (case b of TIdent y \<Rightarrow> compare_ident x y | _ \<Rightarrow> compare_abort)
    | TMap x \<Rightarrow> (case b of TMap y \<Rightarrow> compare_map f x y | _ \<Rightarrow> compare_abort)
    | TPcall x x' \<Rightarrow> (case b of TPcall y y' \<Rightarrow> compare_call f x x' y y' | _ \<Rightarrow> compare_abort)
    | TPlist x _ \<Rightarrow> (case b of TPlist y _ \<Rightarrow> compare_list f x y | _ \<Rightarrow> compare_abort)
    | TPsym x \<Rightarrow> (case b of TPsym y \<Rightarrow> compare_str x y | _ \<Rightarrow> compare_abort)
    | TPtr x \<Rightarrow> (case b of TPtr y \<Rightarrow> compare_ptr x y | _ \<Rightarrow> compare_abort)
    | TPtrFree x \<Rightarrow> (case b of TPtrFree y \<Rightarrow> compare_ptr x y | _ \<Rightarrow> compare_abort)
    | TPvar x \<Rightarrow> (case b of TPvar y \<Rightarrow> compare_var x y | _ \<Rightarrow> compare_abort)
    | TQuote x \<Rightarrow> (case b of TQuote y \<Rightarrow> compare_quote f x y | _ \<Rightarrow> compare_abort)
    | TStr x \<Rightarrow> (case b of TStr y \<Rightarrow> compare_str x y | _ \<Rightarrow> compare_abort)
    | TTime x x' x'' \<Rightarrow> (case b of TTime y y' y'' \<Rightarrow> compare_time f x x' x'' y y' y'' | _ \<Rightarrow> compare_abort)
    | TPtuple x \<Rightarrow> (case b of TPtuple y \<Rightarrow> compare_tuple f x y | _ \<Rightarrow> compare_abort)
    | TUnquote x \<Rightarrow> (case b of TUnquote y \<Rightarrow> compare_unquote f x y | _ \<Rightarrow> compare_abort)
    | _ \<Rightarrow> compare_abort)"

end
