(* ===== verification/Compare_Order.thy ===== *)
theory Compare_Order
  imports Compare
begin

text \<open>
  \<open>compare_tag\<close> and the reference order it implements.

  \<open>tag_order\<close> compares two tags by a head (the type, the number, the count or the
  bytes) and then by the tags they contain.  \<open>compare_tag_eq_tag_order\<close> shows that the 121 rows of integer
  comparisons and the final switch of the C function compute it, on tags without ratios and
  without the pairs of u16 and small signed types for which the C function truncates
  (\<open>order_ok\<close>); both exclusions are necessary, as the two closed theorems at the end show.
  On \<open>canonical\<close> tags (every integer in its smallest type, no dotted list) two tags compare
  as equal only when they are the same tag.
\<close>

section \<open>The tags a comparison looks into\<close>

fun tag_subs :: "tag \<Rightarrow> tag list" where
  "tag_subs (TDoBlock xs short_form) = xs @ [TBool (\<not> short_form)]"
| "tag_subs (TFact f) = [fact_subject f, fact_predicate f, fact_object f]"
| "tag_subs (TPlist xs _) = xs"
| "tag_subs (TMap kvs) = concat (map (\<lambda>kv. [fst kv, snd kv]) kvs)"
| "tag_subs (TPcall i xs) = TIdent i # xs"
| "tag_subs (TQuote t) = [t]"
| "tag_subs (TUnquote t) = [t]"
| "tag_subs (TTime sec nsec None) = [TSW sec, TSW nsec]"
| "tag_subs (TTime _ _ (Some p)) = [fst p, snd p]"
| "tag_subs (TPtuple xs) = xs"
| "tag_subs _ = []"

lemma size_tag_subs: "t \<in> set (tag_subs a) \<Longrightarrow> size t < size a"
proof (induction a rule: tag_subs.induct)
  case (2 f)
  then show ?case by (cases f) auto
next
  case (4 kvs)
  then show ?case
    by (induction kvs) fastforce+
qed (auto simp: less_Suc_eq_le intro: size_list_estimation' trans_le_add1)

lemma compare_list_cong [fundef_cong]:
  assumes "xs = xs'" "ys = ys'" "\<And>x y. x \<in> set xs' \<Longrightarrow> y \<in> set ys' \<Longrightarrow> f x y = g x y"
  shows "compare_list f xs ys = compare_list g xs' ys'"
  using assms(3) unfolding assms(1,2) by (induction f xs' ys' rule: compare_list.induct) auto

lemma compare_array_loop_cong [fundef_cong]:
  assumes "xs = xs'" "ys = ys'" "\<And>x y. x \<in> set xs' \<Longrightarrow> y \<in> set ys' \<Longrightarrow> f x y = g x y"
  shows "compare_array_loop f xs ys = compare_array_loop g xs' ys'"
  using assms(3) unfolding assms(1,2) by (induction f xs' ys' rule: compare_array_loop.induct) auto


lemma compare_do_block_cong:
  assumes "\<And>x y. x \<in> set xs \<Longrightarrow> y \<in> set ys \<Longrightarrow> f x y = g x y"
  shows "compare_do_block f xs s ys t = compare_do_block g xs s ys t"
    "compare_tuple f xs ys = compare_tuple g xs ys"
    "compare_call f i xs j ys = compare_call g i xs j ys"
proof -
  have "compare_array_loop f xs ys = compare_array_loop g xs ys"
    by (rule compare_array_loop_cong [OF refl refl assms])
  moreover have "compare_list f xs ys = compare_list g xs ys"
    by (rule compare_list_cong [OF refl refl assms])
  ultimately show "compare_do_block f xs s ys t = compare_do_block g xs s ys t"
    "compare_tuple f xs ys = compare_tuple g xs ys"
    "compare_call f i xs j ys = compare_call g i xs j ys"
    by (simp_all add: compare_do_block_def compare_tuple_def compare_call_def)
qed

lemma compare_map_cong:
  assumes "\<And>x y. x \<in> fst ` set xs \<union> snd ` set xs \<Longrightarrow> y \<in> fst ` set ys \<union> snd ` set ys \<Longrightarrow> f x y = g x y"
  shows "compare_map f xs ys = compare_map g xs ys"
  using assms by (auto simp: compare_map_def intro!: compare_array_loop_cong arg_cong2 [where f = lexi])

lemma compare_time_cong:
  assumes "\<And>x y. x \<in> set (tag_subs (TTime s n p)) \<Longrightarrow> y \<in> set (tag_subs (TTime s' n' p')) \<Longrightarrow> f x y = g x y"
  shows "compare_time f s n p s' n' p' = compare_time g s n p s' n' p'"
  using assms by (cases p; cases p') (simp_all add: compare_time_def)


lemma compare_tag_same_cong [fundef_cong]:
  assumes "a = a'" "b = b'"
    "\<And>x y. x \<in> set (tag_subs a') \<Longrightarrow> y \<in> set (tag_subs b') \<Longrightarrow> f x y = g x y"
  shows "compare_tag_same f a b = compare_tag_same g a' b'"
  using assms(3) unfolding assms(1,2) compare_tag_same_def
  apply -
  apply (cases a'; simp only: tag.case; (rule refl | rule tag.case_cong [OF refl]); (rule refl)?)
  subgoal by (intro compare_do_block_cong) simp
  subgoal by (simp add: compare_fact_def)
  subgoal by (intro compare_list_cong) simp_all
  subgoal by (intro compare_map_cong) (auto simp: image_iff)
  subgoal by (intro compare_do_block_cong) simp
  subgoal by (simp add: compare_quote_def)
  subgoal by (intro compare_time_cong) simp
  subgoal by (intro compare_do_block_cong) simp
  subgoal by (simp add: compare_unquote_def)
  done

function compare_tag :: "mplib \<Rightarrow> tag \<Rightarrow> tag \<Rightarrow> int" where
  "compare_tag mp a b = (case compare_tag_rows mp a b of
      Some r \<Rightarrow> r
    | None \<Rightarrow>
        if tag_type a < tag_type b then -1
        else if tag_type a > tag_type b then 1
        else compare_tag_same (compare_tag mp) a b)"
  by auto
termination
  by (relation "measure (\<lambda>(mp, a, b). size a)") (auto simp: size_tag_subs)

declare compare_tag.simps [simp del]

section \<open>The reference order\<close>

definition sym_key :: "sym \<Rightarrow> int list" where
  "sym_key s = map (\<lambda>x. uint x + 1) s @ [0]"

definition ident_key :: "ident \<Rightarrow> int list" where
  "ident_key i = (case ident_module i of None \<Rightarrow> [0] | Some m \<Rightarrow> 1 # sym_key m) @ sym_key (ident_sym i)"

fun tag_head :: "tag \<Rightarrow> int list" where
  "tag_head (TBool x) = [3, of_bool x]"
| "tag_head (TCharacter x) = [4, uint x]"
| "tag_head (TDoBlock xs _) = [2, int (length xs)]"
| "tag_head (TIdent i) = 42 # ident_key i"
| "tag_head (TMap kvs) = [23, int (length kvs)]"
| "tag_head (TPsym s) = 32 # map uint s"
| "tag_head (TStr s) = 38 # map uint s"
| "tag_head (TPtr p) = [34, uint p]"
| "tag_head (TPtrFree p) = [35, uint p]"
| "tag_head (TPvar v) = [36, uint v]"
| "tag_head (TPtuple xs) = [40, int (length xs)]"
| "tag_head t = (case tag_int t of Some i \<Rightarrow> [10, i] | None \<Rightarrow> [int (tag_type t)])"

function tag_order :: "tag \<Rightarrow> tag \<Rightarrow> int" where
  "tag_order a b = lexi (compare_list cmp_int (tag_head a) (tag_head b))
    (compare_list tag_order (tag_subs a) (tag_subs b))"
  by auto
termination
  by (relation "measure (\<lambda>(a, b). size a)") (auto simp: size_tag_subs)

declare tag_order.simps [simp del]

lemma tag_type_eq_iff:
  "tag_type b = 0 \<longleftrightarrow> b = TVoid"
  "tag_type b = 2 \<longleftrightarrow> (\<exists>x y. b = TDoBlock x y)"
  "tag_type b = 3 \<longleftrightarrow> (\<exists>x. b = TBool x)"
  "tag_type b = 4 \<longleftrightarrow> (\<exists>x. b = TCharacter x)"
  "tag_type b = 9 \<longleftrightarrow> (\<exists>x. b = TFact x)"
  "tag_type b = 11 \<longleftrightarrow> (\<exists>x y. b = TRatio x y)"
  "tag_type b = 22 \<longleftrightarrow> (\<exists>x y. b = TPlist x y)"
  "tag_type b = 23 \<longleftrightarrow> (\<exists>x. b = TMap x)"
  "tag_type b = 24 \<longleftrightarrow> (\<exists>x y. b = TPcall x y)"
  "tag_type b = 32 \<longleftrightarrow> (\<exists>x. b = TPsym x)"
  "tag_type b = 34 \<longleftrightarrow> (\<exists>x. b = TPtr x)"
  "tag_type b = 35 \<longleftrightarrow> (\<exists>x. b = TPtrFree x)"
  "tag_type b = 36 \<longleftrightarrow> (\<exists>x. b = TPvar x)"
  "tag_type b = 37 \<longleftrightarrow> (\<exists>x. b = TQuote x)"
  "tag_type b = 38 \<longleftrightarrow> (\<exists>x. b = TStr x)"
  "tag_type b = 39 \<longleftrightarrow> (\<exists>x y z. b = TTime x y z)"
  "tag_type b = 40 \<longleftrightarrow> (\<exists>x. b = TPtuple x)"
  "tag_type b = 41 \<longleftrightarrow> (\<exists>x. b = TUnquote x)"
  "tag_type b = 42 \<longleftrightarrow> (\<exists>x. b = TIdent x)"
  by (cases b; simp; fail)+

lemma cmp_uint: "compare_u8 a b = cmp_int (uint a) (uint b)"
  "compare_u16 c d = cmp_int (uint c) (uint d)"
  "compare_u32 e f = cmp_int (uint e) (uint f)"
  "compare_u64 g h = cmp_int (uint g) (uint h)"
  "compare_uw g h = cmp_int (uint g) (uint h)"
  "compare_character e f = cmp_int (uint e) (uint f)"
  "compare_ptr g h = cmp_int (uint g) (uint h)"
  "compare_var g h = cmp_int (uint g) (uint h)"
  by (auto simp: compare_u8_def compare_u16_def compare_u32_def compare_u64_def compare_uw_def
      compare_character_def compare_ptr_def compare_var_def cmp_int_def word_less_def
      word_uint_eq_iff)

lemma cmp_sint: "compare_s8 a b = cmp_int (sint a) (sint b)"
  "compare_s16 c d = cmp_int (sint c) (sint d)"
  "compare_s32 e f = cmp_int (sint e) (sint f)"
  "compare_s64 g h = cmp_int (sint g) (sint h)"
  "compare_sw g h = cmp_int (sint g) (sint h)"
  by (auto simp: compare_s8_def compare_s16_def compare_s32_def compare_s64_def compare_sw_def
      cmp_int_def word_sless_alt)

lemma compare_list_append:
  "length xs = length ys \<Longrightarrow>
    compare_list f (xs @ us) (ys @ vs) = lexi (compare_array_loop f xs ys) (compare_list f us vs)"
  by (induction xs ys rule: list_induct2) (auto simp: lexi_assoc)

lemma compare_array_loop_list:
  "length xs = length ys \<Longrightarrow> compare_array_loop f xs ys = compare_list f xs ys"
  by (induction xs ys rule: list_induct2) auto

lemma memcmp_nonzero: "memcmp xs ys n = -1 \<or> memcmp xs ys n = 0 \<or> memcmp xs ys n = 1"
  by (induction xs ys n rule: memcmp.induct) auto

lemma compare_str_list: "compare_str a b = compare_list cmp_int (map uint a) (map uint b)"
proof (induction a arbitrary: b)
  case Nil
  show ?case by (cases b) (auto simp: compare_str_def)
next
  case (Cons x xs)
  show ?case
  proof (cases b)
    case Nil
    then show ?thesis by (simp add: compare_str_def)
  next
    case (Cons y ys)
    with Cons.IH [of ys] show ?thesis
      by (auto simp: compare_str_def Let_def lexi_def cmp_int_def word_less_def word_uint_eq_iff
          split: if_splits)
  qed
qed

lemma compare_list_sym_key:
  "compare_list cmp_int (sym_key a @ us) (sym_key b @ vs) =
    lexi (compare_str a b) (compare_list cmp_int us vs)"
proof (induction a arbitrary: b)
  case Nil
  show ?case by (cases b) (auto simp: sym_key_def compare_str_list cmp_int_def)
next
  case (Cons x xs)
  show ?case
  proof (cases b)
    case Nil
    moreover have "\<not> uint x + 1 < 0"
      using uint_ge_0 [of x] by linarith
    ultimately show ?thesis
      by (simp add: sym_key_def compare_str_list cmp_int_def lexi_def)
  next
    case (Cons y ys)
    with Cons.IH [of ys] show ?thesis
      by (auto simp: sym_key_def compare_str_list lexi_def cmp_int_def split: if_splits)
  qed
qed

lemma compare_ident_key: "compare_ident a b = compare_list cmp_int (ident_key a) (ident_key b)"
proof -
  have "compare_list cmp_int (sym_key x) (sym_key y) = compare_str x y" for x y
    using compare_list_sym_key [of x "[]" y "[]"] by (simp add: lexi_def)
  moreover have "compare_list cmp_int (0 # us) (1 # vs) = -1"
    "compare_list cmp_int (1 # us) (0 # vs) = 1" for us vs
    by (simp_all add: cmp_int_def lexi_def)
  ultimately show ?thesis
    by (auto simp: compare_ident_def ident_key_def compare_sym_def compare_list_sym_key lexi_def
        cmp_int_def split: option.splits)
qed

lemma compare_map_subs:
  "length xs = length ys \<Longrightarrow> compare_map f xs ys =
    compare_list f (concat (map (\<lambda>kv. [fst kv, snd kv]) xs)) (concat (map (\<lambda>kv. [fst kv, snd kv]) ys))"
proof (induction xs ys rule: list_induct2)
  case Nil
  show ?case by (simp add: compare_map_def)
next
  case (Cons x xs y ys)
  then show ?case by (simp add: compare_map_def lexi_assoc)
qed

lemma compare_list_count:
  "compare_list cmp_int [c, int m] [c, int n] = (if m < n then -1 else if n < m then 1 else 0)"
  by (simp add: cmp_int_def lexi_def)

lemma tag_order_flat:
  "tag_subs a = [] \<Longrightarrow> tag_subs b = [] \<Longrightarrow>
    tag_order a b = compare_list cmp_int (tag_head a) (tag_head b)"
  by (simp add: tag_order.simps [of a b] lexi_def)

text \<open>With the same type the last switch of compare_tag is the reference order.\<close>

lemma compare_tag_same_order:
  assumes same: "tag_type a = tag_type b" and "tag_int a = None" "tag_type a \<noteq> 11"
  shows "compare_tag_same tag_order a b = tag_order a b"
proof (cases a)
  case TVoid
  with same have "b = TVoid" by (simp add: tag_type_eq_iff)
  with TVoid show ?thesis by (simp add: compare_tag_same_def tag_order_flat)
next
  case (TDoBlock xs s)
  with same obtain ys t where b: "b = TDoBlock ys t" by (metis tag_type.simps(2) tag_type_eq_iff(2))
  have "tag_order (TBool u) (TBool v) = (if u \<and> \<not> v then 1 else if \<not> u \<and> v then -1 else 0)" for u v
    by (simp add: tag_order_flat cmp_int_def)
  then show ?thesis unfolding TDoBlock b
    by (subst tag_order.simps)
       (simp add: compare_tag_same_def compare_do_block_def compare_list_append cmp_int_def)
next
  case (TBool x)
  with same obtain y where "b = TBool y" by (metis tag_type.simps(3) tag_type_eq_iff(3))
  with TBool show ?thesis
    by (simp add: compare_tag_same_def tag_order_flat compare_bool_def cmp_int_def)
next
  case (TCharacter x)
  with same obtain y where "b = TCharacter y" by (metis tag_type.simps(4) tag_type_eq_iff(4))
  with TCharacter show ?thesis
    by (simp add: compare_tag_same_def tag_order_flat cmp_uint lexi_def)
next
  case (TFact x)
  with same obtain y where b: "b = TFact y" by (metis tag_type.simps(5) tag_type_eq_iff(5))
  show ?thesis unfolding TFact b
    by (subst tag_order.simps) (simp add: compare_tag_same_def compare_fact_def lexi_def)
next
  case (TRatio n d)
  with assms show ?thesis by simp
next
  case (TPlist xs t)
  with same obtain ys u where b: "b = TPlist ys u" by (metis tag_type.simps(18) tag_type_eq_iff(7))
  show ?thesis unfolding TPlist b
    by (subst tag_order.simps) (simp add: compare_tag_same_def)
next
  case (TMap xs)
  with same obtain ys where b: "b = TMap ys" by (metis tag_type.simps(19) tag_type_eq_iff(8))
  have "length xs = length ys \<Longrightarrow> compare_map tag_order xs ys =
      compare_list tag_order (tag_subs (TMap xs)) (tag_subs (TMap ys))"
    by (simp add: compare_map_subs)
  then show ?thesis unfolding TMap b
    by (subst tag_order.simps) (auto simp: compare_tag_same_def compare_map_def cmp_int_def)
next
  case (TPcall i xs)
  with same obtain j ys where b: "b = TPcall j ys" by (metis tag_type.simps(20) tag_type_eq_iff(9))
  have "tag_order (TIdent i) (TIdent j) = compare_ident i j"
    by (simp add: tag_order_flat compare_ident_key)
  then show ?thesis unfolding TPcall b
    by (subst tag_order.simps) (simp add: compare_tag_same_def compare_call_def)
next
  case (TPsym x)
  with same obtain y where b: "b = TPsym y" by (metis tag_type.simps(21) tag_type_eq_iff(10))
  with TPsym show ?thesis
    by (simp add: compare_tag_same_def tag_order_flat compare_str_list)
next
  case (TPtr x)
  with same obtain y where b: "b = TPtr y" by (metis tag_type.simps(22) tag_type_eq_iff(11))
  with TPtr show ?thesis by (simp add: compare_tag_same_def tag_order_flat cmp_uint lexi_def)
next
  case (TPtrFree x)
  with same obtain y where b: "b = TPtrFree y" by (metis tag_type.simps(23) tag_type_eq_iff(12))
  with TPtrFree show ?thesis by (simp add: compare_tag_same_def tag_order_flat cmp_uint lexi_def)
next
  case (TPvar x)
  with same obtain y where b: "b = TPvar y" by (metis tag_type.simps(24) tag_type_eq_iff(13))
  with TPvar show ?thesis by (simp add: compare_tag_same_def tag_order_flat cmp_uint lexi_def)
next
  case (TQuote x)
  with same obtain y where b: "b = TQuote y" by (metis tag_type.simps(25) tag_type_eq_iff(14))
  show ?thesis unfolding TQuote b
    by (subst tag_order.simps) (simp add: compare_tag_same_def compare_quote_def lexi_def)
next
  case (TStr x)
  with same obtain y where b: "b = TStr y" by (metis tag_type.simps(26) tag_type_eq_iff(15))
  with TStr show ?thesis
    by (simp add: compare_tag_same_def tag_order_flat compare_str_list)
next
  case (TTime s n p)
  with same obtain s' n' p' where b: "b = TTime s' n' p'" by (metis tag_type.simps(27) tag_type_eq_iff(16))
  have "tag_order (TSW v) (TSW w) = cmp_int (sint v) (sint w)" for v w
    by (simp add: tag_order_flat lexi_def)
  then show ?thesis unfolding TTime b
    by (subst tag_order.simps)
       (cases p; cases p'; auto simp: compare_tag_same_def compare_time_def cmp_int_def lexi_def
         word_sless_alt)
next
  case (TPtuple xs)
  with same obtain ys where b: "b = TPtuple ys" by (metis tag_type.simps(28) tag_type_eq_iff(17))
  show ?thesis unfolding TPtuple b
    by (subst tag_order.simps)
       (simp add: compare_tag_same_def compare_tuple_def compare_array_loop_list cmp_int_def)
next
  case (TUnquote x)
  with same obtain y where b: "b = TUnquote y" by (metis tag_type.simps(29) tag_type_eq_iff(18))
  show ?thesis unfolding TUnquote b
    by (subst tag_order.simps) (simp add: compare_tag_same_def compare_unquote_def lexi_def)
next
  case (TIdent x)
  with same obtain y where b: "b = TIdent y" by (metis tag_type.simps(30) tag_type_eq_iff(19))
  with TIdent show ?thesis
    by (simp add: compare_tag_same_def tag_order_flat compare_ident_key)
qed (use assms in \<open>simp_all\<close>)


section \<open>The order is a total preorder\<close>

lemma tri_list:
  "\<forall>x \<in> set xs. \<forall>y \<in> set ys. \<forall>z \<in> set zs. tri (f x y) (f y z) (f x z) \<Longrightarrow>
    tri (compare_list f xs ys) (compare_list f ys zs) (compare_list f xs zs)"
proof (induction xs arbitrary: ys zs)
  case Nil
  show ?case by (cases ys; cases zs) (auto simp: tri_def)
next
  case (Cons x xs)
  show ?case
  proof (cases "ys = [] \<or> zs = []")
    case True
    then show ?thesis by (cases ys; cases zs) (auto simp: tri_def)
  next
    case False
    then obtain y ys' z zs' where "ys = y # ys'" "zs = z # zs'"
      by (meson neq_Nil_conv)
    with Cons show ?thesis by (auto intro: tri_lexi)
  qed
qed

lemma anti_list:
  "\<forall>x \<in> set xs. \<forall>y \<in> set ys. f y x = - f x y \<Longrightarrow>
    compare_list f ys xs = - compare_list f xs ys"
proof (induction f xs ys rule: compare_list.induct)
  case (4 f x xs y ys)
  then show ?case by (simp add: lexi_minus)
qed auto

lemma range_list:
  "\<forall>x \<in> set xs. \<forall>y \<in> set ys. f x y \<in> {-1, 0, 1} \<Longrightarrow> compare_list f xs ys \<in> {-1, 0, 1}"
  by (induction f xs ys rule: compare_list.induct) (auto simp: lexi_def)

lemma zero_list:
  "\<forall>x \<in> set xs. \<forall>y \<in> set ys. f x y = 0 \<longrightarrow> x = y \<Longrightarrow> compare_list f xs ys = 0 \<Longrightarrow> xs = ys"
  by (induction f xs ys rule: compare_list.induct) auto

lemma tag_order_anti: "tag_order b a = - tag_order a b"
proof (induction a b rule: tag_order.induct)
  case (1 a b)
  then have "compare_list tag_order (tag_subs b) (tag_subs a) =
      - compare_list tag_order (tag_subs a) (tag_subs b)"
    by (intro anti_list) auto
  moreover have "compare_list cmp_int (tag_head b) (tag_head a) =
      - compare_list cmp_int (tag_head a) (tag_head b)"
    by (intro anti_list ballI cmp_int_anti)
  ultimately show ?case
    by (simp add: tag_order.simps [of b a] tag_order.simps [of a b] lexi_minus)
qed

lemma tag_order_tri: "tri (tag_order a b) (tag_order b c) (tag_order a c)"
proof (induction "size a" arbitrary: a b c rule: less_induct)
  case less
  then have "tri (compare_list tag_order (tag_subs a) (tag_subs b))
      (compare_list tag_order (tag_subs b) (tag_subs c))
      (compare_list tag_order (tag_subs a) (tag_subs c))"
    by (intro tri_list) (auto simp: size_tag_subs)
  moreover have "tri (compare_list cmp_int (tag_head a) (tag_head b))
      (compare_list cmp_int (tag_head b) (tag_head c))
      (compare_list cmp_int (tag_head a) (tag_head c))"
    by (intro tri_list) (auto simp: tri_cmp_int)
  ultimately show ?case
    by (simp add: tag_order.simps [of a b] tag_order.simps [of b c] tag_order.simps [of a c]
        tri_lexi)
qed

lemma tag_order_range: "tag_order a b \<in> {-1, 0, 1}"
proof (induction a b rule: tag_order.induct)
  case (1 a b)
  then have "compare_list tag_order (tag_subs a) (tag_subs b) \<in> {-1, 0, 1}"
    by (intro range_list) blast
  moreover have "compare_list cmp_int (tag_head a) (tag_head b) \<in> {-1, 0, 1}"
    by (intro range_list) (simp add: cmp_int_def)
  ultimately show ?case
    by (auto simp: tag_order.simps [of a b] lexi_def)
qed

lemma tag_order_refl [simp]: "tag_order a a = 0"
  using tag_order_anti [of a a] by simp

section \<open>compare\_tag is the reference order\<close>

definition order_local :: "bool \<Rightarrow> tag \<Rightarrow> bool" where
  "order_local small t = (case t of
      TRatio _ _ \<Rightarrow> False
    | TU16 x \<Rightarrow> small \<longrightarrow> uint x < 32768
    | TS8 _ \<Rightarrow> small
    | TS16 _ \<Rightarrow> small
    | _ \<Rightarrow> True)"

function order_ok :: "bool \<Rightarrow> tag \<Rightarrow> bool" where
  "order_ok small t \<longleftrightarrow> order_local small t \<and> (\<forall>x \<in> set (tag_subs t). order_ok small x)"
  by auto
termination
  by (relation "measure (\<lambda>(m, t). size t)") (auto simp: size_tag_subs)

declare order_ok.simps [simp del]

lemma order_ok_local: "order_ok m t \<Longrightarrow> order_local m t"
  by (simp add: order_ok.simps [of m t])

lemma order_ok_subs: "order_ok m t \<Longrightarrow> x \<in> set (tag_subs t) \<Longrightarrow> order_ok m x"
  by (simp add: order_ok.simps [of m t])

lemma uint_u16_as_s16: "uint (x :: u16) < 32768 \<Longrightarrow> sint x = uint x"
proof -
  assume "uint x < 32768"
  moreover have "- 32768 \<le> uint x"
    using uint_ge_0 [of x] by linarith
  ultimately show "sint x = uint x"
    using sint_of_int_in_range [of "uint x", where 'a = 16] by simp
qed

lemma order_local_u16: "order_local m (TU16 x) \<Longrightarrow> order_local m (TS8 y) \<Longrightarrow> sint x = uint x"
  "order_local m (TU16 x) \<Longrightarrow> order_local m (TS16 z) \<Longrightarrow> sint x = uint x"
  by (auto simp: order_local_def intro: uint_u16_as_s16)

lemmas compare_row_defs =
  compare_tag_integer_def compare_tag_s8_def compare_tag_s16_def compare_tag_s32_def
  compare_tag_s64_def compare_tag_sw_def compare_tag_u8_def compare_tag_u16_def
  compare_tag_u32_def compare_tag_u64_def compare_tag_uw_def

lemma compare_tag_rows_int:
  assumes "mp_ok mp" "tag_int a = Some i" "tag_int b = Some j" "order_local m a" "order_local m b"
  shows "compare_tag_rows mp a b = Some (cmp_int i j)"
proof -
  note [simp] = word_val cmp_sint cmp_uint
  show ?thesis
    using assms
    by (cases a; simp only: tag_int.simps option.inject option.distinct compare_tag_rows_def tag.case)
       (cases b; simp add: compare_row_defs; use order_local_u16 in fastforce)+
qed

lemma compare_tag_rows_None:
  assumes "tag_int a = None \<or> tag_int b = None" "tag_type a \<noteq> tag_type b"
  shows "compare_tag_rows mp a b = None"
proof (cases "tag_int a")
  case None
  then show ?thesis
    using assms(2) by (cases a; cases b; simp add: compare_tag_rows_def compare_tag_ratio_def compare_tag_pvar_def)
next
  case (Some i)
  with assms have "tag_int b = None" by simp
  with Some show ?thesis
    by (cases a; simp only: tag_int.simps option.distinct compare_tag_rows_def tag.case;
        cases b; simp add: compare_row_defs)
qed

lemma tag_head_rank:
  "\<exists>r. tag_head t = (if tag_int t = None then int (tag_type t) else 10) # r"
  by (cases t) auto

lemma tag_type_int: "tag_int t \<noteq> None \<Longrightarrow> 10 \<le> tag_type t \<and> tag_type t \<noteq> 11 \<and> tag_type t \<le> 21"
  by (cases t) auto

lemma tag_type_nonint:
  "tag_int t = None \<Longrightarrow> tag_type t \<noteq> 11 \<Longrightarrow> tag_type t < 10 \<or> 21 < tag_type t"
  by (cases t) auto

lemma tag_order_types:
  assumes "tag_int a = None \<or> tag_int b = None" "tag_type a \<noteq> 11" "tag_type b \<noteq> 11"
    "tag_type a \<noteq> tag_type b"
  shows "tag_order a b = (if tag_type a < tag_type b then -1 else 1)"
proof -
  obtain r s where "tag_head a = (if tag_int a = None then int (tag_type a) else 10) # r"
    "tag_head b = (if tag_int b = None then int (tag_type b) else 10) # s"
    using tag_head_rank by metis
  with assms tag_type_int [of a] tag_type_int [of b] tag_type_nonint [of a] tag_type_nonint [of b]
  show ?thesis
    by (auto simp: tag_order.simps [of a b] cmp_int_def lexi_def split: if_splits)
qed

lemma tag_order_int:
  assumes "tag_int a = Some i" "tag_int b = Some j"
  shows "tag_order a b = cmp_int i j"
  using assms by (cases a; simp; cases b; simp add: tag_order_flat lexi_def)

lemma compare_tag_eq_tag_order:
  assumes "mp_ok mp" "order_ok m a" "order_ok m b"
  shows "compare_tag mp a b = tag_order a b"
  using assms(2,3)
proof (induction "size a" arbitrary: a b rule: less_induct)
  case less
  have ratio: "tag_type a \<noteq> 11" "tag_type b \<noteq> 11"
    using order_ok_local [OF less(2)] order_ok_local [OF less(3)]
    by (auto simp: tag_type_eq_iff order_local_def)
  consider (int) i j where "tag_int a = Some i" "tag_int b = Some j"
    | (types) "tag_int a = None \<or> tag_int b = None" "tag_type a \<noteq> tag_type b"
    | (same) "tag_int a = None" "tag_type a = tag_type b"
    using tag_type_int [of a] tag_type_nonint [of b] ratio by (cases "tag_int a"; cases "tag_int b") auto
  then show ?case
  proof cases
    case int
    then show ?thesis
      using compare_tag_rows_int [OF assms(1) int order_ok_local [OF less(2)] order_ok_local [OF less(3)]]
      by (simp add: compare_tag.simps [of mp a b] tag_order_int)
  next
    case types
    then show ?thesis
      by (simp add: compare_tag.simps [of mp a b] compare_tag_rows_None tag_order_types ratio)
  next
    case same
    have "compare_tag_same (compare_tag mp) a b = compare_tag_same tag_order a b"
      by (rule compare_tag_same_cong [OF refl refl])
         (meson less.hyps less.prems size_tag_subs order_ok_subs)
    also have "\<dots> = tag_order a b"
      using same ratio by (simp add: compare_tag_same_order)
    finally have *: "compare_tag_same (compare_tag mp) a b = tag_order a b" .
    show ?thesis
    proof (cases "compare_tag_rows mp a b")
      case None
      with same * show ?thesis by (simp add: compare_tag.simps [of mp a b])
    next
      case (Some r)
      with same ratio have "\<exists>x y. a = TPvar x \<and> b = TPvar y"
        by (cases a; simp add: compare_tag_rows_def tag_type_eq_iff; force simp: tag_type_eq_iff)
      with Some show ?thesis
        by (auto simp: compare_tag.simps compare_tag_rows_def compare_tag_pvar_def tag_order_flat
            lexi_def cmp_uint)
    qed
  qed
qed

section \<open>Where equal means identical\<close>

definition canonical_local :: "tag \<Rightarrow> bool" where
  "canonical_local t = (case t of
      TRatio _ _ \<Rightarrow> False
    | TPlist _ tail \<Rightarrow> tail = None
    | TFact f \<Rightarrow> fact_id f = 0
    | TTime _ _ p \<Rightarrow> p = None
    | _ \<Rightarrow> (\<forall>i. tag_int t = Some i \<longrightarrow> t = reduced i))"

function canonical :: "tag \<Rightarrow> bool" where
  "canonical t \<longleftrightarrow> canonical_local t \<and>
    (\<forall>x \<in> set (tag_subs t). tag_type t = 39 \<or> canonical x)"
  by auto
termination
  by (relation "measure size") (auto simp: size_tag_subs)

declare canonical.simps [simp del]

lemma sym_key_inj: "sym_key a @ us = sym_key b @ vs \<Longrightarrow> a = b \<and> us = vs"
proof (induction a arbitrary: b)
  case Nil
  then show ?case
  proof (cases b)
    case (Cons y ys)
    with Nil have "uint y + 1 = 0" by (simp add: sym_key_def)
    with uint_ge_0 [of y] show ?thesis by linarith
  qed (simp add: sym_key_def)
next
  case (Cons x xs)
  show ?case
  proof (cases b)
    case Nil
    with Cons.prems have "uint x + 1 = 0" by (simp add: sym_key_def)
    with uint_ge_0 [of x] show ?thesis by linarith
  next
    case (Cons y ys)
    with Cons.IH [of ys] Cons.prems show ?thesis by (simp add: sym_key_def word_uint_eq_iff)
  qed
qed

lemma ident_key_inj: "ident_key a = ident_key b \<Longrightarrow> a = b"
  using sym_key_inj [of "ident_sym a" "[]" "ident_sym b" "[]"]
  by (cases a; cases b; auto simp: ident_key_def split: option.splits dest: sym_key_inj)

lemma pairs_inj:
  "length xs = length ys \<Longrightarrow>
    concat (map (\<lambda>kv. [fst kv, snd kv]) xs) = concat (map (\<lambda>kv. [fst kv, snd kv]) ys) \<Longrightarrow> xs = ys"
  by (induction xs ys rule: list_induct2) (auto simp: prod_eq_iff)

lemma map_uint_eq: "map uint (a :: 'a::len word list) = map uint b \<longleftrightarrow> a = b"
  by (auto intro: map_injective injI)

lemma ident_key_eq: "ident_key a = ident_key b \<longleftrightarrow> a = b"
  using ident_key_inj by auto

lemma tag_head_int: "tag_int t = Some i \<Longrightarrow> tag_head t = [10, i]"
  by (cases t) auto

lemma tag_head_eq:
  assumes "tag_head a = tag_head b" "tag_type a \<noteq> 11" "tag_type b \<noteq> 11"
  shows "tag_int b = tag_int a" and "tag_int a = None \<Longrightarrow> tag_type b = tag_type a"
proof -
  obtain r s where h: "tag_head a = (if tag_int a = None then int (tag_type a) else 10) # r"
    "tag_head b = (if tag_int b = None then int (tag_type b) else 10) # s"
    using tag_head_rank by metis
  then have none: "tag_int b = None \<longleftrightarrow> tag_int a = None"
    using assms tag_type_nonint [of a] tag_type_nonint [of b] by (auto split: if_splits)
  with assms(1) show "tag_int b = tag_int a"
    using tag_head_int [of a] tag_head_int [of b] by (cases "tag_int a") auto
  show "tag_int a = None \<Longrightarrow> tag_type b = tag_type a"
    using h none assms(1) by simp
qed

lemma canonical_local: "canonical t \<Longrightarrow> canonical_local t"
  by (simp add: canonical.simps [of t])

lemma canonical_reduced: "canonical_local t \<Longrightarrow> tag_int t = Some i \<Longrightarrow> t = reduced i"
  by (cases t) (auto simp: canonical_local_def)

lemma canonical_no_ratio: "canonical_local t \<Longrightarrow> tag_type t \<noteq> 11"
  by (auto simp: canonical_local_def tag_type_eq_iff)

lemma canonical_head_subs:
  assumes loc: "canonical_local a" "canonical_local b"
    and "tag_head a = tag_head b" "tag_subs a = tag_subs b"
  shows "a = b"
proof (cases "tag_int a")
  case (Some i)
  with assms tag_head_eq(1) [of a b] show ?thesis
    by (metis canonical_no_ratio canonical_reduced)
next
  case None
  then have "tag_type b = tag_type a"
    using assms tag_head_eq(2) canonical_no_ratio by metis
  note type = this
  show ?thesis
  proof (cases a)
    case TVoid
    with type show ?thesis by (simp add: tag_type_eq_iff)
  next
    case (TDoBlock xs u)
    with type obtain ys v where "b = TDoBlock ys v" by (metis tag_type.simps(2) tag_type_eq_iff(2))
    with TDoBlock assms show ?thesis
      by (auto simp: canonical_local_def map_uint_eq ident_key_eq)
  next
    case (TBool x)
    with type obtain y where "b = TBool y" by (metis tag_type.simps(3) tag_type_eq_iff(3))
    with TBool assms show ?thesis
      by (auto simp: canonical_local_def map_uint_eq ident_key_eq)
  next
    case (TCharacter x)
    with type obtain y where "b = TCharacter y" by (metis tag_type.simps(4) tag_type_eq_iff(4))
    with TCharacter assms show ?thesis
      by (auto simp: word_uint_eq_iff)
  next
    case (TFact x)
    with type obtain y where "b = TFact y" by (metis tag_type.simps(5) tag_type_eq_iff(5))
    with TFact assms show ?thesis
      by (auto simp: canonical_local_def map_uint_eq ident_key_eq intro: fact.expand)
  next
    case (TPlist x u)
    with type obtain y v where "b = TPlist y v" by (metis tag_type.simps(18) tag_type_eq_iff(7))
    with TPlist assms show ?thesis
      by (auto simp: canonical_local_def map_uint_eq ident_key_eq)
  next
    case (TMap x)
    with type obtain y where "b = TMap y" by (metis tag_type.simps(19) tag_type_eq_iff(8))
    with TMap assms show ?thesis
      by (auto simp: canonical_local_def map_uint_eq ident_key_eq pairs_inj)
  next
    case (TPcall i x)
    with type obtain j y where "b = TPcall j y" by (metis tag_type.simps(20) tag_type_eq_iff(9))
    with TPcall assms show ?thesis
      by (auto simp: canonical_local_def map_uint_eq ident_key_eq)
  next
    case (TPsym x)
    with type obtain y where "b = TPsym y" by (metis tag_type.simps(21) tag_type_eq_iff(10))
    with TPsym assms show ?thesis
      by (auto simp: canonical_local_def map_uint_eq ident_key_eq)
  next
    case (TPtr x)
    with type obtain y where "b = TPtr y" by (metis tag_type.simps(22) tag_type_eq_iff(11))
    with TPtr assms show ?thesis
      by (auto simp: word_uint_eq_iff)
  next
    case (TPtrFree x)
    with type obtain y where "b = TPtrFree y" by (metis tag_type.simps(23) tag_type_eq_iff(12))
    with TPtrFree assms show ?thesis
      by (auto simp: word_uint_eq_iff)
  next
    case (TPvar x)
    with type obtain y where "b = TPvar y" by (metis tag_type.simps(24) tag_type_eq_iff(13))
    with TPvar assms show ?thesis
      by (auto simp: word_uint_eq_iff)
  next
    case (TQuote x)
    with type obtain y where "b = TQuote y" by (metis tag_type.simps(25) tag_type_eq_iff(14))
    with TQuote assms show ?thesis
      by (auto simp: canonical_local_def map_uint_eq ident_key_eq)
  next
    case (TStr x)
    with type obtain y where "b = TStr y" by (metis tag_type.simps(26) tag_type_eq_iff(15))
    with TStr assms show ?thesis
      by (auto simp: canonical_local_def map_uint_eq ident_key_eq)
  next
    case (TTime x u p)
    with type obtain y v q where "b = TTime y v q" by (metis tag_type.simps(27) tag_type_eq_iff(16))
    with TTime assms show ?thesis
      by (auto simp: canonical_local_def map_uint_eq ident_key_eq)
  next
    case (TPtuple x)
    with type obtain y where "b = TPtuple y" by (metis tag_type.simps(28) tag_type_eq_iff(17))
    with TPtuple assms show ?thesis
      by (auto simp: canonical_local_def map_uint_eq ident_key_eq)
  next
    case (TUnquote x)
    with type obtain y where "b = TUnquote y" by (metis tag_type.simps(29) tag_type_eq_iff(18))
    with TUnquote assms show ?thesis
      by (auto simp: canonical_local_def map_uint_eq ident_key_eq)
  next
    case (TIdent x)
    with type obtain y where "b = TIdent y" by (metis tag_type.simps(30) tag_type_eq_iff(19))
    with TIdent assms show ?thesis
      by (auto simp: canonical_local_def map_uint_eq ident_key_eq)
  next
    case (TRatio n d)
    with loc show ?thesis by (simp add: canonical_local_def)
  qed (use None in simp_all)
qed

lemma tag_subs_zero:
  assumes "canonical a" "canonical b" "x \<in> set (tag_subs a)" "y \<in> set (tag_subs b)"
    "tag_head a = tag_head b" "tag_order x y = 0"
    and IH: "canonical x \<Longrightarrow> canonical y \<Longrightarrow> x = y"
  shows "x = y"
proof (cases "tag_type a = 39 \<or> tag_type b = 39")
  case False
  with assms show ?thesis by (simp add: canonical.simps [of a] canonical.simps [of b])
next
  case True
  note loc = canonical_local [OF assms(1)] canonical_local [OF assms(2)]
  have "tag_type a = 39 \<and> tag_type b = 39"
    using True tag_head_eq [OF assms(5) loc [THEN canonical_no_ratio]] tag_type_int [of a] tag_type_int [of b]
    by (cases "tag_int a") auto
  then obtain u v where "x = TSW u" "y = TSW v"
    using assms(3,4) loc by (auto simp: tag_type_eq_iff canonical_local_def)
  with assms(6) show ?thesis
    by (simp add: tag_order_int signed_word_eqI)
qed

lemma tag_order_zero:
  assumes "canonical a" "canonical b" "tag_order a b = 0"
  shows "a = b"
  using assms
proof (induction "size a" arbitrary: a b rule: less_induct)
  case less
  have heads: "tag_head a = tag_head b"
    using less.prems(3) zero_list [of "tag_head a" "tag_head b" cmp_int]
    by (simp add: tag_order.simps [of a b])
  moreover have "tag_subs a = tag_subs b"
  proof (rule zero_list [where f = tag_order])
    show "compare_list tag_order (tag_subs a) (tag_subs b) = 0"
      using less.prems(3) by (simp add: tag_order.simps [of a b])
    show "\<forall>x\<in>set (tag_subs a). \<forall>y\<in>set (tag_subs b). tag_order x y = 0 \<longrightarrow> x = y"
      using tag_subs_zero [OF less.prems(1,2) _ _ heads] less.hyps size_tag_subs by blast
  qed
  ultimately show ?case
    using less.prems(1,2) by (intro canonical_head_subs canonical_local)
qed

section \<open>The contract, for compare\_tag\<close>

definition tags_ok :: "mplib \<Rightarrow> bool \<Rightarrow> tag \<Rightarrow> bool" where
  "tags_ok mp m t \<longleftrightarrow> mp_ok mp \<and> order_ok m t"

definition tags_canonical :: "mplib \<Rightarrow> bool \<Rightarrow> tag \<Rightarrow> bool" where
  "tags_canonical mp m t \<longleftrightarrow> mp_ok mp \<and> order_ok m t \<and> canonical t"

interpretation tag_cmp: comparison "compare_tag mp" "tags_ok mp m" for mp m
  by unfold_locales
     (auto simp: tags_ok_def compare_tag_eq_tag_order [where m = m] tag_order_tri
       intro: tag_order_anti)

interpretation tag_cmp_strict: strict_comparison "compare_tag mp" "tags_canonical mp m" for mp m
  by unfold_locales
     (auto simp: tags_canonical_def compare_tag_eq_tag_order [where m = m] tag_order_tri
       intro: tag_order_anti tag_order_zero)

lemma compare_tag_values:
  "mp_ok mp \<Longrightarrow> order_ok m a \<Longrightarrow> order_ok m b \<Longrightarrow> compare_tag mp a b \<in> {-1, 0, 1}"
  using tag_order_range by (simp add: compare_tag_eq_tag_order [where m = m])

section \<open>Properties of the comparison\<close>

text \<open>
  C21: \<open>compare_tag\<close> is a total order, on tags without ratios and with either no s8 and s16 or
  no u16 above 32767, at any depth: the results are -1, 0 and 1, exchanging the arguments
  negates the result, and the order is transitive.  It covers every pair of types, the mixed
  integer comparisons included, and the recursion through lists, maps, tuples, calls, blocks,
  quotes, times and facts.
\<close>

theorem compare_tag_total_order:
  assumes "mp_ok mp" "order_ok small a" "order_ok small b" "order_ok small c"
  shows "compare_tag mp a b \<in> {-1, 0, 1} \<and> compare_tag mp b a = - compare_tag mp a b \<and> compare_tag mp a a = 0 \<and>
    (compare_tag mp a b \<le> 0 \<and> compare_tag mp b c \<le> 0 \<longrightarrow> compare_tag mp a c \<le> 0) \<and>
    (compare_tag mp a b < 0 \<and> compare_tag mp b c \<le> 0 \<longrightarrow> compare_tag mp a c < 0)"
proof -
  have ok: "tags_ok mp small a" "tags_ok mp small b" "tags_ok mp small c" using assms by (simp_all add: tags_ok_def)
  show ?thesis
    using compare_tag_values [OF assms(1-3)] tag_cmp.anti [OF ok(1,2)] tag_cmp.cmp_self [OF ok(1)]
      tag_cmp.le_trans [OF ok] tag_cmp.less_le_trans [OF ok] by auto
qed

lemma order_ok_leaf: "tag_subs t = [] \<Longrightarrow> order_ok m t = order_local m t"
  by (simp add: order_ok.simps [of m t])

theorem compare_tag_total_order_witness:
  "compare_tag mp_exact (TU8 200) (TS32 (- 1)) = - compare_tag mp_exact (TS32 (- 1)) (TU8 200)"
  using compare_tag_total_order [of mp_exact False "TS32 (- 1)" "TU8 200" TVoid]
  by (simp add: order_ok_leaf order_local_def)

text \<open>
  C22: on canonical tags the comparison decides identity: the result is 0 exactly for two equal
  tags.  The hash sets of the database rely on it.
\<close>

theorem compare_tag_identity:
  assumes "tags_canonical mp small a" "tags_canonical mp small b"
  shows "compare_tag mp a b = 0 \<longleftrightarrow> a = b"
  using assms by (rule tag_cmp_strict.zero_iff)

theorem compare_tag_identity_witness:
  "compare_tag mp_exact (TPsym [1, 2]) (TStr [1, 2]) \<noteq> 0"
  using compare_tag_identity [of mp_exact False "TPsym [1, 2]" "TStr [1, 2]"]
  by (simp add: tags_canonical_def order_ok_leaf order_local_def canonical.simps [of "TPsym _"]
      canonical.simps [of "TStr _"] canonical_local_def)

text \<open>
  C23: the 121 mixed integer comparisons, the order of the types and the comparisons of each type
  are together the lexicographic order of a key: the rank of the type (one rank for all the
  integers), the value, then the components.
\<close>

theorem compare_tag_reference:
  assumes "mp_ok mp" "order_ok small a" "order_ok small b"
  shows "compare_tag mp a b = tag_order a b"
  using assms by (rule compare_tag_eq_tag_order)

theorem compare_tag_reference_witness:
  "compare_tag mp_exact (TU64 5) (TInteger 6) = -1"
  using compare_tag_reference [of mp_exact False "TU64 5" "TInteger 6"]
  by (simp add: order_ok_leaf order_local_def tag_order.simps [of "TU64 5"])

text \<open>
  The rows of a u16 against an s8 or an s16 cast it to s16; the rows of an s8 or an s16 against a u16
  widen both.
\<close>

lemma sint_u16: "sint (x :: u16) = (if uint x < 32768 then uint x else uint x - 65536)"
proof -
  have "sint x = (uint x + 32768) mod 65536 - 32768" using int_word_sint [of "uint x", where 'a = 16] by simp
  moreover have "0 \<le> uint x" "uint x < 65536" using uint_lt2p [of x] by simp_all
  then have "(uint x + 32768) mod 65536 = (if uint x < 32768 then uint x + 32768 else uint x - 32768)"
  proof (cases "uint x < 32768")
    case False
    then have "(uint x - 32768) mod 65536 = uint x - 32768" using \<open>uint x < 65536\<close> by (intro mod_pos_pos_trivial) simp_all
    then show ?thesis using False minus_mod_self2 [of "uint x + 32768" 65536] by simp
  qed simp
  ultimately show ?thesis by simp
qed

lemma compare_u16_rows:
  "compare_tag mp (TU16 x) (TS8 y) = cmp_int (sint x) (sint y)" "compare_tag mp (TS8 y) (TU16 x) = cmp_int (sint y) (uint x)"
  "compare_tag mp (TU16 x) (TS16 z) = cmp_int (sint x) (sint z)" "compare_tag mp (TS16 z) (TU16 x) = cmp_int (sint z) (uint x)"
  by (simp_all add: compare_tag.simps [of _ "TU16 _"] compare_tag.simps [of _ "TS8 _"] compare_tag.simps [of _ "TS16 _"]
      compare_tag_rows_def compare_row_defs cmp_sint word_val)

text \<open>
  C37: what the cast of a u16 to s16 does, for every u16 \<open>x\<close> and every s8 or s16 \<open>y\<close>: \<open>x\<close> and \<open>y\<close> are each
  less than the other exactly when \<open>x\<close> is above 32767 and \<open>x - 65536\<close>, the value of the cast, is less
  than \<open>y\<close>.  The two comparisons are opposite exactly when \<open>x\<close> is at most 32767 or \<open>x - 65536\<close> is greater
  than \<open>y\<close>: where \<open>x - 65536\<close> equals \<open>y\<close>, one of them takes the two for equal.
\<close>

theorem compare_tag_not_antisymmetric:
  "(compare_tag mp (TU16 x) (TS8 y) = -1 \<and> compare_tag mp (TS8 y) (TU16 x) = -1 \<longleftrightarrow>
      32768 \<le> uint x \<and> uint x - 65536 < sint y) \<and>
   (compare_tag mp (TU16 x) (TS8 y) = - compare_tag mp (TS8 y) (TU16 x) \<longleftrightarrow>
      \<not> (32768 \<le> uint x \<and> uint x - 65536 \<le> sint y)) \<and>
   (compare_tag mp (TU16 x) (TS16 z) = -1 \<and> compare_tag mp (TS16 z) (TU16 x) = -1 \<longleftrightarrow>
      32768 \<le> uint x \<and> uint x - 65536 < sint z) \<and>
   (compare_tag mp (TU16 x) (TS16 z) = - compare_tag mp (TS16 z) (TU16 x) \<longleftrightarrow>
      \<not> (32768 \<le> uint x \<and> uint x - 65536 \<le> sint z))"
proof -
  have "sint y < 128" "sint z < 32768" using sint_lt [of y] sint_lt [of z] by simp_all
  moreover have "0 \<le> uint x" "uint x < 65536" using uint_lt2p [of x] by simp_all
  ultimately show ?thesis unfolding compare_u16_rows sint_u16 cmp_int_def by auto
qed

text \<open>
  the condition on ratios is needed: a ratio and an integer are compared by their type numbers
  although the integers are compared by value, and the order has a cycle.
\<close>

theorem compare_tag_ratio_cycle:
  "compare_tag mp_exact (TInteger (2 ^ 70)) (TRatio 1 2) = -1 \<and>
   compare_tag mp_exact (TRatio 1 2) (TU8 3) = -1 \<and>
   compare_tag mp_exact (TU8 3) (TInteger (2 ^ 70)) = -1"
  by (simp add: compare_tag.simps [of _ "TInteger _"] compare_tag.simps [of _ "TRatio _ _"] compare_tag.simps [of _ "TU8 _"]
      compare_tag_rows_def compare_tag_integer_def compare_tag_ratio_def compare_tag_u8_def compare_integer_val
      word_val cmp_int_def)

end
