(* ===== verification/Hash_Set.thy ===== *)
theory Hash_Set
  imports Prelude
begin

text \<open>
  The chained hash set of libkc3: set.c.in, instantiated as set\_\_fact.c and set\_\_tag.c (and the
  cursor of set\_cursor\_\_fact.c).  The comparison \<open>cmp\<close> and the hash \<open>hashf\<close> of the data type
  are arguments, as they are parameters of the C template.

  The array of buckets is a list of lists of items; a pointer to an item is the pair of its
  bucket and its position in the bucket.  Allocation always succeeds.

  The locale \<open>hashed\<close> is what the set needs of its element type: two elements with the same hash
  that compare as equal are those with the same \<open>key\<close>.  Under it a set is a finite map from keys
  to elements with their usage count (\<open>set_map\<close>), and every operation is an operation on that map.
\<close>

record 'a set_item =
  item_hash :: uw
  item_usage :: uw
  item_data :: 'a

record 'a set_t =
  set_collisions :: uw
  set_count :: uw
  set_max :: uw
  set_items :: "'a set_item list list"

type_synonym item_ptr = "nat \<times> nat"

definition set_item_new :: "'a \<Rightarrow> uw \<Rightarrow> 'a set_item" where
  "set_item_new data hash = \<lparr>item_hash = hash, item_usage = 0, item_data = data\<rparr>"

definition set_init :: "uw \<Rightarrow> 'a set_t option" where
  "set_init m =
    (if m > 2305843009213693951 then None
     else Some \<lparr>set_collisions = 0, set_count = 0, set_max = m,
       set_items = replicate (unat m) []\<rparr>)"

definition set_bucket :: "'a set_t \<Rightarrow> uw \<Rightarrow> nat" where
  "set_bucket s hash = unat (hash mod set_max s)"

text \<open>The loop \<open>while (item && item->hash != hash) item = item->next\<close> from position \<open>n\<close>.\<close>

fun scan_hash :: "uw \<Rightarrow> nat \<Rightarrow> 'a set_item list \<Rightarrow> nat option" where
  "scan_hash hash n [] = None"
| "scan_hash hash n (i # is) = (if item_hash i \<noteq> hash then scan_hash hash (Suc n) is else Some n)"

definition set_get_hash :: "'a set_t \<Rightarrow> uw \<Rightarrow> item_ptr option" where
  "set_get_hash s hash =
    (let h = set_bucket s hash in map_option (Pair h) (scan_hash hash 0 (set_items s ! h)))"

definition set_get_hash_next :: "'a set_t \<Rightarrow> item_ptr \<Rightarrow> item_ptr option" where
  "set_get_hash_next s p =
    (let b = set_items s ! fst p; hash = item_hash (b ! snd p)
     in map_option (Pair (fst p)) (scan_hash hash (Suc (snd p)) (drop (Suc (snd p)) b)))"

definition set_item_at :: "'a set_t \<Rightarrow> item_ptr \<Rightarrow> 'a set_item" where
  "set_item_at s p = set_items s ! fst p ! snd p"

lemma scan_hash_None: "scan_hash hash n is = None \<longleftrightarrow> (\<forall>i \<in> set is. item_hash i \<noteq> hash)"
  by (induction "is" arbitrary: n) auto

lemma scan_hash_bounds: "scan_hash hash n is = Some k \<Longrightarrow> n \<le> k \<and> k < n + length is"
  by (induction "is" arbitrary: n) (fastforce split: if_splits)+

text \<open>The loop of \<open>set_get_h\<close> over the items with the hash.\<close>

function set_get_h_loop ::
  "('a \<Rightarrow> 'a \<Rightarrow> int) \<Rightarrow> 'a set_t \<Rightarrow> 'a \<Rightarrow> item_ptr option \<Rightarrow> item_ptr option" where
  "set_get_h_loop cmp s data None = None"
| "set_get_h_loop cmp s data (Some p) =
    (if cmp (item_data (set_item_at s p)) data = 0 then Some p
     else set_get_h_loop cmp s data (set_get_hash_next s p))"
  by pat_completeness auto
termination
proof (relation "measure (\<lambda>(cmp, s, data, p). case p of None \<Rightarrow> 0
    | Some q \<Rightarrow> Suc (length (set_items s ! fst q) - snd q))")
  fix cmp :: "'a \<Rightarrow> 'a \<Rightarrow> int" and s :: "'a set_t" and data :: 'a and p :: item_ptr
  show "((cmp, s, data, set_get_hash_next s p), cmp, s, data, Some p) \<in>
      measure (\<lambda>(cmp, s, data, p). case p of None \<Rightarrow> 0
        | Some q \<Rightarrow> Suc (length (set_items s ! fst q) - snd q))"
  proof (cases "scan_hash (item_hash (set_items s ! fst p ! snd p)) (Suc (snd p))
      (drop (Suc (snd p)) (set_items s ! fst p))")
    case (Some k)
    from scan_hash_bounds [OF Some]
    have "length (set_items s ! fst p) - k < length (set_items s ! fst p) - snd p"
      by simp arith
    with Some show ?thesis
      by (simp add: set_get_hash_next_def Let_def)
  qed (simp add: set_get_hash_next_def Let_def)
qed simp

definition set_get_h ::
  "('a \<Rightarrow> 'a \<Rightarrow> int) \<Rightarrow> 'a set_t \<Rightarrow> 'a \<Rightarrow> uw \<Rightarrow> item_ptr option" where
  "set_get_h cmp s data hash = set_get_h_loop cmp s data (set_get_hash s hash)"

definition set_get ::
  "('a \<Rightarrow> uw) \<Rightarrow> ('a \<Rightarrow> 'a \<Rightarrow> int) \<Rightarrow> 'a set_t \<Rightarrow> 'a \<Rightarrow> item_ptr option" where
  "set_get hashf cmp s data = set_get_h cmp s data (hashf data)"

definition set_has :: "('a \<Rightarrow> uw) \<Rightarrow> ('a \<Rightarrow> 'a \<Rightarrow> int) \<Rightarrow> 'a set_t \<Rightarrow> 'a \<Rightarrow> bool" where
  "set_has hashf cmp s data = (set_get_h cmp s data (hashf data) \<noteq> None)"

definition set_add_collision :: "'a set_t \<Rightarrow> 'a \<Rightarrow> uw \<Rightarrow> item_ptr \<Rightarrow> 'a set_t \<times> item_ptr" where
  "set_add_collision s data hash p =
    (let b = set_items s ! fst p;
         b' = take (Suc (snd p)) b @ set_item_new data hash # drop (Suc (snd p)) b
     in (s\<lparr>set_items := (set_items s)[fst p := b'], set_count := set_count s + 1,
           set_collisions := set_collisions s + 1\<rparr>, (fst p, Suc (snd p))))"

definition set_add_h ::
  "('a \<Rightarrow> 'a \<Rightarrow> int) \<Rightarrow> 'a set_t \<Rightarrow> 'a \<Rightarrow> uw \<Rightarrow> 'a set_t \<times> item_ptr" where
  "set_add_h cmp s data hash = (case set_get_h cmp s data hash of
      Some p \<Rightarrow> (s, p)
    | None \<Rightarrow>
        let h = set_bucket s hash in
        if set_items s ! h \<noteq> [] then set_add_collision s data hash (h, 0)
        else (s\<lparr>set_items := (set_items s)[h := [set_item_new data hash]],
                set_count := set_count s + 1\<rparr>, (h, 0)))"

definition set_add ::
  "('a \<Rightarrow> uw) \<Rightarrow> ('a \<Rightarrow> 'a \<Rightarrow> int) \<Rightarrow> 'a set_t \<Rightarrow> 'a \<Rightarrow> 'a set_t \<times> item_ptr" where
  "set_add hashf cmp s data = set_add_h cmp s data (hashf data)"

definition set_remove_item :: "'a set_t \<Rightarrow> item_ptr \<Rightarrow> 'a set_t \<times> bool" where
  "set_remove_item s p =
    (let h = set_bucket s (item_hash (set_item_at s p)); b = set_items s ! h
     in if h \<noteq> fst p \<or> length b \<le> snd p then (s, False)
        else let b' = take (snd p) b @ drop (Suc (snd p)) b
          in (s\<lparr>set_items := (set_items s)[h := b'], set_count := set_count s - 1,
                set_collisions := (if b' \<noteq> [] then set_collisions s - 1 else set_collisions s)\<rparr>,
              True))"

definition set_remove ::
  "('a \<Rightarrow> uw) \<Rightarrow> ('a \<Rightarrow> 'a \<Rightarrow> int) \<Rightarrow> 'a set_t \<Rightarrow> 'a \<Rightarrow> 'a set_t \<times> bool" where
  "set_remove hashf cmp s data = (case set_get hashf cmp s data of
      Some p \<Rightarrow> set_remove_item s p
    | None \<Rightarrow> (s, False))"

text \<open>\<open>item->usage = u\<close> through a pointer, as facts.c does.\<close>

definition set_usage :: "'a set_t \<Rightarrow> item_ptr \<Rightarrow> uw \<Rightarrow> 'a set_t" where
  "set_usage s p u =
    s\<lparr>set_items := (set_items s)[fst p := (set_items s ! fst p)
      [snd p := set_item_at s p \<lparr>item_usage := u\<rparr>]]\<rparr>"

section \<open>What the search returns\<close>

fun find_from :: "('a \<Rightarrow> bool) \<Rightarrow> nat \<Rightarrow> 'a list \<Rightarrow> nat option" where
  "find_from P n [] = None"
| "find_from P n (x # xs) = (if P x then Some n else find_from P (Suc n) xs)"

lemma find_from_SomeD:
  "find_from P n xs = Some k \<Longrightarrow> n \<le> k \<and> k < n + length xs \<and> P (xs ! (k - n))"
proof (induction xs arbitrary: n)
  case (Cons a as)
  show ?case
  proof (cases "P a")
    case False
    with Cons.prems have "Suc n \<le> k \<and> k < Suc n + length as \<and> P (as ! (k - Suc n))"
      by (intro Cons.IH) simp
    moreover from this have "k - n = Suc (k - Suc n)" by arith
    ultimately show ?thesis by auto
  qed (use Cons.prems in simp)
qed simp

lemma find_from_None: "find_from P n xs = None \<longleftrightarrow> (\<forall>x \<in> set xs. \<not> P x)"
  by (induction xs arbitrary: n) auto

definition item_matches :: "('a \<Rightarrow> 'a \<Rightarrow> int) \<Rightarrow> 'a \<Rightarrow> uw \<Rightarrow> 'a set_item \<Rightarrow> bool" where
  "item_matches cmp data hash i \<longleftrightarrow> item_hash i = hash \<and> cmp (item_data i) data = 0"

lemma set_get_h_loop_find:
  "drop n (set_items s ! h) = r \<Longrightarrow>
    set_get_h_loop cmp s data (map_option (Pair h) (scan_hash hash n r)) =
    map_option (Pair h) (find_from (item_matches cmp data hash) n r)"
proof (induction r arbitrary: n)
  case (Cons i r)
  then have n: "set_items s ! h ! n = i" "drop (Suc n) (set_items s ! h) = r"
    by (metis nth_via_drop, metis drop_Suc tl_drop list.sel(3))
  show ?case
  proof (cases "item_hash i = hash")
    case True
    then show ?thesis
      using n Cons.IH [OF n(2)]
      by (simp add: item_matches_def set_item_at_def set_get_hash_next_def)
  next
    case False
    then show ?thesis
      using Cons.IH [OF n(2)] by (simp add: item_matches_def)
  qed
qed simp

lemma set_get_h_find:
  "set_get_h cmp s data hash =
    (let h = set_bucket s hash
     in map_option (Pair h) (find_from (item_matches cmp data hash) 0 (set_items s ! h)))"
  using set_get_h_loop_find [of 0 s "set_bucket s hash"]
  by (simp add: set_get_h_def set_get_hash_def Let_def)

section \<open>Well-formed sets and the map they stand for\<close>

definition set_total :: "'a set_t \<Rightarrow> nat" where
  "set_total s = (\<Sum>b\<leftarrow>set_items s. length b)"

definition set_inv :: "('a \<Rightarrow> uw) \<Rightarrow> ('a \<Rightarrow> 'k) \<Rightarrow> ('a \<Rightarrow> bool) \<Rightarrow> 'a set_t \<Rightarrow> bool" where
  "set_inv hashf key ok s \<longleftrightarrow>
    set_max s \<noteq> 0 \<and> length (set_items s) = unat (set_max s) \<and>
    (\<forall>h < length (set_items s). \<forall>i \<in> set (set_items s ! h).
      ok (item_data i) \<and> item_hash i = hashf (item_data i) \<and> set_bucket s (item_hash i) = h) \<and>
    (\<forall>b \<in> set (set_items s). distinct (map (\<lambda>i. key (item_data i)) b)) \<and>
    unat (set_count s) = set_total s \<and>
    unat (set_collisions s) = (\<Sum>b\<leftarrow>set_items s. length b - 1)"

definition item_set :: "'a set_t \<Rightarrow> 'a set_item set" where
  "item_set s = (\<Union>b \<in> set (set_items s). set b)"

definition set_map :: "('a \<Rightarrow> 'k) \<Rightarrow> 'a set_t \<Rightarrow> 'k \<rightharpoonup> 'a set_item" where
  "set_map key s = map_of (map (\<lambda>i. (key (item_data i), i)) (concat (set_items s)))"

definition ptr_ok :: "'a set_t \<Rightarrow> item_ptr \<Rightarrow> bool" where
  "ptr_ok s p \<longleftrightarrow> fst p < length (set_items s) \<and> snd p < length (set_items s ! fst p)"

lemma set_bucket_less: "set_inv hashf key ok s \<Longrightarrow> set_bucket s hash < length (set_items s)"
  by (simp add: set_inv_def set_bucket_def unat_mod unat_gt_0 mod_less_divisor)

lemma item_set_iff: "i \<in> item_set s \<longleftrightarrow> (\<exists>h < length (set_items s). i \<in> set (set_items s ! h))"
  unfolding item_set_def UN_iff by (metis in_set_conv_nth)

lemma ptr_ok_item: "ptr_ok s p \<Longrightarrow> set_item_at s p \<in> item_set s"
  unfolding item_set_iff ptr_ok_def set_item_at_def using nth_mem by blast

lemma inv_item:
  assumes "set_inv hashf key ok s" "h < length (set_items s)" "i \<in> set (set_items s ! h)"
  shows "ok (item_data i)" "item_hash i = hashf (item_data i)" "set_bucket s (hashf (item_data i)) = h"
  using assms unfolding set_inv_def by metis+

lemma inv_distinct:
  "set_inv hashf key ok s \<Longrightarrow> h < length (set_items s) \<Longrightarrow>
    distinct (map (\<lambda>i. key (item_data i)) (set_items s ! h))"
  unfolding set_inv_def using nth_mem by blast

lemma inv_length: "set_inv hashf key ok s \<Longrightarrow> length (set_items s) = unat (set_max s)"
  by (simp add: set_inv_def)

lemma bucket_items: "h < length (set_items s) \<Longrightarrow> set (set_items s ! h) \<subseteq> item_set s"
  by (auto simp: item_set_iff)

lemma sum_list_bucket_update:
  fixes f :: "'a list \<Rightarrow> nat"
  assumes "h < length bs"
  shows "(\<Sum>b\<leftarrow>bs[h := c]. f b) + f (bs ! h) = (\<Sum>b\<leftarrow>bs. f b) + f c"
  using assms by (induction bs arbitrary: h) (auto simp: nth_Cons split: nat.split)

lemma bucket_le_total: "h < length (set_items s) \<Longrightarrow> length (set_items s ! h) \<le> set_total s"
  unfolding set_total_def by (auto intro!: member_le_sum_list)

lemma distinct_map_concat:
  "(\<And>h. h < length bs \<Longrightarrow> distinct (map k (bs ! h))) \<Longrightarrow>
   (\<And>g h. g < h \<Longrightarrow> h < length bs \<Longrightarrow> k ` set (bs ! g) \<inter> k ` set (bs ! h) = {}) \<Longrightarrow>
   distinct (map k (concat bs))"
proof (induction bs)
  case (Cons b bs)
  have "distinct (map k (concat bs))"
    using Cons.prems(1) [of "Suc _"] Cons.prems(2) [of "Suc _" "Suc _"] by (intro Cons.IH) auto
  moreover have "k ` set b \<inter> k ` set c = {}" if c: "c \<in> set bs" for c
  proof -
    obtain h where "h < length bs" "bs ! h = c" using c by (auto simp: in_set_conv_nth)
    then show ?thesis using Cons.prems(2) [of 0 "Suc h"] by auto
  qed
  ultimately show ?case using Cons.prems(1) [of 0] by (auto simp flip: image_UN)
qed simp

locale hashed =
  fixes hashf :: "'a \<Rightarrow> uw" and cmp :: "'a \<Rightarrow> 'a \<Rightarrow> int" and key :: "'a \<Rightarrow> 'k" and ok :: "'a \<Rightarrow> bool"
  assumes key_iff: "ok a \<Longrightarrow> ok b \<Longrightarrow> hashf a = hashf b \<and> cmp a b = 0 \<longleftrightarrow> key a = key b"
begin

lemma key_unique:
  assumes "set_inv hashf key ok s" "i \<in> item_set s" "j \<in> item_set s"
    "key (item_data i) = key (item_data j)"
  shows "i = j"
proof -
  obtain h where h: "h < length (set_items s)" "i \<in> set (set_items s ! h)"
    using assms(2) by (auto simp: item_set_iff)
  obtain g where g: "g < length (set_items s)" "j \<in> set (set_items s ! g)"
    using assms(3) by (auto simp: item_set_iff)
  have "g = h"
    using inv_item [OF assms(1) h] inv_item [OF assms(1) g] assms(4)
      key_iff [of "item_data i" "item_data j"] by metis
  with inv_distinct [OF assms(1) h(1)] show ?thesis
    using h g assms(4) by (auto simp: distinct_map dest: inj_onD)
qed

lemma set_map_iff:
  assumes "set_inv hashf key ok s"
  shows "set_map key s k = Some i \<longleftrightarrow> i \<in> item_set s \<and> key (item_data i) = k"
proof -
  have set: "set (concat (set_items s)) = item_set s"
    by (simp add: item_set_def)
  show ?thesis
  proof
    assume "set_map key s k = Some i"
    then show "i \<in> item_set s \<and> key (item_data i) = k"
      using set by (auto simp: set_map_def dest: map_of_SomeD)
  next
    assume i: "i \<in> item_set s \<and> key (item_data i) = k"
    then have "(k, i) \<in> set (map (\<lambda>i. (key (item_data i), i)) (concat (set_items s)))"
      using set by (metis (mono_tags, lifting) image_eqI set_map)
    then have "k \<in> fst ` set (map (\<lambda>i. (key (item_data i), i)) (concat (set_items s)))"
      by (rule image_eqI [rotated]) simp
    then have "set_map key s k \<noteq> None"
      unfolding set_map_def map_of_eq_None_iff by simp
    then obtain j where j: "set_map key s k = Some j" by auto
    then have "j \<in> item_set s \<and> key (item_data j) = k"
      using set by (auto simp: set_map_def dest: map_of_SomeD)
    with i j key_unique [OF assms, of i j] show "set_map key s k = Some i" by simp
  qed
qed

lemma set_map_None:
  assumes "set_inv hashf key ok s"
  shows "set_map key s k = None \<longleftrightarrow> (\<forall>i \<in> item_set s. key (item_data i) \<noteq> k)"
  using set_map_iff [OF assms, of k] by (cases "set_map key s k") auto

lemma total_card:
  assumes inv: "set_inv hashf key ok s"
  shows "card (dom (set_map key s)) = set_total s"
proof -
  let ?k = "\<lambda>i. key (item_data i)"
  have "distinct (map ?k (concat (set_items s)))"
  proof (rule distinct_map_concat)
    show "distinct (map ?k (set_items s ! h))" if "h < length (set_items s)" for h
      by (rule inv_distinct [OF inv that])
    show "?k ` set (set_items s ! g) \<inter> ?k ` set (set_items s ! h) = {}"
      if "g < h" "h < length (set_items s)" for g h
    proof (rule ccontr)
      assume "?k ` set (set_items s ! g) \<inter> ?k ` set (set_items s ! h) \<noteq> {}"
      then obtain i j where ij: "i \<in> set (set_items s ! g)" "j \<in> set (set_items s ! h)" "?k i = ?k j"
        by auto
      moreover from this that have "i \<in> item_set s" "j \<in> item_set s"
        using item_set_iff less_trans by blast+
      ultimately have "i = j" using key_unique [OF inv] by blast
      then show False
        using inv_item(3) [OF inv, of g i] inv_item(3) [OF inv, of h j] ij that by auto
    qed
  qed
  moreover have "dom (set_map key s) = set (map ?k (concat (set_items s)))"
    by (simp add: set_map_def dom_map_of_conv_image_fst image_image)
  ultimately show ?thesis
    by (metis distinct_card length_concat length_map set_total_def)
qed

lemma matches_iff:
  assumes "set_inv hashf key ok s" "ok d" "h < length (set_items s)" "i \<in> set (set_items s ! h)"
  shows "item_matches cmp d (hashf d) i \<longleftrightarrow> key (item_data i) = key d"
proof -
  from inv_item [OF assms(1,3,4)] key_iff [of "item_data i" d] assms(2) show ?thesis
    by (auto simp: item_matches_def)
qed

lemma get_Some:
  assumes "set_inv hashf key ok s" "ok d" "set_get hashf cmp s d = Some p"
  shows "ptr_ok s p \<and> fst p = set_bucket s (hashf d) \<and> set_map key s (key d) = Some (set_item_at s p)"
proof -
  let ?h = "set_bucket s (hashf d)"
  obtain n where n: "p = (?h, n)"
    "find_from (item_matches cmp d (hashf d)) 0 (set_items s ! ?h) = Some n"
    using assms(3) by (auto simp: set_get_def set_get_h_find Let_def)
  have less: "?h < length (set_items s)" by (rule set_bucket_less [OF assms(1)])
  from find_from_SomeD [OF n(2)] have m: "n < length (set_items s ! ?h)"
    "item_matches cmp d (hashf d) (set_items s ! ?h ! n)" by auto
  then have "key (item_data (set_items s ! ?h ! n)) = key d"
    using matches_iff [OF assms(1,2) less nth_mem] by blast
  moreover have "set_items s ! ?h ! n \<in> item_set s"
    using less m(1) by (auto simp: item_set_iff)
  ultimately show ?thesis
    using n(1) m(1) less by (simp add: ptr_ok_def set_item_at_def set_map_iff [OF assms(1)])
qed

lemma get_None:
  assumes "set_inv hashf key ok s" "ok d"
  shows "set_get hashf cmp s d = None \<longleftrightarrow> set_map key s (key d) = None"
proof
  assume "set_map key s (key d) = None"
  then show "set_get hashf cmp s d = None"
    using get_Some [OF assms] by (cases "set_get hashf cmp s d") auto
next
  let ?h = "set_bucket s (hashf d)"
  have less: "?h < length (set_items s)" by (rule set_bucket_less [OF assms(1)])
  assume "set_get hashf cmp s d = None"
  then have "\<forall>i \<in> set (set_items s ! ?h). key (item_data i) \<noteq> key d"
    using matches_iff [OF assms less] by (simp add: set_get_def set_get_h_find Let_def find_from_None)
  moreover have "i \<in> set (set_items s ! ?h)" if "i \<in> item_set s" "key (item_data i) = key d" for i
  proof -
    from that(1) obtain h where h: "h < length (set_items s)" "i \<in> set (set_items s ! h)"
      by (auto simp: item_set_iff)
    with inv_item [OF assms(1) h] key_iff [OF _ assms(2), of "item_data i"] that(2) show ?thesis
      by metis
  qed
  ultimately show "set_map key s (key d) = None"
    by (auto simp: set_map_None [OF assms(1)])
qed

text \<open>Every update replaces one bucket.\<close>

lemma replace_bucket:
  assumes inv: "set_inv hashf key ok s" and h: "h < length (set_items s)"
    and c: "\<forall>i \<in> set c. ok (item_data i) \<and> item_hash i = hashf (item_data i) \<and>
      set_bucket s (hashf (item_data i)) = h" "distinct (map (\<lambda>i. key (item_data i)) c)"
    and count: "unat n + length (set_items s ! h) = set_total s + length c"
      "unat m + (length (set_items s ! h) - 1) = unat (set_collisions s) + (length c - 1)"
    and s': "s' = s\<lparr>set_items := (set_items s)[h := c], set_count := n, set_collisions := m\<rparr>"
  shows "set_inv hashf key ok s'" and "item_set s' = (item_set s - set (set_items s ! h)) \<union> set c"
proof -
  have bucket: "set_bucket s' = set_bucket s"
    by (rule ext) (simp add: set_bucket_def s')
  have each: "ok (item_data i) \<and> item_hash i = hashf (item_data i) \<and> set_bucket s' (item_hash i) = g"
    if "g < length (set_items s')" "i \<in> set (set_items s' ! g)" for g i
    using that h c(1) inv_item [OF inv, of g i] by (cases "g = h") (auto simp: s' bucket [unfolded s'])
  have dist: "distinct (map (\<lambda>i. key (item_data i)) b)" if "b \<in> set (set_items s')" for b
  proof -
    from that have "b = c \<or> b \<in> set (set_items s)"
      using set_update_subset_insert [of "set_items s" h c] by (auto simp: s')
    with c(2) inv show ?thesis by (auto simp: set_inv_def)
  qed
  have "set_max s' \<noteq> 0" "length (set_items s') = unat (set_max s')"
    using inv by (simp_all add: set_inv_def s')
  moreover have "unat (set_count s') = set_total s'"
    using sum_list_bucket_update [OF h, of length c] count(1) by (simp add: set_total_def s')
  moreover have "unat (set_collisions s') = (\<Sum>b\<leftarrow>set_items s'. length b - 1)"
    using sum_list_bucket_update [OF h, of "\<lambda>b. length b - 1" c] count(2) inv
    by (simp add: set_inv_def s')
  ultimately show "set_inv hashf key ok s'"
    using each dist unfolding set_inv_def by blast
  show "item_set s' = (item_set s - set (set_items s ! h)) \<union> set c"
  proof (rule set_eqI)
    fix i
    have other: "i \<notin> set (set_items s ! h)" if "g < length (set_items s)" "g \<noteq> h" "i \<in> set (set_items s ! g)" for g
      using that inv_item(3) [OF inv h, of i] inv_item(3) [OF inv that(1), of i] by auto
    show "i \<in> item_set s' \<longleftrightarrow> i \<in> (item_set s - set (set_items s ! h)) \<union> set c"
      unfolding item_set_iff Un_iff Diff_iff s'
      using h other by (auto simp: nth_list_update split: if_splits)
  qed
qed

lemma unat_add_1: "Suc (unat x) < 2 ^ LENGTH('b) \<Longrightarrow> unat (x + 1 :: 'b::len word) = Suc (unat x)"
  by (simp add: unat_word_ariths)

lemma add_spec:
  assumes inv: "set_inv hashf key ok s" and d: "ok d" and room: "Suc (set_total s) < 2 ^ 64"
    and add: "set_add hashf cmp s d = (s', p)"
  shows "set_inv hashf key ok s'" "ptr_ok s' p" "set_map key s' (key d) = Some (set_item_at s' p)"
    "set_map key s' = (if set_map key s (key d) = None
      then (set_map key s)(key d \<mapsto> set_item_new d (hashf d)) else set_map key s)"
    "set_max s' = set_max s"
proof -
  let ?h = "set_bucket s (hashf d)"
  let ?new = "set_item_new d (hashf d)"
  have less: "?h < length (set_items s)" by (rule set_bucket_less [OF inv])
  have max_count: "unat (set_count s) = set_total s"
    using inv by (simp add: set_inv_def)
  have "set_inv hashf key ok s' \<and> ptr_ok s' p \<and> set_map key s' (key d) = Some (set_item_at s' p) \<and>
    set_map key s' = (if set_map key s (key d) = None
      then (set_map key s)(key d \<mapsto> ?new) else set_map key s) \<and> set_max s' = set_max s"
  proof (cases "set_get hashf cmp s d")
    case (Some q)
    then have "s' = s" "p = q" using add by (auto simp: set_add_def set_add_h_def set_get_def)
    with get_Some [OF inv d Some] inv show ?thesis by simp
  next
    case None
    then have none: "set_map key s (key d) = None" using get_None [OF inv d] by simp
    have old: "\<forall>i \<in> item_set s. key (item_data i) \<noteq> key d"
      using none by (simp add: set_map_None [OF inv])
    let ?b = "set_items s ! ?h"
    have sub: "set ?b \<subseteq> item_set s" using less by (auto simp: item_set_iff)
    obtain c m where s': "s' = s\<lparr>set_items := (set_items s)[?h := c], set_count := set_count s + 1,
        set_collisions := m\<rparr>"
      and c: "set c = insert ?new (set ?b)" "length c = Suc (length ?b)"
        "distinct (map (\<lambda>i. key (item_data i)) c)"
      and m: "unat m + (length ?b - 1) = unat (set_collisions s) + (length c - 1)"
      and p: "fst p = ?h" "snd p < length c" "c ! snd p = ?new"
    proof (cases ?b)
      case Nil
      with None add show thesis
        by (intro that [where c = "[?new]" and m = "set_collisions s"])
           (auto simp: set_add_def set_add_h_def set_get_def Let_def)
    next
      case (Cons i r)
      have "unat (set_collisions s) \<le> set_total s"
        using inv by (auto simp: set_inv_def set_total_def intro!: sum_list_mono)
      then have "unat (set_collisions s + 1) = Suc (unat (set_collisions s))"
        using room by (intro unat_add_1) simp
      moreover have "distinct (map (\<lambda>i. key (item_data i)) (i # ?new # r))"
        using inv_distinct [OF inv less] Cons old sub by (auto simp: set_item_new_def)
      ultimately show thesis
        using None add Cons
        by (intro that [where c = "i # ?new # r" and m = "set_collisions s + 1"])
           (auto simp: set_add_def set_add_h_def set_get_def Let_def set_add_collision_def)
    qed
    have ok: "\<forall>i \<in> set c. ok (item_data i) \<and> item_hash i = hashf (item_data i) \<and>
        set_bucket s (hashf (item_data i)) = ?h"
      using inv_item [OF inv less] d c(1) by (auto simp: set_item_new_def)
    have "unat (set_count s + 1) + length ?b = set_total s + length c"
      using unat_add_1 [of "set_count s"] room max_count c(2) by simp
    note r = replace_bucket [OF inv less ok c(3) this m s']
    have items: "item_set s' = insert ?new (item_set s)"
      using r(2) c(1) sub by auto
    have "set_map key s' = (set_map key s)(key d \<mapsto> ?new)"
    proof (rule ext)
      fix k
      show "set_map key s' k = ((set_map key s)(key d \<mapsto> ?new)) k"
      proof (cases "k = key d")
        case True
        then show ?thesis using items by (simp add: set_map_iff [OF r(1)] set_item_new_def)
      next
        case False
        have "set_map key s' k = Some i \<longleftrightarrow> set_map key s k = Some i" for i
          using False items by (auto simp: set_map_iff [OF r(1)] set_map_iff [OF inv] set_item_new_def)
        then have "set_map key s' k = set_map key s k" by (metis option.exhaust)
        with False show ?thesis by simp
      qed
    qed
    moreover have "ptr_ok s' p \<and> set_item_at s' p = ?new"
      using p less by (simp add: ptr_ok_def set_item_at_def s')
    ultimately show ?thesis using r(1) none by (simp add: s')
  qed
  then show "set_inv hashf key ok s'" "ptr_ok s' p" "set_map key s' (key d) = Some (set_item_at s' p)"
    "set_map key s' = (if set_map key s (key d) = None
      then (set_map key s)(key d \<mapsto> ?new) else set_map key s)"
    "set_max s' = set_max s" by auto
qed

lemma set_map_eqI:
  assumes "set_inv hashf key ok s" "set_inv hashf key ok s'"
    "\<And>i. i \<in> item_set s' \<and> key (item_data i) = k \<longleftrightarrow> i \<in> item_set s \<and> key (item_data i) = k"
  shows "set_map key s' k = set_map key s k"
proof -
  have "set_map key s' k = Some i \<longleftrightarrow> set_map key s k = Some i" for i
    using assms(3) by (simp add: set_map_iff [OF assms(1)] set_map_iff [OF assms(2)])
  then show ?thesis by (metis option.exhaust)
qed

lemma remove_item_spec:
  assumes inv: "set_inv hashf key ok s" and p: "ptr_ok s p"
  obtains s' where "set_remove_item s p = (s', True)" "set_inv hashf key ok s'"
    "set_map key s' = (set_map key s)(key (item_data (set_item_at s p)) := None)"
    "set_max s' = set_max s"
proof -
  let ?h = "fst p" and ?n = "snd p"
  let ?b = "set_items s ! ?h"
  let ?i = "?b ! ?n"
  have h: "?h < length (set_items s)" and n: "?n < length ?b" using p by (auto simp: ptr_ok_def)
  have bucket: "set_bucket s (item_hash ?i) = ?h"
    using inv_item [OF inv h nth_mem [OF n]] by simp
  define c where "c = take ?n ?b @ drop (Suc ?n) ?b"
  define m where "m = (if c \<noteq> [] then set_collisions s - 1 else set_collisions s)"
  define s' where "s' = s\<lparr>set_items := (set_items s)[?h := c], set_count := set_count s - 1,
    set_collisions := m\<rparr>"
  have run: "set_remove_item s p = (s', True)"
    using bucket n by (auto simp: set_remove_item_def set_item_at_def Let_def s'_def m_def c_def)
  have b: "?b = take ?n ?b @ ?i # drop (Suc ?n) ?b" using n by (rule id_take_nth_drop)
  have dist: "distinct (map (\<lambda>i. key (item_data i)) ?b)" by (rule inv_distinct [OF inv h])
  then have "distinct (map (\<lambda>i. key (item_data i)) (take ?n ?b @ ?i # drop (Suc ?n) ?b))"
    using b by simp
  then have dc: "distinct (map (\<lambda>i. key (item_data i)) c)"
    and nk: "\<forall>j \<in> set c. key (item_data j) \<noteq> key (item_data ?i)"
    by (auto simp: image_iff c_def)
  have setc: "set ?b = insert ?i (set c)" using arg_cong [OF b, of set] by (simp add: c_def)
  have len: "length ?b = Suc (length c)" using n by (simp add: c_def)
  have ok: "\<forall>i \<in> set c. ok (item_data i) \<and> item_hash i = hashf (item_data i) \<and>
      set_bucket s (hashf (item_data i)) = ?h"
    using inv_item [OF inv h] setc by blast
  have total: "unat (set_count s) = set_total s" "unat (set_collisions s) = (\<Sum>b\<leftarrow>set_items s. length b - 1)"
    using inv by (simp_all add: set_inv_def)
  have "length ?b \<le> set_total s" by (rule bucket_le_total [OF h])
  then have "set_count s \<noteq> 0" using total(1) n by (auto simp: unat_0_iff)
  then have count: "unat (set_count s - 1) + length ?b = set_total s + length c"
    using total(1) len \<open>length ?b \<le> set_total s\<close> by (simp add: unat_minus_one)
  have "length ?b - 1 \<le> unat (set_collisions s)"
    unfolding total(2) using h by (intro member_le_sum_list) (auto intro: image_eqI)
  then have lec: "length c \<le> unat (set_collisions s)" using len by linarith
  have coll: "unat m + (length ?b - 1) = unat (set_collisions s) + (length c - 1)"
  proof (cases "c = []")
    case True
    with len show ?thesis by (simp add: m_def)
  next
    case False
    then have pos: "0 < length c" by simp
    with lec have "set_collisions s \<noteq> 0" by (metis leD unat_0)
    then have "unat m = unat (set_collisions s) - 1" using False by (simp add: m_def unat_minus_one)
    with pos lec len show ?thesis by linarith
  qed
  note r = replace_bucket [OF inv h ok dc count coll s'_def]
  have other: "i \<in> item_set s' \<and> key (item_data i) = k \<longleftrightarrow> i \<in> item_set s \<and> key (item_data i) = k"
    if "k \<noteq> key (item_data ?i)" for i k
  proof -
    have "set c \<subseteq> item_set s" using bucket_items [OF h] setc by blast
    with that show ?thesis unfolding r(2) setc by (cases "i = ?i") auto
  qed
  have "set_map key s' k = ((set_map key s)(key (item_data ?i) := None)) k" for k
  proof (cases "k = key (item_data ?i)")
    case True
    have "key (item_data j) \<noteq> k" if j: "j \<in> item_set s'" for j
    proof (cases "j \<in> set c")
      case False
      with j r(2) have "j \<in> item_set s" "j \<notin> set ?b" by auto
      then show ?thesis
        using key_unique [OF inv _ ptr_ok_item [OF p], of j] True nth_mem [OF n]
        by (auto simp: set_item_at_def)
    qed (use nk True in blast)
    with True show ?thesis by (simp add: set_map_None [OF r(1)])
  next
    case False
    have "set_map key s' k = set_map key s k"
      by (rule set_map_eqI [OF inv r(1) other [OF False]])
    with False show ?thesis by simp
  qed
  then show thesis
    using that [OF run r(1)] by (simp add: fun_eq_iff set_item_at_def s'_def)
qed

lemma remove_spec:
  assumes inv: "set_inv hashf key ok s" and d: "ok d"
  obtains s' where "set_remove hashf cmp s d = (s', set_map key s (key d) \<noteq> None)"
    "set_inv hashf key ok s'" "set_map key s' = (set_map key s)(key d := None)"
    "set_max s' = set_max s"
proof (cases "set_get hashf cmp s d")
  case None
  then have none: "set_map key s (key d) = None" by (simp add: get_None [OF inv d])
  then have "set_map key s = (set_map key s)(key d := None)" by (simp add: fun_upd_idem)
  with that [of s] none None inv show thesis by (simp add: set_remove_def)
next
  case (Some p)
  from get_Some [OF inv d Some] have p: "ptr_ok s p" "set_map key s (key d) = Some (set_item_at s p)"
    by auto
  then have "key (item_data (set_item_at s p)) = key d" by (simp add: set_map_iff [OF inv])
  moreover obtain s' where "set_remove_item s p = (s', True)" "set_inv hashf key ok s'"
    "set_map key s' = (set_map key s)(key (item_data (set_item_at s p)) := None)"
    "set_max s' = set_max s"
    by (rule remove_item_spec [OF inv p(1)])
  ultimately show thesis
    using that [of s'] p(2) Some by (simp add: set_remove_def)
qed

lemma usage_spec:
  assumes inv: "set_inv hashf key ok s" and p: "ptr_ok s p"
  defines "i \<equiv> set_item_at s p"
  shows "set_inv hashf key ok (set_usage s p u)"
    "set_map key (set_usage s p u) = (set_map key s)(key (item_data i) \<mapsto> i\<lparr>item_usage := u\<rparr>)"
    "ptr_ok (set_usage s p u) p" "set_max (set_usage s p u) = set_max s"
    "set_total (set_usage s p u) = set_total s"
proof -
  let ?h = "fst p" and ?n = "snd p"
  let ?b = "set_items s ! ?h"
  let ?c = "?b[?n := i\<lparr>item_usage := u\<rparr>]"
  have h: "?h < length (set_items s)" and n: "?n < length ?b" using p by (auto simp: ptr_ok_def)
  have i: "?b ! ?n = i" by (simp add: i_def set_item_at_def)
  have s': "set_usage s p u = s\<lparr>set_items := (set_items s)[?h := ?c], set_count := set_count s,
      set_collisions := set_collisions s\<rparr>"
    by (simp add: set_usage_def i_def)
  have keys: "map (\<lambda>i. key (item_data i)) ?c = map (\<lambda>i. key (item_data i)) ?b"
    using n i by (simp add: map_update list_update_same_conv)
  have sub: "set ?c \<subseteq> insert (i\<lparr>item_usage := u\<rparr>) (set ?b)" by (rule set_update_subset_insert)
  have "i \<in> set ?b" using n i nth_mem by blast
  note ii = inv_item [OF inv h this]
  have ok: "\<forall>i \<in> set ?c. ok (item_data i) \<and> item_hash i = hashf (item_data i) \<and>
      set_bucket s (hashf (item_data i)) = ?h"
    using sub inv_item [OF inv h] ii by auto
  have count: "unat (set_count s) + length ?b = set_total s + length ?c"
    "unat (set_collisions s) + (length ?b - 1) = unat (set_collisions s) + (length ?c - 1)"
    using inv by (simp_all add: set_inv_def)
  note r = replace_bucket [OF inv h ok _ count s', unfolded keys, OF inv_distinct [OF inv h]]
  have "set ?c = insert (i\<lparr>item_usage := u\<rparr>) (set ?b - {i})"
  proof -
    have "distinct ?b" using inv_distinct [OF inv h] by (simp add: distinct_map)
    with n i show ?thesis by (simp add: set_update_distinct)
  qed
  note setc = this
  have items: "item_set (set_usage s p u) = insert (i\<lparr>item_usage := u\<rparr>) (item_set s - {i})"
  proof -
    have "set ?b \<subseteq> item_set s" using h by (auto simp: item_set_iff)
    with r(2) \<open>i \<in> set ?b\<close> show ?thesis
      unfolding setc by blast
  qed
  show "set_inv hashf key ok (set_usage s p u)" by (rule r(1))
  show "ptr_ok (set_usage s p u) p" "set_max (set_usage s p u) = set_max s"
    "set_total (set_usage s p u) = set_total s"
    using p h sum_list_bucket_update [OF h, of length ?c] by (simp_all add: s' ptr_ok_def set_total_def)
  have "set_map key (set_usage s p u) k = ((set_map key s)(key (item_data i) \<mapsto> i\<lparr>item_usage := u\<rparr>)) k" for k
  proof (cases "k = key (item_data i)")
    case True
    then show ?thesis using items by (simp add: set_map_iff [OF r(1)])
  next
    case False
    have "set_map key (set_usage s p u) k = set_map key s k"
      using items False by (intro set_map_eqI [OF inv r(1)]) auto
    with False show ?thesis by simp
  qed
  then show "set_map key (set_usage s p u) = (set_map key s)(key (item_data i) \<mapsto> i\<lparr>item_usage := u\<rparr>)"
    by (rule ext)
qed

lemma init_spec:
  assumes "set_init m = Some s" "m \<noteq> 0"
  shows "set_inv hashf key ok s" "set_map key s = Map.empty" "set_max s = m"
  using assms
  by (auto simp: set_init_def set_inv_def set_total_def set_map_def unat_gt_0 split: if_splits)

end

end
