(* ===== verification/Skiplist.thy ===== *)
theory Skiplist
  imports Prelude
begin

text \<open>
  The skip list of libkc3 (skiplist.c.in, skiplist\_node.c.in, instantiated as skiplist\_\_fact.c
  and skiplist\_node\_\_fact.c), at the level of its pointers.

  A node is a heap cell with its height and one link per level; the head is a node without a
  value.  The comparison is a field of the C structure and an argument here.  The random number
  drawn by \<open>skiplist_random_height\<close> is an argument, the height table (computed with floating
  point when the list is created) a field of the state.  The inner search loops follow links
  that could be cyclic in an ill-formed heap, so they are partial functions; the lemmas
  show that they return on a well-formed list.

  \<open>sl_rep\<close> relates a skip list to the sorted list of its values: every level is the
  sublist of the nodes of that height, linked in order from the head.
\<close>

record 'a sl_node =
  node_fact :: "'a option"
  node_height :: nat
  node_links :: "nat \<Rightarrow> nat option"

record 'a skiplist =
  sl_length :: uw
  sl_max_height :: nat
  sl_head :: nat
  sl_height_table :: "u64 list"
  sl_heap :: "nat \<rightharpoonup> 'a sl_node"
  sl_fresh :: nat

definition sl_node :: "'a skiplist \<Rightarrow> nat \<Rightarrow> 'a sl_node" where
  "sl_node sl p = the (sl_heap sl p)"

text \<open>SKIPLIST\_NODE\_NEXT as a value and as the target of an assignment.\<close>

definition node_next :: "'a skiplist \<Rightarrow> nat \<Rightarrow> nat \<Rightarrow> nat option" where
  "node_next sl level p = node_links (sl_node sl p) level"

definition set_node_next :: "nat \<Rightarrow> nat \<Rightarrow> nat option \<Rightarrow> 'a skiplist \<Rightarrow> 'a skiplist" where
  "set_node_next level p v sl =
    sl\<lparr>sl_heap := (sl_heap sl)(p \<mapsto> (sl_node sl p)\<lparr>node_links := (node_links (sl_node sl p))(level := v)\<rparr>)\<rparr>"

text \<open>\<open>skiplist->compare(fact, n->fact)\<close>: the comparisons put NULL before everything.\<close>

definition sl_compare :: "('b \<Rightarrow> 'a \<Rightarrow> int) \<Rightarrow> 'b \<Rightarrow> 'a option \<Rightarrow> int" where
  "sl_compare cmp x y = (case y of None \<Rightarrow> 1 | Some y \<Rightarrow> cmp x y)"

definition skiplist_node_new :: "'a option \<Rightarrow> nat \<Rightarrow> 'a skiplist \<Rightarrow> 'a skiplist \<times> nat" where
  "skiplist_node_new v height sl =
    (let p = sl_fresh sl in
     (sl\<lparr>sl_heap := (sl_heap sl)(p \<mapsto>
          \<lparr>node_fact = v, node_height = height, node_links = \<lambda>_. None\<rparr>), sl_fresh := Suc p\<rparr>, p))"

definition skiplist_node_delete :: "nat \<Rightarrow> 'a skiplist \<Rightarrow> 'a skiplist" where
  "skiplist_node_delete p sl = sl\<lparr>sl_heap := (sl_heap sl)(p := None)\<rparr>"

definition skiplist_init :: "nat \<Rightarrow> u64 list \<Rightarrow> 'a skiplist" where
  "skiplist_init max_height table =
    (let (sl, h) = skiplist_node_new None max_height
      \<lparr>sl_length = 0, sl_max_height = max_height, sl_head = 0, sl_height_table = table,
       sl_heap = Map.empty, sl_fresh = 0\<rparr>
     in sl\<lparr>sl_head := h\<rparr>)"

text \<open>The inner loop of \<open>skiplist_pred\<close>.\<close>

partial_function (option) pred_loop ::
  "('b \<Rightarrow> 'a \<Rightarrow> int) \<Rightarrow> 'a skiplist \<Rightarrow> nat \<Rightarrow> 'b \<Rightarrow> nat \<Rightarrow> nat option \<Rightarrow> nat option" where
  "pred_loop cmp sl level x node n = (case n of
      None \<Rightarrow> Some node
    | Some p \<Rightarrow>
        if sl_compare cmp x (node_fact (sl_node sl p)) > 0
        then pred_loop cmp sl level x p (node_next sl level p)
        else Some node)"

text \<open>\<open>while (level--)\<close>; the links of the node \<open>pred\<close> are the function that is returned.\<close>

primrec pred_levels ::
  "('b \<Rightarrow> 'a \<Rightarrow> int) \<Rightarrow> 'a skiplist \<Rightarrow> 'b \<Rightarrow> nat \<Rightarrow> nat \<Rightarrow> (nat \<Rightarrow> nat option) \<Rightarrow>
    (nat \<Rightarrow> nat option) option" where
  "pred_levels cmp sl x 0 node pred = Some pred"
| "pred_levels cmp sl x (Suc level) node pred =
    (case pred_loop cmp sl level x node (Some node) of
      None \<Rightarrow> None
    | Some node' \<Rightarrow> pred_levels cmp sl x level node' (pred(level := Some node')))"

definition skiplist_pred ::
  "('b \<Rightarrow> 'a \<Rightarrow> int) \<Rightarrow> 'a skiplist \<Rightarrow> 'b \<Rightarrow> (nat \<Rightarrow> nat option) option" where
  "skiplist_pred cmp sl x = pred_levels cmp sl x (sl_max_height sl) (sl_head sl) (\<lambda>_. None)"

text \<open>The loop of \<open>skiplist_random_height\<close>; \<open>k\<close> is the number drawn below the last entry.\<close>

fun height_index :: "u64 list \<Rightarrow> u64 \<Rightarrow> nat \<Rightarrow> nat \<Rightarrow> nat" where
  "height_index table k i 0 = i"
| "height_index table k i (Suc rest) =
    (if k > table ! i then height_index table k (Suc i) rest else i)"

definition skiplist_random_height :: "'a skiplist \<Rightarrow> u64 \<Rightarrow> nat" where
  "skiplist_random_height sl k =
    sl_max_height sl - height_index (sl_height_table sl) k 0 (sl_max_height sl - 1)"

definition skiplist_node_insert :: "nat \<Rightarrow> (nat \<Rightarrow> nat option) \<Rightarrow> 'a skiplist \<Rightarrow> 'a skiplist" where
  "skiplist_node_insert node pred sl =
    fold (\<lambda>level s. set_node_next level (the (pred level)) (Some node)
        (set_node_next level node (node_next s level (the (pred level))) s))
      [0..<node_height (sl_node sl node)] sl"

text \<open>The result \<open>None\<close> means that a search did not return.\<close>

definition skiplist_insert ::
  "('a \<Rightarrow> 'a \<Rightarrow> int) \<Rightarrow> 'a skiplist \<Rightarrow> 'a \<Rightarrow> u64 \<Rightarrow> ('a skiplist \<times> nat) option" where
  "skiplist_insert cmp sl x k = (case skiplist_pred cmp sl x of
      None \<Rightarrow> None
    | Some pred \<Rightarrow>
        let nxt = node_next sl 0 (the (pred 0)) in
        if (case nxt of None \<Rightarrow> False | Some n \<Rightarrow> sl_compare cmp x (node_fact (sl_node sl n)) = 0)
        then Some (sl, the nxt)
        else
          let height = skiplist_random_height sl k;
              (sl1, node) = skiplist_node_new (Some x) height sl;
              sl2 = skiplist_node_insert node pred sl1
          in Some (sl2\<lparr>sl_length := sl_length sl2 + 1\<rparr>, node))"

definition skiplist_remove ::
  "('a \<Rightarrow> 'a \<Rightarrow> int) \<Rightarrow> 'a skiplist \<Rightarrow> 'a \<Rightarrow> ('a skiplist \<times> bool) option" where
  "skiplist_remove cmp sl x = (case skiplist_pred cmp sl x of
      None \<Rightarrow> None
    | Some pred \<Rightarrow>
        (case node_next sl 0 (the (pred 0)) of
          None \<Rightarrow> Some (sl, False)
        | Some n \<Rightarrow>
            if sl_compare cmp x (node_fact (sl_node sl n)) \<noteq> 0 then Some (sl, False)
            else
              let sl1 = fold (\<lambda>level s. set_node_next level (the (pred level)) (node_next s level n) s)
                    [0..<node_height (sl_node sl n)] sl
              in Some (skiplist_node_delete n (sl1\<lparr>sl_length := sl_length sl1 - 1\<rparr>), True)))"

partial_function (option) find_loop ::
  "('a \<Rightarrow> 'a \<Rightarrow> int) \<Rightarrow> 'a skiplist \<Rightarrow> nat \<Rightarrow> 'a \<Rightarrow> nat option \<Rightarrow> int \<Rightarrow> (nat option \<times> int) option" where
  "find_loop cmp sl level x n c = (case n of
      None \<Rightarrow> Some (None, c)
    | Some p \<Rightarrow>
        let c' = sl_compare cmp x (node_fact (sl_node sl p)) in
        if c' > 0 then find_loop cmp sl level x (node_next sl level p) c' else Some (n, c'))"

primrec find_levels ::
  "('a \<Rightarrow> 'a \<Rightarrow> int) \<Rightarrow> 'a skiplist \<Rightarrow> 'a \<Rightarrow> nat \<Rightarrow> nat option option" where
  "find_levels cmp sl x 0 = Some None"
| "find_levels cmp sl x (Suc level) =
    (case find_loop cmp sl level x (Some (sl_head sl)) (-1) of
      None \<Rightarrow> None
    | Some (n, c) \<Rightarrow> if c = 0 then Some n else find_levels cmp sl x level)"

definition skiplist_find :: "('a \<Rightarrow> 'a \<Rightarrow> int) \<Rightarrow> 'a skiplist \<Rightarrow> 'a \<Rightarrow> nat option option" where
  "skiplist_find cmp sl x = find_levels cmp sl x (node_height (sl_node sl (sl_head sl)))"

section \<open>Chains of links\<close>

primrec chain :: "(nat \<Rightarrow> nat option) \<Rightarrow> nat option \<Rightarrow> nat list \<Rightarrow> bool" where
  "chain nx p [] \<longleftrightarrow> p = None"
| "chain nx p (x # xs) \<longleftrightarrow> p = Some x \<and> chain nx (nx x) xs"

lemma chain_suffix: "chain nx p (xs @ m # ys) \<Longrightarrow> chain nx (nx m) ys"
  by (induction xs arbitrary: p) auto

lemma chain_cong: "\<forall>x \<in> set xs. nx x = nx' x \<Longrightarrow> chain nx p xs \<longleftrightarrow> chain nx' p xs"
  by (induction xs arbitrary: p) auto

lemma chain_insert:
  assumes "chain nx (nx h) (xs @ ys)" "distinct (h # xs @ ys)" "q \<notin> set (h # xs @ ys)"
    "nx' = nx(q := nx (last (h # xs)), last (h # xs) := Some q)"
  shows "chain nx' (nx' h) (xs @ q # ys)"
  using assms
proof (induction xs arbitrary: h)
  case Nil
  then have "chain nx' (nx h) ys"
    by (subst chain_cong [where nx' = nx]) auto
  with Nil show ?case by auto
next
  case (Cons x xs)
  then have "chain nx' (nx' x) (xs @ q # ys)"
    by (intro Cons.IH) auto
  moreover have "last (x # xs) \<in> set (x # xs)" by (rule last_in_set) simp
  then have "h \<noteq> last (x # xs)" using Cons.prems(2) by auto
  then have "nx' h = nx h" using Cons.prems by auto
  ultimately show ?case using Cons.prems(1) by simp
qed

lemma chain_delete:
  assumes "chain nx (nx h) (xs @ q # ys)" "distinct (h # xs @ q # ys)"
    "nx' = nx(last (h # xs) := nx q)"
  shows "chain nx' (nx' h) (xs @ ys)"
  using assms
proof (induction xs arbitrary: h)
  case Nil
  then have "chain nx' (nx q) ys"
    by (subst chain_cong [where nx' = nx]) auto
  with Nil show ?case by simp
next
  case (Cons x xs)
  then have "chain nx' (nx' x) (xs @ ys)"
    by (intro Cons.IH) auto
  moreover have "last (x # xs) \<in> set (x # xs)" by (rule last_in_set) simp
  then have "h \<noteq> last (x # xs)" using Cons.prems(2) by auto
  then have "nx' h = nx h" using Cons.prems by auto
  ultimately show ?case using Cons.prems(1) by simp
qed

section \<open>Effect of an assignment to a link\<close>

definition sl_fact :: "'a skiplist \<Rightarrow> nat \<Rightarrow> 'a" where
  "sl_fact sl p = the (node_fact (sl_node sl p))"

definition sl_height :: "'a skiplist \<Rightarrow> nat \<Rightarrow> nat" where
  "sl_height sl p = node_height (sl_node sl p)"

lemma set_node_next_simps [simp]:
  "node_next (set_node_next l p v s) l' p' = (if l = l' \<and> p = p' then v else node_next s l' p')"
  "node_fact (sl_node (set_node_next l p v s) p') = node_fact (sl_node s p')"
  "node_height (sl_node (set_node_next l p v s) p') = node_height (sl_node s p')"
  "dom (sl_heap (set_node_next l p v s)) = insert p (dom (sl_heap s))"
  "sl_length (set_node_next l p v s) = sl_length s"
  "sl_max_height (set_node_next l p v s) = sl_max_height s"
  "sl_head (set_node_next l p v s) = sl_head s"
  "sl_height_table (set_node_next l p v s) = sl_height_table s"
  "sl_fresh (set_node_next l p v s) = sl_fresh s"
  by (auto simp: set_node_next_def node_next_def sl_node_def)

text \<open>Two lists with the same nodes up to the links.\<close>

definition same_nodes :: "'a skiplist \<Rightarrow> 'a skiplist \<Rightarrow> bool" where
  "same_nodes s t \<longleftrightarrow>
    (\<forall>p. node_fact (sl_node s p) = node_fact (sl_node t p) \<and>
         node_height (sl_node s p) = node_height (sl_node t p)) \<and>
    dom (sl_heap s) = dom (sl_heap t) \<and> sl_length s = sl_length t \<and>
    sl_max_height s = sl_max_height t \<and> sl_head s = sl_head t \<and>
    sl_height_table s = sl_height_table t \<and> sl_fresh s = sl_fresh t"

lemma node_insert_fold:
  assumes "\<forall>l < k. pr l \<in> dom (sl_heap s) \<and> pr l \<noteq> q" "q \<in> dom (sl_heap s)"
  defines "s' \<equiv> fold (\<lambda>level s. set_node_next level (pr level) (Some q)
      (set_node_next level q (node_next s level (pr level)) s)) [0..<k] s"
  shows "same_nodes s' s \<and> (\<forall>l. node_next s' l =
    (if l < k then (node_next s l)(q := node_next s l (pr l), pr l := Some q) else node_next s l))"
  using assms(1) unfolding s'_def
proof (induction k)
  case (Suc k)
  then show ?case
    using assms(2) by (auto simp: same_nodes_def less_Suc_eq fun_eq_iff)
qed (simp add: same_nodes_def)

lemma remove_fold:
  fixes s :: "'a skiplist" and q :: nat
  assumes "\<forall>l < k. pr l \<in> dom (sl_heap s)"
  defines "s' \<equiv> fold (\<lambda>level s. set_node_next level (pr level) (node_next s level q) s) [0..<k] s"
  shows "same_nodes s' s \<and> (\<forall>l. node_next s' l =
    (if l < k then (node_next s l)(pr l := node_next s l q) else node_next s l))"
  using assms(1) unfolding s'_def
proof (induction k)
  case (Suc k)
  then show ?case
    by (auto simp: same_nodes_def less_Suc_eq fun_eq_iff)
qed (simp add: same_nodes_def)

section \<open>The searches on a chain\<close>

lemma pred_loop_chain:
  "chain (node_next sl l) n xs \<Longrightarrow> \<forall>p \<in> set xs. node_fact (sl_node sl p) \<noteq> None \<Longrightarrow>
    pred_loop cmp sl l x node n =
      Some (last (node # takeWhile (\<lambda>p. 0 < cmp x (sl_fact sl p)) xs))"
proof (induction xs arbitrary: node n)
  case Nil
  then show ?case by (simp add: pred_loop.simps)
next
  case (Cons p xs)
  then obtain v where "node_fact (sl_node sl p) = Some v" by auto
  with Cons show ?case
    by (subst pred_loop.simps) (auto simp: sl_compare_def sl_fact_def)
qed

lemma takeWhile_prefix:
  "\<forall>p \<in> set xs. P p \<Longrightarrow> \<forall>p \<in> set ys. \<not> P p \<Longrightarrow> takeWhile P (xs @ ys) = xs"
  by (cases ys) simp_all

lemma takeWhile_filter_prefix:
  "\<forall>p \<in> set L. P p \<Longrightarrow> \<forall>p \<in> set R. \<not> P p \<Longrightarrow> takeWhile P (filter Q (L @ R)) = filter Q L"
  unfolding filter_append by (rule takeWhile_prefix) auto

lemma pred_level_from:
  assumes "chain (node_next sl l) (node_next sl l h) (filter Q (L @ R))"
    "\<forall>p \<in> set (L @ R). node_fact (sl_node sl p) \<noteq> None" "node_fact (sl_node sl h) = None"
    "\<forall>p \<in> set L. 0 < cmp x (sl_fact sl p)" "\<forall>p \<in> set R. \<not> 0 < cmp x (sl_fact sl p)"
    "node = h \<or> node \<in> set (filter Q L)"
  shows "pred_loop cmp sl l x node (Some node) = Some (last (h # filter Q L))"
proof -
  let ?P = "\<lambda>p. 0 < cmp x (sl_fact sl p)"
  have tw: "takeWhile ?P (filter Q (L @ R)) = filter Q L"
    by (rule takeWhile_filter_prefix [OF assms(4,5)])
  have step: "pred_loop cmp sl l x node (Some node) = pred_loop cmp sl l x node (node_next sl l node)"
  proof -
    have "0 < sl_compare cmp x (node_fact (sl_node sl node))"
      using assms(2-6) by (auto simp: sl_compare_def sl_fact_def split: option.splits)
    then show ?thesis by (subst pred_loop.simps) simp
  qed
  show ?thesis
  proof (cases "node = h")
    case True
    then show ?thesis
      using assms(1,2) tw unfolding step
      by (subst pred_loop_chain [where xs = "filter Q (L @ R)"]) auto
  next
    case False
    with assms(6) obtain xs ys where xy: "filter Q L = xs @ node # ys"
      by (meson split_list)
    then have "chain (node_next sl l) (node_next sl l node) (ys @ filter Q R)"
      using assms(1) chain_suffix [of _ _ xs node] by simp
    moreover have ys: "set ys \<subseteq> set L"
      using arg_cong [OF xy, of set] by auto
    moreover have "takeWhile ?P (ys @ filter Q R) = ys"
      by (rule takeWhile_prefix) (use assms(4,5) ys in auto)
    ultimately show ?thesis
      using assms(2) xy ys unfolding step
      by (subst pred_loop_chain [where xs = "ys @ filter Q R"]) auto
  qed
qed

text \<open>The result of \<open>skiplist_pred\<close>: at each level the last node before the value.\<close>

lemma pred_levels_from:
  assumes "\<forall>l < n. chain (node_next sl l) (node_next sl l h) (filter (\<lambda>p. l < sl_height sl p) (L @ R))"
    "\<forall>p \<in> set (L @ R). node_fact (sl_node sl p) \<noteq> None" "node_fact (sl_node sl h) = None"
    "\<forall>p \<in> set L. 0 < cmp x (sl_fact sl p)" "\<forall>p \<in> set R. \<not> 0 < cmp x (sl_fact sl p)"
    "node = h \<or> node \<in> set L \<and> n \<le> sl_height sl node"
  shows "pred_levels cmp sl x n node pr =
    Some (\<lambda>l. if l < n then Some (last (h # filter (\<lambda>p. l < sl_height sl p) L)) else pr l)"
  using assms(1,6)
proof (induction n arbitrary: node pr)
  case (Suc n)
  let ?F = "filter (\<lambda>p. n < sl_height sl p) L"
  let ?m = "last (h # ?F)"
  have 1: "pred_loop cmp sl n x node (Some node) = Some ?m"
    by (rule pred_level_from [where h = h and R = R]) (use Suc.prems assms(2-5) in auto)
  have "?m \<in> set (h # ?F)" by (rule last_in_set) simp
  then have "?m = h \<or> ?m \<in> set L \<and> n \<le> sl_height sl ?m" by (auto simp del: last.simps)
  then have "pred_levels cmp sl x n ?m (pr(n := Some ?m)) = Some (\<lambda>l. if l < n
      then Some (last (h # filter (\<lambda>p. l < sl_height sl p) L)) else (pr(n := Some ?m)) l)"
    using Suc.prems(1) by (intro Suc.IH) simp_all
  then show ?case
    unfolding pred_levels.simps 1 by (auto simp: less_Suc_eq fun_eq_iff)
qed simp

section \<open>Well-formed skip lists\<close>

definition sl_ids :: "('a \<Rightarrow> 'a \<Rightarrow> int) \<Rightarrow> ('a \<Rightarrow> bool) \<Rightarrow> 'a skiplist \<Rightarrow> nat list \<Rightarrow> bool" where
  "sl_ids cmp ok sl ids \<longleftrightarrow>
    distinct (sl_head sl # ids) \<and> dom (sl_heap sl) = set (sl_head sl # ids) \<and>
    (\<forall>p \<in> set (sl_head sl # ids). p < sl_fresh sl) \<and>
    node_fact (sl_node sl (sl_head sl)) = None \<and> sl_height sl (sl_head sl) = sl_max_height sl \<and>
    0 < sl_max_height sl \<and> sl_length sl = of_nat (length ids) \<and>
    (\<forall>p \<in> set ids. node_fact (sl_node sl p) \<noteq> None \<and> ok (sl_fact sl p) \<and>
      0 < sl_height sl p \<and> sl_height sl p \<le> sl_max_height sl) \<and>
    (\<forall>l < sl_max_height sl. chain (node_next sl l) (node_next sl l (sl_head sl))
      (filter (\<lambda>p. l < sl_height sl p) ids)) \<and>
    sorted_wrt (\<lambda>p q. cmp (sl_fact sl p) (sl_fact sl q) < 0) ids"

definition sl_rep :: "('a \<Rightarrow> 'a \<Rightarrow> int) \<Rightarrow> ('a \<Rightarrow> bool) \<Rightarrow> 'a skiplist \<Rightarrow> 'a list \<Rightarrow> bool" where
  "sl_rep cmp ok sl vs \<longleftrightarrow> (\<exists>ids. sl_ids cmp ok sl ids \<and> vs = map (sl_fact sl) ids)"

text \<open>The sorted lists that the operations implement.\<close>

fun ins_sorted :: "('a \<Rightarrow> 'a \<Rightarrow> int) \<Rightarrow> 'a \<Rightarrow> 'a list \<Rightarrow> 'a list" where
  "ins_sorted cmp x [] = [x]"
| "ins_sorted cmp x (y # ys) =
    (if 0 < cmp x y then y # ins_sorted cmp x ys else if cmp x y = 0 then y # ys else x # y # ys)"

fun del_sorted :: "('a \<Rightarrow> 'a \<Rightarrow> int) \<Rightarrow> 'a \<Rightarrow> 'a list \<Rightarrow> 'a list" where
  "del_sorted cmp x [] = []"
| "del_sorted cmp x (y # ys) =
    (if 0 < cmp x y then y # del_sorted cmp x ys else if cmp x y = 0 then ys else y # ys)"

lemma ins_sorted_append:
  "\<forall>y \<in> set L. 0 < cmp x y \<Longrightarrow> ins_sorted cmp x (L @ R) = L @ ins_sorted cmp x R"
  by (induction L) auto

lemma del_sorted_append:
  "\<forall>y \<in> set L. 0 < cmp x y \<Longrightarrow> del_sorted cmp x (L @ R) = L @ del_sorted cmp x R"
  by (induction L) auto

lemma skiplist_init_rep:
  "0 < m \<Longrightarrow> sl_rep cmp ok (skiplist_init m table) []"
  by (simp add: sl_rep_def sl_ids_def skiplist_init_def skiplist_node_new_def sl_node_def
      sl_height_def node_next_def)

lemma height_index_le: "height_index t k i n \<le> i + n"
  by (induction t k i n rule: height_index.induct) auto

lemma skiplist_random_height_bounds:
  "0 < sl_max_height sl \<Longrightarrow>
    0 < skiplist_random_height sl k \<and> skiplist_random_height sl k \<le> sl_max_height sl"
  using height_index_le [of "sl_height_table sl" k 0 "sl_max_height sl - 1"]
  by (simp add: skiplist_random_height_def)

lemma chain_next_last:
  "chain nx (nx h) (L @ R) \<Longrightarrow> nx (last (h # L)) = (case R of [] \<Rightarrow> None | r # _ \<Rightarrow> Some r)"
  by (induction L arbitrary: h) (auto split: list.splits)

lemma sl_fact_same: "same_nodes s t \<Longrightarrow> sl_fact s = sl_fact t"
  and sl_height_same: "same_nodes s t \<Longrightarrow> sl_height s = sl_height t"
  by (auto simp: same_nodes_def sl_fact_def sl_height_def fun_eq_iff)

lemma sl_length_update_simps [simp]:
  "sl_node (sl\<lparr>sl_length := n\<rparr>) = sl_node sl" "sl_fact (sl\<lparr>sl_length := n\<rparr>) = sl_fact sl"
  "sl_height (sl\<lparr>sl_length := n\<rparr>) = sl_height sl" "node_next (sl\<lparr>sl_length := n\<rparr>) = node_next sl"
  by (auto simp: fun_eq_iff sl_node_def sl_fact_def sl_height_def node_next_def)

text \<open>The successor of the node found at level 0 is the first node not before the value.\<close>

lemma filter_height0:
  "sl_ids cmp ok sl ids \<Longrightarrow> set xs \<subseteq> set ids \<Longrightarrow> filter (\<lambda>p. 0 < sl_height sl p) xs = xs"
  by (rule filter_True) (auto simp: sl_ids_def)

lemma next_of_pred:
  assumes "sl_ids cmp ok sl (L @ R)"
  shows "node_next sl 0 (last (sl_head sl # filter (\<lambda>p. 0 < sl_height sl p) L)) =
    (case R of [] \<Rightarrow> None | r # _ \<Rightarrow> Some r)"
proof -
  have "chain (node_next sl 0) (node_next sl 0 (sl_head sl)) (L @ R)"
    using assms filter_height0 [OF assms, of "L @ R"] unfolding sl_ids_def by auto
  then show ?thesis
    using filter_height0 [OF assms, of L] by (simp add: chain_next_last del: last.simps)
qed

text \<open>The search of \<open>skiplist_find\<close> at one level.\<close>

lemma find_loop_chain:
  "chain (node_next sl l) n xs \<Longrightarrow> \<forall>p \<in> set xs. node_fact (sl_node sl p) = Some (sl_fact sl p) \<Longrightarrow> 0 < c \<Longrightarrow>
    \<exists>c'. find_loop cmp sl l x n c = Some (case dropWhile (\<lambda>p. 0 < cmp x (sl_fact sl p)) xs of
      [] \<Rightarrow> (None, c') | p # _ \<Rightarrow> (Some p, cmp x (sl_fact sl p))) \<and> 0 < c'"
proof (induction xs arbitrary: n c)
  case Nil
  then show ?case by (subst find_loop.simps) simp
next
  case (Cons p xs)
  then show ?case
    by (subst find_loop.simps) (auto simp: sl_compare_def Let_def intro: exI [of _ 1])
qed

lemma find_level:
  assumes "chain (node_next sl l) (node_next sl l h) (filter Q (L @ R))"
    "\<forall>p \<in> set (L @ R). node_fact (sl_node sl p) = Some (sl_fact sl p)" "node_fact (sl_node sl h) = None"
    "\<forall>p \<in> set L. 0 < cmp x (sl_fact sl p)" "\<forall>p \<in> set R. \<not> 0 < cmp x (sl_fact sl p)"
  shows "\<exists>c. find_loop cmp sl l x (Some h) (-1) = Some (case filter Q R of
      [] \<Rightarrow> (None, c) | p # _ \<Rightarrow> (Some p, cmp x (sl_fact sl p))) \<and> 0 < c"
proof -
  have "dropWhile (\<lambda>p. 0 < cmp x (sl_fact sl p)) (filter Q L @ filter Q R) = filter Q R"
    using assms(4,5) by (subst dropWhile_append2)
      (auto simp: dropWhile_eq_self_iff dest!: hd_in_set)
  then show ?thesis
    using find_loop_chain [OF assms(1), where c = 1 and cmp = cmp and x = x] assms(2,3)
    by (subst find_loop.simps) (auto simp: sl_compare_def Let_def)
qed

text \<open>
  What \<open>skiplist_pred\<close> returns when the value splits the nodes; the search may compare with
  another kind of key than the values (the bounds of a query).
\<close>

lemma skiplist_pred_split:
  assumes "sl_ids cmp ok sl (L @ R)" "\<forall>p \<in> set L. 0 < kcmp k (sl_fact sl p)"
    "\<forall>p \<in> set R. \<not> 0 < kcmp k (sl_fact sl p)"
  shows "skiplist_pred kcmp sl k = Some (\<lambda>l. if l < sl_max_height sl
    then Some (last (sl_head sl # filter (\<lambda>p. l < sl_height sl p) L)) else None)"
  unfolding skiplist_pred_def using assms
  by (intro pred_levels_from) (auto simp: sl_ids_def)

context comparison
begin

text \<open>The split of the nodes at a value.\<close>

lemma ids_split:
  assumes "sl_ids cmp ok sl ids" "ok x"
  obtains L R where "ids = L @ R" "\<forall>p \<in> set L. 0 < cmp x (sl_fact sl p)"
    "\<forall>p \<in> set R. \<not> 0 < cmp x (sl_fact sl p)"
proof -
  let ?P = "\<lambda>p. 0 < cmp x (sl_fact sl p)"
  have okp: "\<forall>p \<in> set ids. ok (sl_fact sl p)"
    and st: "sorted_wrt (\<lambda>p q. cmp (sl_fact sl p) (sl_fact sl q) < 0) ids"
    using assms(1) by (auto simp: sl_ids_def)
  have "\<not> ?P q" if q: "q \<in> set (dropWhile ?P ids)" for q
  proof -
    obtain d ds where dd: "dropWhile ?P ids = d # ds" using q by (cases "dropWhile ?P ids") auto
    then have d: "\<not> ?P d" by (metis dropWhile_eq_Cons_conv)
    have "ids = takeWhile ?P ids @ d # ds" using dd by (metis takeWhile_dropWhile_id)
    then have "sorted_wrt (\<lambda>p q. cmp (sl_fact sl p) (sl_fact sl q) < 0) (takeWhile ?P ids @ d # ds)"
      using st by simp
    then have ds: "\<forall>q \<in> set ds. cmp (sl_fact sl d) (sl_fact sl q) < 0"
      by (simp add: sorted_wrt_append)
    have "d \<in> set (dropWhile ?P ids)" using dd by simp
    then have "d \<in> set ids" "q \<in> set ids" using q by (auto dest: set_dropWhileD)
    moreover have "q = d \<or> cmp (sl_fact sl d) (sl_fact sl q) < 0"
      using ds q dd by auto
    moreover have "cmp x (sl_fact sl d) \<le> 0" using d by simp
    ultimately have "cmp x (sl_fact sl q) \<le> 0"
      using okp assms(2) le_trans [of x "sl_fact sl d" "sl_fact sl q"] by auto
    then show ?thesis by simp
  qed
  moreover have "?P q" if "q \<in> set (takeWhile ?P ids)" for q
    using that by (rule set_takeWhileD [THEN conjunct2])
  moreover have "ids = takeWhile ?P ids @ dropWhile ?P ids" by simp
  ultimately show ?thesis using that by blast
qed

lemma skiplist_pred_spec:
  assumes "sl_ids cmp ok sl (L @ R)" "\<forall>p \<in> set L. 0 < cmp x (sl_fact sl p)"
    "\<forall>p \<in> set R. \<not> 0 < cmp x (sl_fact sl p)"
  shows "skiplist_pred cmp sl x = Some (\<lambda>l. if l < sl_max_height sl
    then Some (last (sl_head sl # filter (\<lambda>p. l < sl_height sl p) L)) else None)"
  using skiplist_pred_split [where kcmp = cmp] assms by blast

lemma pred_node_in:
  assumes "sl_ids cmp ok sl (L @ R)"
  shows "last (sl_head sl # filter Q L) \<in> set (sl_head sl # L)"
    "last (sl_head sl # filter Q L) \<notin> set R"
proof -
  have "last (sl_head sl # filter Q L) \<in> set (sl_head sl # filter Q L)" by (rule last_in_set) simp
  then show 1: "last (sl_head sl # filter Q L) \<in> set (sl_head sl # L)" by (auto simp del: last.simps)
  have "set (sl_head sl # L) \<inter> set R = {}" using assms by (auto simp: sl_ids_def)
  with 1 show "last (sl_head sl # filter Q L) \<notin> set R" by blast
qed

lemma insert_node_ids:
  assumes ids: "sl_ids cmp ok sl (L @ R)" and x: "ok x"
    "\<forall>p \<in> set L. 0 < cmp x (sl_fact sl p)" "\<forall>p \<in> set R. cmp x (sl_fact sl p) < 0"
    and h: "0 < h" "h \<le> sl_max_height sl"
  defines "pr \<equiv> \<lambda>l. last (sl_head sl # filter (\<lambda>p. l < sl_height sl p) L)"
  defines "q \<equiv> sl_fresh sl"
  defines "sl' \<equiv> skiplist_node_insert q (\<lambda>l. if l < sl_max_height sl then Some (pr l) else None)
    (fst (skiplist_node_new (Some x) h sl))"
  shows "sl_ids cmp ok (sl'\<lparr>sl_length := sl_length sl' + 1\<rparr>) (L @ q # R) \<and>
    sl_fact sl' = (sl_fact sl)(q := x)"
proof -
  define s1 where "s1 = fst (skiplist_node_new (Some x) h sl)"
  define prs where "prs = (\<lambda>l. the (if l < sl_max_height sl then Some (pr l) else None))"
  have s1: "sl_node s1 = (sl_node sl)(q := \<lparr>node_fact = Some x, node_height = h, node_links = \<lambda>_. None\<rparr>)"
    "dom (sl_heap s1) = insert q (dom (sl_heap sl))" "sl_head s1 = sl_head sl" "sl_fresh s1 = Suc q"
    "sl_length s1 = sl_length sl" "sl_max_height s1 = sl_max_height sl"
    by (auto simp: s1_def skiplist_node_new_def sl_node_def fun_eq_iff q_def Let_def)
  have q: "q \<notin> set (sl_head sl # L @ R)" using ids unfolding sl_ids_def q_def by blast
  have pr: "pr l \<in> set (sl_head sl # L)" for l
    unfolding pr_def by (rule pred_node_in(1) [OF ids])
  have "\<forall>l < h. prs l \<in> dom (sl_heap s1) \<and> prs l \<noteq> q"
    using pr q ids h(2) unfolding prs_def s1(2) sl_ids_def by auto
  note fold = node_insert_fold [OF this, of, unfolded s1(2), OF insertI1]
  have sl': "sl' = fold (\<lambda>level s. set_node_next level (prs level) (Some q)
      (set_node_next level q (node_next s level (prs level)) s)) [0..<h] s1"
    by (simp add: sl'_def skiplist_node_insert_def s1_def [symmetric] s1(1) prs_def)
  have same: "same_nodes sl' s1"
    and nx: "\<And>l. node_next sl' l = (if l < h
      then (node_next s1 l)(q := node_next s1 l (prs l), prs l := Some q) else node_next s1 l)"
    using fold unfolding sl' by blast+
  have fact': "sl_fact sl' = (sl_fact sl)(q := x)" and height': "sl_height sl' = (sl_height sl)(q := h)"
    using sl_fact_same [OF same] sl_height_same [OF same]
    by (auto simp: fun_eq_iff sl_fact_def sl_height_def s1(1))
  have nx1: "node_next s1 l = (node_next sl l)(q := None)" for l
    by (simp add: fun_eq_iff node_next_def s1(1))
  have LR: "q \<notin> set L" "q \<notin> set R" "q \<noteq> sl_head sl" using q by auto
  have chains: "chain (node_next sl' l) (node_next sl' l (sl_head sl))
      (filter (\<lambda>p. l < sl_height sl' p) (L @ q # R))" if l: "l < sl_max_height sl" for l
  proof -
    let ?Q = "\<lambda>p. l < sl_height sl p"
    have fl: "filter (\<lambda>p. l < sl_height sl' p) L = filter ?Q L"
      "filter (\<lambda>p. l < sl_height sl' p) R = filter ?Q R"
      using LR by (auto simp: height' intro!: filter_cong)
    have "chain (node_next sl l) (node_next sl l (sl_head sl)) (filter ?Q L @ filter ?Q R)"
      using ids l by (simp add: sl_ids_def)
    then have c1: "chain (node_next s1 l) (node_next s1 l (sl_head sl)) (filter ?Q L @ filter ?Q R)"
      using LR by (subst chain_cong [where nx' = "node_next sl l"]) (auto simp: nx1)
    have d: "distinct (sl_head sl # filter ?Q L @ filter ?Q R)"
      using ids by (auto simp: sl_ids_def)
    show ?thesis
    proof (cases "l < h")
      case True
      then have "chain (node_next sl' l) (node_next sl' l (sl_head sl)) (filter ?Q L @ q # filter ?Q R)"
        using LR l by (intro chain_insert [OF c1 d]) (auto simp: nx prs_def pr_def simp del: last.simps)
      then show ?thesis using True by (simp add: fl, simp add: height')
    next
      case False
      then show ?thesis using c1 by (simp add: nx fl, simp add: height')
    qed
  qed
  have sorted: "sorted_wrt (\<lambda>p r. cmp (sl_fact sl' p) (sl_fact sl' r) < 0) (L @ q # R)"
  proof -
    have "\<forall>p \<in> set L. ok (sl_fact sl p)" using ids by (auto simp: sl_ids_def)
    then have "\<forall>p \<in> set L. cmp (sl_fact sl p) x < 0" using x flip(1) by blast
    moreover have "sorted_wrt (\<lambda>p r. cmp (sl_fact sl' p) (sl_fact sl' r) < 0) (L @ R)"
      using ids LR unfolding sl_ids_def
      by (auto simp: fact' elim!: sorted_wrt_mono_rel [rotated])
    ultimately show ?thesis
      using LR x(3) by (auto simp: sorted_wrt_append fact')
  qed
  have heads: "sl_head sl' = sl_head sl" "dom (sl_heap sl') = insert q (dom (sl_heap sl))"
    "sl_fresh sl' = Suc q" "sl_max_height sl' = sl_max_height sl" "sl_length sl' = sl_length sl"
    "\<And>p. node_fact (sl_node sl' p) = (if p = q then Some x else node_fact (sl_node sl p))"
    using same by (auto simp: same_nodes_def s1)
  define t where "t = sl'\<lparr>sl_length := sl_length sl' + 1\<rparr>"
  have t: "sl_head t = sl_head sl" "dom (sl_heap t) = insert q (dom (sl_heap sl))"
    "sl_fresh t = Suc q" "sl_max_height t = sl_max_height sl" "sl_length t = sl_length sl + 1"
    "\<And>p. node_fact (sl_node t p) = (if p = q then Some x else node_fact (sl_node sl p))"
    and tf: "sl_fact t = sl_fact sl'" "sl_height t = sl_height sl'" "node_next t = node_next sl'"
    by (simp_all add: t_def heads)
  have "sl_ids cmp ok t (L @ q # R)"
    unfolding sl_ids_def t tf
  proof (intro conjI)
    show "\<forall>l < sl_max_height sl. chain (node_next sl' l) (node_next sl' l (sl_head sl))
        (filter (\<lambda>p. l < sl_height sl' p) (L @ q # R))"
      using chains heads(4) by auto
    show "sorted_wrt (\<lambda>p r. cmp (sl_fact sl' p) (sl_fact sl' r) < 0) (L @ q # R)"
      by (rule sorted)
    show "\<forall>p \<in> set (sl_head sl # L @ q # R). p < Suc q"
      using ids unfolding sl_ids_def q_def by (auto simp: less_Suc_eq)
    show "\<forall>p \<in> set (L @ q # R). (if p = q then Some x else node_fact (sl_node sl p)) \<noteq> None \<and>
        ok (sl_fact sl' p) \<and> 0 < sl_height sl' p \<and> sl_height sl' p \<le> sl_max_height sl"
      using ids x(1) h unfolding sl_ids_def by (auto simp: fact' height')
  qed (use ids LR in \<open>auto simp: sl_ids_def height'\<close>)
  then show ?thesis using fact' by (simp add: t_def)
qed

lemma remove_node_ids:
  assumes ids: "sl_ids cmp ok sl (L @ q # R)"
  defines "pr \<equiv> \<lambda>l. last (sl_head sl # filter (\<lambda>p. l < sl_height sl p) L)"
  defines "sl' \<equiv> fold (\<lambda>level s. set_node_next level
      (the (if level < sl_max_height sl then Some (pr level) else None)) (node_next s level q) s)
      [0..<node_height (sl_node sl q)] sl"
  defines "sl'' \<equiv> skiplist_node_delete q (sl'\<lparr>sl_length := sl_length sl' - 1\<rparr>)"
  shows "sl_ids cmp ok sl'' (L @ R) \<and> (\<forall>p. p \<noteq> q \<longrightarrow> sl_fact sl'' p = sl_fact sl p)"
proof -
  define prs where "prs = (\<lambda>l. the (if l < sl_max_height sl then Some (pr l) else None))"
  have LR: "q \<notin> set L" "q \<notin> set R" "q \<noteq> sl_head sl" and h: "sl_height sl q \<le> sl_max_height sl"
    using ids by (auto simp: sl_ids_def)
  have pr: "pr l \<in> set (sl_head sl # L)" for l
    unfolding pr_def by (rule pred_node_in(1) [OF ids])
  have "\<forall>l < sl_height sl q. prs l \<in> dom (sl_heap sl)"
    using pr ids h unfolding prs_def sl_ids_def by auto
  note fold = remove_fold [OF this, of q]
  have sl': "sl' = fold (\<lambda>level s. set_node_next level (prs level) (node_next s level q) s)
      [0..<sl_height sl q] sl"
    by (simp add: sl'_def sl_height_def prs_def)
  have same: "same_nodes sl' sl"
    and nx: "\<And>l. node_next sl' l = (if l < sl_height sl q
      then (node_next sl l)(prs l := node_next sl l q) else node_next sl l)"
    using fold unfolding sl' by blast+
  have node: "sl_node sl'' p = sl_node sl' p" if "p \<noteq> q" for p
    using that by (simp add: sl''_def skiplist_node_delete_def sl_node_def)
  have fact': "sl_fact sl'' p = sl_fact sl p" and height': "sl_height sl'' p = sl_height sl p"
    and nf: "node_fact (sl_node sl'' p) = node_fact (sl_node sl p)" 
    and nx'': "node_next sl'' l p = node_next sl' l p" if "p \<noteq> q" for p l
    using that same by (auto simp: node sl_fact_def sl_height_def node_next_def same_nodes_def)
  have heads: "sl_head sl'' = sl_head sl" "dom (sl_heap sl'') = dom (sl_heap sl) - {q}"
    "sl_fresh sl'' = sl_fresh sl" "sl_max_height sl'' = sl_max_height sl"
    "sl_length sl'' = sl_length sl - 1"
    using same by (auto simp: same_nodes_def sl''_def skiplist_node_delete_def)
  have hLR: "\<forall>p \<in> set (L @ R). sl_height sl'' p = sl_height sl p"
    and fLR: "\<forall>p \<in> set (L @ R). sl_fact sl'' p = sl_fact sl p"
    using LR height' fact' by (metis Un_iff set_append)+
  have chains: "chain (node_next sl'' l) (node_next sl'' l (sl_head sl))
      (filter (\<lambda>p. l < sl_height sl'' p) (L @ R))" if l: "l < sl_max_height sl" for l
  proof -
    let ?Q = "\<lambda>p. l < sl_height sl p"
    have fl: "filter (\<lambda>p. l < sl_height sl'' p) (L @ R) = filter ?Q L @ filter ?Q R"
      unfolding filter_append [symmetric] by (rule filter_cong) (use hLR in auto)
    have c: "chain (node_next sl l) (node_next sl l (sl_head sl)) (filter ?Q (L @ q # R))"
      using ids l by (simp add: sl_ids_def)
    have d: "distinct (sl_head sl # filter ?Q (L @ q # R))"
      using ids by (auto simp: sl_ids_def)
    have "chain (node_next sl' l) (node_next sl' l (sl_head sl)) (filter ?Q L @ filter ?Q R)"
    proof (cases "?Q q")
      case True
      then have "filter ?Q (L @ q # R) = filter ?Q L @ q # filter ?Q R" by simp
      moreover have "node_next sl' l = (node_next sl l)
          (last (sl_head sl # filter ?Q L) := node_next sl l q)"
        using True l by (simp add: nx prs_def pr_def del: last.simps)
      ultimately show ?thesis
        using c d by (simp only: chain_delete [where nx = "node_next sl l" and q = q])
    next
      case False
      then show ?thesis using c by (simp add: nx)
    qed
    moreover have "chain (node_next sl'' l) n (filter ?Q L @ filter ?Q R) =
        chain (node_next sl' l) n (filter ?Q L @ filter ?Q R)" for n
      using LR by (intro chain_cong ballI nx'') auto
    ultimately show ?thesis
      unfolding fl using nx'' [of "sl_head sl" l] LR(3) by simp
  qed
  have sorted: "sorted_wrt (\<lambda>p r. cmp (sl_fact sl'' p) (sl_fact sl'' r) < 0) (L @ R)"
  proof -
    have "sorted_wrt (\<lambda>p r. cmp (sl_fact sl p) (sl_fact sl r) < 0) (L @ R)"
      using ids by (auto simp: sl_ids_def sorted_wrt_append)
    then show ?thesis
      using fLR by (auto elim!: sorted_wrt_mono_rel [rotated])
  qed
  have vals: "\<forall>p \<in> set (L @ R). node_fact (sl_node sl'' p) \<noteq> None \<and> ok (sl_fact sl'' p) \<and>
        0 < sl_height sl'' p \<and> sl_height sl'' p \<le> sl_max_height sl''"
  proof
    fix p assume p: "p \<in> set (L @ R)"
    with LR have "p \<noteq> q" by auto
    with p ids show "node_fact (sl_node sl'' p) \<noteq> None \<and> ok (sl_fact sl'' p) \<and>
        0 < sl_height sl'' p \<and> sl_height sl'' p \<le> sl_max_height sl''"
      unfolding sl_ids_def heads by (simp add: fact' height' nf)
  qed
  have "sl_ids cmp ok sl'' (L @ R)"
    unfolding sl_ids_def
  proof (intro conjI vals)
    show "\<forall>l < sl_max_height sl''. chain (node_next sl'' l) (node_next sl'' l (sl_head sl''))
        (filter (\<lambda>p. l < sl_height sl'' p) (L @ R))"
      using chains unfolding heads by blast
    show "sorted_wrt (\<lambda>p r. cmp (sl_fact sl'' p) (sl_fact sl'' r) < 0) (L @ R)"
      by (rule sorted)
  qed (use ids LR in \<open>auto simp: sl_ids_def heads height' nf\<close>)
  then show ?thesis using fact' by blast
qed

text \<open>The list split at a value, with the searched nodes.\<close>

lemma rep_split:
  assumes rep: "sl_rep cmp ok sl vs" and x: "ok x"
  obtains L R where "sl_ids cmp ok sl (L @ R)" "vs = map (sl_fact sl) (L @ R)"
    "\<forall>p \<in> set L. 0 < cmp x (sl_fact sl p)" "\<forall>p \<in> set R. \<not> 0 < cmp x (sl_fact sl p)"
    "skiplist_pred cmp sl x = Some (\<lambda>l. if l < sl_max_height sl
      then Some (last (sl_head sl # filter (\<lambda>p. l < sl_height sl p) L)) else None)"
    "node_next sl 0 (last (sl_head sl # filter (\<lambda>p. 0 < sl_height sl p) L)) =
      (case R of [] \<Rightarrow> None | r # _ \<Rightarrow> Some r)"
    "0 < sl_max_height sl" "\<forall>p \<in> set (L @ R). node_fact (sl_node sl p) = Some (sl_fact sl p)"
proof -
  obtain ids where ids: "sl_ids cmp ok sl ids" and vs: "vs = map (sl_fact sl) ids"
    using rep by (auto simp: sl_rep_def)
  obtain L R where LR: "ids = L @ R" and L: "\<forall>p \<in> set L. 0 < cmp x (sl_fact sl p)"
    and R: "\<forall>p \<in> set R. \<not> 0 < cmp x (sl_fact sl p)"
    using ids_split [OF ids x] .
  note ids' = ids [unfolded LR]
  have "0 < sl_max_height sl" "\<forall>p \<in> set (L @ R). node_fact (sl_node sl p) = Some (sl_fact sl p)"
    using ids' by (auto simp: sl_ids_def sl_fact_def)
  then show ?thesis
    using that [OF ids' vs [unfolded LR] L R skiplist_pred_spec [OF ids' L R] next_of_pred [OF ids']]
    by blast
qed

text \<open>The nodes after the value are greater, when the first of them is.\<close>

lemma rest_greater:
  assumes ids: "sl_ids cmp ok sl (L @ R)" and x: "ok x" and R: "\<forall>p \<in> set R. \<not> 0 < cmp x (sl_fact sl p)"
    and ne: "\<nexists>r R'. R = r # R' \<and> cmp x (sl_fact sl r) = 0"
  shows "\<forall>p \<in> set R. cmp x (sl_fact sl p) < 0"
proof (cases R)
  case (Cons r R')
  then have r: "cmp x (sl_fact sl r) < 0" using ne R by force
  have okr: "ok (sl_fact sl p)" if "p \<in> set R" for p using ids that by (auto simp: sl_ids_def)
  have "\<forall>p \<in> set R'. cmp (sl_fact sl r) (sl_fact sl p) < 0"
    using ids by (simp add: sl_ids_def sorted_wrt_append Cons)
  then show ?thesis
    using r okr less_trans [of x "sl_fact sl r"] x by (auto simp: Cons)
qed simp

lemma skiplist_insert_rep:
  assumes rep: "sl_rep cmp ok sl vs" and x: "ok x"
  shows "\<exists>sl' n. skiplist_insert cmp sl x k = Some (sl', n) \<and> sl_rep cmp ok sl' (ins_sorted cmp x vs) \<and>
    cmp x (sl_fact sl' n) = 0 \<and> sl_fact sl' n \<in> set (ins_sorted cmp x vs)"
proof -
  obtain L R where ids: "sl_ids cmp ok sl (L @ R)" and vs: "vs = map (sl_fact sl) (L @ R)"
    and L: "\<forall>p \<in> set L. 0 < cmp x (sl_fact sl p)" and R: "\<forall>p \<in> set R. \<not> 0 < cmp x (sl_fact sl p)"
    and pred: "skiplist_pred cmp sl x = Some (\<lambda>l. if l < sl_max_height sl
      then Some (last (sl_head sl # filter (\<lambda>p. l < sl_height sl p) L)) else None)"
    and nxt: "node_next sl 0 (last (sl_head sl # filter (\<lambda>p. 0 < sl_height sl p) L)) =
      (case R of [] \<Rightarrow> None | r # _ \<Rightarrow> Some r)"
    and max: "0 < sl_max_height sl"
    and some: "\<forall>p \<in> set (L @ R). node_fact (sl_node sl p) = Some (sl_fact sl p)"
    by (rule rep_split [OF rep x])
  have ins: "ins_sorted cmp x vs = map (sl_fact sl) L @ ins_sorted cmp x (map (sl_fact sl) R)"
    unfolding vs map_append using L by (intro ins_sorted_append) auto
  show ?thesis
  proof (cases "\<exists>r R'. R = r # R' \<and> cmp x (sl_fact sl r) = 0")
    case True
    then obtain r R' where r: "R = r # R'" "cmp x (sl_fact sl r) = 0" by blast
    then have "skiplist_insert cmp sl x k = Some (sl, r)"
      using some by (simp add: skiplist_insert_def pred max nxt sl_compare_def del: last.simps)
    moreover have "ins_sorted cmp x vs = vs" unfolding ins using r by (simp add: vs)
    ultimately show ?thesis using rep r by (auto simp: vs)
  next
    case False
    define q where "q = sl_fresh sl"
    define h where "h = skiplist_random_height sl k"
    define sl' where "sl' = skiplist_node_insert q
      (\<lambda>l. if l < sl_max_height sl then Some (last (sl_head sl # filter (\<lambda>p. l < sl_height sl p) L)) else None)
      (fst (skiplist_node_new (Some x) h sl))"
    have h: "0 < h" "h \<le> sl_max_height sl"
      unfolding h_def using skiplist_random_height_bounds [OF max] by auto
    note neg = rest_greater [OF ids x R False]
    have new: "sl_ids cmp ok (sl'\<lparr>sl_length := sl_length sl' + 1\<rparr>) (L @ q # R)"
      "sl_fact sl' = (sl_fact sl)(q := x)"
      unfolding sl'_def q_def using insert_node_ids [OF ids x L neg h] by blast+
    have "skiplist_insert cmp sl x k = Some (sl'\<lparr>sl_length := sl_length sl' + 1\<rparr>, q)"
      using False some
      by (auto simp: skiplist_insert_def pred max nxt sl_compare_def sl'_def h_def q_def
          skiplist_node_new_def Let_def split: list.splits simp del: last.simps)
    moreover have q: "q \<notin> set L" "q \<notin> set R" unfolding q_def using ids by (auto simp: sl_ids_def)
    then have mp: "map (sl_fact sl') (L @ q # R) = ins_sorted cmp x vs"
      unfolding ins new(2) using neg by (cases R) auto
    then have "x \<in> set (ins_sorted cmp x vs)" using new(2) by (auto simp flip: mp)
    moreover have "sl_rep cmp ok (sl'\<lparr>sl_length := sl_length sl' + 1\<rparr>) (ins_sorted cmp x vs)"
      unfolding sl_rep_def using new(1) mp by auto
    ultimately show ?thesis using new(2) x cmp_self by auto
  qed
qed

lemma skiplist_remove_rep:
  assumes rep: "sl_rep cmp ok sl vs" and x: "ok x"
  shows "\<exists>sl'. skiplist_remove cmp sl x = Some (sl', \<exists>v \<in> set vs. cmp x v = 0) \<and>
    sl_rep cmp ok sl' (del_sorted cmp x vs)"
proof -
  obtain L R where ids: "sl_ids cmp ok sl (L @ R)" and vs: "vs = map (sl_fact sl) (L @ R)"
    and L: "\<forall>p \<in> set L. 0 < cmp x (sl_fact sl p)" and R: "\<forall>p \<in> set R. \<not> 0 < cmp x (sl_fact sl p)"
    and pred: "skiplist_pred cmp sl x = Some (\<lambda>l. if l < sl_max_height sl
      then Some (last (sl_head sl # filter (\<lambda>p. l < sl_height sl p) L)) else None)"
    and nxt: "node_next sl 0 (last (sl_head sl # filter (\<lambda>p. 0 < sl_height sl p) L)) =
      (case R of [] \<Rightarrow> None | r # _ \<Rightarrow> Some r)"
    and max: "0 < sl_max_height sl"
    and some: "\<forall>p \<in> set (L @ R). node_fact (sl_node sl p) = Some (sl_fact sl p)"
    by (rule rep_split [OF rep x])
  have del: "del_sorted cmp x vs = map (sl_fact sl) L @ del_sorted cmp x (map (sl_fact sl) R)"
    unfolding vs map_append using L by (intro del_sorted_append) auto
  show ?thesis
  proof (cases "\<exists>r R'. R = r # R' \<and> cmp x (sl_fact sl r) = 0")
    case True
    then obtain q R' where q: "R = q # R'" "cmp x (sl_fact sl q) = 0" by blast
    note rem = remove_node_ids [OF ids [unfolded q(1)]]
    from rem obtain sl' where sl': "skiplist_remove cmp sl x = Some (sl', True)"
      "sl_ids cmp ok sl' (L @ R')" "\<forall>p. p \<noteq> q \<longrightarrow> sl_fact sl' p = sl_fact sl p"
      using some q(2) by (simp add: skiplist_remove_def pred max nxt q(1) sl_compare_def Let_def del: last.simps)
    have "q \<notin> set (L @ R')" using ids q(1) by (auto simp: sl_ids_def)
    then have "map (sl_fact sl') (L @ R') = map (sl_fact sl) (L @ R')"
      using sl'(3) by (intro map_cong) auto
    then have "del_sorted cmp x vs = map (sl_fact sl') (L @ R')"
      unfolding del using q by simp
    moreover have "\<exists>v \<in> set vs. cmp x v = 0" using q by (auto simp: vs)
    ultimately show ?thesis using sl' by (auto simp: sl_rep_def)
  next
    case False
    note neg = rest_greater [OF ids x R False]
    have "skiplist_remove cmp sl x = Some (sl, False)"
      using False some
      by (auto simp: skiplist_remove_def pred max nxt sl_compare_def split: list.splits simp del: last.simps)
    moreover have "\<not> (\<exists>v \<in> set vs. cmp x v = 0)" using L neg by (auto simp: vs)
    moreover have "del_sorted cmp x vs = vs" unfolding del using neg by (cases R) (auto simp: vs)
    ultimately show ?thesis using rep by simp
  qed
qed

lemma skiplist_find_rep:
  assumes rep: "sl_rep cmp ok sl vs" and x: "ok x"
  shows "\<exists>n. skiplist_find cmp sl x = Some n \<and>
    (case n of None \<Rightarrow> \<forall>v \<in> set vs. cmp x v \<noteq> 0
     | Some n \<Rightarrow> sl_fact sl n \<in> set vs \<and> cmp x (sl_fact sl n) = 0)"
proof -
  obtain L R where ids: "sl_ids cmp ok sl (L @ R)" and vs: "vs = map (sl_fact sl) (L @ R)"
    and L: "\<forall>p \<in> set L. 0 < cmp x (sl_fact sl p)" and R: "\<forall>p \<in> set R. \<not> 0 < cmp x (sl_fact sl p)"
    and max: "0 < sl_max_height sl"
    and some: "\<forall>p \<in> set (L @ R). node_fact (sl_node sl p) = Some (sl_fact sl p)"
    by (rule rep_split [OF rep x])
  have level: "\<exists>c. find_loop cmp sl l x (Some (sl_head sl)) (-1) = Some (case filter (\<lambda>p. l < sl_height sl p) R of
      [] \<Rightarrow> (None, c) | p # _ \<Rightarrow> (Some p, cmp x (sl_fact sl p))) \<and> 0 < c" if "l < sl_max_height sl" for l
    by (rule find_level [where L = L]) (use ids that some L R in \<open>auto simp: sl_ids_def\<close>)
  have R0: "filter (\<lambda>p. 0 < sl_height sl p) R = R"
    by (rule filter_height0 [OF ids]) auto
  have found: "\<exists>n. find_levels cmp sl x k = Some n \<and> (case n of
      None \<Rightarrow> 0 < k \<longrightarrow> (\<forall>r R'. R = r # R' \<longrightarrow> cmp x (sl_fact sl r) \<noteq> 0)
      | Some q \<Rightarrow> q \<in> set R \<and> cmp x (sl_fact sl q) = 0)" if "k \<le> sl_max_height sl" for k
    using that
  proof (induction k)
    case (Suc l)
    then obtain n where n: "find_levels cmp sl x l = Some n" "case n of
      None \<Rightarrow> 0 < l \<longrightarrow> (\<forall>r R'. R = r # R' \<longrightarrow> cmp x (sl_fact sl r) \<noteq> 0)
      | Some q \<Rightarrow> q \<in> set R \<and> cmp x (sl_fact sl q) = 0" by (meson Suc_leD)
    have "l < sl_max_height sl" using Suc.prems by simp
    from level [OF this] obtain c where c: "0 < c"
      "find_loop cmp sl l x (Some (sl_head sl)) (-1) = Some (case filter (\<lambda>p. l < sl_height sl p) R of
        [] \<Rightarrow> (None, c) | p # _ \<Rightarrow> (Some p, cmp x (sl_fact sl p)))"
      by blast
    show ?case
    proof (cases "filter (\<lambda>p. l < sl_height sl p) R")
      case Nil
      then show ?thesis using c n R0 by (cases l) (auto split: option.splits)
    next
      case (Cons p ps)
      have "p \<in> set (filter (\<lambda>p. l < sl_height sl p) R)" unfolding Cons by simp
      then have "p \<in> set R" by (simp only: set_filter mem_Collect_eq)
      with Cons show ?thesis using c n R0 by (cases l) (auto split: option.splits)
    qed
  qed simp
  have "sl_height sl (sl_head sl) = sl_max_height sl" using ids by (simp add: sl_ids_def)
  then have find: "skiplist_find cmp sl x = find_levels cmp sl x (sl_max_height sl)"
    by (simp add: skiplist_find_def sl_height_def)
  from found [OF order_refl] obtain n where fl: "find_levels cmp sl x (sl_max_height sl) = Some n"
    and cn: "case n of
      None \<Rightarrow> 0 < sl_max_height sl \<longrightarrow> (\<forall>r R'. R = r # R' \<longrightarrow> cmp x (sl_fact sl r) \<noteq> 0)
      | Some q \<Rightarrow> q \<in> set R \<and> cmp x (sl_fact sl q) = 0"
    by blast
  have n: "skiplist_find cmp sl x = Some n" "case n of
      None \<Rightarrow> \<forall>r R'. R = r # R' \<longrightarrow> cmp x (sl_fact sl r) \<noteq> 0
      | Some q \<Rightarrow> q \<in> set R \<and> cmp x (sl_fact sl q) = 0"
    using fl cn max by (auto simp: find split: option.splits)
  show ?thesis
  proof (cases n)
    case None
    then have "\<forall>p \<in> set R. cmp x (sl_fact sl p) < 0" using n by (intro rest_greater [OF ids x R]) auto
    then show ?thesis using None n L by (auto simp: vs)
  qed (use n in \<open>auto simp: vs\<close>)
qed

text \<open>The values kept by the sorted lists.\<close>

lemma rep_sorted: "sl_rep cmp ok sl vs \<Longrightarrow> sorted_wrt (\<lambda>v w. cmp v w < 0) vs \<and> (\<forall>v \<in> set vs. ok v)"
  by (auto simp: sl_rep_def sl_ids_def sorted_wrt_map)

lemma rep_length: "sl_rep cmp ok sl vs \<Longrightarrow> sl_length sl = of_nat (length vs)"
  by (auto simp: sl_rep_def sl_ids_def)

lemma set_ins_sorted:
  "sorted_wrt (\<lambda>v w. cmp v w < 0) vs \<Longrightarrow> \<forall>v \<in> set vs. ok v \<Longrightarrow> ok x \<Longrightarrow>
    set (ins_sorted cmp x vs) = (if \<exists>v \<in> set vs. cmp x v = 0 then set vs else insert x (set vs))"
proof (induction vs)
  case (Cons v vs)
  have "\<forall>w \<in> set vs. cmp x w < 0" if "cmp x v < 0"
    using Cons.prems that less_trans [of x v] by auto
  then have "\<not> (\<exists>w \<in> set vs. cmp x w = 0)" if "cmp x v < 0" using that by auto
  with Cons show ?case by auto
qed simp

lemma set_del_sorted:
  "sorted_wrt (\<lambda>v w. cmp v w < 0) vs \<Longrightarrow> \<forall>v \<in> set vs. ok v \<Longrightarrow> ok x \<Longrightarrow>
    set (del_sorted cmp x vs) = {v \<in> set vs. cmp x v \<noteq> 0}"
proof (induction vs)
  case (Cons v vs)
  have "\<forall>w \<in> set vs. cmp x w < 0" if "cmp x v \<le> 0"
    using Cons.prems that le_less_trans [of x v] by auto
  then have "\<forall>w \<in> set vs. cmp x w \<noteq> 0" if "cmp x v \<le> 0" using that by fastforce
  with Cons show ?case by auto
qed simp

end

text \<open>
  C27: the height of a new node.  Whatever the table and the number drawn are,
  \<open>skiplist_random_height\<close> is at least one and at most the height of the list, so that a node
  never has more links than its predecessors' array has entries.
\<close>

theorem node_height_bounds:
  assumes "0 < sl_max_height sl"
  shows "0 < skiplist_random_height sl k \<and> skiplist_random_height sl k \<le> sl_max_height sl"
  using assms by (rule skiplist_random_height_bounds)

theorem node_height_bounds_witness:
  "skiplist_random_height (skiplist_init 3 [9, 5, 1] :: nat skiplist) 6 \<le> 3"
proof -
  have "sl_max_height (skiplist_init 3 [9, 5, 1] :: nat skiplist) = 3"
    by (simp add: skiplist_init_def skiplist_node_new_def)
  then show ?thesis using node_height_bounds [of "skiplist_init 3 [9, 5, 1] :: nat skiplist" 6] by simp
qed

end
