(* ===== verification/Fact_Index.thy ===== *)
theory Fact_Index
  imports Compare_Order Hash_Set Skiplist
begin

text \<open>
  The element types of the database's structures: tags and facts in hash sets, facts in the four
  sorted indexes.  This theory interprets the contracts \<open>hashed\<close> and \<open>comparison\<close> on
  the comparisons of compare.c, for canonical tags.

  The hash functions (hash.c, over SHA-1) are fields of \<open>rt\<close>: the structures only use that they
  are functions of the value, and \<open>hash_update_fact\<close> hashes the three tags and not the id.
\<close>

record rt =
  rt_mp :: mplib
  rt_tag_hash :: "tag \<Rightarrow> uw"
  rt_fact_hash :: "tag \<Rightarrow> tag \<Rightarrow> tag \<Rightarrow> uw"

definition cmp_tag :: "rt \<Rightarrow> tag \<Rightarrow> tag \<Rightarrow> int" where
  "cmp_tag rt = compare_tag (rt_mp rt)"

definition fact_hash :: "rt \<Rightarrow> tag fact \<Rightarrow> uw" where
  "fact_hash rt f = rt_fact_hash rt (fact_subject f) (fact_predicate f) (fact_object f)"

definition fact_key :: "tag fact \<Rightarrow> tag \<times> tag \<times> tag" where
  "fact_key f = (fact_subject f, fact_predicate f, fact_object f)"

lemma fact_key_simps [simp]: "fact_key (Fact s p ob i) = (s, p, ob)"
  by (simp add: fact_key_def)

definition tag_ok :: "rt \<Rightarrow> bool \<Rightarrow> tag \<Rightarrow> bool" where
  "tag_ok rt m = tags_canonical (rt_mp rt) m"

definition fact_ok :: "rt \<Rightarrow> bool \<Rightarrow> tag fact \<Rightarrow> bool" where
  "fact_ok rt m f \<longleftrightarrow> tag_ok rt m (fact_subject f) \<and> tag_ok rt m (fact_predicate f) \<and> tag_ok rt m (fact_object f)"

lemma fact_ok_simps [simp]:
  "fact_ok rt m (Fact s p ob i) \<longleftrightarrow> tag_ok rt m s \<and> tag_ok rt m p \<and> tag_ok rt m ob"
  by (simp add: fact_ok_def)

interpretation tags: strict_comparison "cmp_tag rt" "tag_ok rt m" for rt m
  unfolding cmp_tag_def tag_ok_def by (rule tag_cmp_strict.strict_comparison_axioms)

interpretation tag_set: hashed "rt_tag_hash rt" "cmp_tag rt" "\<lambda>t. t" "tag_ok rt m" for rt m
  by unfold_locales (auto simp: tags.zero_iff [where m = m])

interpretation fact_set: hashed "fact_hash rt" "compare_fact (cmp_tag rt)" fact_key "fact_ok rt m" for rt m
  by unfold_locales
     (auto simp: compare_fact_def fact_ok_def fact_key_def fact_hash_def tags.zero_iff [where m = m])

section \<open>The four orders\<close>

text \<open>\<open>skiplist->compare\<close> of an index is one of these.\<close>

datatype facts_index = Index_id | Index_spo | Index_pos | Index_osp

definition index_compare :: "facts_index \<Rightarrow> ('a \<Rightarrow> 'a \<Rightarrow> int) \<Rightarrow> 'a fact \<Rightarrow> 'a fact \<Rightarrow> int" where
  "index_compare ix = (case ix of Index_id \<Rightarrow> compare_fact_id | Index_spo \<Rightarrow> compare_fact_spo
    | Index_pos \<Rightarrow> compare_fact_pos | Index_osp \<Rightarrow> compare_fact_osp)"

definition fact_all :: "('a \<Rightarrow> bool) \<Rightarrow> 'a fact \<Rightarrow> bool" where
  "fact_all P f \<longleftrightarrow> P (fact_subject f) \<and> P (fact_predicate f) \<and> P (fact_object f)"

lemma fact_ok_all: "fact_ok rt m = fact_all (tag_ok rt m)"
  by (simp add: fact_ok_def fact_all_def fun_eq_iff)

lemma compare_fact_id_lexi:
  "compare_fact_id f a b = lexi (cmp_int (uint (fact_id a)) (uint (fact_id b))) (compare_fact_spo f a b)"
  by (simp add: compare_fact_id_def compare_fact_spo_def lexi_def cmp_int_def word_less_def word_le_def)

context comparison
begin

lemma spo_comparison: "comparison (compare_fact_spo cmp) (fact_all ok)"
  using lex3 [where p = fact_subject and q = fact_predicate and r = fact_object]
  unfolding compare_fact_spo_def [abs_def] fact_all_def [abs_def] .

lemma pos_comparison: "comparison (compare_fact_pos cmp) (fact_all ok)"
proof -
  have "fact_all ok = (\<lambda>x. ok (fact_predicate x) \<and> ok (fact_object x) \<and> ok (fact_subject x))"
    by (auto simp: fact_all_def)
  then show ?thesis
    using lex3 [where p = fact_predicate and q = fact_object and r = fact_subject]
    unfolding compare_fact_pos_def [abs_def] by simp
qed

lemma osp_comparison: "comparison (compare_fact_osp cmp) (fact_all ok)"
proof -
  have "fact_all ok = (\<lambda>x. ok (fact_object x) \<and> ok (fact_subject x) \<and> ok (fact_predicate x))"
    by (auto simp: fact_all_def)
  then show ?thesis
    using lex3 [where p = fact_object and q = fact_subject and r = fact_predicate]
    unfolding compare_fact_osp_def [abs_def] by simp
qed

lemma id_comparison: "comparison (compare_fact_id cmp) (fact_all ok)"
proof
  fix x y z assume ok: "fact_all ok x" "fact_all ok y"
  show "compare_fact_id cmp y x = - compare_fact_id cmp x y"
    unfolding compare_fact_id_lexi
    using cmp_int_anti [of "uint (fact_id y)" "uint (fact_id x)"] comparison.anti [OF spo_comparison ok]
    by (simp add: lexi_minus)
  assume z: "fact_all ok z"
  show "tri (compare_fact_id cmp x y) (compare_fact_id cmp y z) (compare_fact_id cmp x z)"
    unfolding compare_fact_id_lexi by (intro tri_lexi tri_cmp_int comparison.cmp_tri [OF spo_comparison ok z])
qed

lemma index_comparison: "comparison (index_compare ix cmp) (fact_all ok)"
  by (cases ix) (simp_all add: index_compare_def spo_comparison pos_comparison osp_comparison id_comparison)

end

interpretation spo: comparison "compare_fact_spo (cmp_tag rt)" "fact_ok rt m" for rt m
  unfolding fact_ok_all by (rule tags.spo_comparison)

interpretation pos: comparison "compare_fact_pos (cmp_tag rt)" "fact_ok rt m" for rt m
  unfolding fact_ok_all by (rule tags.pos_comparison)

interpretation osp: comparison "compare_fact_osp (cmp_tag rt)" "fact_ok rt m" for rt m
  unfolding fact_ok_all by (rule tags.osp_comparison)

interpretation fid: comparison "compare_fact_id (cmp_tag rt)" "fact_ok rt m" for rt m
  unfolding fact_ok_all by (rule tags.id_comparison)

interpretation index: comparison "index_compare ix (cmp_tag rt)" "fact_ok rt m" for ix rt m
  unfolding fact_ok_all by (rule tags.index_comparison)

lemma compare_fact_zero:
  assumes "fact_ok rt m f" "fact_ok rt m g"
  shows "compare_fact_spo (cmp_tag rt) f g = 0 \<longleftrightarrow> fact_key f = fact_key g"
    "compare_fact_pos (cmp_tag rt) f g = 0 \<longleftrightarrow> fact_key f = fact_key g"
    "compare_fact_osp (cmp_tag rt) f g = 0 \<longleftrightarrow> fact_key f = fact_key g"
    "compare_fact_id (cmp_tag rt) f g = 0 \<longleftrightarrow> f = g"
  using assms
  by (cases f; cases g;
      auto simp: compare_fact_spo_def compare_fact_pos_def compare_fact_osp_def compare_fact_id_def
        fact_ok_def fact_key_def tags.zero_iff [where m = m])+

section \<open>The indexes and the tables\<close>

text \<open>
  C24: inserting into an index.  On a skip list that represents a sorted list of facts,
  \<open>skiplist_insert\<close> returns, gives the node of a fact equal to the new one, and represents the
  sorted list with the fact inserted; as a set it has one more element unless the triple
  was there.  The number drawn for the height does not matter.
\<close>

theorem index_insert_sorted:
  assumes "sl_rep (compare_fact_spo (cmp_tag rt)) (fact_ok rt m) sl vs" "fact_ok rt m f"
  shows "\<exists>sl' n. skiplist_insert (compare_fact_spo (cmp_tag rt)) sl f k = Some (sl', n) \<and>
    sl_rep (compare_fact_spo (cmp_tag rt)) (fact_ok rt m) sl' (ins_sorted (compare_fact_spo (cmp_tag rt)) f vs) \<and>
    fact_key (sl_fact sl' n) = fact_key f \<and>
    set (ins_sorted (compare_fact_spo (cmp_tag rt)) f vs) =
      (if \<exists>v \<in> set vs. fact_key v = fact_key f then set vs else insert f (set vs))"
proof -
  note c = spo.comparison_axioms
  from comparison.rep_sorted [OF c assms(1)]
  have vs: "sorted_wrt (\<lambda>v w. compare_fact_spo (cmp_tag rt) v w < 0) vs" "\<forall>v \<in> set vs. fact_ok rt m v" by auto
  have key: "(\<exists>v \<in> set vs. compare_fact_spo (cmp_tag rt) f v = 0) \<longleftrightarrow> (\<exists>v \<in> set vs. fact_key v = fact_key f)"
    using vs(2) compare_fact_zero(1) [OF assms(2)] by (metis (no_types))
  from comparison.skiplist_insert_rep [OF c assms, of k] obtain sl' n where
    i: "skiplist_insert (compare_fact_spo (cmp_tag rt)) sl f k = Some (sl', n)"
    "sl_rep (compare_fact_spo (cmp_tag rt)) (fact_ok rt m) sl' (ins_sorted (compare_fact_spo (cmp_tag rt)) f vs)"
    "compare_fact_spo (cmp_tag rt) f (sl_fact sl' n) = 0"
    "sl_fact sl' n \<in> set (ins_sorted (compare_fact_spo (cmp_tag rt)) f vs)" by blast
  have "fact_ok rt m (sl_fact sl' n)" using comparison.rep_sorted [OF c i(2)] i(4) by blast
  then have "fact_key (sl_fact sl' n) = fact_key f" using compare_fact_zero(1) [OF assms(2)] i(3) by simp
  with i(1,2) comparison.set_ins_sorted [OF c vs assms(2)] key show ?thesis by auto
qed

definition exact_rt :: rt where
  "exact_rt = \<lparr>rt_mp = mp_exact, rt_tag_hash = (\<lambda>_. 5), rt_fact_hash = (\<lambda>_ _ _. 5)\<rparr>"

lemma exact_tag_ok: "tag_ok exact_rt True (TPsym s)" "tag_ok exact_rt True (TU8 x)"
  by (simp_all add: exact_rt_def tag_ok_def tags_canonical_def order_ok.simps [of True "TPsym _"] order_ok.simps [of True "TU8 _"]
      canonical.simps [of "TPsym _"] canonical.simps [of "TU8 _"] order_local_def canonical_local_def reduced_def)
     (use uint_bounded [of x] in simp)

theorem index_insert_sorted_witness:
  "\<exists>sl n. skiplist_insert (compare_fact_spo (cmp_tag exact_rt)) (skiplist_init 20 (replicate 20 0))
      (Fact (TPsym [1]) (TPsym [2]) (TU8 3) 4) 9 = Some (sl, n) \<and>
    sl_rep (compare_fact_spo (cmp_tag exact_rt)) (fact_ok exact_rt True) sl [Fact (TPsym [1]) (TPsym [2]) (TU8 3) 4]"
  using index_insert_sorted [of exact_rt True "skiplist_init 20 (replicate 20 0)" "[]"
      "Fact (TPsym [1]) (TPsym [2]) (TU8 3) 4" 9]
  by (auto simp: exact_tag_ok skiplist_init_rep)

text \<open>
  C25: removing from an index.  \<open>skiplist_remove\<close> returns, says whether the triple was there,
  and represents the list without it.
\<close>

theorem index_remove_sorted:
  assumes "sl_rep (compare_fact_pos (cmp_tag rt)) (fact_ok rt m) sl vs" "fact_ok rt m f"
  shows "\<exists>sl'. skiplist_remove (compare_fact_pos (cmp_tag rt)) sl f =
      Some (sl', \<exists>v \<in> set vs. fact_key v = fact_key f) \<and>
    sl_rep (compare_fact_pos (cmp_tag rt)) (fact_ok rt m) sl' (del_sorted (compare_fact_pos (cmp_tag rt)) f vs) \<and>
    set (del_sorted (compare_fact_pos (cmp_tag rt)) f vs) = {v \<in> set vs. fact_key v \<noteq> fact_key f}"
proof -
  note c = pos.comparison_axioms
  from comparison.rep_sorted [OF c assms(1)]
  have vs: "sorted_wrt (\<lambda>v w. compare_fact_pos (cmp_tag rt) v w < 0) vs" "\<forall>v \<in> set vs. fact_ok rt m v" by auto
  have key: "compare_fact_pos (cmp_tag rt) f v = 0 \<longleftrightarrow> fact_key v = fact_key f" if "v \<in> set vs" for v
    using vs(2) that compare_fact_zero(2) [OF assms(2)] by auto
  then have "(\<exists>v \<in> set vs. compare_fact_pos (cmp_tag rt) f v = 0) \<longleftrightarrow> (\<exists>v \<in> set vs. fact_key v = fact_key f)"
    "{v \<in> set vs. compare_fact_pos (cmp_tag rt) f v \<noteq> 0} = {v \<in> set vs. fact_key v \<noteq> fact_key f}" by auto
  then show ?thesis
    using comparison.skiplist_remove_rep [OF c assms] comparison.set_del_sorted [OF c vs assms(2)] by auto
qed

theorem index_remove_sorted_witness:
  "\<exists>sl. skiplist_remove (compare_fact_pos (cmp_tag exact_rt)) (skiplist_init 20 (replicate 20 0))
      (Fact (TPsym [1]) (TPsym [2]) (TU8 3) 4) = Some (sl, False)"
  using index_remove_sorted [of exact_rt True "skiplist_init 20 (replicate 20 0)" "[]"
      "Fact (TPsym [1]) (TPsym [2]) (TU8 3) 4"]
  by (auto simp: exact_tag_ok skiplist_init_rep)

text \<open>
  C26: searching an index.  \<open>skiplist_find\<close> returns the node of the triple when it is in the
  index and NULL when it is not.
\<close>

theorem index_find_exact:
  assumes "sl_rep (compare_fact_osp (cmp_tag rt)) (fact_ok rt m) sl vs" "fact_ok rt m f"
  shows "\<exists>n. skiplist_find (compare_fact_osp (cmp_tag rt)) sl f = Some n \<and>
    (case n of None \<Rightarrow> \<forall>v \<in> set vs. fact_key v \<noteq> fact_key f
     | Some n \<Rightarrow> sl_fact sl n \<in> set vs \<and> fact_key (sl_fact sl n) = fact_key f)"
proof -
  note c = osp.comparison_axioms
  from comparison.rep_sorted [OF c assms(1)] have vs: "\<forall>v \<in> set vs. fact_ok rt m v" by auto
  have key: "compare_fact_osp (cmp_tag rt) f v = 0 \<longleftrightarrow> fact_key v = fact_key f" if "v \<in> set vs" for v
    using vs that compare_fact_zero(3) [OF assms(2)] by auto
  show ?thesis
    using comparison.skiplist_find_rep [OF c assms] key by (auto split: option.splits)
qed

theorem index_find_exact_witness:
  "skiplist_find (compare_fact_osp (cmp_tag exact_rt)) (skiplist_init 20 (replicate 20 0))
      (Fact (TPsym [1]) (TPsym [2]) (TU8 3) 4) = Some None"
  using index_find_exact [of exact_rt True "skiplist_init 20 (replicate 20 0)" "[]"
      "Fact (TPsym [1]) (TPsym [2]) (TU8 3) 4"]
  by (auto simp: exact_tag_ok skiplist_init_rep split: option.splits)

text \<open>
  C28: the table of tags is a map.  While its count fits a word, \<open>set_add\<close> keeps the
  representation (every item in the bucket of its hash, no two items equal, both counters right),
  returns the item of the tag, and adds it with a usage count of zero when it was not there.
\<close>

theorem tag_table_add:
  assumes "set_inv (rt_tag_hash rt) (\<lambda>t. t) (tag_ok rt m) ts" "tag_ok rt m t" "Suc (set_total ts) < 2 ^ 64"
    "set_add (rt_tag_hash rt) (cmp_tag rt) ts t = (ts', p)"
  shows "set_inv (rt_tag_hash rt) (\<lambda>t. t) (tag_ok rt m) ts' \<and>
    set_map (\<lambda>t. t) ts' t = Some (set_item_at ts' p) \<and>
    set_map (\<lambda>t. t) ts' = (if set_map (\<lambda>t. t) ts t = None
      then (set_map (\<lambda>t. t) ts)(t \<mapsto> set_item_new t (rt_tag_hash rt t)) else set_map (\<lambda>t. t) ts)"
  using tag_set.add_spec [OF assms] by simp

theorem tag_table_add_witness:
  "\<exists>ts p. set_add (rt_tag_hash exact_rt) (cmp_tag exact_rt)
      \<lparr>set_collisions = 0, set_count = 0, set_max = 2, set_items = [[], []]\<rparr> (TU8 9) = (ts, p) \<and>
    set_map (\<lambda>t. t) ts = [TU8 9 \<mapsto> set_item_new (TU8 9) 5]"
proof -
  let ?e = "\<lparr>set_collisions = 0, set_count = 0, set_max = 2, set_items = [[], []]\<rparr> :: tag set_t"
  obtain ts p where 1: "set_add (rt_tag_hash exact_rt) (cmp_tag exact_rt) ?e (TU8 9) = (ts, p)" by (metis surj_pair)
  have "set_inv (rt_tag_hash exact_rt) (\<lambda>t. t) (tag_ok exact_rt True) ?e"
    by (simp add: set_inv_def set_total_def less_Suc_eq)
  from tag_table_add [OF this exact_tag_ok(2) _ 1] 1 show ?thesis
    by (simp add: set_total_def set_map_def exact_rt_def)
qed

text \<open>
  C29: looking a fact up in and removing it from the table of facts.  \<open>set_get\<close> finds the item
  exactly when a fact with the same triple is in the table; \<open>set_remove\<close> removes it and keeps
  the representation, collisions included.
\<close>

theorem fact_table_remove:
  assumes "set_inv (fact_hash rt) fact_key (fact_ok rt m) fs" "fact_ok rt m f"
  shows "(case set_get (fact_hash rt) (compare_fact (cmp_tag rt)) fs f of
      None \<Rightarrow> set_map fact_key fs (fact_key f) = None
    | Some p \<Rightarrow> set_map fact_key fs (fact_key f) = Some (set_item_at fs p)) \<and>
    (\<exists>fs'. set_remove (fact_hash rt) (compare_fact (cmp_tag rt)) fs f = (fs', set_map fact_key fs (fact_key f) \<noteq> None) \<and>
      set_inv (fact_hash rt) fact_key (fact_ok rt m) fs' \<and>
      set_map fact_key fs' = (set_map fact_key fs)(fact_key f := None))"
proof -
  obtain fs' where "set_remove (fact_hash rt) (compare_fact (cmp_tag rt)) fs f = (fs', set_map fact_key fs (fact_key f) \<noteq> None)"
    "set_inv (fact_hash rt) fact_key (fact_ok rt m) fs'" "set_map fact_key fs' = (set_map fact_key fs)(fact_key f := None)"
    using fact_set.remove_spec [OF assms] by metis
  moreover have "case set_get (fact_hash rt) (compare_fact (cmp_tag rt)) fs f of
      None \<Rightarrow> set_map fact_key fs (fact_key f) = None
    | Some p \<Rightarrow> set_map fact_key fs (fact_key f) = Some (set_item_at fs p)"
    using fact_set.get_None [OF assms] fact_set.get_Some [OF assms] by (auto split: option.split)
  ultimately show ?thesis by blast
qed

theorem fact_table_remove_witness:
  "\<exists>fs. set_remove (fact_hash exact_rt) (compare_fact (cmp_tag exact_rt))
      \<lparr>set_collisions = 0, set_count = 0, set_max = 2, set_items = [[], []]\<rparr>
      (Fact (TPsym [1]) (TPsym [2]) (TU8 3) 4) = (fs, False)"
proof -
  let ?e = "\<lparr>set_collisions = 0, set_count = 0, set_max = 2, set_items = [[], []]\<rparr> :: tag fact set_t"
  have "set_inv (fact_hash exact_rt) fact_key (fact_ok exact_rt True) ?e"
    by (simp add: set_inv_def set_total_def less_Suc_eq)
  from fact_table_remove [OF this, of "Fact (TPsym [1]) (TPsym [2]) (TU8 3) 4"] show ?thesis
    by (auto simp: exact_tag_ok set_map_def)
qed

end
