(* ===== verification/Facts.thy ===== *)
theory Facts
  imports Fact_Index
begin

text \<open>
  The fact database (facts.c, fact\_action.c): its state and the operations that add, find and
  remove a fact, with the reference counts of the tags, the four indexes, the undo log of the
  open transactions, the durable log and the replication messages.

  Conventions.  Allocation succeeds, so the branches for a failed \<open>alloc\<close>, \<open>set_add\<close> or
  \<open>skiplist_insert\<close> do not occur; every other branch of the C code is a branch here.  An
  operation returns the new state with an \<open>outcome\<close>; \<open>Undef\<close> stands for a search of a skip
  list that does not return.  The numbers drawn for the heights of the skip list nodes are the
  function \<open>facts_random\<close>, four for each fact that is inserted.  Pointers to facts and tags are
  the values they point to, which do not change while they are in a set.  The locks are
  left out: one thread runs.
\<close>

section \<open>State\<close>

datatype action_type = FACT_ACTION_ADD | FACT_ACTION_REMOVE | FACT_ACTION_REPLACE

record fact_action =
  fa_action :: action_type
  fa_fact :: "tag fact"
  fa_id :: uw
  fa_broadcast :: bool
  fa_remove_log :: "(tag fact \<times> uw) option"

text \<open>\<open>tr_ptr\<close> is the address of the structure, which its owner keeps on the stack.\<close>

record transaction =
  tr_ptr :: nat
  tr_id :: uw
  tr_log :: "fact_action list"
  tr_rolling_back :: bool

text \<open>
  The log: the records written, the copy kept while the database is being dumped, and
  \<open>log_io\<close>, the outcome of the writes for the next record, which the file decides.
\<close>

type_synonym log_record = "uw \<times> action_type \<times> tag fact"

datatype log_result = Log_ok | Log_after_dump_fails | Log_write_fails | Log_reset_fails

record fact_log =
  log_records :: "log_record list"
  log_after_dump :: "log_record list option"
  log_hooks :: "nat list"
  log_hook_calls :: "(nat \<times> action_type \<times> tag fact) list"
  log_failed :: bool
  log_io :: "log_record list \<Rightarrow> log_record \<Rightarrow> log_result"

record facts_connection =
  conn_running :: bool
  conn_is_master :: bool
  conn_sent :: "(action_type \<times> tag fact) list"

record facts =
  facts_tags :: "tag set_t"
  facts_facts :: "tag fact set_t"
  facts_index :: "tag fact skiplist"
  facts_index_spo :: "tag fact skiplist"
  facts_index_pos :: "tag fact skiplist"
  facts_index_osp :: "tag fact skiplist"
  facts_log :: "fact_log option"
  facts_connections :: "facts_connection list"
  facts_remove_log :: "(tag fact \<times> uw) list"
  facts_next_id :: uw
  facts_server_count :: uw
  facts_transaction :: "transaction list"
  facts_random :: "nat \<Rightarrow> u64"
  facts_draws :: nat

definition UW_MAX :: uw where
  "UW_MAX = - 1"

definition facts_init :: "u64 list \<Rightarrow> (nat \<Rightarrow> u64) \<Rightarrow> facts option" where
  "facts_init height_table random =
    (case set_init 1024 of None \<Rightarrow> None
     | Some tags \<Rightarrow> (case set_init 1024 of None \<Rightarrow> None
       | Some fs \<Rightarrow> Some
          \<lparr>facts_tags = tags, facts_facts = fs,
           facts_index = skiplist_init 20 height_table,
           facts_index_spo = skiplist_init 20 height_table,
           facts_index_pos = skiplist_init 20 height_table,
           facts_index_osp = skiplist_init 20 height_table,
           facts_log = None, facts_connections = [], facts_remove_log = [],
           facts_next_id = 1, facts_server_count = 0, facts_transaction = [],
           facts_random = random, facts_draws = 0\<rparr>))"

section \<open>Tags\<close>

definition facts_ref_tag :: "rt \<Rightarrow> facts \<Rightarrow> tag \<Rightarrow> facts \<times> tag" where
  "facts_ref_tag rt s t =
    (let (ts, p) = set_add (rt_tag_hash rt) (cmp_tag rt) (facts_tags s) t;
         i = set_item_at ts p
     in (s\<lparr>facts_tags := set_usage ts p (item_usage i + 1)\<rparr>, item_data i))"

definition facts_unref_tag :: "rt \<Rightarrow> facts \<Rightarrow> tag \<Rightarrow> facts \<times> bool" where
  "facts_unref_tag rt s t =
    (case set_get (rt_tag_hash rt) (cmp_tag rt) (facts_tags s) t of
       None \<Rightarrow> (s, False)
     | Some p \<Rightarrow>
         let u = item_usage (set_item_at (facts_tags s) p) - 1;
             ts = set_usage (facts_tags s) p u
         in if u = 0 then (s\<lparr>facts_tags := fst (set_remove_item ts p)\<rparr>, True)
            else (s\<lparr>facts_tags := ts\<rparr>, True))"

definition facts_find_tag :: "rt \<Rightarrow> facts \<Rightarrow> tag \<Rightarrow> tag option" where
  "facts_find_tag rt s t =
    map_option (\<lambda>p. item_data (set_item_at (facts_tags s) p))
      (set_get (rt_tag_hash rt) (cmp_tag rt) (facts_tags s) t)"

text \<open>The three references and unreferences that the operations do in sequence.\<close>

definition ref_tags :: "rt \<Rightarrow> facts \<Rightarrow> tag fact \<Rightarrow> facts \<times> tag fact" where
  "ref_tags rt s f =
    (let (s, x) = facts_ref_tag rt s (fact_subject f);
         (s, y) = facts_ref_tag rt s (fact_predicate f);
         (s, z) = facts_ref_tag rt s (fact_object f)
     in (s, Fact x y z (fact_id f)))"

definition unref_tags :: "rt \<Rightarrow> facts \<Rightarrow> tag fact \<Rightarrow> facts" where
  "unref_tags rt s f =
    fst (facts_unref_tag rt (fst (facts_unref_tag rt (fst (facts_unref_tag rt s (fact_subject f)))
      (fact_predicate f))) (fact_object f))"

section \<open>Actions, log and messages\<close>

definition fact_action_new ::
  "rt \<Rightarrow> facts \<Rightarrow> action_type \<Rightarrow> tag fact \<Rightarrow> uw \<Rightarrow> bool \<Rightarrow> facts \<times> fact_action" where
  "fact_action_new rt s action f eid broadcast =
    (let (s, g) = ref_tags rt s f
     in (s, \<lparr>fa_action = action, fa_fact = g, fa_id = eid, fa_broadcast = broadcast,
         fa_remove_log = (if action = FACT_ACTION_REMOVE \<and> facts_server_count s \<noteq> 0
           then Some (g, eid) else None)\<rparr>))"

primrec fact_action_delete_all :: "rt \<Rightarrow> facts \<Rightarrow> fact_action list \<Rightarrow> facts" where
  "fact_action_delete_all rt s [] = s"
| "fact_action_delete_all rt s (a # as) =
    fact_action_delete_all rt (unref_tags rt s (fa_fact a)) as"

text \<open>
  The common body of \<open>facts_log_add\<close> and \<open>facts_log_remove\<close>: the result is whether it is not
  negative.
\<close>

definition log_write :: "fact_log \<Rightarrow> log_record \<Rightarrow> fact_log \<times> bool" where
  "log_write l r =
    (if log_failed l then (l, False)
     else let io = log_io l (log_records l) r in
       if log_after_dump l \<noteq> None \<and> io = Log_after_dump_fails then (l\<lparr>log_failed := True\<rparr>, False)
       else
         let l1 = l\<lparr>log_after_dump := map_option (\<lambda>rs. rs @ [r]) (log_after_dump l)\<rparr> in
         if io = Log_write_fails then (l1\<lparr>log_failed := True\<rparr>, False)
         else
           let l2 = l1\<lparr>log_records := log_records l1 @ [r]\<rparr> in
           if io = Log_reset_fails then (l2\<lparr>log_failed := True\<rparr>, False)
           else (l2\<lparr>log_hook_calls := log_hook_calls l2 @
               map (\<lambda>h. (h, fst (snd r), snd (snd r))) (log_hooks l2)\<rparr>, True))"

definition facts_log_add :: "fact_log \<Rightarrow> uw \<Rightarrow> tag fact \<Rightarrow> fact_log \<times> bool" where
  "facts_log_add l eid f = log_write l (eid, FACT_ACTION_ADD, f)"

definition facts_log_remove :: "fact_log \<Rightarrow> uw \<Rightarrow> tag fact \<Rightarrow> fact_log \<times> bool" where
  "facts_log_remove l eid f = log_write l (eid, FACT_ACTION_REMOVE, f)"

definition conn_send :: "action_type \<Rightarrow> tag fact \<Rightarrow> facts_connection \<Rightarrow> facts_connection" where
  "conn_send action f c = c\<lparr>conn_sent := conn_sent c @ [(action, f)]\<rparr>"

definition facts_broadcast_add :: "facts \<Rightarrow> tag fact \<Rightarrow> facts" where
  "facts_broadcast_add s f = s\<lparr>facts_connections :=
    map (\<lambda>c. if conn_running c \<and> conn_is_master c then conn_send FACT_ACTION_ADD f c else c)
      (facts_connections s)\<rparr>"

definition facts_broadcast_remove :: "facts \<Rightarrow> tag fact \<Rightarrow> facts" where
  "facts_broadcast_remove s f = s\<lparr>facts_connections :=
    map (\<lambda>c. if conn_running c \<and> conn_is_master c then conn_send FACT_ACTION_REMOVE f c else c)
      (facts_connections s)\<rparr>"

fun get_master :: "nat \<Rightarrow> facts_connection list \<Rightarrow> nat option" where
  "get_master n [] = None"
| "get_master n (c # cs) =
    (if conn_running c \<and> \<not> conn_is_master c then Some n else get_master (Suc n) cs)"

definition facts_connection_get_master :: "facts \<Rightarrow> nat option" where
  "facts_connection_get_master s = get_master 0 (facts_connections s)"

definition facts_send_to_master_add :: "facts \<Rightarrow> tag fact \<Rightarrow> facts \<times> bool" where
  "facts_send_to_master_add s f = (case facts_connection_get_master s of
      None \<Rightarrow> (s, False)
    | Some n \<Rightarrow> (s\<lparr>facts_connections := (facts_connections s)
        [n := conn_send FACT_ACTION_ADD f (facts_connections s ! n)]\<rparr>, True))"

definition facts_send_to_master_remove :: "facts \<Rightarrow> tag fact \<Rightarrow> facts \<times> bool" where
  "facts_send_to_master_remove s f = (case facts_connection_get_master s of
      None \<Rightarrow> (s, False)
    | Some n \<Rightarrow> (s\<lparr>facts_connections := (facts_connections s)
        [n := conn_send FACT_ACTION_REMOVE f (facts_connections s ! n)]\<rparr>, True))"

section \<open>Identifiers, lookup\<close>

definition facts_next_id_take :: "facts \<Rightarrow> facts \<times> uw option" where
  "facts_next_id_take s =
    (if facts_next_id s = UW_MAX then (s, None)
     else (s\<lparr>facts_next_id := facts_next_id s + 1\<rparr>, Some (facts_next_id s)))"

definition facts_get :: "rt \<Rightarrow> facts \<Rightarrow> tag fact \<Rightarrow> tag fact option" where
  "facts_get rt s f =
    map_option (\<lambda>p. item_data (set_item_at (facts_facts s) p))
      (set_get (fact_hash rt) (compare_fact (cmp_tag rt)) (facts_facts s) f)"

definition facts_find_fact :: "rt \<Rightarrow> facts \<Rightarrow> tag fact \<Rightarrow> tag fact option" where
  "facts_find_fact rt s f =
    (case (facts_find_tag rt s (fact_subject f), facts_find_tag rt s (fact_predicate f),
           facts_find_tag rt s (fact_object f)) of
       (Some x, Some y, Some z) \<Rightarrow> facts_get rt s (Fact x y z 0)
     | _ \<Rightarrow> None)"

definition facts_find_fact_by_tags :: "rt \<Rightarrow> facts \<Rightarrow> tag \<Rightarrow> tag \<Rightarrow> tag \<Rightarrow> tag fact option" where
  "facts_find_fact_by_tags rt s subject predicate object =
    facts_find_fact rt s (Fact subject predicate object 0)"

definition rolling_back :: "facts \<Rightarrow> bool" where
  "rolling_back s = (case facts_transaction s of [] \<Rightarrow> False | t # _ \<Rightarrow> tr_rolling_back t)"

text \<open>\<open>facts->log && facts->log->failed && (! facts->transaction || ! facts->transaction->rolling_back)\<close>\<close>

definition log_blocked :: "facts \<Rightarrow> bool" where
  "log_blocked s \<longleftrightarrow>
    (case facts_log s of None \<Rightarrow> False | Some l \<Rightarrow> log_failed l) \<and> \<not> rolling_back s"

section \<open>The four indexes\<close>

text \<open>The insertion of a fact in the set and in the indexes, in the order of the code.\<close>

definition store_fact :: "rt \<Rightarrow> facts \<Rightarrow> tag fact \<Rightarrow> (facts \<times> tag fact) option" where
  "store_fact rt s tmp =
    (let (fs, p) = set_add (fact_hash rt) (compare_fact (cmp_tag rt)) (facts_facts s) tmp;
         f = item_data (set_item_at fs p);
         r = (\<lambda>n. facts_random s (facts_draws s + n)) in
     case skiplist_insert (compare_fact_id (cmp_tag rt)) (facts_index s) f (r 0) of
       None \<Rightarrow> None
     | Some (ix, _) \<Rightarrow>
     case skiplist_insert (compare_fact_spo (cmp_tag rt)) (facts_index_spo s) f (r 1) of
       None \<Rightarrow> None
     | Some (spo, _) \<Rightarrow>
     case skiplist_insert (compare_fact_pos (cmp_tag rt)) (facts_index_pos s) f (r 2) of
       None \<Rightarrow> None
     | Some (pos, _) \<Rightarrow>
     case skiplist_insert (compare_fact_osp (cmp_tag rt)) (facts_index_osp s) f (r 3) of
       None \<Rightarrow> None
     | Some (osp, _) \<Rightarrow>
       Some (s\<lparr>facts_facts := fs, facts_index := ix, facts_index_spo := spo,
               facts_index_pos := pos, facts_index_osp := osp, facts_draws := facts_draws s + 4\<rparr>, f))"

definition set_remove_fact :: "rt \<Rightarrow> facts \<Rightarrow> tag fact \<Rightarrow> facts" where
  "set_remove_fact rt s f =
    s\<lparr>facts_facts := fst (set_remove (fact_hash rt) (compare_fact (cmp_tag rt)) (facts_facts s) f)\<rparr>"

text \<open>The undoing of \<open>store_fact\<close> when the log cannot be written.\<close>

definition unstore_fact :: "rt \<Rightarrow> facts \<Rightarrow> tag fact \<Rightarrow> facts option" where
  "unstore_fact rt s f =
    (case skiplist_remove (compare_fact_id (cmp_tag rt)) (facts_index s) f of
       None \<Rightarrow> None
     | Some (ix, _) \<Rightarrow>
     case skiplist_remove (compare_fact_spo (cmp_tag rt)) (facts_index_spo s) f of
       None \<Rightarrow> None
     | Some (spo, _) \<Rightarrow>
     case skiplist_remove (compare_fact_pos (cmp_tag rt)) (facts_index_pos s) f of
       None \<Rightarrow> None
     | Some (pos, _) \<Rightarrow>
     case skiplist_remove (compare_fact_osp (cmp_tag rt)) (facts_index_osp s) f of
       None \<Rightarrow> None
     | Some (osp, _) \<Rightarrow>
       Some (set_remove_fact rt (s\<lparr>facts_index := ix, facts_index_spo := spo,
         facts_index_pos := pos, facts_index_osp := osp\<rparr>) f))"

text \<open>
  The removals of \<open>facts_remove_fact_internal\<close>, which stop at the first index that does not
  hold the fact.
\<close>

definition unindex_fact :: "rt \<Rightarrow> facts \<Rightarrow> tag fact \<Rightarrow> (facts \<times> bool) option" where
  "unindex_fact rt s f =
    (case skiplist_remove (compare_fact_id (cmp_tag rt)) (facts_index s) f of
       None \<Rightarrow> None
     | Some (ix, b) \<Rightarrow>
     let s = s\<lparr>facts_index := ix\<rparr> in if \<not> b then Some (s, False) else
     case skiplist_remove (compare_fact_spo (cmp_tag rt)) (facts_index_spo s) f of
       None \<Rightarrow> None
     | Some (spo, b) \<Rightarrow>
     let s = s\<lparr>facts_index_spo := spo\<rparr> in if \<not> b then Some (s, False) else
     case skiplist_remove (compare_fact_pos (cmp_tag rt)) (facts_index_pos s) f of
       None \<Rightarrow> None
     | Some (pos, b) \<Rightarrow>
     let s = s\<lparr>facts_index_pos := pos\<rparr> in if \<not> b then Some (s, False) else
     case skiplist_remove (compare_fact_osp (cmp_tag rt)) (facts_index_osp s) f of
       None \<Rightarrow> None
     | Some (osp, b) \<Rightarrow> Some (s\<lparr>facts_index_osp := osp\<rparr>, b))"

section \<open>Adding a fact\<close>

definition push_action :: "fact_action option \<Rightarrow> facts \<Rightarrow> facts" where
  "push_action a s = (case a of None \<Rightarrow> s
    | Some a \<Rightarrow> (case facts_transaction s of [] \<Rightarrow> s
      | t # ts \<Rightarrow> s\<lparr>facts_transaction := t\<lparr>tr_log := a # tr_log t\<rparr> # ts\<rparr>))"

definition set_fact_id :: "tag fact \<Rightarrow> uw \<Rightarrow> tag fact" where
  "set_fact_id f eid = Fact (fact_subject f) (fact_predicate f) (fact_object f) eid"

definition action_list :: "fact_action option \<Rightarrow> fact_action list" where
  "action_list a = (case a of None \<Rightarrow> [] | Some a \<Rightarrow> [a])"

text \<open>The end of \<open>facts_add_fact_local\<close> (\<open>send\<close>) and \<open>facts_add_fact_id\<close>, from \<open>set_add\<close> on.\<close>

definition add_finish ::
  "rt \<Rightarrow> bool \<Rightarrow> facts \<Rightarrow> tag fact \<Rightarrow> fact_action option \<Rightarrow> facts \<times> tag fact outcome" where
  "add_finish rt send s tmp action = (case store_fact rt s tmp of
      None \<Rightarrow> (s, Undef)
    | Some (s, f) \<Rightarrow>
        let (s, ok) = (case facts_log s of
            Some l \<Rightarrow> if facts_transaction s = [] then
                let (l, ok) = facts_log_add l (fact_id tmp) tmp in (s\<lparr>facts_log := Some l\<rparr>, ok)
              else (s, True)
          | None \<Rightarrow> (s, True))
        in if \<not> ok then (case unstore_fact rt s f of
              None \<Rightarrow> (s, Undef)
            | Some s \<Rightarrow> (unref_tags rt (fact_action_delete_all rt s (action_list action)) tmp, Null))
          else
            let s = push_action action s;
                s = (if send \<and> facts_transaction s = [] \<and> facts_connections s \<noteq> []
                  then facts_broadcast_add s tmp else s)
            in (s, Ok f))"

definition new_action ::
  "rt \<Rightarrow> facts \<Rightarrow> action_type \<Rightarrow> tag fact \<Rightarrow> uw \<Rightarrow> bool \<Rightarrow> facts \<times> fact_action option" where
  "new_action rt s action f eid broadcast =
    (if facts_transaction s \<noteq> [] \<and> \<not> rolling_back s
     then let (s, a) = fact_action_new rt s action f eid broadcast in (s, Some a)
     else (s, None))"

definition facts_add_fact_local :: "rt \<Rightarrow> facts \<Rightarrow> tag fact \<Rightarrow> facts \<times> tag fact outcome" where
  "facts_add_fact_local rt s f =
    (if log_blocked s then (s, Null) else
     let (s, g) = ref_tags rt s f; tmp = set_fact_id g 0 in
     case facts_get rt s tmp of
       Some found \<Rightarrow> (unref_tags rt s tmp, Ok found)
     | None \<Rightarrow>
       (case facts_next_id_take s of
          (s, None) \<Rightarrow> (unref_tags rt s tmp, Null)
        | (s, Some eid) \<Rightarrow>
            let tmp = set_fact_id tmp eid;
                (s, action) = new_action rt s FACT_ACTION_ADD tmp eid True
            in add_finish rt True s tmp action))"

definition facts_add_fact_id :: "rt \<Rightarrow> facts \<Rightarrow> tag fact \<Rightarrow> facts \<times> tag fact outcome" where
  "facts_add_fact_id rt s f =
    (if fact_id f = UW_MAX then (s, Null)
     else if log_blocked s then (s, Null) else
     let (s, g) = ref_tags rt s f; tmp = set_fact_id g 0 in
     case facts_get rt s tmp of
       Some found \<Rightarrow> (unref_tags rt s tmp, Ok found)
     | None \<Rightarrow>
         let tmp = set_fact_id tmp (fact_id f);
             (s, action) = new_action rt s FACT_ACTION_ADD tmp (fact_id f) False;
             s = (if fact_id f \<ge> facts_next_id s then s\<lparr>facts_next_id := fact_id f + 1\<rparr> else s)
         in add_finish rt False s tmp action)"

section \<open>Removing a fact\<close>

text \<open>
  The bookkeeping before a removal: the identifier of the event, then the action of the
  transaction, or the remove log, the durable log and the messages.  \<open>None\<close> as result is the
  jump to \<open>ko\<close>.
\<close>

definition remove_event ::
  "rt \<Rightarrow> facts \<Rightarrow> tag fact \<Rightarrow> tag fact option \<Rightarrow> uw option \<Rightarrow> facts \<times> (uw \<times> fact_action option) option" where
  "remove_event rt s f found event_id =
    (if (found \<noteq> None \<or> event_id \<noteq> None) \<and> (facts_transaction s = [] \<or> \<not> rolling_back s) then
       let g = (case found of None \<Rightarrow> f | Some g \<Rightarrow> g);
           (s, eid) = (case event_id of
               Some e \<Rightarrow> (s, Some e)
             | None \<Rightarrow> if facts_transaction s \<noteq> [] \<or> facts_log s \<noteq> None \<or> facts_server_count s \<noteq> 0
                 then facts_next_id_take s else (s, Some 0)) in
       case eid of None \<Rightarrow> (s, None)
       | Some eid \<Rightarrow>
         if facts_transaction s \<noteq> [] then
           let (s, a) = fact_action_new rt s FACT_ACTION_REMOVE g eid (facts_server_count s \<noteq> 0)
           in (s, Some (eid, Some a))
         else
           let (s, ok) = (case facts_log s of
               None \<Rightarrow> (s, True)
             | Some l \<Rightarrow> let (l, ok) = facts_log_remove l eid g in (s\<lparr>facts_log := Some l\<rparr>, ok))
           in if \<not> ok then (s, None)
              else if facts_server_count s \<noteq> 0 then
                (facts_broadcast_remove (s\<lparr>facts_remove_log := (g, eid) # facts_remove_log s\<rparr>)
                   (set_fact_id g eid), Some (eid, None))
              else (s, Some (eid, None))
     else (s, Some (0, None)))"

definition facts_remove_fact_internal ::
  "rt \<Rightarrow> facts \<Rightarrow> tag fact \<Rightarrow> uw option \<Rightarrow> facts \<times> bool outcome" where
  "facts_remove_fact_internal rt s f event_id =
    (if (case event_id of None \<Rightarrow> False | Some e \<Rightarrow> e = UW_MAX \<or> facts_transaction s \<noteq> [])
     then (s, Null)
     else if log_blocked s then (s, Null) else
     let found = facts_find_fact rt s f in
     case remove_event rt s f found event_id of
       (s, None) \<Rightarrow> (s, Null)
     | (s, Some (eid, action)) \<Rightarrow>
         let bump = (\<lambda>s. if event_id \<noteq> None \<and> eid \<ge> facts_next_id s
               then s\<lparr>facts_next_id := eid + 1\<rparr> else s) in
         (case found of
            None \<Rightarrow> (bump s, Ok False)
          | Some g \<Rightarrow>
             (case unindex_fact rt s g of
                None \<Rightarrow> (s, Undef)
              | Some (s, False) \<Rightarrow> (fact_action_delete_all rt s (action_list action), Null)
              | Some (s, True) \<Rightarrow>
                  (bump (push_action action (unref_tags rt (set_remove_fact rt s g) g)), Ok True))))"

definition facts_remove_fact_id :: "rt \<Rightarrow> facts \<Rightarrow> tag fact \<Rightarrow> facts \<times> bool outcome" where
  "facts_remove_fact_id rt s f = facts_remove_fact_internal rt s f (Some (fact_id f))"

definition facts_remove_fact_local :: "rt \<Rightarrow> facts \<Rightarrow> tag fact \<Rightarrow> facts \<times> bool outcome" where
  "facts_remove_fact_local rt s f = facts_remove_fact_internal rt s f None"

section \<open>Entry points\<close>

text \<open>What the entry points read of the environment.\<close>

record env_view =
  env_securelevel :: int
  env_cleaning :: bool
  env_owns_facts :: bool

definition facts_add_fact :: "rt \<Rightarrow> env_view \<Rightarrow> facts \<Rightarrow> tag fact \<Rightarrow> facts \<times> tag fact outcome" where
  "facts_add_fact rt env s f =
    (if env_securelevel env > 1 \<and> env_owns_facts env then (s, Abort)
     else if facts_connection_get_master s \<noteq> None then
       let (s, ok) = facts_send_to_master_add s f in (s, if ok then Ok f else Null)
     else facts_add_fact_local rt s f)"

definition facts_add_tags ::
  "rt \<Rightarrow> env_view \<Rightarrow> facts \<Rightarrow> tag \<Rightarrow> tag \<Rightarrow> tag \<Rightarrow> facts \<times> tag fact outcome" where
  "facts_add_tags rt env s subject predicate object =
    (if env_securelevel env > 1 \<and> env_owns_facts env then (s, Abort)
     else facts_add_fact rt env s (Fact subject predicate object 0))"

definition facts_remove_fact :: "rt \<Rightarrow> env_view \<Rightarrow> facts \<Rightarrow> tag fact \<Rightarrow> facts \<times> bool outcome" where
  "facts_remove_fact rt env s f =
    (if \<not> env_cleaning env \<and> env_securelevel env > 1 \<and> env_owns_facts env then (s, Abort)
     else if facts_connection_get_master s \<noteq> None then
       let (s, ok) = facts_send_to_master_remove s f in (s, if ok then Ok True else Null)
     else facts_remove_fact_local rt s f)"

end
