(* ===== verification/Facts_Inv.thy ===== *)
theory Facts_Inv
  imports Facts
begin

text \<open>
  The invariant of the fact database and the effect of its building blocks on it.

  \<^item> \<open>facts_map\<close>, the abstraction: which triple of tags is stored, under which identifier;
  \<^item> \<open>tags_rep\<close>: the tag set as a reference count for each tag, a tag being
    in the set exactly when its count is not zero;
  \<^item> \<open>facts_inv\<close>: the four indexes hold exactly the facts of the set, each sorted by its
    comparison, and the count of a tag is the number of times that facts, actions of open
    transactions and the facts in \<open>ps\<close> (those an operation is working on) mention it.
\<close>

definition facts_set :: "facts \<Rightarrow> tag fact set" where
  "facts_set s = item_data ` item_set (facts_facts s)"

definition facts_map :: "facts \<Rightarrow> tag \<times> tag \<times> tag \<rightharpoonup> uw" where
  "facts_map s k = map_option (\<lambda>i. fact_id (item_data i)) (set_map fact_key (facts_facts s) k)"

definition tag_occ :: "tag fact \<Rightarrow> tag \<Rightarrow> nat" where
  "tag_occ f t = of_bool (fact_subject f = t) + of_bool (fact_predicate f = t) + of_bool (fact_object f = t)"

definition live_actions :: "facts \<Rightarrow> fact_action list" where
  "live_actions s = concat (map tr_log (facts_transaction s))"

definition expected_refs :: "facts \<Rightarrow> tag fact list \<Rightarrow> tag \<Rightarrow> nat" where
  "expected_refs s ps t = (\<Sum>f\<in>facts_set s. tag_occ f t) +
    (\<Sum>f\<leftarrow>ps @ map fa_fact (live_actions s). tag_occ f t)"

definition tags_rep :: "rt \<Rightarrow> bool \<Rightarrow> tag set_t \<Rightarrow> (tag \<Rightarrow> nat) \<Rightarrow> bool" where
  "tags_rep rt m ts R \<longleftrightarrow>
    set_inv (rt_tag_hash rt) (\<lambda>t. t) (tag_ok rt m) ts \<and>
    (\<forall>t. case set_map (\<lambda>t. t) ts t of None \<Rightarrow> R t = 0
      | Some i \<Rightarrow> unat (item_usage i) = R t \<and> R t \<noteq> 0)"

definition index_ok :: "rt \<Rightarrow> bool \<Rightarrow> (tag fact \<Rightarrow> tag fact \<Rightarrow> int) \<Rightarrow> tag fact skiplist \<Rightarrow> tag fact set \<Rightarrow> bool" where
  "index_ok rt m cmp sl F \<longleftrightarrow> (\<exists>vs. sl_rep cmp (fact_ok rt m) sl vs \<and> set vs = F)"

definition facts_inv :: "rt \<Rightarrow> bool \<Rightarrow> tag fact list \<Rightarrow> facts \<Rightarrow> bool" where
  "facts_inv rt m ps s \<longleftrightarrow>
    tags_rep rt m (facts_tags s) (expected_refs s ps) \<and>
    set_inv (fact_hash rt) fact_key (fact_ok rt m) (facts_facts s) \<and>
    index_ok rt m (compare_fact_id (cmp_tag rt)) (facts_index s) (facts_set s) \<and>
    index_ok rt m (compare_fact_spo (cmp_tag rt)) (facts_index_spo s) (facts_set s) \<and>
    index_ok rt m (compare_fact_pos (cmp_tag rt)) (facts_index_pos s) (facts_set s) \<and>
    index_ok rt m (compare_fact_osp (cmp_tag rt)) (facts_index_osp s) (facts_set s) \<and>
    (\<forall>f \<in> facts_set s. fact_id f < facts_next_id s) \<and>
    (\<forall>a \<in> set (live_actions s). fact_ok rt m (fa_fact a) \<and> fact_id (fa_fact a) < facts_next_id s)"

text \<open>Room for \<open>n\<close> more facts or actions before a count reaches the width of a word.\<close>

definition facts_room :: "facts \<Rightarrow> tag fact list \<Rightarrow> nat \<Rightarrow> bool" where
  "facts_room s ps n \<longleftrightarrow>
    3 * (card (facts_set s) + length ps + length (live_actions s) + n) < 2 ^ 64"

section \<open>Reference counts of tags\<close>

lemma tag_occ_le: "tag_occ f t \<le> 3"
  by (simp add: tag_occ_def)

lemma tags_rep_card: "tags_rep rt m ts R \<Longrightarrow> set_total ts = card {t. R t \<noteq> 0}"
proof -
  assume rep: "tags_rep rt m ts R"
  then have inv: "set_inv (rt_tag_hash rt) (\<lambda>t. t) (tag_ok rt m) ts" by (simp add: tags_rep_def)
  have "dom (set_map (\<lambda>t. t) ts) = {t. R t \<noteq> 0}"
    using rep by (auto simp: tags_rep_def dom_def split: option.splits)
  then show ?thesis using tag_set.total_card [OF inv] by simp
qed

lemma tags_rep_item:
  assumes "tags_rep rt m ts R" "set_map (\<lambda>t. t) ts t = Some i"
  shows "item_data i = t" "unat (item_usage i) = R t" "R t \<noteq> 0"
proof -
  have inv: "set_inv (rt_tag_hash rt) (\<lambda>t. t) (tag_ok rt m) ts"
    using assms(1) by (simp add: tags_rep_def)
  show "item_data i = t" using assms(2) by (simp add: tag_set.set_map_iff [OF inv])
  show "unat (item_usage i) = R t" "R t \<noteq> 0"
    using assms by (auto simp: tags_rep_def split: option.splits)
qed

lemma tags_rep_None: "tags_rep rt m ts R \<Longrightarrow> set_map (\<lambda>t. t) ts t = None \<Longrightarrow> R t = 0"
  by (drule tags_rep_def [THEN iffD1, THEN conjunct2, THEN spec, of _ _ _ _ t]) simp

lemma tags_repI:
  assumes "set_inv (rt_tag_hash rt) (\<lambda>t. t) (tag_ok rt m) ts"
    "\<And>t. set_map (\<lambda>t. t) ts t = None \<Longrightarrow> R t = 0"
    "\<And>t i. set_map (\<lambda>t. t) ts t = Some i \<Longrightarrow> unat (item_usage i) = R t \<and> R t \<noteq> 0"
  shows "tags_rep rt m ts R"
proof -
  have "case set_map (\<lambda>t. t) ts t of None \<Rightarrow> R t = 0 | Some i \<Rightarrow> unat (item_usage i) = R t \<and> R t \<noteq> 0" for t
    using assms(2) [of t] assms(3) [of t] by (cases "set_map (\<lambda>t. t) ts t") simp_all
  then show ?thesis using assms(1) by (simp add: tags_rep_def)
qed

lemma ref_tag_rep:
  assumes rep: "tags_rep rt m (facts_tags s) R" and t: "tag_ok rt m t"
    and room: "Suc (card {t. R t \<noteq> 0}) < 2 ^ 64" "Suc (R t) < 2 ^ 64"
  shows "\<exists>ts. facts_ref_tag rt s t = (s\<lparr>facts_tags := ts\<rparr>, t) \<and> tags_rep rt m ts (R(t := Suc (R t)))"
proof -
  have inv: "set_inv (rt_tag_hash rt) (\<lambda>t. t) (tag_ok rt m) (facts_tags s)"
    using rep by (simp add: tags_rep_def)
  obtain ts p where add: "set_add (rt_tag_hash rt) (cmp_tag rt) (facts_tags s) t = (ts, p)"
    by (metis surj_pair)
  have "Suc (set_total (facts_tags s)) < 2 ^ 64" using room(1) tags_rep_card [OF rep] by simp
  note spec = tag_set.add_spec [OF inv t this add]
  define i where "i = set_item_at ts p"
  note usage = tag_set.usage_spec [OF spec(1,2), folded i_def]
  have i: "item_data i = t" using spec(3) by (simp add: i_def tag_set.set_map_iff [OF spec(1)])
  have u: "unat (item_usage i) = R t"
  proof (cases "set_map (\<lambda>t. t) (facts_tags s) t")
    case None
    then have "R t = 0" by (rule tags_rep_None [OF rep])
    have "set_item_at ts p = set_item_new t (rt_tag_hash rt t)" using None spec(3,4) by simp
    then show ?thesis using \<open>R t = 0\<close> by (simp add: i_def set_item_new_def)
  next
    case (Some j)
    then show ?thesis using spec(3,4) tags_rep_item(2) [OF rep] by (simp add: i_def)
  qed
  have "unat (item_usage i + 1) = Suc (R t)" using u room(2) by (simp add: tag_set.unat_add_1)
  then have "tags_rep rt m (set_usage ts p (item_usage i + 1)) (R(t := Suc (R t)))"
    using usage(1) tags_rep_None [OF rep] tags_rep_item [OF rep]
    by (intro tags_repI) (auto simp: usage(2) spec(4) i split: if_splits)
  then show ?thesis using add i by (auto simp: facts_ref_tag_def i_def)
qed

lemma unref_tag_rep:
  assumes rep: "tags_rep rt m (facts_tags s) R" and t: "tag_ok rt m t" and pos: "0 < R t"
  shows "\<exists>ts. facts_unref_tag rt s t = (s\<lparr>facts_tags := ts\<rparr>, True) \<and> tags_rep rt m ts (R(t := R t - 1))"
proof -
  have inv: "set_inv (rt_tag_hash rt) (\<lambda>t. t) (tag_ok rt m) (facts_tags s)"
    using rep by (simp add: tags_rep_def)
  have "set_map (\<lambda>t. t) (facts_tags s) t \<noteq> None"
    using tags_rep_None [OF rep, of t] pos by auto
  then obtain p where p: "set_get (rt_tag_hash rt) (cmp_tag rt) (facts_tags s) t = Some p"
    using tag_set.get_None [OF inv t] by auto
  define i where "i = set_item_at (facts_tags s) p"
  have ptr: "ptr_ok (facts_tags s) p" and "set_map (\<lambda>t. t) (facts_tags s) t = Some i"
    using tag_set.get_Some [OF inv t p] by (simp_all add: i_def)
  note it = tags_rep_item [OF rep this(2)]
  define u where "u = item_usage i - 1"
  define ts where "ts = set_usage (facts_tags s) p u"
  note usage = tag_set.usage_spec [OF inv ptr, of u, folded i_def ts_def]
  have "item_usage i \<noteq> 0" using it(2,3) by auto
  then have u: "unat u = R t - 1" using it(2) by (simp add: u_def unat_minus_one)
  have ii: "item_data (set_item_at ts p) = t"
    using ptr it(1) by (simp add: ts_def set_usage_def set_item_at_def ptr_ok_def i_def)
  obtain ts' where rem: "set_remove_item ts p = (ts', True)"
    "set_inv (rt_tag_hash rt) (\<lambda>t. t) (tag_ok rt m) ts'"
    "set_map (\<lambda>t. t) ts' = (set_map (\<lambda>t. t) ts)(t := None)"
    using tag_set.remove_item_spec [OF usage(1,3)] ii by metis
  show ?thesis
  proof (cases "u = 0")
    case True
    then have "R t - 1 = 0" using u by simp
    then have "tags_rep rt m ts' (R(t := R t - 1))"
      using rem tags_rep_None [OF rep] tags_rep_item [OF rep]
      by (intro tags_repI) (auto simp: usage(2) it(1) split: if_splits)
    moreover have "facts_unref_tag rt s t = (s\<lparr>facts_tags := ts'\<rparr>, True)"
      using True rem(1) unfolding ts_def
      by (simp add: facts_unref_tag_def p Let_def flip: i_def u_def)
    ultimately show ?thesis by blast
  next
    case False
    then have "R t - 1 \<noteq> 0" using u by (metis unat_eq_zero)
    then have "tags_rep rt m ts (R(t := R t - 1))"
      using usage(1) u tags_rep_None [OF rep] tags_rep_item [OF rep]
      by (intro tags_repI) (auto simp: usage(2) it(1) split: if_splits)
    moreover have "facts_unref_tag rt s t = (s\<lparr>facts_tags := ts\<rparr>, True)"
      using False by (simp add: facts_unref_tag_def p Let_def flip: i_def u_def ts_def)
    ultimately show ?thesis by blast
  qed
qed

text \<open>The same for the tags of a state that is given by its tags.\<close>

lemma ref_tag_rep':
  assumes "tags_rep rt m ts R" "tag_ok rt m t" "Suc (card {t. R t \<noteq> 0}) < 2 ^ 64" "Suc (R t) < 2 ^ 64"
  shows "\<exists>ts'. facts_ref_tag rt (s\<lparr>facts_tags := ts\<rparr>) t = (s\<lparr>facts_tags := ts'\<rparr>, t) \<and>
    tags_rep rt m ts' (R(t := Suc (R t)))"
  using ref_tag_rep [of rt m "s\<lparr>facts_tags := ts\<rparr>" R t] assms by auto

lemma unref_tag_rep':
  assumes "tags_rep rt m ts R" "tag_ok rt m t" "0 < R t"
  shows "\<exists>ts'. facts_unref_tag rt (s\<lparr>facts_tags := ts\<rparr>) t = (s\<lparr>facts_tags := ts'\<rparr>, True) \<and>
    tags_rep rt m ts' (R(t := R t - 1))"
  using unref_tag_rep [of rt m "s\<lparr>facts_tags := ts\<rparr>" R t] assms by auto

lemma find_tag_rep:
  assumes rep: "tags_rep rt m (facts_tags s) R" and t: "tag_ok rt m t"
  shows "facts_find_tag rt s t = (if R t = 0 then None else Some t)"
proof -
  have inv: "set_inv (rt_tag_hash rt) (\<lambda>t. t) (tag_ok rt m) (facts_tags s)"
    using rep by (simp add: tags_rep_def)
  show ?thesis
  proof (cases "set_get (rt_tag_hash rt) (cmp_tag rt) (facts_tags s) t")
    case None
    then show ?thesis
      using tags_rep_None [OF rep] tag_set.get_None [OF inv t] by (simp add: facts_find_tag_def)
  next
    case (Some p)
    then show ?thesis
      using tag_set.get_Some [OF inv t Some] tags_rep_item [OF rep] by (auto simp: facts_find_tag_def)
  qed
qed

text \<open>All three tags of a fact.\<close>

lemma ref_tags_rep:
  assumes rep: "tags_rep rt m (facts_tags s) R" and f: "fact_ok rt m f"
    and room: "card {t. R t \<noteq> 0} + 3 < 2 ^ 64" "\<And>t. R t + 3 < 2 ^ 64" "finite {t. R t \<noteq> 0}"
  shows "\<exists>ts. ref_tags rt s f = (s\<lparr>facts_tags := ts\<rparr>, f) \<and> tags_rep rt m ts (\<lambda>t. R t + tag_occ f t)"
proof -
  let ?x = "fact_subject f" and ?y = "fact_predicate f" and ?z = "fact_object f"
  have ok: "tag_ok rt m ?x" "tag_ok rt m ?y" "tag_ok rt m ?z" using f by (auto simp: fact_ok_def)
  have card: "card {t. (R'(x := Suc (R' x))) t \<noteq> 0} \<le> Suc (card {t. R' t \<noteq> 0})"
    for R' :: "tag \<Rightarrow> nat" and x
  proof -
    have "{t. (R'(x := Suc (R' x))) t \<noteq> 0} = insert x {t. R' t \<noteq> 0}" by auto
    then show ?thesis by (simp add: card_insert_le_m1 card_insert_if)
  qed
  define R1 where "R1 = R(?x := Suc (R ?x))"
  define R2 where "R2 = R1(?y := Suc (R1 ?y))"
  define R3 where "R3 = R2(?z := Suc (R2 ?z))"
  have R3: "R3 = (\<lambda>t. R t + tag_occ f t)"
    by (auto simp: R3_def R2_def R1_def tag_occ_def fun_eq_iff)
  have "Suc (card {t. R t \<noteq> 0}) < 2 ^ 64" "Suc (R ?x) < 2 ^ 64"
    using room(1) room(2) [of ?x] by simp_all
  from ref_tag_rep [OF rep ok(1) this] obtain ts1 where
    1: "facts_ref_tag rt s ?x = (s\<lparr>facts_tags := ts1\<rparr>, ?x)" "tags_rep rt m ts1 R1"
    unfolding R1_def by blast
  have "Suc (card {t. R1 t \<noteq> 0}) < 2 ^ 64" "Suc (R1 ?y) < 2 ^ 64"
    using card [of R ?x] room(1) room(2) [of ?y] unfolding R1_def by (auto simp: less_eq_Suc_le)
  from ref_tag_rep' [OF 1(2) ok(2) this] obtain ts2 where
    2: "facts_ref_tag rt (s\<lparr>facts_tags := ts1\<rparr>) ?y = (s\<lparr>facts_tags := ts2\<rparr>, ?y)" "tags_rep rt m ts2 R2"
    unfolding R2_def by auto
  have "Suc (card {t. R2 t \<noteq> 0}) < 2 ^ 64" "Suc (R2 ?z) < 2 ^ 64"
    using card [of R ?x] card [of R1 ?y] room(1) room(2) [of ?z] unfolding R2_def R1_def
    by (auto simp: less_eq_Suc_le)
  from ref_tag_rep' [OF 2(2) ok(3) this] obtain ts3 where
    3: "facts_ref_tag rt (s\<lparr>facts_tags := ts2\<rparr>) ?z = (s\<lparr>facts_tags := ts3\<rparr>, ?z)" "tags_rep rt m ts3 R3"
    unfolding R3_def by auto
  have "ref_tags rt s f = (s\<lparr>facts_tags := ts3\<rparr>, f)"
    by (simp add: ref_tags_def 1(1) 2(1) 3(1))
  with 3(2) show ?thesis unfolding R3 by blast
qed

lemma unref_tags_rep:
  assumes rep: "tags_rep rt m (facts_tags s) (\<lambda>t. R t + tag_occ f t)" and f: "fact_ok rt m f"
  shows "\<exists>ts. unref_tags rt s f = s\<lparr>facts_tags := ts\<rparr> \<and> tags_rep rt m ts R"
proof -
  let ?x = "fact_subject f" and ?y = "fact_predicate f" and ?z = "fact_object f"
  have ok: "tag_ok rt m ?x" "tag_ok rt m ?y" "tag_ok rt m ?z" using f by (auto simp: fact_ok_def)
  define R0 where "R0 = (\<lambda>t. R t + tag_occ f t)"
  define R1 where "R1 = R0(?x := R0 ?x - 1)"
  define R2 where "R2 = R1(?y := R1 ?y - 1)"
  have R3: "R2(?z := R2 ?z - 1) = R"
    by (auto simp: R2_def R1_def R0_def tag_occ_def fun_eq_iff)
  have "0 < R0 ?x" "0 < R1 ?y" "0 < R2 ?z" by (auto simp: R2_def R1_def R0_def tag_occ_def)
  note pos = this
  from unref_tag_rep [OF rep [folded R0_def] ok(1) pos(1)] obtain ts1 where
    1: "facts_unref_tag rt s ?x = (s\<lparr>facts_tags := ts1\<rparr>, True)" "tags_rep rt m ts1 R1"
    unfolding R1_def by blast
  from unref_tag_rep' [OF 1(2) ok(2) pos(2)] obtain ts2 where
    2: "facts_unref_tag rt (s\<lparr>facts_tags := ts1\<rparr>) ?y = (s\<lparr>facts_tags := ts2\<rparr>, True)" "tags_rep rt m ts2 R2"
    unfolding R2_def by auto
  from unref_tag_rep' [OF 2(2) ok(3) pos(3)] obtain ts3 where
    3: "facts_unref_tag rt (s\<lparr>facts_tags := ts2\<rparr>) ?z = (s\<lparr>facts_tags := ts3\<rparr>, True)" "tags_rep rt m ts3 R"
    unfolding R3 by auto
  then show ?thesis by (auto simp: unref_tags_def 1(1) 2(1))
qed

section \<open>The facts as a map\<close>

text \<open>The fields that the building blocks below leave alone.\<close>

definition facts_rest where
  "facts_rest s = (facts_log s, facts_connections s, facts_remove_log s, facts_next_id s,
    facts_server_count s, facts_transaction s)"

lemma fact_eq_iff: "f = g \<longleftrightarrow> fact_key f = fact_key g \<and> fact_id f = fact_id g"
  by (cases f; cases g) auto

lemma facts_inv_facts:
  "facts_inv rt m ps s \<Longrightarrow> set_inv (fact_hash rt) fact_key (fact_ok rt m) (facts_facts s)"
  by (simp add: facts_inv_def)

lemma facts_set_map:
  assumes "set_inv (fact_hash rt) fact_key (fact_ok rt m) (facts_facts s)"
  shows "f \<in> facts_set s \<longleftrightarrow> facts_map s (fact_key f) = Some (fact_id f)"
proof
  assume "f \<in> facts_set s"
  then obtain i where i: "i \<in> item_set (facts_facts s)" "item_data i = f" by (auto simp: facts_set_def)
  then have "set_map fact_key (facts_facts s) (fact_key f) = Some i"
    by (simp add: fact_set.set_map_iff [OF assms])
  with i show "facts_map s (fact_key f) = Some (fact_id f)" by (simp add: facts_map_def)
next
  assume "facts_map s (fact_key f) = Some (fact_id f)"
  then obtain i where i: "set_map fact_key (facts_facts s) (fact_key f) = Some i"
    "fact_id (item_data i) = fact_id f" by (auto simp: facts_map_def)
  then have "i \<in> item_set (facts_facts s)" "fact_key (item_data i) = fact_key f"
    by (simp_all add: fact_set.set_map_iff [OF assms])
  with i show "f \<in> facts_set s" unfolding facts_set_def fact_eq_iff [of f]
    by (metis fact_eq_iff imageI)
qed

lemma facts_set_iff:
  "facts_inv rt m ps s \<Longrightarrow> f \<in> facts_set s \<longleftrightarrow> facts_map s (fact_key f) = Some (fact_id f)"
  using facts_set_map facts_inv_facts by blast

lemma finite_facts_set [simp]: "finite (facts_set s)"
  by (simp add: facts_set_def item_set_def)

lemma facts_set_ok: "facts_inv rt m ps s \<Longrightarrow> f \<in> facts_set s \<Longrightarrow> fact_ok rt m f"
  using facts_inv_facts [of rt m ps s]
  by (auto simp: facts_set_def item_set_iff dest: inv_item(1))

lemma facts_total:
  assumes "facts_inv rt m ps s"
  shows "set_total (facts_facts s) = card (facts_set s)"
proof -
  note inv = facts_inv_facts [OF assms]
  have "inj_on fact_key (facts_set s)"
    using facts_set_iff [OF assms] by (auto simp: inj_on_def fact_eq_iff)
  moreover have "fact_key ` facts_set s = dom (set_map fact_key (facts_facts s))"
  proof
    show "fact_key ` facts_set s \<subseteq> dom (set_map fact_key (facts_facts s))"
      using facts_set_iff [OF assms] by (auto simp: facts_map_def)
    show "dom (set_map fact_key (facts_facts s)) \<subseteq> fact_key ` facts_set s"
    proof
      fix k assume "k \<in> dom (set_map fact_key (facts_facts s))"
      then obtain i where "set_map fact_key (facts_facts s) k = Some i" by auto
      then have "i \<in> item_set (facts_facts s)" "k = fact_key (item_data i)"
        by (simp_all add: fact_set.set_map_iff [OF inv])
      then show "k \<in> fact_key ` facts_set s" by (simp add: facts_set_def)
    qed
  qed
  ultimately show ?thesis
    using fact_set.total_card [OF inv] card_image by metis
qed

section \<open>References of a state\<close>

lemma expected_refs_Cons [simp]: "expected_refs s (f # ps) t = expected_refs s ps t + tag_occ f t"
  by (simp add: expected_refs_def)

lemma sum_occ_le: "finite F \<Longrightarrow> (\<Sum>f\<in>F. tag_occ f t) \<le> 3 * card F"
  using sum_bounded_above [of F "\<lambda>f. tag_occ f t" 3] tag_occ_le by (simp add: mult.commute)

lemma sum_list_occ_le: "(\<Sum>f\<leftarrow>fs. tag_occ f t) \<le> 3 * length fs"
  using tag_occ_le [of _ t] by (induction fs) (auto intro: add_mono order_trans [OF add_mono])

lemma expected_refs_le:
  "expected_refs s ps t \<le> 3 * (card (facts_set s) + length ps + length (live_actions s))"
  using sum_occ_le [of "facts_set s" t] sum_list_occ_le [where t = t and fs = "ps @ map fa_fact (live_actions s)"]
  by (simp add: expected_refs_def)

lemma expected_refs_tags:
  "{t. expected_refs s ps t \<noteq> 0} \<subseteq>
    (\<Union>f \<in> facts_set s \<union> set ps \<union> fa_fact ` set (live_actions s).
      {fact_subject f, fact_predicate f, fact_object f})"
proof (rule subsetI, rule ccontr)
  fix t assume t: "t \<in> {t. expected_refs s ps t \<noteq> 0}"
    and "t \<notin> (\<Union>f \<in> facts_set s \<union> set ps \<union> fa_fact ` set (live_actions s).
      {fact_subject f, fact_predicate f, fact_object f})"
  then have "\<forall>f \<in> facts_set s \<union> set ps \<union> fa_fact ` set (live_actions s). tag_occ f t = 0"
    by (auto simp: tag_occ_def)
  then have "(\<Sum>f\<in>facts_set s. tag_occ f t) = 0"
    "(\<Sum>f\<leftarrow>ps @ map fa_fact (live_actions s). tag_occ f t) = 0"
    by (auto simp: sum_list_eq_0_iff)
  with t show False by (simp add: expected_refs_def)
qed

lemma expected_refs_card:
  "finite {t. expected_refs s ps t \<noteq> 0}"
  "card {t. expected_refs s ps t \<noteq> 0} \<le> 3 * (card (facts_set s) + length ps + length (live_actions s))"
proof -
  let ?F = "facts_set s \<union> set ps \<union> fa_fact ` set (live_actions s)"
  let ?T = "\<Union>f \<in> ?F. {fact_subject f, fact_predicate f, fact_object f}"
  show "finite {t. expected_refs s ps t \<noteq> 0}"
    by (rule finite_subset [OF expected_refs_tags]) simp
  have "card {t. expected_refs s ps t \<noteq> 0} \<le> card ?T"
    by (rule card_mono [OF _ expected_refs_tags]) simp
  also have "\<dots> \<le> (\<Sum>f \<in> ?F. card {fact_subject f, fact_predicate f, fact_object f})"
    by (rule card_UN_le) simp
  also have "\<dots> \<le> (\<Sum>f \<in> ?F. 3)"
    by (rule sum_mono) (simp add: card_insert_if)
  also have "\<dots> = 3 * card ?F" by simp
  also have "card ?F \<le> card (facts_set s) + length ps + length (live_actions s)"
    using card_Un_le [of "facts_set s \<union> set ps" "fa_fact ` set (live_actions s)"]
      card_Un_le [of "facts_set s" "set ps"] card_length [of ps]
      card_image_le [of "set (live_actions s)" fa_fact] card_length [of "live_actions s"]
    by simp
  finally show "card {t. expected_refs s ps t \<noteq> 0} \<le> 3 * (card (facts_set s) + length ps + length (live_actions s))"
    by simp
qed

section \<open>The building blocks on a state\<close>

lemma facts_tags_update_simps [simp]:
  "facts_set (s\<lparr>facts_tags := ts\<rparr>) = facts_set s"
  "facts_map (s\<lparr>facts_tags := ts\<rparr>) = facts_map s"
  "live_actions (s\<lparr>facts_tags := ts\<rparr>) = live_actions s"
  "facts_rest (s\<lparr>facts_tags := ts\<rparr>) = facts_rest s"
  "expected_refs (s\<lparr>facts_tags := ts\<rparr>) = expected_refs s"
  by (auto simp: facts_set_def facts_map_def live_actions_def facts_rest_def expected_refs_def fun_eq_iff)

lemma ref_tags_inv:
  assumes inv: "facts_inv rt m ps s" and f: "fact_ok rt m f" and room: "facts_room s ps 1"
  shows "\<exists>ts. ref_tags rt s f = (s\<lparr>facts_tags := ts\<rparr>, f) \<and> facts_inv rt m (f # ps) (s\<lparr>facts_tags := ts\<rparr>)"
proof -
  have rep: "tags_rep rt m (facts_tags s) (expected_refs s ps)" using inv by (simp add: facts_inv_def)
  have n: "3 * (card (facts_set s) + length ps + length (live_actions s)) + 3 < 2 ^ 64"
    using room by (simp add: facts_room_def)
  have "card {t. expected_refs s ps t \<noteq> 0} + 3 < 2 ^ 64"
    using expected_refs_card(2) [of s ps] n by linarith
  moreover have "expected_refs s ps t + 3 < 2 ^ 64" for t
    using expected_refs_le [of s ps t] n by linarith
  ultimately obtain ts where ts: "ref_tags rt s f = (s\<lparr>facts_tags := ts\<rparr>, f)"
    "tags_rep rt m ts (\<lambda>t. expected_refs s ps t + tag_occ f t)"
    using ref_tags_rep [OF rep f] expected_refs_card(1) by blast
  moreover have "(\<lambda>t. expected_refs s ps t + tag_occ f t) = expected_refs s (f # ps)"
    by (simp add: fun_eq_iff)
  ultimately show ?thesis using inv by (auto simp: facts_inv_def)
qed

lemma unref_tags_inv:
  assumes inv: "facts_inv rt m (f # ps) s" and f: "fact_ok rt m f"
  shows "\<exists>ts. unref_tags rt s f = s\<lparr>facts_tags := ts\<rparr> \<and> facts_inv rt m ps (s\<lparr>facts_tags := ts\<rparr>)"
proof -
  have "tags_rep rt m (facts_tags s) (expected_refs s (f # ps))" using inv by (simp add: facts_inv_def)
  then have "tags_rep rt m (facts_tags s) (\<lambda>t. expected_refs s ps t + tag_occ f t)"
    by (simp add: fun_eq_iff [symmetric] flip: expected_refs_Cons)
  from unref_tags_rep [OF this f] show ?thesis using inv by (auto simp: facts_inv_def)
qed

lemma facts_get_inv:
  assumes inv: "facts_inv rt m ps s" and f: "fact_ok rt m f"
  shows "facts_get rt s f = map_option (set_fact_id f) (facts_map s (fact_key f))"
proof -
  note fs = facts_inv_facts [OF inv]
  show ?thesis
  proof (cases "set_get (fact_hash rt) (compare_fact (cmp_tag rt)) (facts_facts s) f")
    case None
    then show ?thesis
      using fact_set.get_None [OF fs f] by (simp add: facts_get_def facts_map_def)
  next
    case (Some p)
    let ?i = "set_item_at (facts_facts s) p"
    have i: "set_map fact_key (facts_facts s) (fact_key f) = Some ?i"
      using fact_set.get_Some [OF fs f Some] by simp
    then have "fact_key (item_data ?i) = fact_key f" by (simp add: fact_set.set_map_iff [OF fs])
    then have "item_data ?i = set_fact_id f (fact_id (item_data ?i))"
      by (cases "item_data ?i") (simp add: set_fact_id_def fact_key_def)
    then show ?thesis using Some i by (simp add: facts_get_def facts_map_def)
  qed
qed

lemma sum_occ_pos: "finite F \<Longrightarrow> f \<in> F \<Longrightarrow> tag_occ f t \<le> (\<Sum>f\<in>F. tag_occ f t)"
  by (rule member_le_sum) auto

lemma facts_find_fact_inv:
  assumes inv: "facts_inv rt m ps s" and f: "fact_ok rt m f"
  shows "facts_find_fact rt s f = map_option (set_fact_id f) (facts_map s (fact_key f))"
proof -
  have rep: "tags_rep rt m (facts_tags s) (expected_refs s ps)" using inv by (simp add: facts_inv_def)
  have ok: "tag_ok rt m (fact_subject f)" "tag_ok rt m (fact_predicate f)" "tag_ok rt m (fact_object f)"
    using f by (auto simp: fact_ok_def)
  note find = ok [THEN find_tag_rep [OF rep]]
  have same: "facts_get rt s (Fact (fact_subject f) (fact_predicate f) (fact_object f) 0) =
      map_option (set_fact_id f) (facts_map s (fact_key f))"
    using facts_get_inv [OF inv, of "Fact (fact_subject f) (fact_predicate f) (fact_object f) 0"] ok
    by (simp add: fact_key_def set_fact_id_def [abs_def])
  show ?thesis
  proof (cases "facts_map s (fact_key f)")
    case None
    then show ?thesis using same by (simp add: facts_find_fact_def find)
  next
    case (Some i)
    then have "set_fact_id f i \<in> facts_set s"
      using facts_set_iff [OF inv, of "set_fact_id f i"] by (simp add: set_fact_id_def fact_key_def)
    from sum_occ_pos [OF finite_facts_set this] have
      "tag_occ (set_fact_id f i) t \<le> expected_refs s ps t" for t
      unfolding expected_refs_def by (meson le_add1 order_trans)
    then have le: "tag_occ (set_fact_id f i) t \<noteq> 0 \<Longrightarrow> expected_refs s ps t \<noteq> 0" for t
      using le_zero_eq by metis
    have "expected_refs s ps (fact_subject f) \<noteq> 0" "expected_refs s ps (fact_predicate f) \<noteq> 0"
      "expected_refs s ps (fact_object f) \<noteq> 0"
      by (rule le, simp add: tag_occ_def set_fact_id_def)+
    then show ?thesis using same by (simp add: facts_find_fact_def find)
  qed
qed

section \<open>Storing and removing a fact\<close>

lemma index_insert:
  assumes c: "comparison cmp (fact_ok rt m)" and ix: "index_ok rt m cmp sl F" and f: "fact_ok rt m f"
    and new: "\<forall>g \<in> F. cmp f g \<noteq> 0"
  shows "\<exists>sl' n. skiplist_insert cmp sl f k = Some (sl', n) \<and> index_ok rt m cmp sl' (insert f F)"
proof -
  obtain vs where vs: "sl_rep cmp (fact_ok rt m) sl vs" "set vs = F"
    using ix by (auto simp: index_ok_def)
  note srt = comparison.rep_sorted [OF c vs(1)]
  have "set (ins_sorted cmp f vs) = insert f F"
    using comparison.set_ins_sorted [OF c, of vs f] srt f new vs(2) by auto
  then show ?thesis
    using comparison.skiplist_insert_rep [OF c vs(1) f, of k] unfolding index_ok_def by blast
qed

lemma index_remove:
  assumes c: "comparison cmp (fact_ok rt m)" and ix: "index_ok rt m cmp sl F" and f: "f \<in> F"
    and only: "\<forall>g \<in> F. cmp f g = 0 \<longrightarrow> g = f"
  shows "\<exists>sl'. skiplist_remove cmp sl f = Some (sl', True) \<and> index_ok rt m cmp sl' (F - {f})"
proof -
  obtain vs where vs: "sl_rep cmp (fact_ok rt m) sl vs" "set vs = F"
    using ix by (auto simp: index_ok_def)
  note srt = comparison.rep_sorted [OF c vs(1)]
  have ok: "fact_ok rt m f" using srt f vs(2) by blast
  have self: "cmp f f = 0" by (rule comparison.cmp_self [OF c ok])
  then have "\<exists>v \<in> set vs. cmp f v = 0" using f vs(2) by blast
  moreover have "set (del_sorted cmp f vs) = F - {f}"
    using comparison.set_del_sorted [OF c, of vs f] srt ok only self vs(2) by auto
  moreover obtain sl' where "skiplist_remove cmp sl f = Some (sl', \<exists>v \<in> set vs. cmp f v = 0)"
    "sl_rep cmp (fact_ok rt m) sl' (del_sorted cmp f vs)"
    using comparison.skiplist_remove_rep [OF c vs(1) ok] by blast
  ultimately show ?thesis by (auto simp: index_ok_def)
qed

lemma new_fact_differs:
  assumes inv: "facts_inv rt m ps s" and f: "fact_ok rt m f" and new: "facts_map s (fact_key f) = None"
  shows "f \<notin> facts_set s"
    "\<forall>g \<in> facts_set s. compare_fact_id (cmp_tag rt) f g \<noteq> 0"
    "\<forall>g \<in> facts_set s. compare_fact_spo (cmp_tag rt) f g \<noteq> 0"
    "\<forall>g \<in> facts_set s. compare_fact_pos (cmp_tag rt) f g \<noteq> 0"
    "\<forall>g \<in> facts_set s. compare_fact_osp (cmp_tag rt) f g \<noteq> 0"
proof -
  show nf: "f \<notin> facts_set s" using new facts_set_iff [OF inv] by simp
  have k: "fact_ok rt m g \<and> fact_key g \<noteq> fact_key f \<and> g \<noteq> f" if "g \<in> facts_set s" for g
    using that new nf facts_set_iff [OF inv] facts_set_ok [OF inv that] by auto
  show "\<forall>g \<in> facts_set s. compare_fact_id (cmp_tag rt) f g \<noteq> 0"
    "\<forall>g \<in> facts_set s. compare_fact_spo (cmp_tag rt) f g \<noteq> 0"
    "\<forall>g \<in> facts_set s. compare_fact_pos (cmp_tag rt) f g \<noteq> 0"
    "\<forall>g \<in> facts_set s. compare_fact_osp (cmp_tag rt) f g \<noteq> 0"
    using k compare_fact_zero [OF f] by metis+
qed

lemma stored_fact_unique:
  assumes inv: "facts_inv rt m ps s" and f: "f \<in> facts_set s"
  shows "\<forall>g \<in> facts_set s. compare_fact_id (cmp_tag rt) f g = 0 \<longrightarrow> g = f"
    "\<forall>g \<in> facts_set s. compare_fact_spo (cmp_tag rt) f g = 0 \<longrightarrow> g = f"
    "\<forall>g \<in> facts_set s. compare_fact_pos (cmp_tag rt) f g = 0 \<longrightarrow> g = f"
    "\<forall>g \<in> facts_set s. compare_fact_osp (cmp_tag rt) f g = 0 \<longrightarrow> g = f"
proof -
  have k: "fact_ok rt m g \<and> (fact_key f = fact_key g \<longrightarrow> g = f)" if "g \<in> facts_set s" for g
    using that f facts_set_iff [OF inv] facts_set_ok [OF inv that] by (auto simp: fact_eq_iff)
  show "\<forall>g \<in> facts_set s. compare_fact_id (cmp_tag rt) f g = 0 \<longrightarrow> g = f"
    "\<forall>g \<in> facts_set s. compare_fact_spo (cmp_tag rt) f g = 0 \<longrightarrow> g = f"
    "\<forall>g \<in> facts_set s. compare_fact_pos (cmp_tag rt) f g = 0 \<longrightarrow> g = f"
    "\<forall>g \<in> facts_set s. compare_fact_osp (cmp_tag rt) f g = 0 \<longrightarrow> g = f"
    using k compare_fact_zero [OF facts_set_ok [OF inv f]] by metis+
qed

lemma facts_set_insert:
  assumes "set_inv (fact_hash rt) fact_key (fact_ok rt m) (facts_facts s)"
    "set_inv (fact_hash rt) fact_key (fact_ok rt m) (facts_facts s')"
    "facts_map s' = (facts_map s)(fact_key f \<mapsto> fact_id f)" "facts_map s (fact_key f) = None"
  shows "facts_set s' = insert f (facts_set s)"
proof (rule set_eqI)
  fix g
  show "g \<in> facts_set s' \<longleftrightarrow> g \<in> insert f (facts_set s)"
    using assms by (auto simp: facts_set_map fact_eq_iff [of g])
qed

lemma facts_set_delete:
  assumes "set_inv (fact_hash rt) fact_key (fact_ok rt m) (facts_facts s)"
    "set_inv (fact_hash rt) fact_key (fact_ok rt m) (facts_facts s')"
    "facts_map s' = (facts_map s)(fact_key f := None)" "f \<in> facts_set s"
  shows "facts_set s' = facts_set s - {f}"
proof (rule set_eqI)
  fix g
  show "g \<in> facts_set s' \<longleftrightarrow> g \<in> facts_set s - {f}"
    using assms by (auto simp: facts_set_map fact_eq_iff [of g])
qed

lemma live_actions_rest: "facts_rest s = facts_rest s' \<Longrightarrow> live_actions s = live_actions s'"
  by (simp add: facts_rest_def live_actions_def)

lemma expected_refs_insert:
  assumes "facts_set s' = insert f (facts_set s)" "f \<notin> facts_set s" "live_actions s' = live_actions s"
  shows "expected_refs s' ps = expected_refs s (f # ps)"
  using assms by (simp add: expected_refs_def fun_eq_iff)

lemma store_fact_inv:
  assumes inv: "facts_inv rt m (f # ps) s" and f: "fact_ok rt m f"
    and new: "facts_map s (fact_key f) = None" and fresh: "fact_id f < facts_next_id s"
    and room: "facts_room s ps 1"
  shows "\<exists>s'. store_fact rt s f = Some (s', f) \<and> facts_inv rt m ps s' \<and>
    facts_map s' = (facts_map s)(fact_key f \<mapsto> fact_id f) \<and> facts_rest s' = facts_rest s"
proof -
  note fs = facts_inv_facts [OF inv]
  obtain fs' p where add: "set_add (fact_hash rt) (compare_fact (cmp_tag rt)) (facts_facts s) f = (fs', p)"
    by (metis surj_pair)
  have "Suc (set_total (facts_facts s)) < 2 ^ 64"
    using room facts_total [OF inv] by (simp add: facts_room_def)
  note spec = fact_set.add_spec [OF fs f this add]
  have none: "set_map fact_key (facts_facts s) (fact_key f) = None"
    using new by (simp add: facts_map_def)
  have item: "set_item_at fs' p = set_item_new f (fact_hash rt f)" using spec(3,4) none by simp
  note differs = new_fact_differs [OF inv f new]
  have ix: "index_ok rt m (compare_fact_id (cmp_tag rt)) (facts_index s) (facts_set s)"
    "index_ok rt m (compare_fact_spo (cmp_tag rt)) (facts_index_spo s) (facts_set s)"
    "index_ok rt m (compare_fact_pos (cmp_tag rt)) (facts_index_pos s) (facts_set s)"
    "index_ok rt m (compare_fact_osp (cmp_tag rt)) (facts_index_osp s) (facts_set s)"
    using inv by (simp_all add: facts_inv_def)
  let ?r = "\<lambda>n. facts_random s (facts_draws s + n)"
  obtain i1 n1 where 1: "skiplist_insert (compare_fact_id (cmp_tag rt)) (facts_index s) f (?r 0) = Some (i1, n1)"
    "index_ok rt m (compare_fact_id (cmp_tag rt)) i1 (insert f (facts_set s))"
    using index_insert [OF fid.comparison_axioms ix(1) f differs(2)] by blast
  obtain i2 n2 where 2: "skiplist_insert (compare_fact_spo (cmp_tag rt)) (facts_index_spo s) f (?r 1) = Some (i2, n2)"
    "index_ok rt m (compare_fact_spo (cmp_tag rt)) i2 (insert f (facts_set s))"
    using index_insert [OF spo.comparison_axioms ix(2) f differs(3)] by blast
  obtain i3 n3 where 3: "skiplist_insert (compare_fact_pos (cmp_tag rt)) (facts_index_pos s) f (?r 2) = Some (i3, n3)"
    "index_ok rt m (compare_fact_pos (cmp_tag rt)) i3 (insert f (facts_set s))"
    using index_insert [OF pos.comparison_axioms ix(3) f differs(4)] by blast
  obtain i4 n4 where 4: "skiplist_insert (compare_fact_osp (cmp_tag rt)) (facts_index_osp s) f (?r 3) = Some (i4, n4)"
    "index_ok rt m (compare_fact_osp (cmp_tag rt)) i4 (insert f (facts_set s))"
    using index_insert [OF osp.comparison_axioms ix(4) f differs(5)] by blast
  define s' where "s' = s\<lparr>facts_facts := fs', facts_index := i1, facts_index_spo := i2,
    facts_index_pos := i3, facts_index_osp := i4, facts_draws := facts_draws s + 4\<rparr>"
  have store: "store_fact rt s f = Some (s', f)"
    using 1(1) 2(1) 3(1) 4(1) by (simp add: store_fact_def add item set_item_new_def s'_def Let_def)
  have map: "facts_map s' = (facts_map s)(fact_key f \<mapsto> fact_id f)"
    using spec(4) none by (auto simp: facts_map_def s'_def fun_eq_iff set_item_new_def)
  have set': "facts_set s' = insert f (facts_set s)"
    by (rule facts_set_insert [OF fs _ map new]) (use spec(1) in \<open>simp add: s'_def\<close>)
  have rest: "facts_rest s' = facts_rest s" by (simp add: facts_rest_def s'_def)
  have refs: "expected_refs s' ps = expected_refs s (f # ps)"
    by (rule expected_refs_insert [OF set' differs(1) live_actions_rest [OF rest]])
  have "facts_inv rt m ps s'"
    unfolding facts_inv_def refs set' live_actions_rest [OF rest]
    using inv spec(1) 1(2) 2(2) 3(2) 4(2) fresh by (simp add: facts_inv_def s'_def)
  with store map rest show ?thesis by blast
qed

lemma expected_refs_delete:
  assumes "facts_set s' = facts_set s - {f}" "f \<in> facts_set s" "live_actions s' = live_actions s"
  shows "expected_refs s' (f # ps) = expected_refs s ps"
  using assms sum.remove [of "facts_set s" f "\<lambda>f. tag_occ f _"]
  by (simp add: expected_refs_def fun_eq_iff)

text \<open>Both ways of taking a fact out: the removal proper, and the undoing of an insertion.\<close>

lemma remove_stored_inv:
  assumes inv: "facts_inv rt m ps s" and f: "f \<in> facts_set s"
  shows "\<exists>s1 s2. unindex_fact rt s f = Some (s1, True) \<and> set_remove_fact rt s1 f = s2 \<and>
    unstore_fact rt s f = Some s2 \<and> facts_inv rt m (f # ps) s2 \<and>
    facts_map s2 = (facts_map s)(fact_key f := None) \<and> facts_rest s2 = facts_rest s"
proof -
  note fs = facts_inv_facts [OF inv]
  have ok: "fact_ok rt m f" by (rule facts_set_ok [OF inv f])
  note only = stored_fact_unique [OF inv f]
  have ix: "index_ok rt m (compare_fact_id (cmp_tag rt)) (facts_index s) (facts_set s)"
    "index_ok rt m (compare_fact_spo (cmp_tag rt)) (facts_index_spo s) (facts_set s)"
    "index_ok rt m (compare_fact_pos (cmp_tag rt)) (facts_index_pos s) (facts_set s)"
    "index_ok rt m (compare_fact_osp (cmp_tag rt)) (facts_index_osp s) (facts_set s)"
    using inv by (simp_all add: facts_inv_def)
  obtain i1 where 1: "skiplist_remove (compare_fact_id (cmp_tag rt)) (facts_index s) f = Some (i1, True)"
    "index_ok rt m (compare_fact_id (cmp_tag rt)) i1 (facts_set s - {f})"
    using index_remove [OF fid.comparison_axioms ix(1) f only(1)] by blast
  obtain i2 where 2: "skiplist_remove (compare_fact_spo (cmp_tag rt)) (facts_index_spo s) f = Some (i2, True)"
    "index_ok rt m (compare_fact_spo (cmp_tag rt)) i2 (facts_set s - {f})"
    using index_remove [OF spo.comparison_axioms ix(2) f only(2)] by blast
  obtain i3 where 3: "skiplist_remove (compare_fact_pos (cmp_tag rt)) (facts_index_pos s) f = Some (i3, True)"
    "index_ok rt m (compare_fact_pos (cmp_tag rt)) i3 (facts_set s - {f})"
    using index_remove [OF pos.comparison_axioms ix(3) f only(3)] by blast
  obtain i4 where 4: "skiplist_remove (compare_fact_osp (cmp_tag rt)) (facts_index_osp s) f = Some (i4, True)"
    "index_ok rt m (compare_fact_osp (cmp_tag rt)) i4 (facts_set s - {f})"
    using index_remove [OF osp.comparison_axioms ix(4) f only(4)] by blast
  obtain fs' where rem: "fst (set_remove (fact_hash rt) (compare_fact (cmp_tag rt)) (facts_facts s) f) = fs'"
    "set_inv (fact_hash rt) fact_key (fact_ok rt m) fs'"
    "set_map fact_key fs' = (set_map fact_key (facts_facts s))(fact_key f := None)"
    using fact_set.remove_spec [OF fs ok] by (metis fst_conv)
  define s1 where "s1 = s\<lparr>facts_index := i1, facts_index_spo := i2, facts_index_pos := i3, facts_index_osp := i4\<rparr>"
  define s2 where "s2 = s1\<lparr>facts_facts := fs'\<rparr>"
  have ops: "unindex_fact rt s f = Some (s1, True)" "set_remove_fact rt s1 f = s2"
    "unstore_fact rt s f = Some s2"
    using 1(1) 2(1) 3(1) 4(1) rem(1)
    by (simp_all add: unindex_fact_def unstore_fact_def set_remove_fact_def s1_def s2_def Let_def)
  have map: "facts_map s2 = (facts_map s)(fact_key f := None)"
    using rem(3) by (auto simp: facts_map_def s2_def s1_def fun_eq_iff)
  have set': "facts_set s2 = facts_set s - {f}"
    by (rule facts_set_delete [OF fs _ map f]) (use rem(2) in \<open>simp add: s2_def\<close>)
  have rest: "facts_rest s2 = facts_rest s" by (simp add: facts_rest_def s2_def s1_def)
  have refs: "expected_refs s2 (f # ps) = expected_refs s ps"
    by (rule expected_refs_delete [OF set' f live_actions_rest [OF rest]])
  have "facts_inv rt m (f # ps) s2"
    unfolding facts_inv_def refs set' live_actions_rest [OF rest]
    using inv rem(2) 1(2) 2(2) 3(2) 4(2) by (simp add: facts_inv_def s2_def s1_def)
  with ops map rest show ?thesis by blast
qed

end
