(* ===== verification/Facts_Spec.thy ===== *)
theory Facts_Spec
  imports Facts_Inv
begin

text \<open>
  What the operations of the database promise, as operations on an abstract database \<open>db\<close> that
  has a map from triples to identifiers where the implementation has hash sets, reference
  counts and four skip lists; and the refinement of each operation.
\<close>

record db =
  db_map :: "tag \<times> tag \<times> tag \<rightharpoonup> uw"
  db_log :: "fact_log option"
  db_connections :: "facts_connection list"
  db_remove_log :: "(tag fact \<times> uw) list"
  db_next_id :: uw
  db_server_count :: uw
  db_transaction :: "transaction list"

definition facts_abs :: "facts \<Rightarrow> db" where
  "facts_abs s = \<lparr>db_map = facts_map s, db_log = facts_log s, db_connections = facts_connections s,
    db_remove_log = facts_remove_log s, db_next_id = facts_next_id s,
    db_server_count = facts_server_count s, db_transaction = facts_transaction s\<rparr>"

section \<open>The abstract operations\<close>

definition db_rolling_back :: "db \<Rightarrow> bool" where
  "db_rolling_back d = (case db_transaction d of [] \<Rightarrow> False | t # _ \<Rightarrow> tr_rolling_back t)"

definition db_blocked :: "db \<Rightarrow> bool" where
  "db_blocked d \<longleftrightarrow> (case db_log d of None \<Rightarrow> False | Some l \<Rightarrow> log_failed l) \<and> \<not> db_rolling_back d"

definition db_action :: "db \<Rightarrow> action_type \<Rightarrow> tag fact \<Rightarrow> uw \<Rightarrow> bool \<Rightarrow> fact_action" where
  "db_action d action f eid broadcast =
    \<lparr>fa_action = action, fa_fact = f, fa_id = eid, fa_broadcast = broadcast,
     fa_remove_log = (if action = FACT_ACTION_REMOVE \<and> db_server_count d \<noteq> 0 then Some (f, eid) else None)\<rparr>"

definition db_push :: "fact_action \<Rightarrow> db \<Rightarrow> db" where
  "db_push a d = (case db_transaction d of [] \<Rightarrow> d
    | t # ts \<Rightarrow> d\<lparr>db_transaction := t\<lparr>tr_log := a # tr_log t\<rparr> # ts\<rparr>)"

definition db_send :: "action_type \<Rightarrow> tag fact \<Rightarrow> db \<Rightarrow> db" where
  "db_send action f d = d\<lparr>db_connections :=
    map (\<lambda>c. if conn_running c \<and> conn_is_master c then conn_send action f c else c) (db_connections d)\<rparr>"

text \<open>Storing a fact that is not stored, with its identifier.\<close>

definition db_store :: "bool \<Rightarrow> db \<Rightarrow> tag fact \<Rightarrow> db \<times> tag fact outcome" where
  "db_store local d f =
    (let d1 = d\<lparr>db_map := (db_map d)(fact_key f \<mapsto> fact_id f)\<rparr> in
     if db_transaction d \<noteq> [] then
       (if db_rolling_back d then d1 else db_push (db_action d FACT_ACTION_ADD f (fact_id f) local) d1, Ok f)
     else case db_log d of
       None \<Rightarrow> (if local then db_send FACT_ACTION_ADD f d1 else d1, Ok f)
     | Some l \<Rightarrow>
         let (l, ok) = facts_log_add l (fact_id f) f
         in if ok then let d2 = d1\<lparr>db_log := Some l\<rparr>
              in (if local then db_send FACT_ACTION_ADD f d2 else d2, Ok f)
            else (d\<lparr>db_log := Some l\<rparr>, Null))"

definition db_add :: "db \<Rightarrow> tag fact \<Rightarrow> db \<times> tag fact outcome" where
  "db_add d f =
    (if db_blocked d then (d, Null)
     else case db_map d (fact_key f) of
       Some i \<Rightarrow> (d, Ok (set_fact_id f i))
     | None \<Rightarrow>
         if db_next_id d = UW_MAX then (d, Null)
         else db_store True (d\<lparr>db_next_id := db_next_id d + 1\<rparr>) (set_fact_id f (db_next_id d)))"

definition db_add_id :: "db \<Rightarrow> tag fact \<Rightarrow> db \<times> tag fact outcome" where
  "db_add_id d f =
    (if fact_id f = UW_MAX \<or> db_blocked d then (d, Null)
     else case db_map d (fact_key f) of
       Some i \<Rightarrow> (d, Ok (set_fact_id f i))
     | None \<Rightarrow> db_store False
         (d\<lparr>db_next_id := (if fact_id f \<ge> db_next_id d then fact_id f + 1 else db_next_id d)\<rparr>) f)"

text \<open>The identifier of the event, the bookkeeping, then the removal itself.\<close>

definition db_event ::
  "db \<Rightarrow> tag fact \<Rightarrow> bool \<Rightarrow> uw option \<Rightarrow> db \<times> (uw \<times> fact_action option) option" where
  "db_event d g found event_id =
    (if (found \<or> event_id \<noteq> None) \<and> \<not> db_rolling_back d then
       let (d, eid) = (case event_id of Some e \<Rightarrow> (d, Some e)
         | None \<Rightarrow> if db_transaction d = [] \<and> db_log d = None \<and> db_server_count d = 0 then (d, Some 0)
             else if db_next_id d = UW_MAX then (d, None)
             else (d\<lparr>db_next_id := db_next_id d + 1\<rparr>, Some (db_next_id d))) in
       case eid of None \<Rightarrow> (d, None)
       | Some eid \<Rightarrow>
         if db_transaction d \<noteq> [] then
           (d, Some (eid, Some (db_action d FACT_ACTION_REMOVE g eid (db_server_count d \<noteq> 0))))
         else
           let (d, ok) = (case db_log d of None \<Rightarrow> (d, True)
             | Some l \<Rightarrow> let (l, ok) = facts_log_remove l eid g in (d\<lparr>db_log := Some l\<rparr>, ok))
           in if \<not> ok then (d, None)
              else if db_server_count d \<noteq> 0 then
                (db_send FACT_ACTION_REMOVE (set_fact_id g eid)
                   (d\<lparr>db_remove_log := (g, eid) # db_remove_log d\<rparr>), Some (eid, None))
              else (d, Some (eid, None))
     else (d, Some (0, None)))"

definition db_remove :: "db \<Rightarrow> tag fact \<Rightarrow> uw option \<Rightarrow> db \<times> bool outcome" where
  "db_remove d f event_id =
    (if (case event_id of None \<Rightarrow> False | Some e \<Rightarrow> e = UW_MAX \<or> db_transaction d \<noteq> []) \<or> db_blocked d
     then (d, Null)
     else let k = fact_key f; found = db_map d k;
              g = (case found of None \<Rightarrow> f | Some i \<Rightarrow> set_fact_id f i) in
       case db_event d g (found \<noteq> None) event_id of
         (d, None) \<Rightarrow> (d, Null)
       | (d, Some (eid, action)) \<Rightarrow>
           let d = (if found = None then d else
                 (case action of None \<Rightarrow> id | Some a \<Rightarrow> db_push a) (d\<lparr>db_map := (db_map d)(k := None)\<rparr>));
               d = (if event_id \<noteq> None \<and> eid \<ge> db_next_id d then d\<lparr>db_next_id := eid + 1\<rparr> else d)
           in (d, Ok (found \<noteq> None)))"

section \<open>Refinement\<close>

lemma facts_abs_simps [simp]:
  "db_map (facts_abs s) = facts_map s" "db_log (facts_abs s) = facts_log s"
  "db_connections (facts_abs s) = facts_connections s" "db_remove_log (facts_abs s) = facts_remove_log s"
  "db_next_id (facts_abs s) = facts_next_id s" "db_server_count (facts_abs s) = facts_server_count s"
  "db_transaction (facts_abs s) = facts_transaction s"
  "db_rolling_back (facts_abs s) = rolling_back s" "db_blocked (facts_abs s) = log_blocked s"
  by (auto simp: facts_abs_def db_rolling_back_def rolling_back_def db_blocked_def log_blocked_def)

text \<open>The abstraction is the map and the other fields.\<close>

lemma facts_abs_eqI:
  "facts_map s = facts_map s' \<Longrightarrow> facts_rest s = facts_rest s' \<Longrightarrow> facts_abs s = facts_abs s'"
  by (simp add: facts_abs_def facts_rest_def)

lemma facts_rest_eq:
  assumes "facts_rest s = facts_rest s'"
  shows "facts_log s = facts_log s'" "facts_connections s = facts_connections s'"
    "facts_remove_log s = facts_remove_log s'" "facts_next_id s = facts_next_id s'"
    "facts_server_count s = facts_server_count s'" "facts_transaction s = facts_transaction s'"
  using assms by (simp_all add: facts_rest_def)

lemma facts_inv_cong:
  assumes "facts_inv rt m ps s" "facts_next_id s \<le> facts_next_id s'"
    "facts_tags s' = facts_tags s" "facts_facts s' = facts_facts s" "facts_index s' = facts_index s"
    "facts_index_spo s' = facts_index_spo s" "facts_index_pos s' = facts_index_pos s"
    "facts_index_osp s' = facts_index_osp s" "live_actions s' = live_actions s"
  shows "facts_inv rt m ps s'"
proof -
  have "facts_set s' = facts_set s" using assms by (simp add: facts_set_def)
  moreover have "expected_refs s' ps = expected_refs s ps"
    using assms calculation by (simp add: expected_refs_def fun_eq_iff)
  ultimately show ?thesis
    using assms unfolding facts_inv_def by (auto intro: less_le_trans)
qed

lemma facts_room_cong:
  "facts_facts s' = facts_facts s \<Longrightarrow> live_actions s' = live_actions s \<Longrightarrow> length ps' + n' \<le> length ps + n \<Longrightarrow>
    facts_room s ps n \<Longrightarrow> facts_room s' ps' n'"
  by (simp add: facts_room_def facts_set_def)

lemma push_action_inv:
  assumes inv: "facts_inv rt m (fa_fact a # ps) s" and a: "fact_ok rt m (fa_fact a)"
    "fact_id (fa_fact a) < facts_next_id s" and t: "facts_transaction s \<noteq> []"
  shows "facts_inv rt m ps (push_action (Some a) s)"
proof -
  obtain t ts where ts: "facts_transaction s = t # ts" using t by (cases "facts_transaction s") auto
  let ?s = "push_action (Some a) s"
  have la: "live_actions ?s = a # live_actions s" by (simp add: push_action_def ts live_actions_def)
  have fset: "facts_set ?s = facts_set s" by (simp add: push_action_def ts facts_set_def)
  have "expected_refs ?s ps = expected_refs s (fa_fact a # ps)"
    by (simp add: expected_refs_def la fset fun_eq_iff)
  moreover have "facts_next_id ?s = facts_next_id s" by (simp add: push_action_def ts)
  ultimately show ?thesis
    using inv a unfolding facts_inv_def la fset by (simp add: push_action_def ts)
qed

lemma push_action_abs: "facts_abs (push_action (Some a) s) = db_push a (facts_abs s)"
  by (auto simp: push_action_def db_push_def facts_abs_def facts_map_def split: list.split)

text \<open>Replacing fields that are not part of the structures.\<close>

lemma facts_other_update_simps [simp]:
  "facts_map (s\<lparr>facts_log := l\<rparr>) = facts_map s"
  "facts_map (s\<lparr>facts_connections := c\<rparr>) = facts_map s"
  "facts_map (s\<lparr>facts_remove_log := r\<rparr>) = facts_map s"
  "facts_map (s\<lparr>facts_next_id := n\<rparr>) = facts_map s"
  "facts_map (s\<lparr>facts_transaction := ts\<rparr>) = facts_map s"
  by (simp_all add: facts_map_def fun_eq_iff)

lemma facts_other_update_inv [inv_intros]:
  "facts_inv rt m ps s \<Longrightarrow> facts_inv rt m ps (s\<lparr>facts_log := l\<rparr>)"
  "facts_inv rt m ps s \<Longrightarrow> facts_inv rt m ps (s\<lparr>facts_connections := c\<rparr>)"
  "facts_inv rt m ps s \<Longrightarrow> facts_inv rt m ps (s\<lparr>facts_remove_log := r\<rparr>)"
  "facts_inv rt m ps s \<Longrightarrow> facts_next_id s \<le> n \<Longrightarrow> facts_inv rt m ps (s\<lparr>facts_next_id := n\<rparr>)"
  by (erule facts_inv_cong; simp add: live_actions_def)+

lemma broadcast_inv [inv_intros]:
  "facts_inv rt m ps s \<Longrightarrow> facts_inv rt m ps (facts_broadcast_add s f)"
  "facts_inv rt m ps s \<Longrightarrow> facts_inv rt m ps (facts_broadcast_remove s f)"
  by (simp_all add: facts_broadcast_add_def facts_broadcast_remove_def inv_intros)

lemma broadcast_abs:
  "facts_abs (facts_broadcast_add s f) = db_send FACT_ACTION_ADD f (facts_abs s)"
  "facts_abs (facts_broadcast_remove s f) = db_send FACT_ACTION_REMOVE f (facts_abs s)"
  by (simp_all add: facts_abs_def db_send_def facts_broadcast_add_def facts_broadcast_remove_def)

lemma db_send_no_connection: "db_connections d = [] \<Longrightarrow> db_send action f d = d"
  by (simp add: db_send_def)

definition tags_pending :: "fact_action option \<Rightarrow> tag fact list" where
  "tags_pending act = map fa_fact (action_list act)"

lemma add_finish_refines:
  assumes inv: "facts_inv rt m (f # tags_pending act) s" and f: "fact_ok rt m f"
    and new: "facts_map s (fact_key f) = None" and fresh: "fact_id f < facts_next_id s"
    and room: "facts_room s (tags_pending act) 1"
    and act: "act = (if facts_transaction s \<noteq> [] \<and> \<not> rolling_back s
      then Some (db_action (facts_abs s) FACT_ACTION_ADD f (fact_id f) send) else None)"
    and res: "add_finish rt send s f act = (s', r)"
  shows "facts_inv rt m [] s' \<and> (facts_abs s', r) = db_store send (facts_abs s) f"
proof -
  obtain s1 where s1: "store_fact rt s f = Some (s1, f)" "facts_inv rt m (tags_pending act) s1"
    "facts_map s1 = (facts_map s)(fact_key f \<mapsto> fact_id f)" "facts_rest s1 = facts_rest s"
    using store_fact_inv [OF inv f new fresh room] by blast
  note rest = facts_rest_eq [OF s1(4)]
  have abs1: "facts_abs s1 = (facts_abs s)\<lparr>db_map := (facts_map s)(fact_key f \<mapsto> fact_id f)\<rparr>"
    using s1(3) rest by (simp add: facts_abs_def)
  have send: "facts_inv rt m [] t \<Longrightarrow> facts_abs t = d \<Longrightarrow> facts_transaction t = [] \<Longrightarrow>
      facts_inv rt m [] (if send \<and> facts_transaction t = [] \<and> facts_connections t \<noteq> []
        then facts_broadcast_add t f else t) \<and>
      facts_abs (if send \<and> facts_transaction t = [] \<and> facts_connections t \<noteq> []
        then facts_broadcast_add t f else t) = (if send then db_send FACT_ACTION_ADD f d else d)" for t d
    using db_send_no_connection [of "facts_abs t"] by (auto simp: broadcast_abs inv_intros)
  show ?thesis
  proof (cases "facts_transaction s = []")
    case True
    then have none: "act = None" using act by simp
    have t: "facts_transaction s1 = []" using True rest by simp
    note inv1 = s1(2) [unfolded none tags_pending_def action_list_def, simplified]
    show ?thesis
    proof (cases "facts_log s")
      case None
      then have "(s', r) = (if send \<and> facts_transaction s1 = [] \<and> facts_connections s1 \<noteq> []
          then facts_broadcast_add s1 f else s1, Ok f)"
        using res s1(1) rest t none by (simp add: add_finish_def push_action_def)
      then show ?thesis
        using send [OF inv1 abs1 t] None True by (simp add: db_store_def Let_def)
    next
      case (Some l)
      obtain l' ok where l': "facts_log_add l (fact_id f) f = (l', ok)" by (metis surj_pair)
      let ?s2 = "s1\<lparr>facts_log := Some l'\<rparr>"
      have inv2: "facts_inv rt m [] ?s2" using inv1 by (rule inv_intros)
      have abs2: "facts_abs ?s2 = (facts_abs s1)\<lparr>db_log := Some l'\<rparr>" by (simp add: facts_abs_def)
      show ?thesis
      proof (cases ok)
        case True
        then have "(s', r) = (if send \<and> facts_transaction ?s2 = [] \<and> facts_connections ?s2 \<noteq> []
            then facts_broadcast_add ?s2 f else ?s2, Ok f)"
          using res s1(1) rest t none Some l'
          by (auto simp: add_finish_def push_action_def Let_def split: if_splits)
        moreover have "facts_transaction ?s2 = []" using t by simp
        ultimately show ?thesis
          using send [OF inv2 abs2] Some True l' \<open>facts_transaction s = []\<close> unfolding abs1
          by (simp add: db_store_def Let_def)
      next
        case False
        have "f \<in> facts_set ?s2" using facts_set_iff [OF inv2, of f] s1(3) by simp
        from remove_stored_inv [OF inv2 this] obtain s3 where s3: "unstore_fact rt ?s2 f = Some s3"
          "facts_inv rt m [f] s3" "facts_map s3 = (facts_map ?s2)(fact_key f := None)"
          "facts_rest s3 = facts_rest ?s2" by blast
        obtain ts where ts: "unref_tags rt s3 f = s3\<lparr>facts_tags := ts\<rparr>"
          "facts_inv rt m [] (s3\<lparr>facts_tags := ts\<rparr>)"
          using unref_tags_inv [OF s3(2) f] by blast
        have "(s', r) = (s3\<lparr>facts_tags := ts\<rparr>, Null)"
          using res s1(1) rest t none Some l' False s3(1) ts(1)
          by (simp add: add_finish_def action_list_def)
        moreover have "facts_map s3 = facts_map s" using s3(3) s1(3) new by (simp add: fun_upd_idem)
        then have "facts_abs (s3\<lparr>facts_tags := ts\<rparr>) = (facts_abs s)\<lparr>db_log := Some l'\<rparr>"
          using facts_rest_eq [OF s3(4)] rest by (simp add: facts_abs_def)
        ultimately show ?thesis
          using ts(2) Some l' False True by (simp add: db_store_def Let_def)
      qed
    qed
  next
    case False
    then have t: "facts_transaction s1 \<noteq> []" using rest by simp
    then have pt: "facts_transaction (push_action act s1) \<noteq> []"
      by (auto simp: push_action_def split: option.split list.split)
    have res': "(s', r) = (push_action act s1, Ok f)"
      using res s1(1) t pt by (simp add: add_finish_def split: option.splits)
    show ?thesis
    proof (cases "rolling_back s")
      case True
      then have "act = None" using act by simp
      then show ?thesis
        using res' s1(2) abs1 False True
        by (simp add: push_action_def db_store_def tags_pending_def action_list_def)
    next
      case nr: False
      define a where "a = db_action (facts_abs s) FACT_ACTION_ADD f (fact_id f) send"
      have a: "act = Some a" "fa_fact a = f" using act False nr by (simp_all add: a_def db_action_def)
      have "facts_inv rt m [] (push_action (Some a) s1)"
        using s1(2) f fresh rest a by (intro push_action_inv [OF _ _ _ t]) (simp_all add: tags_pending_def action_list_def)
      then show ?thesis
        using res' a(1) nr False by (simp add: push_action_abs abs1 db_store_def a_def [symmetric] Let_def)
    qed
  qed
qed

lemma new_action_inv:
  assumes inv: "facts_inv rt m ps s" and f: "fact_ok rt m f" and room: "facts_room s ps 1"
  shows "\<exists>ts act. new_action rt s FACT_ACTION_ADD f eid broadcast = (s\<lparr>facts_tags := ts\<rparr>, act) \<and>
    facts_inv rt m (tags_pending act @ ps) (s\<lparr>facts_tags := ts\<rparr>) \<and>
    act = (if facts_transaction s \<noteq> [] \<and> \<not> rolling_back s
      then Some (db_action (facts_abs s) FACT_ACTION_ADD f eid broadcast) else None)"
proof (cases "facts_transaction s \<noteq> [] \<and> \<not> rolling_back s")
  case True
  obtain ts where "ref_tags rt s f = (s\<lparr>facts_tags := ts\<rparr>, f)" "facts_inv rt m (f # ps) (s\<lparr>facts_tags := ts\<rparr>)"
    using ref_tags_inv [OF inv f room] by blast
  then show ?thesis
    using True by (auto simp: new_action_def fact_action_new_def db_action_def tags_pending_def action_list_def)
next
  case False
  moreover have "s = s\<lparr>facts_tags := facts_tags s\<rparr>" by simp
  ultimately show ?thesis using inv
    by (intro exI [of _ "facts_tags s"] exI [of _ None]) (auto simp: new_action_def tags_pending_def action_list_def)
qed

lemma facts_abs_tags [simp]: "facts_abs (s\<lparr>facts_tags := ts\<rparr>) = facts_abs s"
  by (rule facts_abs_eqI) simp_all

lemma fact_ok_set_id [simp]: "fact_ok rt m (set_fact_id f i) = fact_ok rt m f"
  "fact_key (set_fact_id f i) = fact_key f" "fact_id (set_fact_id f i) = i"
  "set_fact_id (set_fact_id f i) j = set_fact_id f j" "set_fact_id f (fact_id f) = f"
  by (cases f; simp add: set_fact_id_def fact_ok_def fact_key_def)+

lemma set_fact_id_twice [simp]: "set_fact_id (set_fact_id f i) = set_fact_id f"
  by (simp add: fun_eq_iff)

lemma tag_occ_set_id [simp]: "tag_occ (set_fact_id f i) = tag_occ f"
  by (simp add: tag_occ_def set_fact_id_def fun_eq_iff)

text \<open>Identifiers play no part in the references.\<close>

lemma facts_inv_set_id: "facts_inv rt m (set_fact_id f i # ps) s = facts_inv rt m (f # ps) s"
proof -
  have "expected_refs s (set_fact_id f i # ps) = expected_refs s (f # ps)" by (simp add: fun_eq_iff)
  then show ?thesis by (simp add: facts_inv_def)
qed

lemma unref_tags_set_id [simp]: "unref_tags rt s (set_fact_id f i) = unref_tags rt s f"
  by (simp add: unref_tags_def set_fact_id_def)

lemma facts_get_set_id:
  "facts_inv rt m ps s \<Longrightarrow> fact_ok rt m f \<Longrightarrow>
    facts_get rt s (set_fact_id f i) = map_option (set_fact_id f) (facts_map s (fact_key f))"
  using facts_get_inv [of rt m ps s "set_fact_id f i"] by simp

text \<open>The identifiers of the database are below \<open>UW_MAX\<close>.\<close>

lemma UW_MAX_max: "n \<noteq> UW_MAX \<Longrightarrow> n < n + 1" "(n :: uw) \<le> UW_MAX"
proof -
  show "n \<le> UW_MAX" unfolding UW_MAX_def by (rule max_word_max)
  assume "n \<noteq> UW_MAX"
  moreover have "uint UW_MAX = 2 ^ 64 - 1"
    by (simp add: UW_MAX_def unsigned_minus_1_eq_mask mask_eq_exp_minus_1)
  ultimately have "uint n \<noteq> 2 ^ 64 - 1" by (metis word_uint_eqI)
  moreover have "uint n < 2 ^ 64" using uint_bounded [of n] by simp
  ultimately show "n < n + 1" by (simp add: word_less_def uint_word_ariths)
qed

lemma facts_add_fact_local_refines:
  assumes inv: "facts_inv rt m [] s" and f: "fact_ok rt m f" and room: "facts_room s [] 3"
    and res: "facts_add_fact_local rt s f = (s', r)"
  shows "facts_inv rt m [] s' \<and> (facts_abs s', r) = db_add (facts_abs s) f"
proof (cases "log_blocked s")
  case True
  then show ?thesis using res inv by (simp add: facts_add_fact_local_def db_add_def)
next
  case nb: False
  have room1: "facts_room s [] 1" using room by (rule facts_room_cong [rotated -1]) simp_all
  obtain ts where ts: "ref_tags rt s f = (s\<lparr>facts_tags := ts\<rparr>, f)"
    "facts_inv rt m [f] (s\<lparr>facts_tags := ts\<rparr>)"
    using ref_tags_inv [OF inv f room1] by blast
  let ?s1 = "s\<lparr>facts_tags := ts\<rparr>"
  obtain ts' where un: "unref_tags rt ?s1 f = s\<lparr>facts_tags := ts'\<rparr>" "facts_inv rt m [] (s\<lparr>facts_tags := ts'\<rparr>)"
    using unref_tags_inv [OF ts(2) f] by auto
  have un': "facts_abs (unref_tags rt ?s1 f) = facts_abs s" "facts_inv rt m [] (unref_tags rt ?s1 f)"
    using un by simp_all
  have get: "facts_get rt ?s1 (set_fact_id f 0) = map_option (set_fact_id f) (facts_map s (fact_key f))"
    using facts_get_set_id [OF ts(2) f] by simp
  show ?thesis
  proof (cases "facts_map s (fact_key f)")
    case (Some i)
    then show ?thesis
      using res nb ts(1) get un' by (auto simp: facts_add_fact_local_def db_add_def)
  next
    case None
    show ?thesis
    proof (cases "facts_next_id s = UW_MAX")
      case True
      then show ?thesis
        using res nb ts(1) get un' None
        by (auto simp: facts_add_fact_local_def db_add_def facts_next_id_take_def)
    next
      case False
      define g where "g = set_fact_id f (facts_next_id s)"
      define s2 where "s2 = ?s1\<lparr>facts_next_id := facts_next_id s + 1\<rparr>"
      note up = UW_MAX_max(1) [OF False]
      have inv2: "facts_inv rt m [g] s2"
        unfolding s2_def g_def facts_inv_set_id using ts(2) up by (intro inv_intros) auto
      have g: "fact_ok rt m g" "fact_key g = fact_key f" using f by (simp_all add: g_def)
      have "facts_room s2 [g] 1" using room by (rule facts_room_cong [rotated -1]) (simp_all add: s2_def live_actions_def)
      from new_action_inv [OF inv2 g(1) this] obtain ts2 act where
        act: "new_action rt s2 FACT_ACTION_ADD g (facts_next_id s) True = (s2\<lparr>facts_tags := ts2\<rparr>, act)"
        "facts_inv rt m (tags_pending act @ [g]) (s2\<lparr>facts_tags := ts2\<rparr>)"
        "act = (if facts_transaction s2 \<noteq> [] \<and> \<not> rolling_back s2
          then Some (db_action (facts_abs s2) FACT_ACTION_ADD g (facts_next_id s) True) else None)" by blast
      let ?s3 = "s2\<lparr>facts_tags := ts2\<rparr>"
      have swap: "expected_refs ?s3 (tags_pending act @ [g]) = expected_refs ?s3 (g # tags_pending act)"
        by (simp add: expected_refs_def fun_eq_iff)
      have inv3: "facts_inv rt m (g # tags_pending act) ?s3"
        using act(2) unfolding facts_inv_def swap .
      have len: "length (tags_pending act) \<le> 1"
        by (simp add: tags_pending_def action_list_def split: option.split)
      have fin: "add_finish rt True ?s3 g act = (s', r)"
        using res nb ts(1) get None False act(1)
        by (simp add: facts_add_fact_local_def facts_next_id_take_def s2_def g_def)
      have "facts_inv rt m [] s' \<and> (facts_abs s', r) = db_store True (facts_abs ?s3) g"
      proof (rule add_finish_refines [OF inv3 g(1) _ _ _ _ fin])
        show "facts_map ?s3 (fact_key g) = None" using None by (simp add: s2_def g_def)
        show "fact_id g < facts_next_id ?s3" using up by (simp add: s2_def g_def)
        show "facts_room ?s3 (tags_pending act) 1"
          using room len by (auto simp: facts_room_def s2_def live_actions_def facts_set_def)
        show "act = (if facts_transaction ?s3 \<noteq> [] \<and> \<not> rolling_back ?s3
            then Some (db_action (facts_abs ?s3) FACT_ACTION_ADD g (fact_id g) True) else None)"
          using act(3) by (simp add: rolling_back_def g_def)
      qed
      moreover have "facts_abs ?s3 = (facts_abs s)\<lparr>db_next_id := facts_next_id s + 1\<rparr>"
        by (simp add: facts_abs_def s2_def)
      ultimately show ?thesis
        using nb None False by (simp add: db_add_def g_def)
    qed
  qed
qed

lemma swap_pending: "facts_inv rt m (ps @ [g]) s = facts_inv rt m (g # ps) s"
proof -
  have "expected_refs s (ps @ [g]) = expected_refs s (g # ps)" by (simp add: expected_refs_def fun_eq_iff)
  then show ?thesis by (simp add: facts_inv_def)
qed

lemma length_tags_pending: "length (tags_pending act) \<le> 1"
  by (simp add: tags_pending_def action_list_def split: option.split)

lemma facts_add_fact_id_refines:
  assumes inv: "facts_inv rt m [] s" and f: "fact_ok rt m f" and room: "facts_room s [] 3"
    and res: "facts_add_fact_id rt s f = (s', r)"
  shows "facts_inv rt m [] s' \<and> (facts_abs s', r) = db_add_id (facts_abs s) f"
proof (cases "fact_id f = UW_MAX \<or> log_blocked s")
  case True
  then show ?thesis using res inv by (auto simp: facts_add_fact_id_def db_add_id_def split: if_splits)
next
  case nb: False
  have room1: "facts_room s [] 1" using room by (rule facts_room_cong [rotated -1]) simp_all
  obtain ts where ts: "ref_tags rt s f = (s\<lparr>facts_tags := ts\<rparr>, f)"
    "facts_inv rt m [f] (s\<lparr>facts_tags := ts\<rparr>)"
    using ref_tags_inv [OF inv f room1] by blast
  let ?s1 = "s\<lparr>facts_tags := ts\<rparr>"
  obtain ts' where un: "unref_tags rt ?s1 f = s\<lparr>facts_tags := ts'\<rparr>" "facts_inv rt m [] (s\<lparr>facts_tags := ts'\<rparr>)"
    using unref_tags_inv [OF ts(2) f] by auto
  have un': "facts_abs (unref_tags rt ?s1 f) = facts_abs s" "facts_inv rt m [] (unref_tags rt ?s1 f)"
    using un by simp_all
  have get: "facts_get rt ?s1 (set_fact_id f 0) = map_option (set_fact_id f) (facts_map s (fact_key f))"
    using facts_get_set_id [OF ts(2) f] by simp
  show ?thesis
  proof (cases "facts_map s (fact_key f)")
    case (Some i)
    then show ?thesis
      using res nb ts(1) get un' by (auto simp: facts_add_fact_id_def db_add_id_def)
  next
    case None
    have "facts_room ?s1 [f] 1" using room by (rule facts_room_cong [rotated -1]) (simp_all add: live_actions_def)
    from new_action_inv [OF ts(2) f this] obtain ts2 act where
      act: "new_action rt ?s1 FACT_ACTION_ADD f (fact_id f) False = (?s1\<lparr>facts_tags := ts2\<rparr>, act)"
      "facts_inv rt m (f # tags_pending act) (?s1\<lparr>facts_tags := ts2\<rparr>)"
      "act = (if facts_transaction ?s1 \<noteq> [] \<and> \<not> rolling_back ?s1
        then Some (db_action (facts_abs ?s1) FACT_ACTION_ADD f (fact_id f) False) else None)"
      unfolding swap_pending by blast
    define n where "n = (if fact_id f \<ge> facts_next_id s then fact_id f + 1 else facts_next_id s)"
    define s3 where "s3 = s\<lparr>facts_tags := ts2, facts_next_id := n\<rparr>"
    have "fact_id f < fact_id f + 1" using nb UW_MAX_max(1) by blast
    then have n: "facts_next_id s \<le> n" "fact_id f < n" by (auto simp: n_def)
    have inv3: "facts_inv rt m (f # tags_pending act) s3"
      using act(2) n unfolding s3_def by (auto intro!: inv_intros)
    have fin: "add_finish rt False s3 f act = (s', r)"
      using res nb ts(1) get None act(1)
      by (auto simp: facts_add_fact_id_def s3_def n_def split: if_splits)
    have "facts_inv rt m [] s' \<and> (facts_abs s', r) = db_store False (facts_abs s3) f"
    proof (rule add_finish_refines [OF inv3 f _ _ _ _ fin])
      show "facts_map s3 (fact_key f) = None" using None by (simp add: s3_def)
      show "fact_id f < facts_next_id s3" using n by (simp add: s3_def)
      show "facts_room s3 (tags_pending act) 1"
        using room length_tags_pending [of act] by (auto simp: facts_room_def s3_def live_actions_def facts_set_def)
      show "act = (if facts_transaction s3 \<noteq> [] \<and> \<not> rolling_back s3
          then Some (db_action (facts_abs s3) FACT_ACTION_ADD f (fact_id f) False) else None)"
        using act(3) by (simp add: rolling_back_def s3_def db_action_def)
    qed
    moreover have "facts_abs s3 = (facts_abs s)\<lparr>db_next_id := n\<rparr>"
      by (simp add: facts_abs_def s3_def)
    ultimately show ?thesis
      using nb None by (simp add: db_add_id_def n_def)
  qed
qed

text \<open>The bookkeeping of a removal.\<close>

lemma remove_event_refines:
  assumes inv: "facts_inv rt m [] s" and g: "fact_ok rt m g" "fact_id g < facts_next_id s \<or> found = None"
    and room: "facts_room s [] 3" and found: "g = (case found of None \<Rightarrow> f | Some h \<Rightarrow> h)"
    and ev: "event_id \<noteq> None \<Longrightarrow> facts_transaction s = []"
    and res: "remove_event rt s f found event_id = (s', r)"
  shows "(facts_abs s', r) = db_event (facts_abs s) g (found \<noteq> None) event_id \<and>
    facts_map s' = facts_map s \<and> facts_transaction s' = facts_transaction s \<and>
    facts_next_id s \<le> facts_next_id s' \<and>
    (case r of None \<Rightarrow> facts_inv rt m [] s'
     | Some (eid, act) \<Rightarrow> facts_inv rt m (tags_pending act) s' \<and>
         (\<forall>e. event_id = Some e \<longrightarrow> eid = e) \<and>
         (\<forall>a. act = Some a \<longrightarrow> fa_fact a = g \<and> facts_transaction s \<noteq> [] \<and> found \<noteq> None))"
proof (cases "(found \<noteq> None \<or> event_id \<noteq> None) \<and> \<not> rolling_back s")
  case False
  then have "s' = s" "r = Some (0, None)"
    using res by (auto simp: remove_event_def rolling_back_def split: list.splits if_splits)
  moreover have "event_id = None" using False ev by (cases event_id) (auto simp: rolling_back_def)
  ultimately show ?thesis
    using inv False by (auto simp: db_event_def tags_pending_def action_list_def)
next
  case True
  then have cond: "(found \<noteq> None \<or> event_id \<noteq> None) \<and> (facts_transaction s = [] \<or> \<not> rolling_back s)" by simp
  obtain s1 eo where id: "(case event_id of Some e \<Rightarrow> (s, Some e)
      | None \<Rightarrow> if facts_transaction s \<noteq> [] \<or> facts_log s \<noteq> None \<or> facts_server_count s \<noteq> 0
          then facts_next_id_take s else (s, Some 0)) = (s1, eo)" by (metis surj_pair)
  have s1: "facts_inv rt m [] s1" "facts_map s1 = facts_map s" "facts_transaction s1 = facts_transaction s"
    "facts_next_id s \<le> facts_next_id s1" "facts_log s1 = facts_log s" "live_actions s1 = live_actions s"
    "facts_server_count s1 = facts_server_count s" "facts_set s1 = facts_set s" "rolling_back s1 = rolling_back s"
    using id inv UW_MAX_max(1) [of "facts_next_id s"]
    by (auto simp: facts_next_id_take_def live_actions_def facts_set_def rolling_back_def
        intro!: inv_intros split: option.splits if_splits)
  have id_abs: "(case event_id of Some e \<Rightarrow> (facts_abs s, Some e)
      | None \<Rightarrow> if facts_transaction s = [] \<and> facts_log s = None \<and> facts_server_count s = 0
          then (facts_abs s, Some 0) else if facts_next_id s = UW_MAX then (facts_abs s, None)
          else ((facts_abs s)\<lparr>db_next_id := facts_next_id s + 1\<rparr>, Some (facts_next_id s))) = (facts_abs s1, eo)"
    using id by (auto simp: facts_next_id_take_def facts_abs_def split: option.splits if_splits)
  note step = res [unfolded remove_event_def if_P [OF cond] Let_def id found [symmetric] prod.case]
  have spec: "db_event (facts_abs s) g (found \<noteq> None) event_id =
      (case eo of None \<Rightarrow> (facts_abs s1, None)
       | Some eid \<Rightarrow>
         if facts_transaction s1 \<noteq> [] then
           (facts_abs s1, Some (eid, Some (db_action (facts_abs s1) FACT_ACTION_REMOVE g eid (facts_server_count s1 \<noteq> 0))))
         else
           let (d, ok) = (case facts_log s1 of None \<Rightarrow> (facts_abs s1, True)
             | Some l \<Rightarrow> let (l, ok) = facts_log_remove l eid g in ((facts_abs s1)\<lparr>db_log := Some l\<rparr>, ok))
           in if \<not> ok then (d, None)
              else if db_server_count d \<noteq> 0 then
                (db_send FACT_ACTION_REMOVE (set_fact_id g eid)
                   (d\<lparr>db_remove_log := (g, eid) # db_remove_log d\<rparr>), Some (eid, None))
              else (d, Some (eid, None)))"
    unfolding db_event_def facts_abs_simps if_P [OF True] id_abs Let_def prod.case ..
  have eo: "\<forall>e. event_id = Some e \<longrightarrow> eo = Some e" using id by auto
  show ?thesis
  proof (cases eo)
    case None
    then show ?thesis unfolding spec using step s1 by simp
  next
    case (Some eid)
    show ?thesis
    proof (cases "facts_transaction s = []")
      case False
      have "facts_room s1 [] 1" using room s1(6,8) by (simp add: facts_room_def)
      from ref_tags_inv [OF s1(1) g(1) this] obtain ts where
        ts: "ref_tags rt s1 g = (s1\<lparr>facts_tags := ts\<rparr>, g)" "facts_inv rt m [g] (s1\<lparr>facts_tags := ts\<rparr>)" by blast
      have "found \<noteq> None" using False ev True by auto
      then show ?thesis
        unfolding spec using step ts s1 False Some eo
        by (auto simp: fact_action_new_def db_action_def tags_pending_def action_list_def)
    next
      case nt: True
      obtain s2 ok where log: "(case facts_log s1 of None \<Rightarrow> (s1, True)
          | Some l \<Rightarrow> let (l, ok) = facts_log_remove l eid g in (s1\<lparr>facts_log := Some l\<rparr>, ok)) = (s2, ok)"
        by (metis surj_pair)
      have s2: "facts_inv rt m [] s2" "facts_map s2 = facts_map s" "facts_transaction s2 = []"
        "facts_next_id s2 = facts_next_id s1" "facts_server_count s2 = facts_server_count s1"
        using log s1 nt by (auto simp: inv_intros split: option.splits prod.splits)
      have log_abs: "(case facts_log s1 of None \<Rightarrow> (facts_abs s1, True)
          | Some l \<Rightarrow> let (l, ok) = facts_log_remove l eid g in ((facts_abs s1)\<lparr>db_log := Some l\<rparr>, ok)) =
          (facts_abs s2, ok)"
        using log by (auto simp: facts_abs_def split: option.splits prod.splits)
      have step2: "(s', r) = (if \<not> ok then (s2, None)
          else if facts_server_count s2 \<noteq> 0 then
            (facts_broadcast_remove (s2\<lparr>facts_remove_log := (g, eid) # facts_remove_log s2\<rparr>)
              (set_fact_id g eid), Some (eid, None))
          else (s2, Some (eid, None)))"
        using step log [unfolded Let_def] Some nt s1(3) by (auto split: if_splits)
      have bc: "facts_abs (facts_broadcast_remove (s2\<lparr>facts_remove_log := (g, eid) # facts_remove_log s2\<rparr>)
            (set_fact_id g eid)) = db_send FACT_ACTION_REMOVE (set_fact_id g eid)
          ((facts_abs s2)\<lparr>db_remove_log := (g, eid) # facts_remove_log s2\<rparr>)"
        unfolding broadcast_abs by (simp add: facts_abs_def)
      have bc': "facts_map (facts_broadcast_remove t h) = facts_map t"
        "facts_transaction (facts_broadcast_remove t h) = facts_transaction t"
        "facts_next_id (facts_broadcast_remove t h) = facts_next_id t" for t h
        by (simp_all add: facts_broadcast_remove_def)
      show ?thesis
        unfolding spec using step2 s2 s1(3,4) nt Some eo
        by (auto simp: log_abs bc bc' Let_def tags_pending_def action_list_def inv_intros split: if_splits)
    qed
  qed
qed

lemma facts_remove_fact_internal_refines:
  assumes inv: "facts_inv rt m [] s" and f: "fact_ok rt m f" and room: "facts_room s [] 3"
    and res: "facts_remove_fact_internal rt s f event_id = (s', r)"
  shows "facts_inv rt m [] s' \<and> (facts_abs s', r) = db_remove (facts_abs s) f event_id"
proof (cases "(case event_id of None \<Rightarrow> False | Some e \<Rightarrow> e = UW_MAX \<or> facts_transaction s \<noteq> []) \<or> log_blocked s")
  case True
  then show ?thesis
    using res inv by (auto simp: facts_remove_fact_internal_def db_remove_def split: if_splits option.splits)
next
  case nb: False
  define found where "found = facts_find_fact rt s f"
  define g where "g = (case found of None \<Rightarrow> f | Some h \<Rightarrow> h)"
  have find: "found = map_option (set_fact_id f) (facts_map s (fact_key f))"
    unfolding found_def by (rule facts_find_fact_inv [OF inv f])
  have g_ok: "fact_ok rt m g" "fact_key g = fact_key f" using f by (auto simp: g_def find split: option.split)
  have g_in: "g \<in> facts_set s" if "found \<noteq> None"
    using that facts_set_iff [OF inv, of g] by (auto simp: g_def find split: option.splits)
  have g_id: "fact_id g < facts_next_id s \<or> found = None" using g_in inv by (auto simp: facts_inv_def)
  obtain s1 r1 where ev: "remove_event rt s f found event_id = (s1, r1)" by (metis surj_pair)
  have evt: "event_id \<noteq> None \<Longrightarrow> facts_transaction s = []" using nb by (auto split: option.splits)
  note event = remove_event_refines [OF inv g_ok(1) g_id room g_def evt ev]
  have fnd: "(facts_map s (fact_key f) = None) = (found = None)" by (simp add: find)
  have gdb: "g = (case facts_map s (fact_key f) of None \<Rightarrow> f | Some i \<Rightarrow> set_fact_id f i)"
    by (simp add: g_def find split: option.split)
  have evq: "db_event (facts_abs s) g (found \<noteq> None) event_id = (facts_abs s1, r1)"
    using event [THEN conjunct1] by (rule sym)
  have spec: "db_remove (facts_abs s) f event_id = (case (facts_abs s1, r1) of
         (d, None) \<Rightarrow> (d, Null)
       | (d, Some (eid, action)) \<Rightarrow>
           let d = (if found = None then d else
                 (case action of None \<Rightarrow> id | Some a \<Rightarrow> db_push a) (d\<lparr>db_map := (db_map d)(fact_key f := None)\<rparr>));
               d = (if event_id \<noteq> None \<and> eid \<ge> db_next_id d then d\<lparr>db_next_id := eid + 1\<rparr> else d)
           in (d, Ok (found \<noteq> None)))"
    unfolding db_remove_def facts_abs_simps if_not_P [OF nb] Let_def gdb [symmetric] fnd evq ..
  show ?thesis
  proof (cases r1)
    case None
    have "s' = s1" "r = Null"
      using res nb ev None by (auto simp: facts_remove_fact_internal_def found_def split: if_splits)
    then show ?thesis using event [THEN conjunct2] None by (simp add: spec)
  next
    case (Some ea)
    obtain eid act where ea: "ea = (eid, act)" by (cases ea)
    have e1: "facts_map s1 = facts_map s" "facts_transaction s1 = facts_transaction s"
      "facts_inv rt m (tags_pending act) s1"
      and e_act: "\<And>a. act = Some a \<Longrightarrow> fa_fact a = g \<and> facts_transaction s \<noteq> [] \<and> found \<noteq> None"
      and e_next: "facts_next_id s \<le> facts_next_id s1"
      using event by (simp_all add: Some ea)
    have eid_max: "eid \<noteq> UW_MAX" if "event_id \<noteq> None"
      using that nb event by (auto simp: Some ea)
    define bump :: "facts \<Rightarrow> facts" where "bump = (\<lambda>s. if event_id \<noteq> None \<and> eid \<ge> facts_next_id s
      then s\<lparr>facts_next_id := eid + 1\<rparr> else s)"
    have bump_inv: "facts_inv rt m [] (bump t)" if "facts_inv rt m [] t" for t
      using that eid_max UW_MAX_max(1) [of eid] unfolding bump_def
      by (auto intro!: inv_intros intro: order_trans less_imp_le)
    have bump_abs: "facts_abs (bump t) = (let d = facts_abs t in
        if event_id \<noteq> None \<and> eid \<ge> db_next_id d then d\<lparr>db_next_id := eid + 1\<rparr> else d)" for t
      by (simp add: bump_def facts_abs_def Let_def)
    show ?thesis
    proof (cases found)
      case None
      then have act: "act = None" using e_act by (cases act) auto
      have "(s', r) = (bump s1, Ok False)"
        using res nb ev Some ea None
        by (auto simp: facts_remove_fact_internal_def found_def [symmetric] bump_def split: if_splits)
      then show ?thesis
        using bump_inv e1(3) None act
        by (simp add: spec Some ea bump_abs Let_def tags_pending_def action_list_def)
    next
      case found: (Some h)
      then have h: "h = g" by (simp add: g_def)
      have "g \<in> facts_set s1"
        using g_in found e1(1) facts_set_iff [OF inv, of g] facts_set_iff [OF e1(3), of g] by simp
      from remove_stored_inv [OF e1(3) this] obtain s2 s3 where rem:
        "unindex_fact rt s1 g = Some (s2, True)" "set_remove_fact rt s2 g = s3"
        "facts_inv rt m (g # tags_pending act) s3" "facts_map s3 = (facts_map s1)(fact_key g := None)"
        "facts_rest s3 = facts_rest s1" by blast
      from unref_tags_inv [OF rem(3) g_ok(1)] obtain ts where
        ts: "unref_tags rt s3 g = s3\<lparr>facts_tags := ts\<rparr>"
        "facts_inv rt m (tags_pending act) (s3\<lparr>facts_tags := ts\<rparr>)" by blast
      let ?s4 = "s3\<lparr>facts_tags := ts\<rparr>"
      have abs4: "facts_abs s3 = (facts_abs s1)\<lparr>db_map := (facts_map s1)(fact_key f := None)\<rparr>"
        using rem(4) facts_rest_eq [OF rem(5)] g_ok(2) by (simp add: facts_abs_def)
      have push: "facts_inv rt m [] (push_action act ?s4) \<and> facts_abs (push_action act ?s4) =
          (case act of None \<Rightarrow> id | Some a \<Rightarrow> db_push a) (facts_abs ?s4)"
      proof (cases act)
        case None
        then show ?thesis using ts(2) by (simp add: push_action_def tags_pending_def action_list_def)
      next
        case (Some a)
        have "fact_id g < facts_next_id s" using g_id found by simp
        then have "fact_id (fa_fact a) < facts_next_id ?s4"
          using e_act [OF Some] e_next facts_rest_eq [OF rem(5)] by auto
        moreover have "facts_transaction ?s4 \<noteq> []"
          using e_act [OF Some] e1(2) facts_rest_eq [OF rem(5)] by auto
        ultimately show ?thesis
          using push_action_inv [of rt m a "[]" ?s4] ts(2) e_act [OF Some] g_ok(1) Some
          by (simp add: tags_pending_def action_list_def push_action_abs)
      qed
      have "(s', r) = (bump (push_action act ?s4), Ok True)"
        using res nb ev Some ea found h rem(1,2) ts(1)
        by (auto simp: facts_remove_fact_internal_def found_def [symmetric] bump_def Let_def split: if_splits)
      then show ?thesis
        using bump_inv push found by (simp add: spec Some ea bump_abs abs4 Let_def)
    qed
  qed
qed

end
