(* ===== verification/Facts_Transaction.thy ===== *)
theory Facts_Transaction
  imports Facts_Spec "HOL-Library.Multiset"
begin

text \<open>
  Transactions of the fact database (facts\_transaction.c): starting, committing and rolling
  back, nested transactions included; and the refinement of each to the abstract database.

  The stack of open transactions is the list \<open>facts_transaction\<close>, the current one first; a
  transaction is identified by the address of the structure that its owner keeps
  (\<open>tr_ptr\<close>).
\<close>

section \<open>The operations\<close>

definition facts_transaction_start :: "facts \<Rightarrow> nat \<Rightarrow> facts \<times> unit outcome" where
  "facts_transaction_start s ptr =
    (if (case facts_log s of None \<Rightarrow> False | Some l \<Rightarrow> log_failed l) then (s, Null)
     else if facts_connection_get_master s \<noteq> None then (s, Null)
     else if facts_next_id s = UW_MAX then (s, Null)
     else (s\<lparr>facts_next_id := facts_next_id s + 1,
             facts_transaction := \<lparr>tr_ptr = ptr, tr_id = facts_next_id s, tr_log = [],
               tr_rolling_back = False\<rparr> # facts_transaction s\<rparr>, Ok ()))"

text \<open>The body of the commit loop for one action; the flag is \<open>ok\<close>.\<close>

definition commit_action :: "facts \<Rightarrow> fact_action \<Rightarrow> facts \<times> bool outcome" where
  "commit_action s a = (case fa_action a of
      FACT_ACTION_ADD \<Rightarrow>
        (case facts_log s of
           None \<Rightarrow> (if fa_broadcast a then facts_broadcast_add s (fa_fact a) else s, Ok True)
         | Some l \<Rightarrow>
             let (l, ok) = facts_log_add l (fa_id a) (fa_fact a); s = s\<lparr>facts_log := Some l\<rparr> in
             if \<not> ok then (s, Ok False)
             else (if fa_broadcast a then facts_broadcast_add s (fa_fact a) else s, Ok True))
    | FACT_ACTION_REMOVE \<Rightarrow>
        (let (s, ok) = (case facts_log s of
              None \<Rightarrow> (s, True)
            | Some l \<Rightarrow> let (l, ok) = facts_log_remove l (fa_id a) (fa_fact a)
                in (s\<lparr>facts_log := Some l\<rparr>, ok)) in
         if \<not> ok then (s, Ok False)
         else
           let s = (if fa_broadcast a then facts_broadcast_remove s (set_fact_id (fa_fact a) (fa_id a)) else s);
               s = (case fa_remove_log a of None \<Rightarrow> s
                 | Some e \<Rightarrow> s\<lparr>facts_remove_log := e # facts_remove_log s\<rparr>)
           in (s, Ok True))
    | FACT_ACTION_REPLACE \<Rightarrow> (s, Abort))"

primrec commit_actions :: "facts \<Rightarrow> fact_action list \<Rightarrow> facts \<times> bool outcome" where
  "commit_actions s [] = (s, Ok True)"
| "commit_actions s (a # as) = (case commit_action s a of
      (s, Ok True) \<Rightarrow> commit_actions s as
    | (s, r) \<Rightarrow> (s, r))"

definition facts_transaction_end :: "rt \<Rightarrow> facts \<Rightarrow> nat \<Rightarrow> facts \<times> unit outcome" where
  "facts_transaction_end rt s ptr = (case facts_transaction s of
      [] \<Rightarrow> (s, Null)
    | t # ts \<Rightarrow>
        if tr_ptr t \<noteq> ptr then (s, Null)
        else (case ts of
           u # us \<Rightarrow> (s\<lparr>facts_transaction := u\<lparr>tr_log := tr_log t @ tr_log u\<rparr> # us\<rparr>, Ok ())
         | [] \<Rightarrow>
             (case commit_actions (s\<lparr>facts_transaction := []\<rparr>) (rev (tr_log t)) of
                (s, Ok ok) \<Rightarrow>
                  (fact_action_delete_all rt s (rev (tr_log t)), if ok then Ok () else Null)
              | (s, _) \<Rightarrow> (s, Abort))))"

definition facts_transaction_find :: "facts \<Rightarrow> nat \<Rightarrow> bool" where
  "facts_transaction_find s ptr = list_ex (\<lambda>t. tr_ptr t = ptr) (facts_transaction s)"

primrec rollback_actions :: "rt \<Rightarrow> facts \<Rightarrow> fact_action list \<Rightarrow> facts \<times> unit outcome" where
  "rollback_actions rt s [] = (s, Ok ())"
| "rollback_actions rt s (a # as) = (case fa_action a of
      FACT_ACTION_ADD \<Rightarrow>
        (case facts_remove_fact_local rt s (fa_fact a) of
           (s, Ok True) \<Rightarrow> rollback_actions rt s as
         | (s, Undef) \<Rightarrow> (s, Undef)
         | (s, _) \<Rightarrow> (s, Abort))
    | FACT_ACTION_REMOVE \<Rightarrow>
        (case facts_add_fact_id rt s (fa_fact a) of
           (s, Ok f) \<Rightarrow> rollback_actions rt s as
         | (s, Undef) \<Rightarrow> (s, Undef)
         | (s, _) \<Rightarrow> (s, Abort))
    | FACT_ACTION_REPLACE \<Rightarrow> (s, Abort))"

text \<open>The loop over the stack; nothing that is called while rolling back changes the stack.\<close>

primrec rollback_loop :: "rt \<Rightarrow> facts \<Rightarrow> nat \<Rightarrow> transaction list \<Rightarrow> facts \<times> unit outcome" where
  "rollback_loop rt s ptr [] = (s, Abort)"
| "rollback_loop rt s ptr (t # ts) =
    (case rollback_actions rt (s\<lparr>facts_transaction := t\<lparr>tr_rolling_back := True\<rparr> # ts\<rparr>) (tr_log t) of
       (s, Ok _) \<Rightarrow>
         let s = (fact_action_delete_all rt s (tr_log t))\<lparr>facts_transaction := ts\<rparr> in
         if tr_ptr t = ptr then (s, Ok ()) else rollback_loop rt s ptr ts
     | (s, r) \<Rightarrow> (s, r))"

definition facts_transaction_rollback :: "rt \<Rightarrow> facts \<Rightarrow> nat \<Rightarrow> facts \<times> unit outcome" where
  "facts_transaction_rollback rt s ptr =
    (if \<not> facts_transaction_find s ptr then (s, Null)
     else rollback_loop rt s ptr (facts_transaction s))"

section \<open>The same on the abstract database\<close>

definition db_start :: "db \<Rightarrow> nat \<Rightarrow> db \<times> unit outcome" where
  "db_start d ptr =
    (if (case db_log d of None \<Rightarrow> False | Some l \<Rightarrow> log_failed l) \<or>
        get_master 0 (db_connections d) \<noteq> None \<or> db_next_id d = UW_MAX then (d, Null)
     else (d\<lparr>db_next_id := db_next_id d + 1,
             db_transaction := \<lparr>tr_ptr = ptr, tr_id = db_next_id d, tr_log = [],
               tr_rolling_back = False\<rparr> # db_transaction d\<rparr>, Ok ()))"

definition db_commit_action :: "db \<Rightarrow> fact_action \<Rightarrow> db \<times> bool outcome" where
  "db_commit_action d a =
    (if fa_action a = FACT_ACTION_REPLACE then (d, Abort)
     else
       let (d, ok) = (case db_log d of None \<Rightarrow> (d, True)
         | Some l \<Rightarrow> let (l, ok) = log_write l (fa_id a, fa_action a, fa_fact a) in (d\<lparr>db_log := Some l\<rparr>, ok)) in
       if \<not> ok then (d, Ok False)
       else
         let d = (if fa_broadcast a then db_send (fa_action a)
               (if fa_action a = FACT_ACTION_REMOVE then set_fact_id (fa_fact a) (fa_id a) else fa_fact a) d
             else d)
         in (case if fa_action a = FACT_ACTION_REMOVE then fa_remove_log a else None of
               None \<Rightarrow> d | Some e \<Rightarrow> d\<lparr>db_remove_log := e # db_remove_log d\<rparr>, Ok True))"

primrec db_commit_actions :: "db \<Rightarrow> fact_action list \<Rightarrow> db \<times> bool outcome" where
  "db_commit_actions d [] = (d, Ok True)"
| "db_commit_actions d (a # as) = (case db_commit_action d a of
      (d, Ok True) \<Rightarrow> db_commit_actions d as
    | (d, r) \<Rightarrow> (d, r))"

definition db_end :: "db \<Rightarrow> nat \<Rightarrow> db \<times> unit outcome" where
  "db_end d ptr = (case db_transaction d of
      [] \<Rightarrow> (d, Null)
    | t # ts \<Rightarrow>
        if tr_ptr t \<noteq> ptr then (d, Null)
        else (case ts of
           u # us \<Rightarrow> (d\<lparr>db_transaction := u\<lparr>tr_log := tr_log t @ tr_log u\<rparr> # us\<rparr>, Ok ())
         | [] \<Rightarrow>
             (case db_commit_actions (d\<lparr>db_transaction := []\<rparr>) (rev (tr_log t)) of
                (d, Ok ok) \<Rightarrow> (d, if ok then Ok () else Null)
              | (d, _) \<Rightarrow> (d, Abort))))"

primrec db_rollback_actions :: "db \<Rightarrow> fact_action list \<Rightarrow> db \<times> unit outcome" where
  "db_rollback_actions d [] = (d, Ok ())"
| "db_rollback_actions d (a # as) = (case fa_action a of
      FACT_ACTION_ADD \<Rightarrow>
        (case db_remove d (fa_fact a) None of
           (d, Ok True) \<Rightarrow> db_rollback_actions d as
         | (d, Undef) \<Rightarrow> (d, Undef)
         | (d, _) \<Rightarrow> (d, Abort))
    | FACT_ACTION_REMOVE \<Rightarrow>
        (case db_add_id d (fa_fact a) of
           (d, Ok f) \<Rightarrow> db_rollback_actions d as
         | (d, Undef) \<Rightarrow> (d, Undef)
         | (d, _) \<Rightarrow> (d, Abort))
    | FACT_ACTION_REPLACE \<Rightarrow> (d, Abort))"

primrec db_rollback_loop :: "db \<Rightarrow> nat \<Rightarrow> transaction list \<Rightarrow> db \<times> unit outcome" where
  "db_rollback_loop d ptr [] = (d, Abort)"
| "db_rollback_loop d ptr (t # ts) =
    (case db_rollback_actions (d\<lparr>db_transaction := t\<lparr>tr_rolling_back := True\<rparr> # ts\<rparr>) (tr_log t) of
       (d, Ok _) \<Rightarrow>
         let d = d\<lparr>db_transaction := ts\<rparr> in
         if tr_ptr t = ptr then (d, Ok ()) else db_rollback_loop d ptr ts
     | (d, r) \<Rightarrow> (d, r))"

definition db_rollback :: "db \<Rightarrow> nat \<Rightarrow> db \<times> unit outcome" where
  "db_rollback d ptr =
    (if \<not> list_ex (\<lambda>t. tr_ptr t = ptr) (db_transaction d) then (d, Null)
     else db_rollback_loop d ptr (db_transaction d))"

section \<open>Refinement\<close>

lemma pending_perm:
  assumes "mset ps = mset ps'" shows "facts_inv rt m ps s = facts_inv rt m ps' s"
proof -
  have "(\<Sum>f\<leftarrow>ps. tag_occ f t) = (\<Sum>f\<leftarrow>ps'. tag_occ f t)" for t
    using assms by (metis mset_map sum_mset_sum_list)
  then have "expected_refs s ps = expected_refs s ps'" by (simp add: expected_refs_def fun_eq_iff)
  then show ?thesis by (simp add: facts_inv_def)
qed

lemma delete_all_inv:
  "facts_inv rt m (map fa_fact as @ ps) s \<Longrightarrow> \<forall>a \<in> set as. fact_ok rt m (fa_fact a) \<Longrightarrow>
    \<exists>ts. fact_action_delete_all rt s as = s\<lparr>facts_tags := ts\<rparr> \<and> facts_inv rt m ps (s\<lparr>facts_tags := ts\<rparr>)"
proof (induction "as" arbitrary: s)
  case Nil
  then show ?case by (intro exI [of _ "facts_tags s"]) simp
next
  case (Cons a as')
  have "facts_inv rt m (fa_fact a # map fa_fact as' @ ps) s" using Cons.prems(1) by simp
  from unref_tags_inv [OF this] Cons.prems(2) obtain ts where
    ts: "unref_tags rt s (fa_fact a) = s\<lparr>facts_tags := ts\<rparr>"
      "facts_inv rt m (map fa_fact as' @ ps) (s\<lparr>facts_tags := ts\<rparr>)" by auto
  from Cons.IH [OF ts(2)] Cons.prems(2) show ?case by (auto simp: ts(1))
qed

text \<open>The actions of a transaction that is taken off the stack are pending.\<close>

lemma pop_pending:
  assumes inv: "facts_inv rt m [] s" and t: "facts_transaction s = t # ts"
    and s': "s' = s\<lparr>facts_transaction := ts\<rparr>"
  shows "facts_inv rt m (map fa_fact (tr_log t)) s'" "\<forall>a \<in> set (tr_log t). fact_ok rt m (fa_fact a)"
proof -
  have "facts_set s' = facts_set s" by (simp add: s' facts_set_def)
  moreover have la: "live_actions s = tr_log t @ live_actions s'" by (simp add: live_actions_def t s')
  ultimately have "expected_refs s' (map fa_fact (tr_log t)) = expected_refs s []"
    by (simp add: expected_refs_def fun_eq_iff)
  with inv la show "facts_inv rt m (map fa_fact (tr_log t)) s'" "\<forall>a \<in> set (tr_log t). fact_ok rt m (fa_fact a)"
    unfolding facts_inv_def \<open>facts_set s' = facts_set s\<close> by (auto simp: s')
qed

lemma unref_tag_transaction:
  "facts_unref_tag rt (s\<lparr>facts_transaction := x\<rparr>) t =
    ((fst (facts_unref_tag rt s t))\<lparr>facts_transaction := x\<rparr>, snd (facts_unref_tag rt s t))"
  by (simp add: facts_unref_tag_def Let_def split: option.split)

lemma delete_all_transaction:
  "fact_action_delete_all rt (s\<lparr>facts_transaction := x\<rparr>) as =
    (fact_action_delete_all rt s as)\<lparr>facts_transaction := x\<rparr>"
  by (induction "as" arbitrary: s) (simp_all add: unref_tags_def unref_tag_transaction)

lemma pop_transaction:
  assumes inv: "facts_inv rt m [] s" and t: "facts_transaction s = t # ts"
  shows "\<exists>s'. (fact_action_delete_all rt s (tr_log t))\<lparr>facts_transaction := ts\<rparr> = s' \<and>
    facts_inv rt m [] s' \<and> facts_abs s' = (facts_abs s)\<lparr>db_transaction := ts\<rparr>"
proof -
  let ?s = "s\<lparr>facts_transaction := ts\<rparr>"
  note pend = pop_pending [OF inv t refl]
  have "facts_inv rt m (map fa_fact (tr_log t) @ []) ?s" using pend(1) by simp
  from delete_all_inv [OF this pend(2)] obtain us where
    us: "fact_action_delete_all rt ?s (tr_log t) = ?s\<lparr>facts_tags := us\<rparr>"
      "facts_inv rt m [] (?s\<lparr>facts_tags := us\<rparr>)" by blast
  have "facts_abs (?s\<lparr>facts_tags := us\<rparr>) = (facts_abs s)\<lparr>db_transaction := ts\<rparr>"
    by (simp add: facts_abs_def)
  with us show ?thesis by (auto simp: delete_all_transaction)
qed

lemma facts_transaction_start_refines:
  assumes inv: "facts_inv rt m [] s" and res: "facts_transaction_start s ptr = (s', r)"
  shows "facts_inv rt m [] s' \<and> (facts_abs s', r) = db_start (facts_abs s) ptr"
proof (cases "(case facts_log s of None \<Rightarrow> False | Some l \<Rightarrow> log_failed l) \<or>
    facts_connection_get_master s \<noteq> None \<or> facts_next_id s = UW_MAX")
  case True
  then show ?thesis
    using res inv by (auto simp: facts_transaction_start_def db_start_def facts_connection_get_master_def split: if_splits)
next
  case False
  let ?s = "s\<lparr>facts_next_id := facts_next_id s + 1\<rparr>"
  let ?t = "\<lparr>tr_ptr = ptr, tr_id = facts_next_id s, tr_log = [], tr_rolling_back = False\<rparr>"
  have "facts_inv rt m [] ?s"
    using inv False UW_MAX_max(1) [of "facts_next_id s"] by (intro inv_intros) auto
  then have "facts_inv rt m [] (?s\<lparr>facts_transaction := ?t # facts_transaction s\<rparr>)"
    by (rule facts_inv_cong) (simp_all add: live_actions_def)
  then show ?thesis
    using res False
    by (auto simp: facts_transaction_start_def db_start_def facts_connection_get_master_def facts_abs_def
        facts_map_def)
qed

lemma commit_action_refines:
  assumes inv: "facts_inv rt m ps s" and res: "commit_action s a = (s', r)"
  shows "facts_inv rt m ps s' \<and> facts_transaction s' = facts_transaction s \<and>
    (facts_abs s', r) = db_commit_action (facts_abs s) a"
proof -
  have bc: "facts_transaction (facts_broadcast_add t h) = facts_transaction t"
    "facts_transaction (facts_broadcast_remove t h) = facts_transaction t" for t h
    by (simp_all add: facts_broadcast_add_def facts_broadcast_remove_def)
  have log: "facts_abs (s\<lparr>facts_log := l\<rparr>) = (facts_abs s)\<lparr>db_log := l\<rparr>" for s l
    by (simp add: facts_abs_def)
  have rl: "facts_abs (s\<lparr>facts_remove_log := l\<rparr>) = (facts_abs s)\<lparr>db_remove_log := l\<rparr>" for s l
    by (simp add: facts_abs_def)
  have rl': "facts_remove_log s = db_remove_log (facts_abs s)" for s by simp
  show ?thesis
  proof (cases "fa_action a")
    case FACT_ACTION_ADD
    with res inv show ?thesis
      by (auto simp: commit_action_def db_commit_action_def facts_log_add_def broadcast_abs bc log Let_def
          inv_intros split: option.splits prod.splits if_splits)
  next
    case FACT_ACTION_REMOVE
    with res inv show ?thesis
      by (auto simp: commit_action_def db_commit_action_def facts_log_remove_def broadcast_abs bc log rl rl' Let_def
          inv_intros simp del: facts_abs_simps(4) split: option.splits prod.splits if_splits)
  next
    case FACT_ACTION_REPLACE
    with res inv show ?thesis by (simp add: commit_action_def db_commit_action_def)
  qed
qed

lemma commit_actions_refines:
  assumes "facts_inv rt m ps s" "commit_actions s as = (s', r)"
  shows "facts_inv rt m ps s' \<and> facts_transaction s' = facts_transaction s \<and>
    (facts_abs s', r) = db_commit_actions (facts_abs s) as"
  using assms
proof (induction "as" arbitrary: s)
  case (Cons a as')
  obtain s1 r1 where 1: "commit_action s a = (s1, r1)" by (metis surj_pair)
  note c = commit_action_refines [OF Cons.prems(1) 1]
  then have db: "db_commit_action (facts_abs s) a = (facts_abs s1, r1)" by simp
  show ?case
  proof (cases "r1 = Ok True")
    case True
    then show ?thesis using Cons.IH [of s1] Cons.prems(2) c 1 by (simp add: db)
  next
    case False
    then have "s' = s1 \<and> r = r1" using Cons.prems(2) 1 by (auto split: outcome.splits bool.splits)
    then show ?thesis using False c by (auto simp: db split: outcome.split bool.split)
  qed
qed simp

lemma facts_transaction_end_refines:
  assumes inv: "facts_inv rt m [] s" and no_replace: "\<forall>a \<in> set (live_actions s). fa_action a \<noteq> FACT_ACTION_REPLACE"
    and res: "facts_transaction_end rt s ptr = (s', r)"
  shows "facts_inv rt m [] s' \<and> (facts_abs s', r) = db_end (facts_abs s) ptr"
proof (cases "facts_transaction s")
  case Nil
  then show ?thesis using res inv by (simp add: facts_transaction_end_def db_end_def)
next
  case t: (Cons t ts)
  show ?thesis
  proof (cases "tr_ptr t = ptr")
    case False
    then show ?thesis using res inv t by (simp add: facts_transaction_end_def db_end_def)
  next
    case ptr: True
    show ?thesis
    proof (cases ts)
      case (Cons u us)
      let ?s = "s\<lparr>facts_transaction := u\<lparr>tr_log := tr_log t @ tr_log u\<rparr> # us\<rparr>"
      have "facts_inv rt m [] ?s"
        using inv by (rule facts_inv_cong) (simp_all add: live_actions_def t Cons)
      then show ?thesis
        using res t ptr Cons by (auto simp: facts_transaction_end_def db_end_def facts_abs_def)
    next
      case Nil
      let ?s0 = "s\<lparr>facts_transaction := []\<rparr>"
      obtain s1 r1 where c: "commit_actions ?s0 (rev (tr_log t)) = (s1, r1)" by (metis surj_pair)
      note pend = pop_pending [OF inv t [unfolded Nil] refl]
      have "facts_inv rt m (map fa_fact (rev (tr_log t))) ?s0"
        using pend(1) pending_perm [of "map fa_fact (rev (tr_log t))" "map fa_fact (tr_log t)"] by simp
      note cr = commit_actions_refines [OF this c]
      have abs0: "facts_abs ?s0 = (facts_abs s)\<lparr>db_transaction := []\<rparr>" by (simp add: facts_abs_def)
      have db: "db_commit_actions ((facts_abs s)\<lparr>db_transaction := []\<rparr>) (rev (tr_log t)) = (facts_abs s1, r1)"
        using cr abs0 by simp
      have commit_ok: "\<exists>b. snd (commit_action s2 a) = Ok b" if "fa_action a \<noteq> FACT_ACTION_REPLACE" for s2 a
        using that by (auto simp: commit_action_def Let_def split: action_type.split option.split prod.split)
      have "\<exists>b. snd (commit_actions s2 as) = Ok b" if "\<forall>a \<in> set as. fa_action a \<noteq> FACT_ACTION_REPLACE" for s2 "as"
        using that
      proof (induction "as" arbitrary: s2)
        case (Cons a as')
        obtain s3 b where "commit_action s2 a = (s3, Ok b)"
          using commit_ok [of a s2] Cons.prems by (metis list.set_intros(1) prod.collapse)
        then show ?case using Cons by (cases b) auto
      qed (auto intro: exI [of _ True])
      moreover have "\<forall>a \<in> set (rev (tr_log t)). fa_action a \<noteq> FACT_ACTION_REPLACE"
        using no_replace t by (simp add: live_actions_def)
      ultimately obtain b where b: "r1 = Ok b" using c by (metis snd_conv)
      have "facts_inv rt m (map fa_fact (rev (tr_log t)) @ []) s1"
        "\<forall>a \<in> set (rev (tr_log t)). fact_ok rt m (fa_fact a)" using cr pend(2) by simp_all
      from delete_all_inv [OF this] obtain us where
        us: "fact_action_delete_all rt s1 (rev (tr_log t)) = s1\<lparr>facts_tags := us\<rparr>"
          "facts_inv rt m [] (s1\<lparr>facts_tags := us\<rparr>)" by blast
      have us': "facts_abs (fact_action_delete_all rt s1 (rev (tr_log t))) = facts_abs s1"
        "facts_inv rt m [] (fact_action_delete_all rt s1 (rev (tr_log t)))"
        using us by simp_all
      show ?thesis
        using res t ptr Nil c b us' by (auto simp: facts_transaction_end_def db_end_def db)
    qed
  qed
qed

section \<open>Room\<close>

text \<open>
  Room for \<open>n\<close> operations on the abstract database: an operation adds at most one fact and one
  action, and undoing an action adds at most one fact, so an action counts twice.
\<close>

definition db_actions :: "db \<Rightarrow> fact_action list" where
  "db_actions d = concat (map tr_log (db_transaction d))"

definition db_room :: "db \<Rightarrow> nat \<Rightarrow> bool" where
  "db_room d n \<longleftrightarrow> 3 * (card (dom (db_map d)) + 2 * length (db_actions d) + 3 * n) < 2 ^ 64"

lemma card_facts_set:
  assumes "facts_inv rt m ps s" shows "card (facts_set s) = card (dom (facts_map s))"
proof -
  have "inj_on fact_key (facts_set s)"
    using facts_set_iff [OF assms] by (auto simp: inj_on_def fact_eq_iff)
  moreover have "fact_key ` facts_set s = dom (facts_map s)"
  proof
    show "fact_key ` facts_set s \<subseteq> dom (facts_map s)" using facts_set_iff [OF assms] by auto
    show "dom (facts_map s) \<subseteq> fact_key ` facts_set s"
    proof
      fix k assume "k \<in> dom (facts_map s)"
      then obtain i where "facts_map s k = Some i" by auto
      moreover obtain x y z where "k = (x, y, z)" by (cases k)
      ultimately have "Fact x y z i \<in> facts_set s" "k = fact_key (Fact x y z i)"
        using facts_set_iff [OF assms, of "Fact x y z i"] by simp_all
      then show "k \<in> fact_key ` facts_set s" by blast
    qed
  qed
  ultimately show ?thesis by (metis card_image)
qed

lemma finite_facts_map: "facts_inv rt m ps s \<Longrightarrow> finite (dom (facts_map s))"
  unfolding facts_inv_def facts_map_def set_map_def
  by (rule finite_subset [OF _ finite_dom_map_of]) (auto simp: dom_def)

lemma db_room_facts:
  "facts_inv rt m [] s \<Longrightarrow>
    3 * (card (dom (facts_map s)) + length (db_actions (facts_abs s)) + 3) < 2 ^ 64 \<Longrightarrow> facts_room s [] 3"
  by (simp add: facts_room_def card_facts_set db_actions_def live_actions_def)

section \<open>Rolling back\<close>

lemma db_rolling_transaction: "db_rolling_back d \<Longrightarrow> db_transaction d \<noteq> []"
  by (auto simp: db_rolling_back_def)

text \<open>While rolling back, the operations only change the map.\<close>

lemma db_remove_rolling:
  "db_rolling_back d \<Longrightarrow> db_remove d f None =
    (if db_map d (fact_key f) = None then (d, Ok False)
     else (d\<lparr>db_map := (db_map d)(fact_key f := None)\<rparr>, Ok True))"
  by (auto simp: db_remove_def db_blocked_def db_event_def Let_def)

lemma db_add_id_rolling:
  "db_rolling_back d \<Longrightarrow> db_add_id d f =
    (if fact_id f = UW_MAX then (d, Null)
     else case db_map d (fact_key f) of
       Some i \<Rightarrow> (d, Ok (set_fact_id f i))
     | None \<Rightarrow> (d\<lparr>db_next_id := (if fact_id f \<ge> db_next_id d then fact_id f + 1 else db_next_id d),
          db_map := (db_map d)(fact_key f \<mapsto> fact_id f)\<rparr>, Ok f))"
  using db_rolling_transaction [of d]
  by (auto simp: db_add_id_def db_blocked_def db_store_def db_rolling_back_def Let_def split: option.split list.splits)

lemma card_dom_upd: "card (dom (m(k \<mapsto> v))) \<le> Suc (card (dom m))" "finite (dom m) \<Longrightarrow> card (dom (m(k := None))) \<le> card (dom m)"
  by (auto simp: card_insert_le_m1 card_insert_if intro: card_mono)

lemma rollback_actions_refines:
  assumes "facts_inv rt m [] s" "rolling_back s" "\<forall>a \<in> set as. fact_ok rt m (fa_fact a)"
    "3 * (card (dom (facts_map s)) + length (db_actions (facts_abs s)) + length as + 3) < 2 ^ 64"
    "rollback_actions rt s as = (s', r)"
  shows "facts_inv rt m [] s' \<and> (facts_abs s', r) = db_rollback_actions (facts_abs s) as \<and>
    facts_transaction s' = facts_transaction s \<and>
    card (dom (facts_map s')) \<le> card (dom (facts_map s)) + length as"
  using assms
proof (induction "as" arbitrary: s)
  case (Cons a as')
  note inv = Cons.prems(1)
  have ok: "fact_ok rt m (fa_fact a)" using Cons.prems(3) by simp
  have room: "facts_room s [] 3"
    by (rule db_room_facts [OF inv]) (use Cons.prems(4) in simp)
  have roll: "db_rolling_back (facts_abs s)" using Cons.prems(2) by simp
  have step: "facts_inv rt m [] s1 \<Longrightarrow> db_transaction (facts_abs s1) = db_transaction (facts_abs s) \<Longrightarrow>
      card (dom (facts_map s1)) \<le> Suc (card (dom (facts_map s))) \<Longrightarrow> rollback_actions rt s1 as' = (s', r) \<Longrightarrow>
      facts_inv rt m [] s' \<and> (facts_abs s', r) = db_rollback_actions (facts_abs s1) as' \<and>
      facts_transaction s' = facts_transaction s \<and>
      card (dom (facts_map s')) \<le> card (dom (facts_map s)) + length (a # as')" for s1
    using Cons.IH [of s1] Cons.prems(2-4) by (auto simp: rolling_back_def db_actions_def)
  show ?case
  proof (cases "fa_action a")
    case FACT_ACTION_ADD
    obtain s1 r1 where 1: "facts_remove_fact_local rt s (fa_fact a) = (s1, r1)" by (metis surj_pair)
    have c: "facts_inv rt m [] s1" "(facts_abs s1, r1) = db_remove (facts_abs s) (fa_fact a) None"
      using facts_remove_fact_internal_refines [OF inv ok room 1 [unfolded facts_remove_fact_local_def]] by auto
    note d = c(2) [unfolded db_remove_rolling [OF roll] facts_abs_simps]
    have rest: "db_transaction (facts_abs s1) = db_transaction (facts_abs s)"
      "facts_map s1 = facts_map s \<or> facts_map s1 = (facts_map s)(fact_key (fa_fact a) := None)"
      using d by (auto split: if_splits simp del: facts_abs_simps) (auto simp: facts_abs_def split: if_splits)
    have card: "card (dom (facts_map s1)) \<le> card (dom (facts_map s))"
      using rest(2) card_dom_upd(2) [OF finite_facts_map [OF inv], of "fact_key (fa_fact a)"] by auto
    show ?thesis
    proof (cases "r1 = Ok True")
      case True
      then show ?thesis
        using step [OF c(1) rest(1)] card 1 Cons.prems(5) FACT_ACTION_ADD c(2) by (auto split: prod.splits)
    next
      case False
      then have "r1 = Ok False" using d by (auto split: if_splits)
      then show ?thesis
        using Cons.prems(5) 1 FACT_ACTION_ADD c rest card by (auto simp flip: c(2) split: prod.splits)
    qed
  next
    case FACT_ACTION_REMOVE
    obtain s1 r1 where 1: "facts_add_fact_id rt s (fa_fact a) = (s1, r1)" by (metis surj_pair)
    note c = facts_add_fact_id_refines [OF inv ok room 1]
    note d = c [THEN conjunct2, unfolded db_add_id_rolling [OF roll] facts_abs_simps]
    have rest: "db_transaction (facts_abs s1) = db_transaction (facts_abs s)"
      "facts_map s1 = facts_map s \<or> facts_map s1 = (facts_map s)(fact_key (fa_fact a) \<mapsto> fact_id (fa_fact a))"
      using d by (auto split: if_splits option.splits simp del: facts_abs_simps)
        (auto simp: facts_abs_def split: if_splits option.splits)
    have card: "card (dom (facts_map s1)) \<le> Suc (card (dom (facts_map s)))"
      using rest(2) card_dom_upd(1) [of "facts_map s" "fact_key (fa_fact a)"] by auto
    show ?thesis
    proof (cases "\<exists>f. r1 = Ok f")
      case True
      then obtain f where r1: "r1 = Ok f" by blast
      then show ?thesis
        using step [OF c [THEN conjunct1] rest(1) card] 1 Cons.prems(5) FACT_ACTION_REMOVE
        by (simp flip: c [THEN conjunct2, unfolded r1])
    next
      case False
      then have r1: "r1 = Null" using d by (auto split: if_splits option.splits)
      then show ?thesis
        using Cons.prems(5) 1 FACT_ACTION_REMOVE c rest card
        by (simp flip: c [THEN conjunct2, unfolded r1])
    qed
  next
    case FACT_ACTION_REPLACE
    then show ?thesis using Cons.prems inv by auto
  qed
qed simp

lemma rollback_loop_refines:
  assumes "facts_inv rt m [] s" "facts_transaction s = ts" "db_room (facts_abs s) 1"
    "rollback_loop rt s ptr ts = (s', r)"
  shows "facts_inv rt m [] s' \<and> (facts_abs s', r) = db_rollback_loop (facts_abs s) ptr ts"
  using assms
proof (induction ts arbitrary: s)
  case (Cons t ts)
  let ?s = "s\<lparr>facts_transaction := t\<lparr>tr_rolling_back := True\<rparr> # ts\<rparr>"
  have la: "live_actions ?s = live_actions s" using Cons.prems(2) by (simp add: live_actions_def)
  have inv: "facts_inv rt m [] ?s"
    using Cons.prems(1) by (rule facts_inv_cong) (simp_all add: la)
  have roll: "rolling_back ?s" by (simp add: rolling_back_def)
  have ok: "\<forall>a \<in> set (tr_log t). fact_ok rt m (fa_fact a)"
    using pop_pending(2) [OF Cons.prems(1,2) refl] .
  have abs: "facts_abs ?s = (facts_abs s)\<lparr>db_transaction := t\<lparr>tr_rolling_back := True\<rparr> # ts\<rparr>"
    by (simp add: facts_abs_def)
  have room: "3 * (card (dom (facts_map s)) + 2 * (length (tr_log t) + length (concat (map tr_log ts))) + 3) < 2 ^ 64"
    using Cons.prems(2,3) by (simp add: db_room_def db_actions_def)
  have room': "3 * (card (dom (facts_map ?s)) + length (db_actions (facts_abs ?s)) + length (tr_log t) + 3) < 2 ^ 64"
    using room by (simp add: db_actions_def abs)
  obtain s1 r1 where 1: "rollback_actions rt ?s (tr_log t) = (s1, r1)" by (metis surj_pair)
  note ref = rollback_actions_refines [OF inv roll ok room' 1]
  have db: "db_rollback_actions ((facts_abs s)\<lparr>db_transaction := t\<lparr>tr_rolling_back := True\<rparr> # ts\<rparr>) (tr_log t) =
      (facts_abs s1, r1)" using ref unfolding abs by simp
  show ?case
  proof (cases "r1 = Ok ()")
    case True
    have "facts_transaction s1 = t\<lparr>tr_rolling_back := True\<rparr> # ts" using ref by simp
    from pop_transaction [OF ref [THEN conjunct1] this] obtain s2 where
      s2: "(fact_action_delete_all rt s1 (tr_log t))\<lparr>facts_transaction := ts\<rparr> = s2" "facts_inv rt m [] s2"
        "facts_abs s2 = (facts_abs s1)\<lparr>db_transaction := ts\<rparr>" by auto
    show ?thesis
    proof (cases "tr_ptr t = ptr")
      case ptr: True
      then show ?thesis using Cons.prems(4) 1 True s2 by (auto simp: db)
    next
      case False
      have t2: "facts_transaction s2 = ts" "facts_map s2 = facts_map s1"
        using s2(3) facts_abs_simps(1,7) [of s2] by simp_all
      have "card (dom (facts_map s1)) \<le> card (dom (facts_map s)) + length (tr_log t)"
        using ref by simp
      then have "db_room (facts_abs s2) 1"
        using room t2 by (simp add: db_room_def db_actions_def)
      moreover have "rollback_loop rt s2 ptr ts = (s', r)" using Cons.prems(4) 1 True s2(1) False by simp
      ultimately show ?thesis
        using Cons.IH [OF s2(2) t2(1)] False True s2(3) by (simp add: db)
    qed
  next
    case False
    then have "s' = s1 \<and> r = r1" using Cons.prems(4) 1 by (cases r1) auto
    then show ?thesis using ref [THEN conjunct1] False by (cases r1) (simp_all add: db)
  qed
qed simp

lemma facts_transaction_rollback_refines:
  assumes "facts_inv rt m [] s" "db_room (facts_abs s) 1" "facts_transaction_rollback rt s ptr = (s', r)"
  shows "facts_inv rt m [] s' \<and> (facts_abs s', r) = db_rollback (facts_abs s) ptr"
  using assms rollback_loop_refines [OF assms(1) refl assms(2)]
  by (auto simp: facts_transaction_rollback_def facts_transaction_find_def db_rollback_def split: if_splits)

end
