(* ===== verification/Facts_Cursor.thy ===== *)
theory Facts_Cursor
  imports Facts_Transaction
begin

text \<open>
  Cursors over the indexes of the database and the queries for facts by subject, predicate and
  object (facts\_cursor.c, facts\_with.c), with the variables of the language that stand for unknown
  parts (var.c).

  The variables are a store of their values and their types; a cursor binds its variables
  to the parts of each fact it returns.  The bounds of a query are facts over \<open>tag_bound\<close>, which adds
  the two addresses \<open>TAG_FIRST\<close> and \<open>TAG_LAST\<close> to the tags.  The cursor's mutex is left out.
\<close>

section \<open>Variables\<close>

record vars =
  var_value :: "uw \<Rightarrow> tag option"
  var_type :: "uw \<Rightarrow> string"

definition var_reset :: "vars \<Rightarrow> uw \<Rightarrow> vars" where
  "var_reset vs i = vs\<lparr>var_value := (var_value vs)(i := None)\<rparr>"

text \<open>The names of the global symbols \<open>g_sym_...\<close> that \<open>tag_type\<close> returns.\<close>

fun tag_type_sym :: "tag \<Rightarrow> string" where
  "tag_type_sym TVoid = ''Void''"
| "tag_type_sym (TBool _) = ''Bool''"
| "tag_type_sym (TCharacter _) = ''Character''"
| "tag_type_sym (TDoBlock _ _) = ''Block''"
| "tag_type_sym (TFact _) = ''Fact''"
| "tag_type_sym (TIdent _) = ''Ident''"
| "tag_type_sym (TInteger _) = ''Integer''"
| "tag_type_sym (TMap _) = ''Map''"
| "tag_type_sym (TPcall _ _) = ''Call''"
| "tag_type_sym (TPlist _ _) = ''List''"
| "tag_type_sym (TPsym _) = ''Sym''"
| "tag_type_sym (TPtr _) = ''Ptr''"
| "tag_type_sym (TPtrFree _) = ''PtrFree''"
| "tag_type_sym (TPtuple _) = ''Tuple''"
| "tag_type_sym (TPvar _) = ''Var''"
| "tag_type_sym (TQuote _) = ''Quote''"
| "tag_type_sym (TRatio _ _) = ''Ratio''"
| "tag_type_sym (TS8 _) = ''S8''"
| "tag_type_sym (TS16 _) = ''S16''"
| "tag_type_sym (TS32 _) = ''S32''"
| "tag_type_sym (TS64 _) = ''S64''"
| "tag_type_sym (TStr _) = ''Str''"
| "tag_type_sym (TSW _) = ''Sw''"
| "tag_type_sym (TTime _ _ _) = ''Time''"
| "tag_type_sym (TU8 _) = ''U8''"
| "tag_type_sym (TU16 _) = ''U16''"
| "tag_type_sym (TU32 _) = ''U32''"
| "tag_type_sym (TU64 _) = ''U64''"
| "tag_type_sym (TUnquote _) = ''Unquote''"
| "tag_type_sym (TUW _) = ''Uw''"

definition var_set :: "vars \<Rightarrow> uw \<Rightarrow> tag \<Rightarrow> vars option" where
  "var_set vs i t =
    (if var_value vs i \<noteq> None then None
     else if var_type vs i \<noteq> ''Tag'' \<and> var_type vs i \<noteq> tag_type_sym t then None
     else Some (vs\<lparr>var_value := (var_value vs)(i \<mapsto> t)\<rparr>))"

definition tag_is_unbound_var :: "vars \<Rightarrow> tag \<Rightarrow> bool" where
  "tag_is_unbound_var vs t = (case t of TPvar i \<Rightarrow> var_value vs i = None | _ \<Rightarrow> False)"

text \<open>
  The loops \<open>while (t->type == TAG_PVAR && t->data.td_pvar->bound) t = &t->data.td_pvar->tag\<close>,
  which run forever on a cycle of variables.
\<close>

partial_function (option) tag_resolve :: "vars \<Rightarrow> tag \<Rightarrow> tag option" where
  "tag_resolve vs t = (case t of
      TPvar i \<Rightarrow> (case var_value vs i of None \<Rightarrow> Some t | Some u \<Rightarrow> tag_resolve vs u)
    | _ \<Rightarrow> Some t)"

section \<open>Bounds\<close>

datatype tag_bound = Tag_first | Tag_at tag | Tag_last

definition compare_bound :: "mplib \<Rightarrow> tag_bound \<Rightarrow> tag_bound \<Rightarrow> int" where
  "compare_bound mp a b = (case (a, b) of
      (Tag_first, Tag_first) \<Rightarrow> 0
    | (Tag_last, Tag_last) \<Rightarrow> 0
    | (Tag_first, _) \<Rightarrow> -1
    | (_, Tag_last) \<Rightarrow> -1
    | (Tag_last, _) \<Rightarrow> 1
    | (_, Tag_first) \<Rightarrow> 1
    | (Tag_at a, Tag_at b) \<Rightarrow> compare_tag mp a b)"

definition bound_resolve :: "vars \<Rightarrow> tag_bound \<Rightarrow> tag_bound option" where
  "bound_resolve vs b = (case b of Tag_at t \<Rightarrow> map_option Tag_at (tag_resolve vs t) | _ \<Rightarrow> Some b)"

definition fact_resolve :: "vars \<Rightarrow> tag_bound fact \<Rightarrow> tag_bound fact option" where
  "fact_resolve vs f =
    (case (bound_resolve vs (fact_subject f), bound_resolve vs (fact_predicate f), bound_resolve vs (fact_object f)) of
       (Some x, Some y, Some z) \<Rightarrow> Some (Fact x y z (fact_id f))
     | _ \<Rightarrow> None)"

text \<open>The comparison of a bound with a stored fact.\<close>

definition bound_compare :: "rt \<Rightarrow> facts_index \<Rightarrow> tag_bound fact \<Rightarrow> tag fact \<Rightarrow> int" where
  "bound_compare rt ix k f = index_compare ix (compare_bound (rt_mp rt)) k (map_fact Tag_at f)"

section \<open>Cursors\<close>

definition index_list :: "facts \<Rightarrow> facts_index \<Rightarrow> tag fact skiplist" where
  "index_list s ix = (case ix of Index_id \<Rightarrow> facts_index s | Index_spo \<Rightarrow> facts_index_spo s
    | Index_pos \<Rightarrow> facts_index_pos s | Index_osp \<Rightarrow> facts_index_osp s)"

record facts_cursor =
  cur_index :: facts_index
  cur_node :: "nat option"
  cur_start :: "tag_bound fact"
  cur_end :: "tag_bound fact"
  cur_subject :: "uw option"
  cur_predicate :: "uw option"
  cur_object :: "uw option"

definition first_fact :: "tag_bound fact" where
  "first_fact = Fact Tag_first Tag_first Tag_first 0"

definition last_fact :: "tag_bound fact" where
  "last_fact = Fact Tag_last Tag_last Tag_last (- 1)"

text \<open>
  The search for the node before \<open>start\<close>; NULL compares as equal with the value of the head
  and before every fact, so its predecessor is the head.
\<close>

definition start_node :: "rt \<Rightarrow> facts \<Rightarrow> facts_index \<Rightarrow> tag_bound fact option \<Rightarrow> nat option option" where
  "start_node rt s ix start = (case start of
      None \<Rightarrow> Some (Some (sl_head (index_list s ix)))
    | Some k \<Rightarrow> map_option (\<lambda>pred. pred 0) (skiplist_pred (bound_compare rt ix) (index_list s ix) k))"

definition facts_cursor_init ::
  "rt \<Rightarrow> facts \<Rightarrow> vars \<Rightarrow> facts_index \<Rightarrow> tag_bound fact option \<Rightarrow> tag_bound fact option \<Rightarrow> facts_cursor outcome" where
  "facts_cursor_init rt s vs ix start stop =
    (case start_node rt s ix start of
       None \<Rightarrow> Undef
     | Some node \<Rightarrow>
       (case (case start of None \<Rightarrow> Some first_fact | Some k \<Rightarrow> fact_resolve vs k,
              case stop of None \<Rightarrow> Some last_fact | Some k \<Rightarrow> fact_resolve vs k) of
          (Some a, Some b) \<Rightarrow> Ok \<lparr>cur_index = ix, cur_node = node, cur_start = a, cur_end = b,
            cur_subject = None, cur_predicate = None, cur_object = None\<rparr>
        | _ \<Rightarrow> Undef))"

definition reset_var :: "uw option \<Rightarrow> vars \<Rightarrow> vars" where
  "reset_var v vs = (case v of None \<Rightarrow> vs | Some i \<Rightarrow> var_reset vs i)"

definition reset_vars :: "facts_cursor \<Rightarrow> vars \<Rightarrow> vars" where
  "reset_vars c vs = reset_var (cur_object c) (reset_var (cur_predicate c) (reset_var (cur_subject c) vs))"

definition facts_cursor_clean :: "vars \<Rightarrow> facts_cursor \<Rightarrow> vars \<times> facts_cursor" where
  "facts_cursor_clean vs c = (reset_vars c vs, c\<lparr>cur_subject := None, cur_predicate := None, cur_object := None\<rparr>)"

text \<open>One of the three blocks that bind a variable: it goes on, to \<open>next\<close>, or to \<open>ko\<close>.\<close>

datatype bind_result = Bind_ok vars | Bind_next vars | Bind_ko vars

definition bind_var :: "vars \<Rightarrow> uw option \<Rightarrow> tag \<Rightarrow> bind_result" where
  "bind_var vs v t = (case v of
      None \<Rightarrow> Bind_ok vs
    | Some i \<Rightarrow>
        let vs = var_reset vs i in
        if var_type vs i \<noteq> ''Tag'' \<and> var_type vs i \<noteq> tag_type_sym t then Bind_next vs
        else (case var_set vs i t of None \<Rightarrow> Bind_ko vs | Some vs \<Rightarrow> Bind_ok vs))"

definition bind_fact :: "vars \<Rightarrow> facts_cursor \<Rightarrow> tag fact \<Rightarrow> bind_result" where
  "bind_fact vs c f = (case bind_var vs (cur_subject c) (fact_subject f) of
      Bind_ok vs \<Rightarrow> (case bind_var vs (cur_predicate c) (fact_predicate f) of
          Bind_ok vs \<Rightarrow> bind_var vs (cur_object c) (fact_object f)
        | r \<Rightarrow> r)
    | r \<Rightarrow> r)"

text \<open>The node \<open>facts_cursor_next\<close> moves to.\<close>

definition cursor_advance :: "rt \<Rightarrow> facts \<Rightarrow> facts_cursor \<Rightarrow> nat option" where
  "cursor_advance rt s c = (let sl = index_list s (cur_index c) in
    case cur_node c of
      None \<Rightarrow> None
    | Some p \<Rightarrow> (case node_next sl 0 p of
          None \<Rightarrow> None
        | Some q \<Rightarrow>
            if sl_compare (bound_compare rt (cur_index c)) (cur_end c) (node_fact (sl_node sl q)) < 0
            then None else Some q))"

partial_function (option) facts_cursor_next ::
  "rt \<Rightarrow> facts \<Rightarrow> vars \<Rightarrow> facts_cursor \<Rightarrow> (vars \<times> facts_cursor \<times> tag fact option outcome) option" where
  "facts_cursor_next rt s vs c = (case cursor_advance rt s c of
      None \<Rightarrow>
        let (vs, c) = facts_cursor_clean vs (c\<lparr>cur_node := None\<rparr>)
        in Some (vs, c, Ok None)
    | Some q \<Rightarrow>
        let c = c\<lparr>cur_node := Some q\<rparr>; f = sl_fact (index_list s (cur_index c)) q in
        (case bind_fact vs c f of
           Bind_ok vs \<Rightarrow> Some (vs, c, Ok (Some f))
         | Bind_next vs \<Rightarrow> facts_cursor_next rt s vs c
         | Bind_ko vs \<Rightarrow> Some (reset_vars c vs, c, Null)))"

section \<open>Queries\<close>

definition cursor_set_vars :: "uw option \<Rightarrow> uw option \<Rightarrow> uw option \<Rightarrow> facts_cursor \<Rightarrow> facts_cursor" where
  "cursor_set_vars x y z c = c\<lparr>cur_subject := x, cur_predicate := y, cur_object := z\<rparr>"

definition facts_with_0 :: "rt \<Rightarrow> facts \<Rightarrow> vars \<Rightarrow> uw \<Rightarrow> uw \<Rightarrow> uw \<Rightarrow> facts_cursor outcome" where
  "facts_with_0 rt s vs x y z =
    map_outcome (cursor_set_vars (Some x) (Some y) (Some z)) (facts_cursor_init rt s vs Index_spo None None)"

definition facts_with_0_id :: "rt \<Rightarrow> facts \<Rightarrow> vars \<Rightarrow> uw \<Rightarrow> uw \<Rightarrow> uw \<Rightarrow> facts_cursor outcome" where
  "facts_with_0_id rt s vs x y z =
    map_outcome (cursor_set_vars (Some x) (Some y) (Some z)) (facts_cursor_init rt s vs Index_id None None)"

text \<open>
  The identifiers of \<open>start\<close> and \<open>end\<close> are not set by the C function and not read by the three
  orders it uses; 0 stands for them.
\<close>

definition facts_with_1_2 ::
  "rt \<Rightarrow> facts \<Rightarrow> vars \<Rightarrow> tag \<Rightarrow> tag \<Rightarrow> tag \<Rightarrow> uw option \<Rightarrow> uw option \<Rightarrow> uw option \<Rightarrow> facts_cursor outcome" where
  "facts_with_1_2 rt s vs subject predicate object x y z =
    (let bound = (\<lambda>b v t. if v \<noteq> None then b else Tag_at t) in
     case (fact_resolve vs (Fact (bound Tag_first x subject) (bound Tag_first y predicate) (bound Tag_first z object) 0),
           fact_resolve vs (Fact (bound Tag_last x subject) (bound Tag_last y predicate) (bound Tag_last z object) 0)) of
       (Some a, Some b) \<Rightarrow>
         let tree = (if x = None \<and> z \<noteq> None then Index_spo else if y = None then Index_pos else Index_osp)
         in map_outcome (cursor_set_vars x y z) (facts_cursor_init rt s vs tree (Some a) (Some b))
     | _ \<Rightarrow> Undef)"

definition facts_with_3 :: "rt \<Rightarrow> facts \<Rightarrow> vars \<Rightarrow> tag \<Rightarrow> tag \<Rightarrow> tag \<Rightarrow> facts_cursor outcome" where
  "facts_with_3 rt s vs subject predicate object =
    (let f = Fact (Tag_at subject) (Tag_at predicate) (Tag_at object) 0
     in facts_cursor_init rt s vs Index_spo (Some f) (Some f))"

definition unbound_var :: "vars \<Rightarrow> tag \<Rightarrow> uw option" where
  "unbound_var vs t = (case t of TPvar i \<Rightarrow> if tag_is_unbound_var vs t then Some i else None | _ \<Rightarrow> None)"

definition facts_with_tags :: "rt \<Rightarrow> facts \<Rightarrow> vars \<Rightarrow> tag \<Rightarrow> tag \<Rightarrow> tag \<Rightarrow> facts_cursor outcome" where
  "facts_with_tags rt s vs subject predicate object =
    (case (unbound_var vs subject, unbound_var vs predicate, unbound_var vs object) of
       (Some x, Some y, Some z) \<Rightarrow> facts_with_0 rt s vs x y z
     | (None, None, None) \<Rightarrow> facts_with_3 rt s vs subject predicate object
     | (x, y, z) \<Rightarrow> facts_with_1_2 rt s vs subject predicate object x y z)"

text \<open>
  The loops of \<open>facts_remove_fact_tags\<close> and \<open>facts_replace_tags\<close> that read a cursor to its end and put
  each fact in front of a list.
\<close>

partial_function (option) collect_facts ::
  "rt \<Rightarrow> facts \<Rightarrow> vars \<Rightarrow> facts_cursor \<Rightarrow> tag fact list \<Rightarrow> (vars \<times> tag fact list outcome) option" where
  "collect_facts rt s vs c fs = (case facts_cursor_next rt s vs c of
      None \<Rightarrow> None
    | Some (vs, c, r) \<Rightarrow> (case r of
          Ok None \<Rightarrow> Some (vs, Ok fs)
        | Ok (Some f) \<Rightarrow> collect_facts rt s vs c (f # fs)
        | Null \<Rightarrow> Some (fst (facts_cursor_clean vs c), Null)
        | Abort \<Rightarrow> Some (vs, Abort)
        | Undef \<Rightarrow> Some (vs, Undef)))"

section \<open>The order of bounds\<close>

fun bound_rank :: "tag_bound \<Rightarrow> int" where
  "bound_rank Tag_first = 0"
| "bound_rank (Tag_at _) = 1"
| "bound_rank Tag_last = 2"

fun bound_ok :: "rt \<Rightarrow> bool \<Rightarrow> tag_bound \<Rightarrow> bool" where
  "bound_ok rt m (Tag_at t) = tag_ok rt m t"
| "bound_ok rt m _ = True"

definition bound_inner :: "mplib \<Rightarrow> tag_bound \<Rightarrow> tag_bound \<Rightarrow> int" where
  "bound_inner mp a b = (case (a, b) of (Tag_at s, Tag_at t) \<Rightarrow> compare_tag mp s t | _ \<Rightarrow> 0)"

lemma compare_bound_lexi:
  "compare_bound mp a b = lexi (cmp_int (bound_rank a) (bound_rank b)) (bound_inner mp a b)"
  by (cases a; cases b; simp add: compare_bound_def bound_inner_def cmp_int_def)

lemma compare_bound_simps [simp]:
  "compare_bound mp Tag_first (Tag_at t) = -1" "compare_bound mp Tag_last (Tag_at t) = 1"
  "compare_bound mp (Tag_at u) (Tag_at t) = compare_tag mp u t"
  by (simp_all add: compare_bound_def)

interpretation bounds: comparison "compare_bound (rt_mp rt)" "bound_ok rt m" for rt m
proof
  fix x y z assume ok: "bound_ok rt m x" "bound_ok rt m y"
  have "bound_inner (rt_mp rt) y x = - bound_inner (rt_mp rt) x y"
  proof (cases "\<exists>s t. x = Tag_at s \<and> y = Tag_at t")
    case True
    then obtain s t where st: "x = Tag_at s" "y = Tag_at t" by blast
    then have "cmp_tag rt t s = - cmp_tag rt s t" using ok by (intro tags.anti [where m = m]) simp_all
    then show ?thesis by (simp add: bound_inner_def cmp_tag_def st)
  next
    case False
    then show ?thesis by (cases x; cases y; simp add: bound_inner_def)
  qed
  then show "compare_bound (rt_mp rt) y x = - compare_bound (rt_mp rt) x y"
    using cmp_int_anti [of "bound_rank y" "bound_rank x"] by (simp add: compare_bound_lexi lexi_minus)
  assume z: "bound_ok rt m z"
  show "tri (compare_bound (rt_mp rt) x y) (compare_bound (rt_mp rt) y z) (compare_bound (rt_mp rt) x z)"
  proof (cases "\<exists>s t u. x = Tag_at s \<and> y = Tag_at t \<and> z = Tag_at u")
    case True
    then show ?thesis using ok z tags.cmp_tri [where rt = rt and m = m] unfolding cmp_tag_def by (elim exE conjE) simp
  next
    case False
    then show ?thesis by (cases x; cases y; cases z; auto simp: tri_def compare_bound_def)
  qed
qed

lemma compare_at: "index_compare ix (compare_bound mp) (map_fact Tag_at f) (map_fact Tag_at g) =
    index_compare ix (compare_tag mp) f g"
  by (cases ix; cases f; cases g;
      simp add: index_compare_def compare_fact_id_def compare_fact_spo_def compare_fact_pos_def compare_fact_osp_def)

lemma fact_all_at: "fact_all (bound_ok rt m) (map_fact Tag_at f) = fact_ok rt m f"
  by (cases f) (simp add: fact_all_def)

text \<open>A bound splits a sorted list of facts.\<close>

lemma bound_compare_mono:
  assumes k: "fact_all (bound_ok rt m) k" and f: "fact_ok rt m f" "fact_ok rt m g"
    and less: "index_compare ix (cmp_tag rt) f g < 0"
  shows "0 < bound_compare rt ix k g \<Longrightarrow> 0 < bound_compare rt ix k f"
    "bound_compare rt ix k f < 0 \<Longrightarrow> bound_compare rt ix k g < 0"
proof -
  note c = bounds.index_comparison [where rt = rt and m = m and ix = ix]
  have fg: "fact_all (bound_ok rt m) (map_fact Tag_at f)" "fact_all (bound_ok rt m) (map_fact Tag_at g)"
    using f by (simp_all add: fact_all_at)
  have l: "index_compare ix (compare_bound (rt_mp rt)) (map_fact Tag_at f) (map_fact Tag_at g) < 0"
    using less by (simp add: compare_at cmp_tag_def)
  show "0 < bound_compare rt ix k g \<Longrightarrow> 0 < bound_compare rt ix k f"
    unfolding bound_compare_def
    using comparison.flip(1) [OF c fg(1) k] comparison.flip(1) [OF c fg(2) k]
      comparison.less_trans [OF c fg k l] by blast
  show "bound_compare rt ix k f < 0 \<Longrightarrow> bound_compare rt ix k g < 0"
    unfolding bound_compare_def using comparison.less_trans [OF c k fg] l by blast
qed

section \<open>Walking the lowest level\<close>

definition bind_type :: "vars \<Rightarrow> uw option \<Rightarrow> tag \<Rightarrow> bool" where
  "bind_type vs v t = (case v of None \<Rightarrow> True
    | Some i \<Rightarrow> var_type vs i = ''Tag'' \<or> var_type vs i = tag_type_sym t)"

definition cursor_matches :: "vars \<Rightarrow> facts_cursor \<Rightarrow> tag fact \<Rightarrow> bool" where
  "cursor_matches vs c f \<longleftrightarrow> bind_type vs (cur_subject c) (fact_subject f) \<and>
    bind_type vs (cur_predicate c) (fact_predicate f) \<and> bind_type vs (cur_object c) (fact_object f)"

text \<open>Binding changes the values of the cursor's variables only.\<close>

definition same_but :: "facts_cursor \<Rightarrow> vars \<Rightarrow> vars \<Rightarrow> bool" where
  "same_but c vs ws \<longleftrightarrow> var_type ws = var_type vs \<and> reset_vars c ws = reset_vars c vs"

lemma var_type_reset [simp]: "var_type (var_reset vs i) = var_type vs" "var_type (reset_var v vs) = var_type vs"
  by (simp_all add: var_reset_def reset_var_def split: option.split)

lemma reset_vars_reset:
  "v \<in> {cur_subject c, cur_predicate c, cur_object c} \<Longrightarrow> reset_vars c (reset_var v vs) = reset_vars c vs"
  by (auto simp: reset_vars_def reset_var_def var_reset_def fun_eq_iff split: option.split)

lemma reset_vars_set:
  assumes "Some i \<in> {cur_subject c, cur_predicate c, cur_object c}"
  shows "reset_vars c (vs\<lparr>var_value := (var_value vs)(i := t)\<rparr>) = reset_vars c vs"
  using assms
  by (auto simp: reset_vars_def reset_var_def var_reset_def fun_eq_iff split: option.split)

lemma bind_var_cases:
  assumes "v \<in> {cur_subject c, cur_predicate c, cur_object c}" "same_but c vs ws"
  shows "if bind_type vs v t then (\<exists>us. bind_var ws v t = Bind_ok us \<and> same_but c vs us)
    else (\<exists>us. bind_var ws v t = Bind_next us \<and> same_but c vs us)"
proof (cases v)
  case None
  then show ?thesis using assms by (simp add: bind_var_def bind_type_def)
next
  case (Some i)
  have "same_but c vs (var_reset ws i)" "same_but c vs ((var_reset ws i)\<lparr>var_value := (var_value (var_reset ws i))(i \<mapsto> t)\<rparr>)"
    using assms reset_vars_reset [of v c ws] reset_vars_set [of i c ws "Some t"] unfolding Some
    by (auto simp: same_but_def reset_var_def var_reset_def)
  then show ?thesis using Some assms(2)
    by (auto simp: bind_var_def bind_type_def var_set_def Let_def same_but_def) (auto simp: var_reset_def)
qed

lemma bind_fact_cases:
  assumes "same_but c vs ws"
  shows "if cursor_matches vs c f then (\<exists>us. bind_fact ws c f = Bind_ok us \<and> same_but c vs us)
    else (\<exists>us. bind_fact ws c f = Bind_next us \<and> same_but c vs us)"
proof -
  note s = bind_var_cases [OF _ assms, of "cur_subject c" "fact_subject f"]
  show ?thesis
  proof (cases "bind_type vs (cur_subject c) (fact_subject f)")
    case False
    then show ?thesis using s by (auto simp: bind_fact_def cursor_matches_def)
  next
    case True
    then obtain us where us: "bind_var ws (cur_subject c) (fact_subject f) = Bind_ok us" "same_but c vs us"
      using s by auto
    note p = bind_var_cases [OF _ us(2), of "cur_predicate c" "fact_predicate f"]
    show ?thesis
    proof (cases "bind_type vs (cur_predicate c) (fact_predicate f)")
      case False
      then show ?thesis using p us by (auto simp: bind_fact_def cursor_matches_def)
    next
      case tp: True
      then obtain us' where us': "bind_var us (cur_predicate c) (fact_predicate f) = Bind_ok us'" "same_but c vs us'"
        using p by auto
      show ?thesis
        using bind_var_cases [OF _ us'(2), of "cur_object c" "fact_object f"] us us' True tp
        by (auto simp: bind_fact_def cursor_matches_def)
    qed
  qed
qed

lemma same_but_node [simp]: "same_but (c\<lparr>cur_node := n\<rparr>) = same_but c" "cursor_matches vs (c\<lparr>cur_node := n\<rparr>) = cursor_matches vs c"
  "reset_vars (c\<lparr>cur_node := n\<rparr>) = reset_vars c" "bind_fact vs (c\<lparr>cur_node := n\<rparr>) f = bind_fact vs c f"
  by (simp_all add: same_but_def cursor_matches_def reset_vars_def bind_fact_def fun_eq_iff split: bind_result.split)

text \<open>
  Collecting from a node gives, of the facts after it, those up to the first one past the end whose
  types match, and leaves the variables reset.
\<close>

lemma collect_from:
  assumes "chain (node_next (index_list s (cur_index c)) 0) (node_next (index_list s (cur_index c)) 0 p) xs"
    "\<forall>q \<in> set xs. node_fact (sl_node (index_list s (cur_index c)) q) \<noteq> None" "cur_node c = Some p" "same_but c vs ws"
  shows "collect_facts rt s ws c fs = Some (reset_vars c vs,
    Ok (rev (filter (cursor_matches vs c) (takeWhile (\<lambda>f. \<not> bound_compare rt (cur_index c) (cur_end c) f < 0)
      (map (sl_fact (index_list s (cur_index c))) xs))) @ fs))"
  using assms
proof (induction xs arbitrary: p c ws fs)
  case Nil
  have "cursor_advance rt s c = None" using Nil by (simp add: cursor_advance_def Let_def)
  then have "facts_cursor_next rt s ws c = Some (reset_vars c ws, snd (facts_cursor_clean ws (c\<lparr>cur_node := None\<rparr>)), Ok None)"
    by (subst facts_cursor_next.simps) (simp add: facts_cursor_clean_def)
  then show ?case using Nil(4) by (subst collect_facts.simps) (simp add: same_but_def)
next
  case (Cons q xs)
  let ?sl = "index_list s (cur_index c)"
  let ?stop = "\<lambda>f. bound_compare rt (cur_index c) (cur_end c) f < 0"
  have nx: "node_next ?sl 0 p = Some q" and ch: "chain (node_next ?sl 0) (node_next ?sl 0 q) xs"
    using Cons.prems(1) by (cases "node_next ?sl 0 p"; simp)+
  obtain f where f: "node_fact (sl_node ?sl q) = Some f" "sl_fact ?sl q = f"
    using Cons.prems(2) by (auto simp: sl_fact_def)
  have adv: "cursor_advance rt s c = (if ?stop f then None else Some q)"
    using nx f Cons.prems(3) by (simp add: cursor_advance_def Let_def sl_compare_def)
  show ?case
  proof (cases "?stop f")
    case True
    then have "facts_cursor_next rt s ws c = Some (reset_vars c ws, snd (facts_cursor_clean ws (c\<lparr>cur_node := None\<rparr>)), Ok None)"
      using adv by (subst facts_cursor_next.simps) (simp add: facts_cursor_clean_def)
    then show ?thesis using True f Cons.prems(4) by (subst collect_facts.simps) (simp add: same_but_def)
  next
    case False
    let ?c = "c\<lparr>cur_node := Some q\<rparr>"
    have IH: "same_but c vs us \<Longrightarrow> collect_facts rt s us ?c gs = Some (reset_vars c vs,
        Ok (rev (filter (cursor_matches vs c) (takeWhile (\<lambda>f. \<not> ?stop f) (map (sl_fact ?sl) xs))) @ gs))" for us gs
      using Cons.IH [of ?c q us gs] ch Cons.prems(2) by simp
    note b = bind_fact_cases [OF Cons.prems(4), of f]
    show ?thesis
    proof (cases "cursor_matches vs c f")
      case True
      then obtain us where us: "bind_fact ws c f = Bind_ok us" "same_but c vs us" using b by auto
      then have "facts_cursor_next rt s ws c = Some (us, ?c, Ok (Some f))"
        using adv False f by (subst facts_cursor_next.simps) simp
      then have "collect_facts rt s ws c fs = collect_facts rt s us ?c (f # fs)"
        by (subst collect_facts.simps) simp
      then show ?thesis using IH [OF us(2), of "f # fs"] False True f by simp
    next
      case nm: False
      then obtain us where us: "bind_fact ws c f = Bind_next us" "same_but c vs us" using b by auto
      then have "facts_cursor_next rt s ws c = facts_cursor_next rt s us ?c"
        using adv False f by (subst facts_cursor_next.simps) simp
      then have "collect_facts rt s ws c fs = collect_facts rt s us ?c fs"
        by (subst (1 2) collect_facts.simps) simp
      then show ?thesis using IH [OF us(2), of fs] False nm f by simp
    qed
  qed
qed

end
