(* ===== verification/Facts_Durable.thy ===== *)
theory Facts_Durable
  imports Facts_Transaction
begin

text \<open>
  What the abstract database keeps across its operations: the actions logged by the open
  transactions undo to the facts of their start (\<open>db_inv\<close>), and the records of the log replay to the
  committed facts (\<open>durable\<close>).  Each abstract operation keeps both.
\<close>

section \<open>Undoing actions\<close>

type_synonym fact_map = "tag \<times> tag \<times> tag \<rightharpoonup> uw"

definition undo1 :: "fact_action \<Rightarrow> fact_map \<Rightarrow> fact_map" where
  "undo1 a M = (case fa_action a of
      FACT_ACTION_ADD \<Rightarrow> M(fact_key (fa_fact a) := None)
    | FACT_ACTION_REMOVE \<Rightarrow> M(fact_key (fa_fact a) \<mapsto> fact_id (fa_fact a))
    | FACT_ACTION_REPLACE \<Rightarrow> M)"

definition undo1_ok :: "fact_action \<Rightarrow> fact_map \<Rightarrow> bool" where
  "undo1_ok a M \<longleftrightarrow> (case fa_action a of
      FACT_ACTION_ADD \<Rightarrow> M (fact_key (fa_fact a)) = Some (fact_id (fa_fact a))
    | FACT_ACTION_REMOVE \<Rightarrow> M (fact_key (fa_fact a)) = None
    | FACT_ACTION_REPLACE \<Rightarrow> False) \<and> fact_id (fa_fact a) \<noteq> UW_MAX \<and> fa_id a \<noteq> UW_MAX"

primrec undo :: "fact_action list \<Rightarrow> fact_map \<Rightarrow> fact_map" where
  "undo [] M = M"
| "undo (a # as) M = undo as (undo1 a M)"

primrec undo_ok :: "fact_action list \<Rightarrow> fact_map \<Rightarrow> bool" where
  "undo_ok [] M = True"
| "undo_ok (a # as) M = (undo1_ok a M \<and> undo_ok as (undo1 a M))"

fun undo_to :: "nat \<Rightarrow> transaction list \<Rightarrow> fact_map \<Rightarrow> fact_map" where
  "undo_to ptr [] M = M"
| "undo_to ptr (t # ts) M =
    (if tr_ptr t = ptr then undo (tr_log t) M else undo_to ptr ts (undo (tr_log t) M))"

fun drop_to :: "nat \<Rightarrow> transaction list \<Rightarrow> transaction list" where
  "drop_to ptr [] = []"
| "drop_to ptr (t # ts) = (if tr_ptr t = ptr then ts else drop_to ptr ts)"

text \<open>The facts at the start of the outermost open transaction.\<close>

definition committed :: "db \<Rightarrow> fact_map" where
  "committed d = undo (db_actions d) (db_map d)"

definition db_inv :: "db \<Rightarrow> bool" where
  "db_inv d \<longleftrightarrow> (\<forall>t \<in> set (db_transaction d). \<not> tr_rolling_back t) \<and>
    undo_ok (db_actions d) (db_map d) \<and> (\<forall>k. db_map d k \<noteq> Some UW_MAX)"

lemma undo_append [simp]: "undo (as @ bs) M = undo bs (undo as M)"
  by (induction "as" arbitrary: M) simp_all

lemma undo_ok_append [simp]: "undo_ok (as @ bs) M \<longleftrightarrow> undo_ok as M \<and> undo_ok bs (undo as M)"
  by (induction "as" arbitrary: M) simp_all

lemma undo_ok_no_max:
  "undo_ok as M \<Longrightarrow> \<forall>k. M k \<noteq> Some UW_MAX \<Longrightarrow> \<forall>k. undo as M k \<noteq> Some UW_MAX"
  by (induction "as" arbitrary: M) (auto simp: undo1_ok_def undo1_def simp del: split_paired_All split: action_type.splits)

lemma db_not_rolling: "db_inv d \<Longrightarrow> \<not> db_rolling_back d"
  by (auto simp: db_inv_def db_rolling_back_def split: list.splits)

text \<open>Undoing the actions of the code is \<open>undo\<close>, and never aborts.\<close>

lemma db_rollback_actions_undo:
  "db_rolling_back d \<Longrightarrow> undo_ok as (db_map d) \<Longrightarrow>
    \<exists>n. db_rollback_actions d as = (d\<lparr>db_map := undo as (db_map d), db_next_id := n\<rparr>, Ok ())"
proof (induction "as" arbitrary: d)
  case Nil
  then show ?case by (intro exI [of _ "db_next_id d"]) simp
next
  case (Cons a as')
  show ?case
  proof (cases "fa_action a")
    case FACT_ACTION_ADD
    let ?d = "d\<lparr>db_map := undo1 a (db_map d)\<rparr>"
    have "db_remove d (fa_fact a) None = (?d, Ok True)"
      using Cons.prems FACT_ACTION_ADD by (simp add: db_remove_rolling undo1_ok_def undo1_def)
    then show ?thesis
      using Cons.IH [of ?d] Cons.prems FACT_ACTION_ADD by (auto simp: db_rolling_back_def)
  next
    case FACT_ACTION_REMOVE
    let ?n = "if fact_id (fa_fact a) \<ge> db_next_id d then fact_id (fa_fact a) + 1 else db_next_id d"
    let ?d = "d\<lparr>db_next_id := ?n, db_map := undo1 a (db_map d)\<rparr>"
    have "db_add_id d (fa_fact a) = (?d, Ok (fa_fact a))"
      using Cons.prems FACT_ACTION_REMOVE by (simp add: db_add_id_rolling undo1_ok_def undo1_def)
    then show ?thesis
      using Cons.IH [of ?d] Cons.prems FACT_ACTION_REMOVE by (auto simp: db_rolling_back_def)
  next
    case FACT_ACTION_REPLACE
    then show ?thesis using Cons.prems by (simp add: undo1_ok_def)
  qed
qed

lemma db_rollback_loop_undo:
  "list_ex (\<lambda>t. tr_ptr t = ptr) ts \<Longrightarrow> undo_ok (concat (map tr_log ts)) (db_map d) \<Longrightarrow>
    \<exists>n. db_rollback_loop d ptr ts =
      (d\<lparr>db_map := undo_to ptr ts (db_map d), db_next_id := n, db_transaction := drop_to ptr ts\<rparr>, Ok ())"
proof (induction ts arbitrary: d)
  case (Cons t ts)
  let ?d = "d\<lparr>db_transaction := t\<lparr>tr_rolling_back := True\<rparr> # ts\<rparr>"
  have "db_rolling_back ?d" "undo_ok (tr_log t) (db_map ?d)"
    using Cons.prems(2) by (simp_all add: db_rolling_back_def)
  from db_rollback_actions_undo [OF this] obtain n where
    n: "db_rollback_actions ?d (tr_log t) = (?d\<lparr>db_map := undo (tr_log t) (db_map d), db_next_id := n\<rparr>, Ok ())"
    by auto
  show ?case
  proof (cases "tr_ptr t = ptr")
    case True
    then show ?thesis by (simp add: n) (rule exI [of _ n], simp)
  next
    case False
    let ?d2 = "?d\<lparr>db_map := undo (tr_log t) (db_map d), db_next_id := n, db_transaction := ts\<rparr>"
    from Cons.IH [of ?d2] Cons.prems False obtain n' where
      "db_rollback_loop ?d2 ptr ts = (?d2\<lparr>db_map := undo_to ptr ts (undo (tr_log t) (db_map d)),
        db_next_id := n', db_transaction := drop_to ptr ts\<rparr>, Ok ())" by auto
    then show ?thesis using False by (simp add: n) (rule exI [of _ n'], simp)
  qed
qed simp

lemma undo_to_rest:
  "list_ex (\<lambda>t. tr_ptr t = ptr) ts \<Longrightarrow>
    undo (concat (map tr_log (drop_to ptr ts))) (undo_to ptr ts M) = undo (concat (map tr_log ts)) M"
  by (induction ts arbitrary: M) auto

lemma undo_to_ok:
  "undo_ok (concat (map tr_log ts)) M \<Longrightarrow>
    undo_ok (concat (map tr_log (drop_to ptr ts))) (undo_to ptr ts M)"
  by (induction ts arbitrary: M) auto

lemma undo_to_no_max:
  "undo_ok (concat (map tr_log ts)) M \<Longrightarrow> \<forall>k. M k \<noteq> Some UW_MAX \<Longrightarrow> undo_to ptr ts M k \<noteq> Some UW_MAX"
  by (induction ts arbitrary: M) (auto simp del: split_paired_All dest: undo_ok_no_max)

lemma set_drop_to: "set (drop_to ptr ts) \<subseteq> set ts"
  by (induction ts) auto

lemma db_rollback_undo:
  assumes inv: "db_inv d" and ptr: "list_ex (\<lambda>t. tr_ptr t = ptr) (db_transaction d)"
  shows "\<exists>n. db_rollback d ptr =
      (d\<lparr>db_map := undo_to ptr (db_transaction d) (db_map d), db_next_id := n,
         db_transaction := drop_to ptr (db_transaction d)\<rparr>, Ok ())"
  using db_rollback_loop_undo [OF ptr] inv ptr by (simp add: db_rollback_def db_inv_def db_actions_def)

lemma db_rollback_inv:
  assumes inv: "db_inv d" and res: "db_rollback d ptr = (d', r)"
  shows "db_inv d' \<and> committed d' = committed d \<and> db_log d' = db_log d"
proof (cases "list_ex (\<lambda>t. tr_ptr t = ptr) (db_transaction d)")
  case True
  from db_rollback_undo [OF inv True] res obtain n where
    d': "d' = d\<lparr>db_map := undo_to ptr (db_transaction d) (db_map d), db_next_id := n,
         db_transaction := drop_to ptr (db_transaction d)\<rparr>" by auto
  have "undo_ok (concat (map tr_log (db_transaction d))) (db_map d)" "\<forall>k. db_map d k \<noteq> Some UW_MAX"
    using inv by (auto simp: db_inv_def db_actions_def)
  then have "db_inv d'"
    using inv undo_to_ok undo_to_no_max set_drop_to [of ptr "db_transaction d"]
    unfolding db_inv_def d' by (auto simp: db_actions_def)
  moreover have "committed d' = committed d"
    using undo_to_rest [OF True] by (simp add: committed_def db_actions_def d')
  ultimately show ?thesis by (simp add: d')
qed (use res inv in \<open>simp add: db_rollback_def\<close>)

section \<open>The log\<close>

text \<open>What reading records does to the map, and the record of an action.\<close>

definition replay1 :: "log_record \<Rightarrow> fact_map \<Rightarrow> fact_map" where
  "replay1 r M = (case r of (eid, action, f) \<Rightarrow> (case action of
      FACT_ACTION_ADD \<Rightarrow> if M (fact_key f) = None then M(fact_key f \<mapsto> fact_id f) else M
    | FACT_ACTION_REMOVE \<Rightarrow> M(fact_key f := None)
    | FACT_ACTION_REPLACE \<Rightarrow> M))"

definition replay :: "log_record list \<Rightarrow> fact_map \<Rightarrow> fact_map" where
  "replay rs M = fold replay1 rs M"

definition action_record :: "fact_action \<Rightarrow> log_record" where
  "action_record a = (fa_id a, fa_action a, fa_fact a)"

lemma replay_append [simp]: "replay (rs @ qs) M = replay qs (replay rs M)"
  by (simp add: replay_def)

lemma replay_simps [simp]: "replay [] M = M" "replay (r # rs) M = replay rs (replay1 r M)"
  by (simp_all add: replay_def)

lemma replay_undo1: "undo1_ok a M \<Longrightarrow> replay1 (action_record a) (undo1 a M) = M"
  by (auto simp: undo1_ok_def undo1_def replay1_def action_record_def fun_upd_idem split: action_type.splits)

lemma replay_undo: "undo_ok as M \<Longrightarrow> replay (map action_record (rev as)) (undo as M) = M"
  by (induction "as" arbitrary: M) (simp_all add: replay_undo1)

lemma log_write_spec:
  assumes "log_write l r = (l', ok)"
  shows "ok \<Longrightarrow> \<not> log_failed l \<and> \<not> log_failed l' \<and> log_records l' = log_records l @ [r]"
    "\<not> ok \<Longrightarrow> log_failed l'" "log_failed l \<Longrightarrow> \<not> ok \<and> l' = l"
  using assms by (auto simp: log_write_def Let_def split: if_splits)

text \<open>
  \<open>durable ok R M d\<close>: unless a write has failed, the records written after \<open>R\<close> lead from the map
  \<open>M\<close> to the committed facts.
\<close>

definition rec_ok :: "(tag fact \<Rightarrow> bool) \<Rightarrow> log_record \<Rightarrow> bool" where
  "rec_ok ok r \<longleftrightarrow> (case r of (i, a, f) \<Rightarrow> ok f \<and> (case a of
      FACT_ACTION_ADD \<Rightarrow> fact_id f \<noteq> UW_MAX
    | FACT_ACTION_REMOVE \<Rightarrow> i \<noteq> UW_MAX
    | FACT_ACTION_REPLACE \<Rightarrow> False))"

definition durable :: "(tag fact \<Rightarrow> bool) \<Rightarrow> log_record list \<Rightarrow> fact_map \<Rightarrow> db \<Rightarrow> bool" where
  "durable ok R M d \<longleftrightarrow> (\<forall>l. db_log d = Some l \<longrightarrow> \<not> log_failed l \<longrightarrow>
    (\<exists>rs. log_records l = R @ rs \<and> replay rs M = committed d \<and>
      (\<forall>r \<in> set rs. rec_ok ok r)))"

lemma durableI:
  "(\<And>l. db_log d = Some l \<Longrightarrow> \<not> log_failed l \<Longrightarrow> db_log d0 = Some l) \<Longrightarrow> committed d = committed d0 \<Longrightarrow>
    durable ok R M d0 \<Longrightarrow> durable ok R M d"
  by (simp add: durable_def)

lemma durable_write:
  assumes dur: "durable ok R M d0" and l: "db_log d0 = Some l" "log_write l r = (l', b)" "db_log d = Some l'"
    and r: "b \<Longrightarrow> committed d = replay1 r (committed d0)"
    and ids: "rec_ok ok r"
  shows "durable ok R M d"
proof (cases b)
  case True
  note w = log_write_spec(1) [OF l(2) True]
  then obtain rs where rs: "log_records l = R @ rs" "replay rs M = committed d0"
      "\<forall>r \<in> set rs. rec_ok ok r"
    using dur l(1) by (auto simp: durable_def)
  then have "log_records l' = R @ (rs @ [r])" "replay (rs @ [r]) M = committed d"
    using w r [OF True] by simp_all
  with rs ids show ?thesis unfolding durable_def l(3) by (intro allI impI exI [of _ "rs @ [r]"]) auto
next
  case False
  then show ?thesis using log_write_spec(2) [OF l(2)] by (auto simp: durable_def l(3))
qed

lemma db_send_simps [simp]:
  "db_map (db_send a f d) = db_map d" "db_log (db_send a f d) = db_log d"
  "db_transaction (db_send a f d) = db_transaction d" "db_actions (db_send a f d) = db_actions d"
  "db_inv (db_send a f d) = db_inv d" "committed (db_send a f d) = committed d"
  "durable ok R M (db_send a f d) = durable ok R M d"
  by (simp_all add: db_send_def db_actions_def db_inv_def committed_def durable_def)

lemma db_push_actions:
  "db_transaction d \<noteq> [] \<Longrightarrow> db_actions (db_push a d) = a # db_actions d"
  "db_map (db_push a d) = db_map d" "db_log (db_push a d) = db_log d"
  by (auto simp: db_push_def db_actions_def split: list.split)

lemma db_push_inv:
  assumes "\<forall>t \<in> set (db_transaction d). \<not> tr_rolling_back t" "db_transaction d \<noteq> []"
    "undo1_ok a (db_map d)" "undo_ok (db_actions d) (undo1 a (db_map d))" "\<forall>k. db_map d k \<noteq> Some UW_MAX"
  shows "db_inv (db_push a d)" "committed (db_push a d) = undo (db_actions d) (undo1 a (db_map d))"
proof -
  have "\<forall>t \<in> set (db_transaction (db_push a d)). \<not> tr_rolling_back t"
    using assms(1) by (auto simp: db_push_def split: list.splits)
  then show "db_inv (db_push a d)"
    using assms by (simp add: db_inv_def db_push_actions del: split_paired_All)
  show "committed (db_push a d) = undo (db_actions d) (undo1 a (db_map d))"
    using assms(2) by (simp add: committed_def db_push_actions)
qed

lemma db_store_inv:
  assumes inv: "db_inv d" and dur: "durable ok R M d" and new: "db_map d (fact_key f) = None"
    and f: "fact_id f \<noteq> UW_MAX" "ok f" and nb: "\<not> db_blocked d" and res: "db_store local d f = (d', r)"
  shows "db_inv d' \<and> durable ok R M d' \<and> r \<in> {Ok f, Null}"
proof (cases "db_transaction d = []")
  case False
  let ?a = "db_action d FACT_ACTION_ADD f (fact_id f) local"
  let ?d1 = "d\<lparr>db_map := (db_map d)(fact_key f \<mapsto> fact_id f)\<rparr>"
  have d': "d' = db_push ?a ?d1" "r = Ok f"
    using res False db_not_rolling [OF inv] by (auto simp: db_store_def Let_def)
  have a: "fa_fact ?a = f" "fa_action ?a = FACT_ACTION_ADD" "fa_id ?a = fact_id f" by (simp_all add: db_action_def)
  have u: "undo1 ?a (db_map ?d1) = db_map d" using new by (simp add: undo1_def a fun_upd_idem)
  have act: "db_actions ?d1 = db_actions d" by (simp add: db_actions_def)
  have h: "\<forall>t \<in> set (db_transaction ?d1). \<not> tr_rolling_back t" "db_transaction ?d1 \<noteq> []"
    "undo1_ok ?a (db_map ?d1)" "undo_ok (db_actions ?d1) (undo1 ?a (db_map ?d1))"
    "\<forall>k. db_map ?d1 k \<noteq> Some UW_MAX"
    using inv f False unfolding u act by (simp_all add: db_inv_def undo1_ok_def a del: split_paired_All)
  have "db_inv d' \<and> committed d' = committed d"
    using db_push_inv [OF h] unfolding d' u act by (simp add: committed_def)
  moreover have "db_log d' = db_log d" by (simp add: d' db_push_actions)
  ultimately show ?thesis using durableI [of d' d ok R M] dur d' by auto
next
  case True
  then have act: "db_actions d = []" by (simp add: db_actions_def)
  have inv1: "db_inv (d\<lparr>db_map := (db_map d)(fact_key f \<mapsto> fact_id f), db_log := l\<rparr>)" for l
    using inv f True by (simp add: db_inv_def db_actions_def del: split_paired_All)
  show ?thesis
  proof (cases "db_log d")
    case None
    then have "d' = (if local then db_send FACT_ACTION_ADD f (d\<lparr>db_map := (db_map d)(fact_key f \<mapsto> fact_id f)\<rparr>)
        else d\<lparr>db_map := (db_map d)(fact_key f \<mapsto> fact_id f)\<rparr>)" "r = Ok f"
      using res True by (auto simp: db_store_def Let_def)
    moreover have "db_inv (d\<lparr>db_map := (db_map d)(fact_key f \<mapsto> fact_id f)\<rparr>)"
      using inv f True by (simp add: db_inv_def db_actions_def del: split_paired_All)
    ultimately show ?thesis using None by (auto simp: durable_def)
  next
    case (Some l)
    obtain l' b where w: "log_write l (fact_id f, FACT_ACTION_ADD, f) = (l', b)" by (metis surj_pair)
    let ?d2 = "d\<lparr>db_map := (db_map d)(fact_key f \<mapsto> fact_id f), db_log := Some l'\<rparr>"
    show ?thesis
    proof (cases b)
      case b: True
      then have d': "d' = (if local then db_send FACT_ACTION_ADD f ?d2 else ?d2)" "r = Ok f"
        using res True Some w by (auto simp: db_store_def Let_def facts_log_add_def)
      have "durable ok R M ?d2"
        by (rule durable_write [OF dur Some w])
          (use new f act True in \<open>simp_all add: committed_def db_actions_def replay1_def rec_ok_def\<close>)
      then show ?thesis using d' inv1 by auto
    next
      case False
      then have d': "d' = d\<lparr>db_log := Some l'\<rparr>" "r = Null"
        using res True Some w by (auto simp: db_store_def Let_def facts_log_add_def)
      have "durable ok R M d'" unfolding d'
        by (rule durable_write [OF dur Some w]) (use False f in \<open>simp_all add: rec_ok_def\<close>)
      moreover have "db_inv d'" using inv unfolding d' by (simp add: db_inv_def db_actions_def)
      ultimately show ?thesis using d' by simp
    qed
  qed
qed

section \<open>Every operation keeps the facts recoverable\<close>

lemma db_next_update_simps [simp]:
  "db_inv (d\<lparr>db_next_id := n\<rparr>) = db_inv d" "durable ok R M (d\<lparr>db_next_id := n\<rparr>) = durable ok R M d"
  "db_blocked (d\<lparr>db_next_id := n\<rparr>) = db_blocked d" "committed (d\<lparr>db_next_id := n\<rparr>) = committed d"
  "db_actions (d\<lparr>db_next_id := n\<rparr>) = db_actions d" "db_rolling_back (d\<lparr>db_next_id := n\<rparr>) = db_rolling_back d"
  by (simp_all add: db_inv_def db_actions_def durable_def committed_def db_blocked_def db_rolling_back_def)

lemma db_add_inv:
  assumes inv: "db_inv d" and dur: "durable ok R M d" and f: "\<And>i. ok (set_fact_id f i)" and res: "db_add d f = (d', r)"
  shows "db_inv d' \<and> durable ok R M d' \<and> r \<noteq> Abort \<and> r \<noteq> Undef"
proof (cases "db_blocked d \<or> db_map d (fact_key f) \<noteq> None \<or> db_next_id d = UW_MAX")
  case True
  then show ?thesis using res inv dur by (auto simp: db_add_def split: option.splits if_splits)
next
  case False
  let ?d = "d\<lparr>db_next_id := db_next_id d + 1\<rparr>"
  have "db_store True ?d (set_fact_id f (db_next_id d)) = (d', r)" using res False by (simp add: db_add_def)
  from db_store_inv [OF _ _ _ _ _ _ this, of ok R M] show ?thesis using inv dur False f by auto
qed

lemma db_add_id_inv:
  assumes inv: "db_inv d" and dur: "durable ok R M d" and f: "\<And>i. ok (set_fact_id f i)" and res: "db_add_id d f = (d', r)"
  shows "db_inv d' \<and> durable ok R M d' \<and> r \<noteq> Abort \<and> r \<noteq> Undef"
proof (cases "db_blocked d \<or> db_map d (fact_key f) \<noteq> None \<or> fact_id f = UW_MAX")
  case True
  then show ?thesis using res inv dur by (auto simp: db_add_id_def split: option.splits if_splits)
next
  case False
  let ?d = "d\<lparr>db_next_id := (if fact_id f \<ge> db_next_id d then fact_id f + 1 else db_next_id d)\<rparr>"
  have "db_store False ?d f = (d', r)" using res False by (simp add: db_add_id_def)
  from db_store_inv [OF _ _ _ _ _ _ this, of ok R M] show ?thesis
    using inv dur False f [of "fact_id f"] by auto
qed

lemma db_start_inv:
  assumes inv: "db_inv d" and dur: "durable ok R M d" and res: "db_start d ptr = (d', r)"
  shows "db_inv d' \<and> durable ok R M d' \<and> r \<noteq> Abort \<and> r \<noteq> Undef"
proof -
  let ?t = "\<lparr>tr_ptr = ptr, tr_id = db_next_id d, tr_log = [], tr_rolling_back = False\<rparr>"
  have "db_inv (d\<lparr>db_next_id := n, db_transaction := ?t # db_transaction d\<rparr>) \<and>
      durable ok R M (d\<lparr>db_next_id := n, db_transaction := ?t # db_transaction d\<rparr>)" for n
    using inv dur by (simp add: db_inv_def db_actions_def durable_def committed_def)
  then show ?thesis using inv dur res by (auto simp: db_start_def split: if_splits)
qed

text \<open>A removal: its bookkeeping writes the record before the fact goes.\<close>

lemma db_remove_inv:
  assumes inv: "db_inv d" and dur: "durable ok R M d" and f: "\<And>i. ok (set_fact_id f i)"
    and res: "db_remove d f event_id = (d', r)"
  shows "db_inv d' \<and> durable ok R M d' \<and> r \<noteq> Abort \<and> r \<noteq> Undef"
proof (cases "(case event_id of None \<Rightarrow> False | Some e \<Rightarrow> e = UW_MAX \<or> db_transaction d \<noteq> []) \<or> db_blocked d")
  case True
  then show ?thesis using res inv dur by (auto simp: db_remove_def split: if_splits option.splits)
next
  case nb: False
  let ?k = "fact_key f"
  define g where "g = (case db_map d ?k of None \<Rightarrow> f | Some i \<Rightarrow> set_fact_id f i)"
  have g: "ok g" "fact_key g = ?k" using f f [of "fact_id f"] by (auto simp: g_def split: option.split)
  obtain d1 r1 where ev: "db_event d g (db_map d ?k \<noteq> None) event_id = (d1, r1)" by (metis surj_pair)
  note step = res [unfolded db_remove_def if_not_P [OF nb] Let_def g_def [symmetric] ev prod.case]
  show ?thesis
  proof (cases "db_map d ?k = None \<and> event_id = None")
    case True
    then have "d1 = d" "r1 = Some (0, None)" using ev by (auto simp: db_event_def)
    then show ?thesis using step True inv dur by auto
  next
    case False
    then have cond: "(db_map d ?k \<noteq> None \<or> event_id \<noteq> None) \<and> \<not> db_rolling_back d"
      using db_not_rolling [OF inv] by auto
    obtain d0 eo where id: "(case event_id of Some e \<Rightarrow> (d, Some e)
         | None \<Rightarrow> if db_transaction d = [] \<and> db_log d = None \<and> db_server_count d = 0 then (d, Some 0)
             else if db_next_id d = UW_MAX then (d, None)
             else (d\<lparr>db_next_id := db_next_id d + 1\<rparr>, Some (db_next_id d))) = (d0, eo)" by (metis surj_pair)
    have d0: "db_inv d0" "durable ok R M d0" "db_map d0 = db_map d" "db_transaction d0 = db_transaction d"
      "db_log d0 = db_log d" "db_actions d0 = db_actions d"
      using id inv dur by (auto split: option.splits if_splits)
    have eo: "eid \<noteq> UW_MAX" if "eo = Some eid" for eid
      using id that nb UW_MAX_max(1) [of 0] by (auto simp: UW_MAX_def split: option.splits if_splits)
    note ev' = ev [unfolded db_event_def if_P [OF cond] id Let_def prod.case]
    have bump: "db_inv (if b then e\<lparr>db_next_id := n\<rparr> else e) = db_inv e"
      "durable ok R M (if b then e\<lparr>db_next_id := n\<rparr> else e) = durable ok R M e" for b n e by simp_all
    show ?thesis
    proof (cases eo)
      case None
      then show ?thesis using step ev' d0 by auto
    next
      case (Some eid)
      show ?thesis
      proof (cases "db_transaction d = []")
        case False
        let ?a = "db_action d0 FACT_ACTION_REMOVE g eid (db_server_count d0 \<noteq> 0)"
        let ?d1 = "d0\<lparr>db_map := (db_map d0)(?k := None)\<rparr>"
        have no_ev: "event_id = None" using nb False by (cases event_id) auto
        then obtain i where i: "db_map d ?k = Some i" using cond by auto
        have gi: "fact_id g = i" "i \<noteq> UW_MAX" using i inv by (auto simp: g_def db_inv_def simp del: split_paired_All)
        have a: "fa_fact ?a = g" "fa_action ?a = FACT_ACTION_REMOVE" "fa_id ?a = eid" by (simp_all add: db_action_def)
        have u: "undo1 ?a (db_map ?d1) = db_map d" using i d0 by (simp add: undo1_def a g gi fun_upd_idem)
        have act: "db_actions ?d1 = db_actions d" using d0 by (simp add: db_actions_def)
        have h: "\<forall>t \<in> set (db_transaction ?d1). \<not> tr_rolling_back t" "db_transaction ?d1 \<noteq> []"
          "undo1_ok ?a (db_map ?d1)" "undo_ok (db_actions ?d1) (undo1 ?a (db_map ?d1))"
          "\<forall>k. db_map ?d1 k \<noteq> Some UW_MAX"
          using inv False d0 gi eo [OF Some] g unfolding u act
          by (simp_all add: db_inv_def undo1_ok_def a del: split_paired_All)
        have "db_inv (db_push ?a ?d1) \<and> committed (db_push ?a ?d1) = committed d"
          using db_push_inv [OF h] unfolding u act by (simp add: committed_def)
        moreover have "db_log (db_push ?a ?d1) = db_log d" using d0 by (simp add: db_push_actions)
        moreover have "d' = db_push ?a ?d1" "r = Ok True"
          using step ev' Some False d0 i no_ev by auto
        ultimately show ?thesis using durableI [of "db_push ?a ?d1" d ok R M] dur by auto
      next
        case nt: True
        have act: "db_actions d = []" using nt by (simp add: db_actions_def)
        define fin where "fin = (\<lambda>e :: db. if db_map d ?k = None then e else e\<lparr>db_map := (db_map e)(?k := None)\<rparr>)"
        have fin_map: "db_map (fin e) = (db_map d)(?k := None)" "db_transaction (fin e) = db_transaction e"
          "db_log (fin e) = db_log e" if "db_map e = db_map d" for e
          using that by (auto simp: fin_def fun_upd_idem)
        have fin_inv: "db_inv (fin e)" if "db_map e = db_map d" "db_transaction e = []" for e
          using inv that by (simp add: db_inv_def db_actions_def fin_map del: split_paired_All)
        show ?thesis
        proof (cases "db_log d")
          case None
          have "\<exists>e. d1 = e \<and> r1 = Some (eid, None) \<and> db_map e = db_map d \<and> db_transaction e = [] \<and> db_log e = None"
            using ev' Some nt None d0 by (auto split: if_splits)
          then obtain e where e: "d1 = e" "r1 = Some (eid, None)" "db_map e = db_map d" "db_transaction e = []" "db_log e = None"
            by blast
          have "d' = (if event_id \<noteq> None \<and> db_next_id (fin e) \<le> eid then (fin e)\<lparr>db_next_id := eid + 1\<rparr> else fin e)"
            "r = Ok (db_map d ?k \<noteq> None)"
              using step e by (cases "db_map d ?k"; cases event_id; auto simp: fin_def)+
          moreover have "durable ok R M (fin e)" using e fin_map by (simp add: durable_def)
          ultimately show ?thesis using fin_inv e by (simp add: bump)
        next
          case l: (Some l)
          obtain l' b where w: "log_write l (eid, FACT_ACTION_REMOVE, g) = (l', b)" by (metis surj_pair)
          show ?thesis
          proof (cases b)
            case False
            then have "d' = d0\<lparr>db_log := Some l'\<rparr>" "r = Null"
              using step ev' Some nt l w d0 by (auto simp: facts_log_remove_def)
            moreover have "durable ok R M (d0\<lparr>db_log := Some l'\<rparr>)"
              using False log_write_spec(2) [OF w] by (simp add: durable_def)
            moreover have "db_inv (d0\<lparr>db_log := Some l'\<rparr>)" using d0(1) by (simp add: db_inv_def db_actions_def)
            ultimately show ?thesis by simp
          next
            case True
            have "\<exists>e. d1 = e \<and> r1 = Some (eid, None) \<and> db_map e = db_map d \<and> db_transaction e = [] \<and> db_log e = Some l'"
              using ev' Some nt l w True d0 by (auto simp: facts_log_remove_def split: if_splits)
            then obtain e where e: "d1 = e" "r1 = Some (eid, None)" "db_map e = db_map d" "db_transaction e = []"
              "db_log e = Some l'" by blast
            have "d' = (if event_id \<noteq> None \<and> db_next_id (fin e) \<le> eid then (fin e)\<lparr>db_next_id := eid + 1\<rparr> else fin e)"
              "r = Ok (db_map d ?k \<noteq> None)"
              using step e by (cases "db_map d ?k"; cases event_id; auto simp: fin_def)+
            moreover have "durable ok R M (fin e)"
            proof (rule durable_write [OF dur l w])
              show "db_log (fin e) = Some l'" using e fin_map by simp
              have "committed d = db_map d" using act by (simp only: committed_def undo.simps)
              then show "committed (fin e) = replay1 (eid, FACT_ACTION_REMOVE, g) (committed d)"
                using e fin_map by (simp add: committed_def db_actions_def replay1_def g)
              show "rec_ok ok (eid, FACT_ACTION_REMOVE, g)" using g eo [OF Some] by (simp add: rec_ok_def)
            qed
            ultimately show ?thesis using fin_inv e by (simp add: bump)
          qed
        qed
      qed
    qed
  qed
qed

text \<open>A commit writes the records of the transaction in order, until a write fails.\<close>

lemma db_commit_tail:
  fixes d e :: db and a :: fact_action and b :: bool and f :: "tag fact" and x :: "(tag fact \<times> uw) option" and act :: action_type
  defines "e \<equiv> if b then db_send act f d else d"
  shows "db_map (case x of None \<Rightarrow> e | Some y \<Rightarrow> e\<lparr>db_remove_log := y # db_remove_log e\<rparr>) = db_map d"
    "db_transaction (case x of None \<Rightarrow> e | Some y \<Rightarrow> e\<lparr>db_remove_log := y # db_remove_log e\<rparr>) = db_transaction d"
    "db_log (case x of None \<Rightarrow> e | Some y \<Rightarrow> e\<lparr>db_remove_log := y # db_remove_log e\<rparr>) = db_log d"
  unfolding e_def by (cases x; cases b; simp)+

lemma db_commit_action_spec:
  assumes a: "fa_action a \<noteq> FACT_ACTION_REPLACE" and res: "db_commit_action d a = (d', r)"
  shows "db_map d' = db_map d \<and> db_transaction d' = db_transaction d \<and> (\<exists>b. r = Ok b \<and>
    (case db_log d of None \<Rightarrow> b \<and> db_log d' = None
     | Some l \<Rightarrow> (\<exists>l'. log_write l (action_record a) = (l', b) \<and> db_log d' = Some l')))"
proof -
  define tail :: "db \<Rightarrow> db" where "tail = (\<lambda>d.
    let d = (if fa_broadcast a then db_send (fa_action a)
          (if fa_action a = FACT_ACTION_REMOVE then set_fact_id (fa_fact a) (fa_id a) else fa_fact a) d else d) in
    case if fa_action a = FACT_ACTION_REMOVE then fa_remove_log a else None of
      None \<Rightarrow> d | Some e \<Rightarrow> d\<lparr>db_remove_log := e # db_remove_log d\<rparr>)"
  have tail: "db_map (tail e) = db_map e" "db_transaction (tail e) = db_transaction e" "db_log (tail e) = db_log e" for e
    unfolding tail_def Let_def by (rule db_commit_tail)+
  have eq: "db_commit_action d a = (let (d, ok) = (case db_log d of None \<Rightarrow> (d, True)
      | Some l \<Rightarrow> let (l, ok) = log_write l (fa_id a, fa_action a, fa_fact a) in (d\<lparr>db_log := Some l\<rparr>, ok)) in
      if \<not> ok then (d, Ok False) else (tail d, Ok True))"
    unfolding db_commit_action_def if_not_P [OF a] tail_def Let_def by (rule refl)
  show ?thesis
  proof (cases "db_log d")
    case None
    then have "d' = tail d" "r = Ok True" using res unfolding eq by simp_all
    then show ?thesis using None tail by auto
  next
    case (Some l)
    obtain l' b where w: "log_write l (fa_id a, fa_action a, fa_fact a) = (l', b)" by (metis surj_pair)
    have "d' = (if b then tail (d\<lparr>db_log := Some l'\<rparr>) else d\<lparr>db_log := Some l'\<rparr>)" "r = Ok b"
      using res Some w unfolding eq by (auto split: if_splits)
    then show ?thesis using Some tail w by (simp add: action_record_def)
  qed
qed

lemma db_commit_actions_spec:
  assumes "\<forall>a \<in> set as. fa_action a \<noteq> FACT_ACTION_REPLACE" "db_commit_actions d as = (d', r)"
  shows "db_map d' = db_map d \<and> db_transaction d' = db_transaction d \<and> (\<exists>b. r = Ok b \<and>
    (case db_log d of None \<Rightarrow> b \<and> db_log d' = None
     | Some l \<Rightarrow> (\<exists>l'. db_log d' = Some l' \<and> (\<not> b \<longrightarrow> log_failed l') \<and>
         (b \<longrightarrow> log_records l' = log_records l @ map action_record as \<and> log_failed l' = log_failed l \<and> (as \<noteq> [] \<longrightarrow> \<not> log_failed l)))))"
  using assms
proof (induction "as" arbitrary: d)
  case (Cons a as')
  obtain d1 r1 where 1: "db_commit_action d a = (d1, r1)" by (metis surj_pair)
  have ra: "fa_action a \<noteq> FACT_ACTION_REPLACE" using Cons.prems(1) by simp
  note c = db_commit_action_spec [OF ra 1]
  then obtain b where r1: "r1 = Ok b" by blast
  show ?case
  proof (cases b)
    case False
    then have "d' = d1" "r = Ok False" using Cons.prems(2) 1 r1 by auto
    moreover have "db_map d1 = db_map d" "db_transaction d1 = db_transaction d" using c by simp_all
    moreover have "case db_log d of None \<Rightarrow> False | Some l \<Rightarrow> (\<exists>l'. db_log d1 = Some l' \<and> log_failed l')"
    proof (cases "db_log d")
      case None
      then show ?thesis using c r1 False by auto
    next
      case (Some l)
      then obtain l' where "log_write l (action_record a) = (l', False)" "db_log d1 = Some l'"
        using c r1 False by auto
      then show ?thesis using log_write_spec(2) [of l _ l' False] Some by simp
    qed
    ultimately show ?thesis by (cases "db_log d") auto
  next
    case True
    then have "db_commit_actions d1 as' = (d', r)" using Cons.prems(2) 1 r1 by simp
    from Cons.IH [OF _ this] Cons.prems(1) have IH: "db_map d' = db_map d1 \<and> db_transaction d' = db_transaction d1 \<and> (\<exists>b. r = Ok b \<and>
    (case db_log d1 of None \<Rightarrow> b \<and> db_log d' = None
     | Some l \<Rightarrow> (\<exists>l'. db_log d' = Some l' \<and> (\<not> b \<longrightarrow> log_failed l') \<and>
         (b \<longrightarrow> log_records l' = log_records l @ map action_record as' \<and> log_failed l' = log_failed l \<and> (as' \<noteq> [] \<longrightarrow> \<not> log_failed l)))))"
      by simp
    show ?thesis
    proof (cases "db_log d")
      case None
      then have "db_log d1 = None" using c by auto
      then show ?thesis using IH c None by simp
    next
      case (Some l)
      then obtain l1 where l1: "log_write l (action_record a) = (l1, True)" "db_log d1 = Some l1"
        using c r1 True by auto
      note w = log_write_spec(1) [OF l1(1) TrueI]
      from IH obtain b' l' where b': "r = Ok b'" "db_log d' = Some l'" "\<not> b' \<longrightarrow> log_failed l'"
        "b' \<longrightarrow> log_records l' = log_records l1 @ map action_record as' \<and> log_failed l' = log_failed l1"
        unfolding l1(2) by auto
      moreover have "db_map d' = db_map d" "db_transaction d' = db_transaction d" using IH c by simp_all
      ultimately show ?thesis using w by (simp add: Some)
    qed
  qed
qed (auto split: option.split)

lemma undo_ok_actions: "undo_ok as M \<Longrightarrow> a \<in> set as \<Longrightarrow>
    fa_action a \<noteq> FACT_ACTION_REPLACE \<and> fact_id (fa_fact a) \<noteq> UW_MAX \<and> fa_id a \<noteq> UW_MAX"
  by (induction "as" arbitrary: M) (auto simp: undo1_ok_def)

lemma db_end_inv:
  assumes inv: "db_inv d" and dur: "durable ok R M d" and ok: "\<forall>a \<in> set (db_actions d). ok (fa_fact a)"
    and res: "db_end d ptr = (d', r)"
  shows "db_inv d' \<and> durable ok R M d' \<and> r \<noteq> Abort \<and> r \<noteq> Undef"
proof (cases "db_transaction d")
  case Nil
  then show ?thesis using res inv dur by (simp add: db_end_def)
next
  case t: (Cons t ts)
  show ?thesis
  proof (cases "tr_ptr t = ptr")
    case False
    then show ?thesis using res inv dur t by (simp add: db_end_def)
  next
    case ptr: True
    show ?thesis
    proof (cases ts)
      case (Cons u us)
      let ?d = "d\<lparr>db_transaction := u\<lparr>tr_log := tr_log t @ tr_log u\<rparr> # us\<rparr>"
      have "db_actions ?d = db_actions d" by (simp add: db_actions_def t Cons)
      then have "db_inv ?d" "durable ok R M ?d"
        using inv dur t Cons by (simp_all add: db_inv_def durable_def committed_def)
      then show ?thesis using res t ptr Cons by (auto simp: db_end_def)
    next
      case Nil
      let ?as = "tr_log t" and ?d0 = "d\<lparr>db_transaction := []\<rparr>"
      have act: "db_actions d = ?as" by (simp add: db_actions_def t Nil)
      have uok: "undo_ok ?as (db_map d)" using inv act by (simp add: db_inv_def)
      note acts = undo_ok_actions [OF uok]
      obtain d1 r1 where c: "db_commit_actions ?d0 (rev ?as) = (d1, r1)" by (metis surj_pair)
      have "\<forall>a \<in> set (rev ?as). fa_action a \<noteq> FACT_ACTION_REPLACE" using acts by simp
      note spec = db_commit_actions_spec [OF this c]
      then obtain b where b: "r1 = Ok b" by blast
      have d': "d' = d1" "r \<noteq> Abort" "r \<noteq> Undef" using res t ptr Nil c b by (auto simp: db_end_def split: if_splits)
      have c1: "committed d1 = db_map d" using spec by (simp add: committed_def db_actions_def)
      have inv1: "db_inv d1" using spec inv by (simp add: db_inv_def db_actions_def del: split_paired_All)
      have "durable ok R M d1"
      proof (cases "db_log d")
        case None
        then show ?thesis using spec by (auto simp: durable_def)
      next
        case (Some l)
        then obtain l' where l': "db_log d1 = Some l'" "\<not> b \<longrightarrow> log_failed l'"
          "b \<longrightarrow> log_records l' = log_records l @ map action_record (rev ?as) \<and> log_failed l' = log_failed l"
          using spec b by auto
        show ?thesis
        proof (cases "log_failed l'")
          case True
          then show ?thesis using l'(1) by (simp add: durable_def)
        next
          case nf: False
          then have "b" "\<not> log_failed l" using l' by auto
          then obtain rs where rs: "log_records l = R @ rs" "replay rs M = committed d" "\<forall>r \<in> set rs. rec_ok ok r"
            using dur Some by (auto simp: durable_def)
          have "\<forall>r \<in> set (map action_record (rev ?as)). rec_ok ok r"
            using acts ok act by (auto simp: rec_ok_def action_record_def split: action_type.split)
          moreover have "replay (map action_record (rev ?as)) (committed d) = db_map d"
            using replay_undo [OF uok] by (simp add: committed_def act)
          ultimately show ?thesis
            using l' nf rs \<open>b\<close> c1 unfolding durable_def
            by (intro allI impI exI [of _ "rs @ map action_record (rev ?as)"]) auto
        qed
      qed
      then show ?thesis using d' inv1 by simp
    qed
  qed
qed

lemma db_end_map:
  assumes inv: "db_inv d" and res: "db_end d ptr = (d', r)"
  shows "db_map d' = db_map d"
proof (cases "\<exists>t. db_transaction d = [t] \<and> tr_ptr t = ptr")
  case False
  then show ?thesis using res by (auto simp: db_end_def split: list.splits if_splits)
next
  case True
  then obtain t where t: "db_transaction d = [t]" "tr_ptr t = ptr" by blast
  obtain d1 r1 where c: "db_commit_actions (d\<lparr>db_transaction := []\<rparr>) (rev (tr_log t)) = (d1, r1)"
    by (metis surj_pair)
  have "undo_ok (tr_log t) (db_map d)" using inv t by (simp add: db_inv_def db_actions_def)
  then have "\<forall>a \<in> set (rev (tr_log t)). fa_action a \<noteq> FACT_ACTION_REPLACE" using undo_ok_actions by auto
  note spec = db_commit_actions_spec [OF this c]
  then have "d' = d1" using res t c by (auto simp: db_end_def)
  then show ?thesis using spec by simp
qed

end
