(* ===== verification/Facts_Run.thy ===== *)
theory Facts_Run
  imports Facts_Durable
begin

text \<open>
  Sequences of operations on the database: every reachable state satisfies the invariant and
  simulates the abstract database; no operation aborts; and a rollback restores the facts of
  the start of its transaction.
\<close>

section \<open>Operations and runs\<close>

datatype facts_op =
    Op_add "tag fact"
  | Op_add_id "tag fact"
  | Op_remove "tag fact"
  | Op_remove_id "tag fact"
  | Op_start nat
  | Op_end nat
  | Op_rollback nat

definition run_op :: "rt \<Rightarrow> facts \<Rightarrow> facts_op \<Rightarrow> facts \<times> unit outcome" where
  "run_op rt s op = (case op of
      Op_add f \<Rightarrow> apsnd (map_outcome (\<lambda>_. ())) (facts_add_fact_local rt s f)
    | Op_add_id f \<Rightarrow> apsnd (map_outcome (\<lambda>_. ())) (facts_add_fact_id rt s f)
    | Op_remove f \<Rightarrow> apsnd (map_outcome (\<lambda>_. ())) (facts_remove_fact_local rt s f)
    | Op_remove_id f \<Rightarrow> apsnd (map_outcome (\<lambda>_. ())) (facts_remove_fact_id rt s f)
    | Op_start p \<Rightarrow> facts_transaction_start s p
    | Op_end p \<Rightarrow> facts_transaction_end rt s p
    | Op_rollback p \<Rightarrow> facts_transaction_rollback rt s p)"

definition db_run_op :: "db \<Rightarrow> facts_op \<Rightarrow> db \<times> unit outcome" where
  "db_run_op d op = (case op of
      Op_add f \<Rightarrow> apsnd (map_outcome (\<lambda>_. ())) (db_add d f)
    | Op_add_id f \<Rightarrow> apsnd (map_outcome (\<lambda>_. ())) (db_add_id d f)
    | Op_remove f \<Rightarrow> apsnd (map_outcome (\<lambda>_. ())) (db_remove d f None)
    | Op_remove_id f \<Rightarrow> apsnd (map_outcome (\<lambda>_. ())) (db_remove d f (Some (fact_id f)))
    | Op_start p \<Rightarrow> db_start d p
    | Op_end p \<Rightarrow> db_end d p
    | Op_rollback p \<Rightarrow> db_rollback d p)"

fun op_fact_ok :: "rt \<Rightarrow> bool \<Rightarrow> facts_op \<Rightarrow> bool" where
  "op_fact_ok rt m (Op_add f) = fact_ok rt m f"
| "op_fact_ok rt m (Op_add_id f) = fact_ok rt m f"
| "op_fact_ok rt m (Op_remove f) = fact_ok rt m f"
| "op_fact_ok rt m (Op_remove_id f) = fact_ok rt m f"
| "op_fact_ok rt m _ = True"

text \<open>A run stops at an \<open>abort()\<close> or a search that does not return.\<close>

inductive facts_steps :: "rt \<Rightarrow> facts \<Rightarrow> facts_op list \<Rightarrow> facts \<Rightarrow> bool" for rt where
  steps_nil: "facts_steps rt s [] s"
| steps_cons: "run_op rt s op = (s1, r) \<Longrightarrow> r \<noteq> Abort \<Longrightarrow> r \<noteq> Undef \<Longrightarrow> facts_steps rt s1 ops s2 \<Longrightarrow>
    facts_steps rt s (op # ops) s2"

inductive_cases facts_steps_consE: "facts_steps rt s (op # ops) s2"
inductive_simps facts_steps_nil [simp]: "facts_steps rt s [] s2"

section \<open>How an operation changes the facts\<close>

text \<open>
  An addition or a removal changes at most one key; inside a transaction it logs the action that
  undoes the change.
\<close>

definition fact_step :: "db \<Rightarrow> db \<Rightarrow> bool" where
  "fact_step d d' \<longleftrightarrow>
    (db_map d' = db_map d \<and> db_transaction d' = db_transaction d) \<or>
    (\<exists>k v. db_map d' = (db_map d)(k := v)) \<and>
     (db_transaction d = [] \<and> db_transaction d' = [] \<or>
      (\<exists>t ts a. db_transaction d = t # ts \<and> db_transaction d' = t\<lparr>tr_log := a # tr_log t\<rparr> # ts \<and>
        undo1 a (db_map d') = db_map d))"

lemma fact_step_refl: "db_map d' = db_map d \<Longrightarrow> db_transaction d' = db_transaction d \<Longrightarrow> fact_step d d'"
  by (simp add: fact_step_def)

lemma fact_step_cong:
  "fact_step d d' \<Longrightarrow> db_map e = db_map d \<Longrightarrow> db_transaction e = db_transaction d \<Longrightarrow>
    db_map e' = db_map d' \<Longrightarrow> db_transaction e' = db_transaction d' \<Longrightarrow> fact_step e e'"
  by (simp add: fact_step_def)

lemma fact_step_push:
  assumes "db_transaction d = t # ts" "undo1 a ((db_map d)(k := v)) = db_map d"
  shows "fact_step d (db_push a (d\<lparr>db_map := (db_map d)(k := v)\<rparr>))"
  using assms by (auto simp: fact_step_def db_push_def simp del: split_paired_Ex split_paired_All)

lemma fact_step_outside:
  "db_transaction d = [] \<Longrightarrow> db_transaction d' = [] \<Longrightarrow> db_map d' = (db_map d)(k := v) \<Longrightarrow> fact_step d d'"
  unfolding fact_step_def by blast

lemma db_store_step:
  assumes inv: "db_inv d" and new: "db_map d (fact_key f) = None" and res: "db_store local d f = (d', r)"
  shows "fact_step d d'"
proof (cases "db_transaction d")
  case (Cons t ts)
  then have "d' = db_push (db_action d FACT_ACTION_ADD f (fact_id f) local) (d\<lparr>db_map := (db_map d)(fact_key f \<mapsto> fact_id f)\<rparr>)"
    using res db_not_rolling [OF inv] by (auto simp: db_store_def Let_def)
  moreover have "undo1 (db_action d FACT_ACTION_ADD f (fact_id f) local) ((db_map d)(fact_key f \<mapsto> fact_id f)) = db_map d"
    using new by (simp add: undo1_def db_action_def fun_upd_idem)
  ultimately show ?thesis using fact_step_push [OF Cons] by simp
next
  case Nil
  have "db_transaction d' = []" "db_map d' = db_map d \<or> db_map d' = (db_map d)(fact_key f \<mapsto> fact_id f)"
    using res Nil by (auto simp: db_store_def Let_def split: option.splits if_splits prod.splits)
  then show ?thesis using fact_step_outside [OF Nil] fact_step_refl [of d' d] Nil by metis
qed

lemma db_add_step:
  assumes inv: "db_inv d" and res: "db_add d f = (d', r)" shows "fact_step d d'"
proof (cases "db_blocked d \<or> db_map d (fact_key f) \<noteq> None \<or> db_next_id d = UW_MAX")
  case True
  then show ?thesis using res by (auto simp: db_add_def fact_step_refl split: option.splits if_splits)
next
  case False
  let ?d = "d\<lparr>db_next_id := db_next_id d + 1\<rparr>"
  have "db_store True ?d (set_fact_id f (db_next_id d)) = (d', r)" using res False by (simp add: db_add_def)
  from db_store_step [OF _ _ this] have "fact_step ?d d'" using inv False by simp
  then show ?thesis by (rule fact_step_cong) simp_all
qed

lemma db_add_id_step:
  assumes inv: "db_inv d" and res: "db_add_id d f = (d', r)" shows "fact_step d d'"
proof (cases "db_blocked d \<or> db_map d (fact_key f) \<noteq> None \<or> fact_id f = UW_MAX")
  case True
  then show ?thesis using res by (auto simp: db_add_id_def fact_step_refl split: option.splits if_splits)
next
  case False
  let ?d = "d\<lparr>db_next_id := (if fact_id f \<ge> db_next_id d then fact_id f + 1 else db_next_id d)\<rparr>"
  have "db_store False ?d f = (d', r)" using res False by (simp add: db_add_id_def)
  from db_store_step [OF _ _ this] have "fact_step ?d d'" using inv False by simp
  then show ?thesis by (rule fact_step_cong) simp_all
qed

lemma db_event_shape:
  assumes res: "db_event d g found event_id = (d1, r1)" and roll: "\<not> db_rolling_back d"
  shows "db_map d1 = db_map d" "db_transaction d1 = db_transaction d"
    "r1 = Some (eid, None) \<Longrightarrow> found \<Longrightarrow> db_transaction d = []"
    "r1 = Some (eid, Some a) \<Longrightarrow> db_transaction d \<noteq> [] \<and> fa_action a = FACT_ACTION_REMOVE \<and> fa_fact a = g"
proof -
  let ?p = "\<lambda>d1 r1. db_map d1 = db_map d \<and> db_transaction d1 = db_transaction d \<and>
    (\<forall>eid. r1 = Some (eid, None) \<longrightarrow> found \<longrightarrow> db_transaction d = []) \<and>
    (\<forall>eid a. r1 = Some (eid, Some a) \<longrightarrow> db_transaction d \<noteq> [] \<and> fa_action a = FACT_ACTION_REMOVE \<and> fa_fact a = g)"
  have "?p d1 r1"
  proof (cases "found \<or> event_id \<noteq> None")
    case False
    then show ?thesis using res by (auto simp: db_event_def)
  next
    case True
    obtain d0 eo where id: "(case event_id of Some e \<Rightarrow> (d, Some e)
         | None \<Rightarrow> if db_transaction d = [] \<and> db_log d = None \<and> db_server_count d = 0 then (d, Some 0)
             else if db_next_id d = UW_MAX then (d, None)
             else (d\<lparr>db_next_id := db_next_id d + 1\<rparr>, Some (db_next_id d))) = (d0, eo)" by (metis surj_pair)
    have d0: "db_map d0 = db_map d" "db_transaction d0 = db_transaction d"
      using id by (auto split: option.splits if_splits)
    have c: "(found \<or> event_id \<noteq> None) \<and> \<not> db_rolling_back d" using True roll by simp
    note ev = res [unfolded db_event_def if_P [OF c] id Let_def prod.case]
    show ?thesis
    proof (cases eo)
      case None
      then show ?thesis using ev d0 by auto
    next
      case (Some eid)
      show ?thesis
      proof (cases "db_transaction d = []")
        case False
        then show ?thesis using ev Some d0 by (auto simp: db_action_def)
      next
        case True
        then show ?thesis using ev Some d0 by (auto split: option.splits if_splits prod.splits)
      qed
    qed
  qed
  then show "db_map d1 = db_map d" "db_transaction d1 = db_transaction d"
    "r1 = Some (eid, None) \<Longrightarrow> found \<Longrightarrow> db_transaction d = []"
    "r1 = Some (eid, Some a) \<Longrightarrow> db_transaction d \<noteq> [] \<and> fa_action a = FACT_ACTION_REMOVE \<and> fa_fact a = g"
    by blast+
qed

lemma db_remove_step:
  assumes inv: "db_inv d" and res: "db_remove d f event_id = (d', r)" shows "fact_step d d'"
proof (cases "(case event_id of None \<Rightarrow> False | Some e \<Rightarrow> e = UW_MAX \<or> db_transaction d \<noteq> []) \<or> db_blocked d")
  case True
  then show ?thesis using res by (auto simp: db_remove_def fact_step_refl split: if_splits option.splits)
next
  case nb: False
  let ?k = "fact_key f"
  define g where "g = (case db_map d ?k of None \<Rightarrow> f | Some i \<Rightarrow> set_fact_id f i)"
  obtain d1 r1 where ev: "db_event d g (db_map d ?k \<noteq> None) event_id = (d1, r1)" by (metis surj_pair)
  note step = res [unfolded db_remove_def if_not_P [OF nb] Let_def g_def [symmetric] ev prod.case]
  note shape = db_event_shape [OF ev db_not_rolling [OF inv]]
  have bump: "fact_step d (if b then e\<lparr>db_next_id := n\<rparr> else e) = fact_step d e" for b n e
    by (simp add: fact_step_def)
  show ?thesis
  proof (cases r1)
    case None
    then show ?thesis using step shape fact_step_refl by simp
  next
    case (Some p)
    then obtain eid act where p: "r1 = Some (eid, act)" by (cases p) auto
    define e where "e = (if db_map d ?k = None then d1 else
      (case act of None \<Rightarrow> id | Some a \<Rightarrow> db_push a) (d1\<lparr>db_map := (db_map d1)(?k := None)\<rparr>))"
    have d': "d' = (if event_id \<noteq> None \<and> db_next_id e \<le> eid then e\<lparr>db_next_id := eid + 1\<rparr> else e)"
      using step unfolding p option.case prod.case e_def [symmetric] by auto
    have "fact_step d e"
    proof (cases "db_map d ?k")
      case None
      then show ?thesis using shape by (simp add: e_def fact_step_refl)
    next
      case k: (Some i)
      show ?thesis
      proof (cases act)
        case None
        then show ?thesis using shape(1,2) shape(3) [of eid] p k fact_step_outside [of d e ?k None] by (simp add: e_def)
      next
        case (Some a)
        then obtain t ts where t: "db_transaction d = t # ts" and a: "fa_action a = FACT_ACTION_REMOVE" "fa_fact a = g"
          using shape(4) [of eid a] p by (cases "db_transaction d") auto
        have "fact_key g = ?k" "fact_id g = i" by (simp_all add: g_def k)
        then have "undo1 a ((db_map d1)(?k := None)) = db_map d1"
          using k a shape(1) by (simp add: undo1_def fun_upd_idem)
        then have "fact_step d1 e" using fact_step_push [of d1 t ts] t shape(2) Some k by (simp add: e_def)
        then show ?thesis using fact_step_cong [of d1 e d e] shape(1,2) by simp
      qed
    qed
    then show ?thesis unfolding d' bump .
  qed
qed

section \<open>The size of the database\<close>

definition db_weight :: "db \<Rightarrow> nat" where
  "db_weight d = card (dom (db_map d)) + 2 * length (db_actions d)"

lemma card_dom_upd_le: "card (dom (M(k := v))) \<le> card (dom M) + 1"
proof (cases "finite (dom M)")
  case True
  have "dom (M(k := v)) \<subseteq> insert k (dom M)" by auto
  then have "card (dom (M(k := v))) \<le> card (insert k (dom M))" using True by (intro card_mono) auto
  then show ?thesis using True by (simp add: card_insert_if del: dom_fun_upd split: if_splits)
next
  case False
  have "dom M \<subseteq> insert k (dom (M(k := v)))" by auto
  then have "infinite (dom (M(k := v)))" using False finite_subset by blast
  then show ?thesis by (simp del: dom_fun_upd)
qed

lemma fact_step_weight: "fact_step d d' \<Longrightarrow> db_weight d' \<le> db_weight d + 3"
proof -
  assume s: "fact_step d d'"
  have "card (dom (db_map d')) \<le> card (dom (db_map d)) + 1"
    using s card_dom_upd_le [of "db_map d"] by (auto simp: fact_step_def simp del: split_paired_Ex dom_fun_upd)
  moreover have "length (db_actions d') \<le> length (db_actions d) + 1"
    using s by (auto simp: fact_step_def db_actions_def)
  ultimately show ?thesis by (simp add: db_weight_def)
qed

lemma card_undo_le: "card (dom (undo as M)) \<le> card (dom M) + length as"
proof (induction "as" arbitrary: M)
  case (Cons a as')
  have "card (dom (undo1 a M)) \<le> card (dom M) + 1"
    unfolding undo1_def using card_dom_upd_le [of M] by (simp del: dom_fun_upd split: action_type.split)
  then show ?case using Cons.IH [of "undo1 a M"] by simp
qed simp

lemma card_undo_to_le:
  "card (dom (undo_to ptr ts M)) + 2 * length (concat (map tr_log (drop_to ptr ts))) \<le>
    card (dom M) + 2 * length (concat (map tr_log ts))"
proof (induction ts arbitrary: M)
  case (Cons t ts)
  show ?case using card_undo_le [of "tr_log t" M] Cons.IH [of "undo (tr_log t) M"] by auto
qed simp

section \<open>Reachable states\<close>

lemma db_run_op_inv:
  assumes inv: "db_inv d" and dur: "durable (fact_ok rt m) R M d"
    and ok: "op_fact_ok rt m op" "\<forall>a \<in> set (db_actions d). fact_ok rt m (fa_fact a)"
    and res: "db_run_op d op = (d', r)"
  shows "db_inv d' \<and> durable (fact_ok rt m) R M d' \<and> r \<noteq> Abort \<and> r \<noteq> Undef"
proof -
  have lift: "x \<noteq> Abort \<Longrightarrow> map_outcome g x \<noteq> Abort" "x \<noteq> Undef \<Longrightarrow> map_outcome g x \<noteq> Undef" for g x
    by (cases x; simp)+
  have f: "fact_ok rt m (set_fact_id f i)" if "fact_ok rt m f" for f i using that by (cases f) (simp add: set_fact_id_def)
  show ?thesis
  proof (cases op)
    case (Op_add f)
    obtain d1 r1 where 1: "db_add d f = (d1, r1)" by (metis surj_pair)
    show ?thesis using db_add_inv [OF inv dur _ 1] f ok res 1 Op_add by (auto simp: db_run_op_def lift)
  next
    case (Op_add_id f)
    obtain d1 r1 where 1: "db_add_id d f = (d1, r1)" by (metis surj_pair)
    show ?thesis using db_add_id_inv [OF inv dur _ 1] f ok res 1 Op_add_id by (auto simp: db_run_op_def lift)
  next
    case (Op_remove f)
    obtain d1 r1 where 1: "db_remove d f None = (d1, r1)" by (metis surj_pair)
    show ?thesis using db_remove_inv [OF inv dur _ 1] f ok res 1 Op_remove by (auto simp: db_run_op_def lift)
  next
    case (Op_remove_id f)
    obtain d1 r1 where 1: "db_remove d f (Some (fact_id f)) = (d1, r1)" by (metis surj_pair)
    show ?thesis using db_remove_inv [OF inv dur _ 1] f ok res 1 Op_remove_id by (auto simp: db_run_op_def lift)
  next
    case (Op_start p)
    then show ?thesis using db_start_inv [OF inv dur] res by (simp add: db_run_op_def)
  next
    case (Op_end p)
    then show ?thesis using db_end_inv [OF inv dur ok(2)] res by (simp add: db_run_op_def)
  next
    case (Op_rollback p)
    then have rb: "db_rollback d p = (d', r)" using res by (simp add: db_run_op_def)
    have "r = Ok () \<or> r = Null"
      using rb db_rollback_undo [OF inv, of p] by (cases "list_ex (\<lambda>t. tr_ptr t = p) (db_transaction d)")
        (auto simp: db_rollback_def)
    then show ?thesis using db_rollback_inv [OF inv rb] durableI [of d' d] dur by auto
  qed
qed

lemma run_op_refines:
  assumes inv: "facts_inv rt m [] s" and dinv: "db_inv (facts_abs s)" and ok: "op_fact_ok rt m op"
    and room: "db_room (facts_abs s) 1" and res: "run_op rt s op = (s', r)"
  shows "facts_inv rt m [] s' \<and> (facts_abs s', r) = db_run_op (facts_abs s) op"
proof -
  have room3: "facts_room s [] 3"
    using db_room_facts [OF inv] room by (simp add: db_room_def)
  have no_replace: "\<forall>a \<in> set (live_actions s). fa_action a \<noteq> FACT_ACTION_REPLACE"
    using dinv undo_ok_actions [of "db_actions (facts_abs s)" "db_map (facts_abs s)"]
    unfolding db_inv_def live_actions_def by (auto simp: db_actions_def)
  show ?thesis
  proof (cases op)
    case (Op_add f)
    obtain d1 r1 where 1: "facts_add_fact_local rt s f = (d1, r1)" by (metis surj_pair)
    have "facts_inv rt m [] d1" "db_add (facts_abs s) f = (facts_abs d1, r1)"
      using facts_add_fact_local_refines [OF inv _ room3 1] ok Op_add by auto
    then show ?thesis using res 1 Op_add by (auto simp: run_op_def db_run_op_def)
  next
    case (Op_add_id f)
    obtain d1 r1 where 1: "facts_add_fact_id rt s f = (d1, r1)" by (metis surj_pair)
    have "facts_inv rt m [] d1" "db_add_id (facts_abs s) f = (facts_abs d1, r1)"
      using facts_add_fact_id_refines [OF inv _ room3 1] ok Op_add_id by auto
    then show ?thesis using res 1 Op_add_id by (auto simp: run_op_def db_run_op_def)
  next
    case (Op_remove f)
    obtain d1 r1 where 1: "facts_remove_fact_internal rt s f None = (d1, r1)" by (metis surj_pair)
    have "facts_inv rt m [] d1" "db_remove (facts_abs s) f None = (facts_abs d1, r1)"
      using facts_remove_fact_internal_refines [OF inv _ room3 1] ok Op_remove by auto
    then show ?thesis using res 1 Op_remove by (auto simp: run_op_def db_run_op_def facts_remove_fact_local_def)
  next
    case (Op_remove_id f)
    obtain d1 r1 where 1: "facts_remove_fact_internal rt s f (Some (fact_id f)) = (d1, r1)" by (metis surj_pair)
    have "facts_inv rt m [] d1" "db_remove (facts_abs s) f (Some (fact_id f)) = (facts_abs d1, r1)"
      using facts_remove_fact_internal_refines [OF inv _ room3 1] ok Op_remove_id by auto
    then show ?thesis using res 1 Op_remove_id by (auto simp: run_op_def db_run_op_def facts_remove_fact_id_def)
  next
    case (Op_start p)
    then show ?thesis using facts_transaction_start_refines [OF inv] res by (simp add: run_op_def db_run_op_def)
  next
    case (Op_end p)
    then show ?thesis using facts_transaction_end_refines [OF inv no_replace] res by (simp add: run_op_def db_run_op_def)
  next
    case (Op_rollback p)
    then show ?thesis using facts_transaction_rollback_refines [OF inv room] res by (simp add: run_op_def db_run_op_def)
  qed
qed

lemma db_run_op_weight:
  assumes inv: "db_inv d" and res: "db_run_op d op = (d', r)" shows "db_weight d' \<le> db_weight d + 3"
proof (cases op)
  case (Op_add f)
  then show ?thesis using res fact_step_weight db_add_step [OF inv, of f]
    by (cases "db_add d f") (auto simp: db_run_op_def)
next
  case (Op_add_id f)
  then show ?thesis using res fact_step_weight db_add_id_step [OF inv, of f]
    by (cases "db_add_id d f") (auto simp: db_run_op_def)
next
  case (Op_remove f)
  then show ?thesis using res fact_step_weight db_remove_step [OF inv, of f None]
    by (cases "db_remove d f None") (auto simp: db_run_op_def)
next
  case (Op_remove_id f)
  then show ?thesis using res fact_step_weight db_remove_step [OF inv, of f "Some (fact_id f)"]
    by (cases "db_remove d f (Some (fact_id f))") (auto simp: db_run_op_def)
next
  case (Op_start p)
  then show ?thesis using res by (auto simp: db_run_op_def db_start_def db_weight_def db_actions_def split: if_splits)
next
  case (Op_end p)
  show ?thesis
  proof (cases "db_transaction d")
    case Nil
    then show ?thesis using res Op_end by (simp add: db_run_op_def db_end_def)
  next
    case t: (Cons t ts)
    show ?thesis
    proof (cases "tr_ptr t = p \<and> ts = []")
      case False
      then show ?thesis using res Op_end t
        by (auto simp: db_run_op_def db_end_def db_weight_def db_actions_def split: list.splits if_splits)
    next
      case True
      obtain d1 r1 where c: "db_commit_actions (d\<lparr>db_transaction := []\<rparr>) (rev (tr_log t)) = (d1, r1)"
        by (metis surj_pair)
      have "undo_ok (tr_log t) (db_map d)" using inv t True by (simp add: db_inv_def db_actions_def)
      then have "\<forall>a \<in> set (rev (tr_log t)). fa_action a \<noteq> FACT_ACTION_REPLACE" using undo_ok_actions by auto
      note spec = db_commit_actions_spec [OF this c]
      then have "d' = d1" using res Op_end t True c by (auto simp: db_run_op_def db_end_def)
      then show ?thesis using spec by (simp add: db_weight_def db_actions_def)
    qed
  qed
next
  case (Op_rollback p)
  show ?thesis
  proof (cases "list_ex (\<lambda>t. tr_ptr t = p) (db_transaction d)")
    case True
    then show ?thesis using db_rollback_undo [OF inv True] res Op_rollback
        card_undo_to_le [of p "db_transaction d" "db_map d"]
      by (auto simp: db_run_op_def db_weight_def db_actions_def)
  next
    case False
    then show ?thesis using res Op_rollback by (simp add: db_run_op_def db_rollback_def)
  qed
qed

lemma db_room_weight: "db_room d n \<longleftrightarrow> 3 * (db_weight d + 3 * n) < 2 ^ 64"
  by (simp add: db_room_def db_weight_def)

lemma durable_here:
  "durable ok (case db_log d of None \<Rightarrow> [] | Some l \<Rightarrow> log_records l) (committed d) d"
  by (auto simp: durable_def)

text \<open>What one operation of a run keeps.\<close>

lemma run_op_step:
  assumes inv: "facts_inv rt m [] s" "db_inv (facts_abs s)" and ok: "op_fact_ok rt m op"
    and room: "db_room (facts_abs s) (Suc n)" and res: "run_op rt s op = (s1, r)"
  shows "facts_inv rt m [] s1" "db_run_op (facts_abs s) op = (facts_abs s1, r)" "db_inv (facts_abs s1)"
    "durable (fact_ok rt m) R M (facts_abs s) \<Longrightarrow> durable (fact_ok rt m) R M (facts_abs s1)"
    "r \<noteq> Abort \<and> r \<noteq> Undef" "db_room (facts_abs s1) n" "db_weight (facts_abs s1) \<le> db_weight (facts_abs s) + 3"
proof -
  have room1: "db_room (facts_abs s) 1" using room by (simp add: db_room_weight)
  note ref = run_op_refines [OF inv ok room1 res]
  then show 1: "facts_inv rt m [] s1" "db_run_op (facts_abs s) op = (facts_abs s1, r)" by auto
  have acts: "\<forall>a \<in> set (db_actions (facts_abs s)). fact_ok rt m (fa_fact a)"
    using inv(1) by (simp add: facts_inv_def live_actions_def db_actions_def)
  show "db_inv (facts_abs s1)" "r \<noteq> Abort \<and> r \<noteq> Undef"
    using db_run_op_inv [OF inv(2) durable_here ok acts 1(2)] by simp_all
  show "durable (fact_ok rt m) R M (facts_abs s) \<Longrightarrow> durable (fact_ok rt m) R M (facts_abs s1)"
    using db_run_op_inv [OF inv(2) _ ok acts 1(2)] by blast
  show w: "db_weight (facts_abs s1) \<le> db_weight (facts_abs s) + 3"
    by (rule db_run_op_weight [OF inv(2) 1(2)])
  then show "db_room (facts_abs s1) n" using room by (simp add: db_room_weight)
qed

text \<open>The invariant of every reachable state, and the abstract run.\<close>

primrec db_run :: "db \<Rightarrow> facts_op list \<Rightarrow> db" where
  "db_run d [] = d"
| "db_run d (op # ops) = db_run (fst (db_run_op d op)) ops"

lemma facts_steps_all:
  assumes "facts_steps rt s ops s'" "facts_inv rt m [] s" "db_inv (facts_abs s)"
    "\<forall>op \<in> set ops. op_fact_ok rt m op" "db_room (facts_abs s) (length ops)"
  shows "facts_inv rt m [] s' \<and> db_inv (facts_abs s') \<and> facts_abs s' = db_run (facts_abs s) ops \<and>
    (durable (fact_ok rt m) R M (facts_abs s) \<longrightarrow> durable (fact_ok rt m) R M (facts_abs s')) \<and>
    db_weight (facts_abs s') \<le> db_weight (facts_abs s) + 3 * length ops"
  using assms
proof (induction rule: facts_steps.induct)
  case (steps_cons s op s1 r ops s2)
  have ok: "op_fact_ok rt m op" and room: "db_room (facts_abs s) (Suc (length ops))"
    using steps_cons.prems(3,4) by simp_all
  note st = run_op_step [OF steps_cons.prems(1,2) ok room steps_cons.hyps(1)]
  show ?case using steps_cons.IH [OF st(1,3) _ st(6)] steps_cons.prems(3) st(2,4,7) by auto
qed simp

lemmas facts_steps_inv = facts_steps_all [THEN conjunct1] facts_steps_all [THEN conjunct2, THEN conjunct1]
  and facts_steps_db_run = facts_steps_all [THEN conjunct2, THEN conjunct2, THEN conjunct1]
  and facts_steps_durable = facts_steps_all [THEN conjunct2, THEN conjunct2, THEN conjunct2, THEN conjunct1, THEN mp]
  and facts_steps_weight = facts_steps_all [THEN conjunct2, THEN conjunct2, THEN conjunct2, THEN conjunct2]

text \<open>Some run of the operations exists: none of them aborts or fails to return.\<close>

lemma facts_steps_exist:
  assumes "facts_inv rt m [] s" "db_inv (facts_abs s)" "\<forall>op \<in> set ops. op_fact_ok rt m op"
    "db_room (facts_abs s) (length ops)"
  shows "\<exists>s'. facts_steps rt s ops s'"
  using assms
proof (induction ops arbitrary: s)
  case (Cons op ops)
  obtain s1 r where 1: "run_op rt s op = (s1, r)" by (metis surj_pair)
  have ok: "op_fact_ok rt m op" and room: "db_room (facts_abs s) (Suc (length ops))"
    using Cons.prems(3,4) by simp_all
  note st = run_op_step [OF Cons.prems(1,2) ok room 1]
  then obtain s2 where "facts_steps rt s1 ops s2" using Cons.IH [of s1] Cons.prems(3) by auto
  then show ?case using st(5) 1 by (auto intro: steps_cons)
qed (auto intro: steps_nil)

section \<open>Rolling back to the start\<close>

text \<open>
  The transaction \<open>ptr\<close>, its outer transactions \<open>ts\<close>, and the facts \<open>M\<close> of its start, as seen
  from a state in which the transaction is open.
\<close>

definition opened :: "nat \<Rightarrow> transaction list \<Rightarrow> fact_map \<Rightarrow> db \<Rightarrow> bool" where
  "opened ptr ts M d \<longleftrightarrow> (\<exists>us t. db_transaction d = us @ t # ts \<and> tr_ptr t = ptr \<and>
    (\<forall>u \<in> set us. tr_ptr u \<noteq> ptr) \<and> undo (concat (map tr_log us) @ tr_log t) (db_map d) = M)"

text \<open>Operations that leave the transaction and the outer ones alone.\<close>

definition op_inside :: "nat \<Rightarrow> transaction list \<Rightarrow> facts_op \<Rightarrow> bool" where
  "op_inside ptr ts op \<longleftrightarrow> (case op of
      Op_start p \<Rightarrow> p \<noteq> ptr
    | Op_end p \<Rightarrow> p \<noteq> ptr
    | Op_rollback p \<Rightarrow> p \<notin> insert ptr (tr_ptr ` set ts)
    | _ \<Rightarrow> True)"

lemma opened_step: "opened ptr ts M d \<Longrightarrow> fact_step d d' \<Longrightarrow> opened ptr ts M d'"
proof -
  assume "opened ptr ts M d" and st: "fact_step d d'"
  then obtain us t where u: "db_transaction d = us @ t # ts" "tr_ptr t = ptr" "\<forall>u \<in> set us. tr_ptr u \<noteq> ptr"
    "undo (concat (map tr_log us) @ tr_log t) (db_map d) = M" by (auto simp: opened_def)
  from st consider "db_map d' = db_map d" "db_transaction d' = db_transaction d"
    | t0 ts0 a where "db_transaction d = t0 # ts0" "db_transaction d' = t0\<lparr>tr_log := a # tr_log t0\<rparr> # ts0"
      "undo1 a (db_map d') = db_map d"
    using u(1) by (auto simp: fact_step_def)
  then show ?thesis
  proof cases
    case 1
    then show ?thesis using u unfolding opened_def by metis
  next
    case (2 t0 ts0 a)
    show ?thesis
    proof (cases us)
      case Nil
      then show ?thesis using 2 u unfolding opened_def
        by (intro exI [of _ "[]"] exI [of _ "t\<lparr>tr_log := a # tr_log t\<rparr>"]) auto
    next
      case (Cons v vs)
      then show ?thesis using 2 u unfolding opened_def
        by (intro exI [of _ "v\<lparr>tr_log := a # tr_log v\<rparr> # vs"] exI [of _ t]) auto
    qed
  qed
qed

lemma undo_to_append:
  "list_ex (\<lambda>t. tr_ptr t = p) us \<Longrightarrow>
    undo_to p (us @ ts) M = undo_to p us M \<and> drop_to p (us @ ts) = drop_to p us @ ts"
  by (induction us arbitrary: M) auto

lemma undo_to_skip:
  "\<forall>u \<in> set us. tr_ptr u \<noteq> p \<Longrightarrow> tr_ptr t = p \<Longrightarrow>
    undo_to p (us @ t # ts) M = undo (concat (map tr_log us) @ tr_log t) M \<and> drop_to p (us @ t # ts) = ts"
  by (induction us arbitrary: M) auto

lemma opened_run_op:
  assumes o: "opened ptr ts M d" and inv: "db_inv d" and op: "op_inside ptr ts op" and res: "db_run_op d op = (d', r)"
  shows "opened ptr ts M d'"
proof -
  obtain us t where u: "db_transaction d = us @ t # ts" "tr_ptr t = ptr" "\<forall>u \<in> set us. tr_ptr u \<noteq> ptr"
    "undo (concat (map tr_log us) @ tr_log t) (db_map d) = M" using o by (auto simp: opened_def)
  show ?thesis
  proof (cases op)
    case (Op_add f)
    then show ?thesis using res opened_step [OF o] db_add_step [OF inv, of f]
      by (cases "db_add d f") (auto simp: db_run_op_def)
  next
    case (Op_add_id f)
    then show ?thesis using res opened_step [OF o] db_add_id_step [OF inv, of f]
      by (cases "db_add_id d f") (auto simp: db_run_op_def)
  next
    case (Op_remove f)
    then show ?thesis using res opened_step [OF o] db_remove_step [OF inv, of f None]
      by (cases "db_remove d f None") (auto simp: db_run_op_def)
  next
    case (Op_remove_id f)
    then show ?thesis using res opened_step [OF o] db_remove_step [OF inv, of f "Some (fact_id f)"]
      by (cases "db_remove d f (Some (fact_id f))") (auto simp: db_run_op_def)
  next
    case (Op_start p)
    then have p: "p \<noteq> ptr" "db_start d p = (d', r)" using res op by (auto simp: db_run_op_def op_inside_def)
    then consider "d' = d" | n i where
        "d' = d\<lparr>db_next_id := n, db_transaction := \<lparr>tr_ptr = p, tr_id = i, tr_log = [], tr_rolling_back = False\<rparr> # db_transaction d\<rparr>"
      by (auto simp: db_start_def split: if_splits)
    then show ?thesis
    proof cases
      case (2 n i)
      then show ?thesis using u p(1) unfolding opened_def
        by (intro exI [of _ "\<lparr>tr_ptr = p, tr_id = i, tr_log = [], tr_rolling_back = False\<rparr> # us"] exI [of _ t]) auto
    qed (use o in simp)
  next
    case (Op_end p)
    then have p: "p \<noteq> ptr" "db_end d p = (d', r)" using res op by (auto simp: db_run_op_def op_inside_def)
    show ?thesis
    proof (cases us)
      case Nil
      then show ?thesis using p u o by (simp add: db_end_def)
    next
      case (Cons v vs)
      obtain w ws where w: "vs @ t # ts = w # ws" by (cases vs) auto
      show ?thesis
      proof (cases "tr_ptr v = p")
        case False
        then show ?thesis using p u o Cons by (simp add: db_end_def)
      next
        case True
        then have d': "d' = d\<lparr>db_transaction := w\<lparr>tr_log := tr_log v @ tr_log w\<rparr> # ws\<rparr>"
          using p u Cons w by (simp add: db_end_def)
        show ?thesis
        proof (cases vs)
          case Nil
          then show ?thesis using u Cons w d' unfolding opened_def
            by (intro exI [of _ "[]"] exI [of _ "t\<lparr>tr_log := tr_log v @ tr_log t\<rparr>"]) auto
        next
          case (Cons x xs)
          then show ?thesis using u \<open>us = v # vs\<close> w d' unfolding opened_def
            by (intro exI [of _ "x\<lparr>tr_log := tr_log v @ tr_log x\<rparr> # xs"] exI [of _ t]) auto
        qed
      qed
    qed
  next
    case (Op_rollback p)
    then have p: "p \<noteq> ptr" "p \<notin> tr_ptr ` set ts" "db_rollback d p = (d', r)"
      using res op by (auto simp: db_run_op_def op_inside_def)
    show ?thesis
    proof (cases "list_ex (\<lambda>t. tr_ptr t = p) us")
      case False
      then have "\<not> list_ex (\<lambda>t. tr_ptr t = p) (db_transaction d)" using p u by (auto simp: list_ex_iff)
      then show ?thesis using p(3) o by (simp add: db_rollback_def)
    next
      case True
      then have "list_ex (\<lambda>t. tr_ptr t = p) (db_transaction d)" using u by simp
      from db_rollback_undo [OF inv this] p(3) obtain n where
        d': "d' = d\<lparr>db_map := undo_to p (db_transaction d) (db_map d), db_next_id := n,
          db_transaction := drop_to p (db_transaction d)\<rparr>" by auto
      show ?thesis
        using u undo_to_append [OF True, of "t # ts" "db_map d"] undo_to_rest [OF True, of "db_map d"] set_drop_to [of p us]
        unfolding opened_def d' by (intro exI [of _ "drop_to p us"] exI [of _ t]) auto
    qed
  qed
qed

lemma opened_start:
  assumes "db_start d ptr = (d', Ok ())"
  shows "opened ptr (db_transaction d) (db_map d) d'"
proof -
  obtain n i where d': "d' = d\<lparr>db_next_id := n, db_transaction :=
      \<lparr>tr_ptr = ptr, tr_id = i, tr_log = [], tr_rolling_back = False\<rparr> # db_transaction d\<rparr>"
    using assms by (auto simp: db_start_def split: if_splits)
  show ?thesis unfolding opened_def d'
    by (intro exI [of _ "[]"] exI [of _ "\<lparr>tr_ptr = ptr, tr_id = i, tr_log = [], tr_rolling_back = False\<rparr>"]) simp
qed

lemma opened_rollback:
  assumes o: "opened ptr ts M d" and inv: "db_inv d"
  shows "\<exists>d'. db_rollback d ptr = (d', Ok ()) \<and> db_map d' = M \<and> db_transaction d' = ts"
proof -
  obtain us t where u: "db_transaction d = us @ t # ts" "tr_ptr t = ptr" "\<forall>u \<in> set us. tr_ptr u \<noteq> ptr"
    "undo (concat (map tr_log us) @ tr_log t) (db_map d) = M" using o by (auto simp: opened_def)
  then have "list_ex (\<lambda>t. tr_ptr t = ptr) (db_transaction d)" by simp
  from db_rollback_undo [OF inv this] undo_to_skip [OF u(3,2)] u show ?thesis by auto
qed

lemma opened_run:
  assumes "facts_steps rt s ops s'" "facts_inv rt m [] s" "db_inv (facts_abs s)" "db_room (facts_abs s) (length ops + 1)"
    "\<forall>op \<in> set ops. op_fact_ok rt m op \<and> op_inside ptr ts op" "opened ptr ts M (facts_abs s)"
  shows "opened ptr ts M (facts_abs s') \<and> facts_inv rt m [] s' \<and> db_inv (facts_abs s') \<and> db_room (facts_abs s') 1"
  using assms
proof (induction rule: facts_steps.induct)
  case (steps_cons s op s1 r ops s2)
  have ok: "op_fact_ok rt m op" and room: "db_room (facts_abs s) (Suc (length ops + 1))"
    using steps_cons.prems(3,4) by simp_all
  note st = run_op_step [OF steps_cons.prems(1,2) ok room steps_cons.hyps(1)]
  have "opened ptr ts M (facts_abs s1)"
    using opened_run_op [OF steps_cons.prems(5,2) _ st(2)] steps_cons.prems(4) by simp
  then show ?case using steps_cons.IH [OF st(1,3,6)] steps_cons.prems(4) by simp
qed simp

end
