(* ===== verification/Facts_Recovery.thy ===== *)
theory Facts_Recovery
  imports Facts_Run
begin

text \<open>
  The empty database, and what reading the log back gives (\<open>facts_open_file\<close>, facts.c): the
  facts that were committed when the log was written.
\<close>

section \<open>The empty database\<close>

lemma facts_init_inv:
  assumes init: "facts_init table random = Some s"
  shows "facts_inv rt m [] s" "facts_map s = Map.empty" "db_inv (facts_abs s)"
    "facts_log s = None" "facts_transaction s = []" "committed (facts_abs s) = Map.empty"
proof -
  from init obtain ts fs where t: "set_init 1024 = Some ts" and f: "set_init 1024 = Some fs" and
    s: "s = \<lparr>facts_tags = ts, facts_facts = fs,
           facts_index = skiplist_init 20 table, facts_index_spo = skiplist_init 20 table,
           facts_index_pos = skiplist_init 20 table, facts_index_osp = skiplist_init 20 table,
           facts_log = None, facts_connections = [], facts_remove_log = [],
           facts_next_id = 1, facts_server_count = 0, facts_transaction = [],
           facts_random = random, facts_draws = 0\<rparr>"
    by (auto simp: facts_init_def split: option.splits)
  note ti = tag_set.init_spec [OF t] and fi = fact_set.init_spec [OF f]
  have map: "facts_map s = Map.empty" using fi by (simp add: facts_map_def s fun_eq_iff)
  have fs: "set_inv (fact_hash rt) fact_key (fact_ok rt m) (facts_facts s)" using fi by (simp add: s)
  have none: "facts_set s = {}" using facts_set_map [OF fs] map by auto
  have ix: "index_ok rt m cmp (skiplist_init 20 table) {}" for cmp :: "tag fact \<Rightarrow> tag fact \<Rightarrow> int"
    unfolding index_ok_def by (intro exI [of _ "[]"]) (simp add: skiplist_init_rep)
  have "tags_rep rt m (facts_tags s) (expected_refs s [])"
    using ti none by (simp add: tags_rep_def expected_refs_def live_actions_def s)
  then show "facts_inv rt m [] s"
    using fs none ix by (simp add: facts_inv_def s live_actions_def)
  show "facts_map s = Map.empty" by (fact map)
  show "facts_log s = None" "facts_transaction s = []" by (simp_all add: s)
  then show "db_inv (facts_abs s)" "committed (facts_abs s) = Map.empty"
    by (simp_all add: db_inv_def db_actions_def committed_def map)
qed

lemma facts_inv_log [simp]: "facts_inv rt m ps (s\<lparr>facts_log := l\<rparr>) = facts_inv rt m ps s"
  by (rule iffI; rule facts_inv_cong, assumption) (simp_all add: live_actions_def)

section \<open>Reading the records back\<close>

text \<open>
  The loop of \<open>facts_open_file\<close> over the records of the file.  The facts it holds while it runs
  have no log yet: \<open>facts->log\<close> is set after the loop.
\<close>

fun open_records :: "rt \<Rightarrow> facts \<Rightarrow> nat \<Rightarrow> log_record list \<Rightarrow> facts \<times> nat outcome" where
  "open_records rt s n [] = (s, Ok n)"
| "open_records rt s n ((eid, action, f) # rs) = (case action of
      FACT_ACTION_ADD \<Rightarrow> (case facts_add_fact_id rt s f of
          (s, Ok _) \<Rightarrow> open_records rt s (n + 1) rs
        | (s, Null) \<Rightarrow> (s, Null)
        | (s, Abort) \<Rightarrow> (s, Abort)
        | (s, Undef) \<Rightarrow> (s, Undef))
    | FACT_ACTION_REMOVE \<Rightarrow> (case facts_remove_fact_id rt s (set_fact_id f eid) of
          (s, Ok _) \<Rightarrow> open_records rt s (n + 1) rs
        | (s, Null) \<Rightarrow> (s, Null)
        | (s, Abort) \<Rightarrow> (s, Abort)
        | (s, Undef) \<Rightarrow> (s, Undef))
    | FACT_ACTION_REPLACE \<Rightarrow> (s, Null))"

definition db_idle :: "db \<Rightarrow> bool" where
  "db_idle d \<longleftrightarrow> db_log d = None \<and> db_transaction d = []"

lemma db_add_id_idle:
  assumes "db_idle d" "fact_id f \<noteq> UW_MAX" "db_add_id d f = (d', r)"
  shows "db_idle d' \<and> (\<exists>g. r = Ok g) \<and> db_map d' = replay1 (eid, FACT_ACTION_ADD, f) (db_map d)"
  using assms by (auto simp: db_idle_def db_add_id_def db_store_def db_blocked_def replay1_def Let_def split: option.splits)

lemma db_remove_id_idle:
  assumes "db_idle d" "eid \<noteq> UW_MAX" "db_remove d (set_fact_id f eid) (Some eid) = (d', r)"
  shows "db_idle d' \<and> (\<exists>b. r = Ok b) \<and> db_map d' = replay1 (eid, FACT_ACTION_REMOVE, f) (db_map d)"
proof -
  have nb: "\<not> ((case Some eid of None \<Rightarrow> False | Some e \<Rightarrow> e = UW_MAX \<or> db_transaction d \<noteq> []) \<or> db_blocked d)"
    using assms by (simp add: db_idle_def db_blocked_def)
  let ?k = "fact_key f"
  obtain g where g: "(case db_map d ?k of None \<Rightarrow> set_fact_id f eid | Some i \<Rightarrow> set_fact_id (set_fact_id f eid) i) = g" by blast
  have "\<exists>d1. db_event d g b (Some eid) = (d1, Some (eid, None)) \<and> db_idle d1 \<and> db_map d1 = db_map d" for b
    using assms(1) by (auto simp: db_event_def db_idle_def db_rolling_back_def db_send_def)
  then obtain d1 where d1: "db_event d g (db_map d ?k \<noteq> None) (Some eid) = (d1, Some (eid, None))"
    "db_idle d1" "db_map d1 = db_map d" by blast
  have "db_map d' = (db_map d)(?k := None)" "db_idle d'" "\<exists>b. r = Ok b"
    using assms(3) d1 unfolding db_remove_def if_not_P [OF nb] Let_def
    by (auto simp: g d1(1) db_idle_def fun_upd_idem split: if_splits)
  then show ?thesis by (simp add: replay1_def)
qed

lemma open_records_replay:
  assumes "facts_inv rt m [] s" "db_inv (facts_abs s)" "db_idle (facts_abs s)" "\<forall>r \<in> set rs. rec_ok (fact_ok rt m) r"
    "db_room (facts_abs s) (length rs)"
  shows "\<exists>s'. open_records rt s n rs = (s', Ok (n + length rs)) \<and> facts_inv rt m [] s' \<and>
    db_idle (facts_abs s') \<and> facts_map s' = replay rs (facts_map s)"
  using assms
proof (induction rs arbitrary: s n)
  case (Cons r rs)
  obtain eid action f where r: "r = (eid, action, f)" by (cases r) auto
  have ok: "fact_ok rt m f" "action = FACT_ACTION_ADD \<Longrightarrow> fact_id f \<noteq> UW_MAX"
    "action = FACT_ACTION_REMOVE \<Longrightarrow> eid \<noteq> UW_MAX" "action \<noteq> FACT_ACTION_REPLACE"
    using Cons.prems(4) by (auto simp: r rec_ok_def split: action_type.splits)
  have room1: "db_room (facts_abs s) 1" using Cons.prems(5) by (simp add: db_room_weight)
  have room3: "facts_room s [] 3" using db_room_facts [OF Cons.prems(1)] room1 by (simp add: db_room_def)
  have next_room: "db_room d1 (length rs)" if "fact_step (facts_abs s) d1" for d1
    using fact_step_weight [OF that] Cons.prems(5) by (simp add: db_room_weight)
  have fid: "fact_ok rt m (set_fact_id f eid)" using ok(1) by (cases f) (simp add: set_fact_id_def)
  have step: ?case if "facts_inv rt m [] s1" "db_idle (facts_abs s1)" "facts_map s1 = replay1 r (facts_map s)"
      "fact_step (facts_abs s) (facts_abs s1)" "open_records rt s n (r # rs) = open_records rt s1 (n + 1) rs"
      "db_inv (facts_abs s1)" for s1
    using Cons.IH [OF that(1,6,2) _ next_room [OF that(4)], of "n + 1"] Cons.prems(4) that(3,5) by auto
  have dur: "durable (fact_ok rt m) [] Map.empty (facts_abs s)"
    using Cons.prems(3) by (simp add: durable_def db_idle_def)
  show ?case
  proof (cases action)
    case FACT_ACTION_ADD
    obtain s1 r1 where 1: "facts_add_fact_id rt s f = (s1, r1)" by (metis surj_pair)
    have ref: "facts_inv rt m [] s1" "db_add_id (facts_abs s) f = (facts_abs s1, r1)"
      using facts_add_fact_id_refines [OF Cons.prems(1) ok(1) room3 1] by auto
    note idle = db_add_id_idle [OF Cons.prems(3) ok(2) [OF FACT_ACTION_ADD] ref(2), where eid = eid]
    then obtain g where "r1 = Ok g" by blast
    moreover have "db_inv (facts_abs s1)"
      using db_add_id_inv [OF Cons.prems(2) dur _ ref(2)] ok(1) by (cases f) (auto simp: set_fact_id_def)
    ultimately show ?thesis
      using step [OF ref(1)] idle db_add_id_step [OF Cons.prems(2) ref(2)] 1 FACT_ACTION_ADD r by simp
  next
    case FACT_ACTION_REMOVE
    obtain s1 r1 where 1: "facts_remove_fact_internal rt s (set_fact_id f eid) (Some eid) = (s1, r1)" by (metis surj_pair)
    have ref: "facts_inv rt m [] s1" "db_remove (facts_abs s) (set_fact_id f eid) (Some eid) = (facts_abs s1, r1)"
      using facts_remove_fact_internal_refines [OF Cons.prems(1) fid room3 1] by auto
    note idle = db_remove_id_idle [OF Cons.prems(3) ok(3) [OF FACT_ACTION_REMOVE] ref(2)]
    then obtain b where "r1 = Ok b" by blast
    moreover have "db_inv (facts_abs s1)"
      using db_remove_inv [OF Cons.prems(2) dur _ ref(2)] ok(1) by (cases f) (auto simp: set_fact_id_def)
    ultimately show ?thesis
      using step [OF ref(1)] idle db_remove_step [OF Cons.prems(2) ref(2)] 1 FACT_ACTION_REMOVE r
      by (simp add: facts_remove_fact_id_def set_fact_id_def)
  next
    case FACT_ACTION_REPLACE
    then show ?thesis using ok(4) by simp
  qed
qed simp

end
