(* ===== verification/Facts_Query.thy ===== *)
theory Facts_Query
  imports Facts_Cursor Facts_Recovery
begin

text \<open>
  What the queries return: \<open>facts_with_tags\<close> chooses an index in which the facts that match form an
  interval, and its cursor lists exactly them.  The last section is about bound variables, which \<open>facts_with_3\<close>
  leaves to the cursor.
\<close>

section \<open>Intervals of a sorted list\<close>

lemma takeWhile_antitone:
  "sorted_wrt (\<lambda>x y. P y \<longrightarrow> P x) xs \<Longrightarrow> takeWhile P xs = filter P xs \<and> dropWhile P xs = filter (\<lambda>x. \<not> P x) xs"
proof (induction xs)
  case (Cons x xs)
  show ?case
  proof (cases "P x")
    case False
    then have "\<forall>y \<in> set xs. \<not> P y" using Cons.prems by auto
    then have "filter P xs = []" "filter (\<lambda>x. \<not> P x) xs = xs" by (simp_all add: filter_empty_conv filter_id_conv)
    then show ?thesis using False by simp
  qed (use Cons in simp)
qed simp

lemma index_rep:
  assumes "facts_inv rt m ps s"
  obtains vs where "sl_rep (index_compare ix (cmp_tag rt)) (fact_ok rt m) (index_list s ix) vs" "set vs = facts_set s"
  using assms
  by (cases ix) (auto simp: facts_inv_def index_ok_def index_compare_def index_list_def)

lemma bound_splits:
  assumes k: "fact_all (bound_ok rt m) k" and vs: "\<forall>v \<in> set vs. fact_ok rt m v"
    "sorted_wrt (\<lambda>v w. index_compare ix (cmp_tag rt) v w < 0) vs"
  shows "sorted_wrt (\<lambda>v w. 0 < bound_compare rt ix k w \<longrightarrow> 0 < bound_compare rt ix k v) vs"
    "sorted_wrt (\<lambda>v w. \<not> bound_compare rt ix k w < 0 \<longrightarrow> \<not> bound_compare rt ix k v < 0) vs"
  by (rule sorted_wrt_mono_rel [OF _ vs(2)]; use vs(1) bound_compare_mono [OF k] in blast)+

definition past_start :: "rt \<Rightarrow> facts_index \<Rightarrow> tag_bound fact option \<Rightarrow> tag fact \<Rightarrow> bool" where
  "past_start rt ix start f \<longleftrightarrow> (case start of None \<Rightarrow> True | Some k \<Rightarrow> \<not> 0 < bound_compare rt ix k f)"

text \<open>Reading a new cursor to its end.\<close>

lemma collect_interval:
  assumes inv: "facts_inv rt m ps s" and start: "\<forall>k. start = Some k \<longrightarrow> fact_all (bound_ok rt m) k"
    and stop: "fact_all (bound_ok rt m) (cur_end c)" and c: "cur_index c = ix"
  shows "\<exists>p fs. start_node rt s ix start = Some (Some p) \<and>
    (cur_node c = Some p \<longrightarrow> collect_facts rt s vs c [] = Some (reset_vars c vs, Ok fs)) \<and>
    distinct fs \<and> sorted_wrt (\<lambda>f g. index_compare ix (cmp_tag rt) g f < 0) fs \<and>
    set fs = {f \<in> facts_set s. cursor_matches vs c f \<and> past_start rt ix start f \<and> \<not> bound_compare rt ix (cur_end c) f < 0}"
proof -
  let ?sl = "index_list s ix" and ?cmp = "index_compare ix (cmp_tag rt)"
  obtain ws where ws: "sl_rep ?cmp (fact_ok rt m) ?sl ws" "set ws = facts_set s"
    using index_rep [OF inv] by blast
  obtain ids where ids: "sl_ids ?cmp (fact_ok rt m) ?sl ids" "ws = map (sl_fact ?sl) ids"
    using ws(1) by (auto simp: sl_rep_def)
  have ok: "\<forall>v \<in> set ws. fact_ok rt m v" and sorted: "sorted_wrt (\<lambda>v w. ?cmp v w < 0) ws"
    using index.rep_sorted [OF ws(1)] by auto
  let ?P = "\<lambda>p. \<not> past_start rt ix start (sl_fact ?sl p)"
  have anti: "sorted_wrt (\<lambda>v w. \<not> past_start rt ix start w \<longrightarrow> \<not> past_start rt ix start v) ws"
    using start bound_splits(1) [OF _ ok sorted] by (cases start) (auto simp: past_start_def)
  then have anti': "sorted_wrt (\<lambda>p q. ?P q \<longrightarrow> ?P p) ids" by (simp add: ids(2) sorted_wrt_map)
  define L R where "L = filter ?P ids" and "R = filter (\<lambda>p. \<not> ?P p) ids"
  have LR: "ids = L @ R" using takeWhile_antitone [OF anti'] takeWhile_dropWhile_id [of ?P ids] by (simp add: L_def R_def)
  have pred: "start_node rt s ix start = Some (Some (last (sl_head ?sl # L)))"
  proof (cases start)
    case None
    then show ?thesis by (simp add: start_node_def L_def past_start_def)
  next
    case (Some k)
    have l: "\<forall>p \<in> set L. 0 < bound_compare rt ix k (sl_fact ?sl p)" "\<forall>p \<in> set R. \<not> 0 < bound_compare rt ix k (sl_fact ?sl p)"
      by (auto simp: L_def R_def past_start_def Some)
    have "filter (\<lambda>p. 0 < sl_height ?sl p) L = L" "0 < sl_max_height ?sl"
      using ids(1) LR by (auto simp: sl_ids_def filter_id_conv)
    then show ?thesis
      using skiplist_pred_split [where kcmp = "bound_compare rt ix", OF ids(1) [unfolded LR] l] Some
      by (simp add: start_node_def)
  qed
  have "chain (node_next ?sl 0) (node_next ?sl 0 (sl_head ?sl)) (L @ R)"
  proof -
    have "filter (\<lambda>p. 0 < sl_height ?sl p) ids = ids" using ids(1) by (auto simp: sl_ids_def filter_id_conv)
    then show ?thesis using ids(1) LR by (auto simp: sl_ids_def)
  qed
  then have ch: "chain (node_next ?sl 0) (node_next ?sl 0 (last (sl_head ?sl # L))) R"
    by (cases L rule: rev_cases) (auto dest: chain_suffix)
  define fs where "fs = rev (filter (cursor_matches vs c) (takeWhile (\<lambda>f. \<not> bound_compare rt ix (cur_end c) f < 0) (map (sl_fact ?sl) R)))"
  have nodes: "\<forall>q \<in> set R. node_fact (sl_node ?sl q) \<noteq> None" using ids(1) LR by (auto simp: sl_ids_def)
  have coll: "collect_facts rt s vs c [] = Some (reset_vars c vs, Ok fs)" if "cur_node c = Some (last (sl_head ?sl # L))"
    using collect_from [of s c "last (sl_head ?sl # L)" R vs vs rt "[]"] ch nodes that c
    by (simp add: fs_def same_but_def)
  have R: "map (sl_fact ?sl) R = filter (past_start rt ix start) ws"
    by (simp add: R_def ids(2) filter_map comp_def)
  have "sorted_wrt (\<lambda>v w. ?cmp v w < 0) (map (sl_fact ?sl) R)" "\<forall>v \<in> set (map (sl_fact ?sl) R). fact_ok rt m v"
    using ok sorted unfolding R by (auto intro: sorted_wrt_filter)
  note sp = takeWhile_antitone [OF bound_splits(2) [OF stop this(2,1)]]
  have fs: "fs = rev (filter (cursor_matches vs c) (filter (\<lambda>f. \<not> bound_compare rt ix (cur_end c) f < 0) (filter (past_start rt ix start) ws)))"
    unfolding fs_def R using sp R by simp
  have sorted_fs: "sorted_wrt (\<lambda>f g. ?cmp g f < 0) fs"
    using sorted unfolding fs by (simp add: sorted_wrt_rev sorted_wrt_filter)
  have "distinct ws"
  proof -
    have "\<not> ?cmp v v < 0" if "v \<in> set ws" for v using index.cmp_self [where m = m] ok that by simp
    then show ?thesis using sorted by (induction ws) auto
  qed
  then have "distinct fs" by (simp add: fs)
  moreover have "set fs = {f \<in> facts_set s. cursor_matches vs c f \<and> past_start rt ix start f \<and> \<not> bound_compare rt ix (cur_end c) f < 0}"
    unfolding fs ws(2) [symmetric] by auto
  ultimately show ?thesis using pred coll sorted_fs by blast
qed

section \<open>The facts that match a query\<close>

definition arg_ok :: "rt \<Rightarrow> bool \<Rightarrow> vars \<Rightarrow> tag \<Rightarrow> bool" where
  "arg_ok rt m vs t \<longleftrightarrow> (case t of TPvar i \<Rightarrow> var_value vs i = None | _ \<Rightarrow> tag_ok rt m t)"

definition arg_matches :: "vars \<Rightarrow> tag \<Rightarrow> tag \<Rightarrow> bool" where
  "arg_matches vs p t \<longleftrightarrow> (case p of TPvar i \<Rightarrow> bind_type vs (Some i) t | _ \<Rightarrow> t = p)"

definition query_matches :: "vars \<Rightarrow> tag \<Rightarrow> tag \<Rightarrow> tag \<Rightarrow> tag fact \<Rightarrow> bool" where
  "query_matches vs x y z f \<longleftrightarrow> arg_matches vs x (fact_subject f) \<and> arg_matches vs y (fact_predicate f) \<and>
    arg_matches vs z (fact_object f)"

lemma unbound_var_cases:
  assumes "arg_ok rt m vs t"
  obtains (var) i where "t = TPvar i" "unbound_var vs t = Some i" "var_value vs i = None"
    | (tag) "unbound_var vs t = None" "tag_ok rt m t" "tag_resolve vs t = Some t"
      "arg_matches vs t = (\<lambda>u. u = t)"
proof (cases "\<exists>i. t = TPvar i")
  case True
  then show ?thesis using assms var by (auto simp: arg_ok_def unbound_var_def tag_is_unbound_var_def)
next
  case False
  then have "unbound_var vs t = None" "tag_ok rt m t" "arg_matches vs t = (\<lambda>u. u = t)"
    using assms by (auto simp: arg_ok_def unbound_var_def arg_matches_def fun_eq_iff split: tag.splits)
  moreover have "tag_resolve vs t = Some t" using False by (subst tag_resolve.simps) (simp split: tag.split)
  ultimately show ?thesis using tag by blast
qed

text \<open>The bounds of one argument.\<close>

definition low_bound :: "vars \<Rightarrow> tag \<Rightarrow> tag_bound" where
  "low_bound vs t = (if unbound_var vs t \<noteq> None then Tag_first else Tag_at t)"

definition high_bound :: "vars \<Rightarrow> tag \<Rightarrow> tag_bound" where
  "high_bound vs t = (if unbound_var vs t \<noteq> None then Tag_last else Tag_at t)"

definition low_fact :: "vars \<Rightarrow> tag \<Rightarrow> tag \<Rightarrow> tag \<Rightarrow> tag_bound fact" where
  "low_fact vs x y z = Fact (low_bound vs x) (low_bound vs y) (low_bound vs z) 0"

definition high_fact :: "vars \<Rightarrow> tag \<Rightarrow> tag \<Rightarrow> tag \<Rightarrow> tag_bound fact" where
  "high_fact vs x y z = Fact (high_bound vs x) (high_bound vs y) (high_bound vs z) 0"

lemma bound_resolves:
  assumes "arg_ok rt m vs t"
  shows "bound_resolve vs (low_bound vs t) = Some (low_bound vs t)" "bound_resolve vs (high_bound vs t) = Some (high_bound vs t)"
    "bound_ok rt m (low_bound vs t)" "bound_ok rt m (high_bound vs t)"
  using assms by (cases rule: unbound_var_cases; simp add: low_bound_def high_bound_def bound_resolve_def)+

lemma fact_resolves:
  assumes "arg_ok rt m vs x" "arg_ok rt m vs y" "arg_ok rt m vs z"
  shows "fact_resolve vs (low_fact vs x y z) = Some (low_fact vs x y z)"
    "fact_resolve vs (high_fact vs x y z) = Some (high_fact vs x y z)"
    "fact_all (bound_ok rt m) (low_fact vs x y z)" "fact_all (bound_ok rt m) (high_fact vs x y z)"
  using assms bound_resolves [where rt = rt and m = m and vs = vs]
  by (simp_all add: fact_resolve_def low_fact_def high_fact_def fact_all_def)

text \<open>One argument: inside the bounds means equal, or unbound.\<close>

lemma arg_between:
  assumes "arg_ok rt m vs t" "tag_ok rt m u"
  shows "unbound_var vs t \<noteq> None \<Longrightarrow> compare_bound (rt_mp rt) (low_bound vs t) (Tag_at u) = -1 \<and>
      compare_bound (rt_mp rt) (high_bound vs t) (Tag_at u) = 1"
    "unbound_var vs t = None \<Longrightarrow> low_bound vs t = Tag_at t \<and> high_bound vs t = Tag_at t \<and>
      (compare_tag (rt_mp rt) t u = 0 \<longleftrightarrow> u = t)"
proof -
  show "unbound_var vs t \<noteq> None \<Longrightarrow> compare_bound (rt_mp rt) (low_bound vs t) (Tag_at u) = -1 \<and>
      compare_bound (rt_mp rt) (high_bound vs t) (Tag_at u) = 1"
    by (simp add: low_bound_def high_bound_def)
  assume "unbound_var vs t = None"
  with assms(1) have "tag_ok rt m t" by (cases rule: unbound_var_cases) auto
  then have "compare_tag (rt_mp rt) t u = 0 \<longleftrightarrow> u = t"
    using tags.zero_iff [of rt m t u] assms(2) by (auto simp: cmp_tag_def)
  with \<open>unbound_var vs t = None\<close>
  show "low_bound vs t = Tag_at t \<and> high_bound vs t = Tag_at t \<and> (compare_tag (rt_mp rt) t u = 0 \<longleftrightarrow> u = t)"
    by (simp add: low_bound_def high_bound_def)
qed

definition query_index :: "vars \<Rightarrow> tag \<Rightarrow> tag \<Rightarrow> tag \<Rightarrow> facts_index" where
  "query_index vs x y z =
    (if unbound_var vs x = None \<and> (unbound_var vs z \<noteq> None \<or> unbound_var vs y = None) then Index_spo
     else if unbound_var vs x \<noteq> None \<and> unbound_var vs y \<noteq> None \<and> unbound_var vs z \<noteq> None then Index_spo
     else if unbound_var vs y = None then Index_pos else Index_osp)"

text \<open>
  Lexicographic bounds whose unbound parts come last: being between them means that the bound
  parts agree.
\<close>

definition part_between :: "bool \<Rightarrow> bool \<Rightarrow> int \<Rightarrow> int \<Rightarrow> bool" where
  "part_between u q l h \<longleftrightarrow> (if u then l = -1 \<and> h = 1 else l = h \<and> (l = 0 \<longleftrightarrow> q))"

lemma part_between_last: "part_between u q l h \<Longrightarrow> \<not> 0 < l \<and> \<not> h < 0 \<longleftrightarrow> u \<or> q"
  by (cases u) (auto simp: part_between_def)

lemma part_between_lexi:
  "part_between u q l h \<Longrightarrow> \<not> 0 < lexi l r \<and> \<not> lexi h s < 0 \<longleftrightarrow> u \<or> q \<and> \<not> 0 < r \<and> \<not> s < 0"
  by (cases u) (auto simp: part_between_def lexi_def)

lemma lexi_between:
  assumes "part_between u1 q1 l1 h1" "part_between u2 q2 l2 h2" "part_between u3 q3 l3 h3" "u1 \<longrightarrow> u2" "u2 \<longrightarrow> u3"
  shows "\<not> 0 < lexi l1 (lexi l2 l3) \<and> \<not> lexi h1 (lexi h2 h3) < 0 \<longleftrightarrow> (\<not> u1 \<longrightarrow> q1) \<and> (\<not> u2 \<longrightarrow> q2) \<and> (\<not> u3 \<longrightarrow> q3)"
  unfolding part_between_lexi [OF assms(1)] part_between_lexi [OF assms(2)] part_between_last [OF assms(3)]
  using assms(4,5) by blast

lemma arg_part:
  assumes "arg_ok rt m vs t" "tag_ok rt m u"
  shows "part_between (unbound_var vs t \<noteq> None) (u = t)
    (compare_bound (rt_mp rt) (low_bound vs t) (Tag_at u)) (compare_bound (rt_mp rt) (high_bound vs t) (Tag_at u))"
  using arg_between [OF assms] by (cases "unbound_var vs t = None") (simp_all add: part_between_def)

lemma query_index_shape:
  obtains (spo) "query_index vs x y z = Index_spo" "unbound_var vs x \<noteq> None \<longrightarrow> unbound_var vs y \<noteq> None"
      "unbound_var vs y \<noteq> None \<longrightarrow> unbound_var vs z \<noteq> None"
    | (pos) "query_index vs x y z = Index_pos" "unbound_var vs y = None" "unbound_var vs x \<noteq> None"
    | (osp) "query_index vs x y z = Index_osp" "unbound_var vs z = None" "unbound_var vs y \<noteq> None"
  by (cases "unbound_var vs x"; cases "unbound_var vs y"; cases "unbound_var vs z"; simp add: query_index_def)

lemma query_between:
  assumes args: "arg_ok rt m vs x" "arg_ok rt m vs y" "arg_ok rt m vs z" and f: "fact_ok rt m f"
    and ix: "ix = query_index vs x y z"
  shows "\<not> 0 < bound_compare rt ix (low_fact vs x y z) f \<and> \<not> bound_compare rt ix (high_fact vs x y z) f < 0 \<longleftrightarrow>
    (unbound_var vs x = None \<longrightarrow> fact_subject f = x) \<and> (unbound_var vs y = None \<longrightarrow> fact_predicate f = y) \<and>
    (unbound_var vs z = None \<longrightarrow> fact_object f = z)"
proof -
  obtain a b c i where f': "f = Fact a b c i" by (cases f)
  have ok: "tag_ok rt m a" "tag_ok rt m b" "tag_ok rt m c" using f by (simp_all add: f')
  note p = arg_part [OF args(1) ok(1)] arg_part [OF args(2) ok(2)] arg_part [OF args(3) ok(3)]
  show ?thesis
  proof (cases rule: query_index_shape [where vs = vs and x = x and y = y and z = z])
    case spo
    then show ?thesis using lexi_between [OF p(1,2,3)]
      by (simp add: ix f' bound_compare_def index_compare_def low_fact_def high_fact_def compare_fact_spo_def)
  next
    case pos
    then show ?thesis using lexi_between [OF p(2,3,1)]
      by (auto simp: ix f' bound_compare_def index_compare_def low_fact_def high_fact_def compare_fact_pos_def)
  next
    case osp
    then show ?thesis using lexi_between [OF p(3,1,2)]
      by (auto simp: ix f' bound_compare_def index_compare_def low_fact_def high_fact_def compare_fact_osp_def)
  qed
qed

section \<open>The result of a query\<close>

text \<open>The bounds of the cursor that \<open>facts_with_tags\<close> makes.\<close>

definition query_start :: "vars \<Rightarrow> tag \<Rightarrow> tag \<Rightarrow> tag \<Rightarrow> tag_bound fact option" where
  "query_start vs x y z = (if unbound_var vs x \<noteq> None \<and> unbound_var vs y \<noteq> None \<and> unbound_var vs z \<noteq> None
    then None else Some (low_fact vs x y z))"

definition query_stop :: "vars \<Rightarrow> tag \<Rightarrow> tag \<Rightarrow> tag \<Rightarrow> tag_bound fact" where
  "query_stop vs x y z = (if query_start vs x y z = None then last_fact else high_fact vs x y z)"

definition query_cursor :: "vars \<Rightarrow> tag \<Rightarrow> tag \<Rightarrow> tag \<Rightarrow> nat \<Rightarrow> facts_cursor" where
  "query_cursor vs x y z p = \<lparr>cur_index = query_index vs x y z, cur_node = Some p,
    cur_start = (case query_start vs x y z of None \<Rightarrow> first_fact | Some k \<Rightarrow> k), cur_end = query_stop vs x y z,
    cur_subject = unbound_var vs x, cur_predicate = unbound_var vs y, cur_object = unbound_var vs z\<rparr>"

lemma low_high: "unbound_var vs t = None \<Longrightarrow> low_bound vs t = Tag_at t \<and> high_bound vs t = Tag_at t"
  "unbound_var vs t = Some i \<Longrightarrow> low_bound vs t = Tag_first \<and> high_bound vs t = Tag_last"
  by (simp_all add: low_bound_def high_bound_def)

lemma facts_with_tags_cursor:
  assumes args: "arg_ok rt m vs x" "arg_ok rt m vs y" "arg_ok rt m vs z"
    and start: "start_node rt s (query_index vs x y z) (query_start vs x y z) = Some (Some p)"
  shows "facts_with_tags rt s vs x y z = Ok (query_cursor vs x y z p)"
  using start fact_resolves [OF args]
  by (cases "unbound_var vs x"; cases "unbound_var vs y"; cases "unbound_var vs z")
     (simp_all add: facts_with_tags_def facts_with_0_def facts_with_3_def facts_with_1_2_def facts_cursor_init_def
        cursor_set_vars_def query_cursor_def query_stop_def query_start_def query_index_def low_fact_def high_fact_def low_high Let_def)

lemma reset_unbound:
  assumes "arg_ok rt m vs x" "arg_ok rt m vs y" "arg_ok rt m vs z"
  shows "reset_vars (query_cursor vs x y z p) vs = vs"
proof -
  have "reset_var (unbound_var vs t) vs = vs" if "arg_ok rt m vs t" for t
    using that by (cases rule: unbound_var_cases) (simp_all add: reset_var_def var_reset_def fun_upd_idem)
  with assms show ?thesis by (simp add: reset_vars_def query_cursor_def)
qed

lemma arg_matches_split:
  "arg_ok rt m vs t \<Longrightarrow> arg_matches vs t u \<longleftrightarrow> bind_type vs (unbound_var vs t) u \<and> (unbound_var vs t = None \<longrightarrow> u = t)"
  by (cases rule: unbound_var_cases) (simp_all add: bind_type_def, simp_all add: arg_matches_def bind_type_def)

lemma query_holds:
  assumes args: "arg_ok rt m vs x" "arg_ok rt m vs y" "arg_ok rt m vs z" and f: "fact_ok rt m f"
  shows "cursor_matches vs (query_cursor vs x y z p) f \<and>
      past_start rt (query_index vs x y z) (query_start vs x y z) f \<and>
      \<not> bound_compare rt (query_index vs x y z) (query_stop vs x y z) f < 0 \<longleftrightarrow> query_matches vs x y z f"
proof -
  have "past_start rt (query_index vs x y z) (query_start vs x y z) f \<and>
      \<not> bound_compare rt (query_index vs x y z) (query_stop vs x y z) f < 0 \<longleftrightarrow>
    \<not> 0 < bound_compare rt (query_index vs x y z) (low_fact vs x y z) f \<and>
      \<not> bound_compare rt (query_index vs x y z) (high_fact vs x y z) f < 0"
  proof (cases "query_start vs x y z = None")
    case False
    then show ?thesis by (auto simp: query_stop_def past_start_def query_start_def)
  next
    case True
    then obtain i j k where "unbound_var vs x = Some i" "unbound_var vs y = Some j" "unbound_var vs z = Some k"
      by (auto simp: query_start_def split: if_splits)
    then show ?thesis using True
      by (cases f) (simp add: past_start_def query_stop_def query_index_def low_fact_def high_fact_def low_high last_fact_def
          bound_compare_def index_compare_def compare_fact_spo_def lexi_def)
  qed
  note bounds = this
  have m: "query_matches vs x y z f \<longleftrightarrow>
      (bind_type vs (unbound_var vs x) (fact_subject f) \<and> (unbound_var vs x = None \<longrightarrow> fact_subject f = x)) \<and>
      (bind_type vs (unbound_var vs y) (fact_predicate f) \<and> (unbound_var vs y = None \<longrightarrow> fact_predicate f = y)) \<and>
      (bind_type vs (unbound_var vs z) (fact_object f) \<and> (unbound_var vs z = None \<longrightarrow> fact_object f = z))"
    unfolding query_matches_def by (simp only: arg_matches_split [OF args(1)] arg_matches_split [OF args(2)] arg_matches_split [OF args(3)])
  have c: "cursor_matches vs (query_cursor vs x y z p) f \<longleftrightarrow> bind_type vs (unbound_var vs x) (fact_subject f) \<and>
      bind_type vs (unbound_var vs y) (fact_predicate f) \<and> bind_type vs (unbound_var vs z) (fact_object f)"
    by (simp add: cursor_matches_def query_cursor_def)
  show ?thesis unfolding bounds query_between [OF args f refl] m c by blast
qed

lemma query_exact:
  assumes inv: "facts_inv rt m ps s" and args: "arg_ok rt m vs x" "arg_ok rt m vs y" "arg_ok rt m vs z"
  shows "\<exists>c fs. facts_with_tags rt s vs x y z = Ok c \<and> collect_facts rt s vs c [] = Some (vs, Ok fs) \<and>
    distinct fs \<and> sorted_wrt (\<lambda>f g. index_compare (cur_index c) (cmp_tag rt) g f < 0) fs \<and>
    set fs = {f \<in> facts_set s. query_matches vs x y z f}"
proof -
  let ?ix = "query_index vs x y z" and ?start = "query_start vs x y z"
  have start: "\<forall>k. ?start = Some k \<longrightarrow> fact_all (bound_ok rt m) k"
    using fact_resolves(3) [OF args] by (simp add: query_start_def)
  have stop: "fact_all (bound_ok rt m) (query_stop vs x y z)"
    using fact_resolves(4) [OF args] by (simp add: query_stop_def last_fact_def fact_all_def)
  have i: "\<exists>p' fs. start_node rt s ?ix ?start = Some (Some p') \<and>
      (p = p' \<longrightarrow> collect_facts rt s vs (query_cursor vs x y z p) [] = Some (reset_vars (query_cursor vs x y z p) vs, Ok fs)) \<and>
      distinct fs \<and> sorted_wrt (\<lambda>f g. index_compare ?ix (cmp_tag rt) g f < 0) fs \<and>
      set fs = {f \<in> facts_set s. cursor_matches vs (query_cursor vs x y z p) f \<and> past_start rt ?ix ?start f \<and>
        \<not> bound_compare rt ?ix (query_stop vs x y z) f < 0}" for p
    using collect_interval [OF inv start, of "query_cursor vs x y z p" ?ix vs] stop by (simp add: query_cursor_def)
  obtain p where p: "start_node rt s ?ix ?start = Some (Some p)" using i [of 0] by blast
  let ?c = "query_cursor vs x y z p"
  obtain fs where fs: "collect_facts rt s vs ?c [] = Some (reset_vars ?c vs, Ok fs)" "distinct fs"
    "sorted_wrt (\<lambda>f g. index_compare ?ix (cmp_tag rt) g f < 0) fs"
    "set fs = {f \<in> facts_set s. cursor_matches vs ?c f \<and> past_start rt ?ix ?start f \<and>
      \<not> bound_compare rt ?ix (query_stop vs x y z) f < 0}"
    using i [of p] p by auto
  have "set fs = {f \<in> facts_set s. query_matches vs x y z f}"
    unfolding fs(4) using query_holds [OF args, of _ p] facts_set_ok [OF inv] by blast
  then show ?thesis
    using facts_with_tags_cursor [OF args p] fs reset_unbound [OF args, of p] by (auto simp: query_cursor_def)
qed

section \<open>Three given arguments\<close>

text \<open>
  An argument \<open>t\<close> stands for the tag \<open>u\<close>: it is \<open>u\<close>, or a variable bound to \<open>u\<close>.
\<close>

definition stands_for :: "vars \<Rightarrow> tag \<Rightarrow> tag \<Rightarrow> bool" where
  "stands_for vs t u \<longleftrightarrow> tag_type u \<noteq> 36 \<and> (t = u \<or> (\<exists>i. t = TPvar i \<and> var_value vs i = Some u))"

lemma tag_type_pvar: "tag_type u = 36 \<longleftrightarrow> (\<exists>i. u = TPvar i)"
  by (cases u) simp_all

lemma stands_for_resolve:
  assumes "stands_for vs t u"
  shows "unbound_var vs t = None" "tag_resolve vs t = Some u"
proof -
  have "tag_resolve vs u = Some u" "unbound_var vs u = None"
    using assms by (subst tag_resolve.simps, auto simp: stands_for_def unbound_var_def split: tag.splits)
  then show "unbound_var vs t = None" "tag_resolve vs t = Some u"
    using assms by (auto simp: stands_for_def unbound_var_def tag_is_unbound_var_def tag_resolve.simps [of _ "TPvar _"])
qed

lemma stands_for_compare:
  assumes "stands_for vs t u" "tag_ok rt m u"
  shows "tag_ok rt m t" "compare_tag (rt_mp rt) t u = (if t = u then 0 else if 36 < tag_type u then -1 else 1)"
proof -
  show "tag_ok rt m t"
    using assms by (auto simp: stands_for_def tag_ok_def tags_canonical_def order_ok.simps [of _ "TPvar _"]
        canonical.simps [of "TPvar _"] order_local_def canonical_local_def)
  show "compare_tag (rt_mp rt) t u = (if t = u then 0 else if 36 < tag_type u then -1 else 1)"
  proof (cases "t = u")
    case True
    then show ?thesis using tags.zero_iff [of rt m u u] assms(2) by (simp add: cmp_tag_def)
  next
    case False
    then obtain i where t: "t = TPvar i" "tag_type u \<noteq> 36" using assms(1) by (auto simp: stands_for_def)
    then have "compare_tag_rows (rt_mp rt) t u = None" by (intro compare_tag_rows_None) simp_all
    then show ?thesis using t False by (simp add: compare_tag.simps [of _ "TPvar _"])
  qed
qed

text \<open>
  The search for the start compares the arguments as they are with a stored fact, in the order of
  the index subject, predicate, object: for the fact that they stand for, the first argument that is
  a variable decides, by the number of its value's type.
\<close>

definition query_reaches :: "tag \<Rightarrow> tag \<Rightarrow> tag \<Rightarrow> tag \<Rightarrow> tag \<Rightarrow> tag \<Rightarrow> bool" where
  "query_reaches a x b y c z \<longleftrightarrow>
    (if a \<noteq> x then 36 < tag_type x else if b \<noteq> y then 36 < tag_type y else if c \<noteq> z then 36 < tag_type z else True)"

lemma query_reaches_compare:
  assumes "stands_for vs a x" "stands_for vs b y" "stands_for vs c z" "tag_ok rt m x" "tag_ok rt m y" "tag_ok rt m z"
  shows "compare_fact_spo (cmp_tag rt) (Fact a b c i) (Fact x y z j) \<le> 0 \<longleftrightarrow> query_reaches a x b y c z"
  using stands_for_compare(2) [OF assms(1,4)] stands_for_compare(2) [OF assms(2,5)] stands_for_compare(2) [OF assms(3,6)]
  by (simp add: query_reaches_def compare_fact_spo_def cmp_tag_def lexi_def)

lemma bound_compare_tags:
  "bound_compare rt Index_spo (Fact (Tag_at a) (Tag_at b) (Tag_at c) i) f = compare_fact_spo (cmp_tag rt) (Fact a b c j) f"
  by (cases f) (simp add: bound_compare_def index_compare_def compare_fact_spo_def cmp_tag_def)

lemma given_query:
  assumes inv: "facts_inv rt m ps s" and args: "stands_for vs a x" "stands_for vs b y" "stands_for vs c z"
    and ok: "tag_ok rt m x" "tag_ok rt m y" "tag_ok rt m z"
  shows "\<exists>cur fs. facts_with_tags rt s vs a b c = Ok cur \<and> collect_facts rt s vs cur [] = Some (vs, Ok fs) \<and> distinct fs \<and>
    set fs = {f \<in> facts_set s. compare_fact_spo (cmp_tag rt) (Fact a b c 0) f \<le> 0 \<and>
      compare_fact_spo (cmp_tag rt) f (Fact x y z 0) \<le> 0} \<and>
    (if query_reaches a x b y c z then \<forall>i. Fact x y z i \<in> facts_set s \<longrightarrow> Fact x y z i \<in> set fs else fs = [])"
proof -
  let ?k = "Fact (Tag_at a) (Tag_at b) (Tag_at c) 0" and ?e = "Fact (Tag_at x) (Tag_at y) (Tag_at z) 0"
  let ?cmp = "compare_fact_spo (cmp_tag rt)"
  let ?c = "\<lambda>p. \<lparr>cur_index = Index_spo, cur_node = Some p, cur_start = ?e, cur_end = ?e,
    cur_subject = None, cur_predicate = None, cur_object = None\<rparr>"
  note r = stands_for_resolve [OF args(1)] stands_for_resolve [OF args(2)] stands_for_resolve [OF args(3)]
  have key_ok: "tag_ok rt m a" "tag_ok rt m b" "tag_ok rt m c"
    using stands_for_compare(1) args ok by blast+
  have hyp: "\<forall>k. Some ?k = Some k \<longrightarrow> fact_all (bound_ok rt m) k" "fact_all (bound_ok rt m) (cur_end (?c p))"
    "cur_index (?c p) = Index_spo" for p
    using ok key_ok by (simp_all add: fact_all_def)
  note interval = collect_interval [where vs = vs, OF inv hyp]
  obtain p where p: "start_node rt s Index_spo (Some ?k) = Some (Some p)" using interval [of 0] by blast
  obtain fs where fs: "collect_facts rt s vs (?c p) [] = Some (vs, Ok fs)" "distinct fs"
    "set fs = {f \<in> facts_set s. past_start rt Index_spo (Some ?k) f \<and> \<not> bound_compare rt Index_spo ?e f < 0}"
    using interval [of p] p by (auto simp: cursor_matches_def bind_type_def reset_vars_def reset_var_def)
  have anti: "?cmp f (Fact x y z 0) = - ?cmp (Fact x y z 0) f" if "fact_ok rt m f" for f
    using comparison.anti [OF tags.spo_comparison, of rt m "Fact x y z 0" f] that ok by (simp add: fact_ok_all [symmetric])
  have set_fs: "set fs = {f \<in> facts_set s. ?cmp (Fact a b c 0) f \<le> 0 \<and> ?cmp f (Fact x y z 0) \<le> 0}"
    unfolding fs(3) past_start_def option.case bound_compare_tags [where j = 0]
    using anti facts_set_ok [OF inv] by (auto simp: not_less)
  have "if query_reaches a x b y c z then \<forall>i. Fact x y z i \<in> facts_set s \<longrightarrow> Fact x y z i \<in> set fs else fs = []"
  proof (cases "query_reaches a x b y c z")
    case True
    have "?cmp (Fact x y z i) (Fact x y z 0) = 0" for i
      using tags.zero_iff [of rt m x x] tags.zero_iff [of rt m y y] tags.zero_iff [of rt m z z] ok by (simp add: compare_fact_spo_def)
    then show ?thesis using True query_reaches_compare [OF args ok] by (simp add: set_fs)
  next
    case False
    have "\<not> (?cmp (Fact a b c 0) f \<le> 0 \<and> ?cmp f (Fact x y z 0) \<le> 0)" if "f \<in> facts_set s" for f
      using comparison.le_trans [OF tags.spo_comparison, of rt m "Fact a b c 0" f "Fact x y z 0"] that facts_set_ok [OF inv] ok key_ok
        query_reaches_compare [OF args ok] False by (auto simp: fact_ok_all [symmetric])
    then have "set fs = {}" unfolding set_fs by blast
    then show ?thesis using False by simp
  qed
  moreover have "facts_with_tags rt s vs a b c = Ok (?c p)"
    using p by (simp add: facts_with_tags_def facts_with_3_def facts_cursor_init_def fact_resolve_def bound_resolve_def r)
  ultimately show ?thesis using fs(1,2) set_fs by blast
qed

end
