(* ===== verification/Facts_Update.thy ===== *)
theory Facts_Update
  imports Facts_Query
begin

text \<open>
  The updates that query first (facts.c): \<open>facts_remove_fact_tags\<close> removes every fact that matches a
  pattern, \<open>facts_replace_tags\<close> gives a subject and a predicate a new object.  Each reads the matching
  facts through a cursor, then works in a transaction of its own, so that it changes the facts as
  a whole or not at all.
\<close>

section \<open>Operations\<close>

text \<open>A call whose error is handed on.\<close>

definition and_then :: "'s \<times> 'a outcome \<Rightarrow> ('s \<Rightarrow> 'a \<Rightarrow> 's \<times> 'b outcome) \<Rightarrow> 's \<times> 'b outcome" where
  "and_then p k = (case p of (s, r) \<Rightarrow> (case r of
      Ok x \<Rightarrow> k s x | Null \<Rightarrow> (s, Null) | Abort \<Rightarrow> (s, Abort) | Undef \<Rightarrow> (s, Undef)))"

lemma and_then_simps [simp]:
  "and_then (s, Ok x) k = k s x" "and_then (s, Null) k = (s, Null)"
  "and_then (s, Abort) k = (s, Abort)" "and_then (s, Undef) k = (s, Undef)"
  by (simp_all add: and_then_def)

text \<open>The facts that match, the last one in the order of the index first.\<close>

definition query_facts :: "rt \<Rightarrow> facts \<Rightarrow> vars \<Rightarrow> tag \<Rightarrow> tag \<Rightarrow> tag \<Rightarrow> vars \<times> tag fact list outcome" where
  "query_facts rt s vs subject predicate object =
    (case facts_with_tags rt s vs subject predicate object of
       Ok c \<Rightarrow> (case collect_facts rt s vs c [] of None \<Rightarrow> (vs, Undef) | Some p \<Rightarrow> p)
     | Null \<Rightarrow> (vs, Null)
     | Abort \<Rightarrow> (vs, Abort)
     | Undef \<Rightarrow> (vs, Undef))"

text \<open>
  The loops \<open>while (list)\<close>; with \<open>must\<close> a fact that is not there is an error, as in
  \<open>facts_replace_tags\<close>.
\<close>

primrec remove_facts :: "bool \<Rightarrow> rt \<Rightarrow> env_view \<Rightarrow> facts \<Rightarrow> tag fact list \<Rightarrow> facts \<times> unit outcome" where
  "remove_facts must rt env s [] = (s, Ok ())"
| "remove_facts must rt env s (f # fs) = and_then (facts_remove_fact rt env s f)
    (\<lambda>s b. if must \<and> \<not> b then (s, Null) else remove_facts must rt env s fs)"

text \<open>From \<open>facts_transaction_start\<close> to the end of the function, an error of the body going to the rollback.\<close>

definition with_transaction :: "rt \<Rightarrow> nat \<Rightarrow> facts \<Rightarrow> (facts \<Rightarrow> facts \<times> 'a outcome) \<Rightarrow> facts \<times> 'a outcome" where
  "with_transaction rt ptr s body = and_then (facts_transaction_start s ptr) (\<lambda>s _. case body s of
      (s, Null) \<Rightarrow> and_then (facts_transaction_rollback rt s ptr) (\<lambda>s _. (s, Null))
    | p \<Rightarrow> and_then p (\<lambda>s x. and_then (facts_transaction_end rt s ptr) (\<lambda>s _. (s, Ok x))))"

text \<open>
  \<open>ptr\<close> is the address of the transaction and \<open>i\<close> the identifier of the fact handed to
  \<open>facts_remove_fact\<close>, which the C function leaves uninitialised.
\<close>

definition facts_remove_fact_tags ::
  "rt \<Rightarrow> env_view \<Rightarrow> nat \<Rightarrow> uw \<Rightarrow> facts \<Rightarrow> vars \<Rightarrow> tag \<Rightarrow> tag \<Rightarrow> tag \<Rightarrow> facts \<times> vars \<times> bool outcome" where
  "facts_remove_fact_tags rt env ptr i s vs subject predicate object =
    (if \<not> env_cleaning env \<and> env_securelevel env > 1 \<and> env_owns_facts env then (s, vs, Abort)
     else if \<not> (tag_is_unbound_var vs subject \<or> tag_is_unbound_var vs predicate \<or> tag_is_unbound_var vs object) then
       let (s, r) = facts_remove_fact rt env s (Fact subject predicate object i) in (s, vs, r)
     else case query_facts rt s vs subject predicate object of
       (vs, Ok fs) \<Rightarrow>
         let (s, r) = with_transaction rt ptr s
           (\<lambda>s. and_then (remove_facts False rt env s fs) (\<lambda>s _. (s, Ok True)))
         in (s, vs, r)
     | (vs, Null) \<Rightarrow> (s, vs, Null)
     | (vs, Abort) \<Rightarrow> (s, vs, Abort)
     | (vs, Undef) \<Rightarrow> (s, vs, Undef))"

text \<open>\<open>tag_init_pvar\<close> makes a variable of type \<open>Tag\<close> at the unused address \<open>v\<close>.\<close>

definition var_init :: "vars \<Rightarrow> uw \<Rightarrow> string \<Rightarrow> vars" where
  "var_init vs v type = vs\<lparr>var_value := (var_value vs)(v := None), var_type := (var_type vs)(v := type)\<rparr>"

definition facts_replace_tags ::
  "rt \<Rightarrow> env_view \<Rightarrow> nat \<Rightarrow> uw \<Rightarrow> facts \<Rightarrow> vars \<Rightarrow> tag \<Rightarrow> tag \<Rightarrow> tag \<Rightarrow> facts \<times> vars \<times> tag fact outcome" where
  "facts_replace_tags rt env ptr v s vs subject predicate object =
    (case query_facts rt s (var_init vs v ''Tag'') subject predicate (TPvar v) of
       (vs, Ok fs) \<Rightarrow>
         let (s, r) = with_transaction rt ptr s
           (\<lambda>s. and_then (remove_facts True rt env s fs) (\<lambda>s _. facts_add_tags rt env s subject predicate object))
         in (s, vs, r)
     | (vs, Null) \<Rightarrow> (s, vs, Null)
     | (vs, Abort) \<Rightarrow> (s, vs, Abort)
     | (vs, Undef) \<Rightarrow> (s, vs, Undef))"

definition facts_replace_fact ::
  "rt \<Rightarrow> env_view \<Rightarrow> nat \<Rightarrow> uw \<Rightarrow> facts \<Rightarrow> vars \<Rightarrow> tag fact \<Rightarrow> facts \<times> vars \<times> tag fact outcome" where
  "facts_replace_fact rt env ptr v s vs f =
    facts_replace_tags rt env ptr v s vs (fact_subject f) (fact_predicate f) (fact_object f)"

section \<open>One operation inside a transaction\<close>

lemma db_push_simps: "db_transaction d \<noteq> [] \<Longrightarrow> db_map (db_push a d) = db_map d \<and> db_connections (db_push a d) = db_connections d \<and>
    db_log (db_push a d) = db_log d \<and> db_next_id (db_push a d) = db_next_id d"
  by (simp add: db_push_def split: list.split)

text \<open>What fails: the log has failed, or the identifiers have run out.\<close>

definition db_stuck :: "db \<Rightarrow> nat \<Rightarrow> bool" where
  "db_stuck d n \<longleftrightarrow> (case db_log d of None \<Rightarrow> False | Some l \<Rightarrow> log_failed l) \<or>
    2 ^ 64 - 1 \<le> unat (db_next_id d) + n"

definition same_rest :: "db \<Rightarrow> db \<Rightarrow> bool" where
  "same_rest d d' \<longleftrightarrow> db_connections d' = db_connections d \<and> db_log d' = db_log d \<and>
    unat (db_next_id d') \<le> unat (db_next_id d) + 1"

lemma unat_next: "unat (n + 1 :: uw) \<le> Suc (unat n)"
  using unat_word_ariths(1) [of n 1] by simp

lemma unat_UW_MAX: "unat UW_MAX = 2 ^ 64 - 1"
  by (simp add: UW_MAX_def unsigned_minus_1_eq_mask mask_eq_exp_minus_1)

lemma same_rest_next: "same_rest d (d\<lparr>db_next_id := db_next_id d + 1\<rparr>)" "same_rest d d"
  by (simp_all add: same_rest_def unat_next)

lemma db_remove_inside:
  assumes inv: "db_inv d" "db_transaction d \<noteq> []" and res: "db_remove d f None = (d', r)"
  shows "same_rest d d' \<and> (r = Ok (db_map d (fact_key f) \<noteq> None) \<and> db_map d' = (db_map d)(fact_key f := None) \<or>
      r = Null \<and> db_stuck d 0 \<and> db_map d' = db_map d)"
proof -
  have nr: "\<not> db_rolling_back d" by (rule db_not_rolling [OF inv(1)])
  show ?thesis
  proof (cases "db_blocked d \<or> db_map d (fact_key f) = None \<or> db_next_id d = UW_MAX")
    case True
    then show ?thesis using res nr inv(2)
      by (auto simp: db_remove_def db_event_def db_stuck_def db_blocked_def unat_UW_MAX same_rest_next fun_upd_idem Let_def
          split: if_splits)
  next
    case False
    then obtain i where "db_map d (fact_key f) = Some i" by auto
    then show ?thesis using res nr inv(2) False
      by (auto simp: db_remove_def db_event_def db_push_simps same_rest_def unat_next db_action_def Let_def)
  qed
qed

lemma db_add_inside:
  assumes inv: "db_inv d" "db_transaction d \<noteq> []" and new: "db_map d (fact_key f) = None"
    and res: "db_add d f = (d', r)"
  shows "same_rest d d' \<and> ((\<exists>i. r = Ok (set_fact_id f i) \<and> db_map d' = (db_map d)(fact_key f \<mapsto> i)) \<or>
      r = Null \<and> db_stuck d 0 \<and> db_map d' = db_map d)"
proof -
  have nr: "\<not> db_rolling_back d" by (rule db_not_rolling [OF inv(1)])
  then have nr': "\<not> db_rolling_back (d\<lparr>db_next_id := n\<rparr>)" for n by (simp add: db_rolling_back_def)
  show ?thesis
  proof (cases "db_blocked d \<or> db_next_id d = UW_MAX")
    case True
    then show ?thesis using res nr new
      by (auto simp: db_add_def db_stuck_def db_blocked_def unat_UW_MAX same_rest_next split: if_splits)
  next
    case False
    then show ?thesis using res inv(2) new nr'
      by (auto simp: db_add_def db_store_def Let_def db_push_simps same_rest_def unat_next db_action_def)
  qed
qed

section \<open>The body of a transaction\<close>

text \<open>
  The states between the start of the transaction \<open>ptr\<close> and its end: it is the innermost one, over
  the transactions \<open>ts\<close>, and its actions undo to the facts \<open>M\<close> of its start.
\<close>

definition updating :: "rt \<Rightarrow> bool \<Rightarrow> nat \<Rightarrow> transaction list \<Rightarrow> fact_map \<Rightarrow> nat \<Rightarrow> facts \<Rightarrow> bool" where
  "updating rt m ptr ts M n s \<longleftrightarrow> facts_inv rt m [] s \<and> db_inv (facts_abs s) \<and> db_room (facts_abs s) n \<and>
    facts_connection_get_master s = None \<and>
    (\<exists>t. facts_transaction s = t # ts \<and> tr_ptr t = ptr \<and> undo (tr_log t) (facts_map s) = M)"

lemma updating_step:
  assumes up: "updating rt m ptr ts M (Suc n) s" and ok: "op_fact_ok rt m op" and res: "run_op rt s op = (s', r)"
    and step: "fact_step (facts_abs s) (facts_abs s')" "facts_connections s' = facts_connections s"
  shows "updating rt m ptr ts M n s'"
proof -
  have inv: "facts_inv rt m [] s" "db_inv (facts_abs s)" "db_room (facts_abs s) (Suc n)" using up by (auto simp: updating_def)
  note st = run_op_step [OF inv(1,2) ok inv(3) res]
  have "\<exists>t. facts_transaction s' = t # ts \<and> tr_ptr t = ptr \<and> undo (tr_log t) (facts_map s') = M"
    using up step(1) unfolding updating_def fact_step_def by auto
  then show ?thesis using up st step(2) by (simp add: updating_def facts_connection_get_master_def)
qed

lemma remove_inside:
  assumes up: "updating rt m ptr ts M (Suc n) s" and ok: "fact_ok rt m f"
    and res: "facts_remove_fact_local rt s f = (s', r)"
  shows "updating rt m ptr ts M n s'" "same_rest (facts_abs s) (facts_abs s')"
    "r = Ok (facts_map s (fact_key f) \<noteq> None) \<and> facts_map s' = (facts_map s)(fact_key f := None) \<or>
      r = Null \<and> db_stuck (facts_abs s) 0"
proof -
  have run: "run_op rt s (Op_remove f) = (s', map_outcome (\<lambda>_. ()) r)" by (simp add: run_op_def res)
  have inv: "facts_inv rt m [] s" "db_inv (facts_abs s)" "db_room (facts_abs s) (Suc n)" "facts_transaction s \<noteq> []"
    using up by (auto simp: updating_def)
  have room: "facts_room s [] 3" using db_room_facts [OF inv(1)] inv(3) by (simp add: db_room_def)
  have r: "db_remove (facts_abs s) f None = (facts_abs s', r)"
    using facts_remove_fact_internal_refines [OF inv(1) ok room res [unfolded facts_remove_fact_local_def]] by auto
  note i = db_remove_inside [OF inv(2) _ r]
  show "same_rest (facts_abs s) (facts_abs s')"
    "r = Ok (facts_map s (fact_key f) \<noteq> None) \<and> facts_map s' = (facts_map s)(fact_key f := None) \<or>
      r = Null \<and> db_stuck (facts_abs s) 0"
    using i inv(4) by auto
  then show "updating rt m ptr ts M n s'"
    using updating_step [OF up _ run db_remove_step [OF inv(2) r]] ok by (simp add: same_rest_def)
qed

lemma add_inside:
  assumes up: "updating rt m ptr ts M (Suc n) s" and ok: "fact_ok rt m f" and new: "facts_map s (fact_key f) = None"
    and res: "facts_add_fact_local rt s f = (s', r)"
  shows "updating rt m ptr ts M n s'"
    "(\<exists>i. r = Ok (set_fact_id f i) \<and> facts_map s' = (facts_map s)(fact_key f \<mapsto> i)) \<or>
      r = Null \<and> db_stuck (facts_abs s) 0"
proof -
  have run: "run_op rt s (Op_add f) = (s', map_outcome (\<lambda>_. ()) r)" by (simp add: run_op_def res)
  have inv: "facts_inv rt m [] s" "db_inv (facts_abs s)" "db_room (facts_abs s) (Suc n)" "facts_transaction s \<noteq> []"
    using up by (auto simp: updating_def)
  have room: "facts_room s [] 3" using db_room_facts [OF inv(1)] inv(3) by (simp add: db_room_def)
  have r: "db_add (facts_abs s) f = (facts_abs s', r)"
    using facts_add_fact_local_refines [OF inv(1) ok room res] by auto
  note i = db_add_inside [OF inv(2) _ _ r]
  show "(\<exists>i. r = Ok (set_fact_id f i) \<and> facts_map s' = (facts_map s)(fact_key f \<mapsto> i)) \<or>
      r = Null \<and> db_stuck (facts_abs s) 0"
    using i new inv(4) by auto
  show "updating rt m ptr ts M n s'"
    using updating_step [OF up _ run db_add_step [OF inv(2) r]] ok i new inv(4) by (simp add: same_rest_def)
qed

text \<open>The loop of removals.\<close>

definition without :: "fact_map \<Rightarrow> tag fact set \<Rightarrow> fact_map" where
  "without M F = (\<lambda>k. if k \<in> fact_key ` F then None else M k)"

lemma without_insert: "without (M(fact_key f := None)) F = without M (insert f F)"
  by (auto simp: without_def fun_eq_iff)

lemma db_stuck_rest: "same_rest d d' \<Longrightarrow> db_stuck d' n \<Longrightarrow> db_stuck d (Suc n)"
  by (auto simp: db_stuck_def same_rest_def)

lemma db_stuck_mono: "db_stuck d n \<Longrightarrow> n \<le> k \<Longrightarrow> db_stuck d k"
  by (auto simp: db_stuck_def)

lemma remove_facts_inside:
  assumes "updating rt m ptr ts M (length fs + n) s" "\<forall>f \<in> set fs. fact_ok rt m f"
    "\<not> (\<not> env_cleaning env \<and> env_securelevel env > 1 \<and> env_owns_facts env)"
    "must \<longrightarrow> (\<forall>f \<in> set fs. facts_map s (fact_key f) \<noteq> None) \<and> distinct (map fact_key fs)"
    "remove_facts must rt env s fs = (s', r)"
  shows "updating rt m ptr ts M n s' \<and>
    (r = Ok () \<and> facts_map s' = without (facts_map s) (set fs) \<and>
       (\<forall>k. db_stuck (facts_abs s') k \<longrightarrow> db_stuck (facts_abs s) (length fs + k)) \<or>
     r = Null \<and> db_stuck (facts_abs s) (length fs))"
  using assms
proof (induction fs arbitrary: s)
  case Nil
  then show ?case by (auto simp: without_def)
next
  case (Cons f fs)
  obtain s1 r1 where 1: "facts_remove_fact_local rt s f = (s1, r1)" by (metis surj_pair)
  have up: "updating rt m ptr ts M (Suc (length fs + n)) s" using Cons.prems(1) by simp
  have ok: "fact_ok rt m f" using Cons.prems(2) by simp
  note i = remove_inside [OF up ok 1]
  have rem: "facts_remove_fact rt env s f = (s1, r1)"
    using Cons.prems(3) 1 up by (auto simp: facts_remove_fact_def updating_def)
  show ?case
  proof (cases "r1 = Null")
    case True
    then have "db_stuck (facts_abs s) 0" using i(3) by simp
    moreover have "updating rt m ptr ts M n s1"
      using i(1) unfolding updating_def by (auto simp: db_room_def)
    ultimately show ?thesis using True rem Cons.prems(5) db_stuck_mono by auto
  next
    case False
    with i(3) have r1: "r1 = Ok (facts_map s (fact_key f) \<noteq> None)" "facts_map s1 = (facts_map s)(fact_key f := None)" by auto
    then have rest: "remove_facts must rt env s1 fs = (s', r)"
      using Cons.prems(4,5) rem by (auto split: if_splits)
    have m: "must \<longrightarrow> (\<forall>g \<in> set fs. facts_map s1 (fact_key g) \<noteq> None) \<and> distinct (map fact_key fs)"
      using Cons.prems(4) by (auto simp: r1(2)) (metis imageI)
    have st: "db_stuck (facts_abs s1) k \<Longrightarrow> db_stuck (facts_abs s) (Suc k)" for k
      by (rule db_stuck_rest [OF i(2)])
    show ?thesis
      using Cons.IH [OF i(1) _ Cons.prems(3) m rest] Cons.prems(2) st unfolding r1(2) without_insert by auto
  qed
qed

section \<open>A transaction around a body\<close>

lemma db_end_top:
  assumes inv: "db_inv d" and t: "db_transaction d = t # ts" "tr_ptr t = ptr" and res: "db_end d ptr = (d', r)"
  shows "db_map d' = db_map d \<and> map tr_ptr (db_transaction d') = map tr_ptr ts \<and>
    (r = Ok () \<or> r = Null \<and> ts = [] \<and> (\<exists>l. db_log d' = Some l \<and> log_failed l))"
proof (cases ts)
  case (Cons u us)
  then show ?thesis using t res by (auto simp: db_end_def)
next
  case Nil
  obtain d1 r1 where c: "db_commit_actions (d\<lparr>db_transaction := []\<rparr>) (rev (tr_log t)) = (d1, r1)"
    by (metis surj_pair)
  have "undo_ok (tr_log t) (db_map d)" using inv t Nil by (simp add: db_inv_def db_actions_def)
  then have "\<forall>a \<in> set (rev (tr_log t)). fa_action a \<noteq> FACT_ACTION_REPLACE" using undo_ok_actions by auto
  note spec = db_commit_actions_spec [OF this c]
  then obtain b where b: "r1 = Ok b" "\<not> b \<longrightarrow> (\<exists>l. db_log d1 = Some l \<and> log_failed l)"
    by (auto split: option.splits)
  then show ?thesis using spec res t Nil c by (cases b) (auto simp: db_end_def)
qed

text \<open>What stops an update that needs \<open>n\<close> more identifiers.\<close>

definition facts_stuck :: "facts \<Rightarrow> nat \<Rightarrow> bool" where
  "facts_stuck s n \<longleftrightarrow> (case facts_log s of None \<Rightarrow> False | Some l \<Rightarrow> log_failed l) \<or>
    facts_connection_get_master s \<noteq> None \<or> 2 ^ 64 - 1 \<le> unat (facts_next_id s) + n"

lemma facts_stuck_db: "db_stuck (facts_abs s) n \<Longrightarrow> facts_stuck s n"
  by (auto simp: facts_stuck_def db_stuck_def)

text \<open>
  An update is atomic: it returns normally with the new facts \<open>N x\<close>; or nothing has changed, and then
  it was stuck; or the facts are the new ones, but the write of the outermost commit has failed.
\<close>

definition atomic_update :: "facts \<Rightarrow> nat \<Rightarrow> ('a \<Rightarrow> fact_map \<Rightarrow> bool) \<Rightarrow> facts \<times> 'a outcome \<Rightarrow> bool" where
  "atomic_update s n Q p \<longleftrightarrow> (case p of (s', r) \<Rightarrow>
    (\<exists>x. r = Ok x \<and> Q x (facts_map s') \<and> map tr_ptr (facts_transaction s') = map tr_ptr (facts_transaction s)) \<or>
    r = Null \<and> facts_map s' = facts_map s \<and> facts_transaction s' = facts_transaction s \<and> facts_stuck s n \<or>
    r = Null \<and> (\<exists>x. Q x (facts_map s')) \<and> facts_transaction s = [] \<and> facts_transaction s' = [] \<and>
      (\<exists>l. facts_log s' = Some l \<and> log_failed l))"

lemma with_transaction_atomic:
  assumes inv: "facts_inv rt m [] s" "db_inv (facts_abs s)" "db_room (facts_abs s) (n + 2)"
    and body: "\<And>s1 s2 r. updating rt m ptr (facts_transaction s) (facts_map s) (n + 1) s1 \<Longrightarrow>
      facts_map s1 = facts_map s \<Longrightarrow> body s1 = (s2, r) \<Longrightarrow>
      updating rt m ptr (facts_transaction s) (facts_map s) 1 s2 \<and>
        ((\<exists>x. r = Ok x \<and> Q x (facts_map s2)) \<or> r = Null \<and> db_stuck (facts_abs s1) k)"
    and res: "with_transaction rt ptr s body = (s', r)"
  shows "facts_inv rt m [] s' \<and> db_inv (facts_abs s') \<and> atomic_update s (Suc k) Q (s', r)"
proof (cases "snd (facts_transaction_start s ptr) = Ok ()")
  case False
  then have "s' = s" "r = Null" "facts_stuck s (Suc k)"
    using res by (auto simp: facts_transaction_start_def with_transaction_def facts_stuck_def unat_UW_MAX split: if_splits)
  then show ?thesis using inv by (simp add: atomic_update_def)
next
  case True
  obtain s1 where s1: "facts_transaction_start s ptr = (s1, Ok ())" using True by (metis prod.collapse)
  have run1: "run_op rt s (Op_start ptr) = (s1, Ok ())" by (simp add: run_op_def s1)
  have room: "db_room (facts_abs s) (Suc (n + 1))" using inv(3) by (simp add: numeral_2_eq_2)
  note st1 = run_op_step [OF inv(1,2) _ room run1]
  have s1': "facts_map s1 = facts_map s" "facts_connection_get_master s1 = None" "facts_log s1 = facts_log s"
    "facts_next_id s1 = facts_next_id s + 1"
    "facts_transaction s1 = \<lparr>tr_ptr = ptr, tr_id = facts_next_id s, tr_log = [], tr_rolling_back = False\<rparr> # facts_transaction s"
    using s1 by (auto simp: facts_transaction_start_def facts_connection_get_master_def split: if_splits)
  have up1: "updating rt m ptr (facts_transaction s) (facts_map s) (n + 1) s1"
    using st1 s1' by (simp add: updating_def)
  obtain s2 r2 where b: "body s1 = (s2, r2)" by (metis surj_pair)
  note body [OF up1 s1'(1) b]
  then have up2: "updating rt m ptr (facts_transaction s) (facts_map s) 1 s2"
    and r2: "(\<exists>x. r2 = Ok x \<and> Q x (facts_map s2)) \<or> r2 = Null \<and> db_stuck (facts_abs s1) k" by auto
  have inv2: "facts_inv rt m [] s2" "db_inv (facts_abs s2)" "db_room (facts_abs s2) (Suc 0)" using up2 by (auto simp: updating_def)
  obtain t where t: "facts_transaction s2 = t # facts_transaction s" "tr_ptr t = ptr" "undo (tr_log t) (facts_map s2) = facts_map s"
    using up2 by (auto simp: updating_def)
  show ?thesis
  proof (cases "r2 = Null")
    case True
    then have "db_stuck (facts_abs s1) k" using r2 by simp
    then have stuck: "facts_stuck s (Suc k)" using s1' unat_next [of "facts_next_id s"] by (auto simp: db_stuck_def facts_stuck_def)
    obtain s3 r3 where 3: "facts_transaction_rollback rt s2 ptr = (s3, r3)" by (metis surj_pair)
    then have run3: "run_op rt s2 (Op_rollback ptr) = (s3, r3)" by (simp add: run_op_def)
    note st3 = run_op_step [OF inv2(1,2) _ inv2(3) run3]
    have "opened ptr (facts_transaction s) (facts_map s) (facts_abs s2)"
      unfolding opened_def using t by (intro exI [of _ "[]"] exI [of _ t]) simp
    from opened_rollback [OF this inv2(2)] st3(2)
    have "r3 = Ok ()" "facts_map s3 = facts_map s" "facts_transaction s3 = facts_transaction s"
      by (auto simp: db_run_op_def)
    then show ?thesis
      using st3 stuck res s1 b True 3 by (simp add: with_transaction_def atomic_update_def)
  next
    case False
    then obtain x where x: "r2 = Ok x" "Q x (facts_map s2)" using r2 by auto
    obtain s3 r3 where 3: "facts_transaction_end rt s2 ptr = (s3, r3)" by (metis surj_pair)
    then have run3: "run_op rt s2 (Op_end ptr) = (s3, r3)" by (simp add: run_op_def)
    note st3 = run_op_step [OF inv2(1,2) _ inv2(3) run3]
    have "db_end (facts_abs s2) ptr = (facts_abs s3, r3)" using st3(2) by (simp add: db_run_op_def)
    from db_end_top [OF inv2(2) _ t(2) this] t(1)
    have e: "facts_map s3 = facts_map s2" "map tr_ptr (facts_transaction s3) = map tr_ptr (facts_transaction s)"
      "r3 = Ok () \<or> r3 = Null \<and> facts_transaction s = [] \<and> (\<exists>l. facts_log s3 = Some l \<and> log_failed l)" by auto
    then show ?thesis
      using st3 res s1 b x 3 by (auto simp: with_transaction_def atomic_update_def)
  qed
qed

section \<open>The two updates\<close>

lemma query_facts_exact:
  assumes "facts_inv rt m ps s" "arg_ok rt m vs x" "arg_ok rt m vs y" "arg_ok rt m vs z"
  obtains fs where "query_facts rt s vs x y z = (vs, Ok fs)" "distinct fs"
    "set fs = {f \<in> facts_set s. query_matches vs x y z f}" "length fs = card {f \<in> facts_set s. query_matches vs x y z f}"
proof -
  obtain c fs where "facts_with_tags rt s vs x y z = Ok c" "collect_facts rt s vs c [] = Some (vs, Ok fs)"
    "distinct fs" "set fs = {f \<in> facts_set s. query_matches vs x y z f}" using query_exact [OF assms] by blast
  then show thesis using that [of fs] distinct_card [of fs] by (simp add: query_facts_def)
qed

lemma facts_set_keys:
  assumes inv: "facts_inv rt m ps s" and fs: "distinct fs" "set fs \<subseteq> facts_set s"
  shows "(\<forall>f \<in> set fs. facts_map s (fact_key f) \<noteq> None) \<and> distinct (map fact_key fs)"
proof -
  have f: "facts_map s (fact_key f) = Some (fact_id f)" if "f \<in> set fs" for f
    using that fs(2) facts_set_iff [OF inv, of f] by blast
  have "f = g" if "f \<in> set fs" "g \<in> set fs" "fact_key f = fact_key g" for f g
    using f [OF that(1)] f [OF that(2)] that(3) by (simp add: fact_eq_iff)
  then show ?thesis using f fs(1) by (auto simp: distinct_map inj_on_def)
qed

lemma unbound_var_is: "unbound_var vs t \<noteq> None \<Longrightarrow> tag_is_unbound_var vs t"
  by (cases t) (simp_all add: unbound_var_def split: if_splits)

definition update_permitted :: "env_view \<Rightarrow> bool" where
  "update_permitted env \<longleftrightarrow> \<not> (env_securelevel env > 1 \<and> env_owns_facts env)"

lemma facts_remove_fact_tags_atomic:
  assumes inv: "facts_inv rt m [] s" "db_inv (facts_abs s)" and args: "arg_ok rt m vs x" "arg_ok rt m vs y" "arg_ok rt m vs z"
    and var: "unbound_var vs x \<noteq> None \<or> unbound_var vs y \<noteq> None \<or> unbound_var vs z \<noteq> None"
    and env: "env_cleaning env \<or> update_permitted env"
    and F: "F = {f \<in> facts_set s. query_matches vs x y z f}" and room: "db_room (facts_abs s) (card F + 2)"
  shows "\<exists>s' r. facts_remove_fact_tags rt env ptr i s vs x y z = (s', vs, r) \<and>
    facts_inv rt m [] s' \<and> db_inv (facts_abs s') \<and>
    atomic_update s (Suc (card F)) (\<lambda>b M. b \<and> M = without (facts_map s) F) (s', r)"
proof -
  obtain fs where fs: "query_facts rt s vs x y z = (vs, Ok fs)" "distinct fs" "set fs = F" "length fs = card F"
    unfolding F by (rule query_facts_exact [OF inv(1) args])
  have ok: "\<forall>f \<in> set fs. fact_ok rt m f" using facts_set_ok [OF inv(1)] fs(3) F by auto
  have env': "\<not> (\<not> env_cleaning env \<and> env_securelevel env > 1 \<and> env_owns_facts env)"
    using env by (auto simp: update_permitted_def)
  let ?body = "\<lambda>s. and_then (remove_facts False rt env s fs) (\<lambda>s _. (s, Ok True))"
  obtain s' r where w: "with_transaction rt ptr s ?body = (s', r)" by (metis surj_pair)
  have body: "updating rt m ptr (facts_transaction s) (facts_map s) 1 s2 \<and>
      ((\<exists>b. r = Ok b \<and> b \<and> facts_map s2 = without (facts_map s) F) \<or> r = Null \<and> db_stuck (facts_abs s1) (card F))"
    if "updating rt m ptr (facts_transaction s) (facts_map s) (card F + 1) s1" "facts_map s1 = facts_map s"
      "?body s1 = (s2, r)" for s1 s2 r
  proof -
    obtain s3 r3 where 3: "remove_facts False rt env s1 fs = (s3, r3)" by (metis surj_pair)
    show ?thesis
      using remove_facts_inside [OF _ ok env' _ 3, of ptr "facts_transaction s" "facts_map s" 1] that 3 fs by auto
  qed
  note at = with_transaction_atomic [where Q = "\<lambda>b M. b \<and> M = without (facts_map s) F", OF inv room body w]
  have "tag_is_unbound_var vs x \<or> tag_is_unbound_var vs y \<or> tag_is_unbound_var vs z"
    using var unbound_var_is [of vs] by blast
  then have "facts_remove_fact_tags rt env ptr i s vs x y z = (s', vs, r)"
    unfolding facts_remove_fact_tags_def if_not_P [OF env'] using fs(1) w by simp
  then show ?thesis using at by blast
qed

lemma facts_replace_tags_atomic:
  assumes inv: "facts_inv rt m [] s" "db_inv (facts_abs s)" and f: "fact_ok rt m (Fact x y z 0)"
    and var: "x \<notin> range TPvar" "y \<notin> range TPvar" and env: "update_permitted env"
    and F: "F = {f \<in> facts_set s. fact_subject f = x \<and> fact_predicate f = y}" and room: "db_room (facts_abs s) (card F + 3)"
  shows "\<exists>s' r. facts_replace_tags rt env ptr v s vs x y z = (s', var_init vs v ''Tag'', r) \<and>
    facts_inv rt m [] s' \<and> db_inv (facts_abs s') \<and>
    atomic_update s (Suc (card F))
      (\<lambda>g M. \<exists>i. g = Fact x y z i \<and> M = (without (facts_map s) F)((x, y, z) \<mapsto> i)) (s', r)"
proof -
  let ?vs = "var_init vs v ''Tag''"
  have args: "arg_ok rt m ?vs x" "arg_ok rt m ?vs y" "arg_ok rt m ?vs (TPvar v)"
    using f var by (auto simp: arg_ok_def fact_ok_def var_init_def split: tag.split)
  have match: "query_matches ?vs x y (TPvar v) g \<longleftrightarrow> fact_subject g = x \<and> fact_predicate g = y" for g
    using var by (auto simp: query_matches_def arg_matches_def bind_type_def var_init_def split: tag.splits)
  obtain fs where fs: "query_facts rt s ?vs x y (TPvar v) = (?vs, Ok fs)" "distinct fs" "set fs = F" "length fs = card F"
    unfolding F match [symmetric] by (rule query_facts_exact [OF inv(1) args])
  have ok: "\<forall>f \<in> set fs. fact_ok rt m f" using facts_set_ok [OF inv(1)] fs(3) F by auto
  have env': "\<not> (\<not> env_cleaning env \<and> env_securelevel env > 1 \<and> env_owns_facts env)"
    using env by (auto simp: update_permitted_def)
  let ?body = "\<lambda>s. and_then (remove_facts True rt env s fs) (\<lambda>s _. facts_add_tags rt env s x y z)"
  obtain s' r where w: "with_transaction rt ptr s ?body = (s', r)" by (metis surj_pair)
  have body: "updating rt m ptr (facts_transaction s) (facts_map s) 1 s2 \<and>
      ((\<exists>g. r = Ok g \<and> (\<exists>i. g = Fact x y z i \<and> facts_map s2 = (without (facts_map s) F)((x, y, z) \<mapsto> i))) \<or>
        r = Null \<and> db_stuck (facts_abs s1) (card F))"
    if up: "updating rt m ptr (facts_transaction s) (facts_map s) ((card F + 1) + 1) s1" "facts_map s1 = facts_map s"
      "?body s1 = (s2, r)" for s1 s2 r
  proof -
    obtain s3 r3 where 3: "remove_facts True rt env s1 fs = (s3, r3)" by (metis surj_pair)
    have keys: "True \<longrightarrow> (\<forall>f \<in> set fs. facts_map s1 (fact_key f) \<noteq> None) \<and> distinct (map fact_key fs)"
      using facts_set_keys [OF inv(1) fs(2)] fs(3) up(2) F by auto
    note i = remove_facts_inside [OF _ ok env' keys 3, of ptr "facts_transaction s" "facts_map s" 2]
    have up3: "updating rt m ptr (facts_transaction s) (facts_map s) (Suc 1) s3"
      and r3: "r3 = Ok () \<and> facts_map s3 = without (facts_map s) F \<and>
         (\<forall>k. db_stuck (facts_abs s3) k \<longrightarrow> db_stuck (facts_abs s1) (card F + k)) \<or>
       r3 = Null \<and> db_stuck (facts_abs s1) (card F)"
      using i up fs by (simp_all add: numeral_2_eq_2)
    have weak: "updating rt m ptr (facts_transaction s) (facts_map s) 1 s3"
      using up3 unfolding updating_def by (auto simp: db_room_def)
    show ?thesis
    proof (cases "r3 = Null")
      case True
      then show ?thesis using r3 up(3) 3 weak by auto
    next
      case False
      then have ok3: "r3 = Ok ()" "facts_map s3 = without (facts_map s) F"
        "db_stuck (facts_abs s3) 0 \<longrightarrow> db_stuck (facts_abs s1) (card F)" using r3 by auto
      have new: "facts_map s3 (fact_key (Fact x y z 0)) = None"
      proof -
        have "fact_key (Fact x y z 0) \<in> fact_key ` F" if "facts_map s (x, y, z) = Some j" for j
          using facts_set_iff [OF inv(1), of "Fact x y z j"] that F by (force intro: image_eqI [of _ _ "Fact x y z j"])
        then show ?thesis unfolding ok3(2) without_def by (cases "facts_map s (x, y, z)") auto
      qed
      have "facts_connection_get_master s3 = None" using up3 by (simp add: updating_def)
      then have "facts_add_fact_local rt s3 (Fact x y z 0) = (s2, r)"
        using up(3) 3 ok3 env by (auto simp: facts_add_tags_def facts_add_fact_def update_permitted_def split: if_splits)
      from add_inside [OF up3 f new this] ok3 show ?thesis by (auto simp: set_fact_id_def)
    qed
  qed
  have "db_room (facts_abs s) ((card F + 1) + 2)" using room by (simp add: numeral_3_eq_3)
  note at = with_transaction_atomic [where Q = "\<lambda>g M. \<exists>i. g = Fact x y z i \<and> M = (without (facts_map s) F)((x, y, z) \<mapsto> i)",
      OF inv this body w]
  have "facts_replace_tags rt env ptr v s vs x y z = (s', ?vs, r)"
    using fs w by (simp add: facts_replace_tags_def)
  then show ?thesis using at by blast
qed

end
