(* ===== verification/Set_Cursor.thy ===== *)
theory Set_Cursor
  imports Hash_Set
begin

text \<open>
  The cursor over a hash set (set\_cursor.c.in, instantiated as set\_cursor\_\_fact.c): it visits every
  item once, bucket after bucket.
\<close>

section \<open>Operations\<close>

record set_cursor =
  sc_i :: uw
  sc_item :: "item_ptr option"
  sc_count :: uw

definition set_cursor_init :: set_cursor where
  "set_cursor_init = \<lparr>sc_i = 0, sc_item = None, sc_count = 0\<rparr>"

text \<open>\<open>set->items[h]\<close> and \<open>item->next\<close>.\<close>

definition bucket_head :: "'a set_t \<Rightarrow> nat \<Rightarrow> item_ptr option" where
  "bucket_head s h = (if set_items s ! h = [] then None else Some (h, 0))"

definition item_next :: "'a set_t \<Rightarrow> item_ptr \<Rightarrow> item_ptr option" where
  "item_next s p = (if Suc (snd p) < length (set_items s ! fst p) then Some (fst p, Suc (snd p)) else None)"

lemma unat_Suc_less: "unat (x :: uw) < unat (y :: uw) \<Longrightarrow> unat (x + 1) = Suc (unat x)"
  using unsigned_less [of y, where 'a = nat] unat_word_ariths(1) [of x 1] by simp

text \<open>The loop of \<open>set_cursor_next_index\<close>.\<close>

function skip_empty :: "'a set_t \<Rightarrow> set_cursor \<Rightarrow> set_cursor" where
  "skip_empty s c =
    (if sc_i c < set_max s \<and> sc_item c = None
     then skip_empty s (c\<lparr>sc_item := bucket_head s (unat (sc_i c)), sc_i := sc_i c + 1\<rparr>)
     else c)"
  by auto
termination
proof (relation "measure (\<lambda>(s, c). unat (set_max s) - unat (sc_i c))")
  fix s :: "'a set_t" and c assume "sc_i c < set_max s \<and> sc_item c = None"
  then have "unat (sc_i c) < unat (set_max s)" by (simp add: word_less_nat_alt)
  moreover from this have "unat (sc_i c + 1) = Suc (unat (sc_i c))" by (rule unat_Suc_less)
  ultimately show "((s, c\<lparr>sc_item := bucket_head s (unat (sc_i c)), sc_i := sc_i c + 1\<rparr>), s, c)
      \<in> measure (\<lambda>(s, c). unat (set_max s) - unat (sc_i c))" by simp
qed simp

declare skip_empty.simps [simp del]

definition set_cursor_next_index :: "'a set_t \<Rightarrow> set_cursor \<Rightarrow> set_cursor \<times> item_ptr option" where
  "set_cursor_next_index s c = (let c = skip_empty s c in
    if sc_item c \<noteq> None then (c\<lparr>sc_count := sc_count c + 1\<rparr>, sc_item c) else (c, None))"

definition set_cursor_next :: "'a set_t \<Rightarrow> set_cursor \<Rightarrow> set_cursor \<times> item_ptr option" where
  "set_cursor_next s c =
    (if sc_count c = set_count s then (c, None)
     else let c = (case sc_item c of None \<Rightarrow> c | Some p \<Rightarrow> c\<lparr>sc_item := item_next s p\<rparr>) in
       if sc_item c = None then set_cursor_next_index s c
       else (c\<lparr>sc_count := sc_count c + 1\<rparr>, sc_item c))"

text \<open>The loop that copies at most \<open>n\<close> items to an array.\<close>

primrec cursor_items :: "'a set_t \<Rightarrow> nat \<Rightarrow> set_cursor \<Rightarrow> 'a set_item list" where
  "cursor_items s 0 c = []"
| "cursor_items s (Suc n) c = (case set_cursor_next s c of
      (c, None) \<Rightarrow> []
    | (c, Some p) \<Rightarrow> set_item_at s p # cursor_items s n c)"

section \<open>The items a cursor has left\<close>

definition cursor_ok :: "'a set_t \<Rightarrow> set_cursor \<Rightarrow> bool" where
  "cursor_ok s c \<longleftrightarrow> sc_i c \<le> set_max s \<and> (case sc_item c of None \<Rightarrow> True
    | Some (h, k) \<Rightarrow> unat (sc_i c) = Suc h \<and> k < length (set_items s ! h))"

definition cursor_rest :: "'a set_t \<Rightarrow> set_cursor \<Rightarrow> 'a set_item list" where
  "cursor_rest s c = (case sc_item c of None \<Rightarrow> [] | Some (h, k) \<Rightarrow> drop (Suc k) (set_items s ! h)) @
    concat (drop (unat (sc_i c)) (set_items s))"

text \<open>Skipping the empty buckets keeps what is left, from the item itself on.\<close>

lemma skip_empty_spec:
  assumes "length (set_items s) = unat (set_max s)" "sc_i c \<le> set_max s" "sc_item c = None"
  shows "sc_count (skip_empty s c) = sc_count c \<and> cursor_ok s (skip_empty s c) \<and>
    (case sc_item (skip_empty s c) of None \<Rightarrow> concat (drop (unat (sc_i c)) (set_items s)) = []
     | Some p \<Rightarrow> concat (drop (unat (sc_i c)) (set_items s)) = set_item_at s p # cursor_rest s (skip_empty s c))"
  using assms
proof (induction s c rule: skip_empty.induct)
  case (1 s c)
  let ?h = "unat (sc_i c)"
  let ?c = "c\<lparr>sc_item := bucket_head s ?h, sc_i := sc_i c + 1\<rparr>"
  show ?case
  proof (cases "sc_i c < set_max s")
    case False
    then have "skip_empty s c = c" "sc_i c = set_max s" using 1(3) by (simp_all add: skip_empty.simps [of s c])
    then show ?thesis using 1(2,4) by (simp add: cursor_ok_def)
  next
    case True
    then have h: "?h < length (set_items s)" using 1(2) by (simp add: word_less_nat_alt)
    then have i: "unat (sc_i c + 1) = Suc ?h" "sc_i c + 1 \<le> set_max s"
      using 1(2) unat_Suc_less [of "sc_i c" "set_max s"] by (simp_all add: word_le_nat_alt)
    have step: "skip_empty s c = skip_empty s ?c" using True 1(4) by (subst skip_empty.simps) simp
    have d: "drop ?h (set_items s) = set_items s ! ?h # drop (Suc ?h) (set_items s)" using h by (simp add: Cons_nth_drop_Suc)
    show ?thesis
    proof (cases "set_items s ! ?h")
      case Nil
      then have none: "bucket_head s ?h = None" by (simp add: bucket_head_def)
      show ?thesis
        using 1(1) [OF conjI [OF True 1(4)] 1(2), unfolded none] i d Nil unfolding step none
        by (simp split: option.splits)
    next
      case (Cons x xs)
      then have "skip_empty s ?c = ?c" by (subst skip_empty.simps) (simp add: bucket_head_def)
      then show ?thesis using step Cons i d by (simp add: bucket_head_def cursor_ok_def cursor_rest_def set_item_at_def)
    qed
  qed
qed

lemma set_cursor_next_spec:
  assumes len: "length (set_items s) = unat (set_max s)" and ok: "cursor_ok s c" and more: "sc_count c \<noteq> set_count s"
  shows "case set_cursor_next s c of
      (c', None) \<Rightarrow> cursor_rest s c = []
    | (c', Some p) \<Rightarrow> cursor_ok s c' \<and> sc_count c' = sc_count c + 1 \<and> cursor_rest s c = set_item_at s p # cursor_rest s c'"
proof -
  define e where "e = (case sc_item c of None \<Rightarrow> c | Some p \<Rightarrow> c\<lparr>sc_item := item_next s p\<rparr>)"
  have e: "sc_i e = sc_i c" "sc_count e = sc_count c" by (simp_all add: e_def split: option.split)
  have next_eq: "set_cursor_next s c = (if sc_item e = None then set_cursor_next_index s e
      else (e\<lparr>sc_count := sc_count e + 1\<rparr>, sc_item e))"
    using more by (simp add: set_cursor_next_def e_def Let_def)
  show ?thesis
  proof (cases "sc_item e")
    case None
    have "cursor_rest s c = concat (drop (unat (sc_i e)) (set_items s))"
      using None ok by (auto simp: e_def cursor_rest_def item_next_def cursor_ok_def split: option.splits if_splits)
    then show ?thesis
      using skip_empty_spec [OF len _ None] ok None e
      by (auto simp: next_eq set_cursor_next_index_def Let_def cursor_ok_def cursor_rest_def split: option.splits)
  next
    case (Some p)
    then obtain h k where c: "sc_item c = Some (h, k)" and k: "Suc k < length (set_items s ! h)" and p: "p = (h, Suc k)"
      by (auto simp: e_def item_next_def split: option.splits if_splits)
    have "drop (Suc k) (set_items s ! h) = set_items s ! h ! Suc k # drop (Suc (Suc k)) (set_items s ! h)"
      using k by (simp add: Cons_nth_drop_Suc)
    then show ?thesis
      using Some c k p ok e by (simp add: next_eq cursor_ok_def cursor_rest_def set_item_at_def)
  qed
qed

lemma cursor_items_take:
  assumes "length (set_items s) = unat (set_max s)" "cursor_ok s c" "unat (sc_count c) + n = unat (set_count s)"
  shows "cursor_items s n c = take n (cursor_rest s c)"
  using assms
proof (induction n arbitrary: c)
  case (Suc n)
  have "sc_count c \<noteq> set_count s" using Suc.prems(3) by auto
  note nx = set_cursor_next_spec [OF Suc.prems(1,2) this]
  obtain c' r where r: "set_cursor_next s c = (c', r)" by (metis surj_pair)
  show ?case
  proof (cases r)
    case None
    then show ?thesis using nx r by simp
  next
    case (Some p)
    have "unat (sc_count c + 1) = Suc (unat (sc_count c))"
      using Suc.prems(3) unat_Suc_less [of "sc_count c" "set_count s"] by simp
    then show ?thesis using nx r Some Suc.IH [OF Suc.prems(1), of c'] Suc.prems(3) by simp
  qed
qed simp

text \<open>All items, in the order of the buckets.\<close>

lemma set_cursor_all:
  assumes "set_inv hashf key ok s"
  shows "cursor_items s (unat (set_count s)) set_cursor_init = concat (set_items s)"
proof -
  have "length (set_items s) = unat (set_max s)" "unat (set_count s) = length (concat (set_items s))"
    using assms by (simp_all add: set_inv_def set_total_def length_concat)
  then show ?thesis
    using cursor_items_take [of s set_cursor_init "unat (set_count s)"]
    by (simp add: set_cursor_init_def cursor_ok_def cursor_rest_def)
qed

end
