(* ===== verification/Facts_Clear.thy ===== *)
theory Facts_Clear
  imports Facts_Update Set_Cursor
begin

text \<open>
  \<open>facts_remove_all\<close> (facts.c): the facts are read through the cursor of the set, sorted by
  decreasing identifiers with \<open>qsort\<close>, and removed one by one, outside any transaction of its own.
  \<open>qsort\<close>, from the C library, is an argument.
\<close>

section \<open>Operations\<close>

definition facts_compare_pfact_id_reverse :: "tag fact \<Rightarrow> tag fact \<Rightarrow> int" where
  "facts_compare_pfact_id_reverse f g =
    (if fact_id f < fact_id g then 1 else if fact_id f > fact_id g then -1 else 0)"

type_synonym qsort = "(tag fact \<Rightarrow> tag fact \<Rightarrow> int) \<Rightarrow> tag fact list \<Rightarrow> tag fact list"

definition facts_remove_all :: "rt \<Rightarrow> env_view \<Rightarrow> qsort \<Rightarrow> facts \<Rightarrow> facts \<times> unit outcome" where
  "facts_remove_all rt env qsort s =
    (if \<not> env_cleaning env \<and> env_securelevel env > 1 \<and> env_owns_facts env then (s, Abort)
     else let count = set_count (facts_facts s) in
       if count = 0 then (s, Ok ())
       else let f = map item_data (cursor_items (facts_facts s) (unat count) set_cursor_init)
         in remove_facts True rt env s (qsort facts_compare_pfact_id_reverse f))"

section \<open>Correctness\<close>

text \<open>The C library sorts: a permutation, in the order of the comparison.\<close>

definition qsort_ok :: "qsort \<Rightarrow> bool" where
  "qsort_ok qsort \<longleftrightarrow> (\<forall>xs. mset (qsort facts_compare_pfact_id_reverse xs) = mset xs \<and>
    sorted_wrt (\<lambda>f g. facts_compare_pfact_id_reverse f g \<le> 0) (qsort facts_compare_pfact_id_reverse xs))"

lemma reverse_iff: "facts_compare_pfact_id_reverse f g \<le> 0 \<longleftrightarrow> fact_id g \<le> fact_id f"
  by (auto simp: facts_compare_pfact_id_reverse_def)

lemma facts_items:
  assumes inv: "facts_inv rt m ps s"
  defines "fs \<equiv> map item_data (cursor_items (facts_facts s) (unat (set_count (facts_facts s))) set_cursor_init)"
  shows "set fs = facts_set s" "distinct fs" "length fs = unat (set_count (facts_facts s))"
proof -
  have si: "set_inv (fact_hash rt) fact_key (fact_ok rt m) (facts_facts s)" using inv by (simp add: facts_inv_def)
  have fs: "fs = map item_data (concat (set_items (facts_facts s)))"
    unfolding fs_def set_cursor_all [OF si] ..
  show set: "set fs = facts_set s" by (auto simp: fs facts_set_def item_set_def)
  have len: "length fs = set_total (facts_facts s)" by (simp add: fs set_total_def length_concat)
  then show "length fs = unat (set_count (facts_facts s))" using si by (simp add: set_inv_def)
  show "distinct fs" using len set facts_total [OF inv] by (intro card_distinct) simp
qed

text \<open>A connection stays what it is when a fact is sent to it.\<close>

lemma get_master_send:
  "get_master n (map (\<lambda>c. if P c then conn_send a f c else c) cs) = get_master n cs"
  by (induction cs arbitrary: n) (auto simp: conn_send_def)

lemma get_master_db_send [simp]: "get_master n (db_connections (db_send a f d)) = get_master n (db_connections d)"
  by (simp add: db_send_def get_master_send)

lemma db_next_id_send [simp]: "db_next_id (db_send a f d) = db_next_id d"
  by (simp add: db_send_def)

lemma db_remove_stored:
  assumes inv: "db_inv d" and stored: "db_map d (fact_key f) \<noteq> None" and res: "db_remove d f None = (d', r)"
  shows "get_master 0 (db_connections d') = get_master 0 (db_connections d) \<and>
    unat (db_next_id d') \<le> Suc (unat (db_next_id d)) \<and>
    (r = Ok True \<and> db_map d' = (db_map d)(fact_key f := None) \<or>
     r = Null \<and> db_map d' = db_map d \<and>
       ((\<exists>l. db_log d' = Some l \<and> log_failed l) \<or> 2 ^ 64 - 1 \<le> unat (db_next_id d)))"
proof (cases "db_transaction d = []")
  case False
  then show ?thesis using db_remove_inside [OF inv False res] stored
    by (auto simp: same_rest_def db_stuck_def unat_UW_MAX split: option.splits)
next
  case True
  have nr: "\<not> db_rolling_back d" by (rule db_not_rolling [OF inv])
  obtain i where i: "db_map d (fact_key f) = Some i" using stored by auto
  show ?thesis
  proof (cases "db_blocked d")
    case b: True
    then show ?thesis using res by (auto simp: db_remove_def db_blocked_def split: option.splits)
  next
    case b: False
    let ?g = "set_fact_id f i"
    obtain d1 r1 where ev: "db_event d ?g True None = (d1, r1)" by (metis surj_pair)
    have c: "get_master 0 (db_connections d1) = get_master 0 (db_connections d) \<and> db_map d1 = db_map d \<and>
        unat (db_next_id d1) \<le> Suc (unat (db_next_id d)) \<and>
        (r1 = None \<longrightarrow> (\<exists>l. db_log d1 = Some l \<and> log_failed l) \<or> 2 ^ 64 - 1 \<le> unat (db_next_id d)) \<and>
        (r1 \<noteq> None \<longrightarrow> (\<exists>eid. r1 = Some (eid, None)))"
      using ev nr True log_write_spec(2)
      by (auto simp: db_event_def facts_log_remove_def unat_next unat_UW_MAX Let_def split: if_splits option.splits prod.splits)
    then show ?thesis using res b i ev unfolding db_remove_def
      by (cases r1) (auto simp: Let_def split: if_splits)
  qed
qed

text \<open>
  The loop is a run of removals that stops at the first error.
\<close>

lemma remove_facts_run:
  assumes "facts_inv rt m [] s" "db_inv (facts_abs s)" "db_room (facts_abs s) (length fs)"
    "\<forall>f \<in> set fs. fact_ok rt m f \<and> facts_map s (fact_key f) \<noteq> None" "distinct (map fact_key fs)"
    "facts_connection_get_master s = None"
    "\<not> (\<not> env_cleaning env \<and> env_securelevel env > 1 \<and> env_owns_facts env)"
  shows "\<exists>s' r k. remove_facts True rt env s fs = (s', r) \<and>
    (r = Ok () \<and> facts_steps rt s (map Op_remove fs) s' \<and> facts_map s' = without (facts_map s) (set fs) \<or>
     r = Null \<and> k < length fs \<and> facts_steps rt s (map Op_remove (take (Suc k) fs)) s' \<and>
       facts_map s' = without (facts_map s) (set (take k fs)) \<and>
       ((\<exists>l. facts_log s' = Some l \<and> log_failed l) \<or> 2 ^ 64 - 1 \<le> unat (facts_next_id s) + k))"
  using assms
proof (induction fs arbitrary: s)
  case Nil
  then show ?case by (auto simp: without_def)
next
  case (Cons f fs)
  obtain s1 r1 where 1: "facts_remove_fact_local rt s f = (s1, r1)" by (metis surj_pair)
  have rem: "facts_remove_fact rt env s f = (s1, r1)"
    using Cons.prems(6,7) 1 by (auto simp: facts_remove_fact_def)
  have run: "run_op rt s (Op_remove f) = (s1, map_outcome (\<lambda>_. ()) r1)" by (simp add: run_op_def 1)
  have ok: "op_fact_ok rt m (Op_remove f)" and room: "db_room (facts_abs s) (Suc (length fs))"
    using Cons.prems(3,4) by simp_all
  note st = run_op_step [OF Cons.prems(1,2) ok room run]
  have "facts_room s [] 3" using db_room_facts [OF Cons.prems(1)] Cons.prems(3) by (simp add: db_room_def)
  then have "db_remove (facts_abs s) f None = (facts_abs s1, r1)"
    using facts_remove_fact_internal_refines [OF Cons.prems(1) _ _ 1 [unfolded facts_remove_fact_local_def]] Cons.prems(4)
    by auto
  from db_remove_stored [OF Cons.prems(2) _ this] Cons.prems(4,6)
  have d: "facts_connection_get_master s1 = None" "unat (facts_next_id s1) \<le> Suc (unat (facts_next_id s))"
    "r1 = Ok True \<and> facts_map s1 = (facts_map s)(fact_key f := None) \<or>
     r1 = Null \<and> facts_map s1 = facts_map s \<and>
       ((\<exists>l. facts_log s1 = Some l \<and> log_failed l) \<or> 2 ^ 64 - 1 \<le> unat (facts_next_id s))"
    by (simp_all add: facts_connection_get_master_def)
  show ?case
  proof (cases "r1 = Null")
    case True
    have "facts_steps rt s (map Op_remove (take (Suc 0) (f # fs))) s1"
      using run True by (auto intro: steps_cons steps_nil)
    moreover have "without (facts_map s) (set (take 0 (f # fs))) = facts_map s" by (simp add: without_def)
    ultimately show ?thesis using rem True d(3)
      by (intro exI [of _ s1] exI [of _ Null] exI [of _ 0]) auto
  next
    case False
    then have r1: "r1 = Ok True" and m1: "facts_map s1 = (facts_map s)(fact_key f := None)" using d(3) by auto
    have keys: "\<forall>g \<in> set fs. fact_ok rt m g \<and> facts_map s1 (fact_key g) \<noteq> None"
      using Cons.prems(4,5) m1 by (auto simp: m1) (metis imageI)
    obtain s' r k where IH: "remove_facts True rt env s1 fs = (s', r)"
      "r = Ok () \<and> facts_steps rt s1 (map Op_remove fs) s' \<and> facts_map s' = without (facts_map s1) (set fs) \<or>
       r = Null \<and> k < length fs \<and> facts_steps rt s1 (map Op_remove (take (Suc k) fs)) s' \<and>
         facts_map s' = without (facts_map s1) (set (take k fs)) \<and>
         ((\<exists>l. facts_log s' = Some l \<and> log_failed l) \<or> 2 ^ 64 - 1 \<le> unat (facts_next_id s1) + k)"
      using Cons.IH [OF st(1,3,6) keys _ d(1) Cons.prems(7)] Cons.prems(5) by auto
    have step: "facts_steps rt s1 ops s' \<Longrightarrow> facts_steps rt s (Op_remove f # ops) s'" for ops
      using steps_cons [OF run] r1 by simp
    have eq: "remove_facts True rt env s (f # fs) = (s', r)" using rem r1 IH(1) by simp
    show ?thesis
      using IH(2) step d(2) eq unfolding m1 without_insert
      by (intro exI [of _ s'] exI [of _ r] exI [of _ "Suc k"]) auto
  qed
qed

lemma facts_remove_all_run:
  assumes inv: "facts_inv rt m [] s" "db_inv (facts_abs s)" and room: "db_room (facts_abs s) (card (facts_set s))"
    and master: "facts_connection_get_master s = None" and env: "env_cleaning env \<or> update_permitted env"
    and sort: "qsort_ok qsort"
  shows "\<exists>fs s' r k. facts_remove_all rt env qsort s = (s', r) \<and> set fs = facts_set s \<and> distinct fs \<and>
    sorted_wrt (\<lambda>f g. fact_id g \<le> fact_id f) fs \<and>
    (r = Ok () \<and> facts_steps rt s (map Op_remove fs) s' \<and> facts_map s' = Map.empty \<or>
     r = Null \<and> k < length fs \<and> facts_steps rt s (map Op_remove (take (Suc k) fs)) s' \<and>
       facts_map s' = without (facts_map s) (set (take k fs)) \<and>
       ((\<exists>l. facts_log s' = Some l \<and> log_failed l) \<or> 2 ^ 64 - 1 \<le> unat (facts_next_id s) + k))"
proof -
  define gs where "gs = map item_data (cursor_items (facts_facts s) (unat (set_count (facts_facts s))) set_cursor_init)"
  define fs where "fs = qsort facts_compare_pfact_id_reverse gs"
  note gs = facts_items [OF inv(1), folded gs_def]
  have ms: "mset fs = mset gs" and sorted: "sorted_wrt (\<lambda>f g. fact_id g \<le> fact_id f) fs"
    using sort by (auto simp: qsort_ok_def fs_def reverse_iff)
  have fs: "set fs = facts_set s" "distinct fs" "length fs = card (facts_set s)"
    using gs mset_eq_setD [OF ms] mset_eq_imp_distinct_iff [OF ms] mset_eq_length [OF ms] distinct_card [of gs] by auto
  have empty: "without (facts_map s) (set fs) = Map.empty"
  proof
    fix k
    show "without (facts_map s) (set fs) k = None"
    proof (cases "facts_map s k")
      case (Some i)
      obtain x y z where k: "k = (x, y, z)" by (cases k)
      then have "Fact x y z i \<in> facts_set s" using facts_set_iff [OF inv(1), of "Fact x y z i"] Some by simp
      then show ?thesis using fs(1) k by (force simp: without_def)
    qed (simp add: without_def)
  qed
  have env': "\<not> (\<not> env_cleaning env \<and> env_securelevel env > 1 \<and> env_owns_facts env)"
    using env by (auto simp: update_permitted_def)
  have keys: "\<forall>f \<in> set fs. fact_ok rt m f \<and> facts_map s (fact_key f) \<noteq> None" "distinct (map fact_key fs)"
    using facts_set_keys [OF inv(1) fs(2)] facts_set_ok [OF inv(1)] fs(1) by auto
  have "facts_remove_all rt env qsort s = remove_facts True rt env s fs"
  proof (cases "set_count (facts_facts s) = 0")
    case True
    then have "fs = []" using gs ms by simp
    then show ?thesis using True env' by (simp add: facts_remove_all_def)
  next
    case False
    then show ?thesis unfolding facts_remove_all_def if_not_P [OF env'] by (simp add: fs_def gs_def Let_def)
  qed
  moreover have "db_room (facts_abs s) (length fs)" using room fs(3) by simp
  note remove_facts_run [OF inv this keys master env']
  ultimately show ?thesis using fs(1,2) sorted unfolding empty by (intro exI [of _ fs]) auto
qed

end
