(* ===== verification/Database.thy ===== *)
theory Database
  imports Facts_Clear
begin

text \<open>
  Runs of the database from its creation: what holds in every state that the operations reach
  from \<open>facts_init\<close>, whatever the log, the connections and the number of servers are.
\<close>

section \<open>The state a run starts from\<close>

definition fresh_facts :: "u64 list \<Rightarrow> (nat \<Rightarrow> u64) \<Rightarrow> fact_log option \<Rightarrow> facts_connection list \<Rightarrow> uw \<Rightarrow> facts option" where
  "fresh_facts table random lg cs n =
    map_option (\<lambda>s. s\<lparr>facts_log := lg, facts_connections := cs, facts_server_count := n\<rparr>) (facts_init table random)"

lemma fresh_facts_inv:
  assumes "fresh_facts table random lg cs n = Some s"
  shows "facts_inv rt m [] s" "db_inv (facts_abs s)" "facts_map s = Map.empty" "facts_transaction s = []"
    "facts_log s = lg" "committed (facts_abs s) = Map.empty" "db_weight (facts_abs s) = 0"
proof -
  obtain s0 where s0: "facts_init table random = Some s0"
    and s: "s = s0\<lparr>facts_log := lg, facts_connections := cs, facts_server_count := n\<rparr>"
    using assms by (auto simp: fresh_facts_def)
  note i = facts_init_inv [OF s0]
  have map: "facts_map s = facts_map s0" "facts_transaction s = facts_transaction s0"
    unfolding facts_map_def s by simp_all
  show "facts_inv rt m [] s"
    by (rule facts_inv_cong [OF i(1)]) (simp_all add: s live_actions_def)
  show "db_inv (facts_abs s)" "facts_map s = Map.empty" "facts_transaction s = []"
    "facts_log s = lg" "committed (facts_abs s) = Map.empty" "db_weight (facts_abs s) = 0"
    using i map by (simp_all add: s db_inv_def committed_def db_actions_def db_weight_def)
qed

section \<open>A sample database\<close>

text \<open>Every value has the same hash, so that every bucket is a collision.\<close>

definition sample_rt :: rt where
  "sample_rt = \<lparr>rt_mp = mp_exact, rt_tag_hash = (\<lambda>_. 0), rt_fact_hash = (\<lambda>_ _ _. 0)\<rparr>"

definition sample_log :: fact_log where
  "sample_log = \<lparr>log_records = [], log_after_dump = None, log_hooks = [], log_hook_calls = [],
    log_failed = False, log_io = (\<lambda>_ _. Log_ok)\<rparr>"

definition sample_facts :: facts where
  "sample_facts = the (fresh_facts (replicate 20 0) (\<lambda>_. 0) (Some sample_log) [] 0)"

lemma sample_facts: "fresh_facts (replicate 20 0) (\<lambda>_. 0) (Some sample_log) [] 0 = Some sample_facts"
  by (simp add: sample_facts_def fresh_facts_def facts_init_def set_init_def)

lemma sample_inv:
  "facts_inv sample_rt True [] sample_facts" "db_inv (facts_abs sample_facts)" "facts_map sample_facts = Map.empty"
  "facts_transaction sample_facts = []" "facts_log sample_facts = Some sample_log"
  "committed (facts_abs sample_facts) = Map.empty" "db_weight (facts_abs sample_facts) = 0"
  by (rule fresh_facts_inv [OF sample_facts])+

lemma sample_more:
  "facts_next_id sample_facts = 1" "facts_server_count sample_facts = 0" "facts_connections sample_facts = []"
  by (simp_all add: sample_facts_def fresh_facts_def facts_init_def set_init_def)

lemma sample_abs:
  "facts_abs sample_facts = \<lparr>db_map = Map.empty, db_log = Some sample_log, db_connections = [], db_remove_log = [],
    db_next_id = 1, db_server_count = 0, db_transaction = []\<rparr>"
  by (simp add: facts_abs_def sample_inv sample_more)
     (simp add: sample_facts_def fresh_facts_def facts_init_def set_init_def)

lemma sample_room: "3 * (3 * n) < (2 :: nat) ^ 64 \<Longrightarrow> db_room (facts_abs sample_facts) n"
  by (simp add: db_room_weight sample_inv(7))

lemma sample_room3: "facts_room sample_facts [] 3"
  by (rule db_room_facts [OF sample_inv(1)]) (simp add: sample_inv db_actions_def)

definition sample_fact :: "tag fact" where
  "sample_fact = Fact (TPsym [97]) (TPsym [98]) (TU8 1) 7"

lemma sample_fact_ok: "fact_ok sample_rt True sample_fact"
  by (simp add: sample_fact_def sample_rt_def tag_ok_def tags_canonical_def order_ok.simps [of True "TPsym _"] order_ok.simps [of True "TU8 _"]
      canonical.simps [of "TPsym _"] canonical.simps [of "TU8 _"] order_local_def canonical_local_def reduced_def)

lemma sample_steps:
  assumes "\<forall>op \<in> set ops. op_fact_ok sample_rt True op" "length ops < 100"
  obtains s where "facts_steps sample_rt sample_facts ops s" "facts_inv sample_rt True [] s"
    "db_inv (facts_abs s)" "facts_abs s = db_run (facts_abs sample_facts) ops" "db_weight (facts_abs s) \<le> 300"
proof -
  have room: "db_room (facts_abs sample_facts) (length ops)" by (rule sample_room) (use assms(2) in simp)
  obtain s where s: "facts_steps sample_rt sample_facts ops s"
    using facts_steps_exist [OF sample_inv(1,2) assms(1) room] by blast
  note i = facts_steps_all [OF s sample_inv(1,2) assms(1) room, where R = "[]" and M = Map.empty]
  then show thesis using that [OF s] assms(2) sample_inv(7) by auto
qed

text \<open>Evaluating the abstract operations on the sample.\<close>

lemmas sample_run_simps = sample_abs db_run_op_def db_add_def db_add_id_def db_store_def db_remove_def
  db_event_def db_start_def db_end_def db_push_def db_action_def db_blocked_def db_rolling_back_def
  facts_log_add_def facts_log_remove_def log_write_def db_send_def sample_log_def UW_MAX_def Let_def

text \<open>The sample with one fact.\<close>

definition sample_vars :: vars where
  "sample_vars = \<lparr>var_value = (\<lambda>_. None), var_type = (\<lambda>_. ''Tag'')\<rparr>"

definition sample_env :: env_view where
  "sample_env = \<lparr>env_securelevel = 0, env_cleaning = False, env_owns_facts = False\<rparr>"

definition sample_stored :: "tag fact" where
  "sample_stored = set_fact_id sample_fact 1"

lemma sample_single:
  assumes "fact_ok sample_rt True g"
  obtains s where "facts_steps sample_rt sample_facts [Op_add g] s" "facts_inv sample_rt True [] s"
    "db_inv (facts_abs s)" "facts_map s = [fact_key g \<mapsto> 1]" "facts_set s = {set_fact_id g 1}"
    "db_room (facts_abs s) 10" "\<not> facts_stuck s 10" "facts_transaction s = []"
proof -
  obtain s where s: "facts_steps sample_rt sample_facts [Op_add g] s" "facts_inv sample_rt True [] s"
    "db_inv (facts_abs s)" "facts_abs s = db_run (facts_abs sample_facts) [Op_add g]" "db_weight (facts_abs s) \<le> 300"
    by (rule sample_steps [of "[Op_add g]"]) (auto simp: assms)
  have abs: "db_map (facts_abs s) = [fact_key g \<mapsto> 1]" "db_transaction (facts_abs s) = []"
    "db_connections (facts_abs s) = []" "db_next_id (facts_abs s) = 2" "\<exists>l. db_log (facts_abs s) = Some l \<and> \<not> log_failed l"
    unfolding s(4) by (simp_all add: sample_run_simps)
  then have map: "facts_map s = [fact_key g \<mapsto> 1]" and t: "facts_transaction s = []" by simp_all
  have "facts_set s = {set_fact_id g 1}"
  proof (rule set_eqI)
    fix f
    show "f \<in> facts_set s \<longleftrightarrow> f \<in> {set_fact_id g 1}"
      unfolding facts_set_iff [OF s(2)] map singleton_iff fact_eq_iff [of f] by auto
  qed
  moreover have "db_room (facts_abs s) 10" using s(5) by (simp add: db_room_weight)
  moreover have "\<not> facts_stuck s 10" using abs by (auto simp: facts_stuck_def facts_connection_get_master_def)
  ultimately show thesis using that s(1-3) map t by blast
qed

lemma sample_one:
  obtains s where "facts_steps sample_rt sample_facts [Op_add sample_fact] s" "facts_inv sample_rt True [] s"
    "db_inv (facts_abs s)" "facts_map s = [fact_key sample_fact \<mapsto> 1]" "facts_set s = {sample_stored}"
    "db_room (facts_abs s) 10" "\<not> facts_stuck s 10" "facts_transaction s = []"
  by (rule sample_single [OF sample_fact_ok, folded sample_stored_def])

lemma distinct_one: "distinct fs \<Longrightarrow> set fs = {x} \<Longrightarrow> fs = [x]"
  using distinct_card [of fs] by (cases fs; cases "tl fs") auto

lemma sample_args: "arg_ok sample_rt True sample_vars (TPvar i)" "arg_ok sample_rt True sample_vars (TPsym s)"
  by (simp_all add: arg_ok_def sample_vars_def sample_rt_def tag_ok_def tags_canonical_def order_ok.simps [of True "TPsym _"]
      canonical.simps [of "TPsym _"] order_local_def canonical_local_def reduced_def)

lemma sample_unbound: "unbound_var sample_vars (TPvar i) = Some i" "unbound_var sample_vars (TPsym s) = None"
  by (simp_all add: unbound_var_def tag_is_unbound_var_def sample_vars_def)

lemma sample_query: "query_matches sample_vars (TPvar i) (TPsym [98]) (TPvar j) sample_stored"
  by (simp add: query_matches_def arg_matches_def bind_type_def sample_vars_def sample_stored_def sample_fact_def set_fact_id_def)

text \<open>A fact about a string, and variables bound to a symbol and to another string.\<close>

definition sample_text :: "tag fact" where
  "sample_text = Fact (TStr [97]) (TPsym [98]) (TU8 1) 1"

definition bound_vars :: vars where
  "bound_vars = sample_vars\<lparr>var_value := (var_value sample_vars)(0 \<mapsto> TPsym [97], 1 \<mapsto> TStr [98])\<rparr>"

lemma bound_vars_tags:
  "tag_ok sample_rt True (TStr u)" "tag_ok sample_rt True (TPsym u)" "tag_ok sample_rt True (TU8 1)"
  "stands_for bound_vars (TPvar 0) (TPsym [97])" "stands_for bound_vars (TPvar 1) (TStr [98])"
  "stands_for bound_vars (TPsym u) (TPsym u)" "stands_for bound_vars (TU8 1) (TU8 1)"
  by (simp_all add: stands_for_def bound_vars_def sample_rt_def tag_ok_def tags_canonical_def order_ok.simps [of True "TPsym _"]
      order_ok.simps [of True "TStr _"] order_ok.simps [of True "TU8 _"] canonical.simps [of "TPsym _"] canonical.simps [of "TStr _"]
      canonical.simps [of "TU8 _"] order_local_def canonical_local_def reduced_def)

end
