(* ===== verification/Utf8.thy ===== *)
theory Utf8
  imports Prelude
begin

unbundle bit_operations_syntax

text \<open>
  UTF-8 (character.c, str.c): encoding a character, decoding the first character of a string.

  A decoder returns \<open>Got x n\<close> when it stored \<open>x\<close> and returned the number \<open>n\<close> of bytes it used,
  and \<open>Stop r\<close> when it stored nothing and returned \<open>r\<close>, zero or negative.
\<close>

datatype 'a got = Got 'a nat | Stop int

section \<open>Encoding\<close>

definition character_utf8_size :: "u32 \<Rightarrow> int" where
  "character_utf8_size c =
    (if c < 0x80 then 1 else if c < 0x800 then 2 else if c < 0x10000 then 3
     else if c < 0x110000 then 4 else - 1)"

definition character_utf8 :: "u32 \<Rightarrow> u8 list option" where
  "character_utf8 c =
    (if c < 0x80 then Some [ucast c]
     else if c < 0x800 then Some
       [ucast (0xC0 OR (drop_bit 6 c AND 0x1F)), ucast (0x80 OR (c AND 0x3F))]
     else if c < 0x10000 then Some
       [ucast (0xE0 OR (drop_bit 12 c AND 0x0F)), ucast (0x80 OR (drop_bit 6 c AND 0x3F)),
        ucast (0x80 OR (c AND 0x3F))]
     else if c < 0x110000 then Some
       [ucast (0xF0 OR (drop_bit 18 c AND 0x07)), ucast (0x80 OR (drop_bit 12 c AND 0x3F)),
        ucast (0x80 OR (drop_bit 6 c AND 0x3F)), ucast (0x80 OR (c AND 0x3F))]
     else None)"

section \<open>Decoding\<close>

definition utf8_2 :: "u8 \<Rightarrow> u8 \<Rightarrow> u32" where
  "utf8_2 b0 b1 = push_bit 6 (ucast (b0 AND 0x1F)) OR ucast (b1 AND 0x3F)"

definition utf8_3 :: "u8 \<Rightarrow> u8 \<Rightarrow> u8 \<Rightarrow> u32" where
  "utf8_3 b0 b1 b2 = push_bit 12 (ucast (b0 AND 0x0F)) OR push_bit 6 (ucast (b1 AND 0x3F)) OR
    ucast (b2 AND 0x3F)"

definition utf8_4 :: "u8 \<Rightarrow> u8 \<Rightarrow> u8 \<Rightarrow> u8 \<Rightarrow> u32" where
  "utf8_4 b0 b1 b2 b3 = push_bit 18 (ucast (b0 AND 0x07)) OR push_bit 12 (ucast (b1 AND 0x3F)) OR
    push_bit 6 (ucast (b2 AND 0x3F)) OR ucast (b3 AND 0x3F)"

definition utf8_continuation :: "u8 \<Rightarrow> bool" where
  "utf8_continuation b \<longleftrightarrow> b AND 0xC0 = 0x80"

definition str_peek_character_utf8 :: "u8 list \<Rightarrow> u32 got" where
  "str_peek_character_utf8 str =
    (if length str = 0 then Stop (- 1)
     else let b0 = str ! 0 in
       if b0 AND 0x80 = 0 then Got (ucast b0) 1
       else if b0 AND 0xE0 = 0xC0 then
         (if length str < 2 then Stop (- 1)
          else if \<not> utf8_continuation (str ! 1) then Stop 0
          else Got (utf8_2 b0 (str ! 1)) 2)
       else if b0 AND 0xF0 = 0xE0 then
         (if length str < 3 then Stop (- 1)
          else if \<not> utf8_continuation (str ! 1) then Stop 0
          else if \<not> utf8_continuation (str ! 2) then Stop 0
          else Got (utf8_3 b0 (str ! 1) (str ! 2)) 3)
       else if b0 AND 0xF8 = 0xF0 then
         (if length str < 4 then Stop (- 1)
          else if \<not> utf8_continuation (str ! 1) then Stop 0
          else if \<not> utf8_continuation (str ! 2) then Stop 0
          else if \<not> utf8_continuation (str ! 3) then Stop 0
          else if 0x110000 \<le> utf8_4 b0 (str ! 1) (str ! 2) (str ! 3) then Stop 0
          else Got (utf8_4 b0 (str ! 1) (str ! 2) (str ! 3)) 4)
       else Stop 0)"

lemma str_peek_length: "str_peek_character_utf8 s = Got c n \<Longrightarrow> 0 < n \<and> n \<le> length s"
  by (auto simp: str_peek_character_utf8_def Let_def Suc_le_eq split: if_splits)

text \<open>Reading moves the string past the character.\<close>

definition str_read_character_utf8 :: "u8 list \<Rightarrow> u32 got \<times> u8 list" where
  "str_read_character_utf8 str =
    (if length str = 0 then (Stop 0, str)
     else case str_peek_character_utf8 str of
       Stop r \<Rightarrow> (Stop r, str)
     | Got c n \<Rightarrow> (Got c n, drop n str))"

definition str_read_u8 :: "u8 list \<Rightarrow> u8 got \<times> u8 list" where
  "str_read_u8 str = (if length str = 0 then (Stop 0, str) else (Got (str ! 0) 1, drop 1 str))"

section \<open>Round trip\<close>

lemma less_8_cases: "n < 8 \<Longrightarrow> n = 0 \<or> n = 1 \<or> n = 2 \<or> n = 3 \<or> n = 4 \<or> n = 5 \<or> n = 6 \<or> n = (7 :: nat)"
  by linarith

lemma and_masks:
  fixes x :: "'a::len word"
  shows "x AND 0x07 = take_bit 3 x" "x AND 0x0F = take_bit 4 x" "x AND 0x1F = take_bit 5 x"
    "x AND 0x3F = take_bit 6 x"
  by (simp_all add: take_bit_eq_mask mask_eq_exp_minus_1)

lemma lead_bytes:
  fixes x :: u32
  defines "l2 \<equiv> ucast (0xC0 OR (x AND 0x1F)) :: u8" and "l3 \<equiv> ucast (0xE0 OR (x AND 0x0F)) :: u8"
    and "l4 \<equiv> ucast (0xF0 OR (x AND 0x07)) :: u8"
  shows "l2 AND 0x80 = 0x80" "l2 AND 0xE0 = 0xC0" "l2 AND 0x1F = take_bit 5 (ucast x)"
    "l3 AND 0x80 = 0x80" "l3 AND 0xE0 = 0xE0" "l3 AND 0xF0 = 0xE0" "l3 AND 0x0F = take_bit 4 (ucast x)"
    "l4 AND 0x80 = 0x80" "l4 AND 0xE0 = 0xE0" "l4 AND 0xF0 = 0xF0" "l4 AND 0xF8 = 0xF0"
    "l4 AND 0x07 = take_bit 3 (ucast x)"
  unfolding l2_def l3_def l4_def
  by (rule bit_word_eqI; auto simp: bit_simps dest!: less_8_cases)+

lemma continuation_byte:
  fixes x :: u32
  defines "b \<equiv> ucast (0x80 OR (x AND 0x3F)) :: u8"
  shows "utf8_continuation b" "b AND 0x3F = take_bit 6 (ucast x)"
  unfolding b_def utf8_continuation_def
  by (rule bit_word_eqI; auto simp: bit_simps dest!: less_8_cases)+

lemma utf8_value:
  fixes c :: u32
  shows "push_bit 6 (ucast (take_bit 5 (ucast (drop_bit 6 c) :: u8))) OR
      ucast (take_bit 6 (ucast c :: u8)) = take_bit 11 c"
    and "push_bit 12 (ucast (take_bit 4 (ucast (drop_bit 12 c) :: u8))) OR
      push_bit 6 (ucast (take_bit 6 (ucast (drop_bit 6 c) :: u8))) OR
      ucast (take_bit 6 (ucast c :: u8)) = take_bit 16 c"
    and "push_bit 18 (ucast (take_bit 3 (ucast (drop_bit 18 c) :: u8))) OR
      push_bit 12 (ucast (take_bit 6 (ucast (drop_bit 12 c) :: u8))) OR
      push_bit 6 (ucast (take_bit 6 (ucast (drop_bit 6 c) :: u8))) OR
      ucast (take_bit 6 (ucast c :: u8)) = take_bit 21 c"
  subgoal by (rule bit_word_eqI) (auto simp: bit_simps)
  subgoal by (rule bit_word_eqI, rename_tac n, case_tac "n < 6"; case_tac "n < 12") (auto simp: bit_simps)
  subgoal by (rule bit_word_eqI, rename_tac n, case_tac "n < 6"; case_tac "n < 12"; case_tac "n < 18")
      (auto simp: bit_simps)
  done

lemma take_bit_small:
  fixes c :: u32
  shows "c < 0x80 \<Longrightarrow> take_bit 7 c = c" "c < 0x800 \<Longrightarrow> take_bit 11 c = c"
    "c < 0x10000 \<Longrightarrow> take_bit 16 c = c" "c < 0x110000 \<Longrightarrow> take_bit 21 c = c"
proof -
  have *: "uint c < 2 ^ n \<Longrightarrow> take_bit n c = c" for n
    by (simp add: word_uint_eq_iff unsigned_take_bit_eq take_bit_int_eq_self)
  show "c < 0x80 \<Longrightarrow> take_bit 7 c = c" "c < 0x800 \<Longrightarrow> take_bit 11 c = c"
    "c < 0x10000 \<Longrightarrow> take_bit 16 c = c" "c < 0x110000 \<Longrightarrow> take_bit 21 c = c"
    by (rule *; simp add: word_less_alt)+
qed

lemma ascii_byte:
  fixes c :: u32
  assumes "take_bit 7 c = c"
  shows "(ucast c :: u8) AND 0x80 = 0" "ucast (ucast c :: u8) = c"
proof -
  have high: "\<not> bit c n" if "7 \<le> n" for n
    using that bit_take_bit_iff [of 7 c n] by (simp add: assms)
  show "(ucast c :: u8) AND 0x80 = 0"
    by (rule bit_word_eqI) (use high [of 7] in \<open>auto simp: bit_simps dest!: less_8_cases\<close>)
  show "ucast (ucast c :: u8) = c"
  proof (rule bit_word_eqI)
    fix n assume "n < LENGTH(32)"
    then show "bit (ucast (ucast c :: u8) :: u32) n = bit c n"
      using high [of n] by (cases "n < 7") (auto simp: bit_simps)
  qed
qed

lemma str_peek_encoded:
  assumes "character_utf8 c = Some bs"
  shows "str_peek_character_utf8 (bs @ rest) = Got c (length bs)"
proof -
  note [simp] = lead_bytes continuation_byte
  consider "c < 0x80" | "\<not> c < 0x80" "c < 0x800" | "\<not> c < 0x80" "\<not> c < 0x800" "c < 0x10000"
    | "\<not> c < 0x80" "\<not> c < 0x800" "\<not> c < 0x10000" "c < 0x110000"
    using assms unfolding character_utf8_def by (auto split: if_splits)
  then show ?thesis
  proof cases
    case 1
    then have "bs = [ucast c]" using assms by (simp add: character_utf8_def)
    then show ?thesis
      using ascii_byte [OF take_bit_small(1) [OF 1]] by (simp add: str_peek_character_utf8_def)
  next
    case 2
    define l where "l = (ucast (0xC0 OR (drop_bit 6 c AND 0x1F)) :: u8)"
    define m1 where "m1 = (ucast (0x80 OR (c AND 0x3F)) :: u8)"
    have *: "l AND 0x80 = 0x80" "l AND 0xE0 = 0xC0" "utf8_continuation m1"
      unfolding l_def m1_def by (simp_all add: lead_bytes continuation_byte)
    have "utf8_2 l m1 = c"
      unfolding l_def m1_def utf8_2_def lead_bytes continuation_byte utf8_value using 2 by (intro take_bit_small)
    moreover have "bs = [l, m1]"
      using 2 assms by (simp add: character_utf8_def l_def m1_def)
    ultimately show ?thesis
      using * 2 by (simp add: str_peek_character_utf8_def)
  next
    case 3
    define l where "l = (ucast (0xE0 OR (drop_bit 12 c AND 0x0F)) :: u8)"
    define m1 where "m1 = (ucast (0x80 OR (drop_bit 6 c AND 0x3F)) :: u8)"
    define m2 where "m2 = (ucast (0x80 OR (c AND 0x3F)) :: u8)"
    have *: "l AND 0x80 = 0x80" "l AND 0xE0 = 0xE0" "l AND 0xF0 = 0xE0" "utf8_continuation m1" "utf8_continuation m2"
      unfolding l_def m1_def m2_def by (simp_all add: lead_bytes continuation_byte)
    have "utf8_3 l m1 m2 = c"
      unfolding l_def m1_def m2_def utf8_3_def lead_bytes continuation_byte utf8_value using 3 by (intro take_bit_small)
    moreover have "bs = [l, m1, m2]"
      using 3 assms by (simp add: character_utf8_def l_def m1_def m2_def)
    ultimately show ?thesis
      using * 3 by (simp add: str_peek_character_utf8_def)
  next
    case 4
    define l where "l = (ucast (0xF0 OR (drop_bit 18 c AND 0x07)) :: u8)"
    define m1 where "m1 = (ucast (0x80 OR (drop_bit 12 c AND 0x3F)) :: u8)"
    define m2 where "m2 = (ucast (0x80 OR (drop_bit 6 c AND 0x3F)) :: u8)"
    define m3 where "m3 = (ucast (0x80 OR (c AND 0x3F)) :: u8)"
    have *: "l AND 0x80 = 0x80" "l AND 0xE0 = 0xE0" "l AND 0xF0 = 0xF0" "l AND 0xF8 = 0xF0" "utf8_continuation m1" "utf8_continuation m2" "utf8_continuation m3"
      unfolding l_def m1_def m2_def m3_def by (simp_all add: lead_bytes continuation_byte)
    have "utf8_4 l m1 m2 m3 = c"
      unfolding l_def m1_def m2_def m3_def utf8_4_def lead_bytes continuation_byte utf8_value using 4 by (intro take_bit_small)
    moreover have "bs = [l, m1, m2, m3]"
      using 4 assms by (simp add: character_utf8_def l_def m1_def m2_def m3_def)
    ultimately show ?thesis
      using * 4 by (simp add: str_peek_character_utf8_def not_less [symmetric])
  qed
qed

end
