(* ===== verification/Buffers.thy ===== *)
theory Buffers
  imports Utf8
begin

unbundle bit_operations_syntax

text \<open>
  Buffers in memory (buf.c).

  A buffer is the bytes written to it and not yet compacted away, so that \<open>wpos\<close> is their number,
  with the position of the reader and the size of its memory.  Only buffers in memory are
  modelled: the pointers \<open>flush\<close>, \<open>refill\<close> and \<open>seek\<close> are NULL.  \<open>buf_saves\<close> is the list
  \<open>buf->save\<close> of the registered positions, \<open>rpos\<close> and \<open>wpos\<close> of each, the newest first.  The line and column, kept for messages and for indentation, are left out, except
  for the column at which a new line starts.  Positions are natural numbers: an object in memory
  is smaller than the largest \<open>sw\<close>.

  A function that returns its count in an \<open>sw\<close> and a value through a pointer is a \<open>got\<close>.
\<close>

record buf =
  buf_bytes :: "u8 list"
  buf_rpos :: nat
  buf_size :: nat
  buf_read_only :: bool
  buf_base_column :: nat
  buf_saves :: "(nat \<times> nat) list"

definition buf_wpos :: "buf \<Rightarrow> nat" where
  "buf_wpos b = length (buf_bytes b)"

definition buf_init_alloc :: "nat \<Rightarrow> buf" where
  "buf_init_alloc sz = \<lparr>buf_bytes = [], buf_rpos = 0, buf_size = sz, buf_read_only = False, buf_base_column = 0, buf_saves = []\<rparr>"

definition buf_init_const :: "u8 list \<Rightarrow> buf" where
  "buf_init_const p = \<lparr>buf_bytes = p, buf_rpos = 0, buf_size = length p, buf_read_only = True, buf_base_column = 0, buf_saves = []\<rparr>"

definition buf_init_str_copy :: "u8 list \<Rightarrow> buf" where
  "buf_init_str_copy str = \<lparr>buf_bytes = str, buf_rpos = 0, buf_size = length str, buf_read_only = False, buf_base_column = 0, buf_saves = []\<rparr>"

definition buf_empty :: "buf \<Rightarrow> buf" where
  "buf_empty b = b\<lparr>buf_bytes := [], buf_rpos := 0\<rparr>"

section \<open>Room and positions\<close>

definition buf_flush :: "buf \<Rightarrow> int" where
  "buf_flush b = int (buf_size b) - int (buf_wpos b)"

text \<open>
  Compaction keeps the bytes from the first position that is still needed (\<open>buf_save_min_rpos\<close>) and
  moves the registered positions along.
\<close>

definition buf_save_min_rpos :: "buf \<Rightarrow> nat" where
  "buf_save_min_rpos b = foldl (\<lambda>rpos save. if fst save < rpos then fst save else rpos) (buf_rpos b) (buf_saves b)"

lemma foldl_min_le:
  "foldl (\<lambda>rpos save. if fst save < rpos then fst save else rpos) (m :: nat) saves \<le> m"
proof (induction saves arbitrary: m)
  case (Cons a saves)
  show ?case using Cons [of "if fst a < m then fst a else m"] by (auto split: if_splits)
qed simp

lemma foldl_min_save:
  "save \<in> set saves \<Longrightarrow>
    foldl (\<lambda>rpos save. if fst save < rpos then fst save else rpos) (m :: nat) saves \<le> fst save"
proof (induction saves arbitrary: m)
  case (Cons a saves)
  then show ?case
    using foldl_min_le [of "if fst a < m then fst a else m" saves] by (cases "save = a") auto
qed simp

lemma buf_save_min_rpos_le: "buf_save_min_rpos b \<le> buf_rpos b"
  unfolding buf_save_min_rpos_def by (rule foldl_min_le)

lemma buf_save_min_rpos_save: "(r, w) \<in> set (buf_saves b) \<Longrightarrow> buf_save_min_rpos b \<le> r"
  unfolding buf_save_min_rpos_def using foldl_min_save by fastforce

definition buf_refill_compact :: "buf \<Rightarrow> int \<times> buf" where
  "buf_refill_compact b =
    (if buf_read_only b then (0, b)
     else let m = buf_save_min_rpos b in
       if buf_wpos b < m then (- 1, b)
       else if buf_size b < buf_wpos b then (- 1, b)
       else (1, if 0 < m
         then b\<lparr>buf_bytes := drop m (buf_bytes b), buf_rpos := (if m = buf_wpos b then 0 else buf_rpos b - m),
           buf_saves := map (\<lambda>(r, w). (r - m, w - m)) (buf_saves b)\<rparr>
         else b))"

definition buf_refill :: "buf \<Rightarrow> int \<Rightarrow> int \<times> buf" where
  "buf_refill b sz = (let r = int (buf_wpos b) - int (buf_rpos b) in
    if sz < 0 then (- 1, b)
    else if buf_read_only b \<or> sz = 0 then (r, b)
    else if int (buf_wpos b) < int (buf_rpos b) + sz then
      (case buf_refill_compact b of (r, b) \<Rightarrow>
        if r < 0 then (r, b) else (int (buf_wpos b) - int (buf_rpos b), b))
    else (r, b))"

definition buf_seek_set :: "buf \<Rightarrow> int \<Rightarrow> int \<times> buf" where
  "buf_seek_set b position =
    (if position < 0 then (- 1, b)
     else if buf_size b < buf_wpos b then (- 1, b)
     else if int (buf_wpos b) < position then (- 1, b)
     else (position, b\<lparr>buf_rpos := nat position\<rparr>))"

datatype seek = SEEK_CUR | SEEK_END | SEEK_SET

definition buf_seek :: "buf \<Rightarrow> int \<Rightarrow> seek \<Rightarrow> int \<times> buf" where
  "buf_seek b position from = (case from of
      SEEK_CUR \<Rightarrow> buf_seek_set b (int (buf_rpos b) + position)
    | SEEK_END \<Rightarrow> buf_seek_set b (int (buf_size b) + position)
    | SEEK_SET \<Rightarrow> buf_seek_set b position)"

section \<open>Bytes of the machine types\<close>

text \<open>The macros DEF\_BUF\_PEEK, DEF\_BUF\_READ and DEF\_BUF\_WRITE, on the bytes of a type in memory.\<close>

definition buf_peek_mem :: "buf \<Rightarrow> nat \<Rightarrow> u8 list got \<times> buf" where
  "buf_peek_mem b sz =
    (if buf_wpos b < buf_rpos b \<or> buf_size b < buf_wpos b then (Stop (- 1), b)
     else let (r, b) = (if buf_wpos b < buf_rpos b + sz then buf_refill b (int sz) else (int sz, b)) in
       if r < 0 then (Stop r, b)
       else if r < int sz then (Stop (- 1), b)
       else if buf_wpos b < buf_rpos b + sz then (Stop (- 1), b)
       else (Got (take sz (drop (buf_rpos b) (buf_bytes b))) sz, b))"

definition buf_read_mem :: "buf \<Rightarrow> nat \<Rightarrow> u8 list got \<times> buf" where
  "buf_read_mem b sz = (case buf_peek_mem b sz of
      (Got x r, b) \<Rightarrow> (Got x r, b\<lparr>buf_rpos := buf_rpos b + r\<rparr>)
    | (Stop r, b) \<Rightarrow> (Stop r, b))"

definition buf_write_mem :: "buf \<Rightarrow> u8 list \<Rightarrow> int \<times> buf" where
  "buf_write_mem b src = (let sz = length src in
    if buf_size b < buf_wpos b + sz \<and> buf_flush b < int sz then (- 1, b)
    else if buf_size b < buf_wpos b + sz then (- 1, b)
    else (int sz, b\<lparr>buf_bytes := buf_bytes b @ src\<rparr>))"

text \<open>The representation of a word in memory: the least significant byte first.\<close>

fun le_bytes :: "nat \<Rightarrow> 'a::len word \<Rightarrow> u8 list" where
  "le_bytes 0 w = []"
| "le_bytes (Suc n) w = ucast w # le_bytes n (drop_bit 8 w)"

fun le_word :: "u8 list \<Rightarrow> 'a::len word" where
  "le_word [] = 0"
| "le_word (b # bs) = ucast b OR push_bit 8 (le_word bs)"

fun map_got :: "('a \<Rightarrow> 'b) \<Rightarrow> 'a got \<times> 's \<Rightarrow> 'b got \<times> 's" where
  "map_got f (Got x n, s) = (Got (f x) n, s)"
| "map_got f (Stop r, s) = (Stop r, s)"

definition buf_peek_u8 :: "buf \<Rightarrow> u8 got \<times> buf" where
  "buf_peek_u8 b = map_got le_word (buf_peek_mem b 1)"

definition buf_read_u8 :: "buf \<Rightarrow> u8 got \<times> buf" where
  "buf_read_u8 b = map_got le_word (buf_read_mem b 1)"

definition buf_write_u8 :: "buf \<Rightarrow> u8 \<Rightarrow> int \<times> buf" where
  "buf_write_u8 b x = buf_write_mem b (le_bytes 1 x)"

definition buf_read_u16 :: "buf \<Rightarrow> u16 got \<times> buf" where
  "buf_read_u16 b = map_got le_word (buf_read_mem b 2)"

definition buf_write_u16 :: "buf \<Rightarrow> u16 \<Rightarrow> int \<times> buf" where
  "buf_write_u16 b x = buf_write_mem b (le_bytes 2 x)"

definition buf_read_u32 :: "buf \<Rightarrow> u32 got \<times> buf" where
  "buf_read_u32 b = map_got le_word (buf_read_mem b 4)"

definition buf_write_u32 :: "buf \<Rightarrow> u32 \<Rightarrow> int \<times> buf" where
  "buf_write_u32 b x = buf_write_mem b (le_bytes 4 x)"

definition buf_read_u64 :: "buf \<Rightarrow> u64 got \<times> buf" where
  "buf_read_u64 b = map_got le_word (buf_read_mem b 8)"

definition buf_write_u64 :: "buf \<Rightarrow> u64 \<Rightarrow> int \<times> buf" where
  "buf_write_u64 b x = buf_write_mem b (le_bytes 8 x)"

text \<open>A \<open>bool\<close> is stored as the byte 0 or 1.\<close>

definition buf_read_bool :: "buf \<Rightarrow> bool got \<times> buf" where
  "buf_read_bool b = map_got (\<lambda>bs. le_word bs \<noteq> (0 :: u8)) (buf_read_mem b 1)"

definition buf_write_bool :: "buf \<Rightarrow> bool \<Rightarrow> int \<times> buf" where
  "buf_write_bool b x = buf_write_mem b [if x then 1 else 0]"

section \<open>Strings of bytes\<close>

function buf_write_loop :: "buf \<Rightarrow> u8 list \<Rightarrow> int \<times> buf" where
  "buf_write_loop b data =
    (if data = [] then (0, b)
     else let s = buf_size b - buf_wpos b in
       if s = 0 then (- 1, b)
       else let s = (if length data < s then length data else s);
                b = b\<lparr>buf_bytes := buf_bytes b @ take s data\<rparr>
         in if buf_flush b < 0 then (buf_flush b, b) 
            else if buf_wpos b < buf_rpos b \<or> buf_size b < buf_wpos b then (- 1, b)
            else buf_write_loop b (drop s data))"
  by auto
termination
  by (relation "measure (\<lambda>(b, data). length data)") (auto simp: Let_def)

declare buf_write_loop.simps [simp del]

definition buf_write :: "buf \<Rightarrow> u8 list \<Rightarrow> int \<times> buf" where
  "buf_write b data = (let len = length data in
    if len = 0 then (0, b)
    else if buf_wpos b < buf_rpos b \<or> buf_size b < buf_wpos b then (- 1, b)
    else if buf_size b - buf_wpos b < len \<and> buf_flush b < 0 then (buf_flush b, b)
    else if buf_size b - buf_wpos b < len then
      (case buf_write_loop b data of (r, b) \<Rightarrow> (if r < 0 then r else int len, b))
    else (int len, b\<lparr>buf_bytes := buf_bytes b @ data\<rparr>))"

definition buf_read :: "buf \<Rightarrow> nat \<Rightarrow> u8 list option \<times> buf" where
  "buf_read b sz =
    (if sz = 0 then (Some [], b)
     else if buf_wpos b < buf_rpos b then (None, b)
     else let (r, b) = (if buf_wpos b < buf_rpos b + sz then buf_refill b (int sz) else (int sz, b)) in
       if r < int sz then (None, b)
       else if buf_wpos b < buf_rpos b + sz then (None, b)
       else (Some (take sz (drop (buf_rpos b) (buf_bytes b))), b\<lparr>buf_rpos := buf_rpos b + sz\<rparr>))"

text \<open>Moving bytes from one buffer to another: the result, the destination and the source.\<close>

definition buf_xfer :: "buf \<Rightarrow> buf \<Rightarrow> nat \<Rightarrow> int \<times> buf \<times> buf" where
  "buf_xfer dest src sz =
    (if sz = 0 then (0, dest, src)
     else if buf_wpos src < buf_rpos src \<or> buf_size src < buf_wpos src \<or>
       buf_wpos dest < buf_rpos dest \<or> buf_size dest < buf_wpos dest then (- 1, dest, src)
     else let (r, src) = (if buf_wpos src - buf_rpos src < sz then buf_refill src (int sz) else (0, src)) in
       if r < 0 then (r, dest, src)
       else if buf_wpos src < buf_rpos src \<or> buf_size src < buf_wpos src then (- 1, dest, src)
       else if buf_wpos src - buf_rpos src < sz then (0, dest, src)
       else if buf_size dest - buf_wpos dest < sz \<and> buf_flush dest < 0 then (buf_flush dest, dest, src)
       else if buf_size dest - buf_wpos dest < sz then (- 1, dest, src)
       else (int sz,
         dest\<lparr>buf_bytes := buf_bytes dest @ take sz (drop (buf_rpos src) (buf_bytes src))\<rparr>,
         src\<lparr>buf_rpos := buf_rpos src + sz\<rparr>))"

section \<open>What the operations do\<close>

definition buf_ok :: "buf \<Rightarrow> bool" where
  "buf_ok b \<longleftrightarrow> buf_rpos b \<le> buf_wpos b \<and> buf_wpos b \<le> buf_size b"

lemma le_word_bytes:
  fixes w :: "'a::len word"
  shows "le_word (le_bytes n w) = take_bit (8 * n) w"
proof (induction n arbitrary: w)
  case (Suc n)
  show ?case
    unfolding le_bytes.simps le_word.simps Suc
  proof (rule bit_word_eqI)
    fix k assume "k < LENGTH('a)"
    then show "bit (ucast (ucast w :: u8) OR push_bit 8 (take_bit (8 * n) (drop_bit 8 w))) k =
        bit (take_bit (8 * Suc n) w) k"
      by (cases "k < 8") (auto simp: bit_simps)
  qed
qed simp

lemma le_word_bytes_full:
  fixes w :: "'a::len word"
  shows "LENGTH('a) \<le> 8 * n \<Longrightarrow> le_word (le_bytes n w) = w"
  unfolding le_word_bytes by (rule bit_word_eqI) (auto simp: bit_simps)

lemma length_le_bytes [simp]: "length (le_bytes n w) = n"
  by (induction n arbitrary: w) auto

lemma buf_refill_enough:
  "0 \<le> n \<Longrightarrow> int (buf_rpos b) + n \<le> int (buf_wpos b) \<Longrightarrow>
    buf_refill b n = (int (buf_wpos b) - int (buf_rpos b), b)"
  by (auto simp: buf_refill_def Let_def)

text \<open>\<open>buf_next b xs\<close>: the bytes \<open>xs\<close> are the next in the buffer.\<close>

definition buf_next :: "buf \<Rightarrow> u8 list \<Rightarrow> bool" where
  "buf_next b xs \<longleftrightarrow> buf_ok b \<and> take (length xs) (drop (buf_rpos b) (buf_bytes b)) = xs"

abbreviation buf_forward :: "buf \<Rightarrow> nat \<Rightarrow> buf" where
  "buf_forward b n \<equiv> b\<lparr>buf_rpos := buf_rpos b + n\<rparr>"

abbreviation buf_append :: "buf \<Rightarrow> u8 list \<Rightarrow> buf" where
  "buf_append b xs \<equiv> b\<lparr>buf_bytes := buf_bytes b @ xs\<rparr>"

lemma buf_forward_0 [simp]: "buf_forward b 0 = b"
  by simp

lemma buf_append_Nil [simp]: "buf_append b [] = b"
  by simp

lemma buf_next_room: "buf_next b xs \<Longrightarrow> buf_rpos b + length xs \<le> buf_wpos b"
  unfolding buf_next_def buf_ok_def buf_wpos_def
  by (metis (no_types, lifting) le_diff_conv2 length_drop length_take min.absorb_iff2 add.commute)

lemma buf_next_append:
  "buf_next b (xs @ ys) \<longleftrightarrow> buf_next b xs \<and> buf_next (buf_forward b (length xs)) ys"
  (is "?l \<longleftrightarrow> ?r")
proof
  assume l: ?l
  have "buf_rpos b + length xs + length ys \<le> length (buf_bytes b)"
    using buf_next_room [OF l] by (simp add: buf_wpos_def)
  moreover have *: "take (length xs + length ys) (drop (buf_rpos b) (buf_bytes b)) = xs @ ys"
    using l by (simp add: buf_next_def)
  moreover have "take (length xs) (drop (buf_rpos b) (buf_bytes b)) = xs"
    using arg_cong [OF *, of "take (length xs)"] by (simp add: min_def)
  moreover have "take (length ys) (drop (buf_rpos b + length xs) (buf_bytes b)) = ys"
    using arg_cong [OF *, of "drop (length xs)"] by (simp add: drop_take add.commute)
  ultimately show ?r
    using l by (simp add: buf_next_def buf_ok_def buf_wpos_def)
next
  assume ?r
  then show ?l
    using buf_next_room [of b xs]
    by (auto simp: buf_next_def buf_ok_def buf_wpos_def take_add add.commute)
qed

lemma buf_read_mem_next:
  assumes "buf_next b xs"
  shows "buf_read_mem b (length xs) = (Got xs (length xs), buf_forward b (length xs))"
  using assms buf_next_room [OF assms]
  by (simp add: buf_read_mem_def buf_peek_mem_def buf_next_def buf_ok_def Let_def)

lemma buf_write_mem_iff:
  "buf_write_mem b xs = (if buf_wpos b + length xs \<le> buf_size b
    then (int (length xs), buf_append b xs) else (- 1, b))"
  by (auto simp: buf_write_mem_def buf_flush_def Let_def)

lemma buf_read_next:
  assumes "buf_next b xs"
  shows "buf_read b (length xs) = (Some xs, buf_forward b (length xs))"
  using assms buf_next_room [OF assms]
  by (auto simp: buf_read_def buf_next_def buf_ok_def Let_def)

lemma buf_write_fits:
  assumes "buf_ok b" "buf_wpos b + length xs \<le> buf_size b"
  shows "buf_write b xs = (int (length xs), buf_append b xs)"
  using assms by (auto simp: buf_write_def buf_ok_def Let_def)

lemma buf_write_loop_full:
  "buf_wpos b \<le> buf_size b \<Longrightarrow> buf_rpos b \<le> buf_wpos b \<Longrightarrow> buf_size b < buf_wpos b + length xs \<Longrightarrow>
    fst (buf_write_loop b xs) = - 1"
proof (induction b xs rule: buf_write_loop.induct)
  case (1 b xs)
  define s where "s = (if length xs < buf_size b - buf_wpos b then length xs else buf_size b - buf_wpos b)"
  define b' where "b' = buf_append b (take s xs)"
  have s: "s = buf_size b - buf_wpos b" using 1 by (auto simp: s_def)
  have wpos: "buf_wpos b' = buf_size b'" using 1 by (simp add: b'_def s buf_wpos_def)
  show ?case
  proof (cases "buf_size b - buf_wpos b = 0")
    case False
    then have "buf_write_loop b xs = buf_write_loop b' (drop s xs)"
      using 1 wpos by (subst buf_write_loop.simps) (auto simp: Let_def b'_def s buf_flush_def buf_wpos_def)
    moreover have "drop s xs \<noteq> []" using 1 s by simp
    then have "buf_write_loop b' (drop s xs) = (- 1, b')"
      using wpos by (subst buf_write_loop.simps) (simp add: Let_def)
    ultimately show ?thesis by simp
  next
    case True
    then show ?thesis using 1 by (subst buf_write_loop.simps) (auto simp: Let_def)
  qed
qed

lemma buf_write_iff:
  assumes "buf_ok b"
  shows "0 < fst (buf_write b xs) \<longleftrightarrow> xs \<noteq> [] \<and> buf_wpos b + length xs \<le> buf_size b"
proof (cases "buf_wpos b + length xs \<le> buf_size b")
  case True
  then show ?thesis by (simp add: buf_write_fits [OF assms])
next
  case False
  then have "fst (buf_write_loop b xs) = - 1"
    using assms by (intro buf_write_loop_full) (auto simp: buf_ok_def)
  then show ?thesis
    using False assms by (auto simp: buf_write_def buf_ok_def Let_def buf_flush_def split: prod.splits)
qed

text \<open>Transfers between buffers: all the bytes or an error.\<close>

lemma buf_xfer_next:
  assumes "buf_next src xs" "buf_ok dest" "buf_wpos dest + length xs \<le> buf_size dest"
  shows "buf_xfer dest src (length xs) =
    (int (length xs), buf_append dest xs, buf_forward src (length xs))"
  using assms buf_next_room [OF assms(1)]
  by (auto simp: buf_xfer_def buf_next_def buf_ok_def Let_def)

end
