(* ===== verification/Buf_Text.thy ===== *)
theory Buf_Text
  imports Buffers
begin

unbundle bit_operations_syntax

text \<open>
  Characters and strings in buffers (buf.c): UTF-8 characters are decoded from and encoded into the
  bytes of a buffer; a string is written character by character, and compared byte by byte.
\<close>

section \<open>Characters\<close>

text \<open>The bytes at the position of the reader, \<open>buf->ptr.p_pu8 + buf->rpos\<close>.\<close>

abbreviation buf_at :: "buf \<Rightarrow> nat \<Rightarrow> u8" where
  "buf_at b i \<equiv> buf_bytes b ! (buf_rpos b + i)"

text \<open>A character of \<open>n\<close> bytes after its first byte: the other bytes are there and are continuations.\<close>

definition buf_peek_utf8_tail :: "buf \<Rightarrow> nat \<Rightarrow> (buf \<Rightarrow> u32) \<Rightarrow> u32 got \<times> buf" where
  "buf_peek_utf8_tail b n value = (case buf_refill b (int n) of (r, b) \<Rightarrow>
    if r < 0 then (Stop r, b)
    else if r < int n then (Stop (- 1), b)
    else if \<not> utf8_continuation (buf_at b 1) then (Stop 0, b)
    else if 3 \<le> n \<and> \<not> utf8_continuation (buf_at b 2) then (Stop 0, b)
    else if 4 \<le> n \<and> \<not> utf8_continuation (buf_at b 3) then (Stop 0, b)
    else (Got (value b) n, b))"

definition buf_peek_character_utf8 :: "buf \<Rightarrow> u32 got \<times> buf" where
  "buf_peek_character_utf8 b = (case buf_refill b 1 of (r, b) \<Rightarrow>
    if r < 0 then (Stop r, b)
    else if r < 1 then (Stop (- 1), b)
    else let b0 = buf_at b 0 in
      if b0 AND 0x80 = 0 then (Got (ucast b0) 1, b)
      else if b0 AND 0xE0 = 0xC0 then
        buf_peek_utf8_tail b 2 (\<lambda>b. utf8_2 (buf_at b 0) (buf_at b 1))
      else if b0 AND 0xF0 = 0xE0 then
        buf_peek_utf8_tail b 3 (\<lambda>b. utf8_3 (buf_at b 0) (buf_at b 1) (buf_at b 2))
      else if b0 AND 0xF8 = 0xF0 then
        buf_peek_utf8_tail b 4 (\<lambda>b. utf8_4 (buf_at b 0) (buf_at b 1) (buf_at b 2) (buf_at b 3))
      else (Stop 0, b))"

definition buf_read_character_utf8 :: "buf \<Rightarrow> u32 got \<times> buf" where
  "buf_read_character_utf8 b = (case buf_peek_character_utf8 b of
      (Got c r, b) \<Rightarrow> (Got c r, b\<lparr>buf_rpos := buf_rpos b + r\<rparr>)
    | (Stop r, b) \<Rightarrow> (Stop r, b))"

text \<open>A newline is followed by the spaces that indent the next line.\<close>

definition buf_write_character_utf8 :: "buf \<Rightarrow> u32 \<Rightarrow> int \<times> buf" where
  "buf_write_character_utf8 b c = (case character_utf8 c of
      None \<Rightarrow> (character_utf8_size c, b)
    | Some bs \<Rightarrow>
      let csize = character_utf8_size c;
          sz = (if c = 10 then csize + int (buf_base_column b) else csize) in
      if int (buf_size b) < int (buf_wpos b) + sz \<and> buf_flush b < sz then (- 1, b)
      else if int (buf_size b) < int (buf_wpos b) + sz then (- 1, b)
      else (sz, b\<lparr>buf_bytes := buf_bytes b @ bs @
        (if c = 10 then replicate (buf_base_column b) 32 else [])\<rparr>))"

section \<open>Strings\<close>

definition buf_peek_str :: "buf \<Rightarrow> u8 list \<Rightarrow> int \<times> buf" where
  "buf_peek_str b src =
    (if length src = 0 then (0, b)
     else if buf_wpos b < buf_rpos b then (- 1, b)
     else if buf_size b < buf_wpos b then (- 1, b)
     else let sz = buf_wpos b - buf_rpos b in
       if sz < length src \<and> drop (buf_rpos b) (buf_bytes b) \<noteq> take sz src then (0, b)
       else let (r, b) = (if buf_wpos b < buf_rpos b + length src then buf_refill b (int (length src))
           else (int (length src), b)) in
         if r < int (length src) then (0, b)
         else if take (length src) (drop (buf_rpos b) (buf_bytes b)) \<noteq> src then (0, b)
         else (int (length src), b))"

lemma buf_peek_character_pos: "buf_peek_character_utf8 b = (Got c r, b') \<Longrightarrow> 0 < r"
  by (auto simp: buf_peek_character_utf8_def buf_peek_utf8_tail_def Let_def split: prod.splits if_splits)

lemma buf_read_character_pos: "buf_read_character_utf8 b = (Got c r, b') \<Longrightarrow> 0 < r"
  by (auto simp: buf_read_character_utf8_def split: prod.splits got.splits dest: buf_peek_character_pos)

lemma buf_read_mem_got: "buf_read_mem b n = (Got x r, b') \<Longrightarrow> r = n"
  by (auto simp: buf_read_mem_def buf_peek_mem_def Let_def split: prod.splits got.splits if_splits)

lemma map_got_Got: "map_got f p = (Got y r, s) \<longleftrightarrow> (\<exists>x. p = (Got x r, s) \<and> y = f x)"
  by (cases "(f, p)" rule: map_got.cases) auto

text \<open>Skipping bytes, character by character where they are characters.\<close>

function buf_ignore_loop :: "buf \<Rightarrow> nat \<Rightarrow> nat \<Rightarrow> int \<times> buf" where
  "buf_ignore_loop b i sz =
    (if sz \<le> i then (int sz, b)
     else case buf_read_character_utf8 b of
       (Got c r, b) \<Rightarrow> buf_ignore_loop b (i + r) sz
     | (Stop _, b) \<Rightarrow>
         (case buf_read_u8 b of
           (Got x r, b) \<Rightarrow> buf_ignore_loop b (i + r) sz
         | (Stop r, b) \<Rightarrow> (if r < 0 then r else - 1, b)))"
  by auto
termination
  apply (relation "measure (\<lambda>(b, i, sz). sz - i)")
    apply simp
   apply (auto dest!: buf_read_character_pos [OF sym]) [1]
  apply (auto simp: buf_read_u8_def map_got_Got dest!: sym [of "(_, _)"])
  apply (drule buf_read_mem_got)
  apply simp
  done

declare buf_ignore_loop.simps [simp del]

definition buf_ignore :: "buf \<Rightarrow> nat \<Rightarrow> int \<times> buf" where
  "buf_ignore b sz =
    (if sz = 0 then (0, b)
     else case buf_refill b (int sz) of (r, b) \<Rightarrow>
       if r < 0 then (r, b)
       else if r < int sz then (- 1, b)
       else buf_ignore_loop b 0 sz)"

definition buf_read_str :: "buf \<Rightarrow> u8 list \<Rightarrow> int \<times> buf" where
  "buf_read_str b src = (case buf_peek_str b src of (r, b) \<Rightarrow>
    if 0 < r then buf_ignore b (nat r) else (r, b))"

text \<open>The bytes of a C string literal.\<close>

definition c_str :: "string \<Rightarrow> u8 list" where
  "c_str p = map of_char p"

definition buf_read_1 :: "buf \<Rightarrow> string \<Rightarrow> int \<times> buf" where
  "buf_read_1 b p = buf_read_str b (c_str p)"

function buf_write_str_loop :: "buf \<Rightarrow> u8 list \<Rightarrow> int \<Rightarrow> int \<times> buf" where
  "buf_write_str_loop b s result = (case str_read_character_utf8 s of
      (Got c _, s) \<Rightarrow>
        (case buf_write_character_utf8 b c of (r, b) \<Rightarrow>
          if r < 0 then (r, b) else buf_write_str_loop b s (result + r))
    | (Stop _, s) \<Rightarrow>
        (case str_read_u8 s of
          (Got byte _, s) \<Rightarrow>
            (case buf_write_u8 b byte of (r, b) \<Rightarrow>
              if r < 0 then (r, b) else buf_write_str_loop b s (result + r))
        | (Stop _, s) \<Rightarrow> (result, b)))"
  by auto
termination
  by (relation "measure (\<lambda>(b, s, result). length s)")
    (auto simp: str_read_character_utf8_def str_read_u8_def split: if_splits got.splits
      dest: str_peek_length)

declare buf_write_str_loop.simps [simp del]

definition buf_write_str :: "buf \<Rightarrow> u8 list \<Rightarrow> int \<times> buf" where
  "buf_write_str b src = buf_write_str_loop b src 0"

definition buf_write_1 :: "buf \<Rightarrow> string \<Rightarrow> int \<times> buf" where
  "buf_write_1 b p = buf_write_str b (c_str p)"

definition buf_read_to_str :: "buf \<Rightarrow> u8 list got \<times> buf" where
  "buf_read_to_str b =
    (if buf_wpos b < buf_rpos b then (Stop (- 1), b)
     else if buf_size b < buf_wpos b then (Stop (- 1), b)
     else let sz = buf_wpos b - buf_rpos b in
       if sz = 0 then (Got [] 0, b)
       else case buf_ignore b sz of (r, b') \<Rightarrow>
         if r < 0 then (Stop r, b') else (Got (drop (buf_rpos b) (buf_bytes b)) sz, b'))"

section \<open>Writing and reading characters\<close>

lemma buf_next_nth:
  "buf_next b xs \<Longrightarrow> i < length xs \<Longrightarrow> buf_bytes b ! (buf_rpos b + i) = xs ! i"
  using buf_next_room [of b xs] unfolding buf_next_def buf_ok_def buf_wpos_def
  by (metis add_leD1 nth_drop nth_take)

lemma buf_peek_utf8_tail_next:
  assumes "buf_next b xs" "length xs = n" "2 \<le> n" "n \<le> 4"
    and "utf8_continuation (xs ! 1)" "3 \<le> n \<Longrightarrow> utf8_continuation (xs ! 2)"
    and "4 \<le> n \<Longrightarrow> utf8_continuation (xs ! 3)"
  shows "buf_peek_utf8_tail b n f = (Got (f b) n, b)"
proof -
  have "buf_refill b (int n) = (int (buf_wpos b) - int (buf_rpos b), b)"
    using buf_next_room [OF assms(1)] assms(2) by (intro buf_refill_enough) auto
  moreover have at: "buf_at b i = xs ! i" if "i < n" for i
    using buf_next_nth [OF assms(1)] that assms(2) by simp
  ultimately show ?thesis
    using assms(2-7) buf_next_room [OF assms(1)] at [of 1] at [of 2] at [of 3]
    unfolding buf_peek_utf8_tail_def
    by (cases "3 \<le> n"; cases "4 \<le> n") auto
qed

lemma buf_peek_character_next:
  assumes "character_utf8 c = Some bs" "buf_next b bs"
  shows "buf_peek_character_utf8 b = (Got c (length bs), b)"
proof -
  have peek: "str_peek_character_utf8 bs = Got c (length bs)"
    using str_peek_encoded [OF assms(1), of "[]"] by simp
  then have len: "0 < length bs" using str_peek_length by blast
  have at: "buf_at b i = bs ! i" if "i < length bs" for i
    using buf_next_nth [OF assms(2) that] .
  have room: "buf_rpos b + length bs \<le> buf_wpos b"
    by (rule buf_next_room [OF assms(2)])
  have first: "buf_refill b 1 = (int (buf_wpos b) - int (buf_rpos b), b)"
    using room len by (intro buf_refill_enough) linarith+
  note tail = buf_peek_utf8_tail_next [OF assms(2)]
  show ?thesis
    using peek room len at [of 0] at [of 1] at [of 2] at [of 3]
    unfolding buf_peek_character_utf8_def str_peek_character_utf8_def first Let_def
    by (auto simp: tail not_less split: if_splits)
qed

lemma buf_read_character_next:
  assumes "character_utf8 c = Some bs" "buf_next b bs"
  shows "buf_read_character_utf8 b = (Got c (length bs), buf_forward b (length bs))"
  by (simp add: buf_read_character_utf8_def buf_peek_character_next [OF assms])

lemma character_utf8_size_length: "character_utf8 c = Some bs \<Longrightarrow> character_utf8_size c = int (length bs)"
  by (auto simp: character_utf8_def character_utf8_size_def split: if_splits)

lemma character_utf8_None: "character_utf8 c = None \<longleftrightarrow> 0x110000 \<le> c"
  by (auto simp: character_utf8_def not_less intro: order_trans [rotated] less_imp_le)

lemma buf_write_character_iff:
  assumes "character_utf8 c = Some bs" "c = 10 \<Longrightarrow> buf_base_column b = 0"
  shows "buf_write_character_utf8 b c = (if buf_wpos b + length bs \<le> buf_size b
    then (int (length bs), buf_append b bs) else (- 1, b))"
  using assms character_utf8_size_length [OF assms(1)]
  by (auto simp: buf_write_character_utf8_def buf_flush_def Let_def)

section \<open>Encoded strings\<close>

text \<open>The encoding of a text, the specification of this section.\<close>

definition utf8_encode :: "u32 list \<Rightarrow> u8 list" where
  "utf8_encode cs = concat (map (\<lambda>c. the (character_utf8 c)) cs)"

definition utf8_text :: "u32 list \<Rightarrow> bool" where
  "utf8_text cs \<longleftrightarrow> list_all (\<lambda>c. c < 0x110000) cs"

lemma utf8_text_simps [simp]:
  "utf8_text []" "utf8_text (c # cs) \<longleftrightarrow> c < 0x110000 \<and> utf8_text cs"
  by (simp_all add: utf8_text_def)

lemma utf8_encode_simps [simp]:
  "utf8_encode [] = []" "utf8_encode (c # cs) = the (character_utf8 c) @ utf8_encode cs"
  by (simp_all add: utf8_encode_def)

lemma character_utf8_Some: "c < 0x110000 \<Longrightarrow> character_utf8 c = Some (the (character_utf8 c))"
  using character_utf8_None [of c] by (cases "character_utf8 c") auto

lemma character_utf8_nonempty: "c < 0x110000 \<Longrightarrow> 0 < length (the (character_utf8 c))"
  using str_peek_encoded [OF character_utf8_Some, of c "[]"] str_peek_length by fastforce

lemma utf8_encode_empty: "utf8_text cs \<Longrightarrow> utf8_encode cs = [] \<longleftrightarrow> cs = []"
  using character_utf8_nonempty by (cases cs) auto

lemma str_read_encoded:
  assumes "c < 0x110000"
  shows "str_read_character_utf8 (the (character_utf8 c) @ rest) =
    (Got c (length (the (character_utf8 c))), rest)"
  using str_peek_encoded [OF character_utf8_Some [OF assms], of rest] character_utf8_nonempty [OF assms]
  by (simp add: str_read_character_utf8_def)

text \<open>\<open>buf_write_str\<close> stores an encoded text as it is, or fails.\<close>

lemma buf_write_str_loop_text:
  assumes "utf8_text cs" "10 \<in> set cs \<longrightarrow> buf_base_column b = 0"
  shows "buf_wpos b + length (utf8_encode cs) \<le> buf_size b \<Longrightarrow>
      buf_write_str_loop b (utf8_encode cs) r =
        (r + int (length (utf8_encode cs)), buf_append b (utf8_encode cs))"
    and "buf_wpos b \<le> buf_size b \<Longrightarrow> buf_size b < buf_wpos b + length (utf8_encode cs) \<Longrightarrow>
      fst (buf_write_str_loop b (utf8_encode cs) r) = - 1"
  using assms
proof (induction cs arbitrary: b r)
  case Nil
  case 1
  show ?case by (subst buf_write_str_loop.simps) (simp add: str_read_character_utf8_def str_read_u8_def)
next
  case Nil
  case 2
  then show ?case by simp
next
  case (Cons c cs)
  let ?bs = "the (character_utf8 c)"
  have step: "buf_write_str_loop b (utf8_encode (c # cs)) r =
      (case buf_write_character_utf8 b c of (r', b) \<Rightarrow>
        if r' < 0 then (r', b) else buf_write_str_loop b (utf8_encode cs) (r + r'))"
    if "c < 0x110000" for b r
    by (subst buf_write_str_loop.simps) (simp add: str_read_encoded [OF that])
  have wr: "buf_write_character_utf8 b c = (if buf_wpos b + length ?bs \<le> buf_size b
      then (int (length ?bs), buf_append b ?bs) else (- 1, b))"
    if "c < 0x110000" "10 \<in> set (c # cs) \<longrightarrow> buf_base_column b = 0" for b
    using that by (intro buf_write_character_iff character_utf8_Some) auto
  {
    case (1 b r)
    have c: "c < 0x110000" using 1(2) by simp
    show ?case
      unfolding step [OF c] using Cons.IH(1) [of "buf_append b ?bs"] wr [OF c 1(3)] 1 by (simp add: buf_wpos_def add.assoc)
  next
    case (2 b r)
    have c: "c < 0x110000" using 2(3) by simp
    show ?case
      unfolding step [OF c] using Cons.IH(2) [of "buf_append b ?bs"] wr [OF c 2(4)] 2 by (simp add: buf_wpos_def add.assoc)
  }
qed

lemma buf_write_str_fits:
  assumes "utf8_text cs" "10 \<in> set cs \<longrightarrow> buf_base_column b = 0"
    and "buf_wpos b + length (utf8_encode cs) \<le> buf_size b"
  shows "buf_write_str b (utf8_encode cs) = (int (length (utf8_encode cs)), buf_append b (utf8_encode cs))"
  using buf_write_str_loop_text(1) [OF assms(1,2,3), of 0] by (simp add: buf_write_str_def)

lemma buf_write_str_pos:
  assumes "utf8_text cs" "10 \<in> set cs \<longrightarrow> buf_base_column b = 0" "buf_ok b"
    and "buf_write_str b (utf8_encode cs) = (r, b')" "0 < r"
  shows "r = int (length (utf8_encode cs)) \<and> b' = buf_append b (utf8_encode cs) \<and>
    buf_wpos b + length (utf8_encode cs) \<le> buf_size b"
proof (cases "buf_wpos b + length (utf8_encode cs) \<le> buf_size b")
  case True
  then show ?thesis using buf_write_str_fits [OF assms(1,2)] assms(4) by simp
next
  case False
  then have "r = - 1"
    using buf_write_str_loop_text(2) [OF assms(1,2), of 0] assms(3,4) by (simp add: buf_ok_def buf_write_str_def)
  then show ?thesis using assms(5) by simp
qed

lemma buf_ignore_loop_text:
  assumes "utf8_text cs" "buf_next b (utf8_encode cs)" "i + length (utf8_encode cs) = n"
  shows "buf_ignore_loop b i n = (int n, buf_forward b (length (utf8_encode cs)))"
  using assms
proof (induction cs arbitrary: b i)
  case Nil
  then show ?case by (subst buf_ignore_loop.simps) simp
next
  case (Cons c cs)
  let ?bs = "the (character_utf8 c)"
  have c: "c < 0x110000" using Cons.prems by simp
  have "buf_read_character_utf8 b = (Got c (length ?bs), buf_forward b (length ?bs))"
    using Cons.prems by (intro buf_read_character_next character_utf8_Some) (auto simp: buf_next_append)
  moreover have "\<not> n \<le> i"
    using Cons.prems(3) character_utf8_nonempty [OF c] by auto
  ultimately have "buf_ignore_loop b i n = buf_ignore_loop (buf_forward b (length ?bs)) (i + length ?bs) n"
    by (subst buf_ignore_loop.simps) simp
  also have "\<dots> = (int n, buf_forward (buf_forward b (length ?bs)) (length (utf8_encode cs)))"
    using Cons.prems by (intro Cons.IH) (auto simp: buf_next_append)
  finally show ?case by (simp add: add.assoc)
qed

lemma buf_read_str_next:
  assumes "utf8_text cs" "cs \<noteq> []" "buf_next b (utf8_encode cs)"
  shows "buf_read_str b (utf8_encode cs) = (int (length (utf8_encode cs)), buf_forward b (length (utf8_encode cs)))"
proof -
  have ne: "0 < length (utf8_encode cs)"
    using utf8_encode_empty [OF assms(1)] assms(2) by simp
  have room: "buf_rpos b + length (utf8_encode cs) \<le> buf_wpos b"
    by (rule buf_next_room [OF assms(3)])
  have "buf_peek_str b (utf8_encode cs) = (int (length (utf8_encode cs)), b)"
    using assms(3) ne room by (auto simp: buf_peek_str_def buf_next_def buf_ok_def Let_def)
  moreover have "buf_refill b (int (length (utf8_encode cs))) = (int (buf_wpos b) - int (buf_rpos b), b)"
    using room by (intro buf_refill_enough) auto
  moreover have "buf_ignore_loop b 0 (length (utf8_encode cs)) =
      (int (length (utf8_encode cs)), buf_forward b (length (utf8_encode cs)))"
    using assms by (intro buf_ignore_loop_text) auto
  ultimately show ?thesis
    using ne room by (auto simp: buf_read_str_def buf_ignore_def)
qed

text \<open>C string literals.\<close>

definition ascii :: "string \<Rightarrow> bool" where
  "ascii p \<longleftrightarrow> p \<noteq> [] \<and> list_all (\<lambda>c. (of_char c :: u32) < 128 \<and> (of_char c :: u32) \<noteq> 10) p"

lemma c_str_encode:
  assumes "ascii p"
  shows "c_str p = utf8_encode (map of_char p)" "utf8_text (map of_char p)" "(10 :: u32) \<notin> set (map of_char p)"
    "map of_char p \<noteq> []"
proof -
  have *: "of_char c = (ucast (of_char c :: u32) :: u8)" for c
  proof -
    have "take_bit 32 (of_char c :: nat) = of_char c"
      by (rule take_bit_nat_eq_self) (rule order.strict_trans [OF nat_of_char_less_256], simp)
    then have "(ucast (of_nat (of_char c) :: u32) :: u8) = of_nat (of_char c)"
      by (simp add: unsigned_of_nat)
    then show ?thesis unfolding of_nat_of_char by (rule sym)
  qed
  have "list_all (\<lambda>c. (of_char c :: u32) < 128 \<and> (of_char c :: u32) \<noteq> 10) p"
    using assms by (simp add: ascii_def)
  then have "c_str p = utf8_encode (map of_char p) \<and> utf8_text (map of_char p) \<and> 10 \<notin> set (map of_char p :: u32 list)"
  proof (induction p)
    case (Cons c p)
    then have "the (character_utf8 (of_char c)) = [of_char c]"
      unfolding character_utf8_def using * [of c] by simp
    moreover have "(of_char c :: u32) < 0x110000"
      using Cons.prems by (auto intro: less_trans)
    ultimately show ?case using Cons by (auto simp: c_str_def)
  qed (simp add: c_str_def)
  then show "c_str p = utf8_encode (map of_char p)" "utf8_text (map of_char p)" "(10 :: u32) \<notin> set (map of_char p)"
    by auto
  show "map of_char p \<noteq> []" using assms by (simp add: ascii_def)
qed

lemma length_c_str [simp]: "length (c_str p) = length p"
  by (simp add: c_str_def)

lemma length_utf8_c_str: "ascii p \<Longrightarrow> length (utf8_encode (map of_char p)) = length p"
  by (simp add: c_str_encode(1) [symmetric])

lemma buf_write_1_fits:
  assumes "ascii p" "buf_wpos b + length p \<le> buf_size b"
  shows "buf_write_1 b p = (int (length p), buf_append b (c_str p))"
  unfolding buf_write_1_def c_str_encode(1) [OF assms(1)]
  using buf_write_str_fits [OF c_str_encode(2) [OF assms(1)], of b] c_str_encode(3) [OF assms(1)] assms(2)
  by (simp add: length_utf8_c_str [OF assms(1)])

lemma buf_write_1_pos:
  assumes "ascii p" "buf_ok b" "buf_write_1 b p = (r, b')" "0 < r"
  shows "r = int (length p) \<and> b' = buf_append b (c_str p) \<and> buf_wpos b + length p \<le> buf_size b"
  using buf_write_str_pos [OF c_str_encode(2) [OF assms(1)] _ assms(2), of r b'] c_str_encode(3) [OF assms(1)] assms(3,4)
  unfolding buf_write_1_def c_str_encode(1) [OF assms(1)]
  by (simp add: length_utf8_c_str [OF assms(1)])

lemma buf_read_1_next:
  assumes "ascii p" "buf_next b (c_str p)"
  shows "buf_read_1 b p = (int (length p), buf_forward b (length p))"
  using buf_read_str_next [OF c_str_encode(2,4) [OF assms(1)], of b] assms(2)
  unfolding buf_read_1_def c_str_encode(1) [OF assms(1)]
  by (simp add: length_utf8_c_str [OF assms(1)])

section \<open>The round trip of a text\<close>

text \<open>Reading \<open>n\<close> characters in turn.\<close>

fun read_characters :: "nat \<Rightarrow> buf \<Rightarrow> u32 list option \<times> buf" where
  "read_characters 0 b = (Some [], b)"
| "read_characters (Suc n) b = (case buf_read_character_utf8 b of
      (Got c r, b) \<Rightarrow> (case read_characters n b of (cs, b) \<Rightarrow> (map_option ((#) c) cs, b))
    | (Stop _, b) \<Rightarrow> (None, b))"

lemma read_characters_text:
  "utf8_text cs \<Longrightarrow> buf_next b (utf8_encode cs) \<Longrightarrow>
    read_characters (length cs) b = (Some cs, buf_forward b (length (utf8_encode cs)))"
proof (induction cs arbitrary: b)
  case (Cons c cs)
  have "buf_read_character_utf8 b = (Got c (length (the (character_utf8 c))),
      buf_forward b (length (the (character_utf8 c))))"
    using Cons.prems by (intro buf_read_character_next character_utf8_Some) (auto simp: buf_next_append)
  moreover have "buf_next (buf_forward b (length (the (character_utf8 c)))) (utf8_encode cs)"
    using Cons.prems by (simp add: buf_next_append)
  ultimately show ?case using Cons by (simp add: add.assoc)
qed simp

lemma buf_next_appended:
  "buf_ok b \<Longrightarrow> buf_wpos b + length xs \<le> buf_size b \<Longrightarrow>
    buf_next (buf_append b xs\<lparr>buf_rpos := buf_wpos b\<rparr>) xs"
  by (simp add: buf_next_def buf_ok_def buf_wpos_def)

text \<open>
  C32: A text of Unicode characters written in UTF-8 with \<open>buf_write_str\<close> into a buffer with room for
  it is stored unchanged, although it is decoded and encoded again on the way, and the whole size
  is returned.  From where it was written, \<open>buf_read_character_utf8\<close> gives the characters back one
  by one and \<open>buf_read_str\<close> finds the string; both end behind it.  (A text with newlines needs the
  indentation of the buffer to be zero.)
\<close>

theorem utf8_roundtrip:
  assumes "utf8_text cs" "10 \<in> set cs \<longrightarrow> buf_base_column b = 0"
    and "buf_ok b" "buf_wpos b + length (utf8_encode cs) \<le> buf_size b"
  shows "\<exists>b'. buf_write_str b (utf8_encode cs) = (int (length (utf8_encode cs)), b') \<and>
    buf_bytes b' = buf_bytes b @ utf8_encode cs \<and>
    read_characters (length cs) (b'\<lparr>buf_rpos := buf_wpos b\<rparr>) = (Some cs, b'\<lparr>buf_rpos := buf_wpos b'\<rparr>) \<and>
    buf_read_str (b'\<lparr>buf_rpos := buf_wpos b\<rparr>) (utf8_encode cs) =
      (int (length (utf8_encode cs)), b'\<lparr>buf_rpos := buf_wpos b'\<rparr>)"
proof -
  let ?b' = "buf_append b (utf8_encode cs)"
  have next_text: "buf_next (?b'\<lparr>buf_rpos := buf_wpos b\<rparr>) (utf8_encode cs)"
    by (rule buf_next_appended [OF assms(3,4)])
  have "buf_read_str (?b'\<lparr>buf_rpos := buf_wpos b\<rparr>) (utf8_encode cs) =
      (int (length (utf8_encode cs)), ?b'\<lparr>buf_rpos := buf_wpos ?b'\<rparr>)"
  proof (cases "cs = []")
    case False
    then show ?thesis
      using buf_read_str_next [OF assms(1) _ next_text] by (simp add: buf_wpos_def)
  qed (simp add: buf_read_str_def buf_peek_str_def buf_wpos_def)
  then show ?thesis
    using read_characters_text [OF assms(1) next_text] buf_write_str_fits [OF assms(1,2,4)]
    by (intro exI [of _ ?b']) (simp add: buf_wpos_def)
qed

theorem utf8_roundtrip_witness:
  "\<exists>b'. buf_write_str (buf_init_alloc 16) (utf8_encode [0x4B, 0xE9, 10, 0x20AC, 0x1F600]) = (11, b') \<and>
    read_characters 5 (b'\<lparr>buf_rpos := 0\<rparr>) = (Some [0x4B, 0xE9, 10, 0x20AC, 0x1F600], b'\<lparr>buf_rpos := 11\<rparr>)"
proof -
  have len: "length (utf8_encode [0x4B, 0xE9, 10, 0x20AC, 0x1F600]) = 11"
    by (simp add: utf8_encode_def character_utf8_def)
  have five: "length [0x4B, 0xE9, 10, 0x20AC, 0x1F600 :: u32] = 5" by simp
  have "utf8_text [0x4B, 0xE9, 10, 0x20AC, 0x1F600]" by simp
  moreover have "buf_ok (buf_init_alloc 16)" "buf_wpos (buf_init_alloc 16) = 0"
    "buf_size (buf_init_alloc 16) = 16" "buf_base_column (buf_init_alloc 16) = 0"
    "buf_bytes (buf_init_alloc 16) = []"
    by (simp_all add: buf_ok_def buf_wpos_def buf_init_alloc_def)
  ultimately obtain b' where b': "buf_write_str (buf_init_alloc 16) (utf8_encode [0x4B, 0xE9, 10, 0x20AC, 0x1F600]) = (11, b')"
      "buf_bytes b' = utf8_encode [0x4B, 0xE9, 10, 0x20AC, 0x1F600]"
      "read_characters 5 (b'\<lparr>buf_rpos := 0\<rparr>) = (Some [0x4B, 0xE9, 10, 0x20AC, 0x1F600], b'\<lparr>buf_rpos := buf_wpos b'\<rparr>)"
    using utf8_roundtrip [of "[0x4B, 0xE9, 10, 0x20AC, 0x1F600]" "buf_init_alloc 16"]
    unfolding len five by auto
  then show ?thesis using len by (auto simp: buf_wpos_def)
qed

text \<open>
  The two decoders disagree beyond the last Unicode character: a buffer gives the value, a string is
  rejected.
\<close>

lemma character_limit_differs:
  "buf_peek_character_utf8 (buf_init_const [0xF4, 0x90, 0x80, 0x80]) =
      (Got 0x110000 4, buf_init_const [0xF4, 0x90, 0x80, 0x80]) \<and>
    str_peek_character_utf8 [0xF4, 0x90, 0x80, 0x80] = Stop 0"
  by (simp add: buf_peek_character_utf8_def buf_peek_utf8_tail_def buf_refill_def buf_init_const_def
      buf_wpos_def str_peek_character_utf8_def utf8_continuation_def utf8_4_def Let_def)

end
