(* ===== verification/Ht.thy ===== *)
theory Ht
  imports Prelude
begin

text \<open>
  Hash tables of tags (ht.c).

  A table is an array of buckets; the entries of a bucket are in increasing order of the
  comparison of the table, so a search stops at the first entry that is not less.  The two
  function pointers of \<open>s_ht\<close>, \<open>compare\<close> and \<open>hash\<close>, are the arguments \<open>cmp\<close> and
  \<open>hash\<close>.  The type of the entries is a parameter: in C every entry is a tag, in the tables of
  marshall.c a tuple of tags.  The lock and the references are left out.
\<close>

record 'a ht =
  ht_items :: "'a list list"
  ht_count :: nat

definition ht_size :: "'a ht \<Rightarrow> nat" where
  "ht_size h = length (ht_items h)"

definition ht_init :: "nat \<Rightarrow> 'a ht option" where
  "ht_init sz = (if sz = 0 \<or> (2 ^ 64 - 1) div 8 < sz then None
    else Some \<lparr>ht_items = replicate sz [], ht_count = 0\<rparr>)"

definition ht_empty :: "'a ht \<Rightarrow> 'a ht" where
  "ht_empty h = h\<lparr>ht_items := replicate (ht_size h) [], ht_count := 0\<rparr>"

definition ht_bucket :: "uw \<Rightarrow> 'a ht \<Rightarrow> nat" where
  "ht_bucket hash h = unat hash mod ht_size h"

text \<open>Adding to a bucket: the new bucket, and whether an equal entry was replaced.\<close>

fun ht_insert :: "('a \<Rightarrow> 'a \<Rightarrow> int) \<Rightarrow> 'a \<Rightarrow> 'a list \<Rightarrow> 'a list \<times> bool" where
  "ht_insert cmp tag [] = ([tag], False)"
| "ht_insert cmp tag (x # xs) = (let c = cmp x tag in
    if c < 0 then (case ht_insert cmp tag xs of (ys, replaced) \<Rightarrow> (x # ys, replaced))
    else if c = 0 then (tag # xs, True)
    else (tag # x # xs, False))"

definition ht_add_hash :: "('a \<Rightarrow> 'a \<Rightarrow> int) \<Rightarrow> 'a ht \<Rightarrow> 'a \<Rightarrow> uw \<Rightarrow> 'a ht" where
  "ht_add_hash cmp h tag hash = (let i = ht_bucket hash h in
    case ht_insert cmp tag (ht_items h ! i) of (xs, replaced) \<Rightarrow>
      h\<lparr>ht_items := (ht_items h)[i := xs],
        ht_count := (if replaced then ht_count h - 1 else ht_count h) + 1\<rparr>)"

definition ht_add :: "('a \<Rightarrow> 'a \<Rightarrow> int) \<Rightarrow> ('a \<Rightarrow> uw) \<Rightarrow> 'a ht \<Rightarrow> 'a \<Rightarrow> 'a ht" where
  "ht_add cmp hash h tag = ht_add_hash cmp h tag (hash tag)"

fun ht_search :: "('a \<Rightarrow> 'a \<Rightarrow> int) \<Rightarrow> 'a list \<Rightarrow> 'a \<Rightarrow> 'a option" where
  "ht_search cmp [] key = None"
| "ht_search cmp (x # xs) key = (let c = cmp x key in
    if c < 0 then ht_search cmp xs key else if c = 0 then Some x else None)"

definition ht_get_hash :: "('a \<Rightarrow> 'a \<Rightarrow> int) \<Rightarrow> 'a ht \<Rightarrow> 'a \<Rightarrow> uw \<Rightarrow> 'a option" where
  "ht_get_hash cmp h key hash = ht_search cmp (ht_items h ! ht_bucket hash h) key"

definition ht_get :: "('a \<Rightarrow> 'a \<Rightarrow> int) \<Rightarrow> ('a \<Rightarrow> uw) \<Rightarrow> 'a ht \<Rightarrow> 'a \<Rightarrow> 'a option" where
  "ht_get cmp hash h key = ht_get_hash cmp h key (hash key)"

definition ht_has :: "('a \<Rightarrow> 'a \<Rightarrow> int) \<Rightarrow> ('a \<Rightarrow> uw) \<Rightarrow> 'a ht \<Rightarrow> 'a \<Rightarrow> bool" where
  "ht_has cmp hash h key \<longleftrightarrow> ht_search cmp (ht_items h ! ht_bucket (hash key) h) key \<noteq> None"

text \<open>
  \<open>ht_get\<close> gives a pointer to the entry in the table.  An assignment through that pointer changes
  the entry in its place.
\<close>

fun ht_assign_bucket :: "('a \<Rightarrow> 'a \<Rightarrow> int) \<Rightarrow> 'a list \<Rightarrow> 'a \<Rightarrow> 'a \<Rightarrow> 'a list" where
  "ht_assign_bucket cmp [] key y = []"
| "ht_assign_bucket cmp (x # xs) key y = (let c = cmp x key in
    if c < 0 then x # ht_assign_bucket cmp xs key y else if c = 0 then y # xs else x # xs)"

definition ht_assign :: "('a \<Rightarrow> 'a \<Rightarrow> int) \<Rightarrow> ('a \<Rightarrow> uw) \<Rightarrow> 'a ht \<Rightarrow> 'a \<Rightarrow> 'a \<Rightarrow> 'a ht" where
  "ht_assign cmp hash h key y = (let i = ht_bucket (hash key) h in
    h\<lparr>ht_items := (ht_items h)[i := ht_assign_bucket cmp (ht_items h ! i) key y]\<rparr>)"

section \<open>The table as a map\<close>

text \<open>
  What a table asks of its two functions: entries are compared and hashed by a key, and the
  comparison of keys is a total order.
\<close>

locale ht_keys = strict_comparison kcmp "\<lambda>_. True" for kcmp :: "'k \<Rightarrow> 'k \<Rightarrow> int" +
  fixes key :: "'a \<Rightarrow> 'k" and khash :: "'k \<Rightarrow> uw"
begin

abbreviation cmp :: "'a \<Rightarrow> 'a \<Rightarrow> int" where
  "cmp x y \<equiv> kcmp (key x) (key y)"

abbreviation hash :: "'a \<Rightarrow> uw" where
  "hash x \<equiv> khash (key x)"

abbreviation ordered :: "'a list \<Rightarrow> bool" where
  "ordered xs \<equiv> sorted_wrt (\<lambda>x y. cmp x y < 0) xs"

definition ok_table :: "'a ht \<Rightarrow> bool" where
  "ok_table h \<longleftrightarrow> ht_items h \<noteq> [] \<and> (\<forall>xs\<in>set (ht_items h). ordered xs)"

lemma self [simp]: "kcmp a a = 0"
  by (rule cmp_self) simp

lemma asym: "kcmp a b < 0 \<Longrightarrow> 0 < kcmp b a"
  using flip(1) [of a b] by simp

lemma search_None: "\<forall>y\<in>set xs. cmp x y < 0 \<Longrightarrow> ht_search cmp xs x = None"
  by (cases xs) (auto simp: Let_def dest: asym)

lemma search_less: "ordered xs \<Longrightarrow> \<forall>y\<in>set xs. cmp x y < 0 \<Longrightarrow> cmp z x \<le> 0 \<Longrightarrow> ht_search cmp xs z = None"
  by (rule search_None) (auto intro: le_less_trans)

lemma insert_bucket:
  assumes "ordered xs"
  shows "ordered (fst (ht_insert cmp x xs))"
    and "set (fst (ht_insert cmp x xs)) \<subseteq> insert x (set xs)"
    and "ht_search cmp (fst (ht_insert cmp x xs)) y =
      (if key x = key y then Some x else ht_search cmp xs y)"
  using assms
proof (induction xs)
  case Nil
  { case 1 show ?case by simp next
    case 2 show ?case by simp next
    case 3 show ?case using zero_iff by (auto simp: Let_def) }
next
  case (Cons z zs)
  have less: "\<forall>y\<in>set zs. cmp z y < 0" and zs: "ordered zs"
    if "ordered (z # zs)" using that by auto
  {
    case 1
    consider "cmp z x < 0" | "cmp z x = 0" | "0 < cmp z x" by linarith
    then show ?case
    proof cases
      case a: 1
      have "\<forall>y\<in>set (fst (ht_insert cmp x zs)). cmp z y < 0"
        using Cons.IH(2) [OF zs [OF 1]] less [OF 1] a by auto
      then show ?thesis using a Cons.IH(1) [OF zs [OF 1]] by (simp add: Let_def case_prod_beta)
    next
      case 2
      then have "key z = key x" using zero_iff by simp
      then show ?thesis using 1 by (simp add: Let_def)
    next
      case 3
      then have "cmp x z < 0" using flip(1) by simp
      then show ?thesis using 1 3 less_trans by (auto simp: Let_def)
    qed
  next
    case 2
    then show ?case using Cons.IH(2) by (auto simp: Let_def split: prod.splits)
  next
    case 3
    have IH: "ht_search cmp (fst (ht_insert cmp x zs)) y =
        (if key x = key y then Some x else ht_search cmp zs y)"
      using Cons.IH(3) zs [OF 3] .
    show ?case
    proof (cases "cmp z x < 0")
      case True
      then have "cmp z y < 0" if "key x = key y" using that by simp
      then show ?thesis using True IH by (auto simp: Let_def split: prod.splits)
    next
      case False
      note ge = this
      show ?thesis
      proof (cases "cmp z x = 0")
        case True
        then have "key z = key x" using zero_iff by simp
        then show ?thesis using zero_iff by (auto simp: Let_def)
      next
        case False
        then have "cmp x z < 0" using ge flip(1) [of "key x" "key z"] by simp
        moreover have "ht_search cmp (z # zs) y = None" if "cmp y x < 0 \<or> cmp x y > 0"
        proof (rule search_None)
          have "cmp y x < 0" using that flip(1) [of "key y" "key x"] by auto
          then have "cmp y z < 0" using \<open>cmp x z < 0\<close> less_trans by blast
          then show "\<forall>w\<in>set (z # zs). cmp y w < 0" using less [OF 3] less_trans by auto
        qed
        ultimately show ?thesis using ge False zero_iff [of "key x" "key y"] cmp_self [of "key x"] by (auto simp: Let_def)
      qed
    qed
  }
qed

lemma assign_bucket:
  assumes "ordered xs" "key v = key k"
  shows "map key (ht_assign_bucket cmp xs k v) = map key xs"
    and "ht_search cmp xs k \<noteq> None \<Longrightarrow> ht_search cmp (ht_assign_bucket cmp xs k v) y =
      (if key k = key y then Some v else ht_search cmp xs y)"
  using assms
proof (induction xs)
  case (Cons z zs)
  {
    case 1
    then show ?case using Cons.IH(1) zero_iff by (auto simp: Let_def)
  next
    case 2
    then show ?case using Cons.IH(2) zero_iff by (auto simp: Let_def split: if_splits)
  }
qed simp_all

lemma ordered_map_key: "ordered xs \<longleftrightarrow> sorted_wrt (\<lambda>a b. kcmp a b < 0) (map key xs)"
  by (simp add: sorted_wrt_map)

lemma bucket_less: "ok_table h \<Longrightarrow> ht_bucket a h < length (ht_items h)"
  by (simp add: ok_table_def ht_bucket_def ht_size_def)

lemma ordered_update: "ok_table h \<Longrightarrow> ordered xs \<Longrightarrow> ok_table (h\<lparr>ht_items := (ht_items h)[i := xs]\<rparr>)"
  by (auto simp: ok_table_def dest: set_update_subset_insert [THEN subsetD])

lemma ordered_bucket: "ok_table h \<Longrightarrow> ordered (ht_items h ! ht_bucket a h)"
  using bucket_less [of h a] by (simp add: ok_table_def)

lemma add_ok:
  assumes "ok_table h"
  shows "ok_table (ht_add cmp hash h x)"
  using ordered_update [OF assms insert_bucket(1) [OF ordered_bucket [OF assms]], of "ht_bucket (hash x) h" x "hash x"]
  by (simp add: ht_add_def ht_add_hash_def Let_def case_prod_beta ok_table_def)

lemma get_add:
  assumes "ok_table h"
  shows "ht_get cmp hash (ht_add cmp hash h x) y = (if key x = key y then Some x else ht_get cmp hash h y)"
proof (cases "ht_bucket (hash x) h = ht_bucket (hash y) h")
  case True
  then show ?thesis
    using insert_bucket(3) [OF ordered_bucket [OF assms], of x "hash x" y] bucket_less [OF assms]
    by (simp add: ht_get_def ht_get_hash_def ht_add_def ht_add_hash_def ht_bucket_def ht_size_def Let_def
        case_prod_beta)
next
  case False
  then have "key x \<noteq> key y" by auto
  then show ?thesis
    using False by (simp add: ht_get_def ht_get_hash_def ht_add_def ht_add_hash_def ht_bucket_def ht_size_def
        Let_def case_prod_beta)
qed

lemma get_init: "ht_init n = Some h \<Longrightarrow> ok_table h \<and> ht_get cmp hash h y = None"
  by (auto simp: ht_init_def ok_table_def ht_get_def ht_get_hash_def ht_bucket_def ht_size_def split: if_splits)

lemma get_empty: "ok_table h \<Longrightarrow> ok_table (ht_empty h) \<and> ht_get cmp hash (ht_empty h) y = None"
  by (auto simp: ht_empty_def ok_table_def ht_get_def ht_get_hash_def ht_bucket_def ht_size_def)

lemma assign_ok:
  assumes "ok_table h" "key v = key k"
  shows "ok_table (ht_assign cmp hash h k v)"
  using assign_bucket(1) [OF ordered_bucket [OF assms(1)] assms(2)] ordered_bucket [OF assms(1)]
  unfolding ht_assign_def Let_def by (intro ordered_update [OF assms(1)]) (simp add: ordered_map_key)

lemma get_assign:
  assumes "ok_table h" "key v = key k" "ht_get cmp hash h k \<noteq> None"
  shows "ht_get cmp hash (ht_assign cmp hash h k v) y = (if key k = key y then Some v else ht_get cmp hash h y)"
proof (cases "ht_bucket (hash k) h = ht_bucket (hash y) h")
  case True
  then show ?thesis
    using assign_bucket(2) [OF ordered_bucket [OF assms(1)] assms(2), of "hash k" y] bucket_less [OF assms(1)] assms(3)
    by (simp add: ht_get_def ht_get_hash_def ht_assign_def ht_bucket_def ht_size_def Let_def)
next
  case False
  then have "key k \<noteq> key y" by auto
  then show ?thesis
    using False by (simp add: ht_get_def ht_get_hash_def ht_assign_def ht_bucket_def ht_size_def Let_def)
qed

lemma has_iff: "ht_has cmp hash h x \<longleftrightarrow> ht_get cmp hash h x \<noteq> None"
  by (simp add: ht_has_def ht_get_def ht_get_hash_def)

lemma get_key: "key x = key y \<Longrightarrow> ht_get cmp hash h x = ht_get cmp hash h y"
proof -
  assume "key x = key y"
  then have "ht_search cmp xs x = ht_search cmp xs y" for xs
    by (induction xs) (simp_all add: Let_def)
  then show ?thesis using \<open>key x = key y\<close> by (simp add: ht_get_def ht_get_hash_def)
qed

end

end
