(* ===== verification/Marshall.thy ===== *)
theory Marshall
  imports Compare Buf_Text Ht "HOL-Library.Monad_Syntax"
begin

text \<open>
  Writing values in the binary format (marshall.c).

  A message has two parts, the buffer and the heap.  A value is written into one of them with the
  magic string of each of its parts; a pointer is written as an offset into the heap, where the
  object it points to is written the first time that the pointer occurs.  A hash table from
  addresses to offsets finds the later occurrences, so that shared objects are written once.

  Values are those of Tags with the addresses that pointers have in memory: \<open>ptr\<close> is a pointer,
  with its address and the object at that address.  The same tree without addresses
  (\<open>unit mtag\<close>) is what a reader can recover.  Not represented: arrays, floating point and complex
  numbers, structures, callables (a call has none), pointers with a type, copy-on-write values,
  variables and databases as values.

  A function that returns its \<open>s_marshall\<close> or NULL is a function into \<open>option\<close>: what a failed
  call has written is not used any more.
\<close>

section \<open>Values with addresses\<close>

datatype ('p, 'a) ptr = NULL | Addr 'p 'a

datatype 'p mident = MIdent_of (mident_module: "('p, sym) ptr") (mident_sym: "('p, sym) ptr")

datatype 'p mtag =
    MVoid
  | MDoBlock "'p mtag list" bool
  | MBool bool
  | MCharacter u32
  | MFact "('p, 'p mtag) ptr" "('p, 'p mtag) ptr" "('p, 'p mtag) ptr" uw
  | MInteger int
  | MRatio int int
  | MSW sw
  | MS64 s64
  | MS32 s32
  | MS16 s16
  | MS8 s8
  | MU8 u8
  | MU16 u16
  | MU32 u32
  | MU64 u64
  | MUW uw
  | MPlist "('p, 'p mtag \<times> 'p mtag) ptr"
  | MMap "('p mtag \<times> 'p mtag) list"
  | MPcall "('p, 'p mident \<times> 'p mtag list) ptr"
  | MPsym "('p, sym) ptr"
  | MPtr u64
  | MPtrFree u64
  | MQuote "'p mtag"
  | MStr str
  | MTime sw sw "('p mtag \<times> 'p mtag) option"
  | MPtuple "('p, 'p mtag list) ptr"
  | MUnquote "'p mtag"
  | MIdent "'p mident"

fun mtag_type :: "'p mtag \<Rightarrow> u8" where
  "mtag_type MVoid = 0"
| "mtag_type (MDoBlock _ _) = 2"
| "mtag_type (MBool _) = 3"
| "mtag_type (MCharacter _) = 4"
| "mtag_type (MFact _ _ _ _) = 9"
| "mtag_type (MInteger _) = 10"
| "mtag_type (MRatio _ _) = 11"
| "mtag_type (MSW _) = 12"
| "mtag_type (MS64 _) = 13"
| "mtag_type (MS32 _) = 14"
| "mtag_type (MS16 _) = 15"
| "mtag_type (MS8 _) = 16"
| "mtag_type (MU8 _) = 17"
| "mtag_type (MU16 _) = 18"
| "mtag_type (MU32 _) = 19"
| "mtag_type (MU64 _) = 20"
| "mtag_type (MUW _) = 21"
| "mtag_type (MPlist _) = 22"
| "mtag_type (MMap _) = 23"
| "mtag_type (MPcall _) = 24"
| "mtag_type (MPsym _) = 32"
| "mtag_type (MPtr _) = 34"
| "mtag_type (MPtrFree _) = 35"
| "mtag_type (MQuote _) = 37"
| "mtag_type (MStr _) = 38"
| "mtag_type (MTime _ _ _) = 39"
| "mtag_type (MPtuple _) = 40"
| "mtag_type (MUnquote _) = 41"
| "mtag_type (MIdent _) = 42"

section \<open>What the code calls\<close>

text \<open>
  libtommath packs a magnitude into digits of four bytes (the least significant first, four unused
  bits in each); the hash functions of the two tables hash a tag of type u64 and of type s64.
\<close>

record marshall_lib =
  ml_pack_count :: "int \<Rightarrow> nat"
  ml_pack :: "int \<Rightarrow> nat \<Rightarrow> (u8 list \<times> nat) option"
  ml_unpack :: "nat \<Rightarrow> u8 list \<Rightarrow> int option"
  ml_neg :: "int \<Rightarrow> int option"
  ml_hash_u64 :: "u64 \<Rightarrow> uw"
  ml_hash_s64 :: "s64 \<Rightarrow> uw"

text \<open>The documented behaviour: unpacking what was packed gives the magnitude.\<close>

definition marshall_lib_ok :: "marshall_lib \<Rightarrow> bool" where
  "marshall_lib_ok ml \<longleftrightarrow>
    (\<forall>i. ml_pack_count ml i = 0 \<longleftrightarrow> i = 0) \<and>
    (\<forall>i bs w. ml_pack ml i (ml_pack_count ml i) = Some (bs, w) \<longrightarrow>
      w = ml_pack_count ml i \<and> length bs = 4 * w \<and> ml_unpack ml w bs = Some \<bar>i\<bar>) \<and>
    (\<forall>i. ml_neg ml i = Some (- i))"

section \<open>The state\<close>

record marshall =
  m_buf :: buf
  m_buf_pos :: nat
  m_heap :: buf
  m_heap_pos :: nat
  m_heap_count :: nat
  m_heap_offset :: nat
  m_ht :: "(u64 \<times> u64) ht"

definition marshall_header_size :: nat where
  "marshall_header_size = 40"

definition marshall_init :: "nat \<Rightarrow> marshall option" where
  "marshall_init sz = (case ht_init 1024 of
      None \<Rightarrow> None
    | Some ht \<Rightarrow> Some \<lparr>m_buf = buf_init_alloc sz, m_buf_pos = 0, m_heap = buf_init_alloc sz,
        m_heap_pos = 0, m_heap_count = 0, m_heap_offset = 0, m_ht = ht\<rparr>)"

definition marshall_reset_chunk :: "marshall \<Rightarrow> marshall" where
  "marshall_reset_chunk m = m\<lparr>m_heap_offset := m_heap_offset m + m_heap_pos m, m_heap_pos := 0,
    m_heap_count := 0, m_buf_pos := 0, m_heap := buf_empty (m_heap m), m_buf := buf_empty (m_buf m),
    m_ht := ht_empty (m_ht m)\<rparr>"

definition marshall_reset_record :: "marshall \<Rightarrow> marshall" where
  "marshall_reset_record m = m\<lparr>m_heap_offset := 0, m_heap_pos := 0,
    m_heap_count := 0, m_buf_pos := 0, m_heap := buf_empty (m_heap m), m_buf := buf_empty (m_buf m),
    m_ht := ht_empty (m_ht m)\<rparr>"

definition marshall_reset_ht :: "marshall \<Rightarrow> marshall" where
  "marshall_reset_ht m = m\<lparr>m_heap_count := 0, m_ht := ht_empty (m_ht m)\<rparr>"

definition marshall_size :: "marshall \<Rightarrow> nat" where
  "marshall_size m = marshall_header_size + m_heap_pos m + m_buf_pos m"

text \<open>\<open>marshall_ht_compare\<close> and \<open>marshall_ht_hash\<close>: the entries of the table by their address.\<close>

definition marshall_ht_compare :: "u64 \<times> u64 \<Rightarrow> u64 \<times> u64 \<Rightarrow> int" where
  "marshall_ht_compare a b = compare_u64 (fst a) (fst b)"

definition marshall_ht_hash :: "marshall_lib \<Rightarrow> u64 \<times> u64 \<Rightarrow> uw" where
  "marshall_ht_hash ml a = ml_hash_u64 ml (fst a)"

section \<open>Bytes and pointers\<close>

definition m_target :: "marshall \<Rightarrow> bool \<Rightarrow> buf" where
  "m_target m heap = (if heap then m_heap m else m_buf m)"

text \<open>\<open>if ((r = write) <= 0) return NULL; if (heap) m->heap_pos += r; else m->buf_pos += r;\<close>\<close>

definition marshall_put :: "marshall \<Rightarrow> bool \<Rightarrow> int \<times> buf \<Rightarrow> marshall option" where
  "marshall_put m heap rb = (case rb of (r, b) \<Rightarrow>
    if r \<le> 0 then None
    else if heap then Some (m\<lparr>m_heap := b, m_heap_pos := m_heap_pos m + nat r\<rparr>)
    else Some (m\<lparr>m_buf := b, m_buf_pos := m_buf_pos m + nat r\<rparr>))"

definition marshall_1 :: "marshall \<Rightarrow> bool \<Rightarrow> string \<Rightarrow> marshall option" where
  "marshall_1 m heap p = (if p = '''' then None else marshall_put m heap (buf_write_1 (m_target m heap) p))"

text \<open>The macro DEF\_MARSHALL.\<close>

definition marshall_value :: "marshall \<Rightarrow> bool \<Rightarrow> string \<Rightarrow> (buf \<Rightarrow> int \<times> buf) \<Rightarrow> marshall option" where
  "marshall_value m heap magic f = do {
     m \<leftarrow> marshall_put m heap (buf_write_1 (m_target m heap) magic);
     marshall_put m heap (f (m_target m heap)) }"

definition marshall_bool :: "marshall \<Rightarrow> bool \<Rightarrow> bool \<Rightarrow> marshall option" where
  "marshall_bool m heap x = marshall_value m heap ''_KC3BOOL_'' (\<lambda>b. buf_write_bool b x)"

definition marshall_s8 :: "marshall \<Rightarrow> bool \<Rightarrow> s8 \<Rightarrow> marshall option" where
  "marshall_s8 m heap x = marshall_value m heap ''_KC3S8_'' (\<lambda>b. buf_write_u8 b x)"

definition marshall_s16 :: "marshall \<Rightarrow> bool \<Rightarrow> s16 \<Rightarrow> marshall option" where
  "marshall_s16 m heap x = marshall_value m heap ''_KC3S16_'' (\<lambda>b. buf_write_u16 b x)"

definition marshall_s32 :: "marshall \<Rightarrow> bool \<Rightarrow> s32 \<Rightarrow> marshall option" where
  "marshall_s32 m heap x = marshall_value m heap ''_KC3S32_'' (\<lambda>b. buf_write_u32 b x)"

definition marshall_s64 :: "marshall \<Rightarrow> bool \<Rightarrow> s64 \<Rightarrow> marshall option" where
  "marshall_s64 m heap x = marshall_value m heap ''_KC3S64_'' (\<lambda>b. buf_write_u64 b x)"

definition marshall_u8 :: "marshall \<Rightarrow> bool \<Rightarrow> u8 \<Rightarrow> marshall option" where
  "marshall_u8 m heap x = marshall_value m heap ''_KC3U8_'' (\<lambda>b. buf_write_u8 b x)"

definition marshall_u16 :: "marshall \<Rightarrow> bool \<Rightarrow> u16 \<Rightarrow> marshall option" where
  "marshall_u16 m heap x = marshall_value m heap ''_KC3U16_'' (\<lambda>b. buf_write_u16 b x)"

definition marshall_u32 :: "marshall \<Rightarrow> bool \<Rightarrow> u32 \<Rightarrow> marshall option" where
  "marshall_u32 m heap x = marshall_value m heap ''_KC3U32_'' (\<lambda>b. buf_write_u32 b x)"

definition marshall_u64 :: "marshall \<Rightarrow> bool \<Rightarrow> u64 \<Rightarrow> marshall option" where
  "marshall_u64 m heap x = marshall_value m heap ''_KC3U64_'' (\<lambda>b. buf_write_u64 b x)"

definition marshall_uw :: "marshall \<Rightarrow> bool \<Rightarrow> uw \<Rightarrow> marshall option" where
  "marshall_uw m heap x = do { m \<leftarrow> marshall_1 m heap ''_KC3UW_''; marshall_u64 m heap x }"

definition marshall_sw :: "marshall \<Rightarrow> bool \<Rightarrow> sw \<Rightarrow> marshall option" where
  "marshall_sw m heap x = do { m \<leftarrow> marshall_1 m heap ''_KC3SW_''; marshall_s64 m heap x }"

definition marshall_character :: "marshall \<Rightarrow> bool \<Rightarrow> u32 \<Rightarrow> marshall option" where
  "marshall_character m heap c = marshall_put m heap (buf_write_character_utf8 (m_target m heap) c)"

definition marshall_offset :: "marshall \<Rightarrow> bool \<Rightarrow> u64 \<Rightarrow> marshall option" where
  "marshall_offset m heap x = marshall_put m heap (buf_write_u64 (m_target m heap) x)"

definition marshall_str :: "marshall \<Rightarrow> bool \<Rightarrow> str \<Rightarrow> marshall option" where
  "marshall_str m heap s = do {
     m \<leftarrow> marshall_1 m heap ''_KC3STR_'';
     m \<leftarrow> marshall_u32 m heap (of_nat (length s));
     if s = [] then Some m else marshall_put m heap (buf_write (m_target m heap) s) }"

definition marshall_sym :: "marshall \<Rightarrow> bool \<Rightarrow> sym \<Rightarrow> marshall option" where
  "marshall_sym m heap s = do { m \<leftarrow> marshall_1 m heap ''_KC3SYM_''; marshall_str m heap s }"

text \<open>The digits of an integer, behind its sign and their count.\<close>

definition marshall_digits :: "marshall_lib \<Rightarrow> marshall \<Rightarrow> bool \<Rightarrow> int \<Rightarrow> nat \<Rightarrow> marshall option" where
  "marshall_digits ml m heap i count = (let b = m_target m heap; sz = count * 4 in
    if buf_size b < buf_wpos b + sz \<and> buf_flush b < int sz then None
    else if buf_size b < buf_wpos b + sz then None
    else case ml_pack ml i count of
      None \<Rightarrow> None
    | Some (bytes, written) \<Rightarrow>
        if written \<noteq> count then None else marshall_put m heap (int sz, buf_append b bytes))"

definition marshall_integer :: "marshall_lib \<Rightarrow> marshall \<Rightarrow> bool \<Rightarrow> int \<Rightarrow> marshall option" where
  "marshall_integer ml m heap i = do {
     m \<leftarrow> marshall_1 m heap ''_KC3INTEGER_'';
     let count = ml_pack_count ml i;
     if 2 ^ 32 - 1 < count then None
     else do {
       m \<leftarrow> marshall_put m heap (buf_write_u8 (m_target m heap) (if i < 0 then 1 else 0));
       m \<leftarrow> marshall_put m heap (buf_write_u32 (m_target m heap) (of_nat count));
       if count = 0 then Some m else marshall_digits ml m heap i count } }"

definition marshall_ratio :: "marshall_lib \<Rightarrow> marshall \<Rightarrow> bool \<Rightarrow> int \<Rightarrow> int \<Rightarrow> marshall option" where
  "marshall_ratio ml m heap n d = do {
     m \<leftarrow> marshall_1 m heap ''_KC3RATIO_'';
     m \<leftarrow> marshall_integer ml m heap n;
     marshall_integer ml m heap d }"

text \<open>The offset of a pointer; the result tells whether the object was there already.\<close>

definition marshall_heap_pointer ::
  "marshall_lib \<Rightarrow> marshall \<Rightarrow> bool \<Rightarrow> u64 option \<Rightarrow> (bool \<times> marshall) option" where
  "marshall_heap_pointer ml m heap p = (case p of
      None \<Rightarrow> do { m \<leftarrow> marshall_offset m heap 0; Some (False, m) }
    | Some a \<Rightarrow>
      let (present, offset, m) =
        (case ht_get marshall_ht_compare (marshall_ht_hash ml) (m_ht m) (a, 0) of
          Some (_, offset) \<Rightarrow> (True, offset, m)
        | None \<Rightarrow>
            let offset = of_nat (marshall_header_size + m_heap_offset m + m_heap_pos m + (if heap then 8 else 0))
            in (False, offset, m\<lparr>m_ht := ht_add marshall_ht_compare (marshall_ht_hash ml) (m_ht m) (a, offset),
                m_heap_count := m_heap_count m + 1\<rparr>));
        d = offset - of_nat (m_heap_offset m)
      in if sint d \<le> 0 then None
         else do { m \<leftarrow> marshall_offset m heap d; Some (present, m) })"

text \<open>The macro DEF\_MARSHALL\_P, with the function that writes the object.\<close>

definition marshall_p ::
  "marshall_lib \<Rightarrow> string \<Rightarrow> (marshall \<Rightarrow> 'a \<Rightarrow> marshall option) \<Rightarrow> marshall \<Rightarrow> bool \<Rightarrow> (u64, 'a) ptr \<Rightarrow>
    marshall option" where
  "marshall_p ml magic f m heap p = do {
     m \<leftarrow> marshall_1 m heap magic;
     (present, m) \<leftarrow> marshall_heap_pointer ml m heap (case p of NULL \<Rightarrow> None | Addr a _ \<Rightarrow> Some a);
     case p of NULL \<Rightarrow> Some m | Addr _ x \<Rightarrow> if present then Some m else f m x }"

definition marshall_psym :: "marshall_lib \<Rightarrow> marshall \<Rightarrow> bool \<Rightarrow> (u64, sym) ptr \<Rightarrow> marshall option" where
  "marshall_psym ml m heap p = marshall_p ml ''_KC3PSYM_'' (\<lambda>m s. marshall_sym m True s) m heap p"

definition marshall_ident :: "marshall_lib \<Rightarrow> marshall \<Rightarrow> bool \<Rightarrow> u64 mident \<Rightarrow> marshall option" where
  "marshall_ident ml m heap i = do {
     m \<leftarrow> marshall_1 m heap ''_KC3IDENT_'';
     m \<leftarrow> marshall_psym ml m heap (mident_module i);
     marshall_psym ml m heap (mident_sym i) }"

definition marshall_ptr :: "marshall \<Rightarrow> bool \<Rightarrow> u64 \<Rightarrow> marshall option" where
  "marshall_ptr m heap p = do {
     m \<leftarrow> marshall_1 m heap ''_KC3PTR_'';
     if p = 0 then marshall_uw m heap 0 else None }"

definition marshall_ptr_free :: "marshall \<Rightarrow> bool \<Rightarrow> u64 \<Rightarrow> marshall option" where
  "marshall_ptr_free m heap p = do {
     m \<leftarrow> marshall_1 m heap ''_KC3PTRFREE_'';
     if p = 0 then marshall_uw m heap 0 else None }"

text \<open>A call is written with a NULL callable.\<close>

definition marshall_pcallable_null :: "marshall_lib \<Rightarrow> marshall \<Rightarrow> bool \<Rightarrow> marshall option" where
  "marshall_pcallable_null ml m heap = marshall_p ml ''_KC3PCALLABLE_'' (\<lambda>m (_ :: unit). None) m heap NULL"

section \<open>Values\<close>

text \<open>Each function takes the function that writes a tag.\<close>

type_synonym tag_writer = "marshall \<Rightarrow> bool \<Rightarrow> u64 mtag \<Rightarrow> marshall option"

fun marshall_tags :: "tag_writer \<Rightarrow> marshall \<Rightarrow> bool \<Rightarrow> u64 mtag list \<Rightarrow> marshall option" where
  "marshall_tags w m heap [] = Some m"
| "marshall_tags w m heap (t # ts) = do { m \<leftarrow> w m heap t; marshall_tags w m heap ts }"

fun marshall_pairs :: "tag_writer \<Rightarrow> marshall \<Rightarrow> bool \<Rightarrow> (u64 mtag \<times> u64 mtag) list \<Rightarrow> marshall option" where
  "marshall_pairs w m heap [] = Some m"
| "marshall_pairs w m heap ((k, v) # kvs) = do {
     m \<leftarrow> w m heap k; m \<leftarrow> w m heap v; marshall_pairs w m heap kvs }"

definition marshall_do_block :: "tag_writer \<Rightarrow> marshall \<Rightarrow> bool \<Rightarrow> u64 mtag list \<Rightarrow> bool \<Rightarrow> marshall option" where
  "marshall_do_block w m heap ts short_form = do {
     m \<leftarrow> marshall_uw m heap (of_nat (length ts));
     m \<leftarrow> marshall_bool m heap short_form;
     marshall_tags w m heap ts }"

definition marshall_list :: "tag_writer \<Rightarrow> marshall \<Rightarrow> bool \<Rightarrow> u64 mtag \<times> u64 mtag \<Rightarrow> marshall option" where
  "marshall_list w m heap l = do {
     m \<leftarrow> marshall_1 m heap ''_KC3LIST_'';
     m \<leftarrow> w m heap (fst l);
     w m heap (snd l) }"

definition marshall_plist :: "marshall_lib \<Rightarrow> tag_writer \<Rightarrow> marshall \<Rightarrow> bool \<Rightarrow>
    (u64, u64 mtag \<times> u64 mtag) ptr \<Rightarrow> marshall option" where
  "marshall_plist ml w m heap p = marshall_p ml ''_KC3PLIST_'' (\<lambda>m l. marshall_list w m True l) m heap p"

definition marshall_ptag :: "marshall_lib \<Rightarrow> tag_writer \<Rightarrow> marshall \<Rightarrow> bool \<Rightarrow> (u64, u64 mtag) ptr \<Rightarrow>
    marshall option" where
  "marshall_ptag ml w m heap p = marshall_p ml ''_KC3PTAG_'' (\<lambda>m t. w m True t) m heap p"

definition marshall_fact :: "marshall_lib \<Rightarrow> tag_writer \<Rightarrow> marshall \<Rightarrow> bool \<Rightarrow> (u64, u64 mtag) ptr \<Rightarrow>
    (u64, u64 mtag) ptr \<Rightarrow> (u64, u64 mtag) ptr \<Rightarrow> uw \<Rightarrow> marshall option" where
  "marshall_fact ml w m heap subject predicate object fid = do {
     m \<leftarrow> marshall_1 m heap ''_KC3FACT_'';
     m \<leftarrow> marshall_ptag ml w m heap subject;
     m \<leftarrow> marshall_ptag ml w m heap predicate;
     m \<leftarrow> marshall_ptag ml w m heap object;
     marshall_uw m heap fid }"

definition marshall_map :: "tag_writer \<Rightarrow> marshall \<Rightarrow> bool \<Rightarrow> (u64 mtag \<times> u64 mtag) list \<Rightarrow> marshall option" where
  "marshall_map w m heap kvs = do {
     m \<leftarrow> marshall_1 m heap ''_KC3MAP_'';
     m \<leftarrow> marshall_uw m heap (of_nat (length kvs));
     marshall_pairs w m heap kvs }"

definition marshall_call :: "marshall_lib \<Rightarrow> tag_writer \<Rightarrow> marshall \<Rightarrow> bool \<Rightarrow> u64 mident \<times> u64 mtag list \<Rightarrow>
    marshall option" where
  "marshall_call ml w m heap call = do {
     m \<leftarrow> marshall_ident ml m heap (fst call);
     m \<leftarrow> marshall_uw m heap (of_nat (length (snd call)));
     m \<leftarrow> marshall_tags w m heap (snd call);
     marshall_pcallable_null ml m heap }"

definition marshall_pcall :: "marshall_lib \<Rightarrow> tag_writer \<Rightarrow> marshall \<Rightarrow> bool \<Rightarrow>
    (u64, u64 mident \<times> u64 mtag list) ptr \<Rightarrow> marshall option" where
  "marshall_pcall ml w m heap p = marshall_p ml ''_KC3PCALL_'' (\<lambda>m c. marshall_call ml w m True c) m heap p"

definition marshall_quote :: "tag_writer \<Rightarrow> marshall \<Rightarrow> bool \<Rightarrow> u64 mtag \<Rightarrow> marshall option" where
  "marshall_quote w m heap t = do { m \<leftarrow> marshall_1 m heap ''_KC3QUOTE_''; w m heap t }"

definition marshall_unquote :: "tag_writer \<Rightarrow> marshall \<Rightarrow> bool \<Rightarrow> u64 mtag \<Rightarrow> marshall option" where
  "marshall_unquote w m heap t = w m heap t"

definition marshall_time :: "tag_writer \<Rightarrow> marshall \<Rightarrow> bool \<Rightarrow> sw \<Rightarrow> sw \<Rightarrow> (u64 mtag \<times> u64 mtag) option \<Rightarrow>
    marshall option" where
  "marshall_time w m heap sec nsec tags = do {
     m \<leftarrow> marshall_bool m heap (tags \<noteq> None);
     case tags of
       Some p \<Rightarrow> do { m \<leftarrow> w m heap (fst p); w m heap (snd p) }
     | None \<Rightarrow> do { m \<leftarrow> marshall_sw m heap sec; marshall_sw m heap nsec } }"

definition marshall_tuple :: "tag_writer \<Rightarrow> marshall \<Rightarrow> bool \<Rightarrow> u64 mtag list \<Rightarrow> marshall option" where
  "marshall_tuple w m heap ts =
    (if length ts = 0 then None
     else do { m \<leftarrow> marshall_uw m heap (of_nat (length ts)); marshall_tags w m heap ts })"

definition marshall_ptuple :: "marshall_lib \<Rightarrow> tag_writer \<Rightarrow> marshall \<Rightarrow> bool \<Rightarrow> (u64, u64 mtag list) ptr \<Rightarrow>
    marshall option" where
  "marshall_ptuple ml w m heap p = marshall_p ml ''_KC3PTUPLE_'' (\<lambda>m ts. marshall_tuple w m True ts) m heap p"

text \<open>The tags that these functions write are parts of their argument.\<close>

lemma marshall_tags_cong [fundef_cong]:
  assumes "m = m'" "heap = heap'" "ts = ts'" "\<And>t m h. t \<in> set ts' \<Longrightarrow> w m h t = w' m h t"
  shows "marshall_tags w m heap ts = marshall_tags w' m' heap' ts'"
  unfolding assms(1-3) using assms(4)
  by (induction ts' arbitrary: m') (auto intro!: Option.bind_cong)

lemma marshall_pairs_cong [fundef_cong]:
  assumes "m = m'" "heap = heap'" "kvs = kvs'"
    "\<And>k v m h. (k, v) \<in> set kvs' \<Longrightarrow> w m h k = w' m h k"
    "\<And>k v m h. (k, v) \<in> set kvs' \<Longrightarrow> w m h v = w' m h v"
  shows "marshall_pairs w m heap kvs = marshall_pairs w' m' heap' kvs'"
proof -
  have "\<forall>p\<in>set kvs'. \<forall>m h. w m h (fst p) = w' m h (fst p) \<and> w m h (snd p) = w' m h (snd p)"
    using assms(4,5) by fastforce
  then show ?thesis
    unfolding assms(1-3) by (induction kvs' arbitrary: m') (auto intro!: Option.bind_cong)
qed

lemma marshall_p_cong:
  assumes "\<And>a x m. p = Addr a x \<Longrightarrow> f m x = f' m x"
  shows "marshall_p ml magic f m heap p = marshall_p ml magic f' m heap p"
  using assms unfolding marshall_p_def by (cases p) (auto intro!: Option.bind_cong)

lemma marshall_do_block_cong [fundef_cong]:
  "m = m' \<Longrightarrow> heap = heap' \<Longrightarrow> ts = ts' \<Longrightarrow> sf = sf' \<Longrightarrow> (\<And>t m h. t \<in> set ts' \<Longrightarrow> w m h t = w' m h t) \<Longrightarrow>
    marshall_do_block w m heap ts sf = marshall_do_block w' m' heap' ts' sf'"
  unfolding marshall_do_block_def by (auto intro!: Option.bind_cong marshall_tags_cong)

lemma marshall_list_cong [fundef_cong]:
  "m = m' \<Longrightarrow> heap = heap' \<Longrightarrow> l = l' \<Longrightarrow> (\<And>m h. w m h (fst l') = w' m h (fst l')) \<Longrightarrow>
    (\<And>m h. w m h (snd l') = w' m h (snd l')) \<Longrightarrow> marshall_list w m heap l = marshall_list w' m' heap' l'"
  unfolding marshall_list_def by (auto intro!: Option.bind_cong)

lemma marshall_plist_cong [fundef_cong]:
  "m = m' \<Longrightarrow> heap = heap' \<Longrightarrow> p = p' \<Longrightarrow> (\<And>a t n m h. p' = Addr a (t, n) \<Longrightarrow> w m h t = w' m h t) \<Longrightarrow>
    (\<And>a t n m h. p' = Addr a (t, n) \<Longrightarrow> w m h n = w' m h n) \<Longrightarrow>
    marshall_plist ml w m heap p = marshall_plist ml w' m' heap' p'"
  unfolding marshall_plist_def by (auto intro!: marshall_p_cong marshall_list_cong)

lemma marshall_ptag_cong [fundef_cong]:
  "m = m' \<Longrightarrow> heap = heap' \<Longrightarrow> p = p' \<Longrightarrow> (\<And>a t m h. p' = Addr a t \<Longrightarrow> w m h t = w' m h t) \<Longrightarrow>
    marshall_ptag ml w m heap p = marshall_ptag ml w' m' heap' p'"
  unfolding marshall_ptag_def by (auto intro!: marshall_p_cong)

lemma marshall_fact_cong [fundef_cong]:
  "m = m' \<Longrightarrow> heap = heap' \<Longrightarrow> s = s' \<Longrightarrow> p = p' \<Longrightarrow> ob = ob' \<Longrightarrow> i = i' \<Longrightarrow>
    (\<And>a t m h. s' = Addr a t \<Longrightarrow> w m h t = w' m h t) \<Longrightarrow> (\<And>a t m h. p' = Addr a t \<Longrightarrow> w m h t = w' m h t) \<Longrightarrow>
    (\<And>a t m h. ob' = Addr a t \<Longrightarrow> w m h t = w' m h t) \<Longrightarrow>
    marshall_fact ml w m heap s p ob i = marshall_fact ml w' m' heap' s' p' ob' i'"
  unfolding marshall_fact_def by (auto intro!: Option.bind_cong marshall_ptag_cong)

lemma marshall_map_cong [fundef_cong]:
  "m = m' \<Longrightarrow> heap = heap' \<Longrightarrow> kvs = kvs' \<Longrightarrow>
    (\<And>k v m h. (k, v) \<in> set kvs' \<Longrightarrow> w m h k = w' m h k) \<Longrightarrow>
    (\<And>k v m h. (k, v) \<in> set kvs' \<Longrightarrow> w m h v = w' m h v) \<Longrightarrow>
    marshall_map w m heap kvs = marshall_map w' m' heap' kvs'"
  unfolding marshall_map_def by (auto intro!: Option.bind_cong marshall_pairs_cong)

lemma marshall_pcall_cong [fundef_cong]:
  "m = m' \<Longrightarrow> heap = heap' \<Longrightarrow> p = p' \<Longrightarrow>
    (\<And>a i ts t m h. p' = Addr a (i, ts) \<Longrightarrow> t \<in> set ts \<Longrightarrow> w m h t = w' m h t) \<Longrightarrow>
    marshall_pcall ml w m heap p = marshall_pcall ml w' m' heap' p'"
  unfolding marshall_pcall_def marshall_call_def
  by (auto intro!: marshall_p_cong Option.bind_cong marshall_tags_cong)

lemma marshall_quote_cong [fundef_cong]:
  "m = m' \<Longrightarrow> heap = heap' \<Longrightarrow> t = t' \<Longrightarrow> (\<And>m h. w m h t' = w' m h t') \<Longrightarrow>
    marshall_quote w m heap t = marshall_quote w' m' heap' t'"
  unfolding marshall_quote_def by (auto intro!: Option.bind_cong)

lemma marshall_unquote_cong [fundef_cong]:
  "m = m' \<Longrightarrow> heap = heap' \<Longrightarrow> t = t' \<Longrightarrow> (\<And>m h. w m h t' = w' m h t') \<Longrightarrow>
    marshall_unquote w m heap t = marshall_unquote w' m' heap' t'"
  unfolding marshall_unquote_def by simp

lemma marshall_time_cong [fundef_cong]:
  "m = m' \<Longrightarrow> heap = heap' \<Longrightarrow> s = s' \<Longrightarrow> n = n' \<Longrightarrow> p = p' \<Longrightarrow>
    (\<And>t u m h. p' = Some (t, u) \<Longrightarrow> w m h t = w' m h t) \<Longrightarrow>
    (\<And>t u m h. p' = Some (t, u) \<Longrightarrow> w m h u = w' m h u) \<Longrightarrow>
    marshall_time w m heap s n p = marshall_time w' m' heap' s' n' p'"
  unfolding marshall_time_def by (auto intro!: Option.bind_cong split: option.splits)

lemma marshall_ptuple_cong [fundef_cong]:
  "m = m' \<Longrightarrow> heap = heap' \<Longrightarrow> p = p' \<Longrightarrow>
    (\<And>a ts t m h. p' = Addr a ts \<Longrightarrow> t \<in> set ts \<Longrightarrow> w m h t = w' m h t) \<Longrightarrow>
    marshall_ptuple ml w m heap p = marshall_ptuple ml w' m' heap' p'"
  unfolding marshall_ptuple_def marshall_tuple_def
  by (auto intro!: marshall_p_cong Option.bind_cong marshall_tags_cong)

text \<open>\<open>marshall_tag\<close>: the magic string, the type and the value.\<close>

fun marshall_tag :: "marshall_lib \<Rightarrow> marshall \<Rightarrow> bool \<Rightarrow> u64 mtag \<Rightarrow> marshall option" where
  "marshall_tag ml m heap tag = do {
     m \<leftarrow> marshall_1 m heap ''_KC3TAG_'';
     m \<leftarrow> marshall_u8 m heap (mtag_type tag);
     case tag of
       MVoid \<Rightarrow> Some m
     | MDoBlock ts short_form \<Rightarrow> marshall_do_block (marshall_tag ml) m heap ts short_form
     | MBool b \<Rightarrow> marshall_bool m heap b
     | MCharacter c \<Rightarrow> marshall_character m heap c
     | MFact subject predicate object fid \<Rightarrow>
         marshall_fact ml (marshall_tag ml) m heap subject predicate object fid
     | MInteger i \<Rightarrow> marshall_integer ml m heap i
     | MRatio n d \<Rightarrow> marshall_ratio ml m heap n d
     | MSW x \<Rightarrow> marshall_sw m heap x
     | MS64 x \<Rightarrow> marshall_s64 m heap x
     | MS32 x \<Rightarrow> marshall_s32 m heap x
     | MS16 x \<Rightarrow> marshall_s16 m heap x
     | MS8 x \<Rightarrow> marshall_s8 m heap x
     | MU8 x \<Rightarrow> marshall_u8 m heap x
     | MU16 x \<Rightarrow> marshall_u16 m heap x
     | MU32 x \<Rightarrow> marshall_u32 m heap x
     | MU64 x \<Rightarrow> marshall_u64 m heap x
     | MUW x \<Rightarrow> marshall_uw m heap x
     | MPlist p \<Rightarrow> marshall_plist ml (marshall_tag ml) m heap p
     | MMap kvs \<Rightarrow> marshall_map (marshall_tag ml) m heap kvs
     | MPcall p \<Rightarrow> marshall_pcall ml (marshall_tag ml) m heap p
     | MPsym p \<Rightarrow> marshall_psym ml m heap p
     | MPtr p \<Rightarrow> marshall_ptr m heap p
     | MPtrFree p \<Rightarrow> marshall_ptr_free m heap p
     | MQuote t \<Rightarrow> marshall_quote (marshall_tag ml) m heap t
     | MStr s \<Rightarrow> marshall_str m heap s
     | MTime sec nsec tags \<Rightarrow> marshall_time (marshall_tag ml) m heap sec nsec tags
     | MPtuple p \<Rightarrow> marshall_ptuple ml (marshall_tag ml) m heap p
     | MUnquote t \<Rightarrow> marshall_unquote (marshall_tag ml) m heap t
     | MIdent i \<Rightarrow> marshall_ident ml m heap i }"

declare marshall_tag.simps [simp del]

section \<open>The message\<close>

definition marshall_magic :: u64 where
  "marshall_magic = 0x485352414d33434b"

text \<open>The packed structure \<open>s_marshall_header\<close>.\<close>

definition marshall_header :: "marshall \<Rightarrow> u8 list" where
  "marshall_header m = le_bytes 8 marshall_magic @ le_bytes 8 (of_nat (m_heap_offset m) :: u64) @
    le_bytes 8 (of_nat (m_heap_count m) :: u64) @ le_bytes 8 (of_nat (m_heap_pos m) :: u64) @
    le_bytes 8 (of_nat (m_buf_pos m) :: u64)"

text \<open>The result, the marshaller ready for the next message, and the output.\<close>

definition marshall_to_buf :: "marshall \<Rightarrow> buf \<Rightarrow> int \<times> marshall \<times> buf" where
  "marshall_to_buf m out = (case buf_write out (marshall_header m) of (r0, out) \<Rightarrow>
    if r0 \<noteq> int marshall_header_size then (- 1, m, out)
    else case buf_xfer out (m_heap m) (m_heap_pos m) of (r1, out, heap) \<Rightarrow>
      if r1 \<noteq> int (m_heap_pos m) then (- 1, m\<lparr>m_heap := heap\<rparr>, out)
      else case buf_xfer out (m_buf m) (m_buf_pos m) of (r2, out, buf) \<Rightarrow>
        if r2 \<noteq> int (m_buf_pos m) then (- 1, m\<lparr>m_heap := heap, m_buf := buf\<rparr>, out)
        else if buf_flush out < 0 then (- 1, m\<lparr>m_heap := heap, m_buf := buf\<rparr>, out)
        else (r0 + r1 + r2, marshall_reset_chunk (m\<lparr>m_heap := heap, m_buf := buf\<rparr>), out))"

text \<open>The message as a string.\<close>

definition marshall_to_str :: "marshall \<Rightarrow> (u8 list \<times> marshall) option" where
  "marshall_to_str m = (case marshall_to_buf m (buf_init_alloc (1024 * 1024)) of (r, m, out) \<Rightarrow>
    if r \<le> 0 then None
    else case buf_read_to_str out of
      (Got str r, _) \<Rightarrow> if r = 0 then None else Some (str, m)
    | (Stop _, _) \<Rightarrow> None)"

end
