(* ===== verification/Marshall_Read.thy ===== *)
theory Marshall_Read
  imports Marshall
begin

unbundle bit_operations_syntax

text \<open>
  Reading values in the binary format (marshall\_read.c).

  The reader moves in the two parts of a message: a pointer in either part sends it to an offset
  of the heap.  A hash table from offsets to objects finds the pointers that were read before; an
  offset whose object is still being read has a NULL pointer in the table, so that a cyclic message
  is an error.  What a reader stores through its pointer is returned with the new state; NULL is
  \<open>None\<close>.  The values have no addresses (\<open>unit mtag\<close>): the copies that C makes of shared objects
  are equal values.

  Reading a tag takes the depth up to which tags may be nested as an argument.  The types that
  are not represented are answered with \<open>None\<close>.  The limits on counts that come from the size of
  memory are left out: a count beyond the rest of the message is an error of its own.
\<close>

section \<open>The state\<close>

datatype mobj =
    OSym sym
  | OList "unit mtag \<times> unit mtag"
  | OTuple "unit mtag list"
  | OTag "unit mtag"
  | OCall "unit mident \<times> unit mtag list"

text \<open>An entry: the offset, the object or NULL, and the name of the type.\<close>

type_synonym read_entry = "s64 \<times> mobj option \<times> sym"

text \<open>
  \<open>mr_buf\<close> is the buffer read from; \<open>mr_source\<close> is the buffer of the caller while that is another
  one.
\<close>

record mread =
  mr_buf :: buf
  mr_source :: "buf option"
  mr_buf_size :: nat
  mr_heap :: buf
  mr_heap_count :: nat
  mr_heap_offset :: nat
  mr_heap_size :: nat
  mr_heap_start :: int
  mr_ht :: "read_entry ht option"
  mr_ht_failed :: bool

definition BUF_SIZE :: nat where
  "BUF_SIZE = 65536"

definition SW_MAX :: nat where
  "SW_MAX = 2 ^ 63 - 1"

definition marshall_read_init_buf :: "buf \<Rightarrow> mread" where
  "marshall_read_init_buf b = \<lparr>mr_buf = b, mr_source = None, mr_buf_size = 0, mr_heap = buf_init_alloc BUF_SIZE,
    mr_heap_count = 0, mr_heap_offset = 0, mr_heap_size = 0, mr_heap_start = 0, mr_ht = None, mr_ht_failed = False\<rparr>"

definition read_entry_compare :: "read_entry \<Rightarrow> read_entry \<Rightarrow> int" where
  "read_entry_compare a b = compare_s64 (fst a) (fst b)"

definition read_entry_hash :: "marshall_lib \<Rightarrow> read_entry \<Rightarrow> uw" where
  "read_entry_hash ml a = ml_hash_s64 ml (fst a)"

definition mr_target :: "mread \<Rightarrow> bool \<Rightarrow> buf" where
  "mr_target mr heap = (if heap then mr_heap mr else mr_buf mr)"

definition mr_set_target :: "mread \<Rightarrow> bool \<Rightarrow> buf \<Rightarrow> mread" where
  "mr_set_target mr heap b = (if heap then mr\<lparr>mr_heap := b\<rparr> else mr\<lparr>mr_buf := b\<rparr>)"

section \<open>Bytes and pointers\<close>

definition marshall_read_1 :: "mread \<Rightarrow> bool \<Rightarrow> string \<Rightarrow> mread option" where
  "marshall_read_1 mr heap p =
    (if p = '''' then None
     else case buf_read_1 (mr_target mr heap) p of (r, b) \<Rightarrow>
       if r \<le> 0 then None else Some (mr_set_target mr heap b))"

text \<open>\<open>if (buf_read(buf, dest) <= 0) return NULL;\<close>\<close>

definition marshall_get :: "mread \<Rightarrow> bool \<Rightarrow> (buf \<Rightarrow> 'a got \<times> buf) \<Rightarrow> ('a \<times> mread) option" where
  "marshall_get mr heap f = (case f (mr_target mr heap) of
      (Got x r, b) \<Rightarrow> if r = 0 then None else Some (x, mr_set_target mr heap b)
    | (Stop _, b) \<Rightarrow> None)"

text \<open>The macros DEF\_MARSHALL\_READ and DEF\_MARSHALL\_READ\_LETOH.\<close>

definition marshall_read_value :: "mread \<Rightarrow> bool \<Rightarrow> string \<Rightarrow> (buf \<Rightarrow> 'a got \<times> buf) \<Rightarrow> ('a \<times> mread) option" where
  "marshall_read_value mr heap magic f = (case buf_read_1 (mr_target mr heap) magic of (r, b) \<Rightarrow>
    if r \<le> 0 then None else marshall_get (mr_set_target mr heap b) heap f)"

definition marshall_read_bool :: "mread \<Rightarrow> bool \<Rightarrow> (bool \<times> mread) option" where
  "marshall_read_bool mr heap = marshall_read_value mr heap ''_KC3BOOL_'' buf_read_bool"

definition marshall_read_s8 :: "mread \<Rightarrow> bool \<Rightarrow> (s8 \<times> mread) option" where
  "marshall_read_s8 mr heap = marshall_read_value mr heap ''_KC3S8_'' buf_read_u8"

definition marshall_read_s16 :: "mread \<Rightarrow> bool \<Rightarrow> (s16 \<times> mread) option" where
  "marshall_read_s16 mr heap = marshall_read_value mr heap ''_KC3S16_'' buf_read_u16"

definition marshall_read_s32 :: "mread \<Rightarrow> bool \<Rightarrow> (s32 \<times> mread) option" where
  "marshall_read_s32 mr heap = marshall_read_value mr heap ''_KC3S32_'' buf_read_u32"

definition marshall_read_s64 :: "mread \<Rightarrow> bool \<Rightarrow> (s64 \<times> mread) option" where
  "marshall_read_s64 mr heap = marshall_read_value mr heap ''_KC3S64_'' buf_read_u64"

definition marshall_read_u8 :: "mread \<Rightarrow> bool \<Rightarrow> (u8 \<times> mread) option" where
  "marshall_read_u8 mr heap = marshall_read_value mr heap ''_KC3U8_'' buf_read_u8"

definition marshall_read_u16 :: "mread \<Rightarrow> bool \<Rightarrow> (u16 \<times> mread) option" where
  "marshall_read_u16 mr heap = marshall_read_value mr heap ''_KC3U16_'' buf_read_u16"

definition marshall_read_u32 :: "mread \<Rightarrow> bool \<Rightarrow> (u32 \<times> mread) option" where
  "marshall_read_u32 mr heap = marshall_read_value mr heap ''_KC3U32_'' buf_read_u32"

definition marshall_read_u64 :: "mread \<Rightarrow> bool \<Rightarrow> (u64 \<times> mread) option" where
  "marshall_read_u64 mr heap = marshall_read_value mr heap ''_KC3U64_'' buf_read_u64"

definition marshall_read_uw :: "mread \<Rightarrow> bool \<Rightarrow> (uw \<times> mread) option" where
  "marshall_read_uw mr heap = do { mr \<leftarrow> marshall_read_1 mr heap ''_KC3UW_''; marshall_read_u64 mr heap }"

definition marshall_read_sw :: "mread \<Rightarrow> bool \<Rightarrow> (sw \<times> mread) option" where
  "marshall_read_sw mr heap = do { mr \<leftarrow> marshall_read_1 mr heap ''_KC3SW_''; marshall_read_s64 mr heap }"

text \<open>
  The character, or what the destination held before when the bytes are not a character: only
  negative results are errors here.
\<close>

definition marshall_read_character :: "u32 \<Rightarrow> mread \<Rightarrow> bool \<Rightarrow> (u32 \<times> mread) option" where
  "marshall_read_character dest mr heap = (case buf_read_character_utf8 (mr_target mr heap) of
      (Got c _, b) \<Rightarrow> Some (c, mr_set_target mr heap b)
    | (Stop r, b) \<Rightarrow> if r < 0 then None else Some (dest, mr_set_target mr heap b))"

definition marshall_read_offset :: "mread \<Rightarrow> bool \<Rightarrow> (u64 \<times> mread) option" where
  "marshall_read_offset mr heap = marshall_get mr heap buf_read_u64"

definition marshall_read_str :: "mread \<Rightarrow> bool \<Rightarrow> (str \<times> mread) option" where
  "marshall_read_str mr heap = do {
     mr \<leftarrow> marshall_read_1 mr heap ''_KC3STR_'';
     (sz, mr) \<leftarrow> marshall_read_u32 mr heap;
     case buf_read (mr_target mr heap) (unat sz) of
       (None, _) \<Rightarrow> None
     | (Some s, b) \<Rightarrow> Some (s, mr_set_target mr heap b) }"

definition marshall_read_sym :: "mread \<Rightarrow> bool \<Rightarrow> (sym \<times> mread) option" where
  "marshall_read_sym mr heap = do { mr \<leftarrow> marshall_read_1 mr heap ''_KC3SYM_''; marshall_read_str mr heap }"

text \<open>The digits of an integer, behind its sign and their count.\<close>

definition marshall_read_digits :: "marshall_lib \<Rightarrow> mread \<Rightarrow> bool \<Rightarrow> bool \<Rightarrow> nat \<Rightarrow> (int \<times> mread) option" where
  "marshall_read_digits ml mr heap negative count = (let b = mr_target mr heap; sz = count * 4;
      (r, b) = (if buf_wpos b - buf_rpos b < sz then buf_refill b (int sz) else (0, b)) in
    if r < 0 then None
    else if buf_wpos b < buf_rpos b \<or> buf_wpos b - buf_rpos b < sz then None
    else do {
      i \<leftarrow> ml_unpack ml count (take sz (drop (buf_rpos b) (buf_bytes b)));
      i \<leftarrow> (if negative then ml_neg ml i else Some i);
      Some (i, mr_set_target mr heap (buf_forward b sz)) })"

definition marshall_read_integer :: "marshall_lib \<Rightarrow> mread \<Rightarrow> bool \<Rightarrow> (int \<times> mread) option" where
  "marshall_read_integer ml mr heap = do {
     mr \<leftarrow> marshall_read_1 mr heap ''_KC3INTEGER_'';
     (sign, mr) \<leftarrow> marshall_get mr heap buf_read_u8;
     (count, mr) \<leftarrow> marshall_get mr heap buf_read_u32;
     if SW_MAX div 4 < unat count then None
     else if buf_wpos (mr_target mr heap) < buf_rpos (mr_target mr heap) then None
     else if unat count = 0 then Some (0, mr)
     else marshall_read_digits ml mr heap (sign \<noteq> 0) (unat count) }"

definition marshall_read_ratio :: "marshall_lib \<Rightarrow> mread \<Rightarrow> bool \<Rightarrow> ((int \<times> int) \<times> mread) option" where
  "marshall_read_ratio ml mr heap = do {
     mr \<leftarrow> marshall_read_1 mr heap ''_KC3RATIO_'';
     (n, mr) \<leftarrow> marshall_read_integer ml mr heap;
     (d, mr) \<leftarrow> marshall_read_integer ml mr heap;
     Some ((n, d), mr) }"

definition sym_is_pointer_type :: "sym \<Rightarrow> bool" where
  "sym_is_pointer_type s \<longleftrightarrow> last s = 0x2A"

text \<open>The key of an offset in the table, negative for a type of pointers.\<close>

definition marshall_read_ht_key :: "mread \<Rightarrow> u64 \<Rightarrow> sym \<Rightarrow> s64 option" where
  "marshall_read_ht_key mr offset type =
    (if mr_ht_failed mr \<or> type = [] \<or> mr_ht mr = None \<or> unat offset < marshall_header_size then None
     else let pointer = sym_is_pointer_type type; off = unat offset in
       if mr_heap_size mr < off - marshall_header_size \<or>
         \<not> pointer \<and> off - marshall_header_size = mr_heap_size mr then None
       else let base = (if 0 < mr_heap_start mr then nat (mr_heap_start mr) else mr_heap_offset mr) in
         if SW_MAX < off \<or> SW_MAX - off < base \<or> mr_heap_start mr < - int marshall_header_size then None
         else Some (if pointer then - of_nat (base + off) else of_nat (base + off)))"

text \<open>The offset and the object, if it was read before.  A new offset is put into the table with NULL.\<close>

definition marshall_read_heap_pointer ::
  "marshall_lib \<Rightarrow> mread \<Rightarrow> bool \<Rightarrow> sym \<Rightarrow> ((u64 \<times> mobj option) \<times> mread) option" where
  "marshall_read_heap_pointer ml mr heap type =
    (if mr_ht_failed mr then None
     else do {
       (offset, mr) \<leftarrow> marshall_read_offset mr heap;
       if offset = 0 then Some ((0, None), mr)
       else do {
         key \<leftarrow> marshall_read_ht_key mr offset type;
         ht \<leftarrow> mr_ht mr;
         (case ht_get read_entry_compare (read_entry_hash ml) ht (key, None, type) of
            None \<Rightarrow> Some ((offset, None), mr\<lparr>mr_ht :=
              Some (ht_add read_entry_compare (read_entry_hash ml) ht (key, None, type))\<rparr>)
          | Some (_, p, ty) \<Rightarrow> if ty \<noteq> type \<or> p = None then None else Some ((offset, p), mr)) } })"

definition marshall_read_ht_add :: "marshall_lib \<Rightarrow> mread \<Rightarrow> u64 \<Rightarrow> mobj \<Rightarrow> sym \<Rightarrow> mread option" where
  "marshall_read_ht_add ml mr offset p type = do {
     key \<leftarrow> marshall_read_ht_key mr offset type;
     ht \<leftarrow> mr_ht mr;
     (k, q, ty) \<leftarrow> ht_get read_entry_compare (read_entry_hash ml) ht (key, None, type);
     if ty \<noteq> type \<or> q \<noteq> None then None
     else Some (mr\<lparr>mr_ht := Some (ht_assign read_entry_compare (read_entry_hash ml) ht (key, None, type)
       (k, Some p, ty))\<rparr>) }"

text \<open>
  The common body of the readers of pointers: \<open>f\<close> reads the object in the heap, \<open>mk\<close> and \<open>get\<close>
  convert between objects and values of its type.
\<close>

definition marshall_read_pointer_body ::
  "marshall_lib \<Rightarrow> sym \<Rightarrow> (mread \<Rightarrow> ('a \<times> mread) option) \<Rightarrow> ('a \<Rightarrow> mobj) \<Rightarrow> (mobj \<Rightarrow> 'a option) \<Rightarrow>
    mread \<Rightarrow> bool \<Rightarrow> ((unit, 'a) ptr \<times> mread) option" where
  "marshall_read_pointer_body ml type f mk get mr heap = do {
     ((offset, present), mr) \<leftarrow> marshall_read_heap_pointer ml mr heap type;
     if offset = 0 then Some (NULL, mr)
     else (case present of
       Some p \<Rightarrow> do { x \<leftarrow> get p; Some (Addr () x, mr) }
     | None \<Rightarrow>
         (case buf_seek (mr_heap mr) (mr_heap_start mr + sint offset) SEEK_SET of (r, b) \<Rightarrow>
           if r < 0 then None
           else do {
             (x, mr) \<leftarrow> f (mr\<lparr>mr_heap := b\<rparr>);
             mr \<leftarrow> marshall_read_ht_add ml mr offset (mk x) type;
             Some (Addr () x, mr) })) }"

definition marshall_read_p ::
  "marshall_lib \<Rightarrow> string \<Rightarrow> sym \<Rightarrow> (mread \<Rightarrow> ('a \<times> mread) option) \<Rightarrow> ('a \<Rightarrow> mobj) \<Rightarrow> (mobj \<Rightarrow> 'a option) \<Rightarrow>
    mread \<Rightarrow> bool \<Rightarrow> ((unit, 'a) ptr \<times> mread) option" where
  "marshall_read_p ml magic type f mk get mr heap = do {
     mr \<leftarrow> marshall_read_1 mr heap magic;
     marshall_read_pointer_body ml type f mk get mr heap }"

definition marshall_read_psym :: "marshall_lib \<Rightarrow> mread \<Rightarrow> bool \<Rightarrow> ((unit, sym) ptr \<times> mread) option" where
  "marshall_read_psym ml mr heap = marshall_read_p ml ''_KC3PSYM_'' (c_str ''Sym'')
    (\<lambda>mr. marshall_read_sym mr True) OSym (\<lambda>ob. case ob of OSym s \<Rightarrow> Some s | _ \<Rightarrow> None) mr heap"

definition marshall_read_ident :: "marshall_lib \<Rightarrow> mread \<Rightarrow> bool \<Rightarrow> (unit mident \<times> mread) option" where
  "marshall_read_ident ml mr heap = do {
     mr \<leftarrow> marshall_read_1 mr heap ''_KC3IDENT_'';
     (module, mr) \<leftarrow> marshall_read_psym ml mr heap;
     (sym, mr) \<leftarrow> marshall_read_psym ml mr heap;
     Some (MIdent_of module sym, mr) }"

definition marshall_read_ptr :: "mread \<Rightarrow> bool \<Rightarrow> (u64 \<times> mread) option" where
  "marshall_read_ptr mr heap = do {
     mr \<leftarrow> marshall_read_1 mr heap ''_KC3PTR_'';
     (p, mr) \<leftarrow> marshall_read_uw mr heap;
     if p \<noteq> 0 then None else Some (p, mr) }"

definition marshall_read_ptr_free :: "mread \<Rightarrow> bool \<Rightarrow> (u64 \<times> mread) option" where
  "marshall_read_ptr_free mr heap = do {
     mr \<leftarrow> marshall_read_1 mr heap ''_KC3PTRFREE_'';
     (p, mr) \<leftarrow> marshall_read_uw mr heap;
     if p \<noteq> 0 then None else Some (p, mr) }"

text \<open>The callable of a call, as far as it is NULL.\<close>

definition marshall_read_pcallable_null :: "marshall_lib \<Rightarrow> mread \<Rightarrow> bool \<Rightarrow> mread option" where
  "marshall_read_pcallable_null ml mr heap = do {
     mr \<leftarrow> marshall_read_1 mr heap ''_KC3PCALLABLE_'';
     ((offset, _), mr) \<leftarrow> marshall_read_heap_pointer ml mr heap (c_str ''Callable'');
     if offset = 0 then Some mr else None }"

section \<open>Values\<close>

text \<open>Each function takes the function that reads a tag.\<close>

type_synonym tag_reader = "mread \<Rightarrow> bool \<Rightarrow> (unit mtag \<times> mread) option"

fun marshall_read_tags :: "tag_reader \<Rightarrow> mread \<Rightarrow> bool \<Rightarrow> nat \<Rightarrow> (unit mtag list \<times> mread) option" where
  "marshall_read_tags rd mr heap 0 = Some ([], mr)"
| "marshall_read_tags rd mr heap (Suc n) = do {
     (t, mr) \<leftarrow> rd mr heap;
     (ts, mr) \<leftarrow> marshall_read_tags rd mr heap n;
     Some (t # ts, mr) }"

fun marshall_read_pairs :: "tag_reader \<Rightarrow> mread \<Rightarrow> bool \<Rightarrow> nat \<Rightarrow> ((unit mtag \<times> unit mtag) list \<times> mread) option" where
  "marshall_read_pairs rd mr heap 0 = Some ([], mr)"
| "marshall_read_pairs rd mr heap (Suc n) = do {
     (k, mr) \<leftarrow> rd mr heap;
     (v, mr) \<leftarrow> rd mr heap;
     (kvs, mr) \<leftarrow> marshall_read_pairs rd mr heap n;
     Some ((k, v) # kvs, mr) }"

definition marshall_read_do_block :: "tag_reader \<Rightarrow> mread \<Rightarrow> bool \<Rightarrow> ((unit mtag list \<times> bool) \<times> mread) option" where
  "marshall_read_do_block rd mr heap = do {
     (count, mr) \<leftarrow> marshall_read_uw mr heap;
     (short_form, mr) \<leftarrow> marshall_read_bool mr heap;
     (ts, mr) \<leftarrow> marshall_read_tags rd mr heap (unat count);
     Some ((ts, short_form), mr) }"

definition marshall_read_list :: "tag_reader \<Rightarrow> mread \<Rightarrow> bool \<Rightarrow> ((unit mtag \<times> unit mtag) \<times> mread) option" where
  "marshall_read_list rd mr heap = do {
     mr \<leftarrow> marshall_read_1 mr heap ''_KC3LIST_'';
     (t, mr) \<leftarrow> rd mr heap;
     (n, mr) \<leftarrow> rd mr heap;
     Some ((t, n), mr) }"

definition marshall_read_plist :: "marshall_lib \<Rightarrow> tag_reader \<Rightarrow> mread \<Rightarrow> bool \<Rightarrow>
    ((unit, unit mtag \<times> unit mtag) ptr \<times> mread) option" where
  "marshall_read_plist ml rd mr heap = marshall_read_p ml ''_KC3PLIST_'' (c_str ''List'')
    (\<lambda>mr. marshall_read_list rd mr True) OList (\<lambda>ob. case ob of OList l \<Rightarrow> Some l | _ \<Rightarrow> None) mr heap"

definition marshall_read_ptag :: "marshall_lib \<Rightarrow> tag_reader \<Rightarrow> mread \<Rightarrow> bool \<Rightarrow>
    ((unit, unit mtag) ptr \<times> mread) option" where
  "marshall_read_ptag ml rd mr heap = marshall_read_p ml ''_KC3PTAG_'' (c_str ''Tag'')
    (\<lambda>mr. rd mr True) OTag (\<lambda>ob. case ob of OTag t \<Rightarrow> Some t | _ \<Rightarrow> None) mr heap"

definition marshall_read_fact :: "marshall_lib \<Rightarrow> tag_reader \<Rightarrow> mread \<Rightarrow> bool \<Rightarrow> (unit mtag \<times> mread) option" where
  "marshall_read_fact ml rd mr heap = do {
     mr \<leftarrow> marshall_read_1 mr heap ''_KC3FACT_'';
     (subject, mr) \<leftarrow> marshall_read_ptag ml rd mr heap;
     (predicate, mr) \<leftarrow> marshall_read_ptag ml rd mr heap;
     (object, mr) \<leftarrow> marshall_read_ptag ml rd mr heap;
     (fid, mr) \<leftarrow> marshall_read_uw mr heap;
     Some (MFact subject predicate object fid, mr) }"

definition marshall_read_map :: "tag_reader \<Rightarrow> mread \<Rightarrow> bool \<Rightarrow> ((unit mtag \<times> unit mtag) list \<times> mread) option" where
  "marshall_read_map rd mr heap = do {
     mr \<leftarrow> marshall_read_1 mr heap ''_KC3MAP_'';
     (count, mr) \<leftarrow> marshall_read_uw mr heap;
     marshall_read_pairs rd mr heap (unat count) }"

definition marshall_read_call :: "marshall_lib \<Rightarrow> tag_reader \<Rightarrow> mread \<Rightarrow> bool \<Rightarrow>
    ((unit mident \<times> unit mtag list) \<times> mread) option" where
  "marshall_read_call ml rd mr heap = do {
     (ident, mr) \<leftarrow> marshall_read_ident ml mr heap;
     (len, mr) \<leftarrow> marshall_read_uw mr heap;
     (args, mr) \<leftarrow> marshall_read_tags rd mr heap (unat len);
     mr \<leftarrow> marshall_read_pcallable_null ml mr heap;
     Some ((ident, args), mr) }"

definition marshall_read_pcall :: "marshall_lib \<Rightarrow> tag_reader \<Rightarrow> mread \<Rightarrow> bool \<Rightarrow>
    ((unit, unit mident \<times> unit mtag list) ptr \<times> mread) option" where
  "marshall_read_pcall ml rd mr heap = marshall_read_p ml ''_KC3PCALL_'' (c_str ''Call'')
    (\<lambda>mr. marshall_read_call ml rd mr True) OCall (\<lambda>ob. case ob of OCall c \<Rightarrow> Some c | _ \<Rightarrow> None) mr heap"

definition marshall_read_quote :: "tag_reader \<Rightarrow> mread \<Rightarrow> bool \<Rightarrow> (unit mtag \<times> mread) option" where
  "marshall_read_quote rd mr heap = do { mr \<leftarrow> marshall_read_1 mr heap ''_KC3QUOTE_''; rd mr heap }"

definition marshall_read_unquote :: "tag_reader \<Rightarrow> mread \<Rightarrow> bool \<Rightarrow> (unit mtag \<times> mread) option" where
  "marshall_read_unquote rd mr heap = rd mr heap"

definition marshall_read_time :: "tag_reader \<Rightarrow> mread \<Rightarrow> bool \<Rightarrow> (unit mtag \<times> mread) option" where
  "marshall_read_time rd mr heap = do {
     (has_tags, mr) \<leftarrow> marshall_read_bool mr heap;
     if has_tags then do {
       (t, mr) \<leftarrow> rd mr heap;
       (u, mr) \<leftarrow> rd mr heap;
       Some (MTime 0 0 (Some (t, u)), mr) }
     else do {
       (sec, mr) \<leftarrow> marshall_read_sw mr heap;
       (nsec, mr) \<leftarrow> marshall_read_sw mr heap;
       Some (MTime sec nsec None, mr) } }"

text \<open>\<open>tuple_init\<close> refuses fewer than two elements.\<close>

definition marshall_read_tuple :: "tag_reader \<Rightarrow> mread \<Rightarrow> bool \<Rightarrow> (unit mtag list \<times> mread) option" where
  "marshall_read_tuple rd mr heap = do {
     (count, mr) \<leftarrow> marshall_read_uw mr heap;
     if unat count < 2 then None else marshall_read_tags rd mr heap (unat count) }"

text \<open>Without the magic string, a tuple is read in its place.\<close>

definition marshall_read_ptuple :: "marshall_lib \<Rightarrow> tag_reader \<Rightarrow> mread \<Rightarrow> bool \<Rightarrow>
    ((unit, unit mtag list) ptr \<times> mread) option" where
  "marshall_read_ptuple ml rd mr heap = (case buf_read_1 (mr_target mr heap) ''_KC3PTUPLE_'' of (r, b) \<Rightarrow>
    if 0 < r then
      marshall_read_pointer_body ml (c_str ''Tuple'') (\<lambda>mr. marshall_read_tuple rd mr True) OTuple
        (\<lambda>ob. case ob of OTuple ts \<Rightarrow> Some ts | _ \<Rightarrow> None) (mr_set_target mr heap b) heap
    else do {
      (ts, mr) \<leftarrow> marshall_read_tuple rd (mr_set_target mr heap b) heap;
      Some (Addr () ts, mr) })"

definition marshall_read_tag_data :: "marshall_lib \<Rightarrow> tag_reader \<Rightarrow> u8 \<Rightarrow> mread \<Rightarrow> bool \<Rightarrow> (unit mtag \<times> mread) option" where
  "marshall_read_tag_data ml rd type mr heap =
    (if type = 0 then Some (MVoid, mr)
     else if type = 2 then do { ((ts, sf), mr) \<leftarrow> marshall_read_do_block rd mr heap; Some (MDoBlock ts sf, mr) }
     else if type = 3 then do { (x, mr) \<leftarrow> marshall_read_bool mr heap; Some (MBool x, mr) }
     else if type = 4 then do { (x, mr) \<leftarrow> marshall_read_character 0 mr heap; Some (MCharacter x, mr) }
     else if type = 9 then marshall_read_fact ml rd mr heap
     else if type = 42 then do { (x, mr) \<leftarrow> marshall_read_ident ml mr heap; Some (MIdent x, mr) }
     else if type = 10 then do { (x, mr) \<leftarrow> marshall_read_integer ml mr heap; Some (MInteger x, mr) }
     else if type = 23 then do { (x, mr) \<leftarrow> marshall_read_map rd mr heap; Some (MMap x, mr) }
     else if type = 24 then do { (x, mr) \<leftarrow> marshall_read_pcall ml rd mr heap; Some (MPcall x, mr) }
     else if type = 22 then do { (x, mr) \<leftarrow> marshall_read_plist ml rd mr heap; Some (MPlist x, mr) }
     else if type = 32 then do { (x, mr) \<leftarrow> marshall_read_psym ml mr heap; Some (MPsym x, mr) }
     else if type = 34 then do { (x, mr) \<leftarrow> marshall_read_ptr mr heap; Some (MPtr x, mr) }
     else if type = 35 then do { (x, mr) \<leftarrow> marshall_read_ptr_free mr heap; Some (MPtrFree x, mr) }
     else if type = 37 then do { (x, mr) \<leftarrow> marshall_read_quote rd mr heap; Some (MQuote x, mr) }
     else if type = 11 then do { ((n, d), mr) \<leftarrow> marshall_read_ratio ml mr heap; Some (MRatio n d, mr) }
     else if type = 38 then do { (x, mr) \<leftarrow> marshall_read_str mr heap; Some (MStr x, mr) }
     else if type = 16 then do { (x, mr) \<leftarrow> marshall_read_s8 mr heap; Some (MS8 x, mr) }
     else if type = 15 then do { (x, mr) \<leftarrow> marshall_read_s16 mr heap; Some (MS16 x, mr) }
     else if type = 14 then do { (x, mr) \<leftarrow> marshall_read_s32 mr heap; Some (MS32 x, mr) }
     else if type = 13 then do { (x, mr) \<leftarrow> marshall_read_s64 mr heap; Some (MS64 x, mr) }
     else if type = 12 then do { (x, mr) \<leftarrow> marshall_read_sw mr heap; Some (MSW x, mr) }
     else if type = 39 then marshall_read_time rd mr heap
     else if type = 40 then do { (x, mr) \<leftarrow> marshall_read_ptuple ml rd mr heap; Some (MPtuple x, mr) }
     else if type = 17 then do { (x, mr) \<leftarrow> marshall_read_u8 mr heap; Some (MU8 x, mr) }
     else if type = 18 then do { (x, mr) \<leftarrow> marshall_read_u16 mr heap; Some (MU16 x, mr) }
     else if type = 19 then do { (x, mr) \<leftarrow> marshall_read_u32 mr heap; Some (MU32 x, mr) }
     else if type = 20 then do { (x, mr) \<leftarrow> marshall_read_u64 mr heap; Some (MU64 x, mr) }
     else if type = 41 then do { (x, mr) \<leftarrow> marshall_read_unquote rd mr heap; Some (MUnquote x, mr) }
     else if type = 21 then do { (x, mr) \<leftarrow> marshall_read_uw mr heap; Some (MUW x, mr) }
     else None)"

fun marshall_read_tag :: "marshall_lib \<Rightarrow> nat \<Rightarrow> mread \<Rightarrow> bool \<Rightarrow> (unit mtag \<times> mread) option" where
  "marshall_read_tag ml 0 mr heap = None"
| "marshall_read_tag ml (Suc n) mr heap = do {
     mr \<leftarrow> marshall_read_1 mr heap ''_KC3TAG_'';
     (type, mr) \<leftarrow> marshall_read_u8 mr heap;
     marshall_read_tag_data ml (marshall_read_tag ml n) type mr heap }"

section \<open>The message\<close>

definition marshall_read_header_limit :: "mread \<Rightarrow> nat \<Rightarrow> nat \<Rightarrow> nat \<Rightarrow> mread option" where
  "marshall_read_header_limit mr heap_count_max heap_size_max buf_size_max =
    (case buf_read (mr_buf mr) marshall_header_size of
       (None, _) \<Rightarrow> None
     | (Some str, b) \<Rightarrow>
       let field = (\<lambda>i. le_word (take 8 (drop (8 * i) str)) :: u64);
           heap_offset = unat (field 1); heap_count = unat (field 2);
           heap_size = unat (field 3); buf_size = unat (field 4) in
       if length str \<noteq> marshall_header_size then None
       else if field 0 \<noteq> marshall_magic then None
       else if (2 ^ 64 - 1) div 8 < heap_count \<or> SW_MAX < heap_offset \<or>
         SW_MAX - marshall_header_size < heap_size \<or>
         SW_MAX - marshall_header_size - heap_size < buf_size \<or>
         SW_MAX - heap_size < heap_offset then None
       else if heap_size \<noteq> 0 \<and> heap_count = 0 \<or> heap_size < heap_count then None
       else if heap_count_max < heap_count \<or> heap_size_max < heap_size \<or> buf_size_max < buf_size then None
       else if heap_count \<noteq> 0 \<and> ht_init heap_count = (None :: read_entry ht option) then None
       else Some (mr\<lparr>mr_buf := b, mr_ht := (if heap_count \<noteq> 0 then ht_init heap_count else None),
         mr_heap_offset := heap_offset, mr_heap_count := heap_count, mr_heap_size := heap_size,
         mr_buf_size := buf_size, mr_ht_failed := False\<rparr>))"

definition marshall_read_header :: "mread \<Rightarrow> mread option" where
  "marshall_read_header mr = marshall_read_header_limit mr ((2 ^ 64 - 1) div 8) SW_MAX SW_MAX"

text \<open>The two parts of the message, each into a buffer of its own.\<close>

definition marshall_read_chunk :: "mread \<Rightarrow> mread option" where
  "marshall_read_chunk mr = do {
     let mr = mr\<lparr>mr_heap_start := - int marshall_header_size\<rparr>;
     mr \<leftarrow> (if mr_heap_size mr \<noteq> 0 then
         (case buf_xfer (mr_heap mr) (mr_buf mr) (mr_heap_size mr) of (r, heap, buf) \<Rightarrow>
           if r \<noteq> int (mr_heap_size mr) then None else Some (mr\<lparr>mr_heap := heap, mr_buf := buf\<rparr>))
       else Some mr);
     if mr_buf_size mr \<noteq> 0 then
       (case buf_xfer (buf_init_alloc (mr_buf_size mr)) (mr_buf mr) (mr_buf_size mr) of (r, buf, source) \<Rightarrow>
         if r \<noteq> int (mr_buf_size mr) then None else Some (mr\<lparr>mr_buf := buf, mr_source := Some source\<rparr>))
     else Some mr }"

definition marshall_read_chunk_reset :: "mread \<Rightarrow> mread" where
  "marshall_read_chunk_reset mr = (let mr = mr\<lparr>mr_heap_offset := mr_heap_offset mr + mr_heap_size mr,
      mr_heap_size := 0, mr_buf_size := 0, mr_heap := buf_empty (mr_heap mr)\<rparr>
    in case mr_source mr of None \<Rightarrow> mr | Some b \<Rightarrow> mr\<lparr>mr_buf := b, mr_source := None\<rparr>)"

definition marshall_read_size :: "mread \<Rightarrow> nat" where
  "marshall_read_size mr = marshall_header_size + mr_heap_size mr + mr_buf_size mr"

text \<open>
  A reader of a message in a string: both parts are read where they are, the heap from a copy of
  the buffer that ends where the heap ends.  (In C the copy shares the bytes, which no reader
  changes before it fails.)
\<close>

definition marshall_read_init_str :: "u8 list \<Rightarrow> mread option" where
  "marshall_read_init_str str = do {
     mr \<leftarrow> marshall_read_header \<lparr>mr_buf = buf_init_str_copy str, mr_source = None, mr_buf_size = 0,
       mr_heap = buf_init_alloc 0, mr_heap_count = 0, mr_heap_offset = 0, mr_heap_size = 0, mr_heap_start = 0,
       mr_ht = None, mr_ht_failed = False\<rparr>;
     let b = (mr_buf mr)\<lparr>buf_rpos := marshall_header_size + mr_heap_size mr\<rparr>;
     if buf_rpos b + mr_buf_size mr \<noteq> buf_wpos b then None
     else Some (mr\<lparr>mr_buf := b, mr_heap := b\<lparr>buf_rpos := marshall_header_size,
       buf_bytes := take (marshall_header_size + mr_heap_size mr) (buf_bytes b)\<rparr>\<rparr>) }"

end
