(* ===== verification/Marshall_Codec.thy ===== *)
theory Marshall_Codec
  imports Marshall_Read Compare_Order "HOL-Library.Sublist"
begin

text \<open>
  Writers and readers that belong together.

  \<open>codec\<close> relates a writer and a reader: whatever the writer appends to a message, the reader,
  at the same place of the finished message, reads the value and ends where the writer ended.  The
  two hash tables correspond: the writer's gives the offset of each object written so far, the
  reader's the object at that offset, or NULL for the objects that are being read.
\<close>

section \<open>The two tables\<close>

lemma compare_u64_strict: "strict_comparison compare_u64 (\<lambda>_. True)"
  by unfold_locales (auto simp: cmp_uint tri_cmp_int word_uint_eq_iff simp flip: cmp_int_anti)

lemma compare_s64_strict: "strict_comparison compare_s64 (\<lambda>_. True)"
  by unfold_locales (auto simp: cmp_sint tri_cmp_int signed_word_eqI simp flip: cmp_int_anti)

interpretation written: ht_keys compare_u64 fst "ml_hash_u64 ml" for ml
  by (intro ht_keys.intro compare_u64_strict)

interpretation read: ht_keys compare_s64 fst "ml_hash_s64 ml" for ml
  by (intro ht_keys.intro compare_s64_strict)

lemma written_functions:
  "marshall_ht_compare = (\<lambda>x y. compare_u64 (fst x) (fst y))"
  "marshall_ht_hash ml = (\<lambda>x. ml_hash_u64 ml (fst x))"
  by (auto simp: fun_eq_iff marshall_ht_compare_def marshall_ht_hash_def)

lemma read_functions:
  "read_entry_compare = (\<lambda>x y. compare_s64 (fst x) (fst y))"
  "read_entry_hash ml = (\<lambda>x. ml_hash_s64 ml (fst x))"
  by (auto simp: fun_eq_iff read_entry_compare_def read_entry_hash_def)

text \<open>The offset of an address, and what the reader has at an offset.\<close>

definition written_at :: "marshall_lib \<Rightarrow> (u64 \<times> u64) ht \<Rightarrow> u64 \<Rightarrow> u64 option" where
  "written_at ml ht a = map_option snd (ht_get marshall_ht_compare (marshall_ht_hash ml) ht (a, 0))"

definition read_at :: "marshall_lib \<Rightarrow> read_entry ht \<Rightarrow> s64 \<Rightarrow> (mobj option \<times> sym) option" where
  "read_at ml ht key = map_option snd (ht_get read_entry_compare (read_entry_hash ml) ht (key, None, []))"

section \<open>The states\<close>

text \<open>A marshaller in use; with \<open>k = 1\<close> an object of the heap is announced but not begun.\<close>

definition wf_marshall :: "nat \<Rightarrow> bool \<Rightarrow> marshall \<Rightarrow> bool" where
  "wf_marshall k heap m \<longleftrightarrow> written.ok_table (m_ht m) \<and>
    buf_ok (m_buf m) \<and> buf_ok (m_heap m) \<and> buf_base_column (m_buf m) = 0 \<and> buf_base_column (m_heap m) = 0 \<and>
    buf_rpos (m_buf m) = 0 \<and> buf_rpos (m_heap m) = 0 \<and> m_buf_pos m = buf_wpos (m_buf m) \<and> m_heap_pos m = buf_wpos (m_heap m) \<and>
    (0 < m_heap_pos m \<or> heap \<longrightarrow> 0 < m_heap_count m) \<and> m_heap_count m \<le> m_heap_pos m + k"

definition m_append :: "marshall \<Rightarrow> bool \<Rightarrow> u8 list \<Rightarrow> marshall" where
  "m_append m heap bs =
    (if heap then m\<lparr>m_heap := buf_append (m_heap m) bs, m_heap_pos := m_heap_pos m + length bs\<rparr>
     else m\<lparr>m_buf := buf_append (m_buf m) bs, m_buf_pos := m_buf_pos m + length bs\<rparr>)"

definition m_extends :: "marshall_lib \<Rightarrow> nat \<Rightarrow> bool \<Rightarrow> marshall \<Rightarrow> marshall \<Rightarrow> bool" where
  "m_extends ml k heap m m' \<longleftrightarrow> prefix (buf_bytes (m_buf m)) (buf_bytes (m_buf m')) \<and>
    prefix (buf_bytes (m_heap m)) (buf_bytes (m_heap m')) \<and>
    m_heap_pos m + k \<le> m_heap_pos m' \<and> m_heap_count m \<le> m_heap_count m' \<and>
    m_heap_offset m' = m_heap_offset m \<and> (heap \<longrightarrow> m_buf m' = m_buf m \<and> m_buf_pos m' = m_buf_pos m) \<and>
    (\<forall>a. written_at ml (m_ht m) a \<noteq> None \<longrightarrow> written_at ml (m_ht m') a = written_at ml (m_ht m) a)"

text \<open>The finished message, and what the buffers of the reader hold before its two parts.\<close>

record message =
  msg_buf_before :: "u8 list"
  msg_heap_before :: "u8 list"
  msg_buf :: "u8 list"
  msg_heap :: "u8 list"
  msg_count :: nat
  msg_offset :: nat

definition msg_limit :: "message \<Rightarrow> bool" where
  "msg_limit F \<longleftrightarrow> marshall_header_size + msg_offset F + length (msg_heap F) \<le> SW_MAX \<and>
    length (msg_heap_before F) \<le> marshall_header_size"

definition covers :: "message \<Rightarrow> marshall \<Rightarrow> bool" where
  "covers F m \<longleftrightarrow> prefix (buf_bytes (m_buf m)) (msg_buf F) \<and> prefix (buf_bytes (m_heap m)) (msg_heap F) \<and>
    m_heap_count m \<le> msg_count F \<and> m_heap_offset m = msg_offset F"

definition msg_key :: "message \<Rightarrow> nat \<Rightarrow> u64" where
  "msg_key F d = of_nat (marshall_header_size + msg_offset F + d)"

fun mobj_type :: "mobj \<Rightarrow> sym" where
  "mobj_type (OSym _) = c_str ''Sym''"
| "mobj_type (OList _) = c_str ''List''"
| "mobj_type (OTuple _) = c_str ''Tuple''"
| "mobj_type (OTag _) = c_str ''Tag''"
| "mobj_type (OCall _) = c_str ''Call''"

text \<open>
  \<open>W\<close> is the memory of the writer: the object at each address, without addresses.  \<open>S\<close> are the
  addresses of the objects in progress and \<open>D\<close> gives the place of each object in the heap.
\<close>

definition tables_agree ::
  "marshall_lib \<Rightarrow> (u64 \<Rightarrow> mobj) \<Rightarrow> u64 set \<Rightarrow> message \<Rightarrow> nat \<Rightarrow> (u64 \<times> u64) ht \<Rightarrow> read_entry ht option \<Rightarrow>
    (u64 \<Rightarrow> nat option) \<Rightarrow> bool" where
  "tables_agree ml W S F n wt rt D \<longleftrightarrow>
    (\<forall>a. written_at ml wt a = map_option (msg_key F) (D a)) \<and>
    (\<forall>a b d. D a = Some d \<longrightarrow> D b = Some d \<longrightarrow> a = b) \<and> (\<forall>a d. D a = Some d \<longrightarrow> d < n) \<and>
    (case rt of None \<Rightarrow> D = Map.empty
     | Some ht \<Rightarrow> read.ok_table ht \<and>
        (\<forall>a d. D a = Some d \<longrightarrow> read_at ml ht (msg_key F d) =
          Some (if a \<in> S then None else Some (W a), mobj_type (W a))) \<and>
        (\<forall>key. read_at ml ht key \<noteq> None \<longrightarrow> (\<exists>a d. D a = Some d \<and> key = msg_key F d)))"

definition located ::
  "marshall_lib \<Rightarrow> (u64 \<Rightarrow> mobj) \<Rightarrow> u64 set \<Rightarrow> nat \<Rightarrow> bool \<Rightarrow> message \<Rightarrow> marshall \<Rightarrow> mread \<Rightarrow> bool" where
  "located ml W S k heap F m mr \<longleftrightarrow>
    buf_bytes (mr_buf mr) = msg_buf_before F @ msg_buf F \<and>
    buf_bytes (mr_heap mr) = msg_heap_before F @ msg_heap F \<and>
    buf_ok (mr_buf mr) \<and> buf_ok (mr_heap mr) \<and>
    buf_rpos (mr_buf mr) = length (msg_buf_before F) + m_buf_pos m \<and>
    (heap \<longrightarrow> buf_rpos (mr_heap mr) = length (msg_heap_before F) + m_heap_pos m) \<and>
    mr_heap_offset mr = msg_offset F \<and> mr_heap_size mr = length (msg_heap F) \<and>
    mr_heap_start mr = int (length (msg_heap_before F)) - int marshall_header_size \<and> \<not> mr_ht_failed mr \<and>
    (0 < msg_count F \<longrightarrow> mr_ht mr \<noteq> None) \<and>
    (\<exists>D. tables_agree ml W S F (m_heap_pos m + k) (m_ht m) (mr_ht mr) D)"

section \<open>Writer and reader\<close>

definition codec ::
  "marshall_lib \<Rightarrow> (u64 \<Rightarrow> mobj) \<Rightarrow> u64 set \<Rightarrow> nat \<Rightarrow> bool \<Rightarrow> (marshall \<Rightarrow> marshall option) \<Rightarrow>
    (mread \<Rightarrow> ('a \<times> mread) option) \<Rightarrow> 'a \<Rightarrow> bool" where
  "codec ml W S k heap w r x \<longleftrightarrow> (\<forall>m m'. wf_marshall k heap m \<longrightarrow> w m = Some m' \<longrightarrow>
    wf_marshall 0 heap m' \<and> m_extends ml k heap m m' \<and>
    (\<forall>F mr. covers F m' \<longrightarrow> msg_limit F \<longrightarrow> located ml W S k heap F m mr \<longrightarrow>
      (\<exists>mr'. r mr = Some (x, mr') \<and> located ml W S 0 heap F m' mr')))"

abbreviation codec_unit ::
  "marshall_lib \<Rightarrow> (u64 \<Rightarrow> mobj) \<Rightarrow> u64 set \<Rightarrow> nat \<Rightarrow> bool \<Rightarrow> (marshall \<Rightarrow> marshall option) \<Rightarrow>
    (mread \<Rightarrow> mread option) \<Rightarrow> bool" where
  "codec_unit ml W S k heap w r \<equiv> codec ml W S k heap w (\<lambda>mr. map_option (Pair ()) (r mr)) ()"

lemma codecD:
  assumes "codec ml W S k heap w r x" "wf_marshall k heap m" "w m = Some m'"
  shows "wf_marshall 0 heap m'" "m_extends ml k heap m m'"
    and "covers F m' \<Longrightarrow> msg_limit F \<Longrightarrow> located ml W S k heap F m mr \<Longrightarrow>
      \<exists>mr'. r mr = Some (x, mr') \<and> located ml W S 0 heap F m' mr'"
  using assms unfolding codec_def by blast+

lemma m_extends_trans:
  "m_extends ml k heap m m' \<Longrightarrow> m_extends ml 0 heap m' m'' \<Longrightarrow> m_extends ml k heap m m''"
  unfolding m_extends_def by (auto intro: prefix_order.trans)

lemma covers_mono: "covers F m' \<Longrightarrow> m_extends ml k heap m m' \<Longrightarrow> covers F m"
  unfolding m_extends_def covers_def by (auto intro: prefix_order.trans)

lemma codec_return: "codec ml W S 0 heap Some (\<lambda>mr. Some (x, mr)) x"
  unfolding codec_def m_extends_def by auto

lemma codec_map:
  "codec ml W S k heap w r x \<Longrightarrow> codec ml W S k heap w (\<lambda>mr. Option.bind (r mr) (\<lambda>(y, mr). Some (f y, mr))) (f x)"
  unfolding codec_def by fastforce

lemma codec_bind:
  assumes "codec ml W S k heap w r x" "codec ml W S 0 heap w' (r' x) y"
  shows "codec ml W S k heap (\<lambda>m. Option.bind (w m) w')
    (\<lambda>mr. Option.bind (r mr) (\<lambda>(z, mr). r' z mr)) y"
  unfolding codec_def
proof (intro allI impI conjI)
  fix m m'' assume wf: "wf_marshall k heap m" and "Option.bind (w m) w' = Some m''"
  then obtain m' where m': "w m = Some m'" "w' m' = Some m''" by (auto simp: bind_eq_Some_conv)
  note 1 = codecD [OF assms(1) wf m'(1)]
  note 2 = codecD [OF assms(2) 1(1) m'(2)]
  show "wf_marshall 0 heap m''" by (rule 2(1))
  show "m_extends ml k heap m m''" using 1(2) 2(2) by (rule m_extends_trans)
  fix F mr assume "covers F m''" "msg_limit F" "located ml W S k heap F m mr"
  moreover have "covers F m'" using \<open>covers F m''\<close> 2(2) by (rule covers_mono)
  ultimately show "\<exists>mr'. Option.bind (r mr) (\<lambda>(z, mr). r' z mr) = Some (y, mr') \<and>
      located ml W S 0 heap F m'' mr'"
    using 1(3) 2(3) by fastforce
qed

lemma codec_seq:
  assumes "codec_unit ml W S k heap w r" "codec ml W S 0 heap w' r' y"
  shows "codec ml W S k heap (\<lambda>m. Option.bind (w m) w') (\<lambda>mr. Option.bind (r mr) r') y"
proof -
  have "codec ml W S k heap (\<lambda>m. Option.bind (w m) w')
      (\<lambda>mr. Option.bind (map_option (Pair ()) (r mr)) (\<lambda>(z :: unit, mr). r' mr)) y"
    by (rule codec_bind [OF assms(1), of w' "\<lambda>_. r'"]) (rule assms(2))
  moreover have "Option.bind (map_option (Pair ()) (r mr)) (\<lambda>(z :: unit, mr). r' mr) = Option.bind (r mr) r'" for mr
    by (cases "r mr") auto
  ultimately show ?thesis by simp
qed

section \<open>Bytes\<close>

text \<open>A function that writes, and one that reads, a sequence of bytes.\<close>

definition writes :: "(buf \<Rightarrow> int \<times> buf) \<Rightarrow> u8 list \<Rightarrow> bool" where
  "writes f bs \<longleftrightarrow> bs \<noteq> [] \<and> (\<forall>b r b'. buf_ok b \<longrightarrow> buf_base_column b = 0 \<longrightarrow> f b = (r, b') \<longrightarrow> 0 < r \<longrightarrow>
    r = int (length bs) \<and> b' = buf_append b bs \<and> buf_wpos b + length bs \<le> buf_size b)"

definition reads :: "(buf \<Rightarrow> 'a got \<times> buf) \<Rightarrow> u8 list \<Rightarrow> 'a \<Rightarrow> bool" where
  "reads g bs x \<longleftrightarrow> (\<forall>b. buf_next b bs \<longrightarrow> g b = (Got x (length bs), buf_forward b (length bs)))"

lemma put_writes:
  assumes "writes f bs" "wf_marshall k heap m" "marshall_put m heap (f (m_target m heap)) = Some m'"
  shows "m' = m_append m heap bs" "bs \<noteq> []" "buf_wpos (m_target m heap) + length bs \<le> buf_size (m_target m heap)"
proof -
  obtain r b where rb: "f (m_target m heap) = (r, b)" by fastforce
  then have pos: "0 < r" using assms(3) by (auto simp: marshall_put_def split: if_splits)
  have ok: "buf_ok (m_target m heap)" "buf_base_column (m_target m heap) = 0"
    using assms(2) by (auto simp: wf_marshall_def m_target_def)
  show "m' = m_append m heap bs" "bs \<noteq> []" "buf_wpos (m_target m heap) + length bs \<le> buf_size (m_target m heap)"
    using assms(1,3) rb pos ok unfolding writes_def
    by (auto simp: marshall_put_def m_append_def m_target_def split: if_splits)
qed

lemma append_wf:
  assumes "wf_marshall k heap m" "bs \<noteq> []" "k = 0 \<or> k = 1 \<and> heap"
    and "buf_wpos (m_target m heap) + length bs \<le> buf_size (m_target m heap)"
  shows "wf_marshall 0 heap (m_append m heap bs)" "m_extends ml k heap m (m_append m heap bs)"
proof -
  obtain y ys where "bs = y # ys" using assms(2) by (cases bs) auto
  then show "wf_marshall 0 heap (m_append m heap bs)" "m_extends ml k heap m (m_append m heap bs)"
    using assms(1,3,4) unfolding wf_marshall_def m_extends_def
    by (auto simp: m_append_def buf_ok_def buf_wpos_def m_target_def)
qed

definition mr_forward :: "mread \<Rightarrow> bool \<Rightarrow> nat \<Rightarrow> mread" where
  "mr_forward mr heap n = mr_set_target mr heap (buf_forward (mr_target mr heap) n)"

lemma prefix_next:
  assumes "prefix (xs @ bs) ys" "buf_bytes b = zs @ ys" "buf_rpos b = length zs + length xs" "buf_ok b"
  shows "buf_next b bs"
  using assms by (auto simp: buf_next_def prefix_def)

lemma tables_agree_mono: "tables_agree ml W S F n wt rt D \<Longrightarrow> n \<le> n' \<Longrightarrow> tables_agree ml W S F n' wt rt D"
  unfolding tables_agree_def by (elim conjE, intro conjI) (assumption | fastforce)+

lemma append_located:
  assumes "located ml W S k heap F m mr" "wf_marshall k heap m" "bs \<noteq> []" "k = 0 \<or> k = 1 \<and> heap"
    and "covers F (m_append m heap bs)"
  shows "buf_next (mr_target mr heap) bs"
    and "located ml W S 0 heap F (m_append m heap bs) (mr_forward mr heap (length bs))"
proof -
  show *: "buf_next (mr_target mr heap) bs"
    using assms(1,2,5) unfolding located_def wf_marshall_def covers_def m_append_def mr_target_def
    by (auto intro!: prefix_next simp: buf_wpos_def split: if_splits)
  have "m_heap_pos m + k \<le> m_heap_pos (m_append m heap bs) + 0"
    using assms(3,4) by (cases bs) (auto simp: m_append_def)
  moreover have "m_ht (m_append m heap bs) = m_ht m" by (simp add: m_append_def)
  ultimately have "\<exists>D. tables_agree ml W S F (m_heap_pos (m_append m heap bs) + 0) (m_ht (m_append m heap bs)) (mr_ht mr) D"
    using assms(1) unfolding located_def by (auto intro: tables_agree_mono)
  then show "located ml W S 0 heap F (m_append m heap bs) (mr_forward mr heap (length bs))"
    using assms(1) buf_next_room [OF *] unfolding located_def
    by (auto simp: m_append_def mr_forward_def mr_set_target_def mr_target_def buf_ok_def buf_wpos_def split: if_splits)
qed

lemma codec_bytes:
  assumes "writes f bs" "k = 0 \<or> k = 1 \<and> heap"
    and "\<And>mr. buf_next (mr_target mr heap) bs \<Longrightarrow> r mr = Some (x, mr_forward mr heap (length bs))"
  shows "codec ml W S k heap (\<lambda>m. marshall_put m heap (f (m_target m heap))) r x"
  unfolding codec_def
proof (intro allI impI conjI)
  fix m m' assume wf: "wf_marshall k heap m" and put: "marshall_put m heap (f (m_target m heap)) = Some m'"
  note put = put_writes [OF assms(1) wf put]
  show "wf_marshall 0 heap m'" "m_extends ml k heap m m'"
    unfolding put(1) by (rule append_wf [OF wf put(2) assms(2) put(3)])+
  fix F mr assume "covers F m'" "msg_limit F" "located ml W S k heap F m mr"
  then show "\<exists>mr'. r mr = Some (x, mr') \<and> located ml W S 0 heap F m' mr'"
    unfolding put(1) using append_located [OF _ wf put(2) assms(2)] assms(3) by blast
qed

lemma codec_get:
  "writes f bs \<Longrightarrow> reads g bs x \<Longrightarrow> k = 0 \<or> k = 1 \<and> heap \<Longrightarrow>
    codec ml W S k heap (\<lambda>m. marshall_put m heap (f (m_target m heap))) (\<lambda>mr. marshall_get mr heap g) x"
  by (rule codec_bytes) (auto simp: reads_def marshall_get_def mr_forward_def writes_def)

section \<open>Magic strings and machine types\<close>

lemma ascii_magic [simp]:
  "ascii ''_KC3BOOL_''" "ascii ''_KC3S8_''" "ascii ''_KC3S16_''" "ascii ''_KC3S32_''" "ascii ''_KC3S64_''"
  "ascii ''_KC3U8_''" "ascii ''_KC3U16_''" "ascii ''_KC3U32_''" "ascii ''_KC3U64_''" "ascii ''_KC3UW_''"
  "ascii ''_KC3SW_''" "ascii ''_KC3STR_''" "ascii ''_KC3SYM_''" "ascii ''_KC3INTEGER_''" "ascii ''_KC3RATIO_''"
  "ascii ''_KC3PSYM_''" "ascii ''_KC3IDENT_''" "ascii ''_KC3PTR_''" "ascii ''_KC3PTRFREE_''"
  "ascii ''_KC3PCALLABLE_''" "ascii ''_KC3LIST_''" "ascii ''_KC3PLIST_''" "ascii ''_KC3PTAG_''"
  "ascii ''_KC3FACT_''" "ascii ''_KC3MAP_''" "ascii ''_KC3PCALL_''" "ascii ''_KC3QUOTE_''"
  "ascii ''_KC3PTUPLE_''" "ascii ''_KC3TAG_''"
  by (simp_all add: ascii_def)

lemma c_str_not_empty: "ascii p \<Longrightarrow> c_str p \<noteq> []"
  by (auto simp: ascii_def c_str_def)

lemma writes_1: "ascii p \<Longrightarrow> writes (\<lambda>b. buf_write_1 b p) (c_str p)"
  unfolding writes_def using buf_write_1_pos c_str_not_empty by fastforce

lemma writes_mem: "bs \<noteq> [] \<Longrightarrow> writes (\<lambda>b. buf_write_mem b bs) bs"
  by (auto simp: writes_def buf_write_mem_iff split: if_splits)

lemma reads_mem:
  assumes "length bs = n" "f bs = x"
  shows "reads (\<lambda>b. map_got f (buf_read_mem b n)) bs x"
  using assms by (auto simp: reads_def buf_read_mem_next)

lemma writes_types:
  "writes (\<lambda>b. buf_write_u8 b x1) (le_bytes 1 x1)" "writes (\<lambda>b. buf_write_u16 b x2) (le_bytes 2 x2)"
  "writes (\<lambda>b. buf_write_u32 b x4) (le_bytes 4 x4)" "writes (\<lambda>b. buf_write_u64 b x8) (le_bytes 8 x8)"
  "writes (\<lambda>b. buf_write_bool b y) [if y then 1 else 0]"
  unfolding buf_write_u8_def buf_write_u16_def buf_write_u32_def buf_write_u64_def buf_write_bool_def
  by (rule writes_mem; simp add: numeral_eq_Suc)+

lemma reads_types:
  "reads buf_read_u8 (le_bytes 1 x1) x1" "reads buf_read_u16 (le_bytes 2 x2) x2"
  "reads buf_read_u32 (le_bytes 4 x4) x4" "reads buf_read_u64 (le_bytes 8 x8) x8"
  "reads buf_read_bool [if y then 1 else 0] y"
  unfolding buf_read_u8_def buf_read_u16_def buf_read_u32_def buf_read_u64_def buf_read_bool_def
  by (rule reads_mem; simp add: le_word_bytes_full)+

lemma codec_1:
  assumes "ascii p" "k = 0 \<or> k = 1 \<and> heap"
  shows "codec_unit ml W S k heap (\<lambda>m. marshall_1 m heap p) (\<lambda>mr. marshall_read_1 mr heap p)"
proof -
  have ne: "p \<noteq> []" using assms(1) by (simp add: ascii_def)
  show ?thesis
    unfolding marshall_1_def marshall_read_1_def if_not_P [OF ne]
    using ne by (intro codec_bytes [OF writes_1 [OF assms(1)] assms(2)])
      (simp add: buf_read_1_next [OF assms(1)] mr_forward_def)
qed

lemma codec_value:
  assumes "ascii p" "writes f bs" "reads g bs x" "k = 0 \<or> k = 1 \<and> heap"
  shows "codec ml W S k heap (\<lambda>m. marshall_value m heap p f) (\<lambda>mr. marshall_read_value mr heap p g) x"
proof -
  have ne: "p \<noteq> []" using assms(1) by (simp add: ascii_def)
  have "codec ml W S k heap (\<lambda>m. Option.bind (marshall_1 m heap p) (\<lambda>m. marshall_put m heap (f (m_target m heap))))
      (\<lambda>mr. Option.bind (marshall_read_1 mr heap p) (\<lambda>mr. marshall_get mr heap g)) x"
    using assms by (intro codec_seq codec_1 codec_get) auto
  moreover have "marshall_value m heap p f =
      Option.bind (marshall_1 m heap p) (\<lambda>m. marshall_put m heap (f (m_target m heap)))" for m
    using ne by (simp add: marshall_value_def marshall_1_def)
  moreover have "marshall_read_value mr heap p g = Option.bind (marshall_read_1 mr heap p) (\<lambda>mr. marshall_get mr heap g)" for mr
    using ne by (simp add: marshall_read_value_def marshall_read_1_def split: prod.splits)
  ultimately show ?thesis by simp
qed

lemmas codec_types_defs =
  marshall_bool_def marshall_read_bool_def marshall_s8_def marshall_read_s8_def
  marshall_s16_def marshall_read_s16_def marshall_s32_def marshall_read_s32_def
  marshall_s64_def marshall_read_s64_def marshall_u8_def marshall_read_u8_def
  marshall_u16_def marshall_read_u16_def marshall_u32_def marshall_read_u32_def
  marshall_u64_def marshall_read_u64_def

lemma codec_types:
  assumes "k = 0 \<or> k = 1 \<and> heap"
  shows "codec ml W S k heap (\<lambda>m. marshall_bool m heap b) (\<lambda>mr. marshall_read_bool mr heap) b"
    and "codec ml W S k heap (\<lambda>m. marshall_s8 m heap x1) (\<lambda>mr. marshall_read_s8 mr heap) x1"
    and "codec ml W S k heap (\<lambda>m. marshall_s16 m heap x2) (\<lambda>mr. marshall_read_s16 mr heap) x2"
    and "codec ml W S k heap (\<lambda>m. marshall_s32 m heap x4) (\<lambda>mr. marshall_read_s32 mr heap) x4"
    and "codec ml W S k heap (\<lambda>m. marshall_s64 m heap x8) (\<lambda>mr. marshall_read_s64 mr heap) x8"
    and "codec ml W S k heap (\<lambda>m. marshall_u8 m heap x1) (\<lambda>mr. marshall_read_u8 mr heap) x1"
    and "codec ml W S k heap (\<lambda>m. marshall_u16 m heap x2) (\<lambda>mr. marshall_read_u16 mr heap) x2"
    and "codec ml W S k heap (\<lambda>m. marshall_u32 m heap x4) (\<lambda>mr. marshall_read_u32 mr heap) x4"
    and "codec ml W S k heap (\<lambda>m. marshall_u64 m heap x8) (\<lambda>mr. marshall_read_u64 mr heap) x8"
  unfolding codec_types_defs
  by (rule codec_value [OF _ writes_types(5) reads_types(5) assms] codec_value [OF _ writes_types(1) reads_types(1) assms]
      codec_value [OF _ writes_types(2) reads_types(2) assms] codec_value [OF _ writes_types(3) reads_types(3) assms]
      codec_value [OF _ writes_types(4) reads_types(4) assms]; simp)+

lemma codec_uw:
  "k = 0 \<or> k = 1 \<and> heap \<Longrightarrow> codec ml W S k heap (\<lambda>m. marshall_uw m heap x) (\<lambda>mr. marshall_read_uw mr heap) x"
  unfolding marshall_uw_def marshall_read_uw_def by (intro codec_seq codec_1 codec_types) auto

lemma codec_sw:
  "k = 0 \<or> k = 1 \<and> heap \<Longrightarrow> codec ml W S k heap (\<lambda>m. marshall_sw m heap x) (\<lambda>mr. marshall_read_sw mr heap) x"
  unfolding marshall_sw_def marshall_read_sw_def by (intro codec_seq codec_1 codec_types) auto

lemma codec_offset: "codec ml W S 0 heap (\<lambda>m. marshall_offset m heap x) (\<lambda>mr. marshall_read_offset mr heap) x"
  unfolding marshall_offset_def marshall_read_offset_def by (rule codec_get [OF writes_types(4) reads_types(4)]) simp

lemma codec_character:
  "codec ml W S 0 heap (\<lambda>m. marshall_character m heap c) (\<lambda>mr. marshall_read_character d mr heap) c"
proof (cases "character_utf8 c")
  case None
  then have "character_utf8_size c = - 1"
    by (auto simp: character_utf8_None character_utf8_size_def not_less [symmetric] intro: order_less_trans)
  then have "marshall_character m heap c = None" for m
    using None by (simp add: marshall_character_def marshall_put_def buf_write_character_utf8_def)
  then show ?thesis by (simp add: codec_def)
next
  case (Some bs)
  have "writes (\<lambda>b. buf_write_character_utf8 b c) bs"
    unfolding writes_def using Some buf_write_character_iff [OF Some] character_utf8_nonempty [of c]
      character_utf8_None [of c]
    by (auto split: if_splits)
  then show ?thesis
    unfolding marshall_character_def
    by (rule codec_bytes) (auto simp: marshall_read_character_def buf_read_character_next [OF Some] mr_forward_def)
qed

lemma codec_str:
  assumes "length s < 2 ^ 32" "k = 0 \<or> k = 1 \<and> heap"
  shows "codec ml W S k heap (\<lambda>m. marshall_str m heap s) (\<lambda>mr. marshall_read_str mr heap) s"
proof -
  have sz: "unat (of_nat (length s) :: u32) = length s"
    using assms(1) by (simp add: unat_of_nat take_bit_nat_eq_self)
  have "codec ml W S 0 heap (\<lambda>m. if s = [] then Some m else marshall_put m heap (buf_write (m_target m heap) s))
      (\<lambda>mr. case buf_read (mr_target mr heap) (length s) of (None, _) \<Rightarrow> None
        | (Some s, b) \<Rightarrow> Some (s, mr_set_target mr heap b)) s"
  proof (cases "s = []")
    case True
    have "mr_set_target mr heap (mr_target mr heap) = mr" for mr
      by (simp add: mr_set_target_def mr_target_def)
    then show ?thesis using True by (simp add: buf_read_def codec_return)
  next
    case False
    have "writes (\<lambda>b. buf_write b s) s"
      unfolding writes_def
    proof (intro conjI allI impI False)
      fix b b' r assume ok: "buf_ok b" and "buf_write b s = (r, b')" "0 < r"
      moreover from this have "buf_wpos b + length s \<le> buf_size b" using buf_write_iff [OF ok, of s] by simp
      ultimately show "r = int (length s)" "b' = buf_append b s" "buf_wpos b + length s \<le> buf_size b"
        using buf_write_fits [OF ok, of s] by simp_all
    qed
    then show ?thesis
      unfolding if_not_P [OF False]
      by (rule codec_bytes) (auto simp: buf_read_next mr_forward_def)
  qed
  then show ?thesis
    unfolding marshall_str_def marshall_read_str_def
    by (intro codec_seq [OF codec_1 [OF _ assms(2)]] codec_bind [OF codec_types(8)]) (simp_all add: sz)
qed

lemma codec_sym:
  assumes "length s < 2 ^ 32" "k = 0 \<or> k = 1 \<and> heap"
  shows "codec ml W S k heap (\<lambda>m. marshall_sym m heap s) (\<lambda>mr. marshall_read_sym mr heap) s"
  unfolding marshall_sym_def marshall_read_sym_def using assms by (intro codec_seq codec_1 codec_str) auto

section \<open>Integers\<close>

lemma codec_digits:
  assumes "marshall_lib_ok ml" "ml_pack_count ml i = c" "c \<noteq> 0"
  shows "codec ml W S 0 heap (\<lambda>m. marshall_digits ml m heap i c)
    (\<lambda>mr. marshall_read_digits ml mr heap negative c) (if negative then - \<bar>i\<bar> else \<bar>i\<bar>)"
proof (cases "ml_pack ml i c")
  case None
  then show ?thesis by (simp add: codec_def marshall_digits_def Let_def)
next
  case (Some p)
  then obtain bytes w where p: "ml_pack ml i c = Some (bytes, w)" by (cases p) auto
  then have w: "w = c" "length bytes = c * 4" "ml_unpack ml c bytes = Some \<bar>i\<bar>"
    using assms(1,2) by (auto simp: marshall_lib_ok_def)
  have neg: "ml_neg ml j = Some (- j)" for j using assms(1) by (simp add: marshall_lib_ok_def)
  define f where "f = (\<lambda>b. if buf_size b < buf_wpos b + c * 4 then (- 1, b) else (int (c * 4), buf_append b bytes))"
  have writes: "writes f bytes"
    using w(2) assms(3) by (auto simp: writes_def f_def split: if_splits)
  have "marshall_digits ml m heap i c = marshall_put m heap (f (m_target m heap))" for m
    using w(1) by (simp add: marshall_digits_def f_def p Let_def marshall_put_def)
  moreover have "codec ml W S 0 heap (\<lambda>m. marshall_put m heap (f (m_target m heap)))
      (\<lambda>mr. marshall_read_digits ml mr heap negative c) (if negative then - \<bar>i\<bar> else \<bar>i\<bar>)"
  proof (rule codec_bytes [OF writes])
    fix mr assume next_bytes: "buf_next (mr_target mr heap) bytes"
    then have "take (c * 4) (drop (buf_rpos (mr_target mr heap)) (buf_bytes (mr_target mr heap))) = bytes"
      using w(2) by (simp add: buf_next_def)
    moreover have "buf_rpos (mr_target mr heap) + c * 4 \<le> buf_wpos (mr_target mr heap)"
      using buf_next_room [OF next_bytes] w(2) by simp
    then have "\<not> buf_wpos (mr_target mr heap) - buf_rpos (mr_target mr heap) < c * 4"
      "\<not> buf_wpos (mr_target mr heap) < buf_rpos (mr_target mr heap)" by linarith+
    ultimately show "marshall_read_digits ml mr heap negative c =
        Some (if negative then - \<bar>i\<bar> else \<bar>i\<bar>, mr_forward mr heap (length bytes))"
      using w by (simp add: marshall_read_digits_def Let_def neg mr_forward_def)
  qed simp
  ultimately show ?thesis by simp
qed

lemma mr_target_ok: "located ml W S k heap F m mr \<Longrightarrow> \<not> buf_wpos (mr_target mr h) < buf_rpos (mr_target mr h)"
  by (auto simp: located_def mr_target_def buf_ok_def)

lemma codec_integer:
  assumes "marshall_lib_ok ml"
  shows "codec ml W S 0 heap (\<lambda>m. marshall_integer ml m heap i) (\<lambda>mr. marshall_read_integer ml mr heap) i"
proof -
  define c where "c = ml_pack_count ml i"
  have zero: "c = 0 \<longleftrightarrow> i = 0" using assms by (simp add: c_def marshall_lib_ok_def)
  have rest: "codec ml W S 0 heap (\<lambda>m. if c = 0 then Some m else marshall_digits ml m heap i c)
    (\<lambda>mr. if SW_MAX div 4 < unat (of_nat c :: u32) then None
       else if buf_wpos (mr_target mr heap) < buf_rpos (mr_target mr heap) then None
       else if unat (of_nat c :: u32) = 0 then Some (0, mr)
       else marshall_read_digits ml mr heap ((if i < 0 then 1 else 0 :: u8) \<noteq> 0) (unat (of_nat c :: u32))) i"
    (is "codec _ _ _ _ _ ?w ?r _") if "\<not> 2 ^ 32 - 1 < c"
  proof -
    have c: "unat (of_nat c :: u32) = c" using that by (simp add: unat_of_nat take_bit_nat_eq_self)
    have "\<not> SW_MAX div 4 < c" using that by (simp add: SW_MAX_def)
    moreover have "codec ml W S 0 heap ?w
      (\<lambda>mr. if c = 0 then Some (0, mr) else marshall_read_digits ml mr heap (i < 0) c) i"
    proof (cases "c = 0")
      case True
      then show ?thesis using codec_return zero by simp
    next
      case False
      have "(if i < 0 then - \<bar>i\<bar> else \<bar>i\<bar>) = i" by simp
      then show ?thesis
        using codec_digits [OF assms c_def [symmetric] False, of W S heap "i < 0"] False by simp
    qed
    ultimately show ?thesis
      unfolding codec_def c using mr_target_ok by (auto split: if_splits) 
  qed
  show ?thesis
  proof (cases "2 ^ 32 - 1 < c")
    case True
    then have "marshall_integer ml m heap i = None" for m
      by (auto simp: marshall_integer_def c_def [symmetric] Let_def bind_eq_None_conv)
    then show ?thesis by (simp add: codec_def)
  next
    case False
    have "codec ml W S 0 heap
      (\<lambda>m. do { m \<leftarrow> marshall_1 m heap ''_KC3INTEGER_'';
        m \<leftarrow> marshall_put m heap (buf_write_u8 (m_target m heap) (if i < 0 then 1 else 0));
        m \<leftarrow> marshall_put m heap (buf_write_u32 (m_target m heap) (of_nat c));
        if c = 0 then Some m else marshall_digits ml m heap i c })
      (\<lambda>mr. marshall_read_integer ml mr heap) i"
      unfolding marshall_read_integer_def
      by (rule codec_seq [OF codec_1] codec_bind [OF codec_get] writes_types reads_types rest [OF False] | simp)+
    then show ?thesis using False by (simp add: marshall_integer_def c_def [symmetric] Let_def)
  qed
qed

lemma codec_ratio:
  assumes "marshall_lib_ok ml"
  shows "codec ml W S 0 heap (\<lambda>m. marshall_ratio ml m heap n d) (\<lambda>mr. marshall_read_ratio ml mr heap) (n, d)"
  unfolding marshall_ratio_def marshall_read_ratio_def
  by (intro codec_seq [OF codec_1] codec_bind [OF codec_integer] codec_map codec_integer assms) simp_all

section \<open>Pointers\<close>

lemma ht_search_found: "ht_search cmp xs y = Some x \<Longrightarrow> cmp x y = 0"
  by (induction xs) (auto simp: Let_def split: if_splits)

lemma written_at_add:
  "written.ok_table ht \<Longrightarrow> written_at ml (ht_add marshall_ht_compare (marshall_ht_hash ml) ht (a, off)) b =
    (if a = b then Some off else written_at ml ht b)"
  unfolding written_at_def written_functions by (simp add: written.get_add)

lemma written_ok_add:
  "written.ok_table ht \<Longrightarrow> written.ok_table (ht_add marshall_ht_compare (marshall_ht_hash ml) ht e)"
  unfolding written_functions by (rule written.add_ok)

lemma read_at_add:
  "read.ok_table ht \<Longrightarrow> read_at ml (ht_add read_entry_compare (read_entry_hash ml) ht (key, e)) key' =
    (if key = key' then Some e else read_at ml ht key')"
  unfolding read_at_def read_functions by (simp add: read.get_add)

lemma read_ok_add:
  "read.ok_table ht \<Longrightarrow> read.ok_table (ht_add read_entry_compare (read_entry_hash ml) ht e)"
  unfolding read_functions by (rule read.add_ok)

lemma read_at_get:
  "ht_get read_entry_compare (read_entry_hash ml) ht (key, e) = map_option (Pair key) (read_at ml ht key)"
proof -
  have *: "ht_get read_entry_compare (read_entry_hash ml) ht (key, e) =
      ht_get read_entry_compare (read_entry_hash ml) ht (key, None, [])"
    unfolding read_functions by (rule read.get_key) simp
  show ?thesis
  proof (cases "ht_get read_entry_compare (read_entry_hash ml) ht (key, None, [])")
    case None
    then show ?thesis using * by (simp add: read_at_def)
  next
    case (Some x)
    then have "read_entry_compare x (key, None, []) = 0"
      unfolding ht_get_def ht_get_hash_def by (rule ht_search_found)
    then have "fst x = key" by (simp add: read_entry_compare_def compare_s64_strict [THEN strict_comparison.zero_iff])
    then show ?thesis using * Some by (cases x) (simp add: read_at_def)
  qed
qed

lemma read_at_assign:
  assumes "read.ok_table ht" "read_at ml ht key \<noteq> None"
  shows "read.ok_table (ht_assign read_entry_compare (read_entry_hash ml) ht (key, e) (key, e'))"
    and "read_at ml (ht_assign read_entry_compare (read_entry_hash ml) ht (key, e) (key, e')) key' =
      (if key = key' then Some e' else read_at ml ht key')"
proof -
  have "ht_get read_entry_compare (read_entry_hash ml) ht (key, e) \<noteq> None"
    using assms(2) read_at_get [of ml ht key e] by simp
  then show "read.ok_table (ht_assign read_entry_compare (read_entry_hash ml) ht (key, e) (key, e'))"
    "read_at ml (ht_assign read_entry_compare (read_entry_hash ml) ht (key, e) (key, e')) key' =
      (if key = key' then Some e' else read_at ml ht key')"
    using read.assign_ok [OF assms(1), of "(key, e')" "(key, e)"] read.get_assign [OF assms(1), of "(key, e')" "(key, e)" ml]
    unfolding read_at_def read_functions by simp_all
qed

text \<open>Offsets stay within the words.\<close>

lemma unat_u64: "n < 2 ^ 64 \<Longrightarrow> unat (of_nat n :: u64) = n"
  by (simp add: unat_of_nat take_bit_nat_eq_self)

lemma msg_key_inj:
  assumes "msg_limit F" "d \<le> length (msg_heap F)" "d' \<le> length (msg_heap F)" "msg_key F d = msg_key F d'"
  shows "d = d'"
proof -
  have "unat (msg_key F e) = marshall_header_size + msg_offset F + e" if "e \<le> length (msg_heap F)" for e
    using assms(1) that unfolding msg_key_def msg_limit_def SW_MAX_def
    by (intro unat_u64) simp
  then show ?thesis using assms by (metis add_left_cancel)
qed

lemma offset_word:
  assumes "msg_limit F" "d \<le> length (msg_heap F)" "msg_offset F = o'"
  shows "msg_key F d - of_nat o' = of_nat (marshall_header_size + d)"
    and "unat (of_nat (marshall_header_size + d) :: u64) = marshall_header_size + d"
    and "sint (of_nat (marshall_header_size + d) :: u64) = int (marshall_header_size + d)"
proof -
  have less: "marshall_header_size + d < 2 ^ 63"
    using assms(1,2) by (simp add: msg_limit_def SW_MAX_def)
  show "msg_key F d - of_nat o' = of_nat (marshall_header_size + d)"
    by (simp add: msg_key_def assms(3))
  show "unat (of_nat (marshall_header_size + d) :: u64) = marshall_header_size + d"
    using less by (intro unat_u64) simp
  have "sint (word_of_int (int (marshall_header_size + d)) :: u64) = int (marshall_header_size + d)"
    using less by (intro sint_of_int_in_range) simp_all
  then show "sint (of_nat (marshall_header_size + d) :: u64) = int (marshall_header_size + d)"
    by simp
qed

lemma read_key:
  assumes "msg_limit F" "d < length (msg_heap F)" "type \<noteq> []" "\<not> sym_is_pointer_type type"
    and "mr_ht mr \<noteq> None" "mr_heap_offset mr = msg_offset F" "mr_heap_size mr = length (msg_heap F)"
    and "mr_heap_start mr = int (length (msg_heap_before F)) - int marshall_header_size" "\<not> mr_ht_failed mr"
  shows "marshall_read_ht_key mr (of_nat (marshall_header_size + d)) type = Some (msg_key F d)"
proof -
  have "unat (of_nat (marshall_header_size + d) :: u64) = marshall_header_size + d"
    by (rule offset_word [OF assms(1)]) (use assms(2) in auto)
  moreover have "\<not> SW_MAX < marshall_header_size + d" "\<not> SW_MAX - (marshall_header_size + d) < msg_offset F"
    "\<not> marshall_header_size < length (msg_heap_before F)"
    using assms(1,2) unfolding msg_limit_def by linarith+
  ultimately show ?thesis
    using assms(2-) unfolding marshall_read_ht_key_def Let_def
    by (auto simp: msg_key_def add.assoc add.left_commute add.commute)
qed

text \<open>The state when the offset of a new object is about to be written.\<close>

definition announce :: "marshall_lib \<Rightarrow> marshall \<Rightarrow> u64 \<Rightarrow> u64 \<Rightarrow> marshall" where
  "announce ml m a off = m\<lparr>m_ht := ht_add marshall_ht_compare (marshall_ht_hash ml) (m_ht m) (a, off),
    m_heap_count := m_heap_count m + 1\<rparr>"

lemma heap_pointer_Some:
  "marshall_heap_pointer ml m heap (Some a) = (case written_at ml (m_ht m) a of
      Some off \<Rightarrow> if sint (off - of_nat (m_heap_offset m)) \<le> 0 then None
        else map_option (Pair True) (marshall_offset m heap (off - of_nat (m_heap_offset m)))
    | None \<Rightarrow> let off = of_nat (marshall_header_size + m_heap_offset m + m_heap_pos m + (if heap then 8 else 0)) in
        if sint (off - of_nat (m_heap_offset m)) \<le> 0 then None
        else map_option (Pair False) (marshall_offset (announce ml m a off) heap (off - of_nat (m_heap_offset m))))"
proof -
  have bind_map: "Option.bind x (\<lambda>m. Some (b, m)) = map_option (Pair b) x" for x :: "marshall option" and b :: bool
    by (cases x) auto
  show ?thesis
    unfolding marshall_heap_pointer_def written_at_def
    by (auto simp: Let_def bind_map announce_def split: option.splits)
qed

lemma offset_append:
  assumes "wf_marshall k heap m" "marshall_offset m heap x = Some m'"
  shows "m' = m_append m heap (le_bytes 8 x)"
    and "buf_wpos (m_target m heap) + 8 \<le> buf_size (m_target m heap)"
  using put_writes [OF writes_types(4) assms(1)] assms(2) unfolding marshall_offset_def by auto

lemma offset_read:
  assumes "buf_next (mr_target mr heap) (le_bytes 8 x)"
  shows "marshall_read_offset mr heap = Some (x, mr_forward mr heap 8)"
  using reads_types(4) [of x] assms
  by (simp add: reads_def marshall_read_offset_def marshall_get_def mr_forward_def)

lemma le_bytes_8: "le_bytes 8 x \<noteq> []"
  by (metis length_le_bytes list.size(3) zero_neq_numeral)

lemma located_ht: "located ml W S k heap F m mr \<Longrightarrow> covers F m \<Longrightarrow> 0 < m_heap_count m \<Longrightarrow> mr_ht mr \<noteq> None"
  unfolding located_def covers_def by auto

lemma mr_forward_simps [simp]:
  "mr_ht (mr_forward mr heap n) = mr_ht mr" "mr_ht_failed (mr_forward mr heap n) = mr_ht_failed mr"
  "mr_heap_offset (mr_forward mr heap n) = mr_heap_offset mr" "mr_heap_size (mr_forward mr heap n) = mr_heap_size mr"
  "mr_heap_start (mr_forward mr heap n) = mr_heap_start mr"
  by (simp_all add: mr_forward_def mr_set_target_def)

lemma m_append_simps [simp]:
  "m_ht (m_append m heap bs) = m_ht m" "m_heap_count (m_append m heap bs) = m_heap_count m"
  "m_heap_offset (m_append m heap bs) = m_heap_offset m"
  "m_heap_pos (m_append m heap bs) = m_heap_pos m + (if heap then length bs else 0)"
  by (simp_all add: m_append_def)

lemma heap_pos_message:
  "wf_marshall k heap m \<Longrightarrow> covers F m \<Longrightarrow> m_heap_pos m \<le> length (msg_heap F)"
  unfolding wf_marshall_def covers_def buf_wpos_def by (auto dest: prefix_length_le)

text \<open>What the reader of a pointer does with the table.\<close>

lemma read_pointer_known:
  assumes "located ml W S 0 heap F m mr" "msg_limit F" "type \<noteq> []" "\<not> sym_is_pointer_type type"
    and "marshall_read_offset mr heap = Some (of_nat (marshall_header_size + d), mr1)" "d < length (msg_heap F)"
    and "mr1 = mr_forward mr heap 8" "mr_ht mr = Some ht" "read_at ml ht (msg_key F d) = Some (e, type)"
  shows "marshall_read_heap_pointer ml mr heap type =
    (if e = None then None else Some ((of_nat (marshall_header_size + d), e), mr1))"
proof -
  have "unat (of_nat (marshall_header_size + d) :: u64) = marshall_header_size + d"
    by (rule offset_word [OF assms(2)]) (use assms(6) in auto)
  then have "(of_nat (marshall_header_size + d) :: u64) \<noteq> 0" by (auto simp: marshall_header_size_def)
  moreover have "marshall_read_ht_key mr1 (of_nat (marshall_header_size + d)) type = Some (msg_key F d)"
    using assms by (intro read_key) (auto simp: located_def)
  moreover have "\<not> mr_ht_failed mr" using assms(1) by (simp add: located_def)
  ultimately show ?thesis
    using assms(5,7,8,9) by (simp add: marshall_read_heap_pointer_def read_at_get)
qed

lemma read_pointer_new:
  assumes "located ml W S 0 heap F m mr" "msg_limit F" "type \<noteq> []" "\<not> sym_is_pointer_type type"
    and "marshall_read_offset mr heap = Some (of_nat (marshall_header_size + d), mr1)" "d < length (msg_heap F)"
    and "mr1 = mr_forward mr heap 8" "mr_ht mr = Some ht" "read_at ml ht (msg_key F d) = None"
  shows "marshall_read_heap_pointer ml mr heap type = Some ((of_nat (marshall_header_size + d), None),
    mr1\<lparr>mr_ht := Some (ht_add read_entry_compare (read_entry_hash ml) ht (msg_key F d, None, type))\<rparr>)"
proof -
  have "unat (of_nat (marshall_header_size + d) :: u64) = marshall_header_size + d"
    by (rule offset_word [OF assms(2)]) (use assms(6) in auto)
  then have "(of_nat (marshall_header_size + d) :: u64) \<noteq> 0" by (auto simp: marshall_header_size_def)
  moreover have "marshall_read_ht_key mr1 (of_nat (marshall_header_size + d)) type = Some (msg_key F d)"
    using assms by (intro read_key) (auto simp: located_def)
  moreover have "\<not> mr_ht_failed mr" using assms(1) by (simp add: located_def)
  ultimately show ?thesis
    using assms(5,7,8,9) by (simp add: marshall_read_heap_pointer_def read_at_get)
qed

text \<open>The tables when an object is announced and when it has been read.\<close>

lemma tables_agreeD:
  assumes "tables_agree ml W S F n wt (Some ht) D"
  shows "written_at ml wt a = map_option (msg_key F) (D a)"
    and "D a = Some d \<Longrightarrow> D b = Some d \<Longrightarrow> a = b"
    and "D a = Some d \<Longrightarrow> d < n"
    and "read.ok_table ht"
    and "D a = Some d \<Longrightarrow> read_at ml ht (msg_key F d) = Some (if a \<in> S then None else Some (W a), mobj_type (W a))"
    and "read_at ml ht key \<noteq> None \<Longrightarrow> \<exists>a d. D a = Some d \<and> key = msg_key F d"
  using assms unfolding tables_agree_def option.case by blast+

lemma tables_announce:
  assumes "tables_agree ml W S F n wt (Some ht) D" "msg_limit F" "written.ok_table wt"
    and "n \<le> d" "d \<le> length (msg_heap F)" "D a = None"
  shows "read_at ml ht (msg_key F d) = None"
    and "tables_agree ml W (insert a S) F (d + 1)
      (ht_add marshall_ht_compare (marshall_ht_hash ml) wt (a, msg_key F d))
      (Some (ht_add read_entry_compare (read_entry_hash ml) ht (msg_key F d, None, mobj_type (W a)))) (D(a \<mapsto> d))"
proof -
  have old: "d' < d" "d' \<le> length (msg_heap F)" if "D b = Some d'" for b d'
    using tables_agreeD(3) [OF assms(1) that] assms(4,5) by auto
  have other: "msg_key F d' \<noteq> msg_key F d" if "D b = Some d'" for b d'
    using msg_key_inj [OF assms(2) old(2) [OF that] assms(5)] old(1) [OF that] by auto
  show new: "read_at ml ht (msg_key F d) = None"
    using tables_agreeD(6) [OF assms(1), of "msg_key F d"] other by fastforce
  have ok: "read.ok_table ht" using assms(1) by (simp add: tables_agree_def)
  show "tables_agree ml W (insert a S) F (d + 1)
      (ht_add marshall_ht_compare (marshall_ht_hash ml) wt (a, msg_key F d))
      (Some (ht_add read_entry_compare (read_entry_hash ml) ht (msg_key F d, None, mobj_type (W a)))) (D(a \<mapsto> d))"
    unfolding tables_agree_def option.case
  proof (intro conjI allI impI)
    fix b show "written_at ml (ht_add marshall_ht_compare (marshall_ht_hash ml) wt (a, msg_key F d)) b =
        map_option (msg_key F) ((D(a \<mapsto> d)) b)"
      using assms(1) by (simp add: written_at_add [OF assms(3)] tables_agree_def)
  next
    fix b c e assume "(D(a \<mapsto> d)) b = Some e" "(D(a \<mapsto> d)) c = Some e"
    then show "b = c"
      using tables_agreeD(2) [OF assms(1), of b e c] old(1) [of b e] old(1) [of c e] by (auto split: if_splits)
  next
    fix b e assume "(D(a \<mapsto> d)) b = Some e"
    then show "e < d + 1" using old(1) by (auto split: if_splits intro: less_SucI)
  next
    show "read.ok_table (ht_add read_entry_compare (read_entry_hash ml) ht (msg_key F d, None, mobj_type (W a)))"
      by (rule read_ok_add [OF ok])
  next
    fix b e assume be: "(D(a \<mapsto> d)) b = Some e"
    show "read_at ml (ht_add read_entry_compare (read_entry_hash ml) ht (msg_key F d, None, mobj_type (W a))) (msg_key F e) =
        Some (if b \<in> insert a S then None else Some (W b), mobj_type (W b))"
    proof (cases "b = a")
      case True
      then show ?thesis using be by (simp add: read_at_add [OF ok])
    next
      case False
      then show ?thesis
        using be other [of b e] assms(1) by (simp add: read_at_add [OF ok] tables_agree_def) 
    qed
  next
    fix key assume "read_at ml (ht_add read_entry_compare (read_entry_hash ml) ht (msg_key F d, None, mobj_type (W a))) key \<noteq> None"
    then show "\<exists>b e. (D(a \<mapsto> d)) b = Some e \<and> key = msg_key F e"
      using assms(1,6) unfolding read_at_add [OF ok] tables_agree_def
      by (cases "msg_key F d = key") (auto split: if_splits, metis option.distinct(1))
  qed
qed

lemma tables_complete:
  assumes "tables_agree ml W (insert a S) F n wt (Some ht) D" "msg_limit F" "n \<le> length (msg_heap F)"
    and "D a = Some d" "a \<notin> S"
  shows "read_at ml ht (msg_key F d) = Some (None, mobj_type (W a))"
    and "tables_agree ml W S F n wt
      (Some (ht_assign read_entry_compare (read_entry_hash ml) ht (msg_key F d, None, ty)
        (msg_key F d, Some (W a), mobj_type (W a)))) D"
proof -
  have le: "e \<le> length (msg_heap F)" if "D b = Some e" for b e
    using assms(1,3) that unfolding tables_agree_def by (meson less_imp_le order_trans)
  have other: "msg_key F d \<noteq> msg_key F e" if "D b = Some e" "b \<noteq> a" for b e
    using msg_key_inj [OF assms(2) le [OF assms(4)] le [OF that(1)]] assms(1,4) that
    unfolding tables_agree_def by auto
  have ok: "read.ok_table ht" using assms(1) by (simp add: tables_agree_def)
  show here: "read_at ml ht (msg_key F d) = Some (None, mobj_type (W a))"
    using assms(1,4) by (simp add: tables_agree_def)
  have "read_at ml ht (msg_key F d) \<noteq> None" using here by simp
  note assign = read_at_assign [OF ok this]
  show "tables_agree ml W S F n wt
      (Some (ht_assign read_entry_compare (read_entry_hash ml) ht (msg_key F d, None, ty)
        (msg_key F d, Some (W a), mobj_type (W a)))) D"
    using assms(1) unfolding tables_agree_def option.case
  proof (elim conjE, intro conjI)
    show "read.ok_table (ht_assign read_entry_compare (read_entry_hash ml) ht (msg_key F d, None, ty)
        (msg_key F d, Some (W a), mobj_type (W a)))"
      by (rule assign(1))
    assume D: "\<forall>b e. D b = Some e \<longrightarrow> read_at ml ht (msg_key F e) =
        Some (if b \<in> insert a S then None else Some (W b), mobj_type (W b))"
      and keys: "\<forall>key. read_at ml ht key \<noteq> None \<longrightarrow> (\<exists>b e. D b = Some e \<and> key = msg_key F e)"
    show "\<forall>b e. D b = Some e \<longrightarrow>
        read_at ml (ht_assign read_entry_compare (read_entry_hash ml) ht (msg_key F d, None, ty)
          (msg_key F d, Some (W a), mobj_type (W a))) (msg_key F e) =
        Some (if b \<in> S then None else Some (W b), mobj_type (W b))"
    proof (intro allI impI)
      fix b e assume be: "D b = Some e"
      show "read_at ml (ht_assign read_entry_compare (read_entry_hash ml) ht (msg_key F d, None, ty)
          (msg_key F d, Some (W a), mobj_type (W a))) (msg_key F e) =
        Some (if b \<in> S then None else Some (W b), mobj_type (W b))"
      proof (cases "b = a")
        case True
        then have "e = d" using be assms(4) by simp
        then show ?thesis using True assms(5) by (simp add: assign(2))
      next
        case False
        then show ?thesis using D be other [OF be] by (simp add: assign(2))
      qed
    qed
    show "\<forall>key. read_at ml (ht_assign read_entry_compare (read_entry_hash ml) ht (msg_key F d, None, ty)
          (msg_key F d, Some (W a), mobj_type (W a))) key \<noteq> None \<longrightarrow>
        (\<exists>b e. D b = Some e \<and> key = msg_key F e)"
      using keys here assms(4) by (simp add: assign(2))
  qed assumption+
qed

end
