(* ===== verification/Marshall_Pointers.thy ===== *)
theory Marshall_Pointers
  imports Marshall_Codec
begin

text \<open>
  The writer and the reader of a pointer belong together, whether the pointer is NULL, the object
  has been written before, or the object follows in the heap.
\<close>

section \<open>Announcing an object\<close>

lemma announce_simps [simp]:
  "m_ht (announce ml m a off) = ht_add marshall_ht_compare (marshall_ht_hash ml) (m_ht m) (a, off)"
  "m_heap_count (announce ml m a off) = m_heap_count m + 1"
  "m_heap_offset (announce ml m a off) = m_heap_offset m" "m_heap_pos (announce ml m a off) = m_heap_pos m"
  "m_buf (announce ml m a off) = m_buf m" "m_heap (announce ml m a off) = m_heap m"
  "m_buf_pos (announce ml m a off) = m_buf_pos m" "m_target (announce ml m a off) heap = m_target m heap"
  by (simp_all add: announce_def m_target_def)

lemma announce_wf: "wf_marshall 0 heap m \<Longrightarrow> wf_marshall 1 heap (announce ml m a off)"
  unfolding wf_marshall_def by (auto simp: written_ok_add)

lemma append_announced:
  assumes "wf_marshall 1 heap m" "0 < m_heap_count m" "bs \<noteq> []"
    and "buf_wpos (m_target m heap) + length bs \<le> buf_size (m_target m heap)"
  shows "wf_marshall 1 True (m_append m heap bs)"
  using assms unfolding wf_marshall_def
  by (auto simp: m_append_def buf_ok_def buf_wpos_def m_target_def)

lemma announce_extends:
  assumes "wf_marshall 0 heap m" "written_at ml (m_ht m) a = None"
    and "m_extends ml 1 True (m_append (announce ml m a off) heap bs) m'"
  shows "m_extends ml 0 heap m m'"
proof -
  have "written.ok_table (m_ht m)" using assms(1) by (simp add: wf_marshall_def)
  then show ?thesis
    using assms(2,3) unfolding m_extends_def
    by (auto simp: m_append_def written_at_add prefix_def split: if_splits)
qed

lemma wf_marshall_heap: "wf_marshall 0 True m \<Longrightarrow> wf_marshall 0 heap m"
  unfolding wf_marshall_def by auto

lemma located_heap: "located ml W S 0 True F m mr \<Longrightarrow> located ml W S 0 heap F m mr"
  unfolding located_def by auto

lemma located_tables:
  assumes "located ml W S k heap F m mr" "mr_ht mr = Some ht"
  obtains D where "tables_agree ml W S F (m_heap_pos m + k) (m_ht m) (Some ht) D"
  using assms unfolding located_def by auto

lemma located_written:
  assumes "located ml W S k heap F m mr" "written_at ml (m_ht m) a = Some off"
  obtains d ht D where "mr_ht mr = Some ht" "tables_agree ml W S F (m_heap_pos m + k) (m_ht m) (Some ht) D"
    and "D a = Some d" "off = msg_key F d" "d < m_heap_pos m + k"
proof -
  obtain D where D: "tables_agree ml W S F (m_heap_pos m + k) (m_ht m) (mr_ht mr) D"
    using assms(1) by (auto simp: located_def)
  then obtain d where d: "D a = Some d" "off = msg_key F d" "d < m_heap_pos m + k"
    using assms(2) unfolding tables_agree_def by fastforce
  obtain ht where "mr_ht mr = Some ht"
    using D d(1) by (cases "mr_ht mr") (auto simp: tables_agree_def)
  then show thesis using D d that by metis
qed

section \<open>The three cases\<close>

lemma pointer_read_known:
  assumes "located ml W S 0 heap F m mr" "covers F m'" "msg_limit F" "wf_marshall 0 heap m"
    and "marshall_offset m heap (off - of_nat (m_heap_offset m)) = Some m'" "written_at ml (m_ht m) a = Some off"
    and "a \<notin> S" "W a = mk x" "mobj_type (mk x) = type" "get (mk x) = Some x"
    and "type \<noteq> []" "\<not> sym_is_pointer_type type"
  shows "\<exists>mr'. marshall_read_pointer_body ml type fr mk get mr heap = Some (Addr () x, mr') \<and>
    located ml W S 0 heap F m' mr'"
proof -
  note m' = offset_append [OF assms(4,5)]
  obtain d ht D where D: "mr_ht mr = Some ht" "tables_agree ml W S F (m_heap_pos m) (m_ht m) (Some ht) D"
    "D a = Some d" "off = msg_key F d" "d < m_heap_pos m"
    using located_written [OF assms(1,6)] by (metis add_0_right)
  have read: "read_at ml ht (msg_key F d) = Some (Some (mk x), type)"
    using tables_agreeD(5) [OF D(2,3)] assms(7-9) by simp
  have "m_heap_pos m \<le> length (msg_heap F)"
    using heap_pos_message [OF assms(4)] assms(2) covers_mono m'(1) append_wf(2) [OF assms(4) le_bytes_8] m'(2)
    by (metis length_le_bytes)
  then have d: "d < length (msg_heap F)" using D(5) by simp
  have "msg_offset F = m_heap_offset m"
    using assms(2) by (simp add: m'(1) covers_def)
  then have word: "off - of_nat (m_heap_offset m) = (of_nat (marshall_header_size + d) :: u64)"
    unfolding D(4) using d by (intro offset_word(1) [OF assms(3)]) auto
  note located = append_located [OF assms(1,4) le_bytes_8 _ assms(2) [unfolded m'(1)]]
  have "marshall_read_offset mr heap = Some (of_nat (marshall_header_size + d), mr_forward mr heap 8)"
    using offset_read located(1) word by simp
  from read_pointer_known [OF assms(1,3,11,12) this d refl D(1) read]
  have "marshall_read_heap_pointer ml mr heap type =
      Some ((of_nat (marshall_header_size + d), Some (mk x)), mr_forward mr heap 8)"
    by simp
  moreover have "(of_nat (marshall_header_size + d) :: u64) \<noteq> 0"
    using offset_word(2) [OF assms(3), of d "msg_offset F"] d by (auto simp: marshall_header_size_def)
  ultimately have "marshall_read_pointer_body ml type fr mk get mr heap = Some (Addr () x, mr_forward mr heap 8)"
    using assms(10) by (simp add: marshall_read_pointer_body_def)
  then show ?thesis using located(2) m'(1) by simp
qed

text \<open>The reader at the object of a new pointer.\<close>

lemma announce_located:
  assumes "located ml W S 0 heap F m mr" "wf_marshall 0 heap m" "written_at ml (m_ht m) a = None"
    and "m2 = m_append (announce ml m a off) heap (le_bytes 8 (off - of_nat (m_heap_offset m)))"
    and "off = of_nat (marshall_header_size + m_heap_offset m + m_heap_pos m + (if heap then 8 else 0))"
    and "covers F m2" "msg_limit F" "m_heap_pos m2 < length (msg_heap F)"
    and "type = mobj_type (W a)" "type \<noteq> []" "\<not> sym_is_pointer_type type"
  obtains mr2 b where
    "marshall_read_heap_pointer ml mr heap type = Some ((of_nat (marshall_header_size + m_heap_pos m2), None), mr2)"
    "buf_seek (mr_heap mr2) (mr_heap_start mr2 + int (marshall_header_size + m_heap_pos m2)) SEEK_SET =
      (int (length (msg_heap_before F) + m_heap_pos m2), b)"
    "located ml W (insert a S) 1 True F m2 (mr2\<lparr>mr_heap := b\<rparr>)"
proof -
  define dn where "dn = m_heap_pos m2"
  define w where "w = off - of_nat (m_heap_offset m)"
  have offset: "m_heap_offset m = msg_offset F" using assms(4,6) by (simp add: covers_def)
  have pos: "dn = m_heap_pos m + (if heap then 8 else 0)" by (simp add: dn_def assms(4))
  have off: "off = msg_key F dn" by (simp add: assms(5) offset msg_key_def pos)
  have dn: "dn < length (msg_heap F)" using assms(8) by (simp add: dn_def)
  have word: "w = of_nat (marshall_header_size + dn)"
    unfolding w_def off using dn offset by (intro offset_word(1) [OF assms(7)]) auto
  have "covers F (m_append m heap (le_bytes 8 w))"
    using assms(4,6) by (auto simp: covers_def m_append_def w_def)
  note located = append_located [OF assms(1,2) le_bytes_8 _ this, simplified]
  define mr1 where "mr1 = mr_forward mr heap 8"
  have read: "marshall_read_offset mr heap = Some (of_nat (marshall_header_size + dn), mr1)"
    using offset_read [OF located(1)] word by (simp add: mr1_def)
  have "0 < m_heap_count m2" by (simp add: assms(4))
  then obtain ht where ht: "mr_ht mr = Some ht"
    using assms(1,6) by (auto simp: located_def covers_def)
  then obtain D where D: "tables_agree ml W S F (m_heap_pos m) (m_ht m) (Some ht) D"
    using located_tables [OF assms(1) ht] by auto
  then have a: "D a = None" using tables_agreeD(1) [OF D, of a] assms(3) by simp
  have "m_heap_pos m \<le> dn" "dn \<le> length (msg_heap F)" using pos dn by auto
  note tables = tables_announce [OF D assms(7) _ this a]
  have wt: "written.ok_table (m_ht m)" using assms(2) by (simp add: wf_marshall_def)
  define mr2 where "mr2 = mr1\<lparr>mr_ht :=
    Some (ht_add read_entry_compare (read_entry_hash ml) ht (msg_key F dn, None, type))\<rparr>"
  have pointer: "marshall_read_heap_pointer ml mr heap type = Some ((of_nat (marshall_header_size + dn), None), mr2)"
    unfolding mr2_def by (rule read_pointer_new [OF assms(1,7,10,11) read dn mr1_def ht tables(1) [OF wt]])
  define base where "base = length (msg_heap_before F)"
  have heap: "buf_ok (mr_heap mr2)" "buf_bytes (mr_heap mr2) = msg_heap_before F @ msg_heap F"
    "mr_heap_start mr2 = int base - int marshall_header_size"
    using located(2) by (simp_all add: mr2_def mr1_def located_def base_def)
  then have seek: "buf_seek (mr_heap mr2) (mr_heap_start mr2 + int (marshall_header_size + dn)) SEEK_SET =
      (int (base + dn), (mr_heap mr2)\<lparr>buf_rpos := base + dn\<rparr>)"
    using dn by (simp add: buf_seek_def buf_seek_set_def buf_ok_def buf_wpos_def base_def nat_add_distrib)
  have "tables_agree ml W (insert a S) F (dn + 1) (m_ht m2) (mr_ht mr2) (D(a \<mapsto> dn))"
    using tables(2) [OF wt] by (simp add: assms(4,9) mr2_def off)
  then have "located ml W (insert a S) 1 True F m2 (mr2\<lparr>mr_heap := (mr_heap mr2)\<lparr>buf_rpos := base + dn\<rparr>\<rparr>)"
    using located(2) dn unfolding located_def dn_def [symmetric]
    by (auto simp: mr2_def mr1_def base_def buf_ok_def buf_wpos_def assms(4) w_def [symmetric] m_append_def split: if_splits)
  with pointer seek show thesis using that unfolding dn_def base_def by blast
qed

text \<open>The reader behind the object.\<close>

lemma complete_located:
  assumes "located ml W (insert a S) 0 True F m mr" "wf_marshall 0 True m" "covers F m" "msg_limit F"
    and "written_at ml (m_ht m) a = Some (msg_key F d)" "d < length (msg_heap F)" "a \<notin> S"
    and "type = mobj_type (W a)" "type \<noteq> []" "\<not> sym_is_pointer_type type"
  shows "\<exists>mr'. marshall_read_ht_add ml mr (of_nat (marshall_header_size + d)) (W a) type = Some mr' \<and>
    located ml W S 0 heap F m mr'"
proof -
  obtain d' ht D where D: "mr_ht mr = Some ht" "tables_agree ml W (insert a S) F (m_heap_pos m) (m_ht m) (Some ht) D"
    "D a = Some d'" "msg_key F d = msg_key F d'" "d' < m_heap_pos m"
    using located_written [OF assms(1,5)] by (metis add_0_right)
  have len: "m_heap_pos m \<le> length (msg_heap F)" by (rule heap_pos_message [OF assms(2,3)])
  then have "d' = d" using msg_key_inj [OF assms(4) _ _ D(4)] D(5) assms(6) by simp
  then have Da: "D a = Some d" using D(3) by simp
  note complete = tables_complete [OF D(2) assms(4) len Da assms(7)]
  have key: "marshall_read_ht_key mr (of_nat (marshall_header_size + d)) type = Some (msg_key F d)"
    using assms(1) D(1) by (intro read_key [OF assms(4,6,9,10)]) (auto simp: located_def)
  have "marshall_read_ht_add ml mr (of_nat (marshall_header_size + d)) (W a) type =
      Some (mr\<lparr>mr_ht := Some (ht_assign read_entry_compare (read_entry_hash ml) ht (msg_key F d, None, type)
        (msg_key F d, Some (W a), type))\<rparr>)" (is "_ = Some ?mr")
    unfolding marshall_read_ht_add_def key using complete(1) [folded assms(8)] by (simp add: D(1) read_at_get)
  moreover have "located ml W S 0 True F m ?mr"
    using assms(1) complete(2) [of type] unfolding located_def assms(8) [symmetric] by auto
  ultimately show ?thesis using located_heap by blast
qed

lemma pointer_new:
  assumes "wf_marshall 0 heap m" "written_at ml (m_ht m) a = None"
    and "off = of_nat (marshall_header_size + m_heap_offset m + m_heap_pos m + (if heap then 8 else 0))"
    and "marshall_offset (announce ml m a off) heap (off - of_nat (m_heap_offset m)) = Some m2" "f m2 = Some m'"
    and "a \<notin> S" "W a = mk x" "mobj_type (mk x) = type" "type \<noteq> []" "\<not> sym_is_pointer_type type"
    and "codec ml W (insert a S) 1 True f fr x"
  shows "wf_marshall 0 heap m'" "m_extends ml 0 heap m m'"
    and "covers F m' \<Longrightarrow> msg_limit F \<Longrightarrow> located ml W S 0 heap F m mr \<Longrightarrow>
      \<exists>mr'. marshall_read_pointer_body ml type fr mk get mr heap = Some (Addr () x, mr') \<and>
        located ml W S 0 heap F m' mr'"
proof -
  note m2 = offset_append [OF announce_wf [OF assms(1)] assms(4)]
  have wf2: "wf_marshall 1 True m2"
    unfolding m2(1) using m2(2)
    by (intro append_announced [OF announce_wf [OF assms(1)]]) (simp_all add: le_bytes_8)
  note obj = codecD [OF assms(11) wf2 assms(5)]
  show "wf_marshall 0 heap m'" by (rule wf_marshall_heap [OF obj(1)])
  show "m_extends ml 0 heap m m'"
    by (rule announce_extends [OF assms(1,2) obj(2) [unfolded m2(1)]])
  assume F: "covers F m'" "msg_limit F" "located ml W S 0 heap F m mr"
  have cov2: "covers F m2" by (rule covers_mono [OF F(1) obj(2)])
  have "m_heap_pos m2 + 1 \<le> m_heap_pos m'" using obj(2) by (simp add: m_extends_def)
  then have len: "m_heap_pos m2 < length (msg_heap F)" using heap_pos_message [OF obj(1) F(1)] by simp
  have type: "type = mobj_type (W a)" using assms(7,8) by simp
  obtain mr2 b where read:
    "marshall_read_heap_pointer ml mr heap type = Some ((of_nat (marshall_header_size + m_heap_pos m2), None), mr2)"
    "buf_seek (mr_heap mr2) (mr_heap_start mr2 + int (marshall_header_size + m_heap_pos m2)) SEEK_SET =
      (int (length (msg_heap_before F) + m_heap_pos m2), b)"
    "located ml W (insert a S) 1 True F m2 (mr2\<lparr>mr_heap := b\<rparr>)"
    by (rule announce_located [OF F(3) assms(1,2) m2(1) assms(3) cov2 F(2) len type assms(9,10)])
  obtain mr4 where mr4: "fr (mr2\<lparr>mr_heap := b\<rparr>) = Some (x, mr4)" "located ml W (insert a S) 0 True F m' mr4"
    using obj(3) [OF F(1,2) read(3)] by blast
  have "off = msg_key F (m_heap_pos m2)"
    using cov2 by (simp add: assms(3) m2(1) msg_key_def covers_def)
  moreover have "written_at ml (m_ht m2) a = Some off"
    using assms(1) by (simp add: m2(1) written_at_add wf_marshall_def)
  ultimately have "written_at ml (m_ht m') a = Some (msg_key F (m_heap_pos m2))"
    using obj(2) by (simp add: m_extends_def)
  from complete_located [OF mr4(2) obj(1) F(1,2) this len assms(6) type assms(9,10)]
  obtain mr5 where mr5:
    "marshall_read_ht_add ml mr4 (of_nat (marshall_header_size + m_heap_pos m2)) (mk x) type = Some mr5"
    "located ml W S 0 heap F m' mr5"
    using assms(7) by auto
  have le: "m_heap_pos m2 \<le> length (msg_heap F)" using len by simp
  note word = offset_word [OF F(2) le refl]
  have "(of_nat (marshall_header_size + m_heap_pos m2) :: u64) \<noteq> 0"
    using word(2) by (auto simp: marshall_header_size_def)
  then have "marshall_read_pointer_body ml type fr mk get mr heap = Some (Addr () x, mr5)"
    unfolding marshall_read_pointer_body_def read(1) using word(3) read(2) mr4(1) mr5(1)
    by (simp del: of_nat_add)
  then show "\<exists>mr'. marshall_read_pointer_body ml type fr mk get mr heap = Some (Addr () x, mr') \<and>
      located ml W S 0 heap F m' mr'"
    using mr5(2) by blast
qed

section \<open>Pointers\<close>

lemma codec_pointer:
  assumes "type \<noteq> []" "\<not> sym_is_pointer_type type"
    and "\<And>a y. p = Addr a y \<Longrightarrow> a \<notin> S \<and> W a = mk (er y) \<and> mobj_type (mk (er y)) = type \<and>
      get (mk (er y)) = Some (er y) \<and> codec ml W (insert a S) 1 True (\<lambda>m. f m y) fr (er y)"
  shows "codec ml W S 0 heap
    (\<lambda>m. Option.bind (marshall_heap_pointer ml m heap (case p of NULL \<Rightarrow> None | Addr a _ \<Rightarrow> Some a))
      (\<lambda>(present, m). case p of NULL \<Rightarrow> Some m | Addr _ y \<Rightarrow> if present then Some m else f m y))
    (\<lambda>mr. marshall_read_pointer_body ml type fr mk get mr heap) (map_ptr (\<lambda>_. ()) er p)"
proof (cases p)
  case NULL
  show ?thesis
    unfolding codec_def
  proof (intro allI impI)
    fix m m' assume wf: "wf_marshall 0 heap m" and "Option.bind
      (marshall_heap_pointer ml m heap (case p of NULL \<Rightarrow> None | Addr a _ \<Rightarrow> Some a))
      (\<lambda>(present, m). case p of NULL \<Rightarrow> Some m | Addr _ y \<Rightarrow> if present then Some m else f m y) = Some m'"
    then have "marshall_offset m heap 0 = Some m'"
      by (cases "marshall_offset m heap 0") (auto simp: NULL marshall_heap_pointer_def)
    note c = codecD [OF codec_offset wf this]
    have "\<exists>mr'. marshall_read_pointer_body ml type fr mk get mr heap = Some (NULL, mr') \<and>
      located ml W S 0 heap F m' mr'"
      if "covers F m'" "msg_limit F" "located ml W S 0 heap F m mr" for F mr
    proof -
      have "\<not> mr_ht_failed mr" using that(3) by (simp add: located_def)
      then show ?thesis
        using c(3) [OF that] by (auto simp: marshall_read_pointer_body_def marshall_read_heap_pointer_def)
    qed
    then show "wf_marshall 0 heap m' \<and> m_extends ml 0 heap m m' \<and> (\<forall>F mr. covers F m' \<longrightarrow> msg_limit F \<longrightarrow>
        located ml W S 0 heap F m mr \<longrightarrow> (\<exists>mr'. marshall_read_pointer_body ml type fr mk get mr heap =
          Some (map_ptr (\<lambda>_. ()) er p, mr') \<and> located ml W S 0 heap F m' mr'))"
      using c(1,2) NULL by simp
  qed
next
  case (Addr a y)
  note obj = assms(3) [OF this]
  show ?thesis
    unfolding codec_def
  proof (intro allI impI)
    fix m m' assume wf: "wf_marshall 0 heap m" and "Option.bind
      (marshall_heap_pointer ml m heap (case p of NULL \<Rightarrow> None | Addr a _ \<Rightarrow> Some a))
      (\<lambda>(present, m). case p of NULL \<Rightarrow> Some m | Addr _ y \<Rightarrow> if present then Some m else f m y) = Some m'"
    then have w: "Option.bind (marshall_heap_pointer ml m heap (Some a))
      (\<lambda>(present, m). if present then Some m else f m y) = Some m'"
      by (simp add: Addr)
    have "wf_marshall 0 heap m' \<and> m_extends ml 0 heap m m' \<and> (\<forall>F mr. covers F m' \<longrightarrow> msg_limit F \<longrightarrow>
        located ml W S 0 heap F m mr \<longrightarrow> (\<exists>mr'. marshall_read_pointer_body ml type fr mk get mr heap =
          Some (Addr () (er y), mr') \<and> located ml W S 0 heap F m' mr'))"
    proof (cases "written_at ml (m_ht m) a")
      case None
      define off :: u64 where "off = of_nat (marshall_header_size + m_heap_offset m + m_heap_pos m + (if heap then 8 else 0))"
      obtain m2 where m2: "marshall_offset (announce ml m a off) heap (off - of_nat (m_heap_offset m)) = Some m2"
        "f m2 y = Some m'"
        using w None unfolding heap_pointer_Some off_def [symmetric]
        by (auto simp: Let_def bind_eq_Some_conv off_def [symmetric] split: if_splits)
      then show ?thesis
        using pointer_new [OF wf None off_def m2(1), of "\<lambda>m. f m y" m' S W mk "er y" type fr] obj assms(1,2)
        by blast
    next
      case (Some off)
      then have m': "marshall_offset m heap (off - of_nat (m_heap_offset m)) = Some m'"
        using w unfolding heap_pointer_Some by (auto simp: bind_eq_Some_conv split: if_splits)
      then show ?thesis
        using obj
        by (intro conjI allI impI codecD(1,2) [OF codec_offset wf m'])
          (rule pointer_read_known [OF _ _ _ wf m' Some _ _ _ _ assms(1,2)]; simp)
    qed
    then show "wf_marshall 0 heap m' \<and> m_extends ml 0 heap m m' \<and> (\<forall>F mr. covers F m' \<longrightarrow> msg_limit F \<longrightarrow>
        located ml W S 0 heap F m mr \<longrightarrow> (\<exists>mr'. marshall_read_pointer_body ml type fr mk get mr heap =
          Some (map_ptr (\<lambda>_. ()) er p, mr') \<and> located ml W S 0 heap F m' mr'))"
      by (simp add: Addr)
  qed
qed

lemma codec_p:
  assumes "ascii magic" "type \<noteq> []" "\<not> sym_is_pointer_type type"
    and "\<And>a y. p = Addr a y \<Longrightarrow> a \<notin> S \<and> W a = mk (er y) \<and> mobj_type (mk (er y)) = type \<and>
      get (mk (er y)) = Some (er y) \<and> codec ml W (insert a S) 1 True (\<lambda>m. f m y) fr (er y)"
  shows "codec ml W S 0 heap (\<lambda>m. marshall_p ml magic f m heap p)
    (\<lambda>mr. marshall_read_p ml magic type fr mk get mr heap) (map_ptr (\<lambda>_. ()) er p)"
  unfolding marshall_p_def marshall_read_p_def
  by (intro codec_seq [OF codec_1] codec_pointer assms) simp_all

end
