(* ===== verification/Marshall_Values.thy ===== *)
theory Marshall_Values
  imports Marshall_Pointers
begin

text \<open>
  The writer and the reader of each value belong together, by induction over the value.

  \<open>mtag_ok\<close> says that a value lies in the memory of the writer: each address has one object.  As
  values are finite, an object is smaller than the objects that its reader is inside of, so that its
  address is not among them.
\<close>

section \<open>Values in memory\<close>

abbreviation erase :: "u64 mtag \<Rightarrow> unit mtag" where
  "erase \<equiv> map_mtag (\<lambda>_. ())"

abbreviation erase_ident :: "u64 mident \<Rightarrow> unit mident" where
  "erase_ident \<equiv> map_mident (\<lambda>_. ())"

abbreviation erase_ptr :: "('a \<Rightarrow> 'b) \<Rightarrow> (u64, 'a) ptr \<Rightarrow> (unit, 'b) ptr" where
  "erase_ptr \<equiv> map_ptr (\<lambda>_. ())"

definition ptr_ok :: "(u64 \<Rightarrow> mobj) \<Rightarrow> ('a \<Rightarrow> mobj) \<Rightarrow> ('a \<Rightarrow> bool) \<Rightarrow> (u64, 'a) ptr \<Rightarrow> bool" where
  "ptr_ok W mk P p = (case p of NULL \<Rightarrow> True | Addr a x \<Rightarrow> W a = mk x \<and> P x)"

lemma ptr_ok_cong [fundef_cong]:
  "W = W' \<Longrightarrow> mk = mk' \<Longrightarrow> p = p' \<Longrightarrow> (\<And>a x. p' = Addr a x \<Longrightarrow> P x = P' x) \<Longrightarrow> ptr_ok W mk P p = ptr_ok W' mk' P' p'"
  by (simp add: ptr_ok_def split: ptr.splits)

definition psym_ok :: "(u64 \<Rightarrow> mobj) \<Rightarrow> (u64, sym) ptr \<Rightarrow> bool" where
  "psym_ok W p = ptr_ok W OSym (\<lambda>s. length s < 2 ^ 32) p"

definition ident_ok :: "(u64 \<Rightarrow> mobj) \<Rightarrow> u64 mident \<Rightarrow> bool" where
  "ident_ok W i \<longleftrightarrow> psym_ok W (mident_module i) \<and> psym_ok W (mident_sym i)"

text \<open>The lengths fit their fields; a time that is given by tags has no seconds of its own.\<close>

fun mtag_ok :: "(u64 \<Rightarrow> mobj) \<Rightarrow> u64 mtag \<Rightarrow> bool" where
  "mtag_ok W (MDoBlock ts sf) \<longleftrightarrow> length ts < 2 ^ 64 \<and> (\<forall>t\<in>set ts. mtag_ok W t)"
| "mtag_ok W (MFact s p ob i) \<longleftrightarrow> ptr_ok W (OTag \<circ> erase) (mtag_ok W) s \<and>
    ptr_ok W (OTag \<circ> erase) (mtag_ok W) p \<and> ptr_ok W (OTag \<circ> erase) (mtag_ok W) ob"
| "mtag_ok W (MPlist p) \<longleftrightarrow>
    ptr_ok W (OList \<circ> map_prod erase erase) (\<lambda>l. mtag_ok W (fst l) \<and> mtag_ok W (snd l)) p"
| "mtag_ok W (MMap kvs) \<longleftrightarrow> length kvs < 2 ^ 64 \<and> (\<forall>kv\<in>set kvs. mtag_ok W (fst kv) \<and> mtag_ok W (snd kv))"
| "mtag_ok W (MPcall p) \<longleftrightarrow> ptr_ok W (OCall \<circ> map_prod erase_ident (map erase))
    (\<lambda>c. ident_ok W (fst c) \<and> length (snd c) < 2 ^ 64 \<and> (\<forall>t\<in>set (snd c). mtag_ok W t)) p"
| "mtag_ok W (MPsym p) \<longleftrightarrow> psym_ok W p"
| "mtag_ok W (MQuote t) \<longleftrightarrow> mtag_ok W t"
| "mtag_ok W (MStr s) \<longleftrightarrow> length s < 2 ^ 32"
| "mtag_ok W (MTime sec nsec p) \<longleftrightarrow> (case p of None \<Rightarrow> True
    | Some tu \<Rightarrow> sec = 0 \<and> nsec = 0 \<and> mtag_ok W (fst tu) \<and> mtag_ok W (snd tu))"
| "mtag_ok W (MPtuple p) \<longleftrightarrow> ptr_ok W (OTuple \<circ> map erase)
    (\<lambda>ts. 2 \<le> length ts \<and> length ts < 2 ^ 64 \<and> (\<forall>t\<in>set ts. mtag_ok W t)) p"
| "mtag_ok W (MUnquote t) \<longleftrightarrow> mtag_ok W t"
| "mtag_ok W (MIdent i) \<longleftrightarrow> ident_ok W i"
| "mtag_ok W _ \<longleftrightarrow> True"

fun osize :: "mobj \<Rightarrow> nat" where
  "osize (OSym _) = 0"
| "osize (OList l) = size (fst l) + size (snd l) + 1"
| "osize (OTuple ts) = size_list size ts + 1"
| "osize (OTag t) = size t + 1"
| "osize (OCall c) = size_list size (snd c) + 1"

definition outside :: "(u64 \<Rightarrow> mobj) \<Rightarrow> u64 set \<Rightarrow> nat \<Rightarrow> bool" where
  "outside W S n \<longleftrightarrow> (\<forall>s\<in>S. n < osize (W s))"

lemma outside_mono: "outside W S n \<Longrightarrow> n' \<le> n \<Longrightarrow> outside W S n'"
  by (fastforce simp: outside_def)

lemma outside_insert: "outside W (insert a S) n \<longleftrightarrow> n < osize (W a) \<and> outside W S n"
  by (auto simp: outside_def)

lemma outside_not_in: "outside W S n \<Longrightarrow> osize (W a) \<le> n \<Longrightarrow> a \<notin> S"
  by (auto simp: outside_def)

section \<open>Symbols\<close>

lemma type_names [simp]:
  "c_str ''Sym'' \<noteq> []" "c_str ''List'' \<noteq> []" "c_str ''Tuple'' \<noteq> []" "c_str ''Tag'' \<noteq> []" "c_str ''Call'' \<noteq> []"
  "\<not> sym_is_pointer_type (c_str ''Sym'')" "\<not> sym_is_pointer_type (c_str ''List'')"
  "\<not> sym_is_pointer_type (c_str ''Tuple'')" "\<not> sym_is_pointer_type (c_str ''Tag'')"
  "\<not> sym_is_pointer_type (c_str ''Call'')"
  by (simp_all add: c_str_def sym_is_pointer_type_def)

lemma codec_psym:
  assumes "psym_ok W p" "outside W S 0"
  shows "codec ml W S 0 heap (\<lambda>m. marshall_psym ml m heap p) (\<lambda>mr. marshall_read_psym ml mr heap) (erase_ptr id p)"
  unfolding marshall_psym_def marshall_read_psym_def
  using assms
  by (intro codec_p) (auto simp: psym_ok_def ptr_ok_def outside_def intro!: codec_sym dest: bspec)

lemma codec_ident:
  assumes "ident_ok W i" "outside W S 0" "k = 0 \<or> k = 1 \<and> heap"
  shows "codec ml W S k heap (\<lambda>m. marshall_ident ml m heap i) (\<lambda>mr. marshall_read_ident ml mr heap) (erase_ident i)"
proof -
  have "codec ml W S k heap (\<lambda>m. marshall_ident ml m heap i) (\<lambda>mr. marshall_read_ident ml mr heap)
      (MIdent_of (erase_ptr id (mident_module i)) (erase_ptr id (mident_sym i)))"
    unfolding marshall_ident_def marshall_read_ident_def using assms
    by (intro codec_seq [OF codec_1] codec_bind [OF codec_psym] codec_map codec_psym) (auto simp: ident_ok_def)
  then show ?thesis by (cases i) (simp add: id_def)
qed

lemma codec_ptr:
  "codec ml W S 0 heap (\<lambda>m. marshall_ptr m heap p) (\<lambda>mr. marshall_read_ptr mr heap) p"
  "codec ml W S 0 heap (\<lambda>m. marshall_ptr_free m heap p) (\<lambda>mr. marshall_read_ptr_free mr heap) p"
proof -
  have *: "codec ml W S 0 heap (\<lambda>m. if p = 0 then marshall_uw m heap 0 else None)
      (\<lambda>mr. Option.bind (marshall_read_uw mr heap) (\<lambda>(p, mr). if p \<noteq> 0 then None else Some (p, mr))) p"
  proof (cases "p = 0")
    case True
    have "codec ml W S 0 heap (\<lambda>m. Option.bind (marshall_uw m heap 0) Some)
      (\<lambda>mr. Option.bind (marshall_read_uw mr heap) (\<lambda>(p, mr). if p \<noteq> 0 then None else Some (p, mr))) 0"
      by (rule codec_bind [OF codec_uw]) (simp_all add: codec_return)
    then show ?thesis using True by simp
  qed (simp add: codec_def)
  show "codec ml W S 0 heap (\<lambda>m. marshall_ptr m heap p) (\<lambda>mr. marshall_read_ptr mr heap) p"
    "codec ml W S 0 heap (\<lambda>m. marshall_ptr_free m heap p) (\<lambda>mr. marshall_read_ptr_free mr heap) p"
    unfolding marshall_ptr_def marshall_read_ptr_def marshall_ptr_free_def marshall_read_ptr_free_def
    by (rule codec_seq [OF codec_1 *]; simp)+
qed

lemma codec_pcallable_null:
  "codec_unit ml W S 0 heap (\<lambda>m. marshall_pcallable_null ml m heap) (\<lambda>mr. marshall_read_pcallable_null ml mr heap)"
proof -
  have "codec ml W S 0 heap (\<lambda>m. marshall_pcallable_null ml m heap)
    (\<lambda>mr. Option.bind (marshall_read_1 mr heap ''_KC3PCALLABLE_'') (\<lambda>mr.
      map_option (Pair ()) (Option.bind (marshall_read_heap_pointer ml mr heap (c_str ''Callable''))
        (\<lambda>((offset, _), mr). if offset = 0 then Some mr else None)))) ()"
    (is "codec _ _ _ _ _ ?w (\<lambda>mr. Option.bind (?r1 mr) ?r2) _")
  proof -
    have c: "codec ml W S 0 heap (\<lambda>m. marshall_offset m heap 0) ?r2 ()"
      unfolding codec_def
    proof (intro allI impI)
      fix m m' assume wf: "wf_marshall 0 heap m" and "marshall_offset m heap 0 = Some m'"
      note c = codecD [OF codec_offset this]
      show "wf_marshall 0 heap m' \<and> m_extends ml 0 heap m m' \<and> (\<forall>F mr. covers F m' \<longrightarrow> msg_limit F \<longrightarrow>
        located ml W S 0 heap F m mr \<longrightarrow> (\<exists>mr'. ?r2 mr = Some ((), mr') \<and> located ml W S 0 heap F m' mr'))"
      proof (intro conjI allI impI c(1,2))
        fix F mr assume F: "covers F m'" "msg_limit F" "located ml W S 0 heap F m mr"
        have "\<not> mr_ht_failed mr" using F(3) by (simp add: located_def)
        then show "\<exists>mr'. ?r2 mr = Some ((), mr') \<and> located ml W S 0 heap F m' mr'"
          using c(3) [OF F] by (auto simp: marshall_read_heap_pointer_def)
      qed
    qed
    have "marshall_pcallable_null ml m heap =
        Option.bind (marshall_1 m heap ''_KC3PCALLABLE_'') (\<lambda>m. marshall_offset m heap 0)" for m
      by (cases "marshall_1 m heap ''_KC3PCALLABLE_''")
        (simp_all add: marshall_pcallable_null_def marshall_p_def marshall_heap_pointer_def)
    then show ?thesis using codec_seq [OF codec_1 c, of "''_KC3PCALLABLE_''"] by simp
  qed
  moreover have "map_option (Pair ()) (marshall_read_pcallable_null ml mr heap) =
    Option.bind (marshall_read_1 mr heap ''_KC3PCALLABLE_'') (\<lambda>mr.
      map_option (Pair ()) (Option.bind (marshall_read_heap_pointer ml mr heap (c_str ''Callable''))
        (\<lambda>((offset, _), mr). if offset = 0 then Some mr else None)))" for mr
    by (cases "marshall_read_1 mr heap ''_KC3PCALLABLE_''") (simp_all add: marshall_read_pcallable_null_def)
  ultimately show ?thesis by simp
qed

section \<open>Sequences of tags\<close>

lemma codec_then:
  assumes "codec ml W S k heap w r x" "\<And>z. z = x \<Longrightarrow> codec ml W S 0 heap w' (r' z) y"
  shows "codec ml W S k heap (\<lambda>m. Option.bind (w m) w') (\<lambda>mr. Option.bind (r mr) (\<lambda>(z, mr). r' z mr)) y"
  using codec_bind [of ml W S k heap w r x w' r' y] assms by simp

lemma codec_into:
  assumes "codec ml W S k heap w r x" "f x = z"
  shows "codec ml W S k heap w (\<lambda>mr. Option.bind (r mr) (\<lambda>(y, mr). Some (f y, mr))) z"
  using codec_map [OF assms(1), of f] assms(2) by simp

lemma codec_tags:
  assumes "\<And>t. t \<in> set ts \<Longrightarrow> codec ml W S 0 heap (\<lambda>m. w m heap t) (\<lambda>mr. rd mr heap) (erase t)"
  shows "codec ml W S 0 heap (\<lambda>m. marshall_tags w m heap ts)
    (\<lambda>mr. marshall_read_tags rd mr heap (length ts)) (map erase ts)"
  using assms by (induction ts) (auto intro!: codec_bind codec_map codec_return)

lemma codec_pairs:
  assumes "\<And>k v. (k, v) \<in> set kvs \<Longrightarrow> codec ml W S 0 heap (\<lambda>m. w m heap k) (\<lambda>mr. rd mr heap) (erase k)"
    and "\<And>k v. (k, v) \<in> set kvs \<Longrightarrow> codec ml W S 0 heap (\<lambda>m. w m heap v) (\<lambda>mr. rd mr heap) (erase v)"
  shows "codec ml W S 0 heap (\<lambda>m. marshall_pairs w m heap kvs)
    (\<lambda>mr. marshall_read_pairs rd mr heap (length kvs)) (map (map_prod erase erase) kvs)"
  using assms
proof (induction kvs)
  case Nil
  then show ?case by (simp add: codec_return)
next
  case (Cons kv kvs)
  obtain k v where kv: "kv = (k, v)" by fastforce
  have k: "codec ml W S 0 heap (\<lambda>m. w m heap k) (\<lambda>mr. rd mr heap) (erase k)"
    by (rule Cons.prems(1) [of k v]) (simp add: kv)
  have v: "codec ml W S 0 heap (\<lambda>m. w m heap v) (\<lambda>mr. rd mr heap) (erase v)"
    by (rule Cons.prems(2) [of k v]) (simp add: kv)
  have kvs: "codec ml W S 0 heap (\<lambda>m. marshall_pairs w m heap kvs)
    (\<lambda>mr. marshall_read_pairs rd mr heap (length kvs)) (map (map_prod erase erase) kvs)"
    by (rule Cons.IH; rule Cons.prems, erule list.set_intros(2))
  show ?case
    unfolding kv marshall_pairs.simps length_Cons marshall_read_pairs.simps list.map(2) map_prod_simp
    by (rule codec_then [OF k], rule codec_then [OF v], rule codec_into [OF kvs]) simp
qed

lemma codec_do_block:
  assumes "length ts < 2 ^ 64"
    and "\<And>t. t \<in> set ts \<Longrightarrow> codec ml W S 0 heap (\<lambda>m. w m heap t) (\<lambda>mr. rd mr heap) (erase t)"
  shows "codec ml W S 0 heap (\<lambda>m. marshall_do_block w m heap ts sf)
    (\<lambda>mr. marshall_read_do_block rd mr heap) (map erase ts, sf)"
  unfolding marshall_do_block_def marshall_read_do_block_def
  by (intro codec_bind [OF codec_uw] codec_bind [OF codec_types(1)] codec_map)
    (simp_all add: unat_u64 [OF assms(1)] codec_tags assms(2))

lemma codec_list:
  assumes "codec ml W S 0 True (\<lambda>m. w m True (fst l)) (\<lambda>mr. rd mr True) (erase (fst l))"
    and "codec ml W S 0 True (\<lambda>m. w m True (snd l)) (\<lambda>mr. rd mr True) (erase (snd l))"
  shows "codec ml W S 1 True (\<lambda>m. marshall_list w m True l) (\<lambda>mr. marshall_read_list rd mr True)
    (map_prod erase erase l)"
proof -
  have "codec ml W S 1 True (\<lambda>m. marshall_list w m True l) (\<lambda>mr. marshall_read_list rd mr True)
      (erase (fst l), erase (snd l))"
    unfolding marshall_list_def marshall_read_list_def
    by (intro codec_seq [OF codec_1] codec_bind [OF assms(1)] codec_map assms(2)) simp_all
  then show ?thesis by (cases l) simp
qed

lemma codec_map_value:
  assumes "length kvs < 2 ^ 64"
    and "\<And>k v. (k, v) \<in> set kvs \<Longrightarrow> codec ml W S 0 heap (\<lambda>m. w m heap k) (\<lambda>mr. rd mr heap) (erase k)"
    and "\<And>k v. (k, v) \<in> set kvs \<Longrightarrow> codec ml W S 0 heap (\<lambda>m. w m heap v) (\<lambda>mr. rd mr heap) (erase v)"
  shows "codec ml W S 0 heap (\<lambda>m. marshall_map w m heap kvs)
    (\<lambda>mr. marshall_read_map rd mr heap) (map (map_prod erase erase) kvs)"
  unfolding marshall_map_def marshall_read_map_def
  by (intro codec_seq [OF codec_1] codec_bind [OF codec_uw])
    (simp_all add: unat_u64 [OF assms(1)] codec_pairs assms(2,3))

lemma codec_call:
  assumes "ident_ok W (fst c)" "outside W S 0" "length (snd c) < 2 ^ 64"
    and "\<And>t. t \<in> set (snd c) \<Longrightarrow> codec ml W S 0 True (\<lambda>m. w m True t) (\<lambda>mr. rd mr True) (erase t)"
  shows "codec ml W S 1 True (\<lambda>m. marshall_call ml w m True c) (\<lambda>mr. marshall_read_call ml rd mr True)
    (map_prod erase_ident (map erase) c)"
proof -
  have "codec ml W S 1 True (\<lambda>m. marshall_call ml w m True c) (\<lambda>mr. marshall_read_call ml rd mr True)
      (erase_ident (fst c), map erase (snd c))"
    unfolding marshall_call_def marshall_read_call_def
  proof (rule codec_then [OF codec_ident [OF assms(1,2)]], simp, rule codec_then [OF codec_uw], simp)
    fix ident count assume "ident = erase_ident (fst c)" "count = (of_nat (length (snd c)) :: uw)"
    moreover have "codec ml W S 0 True (\<lambda>m. marshall_pcallable_null ml m True)
        (\<lambda>mr. Option.bind (marshall_read_pcallable_null ml mr True) (\<lambda>mr. Some ((ident, args), mr))) (ident, args)" for ident args
      using codec_seq [OF codec_pcallable_null codec_return] by fastforce
    moreover have tags: "codec ml W S 0 True (\<lambda>m. marshall_tags w m True (snd c))
        (\<lambda>mr. marshall_read_tags rd mr True (length (snd c))) (map erase (snd c))"
      by (rule codec_tags) (rule assms(4))
    ultimately show "codec ml W S 0 True
      (\<lambda>m. Option.bind (marshall_tags w m True (snd c)) (\<lambda>m. marshall_pcallable_null ml m True))
      (\<lambda>mr. Option.bind (marshall_read_tags rd mr True (unat count)) (\<lambda>(args, mr).
        Option.bind (marshall_read_pcallable_null ml mr True) (\<lambda>mr. Some ((ident, args), mr))))
      (erase_ident (fst c), map erase (snd c))"
      by (simp only: unat_u64 [OF assms(3)]) (rule codec_then [OF tags], simp)
  qed
  then show ?thesis by (cases c) simp
qed

lemma codec_time:
  assumes "case p of None \<Rightarrow> True | Some tu \<Rightarrow> sec = 0 \<and> nsec = 0 \<and>
      codec ml W S 0 heap (\<lambda>m. w m heap (fst tu)) (\<lambda>mr. rd mr heap) (erase (fst tu)) \<and>
      codec ml W S 0 heap (\<lambda>m. w m heap (snd tu)) (\<lambda>mr. rd mr heap) (erase (snd tu))"
  shows "codec ml W S 0 heap (\<lambda>m. marshall_time w m heap sec nsec p)
    (\<lambda>mr. marshall_read_time rd mr heap) (MTime sec nsec (map_option (map_prod erase erase) p))"
proof (cases p)
  case None
  then show ?thesis
    unfolding marshall_time_def marshall_read_time_def
    by (intro codec_then [OF codec_types(1)])
      (simp_all, rule codec_then [OF codec_sw], simp, rule codec_into [OF codec_sw], simp_all)
next
  case (Some tu)
  then show ?thesis
    using assms unfolding marshall_time_def marshall_read_time_def
    by (intro codec_then [OF codec_types(1)])
      (simp_all, elim conjE, rule codec_then, assumption, rule codec_into, assumption, cases tu, simp)
qed

lemma codec_tuple:
  assumes "2 \<le> length ts" "length ts < 2 ^ 64" "k = 0 \<or> k = 1 \<and> heap"
    and "\<And>t. t \<in> set ts \<Longrightarrow> codec ml W S 0 heap (\<lambda>m. w m heap t) (\<lambda>mr. rd mr heap) (erase t)"
  shows "codec ml W S k heap (\<lambda>m. marshall_tuple w m heap ts) (\<lambda>mr. marshall_read_tuple rd mr heap) (map erase ts)"
proof -
  have "length ts \<noteq> 0" "\<not> length ts < 2" using assms(1) by auto
  then show ?thesis
    unfolding marshall_tuple_def marshall_read_tuple_def using assms(3)
    by (simp only: if_False) (intro codec_bind [OF codec_uw]; simp add: unat_u64 [OF assms(2)] codec_tags assms(4))
qed

section \<open>Values\<close>

lemma read_tag_data:
  "marshall_read_tag_data ml rd 0 mr heap = Some (MVoid, mr)"
  "marshall_read_tag_data ml rd 2 mr heap = do { ((ts, sf), mr) \<leftarrow> marshall_read_do_block rd mr heap; Some (MDoBlock ts sf, mr) }"
  "marshall_read_tag_data ml rd 3 mr heap = do { (x, mr) \<leftarrow> marshall_read_bool mr heap; Some (MBool x, mr) }"
  "marshall_read_tag_data ml rd 4 mr heap = do { (x, mr) \<leftarrow> marshall_read_character 0 mr heap; Some (MCharacter x, mr) }"
  "marshall_read_tag_data ml rd 9 mr heap = marshall_read_fact ml rd mr heap"
  "marshall_read_tag_data ml rd 10 mr heap = do { (x, mr) \<leftarrow> marshall_read_integer ml mr heap; Some (MInteger x, mr) }"
  "marshall_read_tag_data ml rd 11 mr heap = do { ((n, d), mr) \<leftarrow> marshall_read_ratio ml mr heap; Some (MRatio n d, mr) }"
  "marshall_read_tag_data ml rd 12 mr heap = do { (x, mr) \<leftarrow> marshall_read_sw mr heap; Some (MSW x, mr) }"
  "marshall_read_tag_data ml rd 13 mr heap = do { (x, mr) \<leftarrow> marshall_read_s64 mr heap; Some (MS64 x, mr) }"
  "marshall_read_tag_data ml rd 14 mr heap = do { (x, mr) \<leftarrow> marshall_read_s32 mr heap; Some (MS32 x, mr) }"
  "marshall_read_tag_data ml rd 15 mr heap = do { (x, mr) \<leftarrow> marshall_read_s16 mr heap; Some (MS16 x, mr) }"
  "marshall_read_tag_data ml rd 16 mr heap = do { (x, mr) \<leftarrow> marshall_read_s8 mr heap; Some (MS8 x, mr) }"
  "marshall_read_tag_data ml rd 17 mr heap = do { (x, mr) \<leftarrow> marshall_read_u8 mr heap; Some (MU8 x, mr) }"
  "marshall_read_tag_data ml rd 18 mr heap = do { (x, mr) \<leftarrow> marshall_read_u16 mr heap; Some (MU16 x, mr) }"
  "marshall_read_tag_data ml rd 19 mr heap = do { (x, mr) \<leftarrow> marshall_read_u32 mr heap; Some (MU32 x, mr) }"
  "marshall_read_tag_data ml rd 20 mr heap = do { (x, mr) \<leftarrow> marshall_read_u64 mr heap; Some (MU64 x, mr) }"
  "marshall_read_tag_data ml rd 21 mr heap = do { (x, mr) \<leftarrow> marshall_read_uw mr heap; Some (MUW x, mr) }"
  "marshall_read_tag_data ml rd 22 mr heap = do { (x, mr) \<leftarrow> marshall_read_plist ml rd mr heap; Some (MPlist x, mr) }"
  "marshall_read_tag_data ml rd 23 mr heap = do { (x, mr) \<leftarrow> marshall_read_map rd mr heap; Some (MMap x, mr) }"
  "marshall_read_tag_data ml rd 24 mr heap = do { (x, mr) \<leftarrow> marshall_read_pcall ml rd mr heap; Some (MPcall x, mr) }"
  "marshall_read_tag_data ml rd 32 mr heap = do { (x, mr) \<leftarrow> marshall_read_psym ml mr heap; Some (MPsym x, mr) }"
  "marshall_read_tag_data ml rd 34 mr heap = do { (x, mr) \<leftarrow> marshall_read_ptr mr heap; Some (MPtr x, mr) }"
  "marshall_read_tag_data ml rd 35 mr heap = do { (x, mr) \<leftarrow> marshall_read_ptr_free mr heap; Some (MPtrFree x, mr) }"
  "marshall_read_tag_data ml rd 37 mr heap = do { (x, mr) \<leftarrow> marshall_read_quote rd mr heap; Some (MQuote x, mr) }"
  "marshall_read_tag_data ml rd 38 mr heap = do { (x, mr) \<leftarrow> marshall_read_str mr heap; Some (MStr x, mr) }"
  "marshall_read_tag_data ml rd 39 mr heap = marshall_read_time rd mr heap"
  "marshall_read_tag_data ml rd 40 mr heap = do { (x, mr) \<leftarrow> marshall_read_ptuple ml rd mr heap; Some (MPtuple x, mr) }"
  "marshall_read_tag_data ml rd 41 mr heap = do { (x, mr) \<leftarrow> marshall_read_unquote rd mr heap; Some (MUnquote x, mr) }"
  "marshall_read_tag_data ml rd 42 mr heap = do { (x, mr) \<leftarrow> marshall_read_ident ml mr heap; Some (MIdent x, mr) }"
  by (simp_all add: marshall_read_tag_data_def)

text \<open>The sizes of the parts.\<close>

lemma size_erased_list: "t \<in> set ts \<Longrightarrow> size (erase t) < size_list size (map erase ts)"
  by (induction ts) auto

lemma size_erased_pairs:
  "(k, v) \<in> set kvs \<Longrightarrow> size (erase k) < size_list (size_prod size size) (map (map_prod erase erase) kvs)"
  "(k, v) \<in> set kvs \<Longrightarrow> size (erase v) < size_list (size_prod size size) (map (map_prod erase erase) kvs)"
  by (induction kvs) auto

text \<open>The reader of a tuple differs only where the magic string is missing.\<close>

lemma codec_ptuple_reader:
  assumes "codec ml W S k heap w (\<lambda>mr. marshall_read_p ml ''_KC3PTUPLE_'' (c_str ''Tuple'')
      (\<lambda>mr. marshall_read_tuple rd mr True) OTuple (\<lambda>ob. case ob of OTuple ts \<Rightarrow> Some ts | _ \<Rightarrow> None) mr heap) x"
  shows "codec ml W S k heap w (\<lambda>mr. marshall_read_ptuple ml rd mr heap) x"
proof -
  have "marshall_read_ptuple ml rd mr heap = y"
    if "marshall_read_p ml ''_KC3PTUPLE_'' (c_str ''Tuple'')
      (\<lambda>mr. marshall_read_tuple rd mr True) OTuple (\<lambda>ob. case ob of OTuple ts \<Rightarrow> Some ts | _ \<Rightarrow> None) mr heap = y"
      "y \<noteq> None" for mr y
    using that unfolding marshall_read_p_def marshall_read_ptuple_def marshall_read_1_def
    by (auto split: prod.splits if_splits)
  then show ?thesis using assms unfolding codec_def by fastforce
qed

lemma codec_ptag:
  assumes "\<And>u S. size (erase u) < n \<Longrightarrow> outside W S (size (erase u)) \<Longrightarrow> mtag_ok W u \<Longrightarrow>
      codec ml W S 1 True (\<lambda>m. w m True u) (\<lambda>mr. rd mr True) (erase u)"
    and "ptr_ok W (OTag \<circ> erase) (mtag_ok W) p" "outside W S n" "\<And>a u. p = Addr a u \<Longrightarrow> size (erase u) < n"
  shows "codec ml W S 0 heap (\<lambda>m. marshall_ptag ml w m heap p)
    (\<lambda>mr. marshall_read_ptag ml rd mr heap) (erase_ptr erase p)"
  unfolding marshall_ptag_def marshall_read_ptag_def
proof (rule codec_p)
  fix a u assume p: "p = Addr a u"
  then have W: "W a = OTag (erase u)" and u: "mtag_ok W u" using assms(2) by (simp_all add: ptr_ok_def)
  have n: "size (erase u) < n" by (rule assms(4) [OF p])
  have "a \<notin> S" using n W by (intro outside_not_in [OF assms(3)]) simp
  moreover have "outside W (insert a S) (size (erase u))"
    using n W by (simp add: outside_insert outside_mono [OF assms(3)])
  ultimately show "a \<notin> S \<and> W a = OTag (erase u) \<and> mobj_type (OTag (erase u)) = c_str ''Tag'' \<and>
      (case OTag (erase u) of OTag t \<Rightarrow> Some t | _ \<Rightarrow> None) = Some (erase u) \<and>
      codec ml W (insert a S) 1 True (\<lambda>m. w m True u) (\<lambda>mr. rd mr True) (erase u)"
    using W assms(1) [OF n _ u] by simp
qed simp_all

lemma codec_tag_data:
  assumes IH: "\<And>u S k heap. size (erase u) < size (erase t) \<Longrightarrow> outside W S (size (erase u)) \<Longrightarrow> mtag_ok W u \<Longrightarrow>
      k = 0 \<or> k = 1 \<and> heap \<Longrightarrow>
      codec ml W S k heap (\<lambda>m. marshall_tag ml m heap u) (\<lambda>mr. rd mr heap) (erase u)"
    and "outside W S (size (erase t))" "mtag_ok W t" "marshall_lib_ok ml"
  shows "codec ml W S 0 heap (\<lambda>m. case t of
       MVoid \<Rightarrow> Some m
     | MDoBlock ts short_form \<Rightarrow> marshall_do_block (marshall_tag ml) m heap ts short_form
     | MBool b \<Rightarrow> marshall_bool m heap b
     | MCharacter c \<Rightarrow> marshall_character m heap c
     | MFact subject predicate object fid \<Rightarrow>
         marshall_fact ml (marshall_tag ml) m heap subject predicate object fid
     | MInteger i \<Rightarrow> marshall_integer ml m heap i
     | MRatio n d \<Rightarrow> marshall_ratio ml m heap n d
     | MSW x \<Rightarrow> marshall_sw m heap x
     | MS64 x \<Rightarrow> marshall_s64 m heap x
     | MS32 x \<Rightarrow> marshall_s32 m heap x
     | MS16 x \<Rightarrow> marshall_s16 m heap x
     | MS8 x \<Rightarrow> marshall_s8 m heap x
     | MU8 x \<Rightarrow> marshall_u8 m heap x
     | MU16 x \<Rightarrow> marshall_u16 m heap x
     | MU32 x \<Rightarrow> marshall_u32 m heap x
     | MU64 x \<Rightarrow> marshall_u64 m heap x
     | MUW x \<Rightarrow> marshall_uw m heap x
     | MPlist p \<Rightarrow> marshall_plist ml (marshall_tag ml) m heap p
     | MMap kvs \<Rightarrow> marshall_map (marshall_tag ml) m heap kvs
     | MPcall p \<Rightarrow> marshall_pcall ml (marshall_tag ml) m heap p
     | MPsym p \<Rightarrow> marshall_psym ml m heap p
     | MPtr p \<Rightarrow> marshall_ptr m heap p
     | MPtrFree p \<Rightarrow> marshall_ptr_free m heap p
     | MQuote t \<Rightarrow> marshall_quote (marshall_tag ml) m heap t
     | MStr s \<Rightarrow> marshall_str m heap s
     | MTime sec nsec tags \<Rightarrow> marshall_time (marshall_tag ml) m heap sec nsec tags
     | MPtuple p \<Rightarrow> marshall_ptuple ml (marshall_tag ml) m heap p
     | MUnquote t \<Rightarrow> marshall_unquote (marshall_tag ml) m heap t
     | MIdent i \<Rightarrow> marshall_ident ml m heap i)
    (\<lambda>mr. marshall_read_tag_data ml rd (mtag_type t) mr heap) (erase t)"
proof (cases t)
  case MVoid
  then show ?thesis by (simp add: read_tag_data codec_return)
next
  case (MBool x)
  then show ?thesis by (simp add: read_tag_data codec_into [OF codec_types(1)])
next
  case (MCharacter x)
  then show ?thesis by (simp add: read_tag_data codec_into [OF codec_character])
next
  case (MInteger x)
  then show ?thesis by (simp add: read_tag_data codec_into [OF codec_integer] assms(4))
next
  case (MRatio n d)
  have "codec ml W S 0 heap (\<lambda>m. marshall_ratio ml m heap n d)
    (\<lambda>mr. Option.bind (marshall_read_ratio ml mr heap) (\<lambda>(nd, mr). Some (MRatio (fst nd) (snd nd), mr))) (MRatio n d)"
    by (rule codec_into [OF codec_ratio [OF assms(4)]]) simp
  then show ?thesis using MRatio by (simp add: read_tag_data split_def)
next
  case (MSW x)
  then show ?thesis by (simp add: read_tag_data codec_into [OF codec_sw])
next
  case (MS64 x)
  then show ?thesis by (simp add: read_tag_data codec_into [OF codec_types(5)])
next
  case (MS32 x)
  then show ?thesis by (simp add: read_tag_data codec_into [OF codec_types(4)])
next
  case (MS16 x)
  then show ?thesis by (simp add: read_tag_data codec_into [OF codec_types(3)])
next
  case (MS8 x)
  then show ?thesis by (simp add: read_tag_data codec_into [OF codec_types(2)])
next
  case (MU8 x)
  then show ?thesis by (simp add: read_tag_data codec_into [OF codec_types(6)])
next
  case (MU16 x)
  then show ?thesis by (simp add: read_tag_data codec_into [OF codec_types(7)])
next
  case (MU32 x)
  then show ?thesis by (simp add: read_tag_data codec_into [OF codec_types(8)])
next
  case (MU64 x)
  then show ?thesis by (simp add: read_tag_data codec_into [OF codec_types(9)])
next
  case (MUW x)
  then show ?thesis by (simp add: read_tag_data codec_into [OF codec_uw])
next
  case (MPtr x)
  then show ?thesis by (simp add: read_tag_data codec_into [OF codec_ptr(1)])
next
  case (MPtrFree x)
  then show ?thesis by (simp add: read_tag_data codec_into [OF codec_ptr(2)])
next
  case (MStr x)
  then show ?thesis using assms(3) by (simp add: read_tag_data codec_into [OF codec_str])
next
  case (MPsym p)
  have "outside W S 0" using assms(2) by (rule outside_mono) simp
  then show ?thesis
    using assms(3) MPsym by (simp add: read_tag_data id_def codec_into [OF codec_psym])
next
  case (MIdent i)
  have "outside W S 0" using assms(2) by (rule outside_mono) simp
  then show ?thesis
    using assms(3) MIdent by (simp add: read_tag_data codec_into [OF codec_ident])
next
  case (MQuote u)
  then show ?thesis
    using assms(2,3) unfolding MQuote mtag.case mtag_type.simps read_tag_data mtag.map marshall_quote_def marshall_read_quote_def
    by (intro codec_into [OF codec_seq [OF codec_1]]) (auto intro!: IH elim: outside_mono simp: MQuote)
next
  case (MUnquote u)
  then show ?thesis
    using assms(2,3)
    unfolding MUnquote mtag.case mtag_type.simps read_tag_data mtag.map marshall_unquote_def marshall_read_unquote_def
    by (intro codec_into) (auto intro!: IH elim: outside_mono simp: MUnquote)
next
  case (MDoBlock ts sf)
  have "codec ml W S 0 heap (\<lambda>m. marshall_do_block (marshall_tag ml) m heap ts sf)
    (\<lambda>mr. Option.bind (marshall_read_do_block rd mr heap) (\<lambda>(b, mr). Some (MDoBlock (fst b) (snd b), mr)))
    (MDoBlock (map erase ts) sf)"
    using assms(2,3)
    by (intro codec_into [OF codec_do_block])
      (auto simp: MDoBlock intro!: IH outside_mono [OF assms(2)] dest: size_erased_list)
  then show ?thesis using MDoBlock by (simp add: read_tag_data split_def)
next
  case (MMap kvs)
  have "codec ml W S 0 heap (\<lambda>m. marshall_map (marshall_tag ml) m heap kvs)
    (\<lambda>mr. marshall_read_map rd mr heap) (map (map_prod erase erase) kvs)"
    using assms(3)
    by (intro codec_map_value)
      (auto simp: MMap intro!: IH outside_mono [OF assms(2)] dest: size_erased_pairs)
  then show ?thesis using MMap by (simp add: read_tag_data codec_into)
next
  case (MTime sec nsec tu)
  have "codec ml W S 0 heap (\<lambda>m. marshall_time (marshall_tag ml) m heap sec nsec tu)
    (\<lambda>mr. marshall_read_time rd mr heap) (MTime sec nsec (map_option (map_prod erase erase) tu))"
    using assms(3)
    by (intro codec_time)
      (auto simp: MTime intro!: IH outside_mono [OF assms(2)] split: option.splits)
  then show ?thesis using MTime by (simp add: read_tag_data)
next
  case (MFact sb pr ob i)
  have ptag: "codec ml W S 0 heap (\<lambda>m. marshall_ptag ml (marshall_tag ml) m heap p)
      (\<lambda>mr. marshall_read_ptag ml rd mr heap) (erase_ptr erase p)" if "p = sb \<or> p = pr \<or> p = ob" for p
  proof (rule codec_ptag [of "size (erase t)"])
    show "ptr_ok W (OTag \<circ> erase) (mtag_ok W) p" using assms(3) that by (auto simp: MFact)
    show "size (erase u) < size (erase t)" if "p = Addr a u" for a u
      using that \<open>p = sb \<or> p = pr \<or> p = ob\<close> by (auto simp: MFact)
  qed (auto intro: IH assms(2))
  have "codec ml W S 0 heap (\<lambda>m. marshall_fact ml (marshall_tag ml) m heap sb pr ob i)
    (\<lambda>mr. marshall_read_fact ml rd mr heap)
    (MFact (erase_ptr erase sb) (erase_ptr erase pr) (erase_ptr erase ob) i)"
    unfolding marshall_fact_def marshall_read_fact_def
    by (rule codec_seq [OF codec_1], simp, simp, (rule codec_then [OF ptag], simp)+, rule codec_into [OF codec_uw])
      simp_all
  then show ?thesis using MFact by (simp add: read_tag_data)
next
  case (MPlist p)
  have "codec ml W S 0 heap (\<lambda>m. marshall_plist ml (marshall_tag ml) m heap p)
    (\<lambda>mr. marshall_read_plist ml rd mr heap) (erase_ptr (map_prod erase erase) p)"
    unfolding marshall_plist_def marshall_read_plist_def
  proof (rule codec_p)
    fix a l assume p: "p = Addr a l"
    then have W: "W a = OList (map_prod erase erase l)" and l: "mtag_ok W (fst l)" "mtag_ok W (snd l)"
      using assms(3) by (simp_all add: MPlist ptr_ok_def)
    have n: "osize (W a) \<le> size (erase t)" by (cases l) (simp add: W MPlist p)
    have parts: "size (erase (fst l)) < osize (W a)" "size (erase (snd l)) < osize (W a)" by (simp_all add: W)
    have "codec ml W (insert a S) 1 True (\<lambda>m. marshall_list (marshall_tag ml) m True l)
        (\<lambda>mr. marshall_read_list rd mr True) (map_prod erase erase l)"
      using parts n l by (intro codec_list IH) (auto simp: outside_insert intro!: outside_mono [OF assms(2)])
    then show "a \<notin> S \<and> W a = OList (map_prod erase erase l) \<and> mobj_type (OList (map_prod erase erase l)) = c_str ''List'' \<and>
        (case OList (map_prod erase erase l) of OList l \<Rightarrow> Some l | _ \<Rightarrow> None) = Some (map_prod erase erase l) \<and>
        codec ml W (insert a S) 1 True (\<lambda>m. marshall_list (marshall_tag ml) m True l)
          (\<lambda>mr. marshall_read_list rd mr True) (map_prod erase erase l)"
      using W outside_not_in [OF assms(2) n] by simp
  qed simp_all
  then show ?thesis using MPlist by (simp add: read_tag_data codec_into)
next
  case (MPcall p)
  have "codec ml W S 0 heap (\<lambda>m. marshall_pcall ml (marshall_tag ml) m heap p)
    (\<lambda>mr. marshall_read_pcall ml rd mr heap) (erase_ptr (map_prod erase_ident (map erase)) p)"
    unfolding marshall_pcall_def marshall_read_pcall_def
  proof (rule codec_p)
    fix a c assume p: "p = Addr a c"
    then have W: "W a = OCall (map_prod erase_ident (map erase) c)" and c: "ident_ok W (fst c)" "length (snd c) < 2 ^ 64"
      "\<forall>t\<in>set (snd c). mtag_ok W t"
      using assms(3) by (simp_all add: MPcall ptr_ok_def)
    have n: "osize (W a) \<le> size (erase t)" by (cases c) (simp add: W MPcall p)
    have parts: "size (erase u) < osize (W a)" if "u \<in> set (snd c)" for u
      using size_erased_list [OF that] by (simp add: W)
    have "codec ml W (insert a S) 1 True (\<lambda>m. marshall_call ml (marshall_tag ml) m True c)
        (\<lambda>mr. marshall_read_call ml rd mr True) (map_prod erase_ident (map erase) c)"
      using parts n c
      by (intro codec_call IH) (fastforce simp: outside_insert W intro!: outside_mono [OF assms(2)])+
    then show "a \<notin> S \<and> W a = OCall (map_prod erase_ident (map erase) c) \<and>
        mobj_type (OCall (map_prod erase_ident (map erase) c)) = c_str ''Call'' \<and>
        (case OCall (map_prod erase_ident (map erase) c) of OCall c \<Rightarrow> Some c | _ \<Rightarrow> None) =
          Some (map_prod erase_ident (map erase) c) \<and>
        codec ml W (insert a S) 1 True (\<lambda>m. marshall_call ml (marshall_tag ml) m True c)
          (\<lambda>mr. marshall_read_call ml rd mr True) (map_prod erase_ident (map erase) c)"
      using W outside_not_in [OF assms(2) n] by simp
  qed simp_all
  then show ?thesis using MPcall by (simp add: read_tag_data codec_into)
next
  case (MPtuple p)
  have type: "c_str ''Tuple'' \<noteq> []" "\<not> sym_is_pointer_type (c_str ''Tuple'')" by simp_all
  have "codec ml W S 0 heap (\<lambda>m. marshall_ptuple ml (marshall_tag ml) m heap p)
    (\<lambda>mr. marshall_read_p ml ''_KC3PTUPLE_'' (c_str ''Tuple'') (\<lambda>mr. marshall_read_tuple rd mr True) OTuple
      (\<lambda>ob. case ob of OTuple ts \<Rightarrow> Some ts | _ \<Rightarrow> None) mr heap) (erase_ptr (map erase) p)"
    unfolding marshall_ptuple_def
  proof (rule codec_p [OF _ type])
    fix a ts assume p: "p = Addr a ts"
    then have W: "W a = OTuple (map erase ts)" and ts: "2 \<le> length ts" "length ts < 2 ^ 64" "\<forall>t\<in>set ts. mtag_ok W t"
      using assms(3) by (simp_all add: MPtuple ptr_ok_def)
    have n: "osize (W a) \<le> size (erase t)" by (simp add: W MPtuple p)
    have parts: "size (erase u) < osize (W a)" if "u \<in> set ts" for u
      using size_erased_list [OF that] by (simp add: W)
    have "codec ml W (insert a S) 1 True (\<lambda>m. marshall_tuple (marshall_tag ml) m True ts)
        (\<lambda>mr. marshall_read_tuple rd mr True) (map erase ts)"
      using parts n ts
      by (intro codec_tuple IH) (fastforce simp: outside_insert intro!: outside_mono [OF assms(2)])+
    then show "a \<notin> S \<and> W a = OTuple (map erase ts) \<and> mobj_type (OTuple (map erase ts)) = c_str ''Tuple'' \<and>
        (case OTuple (map erase ts) of OTuple ts \<Rightarrow> Some ts | _ \<Rightarrow> None) = Some (map erase ts) \<and>
        codec ml W (insert a S) 1 True (\<lambda>m. marshall_tuple (marshall_tag ml) m True ts)
          (\<lambda>mr. marshall_read_tuple rd mr True) (map erase ts)"
      using W outside_not_in [OF assms(2) n] by simp
  qed simp
  then have "codec ml W S 0 heap (\<lambda>m. marshall_ptuple ml (marshall_tag ml) m heap p)
    (\<lambda>mr. marshall_read_ptuple ml rd mr heap) (erase_ptr (map erase) p)"
    by (rule codec_ptuple_reader)
  then show ?thesis using MPtuple by (simp add: read_tag_data codec_into)
qed

text \<open>Tags: any fuel above the size of the value is enough.\<close>

lemma codec_tag:
  assumes "marshall_lib_ok ml" "size (erase t) < n" "outside W S (size (erase t))" "mtag_ok W t" "k = 0 \<or> k = 1 \<and> heap"
  shows "codec ml W S k heap (\<lambda>m. marshall_tag ml m heap t) (\<lambda>mr. marshall_read_tag ml n mr heap) (erase t)"
  using assms(2-)
proof (induction n arbitrary: t S k heap)
  case (Suc n)
  have "codec ml W S k heap (\<lambda>m. marshall_tag ml m heap u) (\<lambda>mr. marshall_read_tag ml n mr heap) (erase u)"
    if "size (erase u) < size (erase t)" "outside W S (size (erase u))" "mtag_ok W u" "k = 0 \<or> k = 1 \<and> heap"
    for u S k heap
    using that Suc.prems(1) by (intro Suc.IH) simp_all
  note data = codec_tag_data [of t W ml "marshall_read_tag ml n", OF this Suc.prems(2,3) assms(1)]
  show ?case
    unfolding marshall_tag.simps [of ml _ heap t] marshall_read_tag.simps
    by (rule codec_seq [OF codec_1 [OF _ Suc.prems(4)]], simp, rule codec_then [OF codec_types(6)], simp)
      (hypsubst, rule data)
qed simp

end
