(* ===== verification/Marshall_Message.thy ===== *)
theory Marshall_Message
  imports Marshall_Values
begin

text \<open>
  Whole messages: what is written is read back.

  A message begins with a header of 40 bytes; the heap and then the buffer follow.  A reader takes
  them from a string, where they are, or from another buffer, chunk by chunk.
\<close>

section \<open>Tags as strings\<close>

definition kc3_marshall_tag_to_str :: "marshall_lib \<Rightarrow> u64 mtag \<Rightarrow> u8 list option" where
  "kc3_marshall_tag_to_str ml tag = do {
     m \<leftarrow> marshall_init (128 * 1024 * 1024);
     m \<leftarrow> marshall_tag ml m False tag;
     (str, m) \<leftarrow> marshall_to_str m;
     Some str }"

definition kc3_marshall_read_tag_from_str :: "marshall_lib \<Rightarrow> nat \<Rightarrow> u8 list \<Rightarrow> unit mtag option" where
  "kc3_marshall_read_tag_from_str ml fuel input = do {
     mr \<leftarrow> marshall_read_init_str input;
     (tag, mr) \<leftarrow> marshall_read_tag ml fuel mr False;
     Some tag }"

section \<open>The bytes of a message\<close>

definition marshall_bytes :: "marshall \<Rightarrow> u8 list" where
  "marshall_bytes m = marshall_header m @ buf_bytes (m_heap m) @ buf_bytes (m_buf m)"

lemma length_header [simp]: "length (marshall_header m) = marshall_header_size"
  by (simp add: marshall_header_def marshall_header_size_def)

lemma xfer_all:
  assumes "buf_ok src" "buf_rpos src = 0" "buf_ok dest"
    and "buf_xfer dest src (buf_wpos src) = (r, dest', src')" "r = int (buf_wpos src)"
  shows "dest' = buf_append dest (buf_bytes src)" "buf_ok dest'"
proof -
  have "dest' = buf_append dest (buf_bytes src) \<and> buf_ok dest'"
  proof (cases "buf_wpos src = 0")
    case True
    then show ?thesis using assms by (simp add: buf_xfer_def buf_wpos_def)
  next
    case False
    then show ?thesis
      using assms by (auto simp: buf_xfer_def buf_ok_def buf_wpos_def Let_def split: if_splits)
  qed
  then show "dest' = buf_append dest (buf_bytes src)" "buf_ok dest'" by blast+
qed

lemma to_buf_bytes:
  assumes "wf_marshall 0 heap m" "buf_ok out" "marshall_to_buf m out = (r, m', out')" "0 < r"
  shows "out' = buf_append out (marshall_bytes m)" "buf_ok out'"
proof -
  have m: "buf_ok (m_heap m)" "buf_rpos (m_heap m) = 0" "m_heap_pos m = buf_wpos (m_heap m)"
    "buf_ok (m_buf m)" "buf_rpos (m_buf m) = 0" "m_buf_pos m = buf_wpos (m_buf m)"
    using assms(1) by (simp_all add: wf_marshall_def)
  obtain r0 out0 where w: "buf_write out (marshall_header m) = (r0, out0)" by fastforce
  then have r0: "r0 = int marshall_header_size"
    using assms(3,4) by (auto simp: marshall_to_buf_def split: if_splits)
  then have "buf_wpos out + marshall_header_size \<le> buf_size out"
    using buf_write_iff [OF assms(2), of "marshall_header m"] w by (simp add: marshall_header_size_def)
  then have out0: "out0 = buf_append out (marshall_header m)" "buf_ok out0"
    using buf_write_fits [OF assms(2), of "marshall_header m"] w assms(2) by (auto simp: buf_ok_def buf_wpos_def)
  obtain r1 out1 h where x1: "buf_xfer out0 (m_heap m) (buf_wpos (m_heap m)) = (r1, out1, h)" by (metis prod_cases3)
  then have r1: "r1 = int (buf_wpos (m_heap m))"
    using assms(3,4) w r0 m(3) by (auto simp: marshall_to_buf_def split: if_splits prod.splits)
  note out1 = xfer_all [OF m(1,2) out0(2) x1 r1]
  obtain r2 out2 b where x2: "buf_xfer out1 (m_buf m) (buf_wpos (m_buf m)) = (r2, out2, b)" by (metis prod_cases3)
  then have r2: "r2 = int (buf_wpos (m_buf m))"
    using assms(3,4) w r0 m(3,6) x1 r1 by (auto simp: marshall_to_buf_def split: if_splits prod.splits)
  note out2 = xfer_all [OF m(4,5) out1(2) x2 r2]
  have "out' = out2"
    using assms(3,4) w r0 m(3,6) x1 r1 x2 r2 by (auto simp: marshall_to_buf_def split: if_splits)
  then show "out' = buf_append out (marshall_bytes m)" "buf_ok out'"
    using out2 out1 out0 by (simp_all add: marshall_bytes_def)
qed

section \<open>The header\<close>

lemma header_fields:
  "le_word (take 8 (marshall_header m)) = marshall_magic"
  "le_word (take 8 (drop 8 (marshall_header m))) = (of_nat (m_heap_offset m) :: u64)"
  "le_word (take 8 (drop 16 (marshall_header m))) = (of_nat (m_heap_count m) :: u64)"
  "le_word (take 8 (drop 24 (marshall_header m))) = (of_nat (m_heap_pos m) :: u64)"
  "le_word (take 8 (drop 32 (marshall_header m))) = (of_nat (m_buf_pos m) :: u64)"
  by (simp_all add: marshall_header_def le_word_bytes_full)

definition header_ok :: "marshall \<Rightarrow> bool" where
  "header_ok m \<longleftrightarrow> m_heap_count m \<le> m_heap_pos m \<and> (0 < m_heap_pos m \<longrightarrow> 0 < m_heap_count m) \<and>
    m_heap_offset m + marshall_header_size + m_heap_pos m + m_buf_pos m \<le> 2 ^ 60"

lemma read_header:
  assumes "buf_next (mr_buf mr) (marshall_header m)" "header_ok m"
  shows "marshall_read_header mr = Some (mr\<lparr>mr_buf := buf_forward (mr_buf mr) marshall_header_size,
    mr_ht := (if m_heap_count m = 0 then None else ht_init (m_heap_count m)),
    mr_heap_offset := m_heap_offset m, mr_heap_count := m_heap_count m, mr_heap_size := m_heap_pos m,
    mr_buf_size := m_buf_pos m, mr_ht_failed := False\<rparr>)"
proof -
  have le: "m_heap_offset m \<le> 2 ^ 60" "m_heap_count m \<le> 2 ^ 60" "m_heap_pos m \<le> 2 ^ 60" "m_buf_pos m \<le> 2 ^ 60"
    using assms(2) unfolding header_ok_def by linarith+
  then have words: "unat (of_nat (m_heap_offset m) :: u64) = m_heap_offset m" "unat (of_nat (m_heap_count m) :: u64) = m_heap_count m"
    "unat (of_nat (m_heap_pos m) :: u64) = m_heap_pos m" "unat (of_nat (m_buf_pos m) :: u64) = m_buf_pos m"
    by (auto intro!: unat_u64)
  have read: "buf_read (mr_buf mr) marshall_header_size =
      (Some (marshall_header m), buf_forward (mr_buf mr) marshall_header_size)"
    using buf_read_next [OF assms(1)] by simp
  have ht: "m_heap_count m \<noteq> 0 \<Longrightarrow> ht_init (m_heap_count m) \<noteq> (None :: read_entry ht option)"
    using le by (simp add: ht_init_def)
  have bounds: "\<not> ((2 ^ 64 - 1) div 8 < m_heap_count m \<or> SW_MAX < m_heap_offset m \<or>
      SW_MAX - marshall_header_size < m_heap_pos m \<or> SW_MAX - marshall_header_size - m_heap_pos m < m_buf_pos m \<or>
      SW_MAX - m_heap_pos m < m_heap_offset m)"
    using assms(2) le unfolding header_ok_def SW_MAX_def marshall_header_size_def by (simp, arith)
  have counts: "\<not> (m_heap_pos m \<noteq> 0 \<and> m_heap_count m = 0 \<or> m_heap_pos m < m_heap_count m)"
    using assms(2) unfolding header_ok_def by linarith
  have max: "\<not> (SW_MAX < m_heap_pos m \<or> SW_MAX < m_buf_pos m)"
    using le by (simp add: SW_MAX_def)
  show ?thesis
    unfolding marshall_read_header_def marshall_read_header_limit_def read
    using bounds counts max ht by (auto simp: header_fields words Let_def)
qed

section \<open>A written tag\<close>

lemma init_wf:
  assumes "marshall_init sz = Some m"
  shows "wf_marshall 0 False m" "m_heap_offset m = 0" "m_heap_pos m = 0" "m_buf_pos m = 0"
    and "written_at ml (m_ht m) a = None"
proof -
  obtain ht where ht: "ht_init 1024 = Some ht"
    "m = \<lparr>m_buf = buf_init_alloc sz, m_buf_pos = 0, m_heap = buf_init_alloc sz,
      m_heap_pos = 0, m_heap_count = 0, m_heap_offset = 0, m_ht = ht\<rparr>"
    using assms by (auto simp: marshall_init_def split: option.splits)
  show "wf_marshall 0 False m" "m_heap_offset m = 0" "m_heap_pos m = 0" "m_buf_pos m = 0"
    using written.get_init [OF ht(1), THEN conjunct1] ht(2)
    by (simp_all add: wf_marshall_def buf_init_alloc_def buf_ok_def buf_wpos_def)
  show "written_at ml (m_ht m) a = None"
    using written.get_init [OF ht(1), THEN conjunct2] ht(2) by (simp add: written_at_def written_functions)
qed

lemma read_at_init: "ht_init n = Some ht \<Longrightarrow> read_at ml ht key = None"
  unfolding read_at_def read_functions by (simp add: read.get_init)

text \<open>The message of a tag, for a reader that finds its parts behind some other bytes.\<close>

definition message_of :: "u8 list \<Rightarrow> u8 list \<Rightarrow> marshall \<Rightarrow> message" where
  "message_of bb hb m = \<lparr>msg_buf_before = bb, msg_heap_before = hb, msg_buf = buf_bytes (m_buf m),
    msg_heap = buf_bytes (m_heap m), msg_count = m_heap_count m, msg_offset = m_heap_offset m\<rparr>"

lemma read_written:
  assumes ml: "marshall_lib_ok ml" and t: "mtag_ok W t" and init: "marshall_init sz = Some m0"
    and w: "marshall_tag ml m0 False t = Some m"
    and header: "header_ok m" and hb: "length hb \<le> marshall_header_size"
    and fuel: "size (erase t) < n"
    and buf: "buf_bytes (mr_buf mr) = bb @ buf_bytes (m_buf m)" "buf_ok (mr_buf mr)" "buf_rpos (mr_buf mr) = length bb"
    and heap: "buf_bytes (mr_heap mr) = hb @ buf_bytes (m_heap m)" "buf_ok (mr_heap mr)"
    and state: "mr_ht mr = (if m_heap_count m = 0 then None else ht_init (m_heap_count m))"
      "mr_heap_offset mr = m_heap_offset m" "mr_heap_size mr = m_heap_pos m" "\<not> mr_ht_failed mr"
      "mr_heap_start mr = int (length hb) - int marshall_header_size"
  shows "\<exists>mr'. marshall_read_tag ml n mr False = Some (erase t, mr')"
proof -
  define F where "F = message_of bb hb m"
  note F = F_def message_of_def
  have "codec ml W {} 0 False (\<lambda>m. marshall_tag ml m False t) (\<lambda>mr. marshall_read_tag ml n mr False) (erase t)"
    by (rule codec_tag [OF ml fuel _ t]) (simp_all add: outside_def)
  note tag = codecD [OF this init_wf(1) [OF init] w]
  have len: "m_heap_pos m = length (buf_bytes (m_heap m))"
    using tag(1) by (simp add: wf_marshall_def buf_wpos_def)
  have cov: "covers F m" by (simp add: covers_def F)
  have lim: "msg_limit F"
    using header hb len by (auto simp: msg_limit_def F header_ok_def SW_MAX_def)
  have ht: "m_heap_count m = 0 \<or> (\<exists>ht. mr_ht mr = Some ht)"
    using header state(1) by (auto simp: ht_init_def header_ok_def)
  have tables: "tables_agree ml W {} F 0 (m_ht m0) (mr_ht mr) Map.empty"
  proof (cases "mr_ht mr")
    case None
    then show ?thesis using init_wf(5) [OF init] by (simp add: tables_agree_def)
  next
    case (Some ht)
    then have init_ht: "ht_init (m_heap_count m) = Some ht" using state(1) by (simp split: if_splits)
    show ?thesis
      using init_wf(5) [OF init] read.get_init [OF init_ht, THEN conjunct1] read_at_init [OF init_ht]
      by (simp add: tables_agree_def Some)
  qed
  have "located ml W {} 0 False F m0 mr"
    using tables init_wf(3,4) [OF init] buf heap state len ht
    unfolding located_def by (auto simp: F)
  then show ?thesis using tag(3) [OF cov lim] by blast
qed

section \<open>From the string and back\<close>

lemma written_header:
  assumes "marshall_init sz = Some m0" "wf_marshall 0 False m" "m_extends ml 0 False m0 m"
    and "m_heap_pos m + m_buf_pos m \<le> 2 ^ 59"
  shows "header_ok m"
  using assms(2-) init_wf(2) [OF assms(1)]
  by (simp add: header_ok_def wf_marshall_def m_extends_def marshall_header_size_def)

lemma to_str_bytes:
  assumes "wf_marshall 0 False m" "marshall_to_str m = Some (str, m')"
  shows "str = marshall_bytes m" "marshall_header_size + m_heap_pos m + m_buf_pos m \<le> 1024 * 1024"
proof -
  obtain r m1 out where out: "marshall_to_buf m (buf_init_alloc (1024 * 1024)) = (r, m1, out)"
    by (metis prod_cases3)
  then have r: "0 < r" using assms(2) by (auto simp: marshall_to_str_def split: if_splits)
  have init: "buf_ok (buf_init_alloc (1024 * 1024))" by (simp add: buf_ok_def buf_init_alloc_def buf_wpos_def)
  note bytes = to_buf_bytes [OF assms(1) init out r]
  then have "out = (buf_init_alloc (1024 * 1024))\<lparr>buf_bytes := marshall_bytes m\<rparr>" "length (marshall_bytes m) \<le> 1024 * 1024"
    by (auto simp: buf_init_alloc_def buf_ok_def buf_wpos_def)
  then show "str = marshall_bytes m" "marshall_header_size + m_heap_pos m + m_buf_pos m \<le> 1024 * 1024"
    using assms out r
    by (auto simp: marshall_to_str_def buf_read_to_str_def buf_init_alloc_def marshall_bytes_def wf_marshall_def
        buf_wpos_def Let_def split: prod.splits got.splits if_splits)
qed

lemma init_str_bytes:
  assumes "wf_marshall 0 False m" "header_ok m"
  shows "\<exists>mr. marshall_read_init_str (marshall_bytes m) = Some mr \<and>
    buf_bytes (mr_buf mr) = (marshall_header m @ buf_bytes (m_heap m)) @ buf_bytes (m_buf m) \<and>
    buf_ok (mr_buf mr) \<and> buf_rpos (mr_buf mr) = length (marshall_header m @ buf_bytes (m_heap m)) \<and>
    buf_bytes (mr_heap mr) = marshall_header m @ buf_bytes (m_heap m) \<and> buf_ok (mr_heap mr) \<and>
    mr_ht mr = (if m_heap_count m = 0 then None else ht_init (m_heap_count m)) \<and>
    mr_heap_offset mr = m_heap_offset m \<and> mr_heap_size mr = m_heap_pos m \<and> \<not> mr_ht_failed mr \<and>
    mr_heap_start mr = int (length (marshall_header m)) - int marshall_header_size"
proof -
  have len: "m_heap_pos m = length (buf_bytes (m_heap m))" "m_buf_pos m = length (buf_bytes (m_buf m))"
    using assms(1) by (simp_all add: wf_marshall_def buf_wpos_def)
  have "buf_next (buf_init_str_copy (marshall_bytes m)) (marshall_header m)"
    by (simp add: buf_next_def buf_ok_def buf_wpos_def buf_init_str_copy_def marshall_bytes_def)
  from read_header [OF _ assms(2), of "\<lparr>mr_buf = buf_init_str_copy (marshall_bytes m), mr_source = None,
      mr_buf_size = 0, mr_heap = buf_init_alloc 0, mr_heap_count = 0, mr_heap_offset = 0, mr_heap_size = 0,
      mr_heap_start = 0, mr_ht = None, mr_ht_failed = False\<rparr>"] this
  show ?thesis
    unfolding marshall_read_init_str_def
    by (simp add: Let_def buf_init_str_copy_def buf_wpos_def buf_ok_def marshall_bytes_def len)
qed

lemma tag_roundtrip:
  assumes "marshall_lib_ok ml" "mtag_ok W t" "kc3_marshall_tag_to_str ml t = Some str"
    and "size (erase t) < fuel"
  shows "kc3_marshall_read_tag_from_str ml fuel str = Some (erase t)"
proof -
  obtain m0 m m' where m: "marshall_init (128 * 1024 * 1024) = Some m0" "marshall_tag ml m0 False t = Some m"
    "marshall_to_str m = Some (str, m')"
    using assms(3) by (auto simp: kc3_marshall_tag_to_str_def bind_eq_Some_conv)
  have "codec ml W {} 0 False (\<lambda>m. marshall_tag ml m False t) (\<lambda>mr. marshall_read_tag ml fuel mr False) (erase t)"
    by (rule codec_tag [OF assms(1,4) _ assms(2)]) (simp_all add: outside_def)
  note tag = codecD [OF this init_wf(1) [OF m(1)] m(2)]
  note str = to_str_bytes [OF tag(1) m(3)]
  have header: "header_ok m" using str(2) by (intro written_header [OF m(1) tag(1,2)]) simp
  obtain mr where mr: "marshall_read_init_str str = Some mr"
    "buf_bytes (mr_buf mr) = (marshall_header m @ buf_bytes (m_heap m)) @ buf_bytes (m_buf m)"
    "buf_ok (mr_buf mr)" "buf_rpos (mr_buf mr) = length (marshall_header m @ buf_bytes (m_heap m))"
    "buf_bytes (mr_heap mr) = marshall_header m @ buf_bytes (m_heap m)" "buf_ok (mr_heap mr)"
    "mr_ht mr = (if m_heap_count m = 0 then None else ht_init (m_heap_count m))"
    "mr_heap_offset mr = m_heap_offset m" "mr_heap_size mr = m_heap_pos m" "\<not> mr_ht_failed mr"
    "mr_heap_start mr = int (length (marshall_header m)) - int marshall_header_size"
    using init_str_bytes [OF tag(1) header] str(1) by blast
  have "length (marshall_header m) \<le> marshall_header_size" by simp
  from read_written [OF assms(1,2) m(1,2) header this assms(4) mr(2-)]
  show ?thesis by (auto simp: kc3_marshall_read_tag_from_str_def mr(1))
qed


end
