(* ===== verification/Marshall_Room.thy ===== *)
theory Marshall_Room
  imports Marshall_Message
begin

text \<open>
  Writing succeeds where there is room: \<open>mtag_room\<close> bounds the bytes of a value, and a marshaller
  with that much room in both of its buffers writes the value.
\<close>

section \<open>Room\<close>

text \<open>
  \<open>N\<close> bounds the bytes of both buffers together; the offsets in the table are positions below \<open>N\<close>.
\<close>

definition room :: "marshall_lib \<Rightarrow> nat \<Rightarrow> marshall \<Rightarrow> nat \<Rightarrow> bool" where
  "room ml N m n \<longleftrightarrow> buf_wpos (m_buf m) + buf_wpos (m_heap m) + n \<le> N \<and>
    N \<le> buf_size (m_buf m) \<and> N \<le> buf_size (m_heap m) \<and> marshall_header_size + N < 2 ^ 63 \<and>
    (\<forall>a off. written_at ml (m_ht m) a = Some off \<longrightarrow>
      (\<exists>d\<le>N. off = of_nat (marshall_header_size + m_heap_offset m + d)))"

definition fits :: "marshall_lib \<Rightarrow> nat \<Rightarrow> nat \<Rightarrow> bool \<Rightarrow> (marshall \<Rightarrow> marshall option) \<Rightarrow> nat \<Rightarrow> bool" where
  "fits ml N k heap w n \<longleftrightarrow> (\<forall>m r. wf_marshall k heap m \<longrightarrow> room ml N m (n + r) \<longrightarrow>
    (\<exists>m'. w m = Some m' \<and> wf_marshall 0 heap m' \<and> room ml N m' r))"

lemma room_mono: "room ml N m n \<Longrightarrow> n' \<le> n \<Longrightarrow> room ml N m n'"
  by (auto simp: room_def)

lemma fits_mono: "fits ml N k heap w n \<Longrightarrow> n \<le> n' \<Longrightarrow> fits ml N k heap w n'"
  unfolding fits_def by (meson add_le_mono1 room_mono)

lemma fits_return: "fits ml N 0 heap Some 0"
  by (simp add: fits_def)

lemma fits_seq:
  assumes "fits ml N k heap w n" "fits ml N 0 heap w' n'" "n + n' \<le> s"
  shows "fits ml N k heap (\<lambda>m. Option.bind (w m) w') s"
proof -
  have "fits ml N k heap (\<lambda>m. Option.bind (w m) w') (n + n')"
    using assms(1,2) unfolding fits_def by (fastforce simp: add.assoc)
  then show ?thesis using assms(3) by (rule fits_mono)
qed

lemma fits_step:
  assumes "fits ml N k heap w a" "a \<le> n" "fits ml N 0 heap w' (n - a)"
  shows "fits ml N k heap (\<lambda>m. Option.bind (w m) w') n"
  using assms(2) by (intro fits_seq [OF assms(1,3)]) simp

definition writes_all :: "(buf \<Rightarrow> int \<times> buf) \<Rightarrow> u8 list \<Rightarrow> bool" where
  "writes_all f bs \<longleftrightarrow> bs \<noteq> [] \<and> (\<forall>b. buf_ok b \<longrightarrow> buf_base_column b = 0 \<longrightarrow>
    buf_wpos b + length bs \<le> buf_size b \<longrightarrow> f b = (int (length bs), buf_append b bs))"

lemma room_append:
  "room ml N m (length bs + r) \<Longrightarrow> room ml N (m_append m heap bs) r"
  by (auto simp: room_def m_append_def buf_wpos_def)

lemma fits_bytes:
  assumes "writes_all f bs" "k = 0 \<or> k = 1 \<and> heap" "length bs \<le> n"
  shows "fits ml N k heap (\<lambda>m. marshall_put m heap (f (m_target m heap))) n"
proof -
  have "fits ml N k heap (\<lambda>m. marshall_put m heap (f (m_target m heap))) (length bs)"
    unfolding fits_def
  proof (intro allI impI)
    fix m r assume wf: "wf_marshall k heap m" and room: "room ml N m (length bs + r)"
    have bs: "bs \<noteq> []" using assms(1) by (simp add: writes_all_def)
    have fit: "buf_wpos (m_target m heap) + length bs \<le> buf_size (m_target m heap)"
      using room by (auto simp: room_def m_target_def)
    have "buf_ok (m_target m heap)" "buf_base_column (m_target m heap) = 0"
      using wf by (simp_all add: wf_marshall_def m_target_def)
    then have "f (m_target m heap) = (int (length bs), buf_append (m_target m heap) bs)"
      using assms(1) fit by (simp add: writes_all_def)
    then have "marshall_put m heap (f (m_target m heap)) = Some (m_append m heap bs)"
      using bs by (simp add: marshall_put_def m_append_def m_target_def)
    then show "\<exists>m'. marshall_put m heap (f (m_target m heap)) = Some m' \<and> wf_marshall 0 heap m' \<and> room ml N m' r"
      using append_wf(1) [OF wf bs assms(2) fit] room_append [OF room] by simp
  qed
  then show ?thesis using assms(3) by (rule fits_mono)
qed

section \<open>Machine types, strings and integers\<close>

lemma writes_all_1: "ascii p \<Longrightarrow> writes_all (\<lambda>b. buf_write_1 b p) (c_str p)"
  unfolding writes_all_def using c_str_not_empty buf_write_1_fits by simp

lemma writes_all_mem: "bs \<noteq> [] \<Longrightarrow> writes_all (\<lambda>b. buf_write_mem b bs) bs"
  by (simp add: writes_all_def buf_write_mem_iff)

lemma writes_all_types:
  "writes_all (\<lambda>b. buf_write_u8 b x1) (le_bytes 1 x1)" "writes_all (\<lambda>b. buf_write_u16 b x2) (le_bytes 2 x2)"
  "writes_all (\<lambda>b. buf_write_u32 b x4) (le_bytes 4 x4)" "writes_all (\<lambda>b. buf_write_u64 b x8) (le_bytes 8 x8)"
  "writes_all (\<lambda>b. buf_write_bool b y) [if y then 1 else 0]"
  unfolding buf_write_u8_def buf_write_u16_def buf_write_u32_def buf_write_u64_def buf_write_bool_def
  by (rule writes_all_mem; simp add: numeral_eq_Suc)+

lemma fits_1:
  assumes "ascii p" "k = 0 \<or> k = 1 \<and> heap" "length p \<le> n"
  shows "fits ml N k heap (\<lambda>m. marshall_1 m heap p) n"
proof -
  have ne: "p \<noteq> []" using assms(1) by (simp add: ascii_def)
  show ?thesis
    unfolding marshall_1_def if_not_P [OF ne] using assms(3)
    by (intro fits_bytes [OF writes_all_1 [OF assms(1)] assms(2)]) simp
qed

lemma fits_value:
  assumes "ascii p" "writes_all f bs" "k = 0 \<or> k = 1 \<and> heap" "length p + length bs \<le> n"
  shows "fits ml N k heap (\<lambda>m. marshall_value m heap p f) n"
  unfolding marshall_value_def
  by (rule fits_seq [OF fits_bytes [OF writes_all_1 [OF assms(1)] assms(3)] fits_bytes [OF assms(2)]])
    (use assms(4) in simp_all)

lemma fits_types:
  assumes "k = 0 \<or> k = 1 \<and> heap" "18 \<le> n"
  shows "fits ml N k heap (\<lambda>m. marshall_bool m heap b) n"
    and "fits ml N k heap (\<lambda>m. marshall_s8 m heap x1) n"
    and "fits ml N k heap (\<lambda>m. marshall_s16 m heap x2) n"
    and "fits ml N k heap (\<lambda>m. marshall_s32 m heap x4) n"
    and "fits ml N k heap (\<lambda>m. marshall_s64 m heap x8) n"
    and "fits ml N k heap (\<lambda>m. marshall_u8 m heap x1) n"
    and "fits ml N k heap (\<lambda>m. marshall_u16 m heap x2) n"
    and "fits ml N k heap (\<lambda>m. marshall_u32 m heap x4) n"
    and "fits ml N k heap (\<lambda>m. marshall_u64 m heap x8) n"
  unfolding codec_types_defs using assms(2)
  by - (rule fits_value [OF _ writes_all_types(5) assms(1)] fits_value [OF _ writes_all_types(1) assms(1)]
      fits_value [OF _ writes_all_types(2) assms(1)] fits_value [OF _ writes_all_types(3) assms(1)]
      fits_value [OF _ writes_all_types(4) assms(1)]; simp)+

lemma fits_uw: "k = 0 \<or> k = 1 \<and> heap \<Longrightarrow> 26 \<le> n \<Longrightarrow> fits ml N k heap (\<lambda>m. marshall_uw m heap x) n"
  unfolding marshall_uw_def by (rule fits_seq [OF fits_1 [OF _ _ le_refl] fits_types(9) [OF _ le_refl]]) simp_all

lemma fits_sw: "k = 0 \<or> k = 1 \<and> heap \<Longrightarrow> 26 \<le> n \<Longrightarrow> fits ml N k heap (\<lambda>m. marshall_sw m heap x) n"
  unfolding marshall_sw_def by (rule fits_seq [OF fits_1 [OF _ _ le_refl] fits_types(5) [OF _ le_refl]]) simp_all

lemma fits_character:
  assumes "c < 0x110000" "4 \<le> n"
  shows "fits ml N 0 heap (\<lambda>m. marshall_character m heap c) n"
proof -
  obtain bs where bs: "character_utf8 c = Some bs" using character_utf8_Some [OF assms(1)] by blast
  have "length bs \<le> 4" using bs by (auto simp: character_utf8_def split: if_splits)
  moreover have "writes_all (\<lambda>b. buf_write_character_utf8 b c) bs"
    unfolding writes_all_def using buf_write_character_iff [OF bs] character_utf8_nonempty [OF assms(1)] bs by auto
  ultimately show ?thesis
    unfolding marshall_character_def using assms(2) by (intro fits_bytes) auto
qed

lemma fits_str:
  assumes "k = 0 \<or> k = 1 \<and> heap" "length s + 26 \<le> n"
  shows "fits ml N k heap (\<lambda>m. marshall_str m heap s) n"
proof -
  have "fits ml N 0 heap (\<lambda>m. if s = [] then Some m else marshall_put m heap (buf_write (m_target m heap) s)) (length s)"
  proof (cases "s = []")
    case False
    then have "writes_all (\<lambda>b. buf_write b s) s" by (simp add: writes_all_def buf_write_fits)
    from fits_bytes [OF this _ le_refl] show ?thesis using False by simp
  qed (simp add: fits_return)
  then show ?thesis
    unfolding marshall_str_def using assms
    by (intro fits_step [OF fits_1 [OF _ _ le_refl]] fits_step [OF fits_types(8) [OF _ le_refl]])
      (simp_all add: fits_mono)
qed

lemma fits_sym:
  "k = 0 \<or> k = 1 \<and> heap \<Longrightarrow> length s + 34 \<le> n \<Longrightarrow> fits ml N k heap (\<lambda>m. marshall_sym m heap s) n"
  unfolding marshall_sym_def by (rule fits_seq [OF fits_1 [OF _ _ le_refl] fits_str [OF _ le_refl]]) simp_all

definition integer_room :: "marshall_lib \<Rightarrow> int \<Rightarrow> nat" where
  "integer_room ml i = 17 + 4 * ml_pack_count ml i"

text \<open>The count of the digits fits its field and packing them does not fail.\<close>

definition integer_packs :: "marshall_lib \<Rightarrow> int \<Rightarrow> bool" where
  "integer_packs ml i \<longleftrightarrow> ml_pack_count ml i < 2 ^ 32 \<and> ml_pack ml i (ml_pack_count ml i) \<noteq> None"

lemma fits_integer:
  assumes "marshall_lib_ok ml" "integer_packs ml i" "integer_room ml i \<le> n"
  shows "fits ml N 0 heap (\<lambda>m. marshall_integer ml m heap i) n"
proof -
  define c where "c = ml_pack_count ml i"
  obtain bs where bs: "ml_pack ml i c = Some (bs, c)" "length bs = 4 * c"
    using assms(1,2) by (fastforce simp: marshall_lib_ok_def integer_packs_def c_def)
  have digits: "fits ml N 0 heap (\<lambda>m. if c = 0 then Some m else marshall_digits ml m heap i c) (4 * c)"
  proof (cases "c = 0")
    case False
    define f where "f = (\<lambda>b. if buf_size b < buf_wpos b + c * 4 then (- 1, b) else (int (c * 4), buf_append b bs))"
    have "marshall_digits ml m heap i c = marshall_put m heap (f (m_target m heap))" for m
      by (simp add: marshall_digits_def f_def bs Let_def marshall_put_def)
    moreover have "bs \<noteq> []" using bs(2) False by (cases bs) auto
    then have writes: "writes_all f bs" using bs(2) by (simp add: writes_all_def f_def)
    have "fits ml N 0 heap (\<lambda>m. marshall_put m heap (f (m_target m heap))) (4 * c)"
      using bs(2) by (intro fits_bytes [OF writes]) simp_all
    ultimately show ?thesis using False by simp
  qed (simp add: fits_return)
  have "\<not> 2 ^ 32 - 1 < c" using assms(2) by (simp add: integer_packs_def c_def)
  then show ?thesis
    unfolding marshall_integer_def c_def [symmetric] Let_def if_not_P [OF \<open>\<not> _\<close>]
    using assms(3) unfolding integer_room_def c_def [symmetric]
    by (intro fits_step [OF fits_1 [OF _ _ le_refl]] fits_step [OF fits_bytes [OF writes_all_types(1) _ le_refl]]
        fits_step [OF fits_bytes [OF writes_all_types(3) _ le_refl]]) (simp_all add: fits_mono [OF digits])
qed

lemma fits_ratio:
  assumes "marshall_lib_ok ml" "integer_packs ml i" "integer_packs ml j" "11 + integer_room ml i + integer_room ml j \<le> n"
  shows "fits ml N 0 heap (\<lambda>m. marshall_ratio ml m heap i j) n"
  unfolding marshall_ratio_def using assms(4)
  by (intro fits_step [OF fits_1 [OF _ _ le_refl]] fits_step [OF fits_integer [OF assms(1,2) le_refl]]
      fits_integer [OF assms(1,3)]) simp_all

section \<open>Pointers\<close>

lemma room_announce:
  assumes "room ml N m n" "wf_marshall 0 heap m" "d \<le> N"
    and "off = of_nat (marshall_header_size + m_heap_offset m + d)"
  shows "room ml N (announce ml m a off) n"
proof -
  have "written.ok_table (m_ht m)" using assms(2) by (simp add: wf_marshall_def)
  then show ?thesis using assms(1,3,4) by (auto simp: room_def written_at_add)
qed

lemma offset_positive:
  assumes "d \<le> N" "marshall_header_size + N < 2 ^ 63"
  shows "\<not> sint (of_nat (marshall_header_size + h + d) - of_nat h :: u64) \<le> 0"
proof -
  have "of_nat (marshall_header_size + h + d) - of_nat h = (of_nat (marshall_header_size + d) :: u64)"
    by simp
  moreover have "sint (word_of_int (int (marshall_header_size + d)) :: u64) = int (marshall_header_size + d)"
    using assms by (intro sint_of_int_in_range) simp_all
  then have "sint (of_nat (marshall_header_size + d) :: u64) = int (marshall_header_size + d)"
    by simp
  ultimately show ?thesis by (simp add: marshall_header_size_def)
qed

lemma fits_offset: "k = 0 \<or> k = 1 \<and> heap \<Longrightarrow> 8 \<le> n \<Longrightarrow> fits ml N k heap (\<lambda>m. marshall_offset m heap x) n"
  unfolding marshall_offset_def by (intro fits_bytes [OF writes_all_types(4)]) simp_all

lemma fits_pointer:
  assumes "\<And>a y. p = Addr a y \<Longrightarrow> fits ml N 1 True (\<lambda>m. f m y) n" "n + 8 \<le> s"
  shows "fits ml N 0 heap
    (\<lambda>m. Option.bind (marshall_heap_pointer ml m heap (case p of NULL \<Rightarrow> None | Addr a _ \<Rightarrow> Some a))
      (\<lambda>(present, m). case p of NULL \<Rightarrow> Some m | Addr _ y \<Rightarrow> if present then Some m else f m y)) s"
    (is "fits _ _ _ _ ?w _")
proof -
  have "\<exists>m'. ?w m = Some m' \<and> wf_marshall 0 heap m' \<and> room ml N m' r"
    if wf: "wf_marshall 0 heap m" and room: "room ml N m (n + 8 + r)" for m r
  proof -
    have offset: "\<exists>m'. marshall_offset m heap x = Some m' \<and> wf_marshall 0 heap m' \<and> room ml N m' r" for x
      using fits_offset [of 0 heap 8 ml N x] wf room_mono [OF room, of "8 + r"] by (simp add: fits_def)
    have N: "marshall_header_size + N < 2 ^ 63" using room by (simp add: room_def)
    show ?thesis
    proof (cases p)
      case NULL
      then show ?thesis using offset [of 0] by (auto simp: marshall_heap_pointer_def)
    next
      case (Addr a y)
      show ?thesis
      proof (cases "written_at ml (m_ht m) a")
        case (Some off)
        then obtain d where "d \<le> N" "off = of_nat (marshall_header_size + m_heap_offset m + d)"
          using room by (auto simp: room_def)
        then have "\<not> sint (off - of_nat (m_heap_offset m)) \<le> 0" using offset_positive N by simp
        then show ?thesis
          using offset [of "off - of_nat (m_heap_offset m)"] Addr Some by (auto simp: heap_pointer_Some)
      next
        case None
        define d where "d = m_heap_pos m + (if heap then 8 else 0)"
        define off :: u64 where "off = of_nat (marshall_header_size + m_heap_offset m + d)"
        have off: "off = of_nat (marshall_header_size + m_heap_offset m + m_heap_pos m + (if heap then 8 else 0))"
          by (simp add: off_def d_def add.assoc)
        have d: "d \<le> N" using room wf by (auto simp: d_def room_def wf_marshall_def)
        have pos: "\<not> sint (off - of_nat (m_heap_offset m)) \<le> 0"
          unfolding off_def by (rule offset_positive [OF d N])
        define m1 where "m1 = announce ml m a off"
        have room1: "room ml N m1 (8 + (n + r))"
          unfolding m1_def using room_announce [OF room_mono [OF room] wf d off_def] by simp
        have wf1: "wf_marshall 1 heap m1" unfolding m1_def by (rule announce_wf [OF wf])
        define bs where "bs = le_bytes 8 (off - of_nat (m_heap_offset m))"
        have bs: "length bs = 8" "bs \<noteq> []" by (simp_all add: bs_def le_bytes_8)
        have fit: "buf_wpos (m_target m1 heap) + length bs \<le> buf_size (m_target m1 heap)"
          using room1 bs(1) by (auto simp: room_def m_target_def)
        have "buf_ok (m_target m1 heap)" "buf_base_column (m_target m1 heap) = 0"
          using wf1 by (simp_all add: wf_marshall_def m_target_def)
        then have m2: "marshall_offset m1 heap (off - of_nat (m_heap_offset m)) = Some (m_append m1 heap bs)"
          using writes_all_types(4) fit unfolding writes_all_def marshall_offset_def
          by (simp add: bs_def marshall_put_def m_append_def m_target_def)
        have "wf_marshall 1 True (m_append m1 heap bs)"
          using wf1 bs fit by (intro append_announced) (simp_all add: m1_def)
        moreover have "room ml N (m_append m1 heap bs) (n + r)"
          using room1 bs(1) by (intro room_append) simp
        ultimately obtain m' where m': "f (m_append m1 heap bs) y = Some m'" "wf_marshall 0 True m'" "room ml N m' r"
          using assms(1) [OF Addr] unfolding fits_def by blast
        have "marshall_heap_pointer ml m heap (Some a) = Some (False, m_append m1 heap bs)"
          using None pos m2 unfolding heap_pointer_Some off [symmetric] m1_def by (simp add: Let_def off [symmetric])
        then show ?thesis using m' wf_marshall_heap Addr by auto
      qed
    qed
  qed
  then have "fits ml N 0 heap ?w (n + 8)" by (simp add: fits_def)
  then show ?thesis using assms(2) by (rule fits_mono)
qed

lemma fits_p:
  assumes "ascii magic" "\<And>a y. p = Addr a y \<Longrightarrow> fits ml N 1 True (\<lambda>m. f m y) n" "n + 8 + length magic \<le> s"
  shows "fits ml N 0 heap (\<lambda>m. marshall_p ml magic f m heap p) s"
  unfolding marshall_p_def using assms(1,3)
  by (intro fits_step [OF fits_1 [OF _ _ le_refl]] fits_pointer [OF assms(2)]) simp_all

section \<open>Values\<close>

definition ptr_room :: "('a \<Rightarrow> nat) \<Rightarrow> ('p, 'a) ptr \<Rightarrow> nat" where
  "ptr_room f p = (case p of NULL \<Rightarrow> 24 | Addr _ x \<Rightarrow> 24 + f x)"

lemma ptr_room_cong [fundef_cong]:
  "p = p' \<Longrightarrow> (\<And>a x. p' = Addr a x \<Longrightarrow> f x = f' x) \<Longrightarrow> ptr_room f p = ptr_room f' p'"
  by (simp add: ptr_room_def split: ptr.splits)

definition ptr_all :: "('a \<Rightarrow> bool) \<Rightarrow> ('p, 'a) ptr \<Rightarrow> bool" where
  "ptr_all P p = (case p of NULL \<Rightarrow> True | Addr _ x \<Rightarrow> P x)"

lemma ptr_all_cong [fundef_cong]:
  "p = p' \<Longrightarrow> (\<And>a x. p' = Addr a x \<Longrightarrow> P x = P' x) \<Longrightarrow> ptr_all P p = ptr_all P' p'"
  by (simp add: ptr_all_def split: ptr.splits)

definition psym_room :: "('p, sym) ptr \<Rightarrow> nat" where
  "psym_room p = ptr_room (\<lambda>s. 34 + length s) p"

definition ident_room :: "'p mident \<Rightarrow> nat" where
  "ident_room i = 10 + psym_room (mident_module i) + psym_room (mident_sym i)"

text \<open>A bound on the bytes of a value, in both parts of the message.\<close>

fun mtag_room :: "marshall_lib \<Rightarrow> 'p mtag \<Rightarrow> nat" where
  "mtag_room ml (MDoBlock ts sf) = 72 + sum_list (map (mtag_room ml) ts)"
| "mtag_room ml (MFact s p ob i) = 64 + ptr_room (mtag_room ml) s + ptr_room (mtag_room ml) p + ptr_room (mtag_room ml) ob"
| "mtag_room ml (MInteger i) = 32 + integer_room ml i"
| "mtag_room ml (MRatio n d) = 40 + integer_room ml n + integer_room ml d"
| "mtag_room ml (MPlist p) = 32 + ptr_room (\<lambda>l. 10 + mtag_room ml (fst l) + mtag_room ml (snd l)) p"
| "mtag_room ml (MMap kvs) = 64 + sum_list (map (\<lambda>kv. mtag_room ml (fst kv) + mtag_room ml (snd kv)) kvs)"
| "mtag_room ml (MPcall p) = 32 + ptr_room (\<lambda>c. 64 + ident_room (fst c) + sum_list (map (mtag_room ml) (snd c))) p"
| "mtag_room ml (MPsym p) = 32 + psym_room p"
| "mtag_room ml (MQuote t) = 40 + mtag_room ml t"
| "mtag_room ml (MStr s) = 64 + length s"
| "mtag_room ml (MTime sec nsec p) = 96 + (case p of None \<Rightarrow> 0 | Some tu \<Rightarrow> mtag_room ml (fst tu) + mtag_room ml (snd tu))"
| "mtag_room ml (MPtuple p) = 32 + ptr_room (\<lambda>ts. 32 + sum_list (map (mtag_room ml) ts)) p"
| "mtag_room ml (MUnquote t) = 32 + mtag_room ml t"
| "mtag_room ml (MIdent i) = 32 + ident_room i"
| "mtag_room ml _ = 64"

text \<open>The values that the format can represent.\<close>

fun mtag_writable :: "marshall_lib \<Rightarrow> 'p mtag \<Rightarrow> bool" where
  "mtag_writable ml (MDoBlock ts sf) \<longleftrightarrow> (\<forall>t\<in>set ts. mtag_writable ml t)"
| "mtag_writable ml (MCharacter c) \<longleftrightarrow> c < 0x110000"
| "mtag_writable ml (MFact s p ob i) \<longleftrightarrow>
    ptr_all (mtag_writable ml) s \<and> ptr_all (mtag_writable ml) p \<and> ptr_all (mtag_writable ml) ob"
| "mtag_writable ml (MInteger i) \<longleftrightarrow> integer_packs ml i"
| "mtag_writable ml (MRatio n d) \<longleftrightarrow> integer_packs ml n \<and> integer_packs ml d"
| "mtag_writable ml (MPlist p) \<longleftrightarrow> ptr_all (\<lambda>l. mtag_writable ml (fst l) \<and> mtag_writable ml (snd l)) p"
| "mtag_writable ml (MMap kvs) \<longleftrightarrow> (\<forall>kv\<in>set kvs. mtag_writable ml (fst kv) \<and> mtag_writable ml (snd kv))"
| "mtag_writable ml (MPcall p) \<longleftrightarrow> ptr_all (\<lambda>c. \<forall>t\<in>set (snd c). mtag_writable ml t) p"
| "mtag_writable ml (MPtr p) \<longleftrightarrow> p = 0"
| "mtag_writable ml (MPtrFree p) \<longleftrightarrow> p = 0"
| "mtag_writable ml (MQuote t) \<longleftrightarrow> mtag_writable ml t"
| "mtag_writable ml (MTime sec nsec p) \<longleftrightarrow>
    (case p of None \<Rightarrow> True | Some tu \<Rightarrow> mtag_writable ml (fst tu) \<and> mtag_writable ml (snd tu))"
| "mtag_writable ml (MPtuple p) \<longleftrightarrow> ptr_all (\<lambda>ts. ts \<noteq> [] \<and> (\<forall>t\<in>set ts. mtag_writable ml t)) p"
| "mtag_writable ml (MUnquote t) \<longleftrightarrow> mtag_writable ml t"
| "mtag_writable ml _ \<longleftrightarrow> True"

lemma ptr_room_ge: "24 \<le> ptr_room f p"
  by (simp add: ptr_room_def split: ptr.splits)

lemma fits_p_room:
  assumes "ascii magic" "length magic \<le> 16" "\<And>a y. p = Addr a y \<Longrightarrow> fits ml N 1 True (\<lambda>m. f m y) (g y)"
    and "ptr_room g p \<le> s"
  shows "fits ml N 0 heap (\<lambda>m. marshall_p ml magic f m heap p) s"
proof (cases p)
  case NULL
  then show ?thesis
    using assms by (intro fits_p [OF assms(1), where n = 0]) (simp_all add: ptr_room_def)
next
  case (Addr a y)
  then show ?thesis
    using assms by (intro fits_p [OF assms(1), where n = "g y"]) (simp_all add: ptr_room_def)
qed

lemma fits_psym: "psym_room p \<le> n \<Longrightarrow> fits ml N 0 heap (\<lambda>m. marshall_psym ml m heap p) n"
  unfolding marshall_psym_def psym_room_def by (rule fits_p_room) (simp_all add: fits_sym)

lemma fits_ident:
  "k = 0 \<or> k = 1 \<and> heap \<Longrightarrow> ident_room i \<le> n \<Longrightarrow> fits ml N k heap (\<lambda>m. marshall_ident ml m heap i) n"
  unfolding marshall_ident_def ident_room_def
  by (intro fits_step [OF fits_1 [OF _ _ le_refl]] fits_step [OF fits_psym [OF le_refl]] fits_psym) simp_all

lemma fits_ptr:
  assumes "p = 0" "38 \<le> n"
  shows "fits ml N 0 heap (\<lambda>m. marshall_ptr m heap p) n" "fits ml N 0 heap (\<lambda>m. marshall_ptr_free m heap p) n"
  unfolding marshall_ptr_def marshall_ptr_free_def using assms
  by (intro fits_step [OF fits_1 [OF _ _ le_refl]]; simp add: fits_uw)+

lemma fits_pcallable_null: "22 \<le> n \<Longrightarrow> fits ml N 0 heap (\<lambda>m. marshall_pcallable_null ml m heap) n"
  unfolding marshall_pcallable_null_def by (rule fits_p [where n = 0]) simp_all

lemma fits_tags:
  assumes "\<And>t. t \<in> set ts \<Longrightarrow> fits ml N 0 heap (\<lambda>m. w m heap t) (g t)" "sum_list (map g ts) \<le> n"
  shows "fits ml N 0 heap (\<lambda>m. marshall_tags w m heap ts) n"
proof -
  have "fits ml N 0 heap (\<lambda>m. marshall_tags w m heap ts) (sum_list (map g ts))"
    using assms(1)
  proof (induction ts)
    case (Cons t ts)
    then show ?case
      unfolding marshall_tags.simps by (intro fits_step [where a = "g t"]) simp_all
  qed (simp add: fits_return)
  then show ?thesis using assms(2) by (rule fits_mono)
qed

lemma fits_pairs:
  assumes "\<And>kv. kv \<in> set kvs \<Longrightarrow> fits ml N 0 heap (\<lambda>m. w m heap (fst kv)) (g (fst kv)) \<and>
      fits ml N 0 heap (\<lambda>m. w m heap (snd kv)) (g (snd kv))"
    and "sum_list (map (\<lambda>kv. g (fst kv) + g (snd kv)) kvs) \<le> n"
  shows "fits ml N 0 heap (\<lambda>m. marshall_pairs w m heap kvs) n"
proof -
  have "fits ml N 0 heap (\<lambda>m. marshall_pairs w m heap kvs) (sum_list (map (\<lambda>kv. g (fst kv) + g (snd kv)) kvs))"
    using assms(1)
  proof (induction kvs)
    case (Cons kv kvs)
    obtain k v where kv: "kv = (k, v)" by fastforce
    have "fits ml N 0 heap (\<lambda>m. w m heap k) (g k)" "fits ml N 0 heap (\<lambda>m. w m heap v) (g v)"
      using Cons.prems [of kv] by (simp_all add: kv)
    then show ?case
      unfolding kv marshall_pairs.simps using Cons
      by (intro fits_step [where a = "g k"] fits_step [where a = "g v"]) simp_all
  qed (simp add: fits_return)
  then show ?thesis using assms(2) by (rule fits_mono)
qed

lemma fits_tag_data:
  assumes IH: "\<And>u k heap. size u < size t \<Longrightarrow> mtag_writable ml u \<Longrightarrow> k = 0 \<or> k = 1 \<and> heap \<Longrightarrow>
      fits ml N k heap (\<lambda>m. marshall_tag ml m heap u) (mtag_room ml u)"
    and "mtag_writable ml t" "marshall_lib_ok ml"
  shows "fits ml N 0 heap (\<lambda>m. case t of
       MVoid \<Rightarrow> Some m
     | MDoBlock ts short_form \<Rightarrow> marshall_do_block (marshall_tag ml) m heap ts short_form
     | MBool b \<Rightarrow> marshall_bool m heap b
     | MCharacter c \<Rightarrow> marshall_character m heap c
     | MFact subject predicate object fid \<Rightarrow>
         marshall_fact ml (marshall_tag ml) m heap subject predicate object fid
     | MInteger i \<Rightarrow> marshall_integer ml m heap i
     | MRatio n d \<Rightarrow> marshall_ratio ml m heap n d
     | MSW x \<Rightarrow> marshall_sw m heap x
     | MS64 x \<Rightarrow> marshall_s64 m heap x
     | MS32 x \<Rightarrow> marshall_s32 m heap x
     | MS16 x \<Rightarrow> marshall_s16 m heap x
     | MS8 x \<Rightarrow> marshall_s8 m heap x
     | MU8 x \<Rightarrow> marshall_u8 m heap x
     | MU16 x \<Rightarrow> marshall_u16 m heap x
     | MU32 x \<Rightarrow> marshall_u32 m heap x
     | MU64 x \<Rightarrow> marshall_u64 m heap x
     | MUW x \<Rightarrow> marshall_uw m heap x
     | MPlist p \<Rightarrow> marshall_plist ml (marshall_tag ml) m heap p
     | MMap kvs \<Rightarrow> marshall_map (marshall_tag ml) m heap kvs
     | MPcall p \<Rightarrow> marshall_pcall ml (marshall_tag ml) m heap p
     | MPsym p \<Rightarrow> marshall_psym ml m heap p
     | MPtr p \<Rightarrow> marshall_ptr m heap p
     | MPtrFree p \<Rightarrow> marshall_ptr_free m heap p
     | MQuote t \<Rightarrow> marshall_quote (marshall_tag ml) m heap t
     | MStr s \<Rightarrow> marshall_str m heap s
     | MTime sec nsec tags \<Rightarrow> marshall_time (marshall_tag ml) m heap sec nsec tags
     | MPtuple p \<Rightarrow> marshall_ptuple ml (marshall_tag ml) m heap p
     | MUnquote t \<Rightarrow> marshall_unquote (marshall_tag ml) m heap t
     | MIdent i \<Rightarrow> marshall_ident ml m heap i)
    (mtag_room ml t - 26)"
proof -
  have list: "size u < size_list size ts" if "u \<in> set ts" for u :: "u64 mtag" and ts
    using that by (induction ts) auto
  have pairs: "size (fst kv) < size_list (size_prod size size) kvs \<and> size (snd kv) < size_list (size_prod size size) kvs"
    if "kv \<in> set kvs" for kv :: "u64 mtag \<times> u64 mtag" and kvs
    using that by (induction kvs) auto
  show ?thesis
  proof (cases t)
    case (MDoBlock ts sf)
    then show ?thesis
      using assms(2) unfolding MDoBlock mtag.case marshall_do_block_def mtag_room.simps
      by (intro fits_step [OF fits_uw [OF _ le_refl]] fits_step [OF fits_types(1) [OF _ le_refl]]
          fits_tags [where g = "mtag_room ml"]) (auto simp: MDoBlock intro!: IH dest: list)
  next
    case (MFact sb pr ob i)
    have ptag: "fits ml N 0 heap (\<lambda>m. marshall_ptag ml (marshall_tag ml) m heap p) (ptr_room (mtag_room ml) p)"
      if "p = sb \<or> p = pr \<or> p = ob" for p
      unfolding marshall_ptag_def using that assms(2)
      by (intro fits_p_room) (auto simp: MFact ptr_all_def intro!: IH)
    show ?thesis
      unfolding MFact mtag.case marshall_fact_def mtag_room.simps
      by (intro fits_step [OF fits_1 [OF _ _ le_refl]] fits_step [OF ptag] fits_uw) simp_all
  next
    case (MPlist p)
    have "fits ml N 1 True (\<lambda>m. marshall_list (marshall_tag ml) m True l)
        (10 + mtag_room ml (fst l) + mtag_room ml (snd l))" if p: "p = Addr a l" for a l
    proof -
      have "size (fst l) < size t" "size (snd l) < size t" by (cases l; simp add: MPlist p)+
      then have "fits ml N 0 True (\<lambda>m. marshall_tag ml m True (fst l)) (mtag_room ml (fst l))"
        "fits ml N 0 True (\<lambda>m. marshall_tag ml m True (snd l)) (mtag_room ml (snd l))"
        using assms(2) by (simp_all add: IH MPlist p ptr_all_def)
      from fits_seq [OF this le_refl] show ?thesis
        unfolding marshall_list_def by (intro fits_step [OF fits_1 [OF _ _ le_refl]]) (auto elim: fits_mono)
    qed
    note obj = this
    show ?thesis
      unfolding MPlist mtag.case marshall_plist_def mtag_room.simps
      by (rule fits_p_room [where g = "\<lambda>l. 10 + mtag_room ml (fst l) + mtag_room ml (snd l)", OF _ _ obj]) simp_all
  next
    case (MMap kvs)
    then show ?thesis
      using assms(2) unfolding MMap mtag.case marshall_map_def mtag_room.simps
      by (intro fits_step [OF fits_1 [OF _ _ le_refl]] fits_step [OF fits_uw [OF _ le_refl]]
          fits_pairs [where g = "mtag_room ml"]) (auto simp: MMap intro!: IH dest: pairs)
  next
    case (MTime sec nsec p)
    show ?thesis
    proof (cases p)
      case None
      then show ?thesis
        unfolding MTime mtag.case marshall_time_def mtag_room.simps
        by (intro fits_step [OF fits_types(1) [OF _ le_refl]])
          (auto intro!: fits_step [OF fits_sw [OF _ le_refl]] fits_sw)
    next
      case (Some tu)
      have "size (fst tu) < size t" "size (snd tu) < size t" by (cases tu; simp add: MTime Some)+
      then have "fits ml N 0 heap (\<lambda>m. marshall_tag ml m heap (fst tu)) (mtag_room ml (fst tu))"
        "fits ml N 0 heap (\<lambda>m. marshall_tag ml m heap (snd tu)) (mtag_room ml (snd tu))"
        using assms(2) by (simp_all add: IH MTime Some)
      from fits_seq [OF this le_refl] show ?thesis
        unfolding MTime mtag.case marshall_time_def mtag_room.simps Some
        by (intro fits_step [OF fits_types(1) [OF _ le_refl]]) (auto elim: fits_mono)
    qed
  next
    case (MPcall p)
    have "fits ml N 1 True (\<lambda>m. marshall_call ml (marshall_tag ml) m True c)
        (64 + ident_room (fst c) + sum_list (map (mtag_room ml) (snd c)))" if p: "p = Addr a c" for a c
      unfolding marshall_call_def
    proof (intro fits_step [OF fits_ident [OF _ le_refl]] fits_step [OF fits_uw [OF _ le_refl]]
        fits_step [OF fits_tags [where g = "mtag_room ml", OF _ le_refl]])
      fix u assume u: "u \<in> set (snd c)"
      then have "size u < size t" using list [OF u] by (cases c) (simp add: MPcall p)
      then show "fits ml N 0 True (\<lambda>m. marshall_tag ml m True u) (mtag_room ml u)"
        using assms(2) u by (simp add: IH MPcall p ptr_all_def)
    qed (simp_all add: fits_pcallable_null)
    note obj = this
    show ?thesis
      unfolding MPcall mtag.case marshall_pcall_def mtag_room.simps
      by (rule fits_p_room [where g = "\<lambda>c. 64 + ident_room (fst c) + sum_list (map (mtag_room ml) (snd c))", OF _ _ obj]) simp_all
  next
    case (MPtuple p)
    have "fits ml N 1 True (\<lambda>m. marshall_tuple (marshall_tag ml) m True ts) (32 + sum_list (map (mtag_room ml) ts))"
      if p: "p = Addr a ts" for a ts
    proof -
      have "length ts \<noteq> 0" using assms(2) by (simp add: MPtuple p ptr_all_def)
      moreover have "fits ml N 0 True (\<lambda>m. marshall_tag ml m True u) (mtag_room ml u)" if u: "u \<in> set ts" for u
        using list [OF u] assms(2) u by (simp add: IH MPtuple p ptr_all_def)
      ultimately show ?thesis
        unfolding marshall_tuple_def
        by (simp only: if_False) (intro fits_step [OF fits_uw [OF _ le_refl]] fits_tags [where g = "mtag_room ml"]; simp)
    qed
    note obj = this
    show ?thesis
      unfolding MPtuple mtag.case marshall_ptuple_def mtag_room.simps
      by (rule fits_p_room [where g = "\<lambda>ts. 32 + sum_list (map (mtag_room ml) ts)", OF _ _ obj]) simp_all
  next
    case (MQuote u)
    then show ?thesis
      using assms(2) unfolding MQuote mtag.case marshall_quote_def mtag_room.simps
      by (intro fits_step [OF fits_1 [OF _ _ le_refl]]) (auto simp: MQuote intro!: fits_mono [OF IH])
  next
    case (MUnquote u)
    then show ?thesis using assms(2) by (auto simp: MUnquote marshall_unquote_def intro!: fits_mono [OF IH])
  qed (use assms(2,3) in \<open>auto intro!: fits_mono [OF fits_return] fits_types fits_uw fits_sw fits_character fits_integer
      fits_ratio fits_psym fits_ident fits_ptr fits_str\<close>)
qed

lemma fits_tag:
  assumes "marshall_lib_ok ml" "mtag_writable ml t" "k = 0 \<or> k = 1 \<and> heap"
  shows "fits ml N k heap (\<lambda>m. marshall_tag ml m heap t) (mtag_room ml t)"
  using assms(2,3)
proof (induction "size t" arbitrary: t k heap rule: less_induct)
  case less
  have "26 \<le> mtag_room ml t" by (cases t) simp_all
  then show ?case
    unfolding marshall_tag.simps [of ml _ heap t]
    by (intro fits_step [OF fits_1 [OF _ less.prems(2) le_refl]]
        fits_step [OF fits_types(6) [OF _ le_refl]])
      (use fits_tag_data [OF less.hyps less.prems(1) assms(1)] in \<open>simp_all\<close>)
qed

section \<open>Tags as strings\<close>

text \<open>\<open>buf_ignore\<close> skips over any bytes, character by character or byte by byte.\<close>

definition buf_left :: "buf \<Rightarrow> nat" where
  "buf_left b = buf_wpos b - buf_rpos b"

lemma refill_left:
  "buf_ok b \<Longrightarrow> buf_refill b (int n) = (r, b') \<Longrightarrow> buf_ok b' \<and> buf_left b' = buf_left b \<and> r = int (buf_left b)"
  using buf_save_min_rpos_le [of b]
  by (auto simp: buf_refill_def buf_refill_compact_def Let_def buf_ok_def buf_left_def buf_wpos_def split: if_splits)

lemma peek_tail_left:
  assumes "buf_ok b" "buf_peek_utf8_tail b n value = (x, b')"
  shows "buf_ok b' \<and> buf_left b' = buf_left b \<and> (\<forall>c r. x = Got c r \<longrightarrow> r \<le> buf_left b)"
proof -
  obtain r0 b0 where r0: "buf_refill b (int n) = (r0, b0)" by fastforce
  note left = refill_left [OF assms(1) r0]
  show ?thesis using assms(2) left by (auto simp: buf_peek_utf8_tail_def r0 split: if_splits)
qed

lemma peek_character_left:
  assumes "buf_ok b" "buf_peek_character_utf8 b = (x, b')"
  shows "buf_ok b' \<and> buf_left b' = buf_left b \<and> (\<forall>c r. x = Got c r \<longrightarrow> r \<le> buf_left b)"
proof -
  obtain r0 b0 where r0: "buf_refill b 1 = (r0, b0)" by fastforce
  have left: "buf_ok b0" "buf_left b0 = buf_left b" "r0 = int (buf_left b)"
    using refill_left [OF assms(1), of 1] r0 by simp_all
  show ?thesis
    using assms(2) left peek_tail_left [OF left(1)]
    unfolding buf_peek_character_utf8_def r0 Let_def
    by (auto split: if_splits)
qed

lemma read_character_left:
  assumes "buf_ok b" "buf_read_character_utf8 b = (x, b')"
  shows "buf_ok b'" "case x of Got c r \<Rightarrow> buf_left b' = buf_left b - r | Stop _ \<Rightarrow> buf_left b' = buf_left b"
proof -
  obtain y b0 where y: "buf_peek_character_utf8 b = (y, b0)" by fastforce
  note left = peek_character_left [OF assms(1) y]
  have "buf_ok b' \<and> (case x of Got c r \<Rightarrow> buf_left b' = buf_left b - r | Stop _ \<Rightarrow> buf_left b' = buf_left b)"
    using assms(2) left unfolding buf_read_character_utf8_def y
    by (cases y) (auto simp: buf_ok_def buf_left_def buf_wpos_def)
  then show "buf_ok b'" "case x of Got c r \<Rightarrow> buf_left b' = buf_left b - r | Stop _ \<Rightarrow> buf_left b' = buf_left b"
    by blast+
qed

lemma read_u8_left:
  assumes "buf_ok b" "0 < buf_left b"
  shows "\<exists>x. buf_read_u8 b = (Got x 1, buf_forward b 1)"
  using assms by (auto simp: buf_read_u8_def buf_read_mem_def buf_peek_mem_def buf_ok_def buf_left_def Let_def)

lemma ignore_loop_left:
  "buf_ok b \<Longrightarrow> sz - i \<le> buf_left b \<Longrightarrow> fst (buf_ignore_loop b i sz) = int sz"
proof (induction b i sz rule: buf_ignore_loop.induct)
  case (1 b i sz)
  show ?case
  proof (cases "sz \<le> i")
    case True
    then show ?thesis by (subst buf_ignore_loop.simps) simp
  next
    case False
    obtain x b1 where x: "buf_read_character_utf8 b = (x, b1)" by fastforce
    note left = read_character_left [OF 1(3) x]
    show ?thesis
    proof (cases x)
      case (Got c r)
      then have "sz - (i + r) \<le> buf_left b1" using left(2) 1(4) by simp
      then have "fst (buf_ignore_loop b1 (i + r) sz) = int sz"
        by (intro 1(1) [OF False x [symmetric] Got] left(1))
      then show ?thesis using False x Got by (subst buf_ignore_loop.simps) simp
    next
      case (Stop r)
      then have b1: "buf_left b1 = buf_left b" using left(2) by simp
      then have "0 < buf_left b1" using 1(4) False by linarith
      then obtain y where y: "buf_read_u8 b1 = (Got y 1, buf_forward b1 1)"
        using read_u8_left [OF left(1)] by blast
      have "buf_ok (buf_forward b1 1)" "sz - (i + 1) \<le> buf_left (buf_forward b1 1)"
        using left(1) b1 1(4) False by (auto simp: buf_ok_def buf_left_def buf_wpos_def)
      then have "fst (buf_ignore_loop (buf_forward b1 1) (i + 1) sz) = int sz"
        by (intro 1(2) [OF False x [symmetric] Stop y [symmetric] refl])
      then show ?thesis using False x Stop y by (subst buf_ignore_loop.simps) simp
    qed
  qed
qed

lemma read_to_str_left:
  assumes "buf_ok b" "0 < buf_left b"
  shows "fst (buf_read_to_str b) = Got (drop (buf_rpos b) (buf_bytes b)) (buf_left b)"
proof -
  obtain r b1 where r: "buf_refill b (int (buf_left b)) = (r, b1)" by fastforce
  note left = refill_left [OF assms(1) r]
  have "fst (buf_ignore b (buf_left b)) = int (buf_left b)"
    using assms(2) left ignore_loop_left [of b1 "buf_left b" 0] by (simp add: buf_ignore_def r)
  then show ?thesis
    using assms unfolding buf_read_to_str_def
    by (auto simp: buf_left_def [symmetric] buf_ok_def Let_def split: prod.splits)
qed

section \<open>Whole messages\<close>

lemma to_buf_fits:
  assumes "wf_marshall 0 heap m" "buf_ok out"
    and "buf_wpos out + marshall_header_size + m_heap_pos m + m_buf_pos m \<le> buf_size out"
  shows "\<exists>m'. marshall_to_buf m out = (int (marshall_header_size + m_heap_pos m + m_buf_pos m), m', buf_append out (marshall_bytes m))"
proof -
  have m: "buf_ok (m_heap m)" "buf_rpos (m_heap m) = 0" "m_heap_pos m = length (buf_bytes (m_heap m))"
    "buf_ok (m_buf m)" "buf_rpos (m_buf m) = 0" "m_buf_pos m = length (buf_bytes (m_buf m))"
    using assms(1) by (simp_all add: wf_marshall_def buf_wpos_def)
  define out0 where "out0 = buf_append out (marshall_header m)"
  have w: "buf_write out (marshall_header m) = (int marshall_header_size, out0)" "buf_ok out0"
    using buf_write_fits [OF assms(2), of "marshall_header m"] assms(2,3) by (auto simp: out0_def buf_ok_def buf_wpos_def)
  define out1 where "out1 = buf_append out0 (buf_bytes (m_heap m))"
  have "buf_next (m_heap m) (buf_bytes (m_heap m))" using m(1,2) by (simp add: buf_next_def)
  then obtain h where x1: "buf_xfer out0 (m_heap m) (m_heap_pos m) = (int (m_heap_pos m), out1, h)"
    using buf_xfer_next [OF _ w(2)] assms(3) m(3) by (auto simp: out0_def out1_def buf_wpos_def)
  have ok1: "buf_ok out1" using assms(2,3) m(3) by (simp add: out1_def out0_def buf_ok_def buf_wpos_def)
  have "buf_next (m_buf m) (buf_bytes (m_buf m))" using m(4,5) by (simp add: buf_next_def)
  then obtain b where x2: "buf_xfer out1 (m_buf m) (m_buf_pos m) =
      (int (m_buf_pos m), buf_append out1 (buf_bytes (m_buf m)), b)"
    using buf_xfer_next [OF _ ok1] assms(3) m(3,6) by (auto simp: out0_def out1_def buf_wpos_def)
  have "\<not> buf_flush (buf_append out1 (buf_bytes (m_buf m))) < 0"
    using assms(3) m(3,6) by (simp add: buf_flush_def out1_def out0_def buf_wpos_def)
  then have "\<exists>m'. marshall_to_buf m out = (int (marshall_header_size + m_heap_pos m + m_buf_pos m), m',
      buf_append out1 (buf_bytes (m_buf m)))"
    by (simp add: marshall_to_buf_def w(1) x1 x2)
  then show ?thesis by (simp add: marshall_bytes_def out1_def out0_def)
qed

lemma to_str_fits:
  assumes "wf_marshall 0 heap m" "marshall_header_size + m_heap_pos m + m_buf_pos m \<le> 1024 * 1024"
  shows "\<exists>m'. marshall_to_str m = Some (marshall_bytes m, m')"
proof -
  define out where "out = buf_append (buf_init_alloc (1024 * 1024)) (marshall_bytes m)"
  have len: "length (marshall_bytes m) = marshall_header_size + m_heap_pos m + m_buf_pos m"
    using assms(1) by (simp add: marshall_bytes_def wf_marshall_def buf_wpos_def)
  have "buf_ok (buf_init_alloc (1024 * 1024))" by (simp add: buf_ok_def buf_init_alloc_def buf_wpos_def)
  then obtain m' where m': "marshall_to_buf m (buf_init_alloc (1024 * 1024)) =
      (int (marshall_header_size + m_heap_pos m + m_buf_pos m), m', out)"
    using to_buf_fits [OF assms(1), of "buf_init_alloc (1024 * 1024)"] assms(2)
    by (auto simp: out_def buf_init_alloc_def buf_wpos_def)
  have "buf_ok out" "buf_left out = length (marshall_bytes m)" "drop (buf_rpos out) (buf_bytes out) = marshall_bytes m"
    using assms(2) len by (simp_all add: out_def buf_ok_def buf_left_def buf_init_alloc_def buf_wpos_def)
  then have "fst (buf_read_to_str out) = Got (marshall_bytes m) (length (marshall_bytes m))"
    using read_to_str_left [of out] len by (simp add: marshall_header_size_def)
  then obtain out' where "buf_read_to_str out = (Got (marshall_bytes m) (length (marshall_bytes m)), out')"
    by (cases "buf_read_to_str out") auto
  then show ?thesis
    unfolding marshall_to_str_def m' using len by (simp add: marshall_header_size_def)
qed

text \<open>The message has the header and at most \<open>mtag_room\<close> bytes.\<close>

lemma tag_to_str_fits:
  assumes "marshall_lib_ok ml" "mtag_writable ml t" "marshall_header_size + mtag_room ml t \<le> 1024 * 1024"
  shows "\<exists>str. kc3_marshall_tag_to_str ml t = Some str \<and> length str \<le> marshall_header_size + mtag_room ml t"
proof -
  define N where "N = mtag_room ml t"
  obtain m0 where m0: "marshall_init (128 * 1024 * 1024) = Some m0"
    by (auto simp: marshall_init_def ht_init_def)
  have wf: "wf_marshall 0 False m0" by (rule init_wf(1) [OF m0])
  have "buf_size (m_buf m0) = 128 * 1024 * 1024" "buf_size (m_heap m0) = 128 * 1024 * 1024"
    using m0 by (auto simp: marshall_init_def buf_init_alloc_def split: option.splits)
  then have "room ml N m0 (mtag_room ml t + 0)"
    using init_wf(3-5) [OF m0] wf assms(3)
    by (simp add: room_def N_def wf_marshall_def)
  then obtain m where m: "marshall_tag ml m0 False t = Some m" "wf_marshall 0 False m" "room ml N m 0"
    using fits_tag [OF assms(1,2), of 0 False N] wf unfolding fits_def by blast
  then have pos: "m_heap_pos m + m_buf_pos m \<le> N" by (simp add: room_def wf_marshall_def)
  then have "marshall_header_size + m_heap_pos m + m_buf_pos m \<le> 1024 * 1024"
    using assms(3) by (simp add: N_def)
  from to_str_fits [OF m(2) this] obtain m' where "marshall_to_str m = Some (marshall_bytes m, m')" by blast
  then have "kc3_marshall_tag_to_str ml t = Some (marshall_bytes m)"
    unfolding kc3_marshall_tag_to_str_def m0 by (simp add: m(1))
  moreover have "length (marshall_bytes m) = marshall_header_size + (m_heap_pos m + m_buf_pos m)"
    using m(2) by (simp add: marshall_bytes_def wf_marshall_def buf_wpos_def)
  ultimately show ?thesis using pos by (simp add: N_def)
qed

section \<open>Round trips\<close>

text \<open>
  C33: A tag that \<open>kc3_marshall_tag_to_str\<close> has written is what \<open>kc3_marshall_read_tag_from_str\<close> reads
  from the string, up to the addresses of its objects: objects that are shared are written once,
  and found again by each pointer to them.  \<open>W\<close> is the memory of the writer.
\<close>

theorem marshall_roundtrip:
  assumes "marshall_lib_ok ml" "mtag_ok W t" "kc3_marshall_tag_to_str ml t = Some str"
    and "size (map_mtag (\<lambda>_. ()) t) < fuel"
  shows "kc3_marshall_read_tag_from_str ml fuel str = Some (map_mtag (\<lambda>_. ()) t)"
  by (rule tag_roundtrip [OF assms])

text \<open>
  C34: Writing succeeds and is reversible for every value that the format represents, as long as
  \<open>mtag_room\<close>, a bound on its bytes, and the header fit the buffer of one mebibyte that
  \<open>marshall_to_str\<close> takes; the string is no longer than that bound.
\<close>

theorem marshall_total:
  assumes "marshall_lib_ok ml" "mtag_ok W t" "mtag_writable ml t"
    and "marshall_header_size + mtag_room ml t \<le> 1024 * 1024"
  shows "\<exists>str. kc3_marshall_tag_to_str ml t = Some str \<and> length str \<le> marshall_header_size + mtag_room ml t \<and>
    (\<forall>fuel>size (map_mtag (\<lambda>_. ()) t). kc3_marshall_read_tag_from_str ml fuel str = Some (map_mtag (\<lambda>_. ()) t))"
  using tag_to_str_fits [OF assms(1,3,4)] tag_roundtrip [OF assms(1,2)] by blast

text \<open>An instance of the library, with digits of 28 bits in four bytes.\<close>

fun digits28 :: "nat \<Rightarrow> nat list" where
  "digits28 n = (if n = 0 then [] else n mod 2 ^ 28 # digits28 (n div 2 ^ 28))"

declare digits28.simps [simp del]

fun value28 :: "nat \<Rightarrow> u8 list \<Rightarrow> nat" where
  "value28 0 bs = 0"
| "value28 (Suc c) bs = unat (le_word (take 4 bs) :: u32) + 2 ^ 28 * value28 c (drop 4 bs)"

definition bytes28 :: "nat \<Rightarrow> u8 list" where
  "bytes28 n = concat (map (\<lambda>d. le_bytes 4 (of_nat d :: u32)) (digits28 n))"

definition lib28 :: marshall_lib where
  "lib28 = \<lparr>ml_pack_count = (\<lambda>i. length (digits28 (nat \<bar>i\<bar>))),
    ml_pack = (\<lambda>i c. Some (bytes28 (nat \<bar>i\<bar>), length (digits28 (nat \<bar>i\<bar>)))),
    ml_unpack = (\<lambda>c bs. Some (int (value28 c bs))), ml_neg = (\<lambda>i. Some (- i)),
    ml_hash_u64 = (\<lambda>x. x), ml_hash_s64 = (\<lambda>x. x)\<rparr>"

lemma digits28_Nil: "digits28 n = [] \<longleftrightarrow> n = 0"
  by (subst digits28.simps) simp

lemma digits28_0 [simp]: "digits28 0 = []"
  by (simp add: digits28_Nil)

lemma bytes28:
  "length (bytes28 n) = 4 * length (digits28 n)" "value28 (length (digits28 n)) (bytes28 n) = n"
proof (induction n rule: digits28.induct)
  case (1 n)
  have d: "unat (of_nat (n mod 2 ^ 28) :: u32) = n mod 2 ^ 28"
    by (simp add: unat_of_nat take_bit_eq_mod mod_less_divisor less_le_trans [of _ "2 ^ 28" "2 ^ 32"])
  {
    case 1
    then show ?case using "1.IH"(1) by (cases "n = 0") (simp_all add: bytes28_def digits28.simps [of n])
  next
    case 2
    then show ?case
      using "1.IH"(2) d by (cases "n = 0") (simp_all add: bytes28_def digits28.simps [of n] le_word_bytes_full)
  }
qed

lemma lib28_ok: "marshall_lib_ok lib28"
  by (simp add: marshall_lib_ok_def lib28_def bytes28 digits28_Nil)

text \<open>A list that holds a symbol twice and a negative integer of two digits.\<close>

definition sample_memory :: "u64 \<Rightarrow> mobj" where
  "sample_memory a = (if a = 16 then OList (MPsym (Addr () (c_str ''ab'')), MPtuple (Addr ()
      [MInteger (- 300000000000), MQuote (MPsym (Addr () (c_str ''ab'')))]))
    else if a = 48 then OTuple [MInteger (- 300000000000), MQuote (MPsym (Addr () (c_str ''ab'')))]
    else OSym (c_str ''ab''))"

definition sample_tag :: "u64 mtag" where
  "sample_tag = MPlist (Addr 16 (MPsym (Addr 32 (c_str ''ab'')), MPtuple (Addr 48
    [MInteger (- 300000000000), MQuote (MPsym (Addr 32 (c_str ''ab'')))])))"

lemma sample_ok:
  "mtag_ok sample_memory sample_tag" "mtag_writable lib28 sample_tag" "mtag_room lib28 sample_tag \<le> 1000"
  "size (map_mtag (\<lambda>_. ()) sample_tag) < 100"
proof -
  have digits: "length (digits28 300000000000) = 2"
    by (simp add: digits28.simps [of 300000000000] digits28.simps [of 1117])
  show "mtag_ok sample_memory sample_tag" "mtag_writable lib28 sample_tag" "mtag_room lib28 sample_tag \<le> 1000"
    "size (map_mtag (\<lambda>_. ()) sample_tag) < 100"
    using digits
    by (simp_all add: sample_memory_def sample_tag_def ptr_ok_def psym_ok_def ptr_all_def ptr_room_def psym_room_def
        integer_packs_def integer_room_def lib28_def)
qed

theorem marshall_roundtrip_witness:
  "\<exists>str. kc3_marshall_tag_to_str lib28 sample_tag = Some str \<and>
    kc3_marshall_read_tag_from_str lib28 100 str = Some (MPlist (Addr () (MPsym (Addr () (c_str ''ab'')), MPtuple (Addr ()
      [MInteger (- 300000000000), MQuote (MPsym (Addr () (c_str ''ab'')))]))))"
proof -
  obtain str where str: "kc3_marshall_tag_to_str lib28 sample_tag = Some str"
    using tag_to_str_fits [OF lib28_ok sample_ok(2)] sample_ok(3) by (auto simp: marshall_header_size_def)
  with marshall_roundtrip [OF lib28_ok sample_ok(1) this sample_ok(4)] show ?thesis
    by (simp add: sample_tag_def)
qed

theorem marshall_total_witness:
  "\<exists>str. kc3_marshall_tag_to_str lib28 sample_tag = Some str \<and> length str \<le> 1040 \<and>
    kc3_marshall_read_tag_from_str lib28 100 str = Some (map_mtag (\<lambda>_. ()) sample_tag)"
proof -
  have "marshall_header_size + mtag_room lib28 sample_tag \<le> 1024 * 1024"
    using sample_ok(3) by (simp add: marshall_header_size_def)
  from marshall_total [OF lib28_ok sample_ok(1,2) this] show ?thesis
    using sample_ok(3,4) by (force simp: marshall_header_size_def)
qed

end
