(* ===== verification/C_Arith.thy ===== *)
theory C_Arith
  imports Tags
begin

text \<open>
  The C arithmetic behind the integer rows of tag\_add.c, tag\_sub.c and tag\_mul.c.

  The operands of a row have been cast to the type in the function's name.  Types narrower than
  \<open>int\<close> are promoted, the operation is done on \<open>int\<close> and the result is truncated when it is
  stored; on s32 and s64 a result out of range is undefined; u32 and u64 wrap.  The \<open>goto\<close>
  targets of the three functions and the \<open>tag_init\<close> calls that feed them are here too.
\<close>

definition c_signed :: "int \<Rightarrow> 'a::len word outcome" where
  "c_signed i =
    (if - (2 ^ (LENGTH('a) - 1)) \<le> i \<and> i < 2 ^ (LENGTH('a) - 1) then Ok (word_of_int i) else Undef)"

definition s32_add :: "s32 \<Rightarrow> s32 \<Rightarrow> s32 outcome" where "s32_add x y = c_signed (sint x + sint y)"
definition s32_sub :: "s32 \<Rightarrow> s32 \<Rightarrow> s32 outcome" where "s32_sub x y = c_signed (sint x - sint y)"
definition s32_mul :: "s32 \<Rightarrow> s32 \<Rightarrow> s32 outcome" where "s32_mul x y = c_signed (sint x * sint y)"
definition s64_add :: "s64 \<Rightarrow> s64 \<Rightarrow> s64 outcome" where "s64_add x y = c_signed (sint x + sint y)"
definition s64_sub :: "s64 \<Rightarrow> s64 \<Rightarrow> s64 outcome" where "s64_sub x y = c_signed (sint x - sint y)"
definition s64_mul :: "s64 \<Rightarrow> s64 \<Rightarrow> s64 outcome" where "s64_mul x y = c_signed (sint x * sint y)"

definition s16_of :: "s32 outcome \<Rightarrow> s16 outcome" where
  "s16_of r = outcome_bind r (\<lambda>x. Ok (scast x))"

definition u16_of :: "s32 outcome \<Rightarrow> u16 outcome" where
  "u16_of r = outcome_bind r (\<lambda>x. Ok (ucast x))"

definition s16_add :: "s16 \<Rightarrow> s16 \<Rightarrow> s16 outcome" where
  "s16_add x y = s16_of (s32_add (scast x) (scast y))"
definition s16_sub :: "s16 \<Rightarrow> s16 \<Rightarrow> s16 outcome" where
  "s16_sub x y = s16_of (s32_sub (scast x) (scast y))"
definition s16_mul :: "s16 \<Rightarrow> s16 \<Rightarrow> s16 outcome" where
  "s16_mul x y = s16_of (s32_mul (scast x) (scast y))"
definition u16_add :: "u16 \<Rightarrow> u16 \<Rightarrow> u16 outcome" where
  "u16_add x y = u16_of (s32_add (ucast x) (ucast y))"
definition u16_mul :: "u16 \<Rightarrow> u16 \<Rightarrow> u16 outcome" where
  "u16_mul x y = u16_of (s32_mul (ucast x) (ucast y))"
definition u32_add :: "u32 \<Rightarrow> u32 \<Rightarrow> u32 outcome" where "u32_add x y = Ok (x + y)"
definition u32_mul :: "u32 \<Rightarrow> u32 \<Rightarrow> u32 outcome" where "u32_mul x y = Ok (x * y)"
definition u64_add :: "u64 \<Rightarrow> u64 \<Rightarrow> u64 outcome" where "u64_add x y = Ok (x + y)"
definition u64_mul :: "u64 \<Rightarrow> u64 \<Rightarrow> u64 outcome" where "u64_mul x y = Ok (x * y)"

definition tag_init_s16 :: "s16 outcome \<Rightarrow> tag outcome" where
  "tag_init_s16 r = outcome_bind r (\<lambda>x. Ok (TS16 x))"
definition tag_init_s32 :: "s32 outcome \<Rightarrow> tag outcome" where
  "tag_init_s32 r = outcome_bind r (\<lambda>x. Ok (TS32 x))"
definition tag_init_s64 :: "s64 outcome \<Rightarrow> tag outcome" where
  "tag_init_s64 r = outcome_bind r (\<lambda>x. Ok (TS64 x))"
definition tag_init_u16 :: "u16 outcome \<Rightarrow> tag outcome" where
  "tag_init_u16 r = outcome_bind r (\<lambda>x. Ok (TU16 x))"
definition tag_init_u32 :: "u32 outcome \<Rightarrow> tag outcome" where
  "tag_init_u32 r = outcome_bind r (\<lambda>x. Ok (TU32 x))"
definition tag_init_u64 :: "u64 outcome \<Rightarrow> tag outcome" where
  "tag_init_u64 r = outcome_bind r (\<lambda>x. Ok (TU64 x))"

text \<open>\<open>tag.type = TAG_INTEGER; integer_op(.., &tag.data.td_integer)\<close>: the result of the operation
  is not checked, so after an error the integer of the tag is not specified.\<close>

definition tag_init_integer :: "int option \<Rightarrow> tag outcome" where
  "tag_init_integer r = (case r of None \<Rightarrow> Undef | Some i \<Rightarrow> Ok (TInteger i))"

definition goto_integer_reduce :: "mplib \<Rightarrow> tag outcome \<Rightarrow> tag outcome" where
  "goto_integer_reduce mp r = outcome_bind r (tag_integer_reduce mp)"

section \<open>Values\<close>

lemma tag_integer_reduce_int:
  "mp_ok mp \<Longrightarrow> tag_int t = Some i \<Longrightarrow> (\<nexists>x. t = TU8 x) \<Longrightarrow> tag_integer_reduce mp t = Ok (reduced i)"
  by (cases t) (simp_all add: tag_integer_reduce_def integer_reduce_eq word_val)

lemma reduced_u8: "reduced (uint (x :: u8)) = TU8 x"
  using uint_bounded [of x] by (simp add: reduced_def)

lemma tag_integer_reduce_reduced:
  "mp_ok mp \<Longrightarrow> tag_int t = Some i \<Longrightarrow> tag_integer_reduce mp t = Ok (reduced i)"
proof (cases "\<exists>x. t = TU8 x")
  case True
  moreover assume "tag_int t = Some i"
  ultimately show ?thesis by (auto simp: tag_integer_reduce_def reduced_u8)
qed (simp add: tag_integer_reduce_int)

lemma reduce_signed:
  assumes "mp_ok mp"
  shows "- 32768 \<le> i \<Longrightarrow> i < 32768 \<Longrightarrow>
      goto_integer_reduce mp (tag_init_s16 (s16_of (c_signed i))) = Ok (reduced i)"
    and "- 2147483648 \<le> i \<Longrightarrow> i < 2147483648 \<Longrightarrow>
      goto_integer_reduce mp (tag_init_s32 (c_signed i)) = Ok (reduced i)"
    and "- 9223372036854775808 \<le> i \<Longrightarrow> i < 9223372036854775808 \<Longrightarrow>
      goto_integer_reduce mp (tag_init_s64 (c_signed i)) = Ok (reduced i)"
  using assms
  by (simp_all add: goto_integer_reduce_def tag_init_s16_def tag_init_s32_def tag_init_s64_def
      s16_of_def c_signed_def scast_of_int sint_of_int_in_range tag_integer_reduce_reduced)

lemma reduce_unsigned:
  assumes "mp_ok mp"
  shows "0 \<le> i \<Longrightarrow> i < 65536 \<Longrightarrow>
      goto_integer_reduce mp (tag_init_u16 (u16_of (c_signed i))) = Ok (reduced i)"
    and "0 \<le> i \<Longrightarrow> i < 4294967296 \<Longrightarrow>
      goto_integer_reduce mp (tag_init_u32 (Ok (word_of_int i))) = Ok (reduced i)"
    and "0 \<le> i \<Longrightarrow> i < 18446744073709551616 \<Longrightarrow>
      goto_integer_reduce mp (tag_init_u64 (Ok (word_of_int i))) = Ok (reduced i)"
  using assms
  by (simp_all add: goto_integer_reduce_def tag_init_u16_def tag_init_u32_def tag_init_u64_def
      u16_of_def c_signed_def ucast_of_int uint_of_int_in_range tag_integer_reduce_reduced)

lemma reduce_integer:
  "mp_ok mp \<Longrightarrow> goto_integer_reduce mp (tag_init_integer (Some i)) = Ok (reduced i)"
  by (simp add: goto_integer_reduce_def tag_init_integer_def tag_integer_reduce_reduced)

lemma reduce_wrapping:
  assumes "mp_ok mp"
  shows "uint x + uint y < 4294967296 \<Longrightarrow>
      goto_integer_reduce mp (tag_init_u32 (u32_add x y)) = Ok (reduced (uint x + uint y))"
    and "uint x * uint y < 4294967296 \<Longrightarrow>
      goto_integer_reduce mp (tag_init_u32 (u32_mul x y)) = Ok (reduced (uint x * uint y))"
    and "uint v + uint w < 18446744073709551616 \<Longrightarrow>
      goto_integer_reduce mp (tag_init_u64 (u64_add v w)) = Ok (reduced (uint v + uint w))"
    and "uint v * uint w < 18446744073709551616 \<Longrightarrow>
      goto_integer_reduce mp (tag_init_u64 (u64_mul v w)) = Ok (reduced (uint v * uint w))"
  using reduce_unsigned(2) [OF assms, of "uint x + uint y"] reduce_unsigned(2) [OF assms, of "uint x * uint y"]
    reduce_unsigned(3) [OF assms, of "uint v + uint w"] reduce_unsigned(3) [OF assms, of "uint v * uint w"]
  by (simp_all add: u32_add_def u32_mul_def u64_add_def u64_mul_def)

lemmas c_op_defs = s32_add_def s32_sub_def s32_mul_def s64_add_def s64_sub_def s64_mul_def
  s16_add_def s16_sub_def s16_mul_def u16_add_def u16_mul_def

text \<open>The magnitude of the values of a type.\<close>

fun tag_mag :: "tag \<Rightarrow> int" where
  "tag_mag (TS8 _) = 128"
| "tag_mag (TS16 _) = 32768"
| "tag_mag (TS32 _) = 2147483648"
| "tag_mag (TS64 _) = 9223372036854775808"
| "tag_mag (TSW _) = 9223372036854775808"
| "tag_mag (TU8 _) = 255"
| "tag_mag (TU16 _) = 65535"
| "tag_mag (TU32 _) = 4294967295"
| "tag_mag (TInteger i) = \<bar>i\<bar>"
| "tag_mag _ = 18446744073709551615"

lemma abs_sint_bound: "\<bar>sint x\<bar> \<le> 2 ^ (LENGTH('a) - 1)" for x :: "'a::len word"
  using sint_range_bits [of x] by linarith

lemma abs_uint_bound: "\<bar>uint x\<bar> \<le> 2 ^ LENGTH('a) - 1" for x :: "'a::len word"
  using uint_bounded [of x] uint_ge_0 [of x] by linarith

lemma tag_mag_abs:
  assumes "tag_int t = Some i"
  shows "\<bar>i\<bar> \<le> tag_mag t"
proof (cases t)
  case (TSW x) with assms abs_sint_bound [of x] show ?thesis by simp
next
  case (TS64 x) with assms abs_sint_bound [of x] show ?thesis by simp
next
  case (TS32 x) with assms abs_sint_bound [of x] show ?thesis by simp
next
  case (TS16 x) with assms abs_sint_bound [of x] show ?thesis by simp
next
  case (TS8 x) with assms abs_sint_bound [of x] show ?thesis by simp
next
  case (TU8 x) with assms abs_uint_bound [of x] show ?thesis by simp
next
  case (TU16 x) with assms abs_uint_bound [of x] show ?thesis by simp
next
  case (TU32 x) with assms abs_uint_bound [of x] show ?thesis by simp
next
  case (TU64 x) with assms abs_uint_bound [of x] show ?thesis by simp
next
  case (TUW x) with assms abs_uint_bound [of x] show ?thesis by simp
qed (use assms in simp_all)

lemma tag_mag_bound:
  "tag_int t = Some i \<Longrightarrow> - tag_mag t \<le> i \<and> i \<le> tag_mag t"
  using tag_mag_abs [of t i] by linarith

lemma mag_mul_bound:
  assumes "tag_int a = Some i" "tag_int b = Some j"
  shows "- (tag_mag a * tag_mag b) \<le> i * j \<and> i * j \<le> tag_mag a * tag_mag b"
proof -
  have "\<bar>i\<bar> \<le> tag_mag a" "\<bar>j\<bar> \<le> tag_mag b"
    using assms tag_mag_bound [of a i] tag_mag_bound [of b j] by (auto simp: abs_le_iff)
  then have "\<bar>i * j\<bar> \<le> tag_mag a * tag_mag b"
    unfolding abs_mult by (intro mult_mono) auto
  then show ?thesis by linarith
qed

fun tag_unsigned :: "tag \<Rightarrow> bool" where
  "tag_unsigned (TU8 _) = True"
| "tag_unsigned (TU16 _) = True"
| "tag_unsigned (TU32 _) = True"
| "tag_unsigned (TU64 _) = True"
| "tag_unsigned (TUW _) = True"
| "tag_unsigned _ = False"

lemma tag_unsigned_nonneg: "tag_int t = Some i \<Longrightarrow> tag_unsigned t \<longrightarrow> 0 \<le> i"
  by (cases t) auto

lemma tag_unsigned_mul_nonneg:
  "tag_int a = Some i \<Longrightarrow> tag_int b = Some j \<Longrightarrow> tag_unsigned a \<and> tag_unsigned b \<longrightarrow> 0 \<le> i * j"
  using tag_unsigned_nonneg [of a i] tag_unsigned_nonneg [of b j] by simp

text \<open>The bounds a row needs: only the types of at most 32 bits are combined as words.\<close>

definition tag_narrow :: "tag \<Rightarrow> bool" where
  "tag_narrow t \<longleftrightarrow> tag_type t \<in> {14, 15, 16, 17, 18, 19}"

lemma narrow_bounds:
  assumes "tag_int a = Some i" "tag_int b = Some j"
  shows "tag_narrow a \<and> tag_narrow b \<longrightarrow>
      - tag_mag a \<le> i \<and> i \<le> tag_mag a \<and> - tag_mag b \<le> j \<and> j \<le> tag_mag b"
    and "tag_narrow a \<and> tag_narrow b \<longrightarrow>
      - (tag_mag a * tag_mag b) \<le> i * j \<and> i * j \<le> tag_mag a * tag_mag b"
  using tag_mag_bound [OF assms(1)] tag_mag_bound [OF assms(2)] mag_mul_bound [OF assms] by auto

lemma narrow_cases:
  assumes "tag_narrow t" "tag_int t = Some i"
  obtains x where "t = TS8 x" "i = sint x"
    | x where "t = TS16 x" "i = sint x"
    | x where "t = TS32 x" "i = sint x"
    | x where "t = TU8 x" "i = uint x"
    | x where "t = TU16 x" "i = uint x"
    | x where "t = TU32 x" "i = uint x"
  using assms by (cases t) (auto simp: tag_narrow_def)

section \<open>The smallest type\<close>

text \<open>The width of an integer tag; an \<open>s_integer\<close> counts as wider than every machine type.\<close>

fun tag_bits :: "tag \<Rightarrow> nat" where
  "tag_bits (TS8 _) = 8"
| "tag_bits (TU8 _) = 8"
| "tag_bits (TS16 _) = 16"
| "tag_bits (TU16 _) = 16"
| "tag_bits (TS32 _) = 32"
| "tag_bits (TU32 _) = 32"
| "tag_bits (TS64 _) = 64"
| "tag_bits (TU64 _) = 64"
| "tag_bits (TSW _) = 64"
| "tag_bits (TUW _) = 64"
| "tag_bits _ = 65"

lemma sint_in_width: "- (2 ^ (LENGTH('a) - 1)) \<le> sint x \<and> sint x < 2 ^ LENGTH('a)" for x :: "'a::len word"
proof -
  have "sint x < 2 ^ (LENGTH('a) - 1)" by (rule sint_lt)
  also have "(2 :: int) ^ (LENGTH('a) - 1) \<le> 2 ^ LENGTH('a)" by (rule power_increasing) simp_all
  finally show ?thesis using sint_ge [of x] by simp
qed

lemma uint_in_width: "- (2 ^ (LENGTH('a) - 1)) \<le> uint x \<and> uint x < 2 ^ LENGTH('a)" for x :: "'a::len word"
  using uint_bounded [of x] by (auto intro: order_trans [OF _ uint_ge_0])

lemma tag_int_range:
  assumes "tag_int t = Some i" "\<nexists>j. t = TInteger j"
  shows "- (2 ^ (tag_bits t - 1)) \<le> i \<and> i < 2 ^ tag_bits t"
  using assms sint_in_width [where 'a = 8] sint_in_width [where 'a = 16] sint_in_width [where 'a = 32]
    sint_in_width [where 'a = 64] uint_in_width [where 'a = 8] uint_in_width [where 'a = 16]
    uint_in_width [where 'a = 32] uint_in_width [where 'a = 64]
  by (cases t) auto

text \<open>
  C31: reducing an integer.  When libtommath behaves as documented, \<open>tag_integer_reduce\<close>
  keeps the value of every integer tag and gives a tag of least width among those that hold it;
  on the other tags it fails.
\<close>

theorem integer_reduce_least:
  assumes "mp_ok mp"
  shows "case tag_int t of
      None \<Rightarrow> tag_integer_reduce mp t = Null
    | Some i \<Rightarrow> \<exists>u. tag_integer_reduce mp t = Ok u \<and> tag_int u = Some i \<and>
        (\<forall>v. tag_int v = Some i \<longrightarrow> tag_bits u \<le> tag_bits v)"
proof (cases "tag_int t")
  case None
  then show ?thesis by (cases t) (simp_all add: tag_integer_reduce_def)
next
  case (Some i)
  have "tag_bits (reduced i) \<le> tag_bits v" if v: "tag_int v = Some i" for v
  proof (cases "\<exists>j. v = TInteger j")
    case True
    then show ?thesis by (auto simp: reduced_def)
  next
    case False
    then have "tag_bits v \<in> {8, 16, 32, 64}" using v by (cases v) auto
    with tag_int_range [OF v] False show ?thesis by (auto simp: reduced_def)
  qed
  then show ?thesis using tag_integer_reduce_reduced [OF assms Some] Some by simp
qed

theorem integer_reduce_least_witness:
  "\<exists>u. tag_integer_reduce mp_exact (TU64 300) = Ok u \<and> tag_int u = Some 300 \<and> tag_bits u \<le> tag_bits (TU16 300)"
proof -
  obtain u where u: "tag_integer_reduce mp_exact (TU64 300) = Ok u" "tag_int u = Some 300"
    "\<forall>v. tag_int v = Some 300 \<longrightarrow> tag_bits u \<le> tag_bits v"
    using integer_reduce_least [of mp_exact "TU64 300"] by auto
  have "tag_int (TU16 300) = Some 300" by simp
  with u show ?thesis by blast
qed

end
