(* ===== verification/Tag_Add.thy ===== *)
theory Tag_Add
  imports C_Arith
begin

text \<open>
  tag\_add.c on two integer tags: one definition per row of the switch (the type of the first
  operand), \<open>None\<close> where the second operand is not an integer.  The rows for floating point,
  ratios, complex numbers, strings, times and lists are not modelled.
\<close>

text \<open>The labels of the function; the results of \<open>integer_add\<close> are not checked there.\<close>

definition goto_integer_add :: "mplib \<Rightarrow> int \<Rightarrow> int \<Rightarrow> tag outcome" where
  "goto_integer_add mp a tmp =
    (case integer_add mp a tmp of None \<Rightarrow> Undef | Some tmp2 \<Rightarrow> Ok (integer_reduce mp tmp2))"

definition goto_integer_add_b :: "mplib \<Rightarrow> int \<Rightarrow> int \<Rightarrow> tag outcome" where
  "goto_integer_add_b mp tmp b =
    (case integer_add mp tmp b of None \<Rightarrow> Undef | Some tmp2 \<Rightarrow> Ok (integer_reduce mp tmp2))"

definition goto_integer_add_a_b :: "mplib \<Rightarrow> int \<Rightarrow> int \<Rightarrow> tag outcome" where
  "goto_integer_add_a_b mp tmp tmp2 =
    goto_integer_reduce mp (tag_init_integer (integer_add mp tmp tmp2))"

definition tag_add_integer :: "mplib \<Rightarrow> int \<Rightarrow> tag \<Rightarrow> tag outcome option" where
  "tag_add_integer mp a b = (case b of
      TInteger b \<Rightarrow> Some (case integer_add mp a b of None \<Rightarrow> Null | Some tmp \<Rightarrow> Ok (integer_reduce mp tmp))
    | TS8 b \<Rightarrow> Some (goto_integer_add mp a (integer_init_s8 mp b))
    | TS16 b \<Rightarrow> Some (goto_integer_add mp a (integer_init_s16 mp b))
    | TS32 b \<Rightarrow> Some (goto_integer_add mp a (integer_init_s32 mp b))
    | TS64 b \<Rightarrow> Some (goto_integer_add mp a (integer_init_s64 mp b))
    | TSW b \<Rightarrow> Some (goto_integer_add mp a (integer_init_sw mp b))
    | TU8 b \<Rightarrow> Some (goto_integer_add mp a (integer_init_u8 mp b))
    | TU16 b \<Rightarrow> Some (goto_integer_add mp a (integer_init_u16 mp b))
    | TU32 b \<Rightarrow> Some (goto_integer_add mp a (integer_init_u32 mp b))
    | TU64 b \<Rightarrow> Some (goto_integer_add mp a (integer_init_u64 mp b))
    | TUW b \<Rightarrow> Some (goto_integer_add mp a (integer_init_uw mp b))
    | _ \<Rightarrow> None)"

definition tag_add_s8 :: "mplib \<Rightarrow> s8 \<Rightarrow> tag \<Rightarrow> tag outcome option" where
  "tag_add_s8 mp a b = (case b of
      TInteger b \<Rightarrow> Some (goto_integer_add_b mp (integer_init_s8 mp a) b)
    | TS8 b \<Rightarrow> Some (goto_integer_reduce mp (tag_init_s16 (s16_add (scast a :: s16) (scast b :: s16))))
    | TS16 b \<Rightarrow> Some (goto_integer_reduce mp (tag_init_s32 (s32_add (scast a :: s32) (scast b :: s32))))
    | TS32 b \<Rightarrow> Some (goto_integer_reduce mp (tag_init_s64 (s64_add (scast a :: s64) (scast b :: s64))))
    | TS64 b \<Rightarrow> Some (goto_integer_add_a_b mp (integer_init_s8 mp a) (integer_init_s64 mp b))
    | TSW b \<Rightarrow> Some (goto_integer_add_a_b mp (integer_init_s8 mp a) (integer_init_sw mp b))
    | TU8 b \<Rightarrow> Some (goto_integer_reduce mp (tag_init_s16 (s16_add (scast a :: s16) (ucast b :: s16))))
    | TU16 b \<Rightarrow> Some (goto_integer_reduce mp (tag_init_s32 (s32_add (scast a :: s32) (ucast b :: s32))))
    | TU32 b \<Rightarrow> Some (goto_integer_reduce mp (tag_init_s64 (s64_add (scast a :: s64) (ucast b :: s64))))
    | TU64 b \<Rightarrow> Some (goto_integer_add_a_b mp (integer_init_s8 mp a) (integer_init_u64 mp b))
    | TUW b \<Rightarrow> Some (goto_integer_add_a_b mp (integer_init_s8 mp a) (integer_init_uw mp b))
    | _ \<Rightarrow> None)"

definition tag_add_s16 :: "mplib \<Rightarrow> s16 \<Rightarrow> tag \<Rightarrow> tag outcome option" where
  "tag_add_s16 mp a b = (case b of
      TInteger b \<Rightarrow> Some (goto_integer_add_b mp (integer_init_s16 mp a) b)
    | TS8 b \<Rightarrow> Some (goto_integer_reduce mp (tag_init_s32 (s32_add (scast a :: s32) (scast b :: s32))))
    | TS16 b \<Rightarrow> Some (goto_integer_reduce mp (tag_init_s32 (s32_add (scast a :: s32) (scast b :: s32))))
    | TS32 b \<Rightarrow> Some (goto_integer_reduce mp (tag_init_s64 (s64_add (scast a :: s64) (scast b :: s64))))
    | TS64 b \<Rightarrow> Some (goto_integer_reduce mp (tag_init_integer (integer_add mp (integer_init_s16 mp a) (integer_init_s64 mp b))))
    | TSW b \<Rightarrow> Some (goto_integer_reduce mp (tag_init_integer (integer_add mp (integer_init_s16 mp a) (integer_init_sw mp b))))
    | TU8 b \<Rightarrow> Some (goto_integer_reduce mp (tag_init_s32 (s32_add (scast a :: s32) (ucast b :: s32))))
    | TU16 b \<Rightarrow> Some (goto_integer_reduce mp (tag_init_s32 (s32_add (scast a :: s32) (ucast b :: s32))))
    | TU32 b \<Rightarrow> Some (goto_integer_reduce mp (tag_init_s64 (s64_add (scast a :: s64) (ucast b :: s64))))
    | TU64 b \<Rightarrow> Some (goto_integer_reduce mp (tag_init_integer (integer_add mp (integer_init_s16 mp a) (integer_init_u64 mp b))))
    | TUW b \<Rightarrow> Some (goto_integer_reduce mp (tag_init_integer (integer_add mp (integer_init_s16 mp a) (integer_init_uw mp b))))
    | _ \<Rightarrow> None)"

definition tag_add_s32 :: "mplib \<Rightarrow> s32 \<Rightarrow> tag \<Rightarrow> tag outcome option" where
  "tag_add_s32 mp a b = (case b of
      TInteger b \<Rightarrow> Some (goto_integer_add_b mp (integer_init_s32 mp a) b)
    | TS8 b \<Rightarrow> Some (goto_integer_reduce mp (tag_init_s64 (s64_add (scast a :: s64) (scast b :: s64))))
    | TS16 b \<Rightarrow> Some (goto_integer_reduce mp (tag_init_s64 (s64_add (scast a :: s64) (scast b :: s64))))
    | TS32 b \<Rightarrow> Some (goto_integer_reduce mp (tag_init_s64 (s64_add (scast a :: s64) (scast b :: s64))))
    | TS64 b \<Rightarrow> Some (goto_integer_add_a_b mp (integer_init_s32 mp a) (integer_init_s64 mp b))
    | TSW b \<Rightarrow> Some (goto_integer_add_a_b mp (integer_init_s32 mp a) (integer_init_sw mp b))
    | TU8 b \<Rightarrow> Some (goto_integer_reduce mp (tag_init_s64 (s64_add (scast a :: s64) (ucast b :: s64))))
    | TU16 b \<Rightarrow> Some (goto_integer_reduce mp (tag_init_s64 (s64_add (scast a :: s64) (ucast b :: s64))))
    | TU32 b \<Rightarrow> Some (goto_integer_reduce mp (tag_init_s64 (s64_add (scast a :: s64) (ucast b :: s64))))
    | TU64 b \<Rightarrow> Some (goto_integer_add_a_b mp (integer_init_s32 mp a) (integer_init_u64 mp b))
    | TUW b \<Rightarrow> Some (goto_integer_add_a_b mp (integer_init_s32 mp a) (integer_init_uw mp b))
    | _ \<Rightarrow> None)"

definition tag_add_s64 :: "mplib \<Rightarrow> s64 \<Rightarrow> tag \<Rightarrow> tag outcome option" where
  "tag_add_s64 mp a b = (case b of
      TInteger b \<Rightarrow> Some (goto_integer_add_b mp (integer_init_s64 mp a) b)
    | TS8 b \<Rightarrow> Some (goto_integer_add_a_b mp (integer_init_s64 mp a) (integer_init_s8 mp b))
    | TS16 b \<Rightarrow> Some (goto_integer_add_a_b mp (integer_init_s64 mp a) (integer_init_s16 mp b))
    | TS32 b \<Rightarrow> Some (goto_integer_add_a_b mp (integer_init_s64 mp a) (integer_init_s32 mp b))
    | TS64 b \<Rightarrow> Some (goto_integer_add_a_b mp (integer_init_s64 mp a) (integer_init_s64 mp b))
    | TSW b \<Rightarrow> Some (goto_integer_add_a_b mp (integer_init_s64 mp a) (integer_init_sw mp b))
    | TU8 b \<Rightarrow> Some (goto_integer_add_a_b mp (integer_init_s64 mp a) (integer_init_u8 mp b))
    | TU16 b \<Rightarrow> Some (goto_integer_add_a_b mp (integer_init_s64 mp a) (integer_init_u16 mp b))
    | TU32 b \<Rightarrow> Some (goto_integer_add_a_b mp (integer_init_s64 mp a) (integer_init_u32 mp b))
    | TU64 b \<Rightarrow> Some (goto_integer_add_a_b mp (integer_init_s64 mp a) (integer_init_u64 mp b))
    | TUW b \<Rightarrow> Some (goto_integer_add_a_b mp (integer_init_s64 mp a) (integer_init_uw mp b))
    | _ \<Rightarrow> None)"

definition tag_add_sw :: "mplib \<Rightarrow> sw \<Rightarrow> tag \<Rightarrow> tag outcome option" where
  "tag_add_sw mp a b = (case b of
      TInteger b \<Rightarrow> Some (goto_integer_add_b mp (integer_init_sw mp a) b)
    | TS8 b \<Rightarrow> Some (goto_integer_add_a_b mp (integer_init_sw mp a) (integer_init_s8 mp b))
    | TS16 b \<Rightarrow> Some (goto_integer_add_a_b mp (integer_init_sw mp a) (integer_init_s16 mp b))
    | TS32 b \<Rightarrow> Some (goto_integer_add_a_b mp (integer_init_sw mp a) (integer_init_s32 mp b))
    | TS64 b \<Rightarrow> Some (goto_integer_add_a_b mp (integer_init_sw mp a) (integer_init_s64 mp b))
    | TSW b \<Rightarrow> Some (goto_integer_add_a_b mp (integer_init_sw mp a) (integer_init_sw mp b))
    | TU8 b \<Rightarrow> Some (goto_integer_add_a_b mp (integer_init_sw mp a) (integer_init_u8 mp b))
    | TU16 b \<Rightarrow> Some (goto_integer_add_a_b mp (integer_init_sw mp a) (integer_init_u16 mp b))
    | TU32 b \<Rightarrow> Some (goto_integer_add_a_b mp (integer_init_sw mp a) (integer_init_u32 mp b))
    | TU64 b \<Rightarrow> Some (goto_integer_add_a_b mp (integer_init_sw mp a) (integer_init_u64 mp b))
    | TUW b \<Rightarrow> Some (goto_integer_add_a_b mp (integer_init_sw mp a) (integer_init_uw mp b))
    | _ \<Rightarrow> None)"

definition tag_add_u8 :: "mplib \<Rightarrow> u8 \<Rightarrow> tag \<Rightarrow> tag outcome option" where
  "tag_add_u8 mp a b = (case b of
      TInteger b \<Rightarrow> Some (goto_integer_add_b mp (integer_init_u8 mp a) b)
    | TS8 b \<Rightarrow> Some (goto_integer_reduce mp (tag_init_s16 (s16_add (ucast a :: s16) (scast b :: s16))))
    | TS16 b \<Rightarrow> Some (goto_integer_reduce mp (tag_init_s32 (s32_add (ucast a :: s32) (scast b :: s32))))
    | TS32 b \<Rightarrow> Some (goto_integer_reduce mp (tag_init_s64 (s64_add (ucast a :: s64) (scast b :: s64))))
    | TS64 b \<Rightarrow> Some (goto_integer_add_a_b mp (integer_init_u8 mp a) (integer_init_s64 mp b))
    | TSW b \<Rightarrow> Some (goto_integer_add_a_b mp (integer_init_u8 mp a) (integer_init_sw mp b))
    | TU8 b \<Rightarrow> Some (goto_integer_reduce mp (tag_init_u16 (u16_add (ucast a :: u16) (ucast b :: u16))))
    | TU16 b \<Rightarrow> Some (goto_integer_reduce mp (tag_init_u32 (u32_add (ucast a :: u32) (ucast b :: u32))))
    | TU32 b \<Rightarrow> Some (goto_integer_reduce mp (tag_init_u64 (u64_add (ucast a :: u64) (ucast b :: u64))))
    | TU64 b \<Rightarrow> Some (goto_integer_add_a_b mp (integer_init_u8 mp a) (integer_init_u64 mp b))
    | TUW b \<Rightarrow> Some (goto_integer_add_a_b mp (integer_init_u8 mp a) (integer_init_uw mp b))
    | _ \<Rightarrow> None)"

definition tag_add_u16 :: "mplib \<Rightarrow> u16 \<Rightarrow> tag \<Rightarrow> tag outcome option" where
  "tag_add_u16 mp a b = (case b of
      TInteger b \<Rightarrow> Some (goto_integer_add_b mp (integer_init_u16 mp a) b)
    | TS8 b \<Rightarrow> Some (goto_integer_reduce mp (tag_init_s32 (s32_add (ucast a :: s32) (scast b :: s32))))
    | TS16 b \<Rightarrow> Some (goto_integer_reduce mp (tag_init_s32 (s32_add (ucast a :: s32) (scast b :: s32))))
    | TS32 b \<Rightarrow> Some (goto_integer_reduce mp (tag_init_s64 (s64_add (ucast a :: s64) (scast b :: s64))))
    | TS64 b \<Rightarrow> Some (goto_integer_add_a_b mp (integer_init_u16 mp a) (integer_init_s64 mp b))
    | TSW b \<Rightarrow> Some (goto_integer_add_a_b mp (integer_init_u16 mp a) (integer_init_sw mp b))
    | TU8 b \<Rightarrow> Some (goto_integer_reduce mp (tag_init_u32 (u32_add (ucast a :: u32) (ucast b :: u32))))
    | TU16 b \<Rightarrow> Some (goto_integer_reduce mp (tag_init_u32 (u32_add (ucast a :: u32) (ucast b :: u32))))
    | TU32 b \<Rightarrow> Some (goto_integer_reduce mp (tag_init_u64 (u64_add (ucast a :: u64) (ucast b :: u64))))
    | TU64 b \<Rightarrow> Some (goto_integer_add_a_b mp (integer_init_u32 mp (ucast a :: u32)) (integer_init_u64 mp b))
    | TUW b \<Rightarrow> Some (goto_integer_add_a_b mp (integer_init_u16 mp a) (integer_init_uw mp b))
    | _ \<Rightarrow> None)"

definition tag_add_u32 :: "mplib \<Rightarrow> u32 \<Rightarrow> tag \<Rightarrow> tag outcome option" where
  "tag_add_u32 mp a b = (case b of
      TInteger b \<Rightarrow> Some (goto_integer_add_b mp (integer_init_u32 mp a) b)
    | TS8 b \<Rightarrow> Some (goto_integer_reduce mp (tag_init_s64 (s64_add (ucast a :: s64) (scast b :: s64))))
    | TS16 b \<Rightarrow> Some (goto_integer_reduce mp (tag_init_s64 (s64_add (ucast a :: s64) (scast b :: s64))))
    | TS32 b \<Rightarrow> Some (goto_integer_reduce mp (tag_init_s64 (s64_add (ucast a :: s64) (scast b :: s64))))
    | TS64 b \<Rightarrow> Some (goto_integer_add_a_b mp (integer_init_u32 mp a) (integer_init_s64 mp b))
    | TSW b \<Rightarrow> Some (goto_integer_add_a_b mp (integer_init_u32 mp a) (integer_init_sw mp b))
    | TU8 b \<Rightarrow> Some (goto_integer_reduce mp (tag_init_u64 (u64_add (ucast a :: u64) (ucast b :: u64))))
    | TU16 b \<Rightarrow> Some (goto_integer_reduce mp (tag_init_u64 (u64_add (ucast a :: u64) (ucast b :: u64))))
    | TU32 b \<Rightarrow> Some (goto_integer_reduce mp (tag_init_u64 (u64_add (ucast a :: u64) (ucast b :: u64))))
    | TU64 b \<Rightarrow> Some (goto_integer_add_a_b mp (integer_init_u32 mp a) (integer_init_u64 mp b))
    | TUW b \<Rightarrow> Some (goto_integer_add_a_b mp (integer_init_u32 mp a) (integer_init_uw mp b))
    | _ \<Rightarrow> None)"

definition tag_add_u64 :: "mplib \<Rightarrow> u64 \<Rightarrow> tag \<Rightarrow> tag outcome option" where
  "tag_add_u64 mp a b = (case b of
      TInteger b \<Rightarrow> Some (goto_integer_add_b mp (integer_init_u64 mp a) b)
    | TS8 b \<Rightarrow> Some (goto_integer_add_a_b mp (integer_init_u64 mp a) (integer_init_s8 mp b))
    | TS16 b \<Rightarrow> Some (goto_integer_add_a_b mp (integer_init_u64 mp a) (integer_init_s16 mp b))
    | TS32 b \<Rightarrow> Some (goto_integer_add_a_b mp (integer_init_u64 mp a) (integer_init_s32 mp b))
    | TS64 b \<Rightarrow> Some (goto_integer_add_a_b mp (integer_init_u64 mp a) (integer_init_s64 mp b))
    | TSW b \<Rightarrow> Some (goto_integer_add_a_b mp (integer_init_u64 mp a) (integer_init_sw mp b))
    | TU8 b \<Rightarrow> Some (goto_integer_add_a_b mp (integer_init_u64 mp a) (integer_init_u8 mp b))
    | TU16 b \<Rightarrow> Some (goto_integer_add_a_b mp (integer_init_u64 mp a) (integer_init_u16 mp b))
    | TU32 b \<Rightarrow> Some (goto_integer_add_a_b mp (integer_init_u64 mp a) (integer_init_u32 mp b))
    | TU64 b \<Rightarrow> Some (goto_integer_add_a_b mp (integer_init_u64 mp a) (integer_init_u64 mp b))
    | TUW b \<Rightarrow> Some (goto_integer_add_a_b mp (integer_init_u64 mp a) (integer_init_uw mp b))
    | _ \<Rightarrow> None)"

definition tag_add_uw :: "mplib \<Rightarrow> uw \<Rightarrow> tag \<Rightarrow> tag outcome option" where
  "tag_add_uw mp a b = (case b of
      TInteger b \<Rightarrow> Some (goto_integer_add_b mp (integer_init_uw mp a) b)
    | TS8 b \<Rightarrow> Some (goto_integer_add_a_b mp (integer_init_uw mp a) (integer_init_s8 mp b))
    | TS16 b \<Rightarrow> Some (goto_integer_add_a_b mp (integer_init_uw mp a) (integer_init_s16 mp b))
    | TS32 b \<Rightarrow> Some (goto_integer_add_a_b mp (integer_init_uw mp a) (integer_init_s32 mp b))
    | TS64 b \<Rightarrow> Some (goto_integer_add_a_b mp (integer_init_uw mp a) (integer_init_s64 mp b))
    | TSW b \<Rightarrow> Some (goto_integer_add_a_b mp (integer_init_uw mp a) (integer_init_sw mp b))
    | TU8 b \<Rightarrow> Some (goto_integer_add_a_b mp (integer_init_uw mp a) (integer_init_u8 mp b))
    | TU16 b \<Rightarrow> Some (goto_integer_add_a_b mp (integer_init_uw mp a) (integer_init_u16 mp b))
    | TU32 b \<Rightarrow> Some (goto_integer_add_a_b mp (integer_init_uw mp a) (integer_init_u32 mp b))
    | TU64 b \<Rightarrow> Some (goto_integer_add_a_b mp (integer_init_uw mp a) (integer_init_u64 mp b))
    | TUW b \<Rightarrow> Some (if b \<le> 18446744073709551615 - a then Ok (tag_init_uw_reduce (a + b))
        else goto_integer_add_a_b mp (integer_init_uw mp a) (integer_init_uw mp b))
    | _ \<Rightarrow> None)"

definition tag_add :: "mplib \<Rightarrow> tag \<Rightarrow> tag \<Rightarrow> tag outcome option" where
  "tag_add mp a b = (case a of
      TInteger x \<Rightarrow> tag_add_integer mp x b
    | TS8 x \<Rightarrow> tag_add_s8 mp x b
    | TS16 x \<Rightarrow> tag_add_s16 mp x b
    | TS32 x \<Rightarrow> tag_add_s32 mp x b
    | TS64 x \<Rightarrow> tag_add_s64 mp x b
    | TSW x \<Rightarrow> tag_add_sw mp x b
    | TU8 x \<Rightarrow> tag_add_u8 mp x b
    | TU16 x \<Rightarrow> tag_add_u16 mp x b
    | TU32 x \<Rightarrow> tag_add_u32 mp x b
    | TU64 x \<Rightarrow> tag_add_u64 mp x b
    | TUW x \<Rightarrow> tag_add_uw mp x b
    | _ \<Rightarrow> None)"

lemmas tag_add_rows = tag_add_integer_def tag_add_s8_def tag_add_s16_def tag_add_s32_def
  tag_add_s64_def tag_add_sw_def tag_add_u8_def tag_add_u16_def tag_add_u32_def tag_add_u64_def
  tag_add_uw_def goto_integer_add_def goto_integer_add_b_def goto_integer_add_a_b_def

lemma tag_add_reduced:
  assumes "mp_ok mp" "mp_total mp" "tag_int a = Some i" "tag_int b = Some j"
    "tag_type a \<noteq> 21 \<or> tag_type b \<noteq> 21"
  shows "tag_add mp a b = Some (Ok (reduced (i + j)))"
proof -
  note [simp] = integer_op_total [OF assms(1,2)] integer_init_val [OF assms(1)]
    reduce_signed [OF assms(1)] reduce_unsigned [OF assms(1)] reduce_integer [OF assms(1)]
    reduce_wrapping [OF assms(1)] c_op_defs word_val integer_reduce_eq [OF assms(1)]
  show ?thesis
    using assms(3-5) narrow_bounds(1) [OF assms(3,4)]
      tag_unsigned_nonneg [OF assms(3)] tag_unsigned_nonneg [OF assms(4)]
    by (cases a; simp only: tag_int.simps option.inject option.distinct tag_add_def tag.case)
       (cases b; simp add: tag_add_rows tag_narrow_def)+
qed
lemma tag_int_init_uw_reduce: "tag_int (tag_init_uw_reduce x) = Some (uint x)"
  by (simp add: tag_init_uw_reduce_def unsigned_ucast_eq take_bit_int_eq_self)

lemma tag_add_uw_uw:
  assumes "mp_ok mp" "mp_total mp" "tag_int a = Some i" "tag_int b = Some j"
    "\<not> (tag_type a \<noteq> 21 \<or> tag_type b \<noteq> 21)"
  shows "\<exists>t. tag_add mp a b = Some (Ok t) \<and> tag_int t = Some (i + j)"
proof -
  have "tag_type t = 21 \<Longrightarrow> \<exists>x. t = TUW x" for t
    by (cases t) auto
  with assms(5) obtain x y where ab: "a = TUW x" "b = TUW y" by blast
  have "(18446744073709551615 - uint x) mod 18446744073709551616 = 18446744073709551615 - uint x"
    by (rule mod_pos_pos_trivial) (use uint_bounded [of x] uint_ge_0 [of x] in simp, use uint_ge_0 [of x] in linarith)
  then have "y \<le> 18446744073709551615 - x \<Longrightarrow> uint (x + y) = uint x + uint y"
    by (simp add: word_le_def uint_word_ariths mod_pos_pos_trivial)
  with ab assms show ?thesis
    by (auto simp: tag_add_def tag_add_uw_def tag_int_init_uw_reduce goto_integer_add_a_b_def
        integer_op_total integer_init_val reduce_integer)
qed

text \<open>
  C15: adding two integers of any types is exact.  When libtommath behaves as documented and
  has memory, \<open>tag_add\<close> returns a tag whose value is the sum, on every one of the 121 pairs of
  integer types; except for two machine words it has the smallest type that holds the sum.
\<close>

theorem tag_add_correct:
  assumes "mp_ok mp" "mp_total mp" "tag_int a = Some i" "tag_int b = Some j"
  shows "\<exists>t. tag_add mp a b = Some (Ok t) \<and> tag_int t = Some (i + j) \<and>
    (tag_type a \<noteq> 21 \<or> tag_type b \<noteq> 21 \<longrightarrow> t = reduced (i + j))"
  using tag_add_reduced [OF assms] tag_add_uw_uw [OF assms] by (cases "tag_type a \<noteq> 21 \<or> tag_type b \<noteq> 21") auto

theorem tag_add_correct_witness:
  "tag_add mp_exact (TS32 (- 2147483648)) (TS8 (- 1)) = Some (Ok (TS64 (- 2147483649)))"
  using tag_add_correct [of mp_exact "TS32 (- 2147483648)" "- 2147483648" "TS8 (- 1)" "- 1"]
  by (simp add: reduced_def)

text \<open>
  the sum of two machine words is not reduced like every other sum: 200 + 55 is stored as
  a u16 although \<open>integer_reduce\<close> gives a u8 for 255, because \<open>tag_init_uw_reduce\<close> tests
  \<open>>=\<close> against the largest value of each type.
\<close>

theorem tag_add_uw_not_reduced:
  "tag_add mp_exact (TUW 200) (TUW 55) = Some (Ok (TU16 255)) \<and> reduced 255 = TU8 255"
  by (simp add: tag_add_def tag_add_uw_def tag_init_uw_reduce_def reduced_def)

end
