(* ===== verification/Tag_Sub.thy ===== *)
theory Tag_Sub
  imports C_Arith
begin

text \<open>
  tag\_sub.c on two integer tags: one definition per row of the switch (the type of the first
  operand), \<open>None\<close> where the second operand is not an integer.  The rows for floating point,
  ratios, complex numbers, times and lists are not modelled.
\<close>

definition tag_sub_integer :: "mplib \<Rightarrow> int \<Rightarrow> tag \<Rightarrow> tag outcome option" where
  "tag_sub_integer mp a b = (case b of
      TInteger b \<Rightarrow> Some (goto_integer_reduce mp (tag_init_integer (integer_sub mp a b)))
    | TS8 b \<Rightarrow> Some (goto_integer_reduce mp (tag_init_integer (integer_sub mp a (integer_init_s8 mp b))))
    | TS16 b \<Rightarrow> Some (goto_integer_reduce mp (tag_init_integer (integer_sub mp a (integer_init_s16 mp b))))
    | TS32 b \<Rightarrow> Some (goto_integer_reduce mp (tag_init_integer (integer_sub mp a (integer_init_s32 mp b))))
    | TS64 b \<Rightarrow> Some (goto_integer_reduce mp (tag_init_integer (integer_sub mp a (integer_init_s64 mp b))))
    | TSW b \<Rightarrow> Some (goto_integer_reduce mp (tag_init_integer (integer_sub mp a (integer_init_sw mp b))))
    | TU8 b \<Rightarrow> Some (goto_integer_reduce mp (tag_init_integer (integer_sub mp a (integer_init_u8 mp b))))
    | TU16 b \<Rightarrow> Some (goto_integer_reduce mp (tag_init_integer (integer_sub mp a (integer_init_u16 mp b))))
    | TU32 b \<Rightarrow> Some (goto_integer_reduce mp (tag_init_integer (integer_sub mp a (integer_init_u32 mp b))))
    | TU64 b \<Rightarrow> Some (goto_integer_reduce mp (tag_init_integer (integer_sub mp a (integer_init_u64 mp b))))
    | TUW b \<Rightarrow> Some (goto_integer_reduce mp (tag_init_integer (integer_sub mp a (integer_init_uw mp b))))
    | _ \<Rightarrow> None)"

definition tag_sub_s8 :: "mplib \<Rightarrow> s8 \<Rightarrow> tag \<Rightarrow> tag outcome option" where
  "tag_sub_s8 mp a b = (case b of
      TInteger b \<Rightarrow> Some (goto_integer_reduce mp (tag_init_integer (integer_sub mp (integer_init_s8 mp a) b)))
    | TS8 b \<Rightarrow> Some (goto_integer_reduce mp (tag_init_s16 (s16_sub (scast a :: s16) (scast b :: s16))))
    | TS16 b \<Rightarrow> Some (goto_integer_reduce mp (tag_init_s32 (s32_sub (scast a :: s32) (scast b :: s32))))
    | TS32 b \<Rightarrow> Some (goto_integer_reduce mp (tag_init_s64 (s64_sub (scast a :: s64) (scast b :: s64))))
    | TS64 b \<Rightarrow> Some (goto_integer_reduce mp (tag_init_integer (integer_sub mp (integer_init_s8 mp a) (integer_init_s64 mp b))))
    | TSW b \<Rightarrow> Some (goto_integer_reduce mp (tag_init_integer (integer_sub mp (integer_init_s8 mp a) (integer_init_sw mp b))))
    | TU8 b \<Rightarrow> Some (goto_integer_reduce mp (tag_init_s16 (s16_sub (scast a :: s16) (ucast b :: s16))))
    | TU16 b \<Rightarrow> Some (goto_integer_reduce mp (tag_init_s32 (s32_sub (scast a :: s32) (ucast b :: s32))))
    | TU32 b \<Rightarrow> Some (goto_integer_reduce mp (tag_init_s64 (s64_sub (scast a :: s64) (ucast b :: s64))))
    | TU64 b \<Rightarrow> Some (goto_integer_reduce mp (tag_init_integer (integer_sub mp (integer_init_s8 mp a) (integer_init_u64 mp b))))
    | TUW b \<Rightarrow> Some (goto_integer_reduce mp (tag_init_integer (integer_sub mp (integer_init_s8 mp a) (integer_init_uw mp b))))
    | _ \<Rightarrow> None)"

definition tag_sub_s16 :: "mplib \<Rightarrow> s16 \<Rightarrow> tag \<Rightarrow> tag outcome option" where
  "tag_sub_s16 mp a b = (case b of
      TInteger b \<Rightarrow> Some (goto_integer_reduce mp (tag_init_integer (integer_sub mp (integer_init_s16 mp a) b)))
    | TS8 b \<Rightarrow> Some (goto_integer_reduce mp (tag_init_s16 (s16_of (s32_sub (scast a :: s32) (scast b :: s32)))))
    | TS16 b \<Rightarrow> Some (goto_integer_reduce mp (tag_init_s16 (s16_sub a b)))
    | TS32 b \<Rightarrow> Some (goto_integer_reduce mp (tag_init_s32 (s32_sub (scast a :: s32) b)))
    | TS64 b \<Rightarrow> Some (goto_integer_reduce mp (tag_init_integer (integer_sub mp (integer_init_s16 mp a) (integer_init_s64 mp b))))
    | TSW b \<Rightarrow> Some (goto_integer_reduce mp (tag_init_integer (integer_sub mp (integer_init_s16 mp a) (integer_init_sw mp b))))
    | TU8 b \<Rightarrow> Some (goto_integer_reduce mp (tag_init_s32 (s32_sub (scast a :: s32) (ucast b :: s32))))
    | TU16 b \<Rightarrow> Some (goto_integer_reduce mp (tag_init_s32 (s32_sub (scast a :: s32) (ucast b :: s32))))
    | TU32 b \<Rightarrow> Some (goto_integer_reduce mp (tag_init_s64 (s64_sub (scast a :: s64) (ucast b :: s64))))
    | TU64 b \<Rightarrow> Some (goto_integer_reduce mp (tag_init_integer (integer_sub mp (integer_init_s16 mp a) (integer_init_u64 mp b))))
    | TUW b \<Rightarrow> Some (goto_integer_reduce mp (tag_init_integer (integer_sub mp (integer_init_s16 mp a) (integer_init_uw mp b))))
    | _ \<Rightarrow> None)"

definition tag_sub_s32 :: "mplib \<Rightarrow> s32 \<Rightarrow> tag \<Rightarrow> tag outcome option" where
  "tag_sub_s32 mp a b = (case b of
      TInteger b \<Rightarrow> Some (goto_integer_reduce mp (tag_init_integer (integer_sub mp (integer_init_s32 mp a) b)))
    | TS8 b \<Rightarrow> Some (goto_integer_reduce mp (tag_init_s64 (s64_sub (scast a :: s64) (scast b :: s64))))
    | TS16 b \<Rightarrow> Some (goto_integer_reduce mp (tag_init_s64 (s64_sub (scast a :: s64) (scast b :: s64))))
    | TS32 b \<Rightarrow> Some (goto_integer_reduce mp (tag_init_s64 (s64_sub (scast a :: s64) (scast b :: s64))))
    | TS64 b \<Rightarrow> Some (goto_integer_reduce mp (tag_init_integer (integer_sub mp (integer_init_s32 mp a) (integer_init_s64 mp b))))
    | TSW b \<Rightarrow> Some (goto_integer_reduce mp (tag_init_integer (integer_sub mp (integer_init_s32 mp a) (integer_init_sw mp b))))
    | TU8 b \<Rightarrow> Some (goto_integer_reduce mp (tag_init_s64 (s64_sub (scast a :: s64) (ucast b :: s64))))
    | TU16 b \<Rightarrow> Some (goto_integer_reduce mp (tag_init_s64 (s64_sub (scast a :: s64) (ucast b :: s64))))
    | TU32 b \<Rightarrow> Some (goto_integer_reduce mp (tag_init_s64 (s64_sub (scast a :: s64) (ucast b :: s64))))
    | TU64 b \<Rightarrow> Some (goto_integer_reduce mp (tag_init_integer (integer_sub mp (integer_init_s32 mp a) (integer_init_u64 mp b))))
    | TUW b \<Rightarrow> Some (goto_integer_reduce mp (tag_init_integer (integer_sub mp (integer_init_s32 mp a) (integer_init_uw mp b))))
    | _ \<Rightarrow> None)"

definition tag_sub_s64 :: "mplib \<Rightarrow> s64 \<Rightarrow> tag \<Rightarrow> tag outcome option" where
  "tag_sub_s64 mp a b = (case b of
      TInteger b \<Rightarrow> Some (goto_integer_reduce mp (tag_init_integer (integer_sub mp (integer_init_s64 mp a) b)))
    | TS8 b \<Rightarrow> Some (goto_integer_reduce mp (tag_init_integer (integer_sub mp (integer_init_s64 mp a) (integer_init_s8 mp b))))
    | TS16 b \<Rightarrow> Some (goto_integer_reduce mp (tag_init_integer (integer_sub mp (integer_init_s64 mp a) (integer_init_s16 mp b))))
    | TS32 b \<Rightarrow> Some (goto_integer_reduce mp (tag_init_integer (integer_sub mp (integer_init_s64 mp a) (integer_init_s32 mp b))))
    | TS64 b \<Rightarrow> Some (goto_integer_reduce mp (tag_init_integer (integer_sub mp (integer_init_s64 mp a) (integer_init_s64 mp b))))
    | TSW b \<Rightarrow> Some (goto_integer_reduce mp (tag_init_integer (integer_sub mp (integer_init_s64 mp a) (integer_init_sw mp b))))
    | TU8 b \<Rightarrow> Some (goto_integer_reduce mp (tag_init_integer (integer_sub mp (integer_init_s64 mp a) (integer_init_u8 mp b))))
    | TU16 b \<Rightarrow> Some (goto_integer_reduce mp (tag_init_integer (integer_sub mp (integer_init_s64 mp a) (integer_init_u16 mp b))))
    | TU32 b \<Rightarrow> Some (goto_integer_reduce mp (tag_init_integer (integer_sub mp (integer_init_s64 mp a) (integer_init_u32 mp b))))
    | TU64 b \<Rightarrow> Some (goto_integer_reduce mp (tag_init_integer (integer_sub mp (integer_init_s64 mp a) (integer_init_u64 mp b))))
    | TUW b \<Rightarrow> Some (goto_integer_reduce mp (tag_init_integer (integer_sub mp (integer_init_s64 mp a) (integer_init_uw mp b))))
    | _ \<Rightarrow> None)"

definition tag_sub_sw :: "mplib \<Rightarrow> sw \<Rightarrow> tag \<Rightarrow> tag outcome option" where
  "tag_sub_sw mp a b = (case b of
      TInteger b \<Rightarrow> Some (goto_integer_reduce mp (tag_init_integer (integer_sub mp (integer_init_sw mp a) b)))
    | TS8 b \<Rightarrow> Some (goto_integer_reduce mp (tag_init_integer (integer_sub mp (integer_init_sw mp a) (integer_init_s8 mp b))))
    | TS16 b \<Rightarrow> Some (goto_integer_reduce mp (tag_init_integer (integer_sub mp (integer_init_sw mp a) (integer_init_s16 mp b))))
    | TS32 b \<Rightarrow> Some (goto_integer_reduce mp (tag_init_integer (integer_sub mp (integer_init_sw mp a) (integer_init_s32 mp b))))
    | TS64 b \<Rightarrow> Some (goto_integer_reduce mp (tag_init_integer (integer_sub mp (integer_init_sw mp a) (integer_init_s64 mp b))))
    | TSW b \<Rightarrow> Some (goto_integer_reduce mp (tag_init_integer (integer_sub mp (integer_init_sw mp a) (integer_init_sw mp b))))
    | TU8 b \<Rightarrow> Some (goto_integer_reduce mp (tag_init_integer (integer_sub mp (integer_init_sw mp a) (integer_init_u8 mp b))))
    | TU16 b \<Rightarrow> Some (goto_integer_reduce mp (tag_init_integer (integer_sub mp (integer_init_sw mp a) (integer_init_u16 mp b))))
    | TU32 b \<Rightarrow> Some (goto_integer_reduce mp (tag_init_integer (integer_sub mp (integer_init_sw mp a) (integer_init_u32 mp b))))
    | TU64 b \<Rightarrow> Some (goto_integer_reduce mp (tag_init_integer (integer_sub mp (integer_init_sw mp a) (integer_init_u64 mp b))))
    | TUW b \<Rightarrow> Some (goto_integer_reduce mp (tag_init_integer (integer_sub mp (integer_init_sw mp a) (integer_init_uw mp b))))
    | _ \<Rightarrow> None)"

definition tag_sub_u8 :: "mplib \<Rightarrow> u8 \<Rightarrow> tag \<Rightarrow> tag outcome option" where
  "tag_sub_u8 mp a b = (case b of
      TInteger b \<Rightarrow> Some (goto_integer_reduce mp (tag_init_integer (integer_sub mp (integer_init_u8 mp a) b)))
    | TS8 b \<Rightarrow> Some (goto_integer_reduce mp (tag_init_s16 (s16_sub (ucast a :: s16) (scast b :: s16))))
    | TS16 b \<Rightarrow> Some (goto_integer_reduce mp (tag_init_s32 (s32_sub (ucast a :: s32) (scast b :: s32))))
    | TS32 b \<Rightarrow> Some (goto_integer_reduce mp (tag_init_s64 (s64_sub (ucast a :: s64) (scast b :: s64))))
    | TS64 b \<Rightarrow> Some (goto_integer_reduce mp (tag_init_integer (integer_sub mp (integer_init_u8 mp a) (integer_init_s64 mp b))))
    | TSW b \<Rightarrow> Some (goto_integer_reduce mp (tag_init_integer (integer_sub mp (integer_init_u8 mp a) (integer_init_sw mp b))))
    | TU8 b \<Rightarrow> Some (goto_integer_reduce mp (tag_init_s16 (s16_sub (ucast a :: s16) (ucast b :: s16))))
    | TU16 b \<Rightarrow> Some (goto_integer_reduce mp (tag_init_s32 (s32_sub (ucast a :: s32) (ucast b :: s32))))
    | TU32 b \<Rightarrow> Some (goto_integer_reduce mp (tag_init_s64 (s64_sub (ucast a :: s64) (ucast b :: s64))))
    | TU64 b \<Rightarrow> Some (goto_integer_reduce mp (tag_init_integer (integer_sub mp (integer_init_u8 mp a) (integer_init_u64 mp b))))
    | TUW b \<Rightarrow> Some (goto_integer_reduce mp (tag_init_integer (integer_sub mp (integer_init_u8 mp a) (integer_init_uw mp b))))
    | _ \<Rightarrow> None)"

definition tag_sub_u16 :: "mplib \<Rightarrow> u16 \<Rightarrow> tag \<Rightarrow> tag outcome option" where
  "tag_sub_u16 mp a b = (case b of
      TInteger b \<Rightarrow> Some (goto_integer_reduce mp (tag_init_integer (integer_sub mp (integer_init_u16 mp a) b)))
    | TS8 b \<Rightarrow> Some (goto_integer_reduce mp (tag_init_s32 (s32_sub (ucast a :: s32) (scast b :: s32))))
    | TS16 b \<Rightarrow> Some (goto_integer_reduce mp (tag_init_s32 (s32_sub (ucast a :: s32) (scast b :: s32))))
    | TS32 b \<Rightarrow> Some (goto_integer_reduce mp (tag_init_s64 (s64_sub (ucast a :: s64) (scast b :: s64))))
    | TS64 b \<Rightarrow> Some (goto_integer_reduce mp (tag_init_integer (integer_sub mp (integer_init_u16 mp a) (integer_init_s64 mp b))))
    | TSW b \<Rightarrow> Some (goto_integer_reduce mp (tag_init_integer (integer_sub mp (integer_init_u16 mp a) (integer_init_sw mp b))))
    | TU8 b \<Rightarrow> Some (goto_integer_reduce mp (tag_init_s32 (s32_sub (ucast a :: s32) (ucast b :: s32))))
    | TU16 b \<Rightarrow> Some (goto_integer_reduce mp (tag_init_s32 (s32_sub (ucast a :: s32) (ucast b :: s32))))
    | TU32 b \<Rightarrow> Some (goto_integer_reduce mp (tag_init_s64 (s64_sub (ucast a :: s64) (ucast b :: s64))))
    | TU64 b \<Rightarrow> Some (goto_integer_reduce mp (tag_init_integer (integer_sub mp (integer_init_u16 mp a) (integer_init_u64 mp b))))
    | TUW b \<Rightarrow> Some (goto_integer_reduce mp (tag_init_integer (integer_sub mp (integer_init_u16 mp a) (integer_init_uw mp b))))
    | _ \<Rightarrow> None)"

definition tag_sub_u32 :: "mplib \<Rightarrow> u32 \<Rightarrow> tag \<Rightarrow> tag outcome option" where
  "tag_sub_u32 mp a b = (case b of
      TInteger b \<Rightarrow> Some (goto_integer_reduce mp (tag_init_integer (integer_sub mp (integer_init_u32 mp a) b)))
    | TS8 b \<Rightarrow> Some (goto_integer_reduce mp (tag_init_s64 (s64_sub (ucast a :: s64) (scast b :: s64))))
    | TS16 b \<Rightarrow> Some (goto_integer_reduce mp (tag_init_s64 (s64_sub (ucast a :: s64) (scast b :: s64))))
    | TS32 b \<Rightarrow> Some (goto_integer_reduce mp (tag_init_s64 (s64_sub (ucast a :: s64) (scast b :: s64))))
    | TS64 b \<Rightarrow> Some (goto_integer_reduce mp (tag_init_integer (integer_sub mp (integer_init_u32 mp a) (integer_init_s64 mp b))))
    | TSW b \<Rightarrow> Some (goto_integer_reduce mp (tag_init_integer (integer_sub mp (integer_init_u32 mp a) (integer_init_sw mp b))))
    | TU8 b \<Rightarrow> Some (goto_integer_reduce mp (tag_init_s64 (s64_sub (ucast a :: s64) (ucast b :: s64))))
    | TU16 b \<Rightarrow> Some (goto_integer_reduce mp (tag_init_s64 (s64_sub (ucast a :: s64) (ucast b :: s64))))
    | TU32 b \<Rightarrow> Some (goto_integer_reduce mp (tag_init_s64 (s64_sub (ucast a :: s64) (ucast b :: s64))))
    | TU64 b \<Rightarrow> Some (goto_integer_reduce mp (tag_init_integer (integer_sub mp (integer_init_u32 mp a) (integer_init_u64 mp b))))
    | TUW b \<Rightarrow> Some (goto_integer_reduce mp (tag_init_integer (integer_sub mp (integer_init_u32 mp a) (integer_init_uw mp b))))
    | _ \<Rightarrow> None)"

definition tag_sub_u64 :: "mplib \<Rightarrow> u64 \<Rightarrow> tag \<Rightarrow> tag outcome option" where
  "tag_sub_u64 mp a b = (case b of
      TInteger b \<Rightarrow> Some (goto_integer_reduce mp (tag_init_integer (integer_sub mp (integer_init_u64 mp a) b)))
    | TS8 b \<Rightarrow> Some (goto_integer_reduce mp (tag_init_integer (integer_sub mp (integer_init_u64 mp a) (integer_init_s8 mp b))))
    | TS16 b \<Rightarrow> Some (goto_integer_reduce mp (tag_init_integer (integer_sub mp (integer_init_u64 mp a) (integer_init_s16 mp b))))
    | TS32 b \<Rightarrow> Some (goto_integer_reduce mp (tag_init_integer (integer_sub mp (integer_init_u64 mp a) (integer_init_s32 mp b))))
    | TS64 b \<Rightarrow> Some (goto_integer_reduce mp (tag_init_integer (integer_sub mp (integer_init_u64 mp a) (integer_init_s64 mp b))))
    | TSW b \<Rightarrow> Some (goto_integer_reduce mp (tag_init_integer (integer_sub mp (integer_init_u64 mp a) (integer_init_sw mp b))))
    | TU8 b \<Rightarrow> Some (goto_integer_reduce mp (tag_init_integer (integer_sub mp (integer_init_u64 mp a) (integer_init_u8 mp b))))
    | TU16 b \<Rightarrow> Some (goto_integer_reduce mp (tag_init_integer (integer_sub mp (integer_init_u64 mp a) (integer_init_u16 mp b))))
    | TU32 b \<Rightarrow> Some (goto_integer_reduce mp (tag_init_integer (integer_sub mp (integer_init_u64 mp a) (integer_init_u32 mp b))))
    | TU64 b \<Rightarrow> Some (goto_integer_reduce mp (tag_init_integer (integer_sub mp (integer_init_u64 mp a) (integer_init_u64 mp b))))
    | TUW b \<Rightarrow> Some (goto_integer_reduce mp (tag_init_integer (integer_sub mp (integer_init_u64 mp a) (integer_init_uw mp b))))
    | _ \<Rightarrow> None)"

definition tag_sub_uw :: "mplib \<Rightarrow> uw \<Rightarrow> tag \<Rightarrow> tag outcome option" where
  "tag_sub_uw mp a b = (case b of
      TInteger b \<Rightarrow> Some (goto_integer_reduce mp (tag_init_integer (integer_sub mp (integer_init_uw mp a) b)))
    | TS8 b \<Rightarrow> Some (goto_integer_reduce mp (tag_init_integer (integer_sub mp (integer_init_uw mp a) (integer_init_s8 mp b))))
    | TS16 b \<Rightarrow> Some (goto_integer_reduce mp (tag_init_integer (integer_sub mp (integer_init_uw mp a) (integer_init_s16 mp b))))
    | TS32 b \<Rightarrow> Some (goto_integer_reduce mp (tag_init_integer (integer_sub mp (integer_init_uw mp a) (integer_init_s32 mp b))))
    | TS64 b \<Rightarrow> Some (goto_integer_reduce mp (tag_init_integer (integer_sub mp (integer_init_uw mp a) (integer_init_s64 mp b))))
    | TSW b \<Rightarrow> Some (goto_integer_reduce mp (tag_init_integer (integer_sub mp (integer_init_uw mp a) (integer_init_sw mp b))))
    | TU8 b \<Rightarrow> Some (goto_integer_reduce mp (tag_init_integer (integer_sub mp (integer_init_uw mp a) (integer_init_u8 mp b))))
    | TU16 b \<Rightarrow> Some (goto_integer_reduce mp (tag_init_integer (integer_sub mp (integer_init_uw mp a) (integer_init_u16 mp b))))
    | TU32 b \<Rightarrow> Some (goto_integer_reduce mp (tag_init_integer (integer_sub mp (integer_init_uw mp a) (integer_init_u32 mp b))))
    | TU64 b \<Rightarrow> Some (goto_integer_reduce mp (tag_init_integer (integer_sub mp (integer_init_uw mp a) (integer_init_u64 mp b))))
    | TUW b \<Rightarrow> Some (goto_integer_reduce mp (tag_init_integer (integer_sub mp (integer_init_uw mp a) (integer_init_uw mp b))))
    | _ \<Rightarrow> None)"

definition tag_sub :: "mplib \<Rightarrow> tag \<Rightarrow> tag \<Rightarrow> tag outcome option" where
  "tag_sub mp a b = (case a of
      TInteger x \<Rightarrow> tag_sub_integer mp x b
    | TS8 x \<Rightarrow> tag_sub_s8 mp x b
    | TS16 x \<Rightarrow> tag_sub_s16 mp x b
    | TS32 x \<Rightarrow> tag_sub_s32 mp x b
    | TS64 x \<Rightarrow> tag_sub_s64 mp x b
    | TSW x \<Rightarrow> tag_sub_sw mp x b
    | TU8 x \<Rightarrow> tag_sub_u8 mp x b
    | TU16 x \<Rightarrow> tag_sub_u16 mp x b
    | TU32 x \<Rightarrow> tag_sub_u32 mp x b
    | TU64 x \<Rightarrow> tag_sub_u64 mp x b
    | TUW x \<Rightarrow> tag_sub_uw mp x b
    | _ \<Rightarrow> None)"

lemmas tag_sub_rows = tag_sub_integer_def tag_sub_s8_def tag_sub_s16_def tag_sub_s32_def
  tag_sub_s64_def tag_sub_sw_def tag_sub_u8_def tag_sub_u16_def tag_sub_u32_def tag_sub_u64_def
  tag_sub_uw_def

definition sub_wraps :: "tag \<Rightarrow> tag \<Rightarrow> bool" where
  "sub_wraps a b \<longleftrightarrow> tag_type a = 15 \<and> tag_type b \<in> {14, 15, 16}"

lemma tag_sub_reduced:
  assumes "mp_ok mp" "mp_total mp" "tag_int a = Some i" "tag_int b = Some j" "\<not> sub_wraps a b"
  shows "tag_sub mp a b = Some (Ok (reduced (i - j)))"
proof -
  note [simp] = integer_op_total [OF assms(1,2)] integer_init_val [OF assms(1)]
    reduce_signed [OF assms(1)] reduce_unsigned [OF assms(1)] reduce_integer [OF assms(1)]
    reduce_wrapping [OF assms(1)] c_op_defs word_val
  show ?thesis
    using assms(3-5) narrow_bounds(1) [OF assms(3,4)]
      tag_unsigned_nonneg [OF assms(3)] tag_unsigned_nonneg [OF assms(4)]
    by (cases a; simp only: tag_int.simps option.inject option.distinct tag_sub_def tag.case)
       (cases b; simp add: tag_sub_rows tag_narrow_def sub_wraps_def)+
qed

text \<open>
  C16: subtracting two integers of any types is exact, except in three rows.  When libtommath
  behaves as documented and has memory, \<open>tag_sub\<close> returns the difference in the smallest
  type that holds it, unless the first operand is an s16 and the second an s8, s16 or s32.
\<close>

theorem tag_sub_correct:
  assumes "mp_ok mp" "mp_total mp" "tag_int a = Some i" "tag_int b = Some j" "\<not> sub_wraps a b"
  shows "tag_sub mp a b = Some (Ok (reduced (i - j)))"
  using assms by (rule tag_sub_reduced)

theorem tag_sub_correct_witness:
  "tag_sub mp_exact (TU8 3) (TU32 70000) = Some (Ok (TS32 (- 69997)))"
  using tag_sub_correct [of mp_exact "TU8 3" 3 "TU32 70000" 70000]
  by (simp add: reduced_def sub_wraps_def)

text \<open>
  the three rows left out of the previous property are wrong: the s16 rows store the
  difference in an s16 (it wraps) or subtract an s32 from an int without widening (the C code
  overflows).
\<close>

theorem tag_sub_s16_rows_overflow:
  "tag_sub mp_exact (TS16 (- 32768)) (TS8 1) = Some (Ok (TU16 32767)) \<and>
   tag_sub mp_exact (TS16 32767) (TS16 (- 1)) = Some (Ok (TS16 (- 32768))) \<and>
   tag_sub mp_exact (TS16 0) (TS32 (- 2147483648)) = Some Undef"
  by (simp add: tag_sub_def tag_sub_s16_def s16_of_def s16_sub_def s32_sub_def c_signed_def
      goto_integer_reduce_def tag_init_s16_def tag_init_s32_def tag_integer_reduce_reduced
      reduced_def)

end
