(* ===== verification/Tag_Mul.thy ===== *)
theory Tag_Mul
  imports C_Arith
begin

text \<open>
  tag\_mul.c on two integer tags: one definition per row of the switch (the type of the first
  operand), \<open>None\<close> where the second operand is not an integer.  The rows for floating point,
  ratios and complex numbers are not modelled.
\<close>

definition tag_mul_integer :: "mplib \<Rightarrow> int \<Rightarrow> tag \<Rightarrow> tag outcome option" where
  "tag_mul_integer mp a b = (case b of
      TInteger b \<Rightarrow> Some (goto_integer_reduce mp (tag_init_integer (integer_mul mp a b)))
    | TS8 b \<Rightarrow> Some (goto_integer_reduce mp (tag_init_integer (integer_mul mp a (integer_init_s8 mp b))))
    | TS16 b \<Rightarrow> Some (goto_integer_reduce mp (tag_init_integer (integer_mul mp a (integer_init_s16 mp b))))
    | TS32 b \<Rightarrow> Some (goto_integer_reduce mp (tag_init_integer (integer_mul mp a (integer_init_s32 mp b))))
    | TS64 b \<Rightarrow> Some (goto_integer_reduce mp (tag_init_integer (integer_mul mp a (integer_init_s64 mp b))))
    | TSW b \<Rightarrow> Some (goto_integer_reduce mp (tag_init_integer (integer_mul mp a (integer_init_sw mp b))))
    | TU8 b \<Rightarrow> Some (goto_integer_reduce mp (tag_init_integer (integer_mul mp a (integer_init_u8 mp b))))
    | TU16 b \<Rightarrow> Some (goto_integer_reduce mp (tag_init_integer (integer_mul mp a (integer_init_u16 mp b))))
    | TU32 b \<Rightarrow> Some (goto_integer_reduce mp (tag_init_integer (integer_mul mp a (integer_init_u32 mp b))))
    | TU64 b \<Rightarrow> Some (goto_integer_reduce mp (tag_init_integer (integer_mul mp a (integer_init_u64 mp b))))
    | TUW b \<Rightarrow> Some (goto_integer_reduce mp (tag_init_integer (integer_mul mp a (integer_init_uw mp b))))
    | _ \<Rightarrow> None)"

definition tag_mul_s8 :: "mplib \<Rightarrow> s8 \<Rightarrow> tag \<Rightarrow> tag outcome option" where
  "tag_mul_s8 mp a b = (case b of
      TInteger b \<Rightarrow> Some (goto_integer_reduce mp (tag_init_integer (integer_mul mp (integer_init_s8 mp a) b)))
    | TS8 b \<Rightarrow> Some (goto_integer_reduce mp (tag_init_s16 (s16_mul (scast a :: s16) (scast b :: s16))))
    | TS16 b \<Rightarrow> Some (goto_integer_reduce mp (tag_init_s32 (s32_mul (scast a :: s32) (scast b :: s32))))
    | TS32 b \<Rightarrow> Some (goto_integer_reduce mp (tag_init_s64 (s64_mul (scast a :: s64) (scast b :: s64))))
    | TS64 b \<Rightarrow> Some (goto_integer_reduce mp (tag_init_integer (integer_mul mp (integer_init_s8 mp a) (integer_init_s64 mp b))))
    | TSW b \<Rightarrow> Some (goto_integer_reduce mp (tag_init_integer (integer_mul mp (integer_init_s8 mp a) (integer_init_sw mp b))))
    | TU8 b \<Rightarrow> Some (goto_integer_reduce mp (tag_init_s16 (s16_mul (scast a :: s16) (ucast b :: s16))))
    | TU16 b \<Rightarrow> Some (goto_integer_reduce mp (tag_init_s32 (s32_mul (scast a :: s32) (ucast b :: s32))))
    | TU32 b \<Rightarrow> Some (goto_integer_reduce mp (tag_init_s64 (s64_mul (scast a :: s64) (ucast b :: s64))))
    | TU64 b \<Rightarrow> Some (goto_integer_reduce mp (tag_init_integer (integer_mul mp (integer_init_s8 mp a) (integer_init_u64 mp b))))
    | TUW b \<Rightarrow> Some (goto_integer_reduce mp (tag_init_integer (integer_mul mp (integer_init_s8 mp a) (integer_init_uw mp b))))
    | _ \<Rightarrow> None)"

definition tag_mul_s16 :: "mplib \<Rightarrow> s16 \<Rightarrow> tag \<Rightarrow> tag outcome option" where
  "tag_mul_s16 mp a b = (case b of
      TInteger b \<Rightarrow> Some (goto_integer_reduce mp (tag_init_integer (integer_mul mp (integer_init_s16 mp a) b)))
    | TS8 b \<Rightarrow> Some (goto_integer_reduce mp (tag_init_s32 (s32_mul (scast a :: s32) (scast b :: s32))))
    | TS16 b \<Rightarrow> Some (goto_integer_reduce mp (tag_init_s32 (s32_mul (scast a :: s32) (scast b :: s32))))
    | TS32 b \<Rightarrow> Some (goto_integer_reduce mp (tag_init_s64 (s64_mul (scast a :: s64) (scast b :: s64))))
    | TS64 b \<Rightarrow> Some (goto_integer_reduce mp (tag_init_integer (integer_mul mp (integer_init_s16 mp a) (integer_init_s64 mp b))))
    | TSW b \<Rightarrow> Some (goto_integer_reduce mp (tag_init_integer (integer_mul mp (integer_init_s16 mp a) (integer_init_sw mp b))))
    | TU8 b \<Rightarrow> Some (goto_integer_reduce mp (tag_init_s32 (s32_mul (scast a :: s32) (ucast b :: s32))))
    | TU16 b \<Rightarrow> Some (goto_integer_reduce mp (tag_init_s32 (s32_mul (scast a :: s32) (ucast b :: s32))))
    | TU32 b \<Rightarrow> Some (goto_integer_reduce mp (tag_init_s64 (s64_mul (scast a :: s64) (ucast b :: s64))))
    | TU64 b \<Rightarrow> Some (goto_integer_reduce mp (tag_init_integer (integer_mul mp (integer_init_s16 mp a) (integer_init_u64 mp b))))
    | TUW b \<Rightarrow> Some (goto_integer_reduce mp (tag_init_integer (integer_mul mp (integer_init_s16 mp a) (integer_init_uw mp b))))
    | _ \<Rightarrow> None)"

definition tag_mul_s32 :: "mplib \<Rightarrow> s32 \<Rightarrow> tag \<Rightarrow> tag outcome option" where
  "tag_mul_s32 mp a b = (case b of
      TInteger b \<Rightarrow> Some (goto_integer_reduce mp (tag_init_integer (integer_mul mp (integer_init_s32 mp a) b)))
    | TS8 b \<Rightarrow> Some (goto_integer_reduce mp (tag_init_s64 (s64_mul (scast a :: s64) (scast b :: s64))))
    | TS16 b \<Rightarrow> Some (goto_integer_reduce mp (tag_init_s64 (s64_mul (scast a :: s64) (scast b :: s64))))
    | TS32 b \<Rightarrow> Some (goto_integer_reduce mp (tag_init_s64 (s64_mul (scast a :: s64) (scast b :: s64))))
    | TS64 b \<Rightarrow> Some (goto_integer_reduce mp (tag_init_integer (integer_mul mp (integer_init_s32 mp a) (integer_init_s64 mp b))))
    | TSW b \<Rightarrow> Some (goto_integer_reduce mp (tag_init_integer (integer_mul mp (integer_init_s32 mp a) (integer_init_sw mp b))))
    | TU8 b \<Rightarrow> Some (goto_integer_reduce mp (tag_init_s64 (s64_mul (scast a :: s64) (ucast b :: s64))))
    | TU16 b \<Rightarrow> Some (goto_integer_reduce mp (tag_init_s64 (s64_mul (scast a :: s64) (ucast b :: s64))))
    | TU32 b \<Rightarrow> Some (goto_integer_reduce mp (tag_init_s64 (s64_mul (scast a :: s64) (ucast b :: s64))))
    | TU64 b \<Rightarrow> Some (goto_integer_reduce mp (tag_init_integer (integer_mul mp (integer_init_s32 mp a) (integer_init_u64 mp b))))
    | TUW b \<Rightarrow> Some (goto_integer_reduce mp (tag_init_integer (integer_mul mp (integer_init_s32 mp a) (integer_init_uw mp b))))
    | _ \<Rightarrow> None)"

definition tag_mul_s64 :: "mplib \<Rightarrow> s64 \<Rightarrow> tag \<Rightarrow> tag outcome option" where
  "tag_mul_s64 mp a b = (case b of
      TInteger b \<Rightarrow> Some (goto_integer_reduce mp (tag_init_integer (integer_mul mp (integer_init_s64 mp a) b)))
    | TS8 b \<Rightarrow> Some (goto_integer_reduce mp (tag_init_integer (integer_mul mp (integer_init_s64 mp a) (integer_init_s8 mp b))))
    | TS16 b \<Rightarrow> Some (goto_integer_reduce mp (tag_init_integer (integer_mul mp (integer_init_s64 mp a) (integer_init_s16 mp b))))
    | TS32 b \<Rightarrow> Some (goto_integer_reduce mp (tag_init_integer (integer_mul mp (integer_init_s64 mp a) (integer_init_s32 mp b))))
    | TS64 b \<Rightarrow> Some (goto_integer_reduce mp (tag_init_integer (integer_mul mp (integer_init_s64 mp a) (integer_init_s64 mp b))))
    | TSW b \<Rightarrow> Some (goto_integer_reduce mp (tag_init_integer (integer_mul mp (integer_init_s64 mp a) (integer_init_sw mp b))))
    | TU8 b \<Rightarrow> Some (goto_integer_reduce mp (tag_init_integer (integer_mul mp (integer_init_s64 mp a) (integer_init_u8 mp b))))
    | TU16 b \<Rightarrow> Some (goto_integer_reduce mp (tag_init_integer (integer_mul mp (integer_init_s64 mp a) (integer_init_u16 mp b))))
    | TU32 b \<Rightarrow> Some (goto_integer_reduce mp (tag_init_integer (integer_mul mp (integer_init_s64 mp a) (integer_init_u32 mp b))))
    | TU64 b \<Rightarrow> Some (goto_integer_reduce mp (tag_init_integer (integer_mul mp (integer_init_s64 mp a) (integer_init_u64 mp b))))
    | TUW b \<Rightarrow> Some (goto_integer_reduce mp (tag_init_integer (integer_mul mp (integer_init_s64 mp a) (integer_init_uw mp b))))
    | _ \<Rightarrow> None)"

definition tag_mul_sw :: "mplib \<Rightarrow> sw \<Rightarrow> tag \<Rightarrow> tag outcome option" where
  "tag_mul_sw mp a b = (case b of
      TInteger b \<Rightarrow> Some (goto_integer_reduce mp (tag_init_integer (integer_mul mp (integer_init_sw mp a) b)))
    | TS8 b \<Rightarrow> Some (goto_integer_reduce mp (tag_init_integer (integer_mul mp (integer_init_sw mp a) (integer_init_s8 mp b))))
    | TS16 b \<Rightarrow> Some (goto_integer_reduce mp (tag_init_integer (integer_mul mp (integer_init_sw mp a) (integer_init_s16 mp b))))
    | TS32 b \<Rightarrow> Some (goto_integer_reduce mp (tag_init_integer (integer_mul mp (integer_init_sw mp a) (integer_init_s32 mp b))))
    | TS64 b \<Rightarrow> Some (goto_integer_reduce mp (tag_init_integer (integer_mul mp (integer_init_sw mp a) (integer_init_s64 mp b))))
    | TSW b \<Rightarrow> Some (goto_integer_reduce mp (tag_init_integer (integer_mul mp (integer_init_sw mp a) (integer_init_sw mp b))))
    | TU8 b \<Rightarrow> Some (goto_integer_reduce mp (tag_init_integer (integer_mul mp (integer_init_sw mp a) (integer_init_u8 mp b))))
    | TU16 b \<Rightarrow> Some (goto_integer_reduce mp (tag_init_integer (integer_mul mp (integer_init_sw mp a) (integer_init_u16 mp b))))
    | TU32 b \<Rightarrow> Some (goto_integer_reduce mp (tag_init_integer (integer_mul mp (integer_init_sw mp a) (integer_init_u32 mp b))))
    | TU64 b \<Rightarrow> Some (goto_integer_reduce mp (tag_init_integer (integer_mul mp (integer_init_sw mp a) (integer_init_u64 mp b))))
    | TUW b \<Rightarrow> Some (goto_integer_reduce mp (tag_init_integer (integer_mul mp (integer_init_sw mp a) (integer_init_uw mp b))))
    | _ \<Rightarrow> None)"

definition tag_mul_u8 :: "mplib \<Rightarrow> u8 \<Rightarrow> tag \<Rightarrow> tag outcome option" where
  "tag_mul_u8 mp a b = (case b of
      TInteger b \<Rightarrow> Some (goto_integer_reduce mp (tag_init_integer (integer_mul mp (integer_init_u8 mp a) b)))
    | TS8 b \<Rightarrow> Some (goto_integer_reduce mp (tag_init_s32 (s32_mul (ucast a :: s32) (scast b :: s32))))
    | TS16 b \<Rightarrow> Some (goto_integer_reduce mp (tag_init_s32 (s32_mul (ucast a :: s32) (scast b :: s32))))
    | TS32 b \<Rightarrow> Some (goto_integer_reduce mp (tag_init_s64 (s64_mul (scast (ucast a :: s32) :: s64) (scast b :: s64))))
    | TS64 b \<Rightarrow> Some (goto_integer_reduce mp (tag_init_integer (integer_mul mp (integer_init_u8 mp a) (integer_init_s64 mp b))))
    | TSW b \<Rightarrow> Some (goto_integer_reduce mp (tag_init_integer (integer_mul mp (integer_init_u8 mp a) (integer_init_sw mp b))))
    | TU8 b \<Rightarrow> Some (goto_integer_reduce mp (tag_init_u16 (u16_mul (ucast a :: u16) (ucast b :: u16))))
    | TU16 b \<Rightarrow> Some (goto_integer_reduce mp (tag_init_u32 (u32_mul (ucast a :: u32) (ucast b :: u32))))
    | TU32 b \<Rightarrow> Some (goto_integer_reduce mp (tag_init_u64 (u64_mul (ucast a :: u64) (ucast b :: u64))))
    | TU64 b \<Rightarrow> Some (goto_integer_reduce mp (tag_init_integer (integer_mul mp (integer_init_u8 mp a) (integer_init_u64 mp b))))
    | TUW b \<Rightarrow> Some (goto_integer_reduce mp (tag_init_integer (integer_mul mp (integer_init_u8 mp a) (integer_init_uw mp b))))
    | _ \<Rightarrow> None)"

definition tag_mul_u16 :: "mplib \<Rightarrow> u16 \<Rightarrow> tag \<Rightarrow> tag outcome option" where
  "tag_mul_u16 mp a b = (case b of
      TInteger b \<Rightarrow> Some (goto_integer_reduce mp (tag_init_integer (integer_mul mp (integer_init_u16 mp a) b)))
    | TS8 b \<Rightarrow> Some (goto_integer_reduce mp (tag_init_s32 (s32_mul (ucast a :: s32) (scast b :: s32))))
    | TS16 b \<Rightarrow> Some (goto_integer_reduce mp (tag_init_s32 (s32_mul (ucast a :: s32) (scast b :: s32))))
    | TS32 b \<Rightarrow> Some (goto_integer_reduce mp (tag_init_s64 (s64_mul (ucast a :: s64) (scast b :: s64))))
    | TS64 b \<Rightarrow> Some (goto_integer_reduce mp (tag_init_integer (integer_mul mp (integer_init_u16 mp a) (integer_init_s64 mp b))))
    | TSW b \<Rightarrow> Some (goto_integer_reduce mp (tag_init_integer (integer_mul mp (integer_init_u16 mp a) (integer_init_sw mp b))))
    | TU8 b \<Rightarrow> Some (goto_integer_reduce mp (tag_init_u32 (u32_mul (ucast a :: u32) (ucast b :: u32))))
    | TU16 b \<Rightarrow> Some (goto_integer_reduce mp (tag_init_u32 (u32_mul (ucast a :: u32) (ucast b :: u32))))
    | TU32 b \<Rightarrow> Some (goto_integer_reduce mp (tag_init_u64 (u64_mul (ucast a :: u64) (ucast b :: u64))))
    | TU64 b \<Rightarrow> Some (goto_integer_reduce mp (tag_init_integer (integer_mul mp (integer_init_u16 mp a) (integer_init_u64 mp b))))
    | TUW b \<Rightarrow> Some (goto_integer_reduce mp (tag_init_integer (integer_mul mp (integer_init_u16 mp a) (integer_init_uw mp b))))
    | _ \<Rightarrow> None)"

definition tag_mul_u32 :: "mplib \<Rightarrow> u32 \<Rightarrow> tag \<Rightarrow> tag outcome option" where
  "tag_mul_u32 mp a b = (case b of
      TInteger b \<Rightarrow> Some (goto_integer_reduce mp (tag_init_integer (integer_mul mp (integer_init_u32 mp a) b)))
    | TS8 b \<Rightarrow> Some (goto_integer_reduce mp (tag_init_s64 (s64_mul (ucast a :: s64) (scast b :: s64))))
    | TS16 b \<Rightarrow> Some (goto_integer_reduce mp (tag_init_s64 (s64_mul (ucast a :: s64) (scast b :: s64))))
    | TS32 b \<Rightarrow> Some (goto_integer_reduce mp (tag_init_s64 (s64_mul (ucast a :: s64) (scast b :: s64))))
    | TS64 b \<Rightarrow> Some (goto_integer_reduce mp (tag_init_integer (integer_mul mp (integer_init_u32 mp a) (integer_init_s64 mp b))))
    | TSW b \<Rightarrow> Some (goto_integer_reduce mp (tag_init_integer (integer_mul mp (integer_init_u32 mp a) (integer_init_sw mp b))))
    | TU8 b \<Rightarrow> Some (goto_integer_reduce mp (tag_init_u64 (u64_mul (ucast a :: u64) (ucast b :: u64))))
    | TU16 b \<Rightarrow> Some (goto_integer_reduce mp (tag_init_u64 (u64_mul (ucast a :: u64) (ucast b :: u64))))
    | TU32 b \<Rightarrow> Some (goto_integer_reduce mp (tag_init_u64 (u64_mul (ucast a :: u64) (ucast b :: u64))))
    | TU64 b \<Rightarrow> Some (goto_integer_reduce mp (tag_init_integer (integer_mul mp (integer_init_u32 mp a) (integer_init_u64 mp b))))
    | TUW b \<Rightarrow> Some (goto_integer_reduce mp (tag_init_integer (integer_mul mp (integer_init_u32 mp a) (integer_init_uw mp b))))
    | _ \<Rightarrow> None)"

definition tag_mul_u64 :: "mplib \<Rightarrow> u64 \<Rightarrow> tag \<Rightarrow> tag outcome option" where
  "tag_mul_u64 mp a b = (case b of
      TInteger b \<Rightarrow> Some (goto_integer_reduce mp (tag_init_integer (integer_mul mp (integer_init_u64 mp a) b)))
    | TS8 b \<Rightarrow> Some (goto_integer_reduce mp (tag_init_integer (integer_mul mp (integer_init_u64 mp a) (integer_init_s8 mp b))))
    | TS16 b \<Rightarrow> Some (goto_integer_reduce mp (tag_init_integer (integer_mul mp (integer_init_u64 mp a) (integer_init_s16 mp b))))
    | TS32 b \<Rightarrow> Some (goto_integer_reduce mp (tag_init_integer (integer_mul mp (integer_init_u64 mp a) (integer_init_s32 mp b))))
    | TS64 b \<Rightarrow> Some (goto_integer_reduce mp (tag_init_integer (integer_mul mp (integer_init_u64 mp a) (integer_init_s64 mp b))))
    | TSW b \<Rightarrow> Some (goto_integer_reduce mp (tag_init_integer (integer_mul mp (integer_init_u64 mp a) (integer_init_sw mp b))))
    | TU8 b \<Rightarrow> Some (goto_integer_reduce mp (tag_init_integer (integer_mul mp (integer_init_u64 mp a) (integer_init_u8 mp b))))
    | TU16 b \<Rightarrow> Some (goto_integer_reduce mp (tag_init_integer (integer_mul mp (integer_init_u64 mp a) (integer_init_u16 mp b))))
    | TU32 b \<Rightarrow> Some (goto_integer_reduce mp (tag_init_integer (integer_mul mp (integer_init_u64 mp a) (integer_init_u32 mp b))))
    | TU64 b \<Rightarrow> Some (goto_integer_reduce mp (tag_init_integer (integer_mul mp (integer_init_u64 mp a) (integer_init_u64 mp b))))
    | TUW b \<Rightarrow> Some (goto_integer_reduce mp (tag_init_integer (integer_mul mp (integer_init_u64 mp a) (integer_init_uw mp b))))
    | _ \<Rightarrow> None)"

definition tag_mul_uw :: "mplib \<Rightarrow> uw \<Rightarrow> tag \<Rightarrow> tag outcome option" where
  "tag_mul_uw mp a b = (case b of
      TInteger b \<Rightarrow> Some (goto_integer_reduce mp (tag_init_integer (integer_mul mp (integer_init_uw mp a) b)))
    | TS8 b \<Rightarrow> Some (goto_integer_reduce mp (tag_init_integer (integer_mul mp (integer_init_uw mp a) (integer_init_s8 mp b))))
    | TS16 b \<Rightarrow> Some (goto_integer_reduce mp (tag_init_integer (integer_mul mp (integer_init_uw mp a) (integer_init_s16 mp b))))
    | TS32 b \<Rightarrow> Some (goto_integer_reduce mp (tag_init_integer (integer_mul mp (integer_init_uw mp a) (integer_init_s32 mp b))))
    | TS64 b \<Rightarrow> Some (goto_integer_reduce mp (tag_init_integer (integer_mul mp (integer_init_uw mp a) (integer_init_s64 mp b))))
    | TSW b \<Rightarrow> Some (goto_integer_reduce mp (tag_init_integer (integer_mul mp (integer_init_uw mp a) (integer_init_sw mp b))))
    | TU8 b \<Rightarrow> Some (goto_integer_reduce mp (tag_init_integer (integer_mul mp (integer_init_uw mp a) (integer_init_u8 mp b))))
    | TU16 b \<Rightarrow> Some (goto_integer_reduce mp (tag_init_integer (integer_mul mp (integer_init_uw mp a) (integer_init_u16 mp b))))
    | TU32 b \<Rightarrow> Some (goto_integer_reduce mp (tag_init_integer (integer_mul mp (integer_init_uw mp a) (integer_init_u32 mp b))))
    | TU64 b \<Rightarrow> Some (goto_integer_reduce mp (tag_init_integer (integer_mul mp (integer_init_uw mp a) (integer_init_u64 mp b))))
    | TUW b \<Rightarrow> Some (goto_integer_reduce mp (tag_init_integer (integer_mul mp (integer_init_uw mp a) (integer_init_uw mp b))))
    | _ \<Rightarrow> None)"

definition tag_mul :: "mplib \<Rightarrow> tag \<Rightarrow> tag \<Rightarrow> tag outcome option" where
  "tag_mul mp a b = (case a of
      TInteger x \<Rightarrow> tag_mul_integer mp x b
    | TS8 x \<Rightarrow> tag_mul_s8 mp x b
    | TS16 x \<Rightarrow> tag_mul_s16 mp x b
    | TS32 x \<Rightarrow> tag_mul_s32 mp x b
    | TS64 x \<Rightarrow> tag_mul_s64 mp x b
    | TSW x \<Rightarrow> tag_mul_sw mp x b
    | TU8 x \<Rightarrow> tag_mul_u8 mp x b
    | TU16 x \<Rightarrow> tag_mul_u16 mp x b
    | TU32 x \<Rightarrow> tag_mul_u32 mp x b
    | TU64 x \<Rightarrow> tag_mul_u64 mp x b
    | TUW x \<Rightarrow> tag_mul_uw mp x b
    | _ \<Rightarrow> None)"

lemmas tag_mul_rows = tag_mul_integer_def tag_mul_s8_def tag_mul_s16_def tag_mul_s32_def
  tag_mul_s64_def tag_mul_sw_def tag_mul_u8_def tag_mul_u16_def tag_mul_u32_def tag_mul_u64_def
  tag_mul_uw_def

lemma tag_mul_reduced:
  assumes "mp_ok mp" "mp_total mp" "tag_int a = Some i" "tag_int b = Some j"
  shows "tag_mul mp a b = Some (Ok (reduced (i * j)))"
proof -
  note [simp] = integer_op_total [OF assms(1,2)] integer_init_val [OF assms(1)]
    reduce_signed [OF assms(1)] reduce_unsigned [OF assms(1)] reduce_integer [OF assms(1)]
    reduce_wrapping [OF assms(1)] c_op_defs word_val
  show ?thesis
  proof (cases "tag_narrow a \<and> tag_narrow b")
    case True
    have bounds: "- (tag_mag a * tag_mag b) \<le> i * j \<and> i * j \<le> tag_mag a * tag_mag b"
      "tag_unsigned a \<and> tag_unsigned b \<longrightarrow> 0 \<le> i * j"
      using True narrow_bounds(2) [OF assms(3,4)] tag_unsigned_mul_nonneg [OF assms(3,4)] by auto
    show ?thesis
      by (rule narrow_cases [OF True [THEN conjunct1] assms(3)];
          rule narrow_cases [OF True [THEN conjunct2] assms(4)];
          use bounds in \<open>simp add: tag_mul_def tag_mul_rows\<close>)
  next
    case False
    with assms(3,4) show ?thesis
      by (cases a; simp only: tag_int.simps option.inject option.distinct tag_mul_def tag.case)
         (cases b; simp add: tag_mul_rows tag_narrow_def)+
  qed
qed

text \<open>
  C17: multiplying two integers of any types is exact.  When libtommath behaves as
  documented and has memory, \<open>tag_mul\<close> returns the product in the smallest type that holds it,
  on every one of the 121 pairs of integer types; no row overflows.
\<close>

theorem tag_mul_correct:
  assumes "mp_ok mp" "mp_total mp" "tag_int a = Some i" "tag_int b = Some j"
  shows "tag_mul mp a b = Some (Ok (reduced (i * j)))"
  using assms by (rule tag_mul_reduced)

theorem tag_mul_correct_witness:
  "tag_mul mp_exact (TS16 (- 300)) (TU16 65535) = Some (Ok (TS32 (- 19660500)))"
  using tag_mul_correct [of mp_exact "TS16 (- 300)" "- 300" "TU16 65535" 65535]
  by (simp add: reduced_def)

end
