(* ===== verification/C_Div.thy ===== *)
theory C_Div
  imports C_Arith
begin

unbundle bit_operations_syntax

text \<open>
  The C operators behind tag\_div.c, tag\_mod.c and the bitwise operations, and what their rows
  share: the division check of tag\_divmod.h and the ranges of quotients and remainders.

  The operands are in the promoted type.  A zero divisor is undefined in C, and so is a quotient
  the type cannot hold, for \<open>/\<close> and for \<open>%\<close>; a result stored in a narrower type is
  truncated (\<open>c_cast\<close>).
\<close>

section \<open>Operators\<close>

definition c_cast :: "('a \<Rightarrow> 'b) \<Rightarrow> 'a outcome \<Rightarrow> 'b outcome" where
  "c_cast f r = outcome_bind r (\<lambda>x. Ok (f x))"

definition c_sadd :: "'a::len word \<Rightarrow> 'a word \<Rightarrow> 'a word outcome" where
  "c_sadd x y = c_signed (sint x + sint y)"

definition c_sneg :: "'a::len word \<Rightarrow> 'a word outcome" where
  "c_sneg x = c_signed (- sint x)"

definition c_sdiv :: "'a::len word \<Rightarrow> 'a word \<Rightarrow> 'a word outcome" where
  "c_sdiv x y = (if sint y = 0 then Undef else c_signed (sint x sdiv sint y))"

definition c_smod :: "'a::len word \<Rightarrow> 'a word \<Rightarrow> 'a word outcome" where
  "c_smod x y = outcome_bind (c_sdiv x y) (\<lambda>_. Ok (word_of_int (sint x smod sint y)))"

definition c_udiv :: "'a::len word \<Rightarrow> 'a word \<Rightarrow> 'a word outcome" where
  "c_udiv x y = (if uint y = 0 then Undef else Ok (word_of_int (uint x div uint y)))"

definition c_umod :: "'a::len word \<Rightarrow> 'a word \<Rightarrow> 'a word outcome" where
  "c_umod x y = (if uint y = 0 then Undef else Ok (word_of_int (uint x mod uint y)))"

definition tag_init_s8 :: "s8 outcome \<Rightarrow> tag outcome" where
  "tag_init_s8 r = outcome_bind r (\<lambda>x. Ok (TS8 x))"
definition tag_init_sw :: "sw outcome \<Rightarrow> tag outcome" where
  "tag_init_sw r = outcome_bind r (\<lambda>x. Ok (TSW x))"
definition tag_init_u8 :: "u8 outcome \<Rightarrow> tag outcome" where
  "tag_init_u8 r = outcome_bind r (\<lambda>x. Ok (TU8 x))"
definition tag_init_uw :: "uw outcome \<Rightarrow> tag outcome" where
  "tag_init_uw r = outcome_bind r (\<lambda>x. Ok (TUW x))"

text \<open>\<open>if (! integer_op(.., &tag.data.td_integer)) goto integer_error;\<close>: NULL on an error.\<close>

definition tag_integer_checked :: "int option \<Rightarrow> tag outcome" where
  "tag_integer_checked r = (case r of None \<Rightarrow> Null | Some i \<Rightarrow> Ok (TInteger i))"

text \<open>tag\_divmod.h: the magnitude and the sign of a machine integer.\<close>

definition s64_magnitude :: "s64 \<Rightarrow> u64 \<times> bool" where
  "s64_magnitude value = (if value <s 0 then (0 - value, True) else (value, False))"

definition tag_divmod_fixed_value :: "tag \<Rightarrow> (u64 \<times> bool) option" where
  "tag_divmod_fixed_value tag = (case tag of
      TS8 x \<Rightarrow> Some (s64_magnitude (scast x))
    | TS16 x \<Rightarrow> Some (s64_magnitude (scast x))
    | TS32 x \<Rightarrow> Some (s64_magnitude (scast x))
    | TS64 x \<Rightarrow> Some (s64_magnitude x)
    | TSW x \<Rightarrow> Some (s64_magnitude x)
    | TU8 x \<Rightarrow> Some (ucast x, False)
    | TU16 x \<Rightarrow> Some (ucast x, False)
    | TU32 x \<Rightarrow> Some (ucast x, False)
    | TU64 x \<Rightarrow> Some (x, False)
    | TUW x \<Rightarrow> Some (x, False)
    | _ \<Rightarrow> None)"

section \<open>Values of the operators\<close>

lemma c_signed_Ok:
  "- (2 ^ (LENGTH('a) - 1)) \<le> i \<Longrightarrow> i < 2 ^ (LENGTH('a) - 1) \<Longrightarrow>
    c_signed i = Ok (word_of_int i :: 'a::len word)"
  by (simp add: c_signed_def)

lemma c_cast_Ok [simp]: "c_cast f (Ok x) = Ok (f x)"
  by (simp add: c_cast_def)

lemma ucast_of_int_widen:
  assumes "0 \<le> i" "i < 2 ^ LENGTH('a)"
  shows "ucast (word_of_int i :: 'a::len word) = word_of_int i"
proof -
  have "ucast (word_of_int i :: 'a word) = word_of_int (uint (word_of_int i :: 'a word))" by simp
  then show ?thesis by (simp only: uint_of_int_in_range [OF assms])
qed

lemma scast_of_int_widen:
  "- (2 ^ (LENGTH('a) - 1)) \<le> i \<Longrightarrow> i < 2 ^ (LENGTH('a) - 1) \<Longrightarrow>
    scast (word_of_int i :: 'a::len word) = word_of_int i"
  by (simp add: scast_eq sint_of_int_in_range)

lemma c_sdiv_Ok:
  fixes x y :: "'a::len word"
  assumes "sint y \<noteq> 0" "- (2 ^ (LENGTH('a) - 1)) \<le> sint x sdiv sint y"
    "sint x sdiv sint y < 2 ^ (LENGTH('a) - 1)"
  shows "c_sdiv x y = Ok (word_of_int (sint x sdiv sint y))"
    and "c_smod x y = Ok (word_of_int (sint x smod sint y))"
  using assms by (simp_all add: c_sdiv_def c_smod_def c_signed_Ok)

lemma sdiv_nonneg: "0 \<le> i \<Longrightarrow> 0 \<le> j \<Longrightarrow> i sdiv j = i div j" for i j :: int
  by (cases "i = 0"; cases "j = 0") (simp_all add: signed_divide_int_def)

lemma smod_nonneg: "0 \<le> i \<Longrightarrow> 0 \<le> j \<Longrightarrow> i smod j = i mod j" for i j :: int
  by (cases "i = 0"; cases "j = 0") (simp_all add: signed_modulo_int_def)

lemma c_udiv_Ok:
  "uint y \<noteq> 0 \<Longrightarrow> c_udiv x y = Ok (word_of_int (uint x sdiv uint y))"
  "uint y \<noteq> 0 \<Longrightarrow> c_umod x y = Ok (word_of_int (uint x smod uint y))"
  by (simp_all add: c_udiv_def c_umod_def sdiv_nonneg smod_nonneg)

text \<open>\<open>a->data.td_uw > S64_MAX\<close>: otherwise the value survives the cast to \<open>s64\<close>.\<close>

lemma sint_small:
  fixes a :: u64
  assumes "\<not> 9223372036854775807 < a"
  shows "sint a = uint a" "uint a < 9223372036854775808"
proof -
  show *: "uint a < 9223372036854775808"
    using assms by (simp add: word_less_alt)
  have "a = word_of_int (uint a)" by simp
  then show "sint a = uint a"
    using * sint_of_int_in_range [where 'a = 64, of "uint a"] uint_ge_0 [of a]
    by simp
qed

section \<open>Quotients\<close>

lemma abs_sdiv_le: "- \<bar>i\<bar> \<le> i sdiv j" "i sdiv j \<le> \<bar>i\<bar>" for i j :: int
  using sdiv_int_range [of i j] by simp_all

text \<open>No quotient leaves the range of the dividend, once the division check has been passed.\<close>

lemma sdiv_range:
  fixes i j m :: int
  assumes "- m \<le> i" "i < m" "\<not> (i < 0 \<and> j = -1)"
  shows "- m \<le> i sdiv j \<and> i sdiv j < m"
proof -
  have "i sdiv j \<noteq> m"
  proof
    assume "i sdiv j = m"
    moreover from this have "i = - m" using assms abs_sdiv_le(2) [of i j] by linarith
    ultimately have "i < 0" "i sdiv j = - i" using assms by auto
    then show False using assms(3) by simp
  qed
  then show ?thesis using assms(1,2) abs_sdiv_le [of i j] by linarith
qed

lemma sdiv_range_nonneg:
  fixes i j m :: int
  assumes "0 \<le> i" "i \<le> m"
  shows "- m \<le> i sdiv j \<and> i sdiv j \<le> m" "0 \<le> j \<longrightarrow> 0 \<le> i sdiv j"
  using assms abs_sdiv_le [of i j] by (auto simp: sdiv_nonneg div_int_pos_iff)

section \<open>Remainders\<close>

text \<open>The remainder of C has the sign of the dividend, that of \<open>mp_mod\<close> the sign of the divisor.\<close>

lemma smod_bounds:
  fixes i j :: int
  assumes "j \<noteq> 0"
  shows "- \<bar>j\<bar> < i smod j" "i smod j < \<bar>j\<bar>" "- \<bar>i\<bar> \<le> i smod j" "i smod j \<le> \<bar>i\<bar>"
    "0 \<le> i \<Longrightarrow> 0 \<le> i smod j" "i \<le> 0 \<Longrightarrow> i smod j \<le> 0"
proof -
  define m where "m = \<bar>i\<bar> mod \<bar>j\<bar>"
  have m: "0 \<le> m" "m < \<bar>j\<bar>" using assms by (simp_all add: m_def)
  have "m \<le> \<bar>i\<bar>" unfolding m_def by (rule zmod_le_nonneg_dividend) simp
  moreover have "i smod j = (if i = 0 then 0 else if 0 < i then m else - m)"
    by (simp add: signed_modulo_int_def m_def sgn_if)
  ultimately show "- \<bar>j\<bar> < i smod j" "i smod j < \<bar>j\<bar>" "- \<bar>i\<bar> \<le> i smod j" "i smod j \<le> \<bar>i\<bar>"
    "0 \<le> i \<Longrightarrow> 0 \<le> i smod j" "i \<le> 0 \<Longrightarrow> i smod j \<le> 0"
    using m assms by (auto split: if_splits)
qed

lemma mod_smod:
  fixes i j :: int
  assumes "j \<noteq> 0"
  shows "i mod j =
    (if 0 < j \<and> i smod j < 0 \<or> j < 0 \<and> 0 < i smod j then i smod j + j else i smod j)"
proof -
  define r where "r = i smod j"
  have "i = r + (i sdiv j) * j" using smod_sdiv_mult_eq [of i j] by (simp add: r_def)
  then have "i mod j = r mod j" by (metis mod_mult_self1)
  moreover have "- \<bar>j\<bar> < r" "r < \<bar>j\<bar>" using smod_bounds [OF assms, of i] by (simp_all add: r_def)
  moreover have "r mod j = (r + j) mod j" by simp
  ultimately show ?thesis
    unfolding r_def [symmetric] using assms mod_pos_pos_trivial [of r j] mod_pos_pos_trivial [of "r + j" j]
      mod_neg_neg_trivial [of r j] mod_neg_neg_trivial [of "r + j" j]
    by (cases "0 < j"; cases "r < 0"; cases "0 < r") (simp_all del: mod_add_self2)
qed

lemma mod_bounds:
  fixes i j :: int
  assumes "j \<noteq> 0"
  shows "- \<bar>j\<bar> < i mod j" "i mod j < \<bar>j\<bar>" "0 \<le> j \<Longrightarrow> 0 \<le> i mod j" "j \<le> 0 \<Longrightarrow> i mod j \<le> 0"
  using assms pos_mod_bound [of j i] pos_mod_sign [of j i] neg_mod_bound [of j i] neg_mod_sign [of j i]
  by linarith+

text \<open>\<open>if (i < 0) i += b;\<close> and \<open>if (b < 0 && i > 0) i += b;\<close> turn the one into the other.\<close>

lemma add_divisor:
  fixes i j :: int
  assumes "j \<noteq> 0"
  shows "0 \<le> j \<Longrightarrow> i mod j = (if i smod j < 0 then i smod j + j else i smod j)"
    and "0 \<le> i \<Longrightarrow> i mod j = (if j < 0 \<and> 0 < i smod j then i smod j + j else i smod j)"
  using assms smod_bounds(5) [OF assms, of i] by (auto simp: mod_smod)

lemma c_sadd_word:
  fixes y :: "'b::len word"
  assumes "LENGTH('a::len) \<le> LENGTH('b)" "- (2 ^ (LENGTH('a) - 1)) \<le> r" "r < 2 ^ (LENGTH('a) - 1)"
    and "r < 0 \<and> 0 \<le> sint y \<or> 0 < r \<and> sint y < 0"
  shows "c_sadd (scast (word_of_int r :: 'a word)) y = Ok (word_of_int (r + sint y))"
proof -
  have "sint (scast (word_of_int r :: 'a word) :: 'b word) = r"
    using assms(1-3) by (simp add: sint_scast_widen sint_of_int_in_range)
  moreover have "(2 :: int) ^ (LENGTH('a) - 1) \<le> 2 ^ (LENGTH('b) - 1)"
    using assms(1) by (intro power_increasing) auto
  then have "- (2 ^ (LENGTH('b) - 1)) \<le> r + sint y \<and> r + sint y < 2 ^ (LENGTH('b) - 1)"
    using assms(2-4) sint_range_bits [of y] by linarith
  ultimately show ?thesis
    unfolding c_sadd_def by (subst c_signed_Ok) (simp_all del: of_int_add)
qed

lemma add_divisor_narrow:
  fixes i j :: int and y :: "'b::len word"
  assumes "sint y = j" "j \<noteq> 0" "LENGTH('a::len) \<le> LENGTH('b)"
    and "- (2 ^ (LENGTH('a) - 1)) \<le> i smod j" "i smod j < 2 ^ (LENGTH('a) - 1)"
  defines "r \<equiv> word_of_int (i smod j) :: 'a word"
  shows "0 \<le> j \<Longrightarrow>
      (if r <s 0 then c_cast scast (c_sadd (scast r) y) else Ok r) = Ok (word_of_int (i mod j))"
    and "0 \<le> i \<Longrightarrow> sint b = j \<Longrightarrow>
      (if b <s 0 \<and> 0 <s r then c_cast scast (c_sadd (scast r) y) else Ok r) = Ok (word_of_int (i mod j))"
proof -
  have r: "sint r = i smod j" unfolding r_def by (rule sint_of_int_in_range [OF assms(4,5)])
  show "(if r <s 0 then c_cast scast (c_sadd (scast r) y) else Ok r) = Ok (word_of_int (i mod j))"
    if "0 \<le> j"
    using that assms(2) c_sadd_word [OF assms(3,4,5), of y] unfolding word_sless_alt r add_divisor(1) [OF assms(2) that]
    by (simp add: assms(1) r_def scast_of_int [OF assms(3)] del: of_int_add)
  show "(if b <s 0 \<and> 0 <s r then c_cast scast (c_sadd (scast r) y) else Ok r) = Ok (word_of_int (i mod j))"
    if "0 \<le> i" "sint b = j"
    using that assms(2) c_sadd_word [OF assms(3,4,5), of y] unfolding word_sless_alt r add_divisor(2) [OF assms(2) that(1)]
    by (simp add: assms(1) r_def scast_of_int [OF assms(3)] del: of_int_add)
qed

lemma add_divisor_same:
  fixes i j :: int and y :: "'a::len word"
  assumes "sint y = j" "j \<noteq> 0" "- (2 ^ (LENGTH('a) - 1)) \<le> i smod j" "i smod j < 2 ^ (LENGTH('a) - 1)"
  defines "r \<equiv> word_of_int (i smod j) :: 'a word"
  shows "0 \<le> j \<Longrightarrow> (if r <s 0 then c_sadd r y else Ok r) = Ok (word_of_int (i mod j))"
    and "0 \<le> i \<Longrightarrow> sint b = j \<Longrightarrow>
      (if b <s 0 \<and> 0 <s r then c_sadd r y else Ok r) = Ok (word_of_int (i mod j))"
proof -
  have c: "c_cast scast (c_sadd (scast r) y) = c_sadd r y"
    by (cases "c_sadd r y") (simp_all add: c_cast_def)
  show "(if r <s 0 then c_sadd r y else Ok r) = Ok (word_of_int (i mod j))" if "0 \<le> j"
    using add_divisor_narrow(1) [OF assms(1,2) order_refl assms(3,4) that]
    unfolding r_def [symmetric] c .
  show "(if b <s 0 \<and> 0 <s r then c_sadd r y else Ok r) = Ok (word_of_int (i mod j))"
    if "0 \<le> i" "sint b = j"
    using add_divisor_narrow(2) [OF assms(1,2) order_refl assms(3,4) that]
    unfolding r_def [symmetric] c .
qed

section \<open>Results\<close>

lemma reduce_value:
  assumes "mp_ok mp"
  shows "- 128 \<le> i \<Longrightarrow> i < 128 \<Longrightarrow>
      goto_integer_reduce mp (tag_init_s8 (Ok (word_of_int i))) = Ok (reduced i)"
    and "- 32768 \<le> i \<Longrightarrow> i < 32768 \<Longrightarrow>
      goto_integer_reduce mp (tag_init_s16 (Ok (word_of_int i))) = Ok (reduced i)"
    and "- 2147483648 \<le> i \<Longrightarrow> i < 2147483648 \<Longrightarrow>
      goto_integer_reduce mp (tag_init_s32 (Ok (word_of_int i))) = Ok (reduced i)"
    and "- 9223372036854775808 \<le> i \<Longrightarrow> i < 9223372036854775808 \<Longrightarrow>
      goto_integer_reduce mp (tag_init_s64 (Ok (word_of_int i))) = Ok (reduced i)"
    and "- 9223372036854775808 \<le> i \<Longrightarrow> i < 9223372036854775808 \<Longrightarrow>
      goto_integer_reduce mp (tag_init_sw (Ok (word_of_int i))) = Ok (reduced i)"
    and "0 \<le> i \<Longrightarrow> i < 256 \<Longrightarrow>
      goto_integer_reduce mp (tag_init_u8 (Ok (word_of_int i))) = Ok (reduced i)"
    and "0 \<le> i \<Longrightarrow> i < 65536 \<Longrightarrow>
      goto_integer_reduce mp (tag_init_u16 (Ok (word_of_int i))) = Ok (reduced i)"
    and "0 \<le> i \<Longrightarrow> i < 4294967296 \<Longrightarrow>
      goto_integer_reduce mp (tag_init_u32 (Ok (word_of_int i))) = Ok (reduced i)"
    and "0 \<le> i \<Longrightarrow> i < 18446744073709551616 \<Longrightarrow>
      goto_integer_reduce mp (tag_init_u64 (Ok (word_of_int i))) = Ok (reduced i)"
    and "0 \<le> i \<Longrightarrow> i < 18446744073709551616 \<Longrightarrow>
      goto_integer_reduce mp (tag_init_uw (Ok (word_of_int i))) = Ok (reduced i)"
  using assms
  by (simp_all add: goto_integer_reduce_def tag_init_s8_def tag_init_s16_def tag_init_s32_def
      tag_init_s64_def tag_init_sw_def tag_init_u8_def tag_init_u16_def tag_init_u32_def
      tag_init_u64_def tag_init_uw_def sint_of_int_in_range uint_of_int_in_range
      tag_integer_reduce_reduced)

lemma reduce_checked:
  "mp_ok mp \<Longrightarrow> goto_integer_reduce mp (tag_integer_checked (Some i)) = Ok (reduced i)"
  by (simp add: goto_integer_reduce_def tag_integer_checked_def tag_integer_reduce_reduced)

lemma reduce_checked_None [simp]: "goto_integer_reduce mp (tag_integer_checked None) = Null"
  by (simp add: goto_integer_reduce_def tag_integer_checked_def)

lemma tag_init_s64_eq: "tag_init_s64 (Ok x) = Ok y \<longleftrightarrow> y = TS64 x"
  by (auto simp: tag_init_s64_def)

section \<open>The division check\<close>

lemma s64_magnitude_val:
  "s64_magnitude x = (word_of_int \<bar>sint x\<bar>, sint x < 0)"
proof -
  have "- x = word_of_int (- sint x)" by simp
  moreover have "x = word_of_int (sint x)" by simp
  ultimately show ?thesis
    unfolding s64_magnitude_def word_sless_alt abs_if diff_0 sint_0 by (simp only: if_distrib if_cancel) simp
qed

text \<open>The check reads the magnitude and the sign of a machine integer; an \<open>s_integer\<close> has none.\<close>

lemma fixed_value_val:
  assumes "tag_int t = Some i"
  shows "tag_divmod_fixed_value t =
    (if tag_type t = 10 then None else Some (word_of_int \<bar>i\<bar>, i < 0))"
  using assms
  by (cases t) (auto simp: tag_divmod_fixed_value_def s64_magnitude_val word_val)

lemma magnitude_eq:
  assumes "tag_int t = Some i" "tag_type t \<noteq> 10"
  shows "(word_of_int \<bar>i\<bar> :: u64) = 0 \<longleftrightarrow> i = 0" "(word_of_int \<bar>i\<bar> :: u64) = 1 \<longleftrightarrow> \<bar>i\<bar> = 1"
proof -
  have "tag_mag t \<le> 18446744073709551615" using assms by (cases t) simp_all
  then have "\<bar>i\<bar> \<le> 18446744073709551615" using tag_mag_abs [OF assms(1)] by linarith
  then have *: "uint (word_of_int \<bar>i\<bar> :: u64) = \<bar>i\<bar>" by (intro uint_of_int_in_range) simp_all
  show "(word_of_int \<bar>i\<bar> :: u64) = 0 \<longleftrightarrow> i = 0"
    unfolding word_uint_eq_iff * by simp
  show "(word_of_int \<bar>i\<bar> :: u64) = 1 \<longleftrightarrow> \<bar>i\<bar> = 1"
    unfolding word_uint_eq_iff * by simp
qed

end
