(* ===== verification/Tag_Div.thy ===== *)
theory Tag_Div
  imports C_Div
begin

text \<open>
  tag\_div.c on two integer tags: one definition per row of the switch, \<open>None\<close> where the second
  operand is not an integer, and the check in front of it.  The rows for floating point, ratios
  and complex numbers are not modelled.
\<close>

definition tag_div_integer :: "mplib \<Rightarrow> int \<Rightarrow> tag \<Rightarrow> tag outcome option" where
  "tag_div_integer mp a b = (case b of
      TInteger b \<Rightarrow> Some (goto_integer_reduce mp (tag_integer_checked (integer_div mp a b)))
    | TS8 b \<Rightarrow> Some (goto_integer_reduce mp (tag_integer_checked (integer_div mp a (integer_init_s32 mp (scast b :: s32)))))
    | TS16 b \<Rightarrow> Some (goto_integer_reduce mp (tag_integer_checked (integer_div mp a (integer_init_s32 mp (scast b :: s32)))))
    | TS32 b \<Rightarrow> Some (goto_integer_reduce mp (tag_integer_checked (integer_div mp a (integer_init_s32 mp b))))
    | TS64 b \<Rightarrow> Some (goto_integer_reduce mp (tag_integer_checked (integer_div mp a (integer_init_s64 mp b))))
    | TSW b \<Rightarrow> Some (goto_integer_reduce mp (tag_integer_checked (integer_div mp a (integer_init_sw mp b))))
    | TU8 b \<Rightarrow> Some (goto_integer_reduce mp (tag_integer_checked (integer_div mp a (integer_init_u32 mp (ucast b :: u32)))))
    | TU16 b \<Rightarrow> Some (goto_integer_reduce mp (tag_integer_checked (integer_div mp a (integer_init_u32 mp (ucast b :: u32)))))
    | TU32 b \<Rightarrow> Some (goto_integer_reduce mp (tag_integer_checked (integer_div mp a (integer_init_u32 mp b))))
    | TU64 b \<Rightarrow> Some (goto_integer_reduce mp (tag_integer_checked (integer_div mp a (integer_init_u64 mp b))))
    | TUW b \<Rightarrow> Some (goto_integer_reduce mp (tag_integer_checked (integer_div mp a (integer_init_uw mp b))))
    | _ \<Rightarrow> None)"

definition tag_div_s8 :: "mplib \<Rightarrow> s8 \<Rightarrow> tag \<Rightarrow> tag outcome option" where
  "tag_div_s8 mp a b = (case b of
      TInteger b \<Rightarrow> Some (goto_integer_reduce mp (tag_integer_checked (integer_div mp (integer_init_s32 mp (scast a :: s32)) b)))
    | TS8 b \<Rightarrow> Some (goto_integer_reduce mp (tag_init_s8 (c_cast (scast :: s32 \<Rightarrow> s8) (c_sdiv (scast a :: s32) (scast b :: s32)))))
    | TS16 b \<Rightarrow> Some (goto_integer_reduce mp (tag_init_s8 (c_cast (scast :: s32 \<Rightarrow> s8) (c_sdiv (scast (scast a :: s16) :: s32) (scast b :: s32)))))
    | TS32 b \<Rightarrow> Some (goto_integer_reduce mp (tag_init_s8 (c_cast (scast :: s32 \<Rightarrow> s8) (c_sdiv (scast a :: s32) b))))
    | TS64 b \<Rightarrow> Some (goto_integer_reduce mp (tag_init_s8 (c_cast (scast :: s64 \<Rightarrow> s8) (c_sdiv (scast a :: s64) b))))
    | TSW b \<Rightarrow> Some (goto_integer_reduce mp (tag_init_s8 (c_cast (scast :: s64 \<Rightarrow> s8) (c_sdiv (scast a :: sw) b))))
    | TU8 b \<Rightarrow> Some (goto_integer_reduce mp (tag_init_s8 (c_cast (scast :: s32 \<Rightarrow> s8) (c_sdiv (scast (scast a :: s16) :: s32) (scast (ucast b :: s16) :: s32)))))
    | TU16 b \<Rightarrow> Some (goto_integer_reduce mp (tag_init_s8 (c_cast (scast :: s32 \<Rightarrow> s8) (c_sdiv (scast a :: s32) (ucast b :: s32)))))
    | TU32 b \<Rightarrow> Some (goto_integer_reduce mp (tag_init_s8 (c_cast (scast :: s64 \<Rightarrow> s8) (c_sdiv (scast a :: s64) (ucast b :: s64)))))
    | TU64 b \<Rightarrow> Some (goto_integer_reduce mp (tag_integer_checked (integer_div mp (integer_init_s8 mp a) (integer_init_u64 mp b))))
    | TUW b \<Rightarrow> Some (goto_integer_reduce mp (tag_integer_checked (integer_div mp (integer_init_s8 mp a) (integer_init_uw mp b))))
    | _ \<Rightarrow> None)"

definition tag_div_s16 :: "mplib \<Rightarrow> s16 \<Rightarrow> tag \<Rightarrow> tag outcome option" where
  "tag_div_s16 mp a b = (case b of
      TInteger b \<Rightarrow> Some (goto_integer_reduce mp (tag_integer_checked (integer_div mp (integer_init_s32 mp (scast a :: s32)) b)))
    | TS8 b \<Rightarrow> Some (goto_integer_reduce mp (tag_init_s16 (c_cast (scast :: s32 \<Rightarrow> s16) (c_sdiv (scast a :: s32) (scast (scast b :: s16) :: s32)))))
    | TS16 b \<Rightarrow> Some (goto_integer_reduce mp (tag_init_s16 (c_cast (scast :: s32 \<Rightarrow> s16) (c_sdiv (scast a :: s32) (scast b :: s32)))))
    | TS32 b \<Rightarrow> Some (goto_integer_reduce mp (tag_init_s16 (c_cast (scast :: s32 \<Rightarrow> s16) (c_sdiv (scast a :: s32) b))))
    | TS64 b \<Rightarrow> Some (goto_integer_reduce mp (tag_init_s16 (c_cast (scast :: s64 \<Rightarrow> s16) (c_sdiv (scast a :: s64) b))))
    | TSW b \<Rightarrow> Some (goto_integer_reduce mp (tag_init_s16 (c_cast (scast :: s64 \<Rightarrow> s16) (c_sdiv (scast a :: sw) b))))
    | TU8 b \<Rightarrow> Some (goto_integer_reduce mp (tag_init_s16 (c_cast (scast :: s32 \<Rightarrow> s16) (c_sdiv (scast a :: s32) (scast (ucast b :: s16) :: s32)))))
    | TU16 b \<Rightarrow> Some (goto_integer_reduce mp (tag_init_s16 (c_cast (scast :: s32 \<Rightarrow> s16) (c_sdiv (scast a :: s32) (ucast b :: s32)))))
    | TU32 b \<Rightarrow> Some (goto_integer_reduce mp (tag_init_s16 (c_cast (scast :: s64 \<Rightarrow> s16) (c_sdiv (scast a :: s64) (ucast b :: s64)))))
    | TU64 b \<Rightarrow> Some (goto_integer_reduce mp (tag_integer_checked (integer_div mp (integer_init_s16 mp a) (integer_init_u64 mp b))))
    | TUW b \<Rightarrow> Some (goto_integer_reduce mp (tag_integer_checked (integer_div mp (integer_init_s16 mp a) (integer_init_uw mp b))))
    | _ \<Rightarrow> None)"

definition tag_div_s32 :: "mplib \<Rightarrow> s32 \<Rightarrow> tag \<Rightarrow> tag outcome option" where
  "tag_div_s32 mp a b = (case b of
      TInteger b \<Rightarrow> Some (goto_integer_reduce mp (tag_integer_checked (integer_div mp (integer_init_s32 mp a) b)))
    | TS8 b \<Rightarrow> Some (goto_integer_reduce mp (tag_init_s32 (c_sdiv a (scast b :: s32))))
    | TS16 b \<Rightarrow> Some (goto_integer_reduce mp (tag_init_s32 (c_sdiv a (scast b :: s32))))
    | TS32 b \<Rightarrow> Some (goto_integer_reduce mp (tag_init_s32 (c_sdiv a b)))
    | TS64 b \<Rightarrow> Some (goto_integer_reduce mp (tag_init_s32 (c_cast (scast :: s64 \<Rightarrow> s32) (c_sdiv (scast a :: s64) b))))
    | TSW b \<Rightarrow> Some (goto_integer_reduce mp (tag_init_s32 (c_cast (scast :: s64 \<Rightarrow> s32) (c_sdiv (scast a :: sw) b))))
    | TU8 b \<Rightarrow> Some (goto_integer_reduce mp (tag_init_s32 (c_sdiv a (ucast b :: s32))))
    | TU16 b \<Rightarrow> Some (goto_integer_reduce mp (tag_init_s32 (c_sdiv a (ucast b :: s32))))
    | TU32 b \<Rightarrow> Some (goto_integer_reduce mp (tag_init_s32 (c_cast (scast :: s64 \<Rightarrow> s32) (c_sdiv (scast a :: s64) (ucast b :: s64)))))
    | TU64 b \<Rightarrow> Some (goto_integer_reduce mp (tag_integer_checked (integer_div mp (integer_init_s32 mp a) (integer_init_u64 mp b))))
    | TUW b \<Rightarrow> Some (goto_integer_reduce mp (tag_integer_checked (integer_div mp (integer_init_s32 mp a) (integer_init_uw mp b))))
    | _ \<Rightarrow> None)"

definition tag_div_s64 :: "mplib \<Rightarrow> s64 \<Rightarrow> tag \<Rightarrow> tag outcome option" where
  "tag_div_s64 mp a b = (case b of
      TInteger b \<Rightarrow> Some (goto_integer_reduce mp (tag_integer_checked (integer_div mp (integer_init_s64 mp a) b)))
    | TS8 b \<Rightarrow> Some (goto_integer_reduce mp (tag_init_s64 (c_sdiv a (scast b :: s64))))
    | TS16 b \<Rightarrow> Some (goto_integer_reduce mp (tag_init_s64 (c_sdiv a (scast b :: s64))))
    | TS32 b \<Rightarrow> Some (goto_integer_reduce mp (tag_init_s64 (c_sdiv a (scast b :: s64))))
    | TS64 b \<Rightarrow> Some (goto_integer_reduce mp (tag_init_s64 (c_sdiv a b)))
    | TSW b \<Rightarrow> Some (goto_integer_reduce mp (tag_init_s64 (c_sdiv a b)))
    | TU8 b \<Rightarrow> Some (goto_integer_reduce mp (tag_init_s64 (c_sdiv a (ucast b :: s64))))
    | TU16 b \<Rightarrow> Some (goto_integer_reduce mp (tag_init_s64 (c_sdiv a (ucast b :: s64))))
    | TU32 b \<Rightarrow> Some (goto_integer_reduce mp (tag_init_s64 (c_sdiv a (ucast b :: s64))))
    | TU64 b \<Rightarrow> Some (goto_integer_reduce mp (tag_integer_checked (integer_div mp (integer_init_s64 mp a) (integer_init_u64 mp b))))
    | TUW b \<Rightarrow> Some (goto_integer_reduce mp (tag_integer_checked (integer_div mp (integer_init_s64 mp a) (integer_init_uw mp b))))
    | _ \<Rightarrow> None)"

definition tag_div_sw :: "mplib \<Rightarrow> sw \<Rightarrow> tag \<Rightarrow> tag outcome option" where
  "tag_div_sw mp a b = (case b of
      TInteger b \<Rightarrow> Some (goto_integer_reduce mp (tag_integer_checked (integer_div mp (integer_init_sw mp a) b)))
    | TS8 b \<Rightarrow> Some (goto_integer_reduce mp (tag_init_sw (c_sdiv a (scast b :: sw))))
    | TS16 b \<Rightarrow> Some (goto_integer_reduce mp (tag_init_sw (c_sdiv a (scast b :: sw))))
    | TS32 b \<Rightarrow> Some (goto_integer_reduce mp (tag_init_sw (c_sdiv a (scast b :: sw))))
    | TS64 b \<Rightarrow> Some (goto_integer_reduce mp (tag_init_sw (c_sdiv a b)))
    | TSW b \<Rightarrow> Some (goto_integer_reduce mp (tag_init_sw (c_sdiv a b)))
    | TU8 b \<Rightarrow> Some (goto_integer_reduce mp (tag_init_sw (c_sdiv a (ucast b :: sw))))
    | TU16 b \<Rightarrow> Some (goto_integer_reduce mp (tag_init_sw (c_sdiv a (ucast b :: sw))))
    | TU32 b \<Rightarrow> Some (goto_integer_reduce mp (tag_init_sw (c_sdiv a (ucast b :: s64))))
    | TU64 b \<Rightarrow> Some (goto_integer_reduce mp (tag_integer_checked (integer_div mp (integer_init_sw mp a) (integer_init_u64 mp b))))
    | TUW b \<Rightarrow> Some (goto_integer_reduce mp (tag_integer_checked (integer_div mp (integer_init_sw mp a) (integer_init_uw mp b))))
    | _ \<Rightarrow> None)"

definition tag_div_u8 :: "mplib \<Rightarrow> u8 \<Rightarrow> tag \<Rightarrow> tag outcome option" where
  "tag_div_u8 mp a b = (case b of
      TInteger b \<Rightarrow> Some (goto_integer_reduce mp (tag_integer_checked (integer_div mp (integer_init_u32 mp (ucast a :: u32)) b)))
    | TS8 b \<Rightarrow> Some (goto_integer_reduce mp (tag_init_s16 (c_cast (scast :: s32 \<Rightarrow> s16) (c_sdiv (scast (ucast a :: s16) :: s32) (scast (scast b :: s16) :: s32)))))
    | TS16 b \<Rightarrow> Some (goto_integer_reduce mp (tag_init_s16 (c_cast (scast :: s32 \<Rightarrow> s16) (c_sdiv (scast (ucast a :: s16) :: s32) (scast b :: s32)))))
    | TS32 b \<Rightarrow> Some (goto_integer_reduce mp (tag_init_s16 (c_cast (scast :: s32 \<Rightarrow> s16) (c_sdiv (ucast a :: s32) b))))
    | TS64 b \<Rightarrow> Some (goto_integer_reduce mp (tag_init_s16 (c_cast (scast :: s64 \<Rightarrow> s16) (c_sdiv (ucast a :: s64) b))))
    | TSW b \<Rightarrow> Some (goto_integer_reduce mp (tag_init_s16 (c_cast (scast :: s64 \<Rightarrow> s16) (c_sdiv (ucast a :: sw) b))))
    | TU8 b \<Rightarrow> Some (goto_integer_reduce mp (tag_init_u8 (c_cast (scast :: s32 \<Rightarrow> u8) (c_sdiv (ucast a :: s32) (ucast b :: s32)))))
    | TU16 b \<Rightarrow> Some (goto_integer_reduce mp (tag_init_u16 (c_cast (ucast :: u8 \<Rightarrow> u16) (c_cast (scast :: s32 \<Rightarrow> u8) (c_sdiv (ucast (ucast a :: u16) :: s32) (ucast b :: s32))))))
    | TU32 b \<Rightarrow> Some (goto_integer_reduce mp (tag_init_u32 (c_cast (ucast :: u8 \<Rightarrow> u32) (c_cast (ucast :: u32 \<Rightarrow> u8) (c_udiv (ucast a :: u32) b)))))
    | TU64 b \<Rightarrow> Some (goto_integer_reduce mp (tag_init_u64 (c_cast (ucast :: u8 \<Rightarrow> u64) (c_cast (ucast :: u64 \<Rightarrow> u8) (c_udiv (ucast a :: u64) b)))))
    | TUW b \<Rightarrow> Some (goto_integer_reduce mp (tag_init_uw (c_cast (ucast :: u8 \<Rightarrow> uw) (c_cast (ucast :: u64 \<Rightarrow> u8) (c_udiv (ucast a :: uw) b)))))
    | _ \<Rightarrow> None)"

definition tag_div_u16 :: "mplib \<Rightarrow> u16 \<Rightarrow> tag \<Rightarrow> tag outcome option" where
  "tag_div_u16 mp a b = (case b of
      TInteger b \<Rightarrow> Some (goto_integer_reduce mp (tag_integer_checked (integer_div mp (integer_init_u32 mp (ucast a :: u32)) b)))
    | TS8 b \<Rightarrow> Some (goto_integer_reduce mp (tag_init_s32 (c_sdiv (ucast a :: s32) (scast b :: s32))))
    | TS16 b \<Rightarrow> Some (goto_integer_reduce mp (tag_init_s32 (c_sdiv (ucast a :: s32) (scast b :: s32))))
    | TS32 b \<Rightarrow> Some (goto_integer_reduce mp (tag_init_s32 (c_sdiv (ucast a :: s32) b)))
    | TS64 b \<Rightarrow> Some (goto_integer_reduce mp (tag_init_s32 (c_cast (scast :: s64 \<Rightarrow> s32) (c_sdiv (ucast a :: s64) b))))
    | TSW b \<Rightarrow> Some (goto_integer_reduce mp (tag_init_s32 (c_cast (scast :: s64 \<Rightarrow> s32) (c_sdiv (ucast a :: sw) b))))
    | TU8 b \<Rightarrow> Some (goto_integer_reduce mp (tag_init_u16 (c_cast (scast :: s32 \<Rightarrow> u16) (c_sdiv (ucast a :: s32) (ucast (ucast b :: u16) :: s32)))))
    | TU16 b \<Rightarrow> Some (goto_integer_reduce mp (tag_init_u16 (c_cast (scast :: s32 \<Rightarrow> u16) (c_sdiv (ucast a :: s32) (ucast b :: s32)))))
    | TU32 b \<Rightarrow> Some (goto_integer_reduce mp (tag_init_u16 (c_cast (ucast :: u32 \<Rightarrow> u16) (c_udiv (ucast a :: u32) b))))
    | TU64 b \<Rightarrow> Some (goto_integer_reduce mp (tag_init_u16 (c_cast (ucast :: u64 \<Rightarrow> u16) (c_udiv (ucast a :: u64) b))))
    | TUW b \<Rightarrow> Some (goto_integer_reduce mp (tag_init_u16 (c_cast (ucast :: u64 \<Rightarrow> u16) (c_udiv (ucast a :: uw) b))))
    | _ \<Rightarrow> None)"

definition tag_div_u32 :: "mplib \<Rightarrow> u32 \<Rightarrow> tag \<Rightarrow> tag outcome option" where
  "tag_div_u32 mp a b = (case b of
      TInteger b \<Rightarrow> Some (goto_integer_reduce mp (tag_integer_checked (integer_div mp (integer_init_u32 mp a) b)))
    | TS8 b \<Rightarrow> Some (goto_integer_reduce mp (tag_init_s64 (c_sdiv (ucast a :: s64) (scast b :: s64))))
    | TS16 b \<Rightarrow> Some (goto_integer_reduce mp (tag_init_s64 (c_sdiv (ucast a :: s64) (scast b :: s64))))
    | TS32 b \<Rightarrow> Some (goto_integer_reduce mp (tag_init_s64 (c_sdiv (ucast a :: s64) (scast b :: s64))))
    | TS64 b \<Rightarrow> Some (goto_integer_reduce mp (tag_init_s64 (c_sdiv (ucast a :: s64) b)))
    | TSW b \<Rightarrow> Some (goto_integer_reduce mp (tag_init_s64 (c_sdiv (ucast a :: s64) b)))
    | TU8 b \<Rightarrow> Some (goto_integer_reduce mp (tag_init_u32 (c_udiv a (ucast b :: u32))))
    | TU16 b \<Rightarrow> Some (goto_integer_reduce mp (tag_init_u32 (c_udiv a (ucast b :: u32))))
    | TU32 b \<Rightarrow> Some (goto_integer_reduce mp (tag_init_u32 (c_udiv a b)))
    | TU64 b \<Rightarrow> Some (goto_integer_reduce mp (tag_init_u64 (c_udiv (ucast a :: u64) b)))
    | TUW b \<Rightarrow> Some (goto_integer_reduce mp (tag_init_uw (c_udiv (ucast a :: u64) b)))
    | _ \<Rightarrow> None)"

definition tag_div_u64 :: "mplib \<Rightarrow> u64 \<Rightarrow> tag \<Rightarrow> tag outcome option" where
  "tag_div_u64 mp a b = (case b of
      TInteger b \<Rightarrow> Some (goto_integer_reduce mp (tag_integer_checked (integer_div mp (integer_init_u64 mp a) b)))
    | TS8 b \<Rightarrow> Some (goto_integer_reduce mp (tag_integer_checked (integer_div mp (integer_init_u64 mp a) (integer_init_s8 mp b))))
    | TS16 b \<Rightarrow> Some (goto_integer_reduce mp (tag_integer_checked (integer_div mp (integer_init_u64 mp a) (integer_init_s16 mp b))))
    | TS32 b \<Rightarrow> Some (goto_integer_reduce mp (tag_integer_checked (integer_div mp (integer_init_u64 mp a) (integer_init_s32 mp b))))
    | TS64 b \<Rightarrow> Some (goto_integer_reduce mp (tag_integer_checked (integer_div mp (integer_init_u64 mp a) (integer_init_s64 mp b))))
    | TSW b \<Rightarrow> Some (goto_integer_reduce mp (tag_integer_checked (integer_div mp (integer_init_u64 mp a) (integer_init_sw mp b))))
    | TU8 b \<Rightarrow> Some (goto_integer_reduce mp (tag_init_u64 (c_udiv a (ucast b :: u64))))
    | TU16 b \<Rightarrow> Some (goto_integer_reduce mp (tag_init_u64 (c_udiv a (ucast b :: u64))))
    | TU32 b \<Rightarrow> Some (goto_integer_reduce mp (tag_init_u64 (c_udiv a (ucast b :: u64))))
    | TU64 b \<Rightarrow> Some (goto_integer_reduce mp (tag_init_u64 (c_udiv a b)))
    | TUW b \<Rightarrow> Some (goto_integer_reduce mp (tag_init_u64 (c_udiv a b)))
    | _ \<Rightarrow> None)"

definition tag_div_uw :: "mplib \<Rightarrow> uw \<Rightarrow> tag \<Rightarrow> tag outcome option" where
  "tag_div_uw mp a b = (case b of
      TInteger b \<Rightarrow> Some (goto_integer_reduce mp (tag_integer_checked (integer_div mp (integer_init_uw mp a) b)))
    | TS8 b \<Rightarrow> Some (if 9223372036854775807 < a then (goto_integer_reduce mp (tag_integer_checked (integer_div mp (integer_init_uw mp a) (integer_init_s32 mp (scast b :: s32))))) else (tag_init_s64 (c_sdiv a (scast b :: s64))))
    | TS16 b \<Rightarrow> Some (if 9223372036854775807 < a then (goto_integer_reduce mp (tag_integer_checked (integer_div mp (integer_init_uw mp a) (integer_init_s32 mp (scast b :: s32))))) else (goto_integer_reduce mp (tag_init_s64 (c_sdiv a (scast b :: s64)))))
    | TS32 b \<Rightarrow> Some (if 9223372036854775807 < a then (goto_integer_reduce mp (tag_integer_checked (integer_div mp (integer_init_uw mp a) (integer_init_s32 mp b)))) else (goto_integer_reduce mp (tag_init_s64 (c_sdiv a (scast b :: s64)))))
    | TS64 b \<Rightarrow> Some (if 9223372036854775807 < a then (goto_integer_reduce mp (tag_integer_checked (integer_div mp (integer_init_uw mp a) (integer_init_s64 mp b)))) else (goto_integer_reduce mp (tag_init_s64 (c_sdiv a b))))
    | TSW b \<Rightarrow> Some (if 9223372036854775807 < a then (goto_integer_reduce mp (tag_integer_checked (integer_div mp (integer_init_uw mp a) (integer_init_sw mp b)))) else (goto_integer_reduce mp (tag_init_sw (c_sdiv a b))))
    | TU8 b \<Rightarrow> Some (goto_integer_reduce mp (tag_init_uw (c_udiv a (ucast b :: uw))))
    | TU16 b \<Rightarrow> Some (goto_integer_reduce mp (tag_init_uw (c_udiv a (ucast b :: uw))))
    | TU32 b \<Rightarrow> Some (goto_integer_reduce mp (tag_init_uw (c_udiv a (ucast b :: uw))))
    | TU64 b \<Rightarrow> Some (goto_integer_reduce mp (tag_init_uw (c_udiv a b)))
    | TUW b \<Rightarrow> Some (goto_integer_reduce mp (tag_init_uw (c_udiv a b)))
    | _ \<Rightarrow> None)"

definition tag_div_switch :: "mplib \<Rightarrow> tag \<Rightarrow> tag \<Rightarrow> tag outcome option" where
  "tag_div_switch mp a b = (case a of
      TInteger x \<Rightarrow> tag_div_integer mp x b
    | TS8 x \<Rightarrow> tag_div_s8 mp x b
    | TS16 x \<Rightarrow> tag_div_s16 mp x b
    | TS32 x \<Rightarrow> tag_div_s32 mp x b
    | TS64 x \<Rightarrow> tag_div_s64 mp x b
    | TSW x \<Rightarrow> tag_div_sw mp x b
    | TU8 x \<Rightarrow> tag_div_u8 mp x b
    | TU16 x \<Rightarrow> tag_div_u16 mp x b
    | TU32 x \<Rightarrow> tag_div_u32 mp x b
    | TU64 x \<Rightarrow> tag_div_u64 mp x b
    | TUW x \<Rightarrow> tag_div_uw mp x b
    | _ \<Rightarrow> None)"

definition tag_div :: "mplib \<Rightarrow> tag \<Rightarrow> tag \<Rightarrow> tag outcome option" where
  "tag_div mp a b =
    (case (tag_divmod_fixed_value a, tag_divmod_fixed_value b) of
      (Some (a_magnitude, a_negative), Some (b_magnitude, b_negative)) \<Rightarrow>
        if b_magnitude = 0 then Some Null
        else if a_negative \<and> b_negative \<and> b_magnitude = 1 then
          Some (goto_integer_reduce mp (tag_init_u64 (Ok a_magnitude)))
        else tag_div_switch mp a b
    | _ \<Rightarrow> tag_div_switch mp a b)"

lemmas c_div_simps = word_val c_sdiv_Ok c_udiv_Ok scast_of_int ucast_of_int scast_of_int_widen
  ucast_of_int_widen

text \<open>The rows, on operands that passed the check.\<close>

definition div_checked :: "int \<Rightarrow> tag \<Rightarrow> bool" where
  "div_checked i b \<longleftrightarrow> (\<exists>j. tag_int b = Some j \<and> j \<noteq> 0 \<and> (tag_type b = 10 \<or> \<not> (i < 0 \<and> j = -1)))"

lemma tag_div_s8_val:
  assumes "mp_ok mp" "mp_total mp" "div_checked (sint a) b" "tag_int b = Some j"
  shows "tag_div_s8 mp a b = Some (Ok (reduced (sint a sdiv j)))"
proof -
  note [simp] = integer_div_mod_total [OF assms(1,2)] integer_init_val [OF assms(1)]
    reduce_value [OF assms(1)] reduce_checked [OF assms(1)] c_div_simps
  have j: "j \<noteq> 0" "tag_type b \<noteq> 10 \<longrightarrow> \<not> (sint a < 0 \<and> j = -1)"
    using assms(3,4) by (auto simp: div_checked_def)
  have "tag_type b \<noteq> 10 \<longrightarrow> - 128 \<le> sint a sdiv j \<and> sint a sdiv j < 128"
    using j(2) sdiv_range [of 128 "sint a" j] sint_range_bits [of a] by auto
  with assms(4) j(1) show ?thesis
    by (cases b; simp add: tag_div_s8_def)
qed

lemma tag_div_s16_val:
  assumes "mp_ok mp" "mp_total mp" "div_checked (sint a) b" "tag_int b = Some j"
  shows "tag_div_s16 mp a b = Some (Ok (reduced (sint a sdiv j)))"
proof -
  note [simp] = integer_div_mod_total [OF assms(1,2)] integer_init_val [OF assms(1)]
    reduce_value [OF assms(1)] reduce_checked [OF assms(1)] c_div_simps
  have j: "j \<noteq> 0" "tag_type b \<noteq> 10 \<longrightarrow> \<not> (sint a < 0 \<and> j = -1)"
    using assms(3,4) by (auto simp: div_checked_def)
  have "tag_type b \<noteq> 10 \<longrightarrow> - 32768 \<le> sint a sdiv j \<and> sint a sdiv j < 32768"
    using j(2) sdiv_range [of 32768 "sint a" j] sint_range_bits [of a] by auto
  with assms(4) j(1) show ?thesis
    by (cases b; simp add: tag_div_s16_def)
qed

lemma tag_div_s32_val:
  assumes "mp_ok mp" "mp_total mp" "div_checked (sint a) b" "tag_int b = Some j"
  shows "tag_div_s32 mp a b = Some (Ok (reduced (sint a sdiv j)))"
proof -
  note [simp] = integer_div_mod_total [OF assms(1,2)] integer_init_val [OF assms(1)]
    reduce_value [OF assms(1)] reduce_checked [OF assms(1)] c_div_simps
  have j: "j \<noteq> 0" "tag_type b \<noteq> 10 \<longrightarrow> \<not> (sint a < 0 \<and> j = -1)"
    using assms(3,4) by (auto simp: div_checked_def)
  have "tag_type b \<noteq> 10 \<longrightarrow> - 2147483648 \<le> sint a sdiv j \<and> sint a sdiv j < 2147483648"
    using j(2) sdiv_range [of 2147483648 "sint a" j] sint_range_bits [of a] by auto
  with assms(4) j(1) show ?thesis
    by (cases b; simp add: tag_div_s32_def)
qed

lemma tag_div_s64_val:
  assumes "mp_ok mp" "mp_total mp" "div_checked (sint a) b" "tag_int b = Some j"
  shows "tag_div_s64 mp a b = Some (Ok (reduced (sint a sdiv j)))"
proof -
  note [simp] = integer_div_mod_total [OF assms(1,2)] integer_init_val [OF assms(1)]
    reduce_value [OF assms(1)] reduce_checked [OF assms(1)] c_div_simps
  have j: "j \<noteq> 0" "tag_type b \<noteq> 10 \<longrightarrow> \<not> (sint a < 0 \<and> j = -1)"
    using assms(3,4) by (auto simp: div_checked_def)
  have "tag_type b \<noteq> 10 \<longrightarrow> - 9223372036854775808 \<le> sint a sdiv j \<and> sint a sdiv j < 9223372036854775808"
    using j(2) sdiv_range [of 9223372036854775808 "sint a" j] sint_range_bits [of a] by auto
  with assms(4) j(1) show ?thesis
    by (cases b; simp add: tag_div_s64_def)
qed

lemma tag_div_sw_val:
  assumes "mp_ok mp" "mp_total mp" "div_checked (sint a) b" "tag_int b = Some j"
  shows "tag_div_sw mp a b = Some (Ok (reduced (sint a sdiv j)))"
proof -
  note [simp] = integer_div_mod_total [OF assms(1,2)] integer_init_val [OF assms(1)]
    reduce_value [OF assms(1)] reduce_checked [OF assms(1)] c_div_simps
  have j: "j \<noteq> 0" "tag_type b \<noteq> 10 \<longrightarrow> \<not> (sint a < 0 \<and> j = -1)"
    using assms(3,4) by (auto simp: div_checked_def)
  have "tag_type b \<noteq> 10 \<longrightarrow> - 9223372036854775808 \<le> sint a sdiv j \<and> sint a sdiv j < 9223372036854775808"
    using j(2) sdiv_range [of 9223372036854775808 "sint a" j] sint_range_bits [of a] by auto
  with assms(4) j(1) show ?thesis
    by (cases b; simp add: tag_div_sw_def)
qed

lemma tag_div_u8_val:
  assumes "mp_ok mp" "mp_total mp" "tag_int b = Some j" "j \<noteq> 0"
  shows "tag_div_u8 mp a b = Some (Ok (reduced (uint a sdiv j)))"
proof -
  note [simp] = integer_div_mod_total [OF assms(1,2)] integer_init_val [OF assms(1)]
    reduce_value [OF assms(1)] reduce_checked [OF assms(1)] c_div_simps
  have "- 255 \<le> uint a sdiv j \<and> uint a sdiv j \<le> 255" "tag_unsigned b \<longrightarrow> 0 \<le> uint a sdiv j"
    using sdiv_range_nonneg [of "uint a" 255 j] uint_bounded [of a] tag_unsigned_nonneg [OF assms(3)] by auto
  with assms(3,4) show ?thesis
    by (cases b; simp add: tag_div_u8_def)
qed

lemma tag_div_u16_val:
  assumes "mp_ok mp" "mp_total mp" "tag_int b = Some j" "j \<noteq> 0"
  shows "tag_div_u16 mp a b = Some (Ok (reduced (uint a sdiv j)))"
proof -
  note [simp] = integer_div_mod_total [OF assms(1,2)] integer_init_val [OF assms(1)]
    reduce_value [OF assms(1)] reduce_checked [OF assms(1)] c_div_simps
  have "- 65535 \<le> uint a sdiv j \<and> uint a sdiv j \<le> 65535" "tag_unsigned b \<longrightarrow> 0 \<le> uint a sdiv j"
    using sdiv_range_nonneg [of "uint a" 65535 j] uint_bounded [of a] tag_unsigned_nonneg [OF assms(3)] by auto
  with assms(3,4) show ?thesis
    by (cases b; simp add: tag_div_u16_def)
qed

lemma tag_div_u32_val:
  assumes "mp_ok mp" "mp_total mp" "tag_int b = Some j" "j \<noteq> 0"
  shows "tag_div_u32 mp a b = Some (Ok (reduced (uint a sdiv j)))"
proof -
  note [simp] = integer_div_mod_total [OF assms(1,2)] integer_init_val [OF assms(1)]
    reduce_value [OF assms(1)] reduce_checked [OF assms(1)] c_div_simps
  have "- 4294967295 \<le> uint a sdiv j \<and> uint a sdiv j \<le> 4294967295" "tag_unsigned b \<longrightarrow> 0 \<le> uint a sdiv j"
    using sdiv_range_nonneg [of "uint a" 4294967295 j] uint_bounded [of a] tag_unsigned_nonneg [OF assms(3)] by auto
  with assms(3,4) show ?thesis
    by (cases b; simp add: tag_div_u32_def)
qed

lemma tag_div_u64_val:
  assumes "mp_ok mp" "mp_total mp" "tag_int b = Some j" "j \<noteq> 0"
  shows "tag_div_u64 mp a b = Some (Ok (reduced (uint a sdiv j)))"
proof -
  note [simp] = integer_div_mod_total [OF assms(1,2)] integer_init_val [OF assms(1)]
    reduce_value [OF assms(1)] reduce_checked [OF assms(1)] c_div_simps
  have "- 18446744073709551615 \<le> uint a sdiv j \<and> uint a sdiv j \<le> 18446744073709551615" "tag_unsigned b \<longrightarrow> 0 \<le> uint a sdiv j"
    using sdiv_range_nonneg [of "uint a" 18446744073709551615 j] uint_bounded [of a] tag_unsigned_nonneg [OF assms(3)] by auto
  with assms(3,4) show ?thesis
    by (cases b; simp add: tag_div_u64_def)
qed

text \<open>The row for \<open>uw\<close>: with an \<open>s8\<close> divisor the quotient of a small value is not reduced.\<close>

definition uw_unreduced :: "tag \<Rightarrow> tag \<Rightarrow> bool" where
  "uw_unreduced a b \<longleftrightarrow> (case (a, b) of (TUW x, TS8 _) \<Rightarrow> x \<le> 9223372036854775807 | _ \<Rightarrow> False)"

lemma tag_div_uw_val:
  assumes "mp_ok mp" "mp_total mp" "tag_int b = Some j" "j \<noteq> 0"
  shows "tag_div_uw mp a b = Some (Ok
    (if uw_unreduced (TUW a) b then TS64 (word_of_int (uint a sdiv j)) else reduced (uint a sdiv j)))"
proof -
  note [simp] = integer_div_mod_total [OF assms(1,2)] integer_init_val [OF assms(1)]
    reduce_value [OF assms(1)] reduce_checked [OF assms(1)] c_div_simps
  have "- 18446744073709551615 \<le> uint a sdiv j \<and> uint a sdiv j \<le> 18446744073709551615"
    "tag_unsigned b \<longrightarrow> 0 \<le> uint a sdiv j"
    "- uint a \<le> uint a sdiv j \<and> uint a sdiv j \<le> uint a"
    using sdiv_range_nonneg [of "uint a" 18446744073709551615 j] sdiv_range_nonneg [of "uint a" "uint a" j]
      uint_bounded [of a] tag_unsigned_nonneg [OF assms(3)] by auto
  with assms(3,4) sint_small [of a] show ?thesis
    by (cases b; cases "9223372036854775807 < a")
       (simp_all add: tag_div_uw_def uw_unreduced_def tag_init_s64_eq not_less [symmetric])
qed

lemma tag_div_integer_val:
  assumes "mp_ok mp" "mp_total mp" "tag_int b = Some j"
  shows "tag_div_integer mp a b = Some (if j = 0 then Null else Ok (reduced (a sdiv j)))"
proof -
  note [simp] = integer_div_mod_total [OF assms(1,2)] integer_init_val [OF assms(1)]
    reduce_checked [OF assms(1)] c_div_simps
  show ?thesis
    using assms(3) by (cases b; simp add: tag_div_integer_def)
qed

text \<open>Every row: the quotient of the checked operands.\<close>

definition div_result :: "tag \<Rightarrow> tag \<Rightarrow> int \<Rightarrow> tag" where
  "div_result a b q = (if uw_unreduced a b then TS64 (word_of_int q) else reduced q)"

lemma tag_div_switch_val:
  assumes "mp_ok mp" "mp_total mp" "tag_int a = Some i" "tag_int b = Some j"
    and "j \<noteq> 0" "tag_type a = 10 \<or> tag_type b = 10 \<or> \<not> (i < 0 \<and> j = -1)"
  shows "tag_div_switch mp a b = Some (Ok (div_result a b (i sdiv j)))"
proof -
  have "tag_type a \<noteq> 10 \<longrightarrow> div_checked i b"
    using assms(4,5,6) by (auto simp: div_checked_def)
  then show ?thesis
    using assms(3,5) tag_div_s8_val [OF assms(1,2) _ assms(4)] tag_div_s16_val [OF assms(1,2) _ assms(4)]
      tag_div_s32_val [OF assms(1,2) _ assms(4)] tag_div_s64_val [OF assms(1,2) _ assms(4)]
      tag_div_sw_val [OF assms(1,2) _ assms(4)] tag_div_u8_val [OF assms(1,2) assms(4)]
      tag_div_u16_val [OF assms(1,2) assms(4)] tag_div_u32_val [OF assms(1,2) assms(4)]
      tag_div_u64_val [OF assms(1,2) assms(4)] tag_div_uw_val [OF assms(1,2) assms(4)]
      tag_div_integer_val [OF assms(1,2) assms(4)]
    by (cases a) (auto simp: tag_div_switch_def div_result_def uw_unreduced_def)
qed

lemma tag_div_switch_zero:
  assumes "mp_ok mp" "mp_total mp" "tag_int a = Some i" "tag_int b = Some 0"
    and "tag_type a = 10 \<or> tag_type b = 10"
  shows "tag_div_switch mp a b = Some Null"
proof (cases "tag_type a = 10")
  case True
  with assms(3) tag_div_integer_val [OF assms(1,2,4)] show ?thesis
    by (cases a) (simp_all add: tag_div_switch_def)
next
  case False
  then have "b = TInteger 0" using assms(4,5) by (cases b) simp_all
  with assms(3) False integer_div_mod_total(1) [OF assms(1,2)] show ?thesis
    by (cases a) (simp_all add: tag_div_switch_def tag_div_s8_def tag_div_s16_def tag_div_s32_def
        tag_div_s64_def tag_div_sw_def tag_div_u8_def tag_div_u16_def tag_div_u32_def
        tag_div_u64_def tag_div_uw_def)
qed

lemma tag_div_check:
  assumes "tag_int a = Some i" "tag_int b = Some j"
  shows "tag_div mp a b =
    (if tag_type a = 10 \<or> tag_type b = 10 then tag_div_switch mp a b
     else if j = 0 then Some Null
     else if i < 0 \<and> j = -1 then Some (goto_integer_reduce mp (tag_init_u64 (Ok (word_of_int \<bar>i\<bar>))))
     else tag_div_switch mp a b)"
  using fixed_value_val [OF assms(1)] fixed_value_val [OF assms(2)] magnitude_eq [OF assms(2)]
  by (auto simp: tag_div_def)

text \<open>
  C18: dividing two integers of any types.  When libtommath behaves as documented and has memory,
  \<open>tag_div\<close> returns NULL exactly for a zero divisor and otherwise the quotient truncated
  towards zero, on every one of the 121 pairs of integer types; nothing overflows, the smallest
  value of a signed type divided by -1 included.  The quotient is in the smallest type that holds
  it, except that of a \<open>uw\<close> value of at most 2^63 - 1 by an \<open>s8\<close>, which stays an \<open>s64\<close>.
\<close>

theorem tag_div_correct:
  assumes "mp_ok mp" "mp_total mp" "tag_int a = Some i" "tag_int b = Some j"
  shows "tag_div mp a b = Some (if j = 0 then Null else Ok (div_result a b (i sdiv j)))"
proof (cases "j = 0")
  case True
  then show ?thesis
    using tag_div_switch_zero [OF assms(1-3)] assms(4) by (simp add: tag_div_check [OF assms(3,4)])
next
  case j: False
  show ?thesis
  proof (cases "tag_type a = 10 \<or> tag_type b = 10 \<or> \<not> (i < 0 \<and> j = -1)")
    case True
    with tag_div_switch_val [OF assms j] j show ?thesis
      by (auto simp: tag_div_check [OF assms(3,4)])
  next
    case False
    then have "- i \<le> 18446744073709551615" "\<not> uw_unreduced a b"
      using tag_mag_bound [OF assms(3)] assms(3) by (cases a; auto simp: uw_unreduced_def)+
    with False j reduce_value(9) [OF assms(1), of "- i"] show ?thesis
      by (simp add: tag_div_check [OF assms(3,4)] div_result_def)
  qed
qed

theorem tag_div_correct_witness:
  "tag_div mp_exact (TS8 (- 128)) (TS64 (- 1)) = Some (Ok (TU8 128)) \<and>
   tag_div mp_exact (TS8 (- 128)) (TU32 0) = Some Null"
  using tag_div_correct [of mp_exact "TS8 (- 128)" "- 128" "TS64 (- 1)" "- 1"]
    tag_div_correct [of mp_exact "TS8 (- 128)" "- 128" "TU32 0" 0]
  by (simp add: reduced_def div_result_def uw_unreduced_def)

end
