(* ===== verification/Tag_Mod.thy ===== *)
theory Tag_Mod
  imports C_Div
begin

text \<open>
  tag\_mod.c on two integer tags: one definition per row of the switch, \<open>None\<close> where the second
  operand is not an integer, and the check in front of it.  The rows for floating point are not
  modelled.
\<close>

definition tag_mod_integer :: "mplib \<Rightarrow> int \<Rightarrow> tag \<Rightarrow> tag outcome option" where
  "tag_mod_integer mp a b = (case b of
      TInteger b \<Rightarrow> Some (goto_integer_reduce mp (tag_integer_checked (integer_mod mp a b)))
    | TS8 b \<Rightarrow> Some (case (integer_mod mp a (integer_init_s8 mp b)) of None \<Rightarrow> Null | Some tmp2 \<Rightarrow> goto_integer_reduce mp (tag_init_s8 (Ok (integer_to_s8 mp tmp2))))
    | TS16 b \<Rightarrow> Some (case (integer_mod mp a (integer_init_s16 mp b)) of None \<Rightarrow> Null | Some tmp2 \<Rightarrow> goto_integer_reduce mp (tag_init_s16 (Ok (integer_to_s16 mp tmp2))))
    | TS32 b \<Rightarrow> Some (case (integer_mod mp a (integer_init_s32 mp b)) of None \<Rightarrow> Null | Some tmp2 \<Rightarrow> goto_integer_reduce mp (tag_init_s32 (Ok (integer_to_s32 mp tmp2))))
    | TS64 b \<Rightarrow> Some (case (integer_mod mp a (integer_init_s64 mp b)) of None \<Rightarrow> Null | Some tmp2 \<Rightarrow> goto_integer_reduce mp (tag_init_s64 (Ok (integer_to_s64 mp tmp2))))
    | TSW b \<Rightarrow> Some (case (integer_mod mp a (integer_init_sw mp b)) of None \<Rightarrow> Null | Some tmp2 \<Rightarrow> goto_integer_reduce mp (tag_init_sw (Ok (integer_to_sw mp tmp2))))
    | TU8 b \<Rightarrow> Some (case (integer_mod mp a (integer_init_u8 mp b)) of None \<Rightarrow> Null | Some tmp2 \<Rightarrow> goto_integer_reduce mp (tag_init_u8 (Ok (integer_to_u8 mp tmp2))))
    | TU16 b \<Rightarrow> Some (case (integer_mod mp a (integer_init_u16 mp b)) of None \<Rightarrow> Null | Some tmp2 \<Rightarrow> goto_integer_reduce mp (tag_init_u16 (Ok (integer_to_u16 mp tmp2))))
    | TU32 b \<Rightarrow> Some (case (integer_mod mp a (integer_init_u32 mp b)) of None \<Rightarrow> Null | Some tmp2 \<Rightarrow> goto_integer_reduce mp (tag_init_u32 (Ok (integer_to_u32 mp tmp2))))
    | TU64 b \<Rightarrow> Some (case (integer_mod mp a (integer_init_u64 mp b)) of None \<Rightarrow> Null | Some tmp2 \<Rightarrow> goto_integer_reduce mp (tag_init_u64 (Ok (integer_to_u64 mp tmp2))))
    | TUW b \<Rightarrow> Some (case (integer_mod mp a (integer_init_uw mp b)) of None \<Rightarrow> Null | Some tmp2 \<Rightarrow> goto_integer_reduce mp (tag_init_uw (Ok (integer_to_uw mp tmp2))))
    | _ \<Rightarrow> None)"

definition tag_mod_s8 :: "mplib \<Rightarrow> s8 \<Rightarrow> tag \<Rightarrow> tag outcome option" where
  "tag_mod_s8 mp a b = (case b of
      TInteger b \<Rightarrow> Some (goto_integer_reduce mp (tag_integer_checked (integer_mod mp (integer_init_s8 mp a) b)))
    | TS8 b \<Rightarrow> Some (goto_integer_reduce mp (tag_init_s8 (c_cast (scast :: s32 \<Rightarrow> s8) (c_smod (scast a :: s32) (scast b :: s32)))))
    | TS16 b \<Rightarrow> Some (goto_integer_reduce mp (tag_init_s8 (c_cast (scast :: s32 \<Rightarrow> s8) (c_smod (scast a :: s32) (scast b :: s32)))))
    | TS32 b \<Rightarrow> Some (goto_integer_reduce mp (tag_init_s8 (c_cast (scast :: s32 \<Rightarrow> s8) (c_smod (scast a :: s32) b))))
    | TS64 b \<Rightarrow> Some (goto_integer_reduce mp (tag_init_s8 (c_cast (scast :: s64 \<Rightarrow> s8) (c_smod (scast a :: s64) b))))
    | TSW b \<Rightarrow> Some (goto_integer_reduce mp (tag_init_s8 (c_cast (scast :: s64 \<Rightarrow> s8) (c_smod (scast a :: s64) b))))
    | TU8 b \<Rightarrow> Some (goto_integer_reduce mp (tag_init_u8 (c_cast (scast :: s16 \<Rightarrow> u8) (outcome_bind (c_cast (scast :: s32 \<Rightarrow> s16) (c_smod (scast a :: s32) (scast (ucast b :: s16) :: s32))) (\<lambda>i. if i <s 0 then (c_cast (scast :: s32 \<Rightarrow> s16) (c_sadd (scast i :: s32) (ucast b :: s32))) else Ok i)))))
    | TU16 b \<Rightarrow> Some (goto_integer_reduce mp (tag_init_u16 (c_cast (scast :: s32 \<Rightarrow> u16) (outcome_bind (c_smod (scast a :: s32) (ucast b :: s32)) (\<lambda>i. if i <s 0 then (c_sadd i (ucast b :: s32)) else Ok i)))))
    | TU32 b \<Rightarrow> Some (goto_integer_reduce mp (tag_init_u32 (c_cast (scast :: s64 \<Rightarrow> u32) (outcome_bind (c_smod (scast a :: s64) (ucast b :: s64)) (\<lambda>i. if i <s 0 then (c_sadd i (ucast b :: s64)) else Ok i)))))
    | TU64 b \<Rightarrow> Some (goto_integer_reduce mp (tag_integer_checked (integer_mod mp (integer_init_s8 mp a) (integer_init_u64 mp b))))
    | TUW b \<Rightarrow> Some (goto_integer_reduce mp (tag_integer_checked (integer_mod mp (integer_init_s8 mp a) (integer_init_uw mp b))))
    | _ \<Rightarrow> None)"

definition tag_mod_s16 :: "mplib \<Rightarrow> s16 \<Rightarrow> tag \<Rightarrow> tag outcome option" where
  "tag_mod_s16 mp a b = (case b of
      TInteger b \<Rightarrow> Some (goto_integer_reduce mp (tag_integer_checked (integer_mod mp (integer_init_s16 mp a) b)))
    | TS8 b \<Rightarrow> Some (goto_integer_reduce mp (tag_init_s8 (c_cast (scast :: s32 \<Rightarrow> s8) (c_smod (scast a :: s32) (scast b :: s32)))))
    | TS16 b \<Rightarrow> Some (goto_integer_reduce mp (tag_init_s16 (c_cast (scast :: s32 \<Rightarrow> s16) (c_smod (scast a :: s32) (scast b :: s32)))))
    | TS32 b \<Rightarrow> Some (goto_integer_reduce mp (tag_init_s16 (c_cast (scast :: s32 \<Rightarrow> s16) (c_smod (scast a :: s32) b))))
    | TS64 b \<Rightarrow> Some (goto_integer_reduce mp (tag_init_s16 (c_cast (scast :: s64 \<Rightarrow> s16) (c_smod (scast a :: s64) b))))
    | TSW b \<Rightarrow> Some (goto_integer_reduce mp (tag_init_s16 (c_cast (scast :: s64 \<Rightarrow> s16) (c_smod (scast a :: s64) b))))
    | TU8 b \<Rightarrow> Some (goto_integer_reduce mp (tag_init_u8 (c_cast (scast :: s16 \<Rightarrow> u8) (outcome_bind (c_cast (scast :: s32 \<Rightarrow> s16) (c_smod (scast a :: s32) (scast (ucast b :: s16) :: s32))) (\<lambda>i. if i <s 0 then (c_cast (scast :: s32 \<Rightarrow> s16) (c_sadd (scast i :: s32) (ucast b :: s32))) else Ok i)))))
    | TU16 b \<Rightarrow> Some (goto_integer_reduce mp (tag_init_u16 (c_cast (scast :: s32 \<Rightarrow> u16) (outcome_bind (c_smod (scast a :: s32) (ucast b :: s32)) (\<lambda>i. if i <s 0 then (c_sadd i (ucast b :: s32)) else Ok i)))))
    | TU32 b \<Rightarrow> Some (goto_integer_reduce mp (tag_init_u32 (c_cast (scast :: s64 \<Rightarrow> u32) (outcome_bind (c_smod (scast a :: s64) (ucast b :: s64)) (\<lambda>i. if i <s 0 then (c_sadd i (ucast b :: s64)) else Ok i)))))
    | TU64 b \<Rightarrow> Some (goto_integer_reduce mp (tag_integer_checked (integer_mod mp (integer_init_s16 mp a) (integer_init_u64 mp b))))
    | TUW b \<Rightarrow> Some (goto_integer_reduce mp (tag_integer_checked (integer_mod mp (integer_init_s16 mp a) (integer_init_uw mp b))))
    | _ \<Rightarrow> None)"

definition tag_mod_s32 :: "mplib \<Rightarrow> s32 \<Rightarrow> tag \<Rightarrow> tag outcome option" where
  "tag_mod_s32 mp a b = (case b of
      TInteger b \<Rightarrow> Some (goto_integer_reduce mp (tag_integer_checked (integer_mod mp (integer_init_s32 mp a) b)))
    | TS8 b \<Rightarrow> Some (goto_integer_reduce mp (tag_init_s8 (c_cast (scast :: s32 \<Rightarrow> s8) (c_smod a (scast b :: s32)))))
    | TS16 b \<Rightarrow> Some (goto_integer_reduce mp (tag_init_s16 (c_cast (scast :: s32 \<Rightarrow> s16) (c_smod a (scast b :: s32)))))
    | TS32 b \<Rightarrow> Some (goto_integer_reduce mp (tag_init_s32 (c_smod a b)))
    | TS64 b \<Rightarrow> Some (goto_integer_reduce mp (tag_init_s64 (c_smod (scast a :: s64) b)))
    | TSW b \<Rightarrow> Some (goto_integer_reduce mp (tag_init_sw (c_smod (scast a :: s64) b)))
    | TU8 b \<Rightarrow> Some (goto_integer_reduce mp (tag_init_u8 (c_cast (scast :: s16 \<Rightarrow> u8) (outcome_bind (c_cast (scast :: s32 \<Rightarrow> s16) (c_smod a (scast (ucast b :: s16) :: s32))) (\<lambda>i. if i <s 0 then (c_cast (scast :: s32 \<Rightarrow> s16) (c_sadd (scast i :: s32) (ucast b :: s32))) else Ok i)))))
    | TU16 b \<Rightarrow> Some (goto_integer_reduce mp (tag_init_u16 (c_cast (scast :: s32 \<Rightarrow> u16) (outcome_bind (c_smod a (ucast b :: s32)) (\<lambda>i. if i <s 0 then (c_sadd i (ucast b :: s32)) else Ok i)))))
    | TU32 b \<Rightarrow> Some (goto_integer_reduce mp (tag_init_u32 (c_cast (scast :: s64 \<Rightarrow> u32) (outcome_bind (c_smod (scast a :: s64) (ucast b :: s64)) (\<lambda>i. if i <s 0 then (c_sadd i (ucast b :: s64)) else Ok i)))))
    | TU64 b \<Rightarrow> Some (goto_integer_reduce mp (tag_integer_checked (integer_mod mp (integer_init_s32 mp a) (integer_init_u64 mp b))))
    | TUW b \<Rightarrow> Some (goto_integer_reduce mp (tag_integer_checked (integer_mod mp (integer_init_s32 mp a) (integer_init_uw mp b))))
    | _ \<Rightarrow> None)"

definition tag_mod_s64 :: "mplib \<Rightarrow> s64 \<Rightarrow> tag \<Rightarrow> tag outcome option" where
  "tag_mod_s64 mp a b = (case b of
      TInteger b \<Rightarrow> Some (goto_integer_reduce mp (tag_integer_checked (integer_mod mp (integer_init_s64 mp a) b)))
    | TS8 b \<Rightarrow> Some (goto_integer_reduce mp (tag_init_s8 (c_cast (scast :: s64 \<Rightarrow> s8) (c_smod a (scast b :: s64)))))
    | TS16 b \<Rightarrow> Some (goto_integer_reduce mp (tag_init_s16 (c_cast (scast :: s64 \<Rightarrow> s16) (c_smod a (scast b :: s64)))))
    | TS32 b \<Rightarrow> Some (goto_integer_reduce mp (tag_init_s32 (c_cast (scast :: s64 \<Rightarrow> s32) (c_smod a (scast b :: s64)))))
    | TS64 b \<Rightarrow> Some (goto_integer_reduce mp (tag_init_s64 (c_smod a b)))
    | TSW b \<Rightarrow> Some (goto_integer_reduce mp (tag_init_sw (c_smod a b)))
    | TU8 b \<Rightarrow> Some (goto_integer_reduce mp (tag_init_u8 (c_cast (scast :: s16 \<Rightarrow> u8) (outcome_bind (c_cast (scast :: s64 \<Rightarrow> s16) (c_smod a (ucast b :: s64))) (\<lambda>i. if i <s 0 then (c_cast (scast :: s32 \<Rightarrow> s16) (c_sadd (scast i :: s32) (ucast b :: s32))) else Ok i)))))
    | TU16 b \<Rightarrow> Some (goto_integer_reduce mp (tag_init_u16 (c_cast (scast :: s32 \<Rightarrow> u16) (outcome_bind (c_cast (scast :: s64 \<Rightarrow> s32) (c_smod a (ucast b :: s64))) (\<lambda>i. if i <s 0 then (c_sadd i (ucast b :: s32)) else Ok i)))))
    | TU32 b \<Rightarrow> Some (goto_integer_reduce mp (tag_init_u32 (c_cast (scast :: s64 \<Rightarrow> u32) (outcome_bind (c_smod a (ucast b :: s64)) (\<lambda>i. if i <s 0 then (c_sadd i (ucast b :: s64)) else Ok i)))))
    | TU64 b \<Rightarrow> Some (goto_integer_reduce mp (tag_integer_checked (integer_mod mp (integer_init_s64 mp a) (integer_init_u64 mp b))))
    | TUW b \<Rightarrow> Some (goto_integer_reduce mp (tag_integer_checked (integer_mod mp (integer_init_s64 mp a) (integer_init_uw mp b))))
    | _ \<Rightarrow> None)"

definition tag_mod_sw :: "mplib \<Rightarrow> sw \<Rightarrow> tag \<Rightarrow> tag outcome option" where
  "tag_mod_sw mp a b = (case b of
      TInteger b \<Rightarrow> Some (goto_integer_reduce mp (tag_integer_checked (integer_mod mp (integer_init_sw mp a) b)))
    | TS8 b \<Rightarrow> Some (goto_integer_reduce mp (tag_init_s8 (c_cast (scast :: s64 \<Rightarrow> s8) (c_smod a (scast b :: s64)))))
    | TS16 b \<Rightarrow> Some (goto_integer_reduce mp (tag_init_s16 (c_cast (scast :: s64 \<Rightarrow> s16) (c_smod a (scast b :: s64)))))
    | TS32 b \<Rightarrow> Some (goto_integer_reduce mp (tag_init_s32 (c_cast (scast :: s64 \<Rightarrow> s32) (c_smod a (scast b :: s64)))))
    | TS64 b \<Rightarrow> Some (goto_integer_reduce mp (tag_init_sw (c_smod a b)))
    | TSW b \<Rightarrow> Some (goto_integer_reduce mp (tag_init_sw (c_smod a b)))
    | TU8 b \<Rightarrow> Some (goto_integer_reduce mp (tag_init_u8 (c_cast (scast :: s16 \<Rightarrow> u8) (outcome_bind (c_cast (scast :: s64 \<Rightarrow> s16) (c_smod a (ucast b :: s64))) (\<lambda>i. if i <s 0 then (c_cast (scast :: s32 \<Rightarrow> s16) (c_sadd (scast i :: s32) (ucast b :: s32))) else Ok i)))))
    | TU16 b \<Rightarrow> Some (goto_integer_reduce mp (tag_init_u16 (c_cast (scast :: s32 \<Rightarrow> u16) (outcome_bind (c_cast (scast :: s64 \<Rightarrow> s32) (c_smod a (ucast b :: s64))) (\<lambda>i. if i <s 0 then (c_sadd i (ucast b :: s32)) else Ok i)))))
    | TU32 b \<Rightarrow> Some (goto_integer_reduce mp (tag_init_u32 (c_cast (scast :: s64 \<Rightarrow> u32) (outcome_bind (c_smod a (ucast b :: s64)) (\<lambda>i. if i <s 0 then (c_sadd i (ucast b :: s64)) else Ok i)))))
    | TU64 b \<Rightarrow> Some (goto_integer_reduce mp (tag_integer_checked (integer_mod mp (integer_init_sw mp a) (integer_init_u64 mp b))))
    | TUW b \<Rightarrow> Some (goto_integer_reduce mp (tag_integer_checked (integer_mod mp (integer_init_sw mp a) (integer_init_uw mp b))))
    | _ \<Rightarrow> None)"

definition tag_mod_u8 :: "mplib \<Rightarrow> u8 \<Rightarrow> tag \<Rightarrow> tag outcome option" where
  "tag_mod_u8 mp a b = (case b of
      TInteger b \<Rightarrow> Some (goto_integer_reduce mp (tag_integer_checked (integer_mod mp (integer_init_u8 mp a) b)))
    | TS8 b \<Rightarrow> Some (goto_integer_reduce mp (tag_init_s8 (c_cast (scast :: s16 \<Rightarrow> s8) (outcome_bind (c_cast (scast :: s32 \<Rightarrow> s16) (c_smod (ucast a :: s32) (scast b :: s32))) (\<lambda>i. if b <s 0 \<and> 0 <s i then (c_cast (scast :: s32 \<Rightarrow> s16) (c_sadd (scast i :: s32) (scast b :: s32))) else Ok i)))))
    | TS16 b \<Rightarrow> Some (goto_integer_reduce mp (tag_init_s16 (c_cast (scast :: s32 \<Rightarrow> s16) (outcome_bind (c_smod (ucast a :: s32) (scast b :: s32)) (\<lambda>i. if b <s 0 \<and> 0 <s i then (c_sadd i (scast b :: s32)) else Ok i)))))
    | TS32 b \<Rightarrow> Some (goto_integer_reduce mp (tag_init_s32 (c_cast (scast :: s64 \<Rightarrow> s32) (outcome_bind (c_cast (scast :: s32 \<Rightarrow> s64) (c_smod (ucast a :: s32) b)) (\<lambda>i. if b <s 0 \<and> 0 <s i then (c_sadd i (scast b :: s64)) else Ok i)))))
    | TS64 b \<Rightarrow> Some (goto_integer_reduce mp (tag_integer_checked (integer_mod mp (integer_init_u8 mp a) (integer_init_s64 mp b))))
    | TSW b \<Rightarrow> Some (goto_integer_reduce mp (tag_integer_checked (integer_mod mp (integer_init_u8 mp a) (integer_init_sw mp b))))
    | TU8 b \<Rightarrow> Some (goto_integer_reduce mp (tag_init_u8 (c_cast (scast :: s32 \<Rightarrow> u8) (c_smod (ucast a :: s32) (ucast b :: s32)))))
    | TU16 b \<Rightarrow> Some (goto_integer_reduce mp (tag_init_u8 (c_cast (scast :: s32 \<Rightarrow> u8) (c_smod (ucast a :: s32) (ucast b :: s32)))))
    | TU32 b \<Rightarrow> Some (goto_integer_reduce mp (tag_init_u8 (c_cast (ucast :: u32 \<Rightarrow> u8) (c_umod (ucast a :: u32) b))))
    | TU64 b \<Rightarrow> Some (goto_integer_reduce mp (tag_init_u8 (c_cast (ucast :: u64 \<Rightarrow> u8) (c_umod (ucast a :: u64) b))))
    | TUW b \<Rightarrow> Some (goto_integer_reduce mp (tag_init_u8 (c_cast (ucast :: u64 \<Rightarrow> u8) (c_umod (ucast a :: u64) b))))
    | _ \<Rightarrow> None)"

definition tag_mod_u16 :: "mplib \<Rightarrow> u16 \<Rightarrow> tag \<Rightarrow> tag outcome option" where
  "tag_mod_u16 mp a b = (case b of
      TInteger b \<Rightarrow> Some (goto_integer_reduce mp (tag_integer_checked (integer_mod mp (integer_init_u16 mp a) b)))
    | TS8 b \<Rightarrow> Some (goto_integer_reduce mp (tag_init_s8 (c_cast (scast :: s16 \<Rightarrow> s8) (outcome_bind (c_cast (scast :: s32 \<Rightarrow> s16) (c_smod (ucast a :: s32) (scast b :: s32))) (\<lambda>i. if b <s 0 \<and> 0 <s i then (c_cast (scast :: s32 \<Rightarrow> s16) (c_sadd (scast i :: s32) (scast b :: s32))) else Ok i)))))
    | TS16 b \<Rightarrow> Some (goto_integer_reduce mp (tag_init_s16 (c_cast (scast :: s32 \<Rightarrow> s16) (outcome_bind (c_smod (ucast a :: s32) (scast b :: s32)) (\<lambda>i. if b <s 0 \<and> 0 <s i then (c_sadd i (scast b :: s32)) else Ok i)))))
    | TS32 b \<Rightarrow> Some (goto_integer_reduce mp (tag_init_s32 (c_cast (scast :: s64 \<Rightarrow> s32) (outcome_bind (c_cast (scast :: s32 \<Rightarrow> s64) (c_smod (ucast a :: s32) b)) (\<lambda>i. if b <s 0 \<and> 0 <s i then (c_sadd i (scast b :: s64)) else Ok i)))))
    | TS64 b \<Rightarrow> Some (goto_integer_reduce mp (tag_integer_checked (integer_mod mp (integer_init_u16 mp a) (integer_init_s64 mp b))))
    | TSW b \<Rightarrow> Some (goto_integer_reduce mp (tag_integer_checked (integer_mod mp (integer_init_u16 mp a) (integer_init_sw mp b))))
    | TU8 b \<Rightarrow> Some (goto_integer_reduce mp (tag_init_u8 (c_cast (scast :: s32 \<Rightarrow> u8) (c_smod (ucast a :: s32) (ucast b :: s32)))))
    | TU16 b \<Rightarrow> Some (goto_integer_reduce mp (tag_init_u16 (c_cast (scast :: s32 \<Rightarrow> u16) (c_smod (ucast a :: s32) (ucast b :: s32)))))
    | TU32 b \<Rightarrow> Some (goto_integer_reduce mp (tag_init_u16 (c_cast (ucast :: u32 \<Rightarrow> u16) (c_umod (ucast a :: u32) b))))
    | TU64 b \<Rightarrow> Some (goto_integer_reduce mp (tag_init_u16 (c_cast (ucast :: u64 \<Rightarrow> u16) (c_umod (ucast a :: u64) b))))
    | TUW b \<Rightarrow> Some (goto_integer_reduce mp (tag_init_u16 (c_cast (ucast :: u64 \<Rightarrow> u16) (c_umod (ucast a :: u64) b))))
    | _ \<Rightarrow> None)"

definition tag_mod_u32 :: "mplib \<Rightarrow> u32 \<Rightarrow> tag \<Rightarrow> tag outcome option" where
  "tag_mod_u32 mp a b = (case b of
      TInteger b \<Rightarrow> Some (goto_integer_reduce mp (tag_integer_checked (integer_mod mp (integer_init_u32 mp a) b)))
    | TS8 b \<Rightarrow> Some (goto_integer_reduce mp (tag_init_s8 (c_cast (scast :: s64 \<Rightarrow> s8) (outcome_bind (c_smod (ucast a :: s64) (scast b :: s64)) (\<lambda>i. if b <s 0 \<and> 0 <s i then (c_sadd i (scast b :: s64)) else Ok i)))))
    | TS16 b \<Rightarrow> Some (goto_integer_reduce mp (tag_init_s16 (c_cast (scast :: s64 \<Rightarrow> s16) (outcome_bind (c_smod (ucast a :: s64) (scast b :: s64)) (\<lambda>i. if b <s 0 \<and> 0 <s i then (c_sadd i (scast b :: s64)) else Ok i)))))
    | TS32 b \<Rightarrow> Some (goto_integer_reduce mp (tag_init_s32 (c_cast (scast :: s64 \<Rightarrow> s32) (outcome_bind (c_smod (ucast a :: s64) (scast b :: s64)) (\<lambda>i. if b <s 0 \<and> 0 <s i then (c_sadd i (scast b :: s64)) else Ok i)))))
    | TS64 b \<Rightarrow> Some (goto_integer_reduce mp (tag_integer_checked (integer_mod mp (integer_init_u32 mp a) (integer_init_s64 mp b))))
    | TSW b \<Rightarrow> Some (goto_integer_reduce mp (tag_integer_checked (integer_mod mp (integer_init_u32 mp a) (integer_init_sw mp b))))
    | TU8 b \<Rightarrow> Some (goto_integer_reduce mp (tag_init_u8 (c_cast (ucast :: u32 \<Rightarrow> u8) (c_umod a (ucast b :: u32)))))
    | TU16 b \<Rightarrow> Some (goto_integer_reduce mp (tag_init_u16 (c_cast (ucast :: u32 \<Rightarrow> u16) (c_umod a (ucast b :: u32)))))
    | TU32 b \<Rightarrow> Some (goto_integer_reduce mp (tag_init_u32 (c_umod a b)))
    | TU64 b \<Rightarrow> Some (goto_integer_reduce mp (tag_init_u32 (c_cast (ucast :: u64 \<Rightarrow> u32) (c_umod (ucast a :: u64) b))))
    | TUW b \<Rightarrow> Some (goto_integer_reduce mp (tag_init_u32 (c_cast (ucast :: u64 \<Rightarrow> u32) (c_umod (ucast a :: u64) b))))
    | _ \<Rightarrow> None)"

definition tag_mod_u64 :: "mplib \<Rightarrow> u64 \<Rightarrow> tag \<Rightarrow> tag outcome option" where
  "tag_mod_u64 mp a b = (case b of
      TInteger b \<Rightarrow> Some (goto_integer_reduce mp (tag_integer_checked (integer_mod mp (integer_init_u64 mp a) b)))
    | TS8 b \<Rightarrow> Some (goto_integer_reduce mp (tag_integer_checked (integer_mod mp (integer_init_u64 mp a) (integer_init_s8 mp b))))
    | TS16 b \<Rightarrow> Some (goto_integer_reduce mp (tag_integer_checked (integer_mod mp (integer_init_u64 mp a) (integer_init_s16 mp b))))
    | TS32 b \<Rightarrow> Some (goto_integer_reduce mp (tag_integer_checked (integer_mod mp (integer_init_u64 mp a) (integer_init_s32 mp b))))
    | TS64 b \<Rightarrow> Some (goto_integer_reduce mp (tag_integer_checked (integer_mod mp (integer_init_u64 mp a) (integer_init_s64 mp b))))
    | TSW b \<Rightarrow> Some (goto_integer_reduce mp (tag_integer_checked (integer_mod mp (integer_init_u64 mp a) (integer_init_sw mp b))))
    | TU8 b \<Rightarrow> Some (goto_integer_reduce mp (tag_init_u8 (c_cast (ucast :: u64 \<Rightarrow> u8) (c_umod a (ucast b :: u64)))))
    | TU16 b \<Rightarrow> Some (goto_integer_reduce mp (tag_init_u16 (c_cast (ucast :: u64 \<Rightarrow> u16) (c_umod a (ucast b :: u64)))))
    | TU32 b \<Rightarrow> Some (goto_integer_reduce mp (tag_init_u32 (c_cast (ucast :: u64 \<Rightarrow> u32) (c_umod a (ucast b :: u64)))))
    | TU64 b \<Rightarrow> Some (goto_integer_reduce mp (tag_init_u64 (c_umod a b)))
    | TUW b \<Rightarrow> Some (goto_integer_reduce mp (tag_init_uw (c_umod a b)))
    | _ \<Rightarrow> None)"

definition tag_mod_uw :: "mplib \<Rightarrow> uw \<Rightarrow> tag \<Rightarrow> tag outcome option" where
  "tag_mod_uw mp a b = (case b of
      TInteger b \<Rightarrow> Some (goto_integer_reduce mp (tag_integer_checked (integer_mod mp (integer_init_uw mp a) b)))
    | TS8 b \<Rightarrow> Some (goto_integer_reduce mp (tag_integer_checked (integer_mod mp (integer_init_uw mp a) (integer_init_s8 mp b))))
    | TS16 b \<Rightarrow> Some (goto_integer_reduce mp (tag_integer_checked (integer_mod mp (integer_init_uw mp a) (integer_init_s16 mp b))))
    | TS32 b \<Rightarrow> Some (goto_integer_reduce mp (tag_integer_checked (integer_mod mp (integer_init_uw mp a) (integer_init_s32 mp b))))
    | TS64 b \<Rightarrow> Some (goto_integer_reduce mp (tag_integer_checked (integer_mod mp (integer_init_uw mp a) (integer_init_s64 mp b))))
    | TSW b \<Rightarrow> Some (goto_integer_reduce mp (tag_integer_checked (integer_mod mp (integer_init_uw mp a) (integer_init_sw mp b))))
    | TU8 b \<Rightarrow> Some (goto_integer_reduce mp (tag_init_u8 (c_cast (ucast :: u64 \<Rightarrow> u8) (c_umod a (ucast b :: u64)))))
    | TU16 b \<Rightarrow> Some (goto_integer_reduce mp (tag_init_u16 (c_cast (ucast :: u64 \<Rightarrow> u16) (c_umod a (ucast b :: u64)))))
    | TU32 b \<Rightarrow> Some (goto_integer_reduce mp (tag_init_u32 (c_cast (ucast :: u64 \<Rightarrow> u32) (c_umod a (ucast b :: u64)))))
    | TU64 b \<Rightarrow> Some (goto_integer_reduce mp (tag_init_uw (c_umod a b)))
    | TUW b \<Rightarrow> Some (goto_integer_reduce mp (tag_init_uw (c_umod a b)))
    | _ \<Rightarrow> None)"

definition tag_mod_switch :: "mplib \<Rightarrow> tag \<Rightarrow> tag \<Rightarrow> tag outcome option" where
  "tag_mod_switch mp a b = (case a of
      TInteger x \<Rightarrow> tag_mod_integer mp x b
    | TS8 x \<Rightarrow> tag_mod_s8 mp x b
    | TS16 x \<Rightarrow> tag_mod_s16 mp x b
    | TS32 x \<Rightarrow> tag_mod_s32 mp x b
    | TS64 x \<Rightarrow> tag_mod_s64 mp x b
    | TSW x \<Rightarrow> tag_mod_sw mp x b
    | TU8 x \<Rightarrow> tag_mod_u8 mp x b
    | TU16 x \<Rightarrow> tag_mod_u16 mp x b
    | TU32 x \<Rightarrow> tag_mod_u32 mp x b
    | TU64 x \<Rightarrow> tag_mod_u64 mp x b
    | TUW x \<Rightarrow> tag_mod_uw mp x b
    | _ \<Rightarrow> None)"

definition tag_mod :: "mplib \<Rightarrow> tag \<Rightarrow> tag \<Rightarrow> tag outcome option" where
  "tag_mod mp a b =
    (case (tag_divmod_fixed_value a, tag_divmod_fixed_value b) of
      (Some _, Some (b_magnitude, b_negative)) \<Rightarrow>
        if b_magnitude = 0 then Some Null
        else if b_negative \<and> b_magnitude = 1 then Some (Ok (TU8 0))
        else tag_mod_switch mp a b
    | _ \<Rightarrow> tag_mod_switch mp a b)"

section \<open>The remainder of a row\<close>

text \<open>Two signed machine integers use \<open>%\<close>; every other pair gives the sign of the divisor.\<close>

definition tag_signed :: "tag \<Rightarrow> bool" where
  "tag_signed t \<longleftrightarrow> tag_type t \<in> {12, 13, 14, 15, 16}"

definition mod_value :: "tag \<Rightarrow> tag \<Rightarrow> int \<Rightarrow> int \<Rightarrow> int" where
  "mod_value a b i j = (if tag_signed a \<and> tag_signed b then i smod j else i mod j)"

lemmas c_mod_simps = word_val c_sdiv_Ok c_udiv_Ok scast_of_int ucast_of_int scast_of_int_widen
  ucast_of_int_widen add_divisor_narrow add_divisor_same smod_nonneg

text \<open>Bounds of the two remainders, by the type of the divisor and by the type of the dividend.\<close>

lemma mod_facts:
  fixes i j :: int
  assumes "j \<noteq> 0" "tag_int b = Some j"
  shows "- tag_mag b < i smod j \<and> i smod j < tag_mag b"
    "- tag_mag b < i mod j \<and> i mod j < tag_mag b"
    "tag_unsigned b \<longrightarrow> 0 \<le> i mod j"
  using smod_bounds [OF assms(1), of i] mod_bounds [OF assms(1), of i]
    tag_unsigned_nonneg [OF assms(2)] tag_mag_abs [OF assms(2)] by auto

lemma smod_range: "j \<noteq> 0 \<Longrightarrow> - m \<le> i \<Longrightarrow> i < m \<Longrightarrow> - m \<le> i smod j \<and> i smod j < m" for i j m :: int
  using smod_bounds [of j i] by (cases "0 \<le> i") auto

lemma smod_range_nonneg: "j \<noteq> 0 \<Longrightarrow> 0 \<le> i \<Longrightarrow> i \<le> m \<Longrightarrow> 0 \<le> i smod j \<and> i smod j \<le> m" for i j m :: int
  using smod_bounds [of j i] by auto

lemma tag_mod_s8_val:
  assumes "mp_ok mp" "mp_total mp" "tag_int b = Some j" "j \<noteq> 0" "tag_type b = 10 \<or> j \<noteq> -1"
  shows "tag_mod_s8 mp a b = Some (Ok (reduced (mod_value (TS8 a) b (sint a) j)))"
proof -
  note [simp] = integer_div_mod_total [OF assms(1,2)] integer_init_val [OF assms(1)]
    integer_to_val [OF assms(1)] reduce_value [OF assms(1)] reduce_checked [OF assms(1)] c_mod_simps
  have "tag_type b \<noteq> 10 \<longrightarrow> - 128 \<le> sint a sdiv j \<and> sint a sdiv j < 128"
    "- 128 \<le> sint a smod j \<and> sint a smod j < 128"
    using assms(4,5) sdiv_range [of 128 "sint a" j] smod_range [of j 128 "sint a"] sint_range_bits [of a]
    by auto
  with mod_facts [OF assms(4,3), where i = "sint a"] tag_mag_bound [OF assms(3)] assms(3,4) show ?thesis
    by (cases b; simp only: tag_int.simps option.inject option.distinct)
       (hypsubst, simp add: tag_mod_s8_def mod_value_def tag_signed_def)+
qed

lemma tag_mod_s16_val:
  assumes "mp_ok mp" "mp_total mp" "tag_int b = Some j" "j \<noteq> 0" "tag_type b = 10 \<or> j \<noteq> -1"
  shows "tag_mod_s16 mp a b = Some (Ok (reduced (mod_value (TS16 a) b (sint a) j)))"
proof -
  note [simp] = integer_div_mod_total [OF assms(1,2)] integer_init_val [OF assms(1)]
    integer_to_val [OF assms(1)] reduce_value [OF assms(1)] reduce_checked [OF assms(1)] c_mod_simps
  have "tag_type b \<noteq> 10 \<longrightarrow> - 32768 \<le> sint a sdiv j \<and> sint a sdiv j < 32768"
    "- 32768 \<le> sint a smod j \<and> sint a smod j < 32768"
    using assms(4,5) sdiv_range [of 32768 "sint a" j] smod_range [of j 32768 "sint a"] sint_range_bits [of a]
    by auto
  with mod_facts [OF assms(4,3), where i = "sint a"] tag_mag_bound [OF assms(3)] assms(3,4) show ?thesis
    by (cases b; simp only: tag_int.simps option.inject option.distinct)
       (hypsubst, simp add: tag_mod_s16_def mod_value_def tag_signed_def)+
qed

lemma tag_mod_s32_val:
  assumes "mp_ok mp" "mp_total mp" "tag_int b = Some j" "j \<noteq> 0" "tag_type b = 10 \<or> j \<noteq> -1"
  shows "tag_mod_s32 mp a b = Some (Ok (reduced (mod_value (TS32 a) b (sint a) j)))"
proof -
  note [simp] = integer_div_mod_total [OF assms(1,2)] integer_init_val [OF assms(1)]
    integer_to_val [OF assms(1)] reduce_value [OF assms(1)] reduce_checked [OF assms(1)] c_mod_simps
  have "tag_type b \<noteq> 10 \<longrightarrow> - 2147483648 \<le> sint a sdiv j \<and> sint a sdiv j < 2147483648"
    "- 2147483648 \<le> sint a smod j \<and> sint a smod j < 2147483648"
    using assms(4,5) sdiv_range [of 2147483648 "sint a" j] smod_range [of j 2147483648 "sint a"] sint_range_bits [of a]
    by auto
  with mod_facts [OF assms(4,3), where i = "sint a"] tag_mag_bound [OF assms(3)] assms(3,4) show ?thesis
    by (cases b; simp only: tag_int.simps option.inject option.distinct)
       (hypsubst, simp add: tag_mod_s32_def mod_value_def tag_signed_def)+
qed

lemma tag_mod_s64_val:
  assumes "mp_ok mp" "mp_total mp" "tag_int b = Some j" "j \<noteq> 0" "tag_type b = 10 \<or> j \<noteq> -1"
  shows "tag_mod_s64 mp a b = Some (Ok (reduced (mod_value (TS64 a) b (sint a) j)))"
proof -
  note [simp] = integer_div_mod_total [OF assms(1,2)] integer_init_val [OF assms(1)]
    integer_to_val [OF assms(1)] reduce_value [OF assms(1)] reduce_checked [OF assms(1)] c_mod_simps
  have "tag_type b \<noteq> 10 \<longrightarrow> - 9223372036854775808 \<le> sint a sdiv j \<and> sint a sdiv j < 9223372036854775808"
    "- 9223372036854775808 \<le> sint a smod j \<and> sint a smod j < 9223372036854775808"
    using assms(4,5) sdiv_range [of 9223372036854775808 "sint a" j] smod_range [of j 9223372036854775808 "sint a"] sint_range_bits [of a]
    by auto
  with mod_facts [OF assms(4,3), where i = "sint a"] tag_mag_bound [OF assms(3)] assms(3,4) show ?thesis
    by (cases b; simp only: tag_int.simps option.inject option.distinct)
       (hypsubst, simp add: tag_mod_s64_def mod_value_def tag_signed_def)+
qed

lemma tag_mod_sw_val:
  assumes "mp_ok mp" "mp_total mp" "tag_int b = Some j" "j \<noteq> 0" "tag_type b = 10 \<or> j \<noteq> -1"
  shows "tag_mod_sw mp a b = Some (Ok (reduced (mod_value (TSW a) b (sint a) j)))"
proof -
  note [simp] = integer_div_mod_total [OF assms(1,2)] integer_init_val [OF assms(1)]
    integer_to_val [OF assms(1)] reduce_value [OF assms(1)] reduce_checked [OF assms(1)] c_mod_simps
  have "tag_type b \<noteq> 10 \<longrightarrow> - 9223372036854775808 \<le> sint a sdiv j \<and> sint a sdiv j < 9223372036854775808"
    "- 9223372036854775808 \<le> sint a smod j \<and> sint a smod j < 9223372036854775808"
    using assms(4,5) sdiv_range [of 9223372036854775808 "sint a" j] smod_range [of j 9223372036854775808 "sint a"] sint_range_bits [of a]
    by auto
  with mod_facts [OF assms(4,3), where i = "sint a"] tag_mag_bound [OF assms(3)] assms(3,4) show ?thesis
    by (cases b; simp only: tag_int.simps option.inject option.distinct)
       (hypsubst, simp add: tag_mod_sw_def mod_value_def tag_signed_def)+
qed

lemma tag_mod_u8_val:
  assumes "mp_ok mp" "mp_total mp" "tag_int b = Some j" "j \<noteq> 0"
  shows "tag_mod_u8 mp a b = Some (Ok (reduced (mod_value (TU8 a) b (uint a) j)))"
proof -
  note [simp] = integer_div_mod_total [OF assms(1,2)] integer_init_val [OF assms(1)]
    integer_to_val [OF assms(1)] reduce_value [OF assms(1)] reduce_checked [OF assms(1)] c_mod_simps
  have "- 255 \<le> uint a sdiv j \<and> uint a sdiv j \<le> 255" "0 \<le> uint a smod j \<and> uint a smod j \<le> 255"
    using assms(4) sdiv_range_nonneg [of "uint a" 255 j] smod_range_nonneg [of j "uint a" 255] uint_bounded [of a]
    by auto
  with mod_facts [OF assms(4,3), where i = "uint a"] tag_mag_bound [OF assms(3)] assms(3,4) show ?thesis
    by (cases b; simp only: tag_int.simps option.inject option.distinct)
       (hypsubst, simp add: tag_mod_u8_def mod_value_def tag_signed_def)+
qed

lemma tag_mod_u16_val:
  assumes "mp_ok mp" "mp_total mp" "tag_int b = Some j" "j \<noteq> 0"
  shows "tag_mod_u16 mp a b = Some (Ok (reduced (mod_value (TU16 a) b (uint a) j)))"
proof -
  note [simp] = integer_div_mod_total [OF assms(1,2)] integer_init_val [OF assms(1)]
    integer_to_val [OF assms(1)] reduce_value [OF assms(1)] reduce_checked [OF assms(1)] c_mod_simps
  have "- 65535 \<le> uint a sdiv j \<and> uint a sdiv j \<le> 65535" "0 \<le> uint a smod j \<and> uint a smod j \<le> 65535"
    using assms(4) sdiv_range_nonneg [of "uint a" 65535 j] smod_range_nonneg [of j "uint a" 65535] uint_bounded [of a]
    by auto
  with mod_facts [OF assms(4,3), where i = "uint a"] tag_mag_bound [OF assms(3)] assms(3,4) show ?thesis
    by (cases b; simp only: tag_int.simps option.inject option.distinct)
       (hypsubst, simp add: tag_mod_u16_def mod_value_def tag_signed_def)+
qed

lemma tag_mod_u32_val:
  assumes "mp_ok mp" "mp_total mp" "tag_int b = Some j" "j \<noteq> 0"
  shows "tag_mod_u32 mp a b = Some (Ok (reduced (mod_value (TU32 a) b (uint a) j)))"
proof -
  note [simp] = integer_div_mod_total [OF assms(1,2)] integer_init_val [OF assms(1)]
    integer_to_val [OF assms(1)] reduce_value [OF assms(1)] reduce_checked [OF assms(1)] c_mod_simps
  have "- 4294967295 \<le> uint a sdiv j \<and> uint a sdiv j \<le> 4294967295" "0 \<le> uint a smod j \<and> uint a smod j \<le> 4294967295"
    using assms(4) sdiv_range_nonneg [of "uint a" 4294967295 j] smod_range_nonneg [of j "uint a" 4294967295] uint_bounded [of a]
    by auto
  with mod_facts [OF assms(4,3), where i = "uint a"] tag_mag_bound [OF assms(3)] assms(3,4) show ?thesis
    by (cases b; simp only: tag_int.simps option.inject option.distinct)
       (hypsubst, simp add: tag_mod_u32_def mod_value_def tag_signed_def)+
qed

lemma tag_mod_u64_val:
  assumes "mp_ok mp" "mp_total mp" "tag_int b = Some j" "j \<noteq> 0"
  shows "tag_mod_u64 mp a b = Some (Ok (reduced (mod_value (TU64 a) b (uint a) j)))"
proof -
  note [simp] = integer_div_mod_total [OF assms(1,2)] integer_init_val [OF assms(1)]
    integer_to_val [OF assms(1)] reduce_value [OF assms(1)] reduce_checked [OF assms(1)] c_mod_simps
  have "- 18446744073709551615 \<le> uint a sdiv j \<and> uint a sdiv j \<le> 18446744073709551615" "0 \<le> uint a smod j \<and> uint a smod j \<le> 18446744073709551615"
    using assms(4) sdiv_range_nonneg [of "uint a" 18446744073709551615 j] smod_range_nonneg [of j "uint a" 18446744073709551615] uint_bounded [of a]
    by auto
  with mod_facts [OF assms(4,3), where i = "uint a"] tag_mag_bound [OF assms(3)] assms(3,4) show ?thesis
    by (cases b; simp only: tag_int.simps option.inject option.distinct)
       (hypsubst, simp add: tag_mod_u64_def mod_value_def tag_signed_def)+
qed

lemma tag_mod_uw_val:
  assumes "mp_ok mp" "mp_total mp" "tag_int b = Some j" "j \<noteq> 0"
  shows "tag_mod_uw mp a b = Some (Ok (reduced (mod_value (TUW a) b (uint a) j)))"
proof -
  note [simp] = integer_div_mod_total [OF assms(1,2)] integer_init_val [OF assms(1)]
    integer_to_val [OF assms(1)] reduce_value [OF assms(1)] reduce_checked [OF assms(1)] c_mod_simps
  have "- 18446744073709551615 \<le> uint a sdiv j \<and> uint a sdiv j \<le> 18446744073709551615" "0 \<le> uint a smod j \<and> uint a smod j \<le> 18446744073709551615"
    using assms(4) sdiv_range_nonneg [of "uint a" 18446744073709551615 j] smod_range_nonneg [of j "uint a" 18446744073709551615] uint_bounded [of a]
    by auto
  with mod_facts [OF assms(4,3), where i = "uint a"] tag_mag_bound [OF assms(3)] assms(3,4) show ?thesis
    by (cases b; simp only: tag_int.simps option.inject option.distinct)
       (hypsubst, simp add: tag_mod_uw_def mod_value_def tag_signed_def)+
qed

lemma tag_mod_integer_val:
  assumes "mp_ok mp" "mp_total mp" "tag_int b = Some j" "j \<noteq> 0"
  shows "tag_mod_integer mp a b = Some (Ok (reduced (mod_value (TInteger a) b a j)))"
proof -
  note [simp] = integer_div_mod_total [OF assms(1,2)] integer_init_val [OF assms(1)]
    integer_to_val [OF assms(1)] reduce_value [OF assms(1)] reduce_checked [OF assms(1)] c_mod_simps
  from mod_facts [OF assms(4,3), where i = a] assms(3,4) show ?thesis
    by (cases b; simp only: tag_int.simps option.inject option.distinct)
       (hypsubst, simp add: tag_mod_integer_def mod_value_def tag_signed_def)+
qed

section \<open>The function\<close>

lemma tag_mod_switch_val:
  assumes "mp_ok mp" "mp_total mp" "tag_int a = Some i" "tag_int b = Some j"
    and "j \<noteq> 0" "tag_type a = 10 \<or> tag_type b = 10 \<or> j \<noteq> -1"
  shows "tag_mod_switch mp a b = Some (Ok (reduced (mod_value a b i j)))"
  using assms(3,6) tag_mod_s8_val [OF assms(1,2,4,5)] tag_mod_s16_val [OF assms(1,2,4,5)]
    tag_mod_s32_val [OF assms(1,2,4,5)] tag_mod_s64_val [OF assms(1,2,4,5)]
    tag_mod_sw_val [OF assms(1,2,4,5)] tag_mod_u8_val [OF assms(1,2,4,5)]
    tag_mod_u16_val [OF assms(1,2,4,5)] tag_mod_u32_val [OF assms(1,2,4,5)]
    tag_mod_u64_val [OF assms(1,2,4,5)] tag_mod_uw_val [OF assms(1,2,4,5)]
    tag_mod_integer_val [OF assms(1,2,4,5)]
  by (cases a) (auto simp: tag_mod_switch_def)

lemma tag_mod_switch_zero:
  assumes "mp_ok mp" "mp_total mp" "tag_int a = Some i" "tag_int b = Some 0"
    and "tag_type a = 10 \<or> tag_type b = 10"
  shows "tag_mod_switch mp a b = Some Null"
proof (cases "tag_type a = 10")
  case True
  then obtain x where "a = TInteger x" using assms(3) by (cases a) simp_all
  with assms(4) integer_div_mod_total(2) [OF assms(1,2)] show ?thesis
    by (cases b) (simp_all add: tag_mod_switch_def tag_mod_integer_def integer_init_val [OF assms(1)])
next
  case False
  then have "b = TInteger 0" using assms(4,5) by (cases b) simp_all
  with assms(3) False integer_div_mod_total(2) [OF assms(1,2)] show ?thesis
    by (cases a) (simp_all add: tag_mod_switch_def tag_mod_s8_def tag_mod_s16_def tag_mod_s32_def
        tag_mod_s64_def tag_mod_sw_def tag_mod_u8_def tag_mod_u16_def tag_mod_u32_def
        tag_mod_u64_def tag_mod_uw_def)
qed

lemma tag_mod_check:
  assumes "tag_int a = Some i" "tag_int b = Some j"
  shows "tag_mod mp a b =
    (if tag_type a = 10 \<or> tag_type b = 10 then tag_mod_switch mp a b
     else if j = 0 then Some Null
     else if j = -1 then Some (Ok (TU8 0))
     else tag_mod_switch mp a b)"
  using fixed_value_val [OF assms(1)] fixed_value_val [OF assms(2)] magnitude_eq [OF assms(2)]
  by (auto simp: tag_mod_def)

lemma mod_value_minus_1: "mod_value a b i (- 1) = 0"
  by (simp add: mod_value_def signed_modulo_int_def)

text \<open>
  C19: the remainder of two integers of any types.  When libtommath behaves as documented and has
  memory, \<open>tag_mod\<close> returns NULL exactly for a zero divisor and otherwise a remainder of smaller
  magnitude than the divisor, in the smallest type that holds it, on every one of the 121 pairs of
  integer types.  The convention depends on the types, not only on the values: two signed machine
  integers give the remainder of C, with the sign of the dividend, every other pair the remainder
  with the sign of the divisor.
\<close>

theorem tag_mod_correct:
  assumes "mp_ok mp" "mp_total mp" "tag_int a = Some i" "tag_int b = Some j"
  shows "tag_mod mp a b = Some (if j = 0 then Null else Ok (reduced (mod_value a b i j)))"
proof (cases "j = 0")
  case True
  then show ?thesis
    using tag_mod_switch_zero [OF assms(1-3)] assms(4) by (simp add: tag_mod_check [OF assms(3,4)])
next
  case False
  with tag_mod_switch_val [OF assms False] mod_value_minus_1 show ?thesis
    by (auto simp: tag_mod_check [OF assms(3,4)] reduced_def)
qed

theorem tag_mod_correct_witness:
  "tag_mod mp_exact (TS8 (- 7)) (TS8 3) = Some (Ok (TS8 (- 1))) \<and>
   tag_mod mp_exact (TS8 (- 7)) (TU8 3) = Some (Ok (TU8 2)) \<and>
   tag_mod mp_exact (TS64 (- 7)) (TInteger 0) = Some Null"
  using tag_mod_correct [of mp_exact "TS8 (- 7)" "- 7" "TS8 3" 3]
    tag_mod_correct [of mp_exact "TS8 (- 7)" "- 7" "TU8 3" 3]
    tag_mod_correct [of mp_exact "TS64 (- 7)" "- 7" "TInteger 0" 0]
  by (simp add: reduced_def mod_value_def tag_signed_def signed_modulo_int_def)

end
