(* ===== verification/C_Bits.thy ===== *)
theory C_Bits
  imports C_Div
begin

unbundle bit_operations_syntax

text \<open>
  What the rows of tag\_band.c, tag\_bor.c and tag\_bxor.c share: a bitwise operator of C on two
  promoted operands acts on the two's complement representation of their values, whatever the
  conversions, and the result is the value itself as long as its type holds it.
\<close>

text \<open>The integer a call returns, whatever type holds it.\<close>

definition result_int :: "tag outcome option \<Rightarrow> int option" where
  "result_int r = (case r of Some (Ok t) \<Rightarrow> tag_int t | _ \<Rightarrow> None)"

section \<open>Operands\<close>

lemma word_bit_op:
  fixes x y :: "'a::len word"
  assumes "word_of_int i = x" "word_of_int j = y"
  shows "x AND y = word_of_int (i AND j)" "x OR y = word_of_int (i OR j)" "x XOR y = word_of_int (i XOR j)"
  using assms by (auto intro!: bit_word_eqI simp: bit_simps)

lemma word_bit_op_signed:
  fixes x y :: "'a::len word"
  assumes "word_of_int i = x"
  shows "x AND y = word_of_int (i AND sint y)" "x OR y = word_of_int (i OR sint y)"
    "x XOR y = word_of_int (i XOR sint y)"
  by (rule word_bit_op [OF assms], simp)+

lemma word_bit_op_unsigned:
  fixes x y :: "'a::len word"
  assumes "word_of_int i = x"
  shows "x AND y = word_of_int (i AND uint y)" "x OR y = word_of_int (i OR uint y)"
    "x XOR y = word_of_int (i XOR uint y)"
  by (rule word_bit_op [OF assms], simp)+

lemma cast_up:
  fixes x :: "'a::len word"
  shows "LENGTH('a) \<le> LENGTH('b::len) \<Longrightarrow> ucast (ucast x :: 'b word) = (ucast x :: 'c::len word)"
    "LENGTH('a) \<le> LENGTH('b) \<Longrightarrow> scast (scast x :: 'b word) = (scast x :: 'c word)"
    "LENGTH('a) < LENGTH('b) \<Longrightarrow> scast (ucast x :: 'b word) = (ucast x :: 'c word)"
proof -
  have u: "ucast y = (word_of_int (uint y) :: 'c word)" for y :: "'d::len word" by simp
  have s: "scast y = (word_of_int (sint y) :: 'c word)" for y :: "'d::len word" by simp
  show "LENGTH('a) \<le> LENGTH('b) \<Longrightarrow> ucast (ucast x :: 'b word) = (ucast x :: 'c word)"
    by (simp only: u [of "ucast x :: 'b word"] u [of x] uint_ucast_widen)
  show "LENGTH('a) \<le> LENGTH('b) \<Longrightarrow> scast (scast x :: 'b word) = (scast x :: 'c word)"
    by (simp only: s [of "scast x :: 'b word"] s [of x] sint_scast_widen)
  show "LENGTH('a) < LENGTH('b) \<Longrightarrow> scast (ucast x :: 'b word) = (ucast x :: 'c word)"
    by (simp only: s [of "ucast x :: 'b word"] u [of x] sint_ucast_widen)
qed

section \<open>Ranges\<close>

lemma signed_take_bit_op:
  fixes i j :: int
  shows "signed_take_bit n (i AND j) = signed_take_bit n i AND signed_take_bit n j"
    "signed_take_bit n (i OR j) = signed_take_bit n i OR signed_take_bit n j"
    "signed_take_bit n (i XOR j) = signed_take_bit n i XOR signed_take_bit n j"
  by (auto intro!: bit_eqI simp: bit_simps)

lemma signed_bit_range:
  fixes i j :: int
  assumes "- (2 ^ n) \<le> i \<and> i < 2 ^ n" "- (2 ^ n) \<le> j \<and> j < 2 ^ n"
  shows "- (2 ^ n) \<le> i AND j \<and> i AND j < 2 ^ n" "- (2 ^ n) \<le> i OR j \<and> i OR j < 2 ^ n"
    "- (2 ^ n) \<le> i XOR j \<and> i XOR j < 2 ^ n"
proof -
  have *: "signed_take_bit n k = k \<longleftrightarrow> - (2 ^ n) \<le> k \<and> k < 2 ^ n" for k :: int
    by (rule signed_take_bit_int_eq_self_iff)
  then have "signed_take_bit n i = i" "signed_take_bit n j = j" using assms by blast+
  then show "- (2 ^ n) \<le> i AND j \<and> i AND j < 2 ^ n" "- (2 ^ n) \<le> i OR j \<and> i OR j < 2 ^ n"
    "- (2 ^ n) \<le> i XOR j \<and> i XOR j < 2 ^ n"
    unfolding * [symmetric] signed_take_bit_op by simp_all
qed

lemma unsigned_bit_range:
  fixes i j :: int
  assumes "0 \<le> i \<and> i < 2 ^ n" "0 \<le> j \<and> j < 2 ^ n"
  shows "0 \<le> i OR j \<and> i OR j < 2 ^ n" "0 \<le> i XOR j \<and> i XOR j < 2 ^ n"
proof -
  have *: "take_bit n k = k \<longleftrightarrow> 0 \<le> k \<and> k < 2 ^ n" for k :: int
    by (rule take_bit_int_eq_self_iff)
  then have "take_bit n i = i" "take_bit n j = j" using assms by blast+
  then show "0 \<le> i OR j \<and> i OR j < 2 ^ n" "0 \<le> i XOR j \<and> i XOR j < 2 ^ n"
    unfolding * [symmetric] take_bit_or take_bit_xor by simp_all
qed

lemma and_range:
  fixes i j :: int
  shows "0 \<le> i \<and> i < m \<Longrightarrow> 0 \<le> i AND j \<and> i AND j < m" "0 \<le> j \<and> j < m \<Longrightarrow> 0 \<le> i AND j \<and> i AND j < m"
  using AND_upper1 [of i j] AND_upper2 [of j i] by (auto simp: ac_simps)

section \<open>Results\<close>

text \<open>\<open>in_s n v\<close> and \<open>in_u n v\<close>: the value fits a signed or an unsigned type of \<open>n\<close> bits.\<close>

definition in_s :: "nat \<Rightarrow> int \<Rightarrow> bool" where
  "in_s n v \<longleftrightarrow> - (2 ^ (n - 1)) \<le> v \<and> v < 2 ^ (n - 1)"

definition in_u :: "nat \<Rightarrow> int \<Rightarrow> bool" where
  "in_u n v \<longleftrightarrow> 0 \<le> v \<and> v < 2 ^ n"

lemma result_int_init:
  "in_s 8 v \<Longrightarrow> result_int (Some (tag_init_s8 (Ok (word_of_int v)))) = Some v"
  "in_s 16 v \<Longrightarrow> result_int (Some (tag_init_s16 (Ok (word_of_int v)))) = Some v"
  "in_s 32 v \<Longrightarrow> result_int (Some (tag_init_s32 (Ok (word_of_int v)))) = Some v"
  "in_s 64 v \<Longrightarrow> result_int (Some (tag_init_s64 (Ok (word_of_int v)))) = Some v"
  "in_s 64 v \<Longrightarrow> result_int (Some (tag_init_sw (Ok (word_of_int v)))) = Some v"
  "in_u 8 v \<Longrightarrow> result_int (Some (tag_init_u8 (Ok (word_of_int v)))) = Some v"
  "in_u 16 v \<Longrightarrow> result_int (Some (tag_init_u16 (Ok (word_of_int v)))) = Some v"
  "in_u 32 v \<Longrightarrow> result_int (Some (tag_init_u32 (Ok (word_of_int v)))) = Some v"
  "in_u 64 v \<Longrightarrow> result_int (Some (tag_init_u64 (Ok (word_of_int v)))) = Some v"
  "in_u 64 v \<Longrightarrow> result_int (Some (tag_init_uw (Ok (word_of_int v)))) = Some v"
  "result_int (Some (tag_init_integer (Some v))) = Some v"
  by (simp_all add: result_int_def tag_init_s8_def tag_init_s16_def tag_init_s32_def tag_init_s64_def
      tag_init_sw_def tag_init_u8_def tag_init_u16_def tag_init_u32_def tag_init_u64_def
      tag_init_uw_def tag_init_integer_def in_s_def in_u_def sint_of_int_in_range uint_of_int_in_range)

lemma result_int_reduce:
  "mp_ok mp \<Longrightarrow> result_int (Some r) = Some v \<Longrightarrow> result_int (Some (goto_integer_reduce mp r)) = Some v"
  by (cases r) (simp_all add: result_int_def goto_integer_reduce_def tag_integer_reduce_reduced)

lemma in_s_bits:
  "in_s n i \<Longrightarrow> in_s n j \<Longrightarrow> in_s n (i AND j)" "in_s n i \<Longrightarrow> in_s n j \<Longrightarrow> in_s n (i OR j)"
  "in_s n i \<Longrightarrow> in_s n j \<Longrightarrow> in_s n (i XOR j)"
  using signed_bit_range [of "n - 1" i j] by (simp_all add: in_s_def)

lemma in_u_bits:
  "in_u n i \<Longrightarrow> in_u n (i AND j)" "in_u n j \<Longrightarrow> in_u n (i AND j)"
  "in_u n i \<Longrightarrow> in_u n j \<Longrightarrow> in_u n (i OR j)" "in_u n i \<Longrightarrow> in_u n j \<Longrightarrow> in_u n (i XOR j)"
  using unsigned_bit_range [of i n j] and_range [of i "2 ^ n" j] and_range [of j "2 ^ n" i]
  by (auto simp: in_u_def ac_simps)

lemma ucast_in_u: "in_u LENGTH('a) v \<Longrightarrow> ucast (word_of_int v :: 'a::len word) = word_of_int v"
  by (simp add: in_u_def ucast_of_int_widen)

lemma in_s_word: "LENGTH('a) \<le> n \<Longrightarrow> in_s n (sint x)" for x :: "'a::len word"
proof -
  assume "LENGTH('a) \<le> n"
  then have "(2 :: int) ^ (LENGTH('a) - 1) \<le> 2 ^ (n - 1)" by (intro power_increasing) auto
  then show ?thesis using sint_range_bits [of x] unfolding in_s_def by linarith
qed

lemma in_u_word: "LENGTH('a) \<le> n \<Longrightarrow> in_u n (uint x)" for x :: "'a::len word"
proof -
  assume "LENGTH('a) \<le> n"
  then have "(2 :: int) ^ LENGTH('a) \<le> 2 ^ n" by (intro power_increasing) auto
  then show ?thesis using uint_bounded [of x] uint_ge_0 [of x] unfolding in_u_def by linarith
qed

lemma in_s_uword: "LENGTH('a) < n \<Longrightarrow> in_s n (uint x)" for x :: "'a::len word"
proof -
  assume "LENGTH('a) < n"
  then have "uint x < 2 ^ (n - 1)" using in_u_word [of "n - 1" x] by (simp add: in_u_def)
  moreover have "- (2 ^ (n - 1)) \<le> (0 :: int)" by simp
  ultimately show ?thesis using uint_ge_0 [of x] unfolding in_s_def by linarith
qed

lemma integer_to_in:
  assumes "mp_ok mp"
  shows "in_s 64 v \<Longrightarrow> integer_to_sw mp v = word_of_int v"
    "in_u 8 v \<Longrightarrow> integer_to_u8 mp v = word_of_int v" "in_u 16 v \<Longrightarrow> integer_to_u16 mp v = word_of_int v"
    "in_u 32 v \<Longrightarrow> integer_to_u32 mp v = word_of_int v" "in_u 64 v \<Longrightarrow> integer_to_u64 mp v = word_of_int v"
    "in_u 64 v \<Longrightarrow> integer_to_uw mp v = word_of_int v"
  by (simp_all add: in_s_def in_u_def integer_to_val [OF assms])

lemmas c_bit_simps = word_val scast_of_int ucast_of_int ucast_in_u cast_up result_int_init in_s_bits in_u_bits
  in_s_word in_u_word in_s_uword

end
