(* ===== verification/Tag_And.thy ===== *)
theory Tag_And
  imports C_Bits
begin

unbundle bit_operations_syntax

text \<open>
  tag\_band.c: one definition per row of the switch, \<open>None\<close> where the second operand is not an
  integer.  The bitwise operations exist on integers only.
\<close>

definition tag_band_integer :: "mplib \<Rightarrow> int \<Rightarrow> tag \<Rightarrow> tag outcome option" where
  "tag_band_integer mp a b = (case b of
      TInteger b \<Rightarrow> Some (goto_integer_reduce mp (tag_init_integer (integer_band mp a b)))
    | TS8 b \<Rightarrow> Some (goto_integer_reduce mp (tag_init_integer (integer_band mp a (integer_init_s8 mp b))))
    | TS16 b \<Rightarrow> Some (goto_integer_reduce mp (tag_init_integer (integer_band mp a (integer_init_s16 mp b))))
    | TS32 b \<Rightarrow> Some (goto_integer_reduce mp (tag_init_integer (integer_band mp a (integer_init_s32 mp b))))
    | TS64 b \<Rightarrow> Some (goto_integer_reduce mp (tag_init_integer (integer_band mp a (integer_init_s64 mp b))))
    | TSW b \<Rightarrow> Some (goto_integer_reduce mp (tag_init_integer (integer_band mp a (integer_init_sw mp b))))
    | TU8 b \<Rightarrow> Some (goto_integer_reduce mp (tag_init_integer (integer_band mp a (integer_init_u8 mp b))))
    | TU16 b \<Rightarrow> Some (goto_integer_reduce mp (tag_init_integer (integer_band mp a (integer_init_u16 mp b))))
    | TU32 b \<Rightarrow> Some (goto_integer_reduce mp (tag_init_integer (integer_band mp a (integer_init_u32 mp b))))
    | TU64 b \<Rightarrow> Some (goto_integer_reduce mp (tag_init_integer (integer_band mp a (integer_init_u64 mp b))))
    | TUW b \<Rightarrow> Some (goto_integer_reduce mp (tag_init_integer (integer_band mp a (integer_init_uw mp b))))
    | _ \<Rightarrow> None)"

definition tag_band_s8 :: "mplib \<Rightarrow> s8 \<Rightarrow> tag \<Rightarrow> tag outcome option" where
  "tag_band_s8 mp a b = (case b of
      TInteger b \<Rightarrow> Some (goto_integer_reduce mp (tag_init_integer (integer_band mp (integer_init_s8 mp a) b)))
    | TS8 b \<Rightarrow> Some (goto_integer_reduce mp (tag_init_s8 (Ok (scast ((scast a :: s32) AND (scast b :: s32)) :: s8))))
    | TS16 b \<Rightarrow> Some (goto_integer_reduce mp (tag_init_s16 (Ok (scast ((scast a :: s32) AND (scast b :: s32)) :: s16))))
    | TS32 b \<Rightarrow> Some (goto_integer_reduce mp (tag_init_s32 (Ok ((scast a :: s32) AND b))))
    | TS64 b \<Rightarrow> Some (goto_integer_reduce mp (tag_init_s64 (Ok ((scast a :: s64) AND b))))
    | TSW b \<Rightarrow> Some (goto_integer_reduce mp (tag_init_sw (Ok ((scast a :: s64) AND b))))
    | TU8 b \<Rightarrow> Some (goto_integer_reduce mp (tag_init_s16 (Ok (scast ((scast a :: s32) AND (ucast b :: s32)) :: s16))))
    | TU16 b \<Rightarrow> Some (goto_integer_reduce mp (tag_init_s32 (Ok ((scast a :: s32) AND (ucast b :: s32)))))
    | TU32 b \<Rightarrow> Some (goto_integer_reduce mp (tag_init_s64 (Ok (ucast ((scast a :: u32) AND b) :: s64))))
    | TU64 b \<Rightarrow> Some (goto_integer_reduce mp (tag_init_integer (integer_band mp (integer_init_s8 mp a) (integer_init_u64 mp b))))
    | TUW b \<Rightarrow> Some (goto_integer_reduce mp (tag_init_integer (integer_band mp (integer_init_s8 mp a) (integer_init_uw mp b))))
    | _ \<Rightarrow> None)"

definition tag_band_s16 :: "mplib \<Rightarrow> s16 \<Rightarrow> tag \<Rightarrow> tag outcome option" where
  "tag_band_s16 mp a b = (case b of
      TInteger b \<Rightarrow> Some (goto_integer_reduce mp (tag_init_integer (integer_band mp (integer_init_s16 mp a) b)))
    | TS8 b \<Rightarrow> Some (goto_integer_reduce mp (tag_init_s16 (Ok (scast ((scast a :: s32) AND (scast b :: s32)) :: s16))))
    | TS16 b \<Rightarrow> Some (goto_integer_reduce mp (tag_init_s16 (Ok (scast ((scast a :: s32) AND (scast b :: s32)) :: s16))))
    | TS32 b \<Rightarrow> Some (goto_integer_reduce mp (tag_init_s32 (Ok ((scast a :: s32) AND b))))
    | TS64 b \<Rightarrow> Some (goto_integer_reduce mp (tag_init_s64 (Ok ((scast a :: s64) AND b))))
    | TSW b \<Rightarrow> Some (goto_integer_reduce mp (tag_init_sw (Ok ((scast a :: s64) AND b))))
    | TU8 b \<Rightarrow> Some (goto_integer_reduce mp (tag_init_s16 (Ok (scast ((scast a :: s32) AND (ucast b :: s32)) :: s16))))
    | TU16 b \<Rightarrow> Some (goto_integer_reduce mp (tag_init_s32 (Ok ((scast a :: s32) AND (ucast b :: s32)))))
    | TU32 b \<Rightarrow> Some (goto_integer_reduce mp (tag_init_s64 (Ok (ucast ((scast a :: u32) AND b) :: s64))))
    | TU64 b \<Rightarrow> Some (goto_integer_reduce mp (tag_init_integer (integer_band mp (integer_init_s16 mp a) (integer_init_u64 mp b))))
    | TUW b \<Rightarrow> Some (goto_integer_reduce mp (tag_init_integer (integer_band mp (integer_init_s16 mp a) (integer_init_uw mp b))))
    | _ \<Rightarrow> None)"

definition tag_band_s32 :: "mplib \<Rightarrow> s32 \<Rightarrow> tag \<Rightarrow> tag outcome option" where
  "tag_band_s32 mp a b = (case b of
      TInteger b \<Rightarrow> Some (goto_integer_reduce mp (tag_init_integer (integer_band mp (integer_init_s32 mp a) b)))
    | TS8 b \<Rightarrow> Some (goto_integer_reduce mp (tag_init_s32 (Ok (a AND (scast b :: s32)))))
    | TS16 b \<Rightarrow> Some (goto_integer_reduce mp (tag_init_s32 (Ok (a AND (scast b :: s32)))))
    | TS32 b \<Rightarrow> Some (goto_integer_reduce mp (tag_init_s32 (Ok (a AND b))))
    | TS64 b \<Rightarrow> Some (goto_integer_reduce mp (tag_init_s64 (Ok ((scast a :: s64) AND b))))
    | TSW b \<Rightarrow> Some (goto_integer_reduce mp (tag_init_sw (Ok ((scast a :: s64) AND b))))
    | TU8 b \<Rightarrow> Some (goto_integer_reduce mp (tag_init_s32 (Ok (a AND (ucast b :: s32)))))
    | TU16 b \<Rightarrow> Some (goto_integer_reduce mp (tag_init_s32 (Ok (a AND (ucast b :: s32)))))
    | TU32 b \<Rightarrow> Some (goto_integer_reduce mp (tag_init_s64 (Ok (ucast (a AND b) :: s64))))
    | TU64 b \<Rightarrow> Some (goto_integer_reduce mp (tag_init_integer (integer_band mp (integer_init_s32 mp a) (integer_init_u64 mp b))))
    | TUW b \<Rightarrow> Some (goto_integer_reduce mp (tag_init_integer (integer_band mp (integer_init_s32 mp a) (integer_init_uw mp b))))
    | _ \<Rightarrow> None)"

definition tag_band_s64 :: "mplib \<Rightarrow> s64 \<Rightarrow> tag \<Rightarrow> tag outcome option" where
  "tag_band_s64 mp a b = (case b of
      TInteger b \<Rightarrow> Some (goto_integer_reduce mp (tag_init_integer (integer_band mp (integer_init_s64 mp a) b)))
    | TS8 b \<Rightarrow> Some (goto_integer_reduce mp (tag_init_s64 (Ok (a AND (scast b :: s64)))))
    | TS16 b \<Rightarrow> Some (goto_integer_reduce mp (tag_init_s64 (Ok (a AND (scast b :: s64)))))
    | TS32 b \<Rightarrow> Some (goto_integer_reduce mp (tag_init_s64 (Ok (a AND (scast b :: s64)))))
    | TS64 b \<Rightarrow> Some (goto_integer_reduce mp (tag_init_s64 (Ok (a AND b))))
    | TSW b \<Rightarrow> Some (goto_integer_reduce mp (tag_init_s64 (Ok (a AND b))))
    | TU8 b \<Rightarrow> Some (goto_integer_reduce mp (tag_init_s64 (Ok (a AND (ucast b :: s64)))))
    | TU16 b \<Rightarrow> Some (goto_integer_reduce mp (tag_init_s64 (Ok (a AND (ucast b :: s64)))))
    | TU32 b \<Rightarrow> Some (goto_integer_reduce mp (tag_init_s64 (Ok (a AND (ucast b :: s64)))))
    | TU64 b \<Rightarrow> Some (goto_integer_reduce mp (tag_init_integer (integer_band mp (integer_init_s64 mp a) (integer_init_u64 mp b))))
    | TUW b \<Rightarrow> Some (goto_integer_reduce mp (tag_init_integer (integer_band mp (integer_init_s64 mp a) (integer_init_uw mp b))))
    | _ \<Rightarrow> None)"

definition tag_band_sw :: "mplib \<Rightarrow> sw \<Rightarrow> tag \<Rightarrow> tag outcome option" where
  "tag_band_sw mp a b = (case b of
      TInteger b \<Rightarrow> Some (case (integer_band mp (integer_init_sw mp a) b) of None \<Rightarrow> Undef | Some tmp2 \<Rightarrow> goto_integer_reduce mp (tag_init_sw (Ok (integer_to_sw mp tmp2))))
    | TS8 b \<Rightarrow> Some (goto_integer_reduce mp (tag_init_sw (Ok (a AND (scast b :: s64)))))
    | TS16 b \<Rightarrow> Some (goto_integer_reduce mp (tag_init_sw (Ok (a AND (scast b :: s64)))))
    | TS32 b \<Rightarrow> Some (goto_integer_reduce mp (tag_init_sw (Ok (a AND (scast b :: s64)))))
    | TS64 b \<Rightarrow> Some (goto_integer_reduce mp (tag_init_sw (Ok (a AND b))))
    | TSW b \<Rightarrow> Some (goto_integer_reduce mp (tag_init_sw (Ok (a AND b))))
    | TU8 b \<Rightarrow> Some (goto_integer_reduce mp (tag_init_sw (Ok (a AND (ucast b :: s64)))))
    | TU16 b \<Rightarrow> Some (goto_integer_reduce mp (tag_init_sw (Ok (a AND (ucast b :: s64)))))
    | TU32 b \<Rightarrow> Some (goto_integer_reduce mp (tag_init_sw (Ok (a AND (ucast b :: s64)))))
    | TU64 b \<Rightarrow> Some (goto_integer_reduce mp (tag_init_sw (Ok (a AND b))))
    | TUW b \<Rightarrow> Some (goto_integer_reduce mp (tag_init_sw (Ok (a AND b))))
    | _ \<Rightarrow> None)"

definition tag_band_u8 :: "mplib \<Rightarrow> u8 \<Rightarrow> tag \<Rightarrow> tag outcome option" where
  "tag_band_u8 mp a b = (case b of
      TInteger b \<Rightarrow> Some (case (integer_band mp (integer_init_u8 mp a) b) of None \<Rightarrow> Undef | Some tmp2 \<Rightarrow> goto_integer_reduce mp (tag_init_u8 (Ok (integer_to_u8 mp tmp2))))
    | TS8 b \<Rightarrow> Some (goto_integer_reduce mp (tag_init_u8 (Ok (scast ((ucast a :: s32) AND (scast b :: s32)) :: u8))))
    | TS16 b \<Rightarrow> Some (goto_integer_reduce mp (tag_init_u8 (Ok (scast ((ucast a :: s32) AND (scast b :: s32)) :: u8))))
    | TS32 b \<Rightarrow> Some (goto_integer_reduce mp (tag_init_u8 (Ok (scast ((ucast a :: s32) AND b) :: u8))))
    | TS64 b \<Rightarrow> Some (goto_integer_reduce mp (tag_init_u8 (Ok (scast ((ucast a :: s64) AND b) :: u8))))
    | TSW b \<Rightarrow> Some (goto_integer_reduce mp (tag_init_u8 (Ok (scast ((ucast a :: s64) AND b) :: u8))))
    | TU8 b \<Rightarrow> Some (goto_integer_reduce mp (tag_init_u8 (Ok (scast ((ucast a :: s32) AND (ucast b :: s32)) :: u8))))
    | TU16 b \<Rightarrow> Some (goto_integer_reduce mp (tag_init_u8 (Ok (scast ((ucast a :: s32) AND (ucast b :: s32)) :: u8))))
    | TU32 b \<Rightarrow> Some (goto_integer_reduce mp (tag_init_u8 (Ok (ucast ((ucast a :: u32) AND b) :: u8))))
    | TU64 b \<Rightarrow> Some (goto_integer_reduce mp (tag_init_u8 (Ok (ucast ((ucast a :: u64) AND b) :: u8))))
    | TUW b \<Rightarrow> Some (goto_integer_reduce mp (tag_init_u8 (Ok (ucast ((ucast a :: u64) AND b) :: u8))))
    | _ \<Rightarrow> None)"

definition tag_band_u16 :: "mplib \<Rightarrow> u16 \<Rightarrow> tag \<Rightarrow> tag outcome option" where
  "tag_band_u16 mp a b = (case b of
      TInteger b \<Rightarrow> Some (case (integer_band mp (integer_init_u16 mp a) b) of None \<Rightarrow> Undef | Some tmp2 \<Rightarrow> goto_integer_reduce mp (tag_init_u16 (Ok (integer_to_u16 mp tmp2))))
    | TS8 b \<Rightarrow> Some (goto_integer_reduce mp (tag_init_u16 (Ok (scast ((ucast a :: s32) AND (scast b :: s32)) :: u16))))
    | TS16 b \<Rightarrow> Some (goto_integer_reduce mp (tag_init_u16 (Ok (scast ((ucast a :: s32) AND (scast b :: s32)) :: u16))))
    | TS32 b \<Rightarrow> Some (goto_integer_reduce mp (tag_init_u16 (Ok (scast ((ucast a :: s32) AND b) :: u16))))
    | TS64 b \<Rightarrow> Some (goto_integer_reduce mp (tag_init_u16 (Ok (scast ((ucast a :: s64) AND b) :: u16))))
    | TSW b \<Rightarrow> Some (goto_integer_reduce mp (tag_init_u16 (Ok (scast ((ucast a :: s64) AND b) :: u16))))
    | TU8 b \<Rightarrow> Some (goto_integer_reduce mp (tag_init_u16 (Ok (scast ((ucast a :: s32) AND (ucast b :: s32)) :: u16))))
    | TU16 b \<Rightarrow> Some (goto_integer_reduce mp (tag_init_u16 (Ok (scast ((ucast a :: s32) AND (ucast b :: s32)) :: u16))))
    | TU32 b \<Rightarrow> Some (goto_integer_reduce mp (tag_init_u16 (Ok (ucast ((ucast a :: u32) AND b) :: u16))))
    | TU64 b \<Rightarrow> Some (goto_integer_reduce mp (tag_init_u16 (Ok (ucast ((ucast a :: u64) AND b) :: u16))))
    | TUW b \<Rightarrow> Some (goto_integer_reduce mp (tag_init_u16 (Ok (ucast ((ucast a :: u64) AND b) :: u16))))
    | _ \<Rightarrow> None)"

definition tag_band_u32 :: "mplib \<Rightarrow> u32 \<Rightarrow> tag \<Rightarrow> tag outcome option" where
  "tag_band_u32 mp a b = (case b of
      TInteger b \<Rightarrow> Some (case (integer_band mp (integer_init_u32 mp a) b) of None \<Rightarrow> Undef | Some tmp2 \<Rightarrow> goto_integer_reduce mp (tag_init_u32 (Ok (integer_to_u32 mp tmp2))))
    | TS8 b \<Rightarrow> Some (goto_integer_reduce mp (tag_init_u32 (Ok (a AND (scast b :: u32)))))
    | TS16 b \<Rightarrow> Some (goto_integer_reduce mp (tag_init_u32 (Ok (a AND (scast b :: u32)))))
    | TS32 b \<Rightarrow> Some (goto_integer_reduce mp (tag_init_u32 (Ok (a AND b))))
    | TS64 b \<Rightarrow> Some (goto_integer_reduce mp (tag_init_u32 (Ok (scast ((ucast a :: s64) AND b) :: u32))))
    | TSW b \<Rightarrow> Some (goto_integer_reduce mp (tag_init_u32 (Ok (scast ((ucast a :: s64) AND b) :: u32))))
    | TU8 b \<Rightarrow> Some (goto_integer_reduce mp (tag_init_u32 (Ok (a AND (ucast b :: u32)))))
    | TU16 b \<Rightarrow> Some (goto_integer_reduce mp (tag_init_u32 (Ok (a AND (ucast b :: u32)))))
    | TU32 b \<Rightarrow> Some (goto_integer_reduce mp (tag_init_u32 (Ok (a AND b))))
    | TU64 b \<Rightarrow> Some (goto_integer_reduce mp (tag_init_u32 (Ok (ucast ((ucast a :: u64) AND b) :: u32))))
    | TUW b \<Rightarrow> Some (goto_integer_reduce mp (tag_init_u32 (Ok (ucast ((ucast a :: u64) AND b) :: u32))))
    | _ \<Rightarrow> None)"

definition tag_band_u64 :: "mplib \<Rightarrow> u64 \<Rightarrow> tag \<Rightarrow> tag outcome option" where
  "tag_band_u64 mp a b = (case b of
      TInteger b \<Rightarrow> Some (case (integer_band mp (integer_init_u64 mp a) b) of None \<Rightarrow> Undef | Some tmp2 \<Rightarrow> goto_integer_reduce mp (tag_init_u64 (Ok (integer_to_u64 mp tmp2))))
    | TS8 b \<Rightarrow> Some (goto_integer_reduce mp (tag_init_u64 (Ok (a AND (scast b :: u64)))))
    | TS16 b \<Rightarrow> Some (goto_integer_reduce mp (tag_init_u64 (Ok (a AND (scast b :: u64)))))
    | TS32 b \<Rightarrow> Some (goto_integer_reduce mp (tag_init_u64 (Ok (a AND (scast b :: u64)))))
    | TS64 b \<Rightarrow> Some (goto_integer_reduce mp (tag_init_u64 (Ok (a AND b))))
    | TSW b \<Rightarrow> Some (goto_integer_reduce mp (tag_init_u64 (Ok (a AND b))))
    | TU8 b \<Rightarrow> Some (goto_integer_reduce mp (tag_init_u64 (Ok (a AND (ucast b :: u64)))))
    | TU16 b \<Rightarrow> Some (goto_integer_reduce mp (tag_init_u64 (Ok (a AND (ucast b :: u64)))))
    | TU32 b \<Rightarrow> Some (goto_integer_reduce mp (tag_init_u64 (Ok (a AND (ucast b :: u64)))))
    | TU64 b \<Rightarrow> Some (goto_integer_reduce mp (tag_init_u64 (Ok (a AND b))))
    | TUW b \<Rightarrow> Some (goto_integer_reduce mp (tag_init_u64 (Ok (a AND b))))
    | _ \<Rightarrow> None)"

definition tag_band_uw :: "mplib \<Rightarrow> uw \<Rightarrow> tag \<Rightarrow> tag outcome option" where
  "tag_band_uw mp a b = (case b of
      TInteger b \<Rightarrow> Some (case (integer_band mp (integer_init_uw mp a) b) of None \<Rightarrow> Undef | Some tmp2 \<Rightarrow> goto_integer_reduce mp (tag_init_uw (Ok (integer_to_uw mp tmp2))))
    | TS8 b \<Rightarrow> Some (goto_integer_reduce mp (tag_init_uw (Ok (a AND (scast b :: u64)))))
    | TS16 b \<Rightarrow> Some (goto_integer_reduce mp (tag_init_uw (Ok (a AND (scast b :: u64)))))
    | TS32 b \<Rightarrow> Some (goto_integer_reduce mp (tag_init_uw (Ok (a AND (scast b :: u64)))))
    | TS64 b \<Rightarrow> Some (goto_integer_reduce mp (tag_init_uw (Ok (a AND b))))
    | TSW b \<Rightarrow> Some (goto_integer_reduce mp (tag_init_uw (Ok (a AND b))))
    | TU8 b \<Rightarrow> Some (goto_integer_reduce mp (tag_init_uw (Ok (a AND (ucast b :: u64)))))
    | TU16 b \<Rightarrow> Some (goto_integer_reduce mp (tag_init_uw (Ok (a AND (ucast b :: u64)))))
    | TU32 b \<Rightarrow> Some (goto_integer_reduce mp (tag_init_uw (Ok (a AND (ucast b :: u64)))))
    | TU64 b \<Rightarrow> Some (goto_integer_reduce mp (tag_init_uw (Ok (a AND b))))
    | TUW b \<Rightarrow> Some (goto_integer_reduce mp (tag_init_uw (Ok (a AND b))))
    | _ \<Rightarrow> None)"

definition tag_band :: "mplib \<Rightarrow> tag \<Rightarrow> tag \<Rightarrow> tag outcome option" where
  "tag_band mp a b = (case a of
      TInteger x \<Rightarrow> tag_band_integer mp x b
    | TS8 x \<Rightarrow> tag_band_s8 mp x b
    | TS16 x \<Rightarrow> tag_band_s16 mp x b
    | TS32 x \<Rightarrow> tag_band_s32 mp x b
    | TS64 x \<Rightarrow> tag_band_s64 mp x b
    | TSW x \<Rightarrow> tag_band_sw mp x b
    | TU8 x \<Rightarrow> tag_band_u8 mp x b
    | TU16 x \<Rightarrow> tag_band_u16 mp x b
    | TU32 x \<Rightarrow> tag_band_u32 mp x b
    | TU64 x \<Rightarrow> tag_band_u64 mp x b
    | TUW x \<Rightarrow> tag_band_uw mp x b
    | _ \<Rightarrow> None)"

section \<open>The value of a row\<close>

lemma tag_band_integer_val:
  assumes "mp_ok mp" "mp_total mp" "tag_int b = Some j"
  shows "result_int (tag_band_integer mp a b) = Some (a AND j)"
proof -
  note [simp] = integer_bit_total [OF assms(1,2)] integer_init_val [OF assms(1)]
    integer_to_in [OF assms(1)] result_int_reduce [OF assms(1)] c_bit_simps
  show ?thesis
  proof (cases "tag_unsigned b")
    case True
    then show ?thesis using assms(3-)
      by (cases b; simp only: tag_int.simps tag_unsigned.simps option.inject option.distinct)
         (hypsubst, simp add: tag_band_integer_def)+
  next
    case False
    then show ?thesis using assms(3-)
      by (cases b; simp only: tag_int.simps tag_unsigned.simps option.inject option.distinct)
         (hypsubst, simp add: tag_band_integer_def)+
  qed
qed

lemma tag_band_s8_val:
  assumes "mp_ok mp" "mp_total mp" "tag_int b = Some j"
  shows "result_int (tag_band_s8 mp a b) = Some (sint a AND j)"
proof -
  note [simp] = integer_bit_total [OF assms(1,2)] integer_init_val [OF assms(1)]
    integer_to_in [OF assms(1)] result_int_reduce [OF assms(1)] c_bit_simps
  show ?thesis
  proof (cases "tag_unsigned b")
    case True
    then show ?thesis using assms(3-)
      by (cases b; simp only: tag_int.simps tag_unsigned.simps option.inject option.distinct)
         (hypsubst, simp add: tag_band_s8_def word_bit_op_unsigned [where i = "sint a"])+
  next
    case False
    then show ?thesis using assms(3-)
      by (cases b; simp only: tag_int.simps tag_unsigned.simps option.inject option.distinct)
         (hypsubst, simp add: tag_band_s8_def word_bit_op_signed [where i = "sint a"])+
  qed
qed

lemma tag_band_s16_val:
  assumes "mp_ok mp" "mp_total mp" "tag_int b = Some j"
  shows "result_int (tag_band_s16 mp a b) = Some (sint a AND j)"
proof -
  note [simp] = integer_bit_total [OF assms(1,2)] integer_init_val [OF assms(1)]
    integer_to_in [OF assms(1)] result_int_reduce [OF assms(1)] c_bit_simps
  show ?thesis
  proof (cases "tag_unsigned b")
    case True
    then show ?thesis using assms(3-)
      by (cases b; simp only: tag_int.simps tag_unsigned.simps option.inject option.distinct)
         (hypsubst, simp add: tag_band_s16_def word_bit_op_unsigned [where i = "sint a"])+
  next
    case False
    then show ?thesis using assms(3-)
      by (cases b; simp only: tag_int.simps tag_unsigned.simps option.inject option.distinct)
         (hypsubst, simp add: tag_band_s16_def word_bit_op_signed [where i = "sint a"])+
  qed
qed

lemma tag_band_s32_val:
  assumes "mp_ok mp" "mp_total mp" "tag_int b = Some j"
  shows "result_int (tag_band_s32 mp a b) = Some (sint a AND j)"
proof -
  note [simp] = integer_bit_total [OF assms(1,2)] integer_init_val [OF assms(1)]
    integer_to_in [OF assms(1)] result_int_reduce [OF assms(1)] c_bit_simps
  show ?thesis
  proof (cases "tag_unsigned b")
    case True
    then show ?thesis using assms(3-)
      by (cases b; simp only: tag_int.simps tag_unsigned.simps option.inject option.distinct)
         (hypsubst, simp add: tag_band_s32_def word_bit_op_unsigned [where i = "sint a"])+
  next
    case False
    then show ?thesis using assms(3-)
      by (cases b; simp only: tag_int.simps tag_unsigned.simps option.inject option.distinct)
         (hypsubst, simp add: tag_band_s32_def word_bit_op_signed [where i = "sint a"])+
  qed
qed

lemma tag_band_s64_val:
  assumes "mp_ok mp" "mp_total mp" "tag_int b = Some j"
  shows "result_int (tag_band_s64 mp a b) = Some (sint a AND j)"
proof -
  note [simp] = integer_bit_total [OF assms(1,2)] integer_init_val [OF assms(1)]
    integer_to_in [OF assms(1)] result_int_reduce [OF assms(1)] c_bit_simps
  show ?thesis
  proof (cases "tag_unsigned b")
    case True
    then show ?thesis using assms(3-)
      by (cases b; simp only: tag_int.simps tag_unsigned.simps option.inject option.distinct)
         (hypsubst, simp add: tag_band_s64_def word_bit_op_unsigned [where i = "sint a"])+
  next
    case False
    then show ?thesis using assms(3-)
      by (cases b; simp only: tag_int.simps tag_unsigned.simps option.inject option.distinct)
         (hypsubst, simp add: tag_band_s64_def word_bit_op_signed [where i = "sint a"])+
  qed
qed

lemma tag_band_sw_val:
  assumes "mp_ok mp" "mp_total mp" "tag_int b = Some j"
    and "tag_type b \<in> {10, 20, 21} \<longrightarrow> in_s 64 (sint a AND j)"
  shows "result_int (tag_band_sw mp a b) = Some (sint a AND j)"
proof -
  note [simp] = integer_bit_total [OF assms(1,2)] integer_init_val [OF assms(1)]
    integer_to_in [OF assms(1)] result_int_reduce [OF assms(1)] c_bit_simps
  show ?thesis
  proof (cases "tag_unsigned b")
    case True
    then show ?thesis using assms(3-)
      by (cases b; simp only: tag_int.simps tag_unsigned.simps option.inject option.distinct)
         (hypsubst, simp add: tag_band_sw_def word_bit_op_unsigned [where i = "sint a"])+
  next
    case False
    then show ?thesis using assms(3-)
      by (cases b; simp only: tag_int.simps tag_unsigned.simps option.inject option.distinct)
         (hypsubst, simp add: tag_band_sw_def word_bit_op_signed [where i = "sint a"])+
  qed
qed

lemma tag_band_u8_val:
  assumes "mp_ok mp" "mp_total mp" "tag_int b = Some j"
  shows "result_int (tag_band_u8 mp a b) = Some (uint a AND j)"
proof -
  note [simp] = integer_bit_total [OF assms(1,2)] integer_init_val [OF assms(1)]
    integer_to_in [OF assms(1)] result_int_reduce [OF assms(1)] c_bit_simps
  show ?thesis
  proof (cases "tag_unsigned b")
    case True
    then show ?thesis using assms(3-)
      by (cases b; simp only: tag_int.simps tag_unsigned.simps option.inject option.distinct)
         (hypsubst, simp add: tag_band_u8_def word_bit_op_unsigned [where i = "uint a"])+
  next
    case False
    then show ?thesis using assms(3-)
      by (cases b; simp only: tag_int.simps tag_unsigned.simps option.inject option.distinct)
         (hypsubst, simp add: tag_band_u8_def word_bit_op_signed [where i = "uint a"])+
  qed
qed

lemma tag_band_u16_val:
  assumes "mp_ok mp" "mp_total mp" "tag_int b = Some j"
  shows "result_int (tag_band_u16 mp a b) = Some (uint a AND j)"
proof -
  note [simp] = integer_bit_total [OF assms(1,2)] integer_init_val [OF assms(1)]
    integer_to_in [OF assms(1)] result_int_reduce [OF assms(1)] c_bit_simps
  show ?thesis
  proof (cases "tag_unsigned b")
    case True
    then show ?thesis using assms(3-)
      by (cases b; simp only: tag_int.simps tag_unsigned.simps option.inject option.distinct)
         (hypsubst, simp add: tag_band_u16_def word_bit_op_unsigned [where i = "uint a"])+
  next
    case False
    then show ?thesis using assms(3-)
      by (cases b; simp only: tag_int.simps tag_unsigned.simps option.inject option.distinct)
         (hypsubst, simp add: tag_band_u16_def word_bit_op_signed [where i = "uint a"])+
  qed
qed

lemma tag_band_u32_val:
  assumes "mp_ok mp" "mp_total mp" "tag_int b = Some j"
  shows "result_int (tag_band_u32 mp a b) = Some (uint a AND j)"
proof -
  note [simp] = integer_bit_total [OF assms(1,2)] integer_init_val [OF assms(1)]
    integer_to_in [OF assms(1)] result_int_reduce [OF assms(1)] c_bit_simps
  show ?thesis
  proof (cases "tag_unsigned b")
    case True
    then show ?thesis using assms(3-)
      by (cases b; simp only: tag_int.simps tag_unsigned.simps option.inject option.distinct)
         (hypsubst, simp add: tag_band_u32_def word_bit_op_unsigned [where i = "uint a"])+
  next
    case False
    then show ?thesis using assms(3-)
      by (cases b; simp only: tag_int.simps tag_unsigned.simps option.inject option.distinct)
         (hypsubst, simp add: tag_band_u32_def word_bit_op_signed [where i = "uint a"])+
  qed
qed

lemma tag_band_u64_val:
  assumes "mp_ok mp" "mp_total mp" "tag_int b = Some j"
  shows "result_int (tag_band_u64 mp a b) = Some (uint a AND j)"
proof -
  note [simp] = integer_bit_total [OF assms(1,2)] integer_init_val [OF assms(1)]
    integer_to_in [OF assms(1)] result_int_reduce [OF assms(1)] c_bit_simps
  show ?thesis
  proof (cases "tag_unsigned b")
    case True
    then show ?thesis using assms(3-)
      by (cases b; simp only: tag_int.simps tag_unsigned.simps option.inject option.distinct)
         (hypsubst, simp add: tag_band_u64_def word_bit_op_unsigned [where i = "uint a"])+
  next
    case False
    then show ?thesis using assms(3-)
      by (cases b; simp only: tag_int.simps tag_unsigned.simps option.inject option.distinct)
         (hypsubst, simp add: tag_band_u64_def word_bit_op_signed [where i = "uint a"])+
  qed
qed

lemma tag_band_uw_val:
  assumes "mp_ok mp" "mp_total mp" "tag_int b = Some j"
  shows "result_int (tag_band_uw mp a b) = Some (uint a AND j)"
proof -
  note [simp] = integer_bit_total [OF assms(1,2)] integer_init_val [OF assms(1)]
    integer_to_in [OF assms(1)] result_int_reduce [OF assms(1)] c_bit_simps
  show ?thesis
  proof (cases "tag_unsigned b")
    case True
    then show ?thesis using assms(3-)
      by (cases b; simp only: tag_int.simps tag_unsigned.simps option.inject option.distinct)
         (hypsubst, simp add: tag_band_uw_def word_bit_op_unsigned [where i = "uint a"])+
  next
    case False
    then show ?thesis using assms(3-)
      by (cases b; simp only: tag_int.simps tag_unsigned.simps option.inject option.distinct)
         (hypsubst, simp add: tag_band_uw_def word_bit_op_signed [where i = "uint a"])+
  qed
qed

section \<open>The function\<close>

text \<open>The row of an \<open>sw\<close> stores its result in that type also when the second operand is
  a natural number of 64 bits or an \<open>s_integer\<close>, which loses the high bits of a value that does not fit.\<close>

definition tag_band_exact :: "tag \<Rightarrow> tag \<Rightarrow> int \<Rightarrow> bool" where
  "tag_band_exact a b v \<longleftrightarrow> (tag_type a = 12 \<and> tag_type b \<in> {10, 20, 21} \<longrightarrow> in_s 64 v)"

lemma tag_band_val:
  assumes "mp_ok mp" "mp_total mp" "tag_int a = Some i" "tag_int b = Some j" "tag_band_exact a b (i AND j)"
  shows "result_int (tag_band mp a b) = Some (i AND j)"
  using assms(3,5) tag_band_integer_val [OF assms(1,2,4)]
    tag_band_s8_val [OF assms(1,2,4)]
    tag_band_s16_val [OF assms(1,2,4)]
    tag_band_s32_val [OF assms(1,2,4)]
    tag_band_s64_val [OF assms(1,2,4)]
    tag_band_sw_val [OF assms(1,2,4)]
    tag_band_u8_val [OF assms(1,2,4)]
    tag_band_u16_val [OF assms(1,2,4)]
    tag_band_u32_val [OF assms(1,2,4)]
    tag_band_u64_val [OF assms(1,2,4)]
    tag_band_uw_val [OF assms(1,2,4)]
  by (cases a) (auto simp: tag_band_def tag_band_exact_def)

end
