(* ===== verification/Tag_Xor.thy ===== *)
theory Tag_Xor
  imports C_Bits
begin

unbundle bit_operations_syntax

text \<open>
  tag\_bxor.c: one definition per row of the switch, \<open>None\<close> where the second operand is not an
  integer.  The bitwise operations exist on integers only.
\<close>

definition tag_bxor_integer :: "mplib \<Rightarrow> int \<Rightarrow> tag \<Rightarrow> tag outcome option" where
  "tag_bxor_integer mp a b = (case b of
      TInteger b \<Rightarrow> Some (tag_init_integer (integer_bxor mp a b))
    | TS8 b \<Rightarrow> Some (tag_init_integer (integer_bxor mp a (integer_init_s8 mp b)))
    | TS16 b \<Rightarrow> Some (tag_init_integer (integer_bxor mp a (integer_init_s16 mp b)))
    | TS32 b \<Rightarrow> Some (tag_init_integer (integer_bxor mp a (integer_init_s32 mp b)))
    | TS64 b \<Rightarrow> Some (tag_init_integer (integer_bxor mp a (integer_init_s64 mp b)))
    | TSW b \<Rightarrow> Some (tag_init_integer (integer_bxor mp a (integer_init_sw mp b)))
    | TU8 b \<Rightarrow> Some (tag_init_integer (integer_bxor mp a (integer_init_u8 mp b)))
    | TU16 b \<Rightarrow> Some (tag_init_integer (integer_bxor mp a (integer_init_u16 mp b)))
    | TU32 b \<Rightarrow> Some (tag_init_integer (integer_bxor mp a (integer_init_u32 mp b)))
    | TU64 b \<Rightarrow> Some (tag_init_integer (integer_bxor mp a (integer_init_u64 mp b)))
    | TUW b \<Rightarrow> Some (tag_init_integer (integer_bxor mp a (integer_init_uw mp b)))
    | _ \<Rightarrow> None)"

definition tag_bxor_s8 :: "mplib \<Rightarrow> s8 \<Rightarrow> tag \<Rightarrow> tag outcome option" where
  "tag_bxor_s8 mp a b = (case b of
      TInteger b \<Rightarrow> Some (tag_init_integer (integer_bxor mp (integer_init_s8 mp a) b))
    | TS8 b \<Rightarrow> Some (tag_init_s8 (Ok (scast ((scast a :: s32) XOR (scast b :: s32)) :: s8)))
    | TS16 b \<Rightarrow> Some (tag_init_s16 (Ok (scast ((scast (scast a :: s16) :: s32) XOR (scast b :: s32)) :: s16)))
    | TS32 b \<Rightarrow> Some (tag_init_s32 (Ok ((scast a :: s32) XOR b)))
    | TS64 b \<Rightarrow> Some (tag_init_s64 (Ok ((scast a :: s64) XOR b)))
    | TSW b \<Rightarrow> Some (tag_init_sw (Ok ((scast a :: sw) XOR b)))
    | TU8 b \<Rightarrow> Some (tag_init_s16 (Ok (scast ((scast (scast a :: s16) :: s32) XOR (ucast b :: s32)) :: s16)))
    | TU16 b \<Rightarrow> Some (tag_init_s32 (Ok ((scast a :: s32) XOR (ucast b :: s32))))
    | TU32 b \<Rightarrow> Some (tag_init_s64 (Ok ((scast a :: s64) XOR (ucast b :: s64))))
    | TU64 b \<Rightarrow> Some (tag_init_integer (integer_bxor mp (integer_init_s8 mp a) (integer_init_u64 mp b)))
    | TUW b \<Rightarrow> Some (tag_init_integer (integer_bxor mp (integer_init_s8 mp a) (integer_init_uw mp b)))
    | _ \<Rightarrow> None)"

definition tag_bxor_s16 :: "mplib \<Rightarrow> s16 \<Rightarrow> tag \<Rightarrow> tag outcome option" where
  "tag_bxor_s16 mp a b = (case b of
      TInteger b \<Rightarrow> Some (tag_init_integer (integer_bxor mp (integer_init_s16 mp a) b))
    | TS8 b \<Rightarrow> Some (tag_init_s16 (Ok (scast ((scast a :: s32) XOR (scast b :: s32)) :: s16)))
    | TS16 b \<Rightarrow> Some (tag_init_s16 (Ok (scast ((scast a :: s32) XOR (scast b :: s32)) :: s16)))
    | TS32 b \<Rightarrow> Some (tag_init_s32 (Ok ((scast a :: s32) XOR b)))
    | TS64 b \<Rightarrow> Some (tag_init_s64 (Ok ((scast a :: s64) XOR b)))
    | TSW b \<Rightarrow> Some (tag_init_sw (Ok ((scast a :: sw) XOR b)))
    | TU8 b \<Rightarrow> Some (tag_init_s16 (Ok (scast ((scast a :: s32) XOR (ucast b :: s32)) :: s16)))
    | TU16 b \<Rightarrow> Some (tag_init_s32 (Ok ((scast a :: s32) XOR (ucast b :: s32))))
    | TU32 b \<Rightarrow> Some (tag_init_s64 (Ok ((scast a :: s64) XOR (ucast b :: s64))))
    | TU64 b \<Rightarrow> Some (tag_init_integer (integer_bxor mp (integer_init_s16 mp a) (integer_init_u64 mp b)))
    | TUW b \<Rightarrow> Some (tag_init_integer (integer_bxor mp (integer_init_s16 mp a) (integer_init_uw mp b)))
    | _ \<Rightarrow> None)"

definition tag_bxor_s32 :: "mplib \<Rightarrow> s32 \<Rightarrow> tag \<Rightarrow> tag outcome option" where
  "tag_bxor_s32 mp a b = (case b of
      TInteger b \<Rightarrow> Some (tag_init_integer (integer_bxor mp (integer_init_s32 mp a) b))
    | TS8 b \<Rightarrow> Some (tag_init_s32 (Ok (a XOR (scast b :: s32))))
    | TS16 b \<Rightarrow> Some (tag_init_s32 (Ok (a XOR (scast b :: s32))))
    | TS32 b \<Rightarrow> Some (tag_init_s32 (Ok (a XOR b)))
    | TS64 b \<Rightarrow> Some (tag_init_s64 (Ok ((scast a :: s64) XOR b)))
    | TSW b \<Rightarrow> Some (tag_init_sw (Ok ((scast a :: sw) XOR b)))
    | TU8 b \<Rightarrow> Some (tag_init_s32 (Ok (a XOR (ucast b :: s32))))
    | TU16 b \<Rightarrow> Some (tag_init_s32 (Ok (a XOR (ucast b :: s32))))
    | TU32 b \<Rightarrow> Some (tag_init_s64 (Ok ((scast a :: s64) XOR (ucast b :: s64))))
    | TU64 b \<Rightarrow> Some (tag_init_integer (integer_bxor mp (integer_init_s32 mp a) (integer_init_u64 mp b)))
    | TUW b \<Rightarrow> Some (tag_init_integer (integer_bxor mp (integer_init_s32 mp a) (integer_init_uw mp b)))
    | _ \<Rightarrow> None)"

definition tag_bxor_s64 :: "mplib \<Rightarrow> s64 \<Rightarrow> tag \<Rightarrow> tag outcome option" where
  "tag_bxor_s64 mp a b = (case b of
      TInteger b \<Rightarrow> Some (tag_init_integer (integer_bxor mp (integer_init_s64 mp a) b))
    | TS8 b \<Rightarrow> Some (tag_init_s64 (Ok (a XOR (scast b :: s64))))
    | TS16 b \<Rightarrow> Some (tag_init_s64 (Ok (a XOR (scast b :: s64))))
    | TS32 b \<Rightarrow> Some (tag_init_s64 (Ok (a XOR (scast b :: s64))))
    | TS64 b \<Rightarrow> Some (tag_init_s64 (Ok (a XOR b)))
    | TSW b \<Rightarrow> Some (tag_init_s64 (Ok (a XOR b)))
    | TU8 b \<Rightarrow> Some (tag_init_s64 (Ok (a XOR (ucast b :: s64))))
    | TU16 b \<Rightarrow> Some (tag_init_s64 (Ok (a XOR (ucast b :: s64))))
    | TU32 b \<Rightarrow> Some (tag_init_s64 (Ok (a XOR (ucast b :: s64))))
    | TU64 b \<Rightarrow> Some (tag_init_integer (integer_bxor mp (integer_init_s64 mp a) (integer_init_u64 mp b)))
    | TUW b \<Rightarrow> Some (tag_init_integer (integer_bxor mp (integer_init_s64 mp a) (integer_init_uw mp b)))
    | _ \<Rightarrow> None)"

definition tag_bxor_sw :: "mplib \<Rightarrow> sw \<Rightarrow> tag \<Rightarrow> tag outcome option" where
  "tag_bxor_sw mp a b = (case b of
      TInteger b \<Rightarrow> Some (tag_init_integer (integer_bxor mp (integer_init_sw mp a) b))
    | TS8 b \<Rightarrow> Some (tag_init_sw (Ok (a XOR (scast b :: s64))))
    | TS16 b \<Rightarrow> Some (tag_init_sw (Ok (a XOR (scast b :: s64))))
    | TS32 b \<Rightarrow> Some (tag_init_sw (Ok (a XOR (scast b :: s64))))
    | TS64 b \<Rightarrow> Some (tag_init_s64 (Ok (a XOR b)))
    | TSW b \<Rightarrow> Some (tag_init_sw (Ok (a XOR b)))
    | TU8 b \<Rightarrow> Some (tag_init_sw (Ok (a XOR (ucast b :: s64))))
    | TU16 b \<Rightarrow> Some (tag_init_sw (Ok (a XOR (ucast b :: s64))))
    | TU32 b \<Rightarrow> Some (tag_init_s64 (Ok (a XOR (ucast b :: s64))))
    | TU64 b \<Rightarrow> Some (tag_init_integer (integer_bxor mp (integer_init_sw mp a) (integer_init_u64 mp b)))
    | TUW b \<Rightarrow> Some (tag_init_integer (integer_bxor mp (integer_init_sw mp a) (integer_init_uw mp b)))
    | _ \<Rightarrow> None)"

definition tag_bxor_u8 :: "mplib \<Rightarrow> u8 \<Rightarrow> tag \<Rightarrow> tag outcome option" where
  "tag_bxor_u8 mp a b = (case b of
      TInteger b \<Rightarrow> Some (tag_init_integer (integer_bxor mp (integer_init_u8 mp a) b))
    | TS8 b \<Rightarrow> Some (tag_init_s16 (Ok (scast ((scast (ucast a :: s16) :: s32) XOR (scast b :: s32)) :: s16)))
    | TS16 b \<Rightarrow> Some (tag_init_s16 (Ok (scast ((scast (ucast a :: s16) :: s32) XOR (scast b :: s32)) :: s16)))
    | TS32 b \<Rightarrow> Some (tag_init_s32 (Ok ((ucast a :: s32) XOR b)))
    | TS64 b \<Rightarrow> Some (tag_init_s64 (Ok ((ucast a :: s64) XOR b)))
    | TSW b \<Rightarrow> Some (tag_init_sw (Ok ((ucast a :: sw) XOR b)))
    | TU8 b \<Rightarrow> Some (tag_init_u8 (Ok (scast ((ucast a :: s32) XOR (ucast b :: s32)) :: u8)))
    | TU16 b \<Rightarrow> Some (tag_init_u16 (Ok (scast ((ucast (ucast a :: u16) :: s32) XOR (ucast b :: s32)) :: u16)))
    | TU32 b \<Rightarrow> Some (tag_init_u32 (Ok ((ucast a :: u32) XOR b)))
    | TU64 b \<Rightarrow> Some (tag_init_u64 (Ok ((ucast a :: u64) XOR b)))
    | TUW b \<Rightarrow> Some (tag_init_uw (Ok ((ucast a :: uw) XOR b)))
    | _ \<Rightarrow> None)"

definition tag_bxor_u16 :: "mplib \<Rightarrow> u16 \<Rightarrow> tag \<Rightarrow> tag outcome option" where
  "tag_bxor_u16 mp a b = (case b of
      TInteger b \<Rightarrow> Some (tag_init_integer (integer_bxor mp (integer_init_u16 mp a) b))
    | TS8 b \<Rightarrow> Some (tag_init_s32 (Ok ((ucast a :: s32) XOR (scast b :: s32))))
    | TS16 b \<Rightarrow> Some (tag_init_s32 (Ok ((ucast a :: s32) XOR (scast b :: s32))))
    | TS32 b \<Rightarrow> Some (tag_init_s32 (Ok ((ucast a :: s32) XOR b)))
    | TS64 b \<Rightarrow> Some (tag_init_s64 (Ok ((ucast a :: s64) XOR b)))
    | TSW b \<Rightarrow> Some (tag_init_sw (Ok ((ucast a :: sw) XOR b)))
    | TU8 b \<Rightarrow> Some (tag_init_u16 (Ok (scast ((ucast a :: s32) XOR (ucast b :: s32)) :: u16)))
    | TU16 b \<Rightarrow> Some (tag_init_u16 (Ok (scast ((ucast a :: s32) XOR (ucast b :: s32)) :: u16)))
    | TU32 b \<Rightarrow> Some (tag_init_u32 (Ok ((ucast a :: u32) XOR b)))
    | TU64 b \<Rightarrow> Some (tag_init_u64 (Ok ((ucast a :: u64) XOR b)))
    | TUW b \<Rightarrow> Some (tag_init_uw (Ok ((ucast a :: uw) XOR b)))
    | _ \<Rightarrow> None)"

definition tag_bxor_u32 :: "mplib \<Rightarrow> u32 \<Rightarrow> tag \<Rightarrow> tag outcome option" where
  "tag_bxor_u32 mp a b = (case b of
      TInteger b \<Rightarrow> Some (tag_init_integer (integer_bxor mp (integer_init_u32 mp a) b))
    | TS8 b \<Rightarrow> Some (tag_init_s64 (Ok ((ucast a :: s64) XOR (scast b :: s64))))
    | TS16 b \<Rightarrow> Some (tag_init_s64 (Ok ((ucast a :: s64) XOR (scast b :: s64))))
    | TS32 b \<Rightarrow> Some (tag_init_s64 (Ok ((ucast a :: s64) XOR (scast b :: s64))))
    | TS64 b \<Rightarrow> Some (tag_init_s64 (Ok ((ucast a :: s64) XOR b)))
    | TSW b \<Rightarrow> Some (tag_init_s64 (Ok ((ucast a :: s64) XOR b)))
    | TU8 b \<Rightarrow> Some (tag_init_u32 (Ok (a XOR (ucast b :: u32))))
    | TU16 b \<Rightarrow> Some (tag_init_u32 (Ok (a XOR (ucast b :: u32))))
    | TU32 b \<Rightarrow> Some (tag_init_u32 (Ok (a XOR b)))
    | TU64 b \<Rightarrow> Some (tag_init_u64 (Ok ((ucast a :: u64) XOR b)))
    | TUW b \<Rightarrow> Some (tag_init_uw (Ok ((ucast a :: uw) XOR b)))
    | _ \<Rightarrow> None)"

definition tag_bxor_u64 :: "mplib \<Rightarrow> u64 \<Rightarrow> tag \<Rightarrow> tag outcome option" where
  "tag_bxor_u64 mp a b = (case b of
      TInteger b \<Rightarrow> Some (tag_init_integer (integer_bxor mp (integer_init_u64 mp a) b))
    | TS8 b \<Rightarrow> Some (tag_init_integer (integer_bxor mp (integer_init_u64 mp a) (integer_init_s8 mp b)))
    | TS16 b \<Rightarrow> Some (tag_init_integer (integer_bxor mp (integer_init_u64 mp a) (integer_init_s16 mp b)))
    | TS32 b \<Rightarrow> Some (tag_init_integer (integer_bxor mp (integer_init_u64 mp a) (integer_init_s32 mp b)))
    | TS64 b \<Rightarrow> Some (tag_init_integer (integer_bxor mp (integer_init_u64 mp a) (integer_init_s64 mp b)))
    | TSW b \<Rightarrow> Some (tag_init_integer (integer_bxor mp (integer_init_u64 mp a) (integer_init_sw mp b)))
    | TU8 b \<Rightarrow> Some (tag_init_integer (integer_bxor mp (integer_init_u64 mp a) (integer_init_u8 mp b)))
    | TU16 b \<Rightarrow> Some (tag_init_integer (integer_bxor mp (integer_init_u64 mp a) (integer_init_u16 mp b)))
    | TU32 b \<Rightarrow> Some (tag_init_integer (integer_bxor mp (integer_init_u64 mp a) (integer_init_u32 mp b)))
    | TU64 b \<Rightarrow> Some (tag_init_integer (integer_bxor mp (integer_init_u64 mp a) (integer_init_u64 mp b)))
    | TUW b \<Rightarrow> Some (tag_init_integer (integer_bxor mp (integer_init_u64 mp a) (integer_init_uw mp b)))
    | _ \<Rightarrow> None)"

definition tag_bxor_uw :: "mplib \<Rightarrow> uw \<Rightarrow> tag \<Rightarrow> tag outcome option" where
  "tag_bxor_uw mp a b = (case b of
      TInteger b \<Rightarrow> Some (case (integer_bxor mp (integer_init_uw mp a) b) of None \<Rightarrow> Undef | Some tmp2 \<Rightarrow> tag_init_uw (Ok (integer_to_uw mp tmp2)))
    | TS8 b \<Rightarrow> Some (tag_init_uw (Ok (a XOR (scast b :: u64))))
    | TS16 b \<Rightarrow> Some (tag_init_uw (Ok (a XOR (scast b :: u64))))
    | TS32 b \<Rightarrow> Some (tag_init_uw (Ok (a XOR (scast b :: u64))))
    | TS64 b \<Rightarrow> Some (tag_init_uw (Ok (a XOR b)))
    | TSW b \<Rightarrow> Some (tag_init_uw (Ok (a XOR b)))
    | TU8 b \<Rightarrow> Some (tag_init_uw (Ok (a XOR (ucast b :: u64))))
    | TU16 b \<Rightarrow> Some (tag_init_uw (Ok (a XOR (ucast b :: u64))))
    | TU32 b \<Rightarrow> Some (tag_init_uw (Ok (a XOR (ucast b :: u64))))
    | TU64 b \<Rightarrow> Some (tag_init_uw (Ok (a XOR b)))
    | TUW b \<Rightarrow> Some (tag_init_uw (Ok (a XOR b)))
    | _ \<Rightarrow> None)"

definition tag_bxor :: "mplib \<Rightarrow> tag \<Rightarrow> tag \<Rightarrow> tag outcome option" where
  "tag_bxor mp a b = (case a of
      TInteger x \<Rightarrow> tag_bxor_integer mp x b
    | TS8 x \<Rightarrow> tag_bxor_s8 mp x b
    | TS16 x \<Rightarrow> tag_bxor_s16 mp x b
    | TS32 x \<Rightarrow> tag_bxor_s32 mp x b
    | TS64 x \<Rightarrow> tag_bxor_s64 mp x b
    | TSW x \<Rightarrow> tag_bxor_sw mp x b
    | TU8 x \<Rightarrow> tag_bxor_u8 mp x b
    | TU16 x \<Rightarrow> tag_bxor_u16 mp x b
    | TU32 x \<Rightarrow> tag_bxor_u32 mp x b
    | TU64 x \<Rightarrow> tag_bxor_u64 mp x b
    | TUW x \<Rightarrow> tag_bxor_uw mp x b
    | _ \<Rightarrow> None)"

section \<open>The value of a row\<close>

lemma tag_bxor_integer_val:
  assumes "mp_ok mp" "mp_total mp" "tag_int b = Some j"
  shows "result_int (tag_bxor_integer mp a b) = Some (a XOR j)"
proof -
  note [simp] = integer_bit_total [OF assms(1,2)] integer_init_val [OF assms(1)]
    integer_to_in [OF assms(1)] result_int_reduce [OF assms(1)] c_bit_simps
  show ?thesis
  proof (cases "tag_unsigned b")
    case True
    then show ?thesis using assms(3-)
      by (cases b; simp only: tag_int.simps tag_unsigned.simps option.inject option.distinct)
         (hypsubst, simp add: tag_bxor_integer_def)+
  next
    case False
    then show ?thesis using assms(3-)
      by (cases b; simp only: tag_int.simps tag_unsigned.simps option.inject option.distinct)
         (hypsubst, simp add: tag_bxor_integer_def)+
  qed
qed

lemma tag_bxor_s8_val:
  assumes "mp_ok mp" "mp_total mp" "tag_int b = Some j"
  shows "result_int (tag_bxor_s8 mp a b) = Some (sint a XOR j)"
proof -
  note [simp] = integer_bit_total [OF assms(1,2)] integer_init_val [OF assms(1)]
    integer_to_in [OF assms(1)] result_int_reduce [OF assms(1)] c_bit_simps
  show ?thesis
  proof (cases "tag_unsigned b")
    case True
    then show ?thesis using assms(3-)
      by (cases b; simp only: tag_int.simps tag_unsigned.simps option.inject option.distinct)
         (hypsubst, simp add: tag_bxor_s8_def word_bit_op_unsigned [where i = "sint a"])+
  next
    case False
    then show ?thesis using assms(3-)
      by (cases b; simp only: tag_int.simps tag_unsigned.simps option.inject option.distinct)
         (hypsubst, simp add: tag_bxor_s8_def word_bit_op_signed [where i = "sint a"])+
  qed
qed

lemma tag_bxor_s16_val:
  assumes "mp_ok mp" "mp_total mp" "tag_int b = Some j"
  shows "result_int (tag_bxor_s16 mp a b) = Some (sint a XOR j)"
proof -
  note [simp] = integer_bit_total [OF assms(1,2)] integer_init_val [OF assms(1)]
    integer_to_in [OF assms(1)] result_int_reduce [OF assms(1)] c_bit_simps
  show ?thesis
  proof (cases "tag_unsigned b")
    case True
    then show ?thesis using assms(3-)
      by (cases b; simp only: tag_int.simps tag_unsigned.simps option.inject option.distinct)
         (hypsubst, simp add: tag_bxor_s16_def word_bit_op_unsigned [where i = "sint a"])+
  next
    case False
    then show ?thesis using assms(3-)
      by (cases b; simp only: tag_int.simps tag_unsigned.simps option.inject option.distinct)
         (hypsubst, simp add: tag_bxor_s16_def word_bit_op_signed [where i = "sint a"])+
  qed
qed

lemma tag_bxor_s32_val:
  assumes "mp_ok mp" "mp_total mp" "tag_int b = Some j"
  shows "result_int (tag_bxor_s32 mp a b) = Some (sint a XOR j)"
proof -
  note [simp] = integer_bit_total [OF assms(1,2)] integer_init_val [OF assms(1)]
    integer_to_in [OF assms(1)] result_int_reduce [OF assms(1)] c_bit_simps
  show ?thesis
  proof (cases "tag_unsigned b")
    case True
    then show ?thesis using assms(3-)
      by (cases b; simp only: tag_int.simps tag_unsigned.simps option.inject option.distinct)
         (hypsubst, simp add: tag_bxor_s32_def word_bit_op_unsigned [where i = "sint a"])+
  next
    case False
    then show ?thesis using assms(3-)
      by (cases b; simp only: tag_int.simps tag_unsigned.simps option.inject option.distinct)
         (hypsubst, simp add: tag_bxor_s32_def word_bit_op_signed [where i = "sint a"])+
  qed
qed

lemma tag_bxor_s64_val:
  assumes "mp_ok mp" "mp_total mp" "tag_int b = Some j"
  shows "result_int (tag_bxor_s64 mp a b) = Some (sint a XOR j)"
proof -
  note [simp] = integer_bit_total [OF assms(1,2)] integer_init_val [OF assms(1)]
    integer_to_in [OF assms(1)] result_int_reduce [OF assms(1)] c_bit_simps
  show ?thesis
  proof (cases "tag_unsigned b")
    case True
    then show ?thesis using assms(3-)
      by (cases b; simp only: tag_int.simps tag_unsigned.simps option.inject option.distinct)
         (hypsubst, simp add: tag_bxor_s64_def word_bit_op_unsigned [where i = "sint a"])+
  next
    case False
    then show ?thesis using assms(3-)
      by (cases b; simp only: tag_int.simps tag_unsigned.simps option.inject option.distinct)
         (hypsubst, simp add: tag_bxor_s64_def word_bit_op_signed [where i = "sint a"])+
  qed
qed

lemma tag_bxor_sw_val:
  assumes "mp_ok mp" "mp_total mp" "tag_int b = Some j"
  shows "result_int (tag_bxor_sw mp a b) = Some (sint a XOR j)"
proof -
  note [simp] = integer_bit_total [OF assms(1,2)] integer_init_val [OF assms(1)]
    integer_to_in [OF assms(1)] result_int_reduce [OF assms(1)] c_bit_simps
  show ?thesis
  proof (cases "tag_unsigned b")
    case True
    then show ?thesis using assms(3-)
      by (cases b; simp only: tag_int.simps tag_unsigned.simps option.inject option.distinct)
         (hypsubst, simp add: tag_bxor_sw_def word_bit_op_unsigned [where i = "sint a"])+
  next
    case False
    then show ?thesis using assms(3-)
      by (cases b; simp only: tag_int.simps tag_unsigned.simps option.inject option.distinct)
         (hypsubst, simp add: tag_bxor_sw_def word_bit_op_signed [where i = "sint a"])+
  qed
qed

lemma tag_bxor_u8_val:
  assumes "mp_ok mp" "mp_total mp" "tag_int b = Some j"
  shows "result_int (tag_bxor_u8 mp a b) = Some (uint a XOR j)"
proof -
  note [simp] = integer_bit_total [OF assms(1,2)] integer_init_val [OF assms(1)]
    integer_to_in [OF assms(1)] result_int_reduce [OF assms(1)] c_bit_simps
  show ?thesis
  proof (cases "tag_unsigned b")
    case True
    then show ?thesis using assms(3-)
      by (cases b; simp only: tag_int.simps tag_unsigned.simps option.inject option.distinct)
         (hypsubst, simp add: tag_bxor_u8_def word_bit_op_unsigned [where i = "uint a"])+
  next
    case False
    then show ?thesis using assms(3-)
      by (cases b; simp only: tag_int.simps tag_unsigned.simps option.inject option.distinct)
         (hypsubst, simp add: tag_bxor_u8_def word_bit_op_signed [where i = "uint a"])+
  qed
qed

lemma tag_bxor_u16_val:
  assumes "mp_ok mp" "mp_total mp" "tag_int b = Some j"
  shows "result_int (tag_bxor_u16 mp a b) = Some (uint a XOR j)"
proof -
  note [simp] = integer_bit_total [OF assms(1,2)] integer_init_val [OF assms(1)]
    integer_to_in [OF assms(1)] result_int_reduce [OF assms(1)] c_bit_simps
  show ?thesis
  proof (cases "tag_unsigned b")
    case True
    then show ?thesis using assms(3-)
      by (cases b; simp only: tag_int.simps tag_unsigned.simps option.inject option.distinct)
         (hypsubst, simp add: tag_bxor_u16_def word_bit_op_unsigned [where i = "uint a"])+
  next
    case False
    then show ?thesis using assms(3-)
      by (cases b; simp only: tag_int.simps tag_unsigned.simps option.inject option.distinct)
         (hypsubst, simp add: tag_bxor_u16_def word_bit_op_signed [where i = "uint a"])+
  qed
qed

lemma tag_bxor_u32_val:
  assumes "mp_ok mp" "mp_total mp" "tag_int b = Some j"
  shows "result_int (tag_bxor_u32 mp a b) = Some (uint a XOR j)"
proof -
  note [simp] = integer_bit_total [OF assms(1,2)] integer_init_val [OF assms(1)]
    integer_to_in [OF assms(1)] result_int_reduce [OF assms(1)] c_bit_simps
  show ?thesis
  proof (cases "tag_unsigned b")
    case True
    then show ?thesis using assms(3-)
      by (cases b; simp only: tag_int.simps tag_unsigned.simps option.inject option.distinct)
         (hypsubst, simp add: tag_bxor_u32_def word_bit_op_unsigned [where i = "uint a"])+
  next
    case False
    then show ?thesis using assms(3-)
      by (cases b; simp only: tag_int.simps tag_unsigned.simps option.inject option.distinct)
         (hypsubst, simp add: tag_bxor_u32_def word_bit_op_signed [where i = "uint a"])+
  qed
qed

lemma tag_bxor_u64_val:
  assumes "mp_ok mp" "mp_total mp" "tag_int b = Some j"
  shows "result_int (tag_bxor_u64 mp a b) = Some (uint a XOR j)"
proof -
  note [simp] = integer_bit_total [OF assms(1,2)] integer_init_val [OF assms(1)]
    integer_to_in [OF assms(1)] result_int_reduce [OF assms(1)] c_bit_simps
  show ?thesis
  proof (cases "tag_unsigned b")
    case True
    then show ?thesis using assms(3-)
      by (cases b; simp only: tag_int.simps tag_unsigned.simps option.inject option.distinct)
         (hypsubst, simp add: tag_bxor_u64_def word_bit_op_unsigned [where i = "uint a"])+
  next
    case False
    then show ?thesis using assms(3-)
      by (cases b; simp only: tag_int.simps tag_unsigned.simps option.inject option.distinct)
         (hypsubst, simp add: tag_bxor_u64_def word_bit_op_signed [where i = "uint a"])+
  qed
qed

lemma tag_bxor_uw_val:
  assumes "mp_ok mp" "mp_total mp" "tag_int b = Some j"
    and "tag_type b \<in> {10, 12, 13, 14, 15, 16} \<longrightarrow> in_u 64 (uint a XOR j)"
  shows "result_int (tag_bxor_uw mp a b) = Some (uint a XOR j)"
proof -
  note [simp] = integer_bit_total [OF assms(1,2)] integer_init_val [OF assms(1)]
    integer_to_in [OF assms(1)] result_int_reduce [OF assms(1)] c_bit_simps
  show ?thesis
  proof (cases "tag_unsigned b")
    case True
    then show ?thesis using assms(3-)
      by (cases b; simp only: tag_int.simps tag_unsigned.simps option.inject option.distinct)
         (hypsubst, simp add: tag_bxor_uw_def word_bit_op_unsigned [where i = "uint a"])+
  next
    case False
    then show ?thesis using assms(3-)
      by (cases b; simp only: tag_int.simps tag_unsigned.simps option.inject option.distinct)
         (hypsubst, simp add: tag_bxor_uw_def word_bit_op_signed [where i = "uint a"])+
  qed
qed

section \<open>The function\<close>

text \<open>The row of a \<open>uw\<close> stores its result in that type also when the second operand is
  a signed integer or an \<open>s_integer\<close>, which loses the high bits of a value that does not fit.\<close>

definition tag_bxor_exact :: "tag \<Rightarrow> tag \<Rightarrow> int \<Rightarrow> bool" where
  "tag_bxor_exact a b v \<longleftrightarrow> (tag_type a = 21 \<and> tag_type b \<in> {10, 12, 13, 14, 15, 16} \<longrightarrow> in_u 64 v)"

lemma tag_bxor_val:
  assumes "mp_ok mp" "mp_total mp" "tag_int a = Some i" "tag_int b = Some j" "tag_bxor_exact a b (i XOR j)"
  shows "result_int (tag_bxor mp a b) = Some (i XOR j)"
  using assms(3,5) tag_bxor_integer_val [OF assms(1,2,4)]
    tag_bxor_s8_val [OF assms(1,2,4)]
    tag_bxor_s16_val [OF assms(1,2,4)]
    tag_bxor_s32_val [OF assms(1,2,4)]
    tag_bxor_s64_val [OF assms(1,2,4)]
    tag_bxor_sw_val [OF assms(1,2,4)]
    tag_bxor_u8_val [OF assms(1,2,4)]
    tag_bxor_u16_val [OF assms(1,2,4)]
    tag_bxor_u32_val [OF assms(1,2,4)]
    tag_bxor_u64_val [OF assms(1,2,4)]
    tag_bxor_uw_val [OF assms(1,2,4)]
  by (cases a) (auto simp: tag_bxor_def tag_bxor_exact_def)

end
