(* ===== verification/Tag_Bits.thy ===== *)
theory Tag_Bits
  imports Tag_And Tag_Or Tag_Xor
begin

unbundle bit_operations_syntax

text \<open>
  The operators with one operand, tag\_bnot.c and tag\_neg.c on integer tags, and what the four
  bitwise operators compute.
\<close>

section \<open>tag\_bnot.c\<close>

definition tag_bnot :: "mplib \<Rightarrow> tag \<Rightarrow> tag outcome option" where
  "tag_bnot mp tag = (case tag of
      TInteger x \<Rightarrow> Some (tag_init_integer (integer_bnot mp x))
    | TSW x \<Rightarrow> Some (tag_init_sw (Ok (NOT x)))
    | TS64 x \<Rightarrow> Some (tag_init_s64 (Ok (NOT x)))
    | TS32 x \<Rightarrow> Some (tag_init_s32 (Ok (NOT x)))
    | TS16 x \<Rightarrow> Some (tag_init_s16 (Ok (scast (NOT (scast x :: s32)))))
    | TS8 x \<Rightarrow> Some (tag_init_s8 (Ok (scast (NOT (scast x :: s32)))))
    | TU8 x \<Rightarrow> Some (tag_init_u8 (Ok (scast (NOT (ucast x :: s32)))))
    | TU16 x \<Rightarrow> Some (tag_init_u16 (Ok (scast (NOT (ucast x :: s32)))))
    | TU32 x \<Rightarrow> Some (tag_init_u32 (Ok (NOT x)))
    | TU64 x \<Rightarrow> Some (tag_init_u64 (Ok (NOT x)))
    | TUW x \<Rightarrow> Some (tag_init_uw (Ok (NOT x)))
    | _ \<Rightarrow> Some Null)"

section \<open>tag\_neg.c\<close>

definition tag_neg :: "mplib \<Rightarrow> tag \<Rightarrow> tag outcome option" where
  "tag_neg mp src = (case src of
      TInteger x \<Rightarrow> Some (goto_integer_reduce mp (tag_init_integer (integer_neg mp x)))
    | TSW x \<Rightarrow> Some (goto_integer_reduce mp (tag_init_integer (integer_neg mp (integer_init_sw mp x))))
    | TS64 x \<Rightarrow> Some (goto_integer_reduce mp (tag_init_integer (integer_neg mp (integer_init_s64 mp x))))
    | TS32 x \<Rightarrow> Some (goto_integer_reduce mp (tag_init_s64 (c_sneg (scast x))))
    | TS16 x \<Rightarrow> Some (goto_integer_reduce mp (tag_init_s32 (c_sneg (scast x))))
    | TS8 x \<Rightarrow> Some (goto_integer_reduce mp
        (tag_init_s16 (c_cast (scast :: s32 \<Rightarrow> s16) (c_sneg (scast (scast x :: s16))))))
    | TU8 x \<Rightarrow> Some (goto_integer_reduce mp
        (tag_init_s16 (c_cast (scast :: s32 \<Rightarrow> s16) (c_sneg (scast (ucast x :: s16))))))
    | TU16 x \<Rightarrow> Some (goto_integer_reduce mp (tag_init_s32 (c_sneg (ucast x))))
    | TU32 x \<Rightarrow> Some (goto_integer_reduce mp (tag_init_s64 (c_sneg (ucast x))))
    | TU64 x \<Rightarrow> Some (goto_integer_reduce mp (tag_init_integer (integer_neg mp (integer_init_u64 mp x))))
    | TUW x \<Rightarrow> Some (goto_integer_reduce mp (tag_init_integer (integer_neg mp (integer_init_uw mp x))))
    | TRatio _ _ \<Rightarrow> None
    | _ \<Rightarrow> Some Null)"

lemma tag_neg_val:
  assumes "mp_ok mp" "mp_total mp" "tag_int t = Some i"
  shows "tag_neg mp t = Some (Ok (reduced (- i)))"
proof -
  note [simp] = integer_bit_total [OF assms(1,2)] integer_init_val [OF assms(1)]
    reduce_value [OF assms(1)] reduce_integer [OF assms(1)] word_val c_sneg_def c_signed_Ok
    scast_of_int
  show ?thesis
    using assms(3) tag_mag_bound [OF assms(3)]
    by (cases t; simp only: tag_int.simps option.inject option.distinct)
       (hypsubst, simp add: tag_neg_def del: of_int_minus)+
qed

section \<open>The bitwise operators\<close>

lemma word_not:
  fixes x :: "'a::len word"
  shows "NOT x = word_of_int (NOT (sint x))" "NOT x = word_of_int (NOT (uint x))"
  by (intro bit_word_eqI; simp add: bit_simps)+

lemma result_int_unsigned:
  "result_int (Some (tag_init_u8 (Ok (word_of_int v)))) = Some (take_bit 8 v)"
  "result_int (Some (tag_init_u16 (Ok (word_of_int v)))) = Some (take_bit 16 v)"
  "result_int (Some (tag_init_u32 (Ok (word_of_int v)))) = Some (take_bit 32 v)"
  "result_int (Some (tag_init_u64 (Ok (word_of_int v)))) = Some (take_bit 64 v)"
  "result_int (Some (tag_init_uw (Ok (word_of_int v)))) = Some (take_bit 64 v)"
  by (simp_all add: result_int_def tag_init_u8_def tag_init_u16_def tag_init_u32_def
      tag_init_u64_def tag_init_uw_def unsigned_of_int)

lemma in_s_not: "in_s n i \<Longrightarrow> in_s n (NOT i)"
  unfolding in_s_def not_int_def by linarith

lemma tag_bnot_val:
  assumes "mp_ok mp" "mp_total mp" "tag_int t = Some i"
  shows "result_int (tag_bnot mp t) =
    Some (if tag_unsigned t then take_bit (tag_bits t) (NOT i) else NOT i)"
proof (cases "tag_unsigned t")
  case True
  with assms(3) show ?thesis
    by (cases t; simp only: tag_int.simps tag_unsigned.simps option.inject option.distinct)
       (hypsubst, simp add: tag_bnot_def word_not(2) word_val result_int_unsigned scast_of_int)+
next
  case False
  with assms(3) show ?thesis
    by (cases t; simp only: tag_int.simps tag_unsigned.simps option.inject option.distinct)
       (hypsubst, simp add: tag_bnot_def word_not(1) word_val result_int_init scast_of_int in_s_not
          in_s_word integer_bit_total [OF assms(1,2)])+
qed

text \<open>
  C20: the bitwise operators.  When libtommath behaves as documented and has memory, \<open>tag_band\<close>,
  \<open>tag_bor\<close> and \<open>tag_bxor\<close> of two integers of any types return the conjunction, disjunction and
  exclusive disjunction of their two's complement representations, sign extended without bound,
  on each of the 121 pairs of types, as long as the value fits where the two rows \<open>sw\<close> (and) and
  \<open>uw\<close> (or, xor) cut it; \<open>tag_bnot\<close> complements the bits of an unsigned type, and gives -1 - i
  otherwise.
\<close>

theorem tag_bitwise_correct:
  assumes "mp_ok mp" "mp_total mp" "tag_int a = Some i" "tag_int b = Some j"
  shows "(tag_band_exact a b (i AND j) \<longrightarrow> result_int (tag_band mp a b) = Some (i AND j)) \<and>
    (tag_bor_exact a b (i OR j) \<longrightarrow> result_int (tag_bor mp a b) = Some (i OR j)) \<and>
    (tag_bxor_exact a b (i XOR j) \<longrightarrow> result_int (tag_bxor mp a b) = Some (i XOR j)) \<and>
    result_int (tag_bnot mp a) =
      Some (if tag_unsigned a then take_bit (tag_bits a) (NOT i) else NOT i)"
  using tag_band_val [OF assms] tag_bor_val [OF assms] tag_bxor_val [OF assms]
    tag_bnot_val [OF assms(1-3)] by blast

theorem tag_bitwise_correct_witness:
  "result_int (tag_band mp_exact (TU32 4294967295) (TS8 (- 2))) = Some 4294967294 \<and>
   result_int (tag_bor mp_exact (TU32 5) (TS8 (- 8))) = Some (- 3) \<and>
   result_int (tag_bxor mp_exact (TU32 5) (TS8 (- 8))) = Some (- 3) \<and>
   result_int (tag_bnot mp_exact (TU32 5)) = Some 4294967290"
  using tag_bitwise_correct [of mp_exact "TU32 4294967295" 4294967295 "TS8 (- 2)" "- 2"]
    tag_bitwise_correct [of mp_exact "TU32 5" 5 "TS8 (- 8)" "- 8"]
  by (simp add: tag_band_exact_def tag_bor_exact_def tag_bxor_exact_def)

text \<open>What the row of \<open>uw\<close> loses: 1 or -1 is -1, but the result is 2^64 - 1.\<close>

lemma tag_bor_uw_cut:
  "result_int (tag_bor mp_exact (TUW 1) (TS8 (- 1))) = Some 18446744073709551615"
  by (simp add: result_int_def tag_bor_def tag_bor_uw_def tag_init_uw_def unsigned_minus_1_eq_mask mask_eq_exp_minus_1)

end
