(* ===== verification/Buf_Save.thy ===== *)
theory Buf_Save
  imports Buf_Text
begin

unbundle bit_operations_syntax

text \<open>
  Saved positions (buf_save.c) and what a parser sees of a buffer.

  A parser registers its position on entry and goes back to it when the text does not match.
  Meanwhile a buffer that is not read-only may be compacted: the bytes move, and with them the
  registered positions.  \<open>buf_view\<close> is what remains: the bytes still to be read from the reader's
  position and from each of the saved ones.
\<close>

definition buf_save_init :: "buf \<Rightarrow> buf" where
  "buf_save_init b = b\<lparr>buf_saves := (buf_rpos b, buf_wpos b) # buf_saves b\<rparr>"

definition buf_save_clean :: "buf \<Rightarrow> buf" where
  "buf_save_clean b = b\<lparr>buf_saves := tl (buf_saves b)\<rparr>"

definition buf_save_restore_rpos :: "buf \<Rightarrow> buf" where
  "buf_save_restore_rpos b = b\<lparr>buf_rpos := fst (hd (buf_saves b))\<rparr>"

definition buf_save_restore_wpos :: "buf \<Rightarrow> buf" where
  "buf_save_restore_wpos b = b\<lparr>buf_bytes := take (snd (hd (buf_saves b))) (buf_bytes b)\<rparr>"

definition buf_save_update :: "buf \<Rightarrow> buf" where
  "buf_save_update b = b\<lparr>buf_saves := (buf_rpos b, buf_wpos b) # tl (buf_saves b)\<rparr>"

section \<open>The view of a reader\<close>

definition buf_rest :: "buf \<Rightarrow> u8 list" where
  "buf_rest b = drop (buf_rpos b) (buf_bytes b)"

record view =
  view_rest :: "u8 list"
  view_saves :: "(u8 list \<times> nat) list"
  view_free :: "bool \<times> nat"

text \<open>A save is seen as the bytes from its position on, and the length of its text when it was made.\<close>

definition buf_view :: "buf \<Rightarrow> view" where
  "buf_view b = \<lparr>view_rest = buf_rest b,
    view_saves = map (\<lambda>(r, w). (drop r (buf_bytes b), w - r)) (buf_saves b),
    view_free = (buf_read_only b, buf_base_column b)\<rparr>"

definition buf_reads :: "buf \<Rightarrow> bool" where
  "buf_reads b \<longleftrightarrow> buf_ok b \<and> (\<forall>(r, w) \<in> set (buf_saves b). r \<le> buf_wpos b \<and> r \<le> w)"

lemma buf_view_rest [simp]: "view_rest (buf_view b) = buf_rest b"
  by (simp add: buf_view_def)

lemma length_buf_rest: "length (buf_rest b) = buf_wpos b - buf_rpos b"
  by (simp add: buf_rest_def buf_wpos_def)

lemma buf_refill_view:
  assumes "buf_reads b" "buf_refill b (int n) = (r, b')"
  shows "buf_view b' = buf_view b" "buf_reads b'" "r = int (length (buf_rest b))"
proof -
  let ?m = "buf_save_min_rpos b"
  have ok: "buf_ok b" using assms(1) by (simp add: buf_reads_def)
  have m: "?m \<le> buf_rpos b" "?m \<le> buf_wpos b"
    using buf_save_min_rpos_le [of b] ok by (auto simp: buf_ok_def)
  have save: "?m \<le> s \<and> s \<le> w \<and> s \<le> buf_wpos b" if "(s, w) \<in> set (buf_saves b)" for s w
    using buf_save_min_rpos_save [OF that] assms(1) that by (auto simp: buf_reads_def)
  have "b' = b \<or> b' = b\<lparr>buf_bytes := drop ?m (buf_bytes b), buf_rpos := buf_rpos b - ?m,
      buf_saves := map (\<lambda>(r, w). (r - ?m, w - ?m)) (buf_saves b)\<rparr>"
    and r: "r = int (length (buf_rest b'))"
    using assms(2) m ok
    by (auto simp: buf_refill_def buf_refill_compact_def Let_def buf_ok_def buf_rest_def buf_wpos_def
        of_nat_diff split: if_splits)
  then consider "b' = b" | "b' = b\<lparr>buf_bytes := drop ?m (buf_bytes b), buf_rpos := buf_rpos b - ?m,
      buf_saves := map (\<lambda>(r, w). (r - ?m, w - ?m)) (buf_saves b)\<rparr>" by blast
  then have "buf_view b' = buf_view b \<and> buf_reads b'"
  proof cases
    case 2
    have "buf_ok b'" using ok m by (auto simp: 2 buf_ok_def buf_wpos_def)
    moreover have "buf_reads b'"
      using \<open>buf_ok b'\<close> save by (fastforce simp: 2 buf_reads_def buf_wpos_def)
    ultimately show ?thesis
      using m save by (auto simp: buf_view_def 2 buf_rest_def)
  qed (use assms(1) in simp)
  then show "buf_view b' = buf_view b" "buf_reads b'" by auto
  then show "r = int (length (buf_rest b))" using r by (metis buf_view_rest)
qed

lemma buf_init_const_view:
  "buf_reads (buf_init_const xs)" "buf_rest (buf_init_const xs) = xs"
  by (simp_all add: buf_reads_def buf_ok_def buf_wpos_def buf_init_const_def buf_rest_def)

lemma buf_reads_forward: "buf_reads b \<Longrightarrow> n \<le> length (buf_rest b) \<Longrightarrow> buf_reads (buf_forward b n)"
  by (auto simp: buf_reads_def buf_ok_def buf_wpos_def buf_rest_def)

lemma buf_view_forward: "buf_view (buf_forward b n) = (buf_view b)\<lparr>view_rest := drop n (buf_rest b)\<rparr>"
  by (simp add: buf_view_def buf_rest_def add.commute)

lemma buf_view_save_init:
  "buf_reads b \<Longrightarrow> buf_reads (buf_save_init b)"
  "buf_view (buf_save_init b) = (buf_view b)\<lparr>view_saves := (buf_rest b, buf_wpos b - buf_rpos b) # view_saves (buf_view b)\<rparr>"
  by (auto simp: buf_reads_def buf_save_init_def buf_ok_def buf_wpos_def buf_view_def buf_rest_def)

lemma buf_view_save_clean:
  "buf_reads b \<Longrightarrow> buf_reads (buf_save_clean b)"
  "buf_view (buf_save_clean b) = (buf_view b)\<lparr>view_saves := tl (view_saves (buf_view b))\<rparr>"
  by (cases "buf_saves b"; auto simp: buf_reads_def buf_save_clean_def buf_ok_def buf_wpos_def buf_view_def buf_rest_def)+

lemma buf_view_restore:
  assumes "buf_reads b" "view_saves (buf_view b) \<noteq> []"
  shows "buf_reads (buf_save_restore_rpos b)"
    "buf_view (buf_save_restore_rpos b) = (buf_view b)\<lparr>view_rest := fst (hd (view_saves (buf_view b)))\<rparr>"
proof -
  obtain r w ss where s: "buf_saves b = (r, w) # ss"
    using assms(2) by (cases "buf_saves b") (auto simp: buf_view_def)
  show "buf_reads (buf_save_restore_rpos b)"
    using assms(1) s by (auto simp: buf_reads_def buf_save_restore_rpos_def buf_ok_def buf_wpos_def)
  show "buf_view (buf_save_restore_rpos b) = (buf_view b)\<lparr>view_rest := fst (hd (view_saves (buf_view b)))\<rparr>"
    using s by (simp add: buf_view_def buf_save_restore_rpos_def buf_rest_def)
qed

section \<open>Characters and literals\<close>

text \<open>The next character of a text, as a buffer decodes it.\<close>

lemma buf_rest_nth: "buf_ok b \<Longrightarrow> i < length (buf_rest b) \<Longrightarrow> buf_at b i = buf_rest b ! i"
  by (auto simp: buf_rest_def buf_ok_def buf_wpos_def)

definition decode_tail :: "u8 list \<Rightarrow> nat \<Rightarrow> u32 \<Rightarrow> u32 got" where
  "decode_tail xs n c =
    (if length xs < n then Stop (- 1)
     else if \<not> utf8_continuation (xs ! 1) then Stop 0
     else if 3 \<le> n \<and> \<not> utf8_continuation (xs ! 2) then Stop 0
     else if 4 \<le> n \<and> \<not> utf8_continuation (xs ! 3) then Stop 0
     else Got c n)"

definition decode_character :: "u8 list \<Rightarrow> u32 got" where
  "decode_character xs =
    (if xs = [] then Stop (- 1)
     else if xs ! 0 AND 0x80 = 0 then Got (ucast (xs ! 0)) 1
     else if xs ! 0 AND 0xE0 = 0xC0 then decode_tail xs 2 (utf8_2 (xs ! 0) (xs ! 1))
     else if xs ! 0 AND 0xF0 = 0xE0 then decode_tail xs 3 (utf8_3 (xs ! 0) (xs ! 1) (xs ! 2))
     else if xs ! 0 AND 0xF8 = 0xF0 then decode_tail xs 4 (utf8_4 (xs ! 0) (xs ! 1) (xs ! 2) (xs ! 3))
     else Stop 0)"

lemma buf_peek_utf8_tail_view:
  assumes "buf_reads b" "buf_peek_utf8_tail b n f = (x, b')" "2 \<le> n" "n \<le> 4"
    and "\<And>c. (\<And>i. i < n \<Longrightarrow> n \<le> length (buf_rest b) \<Longrightarrow> buf_at c i = buf_rest b ! i) \<Longrightarrow>
      n \<le> length (buf_rest b) \<Longrightarrow> f c = v"
  shows "buf_view b' = buf_view b \<and> buf_reads b' \<and> x = decode_tail (buf_rest b) n v"
proof -
  obtain r b1 where r: "buf_refill b (int n) = (r, b1)" by fastforce
  note refill = buf_refill_view [OF assms(1) r]
  have ok: "buf_ok b1" using refill(2) by (simp add: buf_reads_def)
  have rest: "buf_rest b1 = buf_rest b" using refill(1) by (metis buf_view_rest)
  have at: "buf_at b1 i = buf_rest b ! i" if "i < n" "n \<le> length (buf_rest b)" for i
    using buf_rest_nth [OF ok] rest that by simp
  have f: "f b1 = v" if "n \<le> length (buf_rest b)"
    using assms(5) [OF at that] by blast
  have "b' = b1"
    using assms(2) by (auto simp: buf_peek_utf8_tail_def r split: if_splits)
  moreover have "x = decode_tail (buf_rest b) n v"
  proof (cases "n \<le> length (buf_rest b)")
    case True
    then show ?thesis
      using assms(2-4) refill(3) at [of 1] at [of 2] at [of 3] f
      by (cases "3 \<le> n"; cases "4 \<le> n") (auto simp: buf_peek_utf8_tail_def r decode_tail_def split: if_splits)
  next
    case False
    then show ?thesis
      using assms(2) refill(3) by (auto simp: buf_peek_utf8_tail_def r decode_tail_def split: if_splits)
  qed
  ultimately show ?thesis using refill by simp
qed

lemma buf_peek_character_view:
  assumes "buf_reads b" "buf_peek_character_utf8 b = (x, b')"
  shows "buf_view b' = buf_view b" "buf_reads b'" "x = decode_character (buf_rest b)"
proof -
  obtain r b1 where r: "buf_refill b 1 = (r, b1)" by fastforce
  note refill = buf_refill_view [OF assms(1), of 1, simplified, OF r]
  have ok: "buf_ok b1" using refill(2) by (simp add: buf_reads_def)
  have rest: "buf_rest b1 = buf_rest b" using refill(1) by (metis buf_view_rest)
  note tail = buf_peek_utf8_tail_view [OF refill(2), unfolded rest refill(1)]
  have "buf_view b' = buf_view b \<and> buf_reads b' \<and> x = decode_character (buf_rest b)"
  proof (cases "buf_rest b = []")
    case True
    then show ?thesis
      using assms(2) refill by (auto simp: buf_peek_character_utf8_def r decode_character_def)
  next
    case False
    have b0: "buf_at b1 0 = buf_rest b ! 0" using buf_rest_nth [OF ok, of 0] False rest by simp
    have "\<not> r < 0" "\<not> r < 1" using False refill(3) by simp_all
    note peek = assms(2) [unfolded buf_peek_character_utf8_def r prod.case Let_def b0 if_not_P [OF this(1)]
      if_not_P [OF this(2)]]
    consider "buf_rest b ! 0 AND 0x80 = 0" | "buf_rest b ! 0 AND 0x80 \<noteq> 0" "buf_rest b ! 0 AND 0xE0 = 0xC0"
      | "buf_rest b ! 0 AND 0x80 \<noteq> 0" "buf_rest b ! 0 AND 0xE0 \<noteq> 0xC0" "buf_rest b ! 0 AND 0xF0 = 0xE0"
      | "buf_rest b ! 0 AND 0x80 \<noteq> 0" "buf_rest b ! 0 AND 0xE0 \<noteq> 0xC0" "buf_rest b ! 0 AND 0xF0 \<noteq> 0xE0"
        "buf_rest b ! 0 AND 0xF8 = 0xF0"
      | "buf_rest b ! 0 AND 0x80 \<noteq> 0" "buf_rest b ! 0 AND 0xE0 \<noteq> 0xC0" "buf_rest b ! 0 AND 0xF0 \<noteq> 0xE0"
        "buf_rest b ! 0 AND 0xF8 \<noteq> 0xF0" by blast
    then show ?thesis
    proof cases
      case 1
      then show ?thesis using peek False refill(1,2) by (simp add: decode_character_def)
    next
      case 2
      have v: "utf8_2 (buf_at c 0) (buf_at c 1) = utf8_2 (buf_rest b ! 0) (buf_rest b ! 1)"
        if "\<And>i. i < 2 \<Longrightarrow> 2 \<le> length (buf_rest b) \<Longrightarrow> buf_at c i = buf_rest b ! i"
          "2 \<le> length (buf_rest b)" for c
        using that(1) [of 0] that(1) [of 1] that(2) by simp
      have "buf_peek_utf8_tail b1 2 (\<lambda>b. utf8_2 (buf_at b 0) (buf_at b 1)) = (x, b')"
        using peek 2 by simp
      from tail [OF this _ _ v] show ?thesis
        using 2 False by (simp add: decode_character_def)
    next
      case 3
      have v: "utf8_3 (buf_at c 0) (buf_at c 1) (buf_at c 2) = utf8_3 (buf_rest b ! 0) (buf_rest b ! 1) (buf_rest b ! 2)"
        if "\<And>i. i < 3 \<Longrightarrow> 3 \<le> length (buf_rest b) \<Longrightarrow> buf_at c i = buf_rest b ! i"
          "3 \<le> length (buf_rest b)" for c
        using that(1) [of 0] that(1) [of 1] that(1) [of 2] that(2) by simp
      have "buf_peek_utf8_tail b1 3 (\<lambda>b. utf8_3 (buf_at b 0) (buf_at b 1) (buf_at b 2)) = (x, b')"
        using peek 3 by simp
      from tail [OF this _ _ v] show ?thesis
        using 3 False by (simp add: decode_character_def)
    next
      case 4
      have v: "utf8_4 (buf_at c 0) (buf_at c 1) (buf_at c 2) (buf_at c 3) = utf8_4 (buf_rest b ! 0) (buf_rest b ! 1) (buf_rest b ! 2) (buf_rest b ! 3)"
        if "\<And>i. i < 4 \<Longrightarrow> 4 \<le> length (buf_rest b) \<Longrightarrow> buf_at c i = buf_rest b ! i"
          "4 \<le> length (buf_rest b)" for c
        using that(1) [of 0] that(1) [of 1] that(1) [of 2] that(1) [of 3] that(2) by simp
      have "buf_peek_utf8_tail b1 4 (\<lambda>b. utf8_4 (buf_at b 0) (buf_at b 1) (buf_at b 2) (buf_at b 3)) = (x, b')"
        using peek 4 by simp
      from tail [OF this _ _ v] show ?thesis
        using 4 False by (simp add: decode_character_def)
    next
      case 5
      then show ?thesis using peek False refill(1,2) by (simp add: decode_character_def)
    qed
  qed
  then show "buf_view b' = buf_view b" "buf_reads b'" "x = decode_character (buf_rest b)" by auto
qed

lemma decode_character_length: "decode_character xs = Got c n \<Longrightarrow> 0 < n \<and> n \<le> length xs"
  by (auto simp: decode_character_def decode_tail_def Suc_le_eq split: if_splits)

lemma decode_ascii:
  assumes "c < 0x80"
  shows "decode_character (c # xs) = Got (ucast c) 1"
proof -
  have "c AND 0x80 = 0"
  proof (rule bit_word_eqI)
    fix n assume "n < LENGTH(8)"
    have "uint c < 2 ^ 7" using assms by (simp add: word_less_alt)
    then have "take_bit 7 c = c"
      by (simp add: word_uint_eq_iff unsigned_take_bit_eq take_bit_int_eq_self)
    then have "\<not> bit c 7" using bit_take_bit_iff [of 7 c 7] by simp
    then show "bit (c AND 0x80) n = bit 0 n" using \<open>n < LENGTH(8)\<close> by (auto simp: bit_simps dest!: less_8_cases)
  qed
  then show ?thesis by (simp add: decode_character_def)
qed

lemma buf_read_character_view:
  assumes "buf_reads b" "buf_read_character_utf8 b = (x, b')"
  shows "buf_reads b'" "x = decode_character (buf_rest b)"
    "buf_view b' = (case x of Got c n \<Rightarrow> (buf_view b)\<lparr>view_rest := drop n (buf_rest b)\<rparr> | Stop r \<Rightarrow> buf_view b)"
proof -
  obtain y b1 where y: "buf_peek_character_utf8 b = (y, b1)" by fastforce
  note peek = buf_peek_character_view [OF assms(1) y]
  have rest: "buf_rest b1 = buf_rest b" using peek(1) by (metis buf_view_rest)
  have b': "b' = (case y of Got c n \<Rightarrow> buf_forward b1 n | Stop r \<Rightarrow> b1)" and x: "x = y"
    using assms(2) by (auto simp: buf_read_character_utf8_def y split: got.splits)
  have "n \<le> length (buf_rest b1)" if "y = Got c n" for c n
    using decode_character_length [of "buf_rest b" c n] peek(3) that rest by simp
  then show "buf_reads b'"
    using peek(2) by (auto simp: b' intro: buf_reads_forward split: got.splits)
  show "x = decode_character (buf_rest b)" using x peek(3) by simp
  show "buf_view b' = (case x of Got c n \<Rightarrow> (buf_view b)\<lparr>view_rest := drop n (buf_rest b)\<rparr> | Stop r \<Rightarrow> buf_view b)"
    unfolding b' x by (auto simp: buf_view_forward peek(1) rest split: got.splits)
qed

text \<open>A literal is skipped when it is next, otherwise nothing happens.\<close>

lemma buf_next_rest: "buf_ok b \<Longrightarrow> buf_next b xs \<longleftrightarrow> take (length xs) (buf_rest b) = xs"
  by (auto simp: buf_next_def buf_rest_def)

lemma buf_peek_str_view:
  assumes "buf_reads b" "xs \<noteq> []" "buf_peek_str b xs = (r, b')"
  shows "buf_view b' = buf_view b" "buf_reads b'"
    "r = (if take (length xs) (buf_rest b) = xs then int (length xs) else 0)"
proof -
  have ok: "buf_rpos b \<le> buf_wpos b" "buf_wpos b \<le> buf_size b" using assms(1) by (auto simp: buf_reads_def buf_ok_def)
  have len: "buf_wpos b - buf_rpos b = length (buf_rest b)" by (simp add: length_buf_rest)
  have short: "take (length xs) (buf_rest b) \<noteq> xs" if "length (buf_rest b) < length xs"
    using that by (metis length_take min.absorb_iff2 nat_less_le not_le)
  obtain q c where q: "buf_refill b (int (length xs)) = (q, c)" by fastforce
  note refill = buf_refill_view [OF assms(1) q]
  note unf = assms(3) [unfolded buf_peek_str_def Let_def len]
  have "buf_view b' = buf_view b \<and> buf_reads b' \<and>
    r = (if take (length xs) (buf_rest b) = xs then int (length xs) else 0)"
  proof (cases "length (buf_rest b) < length xs")
    case True
    then have "buf_wpos b < buf_rpos b + length xs" using len ok by linarith
    then show ?thesis
      using unf True short ok assms(1,2) q refill by (auto split: if_splits)
  next
    case False
    then have "\<not> buf_wpos b < buf_rpos b + length xs" using len ok by linarith
    then show ?thesis
      using unf False ok assms(1,2) by (auto simp: buf_rest_def split: if_splits)
  qed
  then show "buf_view b' = buf_view b" "buf_reads b'"
    "r = (if take (length xs) (buf_rest b) = xs then int (length xs) else 0)" by auto
qed

lemma buf_read_1_view:
  assumes "buf_reads b" "ascii p" "buf_read_1 b p = (r, b')"
  shows "buf_reads b'"
    "r = (if take (length p) (buf_rest b) = c_str p then int (length p) else 0)"
    "buf_view b' = (buf_view b)\<lparr>view_rest := drop (nat r) (buf_rest b)\<rparr>"
proof -
  have ne: "c_str p \<noteq> []" "0 < length p" using assms(2) by (auto simp: ascii_def c_str_def)
  obtain q c where q: "buf_peek_str b (c_str p) = (q, c)" by fastforce
  note peek = buf_peek_str_view [OF assms(1) ne(1) q]
  have rest: "buf_rest c = buf_rest b" using peek(1) by (metis buf_view_rest)
  have ok: "buf_ok c" using peek(2) by (simp add: buf_reads_def)
  have "buf_reads b' \<and> r = (if take (length p) (buf_rest b) = c_str p then int (length p) else 0) \<and>
    buf_view b' = (buf_view b)\<lparr>view_rest := drop (nat r) (buf_rest b)\<rparr>"
  proof (cases "take (length p) (buf_rest b) = c_str p")
    case True
    then have bn: "buf_next c (c_str p)" by (simp add: buf_next_rest [OF ok] rest)
    have q': "q = int (length p)" using peek(3) True by simp
    have "buf_refill c (int (length p)) = (int (buf_wpos c) - int (buf_rpos c), c)"
      using buf_next_room [OF bn] by (intro buf_refill_enough) auto
    moreover have "buf_ignore_loop c 0 (length p) = (int (length p), buf_forward c (length p))"
      using buf_ignore_loop_text [OF c_str_encode(2) [OF assms(2)], of c 0] bn
      by (simp add: c_str_encode(1) [OF assms(2), symmetric])
    ultimately have "(r, b') = (int (length p), buf_forward c (length p))"
      using assms(3) ne buf_next_room [OF bn]
      by (auto simp: buf_read_1_def buf_read_str_def q q' buf_ignore_def)
    moreover have "length p \<le> length (buf_rest c)"
      using buf_next_room [OF bn] by (simp add: length_buf_rest)
    ultimately show ?thesis
      using True peek rest by (auto simp: buf_view_forward intro: buf_reads_forward)
  next
    case False
    then have "q = 0" using peek(3) by simp
    then have "r = 0" "b' = c" using assms(3) by (simp_all add: buf_read_1_def buf_read_str_def q)
    then show ?thesis using False peek rest by (simp add: buf_view_def)
  qed
  then show "buf_reads b'" "r = (if take (length p) (buf_rest b) = c_str p then int (length p) else 0)"
    "buf_view b' = (buf_view b)\<lparr>view_rest := drop (nat r) (buf_rest b)\<rparr>" by auto
qed

end
