(* ===== verification/Int_Text.thy ===== *)
theory Int_Text
  imports Buf_Save Tags C_Div
begin

text \<open>
  Machine integers as text: the templates buf_inspect_u.c.in, buf_inspect_s.c.in,
  buf_inspect_u_base.c.in, buf_inspect_s_base.c.in, buf_parse_u.c.in and buf_parse_s.c.in, from
  which the files of the ten integer types are generated, with the functions on characters and
  bases of str.c and buf_parse.c that they call.

  A definition over \<open>'a word\<close> is the template, the type of its word the one that the file is
  generated for.  The messages on the standard error are left out, and the assertions, which the
  release build compiles out.  A base is a string of digits.  A parser returns its result and the
  value stored through \<open>dest\<close>, whether it wrote there or not.
\<close>

section \<open>Characters of a string (str.c)\<close>

text \<open>\<open>None\<close>: the character was not written.\<close>

function str_character_loop :: "str \<Rightarrow> nat \<Rightarrow> nat \<Rightarrow> int \<Rightarrow> u32 option \<Rightarrow> int \<times> u32 option" where
  "str_character_loop s position i r c =
    (if 0 < length s \<and> i \<le> position then
       (case str_read_character_utf8 s of
         (Got c n, s) \<Rightarrow> str_character_loop s position (i + 1) (int n) (Some c)
       | (Stop _, _) \<Rightarrow> (- 1, None))
     else (r, c))"
  by auto
termination
  by (relation "measure (\<lambda>(s, position, i, r, c). length s)")
    (auto simp: str_read_character_utf8_def split: if_splits got.splits dest: str_peek_length)

declare str_character_loop.simps [simp del]

definition str_character :: "str \<Rightarrow> nat \<Rightarrow> int \<times> u32 option" where
  "str_character s position = str_character_loop s position 0 0 None"

function str_character_position_loop :: "str \<Rightarrow> u32 \<Rightarrow> int \<Rightarrow> int" where
  "str_character_position_loop tmp c i =
    (if length tmp = 0 then - 1
     else case str_read_character_utf8 tmp of
       (Got tmp_c _, tmp) \<Rightarrow> if c = tmp_c then i else str_character_position_loop tmp c (i + 1)
     | (Stop _, _) \<Rightarrow> - 1)"
  by auto
termination
  by (relation "measure (\<lambda>(tmp, c, i). length tmp)")
    (auto simp: str_read_character_utf8_def split: if_splits got.splits dest: str_peek_length)

declare str_character_position_loop.simps [simp del]

definition str_character_position :: "str \<Rightarrow> u32 \<Rightarrow> int" where
  "str_character_position s c = str_character_position_loop s c 0"

function str_length_utf8_loop :: "str \<Rightarrow> int \<Rightarrow> int" where
  "str_length_utf8_loop tmp result = (case str_read_character_utf8 tmp of
      (Got _ _, tmp) \<Rightarrow> str_length_utf8_loop tmp (result + 1)
    | (Stop r, _) \<Rightarrow> if r < 0 then r else result)"
  by auto
termination
  by (relation "measure (\<lambda>(tmp, result). length tmp)")
    (auto simp: str_read_character_utf8_def split: if_splits got.splits dest: str_peek_length)

declare str_length_utf8_loop.simps [simp del]

definition str_length_utf8 :: "str \<Rightarrow> int" where
  "str_length_utf8 s = str_length_utf8_loop s 0"

section \<open>Bases\<close>

definition g_kc3_base_binary :: str where
  "g_kc3_base_binary = c_str ''01''"

definition g_kc3_base_octal :: str where
  "g_kc3_base_octal = c_str ''01234567''"

definition g_kc3_base_decimal :: str where
  "g_kc3_base_decimal = c_str ''0123456789''"

definition g_kc3_base_hexadecimal :: str where
  "g_kc3_base_hexadecimal = c_str ''0123456789abcdef''"

definition g_kc3_bases_hexadecimal :: "str \<times> str" where
  "g_kc3_bases_hexadecimal = (c_str ''0123456789abcdef'', c_str ''0123456789ABCDEF'')"

text \<open>Digits and spaces in a buffer.  \<open>is_space\<close> stands for the table of Unicode characters.\<close>

definition buf_parse_digit :: "buf \<Rightarrow> str \<Rightarrow> u8 got \<times> buf" where
  "buf_parse_digit b base = (case buf_peek_character_utf8 b of
      (Stop r, b) \<Rightarrow> (Stop r, b)
    | (Got c _, b) \<Rightarrow>
        (let digit = str_character_position base c in
         if 0 \<le> digit then
           if 255 < digit then (Stop (- 1), b)
           else map_got (\<lambda>_. word_of_int digit) (buf_read_character_utf8 b)
         else (Stop 0, b)))"

lemma buf_refill_rest:
  assumes "buf_refill b n = (r, b')"
  shows "length (buf_rest b') = length (buf_rest b)" "0 \<le> r \<Longrightarrow> r \<le> int (length (buf_rest b'))"
  using assms buf_save_min_rpos_le [of b]
  by (auto simp: buf_refill_def buf_refill_compact_def Let_def length_buf_rest buf_wpos_def split: if_splits)

lemma buf_peek_tail_rest:
  assumes "buf_peek_utf8_tail b n f = (x, b')"
  shows "length (buf_rest b') = length (buf_rest b) \<and> (\<forall>c m. x = Got c m \<longrightarrow> m \<le> length (buf_rest b'))"
proof -
  obtain r b1 where r: "buf_refill b (int n) = (r, b1)" by fastforce
  show ?thesis
    using assms buf_refill_rest [OF r] by (auto simp: buf_peek_utf8_tail_def r split: if_splits)
qed

lemma buf_peek_character_rest:
  assumes "buf_peek_character_utf8 b = (x, b')"
  shows "length (buf_rest b') = length (buf_rest b) \<and> (\<forall>c m. x = Got c m \<longrightarrow> m \<le> length (buf_rest b'))"
proof -
  obtain r b1 where r: "buf_refill b 1 = (r, b1)" by fastforce
  show ?thesis
    using assms buf_refill_rest [OF r] buf_peek_tail_rest [of b1 _ _ x b']
    by (auto simp: buf_peek_character_utf8_def r Let_def split: if_splits)
qed

lemma buf_read_character_rest:
  "buf_read_character_utf8 b = (Got c n, b') \<Longrightarrow> length (buf_rest b') < length (buf_rest b)"
  using buf_peek_character_rest [of b] buf_peek_character_pos [of b c n]
  by (fastforce simp: buf_read_character_utf8_def buf_rest_def split: prod.splits got.splits)

lemma buf_parse_digit_rest:
  "buf_parse_digit b base = (Got d n, b') \<Longrightarrow> length (buf_rest b') < length (buf_rest b)"
  using buf_peek_character_rest [of b]
  by (fastforce simp: buf_parse_digit_def Let_def map_got_Got split: prod.splits got.splits if_splits
      dest: buf_read_character_rest)

lemma buf_read_u8_rest:
  "buf_read_u8 b = (x, b') \<Longrightarrow> length (buf_rest b') \<le> length (buf_rest b)"
  "buf_read_u8 b = (Got y n, b') \<Longrightarrow> length (buf_rest b') < length (buf_rest b)"
proof -
  obtain r b1 where r: "buf_refill b 1 = (r, b1)" by fastforce
  note refill = buf_refill_rest [OF r]
  show "buf_read_u8 b = (x, b') \<Longrightarrow> length (buf_rest b') \<le> length (buf_rest b)"
    "buf_read_u8 b = (Got y n, b') \<Longrightarrow> length (buf_rest b') < length (buf_rest b)"
    using refill
    by (auto simp: buf_read_u8_def buf_read_mem_def buf_peek_mem_def r Let_def length_buf_rest buf_wpos_def
        split: if_splits prod.splits)
qed

lemma buf_read_character_rest_le:
  "buf_read_character_utf8 b = (x, b') \<Longrightarrow> length (buf_rest b') \<le> length (buf_rest b)"
  using buf_peek_character_rest [of b] buf_read_character_rest [of b]
  by (cases x) (fastforce simp: buf_read_character_utf8_def split: prod.splits got.splits)+

lemma buf_ignore_loop_rest:
  "buf_ignore_loop b i sz = (r, b') \<Longrightarrow>
    length (buf_rest b') \<le> length (buf_rest b) \<and> (i < sz \<and> 0 \<le> r \<longrightarrow> length (buf_rest b') < length (buf_rest b))"
proof (induction b i sz arbitrary: r b' rule: buf_ignore_loop.induct)
  case (1 b i sz)
  show ?case
  proof (cases "sz \<le> i")
    case True
    then show ?thesis using 1(3) by (subst (asm) buf_ignore_loop.simps) auto
  next
    case False
    obtain x b1 where x: "buf_read_character_utf8 b = (x, b1)" by fastforce
    show ?thesis
    proof (cases x)
      case (Got c n)
      then have "buf_ignore_loop b1 (i + n) sz = (r, b')"
        using 1(3) False x by (subst (asm) buf_ignore_loop.simps) auto
      then show ?thesis
        using 1(1) [OF False x [symmetric] Got] buf_read_character_rest [of b c n b1] x Got by fastforce
    next
      case (Stop q)
      obtain y b2 where y: "buf_read_u8 b1 = (y, b2)" by fastforce
      note le = buf_read_character_rest_le [OF x]
      show ?thesis
      proof (cases y)
        case (Got v n)
        then have "buf_ignore_loop b2 (i + n) sz = (r, b')"
          using 1(3) False x y Stop by (subst (asm) buf_ignore_loop.simps) auto
        then show ?thesis
          using 1(2) [OF False x [symmetric] Stop y [symmetric] Got] buf_read_u8_rest(2) [of b1 v n b2] y Got le
          by fastforce
      next
        case (Stop k)
        then have "b' = b2 \<and> r < 0"
          using 1(3) False x y \<open>x = Stop q\<close> by (subst (asm) buf_ignore_loop.simps) (auto split: if_splits)
        then show ?thesis using buf_read_u8_rest(1) [OF y] le by auto
      qed
    qed
  qed
qed

lemma buf_ignore_rest:
  "buf_ignore b n = (r, b') \<Longrightarrow> 0 < n \<Longrightarrow> 0 \<le> r \<Longrightarrow> length (buf_rest b') < length (buf_rest b)"
  using buf_refill_rest [of b "int n"] buf_ignore_loop_rest [of _ 0 n r b']
  by (fastforce simp: buf_ignore_def split: prod.splits if_splits)

function buf_ignore_spaces_loop :: "(u32 \<Rightarrow> bool) \<Rightarrow> buf \<Rightarrow> int \<Rightarrow> int \<times> buf" where
  "buf_ignore_spaces_loop is_space b result = (case buf_peek_character_utf8 b of
      (Got c csize, b) \<Rightarrow>
        (if is_space c then
           (case buf_ignore b csize of (r, b) \<Rightarrow>
             if r < 0 then (r, b) else buf_ignore_spaces_loop is_space b (result + int csize))
         else (result, b))
    | (Stop r, b) \<Rightarrow> (if result = 0 \<and> r < 0 then r else result, b))"
  by auto
termination
  by (relation "measure (\<lambda>(is_space, b, result). length (buf_rest b))")
    (fastforce dest!: sym [of "(_, _)"] dest: buf_ignore_rest buf_peek_character_rest buf_peek_character_pos)+

declare buf_ignore_spaces_loop.simps [simp del]

definition buf_ignore_spaces :: "(u32 \<Rightarrow> bool) \<Rightarrow> buf \<Rightarrow> int \<times> buf" where
  "buf_ignore_spaces is_space b = buf_ignore_spaces_loop is_space b 0"

section \<open>Parsing: buf_parse_u.c.in\<close>

text \<open>How the loop over the digits ends: the number of bytes and the value, or an error.\<close>

datatype 'a digits = Digits int 'a | Bad_Digit | Overflow | Undefined

function buf_parse_u_loop :: "buf \<Rightarrow> str \<Rightarrow> int \<Rightarrow> int \<Rightarrow> 'a::len word \<Rightarrow> 'a word digits \<times> buf" where
  "buf_parse_u_loop b base radix result u = (case buf_parse_digit b base of
      (Got digit r, b) \<Rightarrow>
        (if radix \<le> uint digit then (Bad_Digit, b)
         else if (2 ^ LENGTH('a) - 1 - uint digit) div radix < uint u then (Overflow, b)
         else buf_parse_u_loop b base radix (result + int r) (u * word_of_int radix + ucast digit))
    | (Stop _, b) \<Rightarrow> (Digits result u, b))"
  by auto
termination
  by (relation "measure (\<lambda>(b, base, radix, result, u). length (buf_rest b))")
    (auto dest!: sym [of "(_, _)"] dest: buf_parse_digit_rest)

declare buf_parse_u_loop.simps [simp del]

definition buf_parse_u_base :: "buf \<Rightarrow> str \<Rightarrow> 'a::len word \<Rightarrow> (int \<times> 'a word) \<times> buf" where
  "buf_parse_u_base b base dest = (let b = buf_save_init b; radix = str_length_utf8 base in
    if radix < 2 \<or> (LENGTH('a) < 64 \<and> 2 ^ LENGTH('a) - 1 < radix) then ((- 1, dest), buf_save_clean b)
    else case buf_parse_u_loop b base radix 0 (0 :: 'a word) of
      (Digits result u, b) \<Rightarrow> ((result, u), buf_save_clean b)
    | (Overflow, b) \<Rightarrow> ((- 1, dest), buf_save_clean (buf_save_restore_rpos b))
    | (_, b) \<Rightarrow> ((- 1, dest), buf_save_clean b))"

text \<open>The branch of a prefix: the digits in the base, their absence being an error too.\<close>

definition buf_parse_u_prefixed :: "buf \<Rightarrow> str \<Rightarrow> int \<Rightarrow> 'a::len word \<Rightarrow> (int \<times> 'a word) \<times> buf" where
  "buf_parse_u_prefixed b base result dest = (case buf_parse_u_base b base dest of ((r, dest), b) \<Rightarrow>
    if r \<le> 0 then ((r, dest), buf_save_clean (buf_save_restore_rpos b))
    else ((result + r, dest), buf_save_clean b))"

text \<open>
  Hexadecimal digits are read in lower case and again in upper case, and the longer number counts.
\<close>

definition buf_parse_u_hex :: "buf \<Rightarrow> int \<Rightarrow> 'a::len word \<Rightarrow> (int \<times> 'a word) \<times> buf" where
  "buf_parse_u_hex b result dest = (let b = buf_save_init b in
    case buf_parse_u_base b (fst g_kc3_bases_hexadecimal) (0 :: 'a word) of ((r, tmp), b) \<Rightarrow>
      if r < 0 then ((r, dest), buf_save_clean (buf_save_restore_rpos (buf_save_clean b)))
      else let b = buf_save_clean (buf_save_restore_rpos b) in
        case buf_parse_u_base b (snd g_kc3_bases_hexadecimal) (0 :: 'a word) of ((r1, tmp1), b) \<Rightarrow>
          if r1 < 0 then ((r1, dest), buf_save_clean (buf_save_restore_rpos b))
          else if r = 0 \<and> r1 = 0 then ((r, dest), buf_save_clean (buf_save_restore_rpos b))
          else if r1 < r then ((result + r, tmp), buf_save_clean b)
          else ((result + r1, tmp1), buf_save_clean b))"

definition buf_parse_u :: "buf \<Rightarrow> 'a::len word \<Rightarrow> (int \<times> 'a word) \<times> buf" where
  "buf_parse_u b dest = (case buf_read_1 (buf_save_init b) ''0b'' of (r, b) \<Rightarrow>
    if r < 0 then ((r, dest), buf_save_clean (buf_save_restore_rpos b))
    else if 0 < r then buf_parse_u_prefixed b g_kc3_base_binary r dest
    else case buf_read_1 b ''0o'' of (r, b) \<Rightarrow>
      if r < 0 then ((r, dest), buf_save_clean (buf_save_restore_rpos b))
      else if 0 < r then buf_parse_u_prefixed b g_kc3_base_octal r dest
      else case buf_read_1 b ''0x'' of (r, b) \<Rightarrow>
        if r < 0 then ((r, dest), buf_save_clean (buf_save_restore_rpos b))
        else if 0 < r then buf_parse_u_hex b r dest
        else buf_parse_u_prefixed b g_kc3_base_decimal 0 dest)"

definition buf_parse_u_decimal :: "buf \<Rightarrow> 'a::len word \<Rightarrow> (int \<times> 'a word) \<times> buf" where
  "buf_parse_u_decimal b dest = buf_parse_u_base b g_kc3_base_decimal dest"

definition buf_parse_u_hexadecimal :: "buf \<Rightarrow> 'a::len word \<Rightarrow> (int \<times> 'a word) \<times> buf" where
  "buf_parse_u_hexadecimal b dest = buf_parse_u_base b g_kc3_base_hexadecimal dest"

text \<open>Tags of the type; \<open>tag_of\<close> sets the type and the value, \<open>None\<close> is NULL.\<close>

definition buf_parse_tag_u :: "('a::len word \<Rightarrow> tag) \<Rightarrow> buf \<Rightarrow> tag option \<times> buf" where
  "buf_parse_tag_u tag_of b = (case buf_parse_u b 0 of ((r, x), b) \<Rightarrow>
    (if r \<le> 0 then None else Some (tag_of x), b))"

definition buf_parse_tag_u_base :: "('a::len word \<Rightarrow> tag) \<Rightarrow> buf \<Rightarrow> str \<Rightarrow> tag option \<times> buf" where
  "buf_parse_tag_u_base tag_of b base = (case buf_parse_u_base b base 0 of ((r, x), b) \<Rightarrow>
    (if r \<le> 0 then None else Some (tag_of x), b))"

section \<open>Parsing: buf_parse_s.c.in\<close>

text \<open>
  \<open>abs_s\<close>, \<open>sign_s\<close> and \<open>ceiling_s\<close> (abs.c, sign.c, ceiling.c).  The types of at least 32 bits are
  not promoted: the negation of their least value is undefined.
\<close>

abbreviation s_min :: "'a::len itself \<Rightarrow> int" where
  "s_min a \<equiv> - (2 ^ (LENGTH('a) - 1))"

abbreviation s_max :: "'a::len itself \<Rightarrow> int" where
  "s_max a \<equiv> 2 ^ (LENGTH('a) - 1) - 1"

definition s_neg :: "'a::len word \<Rightarrow> 'a word outcome" where
  "s_neg x = (if 32 \<le> LENGTH('a) \<and> sint x = s_min TYPE('a) then Undef else Ok (- x))"

definition abs_s :: "'a::len word \<Rightarrow> 'a word outcome" where
  "abs_s a = (if sint a < 0 then s_neg a else Ok a)"

definition sign_s :: "'a::len word \<Rightarrow> int" where
  "sign_s a = (if sint a < 0 then - 1 else if sint a = 0 then 0 else 1)"

definition ceiling_s :: "'a::len word \<Rightarrow> 'a word \<Rightarrow> 'a word outcome" where
  "ceiling_s a b = (let sign = sign_s a * sign_s b in
    outcome_bind (abs_s a) (\<lambda>a. outcome_bind (abs_s b) (\<lambda>b.
      if sint b = 0 then Undef
      else Ok (word_of_int (sign * (sint a sdiv sint b + (if sint a smod sint b \<noteq> 0 then 1 else 0)))))))"

function buf_parse_s_loop :: "buf \<Rightarrow> str \<Rightarrow> bool \<Rightarrow> int \<Rightarrow> int \<Rightarrow> 'a::len word \<Rightarrow> 'a word digits \<times> buf" where
  "buf_parse_s_loop b base negative radix result u = (case buf_parse_digit b base of
      (Got digit r, b) \<Rightarrow>
        (if radix \<le> uint digit then (Bad_Digit, b)
         else case ceiling_s (word_of_int (s_max TYPE('a)) :: 'a word) (word_of_int radix) of
           Ok c \<Rightarrow>
             (if uint c < uint u then (Overflow, b)
              else let u = u * word_of_int radix in
                if negative then
                  if 32 \<le> LENGTH('a) \<and> sint u = s_min TYPE('a) then (Undefined, b)
                  else if - sint u < s_min TYPE('a) + uint digit then (Overflow, b)
                  else buf_parse_s_loop b base negative radix (result + int r) (u + ucast digit)
                else if s_max TYPE('a) - uint digit < uint u then (Overflow, b)
                else buf_parse_s_loop b base negative radix (result + int r) (u + ucast digit))
         | _ \<Rightarrow> (Undefined, b))
    | (Stop _, b) \<Rightarrow> (Digits result u, b))"
  by auto
termination
  by (relation "measure (\<lambda>(b, base, negative, radix, result, u). length (buf_rest b))")
    (auto dest!: sym [of "(_, _)"] dest: buf_parse_digit_rest)

declare buf_parse_s_loop.simps [simp del]

text \<open>\<open>Undef\<close>: a negation on the way was undefined.\<close>

definition buf_parse_s_base :: "buf \<Rightarrow> str \<Rightarrow> bool \<Rightarrow> 'a::len word \<Rightarrow> ((int \<times> 'a word) \<times> buf) outcome" where
  "buf_parse_s_base b base negative dest = (let b = buf_save_init b; radix = str_length_utf8 base in
    if radix < 2 \<or> (LENGTH('a) < 64 \<and> s_max TYPE('a) < radix) then Ok ((- 1, dest), buf_save_clean b)
    else case buf_parse_s_loop b base negative radix 0 (0 :: 'a word) of
      (Digits result u, b) \<Rightarrow> Ok ((result, if negative then - u else u), buf_save_clean b)
    | (Overflow, b) \<Rightarrow> Ok ((- 1, dest), buf_save_clean (buf_save_restore_rpos b))
    | (Bad_Digit, b) \<Rightarrow> Ok ((- 1, dest), buf_save_clean b)
    | (Undefined, b) \<Rightarrow> Undef)"

definition buf_parse_s_prefixed ::
  "buf \<Rightarrow> str \<Rightarrow> bool \<Rightarrow> int \<Rightarrow> 'a::len word \<Rightarrow> ((int \<times> 'a word) \<times> buf) outcome" where
  "buf_parse_s_prefixed b base negative result dest =
    outcome_bind (buf_parse_s_base b base negative dest) (\<lambda>((r, dest), b).
      if r \<le> 0 then Ok ((r, dest), buf_save_clean (buf_save_restore_rpos b))
      else Ok ((result + r, dest), buf_save_clean b))"

definition buf_parse_s_hex :: "buf \<Rightarrow> bool \<Rightarrow> int \<Rightarrow> 'a::len word \<Rightarrow> ((int \<times> 'a word) \<times> buf) outcome" where
  "buf_parse_s_hex b negative result dest = (let b = buf_save_init b in
    outcome_bind (buf_parse_s_base b (fst g_kc3_bases_hexadecimal) negative (0 :: 'a word)) (\<lambda>((r, tmp), b).
      if r < 0 then Ok ((r, dest), buf_save_clean (buf_save_restore_rpos (buf_save_clean b)))
      else let b = buf_save_clean (buf_save_restore_rpos b) in
        outcome_bind (buf_parse_s_base b (snd g_kc3_bases_hexadecimal) negative (0 :: 'a word)) (\<lambda>((r1, tmp1), b).
          if r1 < 0 then Ok ((r1, dest), buf_save_clean (buf_save_restore_rpos b))
          else if r = 0 \<and> r1 = 0 then Ok ((r, dest), buf_save_clean (buf_save_restore_rpos b))
          else if r1 < r then Ok ((result + r, tmp), buf_save_clean b)
          else Ok ((result + r1, tmp1), buf_save_clean b))))"

text \<open>After the cast and the sign, \<open>result\<close> bytes so far.\<close>

definition buf_parse_s_number :: "buf \<Rightarrow> bool \<Rightarrow> int \<Rightarrow> 'a::len word \<Rightarrow> ((int \<times> 'a word) \<times> buf) outcome" where
  "buf_parse_s_number b negative result dest = (case buf_read_1 b ''0b'' of (r, b) \<Rightarrow>
    if r < 0 then Ok ((r, dest), buf_save_clean (buf_save_restore_rpos b))
    else if 0 < r then buf_parse_s_prefixed b g_kc3_base_binary negative (result + r) dest
    else case buf_read_1 b ''0o'' of (r, b) \<Rightarrow>
      if r < 0 then Ok ((r, dest), buf_save_clean (buf_save_restore_rpos b))
      else if 0 < r then buf_parse_s_prefixed b g_kc3_base_octal negative (result + r) dest
      else case buf_read_1 b ''0x'' of (r, b) \<Rightarrow>
        if r < 0 then Ok ((r, dest), buf_save_clean (buf_save_restore_rpos b))
        else if 0 < r then buf_parse_s_hex b negative (result + r) dest
        else buf_parse_s_prefixed b g_kc3_base_decimal negative result dest)"

text \<open>\<open>cast\<close> is the type in parentheses that the file of the type reads, as ''(S8)''.\<close>

definition buf_parse_s ::
  "(u32 \<Rightarrow> bool) \<Rightarrow> string \<Rightarrow> buf \<Rightarrow> 'a::len word \<Rightarrow> ((int \<times> 'a word) \<times> buf) outcome" where
  "buf_parse_s is_space cast b dest = (case buf_read_1 (buf_save_init b) cast of (r, b) \<Rightarrow>
    if r < 0 then Ok ((r, dest), buf_save_clean (buf_save_restore_rpos b))
    else case (if r \<noteq> 0 then buf_ignore_spaces is_space b else (0, b)) of (r1, b) \<Rightarrow>
      if r1 < 0 then Ok ((r1, dest), buf_save_clean (buf_save_restore_rpos b))
      else case buf_read_1 b ''-'' of (r2, b) \<Rightarrow>
        if r2 < 0 then Ok ((r2, dest), buf_save_clean (buf_save_restore_rpos b))
        else buf_parse_s_number b (0 < r2) (r + r1 + (if 0 < r2 then r2 else 0)) dest)"

definition buf_parse_s_decimal :: "buf \<Rightarrow> bool \<Rightarrow> 'a::len word \<Rightarrow> ((int \<times> 'a word) \<times> buf) outcome" where
  "buf_parse_s_decimal b negative dest = buf_parse_s_base b g_kc3_base_decimal negative dest"

definition buf_parse_tag_s ::
  "('a::len word \<Rightarrow> tag) \<Rightarrow> (u32 \<Rightarrow> bool) \<Rightarrow> string \<Rightarrow> buf \<Rightarrow> (tag option \<times> buf) outcome" where
  "buf_parse_tag_s tag_of is_space cast b = outcome_bind (buf_parse_s is_space cast b 0) (\<lambda>((r, x), b).
    Ok (if r \<le> 0 then None else Some (tag_of x), b))"

definition buf_parse_tag_s_base ::
  "('a::len word \<Rightarrow> tag) \<Rightarrow> buf \<Rightarrow> str \<Rightarrow> bool \<Rightarrow> (tag option \<times> buf) outcome" where
  "buf_parse_tag_s_base tag_of b base negative = outcome_bind (buf_parse_s_base b base negative 0) (\<lambda>((r, x), b).
    Ok (if r \<le> 0 then None else Some (tag_of x), b))"

section \<open>Printing: buf_inspect_u.c.in\<close>

text \<open>
  A run is \<open>None\<close> when the loop over the digits does not end (a base of one digit), and its outcome
  is undefined when the base is empty, by which the code divides.
\<close>

type_synonym 'a run = "'a outcome option"

definition run_bind :: "'a run \<Rightarrow> ('a \<Rightarrow> 'b run) \<Rightarrow> 'b run" where
  "run_bind m f = (case m of
      None \<Rightarrow> None
    | Some (Ok x) \<Rightarrow> f x
    | Some Null \<Rightarrow> Some Null
    | Some Abort \<Rightarrow> Some Abort
    | Some Undef \<Rightarrow> Some Undef)"

abbreviation run_ok :: "'a \<Rightarrow> 'a run" where
  "run_ok x \<equiv> Some (Ok x)"

lemma run_bind_simps [simp]:
  "run_bind (run_ok x) f = f x" "run_bind None f = None" "run_bind (Some Undef) f = Some Undef"
  by (simp_all add: run_bind_def)

definition u_div :: "'a::len word \<Rightarrow> nat \<Rightarrow> 'a word" where
  "u_div u radix = word_of_nat (unat u div radix)"

definition u_digit :: "'a::len word \<Rightarrow> nat \<Rightarrow> u8" where
  "u_digit u radix = word_of_nat (unat u mod radix)"

partial_function (option) base_digits_loop :: "nat \<Rightarrow> 'a::len word \<Rightarrow> u8 \<Rightarrow> u8 option" where
  "base_digits_loop radix u sz =
    (if u = 0 then Some sz else base_digits_loop radix (u_div u radix) (sz + 1))"

definition buf_inspect_u_base_digits :: "str \<Rightarrow> 'a::len word \<Rightarrow> u8 run" where
  "buf_inspect_u_base_digits base x =
    (if x = 0 then run_ok 1
     else if length base = 0 then Some Undef
     else map_option Ok (base_digits_loop (length base) x 0))"

text \<open>
  The characters of the digits, the last digit first; \<open>Some None\<close> when the base has none at a
  position.
\<close>

partial_function (option) base_characters :: "str \<Rightarrow> 'a::len word \<Rightarrow> u32 list \<Rightarrow> u32 list option option" where
  "base_characters base u c =
    (if u = 0 then Some (Some c)
     else case str_character base (unat (u_digit u (length base))) of (r, d) \<Rightarrow>
       if r < 0 \<or> d = None then Some None
       else base_characters base (u_div u (length base)) (c @ [the d]))"

fun write_characters :: "buf \<Rightarrow> u32 list \<Rightarrow> int \<Rightarrow> int \<times> buf" where
  "write_characters b [] result = (result, b)"
| "write_characters b (c # cs) result = (case buf_write_character_utf8 b c of (r, b) \<Rightarrow>
    if r < 0 then (r, b) else write_characters b cs (result + r))"

definition buf_inspect_u_base :: "buf \<Rightarrow> str \<Rightarrow> 'a::len word \<Rightarrow> (int \<times> buf) run" where
  "buf_inspect_u_base b base x =
    (if x = 0 then
       (case str_character base 0 of (r, zero) \<Rightarrow>
         if r < 0 then run_ok (- 1, b)
         else case zero of None \<Rightarrow> Some Undef | Some zero \<Rightarrow> run_ok (buf_write_character_utf8 b zero))
     else run_bind (buf_inspect_u_base_digits base x) (\<lambda>_. let b = buf_save_init b in
       case base_characters base x [] of
         None \<Rightarrow> None
       | Some None \<Rightarrow> run_ok (- 1, buf_save_clean (buf_save_restore_wpos b))
       | Some (Some c) \<Rightarrow>
           (case write_characters b (rev c) 0 of (r, b) \<Rightarrow>
             run_ok (r, buf_save_clean (if r < 0 then buf_save_restore_wpos b else b)))))"

text \<open>The size of the text, computed beforehand; \<open>pretty\<close> counts the columns.\<close>

record pretty =
  pretty_base_column :: nat
  pretty_column :: int

definition buf_write_character_utf8_size :: "pretty \<Rightarrow> u32 \<Rightarrow> int \<times> pretty" where
  "buf_write_character_utf8_size pretty c = (let csize = character_utf8_size c in
    if csize \<le> 0 then (csize, pretty)
    else if c = 10 then (csize + int (pretty_base_column pretty),
      pretty\<lparr>pretty_column := int (pretty_base_column pretty)\<rparr>)
    else (csize, pretty\<lparr>pretty_column := pretty_column pretty + 1\<rparr>))"

function buf_write_str_size_loop :: "pretty \<Rightarrow> str \<Rightarrow> int \<Rightarrow> int \<times> pretty" where
  "buf_write_str_size_loop pretty s result = (case str_read_character_utf8 s of
      (Got c _, s) \<Rightarrow>
        (case buf_write_character_utf8_size pretty c of (r, pretty) \<Rightarrow>
          if r < 0 then (r, pretty) else buf_write_str_size_loop pretty s (result + r))
    | (Stop _, s) \<Rightarrow>
        (case str_read_u8 s of
          (Got _ r, s) \<Rightarrow> buf_write_str_size_loop pretty s (result + int r)
        | (Stop _, s) \<Rightarrow> (result, pretty)))"
  by auto
termination
  by (relation "measure (\<lambda>(pretty, s, result). length s)")
    (auto simp: str_read_character_utf8_def str_read_u8_def split: if_splits got.splits dest: str_peek_length)

declare buf_write_str_size_loop.simps [simp del]

definition buf_write_str_size :: "pretty \<Rightarrow> str \<Rightarrow> int \<times> pretty" where
  "buf_write_str_size pretty src = buf_write_str_size_loop pretty src 0"

definition buf_write_1_size :: "pretty \<Rightarrow> string \<Rightarrow> int \<times> pretty" where
  "buf_write_1_size pretty p = buf_write_str_size pretty (c_str p)"

fun characters_size :: "pretty \<Rightarrow> u32 list \<Rightarrow> int \<Rightarrow> int \<times> pretty" where
  "characters_size pretty [] result = (result, pretty)"
| "characters_size pretty (c # cs) result = (case buf_write_character_utf8_size pretty c of (r, pretty) \<Rightarrow>
    if r < 0 then (r, pretty) else characters_size pretty cs (result + r))"

definition buf_inspect_u_base_size :: "pretty \<Rightarrow> str \<Rightarrow> 'a::len word \<Rightarrow> (int \<times> pretty) run" where
  "buf_inspect_u_base_size pretty base x =
    (if x = 0 then
       (case str_character base 0 of (r, zero) \<Rightarrow>
         if r < 0 then run_ok (- 1, pretty)
         else case zero of None \<Rightarrow> Some Undef | Some zero \<Rightarrow> run_ok (buf_write_character_utf8_size pretty zero))
     else run_bind (buf_inspect_u_base_digits base x) (\<lambda>_.
       case base_characters base x [] of
         None \<Rightarrow> None
       | Some None \<Rightarrow> run_ok (- 1, pretty)
       | Some (Some c) \<Rightarrow> run_ok (characters_size pretty (rev c) 0)))"

text \<open>
  The name of a type in parentheses (buf_inspect.c).  The functions of the integer types call
  \<open>buf_inspect_paren_sym\<close> with the symbol of their type only, a module name without reserved
  characters, of which \<open>buf_inspect_sym\<close> writes the characters.
\<close>

definition buf_inspect_paren_sym :: "buf \<Rightarrow> str \<Rightarrow> int \<times> buf" where
  "buf_inspect_paren_sym b name = (case buf_write_1 b ''('' of (r, b) \<Rightarrow>
    if r \<le> 0 then (r, b)
    else case buf_write_str b name of (r1, b) \<Rightarrow>
      if r1 \<le> 0 then (r1, b)
      else case buf_write_1 b '')'' of (r2, b) \<Rightarrow>
        if r2 \<le> 0 then (r2, b) else (r + r1 + r2, b))"

definition buf_inspect_paren_sym_size :: "pretty \<Rightarrow> str \<Rightarrow> int \<times> pretty" where
  "buf_inspect_paren_sym_size pretty name = (case buf_write_1_size pretty ''('' of (r, pretty) \<Rightarrow>
    if r < 0 then (r, pretty)
    else case buf_write_str_size pretty name of (r1, pretty) \<Rightarrow>
      if r1 \<le> 0 then (r1, pretty)
      else case buf_write_1_size pretty '')'' of (r2, pretty) \<Rightarrow>
        if r2 < 0 then (r2, pretty) else (r + r1 + r2, pretty))"

text \<open>
  The cast in front of a number.  \<open>name\<close> is the symbol of the type, \<open>type\<close> the type that is
  expected (\<open>g_buf_inspect_type\<close>), \<open>needed\<close> the result of \<open>cast_needed_\<close> for the number.
\<close>

definition inspect_cast :: "sym option \<Rightarrow> str \<Rightarrow> bool \<Rightarrow> buf \<Rightarrow> (int \<Rightarrow> buf \<Rightarrow> (int \<times> buf) run) \<Rightarrow> (int \<times> buf) run" where
  "inspect_cast type name needed b k =
    (if type \<noteq> Some name \<and> needed then
       (case buf_inspect_paren_sym b name of (r, b) \<Rightarrow>
         if r < 0 then run_ok (r, b)
         else case buf_write_1 b '' '' of (r1, b) \<Rightarrow>
           if r1 < 0 then run_ok (r1, b) else k (r + r1) b)
     else k 0 b)"

text \<open>\<open>if ((r = f(buf, x)) < 0) return r; result += r; return result;\<close>\<close>

definition inspect_add :: "int \<Rightarrow> (int \<times> 's) run \<Rightarrow> (int \<times> 's) run" where
  "inspect_add result m = run_bind m (\<lambda>(r, s). run_ok (if r < 0 then r else result + r, s))"

definition buf_inspect_u :: "sym option \<Rightarrow> str \<Rightarrow> ('a::len word \<Rightarrow> bool) \<Rightarrow> buf \<Rightarrow> 'a word \<Rightarrow> (int \<times> buf) run" where
  "buf_inspect_u type name cast_needed b x = inspect_cast type name (cast_needed x) b (\<lambda>result b.
    inspect_add result (buf_inspect_u_base b g_kc3_base_decimal x))"

definition buf_inspect_u_size ::
  "sym option \<Rightarrow> str \<Rightarrow> ('a::len word \<Rightarrow> bool) \<Rightarrow> pretty \<Rightarrow> 'a word \<Rightarrow> (int \<times> pretty) run" where
  "buf_inspect_u_size type name cast_needed pretty x =
    (if type \<noteq> Some name \<and> cast_needed x then
       (case buf_inspect_paren_sym_size pretty name of (r, pretty) \<Rightarrow>
         if r < 0 then run_ok (r, pretty)
         else inspect_add (r + 1) (buf_inspect_u_base_size pretty g_kc3_base_decimal x))
     else inspect_add 0 (buf_inspect_u_base_size pretty g_kc3_base_decimal x))"

section \<open>Printing: buf_inspect_u_base.c.in\<close>

text \<open>The digits of a number after characters \<open>pad\<close> up to a width, both counted in a \<open>u8\<close>.\<close>

function pad_loop :: "buf \<Rightarrow> u8 \<Rightarrow> u8 \<Rightarrow> u32 \<Rightarrow> int \<Rightarrow> bool \<times> int \<times> buf" where
  "pad_loop b i sz pad result =
    (if i < sz then
       (case buf_write_character_utf8 b pad of (r, b) \<Rightarrow>
         if r \<le> 0 then (False, r, b) else pad_loop b (i + 1) sz pad (result + r))
     else (True, result, b))"
  by auto
termination
proof (relation "measure (\<lambda>(b, i, sz, pad, result). unat sz - unat i)")
  show "((y, i + 1, sz, pad, result + x), b, i, sz, pad, result)
      \<in> measure (\<lambda>(b, i, sz, pad, result). unat sz - unat i)"
    if "i < sz" for b result x y and i sz :: u8 and pad :: u32
  proof -
    have "unat sz < 2 ^ LENGTH(8)" by (rule unsigned_less)
    then have "unat i + unat (1 :: u8) < 2 ^ LENGTH(8)"
      using that by (simp add: word_less_nat_alt)
    then have "unat (i + 1) = unat i + 1" by (simp add: unat_add_lem [THEN iffD1])
    then show ?thesis using that by (auto simp: word_less_nat_alt)
  qed
qed simp

declare pad_loop.simps [simp del]

definition buf_inspect_u_pad :: "buf \<Rightarrow> str \<Rightarrow> u8 \<Rightarrow> u32 \<Rightarrow> 'a::len word \<Rightarrow> (int \<times> buf) run" where
  "buf_inspect_u_pad b base sz pad x = run_bind (buf_inspect_u_base_digits base x) (\<lambda>digits.
    case pad_loop b digits sz pad 0 of
      (False, r, b) \<Rightarrow> run_ok (r, b)
    | (True, result, b) \<Rightarrow> run_bind (buf_inspect_u_base b base x) (\<lambda>(r, b).
        run_ok (if r \<le> 0 then r else result + r, b)))"

section \<open>Printing: buf_inspect_s.c.in and buf_inspect_s_base.c.in\<close>

text \<open>
  The sign, then the absolute value; \<open>u = -x\<close> is undefined for the least value of a type that is
  not promoted.
\<close>

definition inspect_minus :: "(buf \<Rightarrow> 'a::len word \<Rightarrow> (int \<times> buf) run) \<Rightarrow> buf \<Rightarrow> 'a word \<Rightarrow> (int \<times> buf) run" where
  "inspect_minus inspect b x =
    (if sint x < 0 then
       (case buf_write_1 b ''-'' of (r, b) \<Rightarrow>
         if r < 0 then run_ok (r, b)
         else run_bind (Some (s_neg x)) (\<lambda>u. inspect_add r (inspect b u)))
     else inspect_add 0 (inspect b x))"

definition buf_inspect_s_base :: "str \<Rightarrow> buf \<Rightarrow> 'a::len word \<Rightarrow> (int \<times> buf) run" where
  "buf_inspect_s_base base = inspect_minus (\<lambda>b. buf_inspect_u_base b base)"

definition buf_inspect_s_base_size :: "str \<Rightarrow> pretty \<Rightarrow> 'a::len word \<Rightarrow> (int \<times> pretty) run" where
  "buf_inspect_s_base_size base pretty x =
    (if sint x < 0 then
       run_bind (Some (s_neg x)) (\<lambda>u. run_bind (buf_inspect_u_base_size pretty base u) (\<lambda>(r, pretty).
         run_ok (1 + r, pretty)))
     else buf_inspect_u_base_size pretty base x)"

definition buf_inspect_s :: "sym option \<Rightarrow> str \<Rightarrow> ('a::len word \<Rightarrow> bool) \<Rightarrow> buf \<Rightarrow> 'a word \<Rightarrow> (int \<times> buf) run" where
  "buf_inspect_s type name cast_needed b x = inspect_cast type name (cast_needed x) b (\<lambda>result b.
    inspect_add result (buf_inspect_s_base g_kc3_base_decimal b x))"

definition buf_inspect_s_size ::
  "sym option \<Rightarrow> str \<Rightarrow> ('a::len word \<Rightarrow> bool) \<Rightarrow> pretty \<Rightarrow> 'a word \<Rightarrow> (int \<times> pretty) run" where
  "buf_inspect_s_size type name cast_needed pretty x =
    (let number = (\<lambda>result pretty.
       if sint x < 0 then
         (case buf_write_1_size pretty ''-'' of (r, pretty) \<Rightarrow>
           if r < 0 then run_ok (r, pretty)
           else run_bind (Some (s_neg x)) (\<lambda>u.
             inspect_add (result + r) (buf_inspect_u_base_size pretty g_kc3_base_decimal u)))
       else inspect_add result (buf_inspect_u_base_size pretty g_kc3_base_decimal x)) in
     if type \<noteq> Some name \<and> cast_needed x then
       (case buf_inspect_paren_sym_size pretty name of (r, pretty) \<Rightarrow>
         if r < 0 then run_ok (r, pretty)
         else case buf_write_1_size pretty '' '' of (r1, pretty) \<Rightarrow>
           if r1 < 0 then run_ok (r1, pretty) else number (r + r1) pretty)
     else number 0 pretty)"

end
