(* ===== verification/Int_Parse.thy ===== *)
theory Int_Parse
  imports Int_Text
begin

text \<open>
  What the parsers of machine integers accept.  The digits in the text are folded by \<open>u_fold\<close> and
  \<open>s_fold\<close>, without a buffer; \<open>parse_u_base\<close> and \<open>parse_s_base\<close> say that the parsers compute the
  same, for any buffer and whatever follows the digits.
\<close>

section \<open>Bases of ASCII digits\<close>

definition base_ok :: "str \<Rightarrow> bool" where
  "base_ok base \<longleftrightarrow> 2 \<le> length base \<and> length base < 128 \<and> distinct base \<and> list_all (\<lambda>c. c < 0x80) base"

lemma bases_ok:
  "base_ok g_kc3_base_binary" "base_ok g_kc3_base_octal" "base_ok g_kc3_base_decimal"
  "base_ok g_kc3_base_hexadecimal" "base_ok (fst g_kc3_bases_hexadecimal)" "base_ok (snd g_kc3_bases_hexadecimal)"
  by (simp_all add: base_ok_def g_kc3_base_binary_def g_kc3_base_octal_def g_kc3_base_decimal_def
      g_kc3_base_hexadecimal_def g_kc3_bases_hexadecimal_def c_str_def)

lemma length_bases [simp]:
  "length g_kc3_base_binary = 2" "length g_kc3_base_octal = 8" "length g_kc3_base_decimal = 10"
  "length g_kc3_base_hexadecimal = 16" "length (fst g_kc3_bases_hexadecimal) = 16"
  "length (snd g_kc3_bases_hexadecimal) = 16"
  by (simp_all add: g_kc3_base_binary_def g_kc3_base_octal_def g_kc3_base_decimal_def
      g_kc3_base_hexadecimal_def g_kc3_bases_hexadecimal_def)

lemma ucast_ascii_inject:
  "(ucast (c :: u8) :: u32) = ucast d \<longleftrightarrow> c = d"
  by (simp only: word_uint_eq_iff) (simp add: uint_ucast_widen)

lemma str_read_ascii:
  assumes "c < 0x80"
  shows "str_read_character_utf8 (c # s) = (Got (ucast c) 1, s)"
proof -
  have "c AND 0x80 = 0"
    using decode_ascii [OF assms, of s] by (auto simp: decode_character_def decode_tail_def split: if_splits)
  then show ?thesis by (simp add: str_read_character_utf8_def str_peek_character_utf8_def)
qed

lemma str_length_ascii:
  assumes "list_all (\<lambda>c. c < 0x80) s"
  shows "str_length_utf8 s = int (length s)"
proof -
  have "str_length_utf8_loop s r = r + int (length s)" for r
    using assms
  proof (induction s arbitrary: r)
    case (Cons c s)
    then show ?case by (subst str_length_utf8_loop.simps) (simp add: str_read_ascii)
  qed (subst str_length_utf8_loop.simps, simp add: str_read_character_utf8_def)
  then show ?thesis by (simp add: str_length_utf8_def)
qed

lemma str_character_ascii:
  assumes "list_all (\<lambda>c. c < 0x80) s" "n < length s"
  shows "str_character s n = (1, Some (ucast (s ! n)))"
proof -
  have "str_character_loop s n i r c = (1, Some (ucast (s ! (n - i))))"
    if "i \<le> n" "n < i + length s" "list_all (\<lambda>c. c < 0x80) s" for s i r c
    using that
  proof (induction s arbitrary: i r c)
    case (Cons a s)
    show ?case
    proof (cases "n = i")
      case True
      then show ?thesis
        using Cons.prems
        by (subst str_character_loop.simps, simp add: str_read_ascii)
          (subst str_character_loop.simps, simp)
    next
      case False
      then show ?thesis
        using Cons.prems Cons.IH [of "i + 1" 1 "Some (ucast a)"]
        by (subst str_character_loop.simps) (simp add: str_read_ascii nth_Cons')
    qed
  qed simp
  from this [of 0 s 0 None] assms show ?thesis by (simp add: str_character_def)
qed

lemma str_character_position_ascii:
  assumes "list_all (\<lambda>c. c < 0x80) s" "distinct s"
  shows "i < length s \<Longrightarrow> str_character_position s (ucast (s ! i)) = int i"
    and "c \<notin> ucast ` set s \<Longrightarrow> str_character_position s c = - 1"
proof -
  have "i < length s \<Longrightarrow> str_character_position_loop s (ucast (s ! i)) k = k + int i" for i k
    using assms
  proof (induction s arbitrary: i k)
    case (Cons a s)
    then show ?case
      by (cases i; subst str_character_position_loop.simps) (auto simp: str_read_ascii ucast_ascii_inject)
  qed simp
  then show "i < length s \<Longrightarrow> str_character_position s (ucast (s ! i)) = int i"
    by (simp add: str_character_position_def)
  have "c \<notin> ucast ` set s \<Longrightarrow> str_character_position_loop s c k = - 1" for k
    using assms
  proof (induction s arbitrary: k)
    case (Cons a s)
    then show ?case by (subst str_character_position_loop.simps) (auto simp: str_read_ascii)
  qed (subst str_character_position_loop.simps, simp)
  then show "c \<notin> ucast ` set s \<Longrightarrow> str_character_position s c = - 1"
    by (simp add: str_character_position_def)
qed

section \<open>Digits\<close>

text \<open>Digits as text, their value, and a text that does not go on with a digit.\<close>

definition digit_text :: "str \<Rightarrow> nat list \<Rightarrow> u8 list" where
  "digit_text base ds = map (\<lambda>d. base ! d) ds"

definition digits_value :: "nat \<Rightarrow> nat list \<Rightarrow> nat" where
  "digits_value radix ds = foldl (\<lambda>v d. v * radix + d) 0 ds"

definition no_digit :: "str \<Rightarrow> u8 list \<Rightarrow> bool" where
  "no_digit base xs \<longleftrightarrow> (case decode_character xs of Got c _ \<Rightarrow> c \<notin> ucast ` set base | Stop _ \<Rightarrow> True)"

lemma digit_text_simps [simp]:
  "digit_text base [] = []" "digit_text base (d # ds) = base ! d # digit_text base ds"
  "length (digit_text base ds) = length ds"
  by (simp_all add: digit_text_def)

lemma parse_digit_view:
  assumes "base_ok base" "buf_reads b" "d < length base" "buf_rest b = base ! d # xs"
  shows "\<exists>b'. buf_parse_digit b base = (Got (word_of_nat d) 1, b') \<and> buf_reads b' \<and>
    buf_view b' = (buf_view b)\<lparr>view_rest := xs\<rparr>"
proof -
  have ascii: "base ! d < 0x80" "list_all (\<lambda>c. c < 0x80) base" "distinct base" "length base < 128"
    using assms(1,3) by (auto simp: base_ok_def list_all_length)
  obtain x b1 where x: "buf_peek_character_utf8 b = (x, b1)" by fastforce
  note peek = buf_peek_character_view [OF assms(2) x]
  have rest: "buf_rest b1 = base ! d # xs" using peek(1) assms(4) by (metis buf_view_rest)
  obtain y b2 where y: "buf_read_character_utf8 b1 = (y, b2)" by fastforce
  note read = buf_read_character_view [OF peek(2) y]
  have dec: "decode_character (base ! d # xs) = Got (ucast (base ! d)) 1"
    by (rule decode_ascii [OF ascii(1)])
  have "str_character_position base (ucast (base ! d)) = int d"
    by (rule str_character_position_ascii(1) [OF ascii(2,3) assms(3)])
  moreover have "int d \<le> 255" using assms(3) ascii(4) by linarith
  ultimately have "buf_parse_digit b base = (Got (word_of_int (int d)) 1, b2)"
    using peek(3) read(2) dec by (simp add: buf_parse_digit_def x y assms(4) rest)
  moreover have "buf_view b2 = (buf_view b)\<lparr>view_rest := xs\<rparr>"
    using read(2,3) dec peek(1) by (simp add: rest)
  ultimately show ?thesis using read(1) by simp
qed

lemma parse_no_digit_view:
  assumes "base_ok base" "buf_reads b" "no_digit base (buf_rest b)"
  shows "\<exists>r b'. buf_parse_digit b base = (Stop r, b') \<and> buf_reads b' \<and> buf_view b' = buf_view b"
proof -
  obtain x b1 where x: "buf_peek_character_utf8 b = (x, b1)" by fastforce
  note peek = buf_peek_character_view [OF assms(2) x]
  show ?thesis
  proof (cases x)
    case (Got c n)
    then have "c \<notin> ucast ` set base" using assms(3) peek(3) by (simp add: no_digit_def)
    then have "str_character_position base c = - 1"
      using assms(1) by (intro str_character_position_ascii) (auto simp: base_ok_def)
    then show ?thesis using peek(1,2) by (simp add: buf_parse_digit_def x [unfolded Got])
  next
    case (Stop r)
    then show ?thesis using peek(1,2) by (simp add: buf_parse_digit_def x [unfolded Stop])
  qed
qed

section \<open>The loop over the digits\<close>

fun u_fold :: "nat \<Rightarrow> int \<Rightarrow> 'a::len word \<Rightarrow> nat list \<Rightarrow> 'a word digits" where
  "u_fold radix result u [] = Digits result u"
| "u_fold radix result u (d # ds) =
    (if (2 ^ LENGTH('a) - 1 - int d) div int radix < uint u then Overflow
     else u_fold radix (result + 1) (u * word_of_nat radix + word_of_nat d) ds)"

fun s_fold :: "nat \<Rightarrow> bool \<Rightarrow> int \<Rightarrow> 'a::len word \<Rightarrow> nat list \<Rightarrow> 'a word digits" where
  "s_fold radix negative result u [] = Digits result u"
| "s_fold radix negative result u (d # ds) =
    (case ceiling_s (word_of_int (s_max TYPE('a)) :: 'a word) (word_of_nat radix) of
       Ok c \<Rightarrow>
         (if uint c < uint u then Overflow
          else let u = u * word_of_nat radix in
            if negative then
              if 32 \<le> LENGTH('a) \<and> sint u = s_min TYPE('a) then Undefined
              else if - sint u < s_min TYPE('a) + int d then Overflow
              else s_fold radix negative (result + 1) (u + word_of_nat d) ds
            else if s_max TYPE('a) - int d < uint u then Overflow
            else s_fold radix negative (result + 1) (u + word_of_nat d) ds)
     | _ \<Rightarrow> Undefined)"

definition loop_view :: "buf \<Rightarrow> u8 list \<Rightarrow> 'a digits \<Rightarrow> 'a digits \<times> buf \<Rightarrow> bool" where
  "loop_view b xs e p \<longleftrightarrow> fst p = e \<and> buf_reads (snd p) \<and>
    (case e of Digits _ _ \<Rightarrow> buf_view (snd p) = (buf_view b)\<lparr>view_rest := xs\<rparr>
     | _ \<Rightarrow> \<exists>ys. buf_view (snd p) = (buf_view b)\<lparr>view_rest := ys\<rparr>)"

lemma loop_view_step:
  "buf_view b1 = (buf_view b)\<lparr>view_rest := ys\<rparr> \<Longrightarrow> loop_view b1 xs e p \<Longrightarrow> loop_view b xs e p"
  by (auto simp: loop_view_def split: digits.splits)

lemma loop_view_error:
  "buf_reads b1 \<Longrightarrow> buf_view b1 = (buf_view b)\<lparr>view_rest := ys\<rparr> \<Longrightarrow> (\<And>r u. e \<noteq> Digits r u) \<Longrightarrow> loop_view b xs e (e, b1)"
  by (auto simp: loop_view_def split: digits.splits)

lemma loop_view_end:
  "buf_reads b1 \<Longrightarrow> buf_view b1 = buf_view b \<Longrightarrow> buf_rest b = xs \<Longrightarrow> loop_view b xs (Digits r u) (Digits r u, b1)"
  by (auto simp: loop_view_def buf_view_def)

lemma small_digit:
  assumes "d < radix" "radix < 128"
  shows "uint (word_of_nat d :: u8) = int d" "(ucast (word_of_nat d :: u8) :: 'a::len word) = word_of_nat d"
proof -
  have "d < 256" using assms by simp
  then show *: "uint (word_of_nat d :: u8) = int d"
    by (simp add: uint_nat unat_of_nat)
  show "(ucast (word_of_nat d :: u8) :: 'a word) = word_of_nat d"
    using * by (metis of_int_of_nat_eq of_int_uint)
qed

lemma parse_u_loop:
  assumes "base_ok base" "buf_reads b" "list_all (\<lambda>d. d < length base) ds"
    and "buf_rest b = digit_text base ds @ xs" "no_digit base xs"
  shows "loop_view b xs (u_fold (length base) result u ds) (buf_parse_u_loop b base (int (length base)) result u)"
  using assms(2-4)
proof (induction ds arbitrary: b result u)
  case Nil
  then obtain r b1 where "buf_parse_digit b base = (Stop r, b1)" "buf_reads b1" "buf_view b1 = buf_view b"
    using parse_no_digit_view [OF assms(1), of b] assms(5) by auto
  then show ?case using Nil.prems by (subst buf_parse_u_loop.simps) (auto intro: loop_view_end)
next
  case (Cons d ds)
  have d: "d < length base" "length base < 128" using Cons.prems(2) assms(1) by (auto simp: base_ok_def)
  obtain b1 where b1: "buf_parse_digit b base = (Got (word_of_nat d) 1, b1)" "buf_reads b1"
      "buf_view b1 = (buf_view b)\<lparr>view_rest := digit_text base ds @ xs\<rparr>"
    using parse_digit_view [OF assms(1) Cons.prems(1) d(1)] Cons.prems(3) by auto
  have "buf_rest b1 = digit_text base ds @ xs" using arg_cong [OF b1(3), of view_rest] by simp
  note IH = loop_view_step [OF b1(3) Cons.IH [OF b1(2) _ this]]
  show ?case
    using b1 d IH Cons.prems(2) by (subst buf_parse_u_loop.simps) (auto simp: small_digit intro: loop_view_error)
qed

lemma parse_s_loop:
  assumes "base_ok base" "buf_reads b" "list_all (\<lambda>d. d < length base) ds"
    and "buf_rest b = digit_text base ds @ xs" "no_digit base xs"
  shows "loop_view b xs (s_fold (length base) negative result u ds)
    (buf_parse_s_loop b base negative (int (length base)) result u)"
  using assms(2-4)
proof (induction ds arbitrary: b result u)
  case Nil
  then obtain r b1 where "buf_parse_digit b base = (Stop r, b1)" "buf_reads b1" "buf_view b1 = buf_view b"
    using parse_no_digit_view [OF assms(1), of b] assms(5) by auto
  then show ?case using Nil.prems by (subst buf_parse_s_loop.simps) (auto intro: loop_view_end)
next
  case (Cons d ds)
  have d: "d < length base" "length base < 128" using Cons.prems(2) assms(1) by (auto simp: base_ok_def)
  obtain b1 where b1: "buf_parse_digit b base = (Got (word_of_nat d) 1, b1)" "buf_reads b1"
      "buf_view b1 = (buf_view b)\<lparr>view_rest := digit_text base ds @ xs\<rparr>"
    using parse_digit_view [OF assms(1) Cons.prems(1) d(1)] Cons.prems(3) by auto
  have "buf_rest b1 = digit_text base ds @ xs" using arg_cong [OF b1(3), of view_rest] by simp
  note IH = loop_view_step [OF b1(3) Cons.IH [OF b1(2) _ this]]
  show ?case
    using b1 d IH Cons.prems(2)
    by (subst buf_parse_s_loop.simps)
      (auto simp: small_digit Let_def intro: loop_view_error split: outcome.split)
qed

section \<open>Unsigned numbers: exact\<close>

abbreviation digits_from :: "nat \<Rightarrow> nat \<Rightarrow> nat list \<Rightarrow> nat" where
  "digits_from radix v ds \<equiv> foldl (\<lambda>v d. v * radix + d) v ds"

lemma digits_from_le: "0 < radix \<Longrightarrow> v \<le> digits_from radix v ds"
proof (induction ds arbitrary: v)
  case (Cons d ds)
  have "v \<le> v * radix + d" using Cons.prems by (simp add: trans_le_add1)
  also have "\<dots> \<le> digits_from radix (v * radix + d) ds" by (rule Cons.IH [OF Cons.prems])
  finally show ?case by simp
qed simp

lemma word_step: "u * word_of_nat r + word_of_nat d = (word_of_nat (unat u * r + d) :: 'a::len word)"
  by simp

lemma unat_step:
  fixes u :: "'a::len word"
  shows "unat u * r + d < 2 ^ LENGTH('a) \<Longrightarrow> unat (u * word_of_nat r + word_of_nat d) = unat u * r + d"
  unfolding word_step unat_of_nat by simp

lemma int_div_less:
  fixes a b r :: int
  assumes "0 < r"
  shows "a div r < b \<longleftrightarrow> a < b * r"
proof
  assume "a div r < b"
  then have "(a div r + 1) * r \<le> b * r" using assms by (intro mult_right_mono) auto
  moreover have "a < (a div r + 1) * r"
    using pos_mod_bound [OF assms, of a] div_mult_mod_eq [of a r] by (simp only: distrib_right)
  ultimately show "a < b * r" by linarith
next
  assume "a < b * r"
  moreover have "b * r \<le> a" if "b \<le> a div r"
  proof -
    have "b * r \<le> a div r * r" using that assms by (intro mult_right_mono) auto
    then show ?thesis using pos_mod_sign [OF assms, of a] div_mult_mod_eq [of a r] by linarith
  qed
  ultimately show "a div r < b" by linarith
qed

lemma u_fold_exact:
  fixes u :: "'a::len word"
  assumes "2 \<le> radix" "list_all (\<lambda>d. d < radix) ds" "radix < 128" "8 \<le> LENGTH('a)"
  shows "u_fold radix result u ds = (let v = digits_from radix (unat u) ds in
    if v < 2 ^ LENGTH('a) then Digits (result + int (length ds)) (word_of_nat v) else Overflow)"
  using assms(2)
proof (induction ds arbitrary: result u)
  case (Cons d ds)
  have "(2 :: nat) ^ 8 \<le> 2 ^ LENGTH('a)" using assms(4) by (intro power_increasing) auto
  then have d: "d < 2 ^ LENGTH('a)" using Cons.prems assms(3) by auto
  have "(2 ^ LENGTH('a) - 1 - int d) div int radix < uint u \<longleftrightarrow> 2 ^ LENGTH('a) - 1 - int d < uint u * int radix"
    using assms(1) by (intro int_div_less) simp
  also have "\<dots> \<longleftrightarrow> int (2 ^ LENGTH('a)) \<le> int (unat u * radix + d)"
  proof -
    have "uint u * int radix + int d = int (unat u * radix + d)" by simp
    then show ?thesis by (simp only: of_nat_power of_nat_numeral) linarith
  qed
  also have "\<dots> \<longleftrightarrow> 2 ^ LENGTH('a) \<le> unat u * radix + d"
    by (rule of_nat_le_iff)
  finally have check: "(2 ^ LENGTH('a) - 1 - int d) div int radix < uint u \<longleftrightarrow>
      \<not> unat u * radix + d < 2 ^ LENGTH('a)" by (simp add: not_less)
  show ?case
  proof (cases "unat u * radix + d < 2 ^ LENGTH('a)")
    case True
    then show ?thesis
      unfolding u_fold.simps check
      using Cons.IH [of "result + 1" "u * word_of_nat radix + word_of_nat d"] Cons.prems unat_step [OF True]
      by (simp add: Let_def)
  next
    case False
    then have "\<not> digits_from radix (unat u * radix + d) ds < 2 ^ LENGTH('a)"
      using digits_from_le [of radix "unat u * radix + d" ds] assms(1) by linarith
    then show ?thesis unfolding u_fold.simps check using False by (simp add: Let_def)
  qed
qed simp

lemma save_close:
  assumes "buf_reads b" "buf_reads b1" "buf_view b1 = (buf_view (buf_save_init b))\<lparr>view_rest := ys\<rparr>"
  shows "buf_reads (buf_save_clean b1)" "buf_view (buf_save_clean b1) = (buf_view b)\<lparr>view_rest := ys\<rparr>"
    "buf_reads (buf_save_clean (buf_save_restore_rpos b1))"
    "buf_view (buf_save_clean (buf_save_restore_rpos b1)) = buf_view b"
  using assms
  by (simp_all add: buf_view_save_clean buf_view_save_init buf_view_restore)

lemma parse_u_base:
  fixes dest :: "'a::len word"
  assumes "base_ok base" "8 \<le> LENGTH('a)" "buf_reads b" "list_all (\<lambda>d. d < length base) ds"
    and "buf_rest b = digit_text base ds @ xs" "no_digit base xs"
  shows "\<exists>b'. buf_parse_u_base b base dest =
      (if digits_value (length base) ds < 2 ^ LENGTH('a)
       then ((int (length ds), word_of_nat (digits_value (length base) ds)), b') else ((- 1, dest), b')) \<and>
    buf_reads b' \<and> buf_view b' = (if digits_value (length base) ds < 2 ^ LENGTH('a)
      then (buf_view b)\<lparr>view_rest := xs\<rparr> else buf_view b)"
proof -
  let ?r = "length base" and ?v = "digits_value (length base) ds"
  have base: "2 \<le> ?r" "?r < 128" "str_length_utf8 base = int ?r"
    using assms(1) by (auto simp: base_ok_def str_length_ascii)
  have "(2 :: int) ^ 8 \<le> 2 ^ LENGTH('a)" using assms(2) by (intro power_increasing) auto
  then have radix: "\<not> (int ?r < 2 \<or> LENGTH('a) < 64 \<and> 2 ^ LENGTH('a) - 1 < int ?r)" using base by auto
  have "buf_rest (buf_save_init b) = buf_rest b"
    using arg_cong [OF buf_view_save_init(2) [of b], of view_rest] by simp
  then have "loop_view (buf_save_init b) xs (u_fold ?r 0 (0 :: 'a word) ds)
      (buf_parse_u_loop (buf_save_init b) base (int ?r) 0 (0 :: 'a word))"
    using buf_view_save_init(1) [OF assms(3)] assms by (intro parse_u_loop) auto
  moreover have "u_fold ?r 0 (0 :: 'a word) ds =
      (if ?v < 2 ^ LENGTH('a) then Digits (int (length ds)) (word_of_nat ?v) else Overflow)"
    using u_fold_exact [OF base(1) assms(4) base(2) assms(2), of 0 0] by (simp add: digits_value_def Let_def)
  moreover obtain e b1 where "buf_parse_u_loop (buf_save_init b) base (int ?r) 0 (0 :: 'a word) = (e, b1)"
    by fastforce
  ultimately show ?thesis
    using radix save_close [OF assms(3), of b1]
    by (auto simp: buf_parse_u_base_def Let_def base(3) loop_view_def)
qed

section \<open>Signed numbers\<close>

lemma ceiling_pos:
  assumes "0 < sint a" "0 < sint b"
  shows "ceiling_s a b = Ok (word_of_int (sint a div sint b + (if sint a mod sint b \<noteq> 0 then 1 else 0)))"
  using assms by (simp add: ceiling_s_def abs_s_def sign_s_def Let_def signed_divide_int_def signed_modulo_int_def)

lemma ceiling_max:
  assumes "2 \<le> radix" "radix < 128" "8 \<le> LENGTH('a::len)"
  shows "\<exists>c. ceiling_s (word_of_int (s_max TYPE('a)) :: 'a word) (word_of_nat radix) = Ok c \<and>
    uint c = s_max TYPE('a) div int radix + (if s_max TYPE('a) mod int radix \<noteq> 0 then 1 else 0)"
proof -
  let ?m = "s_max TYPE('a)" and ?r = "int radix"
  have "(2 :: int) ^ 7 \<le> 2 ^ (LENGTH('a) - 1)" using assms(3) by (intro power_increasing) auto
  then have m: "127 \<le> ?m" by simp
  have sm: "sint (word_of_int ?m :: 'a word) = ?m"
    using m by (intro sint_of_int_in_range) auto
  have "sint (word_of_int ?r :: 'a word) = ?r"
    using m assms(2) by (intro sint_of_int_in_range) linarith+
  then have sr: "sint (word_of_nat radix :: 'a word) = ?r" by simp
  define q where "q = ?m div ?r + (if ?m mod ?r \<noteq> 0 then 1 else 0)"
  have "?m div ?r * 2 \<le> ?m div ?r * ?r"
    using assms(1) m by (intro mult_left_mono) (auto simp: pos_imp_zdiv_nonneg_iff)
  also have "\<dots> \<le> ?m" using assms(1) div_mult_mod_eq [of ?m ?r] pos_mod_sign [of ?r ?m] by linarith
  finally have half: "?m div ?r * 2 \<le> ?m" .
  have "LENGTH('a) = Suc (LENGTH('a) - 1)" using len_gt_0 [where ?'a = 'a] by linarith
  then have two: "(2 :: int) ^ LENGTH('a) = 2 * (?m + 1)"
    using power_Suc [of "2 :: int" "LENGTH('a) - 1"] by simp
  have "0 \<le> ?m div ?r" using m assms(1) by (simp add: pos_imp_zdiv_nonneg_iff)
  then have "0 \<le> q" "q \<le> ?m div ?r + 1" by (auto simp: q_def)
  moreover have "q < 2 ^ LENGTH('a)"
  proof -
    have "q < y" if "d * 2 \<le> x" "127 \<le> x" "y = 2 * (x + 1)" "q \<le> d + 1" for d x y :: int
      using that by presburger
    then show ?thesis using half m two \<open>q \<le> ?m div ?r + 1\<close> by blast
  qed
  ultimately have "uint (word_of_int q :: 'a word) = q" by (intro uint_of_int_in_range)
  moreover have "ceiling_s (word_of_int ?m :: 'a word) (word_of_nat radix) = Ok (word_of_int q)"
    using m assms(1) ceiling_pos [of "word_of_int ?m :: 'a word" "word_of_nat radix"]
    unfolding sm sr q_def by simp
  ultimately show ?thesis by (simp add: q_def)
qed

text \<open>
  One step.  The product of the loop is at most the first multiple of the radix that is not below
  the largest value, so it does not wrap around as an unsigned number; read as a signed one it may
  be negative.
\<close>

definition s_top :: "'a::len itself \<Rightarrow> nat" where
  "s_top a = 2 ^ (LENGTH('a) - 1)"

lemma s_top_simps:
  "s_max TYPE('a::len) = int (s_top TYPE('a)) - 1" "s_min TYPE('a) = - int (s_top TYPE('a))"
  "2 ^ LENGTH('a) = 2 * s_top TYPE('a)" "8 \<le> LENGTH('a) \<Longrightarrow> 128 \<le> s_top TYPE('a)"
proof -
  show "s_max TYPE('a) = int (s_top TYPE('a)) - 1" "s_min TYPE('a) = - int (s_top TYPE('a))"
    by (simp_all add: s_top_def)
  have "LENGTH('a) = Suc (LENGTH('a) - 1)" using len_gt_0 [where ?'a = 'a] by linarith
  then show "2 ^ LENGTH('a) = 2 * s_top TYPE('a)"
    unfolding s_top_def using power_Suc [of "2 :: nat" "LENGTH('a) - 1"] by simp
  assume "8 \<le> LENGTH('a)"
  then have "(2 :: nat) ^ 7 \<le> 2 ^ (LENGTH('a) - 1)" by (intro power_increasing) auto
  then show "128 \<le> s_top TYPE('a)" by (simp add: s_top_def)
qed

lemma s_fold_step:
  fixes u :: "'a::len word"
  assumes "2 \<le> radix" "radix < 128" "8 \<le> LENGTH('a)" "d < radix"
  defines "t \<equiv> s_top TYPE('a)" and "v \<equiv> unat u * radix"
  shows "s_fold radix negative result u (d # ds) =
    (if t + radix - 1 \<le> v then Overflow
     else if negative then
       if v = t \<and> 32 \<le> LENGTH('a) then Undefined
       else if v < t \<and> t < v + d then Overflow
       else s_fold radix negative (result + 1) (word_of_nat (v + d)) ds
     else if t \<le> v + d then Overflow
     else s_fold radix negative (result + 1) (word_of_nat (v + d)) ds)"
proof -
  have t: "128 \<le> t" "2 ^ LENGTH('a) = 2 * t" using s_top_simps(3,4) [where ?'a = 'a] assms(3) by (simp_all add: t_def)
  have s_top_int: "(2 :: int) ^ (LENGTH('a) - 1) = int t" by (simp add: t_def s_top_def)
  obtain c where c: "ceiling_s (word_of_int (s_max TYPE('a)) :: 'a word) (word_of_nat radix) = Ok c"
      "uint c = (int t - 1) div int radix + (if (int t - 1) mod int radix \<noteq> 0 then 1 else 0)"
    using ceiling_max [OF assms(1-3)] unfolding s_top_simps(1,2) t_def by blast
  have ge: "uint c < uint u \<longleftrightarrow> t + radix - 1 \<le> v"
  proof -
    define q m where "q = (int t - 1) div int radix" and "m = (int t - 1) mod int radix"
    have qm: "q * int radix + m = int t - 1" "0 \<le> m" "m < int radix"
      using assms(1) by (auto simp: q_def m_def)
    have v: "int v = uint u * int radix" by (simp add: v_def)
    have "uint c * int radix = q * int radix + (if m \<noteq> 0 then int radix else 0)"
      using c(2) by (simp add: q_def [symmetric] m_def [symmetric] distrib_right)
    then have low: "int t - 1 \<le> uint c * int radix" "uint c * int radix < int t - 1 + int radix"
      using qm by (auto split: if_splits)
    have "uint c < uint u \<longleftrightarrow> (uint c + 1) * int radix \<le> uint u * int radix"
      using assms(1) by (subst mult_le_cancel_right_pos) auto
    also have "\<dots> \<longleftrightarrow> uint c * int radix + int radix \<le> int v" by (simp add: v distrib_right)
    also have "\<dots> \<longleftrightarrow> int t - 1 + int radix \<le> int v"
    proof
      assume "int t - 1 + int radix \<le> int v"
      then have "uint c * int radix < uint u * int radix" using low(2) v by linarith
      then have "uint c + 1 \<le> uint u" using assms(1) by (simp add: mult_less_cancel_right)
      then have "(uint c + 1) * int radix \<le> uint u * int radix" by (intro mult_right_mono) auto
      then show "uint c * int radix + int radix \<le> int v" by (simp add: v distrib_right)
    qed (use low(1) in linarith)
    finally show ?thesis using assms(1) t(1) by linarith
  qed
  have s: "sint (word_of_nat v :: 'a word) = (if v < t then int v else int v - 2 * int t)" "uint (word_of_nat v :: 'a word) = int v"
    if "v < t + radix - 1"
  proof -
    have "v < 2 ^ LENGTH('a)" using that t assms(2) by linarith
    then have u: "unat (word_of_nat v :: 'a word) = v" by (simp add: unat_of_nat)
    then show "uint (word_of_nat v :: 'a word) = int v" by (simp add: uint_nat)
    show "sint (word_of_nat v :: 'a word) = (if v < t then int v else int v - 2 * int t)"
    proof (cases "v < t")
      case True
      have "- (2 ^ (LENGTH('a) - 1)) \<le> int v"
        by (rule order_trans [of _ 0]) simp_all
      then have "sint (word_of_int (int v) :: 'a word) = int v"
        using True by (intro sint_of_int_in_range) (auto simp: t_def s_top_def)
      then show ?thesis using True by simp
    next
      case False
      have "(word_of_nat (2 * t) :: 'a word) = 0" unfolding t(2) [symmetric] by simp
      then have "(word_of_int (int v - 2 * int t) :: 'a word) = word_of_int (int v)" by simp
      moreover have "sint (word_of_int (int v - 2 * int t) :: 'a word) = int v - 2 * int t"
      proof (rule sint_of_int_in_range)
        show "- (2 ^ (LENGTH('a) - 1)) \<le> int v - 2 * int t" "int v - 2 * int t < 2 ^ (LENGTH('a) - 1)"
          using False that t(1) assms(2) unfolding s_top_int by linarith+
      qed
      ultimately show ?thesis using False by simp
    qed
  qed
  have w: "u * word_of_nat radix = (word_of_nat v :: 'a word)" by (simp add: v_def)
  have add: "(word_of_nat v :: 'a word) + word_of_nat d = word_of_nat (v + d)" by simp
  show ?thesis
  proof (cases "t + radix - 1 \<le> v")
    case True
    then show ?thesis unfolding s_fold.simps c(1) outcome.case ge by simp
  next
    case False
    then have lt: "v < t + radix - 1" by simp
    have "sint (word_of_nat v :: 'a word) = - int t \<longleftrightarrow> v = t"
      "- sint (word_of_nat v :: 'a word) < - int t + int d \<longleftrightarrow> v < t \<and> t < v + d"
      "int t - 1 - int d < uint (word_of_nat v :: 'a word) \<longleftrightarrow> t \<le> v + d"
      unfolding s [OF lt] using lt assms(2,4) t(1) by (auto split: if_splits)
    note checks = this [folded t_def]
    show ?thesis
      unfolding s_fold.simps c(1) outcome.case ge w Let_def
      unfolding s_top_simps(1,2) t_def [symmetric] add checks
      using False by (simp only: if_not_P [OF False] simp_thms conj_commute if_False if_cancel)
  qed
qed

declare s_fold.simps(2) [simp del]

lemma unat_small:
  "n < 2 ^ LENGTH('a::len) \<Longrightarrow> unat (word_of_nat n :: 'a word) = n"
  by (simp add: unat_of_nat)

lemma s_fold_pos:
  fixes u :: "'a::len word"
  assumes "2 \<le> radix" "radix < 128" "8 \<le> LENGTH('a)" "list_all (\<lambda>d. d < radix) ds" "unat u < s_top TYPE('a)"
  shows "s_fold radix False result u ds = (let v = digits_from radix (unat u) ds in
    if v < s_top TYPE('a) then Digits (result + int (length ds)) (word_of_nat v) else Overflow)"
  using assms(4,5)
proof (induction ds arbitrary: result u)
  case (Cons d ds)
  let ?t = "s_top TYPE('a)" and ?v = "unat u * radix"
  have t: "2 ^ LENGTH('a) = 2 * ?t" by (rule s_top_simps)
  show ?case
  proof (cases "?v + d < ?t")
    case True
    then have "unat (word_of_nat (?v + d) :: 'a word) = ?v + d" by (intro unat_small) (simp add: t)
    moreover have "\<not> ?t + radix - 1 \<le> ?v" "\<not> ?t \<le> ?v + d" using True assms(1) by linarith+
    ultimately show ?thesis
      using Cons s_fold_step [OF assms(1-3), of d False result u ds] by (simp add: Let_def)
  next
    case False
    then have "\<not> digits_from radix (?v + d) ds < ?t"
      using digits_from_le [of radix "?v + d" ds] assms(1) by linarith
    then show ?thesis
      using False Cons.prems s_fold_step [OF assms(1-3), of d False result u ds] by (simp add: Let_def)
  qed
qed simp

lemma s_fold_neg:
  fixes u :: "'a::len word"
  assumes "2 \<le> radix" "radix < 128" "8 \<le> LENGTH('a)" "list_all (\<lambda>d. d < radix) ds"
    and "digits_from radix (unat u) ds \<le> s_top TYPE('a)"
    and "32 \<le> LENGTH('a) \<Longrightarrow> radix dvd s_top TYPE('a) \<Longrightarrow> digits_from radix (unat u) ds < s_top TYPE('a)"
  shows "s_fold radix True result u ds =
    Digits (result + int (length ds)) (word_of_nat (digits_from radix (unat u) ds))"
  using assms(4-6)
proof (induction ds arbitrary: result u)
  case (Cons d ds)
  let ?t = "s_top TYPE('a)" and ?v = "unat u * radix"
  have le: "?v + d \<le> digits_from radix (unat u) (d # ds)"
    using digits_from_le [of radix "?v + d" ds] assms(1) by simp
  have "0 < ?t" by (simp add: s_top_def)
  then have "?v + d < 2 ^ LENGTH('a)"
    using le Cons.prems(2) s_top_simps(3) [where ?'a = 'a] by linarith
  then have u: "unat (word_of_nat (?v + d) :: 'a word) = ?v + d" by (rule unat_small)
  have "\<not> (?v = ?t \<and> 32 \<le> LENGTH('a))"
  proof
    assume *: "?v = ?t \<and> 32 \<le> LENGTH('a)"
    then have "radix dvd ?t" by (metis dvd_triv_right)
    then show False using * Cons.prems(3) le by auto
  qed
  moreover have "\<not> ?t + radix - 1 \<le> ?v" "\<not> ?t < ?v + d" using le Cons.prems(2) assms(1) by linarith+
  moreover have "s_fold radix True (result + 1) (word_of_nat (?v + d) :: 'a word) ds =
      Digits (result + 1 + int (length ds)) (word_of_nat (digits_from radix (?v + d) ds))"
    using Cons.IH [of "word_of_nat (?v + d)" "result + 1"] Cons.prems u by simp
  ultimately show ?case
    using Cons.prems(1) s_fold_step [OF assms(1-3), of d True result u ds] by simp
qed simp

text \<open>Negative numbers beyond the least value that are accepted all the same.\<close>

lemma s_fold_append:
  "s_fold radix negative result u ds = Digits r w \<Longrightarrow>
    s_fold radix negative result u (ds @ es) = s_fold radix negative r w es"
  by (induction ds arbitrary: result u)
    (auto simp: s_fold.simps(2) Let_def split: outcome.splits if_splits)

lemma s_fold_wrap:
  fixes ds :: "nat list" and radix :: nat
  defines "v \<equiv> digits_value radix ds"
  assumes "2 \<le> radix" "radix < 128" "8 \<le> LENGTH('a::len)" "list_all (\<lambda>d. d < radix) ds" "d < radix"
    and "s_top TYPE('a) < v * radix" "v * radix < s_top TYPE('a) + radix - 1"
  shows "s_fold radix True 0 (0 :: 'a word) (ds @ [d]) = Digits (int (length ds) + 1) (word_of_nat (v * radix + d))"
proof -
  let ?t = "s_top TYPE('a)"
  have t: "128 \<le> ?t" "2 ^ LENGTH('a) = 2 * ?t" using s_top_simps(3,4) [where ?'a = 'a] assms(4) by auto
  have "v < ?t"
  proof (rule ccontr)
    assume "\<not> v < ?t"
    then have "?t * 2 \<le> v * radix" using assms(2) by (intro mult_le_mono) auto
    then show False using assms(3,8) t by linarith
  qed
  then have "s_fold radix True 0 (0 :: 'a word) ds = Digits (int (length ds)) (word_of_nat v)"
    using s_fold_neg [OF assms(2-5), of 0 0] by (simp add: v_def digits_value_def)
  moreover have "unat (word_of_nat v :: 'a word) = v" using \<open>v < ?t\<close> t by (intro unat_small) auto
  ultimately show ?thesis
    using s_fold_step [OF assms(2-4,6), of True "int (length ds)" "word_of_nat v" "[]"] assms(7,8)
    by (simp add: s_fold_append)
qed

lemma parse_s_base:
  fixes dest :: "'a::len word"
  assumes "base_ok base" "8 \<le> LENGTH('a)" "buf_reads b" "list_all (\<lambda>d. d < length base) ds"
    and "buf_rest b = digit_text base ds @ xs" "no_digit base xs"
  shows "case s_fold (length base) negative 0 (0 :: 'a word) ds of
      Digits r u \<Rightarrow> \<exists>b'. buf_parse_s_base b base negative dest = Ok ((r, if negative then - u else u), b') \<and>
        buf_reads b' \<and> buf_view b' = (buf_view b)\<lparr>view_rest := xs\<rparr>
    | Overflow \<Rightarrow> \<exists>b'. buf_parse_s_base b base negative dest = Ok ((- 1, dest), b') \<and>
        buf_reads b' \<and> buf_view b' = buf_view b
    | Undefined \<Rightarrow> buf_parse_s_base b base negative dest = Undef
    | Bad_Digit \<Rightarrow> True"
proof -
  let ?r = "length base"
  have base: "2 \<le> ?r" "?r < 128" "str_length_utf8 base = int ?r"
    using assms(1) by (auto simp: base_ok_def str_length_ascii)
  have "128 \<le> s_top TYPE('a)" using assms(2) by (rule s_top_simps)
  then have radix: "\<not> (int ?r < 2 \<or> LENGTH('a) < 64 \<and> s_max TYPE('a) < int ?r)"
    unfolding s_top_simps(1) using base by auto
  have "buf_rest (buf_save_init b) = buf_rest b"
    using arg_cong [OF buf_view_save_init(2) [of b], of view_rest] by simp
  then have "loop_view (buf_save_init b) xs (s_fold ?r negative 0 (0 :: 'a word) ds)
      (buf_parse_s_loop (buf_save_init b) base negative (int ?r) 0 (0 :: 'a word))"
    using buf_view_save_init(1) [OF assms(3)] assms by (intro parse_s_loop) auto
  moreover obtain e b1 where "buf_parse_s_loop (buf_save_init b) base negative (int ?r) 0 (0 :: 'a word) = (e, b1)"
    by fastforce
  ultimately show ?thesis
    using radix save_close [OF assms(3), of b1]
    by (auto simp: buf_parse_s_base_def Let_def base(3) loop_view_def split: digits.splits)
qed

section \<open>Whole numbers in decimal\<close>

definition decimal_end :: "u8 list \<Rightarrow> bool" where
  "decimal_end xs \<longleftrightarrow> no_digit g_kc3_base_decimal xs \<and> (xs = [] \<or> hd xs \<notin> set (c_str ''box''))"

lemma decimal_no_prefix:
  assumes "list_all (\<lambda>d. d < 10) ds" "ds \<noteq> []" "decimal_end xs" "p \<in> set ''box''"
  shows "take 2 (digit_text g_kc3_base_decimal ds @ xs) \<noteq> c_str [CHR ''0'', p]"
proof -
  obtain d es where ds: "ds = d # es" using assms(2) by (cases ds) auto
  have digit: "g_kc3_base_decimal ! e \<noteq> of_char p" if "e < 10" for e
  proof -
    have "g_kc3_base_decimal ! e \<in> set g_kc3_base_decimal" using that by (intro nth_mem) simp
    then show ?thesis using assms(4) by (auto simp: g_kc3_base_decimal_def c_str_def)
  qed
  show ?thesis
  proof (cases es)
    case Nil
    then show ?thesis
      using assms(3,4) by (cases xs) (auto simp: ds decimal_end_def c_str_def)
  next
    case (Cons e fs)
    then show ?thesis using digit [of e] assms(1) by (simp add: ds c_str_def)
  qed
qed

lemma read_1_skip:
  assumes "buf_reads b" "ascii p" "take (length p) (buf_rest b) \<noteq> c_str p"
  shows "\<exists>b'. buf_read_1 b p = (0, b') \<and> buf_reads b' \<and> buf_view b' = buf_view b"
proof -
  obtain r b' where r: "buf_read_1 b p = (r, b')" by fastforce
  show ?thesis using buf_read_1_view [OF assms(1,2) r] assms(3) r by (auto simp: buf_view_def)
qed

lemma read_2_skip:
  "buf_reads b \<Longrightarrow> ascii [p, q] \<Longrightarrow> take 2 (buf_rest b) \<noteq> c_str [p, q] \<Longrightarrow>
    \<exists>b'. buf_read_1 b [p, q] = (0, b') \<and> buf_reads b' \<and> buf_view b' = buf_view b"
  using read_1_skip [of b "[p, q]"] by (simp add: numeral_2_eq_2)

lemma read_1_next:
  assumes "buf_reads b" "ascii p" "buf_rest b = c_str p @ xs"
  shows "\<exists>b'. buf_read_1 b p = (int (length p), b') \<and> buf_reads b' \<and> buf_view b' = (buf_view b)\<lparr>view_rest := xs\<rparr>"
proof -
  obtain r b' where r: "buf_read_1 b p = (r, b')" by fastforce
  show ?thesis using buf_read_1_view [OF assms(1,2) r] assms(3) r by auto
qed

lemma ascii_literals [simp]:
  "ascii ''0b''" "ascii ''0o''" "ascii ''0x''" "ascii ''-''" "ascii ''(''" "ascii '')''" "ascii '' ''"
  "ascii ''(S8)''" "ascii ''(S16)''" "ascii ''(S32)''" "ascii ''(S64)''" "ascii ''(Sw)''"
  by (simp_all add: ascii_def)

lemma skip_prefixes:
  assumes "buf_reads b" "list_all (\<lambda>d. d < 10) ds" "ds \<noteq> []" "buf_rest b = digit_text g_kc3_base_decimal ds @ xs"
    and "decimal_end xs"
  obtains b1 b2 b3 where "buf_read_1 b ''0b'' = (0, b1)" "buf_read_1 b1 ''0o'' = (0, b2)"
    "buf_read_1 b2 ''0x'' = (0, b3)" "buf_reads b3" "buf_view b3 = buf_view b"
proof -
  note no = decimal_no_prefix [OF assms(2,3,5)]
  obtain b1 where b1: "buf_read_1 b ''0b'' = (0, b1)" "buf_reads b1" "buf_view b1 = buf_view b"
    using read_2_skip [OF assms(1) ascii_literals(1)] no [of "CHR ''b''"] assms(4) by (simp only: list.set) blast
  then have r1: "buf_rest b1 = digit_text g_kc3_base_decimal ds @ xs" using assms(4) by (metis buf_view_rest)
  obtain b2 where b2: "buf_read_1 b1 ''0o'' = (0, b2)" "buf_reads b2" "buf_view b2 = buf_view b1"
    using read_2_skip [OF b1(2) ascii_literals(2)] no [of "CHR ''o''"] r1 by (simp only: list.set) blast
  then have r2: "buf_rest b2 = digit_text g_kc3_base_decimal ds @ xs" using r1 by (metis buf_view_rest)
  obtain b3 where b3: "buf_read_1 b2 ''0x'' = (0, b3)" "buf_reads b3" "buf_view b3 = buf_view b2"
    using read_2_skip [OF b2(2) ascii_literals(3)] no [of "CHR ''x''"] r2 by (simp only: list.set) blast
  show thesis using that b1 b2 b3 by simp
qed

lemma view_rest_eq: "buf_view b' = (buf_view b)\<lparr>view_rest := xs\<rparr> \<Longrightarrow> buf_rest b' = xs"
  by (metis buf_view_rest view.select_convs(1) view.update_convs(1) view.surjective)

lemma view_rest_same: "buf_rest b = xs \<Longrightarrow> (buf_view b)\<lparr>view_rest := xs\<rparr> = buf_view b"
  by (auto simp: buf_view_def)

text \<open>An unsigned number is read exactly, or rejected when it does not fit.\<close>

lemma parse_u_number:
  fixes dest :: "'a::len word"
  assumes "8 \<le> LENGTH('a)" "buf_reads b" "list_all (\<lambda>d. d < 10) ds" "ds \<noteq> []"
    and "buf_rest b = digit_text g_kc3_base_decimal ds @ xs" "decimal_end xs"
  shows "\<exists>b'. buf_parse_u b dest =
      (if digits_value 10 ds < 2 ^ LENGTH('a) then ((int (length ds), word_of_nat (digits_value 10 ds)), b')
       else ((- 1, dest), b')) \<and>
    buf_reads b' \<and> buf_view b' = (if digits_value 10 ds < 2 ^ LENGTH('a)
      then (buf_view b)\<lparr>view_rest := xs\<rparr> else buf_view b)"
proof -
  have rest: "buf_rest (buf_save_init b) = digit_text g_kc3_base_decimal ds @ xs"
    using arg_cong [OF buf_view_save_init(2) [of b], of view_rest] assms(5) by simp
  obtain b1 b2 b3 where pre: "buf_read_1 (buf_save_init b) ''0b'' = (0, b1)" "buf_read_1 b1 ''0o'' = (0, b2)"
      "buf_read_1 b2 ''0x'' = (0, b3)" "buf_reads b3" "buf_view b3 = buf_view (buf_save_init b)"
    using skip_prefixes [OF buf_view_save_init(1) [OF assms(2)] assms(3,4) rest assms(6)] by blast
  have "buf_rest b3 = digit_text g_kc3_base_decimal ds @ xs" using rest pre(5) by (metis buf_view_rest)
  then obtain b4 where b4: "buf_parse_u_base b3 g_kc3_base_decimal dest =
      (if digits_value 10 ds < 2 ^ LENGTH('a)
       then ((int (length ds), word_of_nat (digits_value 10 ds)), b4) else ((- 1, dest), b4))" "buf_reads b4"
      "buf_view b4 = (if digits_value 10 ds < 2 ^ LENGTH('a) then (buf_view b3)\<lparr>view_rest := xs\<rparr> else buf_view b3)"
    using parse_u_base [OF bases_ok(3) assms(1) pre(4), of ds xs dest] assms(3,6) by (auto simp: decimal_end_def)
  show ?thesis
  proof (cases "digits_value 10 ds < 2 ^ LENGTH('a)")
    case True
    then have view: "buf_view b4 = (buf_view (buf_save_init b))\<lparr>view_rest := xs\<rparr>" using b4(3) pre(5) by simp
    show ?thesis
      using save_close [OF assms(2) b4(2) view] b4(1) True assms(4) pre(1-3)
      by (auto simp: buf_parse_u_def buf_parse_u_prefixed_def)
  next
    case False
    then have view: "buf_view b4 = (buf_view (buf_save_init b))\<lparr>view_rest := buf_rest b3\<rparr>"
      using b4(3) pre(5) view_rest_same [OF refl, of b3] by simp
    show ?thesis
      using save_close [OF assms(2) b4(2) view] b4(1) False pre(1-3)
      by (auto simp: buf_parse_u_def buf_parse_u_prefixed_def)
  qed
qed

lemma s_fold_count: "s_fold radix negative result u ds = Digits r w \<Longrightarrow> r = result + int (length ds)"
proof (induction ds arbitrary: result u)
  case (Cons d ds)
  from Cons.prems obtain u' where "s_fold radix negative (result + 1) u' ds = Digits r w"
    by (auto simp: s_fold.simps(2) Let_def split: outcome.splits if_splits)
  then show ?case using Cons.IH by fastforce
qed simp

text \<open>
  After the cast and the sign, \<open>c\<close> being the buffer then and \<open>b\<close> the one before the number.
\<close>

lemma parse_s_number:
  fixes dest :: "'a::len word"
  assumes "8 \<le> LENGTH('a)" "buf_reads b" "buf_reads c"
    and "buf_view c = (buf_view (buf_save_init b))\<lparr>view_rest := digit_text g_kc3_base_decimal ds @ xs\<rparr>"
    and "list_all (\<lambda>d. d < 10) ds" "ds \<noteq> []" "decimal_end xs" "0 \<le> n"
  shows "case s_fold 10 negative 0 (0 :: 'a word) ds of
      Digits r u \<Rightarrow> \<exists>b'. buf_parse_s_number c negative n dest = Ok ((n + r, if negative then - u else u), b') \<and>
        buf_reads b' \<and> buf_view b' = (buf_view b)\<lparr>view_rest := xs\<rparr>
    | Overflow \<Rightarrow> \<exists>b'. buf_parse_s_number c negative n dest = Ok ((- 1, dest), b') \<and>
        buf_reads b' \<and> buf_view b' = buf_view b
    | Undefined \<Rightarrow> buf_parse_s_number c negative n dest = Undef
    | Bad_Digit \<Rightarrow> True"
proof -
  note rest = view_rest_eq [OF assms(4)]
  obtain b1 b2 b3 where pre: "buf_read_1 c ''0b'' = (0, b1)" "buf_read_1 b1 ''0o'' = (0, b2)"
      "buf_read_1 b2 ''0x'' = (0, b3)" "buf_reads b3" "buf_view b3 = buf_view c"
    using skip_prefixes [OF assms(3,5,6) rest assms(7)] by blast
  have rest3: "buf_rest b3 = digit_text g_kc3_base_decimal ds @ xs" using rest pre(5) by (metis buf_view_rest)
  note base = parse_s_base [OF bases_ok(3) assms(1) pre(4) _ rest3, unfolded length_bases, of negative dest]
  have number: "buf_parse_s_number c negative n dest = buf_parse_s_prefixed b3 g_kc3_base_decimal negative n dest"
    using pre(1-3) by (simp add: buf_parse_s_number_def)
  have view: "buf_view d = (buf_view (buf_save_init b))\<lparr>view_rest := ys\<rparr>"
    if "buf_view d = (buf_view b3)\<lparr>view_rest := ys\<rparr>" for d ys
    using that pre(5) assms(4) by simp
  have same: "buf_view d = (buf_view b3)\<lparr>view_rest := digit_text g_kc3_base_decimal ds @ xs\<rparr>"
    if "buf_view d = buf_view b3" for d
    using that rest3 by (simp add: view_rest_same)
  show ?thesis
  proof (cases "s_fold 10 negative 0 (0 :: 'a word) ds")
    case (Digits r u)
    then obtain b4 where b4: "buf_parse_s_base b3 g_kc3_base_decimal negative dest =
        Ok ((r, if negative then - u else u), b4)" "buf_reads b4" "buf_view b4 = (buf_view b3)\<lparr>view_rest := xs\<rparr>"
      using base assms(5,7) by (auto simp: decimal_end_def)
    moreover have "0 < r" using s_fold_count [OF Digits] assms(6) by simp
    ultimately show ?thesis
      using save_close(1,2) [OF assms(2) b4(2) view [OF b4(3)]] Digits
      by (auto simp: number buf_parse_s_prefixed_def)
  next
    case Overflow
    then obtain b4 where b4: "buf_parse_s_base b3 g_kc3_base_decimal negative dest = Ok ((- 1, dest), b4)"
        "buf_reads b4" "buf_view b4 = buf_view b3"
      using base assms(5,7) by (auto simp: decimal_end_def)
    then show ?thesis
      using save_close(3,4) [OF assms(2) b4(2) view [OF same [OF b4(3)]]] Overflow
      by (auto simp: number buf_parse_s_prefixed_def)
  next
    case Undefined
    then have "buf_parse_s_base b3 g_kc3_base_decimal negative dest = Undef"
      using base assms(5,7) by (auto simp: decimal_end_def)
    then show ?thesis using Undefined by (simp add: number buf_parse_s_prefixed_def)
  qed simp
qed

section \<open>The cast and the sign\<close>

lemma ignore_character_view:
  assumes "buf_reads b" "buf_rest b = c # xs" "c < 0x80"
  shows "\<exists>b'. buf_ignore b 1 = (1, b') \<and> buf_reads b' \<and> buf_view b' = (buf_view b)\<lparr>view_rest := xs\<rparr>"
proof -
  obtain r b1 where r: "buf_refill b 1 = (r, b1)" by fastforce
  note refill = buf_refill_view [OF assms(1), of 1, simplified, OF r]
  have rest: "buf_rest b1 = c # xs" using refill(1) assms(2) by (metis buf_view_rest)
  obtain x b2 where x: "buf_read_character_utf8 b1 = (x, b2)" by fastforce
  note read = buf_read_character_view [OF refill(2) x]
  have "x = Got (ucast c) 1" using read(2) decode_ascii [OF assms(3)] by (simp add: rest)
  moreover have "\<not> r < 0" "\<not> r < 1" using refill(3) assms(2) by simp_all
  ultimately have "buf_ignore b 1 = (1, b2)" "buf_view b2 = (buf_view b)\<lparr>view_rest := xs\<rparr>"
    using x read(3) refill(1) rest
    by (simp_all add: buf_ignore_def r buf_ignore_loop.simps)
  then show ?thesis using read(1) by blast
qed

lemma ignore_space_view:
  assumes "buf_reads b" "buf_rest b = 32 # y # ys" "y < 0x80" "is_space 32" "\<not> is_space (ucast y)"
  shows "\<exists>b'. buf_ignore_spaces is_space b = (1, b') \<and> buf_reads b' \<and>
    buf_view b' = (buf_view b)\<lparr>view_rest := y # ys\<rparr>"
proof -
  obtain x b1 where x: "buf_peek_character_utf8 b = (x, b1)" by fastforce
  note peek = buf_peek_character_view [OF assms(1) x]
  have x': "x = Got 32 1" using peek(3) decode_ascii [of 32] by (simp add: assms(2))
  have "buf_rest b1 = 32 # y # ys" using peek(1) assms(2) by (metis buf_view_rest)
  then obtain b2 where b2: "buf_ignore b1 1 = (1, b2)" "buf_reads b2" "buf_view b2 = (buf_view b1)\<lparr>view_rest := y # ys\<rparr>"
    using ignore_character_view [OF peek(2), of 32 "y # ys"] by auto
  note rest2 = view_rest_eq [OF b2(3)]
  obtain z b3 where z: "buf_peek_character_utf8 b2 = (z, b3)" by fastforce
  note peek2 = buf_peek_character_view [OF b2(2) z]
  have z': "z = Got (ucast y) 1" using peek2(3) decode_ascii [OF assms(3)] by (simp add: rest2)
  have "buf_ignore_spaces_loop is_space b2 1 = (1, b3)"
    using z assms(5) by (simp add: buf_ignore_spaces_loop.simps z')
  then have "buf_ignore_spaces is_space b = (1, b3)"
    using x b2(1) assms(4)
    by (simp add: buf_ignore_spaces_def buf_ignore_spaces_loop.simps [of _ b] x')
  then show ?thesis using peek2(1,2) peek(1) b2(3) by simp
qed

lemma decimal_character:
  assumes "d < 10"
  shows "g_kc3_base_decimal ! d < 0x80" "g_kc3_base_decimal ! d \<noteq> of_char CHR ''-''" "g_kc3_base_decimal ! d \<noteq> of_char CHR ''(''"
    "(ucast (g_kc3_base_decimal ! d) :: u32) = word_of_nat (48 + d)"
proof -
  have "d \<in> {0, 1, 2, 3, 4, 5, 6, 7, 8, 9}" using assms by auto
  then show "g_kc3_base_decimal ! d < 0x80" "g_kc3_base_decimal ! d \<noteq> of_char CHR ''-''" "g_kc3_base_decimal ! d \<noteq> of_char CHR ''(''"
    "(ucast (g_kc3_base_decimal ! d) :: u32) = word_of_nat (48 + d)"
    by (auto simp: g_kc3_base_decimal_def c_str_def)
qed

text \<open>What the table of Unicode characters says of the characters of a number.\<close>

definition spaces_ok :: "(u32 \<Rightarrow> bool) \<Rightarrow> bool" where
  "spaces_ok is_space \<longleftrightarrow> is_space 32 \<and> \<not> is_space 45 \<and> (\<forall>d < 10. \<not> is_space (word_of_nat (48 + d)))"

definition sign_text :: "bool \<Rightarrow> u8 list" where
  "sign_text negative = (if negative then c_str ''-'' else [])"

definition cast_text :: "string option \<Rightarrow> u8 list" where
  "cast_text cast = (case cast of None \<Rightarrow> [] | Some p \<Rightarrow> c_str p @ c_str '' '')"

lemma parse_sign:
  assumes "buf_reads b" "list_all (\<lambda>d. d < 10) ds" "ds \<noteq> []"
    and "buf_rest b = sign_text negative @ digit_text g_kc3_base_decimal ds @ xs"
  shows "\<exists>b'. buf_read_1 b ''-'' = (if negative then 1 else 0, b') \<and> buf_reads b' \<and>
    buf_view b' = (buf_view b)\<lparr>view_rest := digit_text g_kc3_base_decimal ds @ xs\<rparr>"
proof (cases negative)
  case True
  then show ?thesis using read_1_next [OF assms(1), of "''-''"] assms(4) by (simp add: sign_text_def)
next
  case False
  obtain d es where ds: "ds = d # es" using assms(3) by (cases ds) auto
  have "take 1 (buf_rest b) \<noteq> c_str ''-''"
    using assms(2,4) False decimal_character(2) [of d] by (simp add: ds c_str_def sign_text_def)
  then show ?thesis
    using read_1_skip [OF assms(1), of "''-''"] assms(4) False by (auto simp: view_rest_same sign_text_def)
qed

lemma number_character:
  assumes "list_all (\<lambda>d. d < 10) ds" "ds \<noteq> []" "spaces_ok is_space"
  obtains y ys where "sign_text negative @ digit_text g_kc3_base_decimal ds = y # ys" "y < 0x80"
    "y \<noteq> of_char CHR ''(''" "\<not> is_space (ucast y)"
proof -
  obtain d es where ds: "ds = d # es" "d < 10" using assms(1,2) by (cases ds) auto
  show thesis
    using that [of "hd (sign_text negative @ digit_text g_kc3_base_decimal ds)"
        "tl (sign_text negative @ digit_text g_kc3_base_decimal ds)"]
      decimal_character [OF ds(2)] assms(3) ds
    by (auto simp: sign_text_def c_str_def spaces_ok_def)
qed

lemma parse_cast:
  assumes "buf_reads b" "spaces_ok is_space" "list_all (\<lambda>d. d < 10) ds" "ds \<noteq> []"
    and "ascii p" "hd p = CHR ''(''" "cast = None \<or> cast = Some p"
    and "buf_rest b = cast_text cast @ sign_text negative @ digit_text g_kc3_base_decimal ds @ xs"
  shows "\<exists>r b1 r1 b2. buf_read_1 b p = (r, b1) \<and> 0 \<le> r \<and>
    (if r \<noteq> 0 then buf_ignore_spaces is_space b1 else (0, b1)) = (r1, b2) \<and> 0 \<le> r1 \<and>
    r + r1 = int (length (cast_text cast)) \<and> buf_reads b2 \<and>
    buf_view b2 = (buf_view b)\<lparr>view_rest := sign_text negative @ digit_text g_kc3_base_decimal ds @ xs\<rparr>"
proof -
  obtain y ys where y: "sign_text negative @ digit_text g_kc3_base_decimal ds = y # ys" "y < 0x80"
      "y \<noteq> of_char CHR ''(''" "\<not> is_space (ucast y)"
    using number_character [OF assms(3,4,2), of negative] by blast
  have whole: "sign_text negative @ digit_text g_kc3_base_decimal ds @ xs = y # ys @ xs"
    using y(1) by (metis append_Cons append_assoc)
  show ?thesis
  proof (cases cast)
    case None
    obtain c q where p: "p = c # q" "c = CHR ''(''" using assms(5,6) by (cases p) (auto simp: ascii_def)
    then have "take (length p) (buf_rest b) \<noteq> c_str p"
      using assms(8) None y(3) by (simp add: whole cast_text_def c_str_def)
    then show ?thesis
      using read_1_skip [OF assms(1,5)] assms(8) None by (auto simp: cast_text_def view_rest_same)
  next
    case (Some q)
    then have "buf_rest b = c_str p @ 32 # y # ys @ xs"
      using assms(7,8) by (simp add: whole cast_text_def) (simp add: c_str_def)
    then obtain b1 where b1: "buf_read_1 b p = (int (length p), b1)" "buf_reads b1"
        "buf_view b1 = (buf_view b)\<lparr>view_rest := 32 # y # ys @ xs\<rparr>"
      using read_1_next [OF assms(1,5)] by blast
    then obtain b2 where "buf_ignore_spaces is_space b1 = (1, b2)" "buf_reads b2"
        "buf_view b2 = (buf_view b1)\<lparr>view_rest := y # ys @ xs\<rparr>"
      using ignore_space_view [of b1 y "ys @ xs" is_space] view_rest_eq [OF b1(3)] y(2,4) assms(2)
      by (auto simp: spaces_ok_def)
    moreover have "0 < length p" using assms(5) by (auto simp: ascii_def)
    ultimately show ?thesis
      using b1 Some assms(7) by (auto simp: whole cast_text_def)
  qed
qed

lemma parse_s_text:
  fixes dest :: "'a::len word"
  assumes "8 \<le> LENGTH('a)" "buf_reads b" "spaces_ok is_space" "list_all (\<lambda>d. d < 10) ds" "ds \<noteq> []"
    and "ascii p" "hd p = CHR ''(''" "cast = None \<or> cast = Some p"
    and "buf_rest b = cast_text cast @ sign_text negative @ digit_text g_kc3_base_decimal ds @ xs" "decimal_end xs"
  shows "case s_fold 10 negative 0 (0 :: 'a word) ds of
      Digits r u \<Rightarrow> \<exists>b'. buf_parse_s is_space p b dest =
          Ok ((int (length (cast_text cast @ sign_text negative)) + r, if negative then - u else u), b') \<and>
        buf_reads b' \<and> buf_view b' = (buf_view b)\<lparr>view_rest := xs\<rparr>
    | Overflow \<Rightarrow> \<exists>b'. buf_parse_s is_space p b dest = Ok ((- 1, dest), b') \<and>
        buf_reads b' \<and> buf_view b' = buf_view b
    | Undefined \<Rightarrow> buf_parse_s is_space p b dest = Undef
    | Bad_Digit \<Rightarrow> True"
proof -
  have rest: "buf_rest (buf_save_init b) = cast_text cast @ sign_text negative @ digit_text g_kc3_base_decimal ds @ xs"
    using arg_cong [OF buf_view_save_init(2) [of b], of view_rest] assms(9) by simp
  obtain r b1 r1 b2 where cast: "buf_read_1 (buf_save_init b) p = (r, b1)" "0 \<le> r"
      "(if r \<noteq> 0 then buf_ignore_spaces is_space b1 else (0, b1)) = (r1, b2)" "0 \<le> r1"
      "r + r1 = int (length (cast_text cast))" "buf_reads b2"
      "buf_view b2 = (buf_view (buf_save_init b))\<lparr>view_rest := sign_text negative @ digit_text g_kc3_base_decimal ds @ xs\<rparr>"
    using parse_cast [OF buf_view_save_init(1) [OF assms(2)] assms(3-8) rest] by blast
  obtain b3 where b3: "buf_read_1 b2 ''-'' = (if negative then 1 else 0, b3)" "buf_reads b3"
      "buf_view b3 = (buf_view b2)\<lparr>view_rest := digit_text g_kc3_base_decimal ds @ xs\<rparr>"
    using parse_sign [OF cast(6) assms(4,5) view_rest_eq [OF cast(7)]] by blast
  define n where "n = int (length (cast_text cast @ sign_text negative))"
  have eq: "buf_parse_s is_space p b dest = buf_parse_s_number b3 negative n dest"
    using cast(1-5) b3(1) by (simp add: buf_parse_s_def n_def sign_text_def)
  have "buf_view b3 = (buf_view (buf_save_init b))\<lparr>view_rest := digit_text g_kc3_base_decimal ds @ xs\<rparr>"
    using b3(3) cast(7) by simp
  moreover have "0 \<le> n" by (simp add: n_def)
  ultimately show ?thesis
    unfolding eq n_def [symmetric] using parse_s_number [OF assms(1,2) b3(2) _ assms(4,5,10)] by blast
qed

end
