(* ===== verification/Int_Print.thy ===== *)
theory Int_Print
  imports Int_Parse
begin

text \<open>
  What the printers of machine integers write: the digits of the number, exactly when they fit.
\<close>

section \<open>The digits of a number\<close>

fun digits_of :: "nat \<Rightarrow> nat \<Rightarrow> nat list" where
  "digits_of radix n = (if radix < 2 \<or> n < radix then [n] else digits_of radix (n div radix) @ [n mod radix])"

declare digits_of.simps [simp del]

lemma digits_of_small: "n < radix \<Longrightarrow> digits_of radix n = [n]"
  by (simp add: digits_of.simps)

lemma digits_of_step: "2 \<le> radix \<Longrightarrow> \<not> n < radix \<Longrightarrow> digits_of radix n = digits_of radix (n div radix) @ [n mod radix]"
  by (simp add: digits_of.simps [of radix n])

lemma digits_of_nonempty [simp]: "digits_of radix n \<noteq> []"
  by (cases "radix < 2 \<or> n < radix") (simp_all add: digits_of.simps [of radix n])

lemma digits_of_value:
  assumes "2 \<le> radix"
  shows "digits_value radix (digits_of radix n) = n" "list_all (\<lambda>d. d < radix) (digits_of radix n)"
proof (induction n rule: less_induct)
  case (less n)
  have "n div radix < n" if "\<not> n < radix" using assms that by (intro div_less_dividend) auto
  then show "digits_value radix (digits_of radix n) = n" "list_all (\<lambda>d. d < radix) (digits_of radix n)"
    using less assms
    by (cases "n < radix"; simp add: digits_of_small digits_of_step digits_value_def)+
qed

lemma digits_of_length:
  assumes "2 \<le> radix" "n < 2 ^ k" "0 < k"
  shows "length (digits_of radix n) \<le> k"
  using assms(2,3)
proof (induction k arbitrary: n)
  case (Suc k)
  show ?case
  proof (cases "n < radix")
    case False
    then have "k \<noteq> 0" using Suc.prems(1) assms(1) by (cases k) auto
    moreover have "n div radix \<le> n div 2" using assms(1) by (intro div_le_mono2) auto
    then have "n div radix < 2 ^ k" using Suc.prems(1) by simp
    ultimately show ?thesis using Suc.IH [of "n div radix"] False assms(1) by (simp add: digits_of_step)
  qed (simp add: digits_of_small)
qed simp

section \<open>The loops over the digits\<close>

lemma u_div_less:
  assumes "2 \<le> radix" "u \<noteq> 0"
  shows "unat (u_div u radix) = unat u div radix" "unat (u_div u radix) < unat u"
proof -
  have "unat u div radix < 2 ^ LENGTH('a)" for u :: "'a::len word"
    by (rule le_less_trans [OF div_le_dividend unsigned_less])
  then show eq: "unat (u_div u radix) = unat u div radix" by (simp add: u_div_def unat_of_nat)
  have "0 < unat u" using assms(2) by (simp add: unat_gt_0)
  then show "unat (u_div u radix) < unat u" using assms(1) by (simp add: eq)
qed

lemma u_div_zero: "2 \<le> radix \<Longrightarrow> u \<noteq> 0 \<Longrightarrow> u_div u radix = 0 \<longleftrightarrow> unat u < radix"
  using u_div_less(1) [of radix u] by (auto simp: unat_eq_0 [symmetric] div_eq_0_iff simp del: unat_eq_0)

lemma base_digits_loop_exact:
  "2 \<le> radix \<Longrightarrow> u \<noteq> 0 \<Longrightarrow>
    base_digits_loop radix u sz = Some (sz + word_of_nat (length (digits_of radix (unat u))))"
proof (induction "unat u" arbitrary: u sz rule: less_induct)
  case less
  note step = base_digits_loop.simps [of radix u sz]
  show ?case
  proof (cases "unat u < radix")
    case True
    then have "u_div u radix = 0" using u_div_zero [OF less.prems] by simp
    then show ?thesis using step less.prems True by (simp add: base_digits_loop.simps [of _ 0] digits_of_small)
  next
    case False
    then have "u_div u radix \<noteq> 0" using u_div_zero [OF less.prems] by simp
    then show ?thesis
      using step less.prems False less.hyps [OF u_div_less(2) [OF less.prems], of "sz + 1"]
        u_div_less(1) [OF less.prems]
      by (simp add: digits_of_step)
  qed
qed

lemma u_digit_value:
  "0 < radix \<Longrightarrow> radix < 128 \<Longrightarrow> unat (u_digit u radix) = unat u mod radix"
proof -
  assume "0 < radix" "radix < 128"
  then have "unat u mod radix < 128" by (meson less_trans mod_less_divisor)
  then have "unat u mod radix < 2 ^ LENGTH(8)" by simp
  then show ?thesis unfolding u_digit_def by (rule unat_small)
qed

lemma base_characters_exact:
  assumes "base_ok base" "u \<noteq> 0"
  shows "base_characters base u c =
    Some (Some (c @ map ucast (rev (digit_text base (digits_of (length base) (unat u))))))"
  using assms(2)
proof (induction "unat u" arbitrary: u c rule: less_induct)
  case less
  let ?r = "length base"
  have r: "2 \<le> ?r" "?r < 128" "list_all (\<lambda>c. c < 0x80) base" using assms(1) by (auto simp: base_ok_def)
  have m: "unat u mod ?r < ?r" using r(1) by (intro mod_less_divisor) linarith
  have digit: "unat (u_digit u ?r) = unat u mod ?r" using r by (intro u_digit_value) auto
  have "str_character base (unat (u_digit u ?r)) = (1, Some (ucast (base ! (unat u mod ?r))))"
    unfolding digit by (rule str_character_ascii [OF r(3) m])
  then have step: "base_characters base u c =
      base_characters base (u_div u ?r) (c @ [ucast (base ! (unat u mod ?r))])"
    using less.prems by (subst base_characters.simps) simp
  show ?case
  proof (cases "unat u < ?r")
    case True
    then have "u_div u ?r = 0" using u_div_zero [OF r(1) less.prems] by simp
    then show ?thesis using step True by (simp add: base_characters.simps [of _ 0] digits_of_small)
  next
    case False
    then have "u_div u ?r \<noteq> 0" using u_div_zero [OF r(1) less.prems] by simp
    then show ?thesis
      using step False r(1) less.hyps [OF u_div_less(2) [OF r(1) less.prems]] u_div_less(1) [OF r(1) less.prems]
      by (simp add: digits_of_step digit_text_def)
  qed
qed

section \<open>Writing\<close>

lemma character_utf8_ascii:
  assumes "(c :: u8) < 0x80"
  shows "character_utf8 (ucast c) = Some [c]" "character_utf8_size (ucast c) = 1"
proof -
  have "uint c < 128" using assms by (simp add: word_less_alt)
  then have "(ucast c :: u32) < 0x80" by (simp add: word_less_alt uint_ucast_widen)
  moreover have "(ucast (ucast c :: u32) :: u8) = c" by (rule bit_word_eqI) (auto simp: bit_simps)
  ultimately show "character_utf8 (ucast c) = Some [c]" "character_utf8_size (ucast c) = 1"
    by (simp_all add: character_utf8_def character_utf8_size_def)
qed

lemma write_ascii:
  assumes "(c :: u8) < 0x80" "c \<noteq> 10"
  shows "buf_write_character_utf8 b (ucast c) =
    (if buf_wpos b + 1 \<le> buf_size b then (1, buf_append b [c]) else (- 1, b))"
proof -
  have "(ucast c :: u32) \<noteq> 10" using assms(2) ucast_ascii_inject [of c 10] by simp
  then show ?thesis using buf_write_character_iff [OF character_utf8_ascii(1) [OF assms(1)], of b] by simp
qed

lemma write_characters_ascii:
  assumes "list_all (\<lambda>c. c < 0x80 \<and> c \<noteq> 10) cs" "buf_wpos b \<le> buf_size b"
  shows "buf_wpos b + length cs \<le> buf_size b \<Longrightarrow>
      write_characters b (map ucast cs) r = (r + int (length cs), buf_append b cs)"
    and "\<not> buf_wpos b + length cs \<le> buf_size b \<Longrightarrow>
      \<exists>xs. write_characters b (map ucast cs) r = (- 1, buf_append b xs)"
proof -
  have "(buf_wpos b + length cs \<le> buf_size b \<longrightarrow>
      write_characters b (map ucast cs) r = (r + int (length cs), buf_append b cs)) \<and>
    (\<not> buf_wpos b + length cs \<le> buf_size b \<longrightarrow>
      (\<exists>xs. write_characters b (map ucast cs) r = (- 1, buf_append b xs)))"
    using assms
  proof (induction cs arbitrary: b r)
    case (Cons c cs)
    have c: "c < 0x80" "c \<noteq> 10" using Cons.prems(1) by auto
    show ?case
    proof (cases "buf_wpos b + 1 \<le> buf_size b")
      case True
      then have "buf_wpos (buf_append b [c]) \<le> buf_size (buf_append b [c])" by (simp add: buf_wpos_def)
      then show ?thesis
        using Cons.IH [of "buf_append b [c]" "r + 1"] Cons.prems True write_ascii [OF c, of b]
        by (auto simp: buf_wpos_def)
    next
      case False
      then show ?thesis using write_ascii [OF c, of b] by (auto intro: exI [of _ "[]"])
    qed
  qed simp
  then show "buf_wpos b + length cs \<le> buf_size b \<Longrightarrow>
      write_characters b (map ucast cs) r = (r + int (length cs), buf_append b cs)"
    "\<not> buf_wpos b + length cs \<le> buf_size b \<Longrightarrow>
      \<exists>xs. write_characters b (map ucast cs) r = (- 1, buf_append b xs)" by auto
qed

lemma buf_inspect_u_base_digits_exact:
  fixes x :: "'a::len word"
  assumes "2 \<le> length base"
  shows "buf_inspect_u_base_digits base x = run_ok (word_of_nat (length (digits_of (length base) (unat x))))"
proof (cases "x = 0")
  case True
  have "digits_of (length base) 0 = [0]" using assms by (intro digits_of_small) auto
  then show ?thesis using True by (simp add: buf_inspect_u_base_digits_def)
next
  case False
  have "base \<noteq> []" using assms by auto
  then show ?thesis using False assms by (simp add: buf_inspect_u_base_digits_def base_digits_loop_exact)
qed

lemma buf_inspect_u_base_exact:
  fixes x :: "'a::len word" and base
  assumes "base_ok base" "10 \<notin> set base" "buf_wpos b \<le> buf_size b"
  defines "ds \<equiv> digit_text base (digits_of (length base) (unat x))"
  shows "buf_inspect_u_base b base x =
    run_ok (if buf_wpos b + length ds \<le> buf_size b then (int (length ds), buf_append b ds) else (- 1, b))"
proof -
  let ?r = "length base"
  have r: "2 \<le> ?r" "list_all (\<lambda>c. c < 0x80) base" using assms(1) by (auto simp: base_ok_def)
  have "list_all (\<lambda>d. d < ?r) (digits_of ?r (unat x))" by (rule digits_of_value [OF r(1)])
  then have ascii: "list_all (\<lambda>c. c < 0x80 \<and> c \<noteq> 10) ds"
    using r(2) assms(2) by (fastforce simp: ds_def digit_text_def list_all_iff dest: nth_mem)
  show ?thesis
  proof (cases "x = 0")
    case True
    have "str_character base 0 = (1, Some (ucast (base ! 0)))" using r by (intro str_character_ascii) auto
    moreover have "digits_of ?r 0 = [0]" using r(1) by (intro digits_of_small) auto
    then have ds: "ds = [base ! 0]" by (simp add: ds_def True)
    ultimately show ?thesis
      using True ascii write_ascii [of "base ! 0" b] by (simp add: buf_inspect_u_base_def ds)
  next
    case False
    have chars: "base_characters base x [] = Some (Some (map ucast (rev ds)))"
      using base_characters_exact [OF assms(1) False, of "[]"] by (simp add: ds_def)
    have pos: "buf_wpos (buf_save_init b) = buf_wpos b" "buf_size (buf_save_init b) = buf_size b"
      by (simp_all add: buf_save_init_def buf_wpos_def)
    note wr = write_characters_ascii [OF ascii, of "buf_save_init b", unfolded pos, OF assms(3), of 0]
    have close: "buf_save_clean (buf_append (buf_save_init b) ys) = buf_append b ys"
      "buf_save_clean (buf_save_restore_wpos (buf_append (buf_save_init b) ys)) = b" for ys
      by (simp_all add: buf_save_clean_def buf_save_init_def buf_save_restore_wpos_def buf_wpos_def)
    show ?thesis
    proof (cases "buf_wpos b + length ds \<le> buf_size b")
      case True
      then show ?thesis
        using False wr(1) close
        by (simp add: buf_inspect_u_base_def buf_inspect_u_base_digits_exact [OF r(1)] chars rev_map Let_def)
    next
      case full: False
      then obtain xs where "write_characters (buf_save_init b) (map ucast ds) 0 = (- 1, buf_append (buf_save_init b) xs)"
        using wr(2) by blast
      then show ?thesis
        using False full close
        by (simp add: buf_inspect_u_base_def buf_inspect_u_base_digits_exact [OF r(1)] chars rev_map Let_def)
    qed
  qed
qed
section \<open>Signs and casts\<close>

lemma bases_no_newline [simp]:
  "10 \<notin> set g_kc3_base_binary" "10 \<notin> set g_kc3_base_octal" "10 \<notin> set g_kc3_base_decimal"
  "10 \<notin> set g_kc3_base_hexadecimal"
  by (simp_all add: g_kc3_base_binary_def g_kc3_base_octal_def g_kc3_base_decimal_def
      g_kc3_base_hexadecimal_def c_str_def)

definition s_negatable :: "'a::len word \<Rightarrow> bool" where
  "s_negatable x \<longleftrightarrow> \<not> (32 \<le> LENGTH('a) \<and> sint x = s_min TYPE('a))"

lemma unat_abs:
  fixes x :: "'a::len word"
  shows "sint x < 0 \<Longrightarrow> unat (- x) = nat \<bar>sint x\<bar>" "\<not> sint x < 0 \<Longrightarrow> unat x = nat \<bar>sint x\<bar>"
    "nat \<bar>sint x\<bar> \<le> s_top TYPE('a)"
    "\<not> sint x < 0 \<Longrightarrow> nat \<bar>sint x\<bar> < s_top TYPE('a)"
    "sint x < 0 \<Longrightarrow> nat \<bar>sint x\<bar> = s_top TYPE('a) \<Longrightarrow> sint x = s_min TYPE('a)"
proof -
  have range: "- int (s_top TYPE('a)) \<le> sint x" "sint x < int (s_top TYPE('a))"
    using sint_range_bits [of x] by (simp_all add: s_top_def)
  then show "nat \<bar>sint x\<bar> \<le> s_top TYPE('a)" "\<not> sint x < 0 \<Longrightarrow> nat \<bar>sint x\<bar> < s_top TYPE('a)" by auto
  show "sint x < 0 \<Longrightarrow> nat \<bar>sint x\<bar> = s_top TYPE('a) \<Longrightarrow> sint x = s_min TYPE('a)"
    unfolding s_top_simps(2) by linarith
  have two: "(2 :: int) ^ LENGTH('a) = 2 * int (s_top TYPE('a))"
    using s_top_simps(3) [where ?'a = 'a] by (metis of_nat_mult of_nat_numeral of_nat_power)
  have wordI: "unat w = nat i" if "w = word_of_int i" "0 \<le> i" "i < 2 ^ LENGTH('a)" for w :: "'a word" and i
    using that by (simp add: uint_of_int_in_range nat_uint_eq [symmetric] del: nat_uint_eq)
  show "unat (- x) = nat \<bar>sint x\<bar>" if "sint x < 0"
    using that range two by (intro wordI) auto
  show "unat x = nat \<bar>sint x\<bar>" if "\<not> sint x < 0"
    using that range two by (intro wordI) auto
qed

lemma inspect_add_ok [simp]: "0 \<le> r \<Longrightarrow> inspect_add n (run_ok (r, s)) = run_ok (n + r, s)"
  by (simp add: inspect_add_def)

lemma buf_inspect_s_base_fits:
  fixes x :: "'a::len word"
  assumes "base_ok base" "10 \<notin> set base" "s_negatable x"
  defines "txt \<equiv> sign_text (sint x < 0) @ digit_text base (digits_of (length base) (nat \<bar>sint x\<bar>))"
  assumes "buf_wpos b + length txt \<le> buf_size b"
  shows "buf_inspect_s_base base b x = run_ok (int (length txt), buf_append b txt)"
proof (cases "sint x < 0")
  case True
  have room: "buf_wpos b + length ''-'' \<le> buf_size b" using assms(5) by (simp add: txt_def sign_text_def True)
  then have "buf_write_1 b ''-'' = (1, buf_append b (c_str ''-''))"
    using buf_write_1_fits [of "''-''" b] by simp
  moreover have "s_neg x = Ok (- x)" using assms(3) by (auto simp: s_neg_def s_negatable_def)
  ultimately show ?thesis
    using True room assms(5) buf_inspect_u_base_exact [OF assms(1,2), of "buf_append b (c_str ''-'')" "- x"]
    by (simp add: buf_inspect_s_base_def inspect_minus_def unat_abs(1) txt_def sign_text_def buf_wpos_def)
next
  case False
  then show ?thesis
    using assms(5) buf_inspect_u_base_exact [OF assms(1,2), of b x]
    by (simp add: buf_inspect_s_base_def inspect_minus_def unat_abs(2) txt_def sign_text_def)
qed

lemma buf_append_append [simp]: "buf_append (buf_append b xs) ys = buf_append b (xs @ ys)"
  by simp

lemma inspect_cast_fits:
  assumes "ascii nm" "buf_wpos b + length (cast_text (Some (''('' @ nm @ '')''))) \<le> buf_size b"
    "type \<noteq> Some (c_str nm)" "needed"
  shows "inspect_cast type (c_str nm) needed b k =
    k (int (length (cast_text (Some (''('' @ nm @ '')''))))) (buf_append b (cast_text (Some (''('' @ nm @ '')''))))"
proof -
  have "buf_write_1 b ''('' = (1, buf_append b (c_str ''(''))"
    using buf_write_1_fits [of "''(''" b] assms(2) by (simp add: cast_text_def)
  moreover have "buf_write_str (buf_append b (c_str ''('')) (c_str nm) = (int (length nm), buf_append b (c_str (''('' @ nm)))"
    using buf_write_1_fits [OF assms(1), of "buf_append b (c_str ''('')"] assms(2)
    by (simp add: cast_text_def buf_write_1_def buf_wpos_def c_str_def)
  moreover have "buf_write_1 (buf_append b (c_str (''('' @ nm))) '')'' = (1, buf_append b (c_str (''('' @ nm @ '')'')))"
    using buf_write_1_fits [of "'')''" "buf_append b (c_str (''('' @ nm))"] assms(2)
    by (simp add: cast_text_def buf_wpos_def c_str_def)
  moreover have "buf_write_1 (buf_append b (c_str (''('' @ nm @ '')''))) '' '' =
      (1, buf_append b (cast_text (Some (''('' @ nm @ '')''))))"
    using buf_write_1_fits [of "'' ''" "buf_append b (c_str (''('' @ nm @ '')''))"] assms(2)
    by (simp add: cast_text_def buf_wpos_def c_str_def)
  moreover have "0 < length nm" using assms(1) by (simp add: ascii_def)
  ultimately show ?thesis
    using assms(3,4) by (simp add: inspect_cast_def buf_inspect_paren_sym_def cast_text_def add.commute add.left_commute)
qed

text \<open>The text of a number, with the cast when it is shown.\<close>

definition s_text :: "string option \<Rightarrow> 'a::len word \<Rightarrow> u8 list" where
  "s_text cast x = cast_text cast @ sign_text (sint x < 0) @
    digit_text g_kc3_base_decimal (digits_of 10 (nat \<bar>sint x\<bar>))"

definition shown_cast :: "sym option \<Rightarrow> string \<Rightarrow> bool \<Rightarrow> string option" where
  "shown_cast type nm needed = (if type \<noteq> Some (c_str nm) \<and> needed then Some (''('' @ nm @ '')'') else None)"

lemma buf_inspect_s_fits:
  fixes x :: "'a::len word"
  assumes "ascii nm" "s_negatable x" "buf_wpos b + length (s_text (shown_cast type nm (needed x)) x) \<le> buf_size b"
  shows "buf_inspect_s type (c_str nm) needed b x =
    run_ok (int (length (s_text (shown_cast type nm (needed x)) x)), buf_append b (s_text (shown_cast type nm (needed x)) x))"
proof -
  note base = buf_inspect_s_base_fits [OF bases_ok(3) bases_no_newline(3) assms(2), unfolded length_bases]
  show ?thesis
  proof (cases "type \<noteq> Some (c_str nm) \<and> needed x")
    case True
    then have shown: "shown_cast type nm (needed x) = Some (''('' @ nm @ '')'')" by (simp add: shown_cast_def)
    show ?thesis
      using assms(3) inspect_cast_fits [OF assms(1), of b type "needed x"] True
        base [of "buf_append b (cast_text (Some (''('' @ nm @ '')'')))"]
      unfolding shown by (simp add: buf_inspect_s_def s_text_def buf_wpos_def)
  next
    case False
    then have shown: "shown_cast type nm (needed x) = None" by (simp add: shown_cast_def)
    show ?thesis
      using assms(3) False base [of b]
      unfolding shown by (auto simp: buf_inspect_s_def inspect_cast_def s_text_def cast_text_def)
  qed
qed

lemma buf_inspect_u_fits:
  fixes x :: "'a::len word"
  assumes "type = Some name \<or> \<not> needed x" "buf_wpos b \<le> buf_size b"
  defines "txt \<equiv> digit_text g_kc3_base_decimal (digits_of 10 (unat x))"
  assumes "buf_wpos b + length txt \<le> buf_size b"
  shows "buf_inspect_u type name needed b x = run_ok (int (length txt), buf_append b txt)"
  using assms buf_inspect_u_base_exact [OF bases_ok(3) bases_no_newline(3) assms(2), unfolded length_bases, of x]
  by (auto simp: buf_inspect_u_def inspect_cast_def)

section \<open>The size computed beforehand\<close>

lemma characters_size_ascii:
  "list_all (\<lambda>c. c < 0x80 \<and> c \<noteq> 10) (cs :: u8 list) \<Longrightarrow>
    characters_size pretty (map ucast cs) r =
      (r + int (length cs), pretty\<lparr>pretty_column := pretty_column pretty + int (length cs)\<rparr>)"
proof (induction cs arbitrary: pretty r)
  case (Cons c cs)
  then have "(ucast c :: u32) \<noteq> 10" using ucast_ascii_inject [of c 10] by simp
  then show ?case using Cons by (simp add: buf_write_character_utf8_size_def character_utf8_ascii Let_def)
qed simp

lemma buf_inspect_u_base_size_exact:
  fixes x :: "'a::len word" and base
  assumes "base_ok base" "10 \<notin> set base"
  defines "ds \<equiv> digit_text base (digits_of (length base) (unat x))"
  shows "buf_inspect_u_base_size pretty base x =
    run_ok (int (length ds), pretty\<lparr>pretty_column := pretty_column pretty + int (length ds)\<rparr>)"
proof -
  let ?r = "length base"
  have r: "2 \<le> ?r" "list_all (\<lambda>c. c < 0x80) base" using assms(1) by (auto simp: base_ok_def)
  have "list_all (\<lambda>d. d < ?r) (digits_of ?r (unat x))" by (rule digits_of_value [OF r(1)])
  then have ascii: "list_all (\<lambda>c. c < 0x80 \<and> c \<noteq> 10) ds"
    using r(2) assms(2) by (fastforce simp: ds_def digit_text_def list_all_iff dest: nth_mem)
  show ?thesis
  proof (cases "x = 0")
    case True
    have "str_character base 0 = (1, Some (ucast (base ! 0)))" using r by (intro str_character_ascii) auto
    moreover have "digits_of ?r 0 = [0]" using r(1) by (intro digits_of_small) auto
    then have ds: "ds = [base ! 0]" by (simp add: ds_def True)
    ultimately show ?thesis
      using True characters_size_ascii [OF ascii, of pretty 0] by (simp add: buf_inspect_u_base_size_def ds split: if_splits prod.splits)
  next
    case False
    have chars: "base_characters base x [] = Some (Some (map ucast (rev ds)))"
      using base_characters_exact [OF assms(1) False, of "[]"] by (simp add: ds_def)
    show ?thesis
      using False characters_size_ascii [OF ascii, of pretty 0]
      by (simp add: buf_inspect_u_base_size_def buf_inspect_u_base_digits_exact [OF r(1)] chars rev_map)
  qed
qed

section \<open>Padding\<close>

lemma pad_loop_fits:
  assumes "(c :: u8) < 0x80" "c \<noteq> 10" "buf_wpos b + (unat sz - unat i) \<le> buf_size b"
  shows "pad_loop b i sz (ucast c) result =
    (True, result + int (unat sz - unat i), buf_append b (replicate (unat sz - unat i) c))"
  using assms(3)
proof (induction "unat sz - unat i" arbitrary: b i result)
  case 0
  then have "\<not> i < sz" by (simp add: word_less_nat_alt)
  then show ?case using 0 by (subst pad_loop.simps) simp
next
  case (Suc n)
  have less: "unat i < unat sz" using Suc.hyps(2) by linarith
  have "unat sz < 2 ^ LENGTH(8)" by (rule unsigned_less)
  then have "unat i + unat (1 :: u8) < 2 ^ LENGTH(8)" using less by simp
  then have next_i: "unat (i + 1) = unat i + 1" by (simp add: unat_add_lem [THEN iffD1])
  have n: "n = unat sz - unat (i + 1)" "unat sz - unat i = Suc n"
    using Suc.hyps(2) by (simp_all add: next_i)
  have room: "buf_wpos b + 1 \<le> buf_size b" using less Suc.prems by linarith
  have "pad_loop b i sz (ucast c) result = pad_loop (buf_append b [c]) (i + 1) sz (ucast c) (result + 1)"
    using less room write_ascii [OF assms(1,2), of b]
    by (subst pad_loop.simps) (simp add: word_less_nat_alt)
  then show ?case
    using Suc.hyps(1) [OF n(1), of "buf_append b [c]" "result + 1"] Suc.prems
    unfolding n(2) n(1) [symmetric] by (simp add: buf_wpos_def replicate_app_Cons_same [symmetric])
qed

text \<open>The number is padded to the width, and written whole when it is wider.\<close>

lemma buf_inspect_u_pad_fits:
  fixes x :: "'a::len word" and base and sz c :: u8
  assumes "base_ok base" "10 \<notin> set base" "LENGTH('a) < 256" "c < 0x80" "c \<noteq> 10"
  defines "ds \<equiv> digit_text base (digits_of (length base) (unat x))"
  defines "txt \<equiv> replicate (unat sz - length ds) c @ ds"
  assumes "buf_wpos b + length txt \<le> buf_size b"
  shows "buf_inspect_u_pad b base sz (ucast c) x = run_ok (int (length txt), buf_append b txt)"
proof -
  let ?r = "length base"
  have r: "2 \<le> ?r" using assms(1) by (simp add: base_ok_def)
  have "length ds \<le> LENGTH('a)"
    unfolding ds_def digit_text_simps using r by (intro digits_of_length) (auto simp: unsigned_less)
  then have len: "unat (word_of_nat (length ds) :: u8) = length ds"
    using assms(3) by (intro unat_small) simp
  have "0 < length ds" by (simp add: ds_def)
  then show ?thesis
    using assms(8) len
      pad_loop_fits [OF assms(4,5), of b sz "word_of_nat (length ds)" 0]
      buf_inspect_u_base_exact [OF assms(1,2), of "buf_append b (replicate (unat sz - length ds) c)" x]
    by (simp add: buf_inspect_u_pad_def buf_inspect_u_base_digits_exact [OF r] txt_def ds_def buf_wpos_def)
qed

end
