(* ===== verification/Int_Types.thy ===== *)
theory Int_Types
  imports Int_Text
begin

text \<open>
  The ten integer types: what the files buf_inspect_u8.c to buf_inspect_sw.c, the files of their
  bases (binary, decimal, hexadecimal, octal) and buf_parse_u8.c to buf_parse_sw.c define, each an
  instance of its template, and the conditions of cast.c.
\<close>

section \<open>cast.c\<close>

definition cast_needed_s8 :: "s8 \<Rightarrow> bool" where
  "cast_needed_s8 i \<longleftrightarrow> 0 \<le> sint i"

definition cast_needed_s16 :: "s16 \<Rightarrow> bool" where
  "cast_needed_s16 i \<longleftrightarrow> - 128 \<le> sint i"

definition cast_needed_s32 :: "s32 \<Rightarrow> bool" where
  "cast_needed_s32 i \<longleftrightarrow> - 32768 \<le> sint i"

definition cast_needed_s64 :: "s64 \<Rightarrow> bool" where
  "cast_needed_s64 i \<longleftrightarrow> - 2147483648 \<le> sint i"

definition cast_needed_sw :: "sw \<Rightarrow> bool" where
  "cast_needed_sw i \<longleftrightarrow> True"

definition cast_needed_u8 :: "u8 \<Rightarrow> bool" where
  "cast_needed_u8 i \<longleftrightarrow> False"

definition cast_needed_u16 :: "u16 \<Rightarrow> bool" where
  "cast_needed_u16 i \<longleftrightarrow> uint i \<le> 255"

definition cast_needed_u32 :: "u32 \<Rightarrow> bool" where
  "cast_needed_u32 i \<longleftrightarrow> uint i \<le> 65535"

definition cast_needed_u64 :: "u64 \<Rightarrow> bool" where
  "cast_needed_u64 i \<longleftrightarrow> uint i \<le> 4294967295"

definition cast_needed_uw :: "uw \<Rightarrow> bool" where
  "cast_needed_uw i \<longleftrightarrow> True"

section \<open>s8\<close>

definition buf_inspect_s8 :: "sym option \<Rightarrow> buf \<Rightarrow> s8 \<Rightarrow> (int \<times> buf) run" where
  "buf_inspect_s8 type b x = buf_inspect_s type (c_str ''S8'') cast_needed_s8 b x"

definition buf_inspect_s8_size :: "sym option \<Rightarrow> pretty \<Rightarrow> s8 \<Rightarrow> (int \<times> pretty) run" where
  "buf_inspect_s8_size type pretty x = buf_inspect_s_size type (c_str ''S8'') cast_needed_s8 pretty x"

definition buf_inspect_s8_binary :: "buf \<Rightarrow> s8 \<Rightarrow> (int \<times> buf) run" where
  "buf_inspect_s8_binary b x = buf_inspect_s_base g_kc3_base_binary b x"

definition buf_inspect_s8_binary_size :: "pretty \<Rightarrow> s8 \<Rightarrow> (int \<times> pretty) run" where
  "buf_inspect_s8_binary_size pretty s = buf_inspect_s_base_size g_kc3_base_binary pretty s"

definition buf_inspect_s8_decimal :: "buf \<Rightarrow> s8 \<Rightarrow> (int \<times> buf) run" where
  "buf_inspect_s8_decimal b x = buf_inspect_s_base g_kc3_base_decimal b x"

definition buf_inspect_s8_decimal_size :: "pretty \<Rightarrow> s8 \<Rightarrow> (int \<times> pretty) run" where
  "buf_inspect_s8_decimal_size pretty s = buf_inspect_s_base_size g_kc3_base_decimal pretty s"

definition buf_inspect_s8_hexadecimal :: "buf \<Rightarrow> s8 \<Rightarrow> (int \<times> buf) run" where
  "buf_inspect_s8_hexadecimal b x = buf_inspect_s_base g_kc3_base_hexadecimal b x"

definition buf_inspect_s8_hexadecimal_size :: "pretty \<Rightarrow> s8 \<Rightarrow> (int \<times> pretty) run" where
  "buf_inspect_s8_hexadecimal_size pretty s = buf_inspect_s_base_size g_kc3_base_hexadecimal pretty s"

definition buf_inspect_s8_octal :: "buf \<Rightarrow> s8 \<Rightarrow> (int \<times> buf) run" where
  "buf_inspect_s8_octal b x = buf_inspect_s_base g_kc3_base_octal b x"

definition buf_inspect_s8_octal_size :: "pretty \<Rightarrow> s8 \<Rightarrow> (int \<times> pretty) run" where
  "buf_inspect_s8_octal_size pretty s = buf_inspect_s_base_size g_kc3_base_octal pretty s"

definition buf_parse_s8 :: "(u32 \<Rightarrow> bool) \<Rightarrow> buf \<Rightarrow> s8 \<Rightarrow> ((int \<times> s8) \<times> buf) outcome" where
  "buf_parse_s8 is_space b dest = buf_parse_s is_space ''(S8)'' b dest"

definition buf_parse_s8_base :: "buf \<Rightarrow> str \<Rightarrow> bool \<Rightarrow> s8 \<Rightarrow> ((int \<times> s8) \<times> buf) outcome" where
  "buf_parse_s8_base b base negative dest = buf_parse_s_base b base negative dest"

definition buf_parse_s8_decimal :: "buf \<Rightarrow> bool \<Rightarrow> s8 \<Rightarrow> ((int \<times> s8) \<times> buf) outcome" where
  "buf_parse_s8_decimal b negative dest = buf_parse_s_decimal b negative dest"

definition buf_parse_tag_s8 :: "(u32 \<Rightarrow> bool) \<Rightarrow> buf \<Rightarrow> (tag option \<times> buf) outcome" where
  "buf_parse_tag_s8 is_space b = buf_parse_tag_s TS8 is_space ''(S8)'' b"

definition buf_parse_tag_s8_base :: "buf \<Rightarrow> str \<Rightarrow> bool \<Rightarrow> (tag option \<times> buf) outcome" where
  "buf_parse_tag_s8_base b base negative = buf_parse_tag_s_base TS8 b base negative"

section \<open>s16\<close>

definition buf_inspect_s16 :: "sym option \<Rightarrow> buf \<Rightarrow> s16 \<Rightarrow> (int \<times> buf) run" where
  "buf_inspect_s16 type b x = buf_inspect_s type (c_str ''S16'') cast_needed_s16 b x"

definition buf_inspect_s16_size :: "sym option \<Rightarrow> pretty \<Rightarrow> s16 \<Rightarrow> (int \<times> pretty) run" where
  "buf_inspect_s16_size type pretty x = buf_inspect_s_size type (c_str ''S16'') cast_needed_s16 pretty x"

definition buf_inspect_s16_binary :: "buf \<Rightarrow> s16 \<Rightarrow> (int \<times> buf) run" where
  "buf_inspect_s16_binary b x = buf_inspect_s_base g_kc3_base_binary b x"

definition buf_inspect_s16_binary_size :: "pretty \<Rightarrow> s16 \<Rightarrow> (int \<times> pretty) run" where
  "buf_inspect_s16_binary_size pretty s = buf_inspect_s_base_size g_kc3_base_binary pretty s"

definition buf_inspect_s16_decimal :: "buf \<Rightarrow> s16 \<Rightarrow> (int \<times> buf) run" where
  "buf_inspect_s16_decimal b x = buf_inspect_s_base g_kc3_base_decimal b x"

definition buf_inspect_s16_decimal_size :: "pretty \<Rightarrow> s16 \<Rightarrow> (int \<times> pretty) run" where
  "buf_inspect_s16_decimal_size pretty s = buf_inspect_s_base_size g_kc3_base_decimal pretty s"

definition buf_inspect_s16_hexadecimal :: "buf \<Rightarrow> s16 \<Rightarrow> (int \<times> buf) run" where
  "buf_inspect_s16_hexadecimal b x = buf_inspect_s_base g_kc3_base_hexadecimal b x"

definition buf_inspect_s16_hexadecimal_size :: "pretty \<Rightarrow> s16 \<Rightarrow> (int \<times> pretty) run" where
  "buf_inspect_s16_hexadecimal_size pretty s = buf_inspect_s_base_size g_kc3_base_hexadecimal pretty s"

definition buf_inspect_s16_octal :: "buf \<Rightarrow> s16 \<Rightarrow> (int \<times> buf) run" where
  "buf_inspect_s16_octal b x = buf_inspect_s_base g_kc3_base_octal b x"

definition buf_inspect_s16_octal_size :: "pretty \<Rightarrow> s16 \<Rightarrow> (int \<times> pretty) run" where
  "buf_inspect_s16_octal_size pretty s = buf_inspect_s_base_size g_kc3_base_octal pretty s"

definition buf_parse_s16 :: "(u32 \<Rightarrow> bool) \<Rightarrow> buf \<Rightarrow> s16 \<Rightarrow> ((int \<times> s16) \<times> buf) outcome" where
  "buf_parse_s16 is_space b dest = buf_parse_s is_space ''(S16)'' b dest"

definition buf_parse_s16_base :: "buf \<Rightarrow> str \<Rightarrow> bool \<Rightarrow> s16 \<Rightarrow> ((int \<times> s16) \<times> buf) outcome" where
  "buf_parse_s16_base b base negative dest = buf_parse_s_base b base negative dest"

definition buf_parse_s16_decimal :: "buf \<Rightarrow> bool \<Rightarrow> s16 \<Rightarrow> ((int \<times> s16) \<times> buf) outcome" where
  "buf_parse_s16_decimal b negative dest = buf_parse_s_decimal b negative dest"

definition buf_parse_tag_s16 :: "(u32 \<Rightarrow> bool) \<Rightarrow> buf \<Rightarrow> (tag option \<times> buf) outcome" where
  "buf_parse_tag_s16 is_space b = buf_parse_tag_s TS16 is_space ''(S16)'' b"

definition buf_parse_tag_s16_base :: "buf \<Rightarrow> str \<Rightarrow> bool \<Rightarrow> (tag option \<times> buf) outcome" where
  "buf_parse_tag_s16_base b base negative = buf_parse_tag_s_base TS16 b base negative"

section \<open>s32\<close>

definition buf_inspect_s32 :: "sym option \<Rightarrow> buf \<Rightarrow> s32 \<Rightarrow> (int \<times> buf) run" where
  "buf_inspect_s32 type b x = buf_inspect_s type (c_str ''S32'') cast_needed_s32 b x"

definition buf_inspect_s32_size :: "sym option \<Rightarrow> pretty \<Rightarrow> s32 \<Rightarrow> (int \<times> pretty) run" where
  "buf_inspect_s32_size type pretty x = buf_inspect_s_size type (c_str ''S32'') cast_needed_s32 pretty x"

definition buf_inspect_s32_binary :: "buf \<Rightarrow> s32 \<Rightarrow> (int \<times> buf) run" where
  "buf_inspect_s32_binary b x = buf_inspect_s_base g_kc3_base_binary b x"

definition buf_inspect_s32_binary_size :: "pretty \<Rightarrow> s32 \<Rightarrow> (int \<times> pretty) run" where
  "buf_inspect_s32_binary_size pretty s = buf_inspect_s_base_size g_kc3_base_binary pretty s"

definition buf_inspect_s32_decimal :: "buf \<Rightarrow> s32 \<Rightarrow> (int \<times> buf) run" where
  "buf_inspect_s32_decimal b x = buf_inspect_s_base g_kc3_base_decimal b x"

definition buf_inspect_s32_decimal_size :: "pretty \<Rightarrow> s32 \<Rightarrow> (int \<times> pretty) run" where
  "buf_inspect_s32_decimal_size pretty s = buf_inspect_s_base_size g_kc3_base_decimal pretty s"

definition buf_inspect_s32_hexadecimal :: "buf \<Rightarrow> s32 \<Rightarrow> (int \<times> buf) run" where
  "buf_inspect_s32_hexadecimal b x = buf_inspect_s_base g_kc3_base_hexadecimal b x"

definition buf_inspect_s32_hexadecimal_size :: "pretty \<Rightarrow> s32 \<Rightarrow> (int \<times> pretty) run" where
  "buf_inspect_s32_hexadecimal_size pretty s = buf_inspect_s_base_size g_kc3_base_hexadecimal pretty s"

definition buf_inspect_s32_octal :: "buf \<Rightarrow> s32 \<Rightarrow> (int \<times> buf) run" where
  "buf_inspect_s32_octal b x = buf_inspect_s_base g_kc3_base_octal b x"

definition buf_inspect_s32_octal_size :: "pretty \<Rightarrow> s32 \<Rightarrow> (int \<times> pretty) run" where
  "buf_inspect_s32_octal_size pretty s = buf_inspect_s_base_size g_kc3_base_octal pretty s"

definition buf_parse_s32 :: "(u32 \<Rightarrow> bool) \<Rightarrow> buf \<Rightarrow> s32 \<Rightarrow> ((int \<times> s32) \<times> buf) outcome" where
  "buf_parse_s32 is_space b dest = buf_parse_s is_space ''(S32)'' b dest"

definition buf_parse_s32_base :: "buf \<Rightarrow> str \<Rightarrow> bool \<Rightarrow> s32 \<Rightarrow> ((int \<times> s32) \<times> buf) outcome" where
  "buf_parse_s32_base b base negative dest = buf_parse_s_base b base negative dest"

definition buf_parse_s32_decimal :: "buf \<Rightarrow> bool \<Rightarrow> s32 \<Rightarrow> ((int \<times> s32) \<times> buf) outcome" where
  "buf_parse_s32_decimal b negative dest = buf_parse_s_decimal b negative dest"

definition buf_parse_tag_s32 :: "(u32 \<Rightarrow> bool) \<Rightarrow> buf \<Rightarrow> (tag option \<times> buf) outcome" where
  "buf_parse_tag_s32 is_space b = buf_parse_tag_s TS32 is_space ''(S32)'' b"

definition buf_parse_tag_s32_base :: "buf \<Rightarrow> str \<Rightarrow> bool \<Rightarrow> (tag option \<times> buf) outcome" where
  "buf_parse_tag_s32_base b base negative = buf_parse_tag_s_base TS32 b base negative"

section \<open>s64\<close>

definition buf_inspect_s64 :: "sym option \<Rightarrow> buf \<Rightarrow> s64 \<Rightarrow> (int \<times> buf) run" where
  "buf_inspect_s64 type b x = buf_inspect_s type (c_str ''S64'') cast_needed_s64 b x"

definition buf_inspect_s64_size :: "sym option \<Rightarrow> pretty \<Rightarrow> s64 \<Rightarrow> (int \<times> pretty) run" where
  "buf_inspect_s64_size type pretty x = buf_inspect_s_size type (c_str ''S64'') cast_needed_s64 pretty x"

definition buf_inspect_s64_binary :: "buf \<Rightarrow> s64 \<Rightarrow> (int \<times> buf) run" where
  "buf_inspect_s64_binary b x = buf_inspect_s_base g_kc3_base_binary b x"

definition buf_inspect_s64_binary_size :: "pretty \<Rightarrow> s64 \<Rightarrow> (int \<times> pretty) run" where
  "buf_inspect_s64_binary_size pretty s = buf_inspect_s_base_size g_kc3_base_binary pretty s"

definition buf_inspect_s64_decimal :: "buf \<Rightarrow> s64 \<Rightarrow> (int \<times> buf) run" where
  "buf_inspect_s64_decimal b x = buf_inspect_s_base g_kc3_base_decimal b x"

definition buf_inspect_s64_decimal_size :: "pretty \<Rightarrow> s64 \<Rightarrow> (int \<times> pretty) run" where
  "buf_inspect_s64_decimal_size pretty s = buf_inspect_s_base_size g_kc3_base_decimal pretty s"

definition buf_inspect_s64_hexadecimal :: "buf \<Rightarrow> s64 \<Rightarrow> (int \<times> buf) run" where
  "buf_inspect_s64_hexadecimal b x = buf_inspect_s_base g_kc3_base_hexadecimal b x"

definition buf_inspect_s64_hexadecimal_size :: "pretty \<Rightarrow> s64 \<Rightarrow> (int \<times> pretty) run" where
  "buf_inspect_s64_hexadecimal_size pretty s = buf_inspect_s_base_size g_kc3_base_hexadecimal pretty s"

definition buf_inspect_s64_octal :: "buf \<Rightarrow> s64 \<Rightarrow> (int \<times> buf) run" where
  "buf_inspect_s64_octal b x = buf_inspect_s_base g_kc3_base_octal b x"

definition buf_inspect_s64_octal_size :: "pretty \<Rightarrow> s64 \<Rightarrow> (int \<times> pretty) run" where
  "buf_inspect_s64_octal_size pretty s = buf_inspect_s_base_size g_kc3_base_octal pretty s"

definition buf_parse_s64 :: "(u32 \<Rightarrow> bool) \<Rightarrow> buf \<Rightarrow> s64 \<Rightarrow> ((int \<times> s64) \<times> buf) outcome" where
  "buf_parse_s64 is_space b dest = buf_parse_s is_space ''(S64)'' b dest"

definition buf_parse_s64_base :: "buf \<Rightarrow> str \<Rightarrow> bool \<Rightarrow> s64 \<Rightarrow> ((int \<times> s64) \<times> buf) outcome" where
  "buf_parse_s64_base b base negative dest = buf_parse_s_base b base negative dest"

definition buf_parse_s64_decimal :: "buf \<Rightarrow> bool \<Rightarrow> s64 \<Rightarrow> ((int \<times> s64) \<times> buf) outcome" where
  "buf_parse_s64_decimal b negative dest = buf_parse_s_decimal b negative dest"

definition buf_parse_tag_s64 :: "(u32 \<Rightarrow> bool) \<Rightarrow> buf \<Rightarrow> (tag option \<times> buf) outcome" where
  "buf_parse_tag_s64 is_space b = buf_parse_tag_s TS64 is_space ''(S64)'' b"

definition buf_parse_tag_s64_base :: "buf \<Rightarrow> str \<Rightarrow> bool \<Rightarrow> (tag option \<times> buf) outcome" where
  "buf_parse_tag_s64_base b base negative = buf_parse_tag_s_base TS64 b base negative"

section \<open>sw\<close>

definition buf_inspect_sw :: "sym option \<Rightarrow> buf \<Rightarrow> sw \<Rightarrow> (int \<times> buf) run" where
  "buf_inspect_sw type b x = buf_inspect_s type (c_str ''Sw'') cast_needed_sw b x"

definition buf_inspect_sw_size :: "sym option \<Rightarrow> pretty \<Rightarrow> sw \<Rightarrow> (int \<times> pretty) run" where
  "buf_inspect_sw_size type pretty x = buf_inspect_s_size type (c_str ''Sw'') cast_needed_sw pretty x"

definition buf_inspect_sw_binary :: "buf \<Rightarrow> sw \<Rightarrow> (int \<times> buf) run" where
  "buf_inspect_sw_binary b x = buf_inspect_s_base g_kc3_base_binary b x"

definition buf_inspect_sw_binary_size :: "pretty \<Rightarrow> sw \<Rightarrow> (int \<times> pretty) run" where
  "buf_inspect_sw_binary_size pretty s = buf_inspect_s_base_size g_kc3_base_binary pretty s"

definition buf_inspect_sw_decimal :: "buf \<Rightarrow> sw \<Rightarrow> (int \<times> buf) run" where
  "buf_inspect_sw_decimal b x = buf_inspect_s_base g_kc3_base_decimal b x"

definition buf_inspect_sw_decimal_size :: "pretty \<Rightarrow> sw \<Rightarrow> (int \<times> pretty) run" where
  "buf_inspect_sw_decimal_size pretty s = buf_inspect_s_base_size g_kc3_base_decimal pretty s"

definition buf_inspect_sw_hexadecimal :: "buf \<Rightarrow> sw \<Rightarrow> (int \<times> buf) run" where
  "buf_inspect_sw_hexadecimal b x = buf_inspect_s_base g_kc3_base_hexadecimal b x"

definition buf_inspect_sw_hexadecimal_size :: "pretty \<Rightarrow> sw \<Rightarrow> (int \<times> pretty) run" where
  "buf_inspect_sw_hexadecimal_size pretty s = buf_inspect_s_base_size g_kc3_base_hexadecimal pretty s"

definition buf_inspect_sw_octal :: "buf \<Rightarrow> sw \<Rightarrow> (int \<times> buf) run" where
  "buf_inspect_sw_octal b x = buf_inspect_s_base g_kc3_base_octal b x"

definition buf_inspect_sw_octal_size :: "pretty \<Rightarrow> sw \<Rightarrow> (int \<times> pretty) run" where
  "buf_inspect_sw_octal_size pretty s = buf_inspect_s_base_size g_kc3_base_octal pretty s"

definition buf_parse_sw :: "(u32 \<Rightarrow> bool) \<Rightarrow> buf \<Rightarrow> sw \<Rightarrow> ((int \<times> sw) \<times> buf) outcome" where
  "buf_parse_sw is_space b dest = buf_parse_s is_space ''(Sw)'' b dest"

definition buf_parse_sw_base :: "buf \<Rightarrow> str \<Rightarrow> bool \<Rightarrow> sw \<Rightarrow> ((int \<times> sw) \<times> buf) outcome" where
  "buf_parse_sw_base b base negative dest = buf_parse_s_base b base negative dest"

definition buf_parse_sw_decimal :: "buf \<Rightarrow> bool \<Rightarrow> sw \<Rightarrow> ((int \<times> sw) \<times> buf) outcome" where
  "buf_parse_sw_decimal b negative dest = buf_parse_s_decimal b negative dest"

definition buf_parse_tag_sw :: "(u32 \<Rightarrow> bool) \<Rightarrow> buf \<Rightarrow> (tag option \<times> buf) outcome" where
  "buf_parse_tag_sw is_space b = buf_parse_tag_s TSW is_space ''(Sw)'' b"

definition buf_parse_tag_sw_base :: "buf \<Rightarrow> str \<Rightarrow> bool \<Rightarrow> (tag option \<times> buf) outcome" where
  "buf_parse_tag_sw_base b base negative = buf_parse_tag_s_base TSW b base negative"

section \<open>u8\<close>

definition buf_inspect_u8 :: "sym option \<Rightarrow> buf \<Rightarrow> u8 \<Rightarrow> (int \<times> buf) run" where
  "buf_inspect_u8 type b x = buf_inspect_u type (c_str ''U8'') cast_needed_u8 b x"

definition buf_inspect_u8_base :: "buf \<Rightarrow> str \<Rightarrow> u8 \<Rightarrow> (int \<times> buf) run" where
  "buf_inspect_u8_base b base x = buf_inspect_u_base b base x"

definition buf_inspect_u8_base_digits :: "str \<Rightarrow> u8 \<Rightarrow> u8 run" where
  "buf_inspect_u8_base_digits base x = buf_inspect_u_base_digits base x"

definition buf_inspect_u8_base_size :: "pretty \<Rightarrow> str \<Rightarrow> u8 \<Rightarrow> (int \<times> pretty) run" where
  "buf_inspect_u8_base_size pretty base x = buf_inspect_u_base_size pretty base x"

definition buf_inspect_u8_size :: "sym option \<Rightarrow> pretty \<Rightarrow> u8 \<Rightarrow> (int \<times> pretty) run" where
  "buf_inspect_u8_size type pretty x = buf_inspect_u_size type (c_str ''U8'') cast_needed_u8 pretty x"

definition buf_inspect_u8_binary :: "buf \<Rightarrow> u8 \<Rightarrow> (int \<times> buf) run" where
  "buf_inspect_u8_binary b u = buf_inspect_u8_base b g_kc3_base_binary u"

definition buf_inspect_u8_binary_digits :: "u8 \<Rightarrow> u8 run" where
  "buf_inspect_u8_binary_digits x = buf_inspect_u8_base_digits g_kc3_base_binary x"

definition buf_inspect_u8_binary_pad :: "buf \<Rightarrow> u8 \<Rightarrow> u32 \<Rightarrow> u8 \<Rightarrow> (int \<times> buf) run" where
  "buf_inspect_u8_binary_pad b sz pad x = buf_inspect_u_pad b g_kc3_base_binary sz pad x"

definition buf_inspect_u8_binary_size :: "pretty \<Rightarrow> u8 \<Rightarrow> (int \<times> pretty) run" where
  "buf_inspect_u8_binary_size pretty x = buf_inspect_u8_base_size pretty g_kc3_base_binary x"

definition buf_inspect_u8_decimal :: "buf \<Rightarrow> u8 \<Rightarrow> (int \<times> buf) run" where
  "buf_inspect_u8_decimal b u = buf_inspect_u8_base b g_kc3_base_decimal u"

definition buf_inspect_u8_decimal_digits :: "u8 \<Rightarrow> u8 run" where
  "buf_inspect_u8_decimal_digits x = buf_inspect_u8_base_digits g_kc3_base_decimal x"

definition buf_inspect_u8_decimal_pad :: "buf \<Rightarrow> u8 \<Rightarrow> u32 \<Rightarrow> u8 \<Rightarrow> (int \<times> buf) run" where
  "buf_inspect_u8_decimal_pad b sz pad x = buf_inspect_u_pad b g_kc3_base_decimal sz pad x"

definition buf_inspect_u8_decimal_size :: "pretty \<Rightarrow> u8 \<Rightarrow> (int \<times> pretty) run" where
  "buf_inspect_u8_decimal_size pretty x = buf_inspect_u8_base_size pretty g_kc3_base_decimal x"

definition buf_inspect_u8_hexadecimal :: "buf \<Rightarrow> u8 \<Rightarrow> (int \<times> buf) run" where
  "buf_inspect_u8_hexadecimal b u = buf_inspect_u8_base b g_kc3_base_hexadecimal u"

definition buf_inspect_u8_hexadecimal_digits :: "u8 \<Rightarrow> u8 run" where
  "buf_inspect_u8_hexadecimal_digits x = buf_inspect_u8_base_digits g_kc3_base_hexadecimal x"

definition buf_inspect_u8_hexadecimal_pad :: "buf \<Rightarrow> u8 \<Rightarrow> u32 \<Rightarrow> u8 \<Rightarrow> (int \<times> buf) run" where
  "buf_inspect_u8_hexadecimal_pad b sz pad x = buf_inspect_u_pad b g_kc3_base_hexadecimal sz pad x"

definition buf_inspect_u8_hexadecimal_size :: "pretty \<Rightarrow> u8 \<Rightarrow> (int \<times> pretty) run" where
  "buf_inspect_u8_hexadecimal_size pretty x = buf_inspect_u8_base_size pretty g_kc3_base_hexadecimal x"

definition buf_inspect_u8_octal :: "buf \<Rightarrow> u8 \<Rightarrow> (int \<times> buf) run" where
  "buf_inspect_u8_octal b u = buf_inspect_u8_base b g_kc3_base_octal u"

definition buf_inspect_u8_octal_digits :: "u8 \<Rightarrow> u8 run" where
  "buf_inspect_u8_octal_digits x = buf_inspect_u8_base_digits g_kc3_base_octal x"

definition buf_inspect_u8_octal_pad :: "buf \<Rightarrow> u8 \<Rightarrow> u32 \<Rightarrow> u8 \<Rightarrow> (int \<times> buf) run" where
  "buf_inspect_u8_octal_pad b sz pad x = buf_inspect_u_pad b g_kc3_base_octal sz pad x"

definition buf_inspect_u8_octal_size :: "pretty \<Rightarrow> u8 \<Rightarrow> (int \<times> pretty) run" where
  "buf_inspect_u8_octal_size pretty x = buf_inspect_u8_base_size pretty g_kc3_base_octal x"

definition buf_parse_u8 :: "buf \<Rightarrow> u8 \<Rightarrow> (int \<times> u8) \<times> buf" where
  "buf_parse_u8 b dest = buf_parse_u b dest"

definition buf_parse_u8_base :: "buf \<Rightarrow> str \<Rightarrow> u8 \<Rightarrow> (int \<times> u8) \<times> buf" where
  "buf_parse_u8_base b base dest = buf_parse_u_base b base dest"

definition buf_parse_u8_decimal :: "buf \<Rightarrow> u8 \<Rightarrow> (int \<times> u8) \<times> buf" where
  "buf_parse_u8_decimal b dest = buf_parse_u_decimal b dest"

definition buf_parse_u8_hexadecimal :: "buf \<Rightarrow> u8 \<Rightarrow> (int \<times> u8) \<times> buf" where
  "buf_parse_u8_hexadecimal b dest = buf_parse_u_hexadecimal b dest"

definition buf_parse_tag_u8 :: "buf \<Rightarrow> tag option \<times> buf" where
  "buf_parse_tag_u8 b = buf_parse_tag_u TU8 b"

definition buf_parse_tag_u8_base :: "buf \<Rightarrow> str \<Rightarrow> tag option \<times> buf" where
  "buf_parse_tag_u8_base b base = buf_parse_tag_u_base TU8 b base"

section \<open>u16\<close>

definition buf_inspect_u16 :: "sym option \<Rightarrow> buf \<Rightarrow> u16 \<Rightarrow> (int \<times> buf) run" where
  "buf_inspect_u16 type b x = buf_inspect_u type (c_str ''U16'') cast_needed_u16 b x"

definition buf_inspect_u16_base :: "buf \<Rightarrow> str \<Rightarrow> u16 \<Rightarrow> (int \<times> buf) run" where
  "buf_inspect_u16_base b base x = buf_inspect_u_base b base x"

definition buf_inspect_u16_base_digits :: "str \<Rightarrow> u16 \<Rightarrow> u8 run" where
  "buf_inspect_u16_base_digits base x = buf_inspect_u_base_digits base x"

definition buf_inspect_u16_base_size :: "pretty \<Rightarrow> str \<Rightarrow> u16 \<Rightarrow> (int \<times> pretty) run" where
  "buf_inspect_u16_base_size pretty base x = buf_inspect_u_base_size pretty base x"

definition buf_inspect_u16_size :: "sym option \<Rightarrow> pretty \<Rightarrow> u16 \<Rightarrow> (int \<times> pretty) run" where
  "buf_inspect_u16_size type pretty x = buf_inspect_u_size type (c_str ''U16'') cast_needed_u16 pretty x"

definition buf_inspect_u16_binary :: "buf \<Rightarrow> u16 \<Rightarrow> (int \<times> buf) run" where
  "buf_inspect_u16_binary b u = buf_inspect_u16_base b g_kc3_base_binary u"

definition buf_inspect_u16_binary_digits :: "u16 \<Rightarrow> u8 run" where
  "buf_inspect_u16_binary_digits x = buf_inspect_u16_base_digits g_kc3_base_binary x"

definition buf_inspect_u16_binary_pad :: "buf \<Rightarrow> u8 \<Rightarrow> u32 \<Rightarrow> u16 \<Rightarrow> (int \<times> buf) run" where
  "buf_inspect_u16_binary_pad b sz pad x = buf_inspect_u_pad b g_kc3_base_binary sz pad x"

definition buf_inspect_u16_binary_size :: "pretty \<Rightarrow> u16 \<Rightarrow> (int \<times> pretty) run" where
  "buf_inspect_u16_binary_size pretty x = buf_inspect_u16_base_size pretty g_kc3_base_binary x"

definition buf_inspect_u16_decimal :: "buf \<Rightarrow> u16 \<Rightarrow> (int \<times> buf) run" where
  "buf_inspect_u16_decimal b u = buf_inspect_u16_base b g_kc3_base_decimal u"

definition buf_inspect_u16_decimal_digits :: "u16 \<Rightarrow> u8 run" where
  "buf_inspect_u16_decimal_digits x = buf_inspect_u16_base_digits g_kc3_base_decimal x"

definition buf_inspect_u16_decimal_pad :: "buf \<Rightarrow> u8 \<Rightarrow> u32 \<Rightarrow> u16 \<Rightarrow> (int \<times> buf) run" where
  "buf_inspect_u16_decimal_pad b sz pad x = buf_inspect_u_pad b g_kc3_base_decimal sz pad x"

definition buf_inspect_u16_decimal_size :: "pretty \<Rightarrow> u16 \<Rightarrow> (int \<times> pretty) run" where
  "buf_inspect_u16_decimal_size pretty x = buf_inspect_u16_base_size pretty g_kc3_base_decimal x"

definition buf_inspect_u16_hexadecimal :: "buf \<Rightarrow> u16 \<Rightarrow> (int \<times> buf) run" where
  "buf_inspect_u16_hexadecimal b u = buf_inspect_u16_base b g_kc3_base_hexadecimal u"

definition buf_inspect_u16_hexadecimal_digits :: "u16 \<Rightarrow> u8 run" where
  "buf_inspect_u16_hexadecimal_digits x = buf_inspect_u16_base_digits g_kc3_base_hexadecimal x"

definition buf_inspect_u16_hexadecimal_pad :: "buf \<Rightarrow> u8 \<Rightarrow> u32 \<Rightarrow> u16 \<Rightarrow> (int \<times> buf) run" where
  "buf_inspect_u16_hexadecimal_pad b sz pad x = buf_inspect_u_pad b g_kc3_base_hexadecimal sz pad x"

definition buf_inspect_u16_hexadecimal_size :: "pretty \<Rightarrow> u16 \<Rightarrow> (int \<times> pretty) run" where
  "buf_inspect_u16_hexadecimal_size pretty x = buf_inspect_u16_base_size pretty g_kc3_base_hexadecimal x"

definition buf_inspect_u16_octal :: "buf \<Rightarrow> u16 \<Rightarrow> (int \<times> buf) run" where
  "buf_inspect_u16_octal b u = buf_inspect_u16_base b g_kc3_base_octal u"

definition buf_inspect_u16_octal_digits :: "u16 \<Rightarrow> u8 run" where
  "buf_inspect_u16_octal_digits x = buf_inspect_u16_base_digits g_kc3_base_octal x"

definition buf_inspect_u16_octal_pad :: "buf \<Rightarrow> u8 \<Rightarrow> u32 \<Rightarrow> u16 \<Rightarrow> (int \<times> buf) run" where
  "buf_inspect_u16_octal_pad b sz pad x = buf_inspect_u_pad b g_kc3_base_octal sz pad x"

definition buf_inspect_u16_octal_size :: "pretty \<Rightarrow> u16 \<Rightarrow> (int \<times> pretty) run" where
  "buf_inspect_u16_octal_size pretty x = buf_inspect_u16_base_size pretty g_kc3_base_octal x"

definition buf_parse_u16 :: "buf \<Rightarrow> u16 \<Rightarrow> (int \<times> u16) \<times> buf" where
  "buf_parse_u16 b dest = buf_parse_u b dest"

definition buf_parse_u16_base :: "buf \<Rightarrow> str \<Rightarrow> u16 \<Rightarrow> (int \<times> u16) \<times> buf" where
  "buf_parse_u16_base b base dest = buf_parse_u_base b base dest"

definition buf_parse_u16_decimal :: "buf \<Rightarrow> u16 \<Rightarrow> (int \<times> u16) \<times> buf" where
  "buf_parse_u16_decimal b dest = buf_parse_u_decimal b dest"

definition buf_parse_u16_hexadecimal :: "buf \<Rightarrow> u16 \<Rightarrow> (int \<times> u16) \<times> buf" where
  "buf_parse_u16_hexadecimal b dest = buf_parse_u_hexadecimal b dest"

definition buf_parse_tag_u16 :: "buf \<Rightarrow> tag option \<times> buf" where
  "buf_parse_tag_u16 b = buf_parse_tag_u TU16 b"

definition buf_parse_tag_u16_base :: "buf \<Rightarrow> str \<Rightarrow> tag option \<times> buf" where
  "buf_parse_tag_u16_base b base = buf_parse_tag_u_base TU16 b base"

section \<open>u32\<close>

definition buf_inspect_u32 :: "sym option \<Rightarrow> buf \<Rightarrow> u32 \<Rightarrow> (int \<times> buf) run" where
  "buf_inspect_u32 type b x = buf_inspect_u type (c_str ''U32'') cast_needed_u32 b x"

definition buf_inspect_u32_base :: "buf \<Rightarrow> str \<Rightarrow> u32 \<Rightarrow> (int \<times> buf) run" where
  "buf_inspect_u32_base b base x = buf_inspect_u_base b base x"

definition buf_inspect_u32_base_digits :: "str \<Rightarrow> u32 \<Rightarrow> u8 run" where
  "buf_inspect_u32_base_digits base x = buf_inspect_u_base_digits base x"

definition buf_inspect_u32_base_size :: "pretty \<Rightarrow> str \<Rightarrow> u32 \<Rightarrow> (int \<times> pretty) run" where
  "buf_inspect_u32_base_size pretty base x = buf_inspect_u_base_size pretty base x"

definition buf_inspect_u32_size :: "sym option \<Rightarrow> pretty \<Rightarrow> u32 \<Rightarrow> (int \<times> pretty) run" where
  "buf_inspect_u32_size type pretty x = buf_inspect_u_size type (c_str ''U32'') cast_needed_u32 pretty x"

definition buf_inspect_u32_binary :: "buf \<Rightarrow> u32 \<Rightarrow> (int \<times> buf) run" where
  "buf_inspect_u32_binary b u = buf_inspect_u32_base b g_kc3_base_binary u"

definition buf_inspect_u32_binary_digits :: "u32 \<Rightarrow> u8 run" where
  "buf_inspect_u32_binary_digits x = buf_inspect_u32_base_digits g_kc3_base_binary x"

definition buf_inspect_u32_binary_pad :: "buf \<Rightarrow> u8 \<Rightarrow> u32 \<Rightarrow> u32 \<Rightarrow> (int \<times> buf) run" where
  "buf_inspect_u32_binary_pad b sz pad x = buf_inspect_u_pad b g_kc3_base_binary sz pad x"

definition buf_inspect_u32_binary_size :: "pretty \<Rightarrow> u32 \<Rightarrow> (int \<times> pretty) run" where
  "buf_inspect_u32_binary_size pretty x = buf_inspect_u32_base_size pretty g_kc3_base_binary x"

definition buf_inspect_u32_decimal :: "buf \<Rightarrow> u32 \<Rightarrow> (int \<times> buf) run" where
  "buf_inspect_u32_decimal b u = buf_inspect_u32_base b g_kc3_base_decimal u"

definition buf_inspect_u32_decimal_digits :: "u32 \<Rightarrow> u8 run" where
  "buf_inspect_u32_decimal_digits x = buf_inspect_u32_base_digits g_kc3_base_decimal x"

definition buf_inspect_u32_decimal_pad :: "buf \<Rightarrow> u8 \<Rightarrow> u32 \<Rightarrow> u32 \<Rightarrow> (int \<times> buf) run" where
  "buf_inspect_u32_decimal_pad b sz pad x = buf_inspect_u_pad b g_kc3_base_decimal sz pad x"

definition buf_inspect_u32_decimal_size :: "pretty \<Rightarrow> u32 \<Rightarrow> (int \<times> pretty) run" where
  "buf_inspect_u32_decimal_size pretty x = buf_inspect_u32_base_size pretty g_kc3_base_decimal x"

definition buf_inspect_u32_hexadecimal :: "buf \<Rightarrow> u32 \<Rightarrow> (int \<times> buf) run" where
  "buf_inspect_u32_hexadecimal b u = buf_inspect_u32_base b g_kc3_base_hexadecimal u"

definition buf_inspect_u32_hexadecimal_digits :: "u32 \<Rightarrow> u8 run" where
  "buf_inspect_u32_hexadecimal_digits x = buf_inspect_u32_base_digits g_kc3_base_hexadecimal x"

definition buf_inspect_u32_hexadecimal_pad :: "buf \<Rightarrow> u8 \<Rightarrow> u32 \<Rightarrow> u32 \<Rightarrow> (int \<times> buf) run" where
  "buf_inspect_u32_hexadecimal_pad b sz pad x = buf_inspect_u_pad b g_kc3_base_hexadecimal sz pad x"

definition buf_inspect_u32_hexadecimal_size :: "pretty \<Rightarrow> u32 \<Rightarrow> (int \<times> pretty) run" where
  "buf_inspect_u32_hexadecimal_size pretty x = buf_inspect_u32_base_size pretty g_kc3_base_hexadecimal x"

definition buf_inspect_u32_octal :: "buf \<Rightarrow> u32 \<Rightarrow> (int \<times> buf) run" where
  "buf_inspect_u32_octal b u = buf_inspect_u32_base b g_kc3_base_octal u"

definition buf_inspect_u32_octal_digits :: "u32 \<Rightarrow> u8 run" where
  "buf_inspect_u32_octal_digits x = buf_inspect_u32_base_digits g_kc3_base_octal x"

definition buf_inspect_u32_octal_pad :: "buf \<Rightarrow> u8 \<Rightarrow> u32 \<Rightarrow> u32 \<Rightarrow> (int \<times> buf) run" where
  "buf_inspect_u32_octal_pad b sz pad x = buf_inspect_u_pad b g_kc3_base_octal sz pad x"

definition buf_inspect_u32_octal_size :: "pretty \<Rightarrow> u32 \<Rightarrow> (int \<times> pretty) run" where
  "buf_inspect_u32_octal_size pretty x = buf_inspect_u32_base_size pretty g_kc3_base_octal x"

definition buf_parse_u32 :: "buf \<Rightarrow> u32 \<Rightarrow> (int \<times> u32) \<times> buf" where
  "buf_parse_u32 b dest = buf_parse_u b dest"

definition buf_parse_u32_base :: "buf \<Rightarrow> str \<Rightarrow> u32 \<Rightarrow> (int \<times> u32) \<times> buf" where
  "buf_parse_u32_base b base dest = buf_parse_u_base b base dest"

definition buf_parse_u32_decimal :: "buf \<Rightarrow> u32 \<Rightarrow> (int \<times> u32) \<times> buf" where
  "buf_parse_u32_decimal b dest = buf_parse_u_decimal b dest"

definition buf_parse_u32_hexadecimal :: "buf \<Rightarrow> u32 \<Rightarrow> (int \<times> u32) \<times> buf" where
  "buf_parse_u32_hexadecimal b dest = buf_parse_u_hexadecimal b dest"

definition buf_parse_tag_u32 :: "buf \<Rightarrow> tag option \<times> buf" where
  "buf_parse_tag_u32 b = buf_parse_tag_u TU32 b"

definition buf_parse_tag_u32_base :: "buf \<Rightarrow> str \<Rightarrow> tag option \<times> buf" where
  "buf_parse_tag_u32_base b base = buf_parse_tag_u_base TU32 b base"

section \<open>u64\<close>

definition buf_inspect_u64 :: "sym option \<Rightarrow> buf \<Rightarrow> u64 \<Rightarrow> (int \<times> buf) run" where
  "buf_inspect_u64 type b x = buf_inspect_u type (c_str ''U64'') cast_needed_u64 b x"

definition buf_inspect_u64_base :: "buf \<Rightarrow> str \<Rightarrow> u64 \<Rightarrow> (int \<times> buf) run" where
  "buf_inspect_u64_base b base x = buf_inspect_u_base b base x"

definition buf_inspect_u64_base_digits :: "str \<Rightarrow> u64 \<Rightarrow> u8 run" where
  "buf_inspect_u64_base_digits base x = buf_inspect_u_base_digits base x"

definition buf_inspect_u64_base_size :: "pretty \<Rightarrow> str \<Rightarrow> u64 \<Rightarrow> (int \<times> pretty) run" where
  "buf_inspect_u64_base_size pretty base x = buf_inspect_u_base_size pretty base x"

definition buf_inspect_u64_size :: "sym option \<Rightarrow> pretty \<Rightarrow> u64 \<Rightarrow> (int \<times> pretty) run" where
  "buf_inspect_u64_size type pretty x = buf_inspect_u_size type (c_str ''U64'') cast_needed_u64 pretty x"

definition buf_inspect_u64_binary :: "buf \<Rightarrow> u64 \<Rightarrow> (int \<times> buf) run" where
  "buf_inspect_u64_binary b u = buf_inspect_u64_base b g_kc3_base_binary u"

definition buf_inspect_u64_binary_digits :: "u64 \<Rightarrow> u8 run" where
  "buf_inspect_u64_binary_digits x = buf_inspect_u64_base_digits g_kc3_base_binary x"

definition buf_inspect_u64_binary_pad :: "buf \<Rightarrow> u8 \<Rightarrow> u32 \<Rightarrow> u64 \<Rightarrow> (int \<times> buf) run" where
  "buf_inspect_u64_binary_pad b sz pad x = buf_inspect_u_pad b g_kc3_base_binary sz pad x"

definition buf_inspect_u64_binary_size :: "pretty \<Rightarrow> u64 \<Rightarrow> (int \<times> pretty) run" where
  "buf_inspect_u64_binary_size pretty x = buf_inspect_u64_base_size pretty g_kc3_base_binary x"

definition buf_inspect_u64_decimal :: "buf \<Rightarrow> u64 \<Rightarrow> (int \<times> buf) run" where
  "buf_inspect_u64_decimal b u = buf_inspect_u64_base b g_kc3_base_decimal u"

definition buf_inspect_u64_decimal_digits :: "u64 \<Rightarrow> u8 run" where
  "buf_inspect_u64_decimal_digits x = buf_inspect_u64_base_digits g_kc3_base_decimal x"

definition buf_inspect_u64_decimal_pad :: "buf \<Rightarrow> u8 \<Rightarrow> u32 \<Rightarrow> u64 \<Rightarrow> (int \<times> buf) run" where
  "buf_inspect_u64_decimal_pad b sz pad x = buf_inspect_u_pad b g_kc3_base_decimal sz pad x"

definition buf_inspect_u64_decimal_size :: "pretty \<Rightarrow> u64 \<Rightarrow> (int \<times> pretty) run" where
  "buf_inspect_u64_decimal_size pretty x = buf_inspect_u64_base_size pretty g_kc3_base_decimal x"

definition buf_inspect_u64_hexadecimal :: "buf \<Rightarrow> u64 \<Rightarrow> (int \<times> buf) run" where
  "buf_inspect_u64_hexadecimal b u = buf_inspect_u64_base b g_kc3_base_hexadecimal u"

definition buf_inspect_u64_hexadecimal_digits :: "u64 \<Rightarrow> u8 run" where
  "buf_inspect_u64_hexadecimal_digits x = buf_inspect_u64_base_digits g_kc3_base_hexadecimal x"

definition buf_inspect_u64_hexadecimal_pad :: "buf \<Rightarrow> u8 \<Rightarrow> u32 \<Rightarrow> u64 \<Rightarrow> (int \<times> buf) run" where
  "buf_inspect_u64_hexadecimal_pad b sz pad x = buf_inspect_u_pad b g_kc3_base_hexadecimal sz pad x"

definition buf_inspect_u64_hexadecimal_size :: "pretty \<Rightarrow> u64 \<Rightarrow> (int \<times> pretty) run" where
  "buf_inspect_u64_hexadecimal_size pretty x = buf_inspect_u64_base_size pretty g_kc3_base_hexadecimal x"

definition buf_inspect_u64_octal :: "buf \<Rightarrow> u64 \<Rightarrow> (int \<times> buf) run" where
  "buf_inspect_u64_octal b u = buf_inspect_u64_base b g_kc3_base_octal u"

definition buf_inspect_u64_octal_digits :: "u64 \<Rightarrow> u8 run" where
  "buf_inspect_u64_octal_digits x = buf_inspect_u64_base_digits g_kc3_base_octal x"

definition buf_inspect_u64_octal_pad :: "buf \<Rightarrow> u8 \<Rightarrow> u32 \<Rightarrow> u64 \<Rightarrow> (int \<times> buf) run" where
  "buf_inspect_u64_octal_pad b sz pad x = buf_inspect_u_pad b g_kc3_base_octal sz pad x"

definition buf_inspect_u64_octal_size :: "pretty \<Rightarrow> u64 \<Rightarrow> (int \<times> pretty) run" where
  "buf_inspect_u64_octal_size pretty x = buf_inspect_u64_base_size pretty g_kc3_base_octal x"

definition buf_parse_u64 :: "buf \<Rightarrow> u64 \<Rightarrow> (int \<times> u64) \<times> buf" where
  "buf_parse_u64 b dest = buf_parse_u b dest"

definition buf_parse_u64_base :: "buf \<Rightarrow> str \<Rightarrow> u64 \<Rightarrow> (int \<times> u64) \<times> buf" where
  "buf_parse_u64_base b base dest = buf_parse_u_base b base dest"

definition buf_parse_u64_decimal :: "buf \<Rightarrow> u64 \<Rightarrow> (int \<times> u64) \<times> buf" where
  "buf_parse_u64_decimal b dest = buf_parse_u_decimal b dest"

definition buf_parse_u64_hexadecimal :: "buf \<Rightarrow> u64 \<Rightarrow> (int \<times> u64) \<times> buf" where
  "buf_parse_u64_hexadecimal b dest = buf_parse_u_hexadecimal b dest"

definition buf_parse_tag_u64 :: "buf \<Rightarrow> tag option \<times> buf" where
  "buf_parse_tag_u64 b = buf_parse_tag_u TU64 b"

definition buf_parse_tag_u64_base :: "buf \<Rightarrow> str \<Rightarrow> tag option \<times> buf" where
  "buf_parse_tag_u64_base b base = buf_parse_tag_u_base TU64 b base"

section \<open>uw\<close>

definition buf_inspect_uw :: "sym option \<Rightarrow> buf \<Rightarrow> uw \<Rightarrow> (int \<times> buf) run" where
  "buf_inspect_uw type b x = buf_inspect_u type (c_str ''Uw'') cast_needed_uw b x"

definition buf_inspect_uw_base :: "buf \<Rightarrow> str \<Rightarrow> uw \<Rightarrow> (int \<times> buf) run" where
  "buf_inspect_uw_base b base x = buf_inspect_u_base b base x"

definition buf_inspect_uw_base_digits :: "str \<Rightarrow> uw \<Rightarrow> u8 run" where
  "buf_inspect_uw_base_digits base x = buf_inspect_u_base_digits base x"

definition buf_inspect_uw_base_size :: "pretty \<Rightarrow> str \<Rightarrow> uw \<Rightarrow> (int \<times> pretty) run" where
  "buf_inspect_uw_base_size pretty base x = buf_inspect_u_base_size pretty base x"

definition buf_inspect_uw_size :: "sym option \<Rightarrow> pretty \<Rightarrow> uw \<Rightarrow> (int \<times> pretty) run" where
  "buf_inspect_uw_size type pretty x = buf_inspect_u_size type (c_str ''Uw'') cast_needed_uw pretty x"

definition buf_inspect_uw_binary :: "buf \<Rightarrow> uw \<Rightarrow> (int \<times> buf) run" where
  "buf_inspect_uw_binary b u = buf_inspect_uw_base b g_kc3_base_binary u"

definition buf_inspect_uw_binary_digits :: "uw \<Rightarrow> u8 run" where
  "buf_inspect_uw_binary_digits x = buf_inspect_uw_base_digits g_kc3_base_binary x"

definition buf_inspect_uw_binary_pad :: "buf \<Rightarrow> u8 \<Rightarrow> u32 \<Rightarrow> uw \<Rightarrow> (int \<times> buf) run" where
  "buf_inspect_uw_binary_pad b sz pad x = buf_inspect_u_pad b g_kc3_base_binary sz pad x"

definition buf_inspect_uw_binary_size :: "pretty \<Rightarrow> uw \<Rightarrow> (int \<times> pretty) run" where
  "buf_inspect_uw_binary_size pretty x = buf_inspect_uw_base_size pretty g_kc3_base_binary x"

definition buf_inspect_uw_decimal :: "buf \<Rightarrow> uw \<Rightarrow> (int \<times> buf) run" where
  "buf_inspect_uw_decimal b u = buf_inspect_uw_base b g_kc3_base_decimal u"

definition buf_inspect_uw_decimal_digits :: "uw \<Rightarrow> u8 run" where
  "buf_inspect_uw_decimal_digits x = buf_inspect_uw_base_digits g_kc3_base_decimal x"

definition buf_inspect_uw_decimal_pad :: "buf \<Rightarrow> u8 \<Rightarrow> u32 \<Rightarrow> uw \<Rightarrow> (int \<times> buf) run" where
  "buf_inspect_uw_decimal_pad b sz pad x = buf_inspect_u_pad b g_kc3_base_decimal sz pad x"

definition buf_inspect_uw_decimal_size :: "pretty \<Rightarrow> uw \<Rightarrow> (int \<times> pretty) run" where
  "buf_inspect_uw_decimal_size pretty x = buf_inspect_uw_base_size pretty g_kc3_base_decimal x"

definition buf_inspect_uw_hexadecimal :: "buf \<Rightarrow> uw \<Rightarrow> (int \<times> buf) run" where
  "buf_inspect_uw_hexadecimal b u = buf_inspect_uw_base b g_kc3_base_hexadecimal u"

definition buf_inspect_uw_hexadecimal_digits :: "uw \<Rightarrow> u8 run" where
  "buf_inspect_uw_hexadecimal_digits x = buf_inspect_uw_base_digits g_kc3_base_hexadecimal x"

definition buf_inspect_uw_hexadecimal_pad :: "buf \<Rightarrow> u8 \<Rightarrow> u32 \<Rightarrow> uw \<Rightarrow> (int \<times> buf) run" where
  "buf_inspect_uw_hexadecimal_pad b sz pad x = buf_inspect_u_pad b g_kc3_base_hexadecimal sz pad x"

definition buf_inspect_uw_hexadecimal_size :: "pretty \<Rightarrow> uw \<Rightarrow> (int \<times> pretty) run" where
  "buf_inspect_uw_hexadecimal_size pretty x = buf_inspect_uw_base_size pretty g_kc3_base_hexadecimal x"

definition buf_inspect_uw_octal :: "buf \<Rightarrow> uw \<Rightarrow> (int \<times> buf) run" where
  "buf_inspect_uw_octal b u = buf_inspect_uw_base b g_kc3_base_octal u"

definition buf_inspect_uw_octal_digits :: "uw \<Rightarrow> u8 run" where
  "buf_inspect_uw_octal_digits x = buf_inspect_uw_base_digits g_kc3_base_octal x"

definition buf_inspect_uw_octal_pad :: "buf \<Rightarrow> u8 \<Rightarrow> u32 \<Rightarrow> uw \<Rightarrow> (int \<times> buf) run" where
  "buf_inspect_uw_octal_pad b sz pad x = buf_inspect_u_pad b g_kc3_base_octal sz pad x"

definition buf_inspect_uw_octal_size :: "pretty \<Rightarrow> uw \<Rightarrow> (int \<times> pretty) run" where
  "buf_inspect_uw_octal_size pretty x = buf_inspect_uw_base_size pretty g_kc3_base_octal x"

definition buf_parse_uw :: "buf \<Rightarrow> uw \<Rightarrow> (int \<times> uw) \<times> buf" where
  "buf_parse_uw b dest = buf_parse_u b dest"

definition buf_parse_uw_base :: "buf \<Rightarrow> str \<Rightarrow> uw \<Rightarrow> (int \<times> uw) \<times> buf" where
  "buf_parse_uw_base b base dest = buf_parse_u_base b base dest"

definition buf_parse_uw_decimal :: "buf \<Rightarrow> uw \<Rightarrow> (int \<times> uw) \<times> buf" where
  "buf_parse_uw_decimal b dest = buf_parse_u_decimal b dest"

definition buf_parse_uw_hexadecimal :: "buf \<Rightarrow> uw \<Rightarrow> (int \<times> uw) \<times> buf" where
  "buf_parse_uw_hexadecimal b dest = buf_parse_u_hexadecimal b dest"

definition buf_parse_tag_uw :: "buf \<Rightarrow> tag option \<times> buf" where
  "buf_parse_tag_uw b = buf_parse_tag_u TUW b"

definition buf_parse_tag_uw_base :: "buf \<Rightarrow> str \<Rightarrow> tag option \<times> buf" where
  "buf_parse_tag_uw_base b base = buf_parse_tag_u_base TUW b base"

end
