(* ===== verification/Int_Roundtrip.thy ===== *)
theory Int_Roundtrip
  imports Int_Print Int_Types
begin

text \<open>
  Printed integers are read back, texts of unsigned integers are read exactly, and two kinds of
  text that are not: negative numbers beyond the least value and hexadecimal numbers in lower case.
\<close>

section \<open>The contracts\<close>

text \<open>
  \<open>text_roundtrip\<close>: the printer appends a text to any buffer with room for it, and wherever that
  text is next in a buffer, before something that ends it, the parser reads the number back,
  consumes the text and reports its length.
\<close>

definition text_roundtrip ::
  "(buf \<Rightarrow> 'a::len word \<Rightarrow> (int \<times> buf) run) \<Rightarrow> (buf \<Rightarrow> 'a word \<Rightarrow> ((int \<times> 'a word) \<times> buf) outcome) \<Rightarrow>
    (u8 list \<Rightarrow> bool) \<Rightarrow> 'a word \<Rightarrow> bool" where
  "text_roundtrip inspect parse ends x \<longleftrightarrow> (\<exists>txt. txt \<noteq> [] \<and>
    (\<forall>b. buf_ok b \<and> buf_wpos b + length txt \<le> buf_size b \<longrightarrow>
      inspect b x = run_ok (int (length txt), buf_append b txt)) \<and>
    (\<forall>b dest xs. buf_reads b \<and> buf_rest b = txt @ xs \<and> ends xs \<longrightarrow>
      (\<exists>b'. parse b dest = Ok ((int (length txt), x), b') \<and> buf_reads b' \<and>
        buf_view b' = (buf_view b)\<lparr>view_rest := xs\<rparr>)))"

text \<open>
  \<open>reads_exactly\<close>: digits before something else are read to their value and consumed when the
  value fits the type; otherwise the parser fails, stores nothing and does not move.
\<close>

definition reads_exactly :: "(buf \<Rightarrow> 'a::len word \<Rightarrow> (int \<times> 'a word) \<times> buf) \<Rightarrow> nat list \<Rightarrow> bool" where
  "reads_exactly parse ds \<longleftrightarrow> (\<forall>b dest xs.
    buf_reads b \<and> buf_rest b = digit_text g_kc3_base_decimal ds @ xs \<and> decimal_end xs \<longrightarrow>
    (\<exists>b'. parse b dest = (if digits_value 10 ds < 2 ^ LENGTH('a)
        then ((int (length ds), word_of_nat (digits_value 10 ds)), b') else ((- 1, dest), b')) \<and>
      buf_reads b' \<and> buf_view b' = (if digits_value 10 ds < 2 ^ LENGTH('a)
        then (buf_view b)\<lparr>view_rest := xs\<rparr> else buf_view b)))"

section \<open>The templates keep them\<close>

lemma u_text_roundtrip:
  fixes x :: "'a::len word"
  assumes "8 \<le> LENGTH('a)" "type = Some name \<or> \<not> needed x"
  shows "text_roundtrip (buf_inspect_u type name needed) (\<lambda>b dest. Ok (buf_parse_u b dest)) decimal_end x"
proof -
  define ds where "ds = digits_of 10 (unat x)"
  have ds: "digits_value 10 ds = unat x" "list_all (\<lambda>d. d < 10) ds" "ds \<noteq> []"
    using digits_of_value [of 10 "unat x"] by (simp_all add: ds_def)
  have fits: "unat x < 2 ^ LENGTH('a)" by (rule unsigned_less)
  show ?thesis
    unfolding text_roundtrip_def
  proof (intro exI [of _ "digit_text g_kc3_base_decimal ds"] conjI allI impI)
    show "digit_text g_kc3_base_decimal ds \<noteq> []" using ds(3) by (simp add: digit_text_def)
  next
    fix b :: buf
    assume "buf_ok b \<and> buf_wpos b + length (digit_text g_kc3_base_decimal ds) \<le> buf_size b"
    then show "buf_inspect_u type name needed b x =
        run_ok (int (length (digit_text g_kc3_base_decimal ds)), buf_append b (digit_text g_kc3_base_decimal ds))"
      using buf_inspect_u_fits [of type name needed x b] assms(2) by (simp add: ds_def buf_ok_def)
  next
    fix b dest xs
    assume "buf_reads b \<and> buf_rest b = digit_text g_kc3_base_decimal ds @ xs \<and> decimal_end xs"
    then show "\<exists>b'. Ok (buf_parse_u b dest) = Ok ((int (length (digit_text g_kc3_base_decimal ds)), x), b') \<and>
        buf_reads b' \<and> buf_view b' = (buf_view b)\<lparr>view_rest := xs\<rparr>"
      using parse_u_number [OF assms(1) _ ds(2,3), of b xs dest] fits by (simp add: ds(1))
  qed
qed

lemma u_base_roundtrip:
  fixes x :: "'a::len word"
  assumes "8 \<le> LENGTH('a)" "base_ok base" "10 \<notin> set base"
  shows "text_roundtrip (\<lambda>b. buf_inspect_u_base b base) (\<lambda>b dest. Ok (buf_parse_u_base b base dest)) (no_digit base) x"
proof -
  have r: "2 \<le> length base" using assms(2) by (simp add: base_ok_def)
  define ds where "ds = digits_of (length base) (unat x)"
  have ds: "digits_value (length base) ds = unat x" "list_all (\<lambda>d. d < length base) ds" "ds \<noteq> []"
    using digits_of_value [OF r, of "unat x"] by (simp_all add: ds_def)
  have fits: "unat x < 2 ^ LENGTH('a)" by (rule unsigned_less)
  show ?thesis
    unfolding text_roundtrip_def
  proof (intro exI [of _ "digit_text base ds"] conjI allI impI)
    show "digit_text base ds \<noteq> []" using ds(3) by (simp add: digit_text_def)
  next
    fix b :: buf
    assume "buf_ok b \<and> buf_wpos b + length (digit_text base ds) \<le> buf_size b"
    then show "buf_inspect_u_base b base x = run_ok (int (length (digit_text base ds)), buf_append b (digit_text base ds))"
      using buf_inspect_u_base_exact [OF assms(2,3), of b x] by (simp add: ds_def buf_ok_def)
  next
    fix b dest xs
    assume "buf_reads b \<and> buf_rest b = digit_text base ds @ xs \<and> no_digit base xs"
    then show "\<exists>b'. Ok (buf_parse_u_base b base dest) = Ok ((int (length (digit_text base ds)), x), b') \<and>
        buf_reads b' \<and> buf_view b' = (buf_view b)\<lparr>view_rest := xs\<rparr>"
      using parse_u_base [OF assms(2,1) _ ds(2), of b xs dest] fits by (simp add: ds(1))
  qed
qed

text \<open>The digits of a number that can be negated are folded to the number.\<close>

lemma s_fold_digits_of:
  fixes x :: "'a::len word"
  assumes "8 \<le> LENGTH('a)" "s_negatable x"
  defines "ds \<equiv> digits_of 10 (nat \<bar>sint x\<bar>)"
  shows "\<exists>u. s_fold 10 (sint x < 0) 0 (0 :: 'a word) ds = Digits (int (length ds)) u \<and>
    (if sint x < 0 then - u else u) = x"
proof -
  let ?n = "nat \<bar>sint x\<bar>"
  have ds: "digits_value 10 ds = ?n" "list_all (\<lambda>d. d < 10) ds"
    using digits_of_value [of 10 ?n] by (simp_all add: ds_def)
  show ?thesis
  proof (cases "sint x < 0")
    case True
    have "32 \<le> LENGTH('a) \<Longrightarrow> ?n < s_top TYPE('a)"
      using unat_abs(3) [of x] unat_abs(5) [OF True] assms(2) by (fastforce simp: s_negatable_def)
    then have "s_fold 10 True 0 (0 :: 'a word) ds = Digits (int (length ds)) (word_of_nat ?n)"
      using s_fold_neg [of 10 ds "0 :: 'a word" 0] unat_abs(3) [of x] assms(1) ds
      by (simp add: digits_value_def)
    moreover have "word_of_nat (unat (- x)) = - x" by simp
    then have "- x = word_of_nat ?n" unfolding unat_abs(1) [OF True] by simp
    then have "- word_of_nat ?n = x" by (metis minus_minus)
    ultimately show ?thesis using True by simp
  next
    case False
    then have "s_fold 10 False 0 (0 :: 'a word) ds = Digits (int (length ds)) (word_of_nat ?n)"
      using s_fold_pos [of 10 ds "0 :: 'a word" 0] unat_abs(4) [OF False] assms(1) ds
      by (simp add: digits_value_def Let_def)
    moreover have "word_of_nat (unat x) = x" by simp
    then have "word_of_nat ?n = x" unfolding unat_abs(2) [OF False] .
    ultimately show ?thesis using False by simp
  qed
qed

lemma s_text_roundtrip:
  fixes x :: "'a::len word"
  assumes "8 \<le> LENGTH('a)" "spaces_ok is_space" "ascii nm" "ascii (''('' @ nm @ '')'')" "s_negatable x"
  shows "text_roundtrip (buf_inspect_s type (c_str nm) needed) (buf_parse_s is_space (''('' @ nm @ '')'')) decimal_end x"
proof -
  define ds where "ds = digits_of 10 (nat \<bar>sint x\<bar>)"
  define cast where "cast = shown_cast type nm (needed x)"
  have ds: "list_all (\<lambda>d. d < 10) ds" "ds \<noteq> []" using digits_of_value [of 10] by (simp_all add: ds_def)
  have whole: "s_text cast x = cast_text cast @ sign_text (sint x < 0) @ digit_text g_kc3_base_decimal ds"
    by (simp add: s_text_def ds_def)
  have cast: "cast = None \<or> cast = Some (''('' @ nm @ '')'')" by (simp add: cast_def shown_cast_def)
  obtain u where u: "s_fold 10 (sint x < 0) 0 (0 :: 'a word) ds = Digits (int (length ds)) u"
      "(if sint x < 0 then - u else u) = x"
    using s_fold_digits_of [OF assms(1,5)] by (auto simp: ds_def)
  show ?thesis
    unfolding text_roundtrip_def
  proof (intro exI [of _ "s_text cast x"] conjI allI impI)
    show "s_text cast x \<noteq> []" using ds(2) by (simp add: whole digit_text_def)
  next
    fix b :: buf
    assume "buf_ok b \<and> buf_wpos b + length (s_text cast x) \<le> buf_size b"
    then show "buf_inspect_s type (c_str nm) needed b x = run_ok (int (length (s_text cast x)), buf_append b (s_text cast x))"
      using buf_inspect_s_fits [OF assms(3,5), of b type needed] by (simp add: cast_def)
  next
    fix b dest xs
    assume b: "buf_reads b \<and> buf_rest b = s_text cast x @ xs \<and> decimal_end xs"
    then have "buf_rest b = cast_text cast @ sign_text (sint x < 0) @ digit_text g_kc3_base_decimal ds @ xs"
      by (simp add: whole)
    then show "\<exists>b'. buf_parse_s is_space (''('' @ nm @ '')'') b dest = Ok ((int (length (s_text cast x)), x), b') \<and>
        buf_reads b' \<and> buf_view b' = (buf_view b)\<lparr>view_rest := xs\<rparr>"
      using parse_s_text [OF assms(1) _ assms(2) ds assms(4) _ cast, of b "sint x < 0" xs dest] b u
      by (simp add: whole add.assoc)
  qed
qed

lemma u_reads_exactly:
  assumes "8 \<le> LENGTH('a::len)" "list_all (\<lambda>d. d < 10) ds" "ds \<noteq> []"
  shows "reads_exactly (buf_parse_u :: buf \<Rightarrow> 'a word \<Rightarrow> (int \<times> 'a word) \<times> buf) ds"
  using parse_u_number [OF assms(1) _ assms(2,3)] by (simp add: reads_exactly_def)

section \<open>Negative numbers beyond the least value\<close>

definition minus_text :: "nat list \<Rightarrow> u8 list" where
  "minus_text ds = c_str ''-'' @ digit_text g_kc3_base_decimal ds"

definition reads_as ::
  "(buf \<Rightarrow> 'a::len word \<Rightarrow> ((int \<times> 'a word) \<times> buf) outcome) \<Rightarrow> u8 list \<Rightarrow> int \<Rightarrow> bool" where
  "reads_as parse txt i \<longleftrightarrow> (\<forall>b dest xs. buf_reads b \<and> buf_rest b = txt @ xs \<and> decimal_end xs \<longrightarrow>
    (\<exists>b'. parse b dest = Ok ((int (length txt), word_of_int i), b') \<and> buf_reads b' \<and>
      buf_view b' = (buf_view b)\<lparr>view_rest := xs\<rparr>))"

lemma s_text_wraps:
  assumes "8 \<le> LENGTH('a::len)" "spaces_ok is_space" "ascii p" "hd p = CHR ''(''"
    and "list_all (\<lambda>d. d < 10) ds" "ds \<noteq> []" "d < 10"
    and "s_top TYPE('a) < digits_value 10 ds * 10" "digits_value 10 ds * 10 < s_top TYPE('a) + 9"
    and "i = int (2 ^ LENGTH('a)) - int (digits_value 10 ds * 10 + d)"
  shows "reads_as (buf_parse_s is_space p :: buf \<Rightarrow> 'a word \<Rightarrow> ((int \<times> 'a word) \<times> buf) outcome) (minus_text (ds @ [d])) i"
proof -
  let ?v = "digits_value 10 ds"
  have fold: "s_fold 10 True 0 (0 :: 'a word) (ds @ [d]) = Digits (int (length ds) + 1) (word_of_nat (?v * 10 + d))"
    using assms(1,5,7-9) by (intro s_fold_wrap) auto
  have "(word_of_int i :: 'a word) = word_of_int (int (2 ^ LENGTH('a))) - word_of_nat (?v * 10 + d)"
    unfolding assms(10) by (simp only: of_int_diff of_int_of_nat_eq)
  also have "word_of_int (int (2 ^ LENGTH('a))) = (0 :: 'a word)" by simp
  finally have i: "- word_of_nat (?v * 10 + d) = (word_of_int i :: 'a word)" by simp
  show ?thesis
    unfolding reads_as_def
  proof (intro allI impI)
    fix b and dest :: "'a word" and xs
    assume b: "buf_reads b \<and> buf_rest b = minus_text (ds @ [d]) @ xs \<and> decimal_end xs"
    then have "buf_rest b = cast_text None @ sign_text True @ digit_text g_kc3_base_decimal (ds @ [d]) @ xs"
      by (simp add: minus_text_def cast_text_def sign_text_def)
    then show "\<exists>b'. buf_parse_s is_space p b dest = Ok ((int (length (minus_text (ds @ [d]))), word_of_int i), b') \<and>
        buf_reads b' \<and> buf_view b' = (buf_view b)\<lparr>view_rest := xs\<rparr>"
      using parse_s_text [OF assms(1) _ assms(2) _ _ assms(3,4), of b "ds @ [d]" None True xs dest] b assms(5,7)
      unfolding fold by (simp add: i [symmetric] minus_text_def cast_text_def sign_text_def)
  qed
qed

section \<open>Hexadecimal numbers\<close>

lemma rest_save_init: "buf_rest (buf_save_init b) = buf_rest b"
  by (simp add: buf_rest_def buf_save_init_def)

abbreviation lower_hex :: str where
  "lower_hex \<equiv> fst g_kc3_bases_hexadecimal"

abbreviation upper_hex :: str where
  "upper_hex \<equiv> snd g_kc3_bases_hexadecimal"

lemma digit_text_hex:
  "list_all (\<lambda>d. d < 10) ds \<Longrightarrow> digit_text lower_hex ds = digit_text upper_hex ds"
proof -
  have "lower_hex ! d = upper_hex ! d" if "d < 10" for d
  proof -
    have "d \<in> {0, 1, 2, 3, 4, 5, 6, 7, 8, 9}" using that by auto
    then show ?thesis by (auto simp: g_kc3_bases_hexadecimal_def c_str_def)
  qed
  then show "list_all (\<lambda>d. d < 10) ds \<Longrightarrow> digit_text lower_hex ds = digit_text upper_hex ds"
    by (auto simp: digit_text_def list_all_iff)
qed

lemma lower_hex_letter:
  assumes "10 \<le> d" "d < 16"
  shows "no_digit upper_hex (digit_text lower_hex (d # ds) @ xs)"
proof -
  have "d \<in> {10, 11, 12, 13, 14, 15}" using assms by auto
  then have "lower_hex ! d < 0x80" "lower_hex ! d \<notin> set upper_hex"
    by (auto simp: g_kc3_bases_hexadecimal_def c_str_def)
  then show ?thesis
    using decode_ascii [of "lower_hex ! d" "digit_text lower_hex ds @ xs"]
    by (auto simp: no_digit_def ucast_ascii_inject)
qed

lemma digits_value_append:
  "0 < radix \<Longrightarrow> digits_value radix ds \<le> digits_value radix (ds @ es)"
  using digits_from_le [of radix "digits_value radix ds" es] by (simp add: digits_value_def)

lemma hex_prefix: "take 2 (c_str ''0x'' @ ys) \<noteq> c_str ''0b''" "take 2 (c_str ''0x'' @ ys) \<noteq> c_str ''0o''"
proof -
  have *: "c_str ''0x'' = [48, 120]" "c_str ''0b'' = [48, 98]" "c_str ''0o'' = [48, 111]"
    by (simp_all add: c_str_def)
  have "take 2 (c_str ''0x'' @ ys) = [48, 120]" by (simp add: *)
  moreover have "(120 :: u8) \<noteq> 98" "(120 :: u8) \<noteq> 111" by simp_all
  ultimately show "take 2 (c_str ''0x'' @ ys) \<noteq> c_str ''0b''" "take 2 (c_str ''0x'' @ ys) \<noteq> c_str ''0o''"
    by (simp_all only: * list.inject simp_thms not_False_eq_True)
qed

text \<open>
  The longer number is the one in lower case, but the reader stays where the shorter one ended.
\<close>

lemma u_hex_lower:
  fixes dest :: "'a::len word"
  assumes "8 \<le> LENGTH('a)" "buf_reads b"
    and "list_all (\<lambda>d. d < 10) ds" "10 \<le> e" "list_all (\<lambda>d. d < 16) (e # es)"
    and "buf_rest b = c_str ''0x'' @ digit_text lower_hex (ds @ e # es) @ xs" "no_digit lower_hex xs"
    and "digits_value 16 (ds @ e # es) < 2 ^ LENGTH('a)"
  shows "\<exists>b'. buf_parse_u b dest =
      ((2 + int (length (ds @ e # es)), word_of_nat (digits_value 16 (ds @ e # es))), b') \<and>
    buf_reads b' \<and> buf_view b' = (buf_view b)\<lparr>view_rest := digit_text lower_hex (e # es) @ xs\<rparr>"
proof -
  let ?s = "buf_save_init b" and ?all = "ds @ e # es"
  let ?rest = "digit_text lower_hex ?all @ xs"
  have s: "buf_reads ?s" "buf_rest ?s = c_str ''0x'' @ ?rest"
    using buf_view_save_init(1) [OF assms(2)] assms(6) by (simp_all add: rest_save_init)
  obtain b1 where b1: "buf_read_1 ?s ''0b'' = (0, b1)" "buf_reads b1" "buf_view b1 = buf_view ?s"
    using read_2_skip [OF s(1) ascii_literals(1)] hex_prefix(1) unfolding s(2) by blast
  have r1: "buf_rest b1 = c_str ''0x'' @ ?rest" using b1(3) s(2) by (metis buf_view_rest)
  obtain b2 where b2: "buf_read_1 b1 ''0o'' = (0, b2)" "buf_reads b2" "buf_view b2 = buf_view b1"
    using read_2_skip [OF b1(2) ascii_literals(2)] hex_prefix(2) unfolding r1 by blast
  have r2: "buf_rest b2 = c_str ''0x'' @ ?rest" using b2(3) r1 by (metis buf_view_rest)
  obtain b3 where b3: "buf_read_1 b2 ''0x'' = (2, b3)" "buf_reads b3" "buf_view b3 = (buf_view b2)\<lparr>view_rest := ?rest\<rparr>"
    using read_1_next [OF b2(2) ascii_literals(3) r2] by auto
  let ?t = "buf_save_init b3"
  have t: "buf_reads ?t" "buf_rest ?t = ?rest"
    using buf_view_save_init(1) [OF b3(2)] view_rest_eq [OF b3(3)] by (simp_all add: rest_save_init)
  have digits: "list_all (\<lambda>d. d < length lower_hex) ?all" "list_all (\<lambda>d. d < length upper_hex) ds"
    using assms(3,5) by (auto simp: list_all_iff)
  obtain b4 where b4: "buf_parse_u_base ?t lower_hex (0 :: 'a word) =
      ((int (length ?all), word_of_nat (digits_value 16 ?all)), b4)" "buf_reads b4"
      "buf_view b4 = (buf_view ?t)\<lparr>view_rest := xs\<rparr>"
    using parse_u_base [OF bases_ok(5) assms(1) t(1) digits(1) t(2) assms(7), of 0] assms(8) by auto
  let ?u = "buf_save_clean (buf_save_restore_rpos b4)"
  have u: "buf_reads ?u" "buf_view ?u = buf_view b3" using save_close(3,4) [OF b3(2) b4(2,3)] by auto
  have "buf_rest ?u = digit_text upper_hex ds @ digit_text lower_hex (e # es) @ xs"
    using u(2) view_rest_eq [OF b3(3)] digit_text_hex [OF assms(3)]
    by (metis append_assoc buf_view_rest digit_text_def map_append)
  moreover have "no_digit upper_hex (digit_text lower_hex (e # es) @ xs)"
    using assms(4,5) by (intro lower_hex_letter) auto
  moreover have "digits_value 16 ds < 2 ^ LENGTH('a)"
    using digits_value_append [of 16 ds "e # es"] assms(8) by simp
  ultimately obtain b5 where b5: "buf_parse_u_base ?u upper_hex (0 :: 'a word) =
      ((int (length ds), word_of_nat (digits_value 16 ds)), b5)" "buf_reads b5"
      "buf_view b5 = (buf_view ?u)\<lparr>view_rest := digit_text lower_hex (e # es) @ xs\<rparr>"
    using parse_u_base [OF bases_ok(6) assms(1) u(1) digits(2), of _ 0] by auto
  have view5: "buf_view b5 = (buf_view ?s)\<lparr>view_rest := digit_text lower_hex (e # es) @ xs\<rparr>"
    using b5(3) u(2) b3(3) b2(3) b1(3) by simp
  have "buf_parse_u b dest = ((2 + int (length ?all), word_of_nat (digits_value 16 ?all)), buf_save_clean b5)"
    using b1(1) b2(1) b3(1) b4(1) b5(1) by (simp add: buf_parse_u_def buf_parse_u_hex_def Let_def)
  then show ?thesis using save_close(1,2) [OF assms(2) b5(2) view5] by blast
qed

section \<open>The ten types\<close>

lemma spaces_ok_space: "spaces_ok (\<lambda>c. c = 32)"
proof -
  have "(word_of_nat (48 + d) :: u32) \<noteq> 32" if "d < 10" for d
  proof
    assume eq: "(word_of_nat (48 + d) :: u32) = 32"
    have "unat (word_of_nat (48 + d) :: u32) = 48 + d" using that by (intro unat_small) simp
    then show False unfolding eq by simp
  qed
  then show ?thesis by (simp add: spaces_ok_def)
qed

lemma signed_type_names [simp]:
  "ascii ''S8''" "ascii ''S16''" "ascii ''S32''" "ascii ''S64''" "ascii ''Sw''"
  by (simp_all add: ascii_def)

lemmas inspect_defs = buf_inspect_s8_def buf_inspect_s16_def buf_inspect_s32_def buf_inspect_s64_def
  buf_inspect_sw_def buf_inspect_u8_def buf_inspect_u16_def buf_inspect_u32_def buf_inspect_u64_def
  buf_inspect_uw_def buf_inspect_u8_base_def buf_inspect_u16_base_def buf_inspect_u32_base_def
  buf_inspect_u64_base_def buf_inspect_uw_base_def

lemmas parse_defs = buf_parse_s8_def buf_parse_s16_def buf_parse_s32_def buf_parse_s64_def
  buf_parse_sw_def buf_parse_u8_def buf_parse_u16_def buf_parse_u32_def buf_parse_u64_def
  buf_parse_uw_def buf_parse_u8_base_def buf_parse_u16_base_def buf_parse_u32_base_def
  buf_parse_u64_base_def buf_parse_uw_base_def

lemma parse_u_instances:
  "buf_parse_u8 = buf_parse_u" "buf_parse_u16 = buf_parse_u" "buf_parse_u32 = buf_parse_u"
  "buf_parse_u64 = buf_parse_u" "buf_parse_uw = buf_parse_u"
  by (simp_all add: fun_eq_iff parse_defs)

lemmas s_roundtrips =
  s_text_roundtrip [where ?'a = 8, of _ "''S8''", simplified]
  s_text_roundtrip [where ?'a = 16, of _ "''S16''", simplified]
  s_text_roundtrip [where ?'a = 32, of _ "''S32''", simplified]
  s_text_roundtrip [where ?'a = 64, of _ "''S64''", simplified]
  s_text_roundtrip [where ?'a = 64, of _ "''Sw''", simplified]

text \<open>
  C35: Integers written as text are read back, for all ten types.  Whatever type is expected, and so
  with or without the cast in front that \<open>buf_parse_s8\<close> to \<open>buf_parse_sw\<close> also read, what
  \<open>buf_inspect_s8\<close> to \<open>buf_inspect_sw\<close> write is read as the number; the least value of the types
  of at least 32 bits is excepted, whose negation is undefined.  What \<open>buf_inspect_u8\<close> to
  \<open>buf_inspect_uw\<close> write is read back where no cast is written, which their parsers do not accept.
  And digits in any base of ASCII digits are read back in that base.  The text may be next in any
  buffer, with other positions saved and the buffer compacted while it is read, before the end or
  anything that is not a digit.
\<close>

theorem integer_text_roundtrip:
  assumes "spaces_ok is_space" "base_ok base" "10 \<notin> set base"
  shows "text_roundtrip (buf_inspect_s8 type) (buf_parse_s8 is_space) decimal_end s1 \<and>
    text_roundtrip (buf_inspect_s16 type) (buf_parse_s16 is_space) decimal_end s2 \<and>
    (sint s3 \<noteq> - (2 ^ 31) \<longrightarrow> text_roundtrip (buf_inspect_s32 type) (buf_parse_s32 is_space) decimal_end s3) \<and>
    (sint s4 \<noteq> - (2 ^ 63) \<longrightarrow> text_roundtrip (buf_inspect_s64 type) (buf_parse_s64 is_space) decimal_end s4) \<and>
    (sint s5 \<noteq> - (2 ^ 63) \<longrightarrow> text_roundtrip (buf_inspect_sw type) (buf_parse_sw is_space) decimal_end s5) \<and>
    text_roundtrip (buf_inspect_u8 type) (\<lambda>b dest. Ok (buf_parse_u8 b dest)) decimal_end u1 \<and>
    (type = Some (c_str ''U16'') \<or> 255 < uint u2 \<longrightarrow>
      text_roundtrip (buf_inspect_u16 type) (\<lambda>b dest. Ok (buf_parse_u16 b dest)) decimal_end u2) \<and>
    (type = Some (c_str ''U32'') \<or> 65535 < uint u3 \<longrightarrow>
      text_roundtrip (buf_inspect_u32 type) (\<lambda>b dest. Ok (buf_parse_u32 b dest)) decimal_end u3) \<and>
    (type = Some (c_str ''U64'') \<or> 4294967295 < uint u4 \<longrightarrow>
      text_roundtrip (buf_inspect_u64 type) (\<lambda>b dest. Ok (buf_parse_u64 b dest)) decimal_end u4) \<and>
    (type = Some (c_str ''Uw'') \<longrightarrow>
      text_roundtrip (buf_inspect_uw type) (\<lambda>b dest. Ok (buf_parse_uw b dest)) decimal_end u5) \<and>
    text_roundtrip (\<lambda>b. buf_inspect_u8_base b base) (\<lambda>b dest. Ok (buf_parse_u8_base b base dest)) (no_digit base) u1 \<and>
    text_roundtrip (\<lambda>b. buf_inspect_u16_base b base) (\<lambda>b dest. Ok (buf_parse_u16_base b base dest)) (no_digit base) u2 \<and>
    text_roundtrip (\<lambda>b. buf_inspect_u32_base b base) (\<lambda>b dest. Ok (buf_parse_u32_base b base dest)) (no_digit base) u3 \<and>
    text_roundtrip (\<lambda>b. buf_inspect_u64_base b base) (\<lambda>b dest. Ok (buf_parse_u64_base b base dest)) (no_digit base) u4 \<and>
    text_roundtrip (\<lambda>b. buf_inspect_uw_base b base) (\<lambda>b dest. Ok (buf_parse_uw_base b base dest)) (no_digit base) u5"
  unfolding inspect_defs parse_defs
  by (intro conjI impI s_roundtrips u_text_roundtrip u_base_roundtrip assms)
    (auto simp: s_negatable_def cast_needed_u8_def cast_needed_u16_def cast_needed_u32_def cast_needed_u64_def)

theorem integer_text_roundtrip_witness:
  "text_roundtrip (buf_inspect_s8 None) (buf_parse_s8 (\<lambda>c. c = 32)) decimal_end (- 128) \<and>
    text_roundtrip (buf_inspect_u16 None) (\<lambda>b dest. Ok (buf_parse_u16 b dest)) decimal_end 300 \<and>
    text_roundtrip (\<lambda>b. buf_inspect_u32_base b g_kc3_base_octal)
      (\<lambda>b dest. Ok (buf_parse_u32_base b g_kc3_base_octal dest)) (no_digit g_kc3_base_octal) 511"
proof -
  have "255 < uint (300 :: u16)" by simp
  then show ?thesis
    using integer_text_roundtrip [OF spaces_ok_space bases_ok(2) bases_no_newline(2), of None "- 128" 0 0 0 0 0 300 511 0 0]
    by blast
qed

text \<open>
  C36: The parsers of the unsigned types are exact on decimal texts of any length: the number is
  read when it fits the type, digits consumed and nothing else; a number that does not fit is
  rejected with -1, the destination is not written and the reader stays where it was.
\<close>

theorem unsigned_text_exact:
  assumes "list_all (\<lambda>d. d < 10) ds" "ds \<noteq> []"
  shows "reads_exactly buf_parse_u8 ds \<and> reads_exactly buf_parse_u16 ds \<and> reads_exactly buf_parse_u32 ds \<and>
    reads_exactly buf_parse_u64 ds \<and> reads_exactly buf_parse_uw ds"
  unfolding parse_u_instances by (intro conjI u_reads_exactly assms; simp)

theorem unsigned_text_exact_witness:
  "\<exists>b'. buf_parse_u8 (buf_init_const (c_str ''256'')) 7 = ((- 1, 7), b') \<and> buf_rest b' = c_str ''256''"
proof -
  have "reads_exactly buf_parse_u8 [2, 5, 6]" using unsigned_text_exact [of "[2, 5, 6]"] by simp
  moreover have "digit_text g_kc3_base_decimal [2, 5, 6] = c_str ''256''"
    by (simp add: digit_text_def g_kc3_base_decimal_def c_str_def)
  moreover have "digits_value 10 [2, 5, 6] = 256" by (simp add: digits_value_def)
  moreover have "decimal_end []" by (simp add: decimal_end_def no_digit_def decode_character_def)
  moreover have "buf_reads (buf_init_const (c_str ''256''))" "buf_rest (buf_init_const (c_str ''256'')) = c_str ''256''"
    by (rule buf_init_const_view)+
  ultimately obtain b' where "buf_parse_u8 (buf_init_const (c_str ''256'')) 7 = ((- 1, 7), b')"
      "buf_view b' = buf_view (buf_init_const (c_str ''256''))"
    unfolding reads_exactly_def by (elim allE [of _ "buf_init_const (c_str ''256'')"] allE [of _ 7] allE [of _ "[]"]) auto
  then show ?thesis by (metis buf_init_const_view(2) buf_view_rest)
qed

text \<open>
  C38: Some negative texts beyond the least value of a signed type are accepted, and read as a
  positive number: -130 to -139 as an \<open>s8\<close>, -32770 to -32779 as an \<open>s16\<close>, and so on.  The product of
  the loop is checked against the ceiling of a quotient, which lets it exceed the largest value, and
  the check of the addition reads it as a negative number.
\<close>

theorem signed_text_wraps:
  assumes "spaces_ok is_space" "d < 10"
  shows "reads_as (buf_parse_s8 is_space) (minus_text [1, 3, d]) (126 - int d) \<and>
    reads_as (buf_parse_s16 is_space) (minus_text [3, 2, 7, 7, d]) (32766 - int d) \<and>
    reads_as (buf_parse_s32 is_space) (minus_text [2, 1, 4, 7, 4, 8, 3, 6, 5, d]) (2147483646 - int d) \<and>
    reads_as (buf_parse_s64 is_space)
      (minus_text [9, 2, 2, 3, 3, 7, 2, 0, 3, 6, 8, 5, 4, 7, 7, 5, 8, 1, d]) (9223372036854775806 - int d) \<and>
    reads_as (buf_parse_sw is_space)
      (minus_text [9, 2, 2, 3, 3, 7, 2, 0, 3, 6, 8, 5, 4, 7, 7, 5, 8, 1, d]) (9223372036854775806 - int d)"
proof -
  note wraps = s_text_wraps [OF _ assms(1) _ _ _ _ assms(2)]
  note powers = digits_value_def s_top_def
  have "reads_as (buf_parse_s8 is_space) (minus_text ([1, 3] @ [d])) (126 - int d)"
    unfolding parse_defs by (rule wraps) (simp_all add: powers)
  moreover have "reads_as (buf_parse_s16 is_space) (minus_text ([3, 2, 7, 7] @ [d])) (32766 - int d)"
    unfolding parse_defs by (rule wraps) (simp_all add: powers)
  moreover have "reads_as (buf_parse_s32 is_space) (minus_text ([2, 1, 4, 7, 4, 8, 3, 6, 5] @ [d])) (2147483646 - int d)"
    unfolding parse_defs by (rule wraps) (simp_all add: powers)
  moreover have "reads_as (buf_parse_s64 is_space)
      (minus_text ([9, 2, 2, 3, 3, 7, 2, 0, 3, 6, 8, 5, 4, 7, 7, 5, 8, 1] @ [d])) (9223372036854775806 - int d)"
    unfolding parse_defs by (rule wraps) (simp_all add: powers)
  moreover have "reads_as (buf_parse_sw is_space)
      (minus_text ([9, 2, 2, 3, 3, 7, 2, 0, 3, 6, 8, 5, 4, 7, 7, 5, 8, 1] @ [d])) (9223372036854775806 - int d)"
    unfolding parse_defs by (rule wraps) (simp_all add: powers)
  ultimately show ?thesis by simp
qed

theorem signed_text_wraps_witness:
  "\<exists>b'. buf_parse_s8 (\<lambda>c. c = 32) (buf_init_const (c_str ''-130'')) 0 = Ok ((4, 126), b')"
proof -
  have "reads_as (buf_parse_s8 (\<lambda>c. c = 32)) (minus_text [1, 3, 0]) 126"
    using signed_text_wraps [OF spaces_ok_space, of 0] by simp
  moreover have "minus_text [1, 3, 0] = c_str ''-130''"
    by (simp add: minus_text_def digit_text_def g_kc3_base_decimal_def c_str_def)
  moreover have "decimal_end []" by (simp add: decimal_end_def no_digit_def decode_character_def)
  moreover have "buf_reads (buf_init_const (c_str ''-130''))" "buf_rest (buf_init_const (c_str ''-130'')) = c_str ''-130''"
    by (rule buf_init_const_view)+
  ultimately show ?thesis
    unfolding reads_as_def by (elim allE [of _ "buf_init_const (c_str ''-130'')"] allE [of _ 0] allE [of _ "[]"]) auto
qed

definition reads_leaving :: "(buf \<Rightarrow> 'a::len word \<Rightarrow> (int \<times> 'a word) \<times> buf) \<Rightarrow> nat list \<Rightarrow> nat list \<Rightarrow> bool" where
  "reads_leaving parse ds left \<longleftrightarrow> (\<forall>b dest xs.
    buf_reads b \<and> buf_rest b = c_str ''0x'' @ digit_text lower_hex ds @ xs \<and> no_digit lower_hex xs \<longrightarrow>
    (\<exists>b'. parse b dest = ((2 + int (length ds), word_of_nat (digits_value 16 ds)), b') \<and>
      buf_rest b' = digit_text lower_hex left @ xs))"

lemma u_reads_leaving:
  assumes "8 \<le> LENGTH('a::len)" "list_all (\<lambda>d. d < 10) ds" "10 \<le> e" "list_all (\<lambda>d. d < 16) (e # es)"
    and "digits_value 16 (ds @ e # es) < 2 ^ LENGTH('a)"
  shows "reads_leaving (buf_parse_u :: buf \<Rightarrow> 'a word \<Rightarrow> (int \<times> 'a word) \<times> buf) (ds @ e # es) (e # es)"
  unfolding reads_leaving_def using u_hex_lower [OF assms(1) _ assms(2-4) _ _ assms(5)] view_rest_eq by blast

text \<open>
  C39: A number written after 0x with lower-case letters (decimal digits \<open>ds\<close>, possibly none, then a
  letter \<open>e\<close>, then the rest \<open>es\<close>) that fits the type is read to its value, and its whole length
  is reported, but the reader is left in front of the letter \<open>e\<close>: the digits were read again in upper
  case, and the position of that attempt is kept.  The bound is that of each type.  What follows
  the number is anything but a lower-case hexadecimal digit, so the claim does not cover a letter in
  upper case inside the number: the number ends before it.
\<close>

theorem hex_lower_unread:
  assumes "list_all (\<lambda>d. d < 10) ds" "10 \<le> e" "list_all (\<lambda>d. d < 16) (e # es)"
  shows "(digits_value 16 (ds @ e # es) < 2 ^ 8 \<longrightarrow> reads_leaving buf_parse_u8 (ds @ e # es) (e # es)) \<and>
    (digits_value 16 (ds @ e # es) < 2 ^ 16 \<longrightarrow> reads_leaving buf_parse_u16 (ds @ e # es) (e # es)) \<and>
    (digits_value 16 (ds @ e # es) < 2 ^ 32 \<longrightarrow> reads_leaving buf_parse_u32 (ds @ e # es) (e # es)) \<and>
    (digits_value 16 (ds @ e # es) < 2 ^ 64 \<longrightarrow> reads_leaving buf_parse_u64 (ds @ e # es) (e # es)) \<and>
    (digits_value 16 (ds @ e # es) < 2 ^ 64 \<longrightarrow> reads_leaving buf_parse_uw (ds @ e # es) (e # es))"
  unfolding parse_u_instances by (intro conjI impI u_reads_leaving assms; simp)

theorem hex_lower_unread_witness:
  "(\<exists>b'. buf_parse_u8 (buf_init_const (c_str ''0x2a'')) 0 = ((4, 42), b') \<and> buf_rest b' = c_str ''a'') \<and>
   (\<exists>b'. buf_parse_u16 (buf_init_const (c_str ''0x1ff'')) 0 = ((5, 511), b') \<and> buf_rest b' = c_str ''ff'')"
proof
  have end_: "no_digit lower_hex []" by (simp add: no_digit_def decode_character_def)
  have input: "buf_reads (buf_init_const (c_str ''0x2a''))" "buf_reads (buf_init_const (c_str ''0x1ff''))"
    "buf_rest (buf_init_const (c_str ''0x2a'')) = c_str ''0x'' @ digit_text lower_hex ([2] @ 10 # []) @ []"
    "buf_rest (buf_init_const (c_str ''0x1ff'')) = c_str ''0x'' @ digit_text lower_hex ([1] @ 15 # [15]) @ []"
    "digit_text lower_hex [10] = c_str ''a''" "digit_text lower_hex [15, 15] = c_str ''ff''"
    by (simp_all add: buf_init_const_view digit_text_def g_kc3_bases_hexadecimal_def c_str_def)
  have value_: "digits_value 16 ([2] @ 10 # []) = 42" "digits_value 16 ([1] @ 15 # [15]) = 511"
    by (simp_all add: digits_value_def)
  have "reads_leaving buf_parse_u8 ([2] @ 10 # []) (10 # [])"
    using hex_lower_unread [of "[2]" 10 "[]"] value_(1) by simp
  then show "\<exists>b'. buf_parse_u8 (buf_init_const (c_str ''0x2a'')) 0 = ((4, 42), b') \<and> buf_rest b' = c_str ''a''"
    using end_ input value_(1) unfolding reads_leaving_def by fastforce
  have "reads_leaving buf_parse_u16 ([1] @ 15 # [15]) (15 # [15])"
    using hex_lower_unread [of "[1]" 15 "[15]"] value_(2) by simp
  then show "\<exists>b'. buf_parse_u16 (buf_init_const (c_str ''0x1ff'')) 0 = ((5, 511), b') \<and> buf_rest b' = c_str ''ff''"
    using end_ input value_(2) unfolding reads_leaving_def by fastforce
qed

end
