(* ===== verification/Spec2Isabelle.thy ===== *)
theory Spec2Isabelle
  imports Database Marshall_Room Tag_Add Tag_Sub Tag_Mul Tag_Div Tag_Mod Tag_Bits Int_Roundtrip
begin

text \<open>
  A model of the core of libkc3, the run-time library of the language KC3 (C sources under
  src/libkc3), and its correctness.

  The parts of the program and how they interact.  Values of the language are tagged unions
  (types.h, tag.c); their integers are machine words of every width or arbitrary precision
  integers (integer.c, over libtommath).  The operators (tag\_add.c, tag\_sub.c, tag\_mul.c) choose
  the width in which to compute and reduce the result.  compare\_tag (compare.c) orders any two
  tags.  A fact is a triple of tags; a database of facts (facts.c) keeps its tags in a hash set with
  reference counts, its facts in a hash set and in four skip lists in different orders, and
  records every change in the undo log of the open transactions (facts\_transaction.c,
  fact\_action.c), in a log file and in messages to the connected servers.  Text and machine types
  go through buffers (buf.c, with characters in UTF-8).  The binary format (marshall.c,
  marshall\_read.c) writes tags into a message of two buffers, where a hash table (ht.c) finds the
  objects that were written before, and reads them back.

  The theories, in the order of their imports.
  \<^item> Prelude: results of C functions (a value, NULL, \<open>abort\<close>, or no defined behaviour), words and
    integers, three-way comparisons, and the contracts \<open>comparison\<close> and \<open>strict_comparison\<close>.
  \<^item> Integers (integer.c) and Tags (types.h, tag.c): numbers and tagged values.
  \<^item> C\_Arith, Tag\_Add, Tag\_Sub, Tag\_Mul: the C integer operators, with overflow of signed types as
    undefined behaviour, and the rows of the operators on the integer types.
  \<^item> C\_Div, Tag\_Div, Tag\_Mod (tag\_div.c, tag\_mod.c, tag\_divmod.h): quotients and remainders on
    the integer types.  C\_Bits, Tag\_And, Tag\_Or, Tag\_Xor, Tag\_Bits (tag\_band.c, tag\_bor.c,
    tag\_bxor.c, tag\_bnot.c, tag\_neg.c): the operators on bits, and negation.
  \<^item> Compare, Compare\_Order (compare.c): every comparison, the reference order \<open>tag_order\<close>, and the
    proof that they agree.
  \<^item> Hash\_Set (set.c.in as instantiated in set\_\_fact.c and set\_\_tag.c): the contract \<open>hashed\<close>, and
    the set as a finite map.
  \<^item> Skiplist (skiplist.c.in as instantiated in skiplist\_\_fact.c): nodes and links in an explicit heap,
    and the skip list as a sorted list.
  \<^item> Fact\_Index: the interpretations of the contracts on tags and facts.
  \<^item> Facts (facts.c, fact\_action.c, facts\_connection.c): the state and the operations.
    Facts\_Inv: the invariant \<open>facts_inv\<close>.  Facts\_Spec: the abstract database \<open>db\<close>, the
    abstraction \<open>facts_abs\<close> and the refinement of every operation.
  \<^item> Facts\_Transaction (facts\_transaction.c): transactions and their refinement.
  \<^item> Facts\_Durable: what the abstract operations keep: the undo logs lead back to the committed
    facts and the log leads to them.  Facts\_Run: sequences of operations as a step relation,
    and rolling back.  Facts\_Recovery: the empty database and reading the log back.
  \<^item> Facts\_Cursor (facts\_cursor.c, facts\_with.c, var.c): variables, bounds, cursors over an index, and the
    queries with zero to three tags.  Facts\_Query: the interval of the index that a query reads, and
    that it holds exactly the facts that match; and what the interval is when three given arguments
    include bound variables.
  \<^item> Facts\_Update (facts.c): removing by pattern and replacing, in a transaction of their own, with
    \<open>atomic_update\<close> as their contract.  Set\_Cursor (set\_cursor\_\_fact.c) and Facts\_Clear (facts.c):
    the cursor over a hash set, and removing all facts.
  \<^item> Database: runs from the empty database, and a sample on which the properties are applied.
  \<^item> Utf8 (character.c, str.c), Buffers and Buf\_Text (buf.c): characters as bytes, buffers in memory,
    and the round trip of a text through a buffer.
  \<^item> Ht (ht.c): hash tables with ordered buckets, with \<open>ht_keys\<close> as their contract: a finite map.
  \<^item> Marshall (marshall.c) and Marshall\_Read (marshall\_read.c): the writer and the reader of the
    binary format, on values whose pointers have addresses.  Marshall\_Codec: \<open>codec\<close>, the relation
    between a writer and the reader that reads what it writes, with its rules for sequences and for
    machine types, strings and integers.  Marshall\_Pointers: pointers, with the correspondence of
    the two hash tables.  Marshall\_Values: every kind of value, by induction.  Marshall\_Message:
    headers and strings (kc3.c).  Marshall\_Room: writing succeeds where there is room, and the
    round trips of whole values.
  \<^item> Buf\_Save (buf\_save.c): saved positions, and what a reader sees of a buffer however it is
    compacted.  Int\_Text: the templates of the text of machine integers (buf\_inspect\_u.c.in,
    buf\_inspect\_s.c.in, their bases, buf\_parse\_u.c.in, buf\_parse\_s.c.in) with the functions on
    characters of str.c that they call.  Int\_Types: the ten types, one definition for each function
    of the generated files, and cast.c.  Int\_Parse: what the parsers accept, as a fold over the
    digits.  Int\_Print: what the printers write.  Int\_Roundtrip: the contracts \<open>text_roundtrip\<close>
    and \<open>reads_exactly\<close>, and the texts that are read wrongly.
  Conventions.  The build without DEBUG is modelled, in which \<open>assert\<close> does nothing.  Memory
  allocation succeeds.  One thread runs, so locks are left out.  A C function that returns a
  pointer to what it found returns the value.  The hash of a tag (SHA-1), the numbers drawn for
  skip list heights and the outcome of each write to the log file are parameters, about which
  nothing is assumed; libtommath and \<open>qsort\<close> are parameters with their documented behaviour
  \<open>mp_ok\<close> and \<open>qsort_ok\<close>.

  Bounds.  The counts of the database are words: the theorems ask that three times the number
  of facts and actions stays below the word size (\<open>facts_room\<close>), which holds for fewer than 2 to
  the 60 operations.  The tags of a database are canonical (integers of the smallest type, no
  ratios, no dotted lists) and on one side of the limit of \<open>order_ok\<close>: on other tags the order
  of compare.c is not an order, as the counterexamples of Compare\_Order show.  The loops over
  skip lists and cursors are partial functions whose termination the invariant gives.  The reader of tags in the binary
  format takes the greatest depth of nesting as fuel, as the recursion of C follows the message;
  for a message that was written from a value any fuel above the size of the value is enough.

  Loops over digits end because every digit takes bytes of the text; the printers' loops end in a
  base of at least two digits, and are partial functions because the code does not check that.  The
  table of Unicode characters, which is generated, is the parameter \<open>is_space\<close>, of which
  \<open>spaces_ok\<close> asks that a space is one and the characters of a number are not.

  Not modelled.  Reading and printing of the language but for machine integers, the evaluator, the network threads, the
  dump and text formats of databases, conjunctions of patterns, floating point, complex numbers and
  ratios in arithmetic, arrays, structures and callables (also in the binary format), buffers over
  files and sockets, the foreign function interface and the
  applications.
\<close>

section \<open>Properties of the fact database\<close>

text \<open>
  C3: every sequence of operations on a new database runs to its end (no operation calls
  \<open>abort\<close> or searches without returning), keeps the invariant of the concrete state (hash sets,
  four skip lists, reference counts, undo logs) and has the result of the abstract database,
  a finite map from triples to identifiers.
\<close>

theorem database_simulates:
  assumes "fresh_facts table random lg cs n = Some s0" "\<forall>op \<in> set ops. op_fact_ok rt m op"
    "9 * length ops < 2 ^ 64"
  shows "\<exists>s. facts_steps rt s0 ops s \<and> facts_inv rt m [] s \<and> facts_abs s = db_run (facts_abs s0) ops"
proof -
  note i = fresh_facts_inv [OF assms(1)]
  have room: "db_room (facts_abs s0) (length ops)" using assms(3) i(7) by (simp add: db_room_weight)
  obtain s where s: "facts_steps rt s0 ops s" using facts_steps_exist [OF i(1,2) assms(2) room] by blast
  with facts_steps_all [OF s i(1,2) assms(2) room] show ?thesis by blast
qed

theorem database_simulates_witness:
  "\<exists>s. facts_steps sample_rt sample_facts [Op_start 1, Op_add sample_fact, Op_end 1] s \<and>
    facts_inv sample_rt True [] s \<and>
    facts_abs s = db_run (facts_abs sample_facts) [Op_start 1, Op_add sample_fact, Op_end 1]"
  by (rule database_simulates [OF sample_facts]) (simp_all add: sample_fact_ok)

text \<open>
  C1: recovery.  Whatever operations ran on a new database that logs, if no write to the log
  has failed, then reading its records back into another new database succeeds and gives the
  facts that were committed: those at the start of the outermost open transaction, which are the
  stored facts when none is open.
\<close>

theorem database_recovers:
  assumes "fresh_facts table random (Some lg) cs n = Some s0" "log_records lg = []"
    "facts_steps rt s0 ops s" "\<forall>op \<in> set ops. op_fact_ok rt m op" "9 * length ops < 2 ^ 64"
    "facts_log s = Some l" "\<not> log_failed l" "9 * length (log_records l) < 2 ^ 64"
    "facts_init table' random' = Some s1"
  shows "\<exists>s2. open_records rt s1 0 (log_records l) = (s2, Ok (length (log_records l))) \<and>
    facts_map s2 = committed (facts_abs s) \<and> (facts_transaction s = [] \<longrightarrow> facts_map s2 = facts_map s)"
proof -
  note i = fresh_facts_inv [OF assms(1)]
  have room: "db_room (facts_abs s0) (length ops)" using assms(5) i(7) by (simp add: db_room_weight)
  have "durable (fact_ok rt m) [] Map.empty (facts_abs s0)"
    using i(5,6) assms(2) by (auto simp: durable_def)
  from facts_steps_durable [OF assms(3) i(1,2) assms(4) room this]
  have recs: "replay (log_records l) Map.empty = committed (facts_abs s)"
    "\<forall>r \<in> set (log_records l). rec_ok (fact_ok rt m) r"
    using assms(6,7) by (auto simp: durable_def)
  note j = facts_init_inv [OF assms(9)]
  have "db_idle (facts_abs s1)" "db_room (facts_abs s1) (length (log_records l))"
    using j assms(8) by (simp_all add: db_idle_def db_room_weight db_weight_def db_actions_def)
  from open_records_replay [OF j(1,3) this(1) recs(2) this(2), of 0]
  show ?thesis using recs(1) j(2) by (auto simp: committed_def db_actions_def)
qed

theorem database_recovers_witness:
  "\<exists>s l s1 s2. facts_steps sample_rt sample_facts [Op_add sample_fact] s \<and> facts_log s = Some l \<and>
    log_records l = [(1, FACT_ACTION_ADD, set_fact_id sample_fact 1)] \<and>
    facts_init (replicate 20 0) (\<lambda>_. 1) = Some s1 \<and>
    open_records sample_rt s1 0 (log_records l) = (s2, Ok 1) \<and> facts_map s2 = facts_map s \<and>
    facts_map s (fact_key sample_fact) = Some 1"
proof -
  obtain s where s: "facts_steps sample_rt sample_facts [Op_add sample_fact] s"
    "facts_abs s = db_run (facts_abs sample_facts) [Op_add sample_fact]"
    by (rule sample_steps [of "[Op_add sample_fact]"]) (auto simp: sample_fact_ok)
  obtain l where l: "db_log (facts_abs s) = Some l" "log_records l = [(1, FACT_ACTION_ADD, set_fact_id sample_fact 1)]"
    "\<not> log_failed l" and m: "db_map (facts_abs s) (fact_key sample_fact) = Some 1" "db_transaction (facts_abs s) = []"
    unfolding s(2) by (simp add: sample_run_simps)
  obtain s1 where s1: "facts_init (replicate 20 0) (\<lambda>_. 1) = Some s1" by (simp add: facts_init_def set_init_def)
  from database_recovers [OF sample_facts _ s(1) _ _ _ l(3) _ s1, of True] l m sample_fact_ok
  obtain s2 where "open_records sample_rt s1 0 (log_records l) = (s2, Ok 1)" "facts_map s2 = facts_map s"
    by (auto simp: sample_log_def)
  then show ?thesis using s(1) l m s1 by (intro exI [of _ s] exI [of _ l] exI [of _ s1] exI [of _ s2]) simp
qed

text \<open>
  C2: a rollback is complete.  After a transaction starts, whatever operations run inside it
  (nested transactions with their ends and rollbacks included), rolling it back succeeds and
  restores exactly the facts and the open transactions of its start.
\<close>

theorem rollback_restores:
  assumes "facts_inv rt m [] s" "db_inv (facts_abs s)" "db_room (facts_abs s) (length ops + 2)"
    "facts_transaction_start s ptr = (s1, Ok ())"
    "\<forall>op \<in> set ops. op_fact_ok rt m op \<and> op_inside ptr (facts_transaction s) op" "facts_steps rt s1 ops s2"
  shows "\<exists>s3. facts_transaction_rollback rt s2 ptr = (s3, Ok ()) \<and> facts_map s3 = facts_map s \<and>
    facts_transaction s3 = facts_transaction s"
proof -
  have start: "run_op rt s (Op_start ptr) = (s1, Ok ())" using assms(4) by (simp add: run_op_def)
  note st = run_op_step [OF assms(1,2) _ _ start, of "length ops + 1"]
  have i1: "facts_inv rt m [] s1" "db_inv (facts_abs s1)" "db_room (facts_abs s1) (length ops + 1)"
    using st(1,3,6) assms(3) by simp_all
  have "db_start (facts_abs s) ptr = (facts_abs s1, Ok ())"
    using st(2) assms(3) by (simp add: db_run_op_def)
  then have "opened ptr (facts_transaction s) (facts_map s) (facts_abs s1)"
    using opened_start by fastforce
  from opened_run [OF assms(6) i1 _ this] assms(5)
  have o: "opened ptr (facts_transaction s) (facts_map s) (facts_abs s2)" "facts_inv rt m [] s2"
    "db_inv (facts_abs s2)" "db_room (facts_abs s2) 1" by auto
  obtain s3 r where 3: "facts_transaction_rollback rt s2 ptr = (s3, r)" by (metis surj_pair)
  show ?thesis
    using opened_rollback [OF o(1,3)] facts_transaction_rollback_refines [OF o(2,4) 3] 3 by auto
qed

theorem rollback_restores_witness:
  "\<exists>s1 s2 s3. facts_transaction_start sample_facts 1 = (s1, Ok ()) \<and>
    facts_steps sample_rt s1 [Op_add sample_fact, Op_start 2, Op_remove sample_fact, Op_end 2] s2 \<and>
    facts_transaction_rollback sample_rt s2 1 = (s3, Ok ()) \<and> facts_map s3 = Map.empty \<and> facts_transaction s3 = []"
proof -
  let ?ops = "[Op_add sample_fact, Op_start 2, Op_remove sample_fact, Op_end 2]"
  obtain s2 where "facts_steps sample_rt sample_facts (Op_start 1 # ?ops) s2"
    by (rule sample_steps [of "Op_start 1 # ?ops"]) (auto simp: sample_fact_ok)
  then obtain s1 r where s1: "facts_transaction_start sample_facts 1 = (s1, r)" "facts_steps sample_rt s1 ?ops s2"
    by (rule facts_steps_consE) (auto simp: run_op_def)
  have r: "r = Ok ()"
    using facts_transaction_start_refines [OF sample_inv(1) s1(1)]
    by (simp add: sample_run_simps db_room_weight)
  have ok: "\<forall>op \<in> set ?ops. op_fact_ok sample_rt True op \<and> op_inside 1 (facts_transaction sample_facts) op"
    by (simp add: sample_fact_ok op_inside_def)
  from rollback_restores [OF sample_inv(1,2) _ _ ok s1(2)] s1 r show ?thesis
    by (auto simp: sample_inv sample_room)
qed

text \<open>
  C4: adding a fact.  \<open>facts_add_fact_local\<close> keeps the invariant and acts on the abstract database
  as \<open>db_add\<close>: a stored triple is returned with its identifier; a new one gets the next
  identifier, an action in the open transaction or a record in the log, and a message to each
  master; when the log cannot be written nothing is stored.
\<close>

theorem add_fact_refines:
  assumes "facts_inv rt m [] s" "fact_ok rt m f" "facts_room s [] 3" "facts_add_fact_local rt s f = (s', r)"
  shows "facts_inv rt m [] s' \<and> (facts_abs s', r) = db_add (facts_abs s) f"
  using assms by (rule facts_add_fact_local_refines)

theorem add_fact_refines_witness:
  "\<exists>s'. facts_add_fact_local sample_rt sample_facts sample_fact = (s', Ok (set_fact_id sample_fact 1)) \<and>
    facts_map s' (fact_key sample_fact) = Some 1"
proof -
  obtain s' r where 1: "facts_add_fact_local sample_rt sample_facts sample_fact = (s', r)" by (metis surj_pair)
  from add_fact_refines [OF sample_inv(1) sample_fact_ok sample_room3 1]
  have "r = Ok (set_fact_id sample_fact 1)" "db_map (facts_abs s') (fact_key sample_fact) = Some 1"
    by (simp_all add: sample_run_simps)
  then show ?thesis using 1 by simp
qed

text \<open>
  C6: adding a fact under the identifier that a master or the log gives it.
  \<open>facts_add_fact_id\<close> keeps the invariant and acts as \<open>db_add_id\<close>: it refuses the largest
  identifier and moves the next identifier past the given one.
\<close>

theorem add_fact_id_refines:
  assumes "facts_inv rt m [] s" "fact_ok rt m f" "facts_room s [] 3" "facts_add_fact_id rt s f = (s', r)"
  shows "facts_inv rt m [] s' \<and> (facts_abs s', r) = db_add_id (facts_abs s) f"
  using assms by (rule facts_add_fact_id_refines)

theorem add_fact_id_refines_witness:
  "\<exists>s'. facts_add_fact_id sample_rt sample_facts sample_fact = (s', Ok sample_fact) \<and>
    facts_map s' (fact_key sample_fact) = Some 7 \<and> facts_next_id s' = 8"
proof -
  obtain s' r where 1: "facts_add_fact_id sample_rt sample_facts sample_fact = (s', r)" by (metis surj_pair)
  from add_fact_id_refines [OF sample_inv(1) sample_fact_ok sample_room3 1]
  have "r = Ok sample_fact" "db_map (facts_abs s') (fact_key sample_fact) = Some 7" "db_next_id (facts_abs s') = 8"
    by (simp_all add: sample_run_simps sample_fact_def)
  then show ?thesis using 1 by simp
qed

text \<open>
  C5: removing a fact.  \<open>facts_remove_fact_internal\<close> keeps the invariant and acts as
  \<open>db_remove\<close>: the triple leaves the map, and the event (its identifier, the action of the
  transaction or the record of the log, the message to the masters) is recorded first.
\<close>

theorem remove_fact_refines:
  assumes "facts_inv rt m [] s" "fact_ok rt m f" "facts_room s [] 3"
    "facts_remove_fact_internal rt s f event_id = (s', r)"
  shows "facts_inv rt m [] s' \<and> (facts_abs s', r) = db_remove (facts_abs s) f event_id"
  using assms by (rule facts_remove_fact_internal_refines)

theorem remove_fact_refines_witness:
  "\<exists>s1 s2. facts_steps sample_rt sample_facts [Op_add sample_fact] s1 \<and>
    facts_remove_fact_internal sample_rt s1 sample_fact None = (s2, Ok True) \<and> facts_map s2 = Map.empty"
proof -
  obtain s1 where s1: "facts_steps sample_rt sample_facts [Op_add sample_fact] s1" "facts_inv sample_rt True [] s1"
    "facts_abs s1 = db_run (facts_abs sample_facts) [Op_add sample_fact]" "db_weight (facts_abs s1) \<le> 300"
    by (rule sample_steps [of "[Op_add sample_fact]"]) (auto simp: sample_fact_ok)
  have room: "facts_room s1 [] 3"
    by (rule db_room_facts [OF s1(2)]) (use s1(4) in \<open>simp add: db_weight_def\<close>)
  obtain s2 r where 2: "facts_remove_fact_internal sample_rt s1 sample_fact None = (s2, r)" by (metis surj_pair)
  from remove_fact_refines [OF s1(2) sample_fact_ok room 2]
  have "r = Ok True" "db_map (facts_abs s2) = Map.empty"
    unfolding s1(3) by (simp_all add: sample_run_simps)
  then show ?thesis using s1(1) 2 by auto
qed

text \<open>
  C7: ending a transaction.  Ending a nested transaction hands its actions to the outer one;
  ending the outermost one commits: it writes their records in order and sends their
  messages until a write to the log fails, and the facts stay as they are.
\<close>

theorem transaction_end_refines:
  assumes "facts_inv rt m [] s" "db_inv (facts_abs s)" "facts_transaction_end rt s ptr = (s', r)"
  shows "facts_inv rt m [] s' \<and> (facts_abs s', r) = db_end (facts_abs s) ptr \<and> facts_map s' = facts_map s"
proof -
  have no_replace: "\<forall>a \<in> set (live_actions s). fa_action a \<noteq> FACT_ACTION_REPLACE"
    using assms(2) undo_ok_actions [of "db_actions (facts_abs s)" "db_map (facts_abs s)"]
    unfolding db_inv_def live_actions_def by (auto simp: db_actions_def)
  note ref = facts_transaction_end_refines [OF assms(1) no_replace assms(3)]
  then have "db_end (facts_abs s) ptr = (facts_abs s', r)" by auto
  from db_end_map [OF assms(2) this] ref show ?thesis by simp
qed

theorem transaction_end_refines_witness:
  "\<exists>s1 s2 l. facts_steps sample_rt sample_facts [Op_start 1, Op_add sample_fact] s1 \<and>
    facts_transaction_end sample_rt s1 1 = (s2, Ok ()) \<and> facts_map s2 = facts_map s1 \<and>
    facts_log s2 = Some l \<and> log_records l = [(2, FACT_ACTION_ADD, set_fact_id sample_fact 2)]"
proof -
  obtain s1 where s1: "facts_steps sample_rt sample_facts [Op_start 1, Op_add sample_fact] s1"
    "facts_inv sample_rt True [] s1" "db_inv (facts_abs s1)"
    "facts_abs s1 = db_run (facts_abs sample_facts) [Op_start 1, Op_add sample_fact]"
    by (rule sample_steps [of "[Op_start 1, Op_add sample_fact]"]) (auto simp: sample_fact_ok)
  obtain s2 r where 2: "facts_transaction_end sample_rt s1 1 = (s2, r)" by (metis surj_pair)
  note e = transaction_end_refines [OF s1(2,3) 2]
  have "db_end (facts_abs s1) 1 = (facts_abs s2, r)" using e by auto
  moreover have "\<exists>d l. db_end (facts_abs s1) 1 = (d, Ok ()) \<and> db_log d = Some l \<and>
      log_records l = [(2, FACT_ACTION_ADD, set_fact_id sample_fact 2)]"
    unfolding s1(4) by (simp add: sample_run_simps db_commit_action_def)
  ultimately have "r = Ok () \<and> (\<exists>l. facts_log s2 = Some l \<and> log_records l = [(2, FACT_ACTION_ADD, set_fact_id sample_fact 2)])"
    by auto
  then show ?thesis using s1(1) 2 e by auto
qed

text \<open>
  starting and rolling back keep the invariant and act as on the abstract database.
\<close>

theorem transaction_rollback_refines:
  assumes "facts_inv rt m [] s" "db_room (facts_abs s) 1" "facts_transaction_rollback rt s ptr = (s', r)"
  shows "facts_inv rt m [] s' \<and> (facts_abs s', r) = db_rollback (facts_abs s) ptr"
  using assms by (rule facts_transaction_rollback_refines)

theorem transaction_rollback_refines_witness:
  "\<exists>s'. facts_transaction_rollback sample_rt sample_facts 1 = (s', Null) \<and> facts_inv sample_rt True [] s'"
proof -
  obtain s' r where 1: "facts_transaction_rollback sample_rt sample_facts 1 = (s', r)" by (metis surj_pair)
  from transaction_rollback_refines [OF sample_inv(1) sample_room 1]
  show ?thesis using 1 by (simp add: db_rollback_def sample_inv)
qed

text \<open>
  C8: finding a fact.  In a database that satisfies the invariant \<open>facts_find_fact\<close> returns the
  stored fact with the same three tags, with the identifier it was stored under, and
  NULL when there is none; every search returns.
\<close>

theorem find_fact_exact:
  assumes "facts_inv rt m [] s" "fact_ok rt m f"
  shows "facts_find_fact rt s f = map_option (set_fact_id f) (facts_map s (fact_key f)) \<and>
    facts_find_fact_by_tags rt s (fact_subject f) (fact_predicate f) (fact_object f) =
      map_option (set_fact_id f) (facts_map s (fact_key f))"
proof -
  have "fact_ok rt m (Fact (fact_subject f) (fact_predicate f) (fact_object f) 0)"
    using assms(2) by (cases f) simp
  from facts_find_fact_inv [OF assms(1) this] facts_find_fact_inv [OF assms]
  show ?thesis by (cases f) (simp add: facts_find_fact_by_tags_def set_fact_id_def [abs_def])
qed

theorem find_fact_exact_witness:
  "\<exists>s. facts_steps sample_rt sample_facts [Op_add sample_fact] s \<and>
    facts_find_fact sample_rt s sample_fact = Some (set_fact_id sample_fact 1) \<and>
    facts_find_fact sample_rt sample_facts sample_fact = None"
proof -
  obtain s1 where s1: "facts_steps sample_rt sample_facts [Op_add sample_fact] s1" "facts_inv sample_rt True [] s1"
    "facts_abs s1 = db_run (facts_abs sample_facts) [Op_add sample_fact]"
    by (rule sample_steps [of "[Op_add sample_fact]"]) (auto simp: sample_fact_ok)
  have "db_map (facts_abs s1) (fact_key sample_fact) = Some 1" unfolding s1(3) by (simp add: sample_run_simps)
  then show ?thesis
    using find_fact_exact [OF s1(2) sample_fact_ok] find_fact_exact [OF sample_inv(1) sample_fact_ok] s1(1)
    by (auto simp: sample_inv)
qed

text \<open>
  C13: reference counts.  In every state that a run reaches, a tag is in the table of tags
  exactly when a stored fact or an action of an open transaction mentions it, and its count is
  the number of mentions.
\<close>

theorem tag_references:
  assumes "fresh_facts table random lg cs n = Some s0" "facts_steps rt s0 ops s"
    "\<forall>op \<in> set ops. op_fact_ok rt m op" "9 * length ops < 2 ^ 64" "tag_ok rt m t"
  shows "(case set_map (\<lambda>t. t) (facts_tags s) t of
      None \<Rightarrow> expected_refs s [] t = 0
    | Some i \<Rightarrow> unat (item_usage i) = expected_refs s [] t \<and> expected_refs s [] t \<noteq> 0) \<and>
    facts_find_tag rt s t = (if expected_refs s [] t = 0 then None else Some t)"
proof -
  note i = fresh_facts_inv [OF assms(1)]
  have room: "db_room (facts_abs s0) (length ops)" using assms(4) i(7) by (simp add: db_room_weight)
  from facts_steps_inv(1) [OF assms(2) i(1,2) assms(3) room]
  have rep: "tags_rep rt m (facts_tags s) (expected_refs s [])" by (simp add: facts_inv_def)
  then have "case set_map (\<lambda>t. t) (facts_tags s) t of None \<Rightarrow> expected_refs s [] t = 0
      | Some i \<Rightarrow> unat (item_usage i) = expected_refs s [] t \<and> expected_refs s [] t \<noteq> 0"
    unfolding tags_rep_def by blast
  with find_tag_rep [OF rep assms(5)] show ?thesis by blast
qed

theorem tag_references_witness:
  "\<exists>s. facts_steps sample_rt sample_facts [Op_add sample_fact] s \<and>
    facts_find_tag sample_rt s (TU8 1) = Some (TU8 1) \<and> facts_find_tag sample_rt sample_facts (TU8 1) = None"
proof -
  obtain s1 where s1: "facts_steps sample_rt sample_facts [Op_add sample_fact] s1" "facts_inv sample_rt True [] s1"
    "facts_abs s1 = db_run (facts_abs sample_facts) [Op_add sample_fact]"
    by (rule sample_steps [of "[Op_add sample_fact]"]) (auto simp: sample_fact_ok)
  have ops: "\<forall>op \<in> set [Op_add sample_fact]. op_fact_ok sample_rt True op" by (simp add: sample_fact_ok)
  have t: "tag_ok sample_rt True (TU8 1)" using sample_fact_ok by (simp add: sample_fact_def)
  have "db_map (facts_abs s1) (fact_key sample_fact) = Some 1" unfolding s1(3) by (simp add: sample_run_simps)
  then have "set_fact_id sample_fact 1 \<in> facts_set s1" using facts_set_iff [OF s1(2)] by simp
  then have "expected_refs s1 [] (TU8 1) \<noteq> 0"
    by (auto simp: expected_refs_def tag_occ_def sample_fact_def set_fact_id_def
        intro!: bexI [of _ "Fact (TPsym [97]) (TPsym [98]) (TU8 1) 1"])
  moreover have "expected_refs sample_facts [] (TU8 1) = 0"
  proof -
    have "facts_set sample_facts = {}" using facts_set_iff [OF sample_inv(1)] by (auto simp: sample_inv)
    then show ?thesis by (simp add: expected_refs_def live_actions_def sample_inv)
  qed
  ultimately show ?thesis
    using tag_references [OF sample_facts s1(1) ops _ t] tag_references [OF sample_facts steps_nil _ _ t] s1(1)
    by auto
qed

text \<open>
  C14: the four indexes.  In every state that a run reaches, each skip list, walked along its
  lowest level, lists exactly the stored facts, each once and in the order of the index
  (identifier; subject, predicate, object; predicate, object, subject; object, subject,
  predicate), and counts them.
\<close>

theorem indexes_sorted:
  assumes "fresh_facts table random lg cs n = Some s0" "facts_steps rt s0 ops s"
    "\<forall>op \<in> set ops. op_fact_ok rt m op" "9 * length ops < 2 ^ 64"
    "(cmp, sl) \<in> {(compare_fact_id (cmp_tag rt), facts_index s), (compare_fact_spo (cmp_tag rt), facts_index_spo s),
       (compare_fact_pos (cmp_tag rt), facts_index_pos s), (compare_fact_osp (cmp_tag rt), facts_index_osp s)}"
  shows "\<exists>vs. sl_rep cmp (fact_ok rt m) sl vs \<and> sorted_wrt (\<lambda>v w. cmp v w < 0) vs \<and>
    set vs = {f. facts_map s (fact_key f) = Some (fact_id f)} \<and> sl_length sl = of_nat (length vs)"
proof -
  note i = fresh_facts_inv [OF assms(1)]
  have room: "db_room (facts_abs s0) (length ops)" using assms(4) i(7) by (simp add: db_room_weight)
  note inv = facts_steps_inv(1) [OF assms(2) i(1,2) assms(3) room]
  have F: "facts_set s = {f. facts_map s (fact_key f) = Some (fact_id f)}" using facts_set_iff [OF inv] by auto
  have "index_ok rt m cmp sl (facts_set s)" using inv assms(5) by (auto simp: facts_inv_def)
  then obtain vs where vs: "sl_rep cmp (fact_ok rt m) sl vs" "set vs = facts_set s" by (auto simp: index_ok_def)
  have "comparison cmp (fact_ok rt m)"
    using assms(5) fid.comparison_axioms spo.comparison_axioms pos.comparison_axioms osp.comparison_axioms by auto
  from comparison.rep_sorted [OF this vs(1)] comparison.rep_length [OF this vs(1)] vs F show ?thesis by auto
qed

theorem indexes_sorted_witness:
  "\<exists>s vs. facts_steps sample_rt sample_facts [Op_add sample_fact] s \<and>
    sl_rep (compare_fact_pos (cmp_tag sample_rt)) (fact_ok sample_rt True) (facts_index_pos s) vs \<and>
    set vs = {set_fact_id sample_fact 1}"
proof -
  obtain s1 where s1: "facts_steps sample_rt sample_facts [Op_add sample_fact] s1" "facts_inv sample_rt True [] s1"
    "facts_abs s1 = db_run (facts_abs sample_facts) [Op_add sample_fact]"
    by (rule sample_steps [of "[Op_add sample_fact]"]) (auto simp: sample_fact_ok)
  have ops: "\<forall>op \<in> set [Op_add sample_fact]. op_fact_ok sample_rt True op" by (simp add: sample_fact_ok)
  have "db_map (facts_abs s1) = [fact_key sample_fact \<mapsto> 1]" unfolding s1(3) by (simp add: sample_run_simps)
  then have "{f. facts_map s1 (fact_key f) = Some (fact_id f)} = {set_fact_id sample_fact 1}"
    by (auto simp: fact_eq_iff split: if_splits)
  then show ?thesis
    using indexes_sorted [OF sample_facts s1(1) ops, of "compare_fact_pos (cmp_tag sample_rt)" "facts_index_pos s1"] s1(1)
    by auto
qed

text \<open>
  C9: a query finds exactly the facts that match.  In a database that satisfies the invariant,
  \<open>facts_with_tags\<close> with any mixture of tags and unbound variables makes a cursor; reading it to its end
  returns, lists each stored fact that has the given tags and values of the types of the
  variables exactly once, in the order of the index chosen, and leaves the variables unbound.
\<close>

theorem facts_with_tags_exact:
  assumes "facts_inv rt m [] s" "arg_ok rt m vs x" "arg_ok rt m vs y" "arg_ok rt m vs z"
  shows "\<exists>c fs. facts_with_tags rt s vs x y z = Ok c \<and> collect_facts rt s vs c [] = Some (vs, Ok fs) \<and>
    distinct fs \<and> sorted_wrt (\<lambda>f g. index_compare (cur_index c) (cmp_tag rt) g f < 0) fs \<and>
    set fs = {f. facts_map s (fact_key f) = Some (fact_id f) \<and> query_matches vs x y z f}"
  using query_exact [OF assms] facts_set_iff [OF assms(1)] by simp

theorem facts_with_tags_exact_witness:
  "\<exists>s c. facts_steps sample_rt sample_facts [Op_add sample_fact] s \<and>
    facts_with_tags sample_rt s sample_vars (TPvar 0) (TPsym [98]) (TPvar 1) = Ok c \<and>
    collect_facts sample_rt s sample_vars c [] = Some (sample_vars, Ok [sample_stored])"
proof -
  obtain s where s: "facts_steps sample_rt sample_facts [Op_add sample_fact] s" "facts_inv sample_rt True [] s"
    "facts_set s = {sample_stored}" by (rule sample_one)
  obtain c fs where c: "facts_with_tags sample_rt s sample_vars (TPvar 0) (TPsym [98]) (TPvar 1) = Ok c"
    "collect_facts sample_rt s sample_vars c [] = Some (sample_vars, Ok fs)" "distinct fs"
    "set fs = {f. facts_map s (fact_key f) = Some (fact_id f) \<and> query_matches sample_vars (TPvar 0) (TPsym [98]) (TPvar 1) f}"
    using facts_with_tags_exact [OF s(2) sample_args(1) sample_args(2) sample_args(1)] by blast
  have "set fs = {sample_stored}"
    unfolding c(4) facts_set_iff [OF s(2), symmetric] s(3) using sample_query [of 0 1] by auto
  then have "fs = [sample_stored]" using c(3) by (intro distinct_one)
  then show ?thesis using s c by blast
qed

text \<open>
  C10: \<open>facts_remove_fact_tags\<close> with an unbound variable removes the matching facts as a whole.
  It returns and keeps the invariant; either every matching fact is gone and no other, or nothing
  has changed, which happens only when the log has failed, when a master is connected or when fewer
  identifiers are left than facts to remove, or the last write of the outermost commit has failed.
\<close>

theorem remove_fact_tags_atomic:
  assumes "facts_inv rt m [] s" "db_inv (facts_abs s)" "arg_ok rt m vs x" "arg_ok rt m vs y" "arg_ok rt m vs z"
    "unbound_var vs x \<noteq> None \<or> unbound_var vs y \<noteq> None \<or> unbound_var vs z \<noteq> None"
    "env_cleaning env \<or> update_permitted env" "F = {f \<in> facts_set s. query_matches vs x y z f}"
    "db_room (facts_abs s) (card F + 2)"
  shows "\<exists>s' r. facts_remove_fact_tags rt env ptr i s vs x y z = (s', vs, r) \<and>
    facts_inv rt m [] s' \<and> db_inv (facts_abs s') \<and>
    (r = Ok True \<and> facts_map s' = (\<lambda>k. if k \<in> fact_key ` F then None else facts_map s k) \<and>
       map tr_ptr (facts_transaction s') = map tr_ptr (facts_transaction s) \<or>
     r = Null \<and> facts_map s' = facts_map s \<and> facts_transaction s' = facts_transaction s \<and> facts_stuck s (Suc (card F)) \<or>
     r = Null \<and> facts_map s' = (\<lambda>k. if k \<in> fact_key ` F then None else facts_map s k) \<and>
       facts_transaction s = [] \<and> facts_transaction s' = [] \<and> (\<exists>l. facts_log s' = Some l \<and> log_failed l))"
proof -
  obtain s' r where e: "facts_remove_fact_tags rt env ptr i s vs x y z = (s', vs, r)" "facts_inv rt m [] s'" "db_inv (facts_abs s')"
    and a: "atomic_update s (Suc (card F)) (\<lambda>b M. b \<and> M = without (facts_map s) F) (s', r)" using facts_remove_fact_tags_atomic [OF assms] by blast
  show ?thesis
    by (intro exI [of _ s'] exI [of _ r] conjI e, insert a [unfolded atomic_update_def without_def prod.case])
       (elim disjE exE conjE; simp; blast?)
qed

theorem remove_fact_tags_atomic_witness:
  "\<exists>s s' r. facts_steps sample_rt sample_facts [Op_add sample_fact] s \<and> facts_map s \<noteq> Map.empty \<and>
    facts_remove_fact_tags sample_rt sample_env 7 0 s sample_vars (TPvar 0) (TPsym [98]) (TPvar 1) = (s', sample_vars, r) \<and>
    facts_map s' = Map.empty"
proof -
  obtain s where s: "facts_steps sample_rt sample_facts [Op_add sample_fact] s" "facts_inv sample_rt True [] s"
    "db_inv (facts_abs s)" "facts_map s = [fact_key sample_fact \<mapsto> 1]" "facts_set s = {sample_stored}"
    "db_room (facts_abs s) 10" "\<not> facts_stuck s 10" by (rule sample_one)
  have F: "{sample_stored} = {f \<in> facts_set s. query_matches sample_vars (TPvar 0) (TPsym [98]) (TPvar 1) f}"
    using sample_query [of 0 1] s(5) by auto
  have "\<not> facts_stuck s (Suc (card {sample_stored}))" using s(7) by (auto simp: facts_stuck_def)
  moreover have room: "db_room (facts_abs s) (card {sample_stored} + 2)" using s(6) by (simp add: db_room_def)
  have env: "env_cleaning sample_env \<or> update_permitted sample_env" by (simp add: update_permitted_def sample_env_def)
  have key: "fact_key sample_stored = fact_key sample_fact" by (simp add: sample_stored_def)
  have "(\<lambda>k. if k \<in> fact_key ` {sample_stored} then None else facts_map s k) = Map.empty"
    by (simp add: s(4) key fun_eq_iff)
  moreover obtain s' r where
    "facts_remove_fact_tags sample_rt sample_env 7 0 s sample_vars (TPvar 0) (TPsym [98]) (TPvar 1) = (s', sample_vars, r)"
    "facts_map s' = (\<lambda>k. if k \<in> fact_key ` {sample_stored} then None else facts_map s k) \<or> facts_stuck s (Suc (card {sample_stored}))"
    using remove_fact_tags_atomic [OF s(2,3) sample_args(1) sample_args(2) sample_args(1) _ env F room, where ptr = 7 and i = 0]
      sample_unbound(1) by blast
  ultimately show ?thesis using s(1,4) by (intro exI [of _ s] exI [of _ s'] exI [of _ r]) auto
qed

text \<open>
  C11: \<open>facts_replace_tags\<close> gives the subject and the predicate the one object.  It returns and keeps the
  invariant; either the facts with this subject and predicate are replaced by the one returned
  and no other fact has changed, or nothing has changed, for the reasons above, or the last write of
  the outermost commit has failed.
\<close>

theorem replace_tags_atomic:
  assumes "facts_inv rt m [] s" "db_inv (facts_abs s)" "fact_ok rt m (Fact x y z 0)" "x \<notin> range TPvar" "y \<notin> range TPvar"
    "update_permitted env" "F = {f \<in> facts_set s. fact_subject f = x \<and> fact_predicate f = y}"
    "db_room (facts_abs s) (card F + 3)"
  shows "\<exists>s' r. facts_replace_tags rt env ptr v s vs x y z = (s', var_init vs v ''Tag'', r) \<and>
    facts_inv rt m [] s' \<and> db_inv (facts_abs s') \<and>
    ((\<exists>i. r = Ok (Fact x y z i) \<and>
       facts_map s' = (\<lambda>k. if k \<in> fact_key ` F then None else facts_map s k)((x, y, z) \<mapsto> i)) \<and>
       map tr_ptr (facts_transaction s') = map tr_ptr (facts_transaction s) \<or>
     r = Null \<and> facts_map s' = facts_map s \<and> facts_transaction s' = facts_transaction s \<and> facts_stuck s (Suc (card F)) \<or>
     r = Null \<and> (\<exists>i. facts_map s' = (\<lambda>k. if k \<in> fact_key ` F then None else facts_map s k)((x, y, z) \<mapsto> i)) \<and>
       facts_transaction s = [] \<and> facts_transaction s' = [] \<and> (\<exists>l. facts_log s' = Some l \<and> log_failed l))"
proof -
  obtain s' r where e: "facts_replace_tags rt env ptr v s vs x y z = (s', var_init vs v ''Tag'', r)" "facts_inv rt m [] s'" "db_inv (facts_abs s')"
    and a: "atomic_update s (Suc (card F)) (\<lambda>g M. \<exists>i. g = Fact x y z i \<and> M = (without (facts_map s) F)((x, y, z) \<mapsto> i)) (s', r)" using facts_replace_tags_atomic [OF assms] by blast
  show ?thesis
    by (intro exI [of _ s'] exI [of _ r] conjI e, insert a [unfolded atomic_update_def without_def prod.case])
       (elim disjE exE conjE; simp; blast?)
qed

theorem replace_tags_atomic_witness:
  "\<exists>s s' r i. facts_steps sample_rt sample_facts [Op_add sample_fact] s \<and>
    facts_replace_tags sample_rt sample_env 7 5 s sample_vars (TPsym [97]) (TPsym [98]) (TPsym [99]) =
      (s', var_init sample_vars 5 ''Tag'', r) \<and>
    facts_map s = [(TPsym [97], TPsym [98], TU8 1) \<mapsto> 1] \<and> facts_map s' = [(TPsym [97], TPsym [98], TPsym [99]) \<mapsto> i]"
proof -
  obtain s where s: "facts_steps sample_rt sample_facts [Op_add sample_fact] s" "facts_inv sample_rt True [] s"
    "db_inv (facts_abs s)" "facts_map s = [fact_key sample_fact \<mapsto> 1]" "facts_set s = {sample_stored}"
    "db_room (facts_abs s) 10" "\<not> facts_stuck s 10" by (rule sample_one)
  have key: "fact_key sample_stored = (TPsym [97], TPsym [98], TU8 1)" "fact_key sample_fact = (TPsym [97], TPsym [98], TU8 1)"
    by (simp_all add: sample_stored_def sample_fact_def)
  have F: "{sample_stored} = {f \<in> facts_set s. fact_subject f = TPsym [97] \<and> fact_predicate f = TPsym [98]}"
    unfolding s(5) by (auto simp: sample_stored_def sample_fact_def set_fact_id_def)
  have "tag_ok sample_rt True (TPsym u)" for u using sample_args(2) [of u] by (simp add: arg_ok_def)
  then have ok: "fact_ok sample_rt True (Fact (TPsym [97]) (TPsym [98]) (TPsym [99]) 0)" by (simp add: fact_ok_def)
  have "\<not> facts_stuck s (Suc (card {sample_stored}))" using s(7) by (auto simp: facts_stuck_def)
  moreover have room: "db_room (facts_abs s) (card {sample_stored} + 3)" using s(6) by (simp add: db_room_def)
  have env: "update_permitted sample_env" by (simp add: update_permitted_def sample_env_def)
  have "(\<lambda>k. if k \<in> fact_key ` {sample_stored} then None else facts_map s k) = Map.empty"
    by (simp add: s(4) key fun_eq_iff)
  ultimately show ?thesis
    using replace_tags_atomic [OF s(2,3) ok _ _ env F room, where ptr = 7 and v = 5 and vs = sample_vars] s(1,4) key
    by auto
qed

text \<open>
  C12: \<open>facts_remove_all\<close> is a run of removals of all the facts, the latest identifier first.
  It returns; without an error the database is empty, and with one the facts before the
  failing one are gone, and the log has failed or the identifiers have run out.
\<close>

theorem remove_all_facts:
  assumes "facts_inv rt m [] s" "db_inv (facts_abs s)" "db_room (facts_abs s) (card (facts_set s))"
    "facts_connection_get_master s = None" "env_cleaning env \<or> update_permitted env" "qsort_ok qsort"
  shows "\<exists>fs s' r k. facts_remove_all rt env qsort s = (s', r) \<and> set fs = facts_set s \<and> distinct fs \<and>
    sorted_wrt (\<lambda>f g. fact_id g \<le> fact_id f) fs \<and>
    (r = Ok () \<and> facts_steps rt s (map Op_remove fs) s' \<and> facts_map s' = Map.empty \<or>
     r = Null \<and> k < length fs \<and> facts_steps rt s (map Op_remove (take (Suc k) fs)) s' \<and>
       facts_map s' = (\<lambda>x. if x \<in> fact_key ` set (take k fs) then None else facts_map s x) \<and>
       ((\<exists>l. facts_log s' = Some l \<and> log_failed l) \<or> 2 ^ 64 - 1 \<le> unat (facts_next_id s) + k))"
  using facts_remove_all_run [OF assms] unfolding without_def .

theorem remove_all_facts_witness:
  "\<exists>s fs s' r k. facts_steps sample_rt sample_facts [Op_add sample_fact] s \<and>
    facts_remove_all sample_rt sample_env (\<lambda>_ xs. rev (sort_key fact_id xs)) s = (s', r) \<and> fs = [sample_stored] \<and>
    (r = Ok () \<and> facts_map s' = Map.empty \<or> r = Null \<and> k = 0)"
proof -
  obtain s where s: "facts_steps sample_rt sample_facts [Op_add sample_fact] s" "facts_inv sample_rt True [] s"
    "db_inv (facts_abs s)" "facts_set s = {sample_stored}" "db_room (facts_abs s) 10" "\<not> facts_stuck s 10" by (rule sample_one)
  have room: "db_room (facts_abs s) (card (facts_set s))" using s(4,5) by (simp add: db_room_def)
  have master: "facts_connection_get_master s = None" using s(6) by (auto simp: facts_stuck_def)
  have env: "env_cleaning sample_env \<or> update_permitted sample_env" by (simp add: update_permitted_def sample_env_def)
  have "sorted_wrt (\<lambda>f g. fact_id g \<le> fact_id f) (rev (sort_key fact_id xs))" for xs :: "tag fact list"
    using sorted_sort_key [of fact_id xs] by (simp add: sorted_wrt_rev sorted_wrt_map)
  then have q: "qsort_ok (\<lambda>_ xs. rev (sort_key fact_id xs))"
    by (simp add: qsort_ok_def reverse_iff)
  obtain fs s' r k where *: "facts_remove_all sample_rt sample_env (\<lambda>_ xs. rev (sort_key fact_id xs)) s = (s', r)"
    "set fs = facts_set s" "distinct fs" "r = Ok () \<and> facts_map s' = Map.empty \<or> r = Null \<and> k < length fs"
    using remove_all_facts [OF s(2,3) room master env q] by blast
  have "fs = [sample_stored]" using *(2,3) s(4) by (intro distinct_one) simp_all
  then show ?thesis using * s(1) by auto
qed

text \<open>
  C40: what a query of three arguments finds when some of them are bound variables.  Each of \<open>a\<close>, \<open>b\<close>
  and \<open>c\<close> is a tag or a variable bound to one, and stands for \<open>x\<close>, \<open>y\<close> and \<open>z\<close>.  \<open>facts_with_3\<close> gives them to
  \<open>facts_cursor_init\<close> as they are, which searches for the start before it follows the variables and
  follows them for the end: reading the cursor lists the stored facts from \<open>(a, b, c)\<close> to \<open>(x, y, z)\<close> in
  the order of the index.  Variables are ordered among tags by their type number, 36.  So when the first
  argument that is a variable has a value whose type number is smaller (a number, a symbol, a list),
  nothing is found, and when it is greater (a string, a tuple) the fact sought is found, together
  with every other one in between.  With one or two unbound variables, \<open>facts_with_1_2\<close> follows the
  bound ones first: such queries are not the subject of this claim.
\<close>

theorem bound_variable_query:
  assumes "facts_inv rt m [] s" "stands_for vs a x" "stands_for vs b y" "stands_for vs c z"
    "tag_ok rt m x" "tag_ok rt m y" "tag_ok rt m z"
  shows "\<exists>cur fs. facts_with_tags rt s vs a b c = Ok cur \<and> collect_facts rt s vs cur [] = Some (vs, Ok fs) \<and> distinct fs \<and>
    set fs = {f. facts_map s (fact_key f) = Some (fact_id f) \<and> compare_fact_spo (cmp_tag rt) (Fact a b c 0) f \<le> 0 \<and>
      compare_fact_spo (cmp_tag rt) f (Fact x y z 0) \<le> 0} \<and>
    (if query_reaches a x b y c z then \<forall>i. facts_map s (x, y, z) = Some i \<longrightarrow> Fact x y z i \<in> set fs else fs = [])"
  using given_query [OF assms] by (simp add: facts_set_iff [OF assms(1)] cong: if_cong split del: if_split)

theorem bound_variable_query_witness:
  "(\<exists>s cur. facts_steps sample_rt sample_facts [Op_add sample_fact] s \<and> facts_map s (TPsym [97], TPsym [98], TU8 1) = Some 1 \<and>
     facts_with_tags sample_rt s bound_vars (TPvar 0) (TPsym [98]) (TU8 1) = Ok cur \<and>
     collect_facts sample_rt s bound_vars cur [] = Some (bound_vars, Ok [])) \<and>
   (\<exists>s cur. facts_steps sample_rt sample_facts [Op_add sample_text] s \<and> var_value bound_vars 1 = Some (TStr [98]) \<and>
     facts_with_tags sample_rt s bound_vars (TPvar 1) (TPsym [98]) (TU8 1) = Ok cur \<and>
     collect_facts sample_rt s bound_vars cur [] = Some (bound_vars, Ok [Fact (TStr [97]) (TPsym [98]) (TU8 1) 1]))"
proof
  note t = bound_vars_tags
  obtain s where s: "facts_steps sample_rt sample_facts [Op_add sample_fact] s" "facts_inv sample_rt True [] s"
    "facts_map s = [fact_key sample_fact \<mapsto> 1]" by (rule sample_one)
  obtain cur fs where "facts_with_tags sample_rt s bound_vars (TPvar 0) (TPsym [98]) (TU8 1) = Ok cur"
    "collect_facts sample_rt s bound_vars cur [] = Some (bound_vars, Ok fs)" "fs = []"
    using bound_variable_query [OF s(2) t(4) t(6) t(7) t(2) t(2) t(3), of "[98]"] by (auto simp: query_reaches_def)
  then show "\<exists>s cur. facts_steps sample_rt sample_facts [Op_add sample_fact] s \<and>
     facts_map s (TPsym [97], TPsym [98], TU8 1) = Some 1 \<and>
     facts_with_tags sample_rt s bound_vars (TPvar 0) (TPsym [98]) (TU8 1) = Ok cur \<and>
     collect_facts sample_rt s bound_vars cur [] = Some (bound_vars, Ok [])"
    using s(1,3) by (auto simp: sample_fact_def)
next
  note t = bound_vars_tags
  have "fact_ok sample_rt True sample_text" using t(1-3) by (simp add: sample_text_def)
  then obtain s where s: "facts_steps sample_rt sample_facts [Op_add sample_text] s" "facts_inv sample_rt True [] s"
    "facts_set s = {set_fact_id sample_text 1}" by (rule sample_single)
  obtain cur fs where q: "facts_with_tags sample_rt s bound_vars (TPvar 1) (TPsym [98]) (TU8 1) = Ok cur"
    "collect_facts sample_rt s bound_vars cur [] = Some (bound_vars, Ok fs)" "distinct fs"
    "set fs = {f. facts_map s (fact_key f) = Some (fact_id f) \<and>
      compare_fact_spo (cmp_tag sample_rt) (Fact (TPvar 1) (TPsym [98]) (TU8 1) 0) f \<le> 0 \<and>
      compare_fact_spo (cmp_tag sample_rt) f (Fact (TStr [98]) (TPsym [98]) (TU8 1) 0) \<le> 0}"
    using bound_variable_query [OF s(2) t(5) t(6) t(7) t(1) t(2) t(3)] by blast
  have "compare_tag mp_exact (TStr [97]) (TStr [98]) = -1" "compare_tag mp_exact (TPvar 1) (TStr [97]) = -1"
    by (simp_all add: compare_tag.simps [of _ "TStr _" "TStr _"] compare_tag.simps [of _ "TPvar _" "TStr _"] compare_tag_rows_def
        compare_tag_pvar_def compare_tag_same_def compare_str_def)
  then have compare_text: "compare_fact_spo (cmp_tag sample_rt) (Fact (TPvar 1) (TPsym [98]) (TU8 1) 0) sample_text \<le> 0"
    "compare_fact_spo (cmp_tag sample_rt) sample_text (Fact (TStr [98]) (TPsym [98]) (TU8 1) 0) \<le> 0"
    by (simp_all add: compare_fact_spo_def sample_text_def cmp_tag_def sample_rt_def)
  have "set fs = {sample_text}"
    unfolding q(4) facts_set_iff [OF s(2), symmetric] s(3)
    using compare_text by (auto simp: sample_text_def set_fact_id_def)
  then have "fs = [Fact (TStr [97]) (TPsym [98]) (TU8 1) 1]" using q(3) by (intro distinct_one) (simp_all add: sample_text_def)
  then show "\<exists>s cur. facts_steps sample_rt sample_facts [Op_add sample_text] s \<and> var_value bound_vars 1 = Some (TStr [98]) \<and>
     facts_with_tags sample_rt s bound_vars (TPvar 1) (TPsym [98]) (TU8 1) = Ok cur \<and>
     collect_facts sample_rt s bound_vars cur [] = Some (bound_vars, Ok [Fact (TStr [97]) (TPsym [98]) (TU8 1) 1])"
    using s(1) q(1,2) by (intro exI conjI) (simp_all add: bound_vars_def)
qed

text \<open>
  C30: the cursor over the table of facts visits every stored fact exactly once.
\<close>

theorem fact_cursor_visits:
  assumes "facts_inv rt m [] s"
  shows "set (map item_data (cursor_items (facts_facts s) (unat (set_count (facts_facts s))) set_cursor_init)) =
      {f. facts_map s (fact_key f) = Some (fact_id f)} \<and>
    distinct (map item_data (cursor_items (facts_facts s) (unat (set_count (facts_facts s))) set_cursor_init))"
  using facts_items(1,2) [OF assms] facts_set_iff [OF assms, symmetric] by simp

theorem fact_cursor_visits_witness:
  "\<exists>s. facts_steps sample_rt sample_facts [Op_add sample_fact] s \<and>
    map item_data (cursor_items (facts_facts s) (unat (set_count (facts_facts s))) set_cursor_init) = [sample_stored]"
proof -
  obtain s where s: "facts_steps sample_rt sample_facts [Op_add sample_fact] s" "facts_inv sample_rt True [] s"
    "facts_set s = {sample_stored}" by (rule sample_one)
  have "{f. facts_map s (fact_key f) = Some (fact_id f)} = {sample_stored}"
    using s(3) unfolding facts_set_iff [OF s(2), symmetric] by simp
  with fact_cursor_visits [OF s(2)]
  have "map item_data (cursor_items (facts_facts s) (unat (set_count (facts_facts s))) set_cursor_init) = [sample_stored]"
    by (intro distinct_one) (simp_all only:)
  with s(1) show ?thesis by (intro exI [of _ s] conjI)
qed

end
